(* ===== verification/CO_Prelude.thy ===== *)
theory CO_Prelude
  imports Main "HOL-Library.Word"
begin

unbundle bit_operations_syntax

section \<open>Prelude: machine types, bytes and shared lemmas\<close>

text \<open>
  What every component of the CANopen stack (\<^verbatim>\<open>src/lib/canopen\<close>) shares: names for the C integer
  types, little endian packing of integers into bytes (the \<^verbatim>\<open>memcpy\<close> and \<^verbatim>\<open>CO_SWAP_16/32/64\<close> idioms of the
  stack), and the lemmas on words the component theories use.
\<close>

type_synonym u8 = "8 word"
type_synonym u16 = "16 word"
type_synonym u32 = "32 word"
type_synonym u64 = "64 word"

text \<open>Comparisons of words as comparisons of natural numbers.\<close>

named_theorems word_nat \<open>comparisons of words over the natural numbers\<close>

lemmas word_nat_compare [word_nat] = word_less_nat_alt word_le_nat_alt

subsection \<open>Words\<close>

lemma xor_eq_0_iff_word [simp]: "x XOR y = 0 \<longleftrightarrow> x = (y :: 'a::len word)"
  by (auto simp: bit_eq_iff bit_simps)

lemma xor_right_cancel_word [simp]: "x XOR z = y XOR z \<longleftrightarrow> x = (y :: 'a::len word)"
  by (auto simp: bit_eq_iff bit_simps)

lemma xor_left_cancel_word [simp]: "z XOR x = z XOR y \<longleftrightarrow> x = (y :: 'a::len word)"
  by (auto simp: bit_eq_iff bit_simps)

lemma bit_u8_high [simp]: "8 \<le> n \<Longrightarrow> \<not> bit (b :: u8) n"
  using bit_imp_le_length [of b n] by auto

lemma bit_u16_high [simp]: "16 \<le> n \<Longrightarrow> \<not> bit (b :: u16) n"
  using bit_imp_le_length [of b n] by auto

lemma unat_u8_less [simp]: "unat (b :: u8) < 256"
  using unsigned_less [of b, where ?'a = nat] by simp

lemma unat_u16_less [simp]: "unat (b :: u16) < 65536"
  using unsigned_less [of b, where ?'a = nat] by simp

lemma unat_u32_less [simp]: "unat (b :: u32) < 4294967296"
  using unsigned_less [of b, where ?'a = nat] by simp

subsection \<open>Little endian integers\<close>

text \<open>
  \<^verbatim>\<open>memcpy\<close> between an integer and bytes on a little endian target (\<^verbatim>\<open>CO_LITTLE_ENDIAN\<close>, where
  \<^verbatim>\<open>CO_SWAP_16\<close>, \<^verbatim>\<open>CO_SWAP_32\<close> and \<^verbatim>\<open>CO_SWAP_64\<close> are the identity).
\<close>

fun le_value :: "u8 list \<Rightarrow> nat" where
  "le_value [] = 0"
| "le_value (b # bs) = unat b + 256 * le_value bs"

fun le_bytes :: "nat \<Rightarrow> nat \<Rightarrow> u8 list" where
  "le_bytes 0 n = []"
| "le_bytes (Suc k) n = word_of_nat n # le_bytes k (n div 256)"

lemma length_le_bytes [simp]: "length (le_bytes k n) = k"
  by (induction k arbitrary: n) auto

lemma le_bytes_numeral:
  "le_bytes (numeral k) n = word_of_nat n # le_bytes (pred_numeral k) (n div 256)"
  unfolding numeral_eq_Suc [of k] by (rule le_bytes.simps)

lemma le_value_less: "le_value bs < 256 ^ length bs"
proof (induction bs)
  case Nil
  then show ?case by simp
next
  case (Cons b bs)
  then have "Suc (le_value bs) * 256 \<le> 256 ^ length bs * 256"
    by (intro mult_right_mono) simp_all
  then show ?case using unat_u8_less [of b] by (simp del: unat_u8_less)
qed

lemma le_value_le_bytes: "n < 256 ^ k \<Longrightarrow> le_value (le_bytes k n) = n"
proof (induction k arbitrary: n)
  case 0
  then show ?case by simp
next
  case (Suc k)
  from Suc.prems have "n div 256 < 256 ^ k" by (simp add: less_mult_imp_div_less mult.commute)
  with Suc.IH [OF this] show ?case by (simp add: unsigned_of_nat take_bit_eq_mod)
qed

lemma le_bytes_le_value: "le_bytes (length bs) (le_value bs) = bs"
proof -
  have "(256 :: u8) = 0" by simp
  then have "256 * x = 0" for x :: u8 by (metis mult_zero_left)
  then show ?thesis by (induction bs) simp_all
qed

lemma le_bytes_word:
  assumes "length bs = k" "8 * k = LENGTH('a)"
  shows "le_bytes k (unat (word_of_nat (le_value bs) :: 'a::len word)) = bs"
proof -
  have "(256::nat) ^ k = 2 ^ (8 * k)" by (simp add: power_mult)
  then have "le_value bs < 2 ^ LENGTH('a)" using le_value_less [of bs] assms by simp
  then have "unat (word_of_nat (le_value bs) :: 'a word) = le_value bs"
    by (simp add: unsigned_of_nat take_bit_nat_eq_self)
  then show ?thesis using le_bytes_le_value [of bs] assms(1) by simp
qed

end
