(* ===== verification/Crc16.thy ===== *)
theory Crc16
  imports CO_Prelude
begin

section \<open>CRC-16-CCITT (\<^verbatim>\<open>301/crc16-ccitt.c\<close>)\<close>

text \<open>
  The table driven checksum that SDO block transfer uses, one byte at a time
  (\<^verbatim>\<open>crc16_ccitt_single\<close>) and over a block (\<^verbatim>\<open>crc16_ccitt\<close>). The reference is the bit serial
  division by the generator 0x1021: the table and both routines are proved equal to it. What the
  receiver of a block relies on follows: the checksum of a block can be computed piecewise, a block
  followed by its own checksum has checksum 0, and any change confined to two adjacent bytes changes
  the checksum.
\<close>

definition crc16_ccitt_table :: "u16 list" where
  "crc16_ccitt_table = [
    0x0000, 0x1021, 0x2042, 0x3063, 0x4084, 0x50A5, 0x60C6, 0x70E7,
    0x8108, 0x9129, 0xA14A, 0xB16B, 0xC18C, 0xD1AD, 0xE1CE, 0xF1EF,
    0x1231, 0x0210, 0x3273, 0x2252, 0x52B5, 0x4294, 0x72F7, 0x62D6,
    0x9339, 0x8318, 0xB37B, 0xA35A, 0xD3BD, 0xC39C, 0xF3FF, 0xE3DE,
    0x2462, 0x3443, 0x0420, 0x1401, 0x64E6, 0x74C7, 0x44A4, 0x5485,
    0xA56A, 0xB54B, 0x8528, 0x9509, 0xE5EE, 0xF5CF, 0xC5AC, 0xD58D,
    0x3653, 0x2672, 0x1611, 0x0630, 0x76D7, 0x66F6, 0x5695, 0x46B4,
    0xB75B, 0xA77A, 0x9719, 0x8738, 0xF7DF, 0xE7FE, 0xD79D, 0xC7BC,
    0x48C4, 0x58E5, 0x6886, 0x78A7, 0x0840, 0x1861, 0x2802, 0x3823,
    0xC9CC, 0xD9ED, 0xE98E, 0xF9AF, 0x8948, 0x9969, 0xA90A, 0xB92B,
    0x5AF5, 0x4AD4, 0x7AB7, 0x6A96, 0x1A71, 0x0A50, 0x3A33, 0x2A12,
    0xDBFD, 0xCBDC, 0xFBBF, 0xEB9E, 0x9B79, 0x8B58, 0xBB3B, 0xAB1A,
    0x6CA6, 0x7C87, 0x4CE4, 0x5CC5, 0x2C22, 0x3C03, 0x0C60, 0x1C41,
    0xEDAE, 0xFD8F, 0xCDEC, 0xDDCD, 0xAD2A, 0xBD0B, 0x8D68, 0x9D49,
    0x7E97, 0x6EB6, 0x5ED5, 0x4EF4, 0x3E13, 0x2E32, 0x1E51, 0x0E70,
    0xFF9F, 0xEFBE, 0xDFDD, 0xCFFC, 0xBF1B, 0xAF3A, 0x9F59, 0x8F78,
    0x9188, 0x81A9, 0xB1CA, 0xA1EB, 0xD10C, 0xC12D, 0xF14E, 0xE16F,
    0x1080, 0x00A1, 0x30C2, 0x20E3, 0x5004, 0x4025, 0x7046, 0x6067,
    0x83B9, 0x9398, 0xA3FB, 0xB3DA, 0xC33D, 0xD31C, 0xE37F, 0xF35E,
    0x02B1, 0x1290, 0x22F3, 0x32D2, 0x4235, 0x5214, 0x6277, 0x7256,
    0xB5EA, 0xA5CB, 0x95A8, 0x8589, 0xF56E, 0xE54F, 0xD52C, 0xC50D,
    0x34E2, 0x24C3, 0x14A0, 0x0481, 0x7466, 0x6447, 0x5424, 0x4405,
    0xA7DB, 0xB7FA, 0x8799, 0x97B8, 0xE75F, 0xF77E, 0xC71D, 0xD73C,
    0x26D3, 0x36F2, 0x0691, 0x16B0, 0x6657, 0x7676, 0x4615, 0x5634,
    0xD94C, 0xC96D, 0xF90E, 0xE92F, 0x99C8, 0x89E9, 0xB98A, 0xA9AB,
    0x5844, 0x4865, 0x7806, 0x6827, 0x18C0, 0x08E1, 0x3882, 0x28A3,
    0xCB7D, 0xDB5C, 0xEB3F, 0xFB1E, 0x8BF9, 0x9BD8, 0xABBB, 0xBB9A,
    0x4A75, 0x5A54, 0x6A37, 0x7A16, 0x0AF1, 0x1AD0, 0x2AB3, 0x3A92,
    0xFD2E, 0xED0F, 0xDD6C, 0xCD4D, 0xBDAA, 0xAD8B, 0x9DE8, 0x8DC9,
    0x7C26, 0x6C07, 0x5C64, 0x4C45, 0x3CA2, 0x2C83, 0x1CE0, 0x0CC1,
    0xEF1F, 0xFF3E, 0xCF5D, 0xDF7C, 0xAF9B, 0xBFBA, 0x8FD9, 0x9FF8,
    0x6E17, 0x7E36, 0x4E55, 0x5E74, 0x2E93, 0x3EB2, 0x0ED1, 0x1EF0]"

definition crc16_ccitt_single :: "u16 \<Rightarrow> u8 \<Rightarrow> u16" where
  "crc16_ccitt_single crc chr =
     (let tmp = (ucast (drop_bit 8 crc) :: u8) XOR chr
      in push_bit 8 crc XOR crc16_ccitt_table ! unat tmp)"

text \<open>
  The block is the memory the pointer refers to: the model reads its first \<^verbatim>\<open>blockLength\<close> bytes. A length
  beyond the end of the memory, where the C code would read past it, has no value of its own here; all
  callers of the model pass a length within the block.
\<close>

definition crc16_ccitt :: "u8 list \<Rightarrow> nat \<Rightarrow> u16 \<Rightarrow> u16" where
  "crc16_ccitt block blockLength crc =
     foldl (\<lambda>crc b.
        let tmp = (ucast (drop_bit 8 crc) :: u8) XOR b
        in push_bit 8 crc XOR crc16_ccitt_table ! unat tmp) crc (take blockLength block)"

subsection \<open>The bit serial reference\<close>

text \<open>One step of the shift register with generator polynomial 0x1021, and one byte fed into it.\<close>

definition poly_step :: "u16 \<Rightarrow> u16" where
  "poly_step x = (if bit x 15 then push_bit 1 x XOR 0x1021 else push_bit 1 x)"

definition crc_ref_byte :: "u16 \<Rightarrow> u8 \<Rightarrow> u16" where
  "crc_ref_byte crc b = (poly_step ^^ 8) (crc XOR push_bit 8 (ucast b))"

subsection \<open>The interface of a streaming checksum\<close>

text \<open>
  A byte-wise update and a routine over a whole block. The laws: the routine is the update folded over
  the first \<^verbatim>\<open>n\<close> bytes, and for a fixed byte the update loses nothing of the previous value.
\<close>

locale stream_checksum =
  fixes upd :: "'s \<Rightarrow> 'b \<Rightarrow> 's"
    and whole :: "'b list \<Rightarrow> nat \<Rightarrow> 's \<Rightarrow> 's"
  assumes whole_fold: "whole xs n s = foldl upd s (take n xs)"
    and upd_inj: "upd s b = upd t b \<Longrightarrow> s = t"
begin

lemma whole_append:
  "whole (xs @ ys) (length xs + n) s = whole ys n (whole xs (length xs) s)"
  by (simp add: whole_fold)

lemma whole_snoc: "whole (xs @ [b]) (Suc (length xs)) s = upd (whole xs (length xs) s) b"
  by (simp add: whole_fold)

lemma fold_inj: "foldl upd s ys = foldl upd t ys \<Longrightarrow> s = t"
  by (induction ys arbitrary: s t) (auto dest: upd_inj)

end

subsection \<open>Algebra of the shift register\<close>

lemma length_crc16_ccitt_table [simp]: "length crc16_ccitt_table = 256"
  by (simp add: crc16_ccitt_table_def)

lemma funpow_8: "(f ^^ 8) x = f (f (f (f (f (f (f (f x)))))))"
  by (simp add: numeral_eq_Suc)

lemma poly_step_numeral [simp]:
  "poly_step (numeral n) =
     (if bit (numeral n :: u16) 15 then push_bit 1 (numeral n) XOR 0x1021 else push_bit 1 (numeral n))"
  by (simp add: poly_step_def)

lemma poly_step_0 [simp]: "poly_step 0 = 0"
  by (simp add: poly_step_def)

lemma table_eq_map:
  "crc16_ccitt_table = map (\<lambda>i. (poly_step ^^ 8) (push_bit 8 (of_nat i))) [0..<256]"
  by (simp add: crc16_ccitt_table_def upt_rec [of 0 256] upt_rec [of "Suc 0" 256]
      numeral_2_eq_2 [symmetric] funpow_8)

lemma poly_step_xor: "poly_step (x XOR y) = poly_step x XOR poly_step y"
  by (auto simp: poly_step_def bit_simps bit_eq_iff)

lemma poly_steps_xor: "(poly_step ^^ n) (x XOR y) = (poly_step ^^ n) x XOR (poly_step ^^ n) y"
  by (induction n) (simp_all add: poly_step_xor)

lemma bit_double_u16: "bit (x * 2 :: u16) n \<longleftrightarrow> 0 < n \<and> n < 16 \<and> bit x (n - 1)"
  by (cases n) (auto simp: bit_double_iff mult.commute [of x] bit_imp_le_length)

lemma poly_step_eq_0:
  assumes zero: "poly_step x = 0"
  shows "x = 0"
proof -
  have "bit (poly_step x) 0 = bit x 15"
    by (simp add: poly_step_def bit_simps bit_double_u16)
  with zero have top: "\<not> bit x 15" by simp
  with zero have dbl: "x * 2 = 0" by (simp add: poly_step_def)
  have "\<not> bit x n" for n
  proof (cases "n < 15")
    case True
    with dbl bit_double_u16 [of x "Suc n"] show ?thesis by simp
  next
    case False
    with top bit_imp_le_length [of x n] show ?thesis
      by (cases "n = 15") auto
  qed
  then show ?thesis by (simp add: bit_eq_iff)
qed

lemma poly_steps_eq_0: "(poly_step ^^ n) x = 0 \<Longrightarrow> x = 0"
  by (induction n) (auto dest: poly_step_eq_0)

lemma poly_steps_inj: "(poly_step ^^ n) x = (poly_step ^^ n) y \<Longrightarrow> x = y"
  using poly_steps_eq_0 [of n "x XOR y"] by (simp add: poly_steps_xor)

lemma poly_steps_zero [simp]: "(poly_step ^^ n) 0 = 0"
  by (induction n) simp_all

text \<open>A byte in the low half of the register is shifted up unchanged by eight steps.\<close>

lemma poly_steps_low: "n \<le> 8 \<Longrightarrow> (poly_step ^^ n) (ucast (b::u8)) = push_bit n (ucast b)"
proof (induction n)
  case 0
  then show ?case by simp
next
  case (Suc n)
  from Suc.prems have "\<not> bit (push_bit n (ucast b :: u16)) 15"
    using bit_imp_le_length [of b "15 - n"] by (auto simp: bit_simps)
  with Suc show ?case
    by (simp add: poly_step_def del: push_bit_Suc)
qed

lemma split_u16: "x = push_bit 8 (ucast (ucast (drop_bit 8 x) :: u8)) XOR (ucast (ucast x :: u8) :: u16)"
  by (rule bit_eqI) (auto simp: bit_simps)

lemma table_nth: "crc16_ccitt_table ! unat (b::u8) = (poly_step ^^ 8) (push_bit 8 (ucast b))"
  by (simp add: table_eq_map)

lemma crc16_ccitt_single_ref: "crc16_ccitt_single crc b = crc_ref_byte crc b"
proof -
  let ?hi = "ucast (drop_bit 8 crc) :: u8" and ?lo = "ucast crc :: u8"
  have "crc_ref_byte crc b =
      (poly_step ^^ 8) (push_bit 8 (ucast (?hi XOR b))) XOR (poly_step ^^ 8) (ucast ?lo)"
    unfolding crc_ref_byte_def poly_steps_xor [symmetric]
    by (subst (1) split_u16 [of crc]) (simp add: ac_simps unsigned_xor_eq)
  also have "(poly_step ^^ 8) (ucast ?lo :: u16) = push_bit 8 crc"
    by (subst poly_steps_low) (auto intro!: bit_eqI simp: bit_simps)
  finally show ?thesis
    by (simp add: crc16_ccitt_single_def table_nth ac_simps)
qed

lemma crc16_ccitt_fold: "crc16_ccitt block n crc = foldl crc16_ccitt_single crc (take n block)"
  by (simp add: crc16_ccitt_def crc16_ccitt_single_def [abs_def] Let_def)

interpretation crc: stream_checksum crc16_ccitt_single crc16_ccitt
proof
  fix s t b
  assume "crc16_ccitt_single s b = crc16_ccitt_single t b"
  then have "(poly_step ^^ 8) (s XOR push_bit 8 (ucast b)) = (poly_step ^^ 8) (t XOR push_bit 8 (ucast b))"
    by (simp add: crc16_ccitt_single_ref crc_ref_byte_def)
  from poly_steps_inj [OF this] show "s = t" by simp
qed (rule crc16_ccitt_fold)

text \<open>Two bytes are one 16 bit step.\<close>

lemma crc_two_bytes:
  "crc16_ccitt_single (crc16_ccitt_single c a) b =
     (poly_step ^^ 16) (c XOR push_bit 8 (ucast a) XOR ucast b)"
proof -
  have "push_bit 8 (ucast b :: u16) = (poly_step ^^ 8) (ucast b)"
    by (simp add: poly_steps_low)
  then have "crc16_ccitt_single (crc16_ccitt_single c a) b =
      (poly_step ^^ 8) ((poly_step ^^ 8) (c XOR push_bit 8 (ucast a) XOR ucast b))"
    by (simp only: crc16_ccitt_single_ref crc_ref_byte_def poly_steps_xor xor.assoc)
  then show ?thesis
    by (simp only: funpow_add [symmetric, THEN fun_cong, unfolded comp_def]) simp
qed


text \<open>C12: the table driven routine computes the bit serial CRC with generator 0x1021 over the first
  \<^verbatim>\<open>blockLength\<close> bytes of every block, from every start value; and the checksum of two pieces that follow
  each other is the checksum of the second piece with the checksum of the first as its start value.\<close>

theorem crc16_ccitt_correct:
  "crc16_ccitt block blockLength crc = foldl crc_ref_byte crc (take blockLength block) \<and>
   crc16_ccitt (block1 @ block2) (length block1 + n) crc =
     crc16_ccitt block2 n (crc16_ccitt block1 (length block1) crc)"
  by (simp add: crc.whole_append) (simp add: crc16_ccitt_fold crc16_ccitt_single_ref [abs_def])

text \<open>Two blocks that differ only in one pair of adjacent bytes have different checksums.\<close>

theorem crc16_ccitt_detects_burst:
  assumes "(a0, a1) \<noteq> (b0, b1)"
  shows "crc16_ccitt (xs @ [a0, a1] @ ys) (length (xs @ [a0, a1] @ ys)) crc \<noteq>
         crc16_ccitt (xs @ [b0, b1] @ ys) (length (xs @ [b0, b1] @ ys)) crc"
proof
  assume "crc16_ccitt (xs @ [a0, a1] @ ys) (length (xs @ [a0, a1] @ ys)) crc =
          crc16_ccitt (xs @ [b0, b1] @ ys) (length (xs @ [b0, b1] @ ys)) crc"
  then have "foldl crc16_ccitt_single (crc16_ccitt_single (crc16_ccitt_single (foldl crc16_ccitt_single crc xs) a0) a1) ys
     = foldl crc16_ccitt_single (crc16_ccitt_single (crc16_ccitt_single (foldl crc16_ccitt_single crc xs) b0) b1) ys"
    by (simp add: crc16_ccitt_fold)
  from crc.fold_inj [OF this]
  have "(poly_step ^^ 16) (foldl crc16_ccitt_single crc xs XOR (push_bit 8 (ucast a0) XOR ucast a1))
      = (poly_step ^^ 16) (foldl crc16_ccitt_single crc xs XOR (push_bit 8 (ucast b0) XOR ucast b1))"
    by (simp add: crc_two_bytes xor.assoc)
  from poly_steps_inj [OF this]
  have eq: "push_bit 8 (ucast a0 :: u16) XOR ucast a1 = push_bit 8 (ucast b0) XOR ucast b1" by simp
  have "(ucast (drop_bit 8 (push_bit 8 (ucast x) XOR ucast y :: u16)) :: u8) = x" 
       "(ucast (push_bit 8 (ucast x) XOR ucast y :: u16) :: u8) = y" for x y :: u8
    by (auto intro!: bit_eqI simp: bit_simps)
  with eq assms show False by metis
qed

theorem crc16_ccitt_detects_burst_witness:
  "crc16_ccitt ([1, 2] @ [3, 4] @ [5]) (length ([1, 2] @ [3, 4] @ [5 :: u8])) 0 \<noteq>
   crc16_ccitt ([1, 2] @ [3, 5] @ [5]) (length ([1, 2] @ [3, 5] @ [5 :: u8])) 0"
  by (rule crc16_ccitt_detects_burst) simp

text \<open>Appending the checksum of a block to the block, high byte first, gives a block whose checksum
  is 0, so a receiver can verify a block without knowing where the data ends.\<close>

theorem crc16_ccitt_residue:
  "crc16_ccitt
     (block @ [ucast (drop_bit 8 (crc16_ccitt block (length block) crc)),
               ucast (crc16_ccitt block (length block) crc)]) (length block + 2) crc = 0"
  using split_u16 [of "foldl crc16_ccitt_single crc block"]
  by (simp add: crc16_ccitt_fold crc_two_bytes xor.assoc)

end
