(* ===== verification/Ring_Queue.thy ===== *)
theory Ring_Queue
  imports CO_Prelude
begin

section \<open>Ring indices and the interface of a bounded queue\<close>

text \<open>
  Two components keep bytes or messages in a circular buffer: the byte FIFO of \<^verbatim>\<open>301/CO_fifo.c\<close> and the
  buffer of unsent emergency messages of \<^verbatim>\<open>301/CO_Emergency.c\<close>. This theory holds what they share: the
  step \<^verbatim>\<open>if (++ptr == size) ptr = 0\<close>, the distance between two positions, the segment of a ring that
  starts at a position, and the contract of a bounded first-in first-out queue as a locale. Both
  components interpret the locale on their own operations.
\<close>

subsection \<open>Positions in a ring\<close>

definition ring_next :: "nat \<Rightarrow> nat \<Rightarrow> nat" where
  "ring_next n i = (if Suc i = n then 0 else Suc i)"

definition ring_dist :: "nat \<Rightarrow> nat \<Rightarrow> nat \<Rightarrow> nat" where
  "ring_dist n i j = (if i \<le> j then j - i else j + n - i)"

definition ring_seg :: "'a list \<Rightarrow> nat \<Rightarrow> nat \<Rightarrow> nat \<Rightarrow> 'a list" where
  "ring_seg b n i k = map (\<lambda>j. b ! ((i + j) mod n)) [0..<k]"

lemma ring_next_less: "i < n \<Longrightarrow> ring_next n i < n"
  by (auto simp: ring_next_def)

lemma ring_next_mod: "i < n \<Longrightarrow> ring_next n i = Suc i mod n"
  by (auto simp: ring_next_def mod_Suc)

lemma ring_dist_less: "i < n \<Longrightarrow> j < n \<Longrightarrow> ring_dist n i j < n"
  by (auto simp: ring_dist_def)

lemma ring_dist_same [simp]: "ring_dist n i i = 0"
  by (simp add: ring_dist_def)

lemma ring_dist_eq_0: "i < n \<Longrightarrow> j < n \<Longrightarrow> ring_dist n i j = 0 \<longleftrightarrow> i = j"
  by (auto simp: ring_dist_def)

lemma ring_dist_add: "i < n \<Longrightarrow> j < n \<Longrightarrow> (i + ring_dist n i j) mod n = j"
  by (auto simp: ring_dist_def)

lemma ring_dist_unique:
  assumes "i < n" "j < n" "k < n" "(i + k) mod n = j"
  shows "k = ring_dist n i j"
proof (cases "i + k < n")
  case True
  with assms show ?thesis by (simp add: ring_dist_def)
next
  case False
  with assms(1,3) have "i + k - n < n" by arith
  with False have "(i + k) mod n = i + k - n"
    by (simp add: le_mod_geq)
  with assms False show ?thesis by (auto simp: ring_dist_def)
qed

lemma ring_dist_next_right:
  "i < n \<Longrightarrow> j < n \<Longrightarrow> Suc (ring_dist n i j) < n \<Longrightarrow> ring_dist n i (ring_next n j) = Suc (ring_dist n i j)"
  by (auto simp: ring_dist_def ring_next_def)

lemma ring_dist_next_left:
  "i < n \<Longrightarrow> j < n \<Longrightarrow> i \<noteq> j \<Longrightarrow> Suc (ring_dist n (ring_next n i) j) = ring_dist n i j"
  by (auto simp: ring_dist_def ring_next_def)

text \<open>The test for a full buffer that the FIFO makes before it writes.\<close>

lemma ring_full_iff:
  "i < n \<Longrightarrow> j < n \<Longrightarrow> 2 \<le> n \<Longrightarrow>
    (Suc j = i \<or> (Suc j = n \<and> i = 0)) \<longleftrightarrow> Suc (ring_dist n i j) = n"
  by (auto simp: ring_dist_def)

lemma ring_next_eq_iff:
  "i < n \<Longrightarrow> j < n \<Longrightarrow> ring_next n j = i \<longleftrightarrow> Suc (ring_dist n i j) = n"
  by (auto simp: ring_dist_def ring_next_def)

subsection \<open>Segments\<close>

lemma length_ring_seg [simp]: "length (ring_seg b n i k) = k"
  by (simp add: ring_seg_def)

lemma ring_seg_0 [simp]: "ring_seg b n i 0 = []"
  by (simp add: ring_seg_def)

lemma ring_seg_snoc: "ring_seg b n i (Suc k) = ring_seg b n i k @ [b ! ((i + k) mod n)]"
  by (simp add: ring_seg_def)

lemma ring_seg_shift: "ring_seg b n (i mod n) k = ring_seg b n i k"
  by (simp add: ring_seg_def mod_add_left_eq)

lemma ring_seg_Cons: "ring_seg b n i (Suc k) = b ! (i mod n) # ring_seg b n (Suc i) k"
proof -
  have "map f [0..<Suc k] = f 0 # map (\<lambda>j. f (Suc j)) [0..<k]" for f :: "nat \<Rightarrow> 'a"
    by (simp add: map_upt_Suc del: upt_Suc)
  then show ?thesis by (simp add: ring_seg_def del: upt_Suc)
qed

lemma ring_seg_step:
  assumes "i < n" "j < n" "i \<noteq> j"
  shows "ring_seg b n i (ring_dist n i j) =
           b ! i # ring_seg b n (ring_next n i) (ring_dist n (ring_next n i) j)"
  using assms ring_dist_next_left [OF assms]
  by (simp add: ring_seg_Cons [of b n i] ring_next_mod ring_seg_shift flip: ring_dist_next_left [OF assms])

lemma ring_seg_update_outside:
  assumes "\<And>j. j < k \<Longrightarrow> (i + j) mod n \<noteq> p"
  shows "ring_seg (b[p := x]) n i k = ring_seg b n i k"
  using assms by (auto simp: ring_seg_def) (metis nth_list_update_neq)

lemma ring_seg_write:
  assumes "i < n" "p < n" "n \<le> length b" "Suc (ring_dist n i p) < n"
  shows "ring_seg (b[p := x]) n i (ring_dist n i (ring_next n p)) =
         ring_seg b n i (ring_dist n i p) @ [x]"
proof -
  have "(i + j) mod n \<noteq> p" if "j < ring_dist n i p" for j
    using ring_dist_unique [of i n p j] that assms by fastforce
  with assms show ?thesis
    by (simp add: ring_dist_next_right ring_seg_snoc ring_dist_add ring_seg_update_outside)
qed

text \<open>
  The same for a ring that may be filled up completely, its element count kept apart from the two
  positions: writing just behind the last of \<^verbatim>\<open>k\<close> elements extends the segment.
\<close>

lemma ring_seg_write_end:
  assumes "i < n" "n \<le> length b" "k < n" "p = (i + k) mod n"
  shows "ring_seg (b[p := x]) n i (Suc k) = ring_seg b n i k @ [x]"
proof -
  have k: "k = ring_dist n i p"
    using assms by (intro ring_dist_unique) simp_all
  have "(i + j) mod n \<noteq> p" if "j < k" for j
  proof
    assume "(i + j) mod n = p"
    then have "j = ring_dist n i p"
      using assms that by (intro ring_dist_unique) simp_all
    with k that show False by simp
  qed
  moreover have "p < length b" using assms mod_less_divisor [of n "i + k"] by linarith
  ultimately show ?thesis using assms(4) by (simp add: ring_seg_snoc ring_seg_update_outside)
qed

lemma take_ring_seg: "m \<le> k \<Longrightarrow> take m (ring_seg b n i k) = ring_seg b n i m"
  by (simp add: ring_seg_def take_map)

lemma drop_ring_seg: "drop m (ring_seg b n i k) = ring_seg b n (i + m) (k - m)"
  by (rule nth_equalityI) (auto simp: ring_seg_def add.assoc nth_append)

lemma ring_seg_contiguous: "i + k \<le> n \<Longrightarrow> n \<le> length b \<Longrightarrow> ring_seg b n i k = take k (drop i b)"
  by (rule nth_equalityI) (auto simp: ring_seg_def)

subsection \<open>The contract of a bounded queue\<close>

text \<open>
  \<^verbatim>\<open>enq\<close> adds at the end while there is room and does not change the contents otherwise; \<^verbatim>\<open>deq\<close> removes
  the oldest element.
\<close>

locale bounded_queue =
  fixes enq :: "'q \<Rightarrow> 'a \<Rightarrow> 'q"
    and deq :: "'q \<Rightarrow> ('a \<times> 'q) option"
    and contents :: "'q \<Rightarrow> 'a list"
    and cap :: "'q \<Rightarrow> nat"
    and invar :: "'q \<Rightarrow> bool"
  assumes contents_bound: "invar q \<Longrightarrow> length (contents q) \<le> cap q"
    and contents_enq: "invar q \<Longrightarrow> length (contents q) < cap q \<Longrightarrow> contents (enq q x) = contents q @ [x]"
    and contents_enq_full: "invar q \<Longrightarrow> length (contents q) = cap q \<Longrightarrow> contents (enq q x) = contents q"
    and invar_enq: "invar q \<Longrightarrow> invar (enq q x)"
    and cap_enq: "invar q \<Longrightarrow> cap (enq q x) = cap q"
    and deq_empty: "invar q \<Longrightarrow> contents q = [] \<Longrightarrow> deq q = None"
    and deq_Cons: "invar q \<Longrightarrow> contents q = x # xs \<Longrightarrow>
          \<exists>q'. deq q = Some (x, q') \<and> contents q' = xs \<and> invar q' \<and> cap q' = cap q"
begin

fun deq_many :: "nat \<Rightarrow> 'q \<Rightarrow> 'a list \<times> 'q" where
  "deq_many 0 q = ([], q)"
| "deq_many (Suc n) q = (case deq q of None \<Rightarrow> ([], q)
     | Some (x, q') \<Rightarrow> (case deq_many n q' of (xs, q'') \<Rightarrow> (x # xs, q'')))"

lemma invar_enq_all: "invar q \<Longrightarrow> invar (foldl enq q xs) \<and> cap (foldl enq q xs) = cap q"
  by (induction xs arbitrary: q) (auto simp: invar_enq cap_enq)

lemma contents_enq_all:
  "invar q \<Longrightarrow> contents (foldl enq q xs) = contents q @ take (cap q - length (contents q)) xs"
proof (induction xs arbitrary: q)
  case Nil
  then show ?case by simp
next
  case (Cons x xs)
  note IH = Cons.IH [OF invar_enq [OF Cons.prems, of x]]
  show ?case
  proof (cases "length (contents q) < cap q")
    case True
    with IH Cons.prems show ?thesis
      by (simp add: contents_enq cap_enq take_Cons' Suc_diff_Suc)
  next
    case False
    with contents_bound [OF Cons.prems] have "length (contents q) = cap q" by simp
    with IH Cons.prems show ?thesis by (simp add: contents_enq_full cap_enq)
  qed
qed

lemma deq_many_contents:
  "invar q \<Longrightarrow> fst (deq_many n q) = take n (contents q) \<and>
     contents (snd (deq_many n q)) = drop n (contents q) \<and> invar (snd (deq_many n q))"
proof (induction n arbitrary: q)
  case 0
  then show ?case by simp
next
  case (Suc n)
  show ?case
  proof (cases "contents q")
    case Nil
    with deq_empty [OF Suc.prems] Suc.prems show ?thesis by simp
  next
    case (Cons x xs)
    from deq_Cons [OF Suc.prems Cons] obtain q' where
      "deq q = Some (x, q')" "contents q' = xs" "invar q'" by blast
    with Suc.IH [of q'] Cons show ?thesis by (auto split: prod.splits)
  qed
qed

text \<open>First in, first out: what is put into an empty queue with enough room comes out in order.\<close>

lemma fifo_order:
  assumes "invar q" "contents q = []" "length xs \<le> cap q"
  shows "fst (deq_many (length xs) (foldl enq q xs)) = xs"
  using assms deq_many_contents [of "foldl enq q xs"] invar_enq_all [of q xs]
    contents_enq_all [of q xs] by simp

end

end
