(* ===== verification/Fifo.thy ===== *)
theory Fifo
  imports Ring_Queue Crc16
begin

section \<open>The byte FIFO (\<^verbatim>\<open>301/CO_fifo.h\<close>, \<^verbatim>\<open>301/CO_fifo.c\<close>)\<close>

text \<open>
  A circular buffer of bytes with a write position, a read position and an alternate read position that
  can run ahead of it. One byte stays unused, so equal positions mean an empty buffer. The record follows
  \<^verbatim>\<open>CO_fifo_t\<close>; the buffer that \<^verbatim>\<open>buf\<close> points to is the list \<^verbatim>\<open>f_buf\<close>, and a \<^verbatim>\<open>NULL\<close> buffer is the empty
  list. Sizes and positions (\<^verbatim>\<open>size_t\<close>) are naturals; the two places where the code computes with
  \<^verbatim>\<open>int\<close> keep the 32 bit width. A pointer to a local position (\<^verbatim>\<open>bufDest\<close>, \<^verbatim>\<open>bufSrc\<close>) that the code
  moves together with \<^verbatim>\<open>writePtr\<close> or \<^verbatim>\<open>readPtr\<close> is that position.

  \<^verbatim>\<open>fifo_inv\<close> is the well-formedness invariant and \<^verbatim>\<open>fifo_contents\<close> the abstraction to a list of bytes:
  every operation keeps the first and acts on the second as a queue. The FIFO interprets the
  \<^verbatim>\<open>bounded_queue\<close> contract.
\<close>

record CO_fifo_t =
  f_buf :: "u8 list"
  f_bufSize :: nat
  f_writePtr :: nat
  f_readPtr :: nat
  f_altReadPtr :: nat
  f_started :: bool
  f_aux :: u32

subsection \<open>Operations on single bytes\<close>

definition CO_fifo_init :: "CO_fifo_t \<Rightarrow> u8 list \<Rightarrow> nat \<Rightarrow> CO_fifo_t" where
  "CO_fifo_init fifo buf bufSize =
     (if buf = [] \<or> bufSize < 2 then fifo
      else fifo\<lparr>f_readPtr := 0, f_writePtr := 0, f_buf := buf, f_bufSize := bufSize\<rparr>)"

definition CO_fifo_reset :: "CO_fifo_t \<Rightarrow> CO_fifo_t" where
  "CO_fifo_reset fifo = fifo\<lparr>f_readPtr := 0, f_writePtr := 0, f_started := False\<rparr>"

definition CO_fifo_getSpace :: "CO_fifo_t \<Rightarrow> nat" where
  "CO_fifo_getSpace fifo =
     (let sizeLeft = word_of_nat (f_readPtr fifo) - word_of_nat (f_writePtr fifo) - 1 :: u32;
          sizeLeft = (if sint sizeLeft < 0 then sizeLeft + word_of_nat (f_bufSize fifo) else sizeLeft)
      in unat sizeLeft)"

definition CO_fifo_getOccupied :: "CO_fifo_t \<Rightarrow> nat" where
  "CO_fifo_getOccupied fifo =
     (let sizeOccupied = word_of_nat (f_writePtr fifo) - word_of_nat (f_readPtr fifo) :: u32;
          sizeOccupied = (if sint sizeOccupied < 0 then sizeOccupied + word_of_nat (f_bufSize fifo)
                          else sizeOccupied)
      in unat sizeOccupied)"

definition CO_fifo_putc :: "CO_fifo_t \<Rightarrow> u8 \<Rightarrow> bool \<times> CO_fifo_t" where
  "CO_fifo_putc fifo c =
     (if f_buf fifo \<noteq> [] then
        let writePtrNext = f_writePtr fifo + 1
        in if writePtrNext \<noteq> f_readPtr fifo \<and> \<not> (writePtrNext = f_bufSize fifo \<and> f_readPtr fifo = 0)
           then (True, fifo\<lparr>f_buf := (f_buf fifo)[f_writePtr fifo := c],
                   f_writePtr := (if writePtrNext = f_bufSize fifo then 0 else writePtrNext)\<rparr>)
           else (False, fifo)
      else (False, fifo))"

definition CO_fifo_putc_ov :: "CO_fifo_t \<Rightarrow> u8 \<Rightarrow> CO_fifo_t" where
  "CO_fifo_putc_ov fifo c =
     (if f_buf fifo \<noteq> [] then
        let fifo = fifo\<lparr>f_buf := (f_buf fifo)[f_writePtr fifo := c]\<rparr>;
            fifo = fifo\<lparr>f_writePtr := ring_next (f_bufSize fifo) (f_writePtr fifo)\<rparr>
        in if f_readPtr fifo = f_writePtr fifo
           then fifo\<lparr>f_readPtr := ring_next (f_bufSize fifo) (f_readPtr fifo)\<rparr>
           else fifo
      else fifo)"

definition CO_fifo_getc :: "CO_fifo_t \<Rightarrow> (u8 \<times> CO_fifo_t) option" where
  "CO_fifo_getc fifo =
     (if f_readPtr fifo \<noteq> f_writePtr fifo then
        Some (f_buf fifo ! f_readPtr fifo,
              fifo\<lparr>f_readPtr := ring_next (f_bufSize fifo) (f_readPtr fifo)\<rparr>)
      else None)"

subsection \<open>Block operations\<close>

text \<open>
  The loops count \<^verbatim>\<open>i\<close> down and return \<^verbatim>\<open>count - i\<close>. The destination of a read is the list of bytes
  stored through \<^verbatim>\<open>*(buf++)\<close>. An optional checksum pointer is an \<^typ>\<open>u16 option\<close>.
\<close>

definition DELIM_COMMAND :: u8 where "DELIM_COMMAND = 10"
definition DELIM_COMMENT :: u8 where "DELIM_COMMENT = 35"

fun CO_fifo_write_loop :: "CO_fifo_t \<Rightarrow> u8 list \<Rightarrow> nat \<Rightarrow> u16 option \<Rightarrow> CO_fifo_t \<times> nat \<times> u16 option" where
  "CO_fifo_write_loop fifo buf 0 crc = (fifo, 0, crc)"
| "CO_fifo_write_loop fifo buf (Suc i) crc =
     (let writePtrNext = f_writePtr fifo + 1
      in if writePtrNext = f_readPtr fifo \<or> (writePtrNext = f_bufSize fifo \<and> f_readPtr fifo = 0)
         then (fifo, Suc i, crc)
         else
           let fifo = fifo\<lparr>f_buf := (f_buf fifo)[f_writePtr fifo := hd buf]\<rparr>;
               crc = map_option (\<lambda>c. crc16_ccitt_single c (hd buf)) crc;
               fifo = fifo\<lparr>f_writePtr := (if writePtrNext = f_bufSize fifo then 0 else writePtrNext)\<rparr>
           in CO_fifo_write_loop fifo (tl buf) i crc)"

definition CO_fifo_write :: "CO_fifo_t \<Rightarrow> u8 list \<Rightarrow> nat \<Rightarrow> u16 option \<Rightarrow> CO_fifo_t \<times> nat \<times> u16 option" where
  "CO_fifo_write fifo buf count crc =
     (if f_buf fifo = [] then (fifo, 0, crc)
      else case CO_fifo_write_loop fifo buf count crc of (fifo, i, crc) \<Rightarrow> (fifo, count - i, crc))"

fun CO_fifo_read_loop :: "CO_fifo_t \<Rightarrow> nat \<Rightarrow> bool \<Rightarrow> CO_fifo_t \<times> u8 list \<times> bool" where
  "CO_fifo_read_loop fifo 0 eofp = (fifo, [], False)"
| "CO_fifo_read_loop fifo (Suc i) eofp =
     (if f_readPtr fifo = f_writePtr fifo then (fifo, [], False)
      else
        let c = f_buf fifo ! f_readPtr fifo;
            fifo = fifo\<lparr>f_readPtr := ring_next (f_bufSize fifo) (f_readPtr fifo)\<rparr>
        in if eofp \<and> c = DELIM_COMMAND then (fifo, [c], True)
           else case CO_fifo_read_loop fifo i eofp of (fifo, out, eof) \<Rightarrow> (fifo, c # out, eof))"

text \<open>
  \<^verbatim>\<open>eofp\<close> says whether the caller passed an \<^verbatim>\<open>eof\<close> pointer; the last component is what is stored there.
  The number of bytes returned is the length of the list.
\<close>

definition CO_fifo_read :: "CO_fifo_t \<Rightarrow> nat \<Rightarrow> bool \<Rightarrow> CO_fifo_t \<times> u8 list \<times> bool" where
  "CO_fifo_read fifo count eofp =
     (if f_readPtr fifo = f_writePtr fifo then (fifo, [], False)
      else CO_fifo_read_loop fifo count eofp)"

subsection \<open>Alternate read position\<close>

fun CO_fifo_altBegin_loop :: "CO_fifo_t \<Rightarrow> nat \<Rightarrow> CO_fifo_t \<times> nat" where
  "CO_fifo_altBegin_loop fifo 0 = (fifo, 0)"
| "CO_fifo_altBegin_loop fifo (Suc i) =
     (if f_altReadPtr fifo = f_writePtr fifo then (fifo, Suc i)
      else CO_fifo_altBegin_loop
             (fifo\<lparr>f_altReadPtr := ring_next (f_bufSize fifo) (f_altReadPtr fifo)\<rparr>) i)"

definition CO_fifo_altBegin :: "CO_fifo_t \<Rightarrow> nat \<Rightarrow> CO_fifo_t \<times> nat" where
  "CO_fifo_altBegin fifo offset =
     (case CO_fifo_altBegin_loop (fifo\<lparr>f_altReadPtr := f_readPtr fifo\<rparr>) offset of
        (fifo, i) \<Rightarrow> (fifo, offset - i))"

text \<open>
  The loop of \<^verbatim>\<open>CO_fifo_altFinish\<close> runs while the two positions differ; for positions outside the buffer
  it would not end, so it is a partial function, and \<^verbatim>\<open>altFinish_spec\<close> below shows that it returns.
\<close>

partial_function (option) CO_fifo_altFinish_loop :: "CO_fifo_t \<Rightarrow> u16 \<Rightarrow> (CO_fifo_t \<times> u16) option" where
  "CO_fifo_altFinish_loop fifo crc =
     (if f_readPtr fifo \<noteq> f_altReadPtr fifo then
        CO_fifo_altFinish_loop
          (fifo\<lparr>f_readPtr := ring_next (f_bufSize fifo) (f_readPtr fifo)\<rparr>)
          (crc16_ccitt_single crc (f_buf fifo ! f_readPtr fifo))
      else Some (fifo, crc))"

definition CO_fifo_altFinish :: "CO_fifo_t \<Rightarrow> u16 option \<Rightarrow> (CO_fifo_t \<times> u16 option) option" where
  "CO_fifo_altFinish fifo crc =
     (case crc of
        None \<Rightarrow> Some (fifo\<lparr>f_readPtr := f_altReadPtr fifo\<rparr>, None)
      | Some c \<Rightarrow> map_option (\<lambda>(fifo, c). (fifo, Some c)) (CO_fifo_altFinish_loop fifo c))"

definition CO_fifo_altGetOccupied :: "CO_fifo_t \<Rightarrow> nat" where
  "CO_fifo_altGetOccupied fifo =
     (let sizeOccupied = word_of_nat (f_writePtr fifo) - word_of_nat (f_altReadPtr fifo) :: u32;
          sizeOccupied = (if sint sizeOccupied < 0 then sizeOccupied + word_of_nat (f_bufSize fifo)
                          else sizeOccupied)
      in unat sizeOccupied)"

fun CO_fifo_altRead :: "CO_fifo_t \<Rightarrow> nat \<Rightarrow> CO_fifo_t \<times> u8 list" where
  "CO_fifo_altRead fifo 0 = (fifo, [])"
| "CO_fifo_altRead fifo (Suc i) =
     (if f_altReadPtr fifo = f_writePtr fifo then (fifo, [])
      else
        let c = f_buf fifo ! f_altReadPtr fifo;
            fifo = fifo\<lparr>f_altReadPtr := ring_next (f_bufSize fifo) (f_altReadPtr fifo)\<rparr>
        in case CO_fifo_altRead fifo i of (fifo, out) \<Rightarrow> (fifo, c # out))"

subsection \<open>Invariant and abstraction\<close>

definition fifo_inv :: "CO_fifo_t \<Rightarrow> bool" where
  "fifo_inv f \<longleftrightarrow> 2 \<le> f_bufSize f \<and> f_bufSize f \<le> length (f_buf f) \<and>
     f_readPtr f < f_bufSize f \<and> f_writePtr f < f_bufSize f"

definition fifo_contents :: "CO_fifo_t \<Rightarrow> u8 list" where
  "fifo_contents f =
     ring_seg (f_buf f) (f_bufSize f) (f_readPtr f) (ring_dist (f_bufSize f) (f_readPtr f) (f_writePtr f))"

definition fifo_cap :: "CO_fifo_t \<Rightarrow> nat" where
  "fifo_cap f = f_bufSize f - 1"

abbreviation fifo_room :: "CO_fifo_t \<Rightarrow> nat" where
  "fifo_room f \<equiv> fifo_cap f - length (fifo_contents f)"

lemma length_fifo_contents [simp]:
  "length (fifo_contents f) = ring_dist (f_bufSize f) (f_readPtr f) (f_writePtr f)"
  by (simp add: fifo_contents_def)

lemma fifo_inv_buf: "fifo_inv f \<Longrightarrow> f_buf f \<noteq> []"
  by (auto simp: fifo_inv_def)

lemma fifo_full_iff:
  "fifo_inv f \<Longrightarrow>
    (Suc (f_writePtr f) = f_readPtr f \<or> (Suc (f_writePtr f) = f_bufSize f \<and> f_readPtr f = 0)) \<longleftrightarrow>
    length (fifo_contents f) = fifo_cap f"
  using ring_full_iff [of "f_readPtr f" "f_bufSize f" "f_writePtr f"]
  by (auto simp: fifo_inv_def fifo_cap_def)

lemma fifo_contents_le: "fifo_inv f \<Longrightarrow> length (fifo_contents f) \<le> fifo_cap f"
  using ring_dist_less [of "f_readPtr f" "f_bufSize f" "f_writePtr f"]
  by (auto simp: fifo_inv_def fifo_cap_def)

lemma fifo_contents_Nil: "fifo_inv f \<Longrightarrow> fifo_contents f = [] \<longleftrightarrow> f_readPtr f = f_writePtr f"
  using ring_dist_eq_0 [of "f_readPtr f" "f_bufSize f" "f_writePtr f"]
  by (auto simp: fifo_inv_def simp flip: length_0_conv)

text \<open>Storing one byte at the write position, the body that \<^verbatim>\<open>putc\<close> and \<^verbatim>\<open>write\<close> share.\<close>

definition fifo_push :: "CO_fifo_t \<Rightarrow> u8 \<Rightarrow> CO_fifo_t" where
  "fifo_push f c = f\<lparr>f_buf := (f_buf f)[f_writePtr f := c],
     f_writePtr := ring_next (f_bufSize f) (f_writePtr f)\<rparr>"

lemma fifo_push:
  assumes "fifo_inv f" "length (fifo_contents f) < fifo_cap f"
  shows "fifo_contents (fifo_push f c) = fifo_contents f @ [c]"
    and "fifo_inv (fifo_push f c)" and "fifo_cap (fifo_push f c) = fifo_cap f"
  using assms ring_seg_write [of "f_readPtr f" "f_bufSize f" "f_writePtr f" "f_buf f" c]
    ring_next_less [of "f_writePtr f" "f_bufSize f"]
  by (auto simp: fifo_push_def fifo_contents_def fifo_inv_def fifo_cap_def)

text \<open>Removing one byte, the body that \<^verbatim>\<open>getc\<close> and \<^verbatim>\<open>read\<close> share.\<close>

definition fifo_pop :: "CO_fifo_t \<Rightarrow> CO_fifo_t" where
  "fifo_pop f = f\<lparr>f_readPtr := ring_next (f_bufSize f) (f_readPtr f)\<rparr>"

lemma fifo_pop:
  assumes "fifo_inv f" "f_readPtr f \<noteq> f_writePtr f"
  shows "fifo_contents f = f_buf f ! f_readPtr f # fifo_contents (fifo_pop f)"
    and "fifo_inv (fifo_pop f)" and "fifo_cap (fifo_pop f) = fifo_cap f"
  using assms ring_seg_step [of "f_readPtr f" "f_bufSize f" "f_writePtr f" "f_buf f"]
    ring_next_less [of "f_readPtr f" "f_bufSize f"]
  by (auto simp: fifo_pop_def fifo_contents_def fifo_inv_def fifo_cap_def)

lemma CO_fifo_putc_cases:
  assumes "fifo_inv f"
  shows "CO_fifo_putc f c =
     (if length (fifo_contents f) < fifo_cap f then (True, fifo_push f c) else (False, f))"
  using fifo_full_iff [OF assms] fifo_contents_le [OF assms] fifo_inv_buf [OF assms]
  by (auto simp: CO_fifo_putc_def fifo_push_def ring_next_def Let_def simp del: length_fifo_contents)

lemma CO_fifo_getc_cases:
  "CO_fifo_getc f = (if f_readPtr f = f_writePtr f then None else Some (f_buf f ! f_readPtr f, fifo_pop f))"
  by (simp add: CO_fifo_getc_def fifo_pop_def)

interpretation fifo: bounded_queue "\<lambda>f c. snd (CO_fifo_putc f c)" CO_fifo_getc fifo_contents fifo_cap fifo_inv
proof
  fix f :: CO_fifo_t and c :: u8 and x xs
  assume inv: "fifo_inv f"
  show "length (fifo_contents f) \<le> fifo_cap f" by (rule fifo_contents_le [OF inv])
  show "fifo_inv (snd (CO_fifo_putc f c))" "fifo_cap (snd (CO_fifo_putc f c)) = fifo_cap f"
    using inv fifo_push [OF inv] by (simp_all add: CO_fifo_putc_cases)
  show "length (fifo_contents f) < fifo_cap f \<Longrightarrow> fifo_contents (snd (CO_fifo_putc f c)) = fifo_contents f @ [c]"
    using inv fifo_push [OF inv] by (simp add: CO_fifo_putc_cases)
  show "length (fifo_contents f) = fifo_cap f \<Longrightarrow> fifo_contents (snd (CO_fifo_putc f c)) = fifo_contents f"
    using inv by (simp add: CO_fifo_putc_cases)
  show "fifo_contents f = [] \<Longrightarrow> CO_fifo_getc f = None"
    using inv by (simp add: CO_fifo_getc_cases fifo_contents_Nil)
  show "\<exists>f'. CO_fifo_getc f = Some (x, f') \<and> fifo_contents f' = xs \<and> fifo_inv f' \<and> fifo_cap f' = fifo_cap f"
    if "fifo_contents f = x # xs"
  proof -
    from that inv have ne: "f_readPtr f \<noteq> f_writePtr f"
      by (metis fifo_contents_Nil list.distinct(1))
    with fifo_pop [OF inv ne] that show ?thesis by (simp add: CO_fifo_getc_cases)
  qed
qed

subsection \<open>Block operations act on the contents\<close>

lemma CO_fifo_write_loop_Suc:
  assumes "fifo_inv f"
  shows "CO_fifo_write_loop f src (Suc i) crc =
     (if length (fifo_contents f) = fifo_cap f then (f, Suc i, crc)
      else CO_fifo_write_loop (fifo_push f (hd src)) (tl src) i
             (map_option (\<lambda>c. crc16_ccitt_single c (hd src)) crc))"
  using fifo_full_iff [OF assms] by (auto simp: Let_def fifo_push_def ring_next_def)

lemma crc16_ccitt_option_0: "map_option (crc16_ccitt src 0) crc = crc"
  by (cases crc) (simp_all add: crc16_ccitt_fold)

lemma crc16_ccitt_option_Cons:
  "map_option (crc16_ccitt bs n) (map_option (\<lambda>c. crc16_ccitt_single c b) crc) =
   map_option (crc16_ccitt (b # bs) (Suc n)) crc"
  by (cases crc) (simp_all add: crc16_ccitt_fold)

declare CO_fifo_write_loop.simps(2) [simp del]

lemma CO_fifo_write_loop_spec:
  "fifo_inv f \<Longrightarrow> count \<le> length src \<Longrightarrow>
    \<exists>f'. CO_fifo_write_loop f src count crc =
          (f', count - min count (fifo_room f), map_option (crc16_ccitt src (min count (fifo_room f))) crc) \<and>
        fifo_contents f' = fifo_contents f @ take (min count (fifo_room f)) src \<and>
        fifo_inv f' \<and> fifo_cap f' = fifo_cap f"
proof (induction count arbitrary: f src crc)
  case 0
  then show ?case by (simp add: crc16_ccitt_option_0)
next
  case (Suc i)
  note inv = Suc.prems(1)
  show ?case
  proof (cases "length (fifo_contents f) = fifo_cap f")
    case True
    with inv show ?thesis by (simp add: crc16_ccitt_option_0 CO_fifo_write_loop_Suc)
  next
    case False
    with fifo_contents_le [OF inv] have room: "length (fifo_contents f) < fifo_cap f" by simp
    from Suc.prems(2) obtain b bs where src: "src = b # bs" by (cases src) auto
    let ?f = "fifo_push f b"
    note push = fifo_push [OF inv room, of b]
    from push(1) have len: "length (fifo_contents ?f) = Suc (length (fifo_contents f))"
      by (metis length_append_singleton)
    from Suc.IH [OF push(2), of bs "map_option (\<lambda>c. crc16_ccitt_single c b) crc"] Suc.prems(2)
    have "\<exists>f'. CO_fifo_write_loop f src (Suc i) crc =
            (f', i - min i (fifo_cap f - Suc (length (fifo_contents f))),
             map_option (crc16_ccitt src (Suc (min i (fifo_cap f - Suc (length (fifo_contents f)))))) crc) \<and>
          fifo_contents f' = fifo_contents f @ b # take (min i (fifo_cap f - Suc (length (fifo_contents f)))) bs \<and>
          fifo_inv f' \<and> fifo_cap f' = fifo_cap f"
      unfolding CO_fifo_write_loop_Suc [OF inv] len push(3)
      using False by (simp add: src push crc16_ccitt_option_Cons del: length_fifo_contents)
    moreover have "min (Suc i) (fifo_cap f - length (fifo_contents f)) =
        Suc (min i (fifo_cap f - Suc (length (fifo_contents f))))"
      using room by simp
    ultimately show ?thesis by (simp add: src del: length_fifo_contents)
  qed
qed

fun upto_delim :: "u8 list \<Rightarrow> u8 list" where
  "upto_delim [] = []"
| "upto_delim (c # cs) = (if c = DELIM_COMMAND then [c] else c # upto_delim cs)"

lemma length_upto_delim: "length (upto_delim cs) \<le> length cs"
  by (induction cs) auto

lemma CO_fifo_read_loop_Suc:
  "CO_fifo_read_loop f (Suc i) eofp =
     (if f_readPtr f = f_writePtr f then (f, [], False)
      else if eofp \<and> f_buf f ! f_readPtr f = DELIM_COMMAND then (fifo_pop f, [f_buf f ! f_readPtr f], True)
      else case CO_fifo_read_loop (fifo_pop f) i eofp of
             (f', out, eof) \<Rightarrow> (f', f_buf f ! f_readPtr f # out, eof))"
  by (simp add: Let_def fifo_pop_def)

declare CO_fifo_read_loop.simps(2) [simp del]

lemma CO_fifo_read_loop_spec:
  "fifo_inv f \<Longrightarrow>
    \<exists>f'. CO_fifo_read_loop f count eofp =
          (f', if eofp then upto_delim (take count (fifo_contents f)) else take count (fifo_contents f),
           eofp \<and> DELIM_COMMAND \<in> set (take count (fifo_contents f))) \<and>
        fifo_contents f' = drop (length (fst (snd (CO_fifo_read_loop f count eofp)))) (fifo_contents f) \<and>
        fifo_inv f' \<and> fifo_cap f' = fifo_cap f"
proof (induction count arbitrary: f)
  case 0
  then show ?case by simp
next
  case (Suc i)
  note inv = Suc.prems
  show ?case
  proof (cases "f_readPtr f = f_writePtr f")
    case True
    with inv show ?thesis
      using fifo_contents_Nil [OF inv] by (simp add: CO_fifo_read_loop_Suc)
  next
    case False
    note pop = fifo_pop [OF inv False]
    from Suc.IH [OF pop(2)] pop show ?thesis
      by (cases "f_buf f ! f_readPtr f = DELIM_COMMAND")
         (auto simp: CO_fifo_read_loop_Suc False split: prod.splits)
  qed
qed

lemma CO_fifo_read_eq_loop: "CO_fifo_read f count eofp = CO_fifo_read_loop f count eofp"
  by (cases count) (auto simp: CO_fifo_read_def CO_fifo_read_loop_Suc)

subsection \<open>The alternate read position\<close>

text \<open>\<^verbatim>\<open>alt_at f k\<close>: the alternate position is \<^verbatim>\<open>k\<close> bytes ahead of the read position.\<close>

definition alt_at :: "CO_fifo_t \<Rightarrow> nat \<Rightarrow> bool" where
  "alt_at f k \<longleftrightarrow> k \<le> length (fifo_contents f) \<and> f_altReadPtr f = (f_readPtr f + k) mod f_bufSize f"

lemma alt_at_end:
  assumes "fifo_inv f" "alt_at f k"
  shows "f_altReadPtr f = f_writePtr f \<longleftrightarrow> k = length (fifo_contents f)"
  using assms ring_dist_add [of "f_readPtr f" "f_bufSize f" "f_writePtr f"]
    ring_dist_unique [of "f_readPtr f" "f_bufSize f" "f_writePtr f" k]
    ring_dist_less [of "f_readPtr f" "f_bufSize f" "f_writePtr f"]
  by (auto simp: alt_at_def fifo_inv_def)

lemma alt_at_byte:
  assumes "fifo_inv f" "alt_at f k" "k < length (fifo_contents f)"
  shows "f_buf f ! f_altReadPtr f = fifo_contents f ! k"
  using assms by (simp add: alt_at_def fifo_contents_def ring_seg_def)

lemma alt_next: "fifo_inv f \<Longrightarrow> alt_at f k \<Longrightarrow>
    ring_next (f_bufSize f) (f_altReadPtr f) = (f_readPtr f + Suc k) mod f_bufSize f"
  by (simp add: alt_at_def ring_next_mod fifo_inv_def mod_Suc_eq)

lemma fifo_alt_frame [simp]:
  "fifo_contents (f\<lparr>f_altReadPtr := a\<rparr>) = fifo_contents f"
  "fifo_inv (f\<lparr>f_altReadPtr := a\<rparr>) = fifo_inv f"
  "fifo_cap (f\<lparr>f_altReadPtr := a\<rparr>) = fifo_cap f"
  by (simp_all add: fifo_contents_def fifo_inv_def fifo_cap_def)

lemma alt_at_update:
  "alt_at (f\<lparr>f_altReadPtr := a\<rparr>) k \<longleftrightarrow>
     k \<le> length (fifo_contents f) \<and> a = (f_readPtr f + k) mod f_bufSize f"
  by (simp add: alt_at_def)

lemma CO_fifo_altBegin_loop_spec:
  "fifo_inv f \<Longrightarrow> alt_at f k \<Longrightarrow>
    CO_fifo_altBegin_loop f n =
      (f\<lparr>f_altReadPtr := (f_readPtr f + min (k + n) (length (fifo_contents f))) mod f_bufSize f\<rparr>,
       k + n - min (k + n) (length (fifo_contents f)))"
proof (induction n arbitrary: f k)
  case 0
  then show ?case by (auto simp: alt_at_def)
next
  case (Suc n)
  show ?case
  proof (cases "k = length (fifo_contents f)")
    case True
    with Suc.prems alt_at_end [OF Suc.prems] show ?thesis
      by (auto simp: alt_at_def)
  next
    case False
    with Suc.prems have k: "k < length (fifo_contents f)" by (simp add: alt_at_def)
    let ?f = "f\<lparr>f_altReadPtr := (f_readPtr f + Suc k) mod f_bufSize f\<rparr>"
    have "alt_at ?f (Suc k)" using k by (simp add: alt_at_update)
    from Suc.IH [OF _ this] Suc.prems show ?thesis
      using k alt_at_end [OF Suc.prems] alt_next [OF Suc.prems] by (simp add: False)
  qed
qed

lemma CO_fifo_altRead_spec:
  "fifo_inv f \<Longrightarrow> alt_at f k \<Longrightarrow>
    CO_fifo_altRead f n =
      (f\<lparr>f_altReadPtr := (f_readPtr f + min (k + n) (length (fifo_contents f))) mod f_bufSize f\<rparr>,
       take n (drop k (fifo_contents f)))"
proof (induction n arbitrary: f k)
  case 0
  then show ?case by (auto simp: alt_at_def)
next
  case (Suc n)
  show ?case
  proof (cases "k = length (fifo_contents f)")
    case True
    with Suc.prems alt_at_end [OF Suc.prems] show ?thesis
      by (auto simp: alt_at_def)
  next
    case False
    with Suc.prems have k: "k < length (fifo_contents f)" by (simp add: alt_at_def)
    let ?f = "f\<lparr>f_altReadPtr := (f_readPtr f + Suc k) mod f_bufSize f\<rparr>"
    have "alt_at ?f (Suc k)" using k by (simp add: alt_at_update)
    from Suc.IH [OF _ this] Suc.prems show ?thesis
      using k alt_at_end [OF Suc.prems] alt_next [OF Suc.prems] alt_at_byte [OF Suc.prems k]
      by (simp add: False Let_def Cons_nth_drop_Suc [symmetric])
  qed
qed

lemma CO_fifo_altFinish_loop_spec:
  "fifo_inv f \<Longrightarrow> alt_at f k \<Longrightarrow>
    \<exists>f'. CO_fifo_altFinish_loop f crc = Some (f', crc16_ccitt (fifo_contents f) k crc) \<and>
        fifo_contents f' = drop k (fifo_contents f) \<and> fifo_inv f' \<and> fifo_cap f' = fifo_cap f"
proof (induction k arbitrary: f crc)
  case 0
  then have "f_readPtr f = f_altReadPtr f" by (simp add: alt_at_def fifo_inv_def)
  with 0 show ?case by (simp add: CO_fifo_altFinish_loop.simps crc16_ccitt_fold)
next
  case (Suc k)
  have ne: "f_readPtr f \<noteq> f_writePtr f"
    using Suc.prems by (auto simp: alt_at_def)
  have less: "Suc k < f_bufSize f"
    using Suc.prems fifo_contents_le [of f] by (auto simp: alt_at_def fifo_cap_def fifo_inv_def)
  have "f_altReadPtr f \<noteq> f_readPtr f"
  proof
    assume "f_altReadPtr f = f_readPtr f"
    with Suc.prems less ring_dist_unique [of "f_readPtr f" "f_bufSize f" "f_readPtr f" "Suc k"]
    show False by (simp add: alt_at_def fifo_inv_def)
  qed
  note pop = fifo_pop [OF Suc.prems(1) ne]
  have "alt_at (fifo_pop f) k"
    using Suc.prems pop(1) by (simp add: alt_at_def fifo_pop_def ring_next_mod fifo_inv_def mod_add_left_eq
        del: length_fifo_contents)
  from Suc.IH [OF pop(2) this] pop
  show ?case using \<open>f_altReadPtr f \<noteq> f_readPtr f\<close>
    by (subst CO_fifo_altFinish_loop.simps) (simp add: fifo_pop_def crc16_ccitt_fold)
qed

subsection \<open>Properties\<close>

lemma CO_fifo_write_spec:
  assumes "fifo_inv f" "count \<le> length src"
  shows "\<exists>f'. CO_fifo_write f src count crc =
             (f', min count (fifo_room f), map_option (crc16_ccitt src (min count (fifo_room f))) crc) \<and>
           fifo_contents f' = fifo_contents f @ take (min count (fifo_room f)) src \<and>
           fifo_inv f' \<and> fifo_cap f' = fifo_cap f"
  using CO_fifo_write_loop_spec [OF assms, of crc] fifo_inv_buf [OF assms(1)]
  by (auto simp: CO_fifo_write_def)

text \<open>C5: writing a block appends to the contents as many bytes as there is room for and no others, the
  returned count and the checksum are those of exactly these bytes, and the buffer stays well formed.\<close>

theorem CO_fifo_write_appends:
  assumes "fifo_inv f" "count \<le> length src"
  shows "\<exists>f'. CO_fifo_write f src count crc =
             (f', min count (fifo_room f), map_option (crc16_ccitt src (min count (fifo_room f))) crc) \<and>
           fifo_contents f' = fifo_contents f @ take (min count (fifo_room f)) src \<and>
           fifo_inv f' \<and> fifo_cap f' = fifo_cap f"
  by (rule CO_fifo_write_spec [OF assms])

definition fifo_example :: CO_fifo_t where
  "fifo_example = \<lparr>f_buf = [0, 0, 0, 0, 104, 105], f_bufSize = 6, f_writePtr = 0, f_readPtr = 4,
     f_altReadPtr = 4, f_started = False, f_aux = 0\<rparr>"

lemma fifo_example [simp]: "fifo_inv fifo_example" "fifo_contents fifo_example = [104, 105]"
  by (simp_all add: fifo_example_def fifo_inv_def fifo_contents_def ring_seg_def ring_dist_def upt_rec)

theorem CO_fifo_write_appends_witness:
  "\<exists>f'. CO_fifo_write fifo_example [1, 2, 3, 4] 4 (Some 0) =
        (f', min 4 (fifo_room fifo_example),
         map_option (crc16_ccitt [1, 2, 3, 4] (min 4 (fifo_room fifo_example))) (Some 0)) \<and>
      fifo_contents f' = fifo_contents fifo_example @ take (min 4 (fifo_room fifo_example)) [1, 2, 3, 4] \<and>
      fifo_inv f' \<and> fifo_cap f' = fifo_cap fifo_example"
  by (rule CO_fifo_write_appends) simp_all

text \<open>C26: reading returns the oldest bytes in order. Without an \<^verbatim>\<open>eof\<close> pointer it returns as many as
  requested and available; with one it stops after the first command delimiter and reports it.
  Exactly the returned bytes leave the buffer.\<close>

theorem CO_fifo_read_takes:
  assumes "fifo_inv f"
  shows "\<exists>f' out eof. CO_fifo_read f count eofp = (f', out, eof) \<and>
           out = (if eofp then upto_delim (take count (fifo_contents f)) else take count (fifo_contents f)) \<and>
           eof = (eofp \<and> DELIM_COMMAND \<in> set (take count (fifo_contents f))) \<and>
           fifo_contents f' = drop (length out) (fifo_contents f) \<and> fifo_inv f' \<and> fifo_cap f' = fifo_cap f"
  using CO_fifo_read_loop_spec [OF assms, of count eofp] by (auto simp: CO_fifo_read_eq_loop)

theorem CO_fifo_read_takes_witness:
  "\<exists>f' out eof. CO_fifo_read fifo_example 1 True = (f', out, eof) \<and>
     out = (if True then upto_delim (take 1 (fifo_contents fifo_example)) else take 1 (fifo_contents fifo_example)) \<and>
     eof = (True \<and> DELIM_COMMAND \<in> set (take 1 (fifo_contents fifo_example))) \<and>
     fifo_contents f' = drop (length out) (fifo_contents fifo_example) \<and> fifo_inv f' \<and>
     fifo_cap f' = fifo_cap fifo_example"
  by (rule CO_fifo_read_takes) simp

text \<open>Peeking and committing. \<^verbatim>\<open>altBegin\<close> skips \<^verbatim>\<open>off\<close> bytes, \<^verbatim>\<open>altRead\<close> returns the following ones
  without removing anything, and \<^verbatim>\<open>altFinish\<close> returns, removes exactly the bytes skipped and read, and
  adds them to the checksum.\<close>

theorem CO_fifo_alt_peek_commit:
  assumes inv: "fifo_inv f"
  shows "let (f1, skipped) = CO_fifo_altBegin f off; (f2, out) = CO_fifo_altRead f1 n
         in skipped = min off (length (fifo_contents f)) \<and>
            out = take n (drop off (fifo_contents f)) \<and>
            fifo_contents f2 = fifo_contents f \<and>
            (\<exists>f3. CO_fifo_altFinish f2 (Some crc) =
                Some (f3, Some (crc16_ccitt (fifo_contents f) (skipped + length out) crc)) \<and>
              fifo_contents f3 = drop (skipped + length out) (fifo_contents f) \<and> fifo_inv f3)"
proof -
  let ?len = "length (fifo_contents f)" and ?k = "min off (length (fifo_contents f))"
  let ?f0 = "f\<lparr>f_altReadPtr := f_readPtr f\<rparr>"
  let ?f1 = "f\<lparr>f_altReadPtr := (f_readPtr f + ?k) mod f_bufSize f\<rparr>"
  let ?f2 = "f\<lparr>f_altReadPtr := (f_readPtr f + min (?k + n) ?len) mod f_bufSize f\<rparr>"
  have at0: "alt_at ?f0 0" using inv by (simp add: alt_at_update fifo_inv_def)
  have f1: "CO_fifo_altBegin f off = (?f1, ?k)"
    using inv CO_fifo_altBegin_loop_spec [OF _ at0, of off]
    by (auto simp: CO_fifo_altBegin_def min_def)
  have at1: "alt_at ?f1 ?k" by (simp add: alt_at_update)
  have f2: "CO_fifo_altRead ?f1 n = (?f2, take n (drop off (fifo_contents f)))"
    using inv CO_fifo_altRead_spec [OF _ at1, of n] by (auto simp: min_def)
  have tot: "?k + length (take n (drop off (fifo_contents f))) = min (?k + n) ?len"
    by (auto simp: min_def)
  have at2: "alt_at ?f2 (min (?k + n) ?len)" by (simp add: alt_at_update)
  have "\<exists>f3. CO_fifo_altFinish ?f2 (Some crc) =
             Some (f3, Some (crc16_ccitt (fifo_contents f) (min (?k + n) ?len) crc)) \<and>
           fifo_contents f3 = drop (min (?k + n) ?len) (fifo_contents f) \<and> fifo_inv f3"
    using inv CO_fifo_altFinish_loop_spec [OF _ at2, of crc] by (auto simp: CO_fifo_altFinish_def)
  then show ?thesis unfolding f1 f2 Let_def prod.case tot by simp
qed

theorem CO_fifo_alt_peek_commit_witness:
  "let (f1, skipped) = CO_fifo_altBegin fifo_example 1; (f2, out) = CO_fifo_altRead f1 1
   in skipped = min 1 (length (fifo_contents fifo_example)) \<and>
      out = take 1 (drop 1 (fifo_contents fifo_example)) \<and>
      fifo_contents f2 = fifo_contents fifo_example \<and>
      (\<exists>f3. CO_fifo_altFinish f2 (Some 0) =
          Some (f3, Some (crc16_ccitt (fifo_contents fifo_example) (skipped + length out) 0)) \<and>
        fifo_contents f3 = drop (skipped + length out) (fifo_contents fifo_example) \<and> fifo_inv f3)"
  by (rule CO_fifo_alt_peek_commit) simp

lemma fifo_pop_room:
  assumes "fifo_inv f" "length (fifo_contents f) = fifo_cap f"
  shows "f_readPtr f \<noteq> f_writePtr f" "fifo_inv (fifo_pop f)"
    "length (fifo_contents (fifo_pop f)) < fifo_cap (fifo_pop f)"
    "fifo_contents (fifo_pop f) = tl (fifo_contents f)"
proof -
  from assms have "fifo_contents f \<noteq> []"
    by (auto simp: fifo_inv_def fifo_cap_def simp del: length_fifo_contents)
  then show ne: "f_readPtr f \<noteq> f_writePtr f" using fifo_contents_Nil [OF assms(1)] by simp
  note pop = fifo_pop [OF assms(1) ne]
  show "fifo_inv (fifo_pop f)" "fifo_contents (fifo_pop f) = tl (fifo_contents f)"
    using pop by simp_all
  have "length (fifo_contents f) = Suc (length (fifo_contents (fifo_pop f)))"
    by (metis pop(1) length_Cons)
  then show "length (fifo_contents (fifo_pop f)) < fifo_cap (fifo_pop f)"
    using pop(3) assms(2) by simp
qed

lemma CO_fifo_putc_ov_cases:
  assumes "fifo_inv f"
  shows "CO_fifo_putc_ov f c =
     (if length (fifo_contents f) = fifo_cap f then fifo_push (fifo_pop f) c else fifo_push f c)"
proof -
  have "length (fifo_contents f) = fifo_cap f \<longleftrightarrow> ring_next (f_bufSize f) (f_writePtr f) = f_readPtr f"
    using assms unfolding fifo_inv_def fifo_cap_def length_fifo_contents
    by (subst ring_next_eq_iff) auto
  then show ?thesis
    using fifo_inv_buf [OF assms]
    by (cases "ring_next (f_bufSize f) (f_writePtr f) = f_readPtr f")
       (auto simp: CO_fifo_putc_ov_def fifo_push_def fifo_pop_def Let_def simp del: length_fifo_contents)
qed

text \<open>\<^verbatim>\<open>putc_ov\<close> never refuses a byte: in a full buffer it drops the oldest one.\<close>

theorem CO_fifo_putc_ov_drops_oldest:
  assumes "fifo_inv f"
  shows "fifo_inv (CO_fifo_putc_ov f c) \<and>
     fifo_contents (CO_fifo_putc_ov f c) =
       (if length (fifo_contents f) = fifo_cap f then tl (fifo_contents f) else fifo_contents f) @ [c]"
proof (cases "length (fifo_contents f) = fifo_cap f")
  case True
  note pop = fifo_pop_room [OF assms True]
  from fifo_push [OF pop(2,3)] pop(4) True assms show ?thesis
    by (simp add: CO_fifo_putc_ov_cases del: length_fifo_contents)
next
  case False
  with fifo_contents_le [OF assms] have "length (fifo_contents f) < fifo_cap f" by simp
  from fifo_push [OF assms this] False assms show ?thesis
    by (simp add: CO_fifo_putc_ov_cases del: length_fifo_contents)
qed

theorem CO_fifo_putc_ov_drops_oldest_witness:
  "fifo_inv (CO_fifo_putc_ov fifo_example 7) \<and>
   fifo_contents (CO_fifo_putc_ov fifo_example 7) =
     (if length (fifo_contents fifo_example) = fifo_cap fifo_example then tl (fifo_contents fifo_example)
      else fifo_contents fifo_example) @ [7]"
  by (rule CO_fifo_putc_ov_drops_oldest) simp

lemma int32_size_word:
  fixes x :: int and n :: nat
  assumes "- int n \<le> x" "x < int n" "n < 2 ^ 31"
  shows "unat (let d = word_of_int x :: u32 in if sint d < 0 then d + word_of_nat n else d)
       = nat (if x < 0 then x + int n else x)"
proof -
  have s: "sint (word_of_int x :: u32) = x"
    using assms by (simp add: signed_of_int signed_take_bit_int_eq_self)
  have small: "unat (word_of_int y :: u32) = nat y" if "0 \<le> y" "y < 2 ^ 31" for y
    using that by (simp add: unsigned_of_int take_bit_int_eq_self)
  have "word_of_int x + word_of_nat n = (word_of_int (x + int n) :: u32)"
    by simp
  then show ?thesis
    using assms small [of x] small [of "x + int n"] unfolding Let_def s by (simp del: of_int_add)
qed

lemma getOccupied_word:
  assumes "i < n" "j < n" "n < 2 ^ 31"
  shows "(let d = word_of_nat j - word_of_nat i :: u32;
              d = (if sint d < 0 then d + word_of_nat n else d) in unat d) = ring_dist n i j"
  using assms int32_size_word [of n "int j - int i"]
  by (auto simp: Let_def ring_dist_def)

text \<open>For a buffer smaller than $2^{31}$ bytes the size queries, computed in 32 bit \<^verbatim>\<open>int\<close>
  arithmetic with wrap-around, are the free room and the number of bytes held.\<close>

theorem CO_fifo_sizes_exact:
  assumes "fifo_inv f" "f_bufSize f < 2 ^ 31"
  shows "CO_fifo_getSpace f = fifo_cap f - length (fifo_contents f) \<and>
         CO_fifo_getOccupied f = length (fifo_contents f)"
proof
  show "CO_fifo_getOccupied f = length (fifo_contents f)"
    using getOccupied_word [of "f_readPtr f" "f_bufSize f" "f_writePtr f"] assms
    by (simp add: CO_fifo_getOccupied_def fifo_inv_def)
  have "word_of_nat (f_readPtr f) - word_of_nat (f_writePtr f) - 1 =
      (word_of_int (int (f_readPtr f) - int (f_writePtr f) - 1) :: u32)" by simp
  then show "CO_fifo_getSpace f = fifo_cap f - length (fifo_contents f)"
    using int32_size_word [of "f_bufSize f" "int (f_readPtr f) - int (f_writePtr f) - 1"] assms
    by (auto simp: CO_fifo_getSpace_def fifo_inv_def fifo_cap_def ring_dist_def Let_def)
qed

theorem CO_fifo_sizes_exact_witness:
  "CO_fifo_getSpace fifo_example = fifo_cap fifo_example - length (fifo_contents fifo_example) \<and>
   CO_fifo_getOccupied fifo_example = length (fifo_contents fifo_example)"
  by (rule CO_fifo_sizes_exact) (simp_all add: fifo_example_def [THEN arg_cong [where f = f_bufSize]])

end
