(* ===== verification/Fifo_Ascii.thy ===== *)
theory Fifo_Ascii
  imports Fifo
begin

section \<open>Commands and tokens in the FIFO (\<^verbatim>\<open>301/CO_fifo.c\<close>, ASCII commands)\<close>

text \<open>
  The gateway keeps command lines in a FIFO. \<^verbatim>\<open>CO_fifo_CommSearch\<close> looks for a complete command,
  \<^verbatim>\<open>CO_fifo_trimSpaces\<close> removes leading blanks, \<^verbatim>\<open>CO_fifo_readToken\<close> takes the next word. All three work
  on the circular buffer in place; here each is proved to act on the abstract contents as a plain scan
  of a list. The loops of the last two end because every round moves a position towards the write
  position; they are partial functions and the refinement lemmas include that they return.
\<close>

definition isgraph :: "u8 \<Rightarrow> bool" where
  "isgraph c \<longleftrightarrow> 32 < unat c \<and> unat c < 127"

text \<open>\<^verbatim>\<open>memchr(&b[start], c, count)\<close>, the result as an index into \<^verbatim>\<open>b\<close>.\<close>

definition memchr :: "u8 list \<Rightarrow> nat \<Rightarrow> u8 \<Rightarrow> nat \<Rightarrow> nat option" where
  "memchr b start c count =
     (let w = take count (drop start b); k = length (takeWhile (\<lambda>x. x \<noteq> c) w)
      in if k < length w then Some (start + k) else None)"

definition CO_fifo_CommSearch :: "CO_fifo_t \<Rightarrow> bool \<Rightarrow> bool \<times> CO_fifo_t" where
  "CO_fifo_CommSearch fifo clear =
     (if f_readPtr fifo = f_writePtr fifo then (False, fifo)
      else
        let count = (if f_readPtr fifo < f_writePtr fifo then f_writePtr fifo - f_readPtr fifo
                     else f_bufSize fifo - f_readPtr fifo);
            commandEnd = memchr (f_buf fifo) (f_readPtr fifo) DELIM_COMMAND count;
            (newCommand, commandEnd) =
              (if commandEnd \<noteq> None then (True, commandEnd)
               else if f_readPtr fifo > f_writePtr fifo then
                 let commandEnd = memchr (f_buf fifo) 0 DELIM_COMMAND (f_writePtr fifo)
                 in (commandEnd \<noteq> None \<or> f_readPtr fifo = f_writePtr fifo + 1, commandEnd)
               else (f_readPtr fifo = 0 \<and> f_writePtr fifo = f_bufSize fifo - 1, commandEnd));
            fifo = (if clear then
                      (case commandEnd of
                         Some e \<Rightarrow> fifo\<lparr>f_readPtr := (if e + 1 = f_bufSize fifo then 0 else e + 1)\<rparr>
                       | None \<Rightarrow> fifo\<lparr>f_readPtr := f_writePtr fifo\<rparr>)
                    else fifo)
        in (newCommand, fifo))"

text \<open>
  The inner loop of \<^verbatim>\<open>CO_fifo_trimSpaces\<close> tests \<^verbatim>\<open>c\<close>, the character read before the loop, and does not
  reload it; the parameter \<^verbatim>\<open>c\<close> keeps that.
\<close>

partial_function (option) CO_fifo_trimComment :: "u8 \<Rightarrow> CO_fifo_t \<Rightarrow> (bool \<times> CO_fifo_t) option" where
  "CO_fifo_trimComment c fifo =
     (if f_readPtr fifo \<noteq> f_writePtr fifo then
        (let fifo = fifo\<lparr>f_readPtr := ring_next (f_bufSize fifo) (f_readPtr fifo)\<rparr>
         in if c = DELIM_COMMAND then Some (True, fifo) else CO_fifo_trimComment c fifo)
      else Some (False, fifo))"

partial_function (option) CO_fifo_trimSpaces :: "CO_fifo_t \<Rightarrow> (bool \<times> CO_fifo_t) option" where
  "CO_fifo_trimSpaces fifo =
     (if f_readPtr fifo \<noteq> f_writePtr fifo then
        (let c = f_buf fifo ! f_readPtr fifo
         in if c = DELIM_COMMENT then CO_fifo_trimComment c fifo
            else if isgraph c then Some (False, fifo)
            else
              let fifo = fifo\<lparr>f_readPtr := ring_next (f_bufSize fifo) (f_readPtr fifo)\<rparr>
              in if c = DELIM_COMMAND then Some (True, fifo) else CO_fifo_trimSpaces fifo)
      else Some (False, fifo))"

subsection \<open>Reading a token\<close>

text \<open>
  One character of the scan: the \<^verbatim>\<open>switch\<close> on \<^verbatim>\<open>step\<close>. \<^verbatim>\<open>tok\<close> holds the characters stored in \<^verbatim>\<open>buf\<close>, so
  \<^verbatim>\<open>tokenSize\<close> is its length. The result gives the next step, the token, and whether a command
  delimiter was found, a comment was found, or (in step 2) the next token begins here.
\<close>

definition token_switch :: "nat \<Rightarrow> nat \<Rightarrow> u8 list \<Rightarrow> u8 \<Rightarrow> nat \<times> u8 list \<times> bool \<times> bool \<times> bool" where
  "token_switch count step tok c =
     (if step = 0 then
        (if isgraph c then
           (if c = DELIM_COMMENT then (0, tok, False, True, False) else (1, tok @ [c], False, False, False))
         else (0, tok, c = DELIM_COMMAND, False, False))
      else if step = 1 then
        (if isgraph c then
           (if c = DELIM_COMMENT then (1, tok, False, True, False)
            else if length tok < count then (1, tok @ [c], False, False, False)
            else (1, tok, False, False, False))
         else (2, tok, c = DELIM_COMMAND, False, False))
      else
        (if isgraph c then
           (if c = DELIM_COMMENT then (2, tok, False, True, False) else (2, tok, False, False, True))
         else (2, tok, c = DELIM_COMMAND, False, False)))"

partial_function (option) CO_fifo_readToken_loop ::
    "CO_fifo_t \<Rightarrow> nat \<Rightarrow> nat \<Rightarrow> nat \<Rightarrow> u8 list \<Rightarrow> (CO_fifo_t \<times> u8 list \<times> bool) option" where
  "CO_fifo_readToken_loop fifo count ptr step tok =
     (case token_switch count step tok (f_buf fifo ! ptr) of
        (step, tok, delimCommandFound, delimCommentFound, nextToken) \<Rightarrow>
          if delimCommentFound then
            (case CO_fifo_CommSearch (fifo\<lparr>f_readPtr := ptr\<rparr>) True of (found, fifo) \<Rightarrow> Some (fifo, tok, found))
          else if delimCommandFound then
            Some (fifo\<lparr>f_readPtr := ring_next (f_bufSize fifo) ptr\<rparr>, tok, True)
          else if nextToken then Some (fifo\<lparr>f_readPtr := ptr\<rparr>, tok, False)
          else
            (let ptr = ring_next (f_bufSize fifo) ptr
             in if ptr = f_writePtr fifo then
                  (if step = 2 then Some (fifo\<lparr>f_readPtr := ptr\<rparr>, tok, False) else Some (fifo, [], False))
                else CO_fifo_readToken_loop fifo count ptr step tok))"

text \<open>
  \<^verbatim>\<open>closed\<close> and \<^verbatim>\<open>err\<close> are in/out pointers that may be \<^verbatim>\<open>NULL\<close>. The token is returned as the list of
  its characters, before the terminating zero.
\<close>

definition CO_fifo_readToken ::
    "CO_fifo_t \<Rightarrow> nat \<Rightarrow> int option \<Rightarrow> bool option \<Rightarrow>
     (CO_fifo_t \<times> u8 list \<times> int option \<times> bool option) option" where
  "CO_fifo_readToken fifo count closed err =
     (case (if count > 1 \<and> err \<noteq> Some True \<and> f_readPtr fifo \<noteq> f_writePtr fifo
            then CO_fifo_readToken_loop fifo count (f_readPtr fifo) 0 []
            else Some (fifo, [], False)) of
        None \<Rightarrow> None
      | Some (fifo, tok, delimCommandFound) \<Rightarrow>
          let tokenSize = length tok;
              err = (if err = Some False \<and>
                       (tokenSize = count \<or>
                        (closed = Some 1 \<and> (\<not> delimCommandFound \<or> tokenSize = 0)) \<or>
                        (closed = Some 0 \<and> (delimCommandFound \<or> tokenSize = 0)))
                     then Some True else err);
              closed = map_option (\<lambda>_. if delimCommandFound then 1 else 0) closed;
              tok = (if tokenSize = count then [] else tok)
          in Some (fifo, tok, closed, err))"

subsection \<open>The same scans on lists\<close>

fun after_delim :: "u8 list \<Rightarrow> u8 list" where
  "after_delim [] = []"
| "after_delim (c # cs) = (if c = DELIM_COMMAND then cs else after_delim cs)"

fun trim_list :: "u8 list \<Rightarrow> bool \<times> u8 list" where
  "trim_list [] = (False, [])"
| "trim_list (c # cs) =
     (if c = DELIM_COMMENT then (False, [])
      else if isgraph c then (False, c # cs)
      else if c = DELIM_COMMAND then (True, cs) else trim_list cs)"

text \<open>
  \<^verbatim>\<open>token_list cap count step tok cs\<close>: the token, whether a command delimiter was found, and what
  is left; \<^verbatim>\<open>None\<close> for the rest means that the contents stay as they are. \<^verbatim>\<open>cap\<close> is the capacity: a
  comment at the read position of a full buffer counts as a found command.
\<close>

fun token_list :: "nat \<Rightarrow> nat \<Rightarrow> nat \<Rightarrow> u8 list \<Rightarrow> u8 list \<Rightarrow> u8 list \<times> bool \<times> u8 list option" where
  "token_list cap count step tok [] = ([], False, None)"
| "token_list cap count step tok (c # cs) =
     (case token_switch count step tok c of (step, tok, cmd, cmt, nxt) \<Rightarrow>
        if cmt then (tok, DELIM_COMMAND \<in> set cs \<or> Suc (length cs) = cap, Some (after_delim cs))
        else if cmd then (tok, True, Some cs)
        else if nxt then (tok, False, Some (c # cs))
        else if cs = [] then (if step = 2 then (tok, False, Some []) else ([], False, None))
        else token_list cap count step tok cs)"

subsection \<open>Refinement\<close>

lemma delims_distinct [simp]: "DELIM_COMMENT \<noteq> DELIM_COMMAND" "DELIM_COMMAND \<noteq> DELIM_COMMENT"
  "isgraph DELIM_COMMENT" "\<not> isgraph DELIM_COMMAND"
  by (simp_all add: DELIM_COMMAND_def DELIM_COMMENT_def isgraph_def)

lemma after_delim_drop:
  "after_delim cs = drop (Suc (length (takeWhile (\<lambda>x. x \<noteq> DELIM_COMMAND) cs))) cs"
  by (induction cs) auto

lemma length_after_delim: "length (after_delim cs) \<le> length cs"
  by (simp add: after_delim_drop)

lemma fifo_contents_linear:
  "fifo_inv f \<Longrightarrow> f_readPtr f \<le> f_writePtr f \<Longrightarrow>
    fifo_contents f = take (f_writePtr f - f_readPtr f) (drop (f_readPtr f) (f_buf f))"
  by (simp add: fifo_contents_def fifo_inv_def ring_dist_def ring_seg_contiguous)

lemma fifo_contents_wrapped:
  assumes "fifo_inv f" "f_writePtr f < f_readPtr f"
  shows "fifo_contents f =
    take (f_bufSize f - f_readPtr f) (drop (f_readPtr f) (f_buf f)) @ take (f_writePtr f) (f_buf f)"
proof -
  let ?n = "f_bufSize f" and ?r = "f_readPtr f" and ?b = "f_buf f"
  have "fifo_contents f = take (?n - ?r) (fifo_contents f) @ drop (?n - ?r) (fifo_contents f)"
    by simp
  also have "take (?n - ?r) (fifo_contents f) = take (?n - ?r) (drop ?r ?b)"
    using assms by (simp add: fifo_contents_def take_ring_seg ring_dist_def fifo_inv_def ring_seg_contiguous)
  also have "drop (?n - ?r) (fifo_contents f) = ring_seg ?b ?n ?n (f_writePtr f)"
    using assms by (simp add: fifo_contents_def drop_ring_seg ring_dist_def fifo_inv_def)
  also have "\<dots> = take (f_writePtr f) ?b"
    using assms ring_seg_shift [of ?b ?n ?n "f_writePtr f"] ring_seg_contiguous [of 0 "f_writePtr f" ?n ?b]
    by (simp add: fifo_inv_def)
  finally show ?thesis .
qed

lemma memchr_None: "memchr b s c n = None \<longleftrightarrow> c \<notin> set (take n (drop s b))"
proof -
  have "length (takeWhile (\<lambda>x. x \<noteq> c) w) < length w \<longleftrightarrow> c \<in> set w" for w :: "u8 list"
    by (induction w) auto
  then show ?thesis by (auto simp: memchr_def Let_def)
qed

lemma memchr_Some:
  "memchr b s c n = Some e \<Longrightarrow>
     e = s + length (takeWhile (\<lambda>x. x \<noteq> c) (take n (drop s b))) \<and> e < s + n \<and> e < length b"
  by (auto simp: memchr_def Let_def split: if_splits)

text \<open>Moving the read position to the start of the \<^verbatim>\<open>k\<close>-th byte drops \<^verbatim>\<open>k\<close> bytes.\<close>

lemma fifo_seek:
  assumes "fifo_inv f" "k \<le> length (fifo_contents f)"
  shows "fifo_contents (f\<lparr>f_readPtr := (f_readPtr f + k) mod f_bufSize f\<rparr>) = drop k (fifo_contents f)"
    and "fifo_inv (f\<lparr>f_readPtr := (f_readPtr f + k) mod f_bufSize f\<rparr>)"
    and "fifo_cap (f\<lparr>f_readPtr := (f_readPtr f + k) mod f_bufSize f\<rparr>) = fifo_cap f"
proof -
  let ?n = "f_bufSize f" and ?r = "f_readPtr f" and ?w = "f_writePtr f"
  let ?d = "ring_dist ?n ?r ?w"
  have n: "0 < ?n" "?r < ?n" "?w < ?n" using assms(1) by (auto simp: fifo_inv_def)
  have "((?r + k) mod ?n + (?d - k)) mod ?n = (?r + k + (?d - k)) mod ?n"
    by (simp only: mod_add_left_eq)
  then have "((?r + k) mod ?n + (?d - k)) mod ?n = ?w"
    using assms(2) n ring_dist_add [of ?r ?n ?w] by simp
  moreover have "?d - k < ?n" using ring_dist_less [of ?r ?n ?w] n by simp
  ultimately have "ring_dist ?n ((?r + k) mod ?n) ?w = ?d - k"
    using ring_dist_unique [of "(?r + k) mod ?n" ?n ?w "?d - k"] n by simp
  then show "fifo_contents (f\<lparr>f_readPtr := (?r + k) mod ?n\<rparr>) = drop k (fifo_contents f)"
    by (simp add: fifo_contents_def drop_ring_seg ring_seg_shift)
  show "fifo_inv (f\<lparr>f_readPtr := (?r + k) mod ?n\<rparr>)" "fifo_cap (f\<lparr>f_readPtr := (?r + k) mod ?n\<rparr>) = fifo_cap f"
    using assms(1) n by (simp_all add: fifo_inv_def fifo_cap_def)
qed

lemma takeWhile_append_in: "\<exists>x\<in>set xs. \<not> P x \<Longrightarrow> takeWhile P (xs @ ys) = takeWhile P xs"
  by auto

lemma fifo_wrap_index:
  "fifo_inv f \<Longrightarrow> k < f_bufSize f \<Longrightarrow> e = (f_readPtr f + k) mod f_bufSize f \<Longrightarrow>
    (if e + 1 = f_bufSize f then 0 else e + 1) = (f_readPtr f + Suc k) mod f_bufSize f"
  by (auto simp: fifo_inv_def mod_Suc)

text \<open>
  The result of the two searches: the position of the first delimiter of the contents, if there is one.
\<close>

definition comm_end :: "CO_fifo_t \<Rightarrow> nat option" where
  "comm_end f =
     (case memchr (f_buf f) (f_readPtr f) DELIM_COMMAND
             (if f_readPtr f < f_writePtr f then f_writePtr f - f_readPtr f else f_bufSize f - f_readPtr f) of
        Some e \<Rightarrow> Some e
      | None \<Rightarrow> if f_writePtr f < f_readPtr f then memchr (f_buf f) 0 DELIM_COMMAND (f_writePtr f) else None)"

lemma comm_end_spec:
  assumes inv: "fifo_inv f" and ne: "f_readPtr f \<noteq> f_writePtr f"
  defines "k \<equiv> length (takeWhile (\<lambda>x. x \<noteq> DELIM_COMMAND) (fifo_contents f))"
  shows "comm_end f = (if DELIM_COMMAND \<in> set (fifo_contents f)
                       then Some ((f_readPtr f + k) mod f_bufSize f) else None)"
proof (cases "f_readPtr f < f_writePtr f")
  case True
  with inv have c: "fifo_contents f = take (f_writePtr f - f_readPtr f) (drop (f_readPtr f) (f_buf f))"
    by (simp add: fifo_contents_linear)
  show ?thesis
    using True inv memchr_None [of "f_buf f" "f_readPtr f" DELIM_COMMAND "f_writePtr f - f_readPtr f"]
      memchr_Some [of "f_buf f" "f_readPtr f" DELIM_COMMAND "f_writePtr f - f_readPtr f"]
    by (auto simp: comm_end_def k_def c fifo_inv_def split: option.split)
next
  case False
  with ne have less: "f_writePtr f < f_readPtr f" by simp
  let ?x = "take (f_bufSize f - f_readPtr f) (drop (f_readPtr f) (f_buf f))"
  let ?y = "take (f_writePtr f) (f_buf f)"
  have c: "fifo_contents f = ?x @ ?y" by (rule fifo_contents_wrapped [OF inv less])
  have lx: "length ?x = f_bufSize f - f_readPtr f" and rn: "f_readPtr f < f_bufSize f"
    using inv by (auto simp: fifo_inv_def)
  show ?thesis
  proof (cases "DELIM_COMMAND \<in> set ?x")
    case True
    then obtain e where e: "memchr (f_buf f) (f_readPtr f) DELIM_COMMAND (f_bufSize f - f_readPtr f) = Some e"
      using memchr_None by (metis not_Some_eq)
    from True have "k = length (takeWhile (\<lambda>x. x \<noteq> DELIM_COMMAND) ?x)"
      unfolding k_def c by (subst takeWhile_append_in) auto
    with memchr_Some [OF e] rn have "e = f_readPtr f + k" "f_readPtr f + k < f_bufSize f" by auto
    with True e less c show ?thesis by (simp add: comm_end_def)
  next
    case no: False
    then have n1: "memchr (f_buf f) (f_readPtr f) DELIM_COMMAND (f_bufSize f - f_readPtr f) = None"
      by (simp add: memchr_None)
    from no have k: "k = length ?x + length (takeWhile (\<lambda>x. x \<noteq> DELIM_COMMAND) ?y)"
      unfolding k_def c by (subst takeWhile_append2) auto
    show ?thesis
    proof (cases "DELIM_COMMAND \<in> set ?y")
      case True
      then obtain e where e: "memchr (f_buf f) 0 DELIM_COMMAND (f_writePtr f) = Some e"
        using memchr_None [of "f_buf f" 0] by (metis drop0 not_Some_eq)
      with memchr_Some [OF e] k lx rn have "f_readPtr f + k = f_bufSize f + e" "e < f_bufSize f"
        using less by auto
      then have "(f_readPtr f + k) mod f_bufSize f = e" by simp
      with True e n1 less c show ?thesis by (simp add: comm_end_def)
    next
      case False
      with memchr_None [of "f_buf f" 0 DELIM_COMMAND "f_writePtr f"] n1 no less c
      show ?thesis by (simp add: comm_end_def)
    qed
  qed
qed

lemma CO_fifo_CommSearch_eq:
  assumes inv: "fifo_inv f" and ne: "f_readPtr f \<noteq> f_writePtr f"
  shows "CO_fifo_CommSearch f clear =
    (comm_end f \<noteq> None \<or> length (fifo_contents f) = fifo_cap f,
     if clear then
       (case comm_end f of
          Some e \<Rightarrow> f\<lparr>f_readPtr := (if e + 1 = f_bufSize f then 0 else e + 1)\<rparr>
        | None \<Rightarrow> f\<lparr>f_readPtr := f_writePtr f\<rparr>)
     else f)"
proof -
  have full: "length (fifo_contents f) = fifo_cap f \<longleftrightarrow>
     (if f_writePtr f < f_readPtr f then f_readPtr f = f_writePtr f + 1
      else f_readPtr f = 0 \<and> f_writePtr f = f_bufSize f - 1)"
    using inv ne by (auto simp: fifo_inv_def fifo_cap_def ring_dist_def)
  show ?thesis
    using ne unfolding full
    by (auto simp: CO_fifo_CommSearch_def comm_end_def Let_def split: option.split if_split)
qed

lemma takeWhile_delim_less:
  "DELIM_COMMAND \<in> set cs \<Longrightarrow> Suc (length (takeWhile (\<lambda>x. x \<noteq> DELIM_COMMAND) cs)) \<le> length cs"
  by (induction cs) auto

lemma after_delim_none: "DELIM_COMMAND \<notin> set cs \<Longrightarrow> after_delim cs = []"
  by (induction cs) auto

lemma CO_fifo_CommSearch_spec:
  assumes inv: "fifo_inv f"
  shows "\<exists>f'. CO_fifo_CommSearch f clear =
       (DELIM_COMMAND \<in> set (fifo_contents f) \<or> length (fifo_contents f) = fifo_cap f, f') \<and>
     fifo_contents f' = (if clear then after_delim (fifo_contents f) else fifo_contents f) \<and>
     fifo_inv f' \<and> fifo_cap f' = fifo_cap f"
proof (cases "f_readPtr f = f_writePtr f")
  case True
  with inv have "fifo_contents f = []" by (simp add: fifo_contents_Nil)
  with True inv show ?thesis
    by (auto simp: CO_fifo_CommSearch_def fifo_cap_def fifo_inv_def)
next
  case False
  let ?k = "length (takeWhile (\<lambda>x. x \<noteq> DELIM_COMMAND) (fifo_contents f))"
  note end_spec = comm_end_spec [OF inv False]
  show ?thesis
  proof (cases "DELIM_COMMAND \<in> set (fifo_contents f)")
    case True
    note k = takeWhile_delim_less [OF True]
    with fifo_contents_le [OF inv] have less: "?k < f_bufSize f"
      unfolding fifo_cap_def by linarith
    show ?thesis
      unfolding CO_fifo_CommSearch_eq [OF inv False] end_spec
      using True inv fifo_seek [OF inv k] fifo_wrap_index [OF inv less refl]
      by (simp add: after_delim_drop del: length_fifo_contents)
  next
    case False': False
    have "f\<lparr>f_readPtr := f_writePtr f\<rparr> =
        f\<lparr>f_readPtr := (f_readPtr f + length (fifo_contents f)) mod f_bufSize f\<rparr>"
      using inv by (simp add: ring_dist_add fifo_inv_def)
    with False' fifo_seek [OF inv order_refl] show ?thesis
      unfolding CO_fifo_CommSearch_eq [OF inv False] end_spec
      using inv by (simp add: after_delim_none del: length_fifo_contents)
  qed
qed

lemma CO_fifo_trimComment_spec:
  "fifo_inv f \<Longrightarrow> c \<noteq> DELIM_COMMAND \<Longrightarrow>
    \<exists>f'. CO_fifo_trimComment c f = Some (False, f') \<and> fifo_contents f' = [] \<and> fifo_inv f' \<and>
        fifo_cap f' = fifo_cap f"
proof (induction "fifo_contents f" arbitrary: f)
  case Nil
  then have "f_readPtr f = f_writePtr f" using fifo_contents_Nil by metis
  with Nil show ?case by (simp add: CO_fifo_trimComment.simps)
next
  case (Cons x xs)
  then have ne: "f_readPtr f \<noteq> f_writePtr f"
    using fifo_contents_Nil [of f] by auto
  note pop = fifo_pop [OF \<open>fifo_inv f\<close> ne]
  from Cons(2) pop(1) have "xs = fifo_contents (fifo_pop f)" by simp
  from Cons(1) [OF this pop(2) Cons(4)] pop(3) ne Cons(4) show ?case
    by (subst CO_fifo_trimComment.simps) (simp add: fifo_pop_def)
qed

lemma CO_fifo_trimSpaces_spec:
  "fifo_inv f \<Longrightarrow>
    \<exists>f'. CO_fifo_trimSpaces f = Some (fst (trim_list (fifo_contents f)), f') \<and>
        fifo_contents f' = snd (trim_list (fifo_contents f)) \<and> fifo_inv f' \<and> fifo_cap f' = fifo_cap f"
proof (induction "fifo_contents f" arbitrary: f)
  case Nil
  then have "f_readPtr f = f_writePtr f" using fifo_contents_Nil by metis
  with Nil show ?case by (simp add: CO_fifo_trimSpaces.simps)
next
  case (Cons x xs)
  then have ne: "f_readPtr f \<noteq> f_writePtr f"
    using fifo_contents_Nil [of f] by auto
  note pop = fifo_pop [OF \<open>fifo_inv f\<close> ne]
  from Cons(2) pop(1) have x: "f_buf f ! f_readPtr f = x" and xs: "xs = fifo_contents (fifo_pop f)"
    by simp_all
  show ?case
  proof (cases "x = DELIM_COMMENT")
    case True
    with CO_fifo_trimComment_spec [OF Cons(3), of x] Cons(2) [symmetric] x ne show ?thesis
      by (subst CO_fifo_trimSpaces.simps) simp
  next
    case False
    from Cons(1) [OF xs pop(2)] Cons(2) [symmetric] Cons(3) x ne xs False pop show ?thesis
      by (subst CO_fifo_trimSpaces.simps) (simp add: fifo_pop_def Let_def)
  qed
qed

lemma fifo_nth_contents:
  "k < length (fifo_contents f) \<Longrightarrow> f_buf f ! ((f_readPtr f + k) mod f_bufSize f) = fifo_contents f ! k"
  by (simp add: fifo_contents_def ring_seg_def)

lemma fifo_pos_end:
  assumes "fifo_inv f" "k \<le> length (fifo_contents f)"
  shows "(f_readPtr f + k) mod f_bufSize f = f_writePtr f \<longleftrightarrow> k = length (fifo_contents f)"
  using assms alt_at_end [of "f\<lparr>f_altReadPtr := (f_readPtr f + k) mod f_bufSize f\<rparr>" k]
  by (simp add: alt_at_update)

lemma fifo_pos_next:
  "fifo_inv f \<Longrightarrow> ring_next (f_bufSize f) ((f_readPtr f + k) mod f_bufSize f) =
     (f_readPtr f + Suc k) mod f_bufSize f"
  by (simp add: ring_next_mod fifo_inv_def mod_Suc_eq)

lemma token_switch_comment:
  "token_switch count step tok c = (step', tok', cmd, cmt, nxt) \<Longrightarrow> cmt \<Longrightarrow> c = DELIM_COMMENT"
  by (auto simp: token_switch_def split: if_splits)

lemma readToken_step:
  assumes inv: "fifo_inv f" and dr: "drop k (fifo_contents f) = c # cs"
    and sw: "token_switch count step tok c = (step', tok', cmd, cmt, nxt)"
  defines "R \<equiv> CO_fifo_readToken_loop f count ((f_readPtr f + k) mod f_bufSize f) step tok"
  shows "cmt \<Longrightarrow> \<exists>f'. R = Some (f', tok', DELIM_COMMAND \<in> set cs \<or> Suc (length cs) = fifo_cap f) \<and>
           fifo_contents f' = after_delim cs \<and> fifo_inv f' \<and> fifo_cap f' = fifo_cap f"
    and "\<not> cmt \<Longrightarrow> cmd \<Longrightarrow> \<exists>f'. R = Some (f', tok', True) \<and>
           fifo_contents f' = cs \<and> fifo_inv f' \<and> fifo_cap f' = fifo_cap f"
    and "\<not> cmt \<Longrightarrow> \<not> cmd \<Longrightarrow> nxt \<Longrightarrow> \<exists>f'. R = Some (f', tok', False) \<and>
           fifo_contents f' = c # cs \<and> fifo_inv f' \<and> fifo_cap f' = fifo_cap f"
    and "\<not> cmt \<Longrightarrow> \<not> cmd \<Longrightarrow> \<not> nxt \<Longrightarrow> cs = [] \<Longrightarrow> step' = 2 \<Longrightarrow> \<exists>f'. R = Some (f', tok', False) \<and>
           fifo_contents f' = [] \<and> fifo_inv f' \<and> fifo_cap f' = fifo_cap f"
    and "\<not> cmt \<Longrightarrow> \<not> cmd \<Longrightarrow> \<not> nxt \<Longrightarrow> cs = [] \<Longrightarrow> step' \<noteq> 2 \<Longrightarrow> R = Some (f, [], False)"
    and "\<not> cmt \<Longrightarrow> \<not> cmd \<Longrightarrow> \<not> nxt \<Longrightarrow> cs \<noteq> [] \<Longrightarrow>
           R = CO_fifo_readToken_loop f count ((f_readPtr f + Suc k) mod f_bufSize f) step' tok'"
proof -
  let ?len = "length (fifo_contents f)"
  from dr have k: "k < ?len" by (metis drop_all list.distinct(1) not_le)
  from dr k have ck: "fifo_contents f ! k = c" and cs: "drop (Suc k) (fifo_contents f) = cs"
    by (metis Cons_nth_drop_Suc list.inject)+
  from k have ks: "Suc k \<le> ?len" by simp
  have last: "(f_readPtr f + Suc k) mod f_bufSize f = f_writePtr f \<longleftrightarrow> cs = []"
    unfolding fifo_pos_end [OF inv ks] using k cs by (metis drop_eq_Nil le_antisym ks order_refl)
  note unf = R_def CO_fifo_readToken_loop.simps [of f count "(f_readPtr f + k) mod f_bufSize f"]
    fifo_nth_contents [OF k] ck sw fifo_pos_next [OF inv]
  note seek = fifo_seek [OF inv less_imp_le [OF k]] and seek' = fifo_seek [OF inv ks]
  show "\<exists>f'. R = Some (f', tok', DELIM_COMMAND \<in> set cs \<or> Suc (length cs) = fifo_cap f) \<and>
           fifo_contents f' = after_delim cs \<and> fifo_inv f' \<and> fifo_cap f' = fifo_cap f" if cmt
  proof -
    from token_switch_comment [OF sw that] have "c = DELIM_COMMENT" .
    with that CO_fifo_CommSearch_spec [OF seek(2), of True] show ?thesis
      unfolding unf by (auto simp: seek dr simp del: length_fifo_contents)
  qed
  show "\<exists>f'. R = Some (f', tok', True) \<and>
           fifo_contents f' = cs \<and> fifo_inv f' \<and> fifo_cap f' = fifo_cap f" if "\<not> cmt" cmd
    using that seek' cs unfolding unf by simp
  show "\<exists>f'. R = Some (f', tok', False) \<and>
           fifo_contents f' = c # cs \<and> fifo_inv f' \<and> fifo_cap f' = fifo_cap f" if "\<not> cmt" "\<not> cmd" nxt
    using that seek dr unfolding unf by simp
  show "\<exists>f'. R = Some (f', tok', False) \<and>
           fifo_contents f' = [] \<and> fifo_inv f' \<and> fifo_cap f' = fifo_cap f"
    if "\<not> cmt" "\<not> cmd" "\<not> nxt" "cs = []" "step' = 2"
    using that seek' cs last unfolding unf by (simp add: Let_def)
  show "R = Some (f, [], False)" if "\<not> cmt" "\<not> cmd" "\<not> nxt" "cs = []" "step' \<noteq> 2"
    using that last unfolding unf by (simp add: Let_def)
  show "R = CO_fifo_readToken_loop f count ((f_readPtr f + Suc k) mod f_bufSize f) step' tok'"
    if "\<not> cmt" "\<not> cmd" "\<not> nxt" "cs \<noteq> []"
    using that last unfolding unf by (simp add: Let_def)
qed

lemma token_list_Cons:
  assumes "token_switch count step tok c = (step', tok', cmd, cmt, nxt)"
  shows "token_list cap count step tok (c # cs) =
     (if cmt then (tok', DELIM_COMMAND \<in> set cs \<or> Suc (length cs) = cap, Some (after_delim cs))
      else if cmd then (tok', True, Some cs)
      else if nxt then (tok', False, Some (c # cs))
      else if cs = [] then (if step' = 2 then (tok', False, Some []) else ([], False, None))
      else token_list cap count step' tok' cs)"
  by (simp add: assms)

declare token_list.simps(2) [simp del]

lemma CO_fifo_readToken_loop_spec:
  "fifo_inv f \<Longrightarrow> drop k (fifo_contents f) = c # cs \<Longrightarrow>
    \<exists>f'. CO_fifo_readToken_loop f count ((f_readPtr f + k) mod f_bufSize f) step tok =
          Some (f', fst (token_list (fifo_cap f) count step tok (c # cs)),
                fst (snd (token_list (fifo_cap f) count step tok (c # cs)))) \<and>
        fifo_contents f' = (case snd (snd (token_list (fifo_cap f) count step tok (c # cs))) of
                              None \<Rightarrow> fifo_contents f | Some cs \<Rightarrow> cs) \<and>
        fifo_inv f' \<and> fifo_cap f' = fifo_cap f"
proof (induction cs arbitrary: k c step tok)
  case (Nil k c step tok)
  obtain step' tok' cmd cmt nxt where sw: "token_switch count step tok c = (step', tok', cmd, cmt, nxt)"
    by (metis prod.exhaust)
  note steps = readToken_step [OF Nil.prems sw]
  consider cmt | "\<not> cmt" cmd | "\<not> cmt" "\<not> cmd" nxt | "\<not> cmt" "\<not> cmd" "\<not> nxt" "step' = 2"
    | "\<not> cmt" "\<not> cmd" "\<not> nxt" "step' \<noteq> 2" by blast
  then show ?case
  proof cases
    case 1 with steps(1) show ?thesis by (simp add: token_list_Cons [OF sw])
  next
    case 2 with steps(2) show ?thesis by (simp add: token_list_Cons [OF sw])
  next
    case 3 with steps(3) show ?thesis by (simp add: token_list_Cons [OF sw])
  next
    case 4 with steps(4) show ?thesis by (simp add: token_list_Cons [OF sw])
  next
    case 5 with steps(5) Nil.prems(1) show ?thesis by (simp add: token_list_Cons [OF sw])
  qed
next
  case (Cons d cs k c step tok)
  obtain step' tok' cmd cmt nxt where sw: "token_switch count step tok c = (step', tok', cmd, cmt, nxt)"
    by (metis prod.exhaust)
  note steps = readToken_step [OF Cons.prems sw]
  from Cons.prems(2) have "drop (Suc k) (fifo_contents f) = d # cs"
    by (metis drop_Suc list.sel(3) tl_drop)
  note IH = Cons.IH [OF Cons.prems(1) this, of step' tok']
  consider cmt | "\<not> cmt" cmd | "\<not> cmt" "\<not> cmd" nxt | "\<not> cmt" "\<not> cmd" "\<not> nxt" by blast
  then show ?case
  proof cases
    case 1 with steps(1) show ?thesis by (simp add: token_list_Cons [OF sw])
  next
    case 2 with steps(2) show ?thesis by (simp add: token_list_Cons [OF sw])
  next
    case 3 with steps(3) show ?thesis by (simp add: token_list_Cons [OF sw])
  next
    case 4 with steps(6) IH show ?thesis by (simp add: token_list_Cons [OF sw])
  qed
qed

subsection \<open>Properties\<close>

text \<open>\<^verbatim>\<open>CommSearch\<close> reports a command exactly when the contents hold a command delimiter or the buffer
  is full, wherever the contents wrap around; with \<^verbatim>\<open>clear\<close> it removes everything up to and including
  the first delimiter, or everything when there is none, and otherwise changes nothing.\<close>

theorem CO_fifo_CommSearch_correct:
  assumes "fifo_inv f"
  shows "\<exists>f'. CO_fifo_CommSearch f clear =
       (DELIM_COMMAND \<in> set (fifo_contents f) \<or> length (fifo_contents f) = fifo_cap f, f') \<and>
     fifo_contents f' = (if clear then after_delim (fifo_contents f) else fifo_contents f) \<and>
     fifo_inv f' \<and> fifo_cap f' = fifo_cap f"
  by (rule CO_fifo_CommSearch_spec [OF assms])

definition fifo_line :: CO_fifo_t where
  \<comment> \<open>holds the bytes of \<^verbatim>\<open>ab\<close>, newline, \<^verbatim>\<open>c\<close>, wrapped around the end of the buffer\<close>
  "fifo_line = \<lparr>f_buf = [10, 99, 0, 0, 97, 98], f_bufSize = 6, f_writePtr = 2, f_readPtr = 4,
     f_altReadPtr = 4, f_started = False, f_aux = 0\<rparr>"

lemma fifo_line [simp]: "fifo_inv fifo_line" "fifo_contents fifo_line = [97, 98, 10, 99]"
  by (simp_all add: fifo_line_def fifo_inv_def fifo_contents_def ring_seg_def ring_dist_def upt_rec)

theorem CO_fifo_CommSearch_correct_witness:
  "\<exists>f'. CO_fifo_CommSearch fifo_line True =
       (DELIM_COMMAND \<in> set (fifo_contents fifo_line) \<or> length (fifo_contents fifo_line) = fifo_cap fifo_line, f') \<and>
     fifo_contents f' = (if True then after_delim (fifo_contents fifo_line) else fifo_contents fifo_line) \<and>
     fifo_inv f' \<and> fifo_cap f' = fifo_cap fifo_line"
  by (rule CO_fifo_CommSearch_correct) simp

text \<open>A character that can be part of a token.\<close>

definition token_char :: "u8 \<Rightarrow> bool" where
  "token_char c \<longleftrightarrow> isgraph c \<and> c \<noteq> DELIM_COMMENT"

lemma token_list_word:
  "\<forall>c\<in>set w. token_char c \<Longrightarrow> length tok + length w \<le> count \<Longrightarrow>
    token_list cap count 1 tok (w @ DELIM_COMMAND # rest) = (tok @ w, True, Some rest)"
  by (induction w arbitrary: tok)
     (auto simp: token_list.simps(2) token_switch_def token_char_def split: list.split)

lemma token_list_blanks:
  "\<forall>c\<in>set b. \<not> isgraph c \<and> c \<noteq> DELIM_COMMAND \<Longrightarrow> xs \<noteq> [] \<Longrightarrow>
    token_list cap count 0 tok (b @ xs) = token_list cap count 0 tok xs"
proof (induction b)
  case Nil
  then show ?case by simp
next
  case (Cons c b)
  then have "token_switch count 0 tok c = (0, tok, False, False, False)"
    by (simp add: token_switch_def)
  from token_list_Cons [OF this] Cons show ?case by simp
qed

text \<open>Every token is made of token characters and fits its buffer.\<close>

lemma token_list_ok:
  "\<forall>c\<in>set tok. token_char c \<Longrightarrow> length tok \<le> count \<Longrightarrow> (step = 0 \<longrightarrow> length tok < count) \<Longrightarrow>
    (\<forall>c\<in>set (fst (token_list cap count step tok cs)). token_char c) \<and>
    length (fst (token_list cap count step tok cs)) \<le> count"
proof (induction cs arbitrary: step tok)
  case Nil
  then show ?case by simp
next
  case (Cons c cs)
  obtain step' tok' cmd cmt nxt where sw: "token_switch count step tok c = (step', tok', cmd, cmt, nxt)"
    by (metis prod.exhaust)
  have "(\<forall>c\<in>set tok'. token_char c) \<and> length tok' \<le> count \<and> (step' = 0 \<longrightarrow> length tok' < count)"
    using sw Cons.prems by (auto simp: token_switch_def token_char_def split: if_splits)
  with Cons.IH [of tok' step'] show ?case by (simp add: token_list_Cons [OF sw])
qed

lemma CO_fifo_readToken_unfold:
  assumes "fifo_inv f" "fifo_contents f \<noteq> []" "1 < count" "err \<noteq> Some True"
    and tl: "token_list (fifo_cap f) count 0 [] (fifo_contents f) = (tok, found, rest)"
  shows "\<exists>f'. CO_fifo_readToken f count closed err =
       Some (f', if length tok = count then [] else tok,
         map_option (\<lambda>_. if found then 1 else 0) closed,
         if err = Some False \<and> (length tok = count \<or>
              (closed = Some 1 \<and> (\<not> found \<or> length tok = 0)) \<or>
              (closed = Some 0 \<and> (found \<or> length tok = 0))) then Some True else err) \<and>
    fifo_contents f' = (case rest of None \<Rightarrow> fifo_contents f | Some cs \<Rightarrow> cs) \<and>
    fifo_inv f' \<and> fifo_cap f' = fifo_cap f"
proof -
  from assms(2) obtain c cs where c: "fifo_contents f = c # cs" by (cases "fifo_contents f") auto
  have ne: "f_readPtr f \<noteq> f_writePtr f" using assms fifo_contents_Nil by blast
  have "f_readPtr f mod f_bufSize f = f_readPtr f" using assms(1) by (simp add: fifo_inv_def)
  with CO_fifo_readToken_loop_spec [OF assms(1), of 0 c cs count 0 "[]"] c tl
  obtain f' where "CO_fifo_readToken_loop f count (f_readPtr f) 0 [] = Some (f', tok, found)"
    "fifo_contents f' = (case rest of None \<Rightarrow> fifo_contents f | Some cs \<Rightarrow> cs)"
    "fifo_inv f'" "fifo_cap f' = fifo_cap f"
    by auto
  with ne assms(3,4) show ?thesis
    by (intro exI [of _ f']) (simp add: CO_fifo_readToken_def Let_def)
qed

lemma CO_fifo_readToken_word:
  assumes "fifo_inv f" "1 < count" "w \<noteq> []" "length w < count"
    and "\<forall>c\<in>set w. token_char c" "\<forall>c\<in>set b. \<not> isgraph c \<and> c \<noteq> DELIM_COMMAND"
    and "fifo_contents f = b @ w @ DELIM_COMMAND # rest"
  shows "\<exists>f'. CO_fifo_readToken f count (Some cl) (Some False) = Some (f', w, Some 1, Some (cl = 0)) \<and>
           fifo_contents f' = rest \<and> fifo_inv f' \<and> fifo_cap f' = fifo_cap f"
proof -
  from assms(3) obtain c w' where w: "w = c # w'" by (cases w) auto
  have sw: "token_switch count 0 [] c = (1, [c], False, False, False)"
    using assms(5) w by (simp add: token_switch_def token_char_def)
  have tl: "token_list (fifo_cap f) count 0 [] (fifo_contents f) = (w, True, Some rest)"
    using assms(4-7) token_list_word [of w' "[c]" count "fifo_cap f" rest]
    by (simp add: token_list_blanks w token_list_Cons [OF sw])
  from assms(7) have ne: "fifo_contents f \<noteq> []" by simp
  from CO_fifo_readToken_unfold [OF assms(1) ne assms(2) _ tl, of "Some False" "Some cl"] assms(3,4)
  show ?thesis by (cases "cl = 0") auto
qed

text \<open>A word followed by a command delimiter, with any blanks before it, is returned whole; \<^verbatim>\<open>closed\<close>
  is set, the error flag is set only when the caller required an open command, and exactly the blanks,
  the word and the delimiter are consumed.\<close>

theorem CO_fifo_readToken_closing_word:
  assumes "fifo_inv f" "1 < count" "w \<noteq> []" "length w < count"
    and "\<forall>c\<in>set w. token_char c" "\<forall>c\<in>set b. \<not> isgraph c \<and> c \<noteq> DELIM_COMMAND"
    and "fifo_contents f = b @ w @ DELIM_COMMAND # rest"
  shows "\<exists>f'. CO_fifo_readToken f count (Some cl) (Some False) = Some (f', w, Some 1, Some (cl = 0)) \<and>
           fifo_contents f' = rest \<and> fifo_inv f' \<and> fifo_cap f' = fifo_cap f"
  using assms by (rule CO_fifo_readToken_word)

theorem CO_fifo_readToken_closing_word_witness:
  "\<exists>f'. CO_fifo_readToken fifo_line 15 (Some (- 1)) (Some False) = Some (f', [97, 98], Some 1, Some (- 1 = (0::int))) \<and>
      fifo_contents f' = [99] \<and> fifo_inv f' \<and> fifo_cap f' = fifo_cap fifo_line"
  by (rule CO_fifo_readToken_closing_word [where b = "[]"])
     (simp_all add: token_char_def isgraph_def DELIM_COMMAND_def DELIM_COMMENT_def)

text \<open>C39: for every well formed buffer the token scan returns, the token is shorter than its buffer (so
  the terminating zero fits) and consists of graphical characters other than the comment sign, and the
  buffer stays well formed.\<close>

theorem CO_fifo_readToken_safe:
  assumes "fifo_inv f" "1 < count"
  shows "\<exists>f' tok closed' err'. CO_fifo_readToken f count closed err = Some (f', tok, closed', err') \<and>
           length tok < count \<and> (\<forall>c\<in>set tok. token_char c) \<and> fifo_inv f' \<and> fifo_cap f' = fifo_cap f"
proof (cases "fifo_contents f = [] \<or> err = Some True")
  case True
  then have "err = Some True \<or> f_readPtr f = f_writePtr f" using assms fifo_contents_Nil by blast
  with assms show ?thesis by (auto simp: CO_fifo_readToken_def Let_def)
next
  case False
  obtain tok found rest where tl: "token_list (fifo_cap f) count 0 [] (fifo_contents f) = (tok, found, rest)"
    by (metis prod.exhaust)
  from False have ne: "fifo_contents f \<noteq> []" and err: "err \<noteq> Some True" by auto
  have "(\<forall>c\<in>set tok. token_char c) \<and> length tok \<le> count"
    using token_list_ok [of "[]" count 0 "fifo_cap f" "fifo_contents f"] assms(2) tl by simp
  with CO_fifo_readToken_unfold [OF assms(1) ne assms(2) err tl, of closed] assms(2)
  show ?thesis by (cases "length tok = count") auto
qed

theorem CO_fifo_readToken_safe_witness:
  "\<exists>f' tok closed' err'. CO_fifo_readToken fifo_line 15 None (Some False) = Some (f', tok, closed', err') \<and>
     length tok < 15 \<and> (\<forall>c\<in>set tok. token_char c) \<and> fifo_inv f' \<and> fifo_cap f' = fifo_cap fifo_line"
  by (rule CO_fifo_readToken_safe) simp_all

text \<open>A comment makes \<^verbatim>\<open>trimSpaces\<close> empty the whole buffer and report that no command delimiter was
  found, even when a delimiter and further commands follow the comment.\<close>

theorem CO_fifo_trimSpaces_comment_clears_all:
  assumes "fifo_inv f" "\<forall>c\<in>set b. \<not> isgraph c \<and> c \<noteq> DELIM_COMMAND"
    and "fifo_contents f = b @ DELIM_COMMENT # rest"
  shows "\<exists>f'. CO_fifo_trimSpaces f = Some (False, f') \<and> fifo_contents f' = []"
proof -
  have "trim_list (b @ DELIM_COMMENT # rest) = (False, [])"
    using assms(2) by (induction b) auto
  with CO_fifo_trimSpaces_spec [OF assms(1)] assms(3) show ?thesis by auto
qed

definition fifo_comment :: CO_fifo_t where
  \<comment> \<open>a comment sign, newline, and the first character of the next command\<close>
  "fifo_comment = \<lparr>f_buf = [35, 10, 97, 0], f_bufSize = 4, f_writePtr = 3, f_readPtr = 0,
     f_altReadPtr = 0, f_started = False, f_aux = 0\<rparr>"

theorem CO_fifo_trimSpaces_comment_clears_all_witness:
  "\<exists>f'. CO_fifo_trimSpaces fifo_comment = Some (False, f') \<and> fifo_contents f' = []"
  by (rule CO_fifo_trimSpaces_comment_clears_all [where b = "[]" and rest = "[10, 97]"])
     (simp_all add: fifo_comment_def fifo_inv_def fifo_contents_def ring_seg_def ring_dist_def upt_rec
       DELIM_COMMENT_def)

end
