(* ===== verification/Fifo_Data.thy ===== *)
theory Fifo_Data
  imports Fifo_Ascii
begin

section \<open>Numbers, byte strings and text in the FIFO (\<^verbatim>\<open>301/CO_fifo.c\<close>, ASCII data types)\<close>

text \<open>
  The gateway converts SDO data to text and back: \<^verbatim>\<open>CO_fifo_read...2a\<close> prints the bytes of a FIFO,
  \<^verbatim>\<open>CO_fifo_cpyTok2...\<close> parses a token of one FIFO into bytes of another. The C library functions they
  call are modelled for a 32 bit \<^verbatim>\<open>long\<close> and the C locale: \<^verbatim>\<open>sprintf\<close> with the integer formats, and
  \<^verbatim>\<open>strtoul\<close>, \<^verbatim>\<open>strtol\<close>, \<^verbatim>\<open>strtoull\<close>, \<^verbatim>\<open>strtoll\<close> with base 0, which saturate and report only the place
  where the scan stopped. Text is a list of bytes without the terminating zero. The variants for
  \<^verbatim>\<open>float\<close> and \<^verbatim>\<open>double\<close> are not modelled.
\<close>

subsection \<open>The C library: printing and scanning integers\<close>

fun dec_digits :: "nat \<Rightarrow> u8 list" where
  "dec_digits n = (if n < 10 then [48 + word_of_nat n] else dec_digits (n div 10) @ [48 + word_of_nat (n mod 10)])"

declare dec_digits.simps [simp del]

definition dec_int :: "int \<Rightarrow> u8 list" where
  "dec_int i = (if i < 0 then 45 # dec_digits (nat (- i)) else dec_digits (nat i))"

definition hex_char :: "nat \<Rightarrow> u8" where
  "hex_char d = (if d < 10 then 48 + word_of_nat d else 55 + word_of_nat d)"

fun hex_digits :: "nat \<Rightarrow> nat \<Rightarrow> u8 list" where
  "hex_digits 0 n = []"
| "hex_digits (Suc w) n = hex_digits w (n div 16) @ [hex_char (n mod 16)]"

definition to_signed :: "nat \<Rightarrow> nat \<Rightarrow> int" where
  "to_signed w n = (if n < 2 ^ (w - 1) then int n else int n - 2 ^ w)"

definition digit_val :: "u8 \<Rightarrow> nat option" where
  "digit_val c =
     (let n = unat c
      in if 48 \<le> n \<and> n \<le> 57 then Some (n - 48)
         else if 97 \<le> n \<and> n \<le> 122 then Some (n - 87)
         else if 65 \<le> n \<and> n \<le> 90 then Some (n - 55)
         else None)"

definition is_digit :: "nat \<Rightarrow> u8 \<Rightarrow> bool" where
  "is_digit base c = (case digit_val c of None \<Rightarrow> False | Some d \<Rightarrow> d < base)"

definition scan_digits :: "nat \<Rightarrow> u8 list \<Rightarrow> nat \<times> u8 list" where
  "scan_digits base cs =
     (foldl (\<lambda>acc c. acc * base + the (digit_val c)) 0 (takeWhile (is_digit base) cs),
      dropWhile (is_digit base) cs)"

text \<open>
  Base 0: an optional sign, then \<^verbatim>\<open>0x\<close> and a hexadecimal digit, \<^verbatim>\<open>0\<close> for octal, or decimal. The
  result is the sign, the magnitude and the unread rest; when there is no digit nothing is read. The
  tokens given to these functions hold no white space.
\<close>

definition scan_base0 :: "u8 list \<Rightarrow> bool \<times> nat \<times> u8 list" where
  "scan_base0 s =
     (let neg = (s \<noteq> [] \<and> hd s = 45);
          t = (if s \<noteq> [] \<and> (hd s = 45 \<or> hd s = 43) then tl s else s)
      in case t of
           [] \<Rightarrow> (False, 0, s)
         | c # u \<Rightarrow>
             if c = 48 then
               (if u \<noteq> [] \<and> (hd u = 120 \<or> hd u = 88) \<and> tl u \<noteq> [] \<and> is_digit 16 (hd (tl u))
                then (case scan_digits 16 (tl u) of (m, r) \<Rightarrow> (neg, m, r))
                else (case scan_digits 8 t of (m, r) \<Rightarrow> (neg, m, r)))
             else if is_digit 10 c then (case scan_digits 10 t of (m, r) \<Rightarrow> (neg, m, r))
             else (False, 0, s))"

definition strtou :: "nat \<Rightarrow> u8 list \<Rightarrow> nat \<times> u8 list" where
  "strtou w s = (case scan_base0 s of (neg, m, r) \<Rightarrow>
     (if m \<ge> 2 ^ w then 2 ^ w - 1 else if neg then (2 ^ w - m) mod 2 ^ w else m, r))"

definition strtoi :: "nat \<Rightarrow> u8 list \<Rightarrow> int \<times> u8 list" where
  "strtoi w s = (case scan_base0 s of (neg, m, r) \<Rightarrow>
     (if neg then max (- int m) (- (2 ^ (w - 1))) else min (int m) (2 ^ (w - 1) - 1), r))"

subsection \<open>From bytes to text\<close>

function CO_fifo_readHex2a_loop :: "CO_fifo_t \<Rightarrow> nat \<Rightarrow> u8 list \<Rightarrow> CO_fifo_t \<times> u8 list" where
  "CO_fifo_readHex2a_loop fifo count buf =
     (if length buf + 3 < count then
        (case CO_fifo_getc fifo of
           None \<Rightarrow> (fifo, buf)
         | Some (c, fifo) \<Rightarrow> CO_fifo_readHex2a_loop fifo count (buf @ 32 # hex_digits 2 (unat c)))
      else (fifo, buf))"
  by pat_completeness auto
termination
  by (relation "measure (\<lambda>(fifo, count, buf). count - length buf)") auto

declare CO_fifo_readHex2a_loop.simps [simp del]

definition CO_fifo_readHex2a :: "CO_fifo_t \<Rightarrow> nat \<Rightarrow> bool \<Rightarrow> CO_fifo_t \<times> u8 list" where
  "CO_fifo_readHex2a fifo count end =
     (if count > 3 then
        (let (fifo, buf) =
           (if \<not> f_started fifo then
              (case CO_fifo_getc fifo of
                 None \<Rightarrow> (fifo, [])
               | Some (c, fifo) \<Rightarrow> (fifo\<lparr>f_started := True\<rparr>, hex_digits 2 (unat c)))
            else (fifo, []))
         in CO_fifo_readHex2a_loop fifo count buf)
      else (fifo, []))"

function CO_fifo_readVs2a_loop :: "CO_fifo_t \<Rightarrow> nat \<Rightarrow> bool \<Rightarrow> u8 list \<Rightarrow> CO_fifo_t \<times> u8 list" where
  "CO_fifo_readVs2a_loop fifo count end buf =
     (if length buf + 2 < count then
        (case CO_fifo_getc fifo of
           None \<Rightarrow> (fifo, if end then buf @ [34] else buf)
         | Some (c, fifo) \<Rightarrow>
             CO_fifo_readVs2a_loop fifo count end (buf @ (if c = 34 then [34, 34] else [c])))
      else (fifo, buf))"
  by pat_completeness auto
termination
  by (relation "measure (\<lambda>(fifo, count, end, buf). count - length buf)") auto

declare CO_fifo_readVs2a_loop.simps [simp del]

definition CO_fifo_readVs2a :: "CO_fifo_t \<Rightarrow> nat \<Rightarrow> bool \<Rightarrow> CO_fifo_t \<times> u8 list" where
  "CO_fifo_readVs2a fifo count end =
     (if count > 3 then
        (if \<not> f_started fifo then CO_fifo_readVs2a_loop (fifo\<lparr>f_started := True\<rparr>) count end [34]
         else CO_fifo_readVs2a_loop fifo count end [])
      else (fifo, []))"

text \<open>
  The twelve integer printers have the same body; \<^verbatim>\<open>sz\<close> is \<^verbatim>\<open>sizeof(n)\<close>, \<^verbatim>\<open>minCount\<close> the constant
  \<^verbatim>\<open>count\<close> is compared with, \<^verbatim>\<open>fmt\<close> the format.
\<close>

definition read_number2a ::
    "nat \<Rightarrow> nat \<Rightarrow> (nat \<Rightarrow> u8 list) \<Rightarrow> CO_fifo_t \<Rightarrow> nat \<Rightarrow> bool \<Rightarrow> CO_fifo_t \<times> u8 list" where
  "read_number2a sz minCount fmt fifo count end =
     (if count \<ge> minCount \<and> CO_fifo_getOccupied fifo = sz
      then (case CO_fifo_read fifo sz False of (fifo, n, _) \<Rightarrow> (fifo, fmt (le_value n)))
      else CO_fifo_readHex2a fifo count end)"

definition CO_fifo_readU82a :: "CO_fifo_t \<Rightarrow> nat \<Rightarrow> bool \<Rightarrow> CO_fifo_t \<times> u8 list" where
  "CO_fifo_readU82a = read_number2a 1 6 dec_digits"
definition CO_fifo_readU162a :: "CO_fifo_t \<Rightarrow> nat \<Rightarrow> bool \<Rightarrow> CO_fifo_t \<times> u8 list" where
  "CO_fifo_readU162a = read_number2a 2 8 dec_digits"
definition CO_fifo_readU322a :: "CO_fifo_t \<Rightarrow> nat \<Rightarrow> bool \<Rightarrow> CO_fifo_t \<times> u8 list" where
  "CO_fifo_readU322a = read_number2a 4 12 dec_digits"
definition CO_fifo_readU642a :: "CO_fifo_t \<Rightarrow> nat \<Rightarrow> bool \<Rightarrow> CO_fifo_t \<times> u8 list" where
  "CO_fifo_readU642a = read_number2a 8 20 dec_digits"
definition CO_fifo_readX82a :: "CO_fifo_t \<Rightarrow> nat \<Rightarrow> bool \<Rightarrow> CO_fifo_t \<times> u8 list" where
  "CO_fifo_readX82a = read_number2a 1 6 (\<lambda>n. 48 # 120 # hex_digits 2 n)"
definition CO_fifo_readX162a :: "CO_fifo_t \<Rightarrow> nat \<Rightarrow> bool \<Rightarrow> CO_fifo_t \<times> u8 list" where
  "CO_fifo_readX162a = read_number2a 2 8 (\<lambda>n. 48 # 120 # hex_digits 4 n)"
definition CO_fifo_readX322a :: "CO_fifo_t \<Rightarrow> nat \<Rightarrow> bool \<Rightarrow> CO_fifo_t \<times> u8 list" where
  "CO_fifo_readX322a = read_number2a 4 12 (\<lambda>n. 48 # 120 # hex_digits 8 n)"
definition CO_fifo_readX642a :: "CO_fifo_t \<Rightarrow> nat \<Rightarrow> bool \<Rightarrow> CO_fifo_t \<times> u8 list" where
  "CO_fifo_readX642a = read_number2a 8 20 (\<lambda>n. 48 # 120 # hex_digits 16 n)"
definition CO_fifo_readI82a :: "CO_fifo_t \<Rightarrow> nat \<Rightarrow> bool \<Rightarrow> CO_fifo_t \<times> u8 list" where
  "CO_fifo_readI82a = read_number2a 1 6 (\<lambda>n. dec_int (to_signed 8 n))"
definition CO_fifo_readI162a :: "CO_fifo_t \<Rightarrow> nat \<Rightarrow> bool \<Rightarrow> CO_fifo_t \<times> u8 list" where
  "CO_fifo_readI162a = read_number2a 2 8 (\<lambda>n. dec_int (to_signed 16 n))"
definition CO_fifo_readI322a :: "CO_fifo_t \<Rightarrow> nat \<Rightarrow> bool \<Rightarrow> CO_fifo_t \<times> u8 list" where
  "CO_fifo_readI322a = read_number2a 4 13 (\<lambda>n. dec_int (to_signed 32 n))"
definition CO_fifo_readI642a :: "CO_fifo_t \<Rightarrow> nat \<Rightarrow> bool \<Rightarrow> CO_fifo_t \<times> u8 list" where
  "CO_fifo_readI642a = read_number2a 8 23 (\<lambda>n. dec_int (to_signed 64 n))"

subsection \<open>From tokens to bytes\<close>

definition CO_fifo_st_closed :: u8 where "CO_fifo_st_closed = 0x01"
definition CO_fifo_st_partial :: u8 where "CO_fifo_st_partial = 0x02"
definition CO_fifo_st_errTok :: u8 where "CO_fifo_st_errTok = 0x10"
definition CO_fifo_st_errVal :: u8 where "CO_fifo_st_errVal = 0x20"
definition CO_fifo_st_errBuf :: u8 where "CO_fifo_st_errBuf = 0x40"
definition CO_fifo_st_errInt :: u8 where "CO_fifo_st_errInt = 0x80"
definition CO_fifo_st_errMask :: u8 where "CO_fifo_st_errMask = 0xF0"

lemmas CO_fifo_st_defs = CO_fifo_st_closed_def CO_fifo_st_partial_def CO_fifo_st_errTok_def
  CO_fifo_st_errVal_def CO_fifo_st_errBuf_def CO_fifo_st_errInt_def CO_fifo_st_errMask_def

text \<open>
  The eight integer parsers have the same body; \<^verbatim>\<open>bufSize\<close> is \<^verbatim>\<open>sizeof(buf)\<close>, \<^verbatim>\<open>sz\<close> is
  \<^verbatim>\<open>sizeof(num)\<close> and \<^verbatim>\<open>conv\<close> gives the number, or nothing where the code sets \<^verbatim>\<open>errVal\<close>. The result
  holds both buffers, the status and the number of bytes written. The copied token never holds a zero
  byte, so \<^verbatim>\<open>strchr(buf, 0)\<close> is its end.
\<close>

definition cpyTok2number ::
    "nat \<Rightarrow> nat \<Rightarrow> (u8 list \<Rightarrow> nat option) \<Rightarrow> CO_fifo_t \<Rightarrow> CO_fifo_t \<Rightarrow>
     (CO_fifo_t \<times> CO_fifo_t \<times> u8 \<times> nat) option" where
  "cpyTok2number bufSize sz conv dest src =
     (case CO_fifo_readToken src bufSize (Some (- 1)) (Some False) of
        None \<Rightarrow> None
      | Some (src, buf, closed, err) \<Rightarrow>
          let st = (if closed = Some 1 then 1 else 0 :: u8)
          in if length buf = 0 \<or> err = Some True then Some (dest, src, st OR CO_fifo_st_errTok, 0)
             else (case conv buf of
                     None \<Rightarrow> Some (dest, src, st OR CO_fifo_st_errVal, 0)
                   | Some num \<Rightarrow>
                       (case CO_fifo_write dest (le_bytes sz num) sz None of (dest, nWr, _) \<Rightarrow>
                          Some (dest, src, if nWr \<noteq> sz then st OR CO_fifo_st_errBuf else st, nWr))))"

definition conv_u :: "nat \<Rightarrow> nat \<Rightarrow> u8 list \<Rightarrow> nat option" where
  "conv_u w lim buf = (case strtou w buf of (u, sRet) \<Rightarrow> if sRet \<noteq> [] \<or> u > lim then None else Some u)"

definition conv_u_any :: "nat \<Rightarrow> u8 list \<Rightarrow> nat option" where
  "conv_u_any w buf = (case strtou w buf of (u, sRet) \<Rightarrow> if sRet \<noteq> [] then None else Some u)"

definition conv_i :: "nat \<Rightarrow> nat \<Rightarrow> u8 list \<Rightarrow> nat option" where
  "conv_i w bits buf = (case strtoi w buf of (i, sRet) \<Rightarrow>
     if sRet \<noteq> [] \<or> i < - (2 ^ (bits - 1)) \<or> i > 2 ^ (bits - 1) - 1 then None else Some (nat (i mod 2 ^ bits)))"

definition CO_fifo_cpyTok2U8 :: "CO_fifo_t \<Rightarrow> CO_fifo_t \<Rightarrow> (CO_fifo_t \<times> CO_fifo_t \<times> u8 \<times> nat) option" where
  "CO_fifo_cpyTok2U8 = cpyTok2number 15 1 (conv_u 32 255)"
definition CO_fifo_cpyTok2U16 :: "CO_fifo_t \<Rightarrow> CO_fifo_t \<Rightarrow> (CO_fifo_t \<times> CO_fifo_t \<times> u8 \<times> nat) option" where
  "CO_fifo_cpyTok2U16 = cpyTok2number 15 2 (conv_u 32 65535)"
definition CO_fifo_cpyTok2U32 :: "CO_fifo_t \<Rightarrow> CO_fifo_t \<Rightarrow> (CO_fifo_t \<times> CO_fifo_t \<times> u8 \<times> nat) option" where
  "CO_fifo_cpyTok2U32 = cpyTok2number 15 4 (conv_u_any 32)"
definition CO_fifo_cpyTok2U64 :: "CO_fifo_t \<Rightarrow> CO_fifo_t \<Rightarrow> (CO_fifo_t \<times> CO_fifo_t \<times> u8 \<times> nat) option" where
  "CO_fifo_cpyTok2U64 = cpyTok2number 25 8 (conv_u_any 64)"
definition CO_fifo_cpyTok2I8 :: "CO_fifo_t \<Rightarrow> CO_fifo_t \<Rightarrow> (CO_fifo_t \<times> CO_fifo_t \<times> u8 \<times> nat) option" where
  "CO_fifo_cpyTok2I8 = cpyTok2number 15 1 (conv_i 32 8)"
definition CO_fifo_cpyTok2I16 :: "CO_fifo_t \<Rightarrow> CO_fifo_t \<Rightarrow> (CO_fifo_t \<times> CO_fifo_t \<times> u8 \<times> nat) option" where
  "CO_fifo_cpyTok2I16 = cpyTok2number 15 2 (conv_i 32 16)"
definition CO_fifo_cpyTok2I32 :: "CO_fifo_t \<Rightarrow> CO_fifo_t \<Rightarrow> (CO_fifo_t \<times> CO_fifo_t \<times> u8 \<times> nat) option" where
  "CO_fifo_cpyTok2I32 = cpyTok2number 15 4
     (\<lambda>buf. case strtoi 32 buf of (i, sRet) \<Rightarrow> if sRet \<noteq> [] then None else Some (nat (i mod 2 ^ 32)))"
definition CO_fifo_cpyTok2I64 :: "CO_fifo_t \<Rightarrow> CO_fifo_t \<Rightarrow> (CO_fifo_t \<times> CO_fifo_t \<times> u8 \<times> nat) option" where
  "CO_fifo_cpyTok2I64 = cpyTok2number 25 8
     (\<lambda>buf. case strtoi 64 buf of (i, sRet) \<Rightarrow> if sRet \<noteq> [] then None else Some (nat (i mod 2 ^ 64)))"

subsection \<open>Byte strings and quoted text\<close>

definition isxdigit :: "u8 \<Rightarrow> bool" where
  "isxdigit c = is_digit 16 c"

text \<open>\<^verbatim>\<open>strtol(s, NULL, 16)\<close> on one or two hexadecimal digits, and the cast to \<^verbatim>\<open>char\<close>.\<close>

definition hex_value :: "u8 list \<Rightarrow> u8" where
  "hex_value s = word_of_nat (fst (scan_digits 16 s))"

text \<open>\<^verbatim>\<open>while (CO_fifo_getc(src, &c))\<close>: drop a comment up to the end of the line.\<close>

partial_function (option) skip_line :: "CO_fifo_t \<Rightarrow> (bool \<times> CO_fifo_t) option" where
  "skip_line src =
     (case CO_fifo_getc src of
        None \<Rightarrow> Some (False, src)
      | Some (c, src) \<Rightarrow> if c = DELIM_COMMAND then Some (True, src) else skip_line src)"

definition close_if :: "bool \<Rightarrow> u8 \<Rightarrow> u8" where
  "close_if b st = (if b then st OR CO_fifo_st_closed else st)"

partial_function (option) CO_fifo_cpyTok2Hex_loop ::
    "CO_fifo_t \<Rightarrow> CO_fifo_t \<Rightarrow> nat \<Rightarrow> u8 \<Rightarrow> (CO_fifo_t \<times> CO_fifo_t \<times> nat \<times> u8 \<times> bool) option" where
  "CO_fifo_cpyTok2Hex_loop dest src destSpace st =
     (if destSpace > 0 \<and> st AND CO_fifo_st_errMask = 0 then
        (case CO_fifo_getc src of
           None \<Rightarrow> Some (dest, src, destSpace, st, False)
         | Some (c, src) \<Rightarrow>
             if \<not> f_started dest then
               (if isxdigit c then
                  CO_fifo_cpyTok2Hex_loop (dest\<lparr>f_aux := ucast c, f_started := True\<rparr>) src destSpace st
                else if c = DELIM_COMMAND then Some (dest, src, destSpace, st OR CO_fifo_st_closed, True)
                else if c = DELIM_COMMENT then
                  (case skip_line src of
                     None \<Rightarrow> None
                   | Some (cl, src) \<Rightarrow> Some (dest, src, destSpace, close_if cl st, True))
                else if isgraph c then CO_fifo_cpyTok2Hex_loop dest src destSpace (st OR CO_fifo_st_errTok)
                else CO_fifo_cpyTok2Hex_loop dest src destSpace st)
             else
               (if isxdigit c then
                  (let dest = snd (CO_fifo_putc dest (hex_value [ucast (f_aux dest), c]))
                   in CO_fifo_cpyTok2Hex_loop (dest\<lparr>f_started := False\<rparr>) src (destSpace - 1) st)
                else if isgraph c \<and> c \<noteq> DELIM_COMMENT then
                  CO_fifo_cpyTok2Hex_loop (dest\<lparr>f_started := False\<rparr>) src destSpace (st OR CO_fifo_st_errTok)
                else
                  (let dest = snd (CO_fifo_putc dest (hex_value [ucast (f_aux dest)]));
                       destSpace = destSpace - 1
                   in if c = DELIM_COMMAND then
                        Some (dest\<lparr>f_started := False\<rparr>, src, destSpace, st OR CO_fifo_st_closed, True)
                      else if c = DELIM_COMMENT then
                        (case skip_line src of
                           None \<Rightarrow> None
                         | Some (cl, src) \<Rightarrow>
                             Some (dest\<lparr>f_started := False\<rparr>, src, destSpace, close_if cl st, True))
                      else CO_fifo_cpyTok2Hex_loop (dest\<lparr>f_started := False\<rparr>) src destSpace st)))
      else Some (dest, src, destSpace, st, False))"

definition CO_fifo_cpyTok2Hex ::
    "CO_fifo_t \<Rightarrow> CO_fifo_t \<Rightarrow> (CO_fifo_t \<times> CO_fifo_t \<times> u8 \<times> nat) option" where
  "CO_fifo_cpyTok2Hex dest src =
     (let destSpaceStart = CO_fifo_getSpace dest
      in case CO_fifo_cpyTok2Hex_loop dest src destSpaceStart 0 of
           None \<Rightarrow> None
         | Some (dest, src, destSpace, st, finished) \<Rightarrow>
             Some (dest, src, if finished then st else st OR CO_fifo_st_partial, destSpaceStart - destSpace))"

partial_function (option) CO_fifo_cpyTok2Vs_loop ::
    "CO_fifo_t \<Rightarrow> CO_fifo_t \<Rightarrow> nat \<Rightarrow> u8 \<Rightarrow> (CO_fifo_t \<times> CO_fifo_t \<times> nat \<times> u8 \<times> bool) option" where
  "CO_fifo_cpyTok2Vs_loop dest src destSpace st =
     (if destSpace > 0 \<and> st AND CO_fifo_st_errMask = 0 then
        (case CO_fifo_getc src of
           None \<Rightarrow> Some (dest, src, destSpace, st, False)
         | Some (c, src) \<Rightarrow>
             if f_aux dest = 0 then
               (if \<not> isgraph c \<or> c = DELIM_COMMENT then
                  (case CO_fifo_trimSpaces src of
                     None \<Rightarrow> None
                   | Some (delim, src) \<Rightarrow>
                       CO_fifo_cpyTok2Vs_loop dest src destSpace (if delim then st OR CO_fifo_st_errTok else st))
                else if c = 34 then CO_fifo_cpyTok2Vs_loop (dest\<lparr>f_aux := 1\<rparr>) src destSpace st
                else CO_fifo_cpyTok2Vs_loop ((snd (CO_fifo_putc dest c))\<lparr>f_aux := 2\<rparr>) src (destSpace - 1) st)
             else if f_aux dest = 1 \<or> f_aux dest = 2 then
               (if c = 34 then CO_fifo_cpyTok2Vs_loop (dest\<lparr>f_aux := f_aux dest + 2\<rparr>) src destSpace st
                else if \<not> isgraph c \<and> f_aux dest = 2 then
                  (if c = DELIM_COMMAND then Some (dest, src, destSpace, st OR CO_fifo_st_closed, True)
                   else (case CO_fifo_trimSpaces src of
                           None \<Rightarrow> None
                         | Some (delim, src) \<Rightarrow> Some (dest, src, destSpace, close_if delim st, True)))
                else if c = DELIM_COMMAND then
                  CO_fifo_cpyTok2Vs_loop dest src destSpace (st OR CO_fifo_st_errTok)
                else CO_fifo_cpyTok2Vs_loop (snd (CO_fifo_putc dest c)) src (destSpace - 1) st)
             else if f_aux dest = 3 \<or> f_aux dest = 4 then
               (if c = 34 then
                  CO_fifo_cpyTok2Vs_loop
                    ((snd (CO_fifo_putc dest c))\<lparr>f_aux := f_aux dest - 2\<rparr>) src (destSpace - 1) st
                else if f_aux dest = 4 then
                  CO_fifo_cpyTok2Vs_loop dest src destSpace (st OR CO_fifo_st_errTok)
                else if \<not> isgraph c then
                  (if c = DELIM_COMMAND then Some (dest, src, destSpace, st OR CO_fifo_st_closed, True)
                   else (case CO_fifo_trimSpaces src of
                           None \<Rightarrow> None
                         | Some (delim, src) \<Rightarrow> Some (dest, src, destSpace, close_if delim st, True)))
                else CO_fifo_cpyTok2Vs_loop dest src destSpace (st OR CO_fifo_st_errTok))
             else CO_fifo_cpyTok2Vs_loop dest src destSpace (st OR CO_fifo_st_errInt))
      else Some (dest, src, destSpace, st, False))"

definition CO_fifo_cpyTok2Vs ::
    "CO_fifo_t \<Rightarrow> CO_fifo_t \<Rightarrow> (CO_fifo_t \<times> CO_fifo_t \<times> u8 \<times> nat) option" where
  "CO_fifo_cpyTok2Vs dest src =
     (let destSpaceStart = CO_fifo_getSpace dest;
          dest = (if \<not> f_started dest then dest\<lparr>f_aux := 0, f_started := True\<rparr> else dest)
      in case CO_fifo_cpyTok2Vs_loop dest src destSpaceStart 0 of
           None \<Rightarrow> None
         | Some (dest, src, destSpace, st, finished) \<Rightarrow>
             Some (dest, src, if finished then st else st OR CO_fifo_st_partial, destSpaceStart - destSpace))"

subsection \<open>Decimal text\<close>

lemma dec_digits_nonempty [simp]: "dec_digits n \<noteq> []"
  by (subst dec_digits.simps) simp

lemma unat_digit: "d < 10 \<Longrightarrow> unat (48 + word_of_nat d :: u8) = 48 + d"
  by (simp add: unat_word_ariths unsigned_of_nat take_bit_eq_mod)

lemma digit_val_digit: "d < 10 \<Longrightarrow> digit_val (48 + word_of_nat d) = Some d"
  by (simp add: digit_val_def unat_digit)

lemma dec_digits_chars: "c \<in> set (dec_digits n) \<Longrightarrow> \<exists>d<10. c = 48 + word_of_nat d"
proof (induction n rule: dec_digits.induct)
  case (1 n)
  from \<open>c \<in> set (dec_digits n)\<close> show ?case
  proof (subst (asm) dec_digits.simps, cases "n < 10")
    case False
    assume "c \<in> set (if n < 10 then [48 + word_of_nat n]
      else dec_digits (n div 10) @ [48 + word_of_nat (n mod 10)])"
    with False have "c = 48 + word_of_nat (n mod 10) \<or> c \<in> set (dec_digits (n div 10))" by auto
    with 1(1) [OF False] show ?thesis by (metis mod_less_divisor zero_less_numeral)
  qed auto
qed

lemma dec_digits_value: "foldl (\<lambda>acc c. acc * 10 + the (digit_val c)) 0 (dec_digits n) = n"
proof (induction n rule: dec_digits.induct)
  case (1 n)
  show ?case
  proof (cases "n < 10")
    case True
    then show ?thesis by (simp add: dec_digits.simps digit_val_digit)
  next
    case False
    with 1 show ?thesis by (subst dec_digits.simps) (simp add: digit_val_digit)
  qed
qed

lemma hd_dec_digits: "0 < n \<Longrightarrow> \<exists>d. 0 < d \<and> d < 10 \<and> hd (dec_digits n) = 48 + word_of_nat d"
proof (induction n rule: dec_digits.induct)
  case (1 n)
  show ?case
  proof (cases "n < 10")
    case True
    with 1 show ?thesis by (subst dec_digits.simps) auto
  next
    case False
    with 1 show ?thesis by (subst dec_digits.simps) simp
  qed
qed

lemma length_dec_digits: "n < 10 ^ k \<Longrightarrow> 0 < k \<Longrightarrow> length (dec_digits n) \<le> k"
proof (induction k arbitrary: n)
  case 0
  then show ?case by simp
next
  case (Suc k)
  show ?case
  proof (cases "n < 10")
    case True
    then show ?thesis by (simp add: dec_digits.simps)
  next
    case False
    with Suc.prems have "n div 10 < 10 ^ k" "0 < k" by (auto simp: less_mult_imp_div_less mult.commute intro: Nat.gr0I)
    with Suc.IH [of "n div 10"] False show ?thesis by (subst dec_digits.simps) simp
  qed
qed

lemma digit_neq: "d < 10 \<Longrightarrow> unat c < 48 \<Longrightarrow> (48 + word_of_nat d :: u8) \<noteq> c"
  using unat_digit [of d] by auto

lemma dec_digits_is_digit: "\<forall>c\<in>set (dec_digits n). is_digit 10 c"
  using dec_digits_chars by (fastforce simp: is_digit_def digit_val_digit)

lemma dec_digits_token: "\<forall>c\<in>set (dec_digits n). token_char c"
  using dec_digits_chars by (fastforce simp: token_char_def isgraph_def DELIM_COMMENT_def unat_digit dest: digit_neq [of _ 35])

lemma scan_base0_dec: "scan_base0 (dec_digits n) = (False, n, [])"
proof (cases "n = 0")
  case True
  then show ?thesis
    by (simp add: dec_digits.simps scan_base0_def scan_digits_def is_digit_def digit_val_def)
next
  case False
  then obtain d u where d: "0 < d" "d < 10" and c: "dec_digits n = (48 + word_of_nat d) # u"
    using hd_dec_digits [of n] by (metis dec_digits_nonempty list.collapse neq0_conv)
  have ne: "48 + word_of_nat d \<noteq> (48 :: u8)" "48 + word_of_nat d \<noteq> (45 :: u8)" "48 + word_of_nat d \<noteq> (43 :: u8)"
    using digit_neq [OF d(2), of 45] digit_neq [OF d(2), of 43] unat_digit [OF d(2)] d(1) by auto
  have "scan_digits 10 (dec_digits n) = (n, [])"
    using dec_digits_is_digit [of n] dec_digits_value [of n]
    by (simp add: scan_digits_def takeWhile_eq_all_conv [THEN iffD2] dropWhile_eq_Nil_conv [THEN iffD2])
  then show ?thesis using d ne
    by (simp add: scan_base0_def c is_digit_def digit_val_digit)
qed

subsection \<open>Properties\<close>

lemma length_hex_digits [simp]: "length (hex_digits w n) = w"
  by (induction w arbitrary: n) simp_all

lemma readHex2a_loop_fits: "length buf < count \<Longrightarrow> length (snd (CO_fifo_readHex2a_loop f count buf)) < count"
proof (induction f count buf rule: CO_fifo_readHex2a_loop.induct)
  case (1 f count buf)
  then show ?case
    by (subst CO_fifo_readHex2a_loop.simps) (auto split: option.split prod.split)
qed

lemma readHex2a_fits: "0 < count \<Longrightarrow> length (snd (CO_fifo_readHex2a f count end)) < count"
  by (auto simp: CO_fifo_readHex2a_def Let_def intro!: readHex2a_loop_fits split: option.split prod.split)

lemma read_number2a_fits:
  assumes "fifo_inv f" "0 < count" and fmt: "\<And>n. n < 256 ^ sz \<Longrightarrow> length (fmt n) < minCount"
  shows "length (snd (read_number2a sz minCount fmt f count end)) < count"
proof -
  let ?out = "take sz (fifo_contents f)"
  obtain f' eof where rd: "CO_fifo_read f sz False = (f', ?out, eof)"
    using CO_fifo_read_loop_spec [OF assms(1), of sz False] by (auto simp: CO_fifo_read_eq_loop)
  have "(256 :: nat) ^ length ?out \<le> 256 ^ sz" by (intro power_increasing) auto
  with le_value_less [of ?out] have "le_value ?out < 256 ^ sz" by linarith
  with fmt [of "le_value ?out"] assms(2) rd readHex2a_fits show ?thesis
    by (auto simp: read_number2a_def)
qed

lemma length_dec_int: "\<bar>i\<bar> < 10 ^ k \<Longrightarrow> 0 < k \<Longrightarrow> length (dec_int i) \<le> Suc k"
  using length_dec_digits [of "nat \<bar>i\<bar>" k] by (auto simp: dec_int_def nat_less_iff le_Suc_eq split: abs_split)

lemma to_signed_bound: "n < 2 ^ w \<Longrightarrow> 0 < w \<Longrightarrow> \<bar>to_signed w n\<bar> \<le> 2 ^ (w - 1)"
proof (cases w)
  case (Suc k)
  assume "n < 2 ^ w"
  then have "int n < int (2 * 2 ^ k)" by (simp only: of_nat_less_iff Suc power_Suc)
  moreover have "\<not> n < 2 ^ k \<Longrightarrow> int (2 ^ k) \<le> int n" by (simp only: of_nat_le_iff not_less)
  moreover have "n < 2 ^ k \<Longrightarrow> int n < int (2 ^ k)" by (simp only: of_nat_less_iff)
  ultimately show ?thesis using Suc by (auto simp: to_signed_def)
qed simp

lemma length_dec_signed:
  assumes "n < 2 ^ w" "0 < w" "(2 :: int) ^ (w - 1) < 10 ^ k" "0 < k"
  shows "length (dec_int (to_signed w n)) \<le> Suc k"
  using to_signed_bound [OF assms(1,2)] assms(3,4) by (intro length_dec_int) auto

text \<open>Every integer printer but the one for 64 bit unsigned numbers stays inside its buffer: the text
  and the terminating zero fit in \<^verbatim>\<open>count\<close> bytes, whatever the FIFO holds.\<close>

theorem CO_fifo_printers_fit:
  assumes "fifo_inv f" "0 < count"
    and "rd \<in> {CO_fifo_readU82a, CO_fifo_readU162a, CO_fifo_readU322a, CO_fifo_readX82a, CO_fifo_readX162a,
                CO_fifo_readX322a, CO_fifo_readX642a, CO_fifo_readI82a, CO_fifo_readI162a, CO_fifo_readI322a,
                CO_fifo_readI642a, CO_fifo_readHex2a}"
  shows "length (snd (rd f count end)) < count"
proof -
  note fits = read_number2a_fits [OF assms(1,2)]
  have U: "length (dec_digits n) < 6" if "n < 256 ^ 1" for n using that length_dec_digits [of n 3] by simp
  have U16: "length (dec_digits n) < 8" if "n < 256 ^ 2" for n using that length_dec_digits [of n 5] by simp
  have U32: "length (dec_digits n) < 12" if "n < 256 ^ 4" for n using that length_dec_digits [of n 10] by simp
  have I: "length (dec_int (to_signed 8 n)) < 6" if "n < 256 ^ 1" for n
    using that length_dec_signed [of n 8 3] by simp
  have I16: "length (dec_int (to_signed 16 n)) < 8" if "n < 256 ^ 2" for n
    using that length_dec_signed [of n 16 5] by simp
  have I32: "length (dec_int (to_signed 32 n)) < 13" if "n < 256 ^ 4" for n
    using that length_dec_signed [of n 32 10] by simp
  have I64: "length (dec_int (to_signed 64 n)) < 23" if "n < 256 ^ 8" for n
    using that length_dec_signed [of n 64 19] by simp
  have "length (snd (CO_fifo_readU82a f count end)) < count"
    unfolding CO_fifo_readU82a_def by (rule fits [OF U])
  moreover
  have "length (snd (CO_fifo_readU162a f count end)) < count"
    unfolding CO_fifo_readU162a_def by (rule fits [OF U16])
  moreover
  have "length (snd (CO_fifo_readU322a f count end)) < count"
    unfolding CO_fifo_readU322a_def by (rule fits [OF U32])
  moreover
  have "length (snd (CO_fifo_readI82a f count end)) < count"
    unfolding CO_fifo_readI82a_def by (rule fits [OF I])
  moreover
  have "length (snd (CO_fifo_readI162a f count end)) < count"
    unfolding CO_fifo_readI162a_def by (rule fits [OF I16])
  moreover
  have "length (snd (CO_fifo_readI322a f count end)) < count"
    unfolding CO_fifo_readI322a_def by (rule fits [OF I32])
  moreover
  have "length (snd (CO_fifo_readI642a f count end)) < count"
    unfolding CO_fifo_readI642a_def by (rule fits [OF I64])
  moreover
  have "length (snd (CO_fifo_readX82a f count end)) < count" "length (snd (CO_fifo_readX162a f count end)) < count"
    "length (snd (CO_fifo_readX322a f count end)) < count" "length (snd (CO_fifo_readX642a f count end)) < count"
    unfolding CO_fifo_readX82a_def CO_fifo_readX162a_def CO_fifo_readX322a_def CO_fifo_readX642a_def
    by (rule fits, simp)+
  moreover have "length (snd (CO_fifo_readHex2a f count end)) < count" by (rule readHex2a_fits [OF assms(2)])
  ultimately show ?thesis using assms(3) by blast
qed

theorem CO_fifo_printers_fit_witness: "length (snd (CO_fifo_readU162a fifo_example 8 True)) < 8"
  by (rule CO_fifo_printers_fit) simp_all

definition fifo_u64 :: CO_fifo_t where
  "fifo_u64 = \<lparr>f_buf = [255, 255, 255, 255, 255, 255, 255, 255, 0], f_bufSize = 9, f_writePtr = 8, f_readPtr = 0,
     f_altReadPtr = 0, f_started = False, f_aux = 0\<rparr>"

lemma fifo_u64: "fifo_inv fifo_u64" "fifo_contents fifo_u64 = [255, 255, 255, 255, 255, 255, 255, 255]" "f_bufSize fifo_u64 < 2 ^ 31"
  by (simp_all add: fifo_u64_def fifo_inv_def fifo_contents_def ring_seg_def ring_dist_def upt_rec)

text \<open>The printer for 64 bit unsigned numbers accepts a buffer of 20 bytes, but the largest number
  has 20 digits, so the terminating zero is written behind the buffer.\<close>

theorem CO_fifo_readU642a_overruns:
  "\<exists>f. fifo_inv f \<and> f_bufSize f < 2 ^ 31 \<and> length (snd (CO_fifo_readU642a f 20 True)) + 1 = 21"
proof -
  have occ: "CO_fifo_getOccupied fifo_u64 = 8"
    by (simp add: CO_fifo_getOccupied_def fifo_u64_def)
  obtain f' eof where "CO_fifo_read fifo_u64 8 False = (f', [255, 255, 255, 255, 255, 255, 255, 255], eof)"
    using CO_fifo_read_loop_spec [OF fifo_u64(1), of 8 False] fifo_u64(2) by (auto simp: CO_fifo_read_eq_loop)
  moreover have "le_value ([255, 255, 255, 255, 255, 255, 255, 255]) = 18446744073709551615"
    by simp
  moreover have "length (dec_digits 18446744073709551615) = 20"
    by (simp add: dec_digits.simps)
  ultimately have "length (snd (CO_fifo_readU642a fifo_u64 20 True)) = 20"
    by (simp add: CO_fifo_readU642a_def read_number2a_def occ)
  then show ?thesis using fifo_u64 by (intro exI [of _ fifo_u64]) simp
qed

lemma cpyTok2number_dec:
  assumes "fifo_inv src" "fifo_inv dest" "fifo_contents src = dec_digits n @ DELIM_COMMAND # rest"
    and "length (dec_digits n) < bufSize" "sz \<le> fifo_room dest" "conv (dec_digits n) = Some m"
  shows "\<exists>dest' src'. cpyTok2number bufSize sz conv dest src = Some (dest', src', CO_fifo_st_closed, sz) \<and>
     fifo_contents src' = rest \<and> fifo_inv src' \<and>
     fifo_contents dest' = fifo_contents dest @ le_bytes sz m \<and> fifo_inv dest' \<and> fifo_cap dest' = fifo_cap dest"
proof -
  have "0 < length (dec_digits n)" by simp
  with assms(4) have "1 < bufSize" by linarith
  with CO_fifo_readToken_word [of src bufSize "dec_digits n" "[]" rest "- 1"] assms(1,3,4) dec_digits_token
  obtain src' where src': "CO_fifo_readToken src bufSize (Some (- 1)) (Some False) =
      Some (src', dec_digits n, Some 1, Some False)" "fifo_contents src' = rest" "fifo_inv src'"
    by auto
  obtain dest' where dest': "CO_fifo_write dest (le_bytes sz m) sz None = (dest', sz, None)"
    "fifo_contents dest' = fifo_contents dest @ le_bytes sz m" "fifo_inv dest'" "fifo_cap dest' = fifo_cap dest"
    using CO_fifo_write_spec [OF assms(2), of sz "le_bytes sz m" None] assms(5)
    by (auto simp: min_absorb1 simp del: length_fifo_contents)
  show ?thesis
    using src' dest' assms(6)
    by (simp add: cpyTok2number_def CO_fifo_st_closed_def del: length_fifo_contents)
qed

lemma fifo_cap_bufSize: "fifo_inv f \<Longrightarrow> fifo_inv g \<Longrightarrow> fifo_cap f = fifo_cap g \<Longrightarrow> f_bufSize f = f_bufSize g"
  by (auto simp: fifo_cap_def fifo_inv_def)

lemma read_number2a_exact:
  assumes "fifo_inv f" "f_bufSize f < 2 ^ 31" "fifo_contents f = bs" "length bs = sz" "minCount \<le> count"
  shows "snd (read_number2a sz minCount fmt f count end) = fmt (le_value bs)"
proof -
  have "CO_fifo_getOccupied f = sz"
    using getOccupied_word [of "f_readPtr f" "f_bufSize f" "f_writePtr f"] assms(1,2) assms(4)
    by (simp add: CO_fifo_getOccupied_def fifo_inv_def flip: assms(3))
  moreover obtain f' eof where "CO_fifo_read f sz False = (f', bs, eof)"
    using CO_fifo_read_loop_spec [OF assms(1), of sz False] assms(3,4) by (auto simp: CO_fifo_read_eq_loop)
  ultimately show ?thesis using assms(5) by (simp add: read_number2a_def)
qed

text \<open>C37: decimal text and 32 bit numbers round trip. The decimal text of any 32 bit number, ended by a
  command delimiter, is parsed into its four little endian bytes without an error, and printing these
  bytes gives the same text.\<close>

theorem CO_fifo_U32_roundtrip:
  assumes "fifo_inv src" "fifo_inv dest" "f_bufSize dest < 2 ^ 31" "fifo_contents dest = []" "4 \<le> fifo_cap dest"
    and "fifo_contents src = dec_digits n @ DELIM_COMMAND # rest" "n < 2 ^ 32"
  shows "\<exists>dest' src'. CO_fifo_cpyTok2U32 dest src = Some (dest', src', CO_fifo_st_closed, 4) \<and>
     fifo_contents src' = rest \<and> fifo_contents dest' = le_bytes 4 n \<and>
     snd (CO_fifo_readU322a dest' 12 True) = dec_digits n"
proof -
  have len: "length (dec_digits n) < 15" using length_dec_digits [of n 10] assms(7) by simp
  have room: "4 \<le> fifo_room dest" using assms(4,5) by (simp del: length_fifo_contents)
  have "strtou 32 (dec_digits n) = (n, [])" using assms(7) by (simp add: strtou_def scan_base0_dec)
  then have "conv_u_any 32 (dec_digits n) = Some n" by (simp add: conv_u_any_def)
  from cpyTok2number_dec [where conv = "conv_u_any 32", OF assms(1,2,6) len room this] assms(4)
  obtain dest' src' where d: "CO_fifo_cpyTok2U32 dest src = Some (dest', src', CO_fifo_st_closed, 4)"
    "fifo_contents src' = rest" "fifo_contents dest' = le_bytes 4 n" "fifo_inv dest'" "fifo_cap dest' = fifo_cap dest"
    by (auto simp: CO_fifo_cpyTok2U32_def)
  have "f_bufSize dest' < 2 ^ 31" using fifo_cap_bufSize [OF d(4) assms(2) d(5)] assms(3) by simp
  from read_number2a_exact [OF d(4) this d(3), of 4 12 12] assms(7)
  have "snd (CO_fifo_readU322a dest' 12 True) = dec_digits n"
    by (simp add: CO_fifo_readU322a_def le_value_le_bytes del: le_bytes.simps)
  with d show ?thesis by blast
qed

definition fifo_empty :: CO_fifo_t where
  "fifo_empty = \<lparr>f_buf = [0, 0, 0, 0, 0, 0], f_bufSize = 6, f_writePtr = 3, f_readPtr = 3,
     f_altReadPtr = 0, f_started = False, f_aux = 0\<rparr>"

lemma fifo_empty: "fifo_inv fifo_empty" "f_bufSize fifo_empty < 2 ^ 31" "fifo_contents fifo_empty = []"
    "4 \<le> fifo_cap fifo_empty"
  by (simp_all add: fifo_empty_def fifo_inv_def fifo_contents_def fifo_cap_def)

definition fifo_42 :: CO_fifo_t where
  "fifo_42 = \<lparr>f_buf = [52, 50, 10, 0], f_bufSize = 4, f_writePtr = 3, f_readPtr = 0,
     f_altReadPtr = 0, f_started = False, f_aux = 0\<rparr>"

lemma fifo_42: "fifo_inv fifo_42" "fifo_contents fifo_42 = dec_digits 42 @ DELIM_COMMAND # []"
  by (simp_all add: fifo_42_def fifo_inv_def fifo_contents_def ring_seg_def ring_dist_def upt_rec
      dec_digits.simps DELIM_COMMAND_def)

theorem CO_fifo_U32_roundtrip_witness:
  "\<exists>dest' src'. CO_fifo_cpyTok2U32 fifo_empty fifo_42 = Some (dest', src', CO_fifo_st_closed, 4) \<and>
     fifo_contents src' = [] \<and> fifo_contents dest' = le_bytes 4 42 \<and>
     snd (CO_fifo_readU322a dest' 12 True) = dec_digits 42"
  by (rule CO_fifo_U32_roundtrip [OF fifo_42(1) fifo_empty fifo_42(2)]) simp

text \<open>A decimal number too large for 32 bits is not reported: the parser writes the largest 32 bit
  number and returns a status without an error bit.\<close>

theorem CO_fifo_cpyTok2U32_saturates:
  assumes "fifo_inv src" "fifo_inv dest" "4 \<le> fifo_room dest"
    and "fifo_contents src = dec_digits n @ DELIM_COMMAND # rest" "2 ^ 32 \<le> n" "n < 10 ^ 14"
  shows "\<exists>dest' src'. CO_fifo_cpyTok2U32 dest src = Some (dest', src', CO_fifo_st_closed, 4) \<and>
     fifo_contents dest' = fifo_contents dest @ [255, 255, 255, 255]"
proof -
  have len: "length (dec_digits n) < 15" using length_dec_digits [of n 14] assms(6) by simp
  have "strtou 32 (dec_digits n) = (2 ^ 32 - 1, [])" using assms(5) by (simp add: strtou_def scan_base0_dec)
  then have "conv_u_any 32 (dec_digits n) = Some (2 ^ 32 - 1)" by (simp add: conv_u_any_def)
  from cpyTok2number_dec [where conv = "conv_u_any 32", OF assms(1,2,4) len assms(3) this]
  show ?thesis by (auto simp: CO_fifo_cpyTok2U32_def le_bytes_numeral)
qed

definition fifo_4294967296 :: CO_fifo_t where
  "fifo_4294967296 = \<lparr>f_buf = [52, 50, 57, 52, 57, 54, 55, 50, 57, 54, 10, 0], f_bufSize = 12,
     f_writePtr = 11, f_readPtr = 0, f_altReadPtr = 0, f_started = False, f_aux = 0\<rparr>"

lemma fifo_4294967296: "fifo_inv fifo_4294967296"
    "fifo_contents fifo_4294967296 = dec_digits 4294967296 @ DELIM_COMMAND # []"
  by (simp_all add: fifo_4294967296_def fifo_inv_def fifo_contents_def ring_seg_def ring_dist_def upt_rec
      dec_digits.simps DELIM_COMMAND_def)

theorem CO_fifo_cpyTok2U32_saturates_witness:
  "\<exists>dest' src'. CO_fifo_cpyTok2U32 fifo_empty fifo_4294967296 = Some (dest', src', CO_fifo_st_closed, 4) \<and>
     fifo_contents dest' = fifo_contents fifo_empty @ [255, 255, 255, 255]"
  by (rule CO_fifo_cpyTok2U32_saturates [OF fifo_4294967296(1) fifo_empty(1) _ fifo_4294967296(2)])
     (use fifo_empty in \<open>simp_all del: length_fifo_contents\<close>)

text \<open>
  A comment in front of a string is not skipped. After the comment sign \<^verbatim>\<open>CO_fifo_cpyTok2Vs\<close> calls
  \<^verbatim>\<open>CO_fifo_trimSpaces\<close>, which stops at the first graphical character of the comment, so the text of the
  comment is copied as the value.
\<close>

definition fifo_hash :: CO_fifo_t where
  \<comment> \<open>the line \<^verbatim>\<open>#a\<close>\<close>
  "fifo_hash = \<lparr>f_buf = [35, 97, 10, 0], f_bufSize = 4, f_writePtr = 3, f_readPtr = 0,
     f_altReadPtr = 0, f_started = False, f_aux = 0\<rparr>"

lemma CO_fifo_cpyTok2Vs_comment_copied:
  "\<exists>dest' src'. CO_fifo_cpyTok2Vs fifo_empty fifo_hash = Some (dest', src', CO_fifo_st_closed, 1) \<and>
     fifo_contents dest' = [97]"
  by (simp add: CO_fifo_cpyTok2Vs_def fifo_empty_def fifo_hash_def CO_fifo_getSpace_def
      CO_fifo_cpyTok2Vs_loop.simps CO_fifo_trimSpaces.simps CO_fifo_getc_def CO_fifo_putc_def ring_next_def
      DELIM_COMMAND_def DELIM_COMMENT_def isgraph_def CO_fifo_st_defs fifo_contents_def ring_seg_def
      ring_dist_def upt_rec Let_def close_if_def)

end
