(* ===== verification/Em_Report.thy ===== *)
theory Em_Report
  imports Ring_Queue
begin

section \<open>Reporting of errors (\<^verbatim>\<open>301/CO_Emergency.c\<close>, \<^verbatim>\<open>CO_errorReport\<close> and its relatives)\<close>

text \<open>
  The object \<^verbatim>\<open>CO_EM_t\<close> every component of the stack reports its errors to: a bit field of active errors
  and a ring of ten 8-byte emergency messages that wait for \<^verbatim>\<open>CO_EM_process\<close>. The ring is kept as the 80
  bytes of the source with the two pointers as offsets into them; the list of waiting messages it
  stands for is \<^verbatim>\<open>em_pending\<close>, and the ring is the second implementation of the bounded queue of
  \<^verbatim>\<open>Ring_Queue\<close>. A callback pointer is kept as whether it is set; \<^verbatim>\<open>em_signals\<close> counts the calls of
  \<^verbatim>\<open>pFunctSignalPre\<close> and \<^verbatim>\<open>em_rx_log\<close> lists the calls of \<^verbatim>\<open>pFunctSignalRx\<close> with their arguments.
\<close>

definition CO_EM_INTERNAL_BUFFER_SIZE :: nat where "CO_EM_INTERNAL_BUFFER_SIZE = 10"

record CO_EM_t =
  em_errorStatusBits :: "u8 list"
  em_errorStatusBitsSize :: u8
  em_buf :: "u8 list"
  em_bufWritePtr :: nat
  em_bufReadPtr :: nat
  em_bufFull :: u8
  em_wrongErrorReport :: u8
  em_pFunctSignalPre :: bool
  em_pFunctSignalRx :: bool
  em_signals :: nat
  em_rx_log :: "(u16 \<times> u16 \<times> u8 \<times> u8 \<times> u32) list"

definition em_bufEnd :: nat where
  \<comment> \<open>\<^verbatim>\<open>em->buf + (CO_EM_INTERNAL_BUFFER_SIZE * 8)\<close>\<close>
  "em_bufEnd = CO_EM_INTERNAL_BUFFER_SIZE * 8"

definition err_index :: "u8 \<Rightarrow> nat" where "err_index errorBit = unat (drop_bit 3 errorBit)"

definition err_mask :: "u8 \<Rightarrow> u8" where "err_mask errorBit = push_bit (unat (errorBit AND 7)) 1"

definition memcpy_at :: "u8 list \<Rightarrow> nat \<Rightarrow> u8 list \<Rightarrow> u8 list" where
  "memcpy_at dst offs bs = take offs dst @ bs @ drop (offs + length bs) dst"

definition em_ring_next :: "nat \<Rightarrow> nat" where
  \<comment> \<open>\<^verbatim>\<open>ptr += 8; if(ptr == em->bufEnd) ptr = em->buf\<close>\<close>
  "em_ring_next ptr = (if ptr + 8 = em_bufEnd then 0 else ptr + 8)"

text \<open>The part that \<^verbatim>\<open>CO_errorReport\<close> and \<^verbatim>\<open>CO_errorReset\<close> share: put a message into the ring.\<close>

definition em_post :: "CO_EM_t \<Rightarrow> u8 list \<Rightarrow> CO_EM_t" where
  "em_post em bufCopy =
     (if em_bufFull em \<noteq> 0 then em\<lparr>em_bufFull := 2\<rparr>
      else
        let wp = em_ring_next (em_bufWritePtr em)
        in em\<lparr>em_buf := memcpy_at (em_buf em) (em_bufWritePtr em) bufCopy,
              em_bufWritePtr := wp,
              em_bufFull := (if wp = em_bufReadPtr em then 1 else em_bufFull em),
              em_signals := em_signals em + (if em_pFunctSignalPre em then 1 else 0)\<rparr>)"

definition em_bufCopy :: "u16 \<Rightarrow> u8 \<Rightarrow> u32 \<Rightarrow> u8 list" where
  "em_bufCopy errorCode errorBit infoCode =
     le_bytes 2 (unat errorCode) @ [0, errorBit] @ le_bytes 4 (unat infoCode)"

text \<open>The bodies for an object that is not \<^verbatim>\<open>NULL\<close>, then the functions on a pointer.\<close>

definition em_errorReport :: "CO_EM_t \<Rightarrow> u8 \<Rightarrow> u16 \<Rightarrow> u32 \<Rightarrow> CO_EM_t" where
  "em_errorReport em errorBit errorCode infoCode =
     (let index = err_index errorBit; bitmask = err_mask errorBit
      in if unat (em_errorStatusBitsSize em) \<le> index then em\<lparr>em_wrongErrorReport := errorBit\<rparr>
         else if (em_errorStatusBits em ! index) AND bitmask \<noteq> 0 then em
         else
           let em1 = (if errorBit \<noteq> 0
                      then em\<lparr>em_errorStatusBits := (em_errorStatusBits em)
                               [index := (em_errorStatusBits em ! index) OR bitmask]\<rparr>
                      else em)
           in em_post em1 (em_bufCopy errorCode errorBit infoCode))"

definition em_errorReset :: "CO_EM_t \<Rightarrow> u8 \<Rightarrow> u32 \<Rightarrow> CO_EM_t" where
  "em_errorReset em errorBit infoCode =
     (let index = err_index errorBit; bitmask = err_mask errorBit
      in if unat (em_errorStatusBitsSize em) \<le> index then em\<lparr>em_wrongErrorReport := errorBit\<rparr>
         else if (em_errorStatusBits em ! index) AND bitmask = 0 then em
         else
           em_post (em\<lparr>em_errorStatusBits := (em_errorStatusBits em)
                        [index := (em_errorStatusBits em ! index) AND NOT bitmask]\<rparr>)
             (em_bufCopy 0 errorBit infoCode))"

definition em_isError :: "CO_EM_t \<Rightarrow> u8 \<Rightarrow> bool" where
  "em_isError em errorBit \<longleftrightarrow>
     err_index errorBit < unat (em_errorStatusBitsSize em) \<and>
     (em_errorStatusBits em ! err_index errorBit) AND err_mask errorBit \<noteq> 0"

definition CO_errorReport :: "CO_EM_t option \<Rightarrow> u8 \<Rightarrow> u16 \<Rightarrow> u32 \<Rightarrow> CO_EM_t option" where
  "CO_errorReport em errorBit errorCode infoCode =
     (case em of None \<Rightarrow> None | Some e \<Rightarrow> Some (em_errorReport e errorBit errorCode infoCode))"

definition CO_errorReset :: "CO_EM_t option \<Rightarrow> u8 \<Rightarrow> u32 \<Rightarrow> CO_EM_t option" where
  "CO_errorReset em errorBit infoCode =
     (case em of None \<Rightarrow> None | Some e \<Rightarrow> Some (em_errorReset e errorBit infoCode))"

definition CO_isError :: "CO_EM_t option \<Rightarrow> u8 \<Rightarrow> bool" where
  "CO_isError em errorBit = (case em of None \<Rightarrow> False | Some e \<Rightarrow> em_isError e errorBit)"

subsection \<open>Invariant and the waiting messages\<close>

definition em_inv :: "CO_EM_t \<Rightarrow> bool" where
  "em_inv em \<longleftrightarrow> 6 \<le> unat (em_errorStatusBitsSize em) \<and>
     unat (em_errorStatusBitsSize em) \<le> length (em_errorStatusBits em) \<and>
     length (em_buf em) = em_bufEnd \<and>
     em_bufWritePtr em < em_bufEnd \<and> 8 dvd em_bufWritePtr em \<and>
     em_bufReadPtr em < em_bufEnd \<and> 8 dvd em_bufReadPtr em \<and>
     em_bufFull em \<le> 2 \<and> (em_bufFull em \<noteq> 0 \<longrightarrow> em_bufWritePtr em = em_bufReadPtr em)"

datatype em_msg = EmMsg (msg_errorCode: u16) (msg_errorRegister: u8) (msg_errorBit: u8) (msg_infoCode: u32)

definition em_encode :: "em_msg \<Rightarrow> u8 list" where
  "em_encode m = le_bytes 2 (unat (msg_errorCode m)) @ [msg_errorRegister m, msg_errorBit m] @
     le_bytes 4 (unat (msg_infoCode m))"

definition em_decode :: "u8 list \<Rightarrow> em_msg" where
  "em_decode bs = EmMsg (word_of_nat (le_value (take 2 bs))) (bs ! 2) (bs ! 3)
     (word_of_nat (le_value (take 4 (drop 4 bs))))"

definition em_slots :: "CO_EM_t \<Rightarrow> u8 list list" where
  "em_slots em = map (\<lambda>i. take 8 (drop (8 * i) (em_buf em))) [0..<CO_EM_INTERNAL_BUFFER_SIZE]"

definition em_count :: "CO_EM_t \<Rightarrow> nat" where
  "em_count em =
     (if em_bufFull em \<noteq> 0 then CO_EM_INTERNAL_BUFFER_SIZE
      else ring_dist CO_EM_INTERNAL_BUFFER_SIZE (em_bufReadPtr em div 8) (em_bufWritePtr em div 8))"

definition em_pending :: "CO_EM_t \<Rightarrow> em_msg list" where
  "em_pending em =
     map em_decode (ring_seg (em_slots em) CO_EM_INTERNAL_BUFFER_SIZE (em_bufReadPtr em div 8) (em_count em))"

lemma em_decode_encode [simp]: "em_decode (em_encode m) = m"
  by (cases m) (simp add: em_decode_def em_encode_def nth_append le_value_le_bytes)

lemma length_em_encode [simp]: "length (em_encode m) = 8"
  by (simp add: em_encode_def)

lemma list_8: "length bs = 8 \<Longrightarrow> \<exists>a b c d e f g h. bs = [a, b, c, d, e, f, g, h]"
  by (auto simp: eval_nat_numeral length_Suc_conv)

lemma em_encode_decode:
  assumes "length bs = 8"
  shows "em_encode (em_decode bs) = bs"
proof -
  from list_8 [OF assms] obtain a b c d e f g h where bs: "bs = [a, b, c, d, e, f, g, h]" by blast
  show ?thesis
    using le_bytes_word [of "[a, b]" 2, where ?'a = 16] le_bytes_word [of "[e, f, g, h]" 4, where ?'a = 32]
    by (simp add: em_encode_def em_decode_def bs)
qed

lemma em_bufCopy_encode: "em_bufCopy c b i = em_encode (EmMsg c 0 b i)"
  by (simp add: em_bufCopy_def em_encode_def)

lemma length_memcpy_at [simp]: "offs + length bs \<le> length dst \<Longrightarrow> length (memcpy_at dst offs bs) = length dst"
  by (simp add: memcpy_at_def)

lemma memcpy_front: "length bs \<le> length ds \<Longrightarrow> memcpy_at ds 0 bs = bs @ drop (length bs) ds"
  by (simp add: memcpy_at_def)

lemma em_slots_write:
  assumes "length buf = 80" "length bs = 8" "k < 10"
  shows "map (\<lambda>i. take 8 (drop (8 * i) (memcpy_at buf (8 * k) bs))) [0..<10] =
         (map (\<lambda>i. take 8 (drop (8 * i) buf)) [0..<10])[k := bs]"
proof (rule nth_equalityI)
  fix i assume "i < length (map (\<lambda>i. take 8 (drop (8 * i) (memcpy_at buf (8 * k) bs))) [0..<10])"
  then have i: "i < 10" by simp
  consider "i < k" | "i = k" | "k < i" by linarith
  then have "take 8 (drop (8 * i) (memcpy_at buf (8 * k) bs)) =
      (if i = k then bs else take 8 (drop (8 * i) buf))"
  proof cases
    case 1
    then have "8 \<le> 8 * k - 8 * i" by simp
    then show ?thesis using assms 1 by (simp add: memcpy_at_def drop_take min_def)
  next
    case 2
    then show ?thesis using assms by (simp add: memcpy_at_def)
  next
    case 3
    then obtain d where "i = Suc (k + d)" using less_imp_Suc_add by blast
    then show ?thesis using assms by (simp add: memcpy_at_def min_def ac_simps)
  qed
  then show "map (\<lambda>i. take 8 (drop (8 * i) (memcpy_at buf (8 * k) bs))) [0..<10] ! i =
      (map (\<lambda>i. take 8 (drop (8 * i) buf)) [0..<10])[k := bs] ! i"
    using i assms(3) by (auto simp: nth_list_update)
qed simp


lemma em_ring_next_slot:
  "p < em_bufEnd \<Longrightarrow> 8 dvd p \<Longrightarrow>
     em_ring_next p < em_bufEnd \<and> 8 dvd em_ring_next p \<and> em_ring_next p div 8 = ring_next 10 (p div 8)"
  by (auto simp: em_ring_next_def em_bufEnd_def CO_EM_INTERNAL_BUFFER_SIZE_def ring_next_def)

lemma em_slot_eq: "8 dvd (p::nat) \<Longrightarrow> 8 dvd q \<Longrightarrow> p div 8 = q div 8 \<longleftrightarrow> p = q"
  by auto

lemma length_em_slots [simp]: "length (em_slots em) = 10"
  by (simp add: em_slots_def CO_EM_INTERNAL_BUFFER_SIZE_def)

lemma em_inv_post: "em_inv em \<Longrightarrow> length bs = 8 \<Longrightarrow> em_inv (em_post em bs)"
proof -
  assume a: "em_inv em" "length bs = 8"
  then have "em_bufWritePtr em + 8 \<le> em_bufEnd"
    by (auto simp: em_inv_def em_bufEnd_def CO_EM_INTERNAL_BUFFER_SIZE_def)
  with a em_ring_next_slot [of "em_bufWritePtr em"] show ?thesis
    by (auto simp: em_inv_def em_post_def Let_def)
qed

lemma em_slot_less:
  "em_inv em \<Longrightarrow> em_bufReadPtr em div 8 < 10" "em_inv em \<Longrightarrow> em_bufWritePtr em div 8 < 10"
  by (auto simp: em_inv_def em_bufEnd_def CO_EM_INTERNAL_BUFFER_SIZE_def)

lemma em_count_le: "em_inv em \<Longrightarrow> em_count em \<le> 10"
  using ring_dist_less [OF em_slot_less, of em em]
  by (auto simp: em_count_def CO_EM_INTERNAL_BUFFER_SIZE_def)

lemma em_count_full: "em_inv em \<Longrightarrow> em_count em = 10 \<longleftrightarrow> em_bufFull em \<noteq> 0"
  using ring_dist_less [OF em_slot_less, of em em]
  by (auto simp: em_count_def CO_EM_INTERNAL_BUFFER_SIZE_def)

lemma length_em_pending: "length (em_pending em) = em_count em"
  by (simp add: em_pending_def)

lemma em_pending_full: "em_bufFull em \<noteq> 0 \<Longrightarrow> em_pending (em_post em bs) = em_pending em"
  by (simp add: em_post_def em_pending_def em_slots_def em_count_def)

lemma em_write_pos:
  assumes "em_inv em" "em_bufFull em = 0"
  shows "em_bufWritePtr em div 8 = (em_bufReadPtr em div 8 + em_count em) mod 10"
  using ring_dist_add [OF em_slot_less [OF assms(1)]] assms(2)
  by (simp add: em_count_def CO_EM_INTERNAL_BUFFER_SIZE_def)

lemma em_count_post:
  assumes "em_inv em" "em_bufFull em = 0"
  shows "em_count (em_post em bs) = Suc (em_count em)"
proof -
  define r w where "r = em_bufReadPtr em div 8" and "w = em_bufWritePtr em div 8"
  have lt: "r < 10" "w < 10"
    using em_slot_less [OF assms(1)] by (auto simp: r_def w_def)
  have nx: "em_ring_next (em_bufWritePtr em) div 8 = ring_next 10 w" "8 dvd em_ring_next (em_bufWritePtr em)"
    using em_ring_next_slot [of "em_bufWritePtr em"] assms(1) by (auto simp: em_inv_def w_def)
  have "em_ring_next (em_bufWritePtr em) = em_bufReadPtr em \<longleftrightarrow> ring_next 10 w = r"
    using em_slot_eq [OF nx(2), of "em_bufReadPtr em"] nx(1) assms(1) by (simp add: em_inv_def r_def)
  also have "\<dots> \<longleftrightarrow> Suc (ring_dist 10 r w) = 10" using lt by (rule ring_next_eq_iff)
  finally have full: "em_ring_next (em_bufWritePtr em) = em_bufReadPtr em \<longleftrightarrow> Suc (ring_dist 10 r w) = 10" .
  show ?thesis
  proof (cases "Suc (ring_dist 10 r w) = 10")
    case True
    then show ?thesis using full assms(2)
      by (simp add: em_post_def em_count_def CO_EM_INTERNAL_BUFFER_SIZE_def flip: r_def w_def)
  next
    case False
    then have "Suc (ring_dist 10 r w) < 10" using ring_dist_less [OF lt] by simp
    then show ?thesis using full assms(2) nx(1) ring_dist_next_right [OF lt]
      by (simp add: em_post_def em_count_def CO_EM_INTERNAL_BUFFER_SIZE_def flip: r_def w_def)
  qed
qed

lemma em_pending_post:
  assumes "em_inv em" "em_bufFull em = 0"
  shows "em_pending (em_post em (em_encode m)) = em_pending em @ [m]"
proof -
  define r w where "r = em_bufReadPtr em div 8" and "w = em_bufWritePtr em div 8"
  have w: "em_bufWritePtr em = 8 * w" "w < 10" "r < 10"
    using assms(1) by (auto simp: em_inv_def em_bufEnd_def CO_EM_INTERNAL_BUFFER_SIZE_def r_def w_def)
  have slots: "em_slots (em_post em (em_encode m)) = (em_slots em)[w := em_encode m]"
    using em_slots_write [of "em_buf em" "em_encode m" w] assms w
    by (simp add: em_slots_def em_post_def Let_def em_inv_def em_bufEnd_def CO_EM_INTERNAL_BUFFER_SIZE_def)
  have rp: "em_bufReadPtr (em_post em (em_encode m)) = em_bufReadPtr em"
    by (simp add: em_post_def Let_def)
  have "em_count em < 10" using em_count_full [OF assms(1)] em_count_le [OF assms(1)] assms(2) by linarith
  then show ?thesis
    using ring_seg_write_end [of r 10 "em_slots em" "em_count em" w "em_encode m"] em_write_pos [OF assms] w
    by (simp add: em_pending_def rp slots em_count_post [OF assms] CO_EM_INTERNAL_BUFFER_SIZE_def
        flip: r_def w_def)
qed

text \<open>
  The reading side: \<^verbatim>\<open>CO_EM_process\<close> reads the message at \<^verbatim>\<open>bufReadPtr\<close>, advances the pointer and clears
  \<^verbatim>\<open>bufFull\<close>.
\<close>

definition em_read_slot :: "CO_EM_t \<Rightarrow> u8 list" where
  "em_read_slot em = take 8 (drop (em_bufReadPtr em) (em_buf em))"

definition em_advance :: "CO_EM_t \<Rightarrow> CO_EM_t" where
  "em_advance em = em\<lparr>em_bufReadPtr := em_ring_next (em_bufReadPtr em), em_bufFull := 0\<rparr>"

definition em_has_message :: "CO_EM_t \<Rightarrow> bool" where
  "em_has_message em \<longleftrightarrow> em_bufReadPtr em \<noteq> em_bufWritePtr em \<or> em_bufFull em \<noteq> 0"

lemma em_inv_advance: "em_inv em \<Longrightarrow> em_inv (em_advance em)"
  using em_ring_next_slot [of "em_bufReadPtr em"] by (simp add: em_inv_def em_advance_def)

lemma em_has_message_iff: 
  assumes "em_inv em"
  shows "em_has_message em \<longleftrightarrow> em_pending em \<noteq> []"
proof -
  have "em_pending em = [] \<longleftrightarrow> em_count em = 0" by (simp flip: length_em_pending)
  moreover have "em_bufReadPtr em div 8 = em_bufWritePtr em div 8 \<longleftrightarrow> em_bufReadPtr em = em_bufWritePtr em"
    using assms by (intro em_slot_eq) (auto simp: em_inv_def)
  ultimately show ?thesis
    using ring_dist_eq_0 [OF em_slot_less [OF assms]]
    by (auto simp: em_has_message_def em_count_def CO_EM_INTERNAL_BUFFER_SIZE_def)
qed

lemma em_pending_advance:
  assumes "em_inv em" "em_has_message em"
  shows "em_pending em = em_decode (em_read_slot em) # em_pending (em_advance em)"
proof -
  define r w where "r = em_bufReadPtr em div 8" and "w = em_bufWritePtr em div 8"
  have r: "em_bufReadPtr em = 8 * r" "r < 10" "w < 10"
    using assms(1) by (auto simp: em_inv_def em_bufEnd_def CO_EM_INTERNAL_BUFFER_SIZE_def r_def w_def)
  have nx: "em_ring_next (em_bufReadPtr em) div 8 = ring_next 10 r"
    using em_ring_next_slot [of "em_bufReadPtr em"] assms(1) by (auto simp: em_inv_def r_def)
  have count: "em_count em = Suc (ring_dist 10 (ring_next 10 r) w)"
  proof (cases "em_bufFull em \<noteq> 0")
    case True
    then have "r = w" using assms(1) by (simp add: em_inv_def r_def w_def)
    with True r show ?thesis
      by (auto simp: em_count_def ring_dist_def ring_next_def CO_EM_INTERNAL_BUFFER_SIZE_def)
  next
    case False
    then have "r \<noteq> w"
      using assms em_slot_eq [of "em_bufReadPtr em" "em_bufWritePtr em"]
      by (auto simp: em_has_message_def em_inv_def r_def w_def)
    with False ring_dist_next_left [OF r(2,3)] show ?thesis
      by (simp add: em_count_def CO_EM_INTERNAL_BUFFER_SIZE_def flip: r_def w_def)
  qed
  have "ring_seg (em_slots em) 10 r (em_count em) =
      em_slots em ! r # ring_seg (em_slots em) 10 (ring_next 10 r) (ring_dist 10 (ring_next 10 r) w)"
    using r by (simp add: count ring_seg_Cons ring_next_mod ring_seg_shift)
  moreover have "em_slots em ! r = em_read_slot em"
    using r by (simp add: em_slots_def em_read_slot_def CO_EM_INTERNAL_BUFFER_SIZE_def)
  ultimately show ?thesis
    using nx by (simp add: em_pending_def em_advance_def em_slots_def em_count_def
        CO_EM_INTERNAL_BUFFER_SIZE_def flip: r_def w_def)
qed


text \<open>Before a message is sent, the error register is written into its third byte.\<close>

definition em_stamp :: "u8 \<Rightarrow> CO_EM_t \<Rightarrow> CO_EM_t" where
  \<comment> \<open>\<^verbatim>\<open>em->bufReadPtr[2] = *emPr->errorRegister\<close>\<close>
  "em_stamp x em = em\<lparr>em_buf := (em_buf em)[em_bufReadPtr em + 2 := x]\<rparr>"

lemma em_inv_stamp [simp]: "em_inv (em_stamp x em) \<longleftrightarrow> em_inv em"
  by (simp add: em_inv_def em_stamp_def)

lemma em_read_slot_stamp: "em_read_slot (em_stamp x em) = (em_read_slot em)[2 := x]"
  by (simp add: em_read_slot_def em_stamp_def drop_update_swap take_update_swap)

lemma length_em_read_slot: "em_inv em \<Longrightarrow> length (em_read_slot em) = 8"
  by (auto simp: em_read_slot_def em_inv_def em_bufEnd_def CO_EM_INTERNAL_BUFFER_SIZE_def)

lemma em_slots_stamp:
  assumes "em_inv em"
  shows "em_slots (em_stamp x em) = (em_slots em)[em_bufReadPtr em div 8 := (em_read_slot em)[2 := x]]"
proof -
  define r where "r = em_bufReadPtr em div 8"
  have r: "em_bufReadPtr em = 8 * r" "r < 10" "length (em_buf em) = 80"
    using assms by (auto simp: em_inv_def em_bufEnd_def CO_EM_INTERNAL_BUFFER_SIZE_def r_def)
  have "(em_buf em)[8 * r + 2 := x] = memcpy_at (em_buf em) (8 * r) ((take 8 (drop (8 * r) (em_buf em)))[2 := x])"
    using r by (intro nth_equalityI) (auto simp: memcpy_at_def nth_append nth_list_update)
  then show ?thesis
    using em_slots_write [of "em_buf em" "(take 8 (drop (8 * r) (em_buf em)))[2 := x]" r] r
    by (simp add: em_slots_def em_stamp_def em_read_slot_def CO_EM_INTERNAL_BUFFER_SIZE_def flip: r_def)
qed

lemma ring_dist_around: "i < n \<Longrightarrow> ring_dist n (ring_next n i) i = n - 1"
  by (auto simp: ring_dist_def ring_next_def)

lemma em_pending_stamp:
  assumes "em_inv em"
  shows "em_pending (em_advance (em_stamp x em)) = em_pending (em_advance em)"
proof -
  define r w where "r = em_bufReadPtr em div 8" and "w = em_bufWritePtr em div 8"
  have lt: "r < 10" "w < 10" using em_slot_less [OF assms] by (simp_all add: r_def w_def)
  have nx: "em_ring_next (em_bufReadPtr em) div 8 = ring_next 10 r"
    using em_ring_next_slot [of "em_bufReadPtr em"] assms by (auto simp: em_inv_def r_def)
  have "(ring_next 10 r + j) mod 10 \<noteq> r" if "j < ring_dist 10 (ring_next 10 r) w" for j
  proof
    assume "(ring_next 10 r + j) mod 10 = r"
    moreover have "ring_dist 10 (ring_next 10 r) w < 10" using lt by (intro ring_dist_less ring_next_less)
    ultimately have "j = ring_dist 10 (ring_next 10 r) r"
      using lt that by (intro ring_dist_unique ring_next_less) auto
    then show False
      using ring_dist_around [OF lt(1)] that \<open>ring_dist 10 (ring_next 10 r) w < 10\<close> by simp
  qed
  then show ?thesis
    using nx em_slots_stamp [OF assms, of x]
    by (simp add: em_pending_def em_advance_def em_count_def em_slots_def CO_EM_INTERNAL_BUFFER_SIZE_def
        em_stamp_def ring_seg_update_outside flip: r_def w_def)
qed

subsection \<open>The ring of messages is a bounded queue\<close>

definition em_pop :: "CO_EM_t \<Rightarrow> (em_msg \<times> CO_EM_t) option" where
  "em_pop em = (if em_has_message em then Some (em_decode (em_read_slot em), em_advance em) else None)"

interpretation emq: bounded_queue "\<lambda>em m. em_post em (em_encode m)" em_pop em_pending "\<lambda>_. 10" em_inv
proof unfold_locales
  fix em assume inv: "em_inv em"
  show "length (em_pending em) \<le> 10" using em_count_le [OF inv] by (simp add: length_em_pending)
  show "em_inv (em_post em (em_encode m))" for m by (rule em_inv_post [OF inv]) simp
  show "em_pending (em_post em (em_encode m)) = em_pending em @ [m]" if "length (em_pending em) < 10" for m
    using that em_pending_post [OF inv] em_count_full [OF inv] by (auto simp: length_em_pending)
  show "em_pending (em_post em (em_encode m)) = em_pending em" if "length (em_pending em) = 10" for m
    using that em_pending_full em_count_full [OF inv] by (simp add: length_em_pending)
  show "em_pop em = None" if "em_pending em = []"
    using that em_has_message_iff [OF inv] by (simp add: em_pop_def)
  show "\<exists>em'. em_pop em = Some (m, em') \<and> em_pending em' = ms \<and> em_inv em' \<and> (10 :: nat) = 10"
    if "em_pending em = m # ms" for m ms
    using that em_has_message_iff [OF inv] em_pending_advance [OF inv] em_inv_advance [OF inv]
    by (simp add: em_pop_def)
qed simp

subsection \<open>The interface of the error flags\<close>

text \<open>
  What the components of the stack rely on: reporting an error makes it active, resetting it makes it
  inactive, and neither touches any other error.
\<close>

datatype ('b, 'c, 'i) err_event = Report (ev_bit: 'b) 'c 'i | Reset (ev_bit: 'b) 'i

locale error_flags =
  fixes report :: "'e \<Rightarrow> 'b \<Rightarrow> 'c \<Rightarrow> 'i \<Rightarrow> 'e"
    and reset :: "'e \<Rightarrow> 'b \<Rightarrow> 'i \<Rightarrow> 'e"
    and active :: "'e \<Rightarrow> 'b \<Rightarrow> bool"
    and supported :: "'e \<Rightarrow> 'b \<Rightarrow> bool"
    and invar :: "'e \<Rightarrow> bool"
  assumes active_report: "invar e \<Longrightarrow> supported e b \<Longrightarrow> active (report e b c i) b' \<longleftrightarrow> b' = b \<or> active e b'"
    and active_reset: "invar e \<Longrightarrow> supported e b \<Longrightarrow> active (reset e b i) b' \<longleftrightarrow> b' \<noteq> b \<and> active e b'"
    and supported_report: "invar e \<Longrightarrow> supported (report e b c i) b' = supported e b'"
    and supported_reset: "invar e \<Longrightarrow> supported (reset e b i) b' = supported e b'"
    and invar_report: "invar e \<Longrightarrow> invar (report e b c i)"
    and invar_reset: "invar e \<Longrightarrow> invar (reset e b i)"
    and report_active: "invar e \<Longrightarrow> active e b \<Longrightarrow> report e b c i = e"
    and reset_inactive: "invar e \<Longrightarrow> supported e b \<Longrightarrow> \<not> active e b \<Longrightarrow> reset e b i = e"
begin

fun step :: "'e \<Rightarrow> ('b, 'c, 'i) err_event \<Rightarrow> 'e" where
  "step e (Report b c i) = report e b c i"
| "step e (Reset b i) = reset e b i"

lemma step_keeps: "invar e \<Longrightarrow> invar (step e ev) \<and> supported (step e ev) b = supported e b"
  by (cases ev) (auto simp: invar_report invar_reset supported_report supported_reset)

lemma run_keeps: "invar e \<Longrightarrow> invar (foldl step e evs) \<and> supported (foldl step e evs) b = supported e b"
  by (induction evs arbitrary: e) (auto simp: step_keeps)

lemma run_active:
  assumes "invar e" "\<forall>ev \<in> set evs. supported e (ev_bit ev)"
  shows "active (foldl step e evs) b \<longleftrightarrow>
    (case filter (\<lambda>ev. ev_bit ev = b) (rev evs) of
       [] \<Rightarrow> active e b | Report _ _ _ # _ \<Rightarrow> True | Reset _ _ # _ \<Rightarrow> False)"
  using assms(2)
proof (induction evs rule: rev_induct)
  case Nil
  then show ?case by simp
next
  case (snoc ev evs)
  then have "invar (foldl step e evs)" "supported (foldl step e evs) (ev_bit ev)"
    using run_keeps [OF assms(1)] by auto
  then show ?case using snoc by (cases ev) (auto simp: active_report active_reset)
qed

lemma report_reset_inactive:
  "invar e \<Longrightarrow> supported e b \<Longrightarrow> \<not> active (reset (report e b c i) b i') b"
  by (simp add: active_reset invar_report supported_report)

end

lemma err_bit_split: "unat (b :: u8) = 8 * err_index b + unat (b AND 7)"
proof -
  have "b AND 7 = take_bit 3 b" by (simp add: take_bit_eq_mask mask_eq_exp_minus_1)
  then have "unat (b AND 7) = unat (take_bit 3 b)" by (rule arg_cong)
  also have "\<dots> = unat b mod 8" by (simp only: unsigned_take_bit_eq) (simp add: take_bit_eq_mod)
  finally have "unat (b AND 7) = unat b mod 8" .
  moreover have "err_index b = unat b div 8" 
    unfolding err_index_def by (simp only: unat_drop_bit_eq) (simp add: drop_bit_eq_div)
  ultimately show ?thesis by simp
qed

lemma err_bit_less: "unat (b AND 7 :: u8) < 8"
proof -
  have "b AND 7 \<le> 7" by (rule word_and_le1)
  then show ?thesis by (simp add: word_le_nat_alt)
qed

lemma err_bit_eq: "err_index b = err_index b' \<and> unat (b AND 7 :: u8) = unat (b' AND 7 :: u8) \<longleftrightarrow> b = b'"
proof
  assume "err_index b = err_index b' \<and> unat (b AND 7 :: u8) = unat (b' AND 7 :: u8)"
  then show "b = b'" using err_bit_split [of b] err_bit_split [of b'] by (simp add: word_unat_eq_iff)
qed simp

lemma and_err_mask: "(x :: u8) AND err_mask b = 0 \<longleftrightarrow> \<not> bit x (unat (b AND 7))"
  by (simp add: err_mask_def push_bit_eq_mult and_exp_eq_0_iff_not_bit)

lemma bit_or_err_mask: "n < 8 \<Longrightarrow> bit ((x :: u8) OR err_mask b) n \<longleftrightarrow> bit x n \<or> n = unat (b AND 7)"
  by (auto simp: err_mask_def bit_simps)

lemma bit_and_not_err_mask: "n < 8 \<Longrightarrow> bit ((x :: u8) AND NOT (err_mask b)) n \<longleftrightarrow> bit x n \<and> n \<noteq> unat (b AND 7)"
  by (auto simp: err_mask_def bit_simps)

lemma em_isError_bit:
  "em_isError em b \<longleftrightarrow> err_index b < unat (em_errorStatusBitsSize em) \<and>
     bit (em_errorStatusBits em ! err_index b) (unat (b AND 7))"
  by (simp add: em_isError_def and_err_mask)

definition em_supported :: "CO_EM_t \<Rightarrow> u8 \<Rightarrow> bool" where
  "em_supported em b \<longleftrightarrow> b \<noteq> 0 \<and> err_index b < unat (em_errorStatusBitsSize em)"

lemma em_post_fields [simp]:
  "em_errorStatusBits (em_post em bs) = em_errorStatusBits em"
  "em_errorStatusBitsSize (em_post em bs) = em_errorStatusBitsSize em"
  "em_wrongErrorReport (em_post em bs) = em_wrongErrorReport em"
  "em_bufReadPtr (em_post em bs) = em_bufReadPtr em"
  "em_pFunctSignalRx (em_post em bs) = em_pFunctSignalRx em"
  "em_rx_log (em_post em bs) = em_rx_log em"
  by (simp_all add: em_post_def Let_def)

lemma em_inv_bits [simp]:
  "em_inv (em\<lparr>em_errorStatusBits := (em_errorStatusBits em)[i := x]\<rparr>) \<longleftrightarrow> em_inv em"
  "em_inv (em\<lparr>em_wrongErrorReport := w\<rparr>) \<longleftrightarrow> em_inv em"
  by (simp_all add: em_inv_def)

lemma em_inv_errorReport: "em_inv em \<Longrightarrow> em_inv (em_errorReport em b c i)"
  by (simp add: em_errorReport_def Let_def em_inv_post em_bufCopy_encode)

lemma em_inv_errorReset: "em_inv em \<Longrightarrow> em_inv (em_errorReset em b i)"
  by (simp add: em_errorReset_def Let_def em_inv_post em_bufCopy_encode)

lemma em_errorStatusBitsSize_report [simp]: "em_errorStatusBitsSize (em_errorReport em b c i) = em_errorStatusBitsSize em"
  by (simp add: em_errorReport_def Let_def)

lemma em_errorStatusBitsSize_reset [simp]: "em_errorStatusBitsSize (em_errorReset em b i) = em_errorStatusBitsSize em"
  by (simp add: em_errorReset_def Let_def)

lemma em_isError_update:
  assumes "err_index b < length (em_errorStatusBits em)"
  shows "em_isError (em\<lparr>em_errorStatusBits := (em_errorStatusBits em)[err_index b := x]\<rparr>) b' \<longleftrightarrow>
    (if err_index b' = err_index b
     then err_index b' < unat (em_errorStatusBitsSize em) \<and> bit x (unat (b' AND 7)) else em_isError em b')"
  using assms by (simp add: em_isError_bit nth_list_update)

lemma em_isError_post [simp]: "em_isError (em_post em bs) b = em_isError em b"
  by (simp add: em_isError_def)

interpretation emf: error_flags em_errorReport em_errorReset em_isError em_supported em_inv
proof unfold_locales
  fix em b c i b' assume inv: "em_inv em"
  then have len: "unat (em_errorStatusBitsSize em) \<le> length (em_errorStatusBits em)" by (simp add: em_inv_def)
  show "em_isError (em_errorReport em b c i) b' \<longleftrightarrow> b' = b \<or> em_isError em b'" if "em_supported em b"
    using that len em_isError_update [of b em] err_bit_less [of b'] err_bit_eq [of b' b]
    by (auto simp: em_errorReport_def Let_def em_supported_def and_err_mask bit_or_err_mask em_isError_bit)
  show "em_isError (em_errorReset em b i) b' \<longleftrightarrow> b' \<noteq> b \<and> em_isError em b'" if "em_supported em b"
    using that len em_isError_update [of b em] err_bit_less [of b'] err_bit_eq [of b' b]
    by (auto simp: em_errorReset_def Let_def em_supported_def and_err_mask bit_and_not_err_mask em_isError_bit)
  show "em_inv (em_errorReport em b c i)" "em_inv (em_errorReset em b i)"
    using inv by (simp_all add: em_inv_errorReport em_inv_errorReset)
  show "em_supported (em_errorReport em b c i) b' = em_supported em b'"
    "em_supported (em_errorReset em b i) b' = em_supported em b'"
    by (simp_all add: em_supported_def)
qed (auto simp: em_supported_def em_isError_def em_errorReport_def em_errorReset_def)


lemma em_pending_bits [simp]: "em_pending (em\<lparr>em_errorStatusBits := x\<rparr>) = em_pending em"
  by (simp add: em_pending_def em_count_def em_slots_def)

lemma em_pending_wrong [simp]: "em_pending (em\<lparr>em_wrongErrorReport := x\<rparr>) = em_pending em"
  by (simp add: em_pending_def em_count_def em_slots_def)

lemma em_pending_room: "em_inv em \<Longrightarrow> length (em_pending em) < 10 \<longleftrightarrow> em_bufFull em = 0"
  using em_count_le em_count_full by (fastforce simp: length_em_pending)

lemma em_post_pending:
  assumes "em_inv em"
  shows "em_pending (em_post em (em_bufCopy c b i)) =
    (if length (em_pending em) < 10 then em_pending em @ [EmMsg c 0 b i] else em_pending em)"
  using emq.contents_enq [OF assms] emq.contents_enq_full [OF assms] emq.contents_bound [OF assms]
  by (auto simp: em_bufCopy_encode)

lemma em_report_new:
  assumes "em_inv em" "em_supported em b" "\<not> em_isError em b"
  shows "em_pending (em_errorReport em b c i) =
    (if length (em_pending em) < 10 then em_pending em @ [EmMsg c 0 b i] else em_pending em)"
  using assms by (simp add: em_errorReport_def Let_def em_isError_def em_supported_def em_post_pending)

lemma em_reset_active:
  assumes "em_inv em" "em_isError em b"
  shows "em_pending (em_errorReset em b i) =
    (if length (em_pending em) < 10 then em_pending em @ [EmMsg 0 0 b i] else em_pending em)"
  using assms by (simp add: em_errorReset_def Let_def em_isError_def em_post_pending)

text \<open>
  \<^verbatim>\<open>CO_errorReport\<close> of an error that is not active makes it active, leaves all other errors as they were
  and puts exactly one message with the given code, bit and information behind the waiting ones; with
  ten messages waiting the message is lost and the loss is recorded (\<^verbatim>\<open>bufFull\<close> becomes 2). Reporting an
  active error changes nothing.
\<close>

theorem CO_errorReport_correct:
  assumes "em_inv em" "em_supported em b" "CO_errorReport (Some em) b c i = Some em'"
  shows "em_inv em' \<and> (\<forall>b'. CO_isError (Some em') b' \<longleftrightarrow> b' = b \<or> CO_isError (Some em) b') \<and>
    (if CO_isError (Some em) b then em' = em
     else if length (em_pending em) < 10 then em_pending em' = em_pending em @ [EmMsg c 0 b i]
     else em_pending em' = em_pending em \<and> em_bufFull em' = 2)"
proof -
  have em': "em' = em_errorReport em b c i" using assms(3) by (simp add: CO_errorReport_def)
  have "em_bufFull em' = 2" if "\<not> em_isError em b" "\<not> length (em_pending em) < 10"
    using that assms em_pending_room [OF assms(1)]
    by (simp add: em' em_errorReport_def Let_def em_isError_def em_supported_def em_post_def)
  then show ?thesis
    using emf.active_report [OF assms(1,2)] emf.report_active [OF assms(1)] emf.invar_report [OF assms(1)]
      em_report_new [OF assms(1,2)]
    by (simp add: em' CO_isError_def)
qed

definition example_em :: CO_EM_t where
  "example_em = \<lparr>em_errorStatusBits = replicate 10 0, em_errorStatusBitsSize = 10,
     em_buf = replicate 80 0, em_bufWritePtr = 72, em_bufReadPtr = 64, em_bufFull = 0, em_wrongErrorReport = 0,
     em_pFunctSignalPre = True, em_pFunctSignalRx = False, em_signals = 0, em_rx_log = []\<rparr>"

lemma example_em_inv: "em_inv example_em"
  by (simp add: em_inv_def example_em_def em_bufEnd_def CO_EM_INTERNAL_BUFFER_SIZE_def)

lemma example_em_supported: "b \<noteq> 0 \<Longrightarrow> unat b < 80 \<Longrightarrow> em_supported example_em b"
  using err_bit_split [of b] by (auto simp: em_supported_def example_em_def)

lemma example_em_inactive: "\<not> em_isError example_em b"
  by (auto simp: em_isError_def example_em_def)

lemma example_em_pending: "length (em_pending example_em) = 1"
  by (simp add: length_em_pending em_count_def example_em_def ring_dist_def)

theorem CO_errorReport_correct_witness:
  "\<exists>em'. CO_errorReport (Some example_em) 0x1B 0x8130 7 = Some em' \<and> CO_isError (Some em') 0x1B \<and>
     em_pending em' = em_pending example_em @ [EmMsg 0x8130 0 0x1B 7]"
  using CO_errorReport_correct [OF example_em_inv example_em_supported, of "0x1B" "0x8130" 7]
    example_em_inactive [of "0x1B"] example_em_pending
  by (simp add: CO_errorReport_def CO_isError_def)

text \<open>
  \<^verbatim>\<open>CO_errorReset\<close> of an active error makes it inactive, leaves all other errors as they were and puts
  exactly one message with error code 0 behind the waiting ones, or records its loss when ten are
  waiting. Resetting an inactive error changes nothing.
\<close>

theorem CO_errorReset_correct:
  assumes "em_inv em" "em_supported em b" "CO_errorReset (Some em) b i = Some em'"
  shows "em_inv em' \<and> (\<forall>b'. CO_isError (Some em') b' \<longleftrightarrow> b' \<noteq> b \<and> CO_isError (Some em) b') \<and>
    (if \<not> CO_isError (Some em) b then em' = em
     else if length (em_pending em) < 10 then em_pending em' = em_pending em @ [EmMsg 0 0 b i]
     else em_pending em' = em_pending em \<and> em_bufFull em' = 2)"
proof -
  have em': "em' = em_errorReset em b i" using assms(3) by (simp add: CO_errorReset_def)
  have "em_bufFull em' = 2" if "em_isError em b" "\<not> length (em_pending em) < 10"
    using that em_pending_room [OF assms(1)]
    by (simp add: em' em_errorReset_def Let_def em_isError_def em_post_def)
  then show ?thesis
    using emf.active_reset [OF assms(1,2)] emf.reset_inactive [OF assms(1,2)] emf.invar_reset [OF assms(1)]
      em_reset_active [OF assms(1)]
    by (simp add: em' CO_isError_def)
qed

theorem CO_errorReset_correct_witness:
  "\<exists>em'. CO_errorReset (Some (em_errorReport example_em 0x1B 0x8130 7)) 0x1B 0 = Some em' \<and>
     \<not> CO_isError (Some em') 0x1B \<and>
     em_pending em' = em_pending example_em @ [EmMsg 0x8130 0 0x1B 7, EmMsg 0 0 0x1B 0]"
proof -
  have s: "em_supported example_em 0x1B" by (rule example_em_supported) simp_all
  let ?em = "em_errorReport example_em 0x1B 0x8130 7"
  have "em_inv ?em" "em_supported ?em 0x1B" "em_isError ?em 0x1B"
    "em_pending ?em = em_pending example_em @ [EmMsg 0x8130 0 0x1B 7]"
    using emf.invar_report emf.supported_report emf.active_report em_report_new example_em_inv s
      example_em_inactive example_em_pending by simp_all
  then show ?thesis
    using CO_errorReset_correct [of ?em "0x1B" 0] example_em_pending
    by (simp add: CO_errorReset_def CO_isError_def)
qed

text \<open>
  C34: after any sequence of \<^verbatim>\<open>CO_errorReport\<close> and \<^verbatim>\<open>CO_errorReset\<close> calls on supported error bits, an error
  is active exactly when the last call for its bit reported it, or when no call named it and it was
  active before; the ring of messages stays well formed throughout.
\<close>

theorem error_flags_history:
  assumes "em_inv em" "\<forall>ev \<in> set evs. em_supported em (ev_bit ev)"
  shows "em_inv (foldl emf.step em evs) \<and>
    (\<forall>b. em_isError (foldl emf.step em evs) b \<longleftrightarrow>
      (case filter (\<lambda>ev. ev_bit ev = b) (rev evs) of
         [] \<Rightarrow> em_isError em b | Report _ _ _ # _ \<Rightarrow> True | Reset _ _ # _ \<Rightarrow> False))"
  using emf.run_keeps [OF assms(1)] emf.run_active [OF assms] by auto

theorem error_flags_history_witness:
  "em_isError (foldl emf.step example_em [Report 0x1B 0x8130 0, Report 0x12 0x8140 0, Reset 0x1B 0]) 0x12 \<and>
   \<not> em_isError (foldl emf.step example_em [Report 0x1B 0x8130 0, Report 0x12 0x8140 0, Reset 0x1B 0]) 0x1B"
  using error_flags_history [OF example_em_inv, of "[Report 0x1B 0x8130 0, Report 0x12 0x8140 0, Reset 0x1B 0]"]
    example_em_supported by simp

end
