(* ===== verification/Can_Driver.thy ===== *)
theory Can_Driver
  imports Em_Report
begin

section \<open>The CAN driver of the target (\<^verbatim>\<open>lib/canopen/CO_driver.c\<close>)\<close>

text \<open>
  The layer between the CANopen stack and the CAN device of the operating system: opening and closing
  the device, the arrays of receive and transmit buffers, and \<^verbatim>\<open>CO_CANsend\<close>. The device itself
  (\<^verbatim>\<open>open\<close>, \<^verbatim>\<open>ioctl\<close>, \<^verbatim>\<open>write\<close> and the constants of \<^verbatim>\<open>driver/can.h\<close>) is not part of the repository: it is
  the parameter \<^verbatim>\<open>can_env\<close>, whose functions give the result of each call from the calls made before. The
  module record carries two logs, the \<^verbatim>\<open>ioctl\<close> calls and the frames passed to \<^verbatim>\<open>write\<close> with the result
  of each; \<^verbatim>\<open>close\<close> on the failure path of \<^verbatim>\<open>CO_CANdeviceOpen\<close> has no effect on them. A transmit buffer pointer is an index into \<^verbatim>\<open>txArray\<close>, \<^verbatim>\<open>None\<close> for \<^verbatim>\<open>NULL\<close>. The record \<^verbatim>\<open>co_bus\<close>
  joins the module with the emergency object that \<^verbatim>\<open>CANmodule->em\<close> points to when it is not \<^verbatim>\<open>NULL\<close>.
\<close>

datatype CO_ReturnError_t =
    CO_ERROR_NO | CO_ERROR_ILLEGAL_ARGUMENT | CO_ERROR_OUT_OF_MEMORY | CO_ERROR_TIMEOUT
  | CO_ERROR_ILLEGAL_BAUDRATE | CO_ERROR_RX_OVERFLOW | CO_ERROR_RX_PDO_OVERFLOW | CO_ERROR_RX_MSG_LENGTH
  | CO_ERROR_RX_PDO_LENGTH | CO_ERROR_TX_OVERFLOW | CO_ERROR_TX_PDO_WINDOW | CO_ERROR_TX_UNCONFIGURED
  | CO_ERROR_OD_PARAMETERS | CO_ERROR_DATA_CORRUPT | CO_ERROR_CRC | CO_ERROR_TX_BUSY
  | CO_ERROR_WRONG_NMT_STATE | CO_ERROR_SYSCALL | CO_ERROR_INVALID_STATE | CO_ERROR_NODE_ID_UNCONFIGURED_LSS

definition CO_CAN_ERRTX_WARNING :: u16 where "CO_CAN_ERRTX_WARNING = 0x0001"
definition CO_CAN_ERRTX_PASSIVE :: u16 where "CO_CAN_ERRTX_PASSIVE = 0x0002"
definition CO_CAN_ERRTX_BUS_OFF :: u16 where "CO_CAN_ERRTX_BUS_OFF = 0x0004"
definition CO_CAN_ERRTX_OVERFLOW :: u16 where "CO_CAN_ERRTX_OVERFLOW = 0x0008"
definition CO_CAN_ERRTX_PDO_LATE :: u16 where "CO_CAN_ERRTX_PDO_LATE = 0x0080"
definition CO_CAN_ERRRX_WARNING :: u16 where "CO_CAN_ERRRX_WARNING = 0x0100"
definition CO_CAN_ERRRX_PASSIVE :: u16 where "CO_CAN_ERRRX_PASSIVE = 0x0200"
definition CO_CAN_ERRRX_OVERFLOW :: u16 where "CO_CAN_ERRRX_OVERFLOW = 0x0800"

abbreviation (input) "CO_EM_GENERIC_SOFTWARE_ERROR \<equiv> (0x2C :: u8)"
abbreviation (input) "CO_EM_TPDO_OUTSIDE_WINDOW \<equiv> (0x15 :: u8)"
abbreviation (input) "CO_EMC_SOFTWARE_INTERNAL \<equiv> (0x6100 :: u16)"
abbreviation (input) "CO_EMC_COMMUNICATION \<equiv> (0x8100 :: u16)"

text \<open>A received message, as the driver hands it to the receive callbacks.\<close>

record CO_CANrxMsg_t =
  rxm_ident :: u32
  rxm_DLC :: u8
  rxm_data :: "u8 list"

datatype rx_callback = CB_EM_receive | CB_NMT_receive | CB_HBcons_receive | CB_SYNC_receive | CB_TIME_receive
  | CB_GFC_receive | CB_SDO_receive | CB_LSSslave_receive | CB_LSSmaster_receive | CB_PDO_receive
  | CB_user nat

record CO_CANrx_t =
  rx_ident :: u32
  rx_mask :: u32
  rx_filter_id :: int
  rx_object :: "nat option"
  rx_CANrx_callback :: "rx_callback option"

record CO_CANtx_t =
  tx_ident :: u32
  tx_DLC :: u8
  tx_data :: "u8 list"
  tx_bufferFull :: bool
  tx_syncFlag :: bool

record CO_CANdevice_t =
  dev_devname :: bool
  dev_fd :: int

datatype can_mode = CAN_NORMAL_MODE | CAN_SILENT_MODE

datatype ioctl_req = CAN_IOC_GET_ATTR | CAN_IOC_SET_ATTR can_mode u32 | CAN_IOC_STOP | CAN_IOC_START
  | CAN_IOC_ATTACH_FILTER u32 u32 | CAN_IOC_DETACH_FILTER int

type_synonym ioctl_log = "(int \<times> ioctl_req) list"

text \<open>A frame is what \<^verbatim>\<open>write\<close> sees of a transmit buffer: identifier, length and data.\<close>

type_synonym can_frame = "u32 \<times> u8 \<times> u8 list"
type_synonym frame_log = "(can_frame \<times> int) list"

record can_env =
  env_open :: int
  env_ioctl :: "ioctl_log \<Rightarrow> int \<times> ioctl_req \<Rightarrow> int"
  env_filter_id :: "ioctl_log \<Rightarrow> int"
  env_write :: "frame_log \<Rightarrow> can_frame \<Rightarrow> int"
  env_STD_ID_MASK :: u32
  env_RTR_MASK :: u32
  env_NO_FREE_FILTER :: int
  env_MAX_FILTER :: nat

record CO_CANmodule_t =
  can_dev :: "CO_CANdevice_t option"
  can_rxArray :: "CO_CANrx_t list"
  can_txArray :: "CO_CANtx_t list"
  can_em :: bool
  can_rxSize :: u16
  can_txSize :: u16
  can_CANerrorStatus :: u16
  can_CANnormal :: bool
  can_initialized :: bool
  can_ioctls :: ioctl_log
  can_sent :: frame_log

record co_bus =
  bus_can :: CO_CANmodule_t
  bus_em :: CO_EM_t

definition EBUSY :: int where "EBUSY = 16"

definition tx_frame :: "CO_CANtx_t \<Rightarrow> can_frame" where
  "tx_frame b = (tx_ident b, tx_DLC b, tx_data b)"

definition can_fd :: "CO_CANmodule_t \<Rightarrow> int" where
  "can_fd m = (case can_dev m of None \<Rightarrow> -1 | Some d \<Rightarrow> dev_fd d)"

definition can_ioctl :: "can_env \<Rightarrow> CO_CANmodule_t \<Rightarrow> int \<Rightarrow> ioctl_req \<Rightarrow> int \<times> CO_CANmodule_t" where
  "can_ioctl env m fd req =
     (env_ioctl env (can_ioctls m) (fd, req), m\<lparr>can_ioctls := can_ioctls m @ [(fd, req)]\<rparr>)"

text \<open>\<^verbatim>\<open>CO_errorReport(CANmodule->em, ...)\<close>: nothing happens when the pointer is \<^verbatim>\<open>NULL\<close>.\<close>

definition bus_errorReport :: "co_bus \<Rightarrow> u8 \<Rightarrow> u16 \<Rightarrow> u32 \<Rightarrow> co_bus" where
  "bus_errorReport bus errorBit errorCode infoCode =
     (case CO_errorReport (if can_em (bus_can bus) then Some (bus_em bus) else None) errorBit errorCode infoCode of
        None \<Rightarrow> bus | Some em \<Rightarrow> bus\<lparr>bus_em := em\<rparr>)"

subsection \<open>Opening, starting and stopping\<close>

definition CO_CANdeviceOpen :: "can_env \<Rightarrow> CO_CANmodule_t \<Rightarrow> u32 \<Rightarrow> CO_ReturnError_t \<times> CO_CANmodule_t" where
  "CO_CANdeviceOpen env m bitrate =
     (let fd = env_open env
      in if fd < 0 then (CO_ERROR_ILLEGAL_ARGUMENT, m)
         else
           let (r1, m1) = can_ioctl env m fd CAN_IOC_GET_ATTR;
               (ret, m2) = can_ioctl env m1 fd (CAN_IOC_SET_ATTR CAN_NORMAL_MODE bitrate)
           in if ret \<noteq> 0 then (CO_ERROR_INVALID_STATE, m2)
              else (CO_ERROR_NO, m2\<lparr>can_dev := map_option (\<lambda>d. d\<lparr>dev_fd := fd\<rparr>) (can_dev m2)\<rparr>))"

definition CO_CANdeviceClose :: "can_env \<Rightarrow> CO_CANmodule_t \<Rightarrow> CO_ReturnError_t \<times> CO_CANmodule_t" where
  "CO_CANdeviceClose env m =
     (let (ret, m1) = can_ioctl env m (can_fd m) (CAN_IOC_SET_ATTR CAN_SILENT_MODE 0)
      in if ret \<noteq> 0 then (CO_ERROR_INVALID_STATE, m1) else (CO_ERROR_NO, m1))"

definition CO_CANsetConfigurationMode :: "can_env \<Rightarrow> CO_CANmodule_t \<Rightarrow> CO_CANmodule_t" where
  "CO_CANsetConfigurationMode env m = snd (can_ioctl env m (can_fd m) CAN_IOC_STOP)"

definition CO_CANsetNormalMode :: "can_env \<Rightarrow> CO_CANmodule_t \<Rightarrow> CO_CANmodule_t" where
  "CO_CANsetNormalMode env m =
     (let (ret, m1) = can_ioctl env m (can_fd m) CAN_IOC_START;
          m2 = (if ret \<noteq> 0 then m1\<lparr>can_CANnormal := False\<rparr> else m1)
      in m2\<lparr>can_CANnormal := True\<rparr>)"

definition rx_clear :: "can_env \<Rightarrow> CO_CANrx_t \<Rightarrow> CO_CANrx_t" where
  "rx_clear env b = b\<lparr>rx_ident := 0, rx_filter_id := env_NO_FREE_FILTER env,
     rx_CANrx_callback := None, rx_object := None\<rparr>"

definition map_first :: "nat \<Rightarrow> ('a \<Rightarrow> 'a) \<Rightarrow> 'a list \<Rightarrow> 'a list" where
  \<comment> \<open>\<^verbatim>\<open>for (i = 0; i < n; i++)\<close> over an array of at least \<^verbatim>\<open>n\<close> elements\<close>
  "map_first n f xs = map f (take n xs) @ drop n xs"

definition CO_CANmodule_init ::
    "can_env \<Rightarrow> CO_CANmodule_t option \<Rightarrow> CO_CANdevice_t \<Rightarrow> CO_CANrx_t list option \<Rightarrow> u16 \<Rightarrow>
     CO_CANtx_t list option \<Rightarrow> u16 \<Rightarrow> u16 \<Rightarrow> CO_ReturnError_t \<times> CO_CANmodule_t option" where
  "CO_CANmodule_init env CANmodule candev rxArray rxSize txArray txSize CANbitRate =
     (case (CANmodule, rxArray, txArray) of
        (Some m, Some rxa, Some txa) \<Rightarrow>
          if can_initialized m then (CO_ERROR_NO, CANmodule)
          else if \<not> dev_devname candev then (CO_ERROR_ILLEGAL_ARGUMENT, CANmodule)
          else if env_MAX_FILTER env < unat rxSize then (CO_ERROR_OUT_OF_MEMORY, CANmodule)
          else
            let m1 = m\<lparr>can_dev := Some candev,
                       can_rxArray := map_first (unat rxSize) (rx_clear env) rxa, can_rxSize := rxSize,
                       can_txArray := map_first (unat txSize) (\<lambda>b. b\<lparr>tx_bufferFull := False\<rparr>) txa,
                       can_txSize := txSize, can_CANnormal := False, can_CANerrorStatus := 0\<rparr>;
                (err, m2) = CO_CANdeviceOpen env m1 (ucast CANbitRate)
            in if err \<noteq> CO_ERROR_NO then (err, Some m2)
               else (CO_ERROR_NO, Some (m2\<lparr>can_initialized := True\<rparr>))
      | _ \<Rightarrow> (CO_ERROR_ILLEGAL_ARGUMENT, CANmodule))"

text \<open>
  The loop of \<^verbatim>\<open>CO_CANmodule_disable\<close>: \<^verbatim>\<open>buffer\<close> stays at the first receive buffer, and the identifier of the
  filter is passed as the file descriptor.
\<close>

fun detach_loop :: "can_env \<Rightarrow> nat \<Rightarrow> CO_CANmodule_t \<Rightarrow> CO_CANmodule_t" where
  "detach_loop env 0 m = m"
| "detach_loop env (Suc n) m =
     (let buffer = can_rxArray m ! 0;
          (r, m1) = can_ioctl env m (rx_filter_id buffer) (CAN_IOC_DETACH_FILTER (rx_filter_id buffer))
      in detach_loop env n (m1\<lparr>can_rxArray := (can_rxArray m1)[0 := buffer\<lparr>rx_filter_id := -1\<rparr>]\<rparr>))"

definition CO_CANmodule_disable :: "can_env \<Rightarrow> CO_CANmodule_t option \<Rightarrow> CO_CANmodule_t option" where
  "CO_CANmodule_disable env CANmodule =
     (case CANmodule of
        None \<Rightarrow> None
      | Some m \<Rightarrow>
          if \<not> can_initialized m then Some m
          else
            let (err, m1) = CO_CANdeviceClose env (detach_loop env (unat (can_rxSize m)) m)
            in if err = CO_ERROR_NO then Some (m1\<lparr>can_initialized := False, can_CANnormal := False\<rparr>)
               else Some m1)"

subsection \<open>Buffers\<close>

definition can_id :: "can_env \<Rightarrow> u16 \<Rightarrow> bool \<Rightarrow> u32" where
  \<comment> \<open>\<^verbatim>\<open>(ident & CAN_STD_ID_MASK) | (rtr? CAN_RTR_MASK: 0)\<close>\<close>
  "can_id env ident rtr = (ucast ident AND env_STD_ID_MASK env) OR (if rtr then env_RTR_MASK env else 0)"

definition CO_CANrxBufferInit ::
    "can_env \<Rightarrow> co_bus \<Rightarrow> u16 \<Rightarrow> u16 \<Rightarrow> u16 \<Rightarrow> bool \<Rightarrow> nat option \<Rightarrow> rx_callback option \<Rightarrow>
     CO_ReturnError_t \<times> co_bus" where
  "CO_CANrxBufferInit env bus index ident idmask rtr object callback =
     (let m = bus_can bus
      in if object = None then (CO_ERROR_ILLEGAL_ARGUMENT, bus)
         else if callback = None \<or> can_rxSize m \<le> index then
           (CO_ERROR_ILLEGAL_ARGUMENT, bus_errorReport bus CO_EM_GENERIC_SOFTWARE_ERROR CO_EMC_SOFTWARE_INTERNAL 0)
         else
           let buffer = (can_rxArray m ! unat index)\<lparr>rx_object := object, rx_CANrx_callback := callback,
                          rx_ident := can_id env ident rtr, rx_mask := can_id env idmask rtr\<rparr>;
               (ret, m1) = can_ioctl env m (can_fd m) (CAN_IOC_ATTACH_FILTER (rx_ident buffer) (rx_mask buffer));
               fid = (if ret \<noteq> 0 then -1 else env_filter_id env (can_ioctls m));
               m2 = m1\<lparr>can_rxArray := (can_rxArray m1)[unat index := buffer\<lparr>rx_filter_id := fid\<rparr>]\<rparr>
           in (if ret \<noteq> 0 then CO_ERROR_SYSCALL else CO_ERROR_NO, bus\<lparr>bus_can := m2\<rparr>))"

definition CO_CANtxBufferInit ::
    "can_env \<Rightarrow> co_bus \<Rightarrow> u16 \<Rightarrow> u16 \<Rightarrow> bool \<Rightarrow> u8 \<Rightarrow> bool \<Rightarrow> nat option \<times> co_bus" where
  "CO_CANtxBufferInit env bus index ident rtr noOfBytes syncFlag =
     (let m = bus_can bus
      in if can_txSize m \<le> index then
           (None, bus_errorReport bus CO_EM_GENERIC_SOFTWARE_ERROR CO_EMC_SOFTWARE_INTERNAL 0)
         else
           let buffer = (can_txArray m ! unat index)\<lparr>tx_ident := can_id env ident rtr, tx_DLC := noOfBytes,
                          tx_bufferFull := False, tx_syncFlag := syncFlag\<rparr>
           in (Some (unat index), bus\<lparr>bus_can := m\<lparr>can_txArray := (can_txArray m)[unat index := buffer]\<rparr>\<rparr>))"

definition bus_buf :: "co_bus \<Rightarrow> nat \<Rightarrow> CO_CANtx_t" where
  "bus_buf bus i = can_txArray (bus_can bus) ! i"

definition bus_upd_buf :: "co_bus \<Rightarrow> nat \<Rightarrow> (CO_CANtx_t \<Rightarrow> CO_CANtx_t) \<Rightarrow> co_bus" where
  \<comment> \<open>an assignment to a field of the transmit buffer \<^verbatim>\<open>i\<close>\<close>
  "bus_upd_buf bus i f =
     bus\<lparr>bus_can := (bus_can bus)\<lparr>can_txArray := (can_txArray (bus_can bus))[i := f (bus_buf bus i)]\<rparr>\<rparr>"

definition CO_CANsend :: "can_env \<Rightarrow> co_bus \<Rightarrow> nat option \<Rightarrow> CO_ReturnError_t \<times> co_bus" where
  "CO_CANsend env bus buffer =
     (case buffer of
        None \<Rightarrow> (CO_ERROR_ILLEGAL_ARGUMENT, bus)
      | Some i \<Rightarrow>
          if can_dev (bus_can bus) = None then (CO_ERROR_ILLEGAL_ARGUMENT, bus)
          else if tx_bufferFull (bus_buf bus i) then
            (CO_ERROR_TX_OVERFLOW,
             bus_upd_buf (bus\<lparr>bus_can := (bus_can bus)\<lparr>can_CANerrorStatus := CO_CAN_ERRTX_OVERFLOW\<rparr>\<rparr>) i
               (\<lambda>b. b\<lparr>tx_bufferFull := False\<rparr>))
          else
            let msg = tx_frame (bus_buf bus i);
                ret = env_write env (can_sent (bus_can bus)) msg;
                bus1 = bus\<lparr>bus_can := (bus_can bus)\<lparr>can_sent := can_sent (bus_can bus) @ [(msg, ret)]\<rparr>\<rparr>
            in if ret = - EBUSY then (CO_ERROR_NO, bus_upd_buf bus1 i (\<lambda>b. b\<lparr>tx_bufferFull := True\<rparr>))
               else if ret < 0 then
                 (CO_ERROR_TX_UNCONFIGURED,
                  bus_errorReport bus1 CO_EM_GENERIC_SOFTWARE_ERROR CO_EMC_COMMUNICATION 0)
               else (CO_ERROR_NO, bus1))"

definition CO_CANclearPendingSyncPDOs :: "co_bus \<Rightarrow> co_bus" where
  "CO_CANclearPendingSyncPDOs bus =
     (let m = bus_can bus; n = unat (can_txSize m);
          pending = (\<lambda>b. tx_bufferFull b \<and> tx_syncFlag b);
          tpdoDeleted = list_ex pending (take n (can_txArray m));
          bus1 = bus\<lparr>bus_can := m\<lparr>can_txArray :=
                   map_first n (\<lambda>b. if pending b then b\<lparr>tx_bufferFull := False\<rparr> else b) (can_txArray m)\<rparr>\<rparr>
      in if tpdoDeleted then bus_errorReport bus1 CO_EM_TPDO_OUTSIDE_WINDOW CO_EMC_COMMUNICATION 0 else bus1)"

definition CO_CANrxMsg_readIdent :: "can_env \<Rightarrow> CO_CANrxMsg_t \<Rightarrow> u16" where
  "CO_CANrxMsg_readIdent env msg = ucast (rxm_ident msg AND env_STD_ID_MASK env)"


subsection \<open>Invariant\<close>

definition bus_inv :: "co_bus \<Rightarrow> bool" where
  "bus_inv bus \<longleftrightarrow> length (can_txArray (bus_can bus)) = unat (can_txSize (bus_can bus)) \<and>
     length (can_rxArray (bus_can bus)) = unat (can_rxSize (bus_can bus)) \<and> em_inv (bus_em bus)"

lemma bus_errorReport_can [simp]: "bus_can (bus_errorReport bus b c i) = bus_can bus"
  by (simp add: bus_errorReport_def CO_errorReport_def split: option.splits)

lemma bus_errorReport_em:
  "bus_em (bus_errorReport bus b c i) = (if can_em (bus_can bus) then em_errorReport (bus_em bus) b c i else bus_em bus)"
  by (simp add: bus_errorReport_def CO_errorReport_def split: option.splits)

lemma bus_inv_errorReport [simp]: "bus_inv bus \<Longrightarrow> bus_inv (bus_errorReport bus b c i)"
  by (simp add: bus_inv_def bus_errorReport_em em_inv_errorReport)

lemma bus_upd_buf_fields [simp]:
  "bus_em (bus_upd_buf bus i f) = bus_em bus"
  "can_sent (bus_can (bus_upd_buf bus i f)) = can_sent (bus_can bus)"
  "can_dev (bus_can (bus_upd_buf bus i f)) = can_dev (bus_can bus)"
  "can_em (bus_can (bus_upd_buf bus i f)) = can_em (bus_can bus)"
  "can_txSize (bus_can (bus_upd_buf bus i f)) = can_txSize (bus_can bus)"
  "can_rxSize (bus_can (bus_upd_buf bus i f)) = can_rxSize (bus_can bus)"
  "can_rxArray (bus_can (bus_upd_buf bus i f)) = can_rxArray (bus_can bus)"
  "can_CANerrorStatus (bus_can (bus_upd_buf bus i f)) = can_CANerrorStatus (bus_can bus)"
  "length (can_txArray (bus_can (bus_upd_buf bus i f))) = length (can_txArray (bus_can bus))"
  by (simp_all add: bus_upd_buf_def)

lemma bus_buf_upd:
  "i < length (can_txArray (bus_can bus)) \<Longrightarrow>
     bus_buf (bus_upd_buf bus i f) j = (if j = i then f (bus_buf bus i) else bus_buf bus j)"
  by (simp add: bus_upd_buf_def bus_buf_def)

lemma bus_inv_upd_buf [simp]: "bus_inv (bus_upd_buf bus i f) \<longleftrightarrow> bus_inv bus"
  by (simp add: bus_inv_def)

definition bus_ready :: "co_bus \<Rightarrow> nat \<Rightarrow> bool" where
  "bus_ready bus i \<longleftrightarrow> can_dev (bus_can bus) \<noteq> None \<and> \<not> tx_bufferFull (bus_buf bus i)"

lemma CO_CANsend_keeps:
  assumes "bus_inv bus" "snd (CO_CANsend env bus b) = bus'"
  shows "bus_inv bus' \<and> can_txSize (bus_can bus') = can_txSize (bus_can bus) \<and>
    can_dev (bus_can bus') = can_dev (bus_can bus) \<and> can_em (bus_can bus') = can_em (bus_can bus)"
  using assms by (auto simp: CO_CANsend_def Let_def bus_inv_def bus_errorReport_em em_inv_errorReport
      split: option.splits if_splits)

lemma CO_CANsend_ready:
  assumes "bus_ready bus i"
  shows "can_sent (bus_can (snd (CO_CANsend env bus (Some i)))) =
    can_sent (bus_can bus) @ [(tx_frame (bus_buf bus i), env_write env (can_sent (bus_can bus)) (tx_frame (bus_buf bus i)))]"
  using assms by (simp add: CO_CANsend_def bus_ready_def Let_def)

lemma CO_CANsend_not_ready:
  assumes "\<not> bus_ready bus i"
  shows "can_sent (bus_can (snd (CO_CANsend env bus (Some i)))) = can_sent (bus_can bus)"
  using assms by (auto simp: CO_CANsend_def bus_ready_def Let_def)

lemma bus_buf_errorReport [simp]: "bus_buf (bus_errorReport bus b c i) j = bus_buf bus j"
  by (simp add: bus_buf_def)

lemma bus_buf_sent [simp]:
  "bus_buf (bus\<lparr>bus_can := (bus_can bus)\<lparr>can_sent := l\<rparr>\<rparr>) j = bus_buf bus j"
  "bus_buf (bus\<lparr>bus_can := (bus_can bus)\<lparr>can_CANerrorStatus := e\<rparr>\<rparr>) j = bus_buf bus j"
  "bus_buf (bus\<lparr>bus_em := em\<rparr>) j = bus_buf bus j"
  by (simp_all add: bus_buf_def)

lemma CO_CANsend_buf:
  assumes "i < length (can_txArray (bus_can bus))"
  shows "tx_frame (bus_buf (snd (CO_CANsend env bus (Some i))) j) = tx_frame (bus_buf bus j) \<and>
    tx_syncFlag (bus_buf (snd (CO_CANsend env bus (Some i))) j) = tx_syncFlag (bus_buf bus j) \<and>
    (j \<noteq> i \<longrightarrow> bus_buf (snd (CO_CANsend env bus (Some i))) j = bus_buf bus j)"
  using assms by (auto simp: CO_CANsend_def Let_def bus_buf_upd tx_frame_def)

lemma CO_CANrxBufferInit_keeps:
  assumes "bus_inv bus" "CO_CANrxBufferInit env bus index ident idmask rtr object callback = (ret, bus')"
  shows "bus_inv bus' \<and> can_dev (bus_can bus') = can_dev (bus_can bus) \<and>
    can_txArray (bus_can bus') = can_txArray (bus_can bus) \<and> can_txSize (bus_can bus') = can_txSize (bus_can bus) \<and>
    can_rxSize (bus_can bus') = can_rxSize (bus_can bus) \<and> can_sent (bus_can bus') = can_sent (bus_can bus) \<and>
    can_em (bus_can bus') = can_em (bus_can bus) \<and>
    can_CANerrorStatus (bus_can bus') = can_CANerrorStatus (bus_can bus) \<and>
    (index < can_rxSize (bus_can bus) \<and> callback \<noteq> None \<longrightarrow> bus_em bus' = bus_em bus)"
  using assms
  by (auto simp: CO_CANrxBufferInit_def Let_def can_ioctl_def bus_inv_def bus_errorReport_em em_inv_errorReport
      split: if_splits)

lemma CO_CANrxBufferInit_buffer:
  assumes "bus_inv bus" "CO_CANrxBufferInit env bus index ident idmask rtr (Some obj) (Some cb) = (ret, bus')"
    and "index < can_rxSize (bus_can bus)"
  shows "(ret = CO_ERROR_NO \<or> ret = CO_ERROR_SYSCALL) \<and>
    rx_CANrx_callback (can_rxArray (bus_can bus') ! unat index) = Some cb \<and>
    rx_object (can_rxArray (bus_can bus') ! unat index) = Some obj \<and>
    rx_ident (can_rxArray (bus_can bus') ! unat index) = can_id env ident rtr \<and>
    rx_mask (can_rxArray (bus_can bus') ! unat index) = can_id env idmask rtr"
proof -
  have "unat index < length (can_rxArray (bus_can bus))"
    using assms by (simp add: bus_inv_def word_less_nat_alt)
  then show ?thesis
    using assms(2,3) by (auto simp: CO_CANrxBufferInit_def Let_def can_ioctl_def not_le split: if_splits)
qed

lemma CO_CANtxBufferInit_ok:
  assumes "bus_inv bus" "index < can_txSize (bus_can bus)"
  shows "\<exists>bus'. CO_CANtxBufferInit env bus index ident rtr n sf = (Some (unat index), bus') \<and> bus_inv bus' \<and>
    bus_em bus' = bus_em bus \<and> can_dev (bus_can bus') = can_dev (bus_can bus) \<and>
    can_txSize (bus_can bus') = can_txSize (bus_can bus) \<and> can_sent (bus_can bus') = can_sent (bus_can bus) \<and>
    can_CANerrorStatus (bus_can bus') = can_CANerrorStatus (bus_can bus) \<and>
    can_rxArray (bus_can bus') = can_rxArray (bus_can bus) \<and>
    tx_ident (bus_buf bus' (unat index)) = can_id env ident rtr \<and> tx_DLC (bus_buf bus' (unat index)) = n \<and>
    \<not> tx_bufferFull (bus_buf bus' (unat index)) \<and> tx_syncFlag (bus_buf bus' (unat index)) = sf \<and>
    tx_data (bus_buf bus' (unat index)) = tx_data (bus_buf bus (unat index)) \<and>
    (\<forall>j. j \<noteq> unat index \<longrightarrow> bus_buf bus' j = bus_buf bus j)"
proof -
  have "unat index < length (can_txArray (bus_can bus))" using assms by (simp add: bus_inv_def word_less_nat_alt)
  then show ?thesis using assms by (simp add: CO_CANtxBufferInit_def Let_def bus_buf_def bus_inv_def not_le)
qed

subsection \<open>The interface of a sender\<close>

text \<open>
  What the components that send messages rely on: \<^verbatim>\<open>send\<close> passes the frame of the chosen buffer to the
  device when the buffer is ready, and nothing otherwise; it never changes what any buffer holds, and
  a refused send makes the buffer ready again.
\<close>

locale can_sender =
  fixes send :: "'s \<Rightarrow> nat \<Rightarrow> 's"
    and frame :: "'s \<Rightarrow> nat \<Rightarrow> 'f"
    and log :: "'s \<Rightarrow> 'f list"
    and ready :: "'s \<Rightarrow> nat \<Rightarrow> bool"
    and nbuf :: "'s \<Rightarrow> nat"
    and invar :: "'s \<Rightarrow> bool"
  assumes send_ready: "invar s \<Longrightarrow> i < nbuf s \<Longrightarrow> ready s i \<Longrightarrow> log (send s i) = log s @ [frame s i]"
    and send_blocked: "invar s \<Longrightarrow> i < nbuf s \<Longrightarrow> \<not> ready s i \<Longrightarrow> log (send s i) = log s \<and> ready (send s i) i"
    and send_frame: "invar s \<Longrightarrow> i < nbuf s \<Longrightarrow> frame (send s i) j = frame s j"
    and send_other: "invar s \<Longrightarrow> i < nbuf s \<Longrightarrow> j \<noteq> i \<Longrightarrow> ready (send s i) j = ready s j"
    and invar_send: "invar s \<Longrightarrow> i < nbuf s \<Longrightarrow> invar (send s i)"
    and nbuf_send: "invar s \<Longrightarrow> i < nbuf s \<Longrightarrow> nbuf (send s i) = nbuf s"
begin

text \<open>Sending from distinct ready buffers delivers their frames in order.\<close>

lemma send_in_order:
  "invar s \<Longrightarrow> distinct is \<Longrightarrow> \<forall>i \<in> set is. i < nbuf s \<and> ready s i \<Longrightarrow>
     log (foldl send s is) = log s @ map (frame s) is"
proof (induction "is" arbitrary: s)
  case Nil
  then show ?case by simp
next
  case (Cons i rest)
  then have i: "i < nbuf s" "ready s i" by auto
  have "\<forall>j \<in> set rest. j < nbuf (send s i) \<and> ready (send s i) j"
    using Cons.prems send_other [OF Cons.prems(1) i(1)] nbuf_send [OF Cons.prems(1) i(1)]
    by (metis distinct.simps(2) list.set_intros(2))
  then have "log (foldl send (send s i) rest) = log (send s i) @ map (frame (send s i)) rest"
    using Cons.IH [of "send s i"] Cons.prems invar_send [OF Cons.prems(1) i(1)] by simp
  then show ?case
    using send_ready [OF Cons.prems(1) i] send_frame [OF Cons.prems(1) i(1)] by simp
qed

text \<open>A refused frame is lost; the next attempt goes through.\<close>

lemma retry_blocked:
  assumes "invar s" "i < nbuf s" "\<not> ready s i"
  shows "log (send (send s i) i) = log s @ [frame s i]"
  using send_ready [of "send s i" i] send_blocked [OF assms] send_frame [OF assms(1,2)]
    invar_send [OF assms(1,2)] nbuf_send [OF assms(1,2)] assms(2) by simp

end

definition bus_dev_inv :: "co_bus \<Rightarrow> bool" where
  "bus_dev_inv bus \<longleftrightarrow> bus_inv bus \<and> can_dev (bus_can bus) \<noteq> None"

interpretation cs: can_sender "\<lambda>bus i. snd (CO_CANsend env bus (Some i))" "\<lambda>bus i. tx_frame (bus_buf bus i)"
  "\<lambda>bus. map fst (can_sent (bus_can bus))" bus_ready "\<lambda>bus. unat (can_txSize (bus_can bus))" bus_dev_inv
proof unfold_locales
  fix bus i assume a: "bus_dev_inv bus" "i < unat (can_txSize (bus_can bus))"
  then have len: "i < length (can_txArray (bus_can bus))" by (simp add: bus_dev_inv_def bus_inv_def)
  let ?bus' = "snd (CO_CANsend env bus (Some i))"
  show "map fst (can_sent (bus_can ?bus')) = map fst (can_sent (bus_can bus)) @ [tx_frame (bus_buf bus i)]"
    if "bus_ready bus i" using CO_CANsend_ready [OF that] by simp
  show "map fst (can_sent (bus_can ?bus')) = map fst (can_sent (bus_can bus)) \<and> bus_ready ?bus' i"
    if "\<not> bus_ready bus i"
    using CO_CANsend_not_ready [OF that] that a len
    by (auto simp: bus_ready_def CO_CANsend_def bus_buf_upd bus_dev_inv_def)
  show "tx_frame (bus_buf ?bus' j) = tx_frame (bus_buf bus j)" for j using CO_CANsend_buf [OF len] by simp
  show "bus_ready ?bus' j = bus_ready bus j" if "j \<noteq> i" for j
    using CO_CANsend_buf [OF len, of env j] CO_CANsend_keeps [of bus env "Some i"] that a
    by (simp add: bus_ready_def bus_dev_inv_def)
  show "bus_dev_inv ?bus'" "unat (can_txSize (bus_can ?bus')) = unat (can_txSize (bus_can bus))"
    using CO_CANsend_keeps [of bus env "Some i"] a by (simp_all add: bus_dev_inv_def)
qed


text \<open>
  Every outcome of \<^verbatim>\<open>CO_CANsend\<close> on a configured module. A buffer marked full is not written: the mark
  is cleared, the overflow bit becomes the error status and \<^verbatim>\<open>CO_ERROR_TX_OVERFLOW\<close> is returned.
  Otherwise the buffer's frame is passed to \<^verbatim>\<open>write\<close> exactly once; \<^verbatim>\<open>-EBUSY\<close> marks the buffer full and
  counts as success, any other negative result reports an error and returns
  \<^verbatim>\<open>CO_ERROR_TX_UNCONFIGURED\<close>. No other buffer and no buffer's frame changes.
\<close>

theorem CO_CANsend_outcomes:
  assumes "bus_dev_inv bus" "i < unat (can_txSize (bus_can bus))" "CO_CANsend env bus (Some i) = (err, bus')"
    and "r = env_write env (can_sent (bus_can bus)) (tx_frame (bus_buf bus i))"
  shows "bus_dev_inv bus' \<and>
    (\<forall>j. tx_frame (bus_buf bus' j) = tx_frame (bus_buf bus j) \<and> (j \<noteq> i \<longrightarrow> bus_buf bus' j = bus_buf bus j)) \<and>
    (if tx_bufferFull (bus_buf bus i)
     then err = CO_ERROR_TX_OVERFLOW \<and> can_sent (bus_can bus') = can_sent (bus_can bus) \<and>
       \<not> tx_bufferFull (bus_buf bus' i) \<and> can_CANerrorStatus (bus_can bus') = CO_CAN_ERRTX_OVERFLOW \<and>
       bus_em bus' = bus_em bus
     else can_sent (bus_can bus') = can_sent (bus_can bus) @ [(tx_frame (bus_buf bus i), r)] \<and>
       can_CANerrorStatus (bus_can bus') = can_CANerrorStatus (bus_can bus) \<and>
       tx_bufferFull (bus_buf bus' i) = (r = - EBUSY) \<and>
       err = (if r < 0 \<and> r \<noteq> - EBUSY then CO_ERROR_TX_UNCONFIGURED else CO_ERROR_NO) \<and>
       bus_em bus' = (if r < 0 \<and> r \<noteq> - EBUSY \<and> can_em (bus_can bus)
                      then em_errorReport (bus_em bus) CO_EM_GENERIC_SOFTWARE_ERROR CO_EMC_COMMUNICATION 0
                      else bus_em bus))"
proof -
  have len: "i < length (can_txArray (bus_can bus))" using assms by (simp add: bus_dev_inv_def bus_inv_def)
  have bus': "bus' = snd (CO_CANsend env bus (Some i))" using assms(3) by simp
  have "bus_dev_inv bus'" using cs.invar_send [OF assms(1,2)] by (simp add: bus')
  moreover have "tx_frame (bus_buf bus' j) = tx_frame (bus_buf bus j) \<and> (j \<noteq> i \<longrightarrow> bus_buf bus' j = bus_buf bus j)" for j
    using CO_CANsend_buf [OF len, of env j] by (simp add: bus')
  moreover have dev: "can_dev (bus_can bus) \<noteq> None" using assms(1) by (simp add: bus_dev_inv_def)
  have err: "err = fst (CO_CANsend env bus (Some i))" using assms(3) by simp
  note run = err bus' CO_CANsend_def Let_def bus_buf_upd [OF len] bus_buf_upd bus_errorReport_em
  have "tx_bufferFull (bus_buf bus i) \<Longrightarrow> err = CO_ERROR_TX_OVERFLOW \<and> can_sent (bus_can bus') = can_sent (bus_can bus) \<and>
       \<not> tx_bufferFull (bus_buf bus' i) \<and> can_CANerrorStatus (bus_can bus') = CO_CAN_ERRTX_OVERFLOW \<and>
       bus_em bus' = bus_em bus"
    using dev len by (simp add: run)
  moreover have "\<not> tx_bufferFull (bus_buf bus i) \<Longrightarrow>
       can_sent (bus_can bus') = can_sent (bus_can bus) @ [(tx_frame (bus_buf bus i), r)] \<and>
       can_CANerrorStatus (bus_can bus') = can_CANerrorStatus (bus_can bus) \<and>
       tx_bufferFull (bus_buf bus' i) = (r = - EBUSY) \<and>
       err = (if r < 0 \<and> r \<noteq> - EBUSY then CO_ERROR_TX_UNCONFIGURED else CO_ERROR_NO) \<and>
       bus_em bus' = (if r < 0 \<and> r \<noteq> - EBUSY \<and> can_em (bus_can bus)
                      then em_errorReport (bus_em bus) CO_EM_GENERIC_SOFTWARE_ERROR CO_EMC_COMMUNICATION 0
                      else bus_em bus)"
    using dev len assms(4) by (simp add: run)
  ultimately show ?thesis by presburger
qed

definition example_tx :: "u32 \<Rightarrow> u8 \<Rightarrow> u8 list \<Rightarrow> CO_CANtx_t" where
  "example_tx ident dlc data =
     \<lparr>tx_ident = ident, tx_DLC = dlc, tx_data = data, tx_bufferFull = False, tx_syncFlag = False\<rparr>"

definition example_rx :: CO_CANrx_t where
  "example_rx = \<lparr>rx_ident = 0, rx_mask = 0, rx_filter_id = -1, rx_object = None, rx_CANrx_callback = None\<rparr>"

definition example_bus :: co_bus where
  "example_bus = \<lparr>bus_can = \<lparr>can_dev = Some \<lparr>dev_devname = True, dev_fd = 3\<rparr>, can_rxArray = [example_rx],
       can_txArray = [example_tx 0x80 8 [0,0,0,0,0,0,0,0], example_tx 0x700 1 [0,0,0,0,0,0,0,0],
                      example_tx 0x000 2 [0,0,0,0,0,0,0,0]],
       can_em = False, can_rxSize = 1, can_txSize = 3, can_CANerrorStatus = 0, can_CANnormal = True,
       can_initialized = True, can_ioctls = [], can_sent = []\<rparr>,
     bus_em = example_em\<rparr>"

definition example_env :: "int \<Rightarrow> can_env" where
  "example_env r = \<lparr>env_open = 3, env_ioctl = (\<lambda>_ _. 0), env_filter_id = (\<lambda>l. int (length l)), env_write = (\<lambda>_ _. r),
     env_STD_ID_MASK = 0x7FF, env_RTR_MASK = 0x40000000, env_NO_FREE_FILTER = -1, env_MAX_FILTER = 10\<rparr>"

lemma example_bus_inv: "bus_dev_inv example_bus"
  by (simp add: bus_dev_inv_def bus_inv_def example_bus_def example_em_inv)

lemma example_env_write [simp]: "env_write (example_env r) l f = r"
  by (simp add: example_env_def)

theorem CO_CANsend_outcomes_witness:
  "fst (CO_CANsend (example_env (-16)) example_bus (Some 2)) = CO_ERROR_NO \<and>
   tx_bufferFull (bus_buf (snd (CO_CANsend (example_env (-16)) example_bus (Some 2))) 2)"
proof -
  obtain err bus' where s: "CO_CANsend (example_env (-16)) example_bus (Some 2) = (err, bus')" by fastforce
  have "2 < unat (can_txSize (bus_can example_bus))" by (simp add: example_bus_def)
  moreover have "\<not> tx_bufferFull (bus_buf example_bus 2)"
    by (simp add: bus_buf_def example_bus_def example_tx_def)
  ultimately show ?thesis
    using CO_CANsend_outcomes [OF example_bus_inv _ s refl] by (simp add: s EBUSY_def)
qed

text \<open>
  Messages sent from distinct ready buffers reach the device in the order of the calls, each exactly
  once, whatever the device answers.
\<close>

theorem CO_CANsend_in_order:
  assumes "bus_dev_inv bus" "distinct is"
    and "\<forall>i \<in> set is. i < unat (can_txSize (bus_can bus)) \<and> bus_ready bus i"
  shows "map fst (can_sent (bus_can (foldl (\<lambda>b i. snd (CO_CANsend env b (Some i))) bus is))) =
    map fst (can_sent (bus_can bus)) @ map (\<lambda>i. tx_frame (bus_buf bus i)) is"
  using cs.send_in_order [OF assms, of env] .

theorem CO_CANsend_in_order_witness:
  "map fst (can_sent (bus_can (foldl (\<lambda>b i. snd (CO_CANsend (example_env 0) b (Some i))) example_bus [2, 0]))) =
     [(0x000, 2, [0,0,0,0,0,0,0,0]), (0x80, 8, [0,0,0,0,0,0,0,0])]"
  using CO_CANsend_in_order [OF example_bus_inv, of "[2, 0]" "example_env 0"]
  by (simp add: bus_ready_def bus_buf_def tx_frame_def example_bus_def example_tx_def)

text \<open>
  A frame the device refuses with \<^verbatim>\<open>-EBUSY\<close> is never sent: the next \<^verbatim>\<open>CO_CANsend\<close> on the same buffer does
  not write anything either, returns \<^verbatim>\<open>CO_ERROR_TX_OVERFLOW\<close> and only frees the buffer.
\<close>

theorem CO_CANsend_busy_loses_two:
  assumes "bus_dev_inv bus" "i < unat (can_txSize (bus_can bus))" "bus_ready bus i"
    and "env_write env (can_sent (bus_can bus)) (tx_frame (bus_buf bus i)) = - EBUSY"
    and "CO_CANsend env bus (Some i) = (err1, bus1)" "CO_CANsend env bus1 (Some i) = (err2, bus2)"
  shows "err1 = CO_ERROR_NO \<and> err2 = CO_ERROR_TX_OVERFLOW \<and>
    can_sent (bus_can bus2) = can_sent (bus_can bus) @ [(tx_frame (bus_buf bus i), - EBUSY)]"
proof -
  have len: "i < length (can_txArray (bus_can bus))" using assms by (simp add: bus_dev_inv_def bus_inv_def)
  have 1: "err1 = CO_ERROR_NO" "tx_bufferFull (bus_buf bus1 i)" "can_dev (bus_can bus1) \<noteq> None"
    "can_sent (bus_can bus1) = can_sent (bus_can bus) @ [(tx_frame (bus_buf bus i), - EBUSY)]"
    using assms(3-5) len by (auto simp: CO_CANsend_def Let_def bus_ready_def bus_buf_upd split: if_splits)
  then show ?thesis using assms(6) by (auto simp: CO_CANsend_def split: if_splits)
qed

theorem CO_CANsend_busy_loses_two_witness:
  "\<exists>bus1 bus2. CO_CANsend (example_env (-16)) example_bus (Some 0) = (CO_ERROR_NO, bus1) \<and>
     CO_CANsend (example_env (-16)) bus1 (Some 0) = (CO_ERROR_TX_OVERFLOW, bus2) \<and> length (can_sent (bus_can bus2)) = 1"
proof -
  obtain e1 b1 where s1: "CO_CANsend (example_env (-16)) example_bus (Some 0) = (e1, b1)" by fastforce
  obtain e2 b2 where s2: "CO_CANsend (example_env (-16)) b1 (Some 0) = (e2, b2)" by fastforce
  have "0 < unat (can_txSize (bus_can example_bus))" "bus_ready example_bus 0"
    "env_write (example_env (-16)) (can_sent (bus_can example_bus)) (tx_frame (bus_buf example_bus 0)) = - EBUSY"
    "can_sent (bus_can example_bus) = []"
    by (simp_all add: example_bus_def bus_ready_def bus_buf_def example_tx_def example_env_def EBUSY_def)
  with CO_CANsend_busy_loses_two [OF example_bus_inv this(1,2,3) s1 s2] s1 s2 show ?thesis by simp
qed

subsection \<open>Initialisation and the other operations\<close>

text \<open>
  A first \<^verbatim>\<open>CO_CANmodule_init\<close> with proper arguments succeeds exactly when the device opens and accepts
  the bit rate; then every receive buffer is detached, no transmit buffer is marked full, no error is
  recorded and the module is initialised but not in normal mode. In every other case the module does
  not become initialised.
\<close>

theorem CO_CANmodule_init_correct:
  assumes "\<not> can_initialized m" "length rxa = unat rxSize" "length txa = unat txSize"
    and "CO_CANmodule_init env (Some m) dev (Some rxa) rxSize (Some txa) txSize rate = (err, Some m')"
  shows "can_initialized m' = (err = CO_ERROR_NO) \<and>
    (err = CO_ERROR_NO \<longrightarrow>
       0 \<le> env_open env \<and> can_dev m' = Some (dev\<lparr>dev_fd := env_open env\<rparr>) \<and> unat rxSize \<le> env_MAX_FILTER env \<and>
       (\<forall>b \<in> set (can_rxArray m'). rx_CANrx_callback b = None \<and> rx_filter_id b = env_NO_FREE_FILTER env) \<and>
       (\<forall>b \<in> set (can_txArray m'). \<not> tx_bufferFull b) \<and>
       length (can_rxArray m') = unat (can_rxSize m') \<and> length (can_txArray m') = unat (can_txSize m') \<and>
       \<not> can_CANnormal m' \<and> can_CANerrorStatus m' = 0)"
  using assms
  by (auto simp: CO_CANmodule_init_def CO_CANdeviceOpen_def can_ioctl_def Let_def map_first_def rx_clear_def
      split: if_splits)

definition example_module :: CO_CANmodule_t where
  "example_module = (bus_can example_bus)\<lparr>can_initialized := False\<rparr>"

theorem CO_CANmodule_init_correct_witness:
  "\<exists>m'. CO_CANmodule_init (example_env 0) (Some example_module) \<lparr>dev_devname = True, dev_fd = -1\<rparr> (Some []) 0
      (Some [example_tx 1 2 []]) 1 250 = (CO_ERROR_NO, Some m') \<and> can_initialized m' \<and> \<not> can_CANnormal m'"
proof -
  obtain err m' where r: "CO_CANmodule_init (example_env 0) (Some example_module) \<lparr>dev_devname = True, dev_fd = -1\<rparr>
      (Some []) 0 (Some [example_tx 1 2 []]) 1 250 = (err, Some m')"
    by (simp add: CO_CANmodule_init_def CO_CANdeviceOpen_def can_ioctl_def example_env_def example_module_def example_bus_def)
  then have "err = CO_ERROR_NO"
    by (auto simp: CO_CANmodule_init_def CO_CANdeviceOpen_def can_ioctl_def example_env_def example_module_def example_bus_def)
  with CO_CANmodule_init_correct [OF _ _ _ r] r show ?thesis by (simp add: example_module_def)
qed

text \<open>
  \<^verbatim>\<open>CO_CANclearPendingSyncPDOs\<close> frees exactly the transmit buffers that wait with a synchronous PDO,
  keeps every other buffer, and reports a PDO outside its window exactly when it freed one.
\<close>

theorem CO_CANclearPendingSyncPDOs_correct:
  assumes "bus_inv bus" "i < unat (can_txSize (bus_can bus))"
  shows "bus_inv (CO_CANclearPendingSyncPDOs bus) \<and>
    tx_bufferFull (bus_buf (CO_CANclearPendingSyncPDOs bus) i) =
      (tx_bufferFull (bus_buf bus i) \<and> \<not> tx_syncFlag (bus_buf bus i)) \<and>
    tx_frame (bus_buf (CO_CANclearPendingSyncPDOs bus) i) = tx_frame (bus_buf bus i) \<and>
    bus_em (CO_CANclearPendingSyncPDOs bus) =
      (if can_em (bus_can bus) \<and>
          (\<exists>j < unat (can_txSize (bus_can bus)). tx_bufferFull (bus_buf bus j) \<and> tx_syncFlag (bus_buf bus j))
       then em_errorReport (bus_em bus) CO_EM_TPDO_OUTSIDE_WINDOW CO_EMC_COMMUNICATION 0 else bus_em bus)"
proof -
  have len: "length (can_txArray (bus_can bus)) = unat (can_txSize (bus_can bus))"
    using assms by (simp add: bus_inv_def)
  show ?thesis
    using assms len
    by (auto simp: CO_CANclearPendingSyncPDOs_def Let_def bus_inv_def map_first_def bus_errorReport_em em_inv_errorReport
        list_ex_length bus_buf_def tx_frame_def)
qed

theorem CO_CANclearPendingSyncPDOs_correct_witness:
  "bus_em (CO_CANclearPendingSyncPDOs example_bus) = example_em"
proof -
  have "bus_inv example_bus" using example_bus_inv by (simp add: bus_dev_inv_def)
  moreover have "0 < unat (can_txSize (bus_can example_bus))" by (simp add: example_bus_def)
  ultimately show ?thesis
    using CO_CANclearPendingSyncPDOs_correct [of example_bus 0] by (simp add: example_bus_def)
qed

text \<open>
  Three behaviours of the driver that its callers do not expect: the module counts as being in normal
  mode even if the device could not be started, disabling it detaches the filter of the first receive
  buffer only, and it passes the filter's identifier as the file descriptor.
\<close>

lemma CO_CANsetNormalMode_always: "can_CANnormal (CO_CANsetNormalMode env m)"
  by (simp add: CO_CANsetNormalMode_def can_ioctl_def Let_def)

lemma detach_loop_other: "0 < j \<Longrightarrow> can_rxArray (detach_loop env n m) ! j = can_rxArray m ! j"
  by (induction n arbitrary: m) (auto simp: can_ioctl_def Let_def)

lemma CO_CANmodule_disable_first_only:
  assumes "0 < j" "can_initialized m" "CO_CANmodule_disable env (Some m) = Some m'"
  shows "can_rxArray m' ! j = can_rxArray m ! j"
  using assms detach_loop_other [OF assms(1), of env "unat (can_rxSize m)" m]
  by (auto simp: CO_CANmodule_disable_def CO_CANdeviceClose_def can_ioctl_def Let_def split: if_splits)

end
