(* ===== verification/OD_Access.thy ===== *)
theory OD_Access
  imports CO_Prelude "HOL-Library.Monad_Syntax"
begin

section \<open>Access to the Object Dictionary (\<^verbatim>\<open>301/CO_SDOserver.c\<close>)\<close>

text \<open>
  The table of objects that the SDO server serves and the functions every component uses to reach it:
  the binary search \<^verbatim>\<open>CO_OD_find\<close>, the length, attribute and data pointer of a sub-object, and
  \<^verbatim>\<open>CO_OD_configure\<close>, which registers a function on an object. The record \<^verbatim>\<open>CO_SDO_OD\<close> holds the fields
  of \<^verbatim>\<open>CO_SDO_t\<close> these functions use. A data pointer is an address (\<^verbatim>\<open>None\<close> is \<^verbatim>\<open>NULL\<close>); for a record
  object \<^verbatim>\<open>pData\<close> points to a table of members, which the model keeps as a list. Registered functions
  are named by the datatype \<^verbatim>\<open>od_func\<close>, registered objects by a number; \<^verbatim>\<open>CO_ODF_arg_t\<close> is what they are called
  with.
\<close>

datatype od_func = ODF_1003 | ODF_1005 | ODF_1006 | ODF_1010 | ODF_1011 | ODF_1014 | ODF_1016 | ODF_1019
  | ODF_1200 | ODF_RPDOcom | ODF_RPDOmap | ODF_TPDOcom | ODF_TPDOmap
  | ODF_user nat

record CO_OD_entryRecord_t =
  mem_pData :: "nat option"
  mem_attribute :: u16
  mem_length :: u16

datatype od_pdata = PNull | PData nat | PRecord "CO_OD_entryRecord_t list"

record CO_OD_entry_t =
  od_index :: u16
  od_maxSubIndex :: u8
  od_attribute :: u16
  od_length :: u16
  od_pData :: od_pdata

record CO_OD_extension_t =
  ext_pODFunc :: "od_func option"
  ext_object :: "nat option"
  ext_flags :: "u8 list option"

record CO_SDO_OD =
  sdo_OD :: "CO_OD_entry_t list"
  sdo_ODSize :: u16
  sdo_ODExtensions :: "CO_OD_extension_t list"

definition CO_CONFIG_SDO_BUFFER_SIZE :: u16 where "CO_CONFIG_SDO_BUFFER_SIZE = 889"

definition CO_ODA_READABLE :: u16 where "CO_ODA_READABLE = 0x0004"
definition CO_ODA_WRITEABLE :: u16 where "CO_ODA_WRITEABLE = 0x0008"
definition CO_ODA_RPDO_MAPABLE :: u16 where "CO_ODA_RPDO_MAPABLE = 0x0010"

text \<open>
  The search, with \<^verbatim>\<open>cur\<close>, \<^verbatim>\<open>min\<close> and \<^verbatim>\<open>max\<close> read as naturals; \<^verbatim>\<open>max = SDO->ODSize - 1U\<close> wraps at 16 bits.
\<close>

function CO_OD_find_loop :: "CO_OD_entry_t list \<Rightarrow> u16 \<Rightarrow> nat \<Rightarrow> nat \<Rightarrow> nat" where
  "CO_OD_find_loop OD index lo hi =
     (if lo < hi then
        let cur = (lo + hi) div 2; object = OD ! cur
        in if index = od_index object then cur
           else if index < od_index object
           then CO_OD_find_loop OD index lo (if cur \<noteq> 0 then cur - 1 else cur)
           else CO_OD_find_loop OD index (cur + 1) hi
      else if lo = hi \<and> index = od_index (OD ! lo) then lo
      else 0xFFFF)"
  by pat_completeness auto
termination
  by (relation "measure (\<lambda>(OD, index, lo, hi). hi - lo)") (auto split: if_splits)

declare CO_OD_find_loop.simps [simp del]

definition CO_OD_find :: "CO_SDO_OD \<Rightarrow> u16 \<Rightarrow> nat" where
  "CO_OD_find SDO index = CO_OD_find_loop (sdo_OD SDO) index 0 (unat (sdo_ODSize SDO - 1))"

text \<open>
  \<^verbatim>\<open>None\<close> as the result of the accessors below is a read outside \<^verbatim>\<open>SDO->OD\<close> or outside the member table of
  a record object, which the source does not guard.
\<close>

definition nth_opt :: "'a list \<Rightarrow> nat \<Rightarrow> 'a option" where
  "nth_opt xs i = (if i < length xs then Some (xs ! i) else None)"

definition od_member :: "CO_OD_entry_t \<Rightarrow> u8 \<Rightarrow> CO_OD_entryRecord_t option" where
  \<comment> \<open>\<^verbatim>\<open>((const CO_OD_entryRecord_t*)(object->pData))[subIndex]\<close>\<close>
  "od_member object subIndex = (case od_pData object of PRecord ms \<Rightarrow> nth_opt ms (unat subIndex) | _ \<Rightarrow> None)"

definition CO_OD_getLength :: "CO_SDO_OD \<Rightarrow> nat \<Rightarrow> u8 \<Rightarrow> u16 option" where
  "CO_OD_getLength SDO entryNo subIndex =
     (if entryNo = 0xFFFF then Some 0
      else do {
        object \<leftarrow> nth_opt (sdo_OD SDO) entryNo;
        if od_maxSubIndex object = 0 then
          Some (if od_pData object = PNull then CO_CONFIG_SDO_BUFFER_SIZE else od_length object)
        else if od_attribute object \<noteq> 0 then
          Some (if subIndex = 0 then 1
                else if od_pData object = PNull then CO_CONFIG_SDO_BUFFER_SIZE
                else od_length object)
        else do {
          m \<leftarrow> od_member object subIndex;
          Some (if mem_pData m = None then CO_CONFIG_SDO_BUFFER_SIZE else mem_length m)
        }
      })"

definition CO_OD_getAttribute :: "CO_SDO_OD \<Rightarrow> nat \<Rightarrow> u8 \<Rightarrow> u16 option" where
  "CO_OD_getAttribute SDO entryNo subIndex =
     (if entryNo = 0xFFFF then Some 0
      else do {
        object \<leftarrow> nth_opt (sdo_OD SDO) entryNo;
        if od_maxSubIndex object = 0 then Some (od_attribute object)
        else if od_attribute object \<noteq> 0 then
          let exception_1003 = (od_index object = 0x1003 \<and> subIndex = 0);
              attr = (if exception_1003 then od_attribute object OR CO_ODA_WRITEABLE
                      else od_attribute object)
          in Some (if subIndex = 0 \<and> \<not> exception_1003
                   then (attr AND NOT (CO_ODA_WRITEABLE OR CO_ODA_RPDO_MAPABLE)) OR CO_ODA_READABLE
                   else attr)
        else map_option mem_attribute (od_member object subIndex)
      })"

text \<open>
  The result of \<^verbatim>\<open>CO_OD_getDataPointer\<close>: \<^verbatim>\<open>NULL\<close>, an address, the member table of a record, or the
  address of the entry's own \<^verbatim>\<open>maxSubIndex\<close> field, which is the data of sub-index 0 of an array.
\<close>

datatype od_ptr = ONull | OAddr nat | OTable nat | OMaxSubIndex nat

definition od_pData_ptr :: "CO_OD_entry_t \<Rightarrow> nat \<Rightarrow> nat \<Rightarrow> od_ptr" where
  \<comment> \<open>\<^verbatim>\<open>object->pData\<close> plus an offset\<close>
  "od_pData_ptr object entryNo offs =
     (case od_pData object of PNull \<Rightarrow> ONull | PData a \<Rightarrow> OAddr (a + offs) | PRecord _ \<Rightarrow> OTable entryNo)"

definition CO_OD_getDataPointer :: "CO_SDO_OD \<Rightarrow> nat \<Rightarrow> u8 \<Rightarrow> od_ptr option" where
  "CO_OD_getDataPointer SDO entryNo subIndex =
     (if entryNo = 0xFFFF then Some ONull
      else do {
        object \<leftarrow> nth_opt (sdo_OD SDO) entryNo;
        if od_maxSubIndex object = 0 then Some (od_pData_ptr object entryNo 0)
        else if od_maxSubIndex object < subIndex then Some ONull
        else if od_attribute object \<noteq> 0 then
          Some (if subIndex = 0 then OMaxSubIndex entryNo
                else od_pData_ptr object entryNo ((unat subIndex - 1) * unat (od_length object)))
        else do {
          m \<leftarrow> od_member object subIndex;
          Some (case mem_pData m of None \<Rightarrow> ONull | Some a \<Rightarrow> OAddr a)
        }
      })"

text \<open>
  \<^verbatim>\<open>flags\<close> is the array the caller passes, \<^verbatim>\<open>None\<close> for \<^verbatim>\<open>NULL\<close>. The loop that clears it writes
  \<^verbatim>\<open>maxSubIndex + 1\<close> bytes; \<^verbatim>\<open>None\<close> as the result is a write past the end of the array.
\<close>

definition clear_flags :: "u8 \<Rightarrow> u8 list \<Rightarrow> u8 list" where
  \<comment> \<open>the loop \<^verbatim>\<open>for(i=0U; i<=maxSubIndex; i++) ext->flags[i] = 0U\<close>\<close>
  "clear_flags maxSubIndex bs = replicate (unat maxSubIndex + 1) 0 @ drop (unat maxSubIndex + 1) bs"

definition CO_OD_configure ::
    "CO_SDO_OD \<Rightarrow> u16 \<Rightarrow> od_func option \<Rightarrow> nat option \<Rightarrow> u8 list option \<Rightarrow> u8 \<Rightarrow> CO_SDO_OD option" where
  "CO_OD_configure SDO index pODFunc object flags flagsSize =
     (let entryNo = CO_OD_find SDO index
      in if entryNo < 0xFFFF then do {
           entry \<leftarrow> nth_opt (sdo_OD SDO) entryNo;
           let maxSubIndex = od_maxSubIndex entry;
           fl \<leftarrow> (case flags of
                     Some bs \<Rightarrow>
                       if flagsSize \<noteq> 0 \<and> flagsSize = maxSubIndex
                       then (if unat maxSubIndex < length bs
                             then Some (Some (clear_flags maxSubIndex bs))
                             else None)
                       else Some None
                   | None \<Rightarrow> Some None);
           Some (SDO\<lparr>sdo_ODExtensions := (sdo_ODExtensions SDO)
                [entryNo := \<lparr>ext_pODFunc = pODFunc, ext_object = object, ext_flags = fl\<rparr>]\<rparr>)
         }
         else Some SDO)"

definition CO_OD_getFlagsPointer :: "CO_SDO_OD \<Rightarrow> nat \<Rightarrow> u8 \<Rightarrow> (nat \<times> u8) option" where
  \<comment> \<open>\<^verbatim>\<open>&SDO->ODExtensions[entryNo].flags[subIndex]\<close> as the pair of the two indices; \<^verbatim>\<open>None\<close> for \<^verbatim>\<open>NULL\<close>\<close>
  "CO_OD_getFlagsPointer SDO entryNo subIndex =
     (if entryNo = 0xFFFF \<or> sdo_ODExtensions SDO = [] then None
      else if ext_flags (sdo_ODExtensions SDO ! entryNo) = None then None
      else Some (entryNo, subIndex))"

text \<open>
  The abort codes of the SDO server and the argument of a registered function. \<^verbatim>\<open>data\<close> points into the buffer of
  the server: \<^verbatim>\<open>arg_data\<close> is the buffer from there to its end. \<^verbatim>\<open>CO_getUint32\<close> and \<^verbatim>\<open>CO_setUint32\<close> are what these
  functions use to read and write a value in it.
\<close>

datatype CO_SDO_abortCode_t = CO_SDO_AB_NONE | CO_SDO_AB_TOGGLE_BIT | CO_SDO_AB_TIMEOUT | CO_SDO_AB_CMD
  | CO_SDO_AB_BLOCK_SIZE | CO_SDO_AB_SEQ_NUM | CO_SDO_AB_CRC | CO_SDO_AB_OUT_OF_MEM
  | CO_SDO_AB_UNSUPPORTED_ACCESS | CO_SDO_AB_WRITEONLY | CO_SDO_AB_READONLY | CO_SDO_AB_NOT_EXIST
  | CO_SDO_AB_NO_MAP | CO_SDO_AB_MAP_LEN | CO_SDO_AB_PRAM_INCOMPAT | CO_SDO_AB_DEVICE_INCOMPAT | CO_SDO_AB_HW
  | CO_SDO_AB_TYPE_MISMATCH | CO_SDO_AB_DATA_LONG | CO_SDO_AB_DATA_SHORT | CO_SDO_AB_SUB_UNKNOWN
  | CO_SDO_AB_INVALID_VALUE | CO_SDO_AB_VALUE_HIGH | CO_SDO_AB_VALUE_LOW | CO_SDO_AB_MAX_LESS_MIN
  | CO_SDO_AB_NO_RESOURCE | CO_SDO_AB_GENERAL | CO_SDO_AB_DATA_TRANSF | CO_SDO_AB_DATA_LOC_CTRL
  | CO_SDO_AB_DATA_DEV_STATE | CO_SDO_AB_DATA_OD | CO_SDO_AB_NO_DATA

record CO_ODF_arg_t =
  arg_object :: "nat option"
  arg_data :: "u8 list"
  arg_ODdataStorage :: od_ptr
  arg_dataLength :: u16
  arg_attribute :: u16
  arg_pFlags :: "(nat \<times> u8) option"
  arg_index :: u16
  arg_subIndex :: u8
  arg_reading :: bool
  arg_firstSegment :: bool
  arg_lastSegment :: bool
  arg_dataLengthTotal :: u32
  arg_offset :: u32

definition CO_getUint32 :: "u8 list \<Rightarrow> u32" where "CO_getUint32 data = word_of_nat (le_value (take 4 data))"

definition CO_setUint32 :: "u8 list \<Rightarrow> u32 \<Rightarrow> u8 list" where
  "CO_setUint32 data v = le_bytes 4 (unat v) @ drop 4 data"

subsection \<open>The search is correct on an ordered dictionary\<close>

definition od_entry_ok :: "CO_OD_entry_t \<Rightarrow> bool" where
  \<comment> \<open>a record object has a member for every sub-index, a variable or an array has none\<close>
  "od_entry_ok e \<longleftrightarrow>
     (case od_pData e of
        PRecord ms \<Rightarrow> od_maxSubIndex e \<noteq> 0 \<and> od_attribute e = 0 \<and> length ms = unat (od_maxSubIndex e) + 1
      | _ \<Rightarrow> od_maxSubIndex e = 0 \<or> od_attribute e \<noteq> 0)"

definition od_inv :: "CO_SDO_OD \<Rightarrow> bool" where
  "od_inv SDO \<longleftrightarrow> sdo_OD SDO \<noteq> [] \<and> length (sdo_OD SDO) = unat (sdo_ODSize SDO) \<and>
     length (sdo_ODExtensions SDO) = length (sdo_OD SDO) \<and>
     sorted_wrt (<) (map od_index (sdo_OD SDO)) \<and> list_all od_entry_ok (sdo_OD SDO)"

lemma CO_getUint32_le_bytes [simp]: "CO_getUint32 (le_bytes 4 (unat v) @ bs) = v"
  using unat_u32_less [of v] by (simp add: CO_getUint32_def le_value_le_bytes del: le_bytes.simps unat_u32_less)

lemma sorted_entry_less:
  "sorted_wrt (<) (map od_index OD) \<Longrightarrow> i < j \<Longrightarrow> j < length OD \<Longrightarrow> od_index (OD ! i) < od_index (OD ! j)"
  by (simp add: sorted_wrt_iff_nth_less)

lemma sorted_entry_pos:
  assumes "sorted_wrt (<) (map od_index OD)" "i < length OD" "j < length OD"
  shows "od_index (OD ! i) < od_index (OD ! j) \<longleftrightarrow> i < j"
  using sorted_entry_less [OF assms(1), of i j] sorted_entry_less [OF assms(1), of j i] assms
  by (metis less_asym nat_neq_iff less_irrefl)

lemma sorted_entry_inj:
  assumes "sorted_wrt (<) (map od_index OD)" "i < length OD" "j < length OD" "od_index (OD ! i) = od_index (OD ! j)"
  shows "i = j"
  using sorted_entry_pos [OF assms(1), of i j] sorted_entry_pos [OF assms(1), of j i] assms
  by (metis nat_neq_iff less_irrefl)

lemma CO_OD_find_loop_found:
  "sorted_wrt (<) (map od_index OD) \<Longrightarrow> lo \<le> k \<Longrightarrow> k \<le> hi \<Longrightarrow> hi < length OD \<Longrightarrow>
     od_index (OD ! k) = index \<Longrightarrow> CO_OD_find_loop OD index lo hi = k"
proof (induction OD index lo hi rule: CO_OD_find_loop.induct)
  case (1 OD index lo hi)
  show ?case
  proof (cases "lo < hi")
    case True
    define cur where "cur = (lo + hi) div 2"
    have cur: "lo \<le> cur" "cur < hi" using True by (auto simp: cur_def)
    consider "index = od_index (OD ! cur)" | "index < od_index (OD ! cur)" | "od_index (OD ! cur) < index"
      by (metis linorder_cases)
    then show ?thesis
    proof cases
      case 1
      then have "cur = k" using sorted_entry_inj [of OD cur k] "1.prems" cur by simp
      then show ?thesis using True 1 by (subst CO_OD_find_loop.simps) (simp add: Let_def flip: cur_def)
    next
      case 2
      then have "k < cur" using sorted_entry_pos [of OD k cur] "1.prems" cur by simp
      then show ?thesis
        using True 2 "1.IH"(1) [OF True cur_def refl] "1.prems" cur
        by (simp add: CO_OD_find_loop.simps [of OD index lo hi] Let_def flip: cur_def)
    next
      case 3
      then have "cur < k" using sorted_entry_pos [of OD cur k] "1.prems" cur by simp
      then show ?thesis
        using True 3 "1.IH"(2) [OF True cur_def refl] "1.prems" cur
        by (auto simp add: CO_OD_find_loop.simps [of OD index lo hi] Let_def simp flip: cur_def)
    qed
  next
    case False
    then have "lo = hi" "k = lo" using "1.prems" by auto
    then show ?thesis using "1.prems" by (subst CO_OD_find_loop.simps) simp
  qed
qed

lemma CO_OD_find_loop_missing:
  "hi < length OD \<Longrightarrow> \<forall>k < length OD. od_index (OD ! k) \<noteq> index \<Longrightarrow> CO_OD_find_loop OD index lo hi = 0xFFFF"
proof (induction OD index lo hi rule: CO_OD_find_loop.induct)
  case (1 OD index lo hi)
  show ?case
  proof (cases "lo < hi")
    case True
    define cur where "cur = (lo + hi) div 2"
    have cur: "lo \<le> cur" "cur < hi" using True by (auto simp: cur_def)
    then have ne: "index \<noteq> od_index (OD ! cur)" using "1.prems" by (metis less_trans)
    have below: "index < od_index (OD ! cur) \<Longrightarrow>
        CO_OD_find_loop OD index lo (if cur \<noteq> 0 then cur - 1 else cur) = 0xFFFF"
      by (rule "1.IH"(1) [OF True cur_def refl ne]) (use "1.prems" cur in auto)
    have above: "\<not> index < od_index (OD ! cur) \<Longrightarrow> CO_OD_find_loop OD index (cur + 1) hi = 0xFFFF"
      by (rule "1.IH"(2) [OF True cur_def refl ne]) (use "1.prems" cur in auto)
    show ?thesis
      unfolding CO_OD_find_loop.simps [of OD index lo hi] Let_def cur_def [symmetric]
      using True ne below above by simp
  next
    case False
    then show ?thesis using "1.prems" by (auto simp: CO_OD_find_loop.simps [of OD index lo hi])
  qed
qed


lemma od_inv_max: "od_inv SDO \<Longrightarrow> unat (sdo_ODSize SDO - 1) = length (sdo_OD SDO) - 1"
  unfolding od_inv_def by (metis length_greater_0_conv less_nat_zero_code unat_0 unat_minus_one)

lemma od_inv_length: "od_inv SDO \<Longrightarrow> length (sdo_OD SDO) \<le> 0xFFFF"
  unfolding od_inv_def using unat_u16_less [of "sdo_ODSize SDO"] by linarith

lemma od_inv_nonempty: "od_inv SDO \<Longrightarrow> 0 < length (sdo_OD SDO)"
  unfolding od_inv_def by blast

lemma CO_OD_find_nth:
  assumes "od_inv SDO" "k < length (sdo_OD SDO)"
  shows "CO_OD_find SDO (od_index (sdo_OD SDO ! k)) = k"
  unfolding CO_OD_find_def od_inv_max [OF assms(1)]
  using assms by (intro CO_OD_find_loop_found) (auto simp: od_inv_def)

lemma CO_OD_find_missing:
  assumes "od_inv SDO" "index \<notin> od_index ` set (sdo_OD SDO)"
  shows "CO_OD_find SDO index = 0xFFFF"
proof -
  have "0 < length (sdo_OD SDO)" using assms(1) by (rule od_inv_nonempty)
  then show ?thesis
    unfolding CO_OD_find_def od_inv_max [OF assms(1)]
    using assms by (intro CO_OD_find_loop_missing) auto
qed

lemma CO_OD_find_less:
  assumes "od_inv SDO"
  shows "CO_OD_find SDO index < 0xFFFF \<longleftrightarrow> index \<in> od_index ` set (sdo_OD SDO)"
proof
  assume "CO_OD_find SDO index < 0xFFFF"
  then show "index \<in> od_index ` set (sdo_OD SDO)"
    using CO_OD_find_missing [OF assms, of index] by (cases "index \<in> od_index ` set (sdo_OD SDO)") auto
next
  assume "index \<in> od_index ` set (sdo_OD SDO)"
  then obtain k where "k < length (sdo_OD SDO)" "index = od_index (sdo_OD SDO ! k)"
    by (auto simp: in_set_conv_nth)
  then show "CO_OD_find SDO index < 0xFFFF"
    using CO_OD_find_nth [OF assms] od_inv_length [OF assms] by simp
qed

text \<open>
  The dictionary as the map from an index to its entry and extension: the contract of the table.
\<close>

definition od_map :: "CO_SDO_OD \<Rightarrow> u16 \<rightharpoonup> CO_OD_entry_t \<times> CO_OD_extension_t" where
  "od_map SDO = map_of (zip (map od_index (sdo_OD SDO)) (zip (sdo_OD SDO) (sdo_ODExtensions SDO)))"

lemma od_inv_distinct: "od_inv SDO \<Longrightarrow> distinct (map od_index (sdo_OD SDO))"
  unfolding od_inv_def by (metis strict_sorted_iff)

lemma od_map_nth:
  assumes "od_inv SDO" "k < length (sdo_OD SDO)"
  shows "od_map SDO (od_index (sdo_OD SDO ! k)) = Some (sdo_OD SDO ! k, sdo_ODExtensions SDO ! k)"
  unfolding od_map_def using assms od_inv_distinct [OF assms(1)]
  by (intro map_of_is_SomeI) (auto simp: od_inv_def in_set_zip intro!: exI [of _ k])

lemma od_map_missing:
  "od_inv SDO \<Longrightarrow> index \<notin> od_index ` set (sdo_OD SDO) \<Longrightarrow> od_map SDO index = None"
  unfolding od_map_def by (auto simp: map_of_eq_None_iff dest: set_zip_leftD)

lemma od_inv_configure:
  assumes "od_inv SDO" "CO_OD_configure SDO index f obj fl fs = Some SDO'"
  shows "od_inv SDO' \<and> sdo_OD SDO' = sdo_OD SDO \<and> sdo_ODSize SDO' = sdo_ODSize SDO"
  using assms
  by (auto simp: CO_OD_configure_def Let_def od_inv_def bind_eq_Some_conv split: if_splits option.splits)


text \<open>
  C25: on an Object Dictionary ordered by index, \<^verbatim>\<open>CO_OD_find\<close> returns the position of the entry with the
  given index when there is one, and \<^verbatim>\<open>0xFFFF\<close> exactly when no entry has it.
\<close>

theorem CO_OD_find_correct:
  assumes "od_inv SDO"
  shows "(CO_OD_find SDO index = 0xFFFF \<and> od_map SDO index = None) \<or>
         (\<exists>entry ext. od_map SDO index = Some (entry, ext) \<and> CO_OD_find SDO index < length (sdo_OD SDO) \<and>
            sdo_OD SDO ! CO_OD_find SDO index = entry \<and> sdo_ODExtensions SDO ! CO_OD_find SDO index = ext \<and>
            od_index entry = index)"
proof (cases "index \<in> od_index ` set (sdo_OD SDO)")
  case True
  then obtain k where k: "k < length (sdo_OD SDO)" "index = od_index (sdo_OD SDO ! k)"
    by (auto simp: in_set_conv_nth)
  then show ?thesis using CO_OD_find_nth [OF assms k(1)] od_map_nth [OF assms k(1)] by simp
next
  case False
  then show ?thesis using CO_OD_find_missing [OF assms False] od_map_missing [OF assms False] by simp
qed

definition example_entry :: "u16 \<Rightarrow> u8 \<Rightarrow> u16 \<Rightarrow> CO_OD_entry_t" where
  "example_entry index maxSub attr =
     \<lparr>od_index = index, od_maxSubIndex = maxSub, od_attribute = attr, od_length = 4, od_pData = PData 100\<rparr>"

definition no_ext :: CO_OD_extension_t where
  "no_ext = \<lparr>ext_pODFunc = None, ext_object = None, ext_flags = None\<rparr>"

definition example_arg :: "u8 list \<Rightarrow> CO_ODF_arg_t" where
  "example_arg data =
     \<lparr>arg_object = None, arg_data = data, arg_ODdataStorage = OAddr 0, arg_dataLength = 4, arg_attribute = 14, arg_pFlags = None,
      arg_index = 0, arg_subIndex = 0, arg_reading = False, arg_firstSegment = True, arg_lastSegment = True,
      arg_dataLengthTotal = 4, arg_offset = 0\<rparr>"

definition example_OD :: CO_SDO_OD where
  "example_OD =
     \<lparr>sdo_OD = [example_entry 0x1000 0 5, example_entry 0x1003 8 6, example_entry 0x1014 0 6,
               example_entry 0x1016 4 14],
      sdo_ODSize = 4,
      sdo_ODExtensions = [no_ext, no_ext, no_ext, no_ext]\<rparr>"

lemma example_OD_inv: "od_inv example_OD"
  by (simp add: od_inv_def example_OD_def example_entry_def od_entry_ok_def)

lemma all_less_4: "(\<forall>i < (4::nat). P i) \<longleftrightarrow> P 0 \<and> P 1 \<and> P 2 \<and> P 3"
  by (auto simp: less_Suc_eq numeral_3_eq_3 numeral_2_eq_2 eval_nat_numeral(2))

theorem CO_OD_find_correct_witness: "CO_OD_find example_OD 0x1014 = 2"
proof -
  have "od_map example_OD 0x1014 \<noteq> None"
    by (simp add: od_map_def example_OD_def example_entry_def)
  moreover have "\<forall>i < 4. od_index (sdo_OD example_OD ! i) = 0x1014 \<longrightarrow> i = 2"
    by (simp add: all_less_4 example_OD_def example_entry_def)
  moreover have "length (sdo_OD example_OD) = 4" by (simp add: example_OD_def)
  ultimately show ?thesis using CO_OD_find_correct [OF example_OD_inv, of "0x1014"] by auto
qed

lemma od_map_update:
  assumes "od_inv SDO" "k < length (sdo_OD SDO)"
  shows "od_map (SDO\<lparr>sdo_ODExtensions := (sdo_ODExtensions SDO)[k := x]\<rparr>) =
         (od_map SDO)(od_index (sdo_OD SDO ! k) \<mapsto> (sdo_OD SDO ! k, x))"
proof
  fix i
  have inv': "od_inv (SDO\<lparr>sdo_ODExtensions := (sdo_ODExtensions SDO)[k := x]\<rparr>)"
    using assms(1) by (simp add: od_inv_def)
  show "od_map (SDO\<lparr>sdo_ODExtensions := (sdo_ODExtensions SDO)[k := x]\<rparr>) i =
        ((od_map SDO)(od_index (sdo_OD SDO ! k) \<mapsto> (sdo_OD SDO ! k, x))) i"
  proof (cases "i \<in> od_index ` set (sdo_OD SDO)")
    case True
    then obtain j where j: "j < length (sdo_OD SDO)" "i = od_index (sdo_OD SDO ! j)"
      by (auto simp: in_set_conv_nth)
    have "od_index (sdo_OD SDO ! j) = od_index (sdo_OD SDO ! k) \<longleftrightarrow> j = k"
      using sorted_entry_inj [of "sdo_OD SDO" j k] assms j by (auto simp: od_inv_def)
    then show ?thesis
      using od_map_nth [OF assms(1) j(1)] od_map_nth [OF inv', of j] j assms
      by (auto simp: od_inv_def)
  next
    case False
    then show ?thesis
      using od_map_missing [OF assms(1) False] od_map_missing [OF inv', of i] assms(2) by auto
  qed
qed

lemma CO_OD_configure_spec:
  assumes "od_inv SDO"
    and "\<And>bs. flags = Some bs \<Longrightarrow> unat flagsSize < length bs"
  shows "\<exists>SDO'. CO_OD_configure SDO index f object flags flagsSize = Some SDO' \<and> od_inv SDO' \<and>
           od_map SDO' =
             (case od_map SDO index of
                None \<Rightarrow> od_map SDO
              | Some (entry, ext) \<Rightarrow> (od_map SDO)(index \<mapsto> (entry,
                  \<lparr>ext_pODFunc = f, ext_object = object,
                   ext_flags = (if flagsSize \<noteq> 0 \<and> flagsSize = od_maxSubIndex entry
                                then map_option (clear_flags (od_maxSubIndex entry)) flags else None)\<rparr>)))"
proof (cases "index \<in> od_index ` set (sdo_OD SDO)")
  case True
  then obtain k where k: "k < length (sdo_OD SDO)" "index = od_index (sdo_OD SDO ! k)"
    by (auto simp: in_set_conv_nth)
  have "k < 0xFFFF" using k od_inv_length [OF assms(1)] by simp
  define fl where "fl = (if flagsSize \<noteq> 0 \<and> flagsSize = od_maxSubIndex (sdo_OD SDO ! k)
                          then map_option (clear_flags (od_maxSubIndex (sdo_OD SDO ! k))) flags else None)"
  define SDO' where "SDO' = SDO\<lparr>sdo_ODExtensions := (sdo_ODExtensions SDO)
                [k := \<lparr>ext_pODFunc = f, ext_object = object, ext_flags = fl\<rparr>]\<rparr>"
  have run: "CO_OD_configure SDO index f object flags flagsSize = Some SDO'"
    using assms(2) k CO_OD_find_nth [OF assms(1) k(1)] \<open>k < 0xFFFF\<close>
    by (auto simp: CO_OD_configure_def Let_def nth_opt_def SDO'_def fl_def split: option.splits)
  then show ?thesis
    using od_inv_configure [OF assms(1) run] od_map_nth [OF assms(1) k(1)] od_map_update [OF assms(1) k(1)] k
    by (simp add: fl_def SDO'_def)
next
  case False
  then show ?thesis
    using CO_OD_find_missing [OF assms(1) False] od_map_missing [OF assms(1) False] assms(1)
    by (simp add: CO_OD_configure_def)
qed

lemma od_configure_func:
  assumes "od_inv SDO"
  shows "\<exists>SDO'. CO_OD_configure SDO index f object None 0 = Some SDO' \<and> od_inv SDO' \<and>
    (\<forall>e x. od_map SDO' index = Some (e, x) \<longrightarrow> ext_pODFunc x = f) \<and>
    (\<forall>i. i \<noteq> index \<longrightarrow> od_map SDO' i = od_map SDO i)"
  using CO_OD_configure_spec [OF assms, of None 0 index f object] by (auto split: option.splits)

text \<open>
  \<^verbatim>\<open>CO_OD_configure\<close> with a flags array of at least \<^verbatim>\<open>maxSubIndex + 1\<close> bytes, or none, keeps the
  dictionary well formed and changes the extension of the named object only: every other object keeps
  its entry and its extension, and the named one, if present, gets the given function and object. A
  missing object leaves everything as it was.
\<close>

theorem CO_OD_configure_updates_one:
  assumes "od_inv SDO"
    and "\<And>bs. flags = Some bs \<Longrightarrow> unat flagsSize < length bs"
  shows "\<exists>SDO'. CO_OD_configure SDO index f object flags flagsSize = Some SDO' \<and> od_inv SDO' \<and>
           od_map SDO' =
             (case od_map SDO index of
                None \<Rightarrow> od_map SDO
              | Some (entry, ext) \<Rightarrow> (od_map SDO)(index \<mapsto> (entry,
                  \<lparr>ext_pODFunc = f, ext_object = object,
                   ext_flags = (if flagsSize \<noteq> 0 \<and> flagsSize = od_maxSubIndex entry
                                then map_option (clear_flags (od_maxSubIndex entry)) flags else None)\<rparr>)))"
  using CO_OD_configure_spec [OF assms] .

theorem CO_OD_configure_updates_one_witness:
  "\<exists>SDO'. CO_OD_configure example_OD 0x1003 (Some ODF_1003) (Some 1) None 0 = Some SDO' \<and>
     od_map SDO' 0x1003 = Some (example_entry 0x1003 8 6,
        \<lparr>ext_pODFunc = Some ODF_1003, ext_object = Some 1, ext_flags = None\<rparr>) \<and>
     od_map SDO' 0x1016 = od_map example_OD 0x1016"
proof -
  have "od_map example_OD 0x1003 = Some (example_entry 0x1003 8 6, no_ext)"
    by (simp add: od_map_def example_OD_def example_entry_def)
  then show ?thesis
    using CO_OD_configure_updates_one [OF example_OD_inv, of None 0 "0x1003" "Some ODF_1003" "Some 1"] by auto
qed

text \<open>
  The header asks for a flags array whose size equals the number of sub-objects. The clearing loop runs
  over \<^verbatim>\<open>maxSubIndex + 1\<close> bytes, one more than the size the guard compares with: an array of exactly
  \<^verbatim>\<open>flagsSize\<close> bytes is overrun by one.
\<close>

lemma CO_OD_configure_overruns:
  "CO_OD_configure example_OD 0x1003 f object (Some (replicate 8 0)) 8 = None"
  using CO_OD_find_nth [OF example_OD_inv, of 1]
  by (simp add: CO_OD_configure_def example_OD_def example_entry_def nth_opt_def)

subsection \<open>Sub-objects\<close>

text \<open>
  For every entry of a well-formed dictionary and every sub-index up to its \<^verbatim>\<open>maxSubIndex\<close>, the length,
  the attribute and the data pointer are defined (no read outside the tables), and sub-index 0 of an
  array is a readable byte, the number of elements, that cannot be written or mapped into a receive
  PDO; object \<^verbatim>\<open>0x1003\<close> alone is writable there.
\<close>

theorem CO_OD_access_total:
  assumes "od_inv SDO" "k < length (sdo_OD SDO)" "k \<noteq> 0xFFFF"
    and "subIndex \<le> od_maxSubIndex (sdo_OD SDO ! k)"
  shows "\<exists>len attr ptr. CO_OD_getLength SDO k subIndex = Some len \<and>
           CO_OD_getAttribute SDO k subIndex = Some attr \<and>
           CO_OD_getDataPointer SDO k subIndex = Some ptr \<and>
           (subIndex = 0 \<and> od_maxSubIndex (sdo_OD SDO ! k) \<noteq> 0 \<and> od_attribute (sdo_OD SDO ! k) \<noteq> 0 \<longrightarrow>
              len = 1 \<and> ptr = OMaxSubIndex k \<and>
              (if od_index (sdo_OD SDO ! k) = 0x1003 then attr AND CO_ODA_WRITEABLE \<noteq> 0
               else attr AND CO_ODA_WRITEABLE = 0 \<and> attr AND CO_ODA_RPDO_MAPABLE = 0 \<and>
                    attr AND CO_ODA_READABLE \<noteq> 0))"
proof (cases "od_maxSubIndex (sdo_OD SDO ! k) \<noteq> 0 \<and> od_attribute (sdo_OD SDO ! k) = 0")
  case True
  have "od_entry_ok (sdo_OD SDO ! k)" using assms by (auto simp: od_inv_def list_all_length)
  then obtain ms where "od_pData (sdo_OD SDO ! k) = PRecord ms" "length ms = unat (od_maxSubIndex (sdo_OD SDO ! k)) + 1"
    using True by (auto simp: od_entry_ok_def split: od_pdata.splits)
  moreover have "unat subIndex < unat (od_maxSubIndex (sdo_OD SDO ! k)) + 1"
    using assms(4) by (simp add: word_le_nat_alt)
  ultimately obtain m where m: "od_member (sdo_OD SDO ! k) subIndex = Some m"
    by (simp add: od_member_def nth_opt_def)
  show ?thesis
    using assms True m
    by (simp add: CO_OD_getLength_def CO_OD_getAttribute_def CO_OD_getDataPointer_def nth_opt_def not_less)
next
  case False
  then show ?thesis
    using assms
    by (auto simp: CO_OD_getLength_def CO_OD_getAttribute_def CO_OD_getDataPointer_def nth_opt_def Let_def not_less
        CO_ODA_WRITEABLE_def CO_ODA_READABLE_def CO_ODA_RPDO_MAPABLE_def
        bit.conj_disj_distrib2 and.assoc split: if_splits)
qed

theorem CO_OD_access_total_witness:
  "CO_OD_getLength example_OD 3 0 = Some 1 \<and> CO_OD_getDataPointer example_OD 3 0 = Some (OMaxSubIndex 3)"
  using CO_OD_access_total [OF example_OD_inv, of 3 0]
  by (auto simp: example_OD_def example_entry_def)

end
