(* ===== verification/Emergency.thy ===== *)
theory Emergency
  imports Can_Driver OD_Access
begin

section \<open>The emergency producer and consumer (\<^verbatim>\<open>301/CO_Emergency.c\<close>)\<close>

text \<open>
  The object \<^verbatim>\<open>CO_EMpr_t\<close> turns waiting error messages into CAN frames: \<^verbatim>\<open>CO_EM_process\<close> translates the
  error status of the driver into error reports, computes the error register, and sends at most one
  waiting message per call, no sooner than the inhibit time after the previous one, recording it in the
  pre-defined error field. \<^verbatim>\<open>CO_EM_receive\<close> is the consumer side; \<^verbatim>\<open>CO_ODF_1003\<close> and \<^verbatim>\<open>CO_ODF_1014\<close> serve the
  objects \<^verbatim>\<open>0x1003\<close> and \<^verbatim>\<open>0x1014\<close>. The emergency object and the CAN module are the two parts of \<^verbatim>\<open>co_bus\<close>.
  \<^verbatim>\<open>errorRegister\<close> and \<^verbatim>\<open>preDefErr\<close> are the variables of the Object Dictionary the pointers refer to. The
  result \<^verbatim>\<open>None\<close> of a step is an access outside an array or through \<^verbatim>\<open>NULL\<close>.
\<close>

record CO_EMpr_t =
  pr_errorRegister :: u8
  pr_preDefErr :: "u32 list option"
  pr_preDefErrSize :: u8
  pr_preDefErrNoOfErrors :: u8
  pr_inhibitEmTimer :: u32
  pr_CANerrorStatusOld :: u16
  pr_CANtxBuff :: "nat option"

definition CO_ERR_REG_GENERIC_ERR :: u8 where "CO_ERR_REG_GENERIC_ERR = 0x01"
definition CO_ERR_REG_COMM_ERR :: u8 where "CO_ERR_REG_COMM_ERR = 0x10"
definition CO_ERR_REG_DEV_PROFILE :: u8 where "CO_ERR_REG_DEV_PROFILE = 0x20"
definition CO_ERR_REG_MANUFACTURER :: u8 where "CO_ERR_REG_MANUFACTURER = 0x80"

lemmas CO_ERR_REG_defs = CO_ERR_REG_GENERIC_ERR_def CO_ERR_REG_COMM_ERR_def CO_ERR_REG_DEV_PROFILE_def
  CO_ERR_REG_MANUFACTURER_def

lemmas CO_CAN_ERR_defs = CO_CAN_ERRTX_WARNING_def CO_CAN_ERRTX_PASSIVE_def CO_CAN_ERRTX_BUS_OFF_def
  CO_CAN_ERRTX_OVERFLOW_def CO_CAN_ERRTX_PDO_LATE_def CO_CAN_ERRRX_WARNING_def CO_CAN_ERRRX_PASSIVE_def
  CO_CAN_ERRRX_OVERFLOW_def

abbreviation (input) "CO_EM_CAN_BUS_WARNING \<equiv> (0x01 :: u8)"
abbreviation (input) "CO_EM_CAN_RX_BUS_PASSIVE \<equiv> (0x06 :: u8)"
abbreviation (input) "CO_EM_CAN_TX_BUS_PASSIVE \<equiv> (0x07 :: u8)"
abbreviation (input) "CO_EM_CAN_TX_BUS_OFF \<equiv> (0x12 :: u8)"
abbreviation (input) "CO_EM_CAN_RXB_OVERFLOW \<equiv> (0x13 :: u8)"
abbreviation (input) "CO_EM_CAN_TX_OVERFLOW \<equiv> (0x14 :: u8)"
abbreviation (input) "CO_EM_EMERGENCY_BUFFER_FULL \<equiv> (0x20 :: u8)"
abbreviation (input) "CO_EM_WRONG_ERROR_REPORT \<equiv> (0x28 :: u8)"
abbreviation (input) "CO_EMC_NO_ERROR \<equiv> (0x0000 :: u16)"
abbreviation (input) "CO_EMC_GENERIC \<equiv> (0x1000 :: u16)"
abbreviation (input) "CO_EMC_CAN_OVERRUN \<equiv> (0x8110 :: u16)"
abbreviation (input) "CO_EMC_CAN_PASSIVE \<equiv> (0x8120 :: u16)"
abbreviation (input) "CO_EMC_BUS_OFF_RECOVERED \<equiv> (0x8140 :: u16)"

subsection \<open>Consumer and Object Dictionary functions\<close>

definition CO_EM_receive :: "can_env \<Rightarrow> CO_EM_t option \<Rightarrow> CO_CANrxMsg_t \<Rightarrow> CO_EM_t option" where
  "CO_EM_receive env object msg =
     (case object of
        None \<Rightarrow> None
      | Some em \<Rightarrow>
          if em_pFunctSignalRx em then
            let ident = CO_CANrxMsg_readIdent env msg; data = rxm_data msg
            in if ident \<noteq> 0x80 then
                 Some (em\<lparr>em_rx_log := em_rx_log em @
                   [(ident, word_of_nat (le_value (take 2 data)), data ! 2, data ! 3,
                     word_of_nat (le_value (take 4 (drop 4 data))))]\<rparr>)
               else Some em
          else Some em)"

definition CO_ODF_1003 :: "CO_EMpr_t \<Rightarrow> CO_ODF_arg_t \<Rightarrow> CO_SDO_abortCode_t \<times> CO_EMpr_t \<times> CO_ODF_arg_t" where
  "CO_ODF_1003 emPr arg =
     (let val = arg_data arg ! 0; noOfErrors = pr_preDefErrNoOfErrors emPr
      in if arg_reading arg then
           (if arg_subIndex arg = 0 then (CO_SDO_AB_NONE, emPr, arg\<lparr>arg_data := (arg_data arg)[0 := noOfErrors]\<rparr>)
            else if noOfErrors < arg_subIndex arg then (CO_SDO_AB_NO_DATA, emPr, arg)
            else (CO_SDO_AB_NONE, emPr, arg))
         else
           (if arg_subIndex arg = 0 then
              (if val = 0 then (CO_SDO_AB_NONE, emPr\<lparr>pr_preDefErrNoOfErrors := 0\<rparr>, arg)
               else (CO_SDO_AB_INVALID_VALUE, emPr, arg))
            else (CO_SDO_AB_READONLY, emPr, arg)))"

definition CO_ODF_1014 :: "u8 \<Rightarrow> CO_ODF_arg_t \<Rightarrow> CO_SDO_abortCode_t \<times> CO_ODF_arg_t" where
  "CO_ODF_1014 nodeId arg =
     (let val = CO_getUint32 (arg_data arg)
      in (CO_SDO_AB_NONE,
          if arg_reading arg then arg\<lparr>arg_data := CO_setUint32 (arg_data arg) (val + ucast nodeId)\<rparr> else arg))"

subsection \<open>Initialisation\<close>

text \<open>
  The objects that are registered with other components are numbered: \<^verbatim>\<open>obj_emPr\<close> and \<^verbatim>\<open>obj_nodeId\<close> in the
  Object Dictionary, \<^verbatim>\<open>obj_em\<close> with the receive buffer. The tests of \<^verbatim>\<open>em\<close>, \<^verbatim>\<open>emPr\<close>, \<^verbatim>\<open>SDO\<close>, \<^verbatim>\<open>errorRegister\<close>
  and the two CAN devices for \<^verbatim>\<open>NULL\<close> have no counterpart: these objects are arguments of the model.
\<close>

abbreviation (input) "obj_emPr \<equiv> (1 :: nat)"
abbreviation (input) "obj_nodeId \<equiv> (2 :: nat)"
abbreviation (input) "obj_em \<equiv> (3 :: nat)"

definition CO_EM_init ::
    "can_env \<Rightarrow> CO_EMpr_t \<Rightarrow> co_bus \<Rightarrow> CO_SDO_OD \<Rightarrow> u8 list option \<Rightarrow> u8 \<Rightarrow> u32 list option \<Rightarrow> u8 \<Rightarrow> u16 \<Rightarrow> u16 \<Rightarrow> u16 \<Rightarrow>
     (CO_ReturnError_t \<times> CO_EMpr_t \<times> co_bus \<times> CO_SDO_OD) option" where
  "CO_EM_init env emPr bus SDO errorStatusBits errorStatusBitsSize preDefErr preDefErrSize rxIdx txIdx CANidTxEM =
     (case errorStatusBits of
        None \<Rightarrow> Some (CO_ERROR_ILLEGAL_ARGUMENT, emPr, bus, SDO)
      | Some bits \<Rightarrow>
          if errorStatusBitsSize < 6 \<or> preDefErr = None then Some (CO_ERROR_ILLEGAL_ARGUMENT, emPr, bus, SDO)
          else if length bits < unat errorStatusBitsSize then None
          else do {
            let em1 = (bus_em bus)\<lparr>em_errorStatusBits :=
                           replicate (unat errorStatusBitsSize) 0 @ drop (unat errorStatusBitsSize) bits,
                        em_errorStatusBitsSize := errorStatusBitsSize, em_bufWritePtr := 0, em_bufReadPtr := 0,
                        em_bufFull := 0, em_wrongErrorReport := 0, em_pFunctSignalPre := False,
                        em_pFunctSignalRx := False\<rparr>;
            let emPr1 = emPr\<lparr>pr_preDefErr := preDefErr, pr_preDefErrSize := preDefErrSize,
                        pr_preDefErrNoOfErrors := 0, pr_inhibitEmTimer := 0, pr_CANerrorStatusOld := 0\<rparr>;
            SDO1 \<leftarrow> CO_OD_configure SDO 0x1003 (Some ODF_1003) (Some obj_emPr) None 0;
            SDO2 \<leftarrow> CO_OD_configure SDO1 0x1014 (Some ODF_1014) (Some obj_nodeId) None 0;
            let (ret, bus1) = CO_CANrxBufferInit env (bus\<lparr>bus_em := em1\<rparr>) rxIdx 0x80 0x780 False
                                (Some obj_em) (Some CB_EM_receive);
            let (txb, bus2) = CO_CANtxBufferInit env bus1 txIdx CANidTxEM False 8 False;
            Some (if txb = None then CO_ERROR_ILLEGAL_ARGUMENT else ret, emPr1\<lparr>pr_CANtxBuff := txb\<rparr>, bus2, SDO2)
          })"

definition CO_EM_initCallbackPre :: "CO_EM_t option \<Rightarrow> bool \<Rightarrow> CO_EM_t option" where
  "CO_EM_initCallbackPre em pFunctSignal = map_option (\<lambda>e. e\<lparr>em_pFunctSignalPre := pFunctSignal\<rparr>) em"

definition CO_EM_initCallbackRx :: "CO_EM_t option \<Rightarrow> bool \<Rightarrow> CO_EM_t option" where
  "CO_EM_initCallbackRx em pFunctSignalRx = map_option (\<lambda>e. e\<lparr>em_pFunctSignalRx := pFunctSignalRx\<rparr>) em"

subsection \<open>Processing\<close>

definition em_driver_bit :: "u16 \<Rightarrow> u16 \<Rightarrow> u16 \<Rightarrow> u8 \<Rightarrow> u16 \<Rightarrow> CO_EM_t \<Rightarrow> CO_EM_t" where
  \<comment> \<open>one of the seven tests of \<^verbatim>\<open>CANerrStChanged\<close>\<close>
  "em_driver_bit CANerrSt CANerrStChanged bits errorBit errorCode em =
     (if CANerrStChanged AND bits \<noteq> 0 then
        (if CANerrSt AND bits \<noteq> 0 then em_errorReport em errorBit errorCode 0 else em_errorReset em errorBit 0)
      else em)"

definition em_driver_errors :: "u16 \<Rightarrow> u16 \<Rightarrow> CO_EM_t \<Rightarrow> CO_EM_t" where
  "em_driver_errors CANerrSt old em =
     (let ch = CANerrSt XOR old; t = em_driver_bit CANerrSt ch
      in t CO_CAN_ERRRX_OVERFLOW CO_EM_CAN_RXB_OVERFLOW CO_EMC_CAN_OVERRUN
        (t CO_CAN_ERRRX_PASSIVE CO_EM_CAN_RX_BUS_PASSIVE CO_EMC_CAN_PASSIVE
        (t CO_CAN_ERRTX_PDO_LATE CO_EM_TPDO_OUTSIDE_WINDOW CO_EMC_COMMUNICATION
        (t CO_CAN_ERRTX_OVERFLOW CO_EM_CAN_TX_OVERFLOW CO_EMC_CAN_OVERRUN
        (t CO_CAN_ERRTX_BUS_OFF CO_EM_CAN_TX_BUS_OFF CO_EMC_BUS_OFF_RECOVERED
        (t CO_CAN_ERRTX_PASSIVE CO_EM_CAN_TX_BUS_PASSIVE CO_EMC_CAN_PASSIVE
        (t (CO_CAN_ERRTX_WARNING OR CO_CAN_ERRRX_WARNING) CO_EM_CAN_BUS_WARNING CO_EMC_NO_ERROR em)))))))"

definition em_other_errors :: "CO_EM_t \<Rightarrow> CO_EM_t" where
  "em_other_errors em =
     (if em_wrongErrorReport em \<noteq> 0
      then (em_errorReport em CO_EM_WRONG_ERROR_REPORT CO_EMC_SOFTWARE_INTERNAL (ucast (em_wrongErrorReport em)))
             \<lparr>em_wrongErrorReport := 0\<rparr>
      else em)"

definition em_error_register :: "CO_EM_t \<Rightarrow> u8 \<Rightarrow> u8" where
  "em_error_register em old =
     (let r0 = 0;
          r1 = (if em_errorStatusBits em ! 5 \<noteq> 0 then r0 OR CO_ERR_REG_GENERIC_ERR else r0);
          r2 = (if em_errorStatusBits em ! 2 \<noteq> 0 \<or> em_errorStatusBits em ! 3 \<noteq> 0 then r1 OR CO_ERR_REG_COMM_ERR else r1);
          r3 = (if \<exists>i \<in> {6..<unat (em_errorStatusBitsSize em)}. em_errorStatusBits em ! i \<noteq> 0
                then r2 OR CO_ERR_REG_MANUFACTURER else r2);
          errorMask = NOT (CO_ERR_REG_GENERIC_ERR OR CO_ERR_REG_COMM_ERR OR CO_ERR_REG_MANUFACTURER)
      in (old AND errorMask) OR r3)"

text \<open>The loop \<^verbatim>\<open>for(j=n-1; j>0; j--) preDefErr[j] = preDefErr[j-1]\<close> with \<^verbatim>\<open>uint8_t j\<close>.\<close>

fun predef_shift :: "nat \<Rightarrow> u32 list \<Rightarrow> u32 list option" where
  "predef_shift 0 xs = Some xs"
| "predef_shift (Suc j) xs = (if Suc j < length xs then predef_shift j (xs[Suc j := xs ! j]) else None)"

definition predef_record :: "CO_EMpr_t \<Rightarrow> u32 \<Rightarrow> CO_EMpr_t option" where
  "predef_record emPr preDEF =
     (case pr_preDefErr emPr of
        None \<Rightarrow> Some emPr
      | Some xs \<Rightarrow> do {
          let n = (if pr_preDefErrNoOfErrors emPr < pr_preDefErrSize emPr
                   then pr_preDefErrNoOfErrors emPr + 1 else pr_preDefErrNoOfErrors emPr);
          ys \<leftarrow> predef_shift (unat (n - 1)) xs;
          if ys = [] then None
          else Some (emPr\<lparr>pr_preDefErrNoOfErrors := n, pr_preDefErr := Some (ys[0 := preDEF])\<rparr>)
        })"

definition em_buffer_full_error :: "CO_EM_t \<Rightarrow> CO_EM_t" where
  \<comment> \<open>\<^verbatim>\<open>verify message buffer overflow, then clear full flag\<close>\<close>
  "em_buffer_full_error em =
     (if em_bufFull em = 2
      then em_errorReport (em\<lparr>em_bufFull := 0\<rparr>) CO_EM_EMERGENCY_BUFFER_FULL CO_EMC_GENERIC 0
      else em_errorReset (em\<lparr>em_bufFull := 0\<rparr>) CO_EM_EMERGENCY_BUFFER_FULL 0)"

definition em_send :: "can_env \<Rightarrow> CO_EMpr_t \<Rightarrow> co_bus \<Rightarrow> nat \<Rightarrow> (CO_EMpr_t \<times> co_bus) option" where
  \<comment> \<open>the branch of \<^verbatim>\<open>CO_EM_process\<close> where the inhibit time has elapsed\<close>
  "em_send env emPr bus txb = do {
     let em = bus_em bus;
     let rp = em_bufReadPtr em;
     let em1 = em_stamp (pr_errorRegister emPr) em;
     let m = em_decode (em_read_slot em1);
     let em2 = (if em_pFunctSignalRx em1
                then em1\<lparr>em_rx_log := em_rx_log em1 @
                       [(0, msg_errorCode m, msg_errorRegister m, msg_errorBit m, msg_infoCode m)]\<rparr>
                else em1);
     let preDEF = word_of_nat (le_value (take 4 (em_read_slot em1)));
     let em3 = em_buffer_full_error (em2\<lparr>em_bufReadPtr := em_ring_next rp\<rparr>);
     emPr1 \<leftarrow> predef_record (emPr\<lparr>pr_inhibitEmTimer := 0\<rparr>) preDEF;
     let bus1 = bus_upd_buf (bus\<lparr>bus_em := em3\<rparr>) txb (\<lambda>b. b\<lparr>tx_data := em_read_slot em1\<rparr>);
     Some (emPr1, snd (CO_CANsend env bus1 (Some txb)))
   }"

definition lower_timer :: "u32 option \<Rightarrow> u32 \<Rightarrow> u32 option" where
  \<comment> \<open>\<^verbatim>\<open>if (timerNext_us != NULL && *timerNext_us > diff) *timerNext_us = diff\<close>\<close>
  "lower_timer timerNext_us diff = map_option (\<lambda>t. if diff < t then diff else t) timerNext_us"

definition CO_EM_process ::
    "can_env \<Rightarrow> CO_EMpr_t \<Rightarrow> co_bus \<Rightarrow> bool \<Rightarrow> u32 \<Rightarrow> u16 \<Rightarrow> u32 option \<Rightarrow> (CO_EMpr_t \<times> co_bus \<times> u32 option) option" where
  "CO_EM_process env emPr bus NMTisPreOrOperational timeDifference_us emInhTime_100us timerNext_us =
     (case pr_CANtxBuff emPr of
        None \<Rightarrow> None
      | Some txb \<Rightarrow>
          let emInhTime_us = ucast emInhTime_100us * 100;
              CANerrSt = can_CANerrorStatus (bus_can bus);
              em1 = (if CANerrSt \<noteq> pr_CANerrorStatusOld emPr
                     then em_driver_errors CANerrSt (pr_CANerrorStatusOld emPr) (bus_em bus) else bus_em bus);
              em2 = em_other_errors em1;
              emPr1 = emPr\<lparr>pr_CANerrorStatusOld := CANerrSt,
                       pr_errorRegister := em_error_register em2 (pr_errorRegister emPr),
                       pr_inhibitEmTimer := (if pr_inhibitEmTimer emPr < emInhTime_us
                          then pr_inhibitEmTimer emPr + timeDifference_us else pr_inhibitEmTimer emPr)\<rparr>;
              bus1 = bus\<lparr>bus_em := em2\<rparr>
          in if NMTisPreOrOperational \<and> \<not> tx_bufferFull (bus_buf bus1 txb) \<and> em_has_message em2 then
               (if emInhTime_us \<le> pr_inhibitEmTimer emPr1
                then map_option (\<lambda>(p, b). (p, b, timerNext_us)) (em_send env emPr1 bus1 txb)
                else Some (emPr1, bus1, lower_timer timerNext_us (emInhTime_us - pr_inhibitEmTimer emPr1)))
             else Some (emPr1, bus1, timerNext_us))"


subsection \<open>The error status of the driver\<close>

lemma em_inv_driver_bit: "em_inv em \<Longrightarrow> em_inv (em_driver_bit st ch bits b c em)"
  by (simp add: em_driver_bit_def em_inv_errorReport em_inv_errorReset)

lemma em_inv_driver_errors: "em_inv em \<Longrightarrow> em_inv (em_driver_errors st old em)"
  by (simp add: em_driver_errors_def Let_def em_inv_driver_bit)

lemma em_supported_fixed: "em_inv em \<Longrightarrow> b \<noteq> 0 \<Longrightarrow> unat b < 48 \<Longrightarrow> em_supported em b"
  using err_bit_split [of b] by (auto simp: em_inv_def em_supported_def)

lemma em_driver_bit_isError:
  assumes "em_inv em" "b \<noteq> 0" "unat b < 48"
  shows "em_isError (em_driver_bit st ch bits b c em) b' \<longleftrightarrow>
    (if b' = b \<and> ch AND bits \<noteq> 0 then st AND bits \<noteq> 0 else em_isError em b')"
  using emf.active_report [OF assms(1) em_supported_fixed [OF assms]]
    emf.active_reset [OF assms(1) em_supported_fixed [OF assms]]
  by (auto simp: em_driver_bit_def)

lemma em_driver_bit_other:
  "em_inv em \<Longrightarrow> b \<noteq> 0 \<Longrightarrow> unat b < 48 \<Longrightarrow> b' \<noteq> b \<Longrightarrow>
     em_isError (em_driver_bit st ch bits b c em) b' = em_isError em b'"
  by (simp add: em_driver_bit_isError)

lemma em_driver_bit_sync:
  assumes "em_inv em" "b \<noteq> 0" "unat b < 48" "em_isError em b \<longleftrightarrow> old AND bits \<noteq> 0"
  shows "em_isError (em_driver_bit st (st XOR old) bits b c em) b \<longleftrightarrow> st AND bits \<noteq> 0"
proof -
  have "(st XOR old) AND bits = (st AND bits) XOR (old AND bits)"
    by (simp add: bit.conj_xor_distrib2)
  then show ?thesis using em_driver_bit_isError [OF assms(1-3)] assms(4) by auto
qed

text \<open>Each error bit of the driver is active exactly when the status word has one of its bits.\<close>

definition driver_sync :: "u16 \<Rightarrow> CO_EM_t \<Rightarrow> bool" where
  "driver_sync st em \<longleftrightarrow>
     (em_isError em CO_EM_CAN_BUS_WARNING \<longleftrightarrow> st AND (CO_CAN_ERRTX_WARNING OR CO_CAN_ERRRX_WARNING) \<noteq> 0) \<and>
     (em_isError em CO_EM_CAN_TX_BUS_PASSIVE \<longleftrightarrow> st AND CO_CAN_ERRTX_PASSIVE \<noteq> 0) \<and>
     (em_isError em CO_EM_CAN_TX_BUS_OFF \<longleftrightarrow> st AND CO_CAN_ERRTX_BUS_OFF \<noteq> 0) \<and>
     (em_isError em CO_EM_CAN_TX_OVERFLOW \<longleftrightarrow> st AND CO_CAN_ERRTX_OVERFLOW \<noteq> 0) \<and>
     (em_isError em CO_EM_TPDO_OUTSIDE_WINDOW \<longleftrightarrow> st AND CO_CAN_ERRTX_PDO_LATE \<noteq> 0) \<and>
     (em_isError em CO_EM_CAN_RX_BUS_PASSIVE \<longleftrightarrow> st AND CO_CAN_ERRRX_PASSIVE \<noteq> 0) \<and>
     (em_isError em CO_EM_CAN_RXB_OVERFLOW \<longleftrightarrow> st AND CO_CAN_ERRRX_OVERFLOW \<noteq> 0)"

definition driver_bits :: "u8 set" where "driver_bits = {0x01, 0x06, 0x07, 0x12, 0x13, 0x14, 0x15}"

lemma driver_sync_cong:
  "(\<And>b. b \<in> driver_bits \<Longrightarrow> em_isError em' b = em_isError em b) \<Longrightarrow> driver_sync st em' = driver_sync st em"
  by (simp add: driver_sync_def driver_bits_def)

lemma em_driver_errors_sync:
  assumes "em_inv em" "driver_sync old em"
  shows "driver_sync st (em_driver_errors st old em)"
  using assms(2) unfolding driver_sync_def em_driver_errors_def Let_def
  by (simp add: em_driver_bit_other em_driver_bit_sync em_inv_driver_bit assms(1))

lemma em_driver_errors_other:
  assumes "em_inv em" "b \<notin> driver_bits"
  shows "em_isError (em_driver_errors st old em) b = em_isError em b"
  using assms by (simp add: em_driver_errors_def Let_def em_driver_bit_other em_inv_driver_bit driver_bits_def)


lemma em_inv_log [simp]:
  "em_inv (em\<lparr>em_rx_log := l\<rparr>) \<longleftrightarrow> em_inv em"
  "em_pending (em\<lparr>em_rx_log := l\<rparr>) = em_pending em"
  "em_isError (em\<lparr>em_rx_log := l\<rparr>) b = em_isError em b"
  by (simp_all add: em_inv_def em_pending_def em_count_def em_slots_def em_isError_def)

lemma em_isError_fields [simp]:
  "em_isError (em\<lparr>em_wrongErrorReport := w\<rparr>) b = em_isError em b"
  "em_isError (em_stamp x em) b = em_isError em b"
  "em_isError (em_advance em) b = em_isError em b"
  by (simp_all add: em_isError_def em_stamp_def em_advance_def)

lemma em_other_errors_inv [simp]: "em_inv em \<Longrightarrow> em_inv (em_other_errors em)"
  by (simp add: em_other_errors_def em_inv_errorReport)

lemma em_other_errors_isError:
  "em_inv em \<Longrightarrow> em_isError (em_other_errors em) b \<longleftrightarrow>
     em_isError em b \<or> b = CO_EM_WRONG_ERROR_REPORT \<and> em_wrongErrorReport em \<noteq> 0"
  by (auto simp: em_other_errors_def emf.active_report em_supported_fixed)

lemma driver_sync_other_errors: "em_inv em \<Longrightarrow> driver_sync st (em_other_errors em) = driver_sync st em"
  by (simp add: driver_sync_def em_other_errors_isError)

lemma driver_sync_report:
  "em_inv em \<Longrightarrow> em_supported em b \<Longrightarrow> b \<notin> driver_bits \<Longrightarrow> driver_sync st (em_errorReport em b c i) = driver_sync st em"
  by (rule driver_sync_cong) (auto simp: emf.active_report)

lemma driver_sync_reset:
  "em_inv em \<Longrightarrow> em_supported em b \<Longrightarrow> b \<notin> driver_bits \<Longrightarrow> driver_sync st (em_errorReset em b i) = driver_sync st em"
  by (rule driver_sync_cong) (auto simp: emf.active_reset)

lemma em_buffer_full_error_eq:
  "em_buffer_full_error (em\<lparr>em_bufReadPtr := em_ring_next (em_bufReadPtr em)\<rparr>) =
     (if em_bufFull em = 2 then em_errorReport (em_advance em) CO_EM_EMERGENCY_BUFFER_FULL CO_EMC_GENERIC 0
      else em_errorReset (em_advance em) CO_EM_EMERGENCY_BUFFER_FULL 0)"
  by (simp add: em_buffer_full_error_def em_advance_def)

lemma predef_shift_correct:
  "j < length xs \<Longrightarrow> predef_shift j xs = Some (hd xs # take j xs @ drop (Suc j) xs)"
proof (induction j arbitrary: xs)
  case 0
  then show ?case by (cases xs) auto
next
  case (Suc j)
  then have j: "j < length (xs[Suc j := xs ! j])" by simp
  have "take (Suc j) xs @ drop (Suc (Suc j)) xs = take j xs @ xs ! j # drop (Suc (Suc j)) xs"
    using Suc.prems by (simp add: take_Suc_conv_app_nth)
  moreover have "drop (Suc j) (xs[Suc j := xs ! j]) = xs ! j # drop (Suc (Suc j)) xs"
    using Suc.prems by (simp add: drop_update_swap Cons_nth_drop_Suc [symmetric])
  moreover have "hd (xs[Suc j := xs ! j]) = hd xs" using Suc.prems by (cases xs) auto
  ultimately show ?case using Suc.prems Suc.IH [OF j] by simp
qed

definition predef_inv :: "CO_EMpr_t \<Rightarrow> bool" where
  "predef_inv emPr \<longleftrightarrow>
     (case pr_preDefErr emPr of
        None \<Rightarrow> True
      | Some xs \<Rightarrow> length xs = unat (pr_preDefErrSize emPr) \<and> 0 < pr_preDefErrSize emPr \<and>
          pr_preDefErrNoOfErrors emPr \<le> pr_preDefErrSize emPr)"

definition predef_history :: "CO_EMpr_t \<Rightarrow> u32 list" where
  "predef_history emPr = (case pr_preDefErr emPr of None \<Rightarrow> [] | Some xs \<Rightarrow> take (unat (pr_preDefErrNoOfErrors emPr)) xs)"

lemma predef_count:
  fixes n s :: u8
  assumes "0 < s" "n \<le> s"
  shows "unat (if n < s then n + 1 else n) = min (Suc (unat n)) (unat s)"
    and "unat ((if n < s then n + 1 else n) - 1) = min (Suc (unat n)) (unat s) - 1"
proof -
  have 1: "unat (n + 1) = Suc (unat n)" if "n < s"
  proof -
    have "Suc (unat n) < 256" using that unat_u8_less [of s] unfolding word_less_nat_alt by linarith
    then show ?thesis by (simp add: unat_word_ariths)
  qed
  show A: "unat (if n < s then n + 1 else n) = min (Suc (unat n)) (unat s)"
    using assms 1 by (auto simp: word_less_nat_alt word_le_nat_alt min_def)
  have "(if n < s then n + 1 else n) \<noteq> 0"
    using A assms by (auto simp: word_less_nat_alt)
  then show "unat ((if n < s then n + 1 else n) - 1) = min (Suc (unat n)) (unat s) - 1"
    using A by (simp add: unat_minus_one)
qed


lemma predef_record_spec:
  assumes "predef_inv emPr" "pr_preDefErr emPr \<noteq> None"
  shows "\<exists>emPr'. predef_record emPr e = Some emPr' \<and> predef_inv emPr' \<and>
    predef_history emPr' = take (unat (pr_preDefErrSize emPr)) (e # predef_history emPr) \<and>
    pr_errorRegister emPr' = pr_errorRegister emPr \<and> pr_CANtxBuff emPr' = pr_CANtxBuff emPr \<and>
    pr_inhibitEmTimer emPr' = pr_inhibitEmTimer emPr"
proof -
  obtain xs where xs: "pr_preDefErr emPr = Some xs" using assms(2) by auto
  define n s where "n = pr_preDefErrNoOfErrors emPr" and "s = pr_preDefErrSize emPr"
  define k where "k = min (Suc (unat n)) (unat s)"
  have inv: "length xs = unat s" "0 < s" "n \<le> s"
    using assms(1) by (simp_all add: predef_inv_def xs n_def s_def)
  have pos: "0 < unat s" using inv(2) by (simp add: word_less_nat_alt)
  note cnt = predef_count [OF inv(2,3), folded k_def]
  have k: "0 < k" "k \<le> length xs" using inv pos by (simp_all add: k_def)
  define ys where "ys = hd xs # take (k - 1) xs @ drop k xs"
  have sh: "predef_shift (k - 1) xs = Some ys"
    using predef_shift_correct [of "k - 1" xs] k by (simp add: ys_def)
  have ys: "ys[0 := e] = e # take (k - 1) xs @ drop k xs" "length ys = length xs"
    using k by (auto simp: ys_def)
  define emPr' where "emPr' = emPr\<lparr>pr_preDefErrNoOfErrors := (if n < s then n + 1 else n), pr_preDefErr := Some (ys[0 := e])\<rparr>"
  have run: "predef_record emPr e = Some emPr'"
    unfolding predef_record_def xs option.case Let_def n_def [symmetric] s_def [symmetric] cnt(2) sh emPr'_def
    by (simp add: ys_def)
  have "predef_history emPr' = take k (e # take (k - 1) xs @ drop k xs)"
    using cnt(1) ys(1) by (simp add: predef_history_def emPr'_def)
  also have "\<dots> = e # take (k - 1) xs" using k by (cases k) auto
  also have "\<dots> = take (unat s) (e # take (unat n) xs)"
    using pos by (cases "unat s") (auto simp: k_def min_def)
  finally have "predef_history emPr' = take (unat s) (e # predef_history emPr)"
    by (simp add: predef_history_def xs n_def)
  moreover have "predef_inv emPr'"
    using cnt(1) inv ys(2) by (simp add: predef_inv_def emPr'_def k_def word_le_nat_alt flip: s_def)
  ultimately show ?thesis using run by (auto simp: emPr'_def s_def)
qed

text \<open>
  Recording an error in the pre-defined error field puts it in front of the history: the field keeps
  the most recent errors, newest first, and never more than it has room for.
\<close>

theorem predef_record_newest_first:
  assumes "predef_inv emPr" "pr_preDefErr emPr \<noteq> None"
  shows "\<exists>emPr'. predef_record emPr e = Some emPr' \<and> predef_inv emPr' \<and>
    predef_history emPr' = take (unat (pr_preDefErrSize emPr)) (e # predef_history emPr) \<and>
    pr_errorRegister emPr' = pr_errorRegister emPr \<and> pr_CANtxBuff emPr' = pr_CANtxBuff emPr"
  using predef_record_spec [OF assms] by blast

definition example_emPr :: CO_EMpr_t where
  "example_emPr = \<lparr>pr_errorRegister = 0, pr_preDefErr = Some [7, 8, 9], pr_preDefErrSize = 3,
     pr_preDefErrNoOfErrors = 3, pr_inhibitEmTimer = 0, pr_CANerrorStatusOld = 0, pr_CANtxBuff = Some 0\<rparr>"

lemma example_emPr_inv: "predef_inv example_emPr"
  by (simp add: predef_inv_def example_emPr_def)

theorem predef_record_newest_first_witness:
  "\<exists>emPr'. predef_record example_emPr 5 = Some emPr' \<and> predef_history emPr' = [5, 7, 8]"
  using predef_record_newest_first [OF example_emPr_inv, of 5]
  by (auto simp: predef_history_def example_emPr_def take_Cons')

text \<open>
  With an empty pre-defined error field (\<^verbatim>\<open>preDefErrSize\<close> 0) the loop counter wraps around to 255 and the
  shift writes far outside the array.
\<close>

lemma predef_record_empty_overruns:
  "pr_preDefErr emPr = Some [] \<Longrightarrow> pr_preDefErrSize emPr = 0 \<Longrightarrow> pr_preDefErrNoOfErrors emPr = 0 \<Longrightarrow>
     predef_record emPr e = None"
proof -
  have "predef_shift (unat (- 1 :: u8)) [] = None"
    using predef_shift.simps(2) [of 254 "[]"] by (simp add: unsigned_minus_1_eq_mask mask_eq_exp_minus_1)
  then show "pr_preDefErr emPr = Some [] \<Longrightarrow> pr_preDefErrSize emPr = 0 \<Longrightarrow> pr_preDefErrNoOfErrors emPr = 0 \<Longrightarrow>
      predef_record emPr e = None" by (simp add: predef_record_def)
qed


subsection \<open>One call of \<^verbatim>\<open>CO_EM_process\<close>\<close>

definition em_collect :: "CO_EMpr_t \<Rightarrow> co_bus \<Rightarrow> CO_EM_t" where
  \<comment> \<open>the emergency object when the error register is computed\<close>
  "em_collect emPr bus = em_other_errors (if can_CANerrorStatus (bus_can bus) \<noteq> pr_CANerrorStatusOld emPr
     then em_driver_errors (can_CANerrorStatus (bus_can bus)) (pr_CANerrorStatusOld emPr) (bus_em bus) else bus_em bus)"

definition em_timer :: "CO_EMpr_t \<Rightarrow> u32 \<Rightarrow> u16 \<Rightarrow> u32" where
  "em_timer emPr dt inh = (if pr_inhibitEmTimer emPr < ucast inh * 100 then pr_inhibitEmTimer emPr + dt else pr_inhibitEmTimer emPr)"

definition em_refresh :: "CO_EMpr_t \<Rightarrow> co_bus \<Rightarrow> u32 \<Rightarrow> u16 \<Rightarrow> CO_EMpr_t" where
  "em_refresh emPr bus dt inh = emPr\<lparr>pr_CANerrorStatusOld := can_CANerrorStatus (bus_can bus),
     pr_errorRegister := em_error_register (em_collect emPr bus) (pr_errorRegister emPr),
     pr_inhibitEmTimer := em_timer emPr dt inh\<rparr>"

lemma CO_EM_process_eq:
  assumes "pr_CANtxBuff emPr = Some txb"
  shows "CO_EM_process env emPr bus nmt dt inh tn =
    (if nmt \<and> \<not> tx_bufferFull (bus_buf bus txb) \<and> em_has_message (em_collect emPr bus) then
       (if ucast inh * 100 \<le> em_timer emPr dt inh
        then map_option (\<lambda>(p, b). (p, b, tn)) (em_send env (em_refresh emPr bus dt inh) (bus\<lparr>bus_em := em_collect emPr bus\<rparr>) txb)
        else Some (em_refresh emPr bus dt inh, bus\<lparr>bus_em := em_collect emPr bus\<rparr>,
                   lower_timer tn (ucast inh * 100 - em_timer emPr dt inh)))
     else Some (em_refresh emPr bus dt inh, bus\<lparr>bus_em := em_collect emPr bus\<rparr>, tn))"
  using assms
  by (simp add: CO_EM_process_def Let_def em_collect_def em_refresh_def em_timer_def bus_buf_def)

lemma em_collect_inv: "em_inv (bus_em bus) \<Longrightarrow> em_inv (em_collect emPr bus)"
  by (simp add: em_collect_def em_inv_driver_errors)

lemma em_collect_sync:
  assumes "em_inv (bus_em bus)" "driver_sync (pr_CANerrorStatusOld emPr) (bus_em bus)"
  shows "driver_sync (can_CANerrorStatus (bus_can bus)) (em_collect emPr bus)"
proof -
  let ?em = "if can_CANerrorStatus (bus_can bus) \<noteq> pr_CANerrorStatusOld emPr
     then em_driver_errors (can_CANerrorStatus (bus_can bus)) (pr_CANerrorStatusOld emPr) (bus_em bus) else bus_em bus"
  have "driver_sync (can_CANerrorStatus (bus_can bus)) ?em"
    using em_driver_errors_sync [OF assms] assms(2) by simp
  moreover have "em_inv ?em" using assms(1) by (simp add: em_inv_driver_errors)
  ultimately show ?thesis by (simp only: em_collect_def driver_sync_other_errors)
qed

text \<open>The message sent, with the error register of the moment in it.\<close>

definition msg_stamp :: "u8 \<Rightarrow> em_msg \<Rightarrow> em_msg" where
  "msg_stamp x m = EmMsg (msg_errorCode m) x (msg_errorBit m) (msg_infoCode m)"

lemma em_decode_stamp:
  assumes "length bs = 8"
  shows "bs[2 := x] = em_encode (msg_stamp x (em_decode bs))"
proof -
  from list_8 [OF assms] obtain a b c d e f g h where bs: "bs = [a, b, c, d, e, f, g, h]" by blast
  have "em_decode (bs[2 := x]) = msg_stamp x (em_decode bs)" by (simp add: bs em_decode_def msg_stamp_def)
  then show ?thesis using em_encode_decode [of "bs[2 := x]"] assms by simp
qed

definition em_after_send :: "CO_EM_t \<Rightarrow> CO_EM_t" where
  \<comment> \<open>the ring after one message was taken: the loss of messages is reported, or its report withdrawn\<close>
  "em_after_send em = (if em_bufFull em = 2
     then em_errorReport (em_advance em) CO_EM_EMERGENCY_BUFFER_FULL CO_EMC_GENERIC 0
     else em_errorReset (em_advance em) CO_EM_EMERGENCY_BUFFER_FULL 0)"


definition full_notice :: "CO_EM_t \<Rightarrow> em_msg list" where
  "full_notice em =
     (if em_bufFull em = 2 \<and> \<not> em_isError em CO_EM_EMERGENCY_BUFFER_FULL
      then [EmMsg CO_EMC_GENERIC 0 CO_EM_EMERGENCY_BUFFER_FULL 0]
      else if em_bufFull em \<noteq> 2 \<and> em_isError em CO_EM_EMERGENCY_BUFFER_FULL
      then [EmMsg 0 0 CO_EM_EMERGENCY_BUFFER_FULL 0] else [])"

lemma em_inv_after_send: "em_inv em \<Longrightarrow> em_inv (em_after_send em)"
  by (simp add: em_after_send_def em_inv_errorReport em_inv_errorReset em_inv_advance)

lemma driver_sync_after_send:
  assumes "em_inv em"
  shows "driver_sync st (em_after_send em) = driver_sync st em"
proof -
  have "em_supported (em_advance em) CO_EM_EMERGENCY_BUFFER_FULL"
    by (rule em_supported_fixed [OF em_inv_advance [OF assms]]) simp_all
  then have "driver_sync st (em_after_send em) = driver_sync st (em_advance em)"
    using em_inv_advance [OF assms]
    by (simp add: em_after_send_def driver_sync_report driver_sync_reset driver_bits_def)
  then show ?thesis using driver_sync_cong [of "em_advance em" em] by simp
qed

lemma em_pending_after_send:
  assumes "em_inv em" "em_pending em = m # ms"
  shows "em_pending (em_after_send em) = ms @ full_notice em"
proof -
  have adv: "em_pending (em_advance em) = ms"
    using em_pending_advance [OF assms(1)] em_has_message_iff [OF assms(1)] assms(2) by simp
  have inv: "em_inv (em_advance em)" by (rule em_inv_advance [OF assms(1)])
  have sup: "em_supported (em_advance em) CO_EM_EMERGENCY_BUFFER_FULL"
    by (rule em_supported_fixed [OF inv]) simp_all
  have room: "length ms < 10" using emq.contents_bound [OF assms(1)] assms(2) by simp
  show ?thesis
    using em_report_new [OF inv sup] emf.report_active [OF inv] em_reset_active [OF inv]
      emf.reset_inactive [OF inv sup] adv room
    by (auto simp: em_after_send_def full_notice_def)
qed

lemma em_inv_dev_em: "bus_dev_inv bus \<Longrightarrow> em_inv em \<Longrightarrow> bus_dev_inv (bus\<lparr>bus_em := em\<rparr>)"
  by (simp add: bus_dev_inv_def bus_inv_def)

definition em_sent_bus :: "CO_EMpr_t \<Rightarrow> co_bus \<Rightarrow> nat \<Rightarrow> co_bus" where
  \<comment> \<open>the bus just before \<^verbatim>\<open>CO_CANsend\<close> is called\<close>
  "em_sent_bus emPr bus txb =
     (let em1 = em_stamp (pr_errorRegister emPr) (bus_em bus); m = em_decode (em_read_slot em1)
      in bus_upd_buf (bus\<lparr>bus_em := em_after_send (if em_pFunctSignalRx em1
                then em1\<lparr>em_rx_log := em_rx_log em1 @
                       [(0, msg_errorCode m, msg_errorRegister m, msg_errorBit m, msg_infoCode m)]\<rparr>
                else em1)\<rparr>) txb (\<lambda>b. b\<lparr>tx_data := em_read_slot em1\<rparr>))"

lemma em_send_eq:
  "em_send env emPr bus txb =
     map_option (\<lambda>emPr1. (emPr1, snd (CO_CANsend env (em_sent_bus emPr bus txb) (Some txb))))
       (predef_record (emPr\<lparr>pr_inhibitEmTimer := 0\<rparr>)
          (word_of_nat (le_value (take 4 (em_read_slot (em_stamp (pr_errorRegister emPr) (bus_em bus)))))))"
proof -
  have "em_ring_next (em_bufReadPtr (bus_em bus)) =
      em_ring_next (em_bufReadPtr (em_stamp (pr_errorRegister emPr) (bus_em bus)))"
    by (simp add: em_stamp_def)
  then show ?thesis
    by (auto simp: em_send_def em_sent_bus_def Let_def em_buffer_full_error_def em_after_send_def em_advance_def
        map_option_case Option.bind_def split: option.splits)
qed

lemma em_pending_stamped:
  assumes "em_inv em" "em_pending em = m # ms"
  shows "em_pending (em_stamp x em) = msg_stamp x m # ms"
proof -
  have has: "em_has_message em" using em_has_message_iff [OF assms(1)] assms(2) by simp
  then have "em_has_message (em_stamp x em)" by (simp add: em_has_message_def em_stamp_def)
  then have "em_pending (em_stamp x em) = em_decode (em_read_slot (em_stamp x em)) # em_pending (em_advance (em_stamp x em))"
    using assms(1) by (intro em_pending_advance) simp_all
  also have "em_decode (em_read_slot (em_stamp x em)) = msg_stamp x (em_decode (em_read_slot em))"
    using em_decode_stamp [OF length_em_read_slot [OF assms(1)], of x] em_decode_encode by (simp add: em_read_slot_stamp)
  finally show ?thesis
    using em_pending_advance [OF assms(1) has] assms(2) em_pending_stamp [OF assms(1)] by simp
qed

lemma em_bufFull_stamp: "em_bufFull (em_stamp x em) = em_bufFull em"
  by (simp add: em_stamp_def)

lemma em_sent_bus_props:
  assumes "bus_dev_inv bus" "txb < unat (can_txSize (bus_can bus))" "em_pending (bus_em bus) = m # ms"
  shows "bus_dev_inv (em_sent_bus emPr bus txb) \<and>
    tx_data (bus_buf (em_sent_bus emPr bus txb) txb) = em_encode (msg_stamp (pr_errorRegister emPr) m) \<and>
    tx_ident (bus_buf (em_sent_bus emPr bus txb) txb) = tx_ident (bus_buf bus txb) \<and>
    tx_DLC (bus_buf (em_sent_bus emPr bus txb) txb) = tx_DLC (bus_buf bus txb) \<and>
    tx_bufferFull (bus_buf (em_sent_bus emPr bus txb) txb) = tx_bufferFull (bus_buf bus txb) \<and>
    em_pending (bus_em (em_sent_bus emPr bus txb)) = ms @ full_notice (bus_em bus) \<and>
    driver_sync st (bus_em (em_sent_bus emPr bus txb)) = driver_sync st (bus_em bus)"
proof -
  let ?em1 = "em_stamp (pr_errorRegister emPr) (bus_em bus)"
  have inv: "em_inv (bus_em bus)" and len: "txb < length (can_txArray (bus_can bus))"
    using assms(1,2) by (simp_all add: bus_dev_inv_def bus_inv_def)
  define em2 where "em2 = (if em_pFunctSignalRx ?em1
                then ?em1\<lparr>em_rx_log := em_rx_log ?em1 @
                       [(0, msg_errorCode (em_decode (em_read_slot ?em1)), msg_errorRegister (em_decode (em_read_slot ?em1)),
                         msg_errorBit (em_decode (em_read_slot ?em1)), msg_infoCode (em_decode (em_read_slot ?em1)))]\<rparr>
                else ?em1)"
  have sb: "em_sent_bus emPr bus txb =
      bus_upd_buf (bus\<lparr>bus_em := em_after_send em2\<rparr>) txb (\<lambda>b. b\<lparr>tx_data := em_read_slot ?em1\<rparr>)"
    by (simp add: em_sent_bus_def Let_def em2_def)
  have em2: "em_inv em2" "em_pending em2 = msg_stamp (pr_errorRegister emPr) m # ms"
    "\<And>b. em_isError em2 b = em_isError (bus_em bus) b" "full_notice em2 = full_notice (bus_em bus)"
    using inv em_pending_stamped [OF inv assms(3)] by (auto simp: em2_def full_notice_def em_bufFull_stamp)
  have "em_has_message (bus_em bus)" using em_has_message_iff [OF inv] assms(3) by simp
  then have "em_decode (em_read_slot (bus_em bus)) = m"
    using em_pending_advance [OF inv] assms(3) by simp
  then have "em_read_slot ?em1 = em_encode (msg_stamp (pr_errorRegister emPr) m)"
    using em_decode_stamp [OF length_em_read_slot [OF inv]] by (simp add: em_read_slot_stamp)
  then show ?thesis
    using assms(1) em_inv_after_send [OF em2(1)] em_pending_after_send [OF em2(1,2)] em2(4) len
      driver_sync_after_send [OF em2(1)] driver_sync_cong [of em2 "bus_em bus" st] em2(3)
    by (simp add: sb bus_buf_upd bus_dev_inv_def bus_inv_def)
qed


lemma driver_sync_errorReport_sw:
  "em_inv em \<Longrightarrow> driver_sync st (em_errorReport em CO_EM_GENERIC_SOFTWARE_ERROR c i) = driver_sync st em"
  by (rule driver_sync_report) (simp_all add: em_supported_fixed driver_bits_def)

lemma CO_CANsend_em:
  assumes "bus_ready bus i"
    and "r = env_write env (can_sent (bus_can bus)) (tx_frame (bus_buf bus i))"
  shows "bus_em (snd (CO_CANsend env bus (Some i))) =
    (if r < 0 \<and> r \<noteq> - EBUSY \<and> can_em (bus_can bus)
     then em_errorReport (bus_em bus) CO_EM_GENERIC_SOFTWARE_ERROR CO_EMC_COMMUNICATION 0 else bus_em bus)"
  using assms by (auto simp: CO_CANsend_def Let_def bus_ready_def bus_errorReport_em)

lemma CO_CANsend_em_pending:
  assumes "bus_dev_inv bus" "i < unat (can_txSize (bus_can bus))"
  shows "\<exists>ext. em_pending (bus_em (snd (CO_CANsend env bus (Some i)))) = em_pending (bus_em bus) @ ext"
proof (cases "bus_ready bus i")
  case True
  have inv: "em_inv (bus_em bus)" using assms(1) by (simp add: bus_dev_inv_def bus_inv_def)
  have sup: "em_supported (bus_em bus) CO_EM_GENERIC_SOFTWARE_ERROR" by (rule em_supported_fixed [OF inv]) simp_all
  show ?thesis
    using CO_CANsend_em [OF True refl] em_report_new [OF inv sup] emf.report_active [OF inv]
    by (cases "em_isError (bus_em bus) CO_EM_GENERIC_SOFTWARE_ERROR") auto
next
  case False
  then have "tx_bufferFull (bus_buf bus i)" "can_dev (bus_can bus) \<noteq> None"
    using assms by (auto simp: bus_ready_def bus_dev_inv_def)
  then show ?thesis by (simp add: CO_CANsend_def)
qed

text \<open>
  C8: when the node is pre-operational or operational, the transmit buffer is free, a message waits and
  the inhibit time has elapsed, \<^verbatim>\<open>CO_EM_process\<close> passes exactly one frame to the device: the oldest waiting
  message with the current error register in it. The message leaves the ring, the remaining ones keep
  their order (followed by a notice when the ring had overflowed or recovered), the inhibit timer
  restarts and the message becomes the newest entry of the pre-defined error field.
\<close>

theorem CO_EM_process_sends_oldest:
  assumes "bus_dev_inv bus" "predef_inv emPr" "pr_preDefErr emPr \<noteq> None" "pr_CANtxBuff emPr = Some txb"
    and "txb < unat (can_txSize (bus_can bus))" "\<not> tx_bufferFull (bus_buf bus txb)"
    and "em_pending (em_collect emPr bus) = m # ms" "ucast inh * 100 \<le> em_timer emPr dt inh"
    and "reg = em_error_register (em_collect emPr bus) (pr_errorRegister emPr)"
  shows "\<exists>emPr' bus' r ext. CO_EM_process env emPr bus True dt inh tn = Some (emPr', bus', tn) \<and>
    bus_dev_inv bus' \<and> predef_inv emPr' \<and> pr_inhibitEmTimer emPr' = 0 \<and>
    can_sent (bus_can bus') = can_sent (bus_can bus) @
      [((tx_ident (bus_buf bus txb), tx_DLC (bus_buf bus txb), em_encode (msg_stamp reg m)), r)] \<and>
    em_pending (bus_em bus') = ms @ full_notice (em_collect emPr bus) @ ext \<and>
    predef_history emPr' = take (unat (pr_preDefErrSize emPr))
      (word_of_nat (le_value (take 4 (em_encode (msg_stamp reg m)))) # predef_history emPr)"
proof -
  let ?bus = "bus\<lparr>bus_em := em_collect emPr bus\<rparr>" and ?pr = "em_refresh emPr bus dt inh"
  have inv: "em_inv (em_collect emPr bus)"
    using assms(1) by (simp add: em_collect_inv bus_dev_inv_def bus_inv_def)
  have bus: "bus_dev_inv ?bus" using assms(1) inv by (rule em_inv_dev_em)
  have reg: "pr_errorRegister ?pr = reg" by (simp add: em_refresh_def assms(9))
  have has: "em_has_message (em_collect emPr bus)" using em_has_message_iff [OF inv] assms(7) by simp
  have buf: "bus_buf ?bus txb = bus_buf bus txb" by (simp add: bus_buf_def)
  have sb: "txb < unat (can_txSize (bus_can ?bus))" "em_pending (bus_em ?bus) = m # ms" using assms by simp_all
  note P = em_sent_bus_props [OF bus sb, of ?pr 0, unfolded buf reg]
  define b1 where "b1 = em_sent_bus ?pr ?bus txb"
  define b2 where "b2 = snd (CO_CANsend env b1 (Some txb))"
  have ready: "bus_ready b1 txb"
    using P assms(6) by (simp add: b1_def bus_ready_def bus_dev_inv_def)
  have can: "can_txSize (bus_can b1) = can_txSize (bus_can bus)" "can_sent (bus_can b1) = can_sent (bus_can bus)"
    by (simp_all add: b1_def em_sent_bus_def Let_def)
  have slot: "em_read_slot (em_stamp reg (em_collect emPr bus)) = em_encode (msg_stamp reg m)"
  proof -
    have "txb < length (can_txArray (bus_can bus))" using assms(1,5) by (simp add: bus_dev_inv_def bus_inv_def)
    then have "tx_data (bus_buf (em_sent_bus ?pr ?bus txb) txb) = em_read_slot (em_stamp reg (em_collect emPr bus))"
      by (simp add: em_sent_bus_def Let_def bus_buf_upd reg)
    then show ?thesis using P by simp
  qed
  have predef: "predef_inv (?pr\<lparr>pr_inhibitEmTimer := 0\<rparr>)" "pr_preDefErr (?pr\<lparr>pr_inhibitEmTimer := 0\<rparr>) \<noteq> None"
    using assms(2,3) by (auto simp: predef_inv_def em_refresh_def)
  have keep: "predef_history (?pr\<lparr>pr_inhibitEmTimer := 0\<rparr>) = predef_history emPr"
    "pr_preDefErrSize (?pr\<lparr>pr_inhibitEmTimer := 0\<rparr>) = pr_preDefErrSize emPr"
    "pr_inhibitEmTimer (?pr\<lparr>pr_inhibitEmTimer := 0\<rparr>) = 0"
    by (auto simp: predef_history_def em_refresh_def split: option.split)
  obtain emPr' where rec: "predef_record (?pr\<lparr>pr_inhibitEmTimer := 0\<rparr>)
        (word_of_nat (le_value (take 4 (em_encode (msg_stamp reg m))))) = Some emPr'"
      "predef_inv emPr'" "pr_inhibitEmTimer emPr' = 0"
      "predef_history emPr' = take (unat (pr_preDefErrSize emPr))
         (word_of_nat (le_value (take 4 (em_encode (msg_stamp reg m)))) # predef_history emPr)"
    using predef_record_spec [OF predef, of "word_of_nat (le_value (take 4 (em_encode (msg_stamp reg m))))"]
    unfolding keep by blast
  have run: "CO_EM_process env emPr bus True dt inh tn = Some (emPr', b2, tn)"
    using assms(6,8) has rec(1)
    by (simp add: CO_EM_process_eq [OF assms(4)] em_send_eq reg slot b1_def b2_def)
  have "bus_dev_inv b2"
    using cs.invar_send [of b1 txb env] P assms(5) can by (simp add: b1_def b2_def)
  moreover have "\<exists>r. can_sent (bus_can b2) = can_sent (bus_can bus) @
      [((tx_ident (bus_buf bus txb), tx_DLC (bus_buf bus txb), em_encode (msg_stamp reg m)), r)]"
    using CO_CANsend_ready [OF ready, of env] P can by (simp add: b2_def b1_def tx_frame_def)
  moreover obtain ext where "em_pending (bus_em b2) = ms @ full_notice (em_collect emPr bus) @ ext"
    using CO_CANsend_em_pending [of b1 txb env] P assms(5) can by (auto simp: b1_def b2_def)
  ultimately show ?thesis using run rec(2-4) by blast
qed


lemma example_collect: "em_collect example_emPr example_bus = example_em"
  by (simp add: em_collect_def example_emPr_def example_bus_def em_other_errors_def example_em_def)

theorem CO_EM_process_sends_oldest_witness:
  "\<exists>emPr' bus' r. CO_EM_process (example_env 0) example_emPr example_bus True 0 0 None = Some (emPr', bus', None) \<and>
     can_sent (bus_can bus') = [((0x80, 8, [0, 0, 0, 0, 0, 0, 0, 0]), r)] \<and> predef_history emPr' = [0, 7, 8]"
proof -
  obtain m where m: "em_pending (em_collect example_emPr example_bus) = [m]"
    using example_em_pending unfolding example_collect by (metis One_nat_def length_0_conv length_Suc_conv)
  have has: "em_has_message example_em" by (simp add: em_has_message_def example_em_def)
  have "replicate 8 0 = [0, 0, 0, 0, 0, 0, 0, 0 :: u8]" by (simp add: eval_nat_numeral)
  then have slot: "em_read_slot example_em = [0, 0, 0, 0, 0, 0, 0, 0]" by (simp add: em_read_slot_def example_em_def)
  have m': "m = EmMsg 0 0 0 0"
    using em_pending_advance [OF example_em_inv has] m
    by (simp add: example_collect slot em_decode_def)
  define reg where "reg = em_error_register (em_collect example_emPr example_bus) (pr_errorRegister example_emPr)"
  have "(\<exists>i \<in> {6..<10}. (replicate 10 0 :: u8 list) ! i \<noteq> 0) = False" by auto
  then have reg0: "reg = 0"
    unfolding reg_def example_collect
    by (simp add: em_error_register_def example_em_def example_emPr_def)
  have enc: "em_encode (msg_stamp reg m) = [0, 0, 0, 0, 0, 0, 0, 0]"
    by (simp add: m' reg0 msg_stamp_def em_encode_def le_bytes_numeral)
  have "0 < unat (can_txSize (bus_can example_bus))" "\<not> tx_bufferFull (bus_buf example_bus 0)"
    "pr_preDefErr example_emPr \<noteq> None" "pr_CANtxBuff example_emPr = Some 0" "ucast (0 :: u16) * 100 \<le> em_timer example_emPr 0 0"
    by (simp_all add: example_bus_def bus_buf_def example_tx_def example_emPr_def)
  from CO_EM_process_sends_oldest [OF example_bus_inv example_emPr_inv this(3,4,1,2) m this(5) reg_def,
      of "example_env 0" None, unfolded enc]
  show ?thesis
    by (auto simp: example_bus_def bus_buf_def example_tx_def example_emPr_def predef_history_def
        take_Cons')
qed


lemma CO_EM_process_register:
  assumes "CO_EM_process env emPr bus nmt dt inh tn = Some (emPr', bus', tn')"
  shows "pr_errorRegister emPr' = em_error_register (em_collect emPr bus) (pr_errorRegister emPr) \<and>
    pr_CANerrorStatusOld emPr' = can_CANerrorStatus (bus_can bus) \<and> pr_CANtxBuff emPr' = pr_CANtxBuff emPr"
proof -
  obtain txb where txb: "pr_CANtxBuff emPr = Some txb"
    using assms by (auto simp: CO_EM_process_def split: option.splits)
  have rec: "predef_record p e = Some p' \<Longrightarrow> pr_errorRegister p' = pr_errorRegister p \<and>
      pr_CANerrorStatusOld p' = pr_CANerrorStatusOld p \<and> pr_CANtxBuff p' = pr_CANtxBuff p" for p e p'
    by (auto simp: predef_record_def bind_eq_Some_conv Let_def split: option.splits if_splits)
  then show ?thesis
    using assms
    by (auto simp: CO_EM_process_eq [OF txb] em_send_eq em_refresh_def split: if_splits dest!: rec)
qed

lemma em_error_register_bits:
  "em_error_register em old AND CO_ERR_REG_GENERIC_ERR \<noteq> 0 \<longleftrightarrow> em_errorStatusBits em ! 5 \<noteq> 0"
  "em_error_register em old AND CO_ERR_REG_COMM_ERR \<noteq> 0 \<longleftrightarrow>
     em_errorStatusBits em ! 2 \<noteq> 0 \<or> em_errorStatusBits em ! 3 \<noteq> 0"
  "em_error_register em old AND CO_ERR_REG_MANUFACTURER \<noteq> 0 \<longleftrightarrow>
     (\<exists>i \<in> {6..<unat (em_errorStatusBitsSize em)}. em_errorStatusBits em ! i \<noteq> 0)"
  "em_error_register em old AND 0x6E = old AND 0x6E"
  by (simp_all add: em_error_register_def Let_def CO_ERR_REG_defs bit.conj_disj_distrib2 and.assoc)

text \<open>
  After a call of \<^verbatim>\<open>CO_EM_process\<close> the bits of the error register say what the error status bits hold:
  generic error is set exactly when status byte 5 is not zero, communication error when byte 2 or 3 is
  not, manufacturer error when any byte from 6 on is not; the other bits keep their value.
\<close>

theorem CO_EM_process_error_register:
  assumes "CO_EM_process env emPr bus nmt dt inh tn = Some (emPr', bus', tn')" "em = em_collect emPr bus"
  shows "(pr_errorRegister emPr' AND CO_ERR_REG_GENERIC_ERR \<noteq> 0 \<longleftrightarrow> em_errorStatusBits em ! 5 \<noteq> 0) \<and>
    (pr_errorRegister emPr' AND CO_ERR_REG_COMM_ERR \<noteq> 0 \<longleftrightarrow>
       em_errorStatusBits em ! 2 \<noteq> 0 \<or> em_errorStatusBits em ! 3 \<noteq> 0) \<and>
    (pr_errorRegister emPr' AND CO_ERR_REG_MANUFACTURER \<noteq> 0 \<longleftrightarrow>
       (\<exists>i \<in> {6..<unat (em_errorStatusBitsSize em)}. em_errorStatusBits em ! i \<noteq> 0)) \<and>
    pr_errorRegister emPr' AND 0x6E = pr_errorRegister emPr AND 0x6E"
  using CO_EM_process_register [OF assms(1)] em_error_register_bits assms(2) by simp

theorem CO_EM_process_error_register_witness:
  "\<exists>emPr' bus' tn'. CO_EM_process (example_env 0) example_emPr example_bus False 0 0 None = Some (emPr', bus', tn') \<and>
     pr_errorRegister emPr' AND CO_ERR_REG_COMM_ERR = 0"
proof -
  have "pr_CANtxBuff example_emPr = Some 0" by (simp add: example_emPr_def)
  then obtain p b t where r: "CO_EM_process (example_env 0) example_emPr example_bus False 0 0 None = Some (p, b, t)"
    by (simp add: CO_EM_process_eq)
  from CO_EM_process_error_register [OF r refl] r show ?thesis
    by (auto simp: example_collect example_em_def)
qed

text \<open>
  The error bits that stand for the state of the CAN controller follow the driver: if they agreed
  with the status word \<^verbatim>\<open>CO_EM_process\<close> saw last, then after the next call they agree with the status word
  of that call.
\<close>

theorem CO_EM_process_driver_errors:
  assumes "bus_dev_inv bus" "pr_CANtxBuff emPr = Some txb" "txb < unat (can_txSize (bus_can bus))"
    and "driver_sync (pr_CANerrorStatusOld emPr) (bus_em bus)"
    and "CO_EM_process env emPr bus nmt dt inh tn = Some (emPr', bus', tn')"
  shows "bus_dev_inv bus' \<and> pr_CANerrorStatusOld emPr' = can_CANerrorStatus (bus_can bus) \<and>
    driver_sync (pr_CANerrorStatusOld emPr') (bus_em bus')"
proof -
  let ?em = "em_collect emPr bus" and ?bus = "bus\<lparr>bus_em := em_collect emPr bus\<rparr>"
  let ?b1 = "em_sent_bus (em_refresh emPr bus dt inh) ?bus txb"
  have inv: "em_inv (bus_em bus)" using assms(1) by (simp add: bus_dev_inv_def bus_inv_def)
  have em: "em_inv ?em" "driver_sync (can_CANerrorStatus (bus_can bus)) ?em"
    using em_collect_inv [OF inv] em_collect_sync [OF inv assms(4)] by auto
  have bus: "bus_dev_inv ?bus" using assms(1) em(1) by (rule em_inv_dev_em)
  have sent: "bus_dev_inv (snd (CO_CANsend env ?b1 (Some txb))) \<and>
      driver_sync (can_CANerrorStatus (bus_can bus)) (bus_em (snd (CO_CANsend env ?b1 (Some txb))))"
    if has: "em_has_message ?em" and free: "\<not> tx_bufferFull (bus_buf bus txb)"
  proof -
    obtain m ms where ms: "em_pending (bus_em ?bus) = m # ms"
      using has em_has_message_iff [OF em(1)] by (cases "em_pending ?em") auto
    have txb: "txb < unat (can_txSize (bus_can ?bus))" using assms(3) by simp
    note P = em_sent_bus_props [OF bus txb ms, of "em_refresh emPr bus dt inh" "can_CANerrorStatus (bus_can bus)"]
    have "txb < unat (can_txSize (bus_can ?b1))" using assms(3) by (simp add: em_sent_bus_def Let_def)
    moreover have "bus_ready ?b1 txb" using P free by (simp add: bus_ready_def bus_dev_inv_def)
    moreover have "em_inv (bus_em ?b1)" using P by (simp add: bus_dev_inv_def bus_inv_def)
    ultimately show ?thesis
      using cs.invar_send [of ?b1 txb env] CO_CANsend_em [of ?b1 txb _ env, OF _ refl] P em(2)
      by (simp add: driver_sync_errorReport_sw)
  qed
  show ?thesis
    using assms(5) CO_EM_process_register [OF assms(5)] sent bus em(2)
    by (auto simp: CO_EM_process_eq [OF assms(2)] em_send_eq split: if_splits)
qed

lemma example_driver_sync: "driver_sync 0 example_em"
  by (simp add: driver_sync_def example_em_inactive)

theorem CO_EM_process_driver_errors_witness:
  "\<exists>emPr' bus' tn'. CO_EM_process (example_env 0) example_emPr
       (example_bus\<lparr>bus_can := (bus_can example_bus)\<lparr>can_CANerrorStatus := CO_CAN_ERRTX_BUS_OFF\<rparr>\<rparr>) False 0 0 None
       = Some (emPr', bus', tn') \<and> em_isError (bus_em bus') CO_EM_CAN_TX_BUS_OFF"
proof -
  let ?bus = "example_bus\<lparr>bus_can := (bus_can example_bus)\<lparr>can_CANerrorStatus := CO_CAN_ERRTX_BUS_OFF\<rparr>\<rparr>"
  have tx: "pr_CANtxBuff example_emPr = Some 0" by (simp add: example_emPr_def)
  then obtain p b t where r: "CO_EM_process (example_env 0) example_emPr ?bus False 0 0 None = Some (p, b, t)"
    by (simp add: CO_EM_process_eq)
  have "bus_dev_inv ?bus" "0 < unat (can_txSize (bus_can ?bus))"
    "driver_sync (pr_CANerrorStatusOld example_emPr) (bus_em ?bus)"
    using example_bus_inv example_driver_sync
    by (simp_all add: bus_dev_inv_def bus_inv_def example_bus_def example_emPr_def)
  from CO_EM_process_driver_errors [OF this(1) tx this(2,3) r] r show ?thesis
    by (auto simp: driver_sync_def CO_CAN_ERR_defs)
qed

text \<open>
  While the inhibit time runs, or while the transmit buffer is marked full, or outside the two states
  that allow emergency messages, \<^verbatim>\<open>CO_EM_process\<close> passes no frame to the device and keeps every waiting
  message; when only the inhibit time holds a message back, the time until the next call is lowered to
  what is left of it.
\<close>

theorem CO_EM_process_holds_back:
  assumes "pr_CANtxBuff emPr = Some txb"
    and "\<not> nmt \<or> tx_bufferFull (bus_buf bus txb) \<or> em_timer emPr dt inh < ucast inh * 100"
  shows "\<exists>tn'. CO_EM_process env emPr bus nmt dt inh tn =
      Some (em_refresh emPr bus dt inh, bus\<lparr>bus_em := em_collect emPr bus\<rparr>, tn') \<and>
    (nmt \<and> \<not> tx_bufferFull (bus_buf bus txb) \<and> em_has_message (em_collect emPr bus) \<longrightarrow>
       tn' = lower_timer tn (ucast inh * 100 - em_timer emPr dt inh))"
  using assms(2) by (auto simp: CO_EM_process_eq [OF assms(1)])

theorem CO_EM_process_holds_back_witness:
  "\<exists>emPr' bus'. CO_EM_process (example_env 0) example_emPr example_bus True 300 10 (Some 5000) =
     Some (emPr', bus', Some 700) \<and> can_sent (bus_can bus') = []"
proof -
  have "pr_CANtxBuff example_emPr = Some 0" "em_timer example_emPr 300 10 = 300" "\<not> tx_bufferFull (bus_buf example_bus 0)"
    "can_sent (bus_can example_bus) = []"
    by (simp_all add: example_emPr_def em_timer_def example_bus_def bus_buf_def example_tx_def)
  moreover have "em_has_message (em_collect example_emPr example_bus)"
    unfolding example_collect by (simp add: em_has_message_def example_em_def)
  ultimately show ?thesis
    using CO_EM_process_holds_back [of example_emPr 0 True example_bus 300 10 "example_env 0" "Some 5000"]
    by (simp add: lower_timer_def)
qed


subsection \<open>Initialisation is correct\<close>

definition em_initial :: "u8 list \<Rightarrow> u8 \<Rightarrow> CO_EM_t \<Rightarrow> CO_EM_t" where
  "em_initial bits n em = em\<lparr>em_errorStatusBits := replicate (unat n) 0 @ drop (unat n) bits,
     em_errorStatusBitsSize := n, em_bufWritePtr := 0, em_bufReadPtr := 0, em_bufFull := 0,
     em_wrongErrorReport := 0, em_pFunctSignalPre := False, em_pFunctSignalRx := False\<rparr>"

lemma em_initial_inv:
  assumes "6 \<le> n" "length (em_buf em) = em_bufEnd" "unat n \<le> length bits"
  shows "em_inv (em_initial bits n em) \<and> em_pending (em_initial bits n em) = [] \<and> \<not> em_isError (em_initial bits n em) b"
proof -
  have "err_index b < unat n \<Longrightarrow> (replicate (unat n) 0 @ drop (unat n) bits) ! err_index b = 0"
    by (simp add: nth_append)
  then show ?thesis
    using assms by (auto simp: em_inv_def em_initial_def em_bufEnd_def CO_EM_INTERNAL_BUFFER_SIZE_def word_le_nat_alt
        em_pending_def em_count_def em_isError_def)
qed

text \<open>
  \<^verbatim>\<open>CO_EM_init\<close> with proper arguments starts with no active error and no waiting message, clears the
  history of errors, registers the access functions of objects \<^verbatim>\<open>0x1003\<close> and \<^verbatim>\<open>0x1014\<close>, configures the
  receive buffer for all emergency messages and the transmit buffer for its own, and fails only when
  the device refuses the receive filter.
\<close>

theorem CO_EM_init_correct:
  assumes "bus_dev_inv bus" "od_inv SDO" "length (em_buf (bus_em bus)) = em_bufEnd"
    and "6 \<le> n" "unat n \<le> length bits" "0 < unat pn" "length pde = unat pn"
    and "rxIdx < can_rxSize (bus_can bus)" "txIdx < can_txSize (bus_can bus)"
  shows "\<exists>ret emPr' bus' SDO'.
    CO_EM_init env emPr bus SDO (Some bits) n (Some pde) pn rxIdx txIdx canId = Some (ret, emPr', bus', SDO') \<and>
    (ret = CO_ERROR_NO \<or> ret = CO_ERROR_SYSCALL) \<and> bus_dev_inv bus' \<and> od_inv SDO' \<and> predef_inv emPr' \<and>
    em_pending (bus_em bus') = [] \<and> (\<forall>b. \<not> em_isError (bus_em bus') b) \<and> predef_history emPr' = [] \<and>
    pr_CANtxBuff emPr' = Some (unat txIdx) \<and> tx_ident (bus_buf bus' (unat txIdx)) = can_id env canId False \<and>
    tx_DLC (bus_buf bus' (unat txIdx)) = 8 \<and> \<not> tx_bufferFull (bus_buf bus' (unat txIdx)) \<and>
    rx_CANrx_callback (can_rxArray (bus_can bus') ! unat rxIdx) = Some CB_EM_receive \<and>
    (\<forall>e x. od_map SDO' 0x1003 = Some (e, x) \<longrightarrow> ext_pODFunc x = Some ODF_1003) \<and>
    (\<forall>e x. od_map SDO' 0x1014 = Some (e, x) \<longrightarrow> ext_pODFunc x = Some ODF_1014)"
proof -
  obtain S1 where S1: "CO_OD_configure SDO 0x1003 (Some ODF_1003) (Some obj_emPr) None 0 = Some S1" "od_inv S1"
    "\<forall>e x. od_map S1 0x1003 = Some (e, x) \<longrightarrow> ext_pODFunc x = Some ODF_1003"
    using od_configure_func [OF assms(2), of "0x1003" "Some ODF_1003" "Some obj_emPr"] by blast
  obtain S2 where S2: "CO_OD_configure S1 0x1014 (Some ODF_1014) (Some obj_nodeId) None 0 = Some S2" "od_inv S2"
    "\<forall>e x. od_map S2 0x1014 = Some (e, x) \<longrightarrow> ext_pODFunc x = Some ODF_1014"
    "\<forall>i. i \<noteq> 0x1014 \<longrightarrow> od_map S2 i = od_map S1 i"
    using od_configure_func [OF S1(2), of "0x1014" "Some ODF_1014" "Some obj_nodeId"] by blast
  let ?bus = "bus\<lparr>bus_em := em_initial bits n (bus_em bus)\<rparr>"
  have em: "em_inv (em_initial bits n (bus_em bus))" "em_pending (em_initial bits n (bus_em bus)) = []"
    "\<And>b. \<not> em_isError (em_initial bits n (bus_em bus)) b"
    using em_initial_inv [OF assms(4,3,5)] by auto
  then have inv: "bus_inv ?bus" using assms(1) by (simp add: bus_dev_inv_def bus_inv_def)
  obtain ret b1 where rx: "CO_CANrxBufferInit env ?bus rxIdx 0x80 0x780 False (Some obj_em) (Some CB_EM_receive) = (ret, b1)"
    by fastforce
  note K = CO_CANrxBufferInit_keeps [OF inv rx] CO_CANrxBufferInit_buffer [OF inv rx]
  obtain b2 where tx: "CO_CANtxBufferInit env b1 txIdx canId False 8 False = (Some (unat txIdx), b2)" "bus_inv b2"
    "bus_em b2 = bus_em b1" "can_dev (bus_can b2) = can_dev (bus_can b1)" "can_rxArray (bus_can b2) = can_rxArray (bus_can b1)"
    "tx_ident (bus_buf b2 (unat txIdx)) = can_id env canId False" "tx_DLC (bus_buf b2 (unat txIdx)) = 8"
    "\<not> tx_bufferFull (bus_buf b2 (unat txIdx))"
    using CO_CANtxBufferInit_ok [of b1 txIdx env canId False 8 False] K assms(9) by auto
  have run: "CO_EM_init env emPr bus SDO (Some bits) n (Some pde) pn rxIdx txIdx canId =
      Some (ret, emPr\<lparr>pr_preDefErr := Some pde, pr_preDefErrSize := pn, pr_preDefErrNoOfErrors := 0,
        pr_inhibitEmTimer := 0, pr_CANerrorStatusOld := 0, pr_CANtxBuff := Some (unat txIdx)\<rparr>, b2, S2)"
    using assms(4,5) S1(1) S2(1) rx tx(1)
    by (simp add: CO_EM_init_def Let_def em_initial_def not_less [symmetric])
  show ?thesis
    unfolding run
    using K assms tx em S1(3) S2
    by (auto simp: bus_dev_inv_def predef_inv_def predef_history_def word_less_nat_alt)
qed

theorem CO_EM_init_correct_witness:
  "\<exists>ret emPr' bus' SDO'. CO_EM_init (example_env 0) example_emPr example_bus example_OD (Some (replicate 10 1)) 10
       (Some [1, 2]) 2 0 2 0x85 = Some (ret, emPr', bus', SDO') \<and>
     bus_dev_inv bus' \<and> em_pending (bus_em bus') = [] \<and> predef_history emPr' = [] \<and> tx_ident (bus_buf bus' 2) = 0x85"
proof -
  have "length (em_buf (bus_em example_bus)) = em_bufEnd" "0 < can_rxSize (bus_can example_bus)"
    "2 < can_txSize (bus_can example_bus)" "can_id (example_env 0) 0x85 False = 0x85"
    by (simp_all add: example_bus_def example_em_def em_bufEnd_def CO_EM_INTERNAL_BUFFER_SIZE_def can_id_def example_env_def)
  then show ?thesis
    using CO_EM_init_correct [OF example_bus_inv example_OD_inv, of 10 "replicate 10 1" 2 "[1, 2]" 0 2 "example_env 0"
        example_emPr "0x85"] by auto
qed

end
