(* ===== verification/NMT_Heartbeat.thy ===== *)
theory NMT_Heartbeat
  imports Emergency
begin

section \<open>Network management and heartbeat producer (\<^verbatim>\<open>301/CO_NMT_Heartbeat.c\<close>)\<close>

text \<open>
  The NMT state machine of the node: commands received from the master (\<^verbatim>\<open>CO_NMT_receive\<close>), commands sent
  by the node when it is the master itself (\<^verbatim>\<open>CO_NMT_sendCommand\<close>), and \<^verbatim>\<open>CO_NMT_process\<close>, which sends the
  boot-up message and the heartbeats and leaves the operational state on errors. The error register of
  \<^verbatim>\<open>NMT->emPr\<close> is an argument of the handlers that read it, the emergency object is \<^verbatim>\<open>bus_em\<close> of the bus.
  Callback pointers are kept as whether they are set; \<^verbatim>\<open>nmt_signals\<close> counts the calls of \<^verbatim>\<open>pFunctSignalPre\<close>
  and \<^verbatim>\<open>nmt_changes\<close> lists the states passed to \<^verbatim>\<open>pFunctNMT\<close>. The result \<^verbatim>\<open>None\<close> is an access through \<^verbatim>\<open>NULL\<close>.
\<close>

datatype CO_NMT_internalState_t = CO_NMT_UNKNOWN | CO_NMT_INITIALIZING | CO_NMT_PRE_OPERATIONAL
  | CO_NMT_OPERATIONAL | CO_NMT_STOPPED

datatype CO_NMT_command_t = CO_NMT_ENTER_OPERATIONAL | CO_NMT_ENTER_STOPPED | CO_NMT_ENTER_PRE_OPERATIONAL
  | CO_NMT_RESET_NODE | CO_NMT_RESET_COMMUNICATION

datatype CO_NMT_reset_cmd_t = CO_RESET_NOT | CO_RESET_COMM | CO_RESET_APP | CO_RESET_QUIT

primrec nmt_state_code :: "CO_NMT_internalState_t \<Rightarrow> u8" where
  "nmt_state_code CO_NMT_UNKNOWN = -1"
| "nmt_state_code CO_NMT_INITIALIZING = 0"
| "nmt_state_code CO_NMT_PRE_OPERATIONAL = 127"
| "nmt_state_code CO_NMT_OPERATIONAL = 5"
| "nmt_state_code CO_NMT_STOPPED = 4"

primrec nmt_command_code :: "CO_NMT_command_t \<Rightarrow> u8" where
  "nmt_command_code CO_NMT_ENTER_OPERATIONAL = 1"
| "nmt_command_code CO_NMT_ENTER_STOPPED = 2"
| "nmt_command_code CO_NMT_ENTER_PRE_OPERATIONAL = 128"
| "nmt_command_code CO_NMT_RESET_NODE = 129"
| "nmt_command_code CO_NMT_RESET_COMMUNICATION = 130"

record CO_NMT_t =
  nmt_operatingState :: CO_NMT_internalState_t
  nmt_operatingStatePrev :: CO_NMT_internalState_t
  nmt_resetCommand :: CO_NMT_reset_cmd_t
  nmt_nodeId :: u8
  nmt_HBproducerTimer :: u32
  nmt_firstHBTime :: u32
  nmt_NMT_TXbuff :: "nat option"
  nmt_HB_TXbuff :: "nat option"
  nmt_pFunctSignalPre :: bool
  nmt_pFunctNMT :: bool
  nmt_signals :: nat
  nmt_changes :: "CO_NMT_internalState_t list"

definition CO_NMT_getInternalState :: "CO_NMT_t option \<Rightarrow> CO_NMT_internalState_t" where
  "CO_NMT_getInternalState NMT = (case NMT of None \<Rightarrow> CO_NMT_INITIALIZING | Some n \<Rightarrow> nmt_operatingState n)"

text \<open>The \<^verbatim>\<open>switch(command)\<close> of both handlers; \<^verbatim>\<open>None\<close> is its \<^verbatim>\<open>default\<close> branch.\<close>

definition nmt_switch :: "u8 \<Rightarrow> CO_NMT_t \<Rightarrow> u8 \<Rightarrow> CO_NMT_t option" where
  "nmt_switch errorRegister NMT command =
     (if command = nmt_command_code CO_NMT_ENTER_OPERATIONAL then
        Some (if errorRegister = 0 then NMT\<lparr>nmt_operatingState := CO_NMT_OPERATIONAL\<rparr> else NMT)
      else if command = nmt_command_code CO_NMT_ENTER_STOPPED then Some (NMT\<lparr>nmt_operatingState := CO_NMT_STOPPED\<rparr>)
      else if command = nmt_command_code CO_NMT_ENTER_PRE_OPERATIONAL
      then Some (NMT\<lparr>nmt_operatingState := CO_NMT_PRE_OPERATIONAL\<rparr>)
      else if command = nmt_command_code CO_NMT_RESET_NODE then Some (NMT\<lparr>nmt_resetCommand := CO_RESET_APP\<rparr>)
      else if command = nmt_command_code CO_NMT_RESET_COMMUNICATION then Some (NMT\<lparr>nmt_resetCommand := CO_RESET_COMM\<rparr>)
      else None)"

definition nmt_call_changed :: "CO_NMT_t \<Rightarrow> CO_NMT_t" where
  \<comment> \<open>\<^verbatim>\<open>NMT->pFunctNMT(NMT->operatingState)\<close>\<close>
  "nmt_call_changed NMT = NMT\<lparr>nmt_changes := nmt_changes NMT @ [nmt_operatingState NMT]\<rparr>"

definition nmt_call_pre :: "CO_NMT_t \<Rightarrow> CO_NMT_t" where
  \<comment> \<open>\<^verbatim>\<open>NMT->pFunctSignalPre(NMT->functSignalObjectPre)\<close>\<close>
  "nmt_call_pre NMT = NMT\<lparr>nmt_signals := nmt_signals NMT + 1\<rparr>"

definition nmt_notify :: "CO_NMT_internalState_t \<Rightarrow> CO_NMT_t \<Rightarrow> CO_NMT_t" where
  \<comment> \<open>the two callback blocks at the end of \<^verbatim>\<open>CO_NMT_receive\<close>\<close>
  "nmt_notify currentOperatingState NMT =
     (let N1 = (if nmt_pFunctNMT NMT \<and> currentOperatingState \<noteq> nmt_operatingState NMT then nmt_call_changed NMT else NMT)
      in if nmt_pFunctSignalPre N1 \<and> currentOperatingState \<noteq> nmt_operatingState N1 then nmt_call_pre N1 else N1)"

definition CO_NMT_receive :: "u8 \<Rightarrow> CO_NMT_t \<Rightarrow> CO_CANrxMsg_t \<Rightarrow> CO_NMT_t" where
  "CO_NMT_receive errorRegister NMT msg =
     (let DLC = rxm_DLC msg; data = rxm_data msg; nodeId = data ! 1
      in if DLC = 2 \<and> (nodeId = 0 \<or> nodeId = nmt_nodeId NMT) then
           (case nmt_switch errorRegister NMT (data ! 0) of
              None \<Rightarrow> nmt_notify (nmt_operatingState NMT) NMT
            | Some N1 \<Rightarrow> nmt_notify (nmt_operatingState NMT) N1)
         else NMT)"

text \<open>
  The objects passed to \<^verbatim>\<open>CO_NMT_init\<close> by pointer are arguments of the model, so its tests for \<^verbatim>\<open>NULL\<close> have no
  counterpart.
\<close>

definition CO_NMT_init ::
    "can_env \<Rightarrow> co_bus \<Rightarrow> u8 \<Rightarrow> u16 \<Rightarrow> u16 \<Rightarrow> u16 \<Rightarrow> u16 \<Rightarrow> u16 \<Rightarrow> u16 \<Rightarrow> u16 \<Rightarrow> CO_ReturnError_t \<times> CO_NMT_t \<times> co_bus" where
  "CO_NMT_init env bus nodeId firstHBTime_ms NMT_rxIdx CANidRxNMT NMT_txIdx CANidTxNMT HB_txIdx CANidTxHB =
     (let (ret, bus1) = CO_CANrxBufferInit env bus NMT_rxIdx CANidRxNMT 0x7FF False (Some 4) (Some CB_NMT_receive);
          (nmtTx, bus2) = CO_CANtxBufferInit env bus1 NMT_txIdx CANidTxNMT False 2 False;
          ret2 = (if nmtTx = None then CO_ERROR_ILLEGAL_ARGUMENT else ret);
          (hbTx, bus3) = CO_CANtxBufferInit env bus2 HB_txIdx CANidTxHB False 1 False;
          ret3 = (if hbTx = None then CO_ERROR_ILLEGAL_ARGUMENT else ret2)
      in (ret3,
          \<lparr>nmt_operatingState = CO_NMT_INITIALIZING, nmt_operatingStatePrev = CO_NMT_INITIALIZING,
           nmt_resetCommand = CO_RESET_NOT, nmt_nodeId = nodeId, nmt_HBproducerTimer = 0,
           nmt_firstHBTime = ucast firstHBTime_ms * 1000, nmt_NMT_TXbuff = nmtTx, nmt_HB_TXbuff = hbTx,
           nmt_pFunctSignalPre = False, nmt_pFunctNMT = False, nmt_signals = 0, nmt_changes = []\<rparr>,
          bus3))"

definition CO_NMT_initCallbackPre :: "CO_NMT_t option \<Rightarrow> bool \<Rightarrow> CO_NMT_t option" where
  "CO_NMT_initCallbackPre NMT pFunctSignal = map_option (\<lambda>n. n\<lparr>nmt_pFunctSignalPre := pFunctSignal\<rparr>) NMT"

definition CO_NMT_initCallbackChanged :: "CO_NMT_t option \<Rightarrow> bool \<Rightarrow> CO_NMT_t option" where
  "CO_NMT_initCallbackChanged NMT pFunctNMT =
     map_option (\<lambda>n. let n1 = n\<lparr>nmt_pFunctNMT := pFunctNMT\<rparr>
                      in if pFunctNMT then nmt_call_changed n1 else n1) NMT"

subsection \<open>Processing\<close>

definition nmt_heartbeat ::
    "can_env \<Rightarrow> CO_NMT_t \<Rightarrow> co_bus \<Rightarrow> u32 \<Rightarrow> u32 \<Rightarrow> (CO_NMT_t \<times> co_bus) option" where
  \<comment> \<open>the part of \<^verbatim>\<open>CO_NMT_process\<close> that sends the boot-up message or a heartbeat\<close>
  "nmt_heartbeat env NMT bus HBtime NMTstartup =
     (let st = nmt_operatingState NMT
      in if st = CO_NMT_INITIALIZING \<or>
            HBtime \<noteq> 0 \<and> (HBtime \<le> nmt_HBproducerTimer NMT \<or> st \<noteq> nmt_operatingStatePrev NMT)
         then (case nmt_HB_TXbuff NMT of
             None \<Rightarrow> None
           | Some b \<Rightarrow>
               let N1 = NMT\<lparr>nmt_HBproducerTimer := 0\<rparr>;
                   bus1 = bus_upd_buf bus b (\<lambda>t. t\<lparr>tx_data := (tx_data t)[0 := nmt_state_code st]\<rparr>);
                   bus2 = snd (CO_CANsend env bus1 (Some b));
                   N2 = (if st = CO_NMT_INITIALIZING then
                           N1\<lparr>nmt_HBproducerTimer := (if nmt_firstHBTime N1 < HBtime then HBtime - nmt_firstHBTime N1
                                                       else nmt_HBproducerTimer N1),
                              nmt_operatingState := (if NMTstartup = 8 then CO_NMT_OPERATIONAL
                                                     else CO_NMT_PRE_OPERATIONAL)\<rparr>
                         else N1)
               in Some (N2, bus2))
         else Some (NMT, bus))"

definition nmt_behave :: "u8 \<Rightarrow> CO_NMT_internalState_t \<Rightarrow> CO_NMT_internalState_t" where
  \<comment> \<open>\<^verbatim>\<open>if (errorBehavior[k] == 0) PRE_OPERATIONAL; else if (errorBehavior[k] == 2) STOPPED\<close>\<close>
  "nmt_behave behavior st =
     (if behavior = 0 then CO_NMT_PRE_OPERATIONAL else if behavior = 2 then CO_NMT_STOPPED else st)"

abbreviation (input) "CO_EM_HEARTBEAT_CONSUMER \<equiv> (0x1B :: u8)"
abbreviation (input) "CO_EM_HB_CONSUMER_REMOTE_RESET \<equiv> (0x1C :: u8)"

definition nmt_error_state :: "CO_EM_t \<Rightarrow> u8 \<Rightarrow> u8 list \<Rightarrow> CO_NMT_internalState_t \<Rightarrow> CO_NMT_internalState_t" where
  \<comment> \<open>the reaction to a non-zero error register in the operational state\<close>
  "nmt_error_state em errorRegister errorBehavior st =
     (let s1 = (if errorRegister AND CO_ERR_REG_COMM_ERR \<noteq> 0 then
                  (if errorBehavior ! 1 = 0 then CO_NMT_PRE_OPERATIONAL
                   else if errorBehavior ! 1 = 2 then CO_NMT_STOPPED
                   else if em_isError em CO_EM_CAN_TX_BUS_OFF \<or> em_isError em CO_EM_HEARTBEAT_CONSUMER \<or>
                           em_isError em CO_EM_HB_CONSUMER_REMOTE_RESET
                   then nmt_behave (errorBehavior ! 0) st
                   else st)
                else st);
          s2 = (if errorRegister AND CO_ERR_REG_GENERIC_ERR \<noteq> 0 then nmt_behave (errorBehavior ! 3) s1 else s1);
          s3 = (if errorRegister AND CO_ERR_REG_DEV_PROFILE \<noteq> 0 then nmt_behave (errorBehavior ! 4) s2 else s2)
      in if errorRegister AND CO_ERR_REG_MANUFACTURER \<noteq> 0 then nmt_behave (errorBehavior ! 5) s3 else s3)"

definition nmt_errors :: "CO_EM_t \<Rightarrow> CO_NMT_t \<Rightarrow> u8 \<Rightarrow> u8 list option \<Rightarrow> u32 \<Rightarrow> CO_NMT_t" where
  "nmt_errors em NMT errorRegister errorBehavior HBtime =
     (let CANpassive = em_isError em CO_EM_CAN_TX_BUS_PASSIVE \<or> em_isError em CO_EM_CAN_RX_BUS_PASSIVE
      in case errorBehavior of
           None \<Rightarrow> NMT
         | Some eb \<Rightarrow>
             if nmt_operatingState NMT = CO_NMT_OPERATIONAL then
               let er = (if CANpassive \<and> (eb ! 2 = 0 \<or> eb ! 2 = 2) then errorRegister OR 0x10 else errorRegister)
               in if er \<noteq> 0 then
                    let N1 = NMT\<lparr>nmt_operatingState := nmt_error_state em er eb (nmt_operatingState NMT)\<rparr>
                    in if nmt_operatingState N1 \<noteq> CO_NMT_OPERATIONAL then N1\<lparr>nmt_HBproducerTimer := HBtime\<rparr> else N1
                  else NMT
             else NMT)"

definition CO_NMT_process ::
    "can_env \<Rightarrow> CO_NMT_t \<Rightarrow> co_bus \<Rightarrow> u32 \<Rightarrow> u16 \<Rightarrow> u32 \<Rightarrow> u8 \<Rightarrow> u8 list option \<Rightarrow> u32 option \<Rightarrow>
     (CO_NMT_reset_cmd_t \<times> CO_NMT_t \<times> co_bus \<times> u32 option) option" where
  "CO_NMT_process env NMT bus timeDifference_us HBtime_ms NMTstartup errorRegister errorBehavior timerNext_us =
     (let currentOperatingState = nmt_operatingState NMT;
          HBtime = ucast HBtime_ms * 1000;
          N0 = NMT\<lparr>nmt_HBproducerTimer := nmt_HBproducerTimer NMT + timeDifference_us\<rparr>
      in case nmt_heartbeat env N0 bus HBtime NMTstartup of
           None \<Rightarrow> None
         | Some (N1, bus1) \<Rightarrow>
             let N2 = N1\<lparr>nmt_operatingStatePrev := nmt_operatingState N1\<rparr>;
                 N3 = nmt_errors (bus_em bus1) N2 errorRegister errorBehavior HBtime;
                 changed = (currentOperatingState \<noteq> nmt_operatingState N3);
                 N4 = (if changed \<and> nmt_pFunctNMT N3 then nmt_call_changed N3 else N3);
                 tn1 = (if changed then map_option (\<lambda>_. 0) timerNext_us else timerNext_us);
                 tn2 = (if HBtime \<noteq> 0 then
                          (if nmt_HBproducerTimer N4 < HBtime then lower_timer tn1 (HBtime - nmt_HBproducerTimer N4)
                           else map_option (\<lambda>_. 0) tn1)
                        else tn1)
             in Some (nmt_resetCommand N4, N4, bus1, tn2))"

definition CO_NMT_sendCommand ::
    "can_env \<Rightarrow> u8 \<Rightarrow> CO_NMT_t option \<Rightarrow> co_bus \<Rightarrow> CO_NMT_command_t \<Rightarrow> u8 \<Rightarrow>
     (CO_ReturnError_t \<times> CO_NMT_t option \<times> co_bus) option" where
  "CO_NMT_sendCommand env errorRegister NMT bus command nodeID =
     (case NMT of
        None \<Rightarrow> Some (CO_ERROR_TX_UNCONFIGURED, None, bus)
      | Some N \<Rightarrow>
          let res = (if nodeID = 0 \<or> nodeID = nmt_nodeId N
                     then nmt_switch errorRegister N (nmt_command_code command) else Some N)
          in (case res of
               None \<Rightarrow> Some (CO_ERROR_ILLEGAL_ARGUMENT, NMT, bus)
             | Some N1 \<Rightarrow>
                 (case nmt_NMT_TXbuff N1 of
                    None \<Rightarrow> None
                  | Some b \<Rightarrow>
                      let bus1 = bus_upd_buf bus b
                            (\<lambda>t. t\<lparr>tx_data := (tx_data t)[0 := nmt_command_code command, 1 := nodeID]\<rparr>);
                          (err, bus2) = CO_CANsend env bus1 (Some b)
                      in Some (err, Some N1, bus2))))"


subsection \<open>Commands\<close>

lemma nmt_call_fields [simp]:
  "nmt_operatingState (nmt_call_changed N) = nmt_operatingState N"
  "nmt_operatingStatePrev (nmt_call_changed N) = nmt_operatingStatePrev N"
  "nmt_resetCommand (nmt_call_changed N) = nmt_resetCommand N"
  "nmt_nodeId (nmt_call_changed N) = nmt_nodeId N"
  "nmt_HBproducerTimer (nmt_call_changed N) = nmt_HBproducerTimer N"
  "nmt_NMT_TXbuff (nmt_call_changed N) = nmt_NMT_TXbuff N"
  "nmt_HB_TXbuff (nmt_call_changed N) = nmt_HB_TXbuff N"
  "nmt_pFunctNMT (nmt_call_changed N) = nmt_pFunctNMT N"
  "nmt_pFunctSignalPre (nmt_call_changed N) = nmt_pFunctSignalPre N"
  "nmt_changes (nmt_call_changed N) = nmt_changes N @ [nmt_operatingState N]"
  by (simp_all add: nmt_call_changed_def)

lemma nmt_notify_fields [simp]:
  "nmt_operatingState (nmt_notify st N) = nmt_operatingState N"
  "nmt_operatingStatePrev (nmt_notify st N) = nmt_operatingStatePrev N"
  "nmt_resetCommand (nmt_notify st N) = nmt_resetCommand N"
  "nmt_nodeId (nmt_notify st N) = nmt_nodeId N"
  "nmt_HBproducerTimer (nmt_notify st N) = nmt_HBproducerTimer N"
  "nmt_NMT_TXbuff (nmt_notify st N) = nmt_NMT_TXbuff N"
  "nmt_HB_TXbuff (nmt_notify st N) = nmt_HB_TXbuff N"
  "nmt_pFunctNMT (nmt_notify st N) = nmt_pFunctNMT N"
  by (simp_all add: nmt_notify_def nmt_call_pre_def Let_def)

lemma nmt_notify_changes:
  "nmt_changes (nmt_notify st N) =
     nmt_changes N @ (if nmt_pFunctNMT N \<and> st \<noteq> nmt_operatingState N then [nmt_operatingState N] else [])"
  by (auto simp: nmt_notify_def nmt_call_pre_def Let_def)

lemma nmt_notify_same [simp]: "nmt_notify (nmt_operatingState N) N = N"
  by (simp add: nmt_notify_def Let_def)

lemma nmt_switch_command:
  "nmt_switch er N (nmt_command_code c) = Some
     (case c of
        CO_NMT_ENTER_OPERATIONAL \<Rightarrow> (if er = 0 then N\<lparr>nmt_operatingState := CO_NMT_OPERATIONAL\<rparr> else N)
      | CO_NMT_ENTER_STOPPED \<Rightarrow> N\<lparr>nmt_operatingState := CO_NMT_STOPPED\<rparr>
      | CO_NMT_ENTER_PRE_OPERATIONAL \<Rightarrow> N\<lparr>nmt_operatingState := CO_NMT_PRE_OPERATIONAL\<rparr>
      | CO_NMT_RESET_NODE \<Rightarrow> N\<lparr>nmt_resetCommand := CO_RESET_APP\<rparr>
      | CO_NMT_RESET_COMMUNICATION \<Rightarrow> N\<lparr>nmt_resetCommand := CO_RESET_COMM\<rparr>)"
  by (cases c) (simp_all add: nmt_switch_def)

lemma UNIV_nmt_command:
  "(UNIV :: CO_NMT_command_t set) = {CO_NMT_ENTER_OPERATIONAL, CO_NMT_ENTER_STOPPED, CO_NMT_ENTER_PRE_OPERATIONAL,
     CO_NMT_RESET_NODE, CO_NMT_RESET_COMMUNICATION}"
  by (auto intro: CO_NMT_command_t.exhaust)

lemma nmt_switch_None: "nmt_switch er N x = None \<longleftrightarrow> x \<notin> range nmt_command_code"
  unfolding UNIV_nmt_command by (simp add: nmt_switch_def)

lemma nmt_switch_fields:
  assumes "nmt_switch er N c = Some N'"
  shows "nmt_operatingStatePrev N' = nmt_operatingStatePrev N \<and> nmt_nodeId N' = nmt_nodeId N \<and>
    nmt_NMT_TXbuff N' = nmt_NMT_TXbuff N \<and> nmt_HB_TXbuff N' = nmt_HB_TXbuff N \<and>
    (nmt_operatingState N' = nmt_operatingState N \<or>
     nmt_operatingState N' \<in> {CO_NMT_OPERATIONAL, CO_NMT_STOPPED, CO_NMT_PRE_OPERATIONAL}) \<and>
    (nmt_operatingState N' = CO_NMT_OPERATIONAL \<longrightarrow> nmt_operatingState N = CO_NMT_OPERATIONAL \<or> er = 0) \<and>
    (nmt_resetCommand N' = nmt_resetCommand N \<or> nmt_resetCommand N' \<in> {CO_RESET_APP, CO_RESET_COMM})"
  using assms by (auto simp: nmt_switch_def split: if_splits)

lemma CO_NMT_receive_obeyed:
  assumes "rxm_DLC msg = 2" "rxm_data msg ! 1 = 0 \<or> rxm_data msg ! 1 = nmt_nodeId N"
    and "nmt_switch er N (rxm_data msg ! 0) = Some N1"
  shows "nmt_operatingState (CO_NMT_receive er N msg) = nmt_operatingState N1 \<and>
    nmt_resetCommand (CO_NMT_receive er N msg) = nmt_resetCommand N1 \<and>
    nmt_changes (CO_NMT_receive er N msg) = nmt_changes N1 @
      (if nmt_pFunctNMT N1 \<and> nmt_operatingState N \<noteq> nmt_operatingState N1 then [nmt_operatingState N1] else [])"
  using assms by (simp add: CO_NMT_receive_def Let_def nmt_notify_changes)

text \<open>
  C35: \<^verbatim>\<open>CO_NMT_receive\<close> obeys exactly the messages of two bytes that name this node or all nodes: a start
  command makes the node operational only while its error register is zero, the stop and
  pre-operational commands always take effect, the two reset commands are recorded for
  \<^verbatim>\<open>CO_NMT_process\<close> to return. The registered callback is called exactly when the state changes. Every
  other message leaves the object unchanged.
\<close>

theorem CO_NMT_receive_correct:
  assumes "N' = CO_NMT_receive er N msg"
  shows "(rxm_DLC msg \<noteq> 2 \<or> rxm_data msg ! 1 \<noteq> 0 \<and> rxm_data msg ! 1 \<noteq> nmt_nodeId N \<or>
          rxm_data msg ! 0 \<notin> range nmt_command_code \<longrightarrow> N' = N) \<and>
    (\<forall>c. rxm_DLC msg = 2 \<and> (rxm_data msg ! 1 = 0 \<or> rxm_data msg ! 1 = nmt_nodeId N) \<and>
         rxm_data msg ! 0 = nmt_command_code c \<longrightarrow>
       nmt_operatingState N' =
         (case c of CO_NMT_ENTER_OPERATIONAL \<Rightarrow> (if er = 0 then CO_NMT_OPERATIONAL else nmt_operatingState N)
          | CO_NMT_ENTER_STOPPED \<Rightarrow> CO_NMT_STOPPED | CO_NMT_ENTER_PRE_OPERATIONAL \<Rightarrow> CO_NMT_PRE_OPERATIONAL
          | _ \<Rightarrow> nmt_operatingState N) \<and>
       nmt_resetCommand N' =
         (case c of CO_NMT_RESET_NODE \<Rightarrow> CO_RESET_APP | CO_NMT_RESET_COMMUNICATION \<Rightarrow> CO_RESET_COMM
          | _ \<Rightarrow> nmt_resetCommand N) \<and>
       nmt_changes N' = nmt_changes N @
         (if nmt_pFunctNMT N \<and> nmt_operatingState N' \<noteq> nmt_operatingState N then [nmt_operatingState N'] else []))"
proof (rule conjI; intro impI allI)
  assume "rxm_DLC msg \<noteq> 2 \<or> rxm_data msg ! 1 \<noteq> 0 \<and> rxm_data msg ! 1 \<noteq> nmt_nodeId N \<or>
          rxm_data msg ! 0 \<notin> range nmt_command_code"
  then show "N' = N" using nmt_switch_None [of er N "rxm_data msg ! 0"] by (auto simp: assms CO_NMT_receive_def Let_def)
next
  fix c
  assume a: "rxm_DLC msg = 2 \<and> (rxm_data msg ! 1 = 0 \<or> rxm_data msg ! 1 = nmt_nodeId N) \<and>
         rxm_data msg ! 0 = nmt_command_code c"
  show "nmt_operatingState N' =
         (case c of CO_NMT_ENTER_OPERATIONAL \<Rightarrow> (if er = 0 then CO_NMT_OPERATIONAL else nmt_operatingState N)
          | CO_NMT_ENTER_STOPPED \<Rightarrow> CO_NMT_STOPPED | CO_NMT_ENTER_PRE_OPERATIONAL \<Rightarrow> CO_NMT_PRE_OPERATIONAL
          | _ \<Rightarrow> nmt_operatingState N) \<and>
       nmt_resetCommand N' =
         (case c of CO_NMT_RESET_NODE \<Rightarrow> CO_RESET_APP | CO_NMT_RESET_COMMUNICATION \<Rightarrow> CO_RESET_COMM
          | _ \<Rightarrow> nmt_resetCommand N) \<and>
       nmt_changes N' = nmt_changes N @
         (if nmt_pFunctNMT N \<and> nmt_operatingState N' \<noteq> nmt_operatingState N then [nmt_operatingState N'] else [])"
    using CO_NMT_receive_obeyed [of msg N er] a
    by (cases c) (auto simp: assms nmt_switch_def split: if_splits)
qed

definition example_nmt :: CO_NMT_t where
  "example_nmt = \<lparr>nmt_operatingState = CO_NMT_PRE_OPERATIONAL, nmt_operatingStatePrev = CO_NMT_PRE_OPERATIONAL,
     nmt_resetCommand = CO_RESET_NOT, nmt_nodeId = 5, nmt_HBproducerTimer = 0, nmt_firstHBTime = 500000,
     nmt_NMT_TXbuff = Some 2, nmt_HB_TXbuff = Some 1, nmt_pFunctSignalPre = False, nmt_pFunctNMT = True,
     nmt_signals = 0, nmt_changes = []\<rparr>"

theorem CO_NMT_receive_correct_witness:
  "nmt_operatingState (CO_NMT_receive 0 example_nmt \<lparr>rxm_ident = 0, rxm_DLC = 2, rxm_data = [1, 5, 0, 0, 0, 0, 0, 0]\<rparr>)
     = CO_NMT_OPERATIONAL"
  using CO_NMT_receive_correct [OF refl, where er = 0 and N = example_nmt and msg = "\<lparr>rxm_ident = 0, rxm_DLC = 2, rxm_data = [1, 5, 0, 0, 0, 0, 0, 0]\<rparr>"]
  by (auto simp: example_nmt_def dest!: spec [where x = CO_NMT_ENTER_OPERATIONAL])

text \<open>
  \<^verbatim>\<open>CO_NMT_sendCommand\<close> puts the command and the addressed node into one message and passes it to the
  device when its buffer is free, and applies the command to the node itself exactly when the message
  addresses it (by its own number or by 0), with the same effect as a received command.
\<close>

theorem CO_NMT_sendCommand_correct:
  assumes "bus_dev_inv bus" "nmt_NMT_TXbuff N = Some b" "b < unat (can_txSize (bus_can bus))"
    and "\<not> tx_bufferFull (bus_buf bus b)" "tx_data (bus_buf bus b) = d0 # d1 # ds"
    and "(if target = 0 \<or> target = nmt_nodeId N then nmt_switch er N (nmt_command_code c) else Some N) = Some N1"
  shows "\<exists>err bus' r. CO_NMT_sendCommand env er (Some N) bus c target = Some (err, Some N1, bus') \<and>
    bus_dev_inv bus' \<and> (0 \<le> r \<longrightarrow> err = CO_ERROR_NO) \<and>
    can_sent (bus_can bus') = can_sent (bus_can bus) @
      [((tx_ident (bus_buf bus b), tx_DLC (bus_buf bus b), nmt_command_code c # target # ds), r)]"
proof -
  define b1 where "b1 = bus_upd_buf bus b (\<lambda>t. t\<lparr>tx_data := (tx_data t)[0 := nmt_command_code c, 1 := target]\<rparr>)"
  have len: "b < length (can_txArray (bus_can bus))" using assms by (simp add: bus_dev_inv_def bus_inv_def)
  have inv: "bus_dev_inv b1" using assms(1) by (simp add: b1_def bus_dev_inv_def)
  have ready: "bus_ready b1 b"
    using assms(1,4) len by (simp add: bus_ready_def b1_def bus_buf_upd bus_dev_inv_def)
  have tx: "nmt_NMT_TXbuff N1 = Some b"
    using assms(2,6) nmt_switch_fields by (metis option.inject)
  obtain err b2 where s: "CO_CANsend env b1 (Some b) = (err, b2)" by fastforce
  have run: "CO_NMT_sendCommand env er (Some N) bus c target = Some (err, Some N1, b2)"
    using assms(6) tx s by (simp add: CO_NMT_sendCommand_def Let_def b1_def)
  have fr: "tx_frame (bus_buf b1 b) = (tx_ident (bus_buf bus b), tx_DLC (bus_buf bus b), nmt_command_code c # target # ds)"
    using len assms(5) by (simp add: b1_def bus_buf_upd tx_frame_def)
  have "bus_dev_inv b2" using cs.invar_send [OF inv, of b env] s assms(3) by (simp add: b1_def)
  moreover have "can_sent (bus_can b2) = can_sent (bus_can bus) @
      [((tx_ident (bus_buf bus b), tx_DLC (bus_buf bus b), nmt_command_code c # target # ds),
        env_write env (can_sent (bus_can b1)) (tx_frame (bus_buf b1 b)))]"
    using CO_CANsend_ready [OF ready, of env] s fr by (simp add: b1_def)
  moreover have "0 \<le> env_write env (can_sent (bus_can b1)) (tx_frame (bus_buf b1 b)) \<longrightarrow> err = CO_ERROR_NO"
    using s ready by (auto simp: CO_CANsend_def bus_ready_def Let_def EBUSY_def split: if_splits)
  ultimately show ?thesis using run by blast
qed

theorem CO_NMT_sendCommand_correct_witness:
  "\<exists>err bus' r. CO_NMT_sendCommand (example_env 16) 0 (Some example_nmt) example_bus CO_NMT_ENTER_STOPPED 0 =
     Some (err, Some (example_nmt\<lparr>nmt_operatingState := CO_NMT_STOPPED\<rparr>), bus') \<and>
     can_sent (bus_can bus') = [((0, 2, [2, 0, 0, 0, 0, 0, 0, 0]), r)]"
proof -
  have "nmt_NMT_TXbuff example_nmt = Some 2" "2 < unat (can_txSize (bus_can example_bus))"
    "\<not> tx_bufferFull (bus_buf example_bus 2)" "tx_data (bus_buf example_bus 2) = 0 # 0 # [0, 0, 0, 0, 0, 0]"
    "tx_ident (bus_buf example_bus 2) = 0" "tx_DLC (bus_buf example_bus 2) = 2" "can_sent (bus_can example_bus) = []"
    "nmt_switch 0 example_nmt 2 = Some (example_nmt\<lparr>nmt_operatingState := CO_NMT_STOPPED\<rparr>)"
    by (simp_all add: example_nmt_def example_bus_def bus_buf_def example_tx_def nmt_switch_def)
  from CO_NMT_sendCommand_correct [OF example_bus_inv this(1-4), of 0 0 CO_NMT_ENTER_STOPPED
      "example_nmt\<lparr>nmt_operatingState := CO_NMT_STOPPED\<rparr>" "example_env 16"] this(5-)
  show ?thesis by auto
qed


subsection \<open>Boot-up and heartbeat\<close>

definition nmt_due :: "CO_NMT_t \<Rightarrow> u32 \<Rightarrow> u16 \<Rightarrow> bool" where
  \<comment> \<open>a boot-up message or a heartbeat has to be sent in this call\<close>
  "nmt_due N dt hb \<longleftrightarrow> nmt_operatingState N = CO_NMT_INITIALIZING \<or>
     ucast hb * 1000 \<noteq> (0 :: u32) \<and>
       (ucast hb * 1000 \<le> nmt_HBproducerTimer N + dt \<or> nmt_operatingState N \<noteq> nmt_operatingStatePrev N)"

definition nmt_hb_bus :: "can_env \<Rightarrow> CO_NMT_t \<Rightarrow> co_bus \<Rightarrow> nat \<Rightarrow> co_bus" where
  "nmt_hb_bus env N bus b = snd (CO_CANsend env (bus_upd_buf bus b
     (\<lambda>t. t\<lparr>tx_data := (tx_data t)[0 := nmt_state_code (nmt_operatingState N)]\<rparr>)) (Some b))"

definition nmt_booted :: "CO_NMT_t \<Rightarrow> u32 \<Rightarrow> u16 \<Rightarrow> u32 \<Rightarrow> CO_NMT_t" where
  \<comment> \<open>the object after the part that sends, before errors are looked at\<close>
  "nmt_booted N dt hb startup =
     (let HBtime = ucast hb * 1000
      in if \<not> nmt_due N dt hb then N\<lparr>nmt_HBproducerTimer := nmt_HBproducerTimer N + dt\<rparr>
         else if nmt_operatingState N = CO_NMT_INITIALIZING then
           N\<lparr>nmt_HBproducerTimer := (if nmt_firstHBTime N < HBtime then HBtime - nmt_firstHBTime N else 0),
             nmt_operatingState := (if startup = 8 then CO_NMT_OPERATIONAL else CO_NMT_PRE_OPERATIONAL)\<rparr>
         else N\<lparr>nmt_HBproducerTimer := 0\<rparr>)"

definition nmt_after :: "CO_EM_t \<Rightarrow> CO_NMT_t \<Rightarrow> u32 \<Rightarrow> u16 \<Rightarrow> u32 \<Rightarrow> u8 \<Rightarrow> u8 list option \<Rightarrow> CO_NMT_t" where
  "nmt_after em N dt hb startup er eb =
     (let N2 = nmt_booted N dt hb startup
      in nmt_errors em (N2\<lparr>nmt_operatingStatePrev := nmt_operatingState N2\<rparr>) er eb (ucast hb * 1000))"

lemma nmt_heartbeat_eq:
  assumes "nmt_HB_TXbuff N = Some b"
  shows "nmt_heartbeat env (N\<lparr>nmt_HBproducerTimer := nmt_HBproducerTimer N + dt\<rparr>) bus (ucast hb * 1000) startup =
    Some (nmt_booted N dt hb startup, if nmt_due N dt hb then nmt_hb_bus env N bus b else bus)"
  using assms
  by (auto simp: nmt_heartbeat_def nmt_booted_def nmt_due_def nmt_hb_bus_def Let_def)

lemma CO_NMT_process_runs:
  assumes "nmt_HB_TXbuff N = Some b" "bus1 = (if nmt_due N dt hb then nmt_hb_bus env N bus b else bus)"
    and "N3 = nmt_after (bus_em bus1) N dt hb startup er eb"
  shows "\<exists>N' tn'. CO_NMT_process env N bus dt hb startup er eb tn = Some (nmt_resetCommand N3, N', bus1, tn') \<and>
    N' = (if nmt_operatingState N \<noteq> nmt_operatingState N3 \<and> nmt_pFunctNMT N3 then nmt_call_changed N3 else N3) \<and>
    (nmt_operatingState N \<noteq> nmt_operatingState N3 \<longrightarrow> tn' = map_option (\<lambda>_. 0) tn) \<and>
    (nmt_operatingState N = nmt_operatingState N3 \<and> hb = 0 \<longrightarrow> tn' = tn) \<and>
    (nmt_operatingState N = nmt_operatingState N3 \<and> ucast hb * 1000 \<noteq> (0 :: u32) \<longrightarrow>
       tn' = (if nmt_HBproducerTimer N3 < ucast hb * 1000
              then lower_timer tn (ucast hb * 1000 - nmt_HBproducerTimer N3) else map_option (\<lambda>_. 0) tn))"
  using assms
  by (auto simp: CO_NMT_process_def nmt_heartbeat_eq [OF assms(1)] nmt_after_def Let_def lower_timer_def option.map_comp comp_def)


lemma CO_NMT_process_result:
  assumes "nmt_HB_TXbuff N = Some b"
    and "CO_NMT_process env N bus dt hb startup er eb tn = Some (cmd, N', bus', tn')"
  shows "bus' = (if nmt_due N dt hb then nmt_hb_bus env N bus b else bus) \<and>
    cmd = nmt_resetCommand (nmt_after (bus_em bus') N dt hb startup er eb) \<and>
    N' \<in> {nmt_after (bus_em bus') N dt hb startup er eb, nmt_call_changed (nmt_after (bus_em bus') N dt hb startup er eb)}"
  using CO_NMT_process_runs [OF assms(1) refl refl, where dt = dt and hb = hb and env = env and bus = bus and startup = startup
      and er = er and eb = eb and tn = tn] assms(2) by (auto split: if_splits)

lemma nmt_hb_bus_inv:
  assumes "bus_dev_inv bus" "b < unat (can_txSize (bus_can bus))"
  shows "bus_dev_inv (nmt_hb_bus env N bus b) \<and>
    can_txSize (bus_can (nmt_hb_bus env N bus b)) = can_txSize (bus_can bus)"
proof -
  let ?b1 = "bus_upd_buf bus b (\<lambda>t. t\<lparr>tx_data := (tx_data t)[0 := nmt_state_code (nmt_operatingState N)]\<rparr>)"
  have "bus_inv ?b1" using assms(1) by (simp add: bus_dev_inv_def)
  from CO_CANsend_keeps [OF this refl, of env "Some b"] assms(1) show ?thesis
    by (simp add: nmt_hb_bus_def bus_dev_inv_def)
qed

lemma nmt_hb_bus_sent:
  assumes "bus_dev_inv bus" "b < unat (can_txSize (bus_can bus))"
  shows "\<exists>r. can_sent (bus_can (nmt_hb_bus env N bus b)) = can_sent (bus_can bus) @
    (if tx_bufferFull (bus_buf bus b) then []
     else [((tx_ident (bus_buf bus b), tx_DLC (bus_buf bus b),
             (tx_data (bus_buf bus b))[0 := nmt_state_code (nmt_operatingState N)]), r)])"
proof -
  define bus1 where "bus1 = bus_upd_buf bus b (\<lambda>t. t\<lparr>tx_data := (tx_data t)[0 := nmt_state_code (nmt_operatingState N)]\<rparr>)"
  have len: "b < length (can_txArray (bus_can bus))" using assms by (simp add: bus_dev_inv_def bus_inv_def)
  have "bus_ready bus1 b = (\<not> tx_bufferFull (bus_buf bus b))"
    using assms(1) len by (auto simp: bus_ready_def bus1_def bus_buf_upd bus_dev_inv_def)
  moreover have "tx_frame (bus_buf bus1 b) = (tx_ident (bus_buf bus b), tx_DLC (bus_buf bus b),
             (tx_data (bus_buf bus b))[0 := nmt_state_code (nmt_operatingState N)])"
    using len by (simp add: bus1_def bus_buf_upd tx_frame_def)
  moreover have "can_sent (bus_can bus1) = can_sent (bus_can bus)" by (simp add: bus1_def)
  ultimately show ?thesis
    using CO_CANsend_ready [of bus1 b env] CO_CANsend_not_ready [of bus1 b env]
    by (cases "bus_ready bus1 b") (auto simp: nmt_hb_bus_def bus1_def)
qed

lemma nmt_errors_fields [simp]:
  "nmt_operatingStatePrev (nmt_errors em N er eb h) = nmt_operatingStatePrev N"
  "nmt_resetCommand (nmt_errors em N er eb h) = nmt_resetCommand N"
  "nmt_nodeId (nmt_errors em N er eb h) = nmt_nodeId N"
  "nmt_NMT_TXbuff (nmt_errors em N er eb h) = nmt_NMT_TXbuff N"
  "nmt_HB_TXbuff (nmt_errors em N er eb h) = nmt_HB_TXbuff N"
  "nmt_pFunctNMT (nmt_errors em N er eb h) = nmt_pFunctNMT N"
  "nmt_changes (nmt_errors em N er eb h) = nmt_changes N"
  by (simp_all add: nmt_errors_def Let_def split: option.split)

lemma nmt_booted_fields [simp]:
  "nmt_resetCommand (nmt_booted N dt hb su) = nmt_resetCommand N"
  "nmt_nodeId (nmt_booted N dt hb su) = nmt_nodeId N"
  "nmt_NMT_TXbuff (nmt_booted N dt hb su) = nmt_NMT_TXbuff N"
  "nmt_HB_TXbuff (nmt_booted N dt hb su) = nmt_HB_TXbuff N"
  "nmt_pFunctNMT (nmt_booted N dt hb su) = nmt_pFunctNMT N"
  "nmt_changes (nmt_booted N dt hb su) = nmt_changes N"
  by (simp_all add: nmt_booted_def Let_def)

lemma nmt_booted_state:
  "nmt_operatingState (nmt_booted N dt hb su) =
     (if nmt_operatingState N = CO_NMT_INITIALIZING
      then (if su = 8 then CO_NMT_OPERATIONAL else CO_NMT_PRE_OPERATIONAL) else nmt_operatingState N)"
  by (simp add: nmt_booted_def nmt_due_def Let_def)

lemma nmt_behave_cases: "nmt_behave x st \<in> {CO_NMT_PRE_OPERATIONAL, CO_NMT_STOPPED, st}"
  by (simp add: nmt_behave_def)

lemma nmt_error_state_cases:
  "nmt_error_state em er eb st \<in> {CO_NMT_PRE_OPERATIONAL, CO_NMT_STOPPED, st}"
  by (simp add: nmt_error_state_def nmt_behave_def Let_def)

lemma nmt_errors_state:
  "nmt_operatingState (nmt_errors em N er eb h) = nmt_operatingState N \<or>
   nmt_operatingState N = CO_NMT_OPERATIONAL \<and>
     nmt_operatingState (nmt_errors em N er eb h) \<in> {CO_NMT_PRE_OPERATIONAL, CO_NMT_STOPPED}"
  using nmt_error_state_cases [of em _ _ CO_NMT_OPERATIONAL]
  by (auto simp: nmt_errors_def Let_def split: option.split)

lemma nmt_after_fields [simp]:
  "nmt_resetCommand (nmt_after em N dt hb su er eb) = nmt_resetCommand N"
  "nmt_nodeId (nmt_after em N dt hb su er eb) = nmt_nodeId N"
  "nmt_NMT_TXbuff (nmt_after em N dt hb su er eb) = nmt_NMT_TXbuff N"
  "nmt_HB_TXbuff (nmt_after em N dt hb su er eb) = nmt_HB_TXbuff N"
  "nmt_pFunctNMT (nmt_after em N dt hb su er eb) = nmt_pFunctNMT N"
  "nmt_changes (nmt_after em N dt hb su er eb) = nmt_changes N"
  by (simp_all add: nmt_after_def Let_def)

lemma nmt_after_state:
  "nmt_operatingState (nmt_after em N dt hb su er eb) =
     nmt_operatingState (nmt_booted N dt hb su) \<or>
   nmt_operatingState (nmt_booted N dt hb su) = CO_NMT_OPERATIONAL \<and>
     nmt_operatingState (nmt_after em N dt hb su er eb) \<in> {CO_NMT_PRE_OPERATIONAL, CO_NMT_STOPPED}"
  using nmt_errors_state [of em "(nmt_booted N dt hb su)\<lparr>nmt_operatingStatePrev := nmt_operatingState (nmt_booted N dt hb su)\<rparr>"]
  by (simp add: nmt_after_def Let_def)

text \<open>
  The first call of \<^verbatim>\<open>CO_NMT_process\<close> after initialisation sends the boot-up message (state 0) when the
  heartbeat buffer is free, whatever the heartbeat time is, and leaves the initialising state: to
  operational when object \<^verbatim>\<open>0x1F80\<close> holds 8 and no error forbids it, to pre-operational or stopped
  otherwise.
\<close>

theorem CO_NMT_process_boots:
  assumes "nmt_operatingState N = CO_NMT_INITIALIZING" "nmt_HB_TXbuff N = Some b"
    and "bus_dev_inv bus" "b < unat (can_txSize (bus_can bus))"
  shows "\<exists>cmd N' bus' tn' r. CO_NMT_process env N bus dt hb startup er eb tn = Some (cmd, N', bus', tn') \<and>
    bus_dev_inv bus' \<and> nmt_operatingState N' \<in> {CO_NMT_PRE_OPERATIONAL, CO_NMT_OPERATIONAL, CO_NMT_STOPPED} \<and>
    (nmt_operatingState N' = CO_NMT_OPERATIONAL \<longrightarrow> startup = 8) \<and> tn' = map_option (\<lambda>_. 0) tn \<and>
    can_sent (bus_can bus') = can_sent (bus_can bus) @
      (if tx_bufferFull (bus_buf bus b) then []
       else [((tx_ident (bus_buf bus b), tx_DLC (bus_buf bus b), (tx_data (bus_buf bus b))[0 := 0]), r)])"
proof -
  have due: "nmt_due N dt hb" using assms(1) by (simp add: nmt_due_def)
  define bus1 where "bus1 = nmt_hb_bus env N bus b"
  define N3 where "N3 = nmt_after (bus_em bus1) N dt hb startup er eb"
  have st: "nmt_operatingState N3 \<in> {CO_NMT_PRE_OPERATIONAL, CO_NMT_OPERATIONAL, CO_NMT_STOPPED}"
    "nmt_operatingState N3 = CO_NMT_OPERATIONAL \<longrightarrow> startup = 8"
    using nmt_after_state [of "bus_em bus1" N dt hb startup er eb] nmt_booted_state [of N dt hb startup] assms(1)
    by (auto simp: N3_def split: if_splits)
  have ne: "nmt_operatingState N \<noteq> nmt_operatingState N3" using st(1) assms(1) by auto
  obtain N' tn' where run: "CO_NMT_process env N bus dt hb startup er eb tn = Some (nmt_resetCommand N3, N', bus1, tn')"
    "nmt_operatingState N' = nmt_operatingState N3" "tn' = map_option (\<lambda>_. 0) tn"
    using CO_NMT_process_runs [OF assms(2), of bus1 dt hb env bus N3 startup er eb tn] due ne
    by (auto simp: bus1_def N3_def split: if_splits)
  obtain r where "can_sent (bus_can bus1) = can_sent (bus_can bus) @
      (if tx_bufferFull (bus_buf bus b) then []
       else [((tx_ident (bus_buf bus b), tx_DLC (bus_buf bus b), (tx_data (bus_buf bus b))[0 := 0]), r)])"
    using nmt_hb_bus_sent [OF assms(3,4), of env N] unfolding assms(1) nmt_state_code.simps bus1_def by blast
  moreover have "bus_dev_inv bus1" using nmt_hb_bus_inv [OF assms(3,4)] by (simp add: bus1_def)
  ultimately show ?thesis using run st by (metis (no_types, lifting))
qed


definition example_boot :: CO_NMT_t where
  "example_boot = example_nmt\<lparr>nmt_operatingState := CO_NMT_INITIALIZING, nmt_operatingStatePrev := CO_NMT_INITIALIZING\<rparr>"

lemma example_hb_buffer:
  "1 < unat (can_txSize (bus_can example_bus))" "\<not> tx_bufferFull (bus_buf example_bus 1)"
  "tx_ident (bus_buf example_bus 1) = 0x700" "tx_DLC (bus_buf example_bus 1) = 1"
  "tx_data (bus_buf example_bus 1) = [0, 0, 0, 0, 0, 0, 0, 0]" "can_sent (bus_can example_bus) = []"
  by (simp_all add: example_bus_def bus_buf_def example_tx_def)

theorem CO_NMT_process_boots_witness:
  "\<exists>cmd N' bus' tn' r. CO_NMT_process (example_env 0) example_boot example_bus 1000 0 0 0 None None = Some (cmd, N', bus', tn') \<and>
     nmt_operatingState N' \<noteq> CO_NMT_OPERATIONAL \<and>
     can_sent (bus_can bus') = [((0x700, 1, [0, 0, 0, 0, 0, 0, 0, 0]), r)]"
proof -
  have "nmt_operatingState example_boot = CO_NMT_INITIALIZING" "nmt_HB_TXbuff example_boot = Some 1"
    by (simp_all add: example_boot_def example_nmt_def)
  from CO_NMT_process_boots [OF this example_bus_inv example_hb_buffer(1), of "example_env 0" 1000 0 0 0 None None]
  show ?thesis using example_hb_buffer by auto
qed

text \<open>
  Once the node is booted, a call of \<^verbatim>\<open>CO_NMT_process\<close> sends a heartbeat exactly when the producer is
  enabled and either its time has elapsed or the state changed since the last call (and the buffer is
  free): the frame carries the current state, and nothing else is sent.
\<close>

theorem CO_NMT_process_heartbeat:
  assumes "nmt_operatingState N \<noteq> CO_NMT_INITIALIZING" "nmt_HB_TXbuff N = Some b"
    and "bus_dev_inv bus" "b < unat (can_txSize (bus_can bus))"
    and "CO_NMT_process env N bus dt hb startup er eb tn = Some (cmd, N', bus', tn')"
  shows "bus_dev_inv bus' \<and> cmd = nmt_resetCommand N \<and>
    (\<exists>r. can_sent (bus_can bus') = can_sent (bus_can bus) @
      (if ucast hb * 1000 \<noteq> (0 :: u32) \<and> \<not> tx_bufferFull (bus_buf bus b) \<and>
          (ucast hb * 1000 \<le> nmt_HBproducerTimer N + dt \<or> nmt_operatingState N \<noteq> nmt_operatingStatePrev N)
       then [((tx_ident (bus_buf bus b), tx_DLC (bus_buf bus b),
               (tx_data (bus_buf bus b))[0 := nmt_state_code (nmt_operatingState N)]), r)]
       else []))"
proof -
  have due: "nmt_due N dt hb \<longleftrightarrow> ucast hb * 1000 \<noteq> (0 :: u32) \<and>
      (ucast hb * 1000 \<le> nmt_HBproducerTimer N + dt \<or> nmt_operatingState N \<noteq> nmt_operatingStatePrev N)"
    using assms(1) by (simp add: nmt_due_def)
  have bus': "bus' = (if nmt_due N dt hb then nmt_hb_bus env N bus b else bus)" and cmd: "cmd = nmt_resetCommand N"
    using CO_NMT_process_result [OF assms(2,5)] by auto
  show ?thesis
  proof (cases "nmt_due N dt hb")
    case True
    then show ?thesis
      using nmt_hb_bus_inv [OF assms(3,4), of env N] nmt_hb_bus_sent [OF assms(3,4), of env N] due bus' cmd
      by (cases "tx_bufferFull (bus_buf bus b)") auto
  next
    case False
    then show ?thesis using due bus' cmd assms(3) by auto
  qed
qed

theorem CO_NMT_process_heartbeat_witness:
  "\<exists>cmd N' bus' tn' r. CO_NMT_process (example_env 0) example_nmt example_bus 1000000 1000 0 0 None None = Some (cmd, N', bus', tn') \<and>
     can_sent (bus_can bus') = [((0x700, 1, [127, 0, 0, 0, 0, 0, 0, 0]), r)]"
proof -
  have N: "nmt_operatingState example_nmt \<noteq> CO_NMT_INITIALIZING" "nmt_HB_TXbuff example_nmt = Some 1"
    "nmt_HBproducerTimer example_nmt = 0" "nmt_operatingState example_nmt = CO_NMT_PRE_OPERATIONAL"
    by (simp_all add: example_nmt_def)
  obtain cmd N' bus' tn' where r: "CO_NMT_process (example_env 0) example_nmt example_bus 1000000 1000 0 0 None None =
      Some (cmd, N', bus', tn')"
    using CO_NMT_process_runs [OF N(2) refl refl] by blast
  from CO_NMT_process_heartbeat [OF N(1,2) example_bus_inv example_hb_buffer(1) r] r show ?thesis
    using example_hb_buffer N by auto
qed

subsection \<open>Reaction to errors\<close>

lemma word_or_eq_0: "x OR y = 0 \<longleftrightarrow> x = 0 \<and> y = (0 :: 'a::len word)"
  by (auto simp: bit_eq_iff bit_simps)

lemma nmt_default_reaction:
  "(if e \<noteq> 0 then nmt_error_state em e [0, 0, 0, 0, 0, 0] CO_NMT_OPERATIONAL else CO_NMT_OPERATIONAL) =
   (if e AND (CO_ERR_REG_GENERIC_ERR OR CO_ERR_REG_COMM_ERR OR CO_ERR_REG_DEV_PROFILE OR CO_ERR_REG_MANUFACTURER) \<noteq> 0
    then CO_NMT_PRE_OPERATIONAL else CO_NMT_OPERATIONAL)"
proof -
  have "e AND (CO_ERR_REG_GENERIC_ERR OR CO_ERR_REG_COMM_ERR OR CO_ERR_REG_DEV_PROFILE OR CO_ERR_REG_MANUFACTURER) = 0 \<longleftrightarrow>
      e AND CO_ERR_REG_GENERIC_ERR = 0 \<and> e AND CO_ERR_REG_COMM_ERR = 0 \<and> e AND CO_ERR_REG_DEV_PROFILE = 0 \<and>
      e AND CO_ERR_REG_MANUFACTURER = 0"
    by (simp only: bit.conj_disj_distrib word_or_eq_0 conj_assoc)
  then show ?thesis by (simp add: nmt_error_state_def nmt_behave_def)
qed

lemma CO_NMT_process_default_reaction:
  assumes "nmt_HB_TXbuff N = Some b" "nmt_operatingState N = CO_NMT_OPERATIONAL"
    and "CO_NMT_process env N bus dt hb startup er (Some [0, 0, 0, 0, 0, 0]) tn = Some (cmd, N', bus', tn')"
    and "passive = (em_isError (bus_em bus') CO_EM_CAN_TX_BUS_PASSIVE \<or> em_isError (bus_em bus') CO_EM_CAN_RX_BUS_PASSIVE)"
    and "known = CO_ERR_REG_GENERIC_ERR OR CO_ERR_REG_COMM_ERR OR CO_ERR_REG_DEV_PROFILE OR CO_ERR_REG_MANUFACTURER"
  shows "nmt_operatingState N' =
    (if passive \<or> er AND known \<noteq> 0 then CO_NMT_PRE_OPERATIONAL else CO_NMT_OPERATIONAL)"
proof -
  let ?N3 = "nmt_after (bus_em bus') N dt hb startup er (Some [0, 0, 0, 0, 0, 0])"
  have st: "nmt_operatingState N' = nmt_operatingState ?N3"
    using CO_NMT_process_result [OF assms(1,3)]
    by auto
  have "nmt_operatingState (nmt_booted N dt hb startup) = CO_NMT_OPERATIONAL"
    by (simp add: nmt_booted_state assms(2))
  then have "nmt_operatingState ?N3 =
     (let e = (if passive then er OR 0x10 else er)
      in if e \<noteq> 0 then nmt_error_state (bus_em bus') e [0, 0, 0, 0, 0, 0] CO_NMT_OPERATIONAL else CO_NMT_OPERATIONAL)"
    by (auto simp: nmt_after_def nmt_errors_def Let_def assms(4))
  also have "\<dots> = (let e = (if passive then er OR 0x10 else er)
      in if e AND known \<noteq> 0 then CO_NMT_PRE_OPERATIONAL else CO_NMT_OPERATIONAL)"
    unfolding Let_def nmt_default_reaction assms(5) ..
  also have "(er OR 0x10) AND known \<noteq> 0"
    by (simp add: assms(5) CO_ERR_REG_defs bit.conj_disj_distrib2 word_or_eq_0)
  then have "(let e = (if passive then er OR 0x10 else er)
      in if e AND known \<noteq> 0 then CO_NMT_PRE_OPERATIONAL else CO_NMT_OPERATIONAL) =
      (if passive \<or> er AND known \<noteq> 0 then CO_NMT_PRE_OPERATIONAL else CO_NMT_OPERATIONAL)"
    by simp
  finally show ?thesis using st by simp
qed

text \<open>
  With the default error behaviour (all entries 0) no call of \<^verbatim>\<open>CO_NMT_process\<close> leaves the node
  operational while the error register shows a generic, communication, device profile or manufacturer
  error, or while the CAN controller is passive; the node is then pre-operational. Without any such error the
  call does not leave the operational state.
\<close>

theorem CO_NMT_process_error_reaction:
  assumes "nmt_HB_TXbuff N = Some b" "nmt_operatingState N = CO_NMT_OPERATIONAL"
    and "CO_NMT_process env N bus dt hb startup er (Some [0, 0, 0, 0, 0, 0]) tn = Some (cmd, N', bus', tn')"
    and "passive = (em_isError (bus_em bus') CO_EM_CAN_TX_BUS_PASSIVE \<or> em_isError (bus_em bus') CO_EM_CAN_RX_BUS_PASSIVE)"
    and "known = CO_ERR_REG_GENERIC_ERR OR CO_ERR_REG_COMM_ERR OR CO_ERR_REG_DEV_PROFILE OR CO_ERR_REG_MANUFACTURER"
  shows "nmt_operatingState N' =
    (if passive \<or> er AND known \<noteq> 0 then CO_NMT_PRE_OPERATIONAL else CO_NMT_OPERATIONAL)"
  using CO_NMT_process_default_reaction [OF assms] .

theorem CO_NMT_process_error_reaction_witness:
  "\<exists>cmd N' bus' tn'. CO_NMT_process (example_env 0) (example_nmt\<lparr>nmt_operatingState := CO_NMT_OPERATIONAL\<rparr>) example_bus
       0 0 0 0x81 (Some [0, 0, 0, 0, 0, 0]) None = Some (cmd, N', bus', tn') \<and>
     nmt_operatingState N' = CO_NMT_PRE_OPERATIONAL"
proof -
  have N: "nmt_HB_TXbuff (example_nmt\<lparr>nmt_operatingState := CO_NMT_OPERATIONAL\<rparr>) = Some 1"
    "nmt_operatingState (example_nmt\<lparr>nmt_operatingState := CO_NMT_OPERATIONAL\<rparr>) = CO_NMT_OPERATIONAL"
    by (simp_all add: example_nmt_def)
  obtain cmd N' bus' tn' where r: "CO_NMT_process (example_env 0) (example_nmt\<lparr>nmt_operatingState := CO_NMT_OPERATIONAL\<rparr>)
      example_bus 0 0 0 0x81 (Some [0, 0, 0, 0, 0, 0]) None = Some (cmd, N', bus', tn')"
    using CO_NMT_process_runs [OF N(1) refl refl] by blast
  have "(0x81 :: u8) AND (CO_ERR_REG_GENERIC_ERR OR CO_ERR_REG_COMM_ERR OR CO_ERR_REG_DEV_PROFILE OR CO_ERR_REG_MANUFACTURER) \<noteq> 0"
    by (simp add: CO_ERR_REG_defs)
  then show ?thesis using CO_NMT_process_error_reaction [OF N r refl refl] r by auto
qed


subsection \<open>Every run of the state machine\<close>

text \<open>
  The steps of the NMT object: a received message, a call of the processing function, a command sent by
  the node itself. The error register at the time of the step is arbitrary.
\<close>

inductive nmt_step :: "can_env \<Rightarrow> CO_NMT_t \<times> co_bus \<Rightarrow> CO_NMT_t \<times> co_bus \<Rightarrow> bool" for env where
  receive: "nmt_step env (N, bus) (CO_NMT_receive er N msg, bus)"
| process: "CO_NMT_process env N bus dt hb startup er eb tn = Some (cmd, N', bus', tn') \<Longrightarrow>
     nmt_step env (N, bus) (N', bus')"
| command: "CO_NMT_sendCommand env er (Some N) bus c target = Some (err, Some N', bus') \<Longrightarrow>
     nmt_step env (N, bus) (N', bus')"

lemmas nmt_steps_induct = rtranclp_induct [of "nmt_step env" "(N, bus)" "(N', bus')" for env N bus N' bus',
  split_format (complete), consumes 1, case_names refl step]

definition nmt_inv :: "CO_NMT_t \<Rightarrow> co_bus \<Rightarrow> bool" where
  "nmt_inv N bus \<longleftrightarrow> bus_dev_inv bus \<and> nmt_operatingState N \<noteq> CO_NMT_UNKNOWN \<and>
     (\<exists>h c. nmt_HB_TXbuff N = Some h \<and> nmt_NMT_TXbuff N = Some c \<and>
        h < unat (can_txSize (bus_can bus)) \<and> c < unat (can_txSize (bus_can bus)))"

definition nmt_keeps :: "CO_NMT_t \<Rightarrow> CO_NMT_t \<Rightarrow> bool" where
  "nmt_keeps N N' \<longleftrightarrow> nmt_nodeId N' = nmt_nodeId N \<and>
     (nmt_operatingState N \<noteq> CO_NMT_INITIALIZING \<longrightarrow> nmt_operatingState N' \<noteq> CO_NMT_INITIALIZING) \<and>
     (nmt_resetCommand N \<noteq> CO_RESET_NOT \<longrightarrow> nmt_resetCommand N' \<noteq> CO_RESET_NOT)"

lemma CO_NMT_receive_step:
  "nmt_inv N bus \<Longrightarrow> nmt_inv (CO_NMT_receive er N msg) bus \<and> nmt_keeps N (CO_NMT_receive er N msg)"
proof (cases "nmt_switch er N (rxm_data msg ! 0)")
  case None
  then show "nmt_inv N bus \<Longrightarrow> ?thesis" by (simp add: CO_NMT_receive_def Let_def nmt_keeps_def)
next
  case (Some N1)
  then show "nmt_inv N bus \<Longrightarrow> ?thesis"
    using nmt_switch_fields [OF Some] by (auto simp: CO_NMT_receive_def Let_def nmt_keeps_def nmt_inv_def)
qed

lemma CO_NMT_process_step:
  assumes "nmt_inv N bus" "CO_NMT_process env N bus dt hb startup er eb tn = Some (cmd, N', bus', tn')"
  shows "nmt_inv N' bus' \<and> nmt_keeps N N'"
proof -
  obtain h c where hc: "nmt_HB_TXbuff N = Some h" "nmt_NMT_TXbuff N = Some c"
      "h < unat (can_txSize (bus_can bus))" "c < unat (can_txSize (bus_can bus))"
    and inv: "bus_dev_inv bus" "nmt_operatingState N \<noteq> CO_NMT_UNKNOWN"
    using assms(1) by (auto simp: nmt_inv_def)
  define bus1 where "bus1 = (if nmt_due N dt hb then nmt_hb_bus env N bus h else bus)"
  define N3 where "N3 = nmt_after (bus_em bus1) N dt hb startup er eb"
  have N': "bus' = bus1" "nmt_operatingState N' = nmt_operatingState N3" "nmt_resetCommand N' = nmt_resetCommand N"
    "nmt_nodeId N' = nmt_nodeId N" "nmt_HB_TXbuff N' = Some h" "nmt_NMT_TXbuff N' = Some c"
    using CO_NMT_process_runs [OF hc(1) bus1_def N3_def, of tn] assms(2) hc by (auto simp: N3_def)
  have st: "nmt_operatingState N3 \<notin> {CO_NMT_UNKNOWN, CO_NMT_INITIALIZING}"
    using nmt_after_state [of "bus_em bus1" N dt hb startup er eb] nmt_booted_state [of N dt hb startup] inv(2)
    by (auto simp: N3_def split: if_splits)
  have "bus_dev_inv bus1" "can_txSize (bus_can bus1) = can_txSize (bus_can bus)"
    using nmt_hb_bus_inv [OF inv(1) hc(3), of env N] inv(1) by (simp_all add: bus1_def)
  then show ?thesis using N' st hc by (simp add: nmt_inv_def nmt_keeps_def)
qed

lemma CO_NMT_process_HB_TXbuff:
  assumes "CO_NMT_process env N bus dt hb startup er eb tn = Some (cmd, N', bus', tn')" "nmt_HB_TXbuff N = Some b"
  shows "nmt_HB_TXbuff N' = Some b"
  using CO_NMT_process_result [OF assms(2,1)] assms by auto

lemma nmt_switch_or_not:
  assumes "(if P then nmt_switch er N x else Some N) = Some N1"
  shows "nmt_nodeId N1 = nmt_nodeId N \<and> nmt_NMT_TXbuff N1 = nmt_NMT_TXbuff N \<and> nmt_HB_TXbuff N1 = nmt_HB_TXbuff N \<and>
    (nmt_operatingState N1 = nmt_operatingState N \<or>
     nmt_operatingState N1 \<in> {CO_NMT_OPERATIONAL, CO_NMT_STOPPED, CO_NMT_PRE_OPERATIONAL}) \<and>
    (nmt_resetCommand N1 = nmt_resetCommand N \<or> nmt_resetCommand N1 \<in> {CO_RESET_APP, CO_RESET_COMM})"
  using assms nmt_switch_fields [of er N x N1] by (cases P) simp_all

lemma CO_NMT_sendCommand_step:
  assumes "nmt_inv N bus" "CO_NMT_sendCommand env er (Some N) bus c target = Some (err, Some N', bus')"
  shows "nmt_inv N' bus' \<and> nmt_keeps N N'"
proof -
  obtain h t where ht: "nmt_HB_TXbuff N = Some h" "nmt_NMT_TXbuff N = Some t"
      "h < unat (can_txSize (bus_can bus))" "t < unat (can_txSize (bus_can bus))"
    and inv: "bus_dev_inv bus" "nmt_operatingState N \<noteq> CO_NMT_UNKNOWN"
    using assms(1) by (auto simp: nmt_inv_def)
  obtain N1 where N1: "(if target = 0 \<or> target = nmt_nodeId N then nmt_switch er N (nmt_command_code c) else Some N) = Some N1"
    by (cases "target = 0 \<or> target = nmt_nodeId N") (simp_all add: nmt_switch_command)
  have f: "nmt_nodeId N1 = nmt_nodeId N" "nmt_NMT_TXbuff N1 = Some t" "nmt_HB_TXbuff N1 = Some h"
    "nmt_operatingState N1 \<noteq> CO_NMT_UNKNOWN"
    "nmt_operatingState N \<noteq> CO_NMT_INITIALIZING \<Longrightarrow> nmt_operatingState N1 \<noteq> CO_NMT_INITIALIZING"
    "nmt_resetCommand N \<noteq> CO_RESET_NOT \<Longrightarrow> nmt_resetCommand N1 \<noteq> CO_RESET_NOT"
    using nmt_switch_or_not [OF N1] ht(1,2) inv(2) by simp_all auto
  define bus1 where "bus1 = bus_upd_buf bus t
      (\<lambda>b. b\<lparr>tx_data := (tx_data b)[0 := nmt_command_code c, 1 := target]\<rparr>)"
  obtain err2 bus2 where s: "CO_CANsend env bus1 (Some t) = (err2, bus2)" by fastforce
  have "CO_NMT_sendCommand env er (Some N) bus c target = Some (err2, Some N1, bus2)"
    using N1 f(2) s by (simp add: CO_NMT_sendCommand_def Let_def bus1_def)
  then have "N' = N1" "bus' = snd (CO_CANsend env bus1 (Some t))" using assms(2) s by simp_all
  moreover have "bus_inv bus1" "can_dev (bus_can bus1) \<noteq> None" "can_txSize (bus_can bus1) = can_txSize (bus_can bus)"
    using inv(1) by (simp_all add: bus1_def bus_dev_inv_def)
  ultimately have "bus_dev_inv bus' \<and> can_txSize (bus_can bus') = can_txSize (bus_can bus)"
    using CO_CANsend_keeps [of bus1 env "Some t" bus'] by (simp add: bus_dev_inv_def)
  then show ?thesis using \<open>N' = N1\<close> f ht(3,4) unfolding nmt_inv_def nmt_keeps_def by simp
qed

lemma nmt_step_inv:
  "nmt_step env (N, bus) (N', bus') \<Longrightarrow> nmt_inv N bus \<Longrightarrow> nmt_inv N' bus' \<and> nmt_keeps N N'"
  by (cases rule: nmt_step.cases)
    (auto dest: CO_NMT_receive_step CO_NMT_process_step CO_NMT_sendCommand_step)

text \<open>
  C18: in every run of received messages, processing calls and sent commands the node stays in one of its
  four states, a booted node is never initialising again, a recorded reset request is never lost, and
  the bus stays well formed.
\<close>

theorem nmt_runs_safe:
  assumes "(nmt_step env)\<^sup>*\<^sup>* (N, bus) (N', bus')" "nmt_inv N bus"
  shows "nmt_inv N' bus' \<and> nmt_nodeId N' = nmt_nodeId N \<and>
    (nmt_operatingState N \<noteq> CO_NMT_INITIALIZING \<longrightarrow> nmt_operatingState N' \<noteq> CO_NMT_INITIALIZING) \<and>
    (nmt_resetCommand N \<noteq> CO_RESET_NOT \<longrightarrow> nmt_resetCommand N' \<noteq> CO_RESET_NOT)"
proof -
  from assms(1) have "nmt_inv N' bus' \<and> nmt_keeps N N'"
  proof (induction rule: nmt_steps_induct)
    case refl
    then show ?case using assms(2) by (simp add: nmt_keeps_def)
  next
    case (step N1 bus1 N2 bus2)
    then show ?case using nmt_step_inv [of env N1 bus1 N2 bus2] by (auto simp: nmt_keeps_def)
  qed
  then show ?thesis by (simp add: nmt_keeps_def)
qed

lemma example_nmt_inv: "nmt_inv example_nmt example_bus"
  using example_bus_inv by (simp add: nmt_inv_def example_nmt_def example_bus_def)

theorem nmt_runs_safe_witness:
  "nmt_operatingState (CO_NMT_receive 0 example_nmt \<lparr>rxm_ident = 0, rxm_DLC = 2, rxm_data = [2, 0, 0, 0, 0, 0, 0, 0]\<rparr>)
     \<noteq> CO_NMT_INITIALIZING"
  using nmt_runs_safe [OF r_into_rtranclp [of "nmt_step (example_env 0)", OF nmt_step.receive] example_nmt_inv]
  by (simp add: example_nmt_def)


subsection \<open>Heartbeats keep coming\<close>

type_synonym nmt_call = "u32 \<times> u32 \<times> u8 \<times> u8 list option"

fun nmt_run :: "can_env \<Rightarrow> u16 \<Rightarrow> nmt_call list \<Rightarrow> CO_NMT_t \<Rightarrow> co_bus \<Rightarrow> (CO_NMT_t \<times> co_bus) option" where
  "nmt_run env hb [] N bus = Some (N, bus)"
| "nmt_run env hb ((dt, startup, er, eb) # cs) N bus =
     (case CO_NMT_process env N bus dt hb startup er eb None of
        None \<Rightarrow> None | Some (cmd, N', bus', tn) \<Rightarrow> nmt_run env hb cs N' bus')"

lemma hb_time: "unat (ucast (hb :: u16) * 1000 :: u32) = unat hb * 1000"
proof -
  have "unat hb * 1000 < 4294967296" using unat_u16_less [of hb] by linarith
  then show ?thesis by (simp add: unat_word_ariths unsigned_ucast_eq take_bit_nat_eq_self)
qed

definition hb_frame_of :: "CO_NMT_t \<Rightarrow> CO_CANtx_t \<Rightarrow> can_frame" where
  \<comment> \<open>the heartbeat that carries the state of the node\<close>
  "hb_frame_of N t = (tx_ident t, tx_DLC t, (tx_data t)[0 := nmt_state_code (nmt_operatingState N)])"

lemma nmt_hb_bus_frame:
  assumes "bus_dev_inv bus" "b < unat (can_txSize (bus_can bus))" "\<not> tx_bufferFull (bus_buf bus b)"
  shows "can_sent (bus_can (nmt_hb_bus env N bus b)) = can_sent (bus_can bus) @
    [(hb_frame_of N (bus_buf bus b), env_write env (can_sent (bus_can bus)) (hb_frame_of N (bus_buf bus b)))]"
proof -
  define bus1 where "bus1 = bus_upd_buf bus b (\<lambda>t. t\<lparr>tx_data := (tx_data t)[0 := nmt_state_code (nmt_operatingState N)]\<rparr>)"
  have len: "b < length (can_txArray (bus_can bus))" using assms by (simp add: bus_dev_inv_def bus_inv_def)
  have "bus_ready bus1 b" using assms(1,3) len by (auto simp: bus_ready_def bus1_def bus_buf_upd bus_dev_inv_def)
  moreover have "tx_frame (bus_buf bus1 b) = hb_frame_of N (bus_buf bus b)"
    using len by (simp add: bus1_def bus_buf_upd tx_frame_def hb_frame_of_def)
  moreover have "can_sent (bus_can bus1) = can_sent (bus_can bus)" by (simp add: bus1_def)
  ultimately show ?thesis using CO_CANsend_ready [of bus1 b env] by (simp add: nmt_hb_bus_def flip: bus1_def)
qed

lemma nmt_process_call:
  assumes "nmt_inv N bus" "nmt_operatingState N \<noteq> CO_NMT_INITIALIZING" "hb \<noteq> 0"
    and "unat (nmt_HBproducerTimer N) \<le> unat hb * 1000" "unat dt < 2 ^ 31" "nmt_HB_TXbuff N = Some b"
    and "\<not> tx_bufferFull (bus_buf bus b)"
    and "CO_NMT_process env N bus dt hb startup er eb tn = Some (cmd, N', bus', tn')"
  shows "if unat hb * 1000 \<le> unat (nmt_HBproducerTimer N) + unat dt \<or> nmt_operatingState N \<noteq> nmt_operatingStatePrev N
    then can_sent (bus_can bus') = can_sent (bus_can bus) @
      [(hb_frame_of N (bus_buf bus b), env_write env (can_sent (bus_can bus)) (hb_frame_of N (bus_buf bus b)))]
    else bus' = bus \<and>
      (unat (nmt_HBproducerTimer N') = unat (nmt_HBproducerTimer N) + unat dt \<or> unat (nmt_HBproducerTimer N') = unat hb * 1000) \<and>
      (eb = None \<longrightarrow> unat (nmt_HBproducerTimer N') = unat (nmt_HBproducerTimer N) + unat dt \<and>
         nmt_operatingState N' = nmt_operatingState N \<and> nmt_operatingStatePrev N' = nmt_operatingState N)"
proof -
  define HB where "HB = (ucast hb * 1000 :: u32)"
  have HB: "unat HB = unat hb * 1000" by (simp add: HB_def hb_time)
  have nz: "HB \<noteq> 0" using HB assms(3) by (auto simp: unat_eq_0)
  have "unat hb * 1000 < 67108864" using unat_u16_less [of hb] by linarith
  then have sum: "unat (nmt_HBproducerTimer N + dt) = unat (nmt_HBproducerTimer N) + unat dt"
    using assms(4,5) by (simp add: unat_word_ariths)
  have due: "nmt_due N dt hb \<longleftrightarrow>
      unat hb * 1000 \<le> unat (nmt_HBproducerTimer N) + unat dt \<or> nmt_operatingState N \<noteq> nmt_operatingStatePrev N"
    using assms(2) nz sum HB by (simp add: nmt_due_def word_le_nat_alt flip: HB_def)
  show ?thesis
  proof (cases "nmt_due N dt hb")
    case True
    have inv: "bus_dev_inv bus" "b < unat (can_txSize (bus_can bus))" using assms(1,6) by (auto simp: nmt_inv_def)
    have "bus' = nmt_hb_bus env N bus b" using CO_NMT_process_result [OF assms(6,8)] True by auto
    then show ?thesis using nmt_hb_bus_frame [OF inv assms(7)] True due by simp
  next
    case False
    have N3: "nmt_HBproducerTimer (nmt_after em N dt hb startup er eb) \<in> {nmt_HBproducerTimer N + dt, HB}"
      "eb = None \<longrightarrow> nmt_HBproducerTimer (nmt_after em N dt hb startup er eb) = nmt_HBproducerTimer N + dt \<and>
         nmt_operatingState (nmt_after em N dt hb startup er eb) = nmt_operatingState N \<and>
         nmt_operatingStatePrev (nmt_after em N dt hb startup er eb) = nmt_operatingState N" for em
      using False by (auto simp: nmt_after_def nmt_errors_def nmt_booted_def Let_def HB_def split: option.split)
    have eq: "bus' = bus" "N' \<in> {nmt_after (bus_em bus) N dt hb startup er eb, nmt_call_changed (nmt_after (bus_em bus) N dt hb startup er eb)}"
      using CO_NMT_process_result [OF assms(6,8)] False by auto
    have "unat (nmt_HBproducerTimer N') = unat (nmt_HBproducerTimer N) + unat dt \<or> unat (nmt_HBproducerTimer N') = unat hb * 1000"
      using eq(2) N3(1) [of "bus_em bus"] sum HB by auto
    moreover have "eb = None \<longrightarrow> unat (nmt_HBproducerTimer N') = unat (nmt_HBproducerTimer N) + unat dt \<and>
         nmt_operatingState N' = nmt_operatingState N \<and> nmt_operatingStatePrev N' = nmt_operatingState N"
      using eq(2) N3(2) [of "bus_em bus"] sum by auto
    ultimately show ?thesis using False due eq(1) by auto
  qed
qed

definition first_heartbeat :: "can_env \<Rightarrow> u16 \<Rightarrow> nmt_call list \<Rightarrow> CO_NMT_t \<Rightarrow> co_bus \<Rightarrow> nat \<Rightarrow> nmt_call list \<Rightarrow> nmt_call \<Rightarrow> bool" where
  \<comment> \<open>nothing is sent in the calls \<^verbatim>\<open>cs1\<close>, and one frame with the state of the node in the call \<^verbatim>\<open>c\<close> after them\<close>
  "first_heartbeat env hb cs N bus b cs1 c \<longleftrightarrow> (\<exists>cs2 N1 bus1 N2 bus2.
     cs = cs1 @ c # cs2 \<and> nmt_run env hb cs1 N bus = Some (N1, bus1) \<and> nmt_run env hb [c] N1 bus1 = Some (N2, bus2) \<and>
     can_sent (bus_can bus1) = can_sent (bus_can bus) \<and>
     can_sent (bus_can bus2) = can_sent (bus_can bus) @
       [(hb_frame_of N1 (bus_buf bus b), env_write env (can_sent (bus_can bus)) (hb_frame_of N1 (bus_buf bus b)))])"

lemma first_heartbeat_Cons:
  assumes "nmt_run env hb [c] N bus = Some (N1, bus)" "first_heartbeat env hb cs N1 bus b cs1 c1"
  shows "first_heartbeat env hb (c # cs) N bus b (c # cs1) c1"
proof -
  obtain dt su er eb where c: "c = (dt, su, er, eb)" by (cases c)
  have "nmt_run env hb (c # xs) N bus = nmt_run env hb xs N1 bus" for xs
    using assms(1) by (auto simp: c split: option.splits)
  then show ?thesis using assms(2) by (auto simp: first_heartbeat_def)
qed



text \<open>
  Two behaviours that the documentation of the callback and of the boot-up message does not mention. A
  command the node sends to itself changes its state without a call of the registered callback. A
  received command that arrives before the first processing call takes the node out of the initialising
  state, so the boot-up message is never sent.
\<close>

lemma CO_NMT_sendCommand_no_callback:
  assumes "CO_NMT_sendCommand env er (Some N) bus c target = Some (err, Some N', bus')"
  shows "nmt_changes N' = nmt_changes N"
  using assms
  by (auto simp: CO_NMT_sendCommand_def nmt_switch_command Let_def
      split: option.splits if_splits prod.splits CO_NMT_command_t.splits)

lemma CO_NMT_receive_before_boot:
  assumes "nmt_operatingState N = CO_NMT_INITIALIZING" "rxm_DLC msg = 2" "rxm_data msg ! 1 = 0" "rxm_data msg ! 0 = 128"
  shows "nmt_operatingState (CO_NMT_receive er N msg) = CO_NMT_PRE_OPERATIONAL"
  using CO_NMT_receive_obeyed [of msg N er] assms by (simp add: nmt_switch_def)

end
