(* ===== verification/HB_Consumer.thy ===== *)
theory HB_Consumer
  imports NMT_Heartbeat
begin

section \<open>Heartbeat consumer (\<^verbatim>\<open>301/CO_HBconsumer.c\<close>)\<close>

text \<open>
  The monitoring of other nodes: each entry of object 0x1016 names a node and a time; the consumer
  receives the heartbeats of these nodes (\<^verbatim>\<open>CO_HBcons_receive\<close>) and \<^verbatim>\<open>CO_HBconsumer_process\<close> turns a heartbeat
  that stays away, and a boot-up message of an active node, into an emergency. \<^verbatim>\<open>NMTstate\<close> of a monitored
  node is the received byte, or -1 for \<^verbatim>\<open>CO_NMT_UNKNOWN\<close>, as the value of the C enumeration; it is kept as an
  integer because any byte can arrive. The emergency object \<^verbatim>\<open>HBcons->em\<close> is passed and returned. Callback
  pointers are kept as whether they are set; \<^verbatim>\<open>hbc_events\<close> lists the calls of the four event callbacks with
  their arguments and \<^verbatim>\<open>hbc_signals\<close> counts the calls of \<^verbatim>\<open>pFunctSignalPre\<close>. The arrays have at least
  \<^verbatim>\<open>numberOfMonitoredNodes\<close> elements (\<^verbatim>\<open>hbc_inv\<close>).
\<close>

subsection \<open>State\<close>

datatype CO_HBconsumer_state_t = CO_HBconsumer_UNCONFIGURED | CO_HBconsumer_UNKNOWN | CO_HBconsumer_ACTIVE
  | CO_HBconsumer_TIMEOUT

primrec nmt_state_value :: "CO_NMT_internalState_t \<Rightarrow> int" where
  "nmt_state_value CO_NMT_UNKNOWN = -1"
| "nmt_state_value CO_NMT_INITIALIZING = 0"
| "nmt_state_value CO_NMT_PRE_OPERATIONAL = 127"
| "nmt_state_value CO_NMT_OPERATIONAL = 5"
| "nmt_state_value CO_NMT_STOPPED = 4"

record CO_HBconsNode_t =
  hbn_nodeId :: u8
  hbn_NMTstate :: int
  hbn_HBstate :: CO_HBconsumer_state_t
  hbn_timeoutTimer :: u32
  hbn_time_us :: u32
  hbn_CANrxNew :: bool
  hbn_pFunctSignalPre :: bool
  hbn_NMTstatePrev :: int
  hbn_pFunctSignalNmtChanged :: bool
  hbn_pFunctSignalHbStarted :: bool
  hbn_pFunctSignalTimeout :: bool
  hbn_pFunctSignalRemoteReset :: bool

text \<open>A call of an event callback: node identifier, index, and the state for the last one.\<close>

datatype hb_event = HbRemoteReset u8 nat | HbStarted u8 nat | HbTimeout u8 nat | HbNmtChanged u8 nat int

record CO_HBconsumer_t =
  hbc_HBconsTime :: "u32 list"
  hbc_monitoredNodes :: "CO_HBconsNode_t list"
  hbc_numberOfMonitoredNodes :: u8
  hbc_allMonitoredActive :: bool
  hbc_allMonitoredOperational :: u8
  hbc_NMTisPreOrOperationalPrev :: bool
  hbc_CANdevRxIdxStart :: u16
  hbc_events :: "hb_event list"
  hbc_signals :: nat

abbreviation (input) "CO_EMC_HEARTBEAT \<equiv> (0x8130 :: u16)"
abbreviation (input) "CO_CAN_ID_HEARTBEAT \<equiv> (0x700 :: u16)"

definition hbc_number :: "CO_HBconsumer_t \<Rightarrow> nat" where "hbc_number H = unat (hbc_numberOfMonitoredNodes H)"

definition hbc_upd_node :: "CO_HBconsumer_t \<Rightarrow> nat \<Rightarrow> (CO_HBconsNode_t \<Rightarrow> CO_HBconsNode_t) \<Rightarrow> CO_HBconsumer_t" where
  \<comment> \<open>an assignment to a field of \<^verbatim>\<open>HBcons->monitoredNodes[i]\<close>\<close>
  "hbc_upd_node H i f = H\<lparr>hbc_monitoredNodes := (hbc_monitoredNodes H)[i := f (hbc_monitoredNodes H ! i)]\<rparr>"

subsection \<open>Reception and configuration\<close>

definition CO_HBcons_receive :: "CO_HBconsumer_t \<Rightarrow> nat \<Rightarrow> CO_CANrxMsg_t \<Rightarrow> CO_HBconsumer_t" where
  \<comment> \<open>the object registered with the receive buffer is \<^verbatim>\<open>&HBcons->monitoredNodes[i]\<close>\<close>
  "CO_HBcons_receive H i msg =
     (let H1 = (if rxm_DLC msg = 1
                then hbc_upd_node H i (\<lambda>n. n\<lparr>hbn_NMTstate := uint (rxm_data msg ! 0), hbn_CANrxNew := True\<rparr>)
                else H)
      in if hbn_pFunctSignalPre (hbc_monitoredNodes H1 ! i) then H1\<lparr>hbc_signals := hbc_signals H1 + 1\<rparr> else H1)"

definition hb_time_nodeId :: "u32 \<Rightarrow> u8" where "hb_time_nodeId v = ucast (drop_bit 16 v AND 0xFF)"

definition hb_time_ms :: "u32 \<Rightarrow> u16" where "hb_time_ms v = ucast (v AND 0xFFFF)"

definition hb_conflict :: "CO_HBconsumer_t \<Rightarrow> u8 \<Rightarrow> u8 \<Rightarrow> u16 \<Rightarrow> bool" where
  \<comment> \<open>the loop of \<^verbatim>\<open>CO_HBconsumer_initEntry\<close> that looks for an entry with the same node identifier\<close>
  "hb_conflict H idx nodeId consumerTime_ms \<longleftrightarrow>
     consumerTime_ms \<noteq> 0 \<and> nodeId \<noteq> 0 \<and>
     list_ex (\<lambda>i. unat idx \<noteq> i \<and> hb_time_ms (hbc_HBconsTime H ! i) \<noteq> 0 \<and>
                  nodeId = hb_time_nodeId (hbc_HBconsTime H ! i)) [0..<hbc_number H]"

definition hb_configure :: "u8 \<Rightarrow> u16 \<Rightarrow> CO_HBconsNode_t \<Rightarrow> CO_HBconsNode_t" where
  \<comment> \<open>the assignments of \<^verbatim>\<open>CO_HBconsumer_initEntry\<close> to the monitored node\<close>
  "hb_configure nodeId consumerTime_ms n =
     (let used = nodeId \<noteq> 0 \<and> (ucast consumerTime_ms * 1000 :: u32) \<noteq> 0
      in n\<lparr>hbn_nodeId := nodeId, hbn_time_us := (if used then ucast consumerTime_ms * 1000 else 0),
           hbn_NMTstate := nmt_state_value CO_NMT_UNKNOWN, hbn_NMTstatePrev := nmt_state_value CO_NMT_UNKNOWN,
           hbn_CANrxNew := False,
           hbn_HBstate := (if used then CO_HBconsumer_UNKNOWN else CO_HBconsumer_UNCONFIGURED)\<rparr>)"

definition obj_hb_node :: "nat \<Rightarrow> nat" where "obj_hb_node i = 100 + i"

definition CO_HBconsumer_initEntry ::
    "can_env \<Rightarrow> CO_HBconsumer_t option \<Rightarrow> co_bus \<Rightarrow> u8 \<Rightarrow> u8 \<Rightarrow> u16 \<Rightarrow> CO_ReturnError_t \<times> CO_HBconsumer_t option \<times> co_bus" where
  "CO_HBconsumer_initEntry env HBcons bus idx nodeId consumerTime_ms =
     (case HBcons of
        None \<Rightarrow> (CO_ERROR_ILLEGAL_ARGUMENT, None, bus)
      | Some H \<Rightarrow>
          if hbc_numberOfMonitoredNodes H \<le> idx then (CO_ERROR_ILLEGAL_ARGUMENT, HBcons, bus)
          else if hb_conflict H idx nodeId consumerTime_ms then (CO_ERROR_ILLEGAL_ARGUMENT, HBcons, bus)
          else
            let H1 = hbc_upd_node H (unat idx) (hb_configure nodeId consumerTime_ms)
            in if hbn_HBstate (hbc_monitoredNodes H1 ! unat idx) \<noteq> CO_HBconsumer_UNCONFIGURED then
                 let (ret, bus1) = CO_CANrxBufferInit env bus (hbc_CANdevRxIdxStart H + ucast idx)
                       (ucast nodeId + CO_CAN_ID_HEARTBEAT) 0x7FF False (Some (obj_hb_node (unat idx)))
                       (Some CB_HBcons_receive)
                 in (ret, Some H1, bus1)
               else (CO_ERROR_NO, Some H1, bus))"

definition CO_ODF_1016 ::
    "can_env \<Rightarrow> CO_HBconsumer_t \<Rightarrow> co_bus \<Rightarrow> CO_ODF_arg_t \<Rightarrow> CO_SDO_abortCode_t \<times> CO_HBconsumer_t \<times> co_bus" where
  "CO_ODF_1016 env H bus arg =
     (if arg_reading arg then (CO_SDO_AB_NONE, H, bus)
      else
        let val = CO_getUint32 (arg_data arg)
        in if val AND 0xFF800000 \<noteq> 0 then (CO_SDO_AB_PRAM_INCOMPAT, H, bus)
           else
             (case CO_HBconsumer_initEntry env (Some H) bus (arg_subIndex arg - 1) (hb_time_nodeId val) (hb_time_ms val) of
                (ret, HBcons, bus1) \<Rightarrow>
                  (if ret \<noteq> CO_ERROR_NO then CO_SDO_AB_PRAM_INCOMPAT else CO_SDO_AB_NONE,
                   (case HBcons of None \<Rightarrow> H | Some H1 \<Rightarrow> H1), bus1)))"

definition hb_no_callbacks :: "CO_HBconsNode_t \<Rightarrow> CO_HBconsNode_t" where
  "hb_no_callbacks n = n\<lparr>hbn_pFunctSignalPre := False, hbn_pFunctSignalNmtChanged := False,
     hbn_pFunctSignalHbStarted := False, hbn_pFunctSignalTimeout := False, hbn_pFunctSignalRemoteReset := False\<rparr>"

text \<open>The loop of \<^verbatim>\<open>CO_HBconsumer_init\<close>; \<^verbatim>\<open>ret\<close> is the result of the last iteration.\<close>

fun hb_init_loop ::
    "can_env \<Rightarrow> nat list \<Rightarrow> CO_ReturnError_t \<Rightarrow> CO_HBconsumer_t \<Rightarrow> co_bus \<Rightarrow> CO_ReturnError_t \<times> CO_HBconsumer_t \<times> co_bus" where
  "hb_init_loop env [] ret H bus = (ret, H, bus)"
| "hb_init_loop env (i # is) ret H bus =
     (let v = hbc_HBconsTime H ! i
      in case CO_HBconsumer_initEntry env (Some H) bus (word_of_nat i) (hb_time_nodeId v) (hb_time_ms v) of
           (ret1, H1, bus1) \<Rightarrow>
             hb_init_loop env is ret1 (hbc_upd_node (case H1 of None \<Rightarrow> H | Some h \<Rightarrow> h) i hb_no_callbacks) bus1)"

definition obj_hbcons :: nat where "obj_hbcons = 5"

text \<open>
  The objects passed by pointer are arguments of the model, so the tests for \<^verbatim>\<open>NULL\<close> of \<^verbatim>\<open>CO_HBconsumer_init\<close>
  have no counterpart. \<^verbatim>\<open>None\<close> is an access outside a table in \<^verbatim>\<open>CO_OD_configure\<close>. Fields that the source does
  not assign keep the value they have in the array of nodes.
\<close>

definition CO_HBconsumer_init ::
    "can_env \<Rightarrow> co_bus \<Rightarrow> CO_SDO_OD \<Rightarrow> u32 list \<Rightarrow> CO_HBconsNode_t list \<Rightarrow> u8 \<Rightarrow> u16 \<Rightarrow>
     (CO_ReturnError_t \<times> CO_HBconsumer_t \<times> co_bus \<times> CO_SDO_OD) option" where
  "CO_HBconsumer_init env bus SDO HBconsTime monitoredNodes numberOfMonitoredNodes CANdevRxIdxStart =
     (let H0 = \<lparr>hbc_HBconsTime = HBconsTime, hbc_monitoredNodes = monitoredNodes,
                hbc_numberOfMonitoredNodes = numberOfMonitoredNodes, hbc_allMonitoredActive = False,
                hbc_allMonitoredOperational = -1, hbc_NMTisPreOrOperationalPrev = False,
                hbc_CANdevRxIdxStart = CANdevRxIdxStart, hbc_events = [], hbc_signals = 0\<rparr>;
          (ret, H1, bus1) = hb_init_loop env [0..<unat numberOfMonitoredNodes] CO_ERROR_NO H0 bus
      in map_option (\<lambda>SDO1. (ret, H1, bus1, SDO1))
           (CO_OD_configure SDO 0x1016 (Some ODF_1016) (Some obj_hbcons) None 0))"

definition CO_HBconsumer_initCallbackPre :: "CO_HBconsumer_t option \<Rightarrow> bool \<Rightarrow> CO_HBconsumer_t option" where
  "CO_HBconsumer_initCallbackPre HBcons pFunctSignal =
     map_option (\<lambda>H. H\<lparr>hbc_monitoredNodes :=
       map_first (hbc_number H) (\<lambda>n. n\<lparr>hbn_pFunctSignalPre := pFunctSignal\<rparr>) (hbc_monitoredNodes H)\<rparr>) HBcons"

definition hb_set_callback ::
    "(CO_HBconsNode_t \<Rightarrow> CO_HBconsNode_t) \<Rightarrow> CO_HBconsumer_t option \<Rightarrow> u8 \<Rightarrow> CO_HBconsumer_t option" where
  \<comment> \<open>the common form of the four functions that register an event callback\<close>
  "hb_set_callback f HBcons idx =
     map_option (\<lambda>H. if hbc_numberOfMonitoredNodes H \<le> idx then H else hbc_upd_node H (unat idx) f) HBcons"

definition CO_HBconsumer_initCallbackNmtChanged :: "CO_HBconsumer_t option \<Rightarrow> u8 \<Rightarrow> bool \<Rightarrow> CO_HBconsumer_t option" where
  "CO_HBconsumer_initCallbackNmtChanged HBcons idx pFunctSignal =
     hb_set_callback (\<lambda>n. n\<lparr>hbn_pFunctSignalNmtChanged := pFunctSignal\<rparr>) HBcons idx"

definition CO_HBconsumer_initCallbackHeartbeatStarted ::
    "CO_HBconsumer_t option \<Rightarrow> u8 \<Rightarrow> bool \<Rightarrow> CO_HBconsumer_t option" where
  "CO_HBconsumer_initCallbackHeartbeatStarted HBcons idx pFunctSignal =
     hb_set_callback (\<lambda>n. n\<lparr>hbn_pFunctSignalHbStarted := pFunctSignal\<rparr>) HBcons idx"

definition CO_HBconsumer_initCallbackTimeout :: "CO_HBconsumer_t option \<Rightarrow> u8 \<Rightarrow> bool \<Rightarrow> CO_HBconsumer_t option" where
  "CO_HBconsumer_initCallbackTimeout HBcons idx pFunctSignal =
     hb_set_callback (\<lambda>n. n\<lparr>hbn_pFunctSignalTimeout := pFunctSignal\<rparr>) HBcons idx"

definition CO_HBconsumer_initCallbackRemoteReset :: "CO_HBconsumer_t option \<Rightarrow> u8 \<Rightarrow> bool \<Rightarrow> CO_HBconsumer_t option" where
  "CO_HBconsumer_initCallbackRemoteReset HBcons idx pFunctSignal =
     hb_set_callback (\<lambda>n. n\<lparr>hbn_pFunctSignalRemoteReset := pFunctSignal\<rparr>) HBcons idx"

subsection \<open>Processing\<close>

definition hb_received ::
    "nat \<Rightarrow> CO_HBconsNode_t \<Rightarrow> CO_EM_t \<Rightarrow> u32 \<Rightarrow> CO_HBconsNode_t \<times> CO_EM_t \<times> u32 \<times> hb_event list" where
  \<comment> \<open>the block under \<^verbatim>\<open>if (CO_FLAG_READ(monitoredNode->CANrxNew))\<close>\<close>
  "hb_received i n em timeDifference_us =
     (if \<not> hbn_CANrxNew n then (n, em, timeDifference_us, [])
      else if hbn_NMTstate n = nmt_state_value CO_NMT_INITIALIZING then
        (n\<lparr>hbn_HBstate := CO_HBconsumer_UNKNOWN, hbn_CANrxNew := False\<rparr>,
         if hbn_HBstate n = CO_HBconsumer_ACTIVE
         then em_errorReport em CO_EM_HB_CONSUMER_REMOTE_RESET CO_EMC_HEARTBEAT (word_of_nat i) else em,
         timeDifference_us,
         if hbn_pFunctSignalRemoteReset n then [HbRemoteReset (hbn_nodeId n) i] else [])
      else
        (n\<lparr>hbn_HBstate := CO_HBconsumer_ACTIVE, hbn_timeoutTimer := 0, hbn_CANrxNew := False\<rparr>, em, 0,
         if hbn_HBstate n \<noteq> CO_HBconsumer_ACTIVE \<and> hbn_pFunctSignalHbStarted n
         then [HbStarted (hbn_nodeId n) i] else []))"

definition hb_check ::
    "nat \<Rightarrow> CO_HBconsNode_t \<Rightarrow> CO_EM_t \<Rightarrow> u32 \<Rightarrow> u32 option \<Rightarrow> CO_HBconsNode_t \<times> CO_EM_t \<times> u32 option \<times> hb_event list" where
  \<comment> \<open>the block under \<^verbatim>\<open>/* Verify timeout */\<close>\<close>
  "hb_check i n em timeDifference_us timerNext_us =
     (if hbn_HBstate n \<noteq> CO_HBconsumer_ACTIVE then (n, em, timerNext_us, [])
      else
        let n1 = n\<lparr>hbn_timeoutTimer := hbn_timeoutTimer n + timeDifference_us\<rparr>
        in if hbn_time_us n1 \<le> hbn_timeoutTimer n1 then
             (n1\<lparr>hbn_NMTstate := nmt_state_value CO_NMT_UNKNOWN, hbn_HBstate := CO_HBconsumer_TIMEOUT\<rparr>,
              em_errorReport em CO_EM_HEARTBEAT_CONSUMER CO_EMC_HEARTBEAT (word_of_nat i), timerNext_us,
              if hbn_pFunctSignalTimeout n then [HbTimeout (hbn_nodeId n) i] else [])
           else (n1, em, lower_timer timerNext_us (hbn_time_us n1 - hbn_timeoutTimer n1), []))"

definition hb_changed :: "nat \<Rightarrow> CO_HBconsNode_t \<Rightarrow> CO_HBconsNode_t \<times> hb_event list" where
  \<comment> \<open>the block under \<^verbatim>\<open>/* Verify, if NMT state of monitored node changed */\<close>\<close>
  "hb_changed i n =
     (if hbn_NMTstate n \<noteq> hbn_NMTstatePrev n then
        (n\<lparr>hbn_NMTstatePrev := hbn_NMTstate n\<rparr>,
         if hbn_pFunctSignalNmtChanged n then [HbNmtChanged (hbn_nodeId n) i (hbn_NMTstate n)] else [])
      else (n, []))"

text \<open>
  The loop over the monitored nodes: the list holds the nodes from index \<^verbatim>\<open>i\<close> on; the two flags are
  \<^verbatim>\<open>allMonitoredActiveCurrent\<close> and \<^verbatim>\<open>allMonitoredOperationalCurrent\<close>.
\<close>

fun hb_loop ::
    "u32 \<Rightarrow> nat \<Rightarrow> CO_HBconsNode_t list \<Rightarrow> CO_EM_t \<Rightarrow> u32 option \<Rightarrow> bool \<Rightarrow> bool \<Rightarrow>
     CO_HBconsNode_t list \<times> CO_EM_t \<times> u32 option \<times> bool \<times> bool \<times> hb_event list" where
  "hb_loop dt i [] em tn act oper = ([], em, tn, act, oper, [])"
| "hb_loop dt i (n # ns) em tn act oper =
     (if hbn_HBstate n = CO_HBconsumer_UNCONFIGURED then
        (case hb_loop dt (Suc i) ns em tn act oper of (ns', r) \<Rightarrow> (n # ns', r))
      else
        let (n1, em1, dt1, ev1) = hb_received i n em dt;
            (n2, em2, tn2, ev2) = hb_check i n1 em1 dt1 tn;
            act2 = (act \<and> hbn_HBstate n2 = CO_HBconsumer_ACTIVE);
            oper2 = (oper \<and> hbn_NMTstate n2 = nmt_state_value CO_NMT_OPERATIONAL);
            (n3, ev3) = hb_changed i n2
        in case hb_loop dt (Suc i) ns em2 tn2 act2 oper2 of
             (ns', em', tn', act', oper', evs) \<Rightarrow> (n3 # ns', em', tn', act', oper', ev1 @ ev2 @ ev3 @ evs))"

definition hb_clear :: "CO_HBconsNode_t \<Rightarrow> CO_HBconsNode_t" where
  \<comment> \<open>the body of the loop under \<^verbatim>\<open>/* (pre)operational state changed, clear variables */\<close>\<close>
  "hb_clear n = n\<lparr>hbn_NMTstate := nmt_state_value CO_NMT_UNKNOWN, hbn_NMTstatePrev := nmt_state_value CO_NMT_UNKNOWN,
     hbn_CANrxNew := False,
     hbn_HBstate := (if hbn_HBstate n \<noteq> CO_HBconsumer_UNCONFIGURED then CO_HBconsumer_UNKNOWN else hbn_HBstate n)\<rparr>"

definition CO_HBconsumer_process ::
    "CO_HBconsumer_t \<Rightarrow> CO_EM_t \<Rightarrow> bool \<Rightarrow> u32 \<Rightarrow> u32 option \<Rightarrow> CO_HBconsumer_t \<times> CO_EM_t \<times> u32 option" where
  "CO_HBconsumer_process H em NMTisPreOrOperational timeDifference_us timerNext_us =
     (let n = hbc_number H; nodes = hbc_monitoredNodes H;
          (nodes1, em1, tn1, act, oper, evs) =
            (if NMTisPreOrOperational \<and> hbc_NMTisPreOrOperationalPrev H then
               (case hb_loop timeDifference_us 0 (take n nodes) em timerNext_us True True of
                  (ns, em', tn', act, oper, evs) \<Rightarrow> (ns @ drop n nodes, em', tn', act, oper, evs))
             else if NMTisPreOrOperational \<or> hbc_NMTisPreOrOperationalPrev H then
               (map_first n hb_clear nodes, em, timerNext_us, False, False, [])
             else (nodes, em, timerNext_us, True, True, []));
          em2 = (if \<not> hbc_allMonitoredActive H \<and> act
                 then em_errorReset (em_errorReset em1 CO_EM_HEARTBEAT_CONSUMER 0) CO_EM_HB_CONSUMER_REMOTE_RESET 0
                 else em1)
      in (H\<lparr>hbc_monitoredNodes := nodes1, hbc_allMonitoredActive := act,
            hbc_allMonitoredOperational := (if oper then nmt_state_code CO_NMT_OPERATIONAL else nmt_state_code CO_NMT_UNKNOWN),
            hbc_NMTisPreOrOperationalPrev := NMTisPreOrOperational, hbc_events := hbc_events H @ evs\<rparr>, em2, tn1))"

subsection \<open>Queries\<close>

definition CO_HBconsumer_getIdxByNodeId :: "CO_HBconsumer_t option \<Rightarrow> u8 \<Rightarrow> 8 word" where
  \<comment> \<open>the result is an \<^verbatim>\<open>int8_t\<close>\<close>
  "CO_HBconsumer_getIdxByNodeId HBcons nodeId =
     (case HBcons of
        None \<Rightarrow> -1
      | Some H \<Rightarrow> (case filter (\<lambda>i. hbn_nodeId (hbc_monitoredNodes H ! i) = nodeId) [0..<hbc_number H] of
                    [] \<Rightarrow> -1 | i # _ \<Rightarrow> word_of_nat i))"

definition CO_HBconsumer_getState :: "CO_HBconsumer_t option \<Rightarrow> u8 \<Rightarrow> CO_HBconsumer_state_t" where
  "CO_HBconsumer_getState HBcons idx =
     (case HBcons of
        None \<Rightarrow> CO_HBconsumer_UNCONFIGURED
      | Some H \<Rightarrow> if hbc_numberOfMonitoredNodes H \<le> idx then CO_HBconsumer_UNCONFIGURED
                  else hbn_HBstate (hbc_monitoredNodes H ! unat idx))"

definition CO_HBconsumer_getNmtState :: "CO_HBconsumer_t option \<Rightarrow> u8 \<Rightarrow> int option \<Rightarrow> int \<times> int option" where
  \<comment> \<open>result and the new \<^verbatim>\<open>*nmtState\<close>; \<^verbatim>\<open>None\<close> for a \<^verbatim>\<open>NULL\<close> pointer\<close>
  "CO_HBconsumer_getNmtState HBcons idx nmtState =
     (case (HBcons, nmtState) of
        (Some H, Some _) \<Rightarrow>
          if hbc_numberOfMonitoredNodes H \<le> idx then (-1, nmtState)
          else
            let n = hbc_monitoredNodes H ! unat idx
            in if hbn_HBstate n = CO_HBconsumer_ACTIVE then (0, Some (hbn_NMTstate n))
               else (-1, Some (nmt_state_value CO_NMT_INITIALIZING))
      | _ \<Rightarrow> (-1, nmtState))"

subsection \<open>Invariant\<close>

definition hb_node_ok :: "CO_HBconsNode_t \<Rightarrow> bool" where
  "hb_node_ok n \<longleftrightarrow> (hbn_HBstate n = CO_HBconsumer_UNCONFIGURED \<longleftrightarrow> hbn_time_us n = 0) \<and>
     unat (hbn_time_us n) \<le> 65535000 \<and>
     (hbn_HBstate n = CO_HBconsumer_ACTIVE \<longrightarrow> hbn_timeoutTimer n < hbn_time_us n)"

definition hbc_nodes :: "CO_HBconsumer_t \<Rightarrow> CO_HBconsNode_t list" where
  "hbc_nodes H = take (hbc_number H) (hbc_monitoredNodes H)"

definition hbc_inv :: "CO_HBconsumer_t \<Rightarrow> bool" where
  "hbc_inv H \<longleftrightarrow> hbc_number H \<le> length (hbc_monitoredNodes H) \<and> hbc_number H \<le> length (hbc_HBconsTime H) \<and>
     (\<forall>n \<in> set (hbc_nodes H). hb_node_ok n)"

lemma length_hbc_nodes [simp]: "hbc_inv H \<Longrightarrow> length (hbc_nodes H) = hbc_number H"
  by (simp add: hbc_inv_def hbc_nodes_def)

lemma hbc_nodes_nth [simp]: "i < hbc_number H \<Longrightarrow> hbc_nodes H ! i = hbc_monitoredNodes H ! i"
  by (simp add: hbc_nodes_def)

lemma hbc_inv_node: "hbc_inv H \<Longrightarrow> i < hbc_number H \<Longrightarrow> hb_node_ok (hbc_monitoredNodes H ! i)"
  unfolding hbc_inv_def by (metis hbc_nodes_nth length_take hbc_nodes_def min.absorb2 nth_mem)

lemma hbc_number_upd [simp]: "hbc_number (hbc_upd_node H i f) = hbc_number H"
  by (simp add: hbc_upd_node_def hbc_number_def)

lemma hbc_nodes_upd: "hbc_nodes (hbc_upd_node H i f) =
    (if i < hbc_number H then (hbc_nodes H)[i := f (hbc_nodes H ! i)] else hbc_nodes H)"
  by (auto simp: hbc_nodes_def hbc_number_def hbc_upd_node_def take_update_swap intro!: list_update_beyond)

lemma hbc_inv_upd:
  assumes "hbc_inv H" "\<And>n. hb_node_ok n \<Longrightarrow> hb_node_ok (f n)"
  shows "hbc_inv (hbc_upd_node H i f)"
proof -
  have "hb_node_ok n" if "n \<in> set (hbc_nodes (hbc_upd_node H i f))" for n
  proof (cases "i < hbc_number H")
    case True
    then have "n \<in> insert (f (hbc_nodes H ! i)) (set (hbc_nodes H))"
      using that set_update_subset_insert by (fastforce simp: hbc_nodes_upd)
    then show ?thesis using assms hbc_inv_node [OF assms(1) True] True by (auto simp: hbc_inv_def)
  next
    case False
    then show ?thesis using that assms(1) by (simp add: hbc_nodes_upd hbc_inv_def)
  qed
  moreover have "hbc_HBconsTime (hbc_upd_node H i f) = hbc_HBconsTime H"
    "length (hbc_monitoredNodes (hbc_upd_node H i f)) = length (hbc_monitoredNodes H)"
    by (simp_all add: hbc_upd_node_def)
  ultimately show ?thesis using assms(1) by (simp add: hbc_inv_def)
qed

lemma hb_node_ok_configure: "hb_node_ok (hb_configure nodeId t n)"
proof -
  have "unat t \<le> 65535" using unat_u16_less [of t] by linarith
  then have "unat (ucast t * 1000 :: u32) \<le> 65535000" by (simp add: hb_time)
  then show ?thesis by (simp add: hb_node_ok_def hb_configure_def Let_def)
qed

lemma hb_node_ok_callbacks [simp]:
  "hb_node_ok (n\<lparr>hbn_pFunctSignalPre := a\<rparr>) = hb_node_ok n"
  "hb_node_ok (n\<lparr>hbn_pFunctSignalNmtChanged := a\<rparr>) = hb_node_ok n"
  "hb_node_ok (n\<lparr>hbn_pFunctSignalHbStarted := a\<rparr>) = hb_node_ok n"
  "hb_node_ok (n\<lparr>hbn_pFunctSignalTimeout := a\<rparr>) = hb_node_ok n"
  "hb_node_ok (n\<lparr>hbn_pFunctSignalRemoteReset := a\<rparr>) = hb_node_ok n"
  "hb_node_ok (n\<lparr>hbn_NMTstate := st, hbn_CANrxNew := new\<rparr>) = hb_node_ok n"
  "hb_node_ok (hb_no_callbacks n) = hb_node_ok n"
  by (simp_all add: hb_node_ok_def hb_no_callbacks_def)

subsection \<open>What one node goes through in a processing call\<close>

definition hb_times_out :: "u32 \<Rightarrow> CO_HBconsNode_t \<Rightarrow> bool" where
  "hb_times_out dt n \<longleftrightarrow> hbn_HBstate n = CO_HBconsumer_ACTIVE \<and> \<not> hbn_CANrxNew n \<and>
     hbn_time_us n \<le> hbn_timeoutTimer n + dt"

definition hb_remote_reset :: "CO_HBconsNode_t \<Rightarrow> bool" where
  "hb_remote_reset n \<longleftrightarrow> hbn_HBstate n = CO_HBconsumer_ACTIVE \<and> hbn_CANrxNew n \<and> hbn_NMTstate n = 0"

definition hb_next_state :: "u32 \<Rightarrow> CO_HBconsNode_t \<Rightarrow> CO_HBconsumer_state_t" where
  "hb_next_state dt n =
     (if hbn_HBstate n = CO_HBconsumer_UNCONFIGURED then CO_HBconsumer_UNCONFIGURED
      else if hbn_CANrxNew n then (if hbn_NMTstate n = 0 then CO_HBconsumer_UNKNOWN else CO_HBconsumer_ACTIVE)
      else if hb_times_out dt n then CO_HBconsumer_TIMEOUT
      else hbn_HBstate n)"

definition hb_next :: "u32 \<Rightarrow> CO_HBconsNode_t \<Rightarrow> CO_HBconsNode_t" where
  "hb_next dt n =
     (if hbn_HBstate n = CO_HBconsumer_UNCONFIGURED then n
      else
        let st = (if hb_times_out dt n then -1 else hbn_NMTstate n)
        in n\<lparr>hbn_HBstate := hb_next_state dt n, hbn_CANrxNew := False, hbn_NMTstate := st, hbn_NMTstatePrev := st,
             hbn_timeoutTimer := (if hbn_CANrxNew n then (if hbn_NMTstate n = 0 then hbn_timeoutTimer n else 0)
                                  else if hbn_HBstate n = CO_HBconsumer_ACTIVE then hbn_timeoutTimer n + dt
                                  else hbn_timeoutTimer n)\<rparr>)"

definition hb_report :: "u32 \<Rightarrow> nat \<times> CO_HBconsNode_t \<Rightarrow> CO_EM_t \<Rightarrow> CO_EM_t" where
  "hb_report dt p em =
     (if hb_remote_reset (snd p)
      then em_errorReport em CO_EM_HB_CONSUMER_REMOTE_RESET CO_EMC_HEARTBEAT (word_of_nat (fst p))
      else if hb_times_out dt (snd p) then em_errorReport em CO_EM_HEARTBEAT_CONSUMER CO_EMC_HEARTBEAT (word_of_nat (fst p))
      else em)"

definition hb_timer :: "u32 \<Rightarrow> CO_HBconsNode_t \<Rightarrow> u32 option \<Rightarrow> u32 option" where
  "hb_timer dt n tn =
     (if hb_next_state dt n = CO_HBconsumer_ACTIVE
      then lower_timer tn (hbn_time_us n - hbn_timeoutTimer (hb_next dt n)) else tn)"

lemma hb_next_unconfigured [simp]: "hbn_HBstate n = CO_HBconsumer_UNCONFIGURED \<Longrightarrow> hb_next dt n = n"
  "hbn_HBstate n = CO_HBconsumer_UNCONFIGURED \<Longrightarrow> hb_report dt (i, n) em = em"
  "hbn_HBstate n = CO_HBconsumer_UNCONFIGURED \<Longrightarrow> hb_timer dt n tn = tn"
  by (simp_all add: hb_next_def hb_report_def hb_timer_def hb_remote_reset_def hb_times_out_def hb_next_state_def)

lemma hb_next_HBstate [simp]: "hbn_HBstate (hb_next dt n) = hb_next_state dt n"
  by (simp add: hb_next_def Let_def hb_next_state_def)

lemma hb_next_fields [simp]:
  "hbn_time_us (hb_next dt n) = hbn_time_us n" "hbn_nodeId (hb_next dt n) = hbn_nodeId n"
  by (simp_all add: hb_next_def Let_def)

lemma hb_received_spec:
  assumes "hb_received i n em dt = (n1, em1, dt1, ev1)"
  shows "em1 = (if hb_remote_reset n
                then em_errorReport em CO_EM_HB_CONSUMER_REMOTE_RESET CO_EMC_HEARTBEAT (word_of_nat i) else em) \<and>
    hbn_CANrxNew n1 = False \<and> hbn_time_us n1 = hbn_time_us n \<and> hbn_NMTstate n1 = hbn_NMTstate n \<and>
    hbn_HBstate n1 = (if hbn_CANrxNew n then (if hbn_NMTstate n = 0 then CO_HBconsumer_UNKNOWN else CO_HBconsumer_ACTIVE)
                      else hbn_HBstate n) \<and>
    (hbn_CANrxNew n \<and> hbn_NMTstate n \<noteq> 0 \<longrightarrow> hbn_timeoutTimer n1 = 0 \<and> dt1 = 0) \<and>
    (\<not> hbn_CANrxNew n \<longrightarrow> n1 = n \<and> dt1 = dt) \<and>
    n1 = n\<lparr>hbn_HBstate := hbn_HBstate n1, hbn_CANrxNew := False, hbn_timeoutTimer := hbn_timeoutTimer n1\<rparr> \<and>
    (hbn_CANrxNew n \<and> hbn_NMTstate n = 0 \<longrightarrow> hbn_timeoutTimer n1 = hbn_timeoutTimer n)"
  using assms by (auto simp: hb_received_def hb_remote_reset_def split: if_splits)

lemma hb_node_spec:
  assumes "hb_node_ok n" "hbn_HBstate n \<noteq> CO_HBconsumer_UNCONFIGURED"
    and "hb_received i n em dt = (n1, em1, dt1, ev1)" "hb_check i n1 em1 dt1 tn = (n2, em2, tn2, ev2)"
    and "hb_changed i n2 = (n3, ev3)"
  shows "n3 = hb_next dt n \<and> em2 = hb_report dt (i, n) em \<and> tn2 = hb_timer dt n tn \<and>
    hbn_HBstate n2 = hb_next_state dt n \<and> hbn_NMTstate n2 = hbn_NMTstate (hb_next dt n)"
proof -
  have pos: "\<not> hbn_time_us n \<le> 0" using assms(1,2) by (simp add: hb_node_ok_def)
  have n3: "n3 = n2\<lparr>hbn_NMTstatePrev := hbn_NMTstate n2\<rparr>"
    using assms(5) by (cases n2) (auto simp: hb_changed_def split: if_splits)
  note r = hb_received_spec [OF assms(3)]
  consider (reset) "hbn_CANrxNew n" "hbn_NMTstate n = 0" | (alive) "hbn_CANrxNew n" "hbn_NMTstate n \<noteq> 0"
    | (out) "\<not> hbn_CANrxNew n" "hb_times_out dt n" | (rest) "\<not> hbn_CANrxNew n" "\<not> hb_times_out dt n" by blast
  then show ?thesis
  proof cases
    case reset
    then show ?thesis using r assms(2,4) n3
      by (auto simp: hb_check_def hb_next_def hb_next_state_def hb_report_def hb_timer_def hb_times_out_def Let_def)
  next
    case alive
    then show ?thesis using r assms(2,4) n3 pos
      by (auto simp: hb_check_def hb_next_def hb_next_state_def hb_report_def hb_timer_def hb_times_out_def
          hb_remote_reset_def Let_def)
  next
    case out
    then show ?thesis using r assms(2,4) n3
      by (auto simp: hb_check_def hb_next_def hb_next_state_def hb_report_def hb_timer_def hb_times_out_def
          hb_remote_reset_def Let_def)
  next
    case rest
    then show ?thesis using r assms(2,4) n3
      by (cases "hbn_HBstate n = CO_HBconsumer_ACTIVE")
        (auto simp: hb_check_def hb_next_def hb_next_state_def hb_report_def hb_timer_def hb_times_out_def
          hb_remote_reset_def Let_def)
  qed
qed

definition hb_active :: "CO_HBconsNode_t \<Rightarrow> bool" where
  "hb_active n \<longleftrightarrow> hbn_HBstate n \<in> {CO_HBconsumer_UNCONFIGURED, CO_HBconsumer_ACTIVE}"

definition hb_operational :: "CO_HBconsNode_t \<Rightarrow> bool" where
  "hb_operational n \<longleftrightarrow> hbn_HBstate n = CO_HBconsumer_UNCONFIGURED \<or> hbn_NMTstate n = 5"

lemma hb_next_configured: "hb_next_state dt n = CO_HBconsumer_UNCONFIGURED \<longleftrightarrow> hbn_HBstate n = CO_HBconsumer_UNCONFIGURED"
  by (auto simp: hb_next_state_def)

lemma hb_loop_spec:
  assumes "\<forall>n \<in> set ns. hb_node_ok n"
  shows "\<exists>evs. hb_loop dt i ns em tn act oper =
    (map (hb_next dt) ns, fold (hb_report dt) (enumerate i ns) em, fold (hb_timer dt) ns tn,
     act \<and> list_all hb_active (map (hb_next dt) ns), oper \<and> list_all hb_operational (map (hb_next dt) ns), evs)"
  using assms
proof (induction ns arbitrary: i em tn act oper)
  case Nil
  then show ?case by simp
next
  case (Cons n ns)
  show ?case
  proof (cases "hbn_HBstate n = CO_HBconsumer_UNCONFIGURED")
    case True
    then show ?thesis using Cons.IH [of "Suc i" em tn act oper] Cons.prems
      by (auto simp: hb_active_def hb_operational_def hb_next_state_def)
  next
    case False
    obtain n1 em1 dt1 ev1 where r: "hb_received i n em dt = (n1, em1, dt1, ev1)" by (metis prod_cases4)
    obtain n2 em2 tn2 ev2 where c: "hb_check i n1 em1 dt1 tn = (n2, em2, tn2, ev2)" by (metis prod_cases4)
    obtain n3 ev3 where h: "hb_changed i n2 = (n3, ev3)" by fastforce
    have "hb_node_ok n" using Cons.prems by simp
    note s = hb_node_spec [OF this False r c h]
    define act2 where "act2 = (act \<and> hbn_HBstate n2 = CO_HBconsumer_ACTIVE)"
    define oper2 where "oper2 = (oper \<and> hbn_NMTstate n2 = nmt_state_value CO_NMT_OPERATIONAL)"
    obtain evs where IH: "hb_loop dt (Suc i) ns em2 tn2 act2 oper2 =
        (map (hb_next dt) ns, fold (hb_report dt) (enumerate (Suc i) ns) em2, fold (hb_timer dt) ns tn2,
         act2 \<and> list_all hb_active (map (hb_next dt) ns), oper2 \<and> list_all hb_operational (map (hb_next dt) ns), evs)"
      using Cons.IH [of "Suc i" em2 tn2 act2 oper2] Cons.prems by auto
    have "hb_active (hb_next dt n) \<longleftrightarrow> hbn_HBstate n2 = CO_HBconsumer_ACTIVE"
      "hb_operational (hb_next dt n) \<longleftrightarrow> hbn_NMTstate n2 = 5"
      using s False by (auto simp: hb_active_def hb_operational_def hb_next_configured)
    then show ?thesis using IH False r c h s by (simp add: act2_def oper2_def)
  qed
qed

lemma hb_node_ok_next: "hb_node_ok n \<Longrightarrow> hb_node_ok (hb_next dt n)"
  by (auto simp: hb_node_ok_def hb_next_def hb_next_state_def hb_times_out_def Let_def not_le word_gt_0)

lemma hb_supported:
  assumes "em_inv em"
  shows "em_supported em CO_EM_HEARTBEAT_CONSUMER" "em_supported em CO_EM_HB_CONSUMER_REMOTE_RESET"
  using assms by (auto simp: em_supported_def em_inv_def err_index_def)

lemma hb_report_spec:
  assumes "em_inv em"
  shows "em_inv (hb_report dt p em)"
    and "em_isError (hb_report dt p em) b \<longleftrightarrow> em_isError em b \<or>
      b = CO_EM_HEARTBEAT_CONSUMER \<and> hb_times_out dt (snd p) \<or> b = CO_EM_HB_CONSUMER_REMOTE_RESET \<and> hb_remote_reset (snd p)"
  using assms emf.active_report [OF assms hb_supported(1)] emf.active_report [OF assms hb_supported(2)]
    hb_supported [OF assms]
  by (auto simp: hb_report_def em_inv_errorReport hb_times_out_def hb_remote_reset_def)

lemma hb_reports_spec:
  assumes "em_inv em"
  shows "em_inv (fold (hb_report dt) ps em) \<and>
    (em_isError (fold (hb_report dt) ps em) b \<longleftrightarrow> em_isError em b \<or>
      b = CO_EM_HEARTBEAT_CONSUMER \<and> (\<exists>p \<in> set ps. hb_times_out dt (snd p)) \<or>
      b = CO_EM_HB_CONSUMER_REMOTE_RESET \<and> (\<exists>p \<in> set ps. hb_remote_reset (snd p)))"
  using assms
proof (induction ps arbitrary: em)
  case Nil
  then show ?case by simp
next
  case (Cons p ps)
  show ?case using Cons.IH [OF hb_report_spec(1) [OF Cons.prems]] hb_report_spec(2) [OF Cons.prems, of dt p b] by auto
qed

lemma ex_enumerate: "(\<exists>p \<in> set (enumerate i xs). P (snd p)) \<longleftrightarrow> (\<exists>x \<in> set xs. P x)"
  by (metis (no_types, lifting) image_iff map_snd_enumerate set_map)

definition hb_cleared :: "bool \<Rightarrow> CO_EM_t \<Rightarrow> CO_EM_t" where
  "hb_cleared c em =
     (if c then em_errorReset (em_errorReset em CO_EM_HEARTBEAT_CONSUMER 0) CO_EM_HB_CONSUMER_REMOTE_RESET 0 else em)"

lemma hb_cleared_spec:
  assumes "em_inv em"
  shows "em_inv (hb_cleared c em)"
    and "em_isError (hb_cleared c em) b \<longleftrightarrow> em_isError em b \<and>
      \<not> (c \<and> b \<in> {CO_EM_HEARTBEAT_CONSUMER, CO_EM_HB_CONSUMER_REMOTE_RESET})"
  using assms emf.active_reset [OF assms hb_supported(1) [OF assms]]
    emf.active_reset [OF em_inv_errorReset [OF assms] hb_supported(2) [OF em_inv_errorReset [OF assms]]]
  by (auto simp: hb_cleared_def em_inv_errorReset)

lemma CO_HBconsumer_process_on:
  assumes "hbc_inv H" "hbc_NMTisPreOrOperationalPrev H"
  shows "\<exists>evs. CO_HBconsumer_process H em True dt tn =
    (let ns = map (hb_next dt) (hbc_nodes H); act = list_all hb_active ns
     in (H\<lparr>hbc_monitoredNodes := ns @ drop (hbc_number H) (hbc_monitoredNodes H), hbc_allMonitoredActive := act,
           hbc_allMonitoredOperational := (if list_all hb_operational ns then 5 else -1),
           hbc_NMTisPreOrOperationalPrev := True, hbc_events := hbc_events H @ evs\<rparr>,
         hb_cleared (\<not> hbc_allMonitoredActive H \<and> act) (fold (hb_report dt) (enumerate 0 (hbc_nodes H)) em),
         fold (hb_timer dt) (hbc_nodes H) tn))"
proof -
  obtain evs where "hb_loop dt 0 (hbc_nodes H) em tn True True =
    (map (hb_next dt) (hbc_nodes H), fold (hb_report dt) (enumerate 0 (hbc_nodes H)) em, fold (hb_timer dt) (hbc_nodes H) tn,
     list_all hb_active (map (hb_next dt) (hbc_nodes H)), list_all hb_operational (map (hb_next dt) (hbc_nodes H)), evs)"
    using hb_loop_spec [of "hbc_nodes H" dt 0 em tn True True] assms(1) by (auto simp: hbc_inv_def)
  then show ?thesis using assms(2)
    by (intro exI [of _ evs]) (simp add: CO_HBconsumer_process_def Let_def hb_cleared_def hbc_nodes_def)
qed

lemma hbc_nodes_replace:
  assumes "hbc_inv H" "length ns = hbc_number H"
    and "hbc_monitoredNodes H' = ns @ drop (hbc_number H) (hbc_monitoredNodes H)"
    and "hbc_numberOfMonitoredNodes H' = hbc_numberOfMonitoredNodes H" "hbc_HBconsTime H' = hbc_HBconsTime H"
    and "\<forall>n \<in> set ns. hb_node_ok n"
  shows "hbc_inv H' \<and> hbc_nodes H' = ns \<and> hbc_number H' = hbc_number H"
  using assms by (simp add: hbc_inv_def hbc_nodes_def hbc_number_def)

lemma CO_HBconsumer_process_on_spec:
  assumes "hbc_inv H" "em_inv em" "hbc_NMTisPreOrOperationalPrev H"
    and "CO_HBconsumer_process H em True dt tn = (H', em', tn')"
  shows "hbc_inv H' \<and> em_inv em' \<and> hbc_NMTisPreOrOperationalPrev H' \<and>
    hbc_number H' = hbc_number H \<and> hbc_nodes H' = map (hb_next dt) (hbc_nodes H) \<and>
    hbc_allMonitoredActive H' = list_all hb_active (hbc_nodes H') \<and>
    hbc_allMonitoredOperational H' = (if list_all hb_operational (hbc_nodes H') then 5 else -1) \<and>
    tn' = fold (hb_timer dt) (hbc_nodes H) tn \<and>
    (\<forall>b. em_isError em' b \<longleftrightarrow>
      (em_isError em b \<or>
       b = CO_EM_HEARTBEAT_CONSUMER \<and> (\<exists>n \<in> set (hbc_nodes H). hb_times_out dt n) \<or>
       b = CO_EM_HB_CONSUMER_REMOTE_RESET \<and> (\<exists>n \<in> set (hbc_nodes H). hb_remote_reset n)) \<and>
      \<not> (\<not> hbc_allMonitoredActive H \<and> hbc_allMonitoredActive H' \<and>
         b \<in> {CO_EM_HEARTBEAT_CONSUMER, CO_EM_HB_CONSUMER_REMOTE_RESET}))"
proof -
  let ?ns = "map (hb_next dt) (hbc_nodes H)"
  obtain evs where p: "CO_HBconsumer_process H em True dt tn =
    (let ns = ?ns; act = list_all hb_active ns
     in (H\<lparr>hbc_monitoredNodes := ns @ drop (hbc_number H) (hbc_monitoredNodes H), hbc_allMonitoredActive := act,
           hbc_allMonitoredOperational := (if list_all hb_operational ns then 5 else -1),
           hbc_NMTisPreOrOperationalPrev := True, hbc_events := hbc_events H @ evs\<rparr>,
         hb_cleared (\<not> hbc_allMonitoredActive H \<and> act) (fold (hb_report dt) (enumerate 0 (hbc_nodes H)) em),
         fold (hb_timer dt) (hbc_nodes H) tn))"
    using CO_HBconsumer_process_on [OF assms(1,3)] by blast
  have "\<forall>n \<in> set ?ns. hb_node_ok n" using assms(1) by (auto simp: hbc_inv_def hb_node_ok_next)
  then have H': "hbc_inv H' \<and> hbc_nodes H' = ?ns \<and> hbc_number H' = hbc_number H"
    using hbc_nodes_replace [OF assms(1), of ?ns H'] p assms(1,4) by (auto simp: Let_def)
  note r = hb_reports_spec [OF assms(2), of dt "enumerate 0 (hbc_nodes H)", unfolded ex_enumerate]
  show ?thesis using H' p assms(4) hb_cleared_spec [of "fold (hb_report dt) (enumerate 0 (hbc_nodes H)) em"] r
    by (auto simp: Let_def)
qed

text \<open>
  C24: one call of \<^verbatim>\<open>CO_HBconsumer_process\<close> in the pre-operational or operational state takes every monitored
  node through the state machine of the heartbeat consumer: a heartbeat makes it active, a boot-up
  message unknown, and an active node from which nothing arrived goes to the timeout state exactly
  when its timer reaches the configured time. The two emergencies are raised exactly when some node
  times out or an active node was reset, and cleared exactly when all nodes become active again; no
  other error is touched.
\<close>

theorem CO_HBconsumer_process_monitors:
  assumes "hbc_inv H" "em_inv em" "hbc_NMTisPreOrOperationalPrev H"
    and "CO_HBconsumer_process H em True dt tn = (H', em', tn')"
  shows "hbc_inv H' \<and> em_inv em' \<and>
    (\<forall>i < hbc_number H. hbn_HBstate (hbc_monitoredNodes H' ! i) = hb_next_state dt (hbc_monitoredNodes H ! i)) \<and>
    (hbc_allMonitoredActive H' \<longleftrightarrow> (\<forall>i < hbc_number H. hb_active (hbc_monitoredNodes H' ! i))) \<and>
    (em_isError em' CO_EM_HEARTBEAT_CONSUMER \<longleftrightarrow>
      (\<exists>i < hbc_number H. hb_times_out dt (hbc_monitoredNodes H ! i)) \<or>
      em_isError em CO_EM_HEARTBEAT_CONSUMER \<and> (hbc_allMonitoredActive H \<or> \<not> hbc_allMonitoredActive H')) \<and>
    (em_isError em' CO_EM_HB_CONSUMER_REMOTE_RESET \<longleftrightarrow>
      (\<exists>i < hbc_number H. hb_remote_reset (hbc_monitoredNodes H ! i)) \<or>
      em_isError em CO_EM_HB_CONSUMER_REMOTE_RESET \<and> (hbc_allMonitoredActive H \<or> \<not> hbc_allMonitoredActive H')) \<and>
    (\<forall>b. b \<notin> {CO_EM_HEARTBEAT_CONSUMER, CO_EM_HB_CONSUMER_REMOTE_RESET} \<longrightarrow> em_isError em' b = em_isError em b)"
proof -
  note s = CO_HBconsumer_process_on_spec [OF assms]
  have all: "list_all P (hbc_nodes K) \<longleftrightarrow> (\<forall>i < hbc_number H. P (hbc_monitoredNodes K ! i))"
    if "hbc_inv K" "hbc_number K = hbc_number H" for P K
    using that by (simp add: list_all_length)
  have ex: "(\<exists>n \<in> set (hbc_nodes H). P n) \<longleftrightarrow> (\<exists>i < hbc_number H. P (hbc_monitoredNodes H ! i))" for P
    using all [of H "\<lambda>n. \<not> P n"] assms(1) by (auto simp: list_all_iff)
  have nodes: "hbc_monitoredNodes H' ! i = hb_next dt (hbc_monitoredNodes H ! i)" if "i < hbc_number H" for i
    using s that assms(1) by (metis hbc_nodes_nth length_hbc_nodes nth_map)
  have quiet: "\<not> hbc_allMonitoredActive H'"
    if "n \<in> set (hbc_nodes H)" "hb_times_out dt n \<or> hb_remote_reset n" for n
    using s that by (auto simp: list_all_iff hb_active_def hb_next_state_def hb_times_out_def hb_remote_reset_def)
  have err: "em_isError em' b \<longleftrightarrow>
      (em_isError em b \<or>
       b = CO_EM_HEARTBEAT_CONSUMER \<and> (\<exists>i < hbc_number H. hb_times_out dt (hbc_monitoredNodes H ! i)) \<or>
       b = CO_EM_HB_CONSUMER_REMOTE_RESET \<and> (\<exists>i < hbc_number H. hb_remote_reset (hbc_monitoredNodes H ! i))) \<and>
      \<not> (\<not> hbc_allMonitoredActive H \<and> hbc_allMonitoredActive H' \<and>
         b \<in> {CO_EM_HEARTBEAT_CONSUMER, CO_EM_HB_CONSUMER_REMOTE_RESET})" for b
    using s by (simp only: ex)
  have quiet: "\<not> hbc_allMonitoredActive H'"
    if "\<exists>i < hbc_number H. hb_times_out dt (hbc_monitoredNodes H ! i) \<or> hb_remote_reset (hbc_monitoredNodes H ! i)"
    using quiet that unfolding ex [of "\<lambda>n. hb_times_out dt n \<or> hb_remote_reset n", symmetric] by blast
  have "em_isError em' CO_EM_HEARTBEAT_CONSUMER \<longleftrightarrow>
      (\<exists>i < hbc_number H. hb_times_out dt (hbc_monitoredNodes H ! i)) \<or>
      em_isError em CO_EM_HEARTBEAT_CONSUMER \<and> (hbc_allMonitoredActive H \<or> \<not> hbc_allMonitoredActive H')"
    using err [of CO_EM_HEARTBEAT_CONSUMER] quiet by auto
  moreover have "em_isError em' CO_EM_HB_CONSUMER_REMOTE_RESET \<longleftrightarrow>
      (\<exists>i < hbc_number H. hb_remote_reset (hbc_monitoredNodes H ! i)) \<or>
      em_isError em CO_EM_HB_CONSUMER_REMOTE_RESET \<and> (hbc_allMonitoredActive H \<or> \<not> hbc_allMonitoredActive H')"
    using err [of CO_EM_HB_CONSUMER_REMOTE_RESET] quiet by auto
  moreover have "\<forall>b. b \<notin> {CO_EM_HEARTBEAT_CONSUMER, CO_EM_HB_CONSUMER_REMOTE_RESET} \<longrightarrow> em_isError em' b = em_isError em b"
    using err by simp
  moreover have "hbc_inv H' \<and> em_inv em'"
    "\<forall>i < hbc_number H. hbn_HBstate (hbc_monitoredNodes H' ! i) = hb_next_state dt (hbc_monitoredNodes H ! i)"
    "hbc_allMonitoredActive H' \<longleftrightarrow> (\<forall>i < hbc_number H. hb_active (hbc_monitoredNodes H' ! i))"
    using s nodes all [of H' hb_active] by simp_all
  ultimately show ?thesis by (intro conjI) (elim conjE; assumption)+
qed

definition example_hb_node :: "u8 \<Rightarrow> CO_HBconsumer_state_t \<Rightarrow> u32 \<Rightarrow> u32 \<Rightarrow> CO_HBconsNode_t" where
  "example_hb_node nodeId st timer time =
     \<lparr>hbn_nodeId = nodeId, hbn_NMTstate = 5, hbn_HBstate = st, hbn_timeoutTimer = timer, hbn_time_us = time,
      hbn_CANrxNew = False, hbn_pFunctSignalPre = False, hbn_NMTstatePrev = 5, hbn_pFunctSignalNmtChanged = True,
      hbn_pFunctSignalHbStarted = True, hbn_pFunctSignalTimeout = True, hbn_pFunctSignalRemoteReset = True\<rparr>"

definition example_hbc :: CO_HBconsumer_t where
  "example_hbc =
     \<lparr>hbc_HBconsTime = [0x000503E8, 0, 0x000603E8],
      hbc_monitoredNodes = [example_hb_node 5 CO_HBconsumer_ACTIVE 400000 1000000,
        example_hb_node 0 CO_HBconsumer_UNCONFIGURED 0 0, example_hb_node 6 CO_HBconsumer_ACTIVE 0 1000000],
      hbc_numberOfMonitoredNodes = 3, hbc_allMonitoredActive = True, hbc_allMonitoredOperational = 5,
      hbc_NMTisPreOrOperationalPrev = True, hbc_CANdevRxIdxStart = 1, hbc_events = [], hbc_signals = 0\<rparr>"

lemma example_hbc_inv: "hbc_inv example_hbc"
  by (simp add: hbc_inv_def hbc_nodes_def hbc_number_def example_hbc_def example_hb_node_def hb_node_ok_def)

theorem CO_HBconsumer_process_monitors_witness:
  "\<exists>H' em' tn'. CO_HBconsumer_process example_hbc example_em True 700000 None = (H', em', tn') \<and>
     hbn_HBstate (hbc_monitoredNodes H' ! 0) = CO_HBconsumer_TIMEOUT \<and>
     hbn_HBstate (hbc_monitoredNodes H' ! 2) = CO_HBconsumer_ACTIVE \<and> em_isError em' CO_EM_HEARTBEAT_CONSUMER"
proof -
  obtain H' em' tn' where p: "CO_HBconsumer_process example_hbc example_em True 700000 None = (H', em', tn')"
    by (metis prod_cases3)
  have "hbc_number example_hbc = 3" "hbc_NMTisPreOrOperationalPrev example_hbc"
    "hb_times_out 700000 (hbc_monitoredNodes example_hbc ! 0)"
    "hb_next_state 700000 (hbc_monitoredNodes example_hbc ! 0) = CO_HBconsumer_TIMEOUT"
    "hb_next_state 700000 (hbc_monitoredNodes example_hbc ! 2) = CO_HBconsumer_ACTIVE"
    by (simp_all add: hbc_number_def example_hbc_def example_hb_node_def hb_times_out_def hb_next_state_def)
  then show ?thesis
    using CO_HBconsumer_process_monitors [OF example_hbc_inv example_em_inv _ p] p by fastforce
qed

subsection \<open>Silent nodes\<close>

text \<open>A sequence of received messages and of processing calls in the pre-operational or operational state.\<close>

datatype hb_call = HbRx nat CO_CANrxMsg_t | HbProc u32

fun hb_run :: "hb_call list \<Rightarrow> CO_HBconsumer_t \<Rightarrow> CO_EM_t \<Rightarrow> CO_HBconsumer_t \<times> CO_EM_t" where
  "hb_run [] H em = (H, em)"
| "hb_run (HbRx i msg # cs) H em = hb_run cs (CO_HBcons_receive H i msg) em"
| "hb_run (HbProc dt # cs) H em =
     (case CO_HBconsumer_process H em True dt None of (H1, em1, tn) \<Rightarrow> hb_run cs H1 em1)"

fun hb_silent :: "nat \<Rightarrow> hb_call \<Rightarrow> bool" where
  \<comment> \<open>no message for node \<^verbatim>\<open>i\<close>, and time steps for which the timer of the node cannot wrap around\<close>
  "hb_silent i (HbRx j msg) = (j \<noteq> i)"
| "hb_silent i (HbProc dt) = (unat dt < 2 ^ 31)"

fun hb_elapsed :: "hb_call \<Rightarrow> nat" where
  "hb_elapsed (HbRx j msg) = 0"
| "hb_elapsed (HbProc dt) = unat dt"

lemma CO_HBcons_receive_keeps:
  "hbc_inv H \<Longrightarrow> hbc_inv (CO_HBcons_receive H i msg)"
  "hbc_number (CO_HBcons_receive H i msg) = hbc_number H"
  "hbc_NMTisPreOrOperationalPrev (CO_HBcons_receive H i msg) = hbc_NMTisPreOrOperationalPrev H"
  "j \<noteq> i \<Longrightarrow> hbc_monitoredNodes (CO_HBcons_receive H i msg) ! j = hbc_monitoredNodes H ! j"
proof -
  have sig: "hbc_inv (H\<lparr>hbc_signals := s\<rparr>) = hbc_inv H" "hbc_number (H\<lparr>hbc_signals := s\<rparr>) = hbc_number H" for H s
    by (simp_all add: hbc_inv_def hbc_nodes_def hbc_number_def)
  show "hbc_inv H \<Longrightarrow> hbc_inv (CO_HBcons_receive H i msg)"
    by (simp add: CO_HBcons_receive_def Let_def hbc_inv_upd sig)
  show "hbc_number (CO_HBcons_receive H i msg) = hbc_number H"
    by (simp add: CO_HBcons_receive_def Let_def sig)
  show "hbc_NMTisPreOrOperationalPrev (CO_HBcons_receive H i msg) = hbc_NMTisPreOrOperationalPrev H"
    "j \<noteq> i \<Longrightarrow> hbc_monitoredNodes (CO_HBcons_receive H i msg) ! j = hbc_monitoredNodes H ! j"
    by (simp_all add: CO_HBcons_receive_def Let_def hbc_upd_node_def)
qed

definition hb_ready :: "CO_HBconsumer_t \<Rightarrow> CO_EM_t \<Rightarrow> nat \<Rightarrow> bool" where
  "hb_ready H em i \<longleftrightarrow> hbc_inv H \<and> em_inv em \<and> hbc_NMTisPreOrOperationalPrev H \<and> i < hbc_number H \<and>
     \<not> hbn_CANrxNew (hbc_monitoredNodes H ! i)"

lemma hb_ready_receive:
  assumes "hb_ready H em i" "j \<noteq> i"
  shows "hb_ready (CO_HBcons_receive H j msg) em i"
  using assms by (simp add: hb_ready_def CO_HBcons_receive_keeps)

lemma hb_ready_process:
  assumes "hb_ready H em i" "CO_HBconsumer_process H em True dt tn = (H', em', tn')"
    and "hbn_HBstate (hbc_monitoredNodes H ! i) \<noteq> CO_HBconsumer_UNCONFIGURED"
  shows "hb_ready H' em' i \<and> hbc_monitoredNodes H' ! i = hb_next dt (hbc_monitoredNodes H ! i)"
proof -
  note r = assms(1) [unfolded hb_ready_def]
  note s = CO_HBconsumer_process_on_spec [OF _ _ _ assms(2)]
  have n: "hbc_monitoredNodes H' ! i = hb_next dt (hbc_monitoredNodes H ! i)"
    using r s by (metis hbc_nodes_nth length_hbc_nodes nth_map)
  then show ?thesis using r s assms(3) by (simp add: hb_ready_def hb_next_def Let_def)
qed

lemma hb_ready_active:
  assumes "hb_ready H em i" "CO_HBconsumer_process H em True dt tn = (H', em', tn')" "hbc_allMonitoredActive H'"
  shows "hb_active (hbc_monitoredNodes H' ! i)"
proof -
  note s = CO_HBconsumer_process_on_spec [OF _ _ _ assms(2)]
  have i: "list_all hb_active (hbc_nodes H')" "i < hbc_number H'" "hbc_inv H'"
    using assms(1,3) s by (simp_all add: hb_ready_def)
  then have "i < length (hbc_nodes H')" "hbc_nodes H' ! i = hbc_monitoredNodes H' ! i" by simp_all
  then show ?thesis using i(1) by (metis list_all_length)
qed

lemma hb_ready_error:
  assumes "hb_ready H em i" "CO_HBconsumer_process H em True dt tn = (H', em', tn')" "\<not> hb_active (hbc_monitoredNodes H' ! i)"
    and "em_isError em CO_EM_HEARTBEAT_CONSUMER \<or> hb_times_out dt (hbc_monitoredNodes H ! i)"
  shows "em_isError em' CO_EM_HEARTBEAT_CONSUMER"
proof -
  note r = assms(1) [unfolded hb_ready_def]
  have "\<not> hbc_allMonitoredActive H'" using hb_ready_active [OF assms(1,2)] assms(3) by blast
  moreover have "hbc_monitoredNodes H ! i \<in> set (hbc_nodes H)"
    using r by (metis hbc_nodes_nth length_hbc_nodes nth_mem)
  ultimately show ?thesis using CO_HBconsumer_process_on_spec [OF _ _ _ assms(2)] r assms(4) by auto
qed

lemma hb_run_em_inv:
  assumes "hb_ready H em i" "hb_run cs H em = (H', em')"
  shows "em_inv em'"
proof -
  have "hbc_inv H \<Longrightarrow> em_inv em \<Longrightarrow> hbc_NMTisPreOrOperationalPrev H \<Longrightarrow> em_inv em'"
    using assms(2)
  proof (induction cs H em rule: hb_run.induct)
    case (2 j msg cs H em)
    then show ?case by (simp add: CO_HBcons_receive_keeps)
  next
    case (3 dt cs H em)
    obtain H1 em1 tn1 where p: "CO_HBconsumer_process H em True dt None = (H1, em1, tn1)" by (metis prod_cases3)
    then show ?case
      using "3.IH" [OF p [symmetric] refl] "3.prems" CO_HBconsumer_process_on_spec [OF "3.prems"(1-3) p] by simp
  qed simp
  then show ?thesis using assms(1) by (simp add: hb_ready_def)
qed

lemma hb_timeout_lasts:
  assumes "hb_ready H em i" "hbn_HBstate (hbc_monitoredNodes H ! i) = CO_HBconsumer_TIMEOUT"
    and "em_isError em CO_EM_HEARTBEAT_CONSUMER" "list_all (hb_silent i) cs" "hb_run cs H em = (H', em')"
  shows "hbn_HBstate (hbc_monitoredNodes H' ! i) = CO_HBconsumer_TIMEOUT \<and> em_isError em' CO_EM_HEARTBEAT_CONSUMER"
  using assms
proof (induction cs H em rule: hb_run.induct)
  case (1 H em)
  then show ?case by simp
next
  case (2 j msg cs H em)
  then show ?case using hb_ready_receive [of H em i j msg] by (simp add: CO_HBcons_receive_keeps)
next
  case (3 dt cs H em)
  obtain H1 em1 tn1 where p: "CO_HBconsumer_process H em True dt None = (H1, em1, tn1)" by (metis prod_cases3)
  have r1: "hb_ready H1 em1 i" "hbc_monitoredNodes H1 ! i = hb_next dt (hbc_monitoredNodes H ! i)"
    using hb_ready_process [OF "3.prems"(1) p] "3.prems"(2) by auto
  then have st: "hbn_HBstate (hbc_monitoredNodes H1 ! i) = CO_HBconsumer_TIMEOUT"
    using "3.prems"(1,2) by (simp add: hb_ready_def hb_next_state_def hb_times_out_def)
  then have "\<not> hb_active (hbc_monitoredNodes H1 ! i)" by (simp add: hb_active_def)
  then have "em_isError em1 CO_EM_HEARTBEAT_CONSUMER" using hb_ready_error [OF "3.prems"(1) p] "3.prems"(3) by blast
  then show ?case using "3.IH" [OF p [symmetric] refl r1(1) st] "3.prems"(4,5) p by simp
qed

lemma hb_run_silent:
  assumes "hb_ready H em i" "hbn_HBstate (hbc_monitoredNodes H ! i) = CO_HBconsumer_ACTIVE"
    and "list_all (hb_silent i) cs" "hb_run cs H em = (H', em')"
  shows "if unat (hbn_time_us (hbc_monitoredNodes H ! i)) \<le>
            unat (hbn_timeoutTimer (hbc_monitoredNodes H ! i)) + sum_list (map hb_elapsed cs)
    then hbn_HBstate (hbc_monitoredNodes H' ! i) = CO_HBconsumer_TIMEOUT \<and> em_isError em' CO_EM_HEARTBEAT_CONSUMER
    else hbn_HBstate (hbc_monitoredNodes H' ! i) = CO_HBconsumer_ACTIVE"
  using assms
proof (induction cs H em rule: hb_run.induct)
  case (1 H em)
  then have "hb_node_ok (hbc_monitoredNodes H ! i)" using hbc_inv_node by (auto simp: hb_ready_def)
  then show ?case using 1 by (auto simp: hb_node_ok_def word_less_nat_alt)
next
  case (2 j msg cs H em)
  then show ?case using hb_ready_receive [of H em i j msg] by (simp add: CO_HBcons_receive_keeps)
next
  case (3 dt cs H em)
  let ?n = "hbc_monitoredNodes H ! i"
  obtain H1 em1 tn1 where p: "CO_HBconsumer_process H em True dt None = (H1, em1, tn1)" by (metis prod_cases3)
  have ok: "hb_node_ok ?n" using hbc_inv_node "3.prems"(1) by (auto simp: hb_ready_def)
  have r1: "hb_ready H1 em1 i" "hbc_monitoredNodes H1 ! i = hb_next dt ?n"
    using hb_ready_process [OF "3.prems"(1) p] "3.prems"(2) by auto
  have rest: "hb_run cs H1 em1 = (H', em')" "list_all (hb_silent i) cs" "unat dt < 2 ^ 31" using "3.prems"(3,4) p by auto
  have sum: "unat (hbn_timeoutTimer ?n + dt) = unat (hbn_timeoutTimer ?n) + unat dt"
    using rest(3) ok "3.prems"(2) by (simp add: hb_node_ok_def word_less_nat_alt unat_word_ariths)
  have new: "\<not> hbn_CANrxNew ?n" using "3.prems"(1) by (simp add: hb_ready_def)
  show ?case
  proof (cases "hb_times_out dt ?n")
    case True
    then have st: "hbn_HBstate (hbc_monitoredNodes H1 ! i) = CO_HBconsumer_TIMEOUT"
      using r1(2) new "3.prems"(2) by (simp add: hb_next_state_def)
    then have "em_isError em1 CO_EM_HEARTBEAT_CONSUMER"
      using hb_ready_error [OF "3.prems"(1) p] True by (simp add: hb_active_def)
    from hb_timeout_lasts [OF r1(1) st this rest(2,1)] show ?thesis
      using True sum by (simp add: hb_times_out_def word_le_nat_alt)
  next
    case False
    then have "hbn_HBstate (hbc_monitoredNodes H1 ! i) = CO_HBconsumer_ACTIVE"
      "hbn_timeoutTimer (hbc_monitoredNodes H1 ! i) = hbn_timeoutTimer ?n + dt"
      "hbn_time_us (hbc_monitoredNodes H1 ! i) = hbn_time_us ?n"
      using r1(2) new "3.prems"(2) by (simp_all add: hb_next_state_def hb_next_def Let_def)
    then show ?thesis using "3.IH" [OF p [symmetric] refl r1(1) _ rest(2,1)] sum by (simp add: add.assoc)
  qed
qed

text \<open>
  C20: a monitored node that has sent a heartbeat and then stays silent is in the timeout state exactly
  when the time steps of the processing calls since then add up to at least its configured time, not
  earlier and not later; from then on the heartbeat emergency is active, whatever the other monitored
  nodes send, until the node is heard again.
\<close>

theorem silent_node_times_out:
  assumes "hb_ready H em i" "hbn_HBstate (hbc_monitoredNodes H ! i) = CO_HBconsumer_ACTIVE"
    and "list_all (hb_silent i) cs" "hb_run cs H em = (H', em')"
  shows "if unat (hbn_time_us (hbc_monitoredNodes H ! i)) \<le>
            unat (hbn_timeoutTimer (hbc_monitoredNodes H ! i)) + sum_list (map hb_elapsed cs)
    then hbn_HBstate (hbc_monitoredNodes H' ! i) = CO_HBconsumer_TIMEOUT \<and> em_isError em' CO_EM_HEARTBEAT_CONSUMER
    else hbn_HBstate (hbc_monitoredNodes H' ! i) = CO_HBconsumer_ACTIVE"
  using hb_run_silent [OF assms] .

theorem silent_node_times_out_witness:
  "\<exists>H' em'. hb_run [HbProc 300000, HbRx 2 \<lparr>rxm_ident = 0x706, rxm_DLC = 1, rxm_data = [5]\<rparr>, HbProc 300000] example_hbc example_em
     = (H', em') \<and> em_isError em' CO_EM_HEARTBEAT_CONSUMER"
proof -
  obtain H' em' where r: "hb_run [HbProc 300000, HbRx 2 \<lparr>rxm_ident = 0x706, rxm_DLC = 1, rxm_data = [5]\<rparr>, HbProc 300000]
      example_hbc example_em = (H', em')"
    by fastforce
  have "hb_ready example_hbc example_em 0"
    using example_hbc_inv example_em_inv by (simp add: hb_ready_def hbc_number_def example_hbc_def example_hb_node_def)
  from silent_node_times_out [OF this _ _ r] show ?thesis
    using r by (simp add: example_hbc_def example_hb_node_def)
qed

subsection \<open>Configuration\<close>

definition hbc_distinct :: "CO_HBconsumer_t \<Rightarrow> u8 \<Rightarrow> u8 \<Rightarrow> bool" where
  \<comment> \<open>no other entry of object 0x1016 with a time names the node\<close>
  "hbc_distinct H idx nodeId \<longleftrightarrow>
     (\<forall>j < hbc_number H. j \<noteq> unat idx \<longrightarrow> hb_time_ms (hbc_HBconsTime H ! j) = 0 \<or> hb_time_nodeId (hbc_HBconsTime H ! j) \<noteq> nodeId)"

lemma hb_conflict_distinct: "hb_conflict H idx nodeId t \<longleftrightarrow> t \<noteq> 0 \<and> nodeId \<noteq> 0 \<and> \<not> hbc_distinct H idx nodeId"
  unfolding hb_conflict_def hbc_distinct_def list_ex_iff by (metis atLeast_upt lessThan_iff)

lemma hb_configure_used: "hbn_HBstate (hb_configure nodeId t n) \<noteq> CO_HBconsumer_UNCONFIGURED \<longleftrightarrow> nodeId \<noteq> 0 \<and> t \<noteq> 0"
  using hb_time [of t] by (simp add: hb_configure_def Let_def flip: unat_eq_0)

lemma CO_HBconsumer_initEntry_keeps:
  assumes "hbc_inv H" "bus_dev_inv bus" "CO_HBconsumer_initEntry env (Some H) bus idx nodeId t = (ret, HB', bus')"
  obtains H' where "HB' = Some H'" "hbc_inv H'" "bus_dev_inv bus'" "hbc_number H' = hbc_number H"
    "hbc_HBconsTime H' = hbc_HBconsTime H" "can_rxSize (bus_can bus') = can_rxSize (bus_can bus)"
proof -
  let ?H1 = "hbc_upd_node H (unat idx) (hb_configure nodeId t)"
  have H1: "hbc_inv ?H1" "hbc_number ?H1 = hbc_number H" "hbc_HBconsTime ?H1 = hbc_HBconsTime H"
    using hbc_inv_upd [OF assms(1), of "hb_configure nodeId t"] hb_node_ok_configure
    by (simp_all add: hbc_upd_node_def hbc_number_def)
  obtain r b1 where rx: "CO_CANrxBufferInit env bus (hbc_CANdevRxIdxStart H + ucast idx)
      (ucast nodeId + CO_CAN_ID_HEARTBEAT) 0x7FF False (Some (obj_hb_node (unat idx))) (Some CB_HBcons_receive) = (r, b1)"
    by fastforce
  then have "bus_dev_inv b1" "can_rxSize (bus_can b1) = can_rxSize (bus_can bus)"
    using CO_CANrxBufferInit_keeps [OF _ rx] assms(2) by (auto simp: bus_dev_inv_def)
  then show thesis using that assms H1 rx
    by (auto simp: CO_HBconsumer_initEntry_def Let_def split: if_splits)
qed

text \<open>
  \<^verbatim>\<open>CO_HBconsumer_initEntry\<close> rejects an index out of range, and a node that another entry of object
  0x1016 already monitors, without changing anything. Otherwise exactly the named entry changes: with a
  node and a time it starts to wait for heartbeats with the identifier 0x700 plus the node identifier,
  else it is switched off.
\<close>

theorem CO_HBconsumer_initEntry_correct:
  assumes "hbc_inv H" "bus_dev_inv bus" "CO_HBconsumer_initEntry env (Some H) bus idx nodeId t = (ret, Some H', bus')"
  shows "hbc_inv H' \<and> bus_dev_inv bus' \<and>
    (if hbc_number H \<le> unat idx \<or> t \<noteq> 0 \<and> nodeId \<noteq> 0 \<and> \<not> hbc_distinct H idx nodeId
     then ret = CO_ERROR_ILLEGAL_ARGUMENT \<and> H' = H \<and> bus' = bus
     else (\<forall>j. j \<noteq> unat idx \<longrightarrow> hbc_monitoredNodes H' ! j = hbc_monitoredNodes H ! j) \<and>
       hbc_monitoredNodes H' ! unat idx = hb_configure nodeId t (hbc_monitoredNodes H ! unat idx) \<and>
       (if nodeId \<noteq> 0 \<and> t \<noteq> 0
        then unat (hbn_time_us (hbc_monitoredNodes H' ! unat idx)) = 1000 * unat t \<and>
          hbn_HBstate (hbc_monitoredNodes H' ! unat idx) = CO_HBconsumer_UNKNOWN \<and>
          (hbc_CANdevRxIdxStart H + ucast idx < can_rxSize (bus_can bus) \<longrightarrow>
            ret \<in> {CO_ERROR_NO, CO_ERROR_SYSCALL} \<and>
            rx_ident (can_rxArray (bus_can bus') ! unat (hbc_CANdevRxIdxStart H + ucast idx)) =
              can_id env (ucast nodeId + CO_CAN_ID_HEARTBEAT) False \<and>
            rx_CANrx_callback (can_rxArray (bus_can bus') ! unat (hbc_CANdevRxIdxStart H + ucast idx)) = Some CB_HBcons_receive)
        else ret = CO_ERROR_NO \<and> bus' = bus \<and>
          hbn_HBstate (hbc_monitoredNodes H' ! unat idx) = CO_HBconsumer_UNCONFIGURED))"
proof -
  let ?c = "hb_configure nodeId t (hbc_monitoredNodes H ! unat idx)"
  let ?H1 = "hbc_upd_node H (unat idx) (hb_configure nodeId t)"
  have keeps: "hbc_inv H' \<and> bus_dev_inv bus'"
    using CO_HBconsumer_initEntry_keeps [OF assms] by (metis option.inject)
  have bound: "hbc_numberOfMonitoredNodes H \<le> idx \<longleftrightarrow> hbc_number H \<le> unat idx"
    by (simp add: hbc_number_def word_le_nat_alt)
  have upd: "hbc_monitoredNodes ?H1 ! unat idx = ?c" if "unat idx < hbc_number H"
    using that assms(1) by (simp add: hbc_upd_node_def hbc_inv_def)
  have oth: "hbc_monitoredNodes ?H1 ! j = hbc_monitoredNodes H ! j" if "j \<noteq> unat idx" for j
    using that by (simp add: hbc_upd_node_def)
  have c: "unat (hbn_time_us ?c) = 1000 * unat t" "hbn_HBstate ?c = CO_HBconsumer_UNKNOWN" if "nodeId \<noteq> 0" "t \<noteq> 0"
    using that hb_time [of t] by (simp_all add: hb_configure_def Let_def flip: unat_eq_0)
  have inv: "bus_inv bus" using assms(2) by (simp add: bus_dev_inv_def)
  show ?thesis
  proof (cases "hbc_number H \<le> unat idx \<or> hb_conflict H idx nodeId t")
    case True
    then show ?thesis using keeps assms(3)
      by (auto simp: CO_HBconsumer_initEntry_def bound hb_conflict_distinct split: if_splits)
  next
    case False
    then have H': "H' = ?H1" and rx: "if nodeId \<noteq> 0 \<and> t \<noteq> 0
      then CO_CANrxBufferInit env bus (hbc_CANdevRxIdxStart H + ucast idx) (ucast nodeId + CO_CAN_ID_HEARTBEAT)
        0x7FF False (Some (obj_hb_node (unat idx))) (Some CB_HBcons_receive) = (ret, bus')
      else ret = CO_ERROR_NO \<and> bus' = bus"
      using assms(3) upd hb_configure_used [of nodeId t "hbc_monitoredNodes H ! unat idx"]
      by (auto simp: CO_HBconsumer_initEntry_def Let_def bound split: if_splits prod.splits)
    have buf: "ret \<in> {CO_ERROR_NO, CO_ERROR_SYSCALL} \<and>
        rx_ident (can_rxArray (bus_can bus') ! unat (hbc_CANdevRxIdxStart H + ucast idx)) =
          can_id env (ucast nodeId + CO_CAN_ID_HEARTBEAT) False \<and>
        rx_CANrx_callback (can_rxArray (bus_can bus') ! unat (hbc_CANdevRxIdxStart H + ucast idx)) = Some CB_HBcons_receive"
      if "nodeId \<noteq> 0 \<and> t \<noteq> 0" "hbc_CANdevRxIdxStart H + ucast idx < can_rxSize (bus_can bus)"
      using CO_CANrxBufferInit_buffer [OF inv _ that(2)] rx that(1) by auto
    show ?thesis
      using False H' rx keeps c upd oth buf hb_configure_used [of nodeId t]
      by (auto simp: hb_conflict_distinct)
  qed
qed

theorem CO_HBconsumer_initEntry_correct_witness:
  "\<exists>H' bus'. CO_HBconsumer_initEntry (example_env 0) (Some example_hbc) example_bus 1 6 500 = (CO_ERROR_ILLEGAL_ARGUMENT, Some H', bus') \<and>
     H' = example_hbc"
proof -
  obtain ret HB' bus' where r: "CO_HBconsumer_initEntry (example_env 0) (Some example_hbc) example_bus 1 6 500 = (ret, HB', bus')"
    by (metis prod_cases3)
  obtain H' where "HB' = Some H'" using CO_HBconsumer_initEntry_keeps [OF example_hbc_inv example_bus_inv r] by blast
  moreover have "\<not> hbc_distinct example_hbc 1 6"
    by (auto simp: hbc_distinct_def hbc_number_def example_hbc_def hb_time_ms_def hb_time_nodeId_def intro!: exI [of _ 2])
  ultimately show ?thesis using CO_HBconsumer_initEntry_correct [OF example_hbc_inv example_bus_inv] r by auto
qed

text \<open>
  A run of the component: received messages, processing calls in any state, and writes to object 0x1016.
  The SDO server stores a written value when the access function returns \<^verbatim>\<open>CO_SDO_AB_NONE\<close>.
\<close>

inductive hb_step :: "can_env \<Rightarrow> CO_HBconsumer_t \<times> co_bus \<Rightarrow> CO_HBconsumer_t \<times> co_bus \<Rightarrow> bool" for env where
  receive: "hb_step env (H, bus) (CO_HBcons_receive H i msg, bus)"
| process: "CO_HBconsumer_process H (bus_em bus) oper dt tn = (H', em', tn') \<Longrightarrow> hb_step env (H, bus) (H', bus\<lparr>bus_em := em'\<rparr>)"
| accepted: "\<not> arg_reading arg \<Longrightarrow> CO_ODF_1016 env H bus arg = (CO_SDO_AB_NONE, H', bus') \<Longrightarrow>
    hb_step env (H, bus)
      (H'\<lparr>hbc_HBconsTime := (hbc_HBconsTime H')[unat (arg_subIndex arg - 1) := CO_getUint32 (arg_data arg)]\<rparr>, bus')"
| rejected: "CO_ODF_1016 env H bus arg = (code, H', bus') \<Longrightarrow> code \<noteq> CO_SDO_AB_NONE \<Longrightarrow> hb_step env (H, bus) (H', bus')"

definition hb_used :: "u32 \<Rightarrow> bool" where "hb_used v \<longleftrightarrow> hb_time_nodeId v \<noteq> 0 \<and> hb_time_ms v \<noteq> 0"

definition hbc_coherent :: "CO_HBconsumer_t \<Rightarrow> bool" where
  \<comment> \<open>the monitored nodes are those of object 0x1016, and no node is named twice\<close>
  "hbc_coherent H \<longleftrightarrow>
     (\<forall>i < hbc_number H. hbn_nodeId (hbc_monitoredNodes H ! i) = hb_time_nodeId (hbc_HBconsTime H ! i) \<and>
        (hbn_HBstate (hbc_monitoredNodes H ! i) \<noteq> CO_HBconsumer_UNCONFIGURED \<longleftrightarrow> hb_used (hbc_HBconsTime H ! i))) \<and>
     (\<forall>i < hbc_number H. \<forall>j < hbc_number H. i \<noteq> j \<longrightarrow> hb_used (hbc_HBconsTime H ! i) \<longrightarrow> hb_used (hbc_HBconsTime H ! j) \<longrightarrow>
        hb_time_nodeId (hbc_HBconsTime H ! i) \<noteq> hb_time_nodeId (hbc_HBconsTime H ! j))"

definition hb_frame :: "CO_HBconsumer_t \<Rightarrow> CO_HBconsumer_t \<Rightarrow> bool" where
  \<comment> \<open>same entries, same configuration of each node\<close>
  "hb_frame H H' \<longleftrightarrow> hbc_numberOfMonitoredNodes H' = hbc_numberOfMonitoredNodes H \<and> hbc_HBconsTime H' = hbc_HBconsTime H \<and>
     hbc_CANdevRxIdxStart H' = hbc_CANdevRxIdxStart H \<and>
     (\<forall>i < hbc_number H. hbn_nodeId (hbc_monitoredNodes H' ! i) = hbn_nodeId (hbc_monitoredNodes H ! i) \<and>
        (hbn_HBstate (hbc_monitoredNodes H' ! i) = CO_HBconsumer_UNCONFIGURED \<longleftrightarrow>
         hbn_HBstate (hbc_monitoredNodes H ! i) = CO_HBconsumer_UNCONFIGURED))"

lemma hb_frame_coherent: "hb_frame H H' \<Longrightarrow> hbc_coherent H \<Longrightarrow> hbc_coherent H'"
  by (auto simp: hb_frame_def hbc_coherent_def hbc_number_def)

lemma hb_clear_ok: "hb_node_ok n \<Longrightarrow> hb_node_ok (hb_clear n)"
  by (auto simp: hb_node_ok_def hb_clear_def)

lemma hb_clear_frame [simp]: "hbn_nodeId (hb_clear n) = hbn_nodeId n"
  "hbn_HBstate (hb_clear n) = CO_HBconsumer_UNCONFIGURED \<longleftrightarrow> hbn_HBstate n = CO_HBconsumer_UNCONFIGURED"
  by (simp_all add: hb_clear_def)

lemma CO_HBconsumer_process_off:
  assumes "\<not> (oper \<and> hbc_NMTisPreOrOperationalPrev H)"
  shows "CO_HBconsumer_process H em oper dt tn =
    (let act = \<not> (oper \<or> hbc_NMTisPreOrOperationalPrev H)
     in (H\<lparr>hbc_monitoredNodes := (if act then hbc_monitoredNodes H else map_first (hbc_number H) hb_clear (hbc_monitoredNodes H)),
           hbc_allMonitoredActive := act, hbc_allMonitoredOperational := (if act then 5 else -1),
           hbc_NMTisPreOrOperationalPrev := oper\<rparr>,
         hb_cleared (\<not> hbc_allMonitoredActive H \<and> act) em, tn))"
  using assms by (auto simp: CO_HBconsumer_process_def Let_def hb_cleared_def)

lemma CO_HBconsumer_process_keeps:
  assumes "hbc_inv H" "em_inv em" "CO_HBconsumer_process H em oper dt tn = (H', em', tn')"
  shows "hbc_inv H' \<and> em_inv em' \<and> hb_frame H H'"
proof (cases "oper \<and> hbc_NMTisPreOrOperationalPrev H")
  case True
  then have p: "CO_HBconsumer_process H em True dt tn = (H', em', tn')" "hbc_NMTisPreOrOperationalPrev H" using assms(3) by simp_all
  note s = CO_HBconsumer_process_on_spec [OF assms(1,2) p(2,1)]
  have node: "hbc_monitoredNodes H' ! i = hb_next dt (hbc_monitoredNodes H ! i)" if "i < hbc_number H" for i
    using s that assms(1) by (metis hbc_nodes_nth length_hbc_nodes nth_map)
  have "hbc_numberOfMonitoredNodes H' = hbc_numberOfMonitoredNodes H" "hbc_HBconsTime H' = hbc_HBconsTime H"
    "hbc_CANdevRxIdxStart H' = hbc_CANdevRxIdxStart H"
    using CO_HBconsumer_process_on [OF assms(1) p(2), of em dt tn] p(1) by (auto simp: Let_def)
  then show ?thesis using s node by (simp add: hb_frame_def hb_next_configured)
next
  case False
  let ?ns = "map hb_clear (hbc_nodes H)"
  note p = CO_HBconsumer_process_off [OF False, of em dt tn, unfolded assms(3)]
  have em: "em_inv em'" using p hb_cleared_spec(1) [OF assms(2)] by (auto simp: Let_def)
  have same: "hbc_numberOfMonitoredNodes H' = hbc_numberOfMonitoredNodes H" "hbc_HBconsTime H' = hbc_HBconsTime H"
    "hbc_CANdevRxIdxStart H' = hbc_CANdevRxIdxStart H"
    using p by (auto simp: Let_def)
  show ?thesis
  proof (cases "oper \<or> hbc_NMTisPreOrOperationalPrev H")
    case True
    then have "hbc_monitoredNodes H' = ?ns @ drop (hbc_number H) (hbc_monitoredNodes H)"
      using p by (simp add: Let_def map_first_def hbc_nodes_def)
    moreover have "\<forall>n \<in> set ?ns. hb_node_ok n" using assms(1) by (auto simp: hbc_inv_def hb_clear_ok)
    ultimately show ?thesis
      using hbc_nodes_replace [OF assms(1), of ?ns H'] same assms(1) em
      by (simp add: hb_frame_def nth_append)
  next
    case False
    then have "hbc_monitoredNodes H' = hbc_monitoredNodes H" using p by (simp add: Let_def)
    then show ?thesis using same em assms(1) by (simp add: hb_frame_def hbc_inv_def hbc_nodes_def hbc_number_def)
  qed
qed

definition hb_room :: "CO_HBconsumer_t \<Rightarrow> co_bus \<Rightarrow> bool" where
  \<comment> \<open>the receive buffers of the consumer exist\<close>
  "hb_room H bus \<longleftrightarrow> unat (hbc_CANdevRxIdxStart H) + hbc_number H \<le> unat (can_rxSize (bus_can bus))"

lemma hb_room_index:
  fixes idx :: u8
  assumes "hb_room H bus" "unat idx < hbc_number H"
  shows "hbc_CANdevRxIdxStart H + ucast idx < can_rxSize (bus_can bus)"
proof -
  have "unat (hbc_CANdevRxIdxStart H) + unat idx < 65536"
    using assms unat_u16_less [of "can_rxSize (bus_can bus)"] unfolding hb_room_def by linarith
  then have "unat (hbc_CANdevRxIdxStart H + ucast idx) = unat (hbc_CANdevRxIdxStart H) + unat idx"
    by (simp add: unat_word_ariths unsigned_ucast_eq take_bit_nat_eq_self)
  then show ?thesis using assms by (simp add: hb_room_def word_less_nat_alt)
qed

lemma CO_ODF_1016_write:
  assumes "hbc_inv H" "bus_dev_inv bus" "\<not> arg_reading arg" "CO_ODF_1016 env H bus arg = (code, H', bus')"
    and "hb_room H bus" "\<forall>l r. env_ioctl env l r = 0"
  shows "hbc_inv H' \<and> bus_dev_inv bus' \<and> can_rxSize (bus_can bus') = can_rxSize (bus_can bus) \<and>
    (if code = CO_SDO_AB_NONE
     then unat (arg_subIndex arg - 1) < hbc_number H \<and>
       \<not> hb_conflict H (arg_subIndex arg - 1) (hb_time_nodeId (CO_getUint32 (arg_data arg))) (hb_time_ms (CO_getUint32 (arg_data arg))) \<and>
       H' = hbc_upd_node H (unat (arg_subIndex arg - 1))
         (hb_configure (hb_time_nodeId (CO_getUint32 (arg_data arg))) (hb_time_ms (CO_getUint32 (arg_data arg))))
     else H' = H)"
proof -
  define v idx where "v = CO_getUint32 (arg_data arg)" and "idx = arg_subIndex arg - 1"
  obtain ret HB1 b1 where e: "CO_HBconsumer_initEntry env (Some H) bus idx (hb_time_nodeId v) (hb_time_ms v) = (ret, HB1, b1)"
    by (metis prod_cases3)
  obtain H1 where H1: "HB1 = Some H1" "hbc_inv H1" "bus_dev_inv b1" "can_rxSize (bus_can b1) = can_rxSize (bus_can bus)"
    using CO_HBconsumer_initEntry_keeps [OF assms(1,2) e] by blast
  have r: "if hbc_number H \<le> unat idx \<or> hb_conflict H idx (hb_time_nodeId v) (hb_time_ms v)
    then ret = CO_ERROR_ILLEGAL_ARGUMENT \<and> H1 = H
    else ret = CO_ERROR_NO \<and> H1 = hbc_upd_node H (unat idx) (hb_configure (hb_time_nodeId v) (hb_time_ms v))"
  proof (cases "hbc_number H \<le> unat idx \<or> hb_conflict H idx (hb_time_nodeId v) (hb_time_ms v)")
    case True
    then show ?thesis using e H1(1) by (auto simp: CO_HBconsumer_initEntry_def hbc_number_def word_le_nat_alt split: if_splits)
  next
    case False
    then have "hbc_CANdevRxIdxStart H + ucast idx < can_rxSize (bus_can bus)" using hb_room_index [OF assms(5)] by simp
    then show ?thesis using False e H1(1) assms(6)
      by (auto simp: CO_HBconsumer_initEntry_def hbc_number_def word_le_nat_alt Let_def CO_CANrxBufferInit_def can_ioctl_def not_le
          word_less_nat_alt split: if_splits)
  qed
  show ?thesis
    using assms(1-4) e H1 r unfolding v_def idx_def
    by (auto simp: CO_ODF_1016_def Let_def split: if_splits)
qed

lemma hb_store_coherent:
  assumes "hbc_inv H" "hbc_coherent H" "unat idx < hbc_number H" "\<not> hb_conflict H idx (hb_time_nodeId v) (hb_time_ms v)"
    and "H' = hbc_upd_node H (unat idx) (hb_configure (hb_time_nodeId v) (hb_time_ms v))"
  shows "hbc_coherent (H'\<lparr>hbc_HBconsTime := (hbc_HBconsTime H')[unat idx := v]\<rparr>)"
proof -
  have len: "unat idx < length (hbc_monitoredNodes H)" "unat idx < length (hbc_HBconsTime H)"
    using assms(1,3) by (auto simp: hbc_inv_def)
  have other: "\<forall>j < hbc_number H. j \<noteq> unat idx \<longrightarrow> hb_used v \<longrightarrow> hb_used (hbc_HBconsTime H ! j) \<longrightarrow>
      hb_time_nodeId (hbc_HBconsTime H ! j) \<noteq> hb_time_nodeId v"
    using assms(4) by (auto simp: hb_conflict_distinct hbc_distinct_def hb_used_def)
  have conf: "hbn_nodeId (hb_configure a b n) = a" for a b n by (simp add: hb_configure_def Let_def)
  have state: "hbn_HBstate (hb_configure (hb_time_nodeId v) (hb_time_ms v) n) \<noteq> CO_HBconsumer_UNCONFIGURED \<longleftrightarrow> hb_used v" for n
    by (simp add: hb_configure_used hb_used_def)
  show ?thesis
    using assms(2,3) len other unfolding assms(5)
    by (simp add: hbc_coherent_def hbc_upd_node_def hbc_number_def nth_list_update conf state) metis
qed

lemma CO_HBcons_receive_frame: "hb_frame H (CO_HBcons_receive H i msg)"
proof (cases "i < length (hbc_monitoredNodes H)")
  case True
  then show ?thesis by (auto simp: hb_frame_def CO_HBcons_receive_def Let_def hbc_upd_node_def nth_list_update)
next
  case False
  then show ?thesis by (simp add: hb_frame_def CO_HBcons_receive_def Let_def hbc_upd_node_def list_update_beyond)
qed

definition hb_safe :: "CO_HBconsumer_t \<times> co_bus \<Rightarrow> bool" where
  "hb_safe = (\<lambda>(H, bus). hbc_inv H \<and> hbc_coherent H \<and> bus_dev_inv bus \<and> hb_room H bus)"

lemma hb_room_frame: "hb_frame H H' \<Longrightarrow> can_rxSize (bus_can bus') = can_rxSize (bus_can bus) \<Longrightarrow> hb_room H bus \<Longrightarrow> hb_room H' bus'"
  by (simp add: hb_room_def hb_frame_def hbc_number_def)

lemma hb_step_safe:
  assumes "hb_step env s s'" "hb_safe s" "\<forall>l r. env_ioctl env l r = 0"
  shows "hb_safe s'"
  using assms(1)
proof cases
  case (receive H bus i msg)
  then show ?thesis
    using assms(2) CO_HBcons_receive_keeps(1) hb_frame_coherent [OF CO_HBcons_receive_frame]
      hb_room_frame [OF CO_HBcons_receive_frame refl]
    by (auto simp: hb_safe_def)
next
  case (process H bus oper dt tn H' em' tn')
  then have s: "hbc_inv H" "hbc_coherent H" "bus_dev_inv bus" "hb_room H bus" "em_inv (bus_em bus)"
    using assms(2) by (auto simp: hb_safe_def bus_dev_inv_def bus_inv_def)
  have k: "hbc_inv H'" "em_inv em'" "hb_frame H H'" using CO_HBconsumer_process_keeps [OF s(1,5) process(3)] by simp_all
  then have "hbc_coherent H'" "hb_room H' (bus\<lparr>bus_em := em'\<rparr>)"
    using hb_frame_coherent [OF k(3) s(2)] hb_room_frame [OF k(3) _ s(4), of "bus\<lparr>bus_em := em'\<rparr>"] by simp_all
  moreover have "bus_dev_inv (bus\<lparr>bus_em := em'\<rparr>)" using s(3) k(2) by (simp add: bus_dev_inv_def bus_inv_def)
  ultimately show ?thesis using k(1) process(2) by (simp add: hb_safe_def)
next
  case (accepted arg H bus H' bus')
  then have s: "hbc_inv H" "hbc_coherent H" "bus_dev_inv bus" "hb_room H bus" using assms(2) by (auto simp: hb_safe_def)
  note w = CO_ODF_1016_write [OF s(1,3) accepted(3,4) s(4) assms(3)]
  let ?H = "H'\<lparr>hbc_HBconsTime := (hbc_HBconsTime H')[unat (arg_subIndex arg - 1) := CO_getUint32 (arg_data arg)]\<rparr>"
  have "hbc_inv H'" using w by blast
  have "hbc_coherent ?H" using hb_store_coherent [OF s(1,2)] w by simp
  moreover have "hbc_inv ?H" using \<open>hbc_inv H'\<close> by (simp add: hbc_inv_def hbc_nodes_def hbc_number_def)
  moreover have "hb_room ?H bus'" using w s(4) by (simp add: hb_room_def hbc_number_def hbc_upd_node_def)
  ultimately show ?thesis using w accepted(2) by (simp add: hb_safe_def)
next
  case (rejected H bus arg code H' bus')
  then have s: "hbc_inv H" "hbc_coherent H" "bus_dev_inv bus" "hb_room H bus" using assms(2) by (auto simp: hb_safe_def)
  have "\<not> arg_reading arg" using rejected(3,4) by (auto simp: CO_ODF_1016_def)
  from CO_ODF_1016_write [OF s(1,3) this rejected(3) s(4) assms(3)] show ?thesis
    using rejected(2,4) s by (simp add: hb_safe_def hb_room_def)
qed

text \<open>
  C31: as long as the device accepts the filters, in every run of received messages, processing calls and
  writes to object 0x1016 the consumer monitors exactly the nodes that object 0x1016 lists, no node is
  monitored twice, every running timer is below its limit, and the buffers stay well formed.
\<close>

theorem hb_runs_coherent:
  assumes "(hb_step env)\<^sup>*\<^sup>* s s'" "hb_safe s" "\<forall>l r. env_ioctl env l r = 0"
  shows "hb_safe s'"
  using assms(1,2) by (induction rule: rtranclp_induct) (auto intro: hb_step_safe [OF _ _ assms(3)])

text \<open>
  The assumption on the device is needed: when the filter of a new entry is refused, the write to 0x1016 is aborted and the
  variable keeps its value, but the entry of the consumer is already that of the refused value.
\<close>

lemma refused_filter_changes_entry:
  assumes "\<not> arg_reading arg" "CO_getUint32 (arg_data arg) AND 0xFF800000 = 0"
  defines "idx \<equiv> arg_subIndex arg - 1" and "nodeId \<equiv> hb_time_nodeId (CO_getUint32 (arg_data arg))"
    and "ms \<equiv> hb_time_ms (CO_getUint32 (arg_data arg))"
  assumes "idx < hbc_numberOfMonitoredNodes H" "\<not> hb_conflict H idx nodeId ms"
    and "hbn_HBstate (hbc_monitoredNodes (hbc_upd_node H (unat idx) (hb_configure nodeId ms)) ! unat idx) \<noteq> CO_HBconsumer_UNCONFIGURED"
    and "fst (CO_CANrxBufferInit env bus (hbc_CANdevRxIdxStart H + ucast idx) (ucast nodeId + CO_CAN_ID_HEARTBEAT) 0x7FF False
      (Some (obj_hb_node (unat idx))) (Some CB_HBcons_receive)) \<noteq> CO_ERROR_NO"
  shows "\<exists>bus'. CO_ODF_1016 env H bus arg = (CO_SDO_AB_PRAM_INCOMPAT, hbc_upd_node H (unat idx) (hb_configure nodeId ms), bus')"
  using assms by (auto simp: CO_ODF_1016_def CO_HBconsumer_initEntry_def Let_def not_le split: prod.splits)

definition example_hbc1 :: CO_HBconsumer_t where
  "example_hbc1 = example_hbc\<lparr>hbc_numberOfMonitoredNodes := 1, hbc_CANdevRxIdxStart := 0\<rparr>"

theorem hb_runs_coherent_witness:
  "hb_safe (CO_HBcons_receive example_hbc1 0 \<lparr>rxm_ident = 0x705, rxm_DLC = 1, rxm_data = [5]\<rparr>, example_bus)"
proof -
  have n: "hbc_number example_hbc1 = 1" by (simp add: hbc_number_def example_hbc1_def)
  have "hbc_coherent example_hbc1"
    unfolding hbc_coherent_def n by (simp add: example_hbc1_def example_hbc_def example_hb_node_def hb_used_def hb_time_ms_def hb_time_nodeId_def)
  moreover have "hb_room example_hbc1 example_bus"
    unfolding hb_room_def n by (simp add: example_hbc1_def example_bus_def)
  moreover have "hbc_inv example_hbc1"
    unfolding hbc_inv_def hbc_nodes_def n by (simp add: example_hbc1_def example_hbc_def example_hb_node_def hb_node_ok_def)
  ultimately have "hb_safe (example_hbc1, example_bus)" using example_bus_inv by (simp add: hb_safe_def)
  from hb_runs_coherent [OF r_into_rtranclp [of "hb_step (example_env 0)", OF hb_step.receive] this] show ?thesis
    by (simp add: example_env_def)
qed

subsection \<open>The next timeout, initialisation and queries\<close>

lemma lower_timer_le: "lower_timer (Some t) d = Some t' \<Longrightarrow> t' \<le> t \<and> t' \<le> d"
  by (auto simp: lower_timer_def split: if_splits)

lemma hb_timer_le:
  assumes "hb_timer dt n (Some t) = Some t'"
  shows "t' \<le> t \<and> (hb_next_state dt n = CO_HBconsumer_ACTIVE \<longrightarrow> t' \<le> hbn_time_us n - hbn_timeoutTimer (hb_next dt n))"
  using assms lower_timer_le by (auto simp: hb_timer_def split: if_splits)

lemma hb_timer_Some: "\<exists>t'. hb_timer dt n (Some t) = Some t'"
  by (auto simp: hb_timer_def lower_timer_def)

lemma hb_timers_le:
  assumes "fold (hb_timer dt) ns (Some t) = Some t'"
  shows "t' \<le> t \<and> (\<forall>n \<in> set ns. hb_next_state dt n = CO_HBconsumer_ACTIVE \<longrightarrow> t' \<le> hbn_time_us n - hbn_timeoutTimer (hb_next dt n))"
  using assms
proof (induction ns arbitrary: t)
  case Nil
  then show ?case by simp
next
  case (Cons n ns)
  obtain t1 where t1: "hb_timer dt n (Some t) = Some t1" using hb_timer_Some by blast
  then have "fold (hb_timer dt) ns (Some t1) = Some t'" using Cons.prems by simp
  from Cons.IH [OF this] show ?case using hb_timer_le [OF t1] by auto
qed

lemma hb_timers_Some: "\<exists>t'. fold (hb_timer dt) ns (Some t) = Some t'"
proof (induction ns arbitrary: t)
  case (Cons n ns)
  then show ?case using hb_timer_Some [of dt n t] by auto
qed simp

text \<open>
  The time that \<^verbatim>\<open>CO_HBconsumer_process\<close> hands back for the next call is never later than the moment at
  which the next monitored node can time out, and never later than what the caller passed in.
\<close>

theorem CO_HBconsumer_process_timerNext:
  assumes "hbc_inv H" "em_inv em" "hbc_NMTisPreOrOperationalPrev H"
    and "CO_HBconsumer_process H em True dt (Some t) = (H', em', tn')"
  shows "\<exists>t'. tn' = Some t' \<and> t' \<le> t \<and>
    (\<forall>i < hbc_number H. hbn_HBstate (hbc_monitoredNodes H' ! i) = CO_HBconsumer_ACTIVE \<longrightarrow>
      unat (hbn_timeoutTimer (hbc_monitoredNodes H' ! i)) + unat t' \<le> unat (hbn_time_us (hbc_monitoredNodes H' ! i)))"
proof -
  note s = CO_HBconsumer_process_on_spec [OF assms]
  obtain t' where t': "tn' = Some t'" using s hb_timers_Some by metis
  note le = hb_timers_le [of dt "hbc_nodes H" t t']
  have "unat (hbn_timeoutTimer (hbc_monitoredNodes H' ! i)) + unat t' \<le> unat (hbn_time_us (hbc_monitoredNodes H' ! i))"
    if i: "i < hbc_number H" and act: "hbn_HBstate (hbc_monitoredNodes H' ! i) = CO_HBconsumer_ACTIVE" for i
  proof -
    let ?n = "hbc_monitoredNodes H ! i"
    have n: "hbc_monitoredNodes H' ! i = hb_next dt ?n" "?n \<in> set (hbc_nodes H)"
      using s i assms(1) by (metis hbc_nodes_nth length_hbc_nodes nth_map, metis hbc_nodes_nth length_hbc_nodes nth_mem)
    then have "t' \<le> hbn_time_us ?n - hbn_timeoutTimer (hb_next dt ?n)" using le s t' act by auto
    moreover have "hbn_timeoutTimer (hb_next dt ?n) < hbn_time_us ?n"
      using hb_node_ok_next [OF hbc_inv_node [OF assms(1) i]] act n(1) by (auto simp: hb_node_ok_def)
    ultimately show ?thesis using n(1) by (simp add: word_nat unat_sub)
  qed
  then show ?thesis using t' le s by auto
qed

theorem CO_HBconsumer_process_timerNext_witness:
  "\<exists>H' em' t'. CO_HBconsumer_process example_hbc example_em True 100000 (Some 1000000) = (H', em', Some t') \<and> t' \<le> 1000000"
proof -
  obtain H' em' tn' where p: "CO_HBconsumer_process example_hbc example_em True 100000 (Some 1000000) = (H', em', tn')"
    by (metis prod_cases3)
  have "hbc_NMTisPreOrOperationalPrev example_hbc" by (simp add: example_hbc_def)
  from CO_HBconsumer_process_timerNext [OF example_hbc_inv example_em_inv this p] show ?thesis using p by auto
qed

lemma hb_init_loop_keeps:
  assumes "hbc_inv H" "bus_dev_inv bus" "hb_init_loop env is ret H bus = (ret', H', bus')"
  shows "hbc_inv H' \<and> bus_dev_inv bus' \<and> hbc_number H' = hbc_number H"
  using assms
proof (induction "is" arbitrary: ret H bus)
  case Nil
  then show ?case by simp
next
  case (Cons i "is")
  let ?v = "hbc_HBconsTime H ! i"
  obtain r HB1 b1 where e: "CO_HBconsumer_initEntry env (Some H) bus (word_of_nat i) (hb_time_nodeId ?v) (hb_time_ms ?v) = (r, HB1, b1)"
    by (metis prod_cases3)
  obtain H1 where H1: "HB1 = Some H1" "hbc_inv H1" "bus_dev_inv b1" "hbc_number H1 = hbc_number H"
    using CO_HBconsumer_initEntry_keeps [OF Cons.prems(1,2) e] by blast
  then have "hbc_inv (hbc_upd_node H1 i hb_no_callbacks)" by (intro hbc_inv_upd) simp_all
  from Cons.IH [OF this H1(3)] show ?case using Cons.prems(3) e H1 by (simp add: Let_def)
qed

lemma CO_HBconsumer_init_keeps:
  assumes "bus_dev_inv bus" "unat n \<le> length nodes" "unat n \<le> length ts" "\<forall>x \<in> set nodes. hb_node_ok x"
    and "CO_HBconsumer_init env bus SDO ts nodes n start = Some (ret, H, bus', SDO')"
  shows "hbc_inv H \<and> bus_dev_inv bus' \<and> hbc_number H = unat n"
proof -
  let ?H0 = "\<lparr>hbc_HBconsTime = ts, hbc_monitoredNodes = nodes, hbc_numberOfMonitoredNodes = n, hbc_allMonitoredActive = False,
      hbc_allMonitoredOperational = -1, hbc_NMTisPreOrOperationalPrev = False, hbc_CANdevRxIdxStart = start,
      hbc_events = [], hbc_signals = 0\<rparr>"
  have "hbc_inv ?H0" using assms(2-4) by (auto simp: hbc_inv_def hbc_nodes_def hbc_number_def dest: in_set_takeD)
  moreover have "hb_init_loop env [0..<unat n] CO_ERROR_NO ?H0 bus = (ret, H, bus')"
    using assms(5) by (auto simp: CO_HBconsumer_init_def Let_def split: prod.splits)
  ultimately show ?thesis using hb_init_loop_keeps [OF _ assms(1)] by (fastforce simp: hbc_number_def)
qed

text \<open>
  \<^verbatim>\<open>CO_HBconsumer_init\<close> returns the result of the last entry only: an entry that is rejected because it
  names a monitored node again goes unnoticed when the last entry is accepted.
\<close>

lemma CO_HBconsumer_init_hides_error:
  assumes "hbc_inv H" "hbc_HBconsTime H ! 2 = 0" "hbc_numberOfMonitoredNodes H = 3"
  shows "fst (hb_init_loop env [2] CO_ERROR_ILLEGAL_ARGUMENT H bus) = CO_ERROR_NO"
proof -
  have "\<not> hb_conflict H 2 0 0" "hb_time_nodeId 0 = 0" "hb_time_ms 0 = 0"
    by (simp_all add: hb_conflict_def hb_time_nodeId_def hb_time_ms_def)
  moreover have "2 < length (hbc_monitoredNodes H)" using assms(1,3) by (simp add: hbc_inv_def hbc_number_def)
  ultimately show ?thesis using assms hb_configure_used [of 0 0]
    by (auto simp: CO_HBconsumer_initEntry_def Let_def hbc_upd_node_def split: prod.splits)
qed

text \<open>
  \<^verbatim>\<open>CO_HBconsumer_getIdxByNodeId\<close> returns the index of a monitored node as an \<^verbatim>\<open>int8_t\<close>: from index 128 on the
  result is negative, as if the node were not monitored.
\<close>

lemma CO_HBconsumer_getIdxByNodeId_wraps:
  assumes "filter (\<lambda>i. hbn_nodeId (hbc_monitoredNodes H ! i) = nodeId) [0..<hbc_number H] = i # is" "128 \<le> i" "i < 256"
  shows "sint (CO_HBconsumer_getIdxByNodeId (Some H) nodeId) < 0"
proof -
  have "int i div 128 = 1" using assms(2,3) by simp
  then have "bit (int i) 7" by (simp add: bit_iff_odd)
  then show ?thesis
    using assms(1) by (simp add: CO_HBconsumer_getIdxByNodeId_def signed_of_nat signed_take_bit_negative_iff)
qed

end
