(* ===== verification/Sync.thy ===== *)
theory Sync
  imports NMT_Heartbeat
begin

section \<open>SYNC producer and consumer (\<^verbatim>\<open>301/CO_SYNC.c\<close>)\<close>

text \<open>
  Reception and production of the SYNC message: the counter, the timers for the period, the
  synchronous window and the timeout, and the access functions of objects 0x1005, 0x1006 and 0x1019,
  which reconfigure the component at run time. \<^verbatim>\<open>*SYNC->operatingState\<close> is an argument of the handlers that
  read it, \<^verbatim>\<open>SYNC->em\<close> is the emergency object \<^verbatim>\<open>bus_em\<close> of the bus, and \<^verbatim>\<open>syn_signals\<close> counts the calls of
  \<^verbatim>\<open>pFunctSignalPre\<close>. The result \<^verbatim>\<open>None\<close> is an access through \<^verbatim>\<open>NULL\<close>.
\<close>

subsection \<open>State and operations\<close>

record CO_SYNC_t =
  syn_isProducer :: bool
  syn_COB_ID :: u16
  syn_periodTime :: u32
  syn_periodTimeoutTime :: u32
  syn_counterOverflowValue :: u8
  syn_insideWindow :: bool
  syn_CANrxNew :: bool
  syn_CANrxToggle :: bool
  syn_counter :: u8
  syn_timer :: u32
  syn_receiveError :: u16
  syn_pFunctSignalPre :: bool
  syn_CANdevRxIdx :: u16
  syn_CANtxBuff :: "nat option"
  syn_CANdevTxIdx :: u16
  syn_signals :: nat

datatype CO_SYNC_status_t = CO_SYNC_NONE | CO_SYNC_RECEIVED | CO_SYNC_OUTSIDE_WINDOW

abbreviation (input) "CO_EM_SYNC_TIME_OUT \<equiv> (0x18 :: u8)"
abbreviation (input) "CO_EM_SYNC_LENGTH \<equiv> (0x19 :: u8)"
abbreviation (input) "CO_EMC_SYNC_DATA_LENGTH \<equiv> (0x8240 :: u16)"

definition nmt_pre_or_operational :: "CO_NMT_internalState_t \<Rightarrow> bool" where
  "nmt_pre_or_operational st \<longleftrightarrow> st = CO_NMT_OPERATIONAL \<or> st = CO_NMT_PRE_OPERATIONAL"

definition CO_SYNC_receive :: "CO_NMT_internalState_t \<Rightarrow> CO_SYNC_t \<Rightarrow> CO_CANrxMsg_t \<Rightarrow> CO_SYNC_t" where
  "CO_SYNC_receive operState SYNC msg =
     (if nmt_pre_or_operational operState then
        let DLC = rxm_DLC msg;
            S1 = (if syn_counterOverflowValue SYNC = 0 then
                    (if DLC = 0 then SYNC\<lparr>syn_CANrxNew := True\<rparr>
                     else SYNC\<lparr>syn_receiveError := ucast DLC OR 0x0100\<rparr>)
                  else
                    (if DLC = 1 then SYNC\<lparr>syn_counter := rxm_data msg ! 0, syn_CANrxNew := True\<rparr>
                     else SYNC\<lparr>syn_receiveError := ucast DLC OR 0x0200\<rparr>))
        in if syn_CANrxNew S1 then
             let S2 = S1\<lparr>syn_CANrxToggle := \<not> syn_CANrxToggle S1\<rparr>
             in if syn_pFunctSignalPre S2 then S2\<lparr>syn_signals := syn_signals S2 + 1\<rparr> else S2
           else S1
      else SYNC)"

definition sync_timeout :: "u32 \<Rightarrow> u32" where
  \<comment> \<open>\<^verbatim>\<open>period / 2 * 3\<close>, and the maximum when that overflows\<close>
  "sync_timeout period = (let t = (period div 2) * 3 in if t < period then 0xFFFFFFFF else t)"

definition obj_sync :: nat where "obj_sync = 6"

definition sync_configure_rx :: "can_env \<Rightarrow> CO_SYNC_t \<Rightarrow> co_bus \<Rightarrow> CO_ReturnError_t \<times> co_bus" where
  "sync_configure_rx env SYNC bus =
     CO_CANrxBufferInit env bus (syn_CANdevRxIdx SYNC) (syn_COB_ID SYNC) 0x7FF False (Some obj_sync) (Some CB_SYNC_receive)"

definition sync_configure_producer ::
    "can_env \<Rightarrow> CO_SYNC_t \<Rightarrow> co_bus \<Rightarrow> CO_SDO_abortCode_t \<times> CO_SYNC_t \<times> co_bus" where
  \<comment> \<open>the block under \<^verbatim>\<open>if(configureSyncProducer)\<close> of \<^verbatim>\<open>CO_ODF_1005\<close>\<close>
  "sync_configure_producer env SYNC bus =
     (let len = (if syn_counterOverflowValue SYNC \<noteq> 0 then 1 else 0);
          S1 = (if syn_counterOverflowValue SYNC \<noteq> 0 then SYNC\<lparr>syn_counter := 0, syn_timer := 0\<rparr> else SYNC);
          (tx, bus1) = CO_CANtxBufferInit env bus (syn_CANdevTxIdx S1) (syn_COB_ID S1) False len False
      in (if tx = None then CO_SDO_AB_DATA_DEV_STATE else CO_SDO_AB_NONE,
          S1\<lparr>syn_CANtxBuff := tx, syn_isProducer := tx \<noteq> None\<rparr>, bus1))"

definition CO_ODF_1005 ::
    "can_env \<Rightarrow> CO_SYNC_t \<Rightarrow> co_bus \<Rightarrow> CO_ODF_arg_t \<Rightarrow> CO_SDO_abortCode_t \<times> CO_SYNC_t \<times> co_bus" where
  "CO_ODF_1005 env SYNC bus arg =
     (let val = CO_getUint32 (arg_data arg)
      in if arg_reading arg then (CO_SDO_AB_NONE, SYNC, bus)
         else if val AND 0x20000000 \<noteq> 0 then (CO_SDO_AB_INVALID_VALUE, SYNC, bus)
         else if val AND 0x40000000 \<noteq> 0 \<and> syn_isProducer SYNC then (CO_SDO_AB_DATA_DEV_STATE, SYNC, bus)
         else
           let S1 = SYNC\<lparr>syn_COB_ID := ucast (val AND 0x7FF)\<rparr>;
               (ret, S2, bus2) =
                 (if val AND 0x40000000 \<noteq> 0 then sync_configure_producer env S1 bus
                  else (CO_SDO_AB_NONE, S1\<lparr>syn_isProducer := False\<rparr>, bus))
           in if ret = CO_SDO_AB_NONE then
                let (CANret, bus3) = sync_configure_rx env S2 bus2
                in (if CANret \<noteq> CO_ERROR_NO then CO_SDO_AB_DATA_DEV_STATE else ret, S2, bus3)
              else (ret, S2, bus2))"

definition CO_ODF_1006 :: "CO_SYNC_t \<Rightarrow> CO_ODF_arg_t \<Rightarrow> CO_SDO_abortCode_t \<times> CO_SYNC_t" where
  "CO_ODF_1006 SYNC arg =
     (let val = CO_getUint32 (arg_data arg)
      in (CO_SDO_AB_NONE,
          if arg_reading arg then SYNC
          else SYNC\<lparr>syn_counter := (if syn_periodTime SYNC = 0 \<and> val \<noteq> 0 then 0 else syn_counter SYNC),
                    syn_periodTime := val, syn_periodTimeoutTime := sync_timeout val, syn_timer := 0\<rparr>))"

definition CO_ODF_1019 ::
    "can_env \<Rightarrow> CO_SYNC_t \<Rightarrow> co_bus \<Rightarrow> CO_ODF_arg_t \<Rightarrow> CO_SDO_abortCode_t \<times> CO_SYNC_t \<times> co_bus" where
  "CO_ODF_1019 env SYNC bus arg =
     (let val = arg_data arg ! 0
      in if arg_reading arg then (CO_SDO_AB_NONE, SYNC, bus)
         else if syn_periodTime SYNC \<noteq> 0 then (CO_SDO_AB_DATA_DEV_STATE, SYNC, bus)
         else if val = 1 \<or> 240 < val then (CO_SDO_AB_INVALID_VALUE, SYNC, bus)
         else
           let (tx, bus1) = CO_CANtxBufferInit env bus (syn_CANdevTxIdx SYNC) (syn_COB_ID SYNC) False
                              (if val \<noteq> 0 then 1 else 0) False
           in (if tx = None then CO_SDO_AB_DATA_DEV_STATE else CO_SDO_AB_NONE,
               SYNC\<lparr>syn_counterOverflowValue := val, syn_CANtxBuff := tx\<rparr>, bus1))"

text \<open>
  The objects passed by pointer are arguments of the model, so the tests for \<^verbatim>\<open>NULL\<close> of \<^verbatim>\<open>CO_SYNC_init\<close> have no
  counterpart.
\<close>

definition CO_SYNC_init ::
    "can_env \<Rightarrow> co_bus \<Rightarrow> CO_SDO_OD \<Rightarrow> u32 \<Rightarrow> u32 \<Rightarrow> u8 \<Rightarrow> u16 \<Rightarrow> u16 \<Rightarrow>
     (CO_ReturnError_t \<times> CO_SYNC_t \<times> co_bus \<times> CO_SDO_OD) option" where
  "CO_SYNC_init env bus SDO COB_ID_SYNCMessage communicationCyclePeriod synchronousCounterOverflowValue CANdevRxIdx CANdevTxIdx = do {
     let S0 = \<lparr>syn_isProducer = COB_ID_SYNCMessage AND 0x40000000 \<noteq> 0, syn_COB_ID = ucast (COB_ID_SYNCMessage AND 0x7FF),
               syn_periodTime = communicationCyclePeriod, syn_periodTimeoutTime = sync_timeout communicationCyclePeriod,
               syn_counterOverflowValue = synchronousCounterOverflowValue, syn_insideWindow = True, syn_CANrxNew = False,
               syn_CANrxToggle = False, syn_counter = 0, syn_timer = 0, syn_receiveError = 0, syn_pFunctSignalPre = False,
               syn_CANdevRxIdx = CANdevRxIdx, syn_CANtxBuff = None, syn_CANdevTxIdx = CANdevTxIdx, syn_signals = 0\<rparr>;
     SDO1 \<leftarrow> CO_OD_configure SDO 0x1005 (Some ODF_1005) (Some obj_sync) None 0;
     SDO2 \<leftarrow> CO_OD_configure SDO1 0x1006 (Some ODF_1006) (Some obj_sync) None 0;
     SDO3 \<leftarrow> CO_OD_configure SDO2 0x1019 (Some ODF_1019) (Some obj_sync) None 0;
     let (ret, bus1) = sync_configure_rx env S0 bus;
     let (tx, bus2) = CO_CANtxBufferInit env bus1 CANdevTxIdx (syn_COB_ID S0) False
                        (if synchronousCounterOverflowValue \<noteq> 0 then 1 else 0) False;
     Some (if tx = None then CO_ERROR_ILLEGAL_ARGUMENT else ret, S0\<lparr>syn_CANtxBuff := tx\<rparr>, bus2, SDO3)
   }"

definition CO_SYNC_initCallbackPre :: "CO_SYNC_t option \<Rightarrow> bool \<Rightarrow> CO_SYNC_t option" where
  "CO_SYNC_initCallbackPre SYNC pFunctSignalPre = map_option (\<lambda>s. s\<lparr>syn_pFunctSignalPre := pFunctSignalPre\<rparr>) SYNC"

definition sync_next_counter :: "u8 \<Rightarrow> u8 \<Rightarrow> u8" where
  \<comment> \<open>\<^verbatim>\<open>if(++SYNC->counter > SYNC->counterOverflowValue) SYNC->counter = 1\<close>\<close>
  "sync_next_counter ov c = (if ov < c + 1 then 1 else c + 1)"

definition CO_SYNCsend :: "can_env \<Rightarrow> CO_SYNC_t \<Rightarrow> co_bus \<Rightarrow> (CO_ReturnError_t \<times> CO_SYNC_t \<times> co_bus) option" where
  "CO_SYNCsend env SYNC bus =
     (let S1 = SYNC\<lparr>syn_counter := sync_next_counter (syn_counterOverflowValue SYNC) (syn_counter SYNC),
                    syn_timer := 0, syn_CANrxToggle := \<not> syn_CANrxToggle SYNC\<rparr>
      in case syn_CANtxBuff S1 of
           None \<Rightarrow> None
         | Some b \<Rightarrow>
             (case CO_CANsend env (bus_upd_buf bus b (\<lambda>t. t\<lparr>tx_data := (tx_data t)[0 := syn_counter S1]\<rparr>)) (Some b) of
                (ret, bus1) \<Rightarrow> Some (ret, S1, bus1)))"

definition sync_tick :: "CO_SYNC_t \<Rightarrow> u32 \<Rightarrow> CO_SYNC_t" where
  \<comment> \<open>\<^verbatim>\<open>/* update sync timer, no overflow */\<close>\<close>
  "sync_tick SYNC dt = (if syn_timer SYNC < syn_timer SYNC + dt then SYNC\<lparr>syn_timer := syn_timer SYNC + dt\<rparr> else SYNC)"

definition sync_produce ::
    "can_env \<Rightarrow> CO_SYNC_status_t \<Rightarrow> CO_SYNC_t \<Rightarrow> co_bus \<Rightarrow> u32 option \<Rightarrow> (CO_SYNC_status_t \<times> CO_SYNC_t \<times> co_bus \<times> u32 option) option" where
  \<comment> \<open>the block under \<^verbatim>\<open>/* SYNC producer */\<close>\<close>
  "sync_produce env ret SYNC bus timerNext_us =
     (if syn_isProducer SYNC \<and> syn_periodTime SYNC \<noteq> 0 then
        map_option (\<lambda>(ret1, S1, bus1). (ret1, S1, bus1, lower_timer timerNext_us (syn_periodTime S1 - syn_timer S1)))
          (if syn_periodTime SYNC \<le> syn_timer SYNC
           then map_option (\<lambda>(err, S1, bus1). (CO_SYNC_RECEIVED, S1, bus1)) (CO_SYNCsend env SYNC bus)
           else Some (ret, SYNC, bus))
      else Some (ret, SYNC, bus, timerNext_us))"

definition sync_window :: "CO_SYNC_status_t \<Rightarrow> CO_SYNC_t \<Rightarrow> u32 \<Rightarrow> CO_SYNC_status_t \<times> CO_SYNC_t" where
  \<comment> \<open>the block under \<^verbatim>\<open>/* Synchronous PDOs are allowed only inside time window */\<close>\<close>
  "sync_window ret SYNC windowLength =
     (if windowLength \<noteq> 0 \<and> windowLength < syn_timer SYNC
      then (if syn_insideWindow SYNC then CO_SYNC_OUTSIDE_WINDOW else ret, SYNC\<lparr>syn_insideWindow := False\<rparr>)
      else (ret, SYNC\<lparr>syn_insideWindow := True\<rparr>))"

definition sync_verify :: "CO_SYNC_t \<Rightarrow> co_bus \<Rightarrow> u32 option \<Rightarrow> co_bus \<times> u32 option" where
  \<comment> \<open>the block under \<^verbatim>\<open>/* Verify timeout of SYNC */\<close>\<close>
  "sync_verify SYNC bus timerNext_us =
     (if syn_periodTime SYNC = 0 then (bus, timerNext_us)
      else if syn_periodTimeoutTime SYNC < syn_timer SYNC then
        (bus\<lparr>bus_em := em_errorReport (bus_em bus) CO_EM_SYNC_TIME_OUT CO_EMC_COMMUNICATION (syn_timer SYNC)\<rparr>, timerNext_us)
      else
        (bus\<lparr>bus_em := em_errorReset (bus_em bus) CO_EM_SYNC_TIME_OUT (ucast CO_EMC_COMMUNICATION)\<rparr>,
         lower_timer timerNext_us (syn_periodTimeoutTime SYNC - syn_timer SYNC)))"

definition sync_receive_error :: "CO_SYNC_t \<Rightarrow> co_bus \<Rightarrow> CO_SYNC_t \<times> co_bus" where
  \<comment> \<open>\<^verbatim>\<open>/* verify error from receive function */\<close>\<close>
  "sync_receive_error SYNC bus =
     (if syn_receiveError SYNC \<noteq> 0 then
        (SYNC\<lparr>syn_receiveError := 0\<rparr>,
         bus\<lparr>bus_em := em_errorReport (bus_em bus) CO_EM_SYNC_LENGTH CO_EMC_SYNC_DATA_LENGTH (ucast (syn_receiveError SYNC))\<rparr>)
      else (SYNC, bus))"

definition CO_SYNC_process ::
    "can_env \<Rightarrow> CO_NMT_internalState_t \<Rightarrow> CO_SYNC_t \<Rightarrow> co_bus \<Rightarrow> u32 \<Rightarrow> u32 \<Rightarrow> u32 option \<Rightarrow>
     (CO_SYNC_status_t \<times> CO_SYNC_t \<times> co_bus \<times> u32 option) option" where
  "CO_SYNC_process env operatingState SYNC bus timeDifference_us windowLength timerNext_us =
     (if nmt_pre_or_operational operatingState then do {
        let S1 = sync_tick SYNC timeDifference_us;
        let ret = (if syn_CANrxNew S1 then CO_SYNC_RECEIVED else CO_SYNC_NONE);
        let S2 = (if syn_CANrxNew S1 then S1\<lparr>syn_timer := 0, syn_CANrxNew := False\<rparr> else S1);
        (ret3, S3, bus3, tn3) \<leftarrow> sync_produce env ret S2 bus timerNext_us;
        let (ret4, S4) = sync_window ret3 S3 windowLength;
        let (bus5, tn5) = sync_verify S4 bus3 tn3;
        let (S6, bus6) = sync_receive_error S4 bus5;
        Some (ret4, S6, bus6, tn5)
      }
      else
        let (S1, bus1) = sync_receive_error (SYNC\<lparr>syn_CANrxNew := False\<rparr>) bus
        in Some (CO_SYNC_NONE, S1, bus1, timerNext_us))"

subsection \<open>Invariant\<close>

definition sync_tx_ok :: "CO_SYNC_t \<Rightarrow> co_bus \<Rightarrow> bool" where
  \<comment> \<open>the transmit buffer exists and its length fits the counter\<close>
  "sync_tx_ok S bus \<longleftrightarrow> syn_CANtxBuff S = Some (unat (syn_CANdevTxIdx S)) \<and> syn_CANdevTxIdx S < can_txSize (bus_can bus) \<and>
     tx_DLC (bus_buf bus (unat (syn_CANdevTxIdx S))) = (if syn_counterOverflowValue S = 0 then 0 else 1)"

definition sync_inv :: "CO_SYNC_t \<Rightarrow> co_bus \<Rightarrow> bool" where
  "sync_inv S bus \<longleftrightarrow> bus_dev_inv bus \<and> sync_tx_ok S bus \<and>
     syn_periodTimeoutTime S = sync_timeout (syn_periodTime S) \<and>
     syn_counterOverflowValue S \<noteq> 1 \<and> syn_counterOverflowValue S \<le> 240"

lemma sync_supported:
  assumes "em_inv em"
  shows "em_supported em CO_EM_SYNC_TIME_OUT" "em_supported em CO_EM_SYNC_LENGTH"
  using assms by (auto simp: em_supported_def em_inv_def err_index_def)

lemma bus_dev_inv_set_em: "bus_dev_inv bus \<Longrightarrow> em_inv em \<Longrightarrow> bus_dev_inv (bus\<lparr>bus_em := em\<rparr>)"
  by (simp add: bus_dev_inv_def bus_inv_def)

lemma bus_dev_inv_em_inv: "bus_dev_inv bus \<Longrightarrow> em_inv (bus_em bus)"
  by (simp add: bus_dev_inv_def bus_inv_def)

text \<open>\<^verbatim>\<open>sync_tx_ok\<close> depends on few fields only.\<close>

lemma sync_tx_ok_cong:
  assumes "syn_CANtxBuff S' = syn_CANtxBuff S" "syn_CANdevTxIdx S' = syn_CANdevTxIdx S"
    and "syn_counterOverflowValue S' = syn_counterOverflowValue S" "can_txSize (bus_can bus') = can_txSize (bus_can bus)"
    and "tx_DLC (bus_buf bus' (unat (syn_CANdevTxIdx S))) = tx_DLC (bus_buf bus (unat (syn_CANdevTxIdx S)))"
  shows "sync_tx_ok S' bus' = sync_tx_ok S bus"
  using assms by (simp add: sync_tx_ok_def)

lemma sync_inv_cong:
  assumes "sync_inv S bus" "bus_dev_inv bus'"
    and "syn_CANtxBuff S' = syn_CANtxBuff S" "syn_CANdevTxIdx S' = syn_CANdevTxIdx S"
    and "syn_counterOverflowValue S' = syn_counterOverflowValue S" "syn_periodTime S' = syn_periodTime S"
    and "syn_periodTimeoutTime S' = syn_periodTimeoutTime S" "can_txSize (bus_can bus') = can_txSize (bus_can bus)"
    and "tx_DLC (bus_buf bus' (unat (syn_CANdevTxIdx S))) = tx_DLC (bus_buf bus (unat (syn_CANdevTxIdx S)))"
  shows "sync_inv S' bus'"
  using assms sync_tx_ok_cong [OF assms(3-5,8,9)] by (simp add: sync_inv_def)

lemma CO_SYNC_receive_inv:
  assumes "sync_inv S bus"
  shows "sync_inv (CO_SYNC_receive st S msg) bus"
proof (rule sync_inv_cong [OF assms])
  show "bus_dev_inv bus" using assms by (simp add: sync_inv_def)
qed (simp_all add: CO_SYNC_receive_def Let_def)

subsection \<open>Sending\<close>

definition sync_sent :: "CO_SYNC_t \<Rightarrow> CO_SYNC_t" where
  "sync_sent S = S\<lparr>syn_counter := sync_next_counter (syn_counterOverflowValue S) (syn_counter S), syn_timer := 0,
     syn_CANrxToggle := \<not> syn_CANrxToggle S\<rparr>"

lemma CO_SYNCsend_spec:
  assumes "sync_inv S bus"
  shows "\<exists>ret bus'. CO_SYNCsend env S bus = Some (ret, sync_sent S, bus') \<and> sync_inv (sync_sent S) bus' \<and>
    (\<not> tx_bufferFull (bus_buf bus (unat (syn_CANdevTxIdx S))) \<longrightarrow>
      (let b = bus_buf bus (unat (syn_CANdevTxIdx S));
           f = (tx_ident b, tx_DLC b, (tx_data b)[0 := syn_counter (sync_sent S)])
       in can_sent (bus_can bus') = can_sent (bus_can bus) @ [(f, env_write env (can_sent (bus_can bus)) f)] \<and>
          tx_frame (bus_buf bus' (unat (syn_CANdevTxIdx S))) = f \<and>
          (tx_bufferFull (bus_buf bus' (unat (syn_CANdevTxIdx S))) \<longleftrightarrow> env_write env (can_sent (bus_can bus)) f = - EBUSY)))"
proof -
  define i where "i = unat (syn_CANdevTxIdx S)"
  define bus1 where "bus1 = bus_upd_buf bus i (\<lambda>t. t\<lparr>tx_data := (tx_data t)[0 := syn_counter (sync_sent S)]\<rparr>)"
  have inv: "bus_inv bus" "can_dev (bus_can bus) \<noteq> None" and tx: "syn_CANtxBuff S = Some i" "sync_tx_ok S bus"
    using assms by (simp_all add: sync_inv_def sync_tx_ok_def bus_dev_inv_def i_def)
  have i: "i < length (can_txArray (bus_can bus))"
    using tx(2) inv(1) by (simp add: sync_tx_ok_def bus_inv_def i_def word_less_nat_alt)
  have inv1: "bus_inv bus1" "can_dev (bus_can bus1) \<noteq> None" "can_txSize (bus_can bus1) = can_txSize (bus_can bus)"
    "can_sent (bus_can bus1) = can_sent (bus_can bus)"
    using inv by (simp_all add: bus1_def)
  have b1: "bus_buf bus1 i = (bus_buf bus i)\<lparr>tx_data := (tx_data (bus_buf bus i))[0 := syn_counter (sync_sent S)]\<rparr>"
    using i by (simp add: bus1_def bus_buf_upd)
  obtain ret bus2 where s: "CO_CANsend env bus1 (Some i) = (ret, bus2)" by fastforce
  note k = CO_CANsend_keeps [OF inv1(1), of env "Some i" bus2]
  have frame: "tx_frame (bus_buf bus2 i) = tx_frame (bus_buf bus1 i)"
    "tx_bufferFull (bus_buf bus2 i) \<longleftrightarrow> \<not> tx_bufferFull (bus_buf bus i) \<and>
       env_write env (can_sent (bus_can bus)) (tx_frame (bus_buf bus1 i)) = - EBUSY"
    using CO_CANsend_buf [of i bus1 env i] i s b1 inv1(2,4)
    by (auto simp: bus1_def CO_CANsend_def bus_ready_def Let_def bus_buf_upd tx_frame_def split: if_splits)
  have "CO_SYNCsend env S bus = Some (ret, sync_sent S, bus2)"
    using s tx(1) by (simp add: CO_SYNCsend_def Let_def sync_sent_def bus1_def)
  moreover have "sync_inv (sync_sent S) bus2"
    using assms k s inv1 frame(1) b1
    by (intro sync_inv_cong [OF assms]) (simp_all add: sync_sent_def bus_dev_inv_def tx_frame_def flip: i_def)
  moreover have "can_sent (bus_can bus2) = can_sent (bus_can bus) @
      [(tx_frame (bus_buf bus1 i), env_write env (can_sent (bus_can bus)) (tx_frame (bus_buf bus1 i)))]"
    if "\<not> tx_bufferFull (bus_buf bus i)"
    using CO_CANsend_ready [of bus1 i env] that s b1 inv1(2,4) by (simp add: bus_ready_def)
  ultimately show ?thesis using frame b1 by (auto simp: Let_def tx_frame_def simp flip: i_def)
qed

subsection \<open>One processing call\<close>

definition sync_clock :: "CO_SYNC_t \<Rightarrow> u32 \<Rightarrow> CO_SYNC_t" where
  \<comment> \<open>timer and reception flag before the producer block\<close>
  "sync_clock S dt = (if syn_CANrxNew S then S\<lparr>syn_timer := 0, syn_CANrxNew := False\<rparr> else sync_tick S dt)"

definition sync_due :: "CO_SYNC_t \<Rightarrow> bool" where
  "sync_due S \<longleftrightarrow> syn_isProducer S \<and> syn_periodTime S \<noteq> 0 \<and> syn_periodTime S \<le> syn_timer S"

definition sync_outside :: "CO_SYNC_t \<Rightarrow> u32 \<Rightarrow> bool" where
  "sync_outside S w \<longleftrightarrow> w \<noteq> 0 \<and> w < syn_timer S"

definition sync_errors :: "CO_SYNC_t \<Rightarrow> CO_EM_t \<Rightarrow> CO_EM_t" where
  "sync_errors S em =
     (let em1 = (if syn_periodTime S = 0 then em
                 else if syn_periodTimeoutTime S < syn_timer S
                 then em_errorReport em CO_EM_SYNC_TIME_OUT CO_EMC_COMMUNICATION (syn_timer S)
                 else em_errorReset em CO_EM_SYNC_TIME_OUT (ucast CO_EMC_COMMUNICATION))
      in if syn_receiveError S \<noteq> 0
         then em_errorReport em1 CO_EM_SYNC_LENGTH CO_EMC_SYNC_DATA_LENGTH (ucast (syn_receiveError S)) else em1)"

lemma sync_clock_fields [simp]:
  "syn_isProducer (sync_clock S dt) = syn_isProducer S" "syn_periodTime (sync_clock S dt) = syn_periodTime S"
  "syn_periodTimeoutTime (sync_clock S dt) = syn_periodTimeoutTime S" "syn_CANtxBuff (sync_clock S dt) = syn_CANtxBuff S"
  "syn_counterOverflowValue (sync_clock S dt) = syn_counterOverflowValue S" "syn_counter (sync_clock S dt) = syn_counter S"
  "syn_CANdevTxIdx (sync_clock S dt) = syn_CANdevTxIdx S" "syn_receiveError (sync_clock S dt) = syn_receiveError S"
  "syn_CANrxNew (sync_clock S dt) = False" "syn_insideWindow (sync_clock S dt) = syn_insideWindow S"
  by (simp_all add: sync_clock_def sync_tick_def)

lemma sync_sent_fields [simp]:
  "syn_isProducer (sync_sent S) = syn_isProducer S" "syn_periodTime (sync_sent S) = syn_periodTime S"
  "syn_periodTimeoutTime (sync_sent S) = syn_periodTimeoutTime S" "syn_CANtxBuff (sync_sent S) = syn_CANtxBuff S"
  "syn_counterOverflowValue (sync_sent S) = syn_counterOverflowValue S" "syn_timer (sync_sent S) = 0"
  "syn_CANdevTxIdx (sync_sent S) = syn_CANdevTxIdx S" "syn_receiveError (sync_sent S) = syn_receiveError S"
  "syn_CANrxNew (sync_sent S) = syn_CANrxNew S" "syn_insideWindow (sync_sent S) = syn_insideWindow S"
  by (simp_all add: sync_sent_def)

lemma sync_errors_spec:
  assumes "em_inv em"
  shows "em_inv (sync_errors S em)"
    and "em_isError (sync_errors S em) b \<longleftrightarrow>
      (if b = CO_EM_SYNC_TIME_OUT \<and> syn_periodTime S \<noteq> 0 then syn_periodTimeoutTime S < syn_timer S
       else em_isError em b \<or> b = CO_EM_SYNC_LENGTH \<and> syn_receiveError S \<noteq> 0)"
proof -
  define em1 where "em1 = (if syn_periodTime S = 0 then em
                 else if syn_periodTimeoutTime S < syn_timer S
                 then em_errorReport em CO_EM_SYNC_TIME_OUT CO_EMC_COMMUNICATION (syn_timer S)
                 else em_errorReset em CO_EM_SYNC_TIME_OUT (ucast CO_EMC_COMMUNICATION))"
  have e: "sync_errors S em = (if syn_receiveError S \<noteq> 0
         then em_errorReport em1 CO_EM_SYNC_LENGTH CO_EMC_SYNC_DATA_LENGTH (ucast (syn_receiveError S)) else em1)"
    by (simp add: sync_errors_def em1_def Let_def)
  have inv: "em_inv em1" using assms by (simp add: em1_def em_inv_errorReport em_inv_errorReset)
  then show "em_inv (sync_errors S em)" by (simp add: e em_inv_errorReport)
  have "em_isError em1 b \<longleftrightarrow>
      (if b = CO_EM_SYNC_TIME_OUT \<and> syn_periodTime S \<noteq> 0 then syn_periodTimeoutTime S < syn_timer S else em_isError em b)" for b
    using emf.active_report [OF assms sync_supported(1) [OF assms]] emf.active_reset [OF assms sync_supported(1) [OF assms]]
    by (auto simp: em1_def)
  then show "em_isError (sync_errors S em) b \<longleftrightarrow>
      (if b = CO_EM_SYNC_TIME_OUT \<and> syn_periodTime S \<noteq> 0 then syn_periodTimeoutTime S < syn_timer S
       else em_isError em b \<or> b = CO_EM_SYNC_LENGTH \<and> syn_receiveError S \<noteq> 0)"
    using emf.active_report [OF inv sync_supported(2) [OF inv]] by (auto simp: e)
qed

lemma sync_inv_bus: "sync_inv S bus \<Longrightarrow> bus_dev_inv bus"
  by (simp add: sync_inv_def)

lemma sync_inv_clock: "sync_inv S bus \<Longrightarrow> sync_inv (sync_clock S dt) bus"
  by (rule sync_inv_cong [OF _ sync_inv_bus, of S bus S]) simp_all

definition sync_after :: "CO_SYNC_t \<Rightarrow> u32 \<Rightarrow> u32 \<Rightarrow> CO_SYNC_t" where
  "sync_after S dt w =
     (let S2 = sync_clock S dt; S3 = (if sync_due S2 then sync_sent S2 else S2)
      in S3\<lparr>syn_insideWindow := \<not> sync_outside S3 w, syn_receiveError := 0\<rparr>)"

lemma CO_SYNC_process_spec:
  assumes "sync_inv S bus" "nmt_pre_or_operational st"
  obtains ret bus3 bus' tn' where
    "CO_SYNC_process env st S bus dt w tn = Some (ret, sync_after S dt w, bus', tn')"
    "if sync_due (sync_clock S dt) then \<exists>r. CO_SYNCsend env (sync_clock S dt) bus = Some (r, sync_sent (sync_clock S dt), bus3)
     else bus3 = bus"
    "bus' = bus3\<lparr>bus_em := sync_errors ((sync_after S dt w)\<lparr>syn_receiveError := syn_receiveError S\<rparr>) (bus_em bus3)\<rparr>"
    "ret = (if sync_outside (sync_after S dt w) w \<and> syn_insideWindow S then CO_SYNC_OUTSIDE_WINDOW
            else if sync_due (sync_clock S dt) \<or> syn_CANrxNew S then CO_SYNC_RECEIVED else CO_SYNC_NONE)"
    "sync_inv (sync_after S dt w) bus'"
proof -
  define S2 where "S2 = sync_clock S dt"
  define S3 where "S3 = (if sync_due S2 then sync_sent S2 else S2)"
  define ret0 where "ret0 = (if syn_CANrxNew S then CO_SYNC_RECEIVED else CO_SYNC_NONE)"
  obtain r b where send: "CO_SYNCsend env S2 bus = Some (r, sync_sent S2, b)" "sync_inv (sync_sent S2) b"
    using CO_SYNCsend_spec [OF sync_inv_clock [OF assms(1)], of env dt] by (auto simp: S2_def)
  define bus3 where "bus3 = (if sync_due S2 then b else bus)"
  have "\<exists>tn3. sync_produce env ret0 S2 bus tn = Some (if sync_due S2 then CO_SYNC_RECEIVED else ret0, S3, bus3, tn3)"
    using send(1) by (cases "syn_isProducer S2 \<and> syn_periodTime S2 \<noteq> 0"; cases "syn_periodTime S2 \<le> syn_timer S2")
      (auto simp: sync_produce_def S3_def bus3_def sync_due_def)
  then obtain tn3 where prod:
    "sync_produce env ret0 S2 bus tn = Some (if sync_due S2 then CO_SYNC_RECEIVED else ret0, S3, bus3, tn3)" by blast
  have inv3: "sync_inv S3 bus3" using send(2) sync_inv_clock [OF assms(1)] by (simp add: S3_def bus3_def S2_def)
  have rx: "(if syn_CANrxNew (sync_tick S dt) then (sync_tick S dt)\<lparr>syn_timer := 0, syn_CANrxNew := False\<rparr> else sync_tick S dt) = S2"
    "syn_CANrxNew (sync_tick S dt) = syn_CANrxNew S"
    by (auto simp: S2_def sync_clock_def sync_tick_def)
  define S4 where "S4 = S3\<lparr>syn_insideWindow := \<not> sync_outside S3 w\<rparr>"
  have after: "sync_after S dt w = S4\<lparr>syn_receiveError := 0\<rparr>"
    by (simp add: sync_after_def Let_def S4_def S3_def S2_def)
  have rE: "syn_receiveError S4 = syn_receiveError S" by (simp add: S4_def S3_def S2_def)
  define ret4 where "ret4 = (if sync_outside S3 w \<and> syn_insideWindow S then CO_SYNC_OUTSIDE_WINDOW
      else if sync_due S2 then CO_SYNC_RECEIVED else ret0)"
  have win: "sync_window (if sync_due S2 then CO_SYNC_RECEIVED else ret0) S3 w = (ret4, S4)"
    by (simp add: sync_window_def sync_outside_def S4_def ret4_def S3_def S2_def)
  obtain bus5 tn5 where ver: "sync_verify S4 bus3 tn3 = (bus5, tn5)" by fastforce
  obtain S6 bus6 where err: "sync_receive_error S4 bus5 = (S6, bus6)" by fastforce
  have "S6 = sync_after S dt w" using err by (auto simp: sync_receive_error_def after split: if_splits)
  moreover have "bus6 = bus3\<lparr>bus_em := sync_errors ((sync_after S dt w)\<lparr>syn_receiveError := syn_receiveError S\<rparr>) (bus_em bus3)\<rparr>"
    using err ver rE unfolding after
    by (auto simp: sync_receive_error_def sync_verify_def sync_errors_def Let_def split: if_splits)
  moreover have "CO_SYNC_process env st S bus dt w tn = Some (ret4, S6, bus6, tn5)"
    using assms(2) prod win ver err rx by (simp add: CO_SYNC_process_def Let_def flip: ret0_def)
  ultimately show thesis
  proof (intro that [of ret4 bus6 tn5 bus3])
    assume run: "S6 = sync_after S dt w" "bus6 = bus3\<lparr>bus_em := sync_errors ((sync_after S dt w)\<lparr>syn_receiveError := syn_receiveError S\<rparr>) (bus_em bus3)\<rparr>"
    have "bus_dev_inv bus3" using inv3 by (simp add: sync_inv_def)
    then have "bus_dev_inv bus6"
      unfolding run(2) by (intro bus_dev_inv_set_em sync_errors_spec(1) bus_dev_inv_em_inv)
    then show "sync_inv (sync_after S dt w) bus6"
      using run(2) by (intro sync_inv_cong [OF inv3]) (simp_all add: after S4_def)
    show "ret4 = (if sync_outside (sync_after S dt w) w \<and> syn_insideWindow S then CO_SYNC_OUTSIDE_WINDOW
            else if sync_due (sync_clock S dt) \<or> syn_CANrxNew S then CO_SYNC_RECEIVED else CO_SYNC_NONE)"
      by (simp add: ret4_def ret0_def after S4_def S2_def sync_outside_def)
  qed (use send(1) in \<open>simp_all add: bus3_def S2_def\<close>)
qed

lemma sync_timeout_exact:
  assumes "v \<noteq> 1"
  shows "unat (sync_timeout v) = min (unat v div 2 * 3) 0xFFFFFFFF"
proof -
  define n where "n = unat v"
  have n: "n < 4294967296" "n \<noteq> 1" using unat_u32_less [of v] assms
    by (auto simp: n_def word_unat_eq_iff simp del: unat_u32_less)
  have t: "unat ((v div 2) * 3) = (n div 2 * 3) mod 4294967296"
    by (simp add: n_def unat_word_ariths unat_div mod_mult_left_eq)
  show ?thesis
  proof (cases "n div 2 * 3 < 4294967296")
    case True
    then have "\<not> (v div 2) * 3 < v" using t n by (auto simp: word_less_nat_alt simp flip: n_def)
    then show ?thesis using True t by (simp add: sync_timeout_def Let_def flip: n_def)
  next
    case False
    then have "(n div 2 * 3) mod 4294967296 = n div 2 * 3 - 4294967296" using n(1) by (simp add: mod_if)
    then have "(v div 2) * 3 < v" using t n(1) False by (simp add: word_less_nat_alt flip: n_def)
    then show ?thesis using False by (simp add: sync_timeout_def Let_def flip: n_def)
  qed
qed

lemma CO_SYNC_process_result:
  assumes "sync_inv S bus" "nmt_pre_or_operational st" "CO_SYNC_process env st S bus dt w tn = Some (ret, S', bus', tn')"
  obtains bus3 where "S' = sync_after S dt w" "bus_dev_inv bus3" "sync_inv S' bus'"
    "if sync_due (sync_clock S dt) then \<exists>r. CO_SYNCsend env (sync_clock S dt) bus = Some (r, sync_sent (sync_clock S dt), bus3)
     else bus3 = bus"
    "bus_can bus' = bus_can bus3" "bus_em bus' = sync_errors (S'\<lparr>syn_receiveError := syn_receiveError S\<rparr>) (bus_em bus3)"
    "ret = (if sync_outside S' w \<and> syn_insideWindow S then CO_SYNC_OUTSIDE_WINDOW
            else if sync_due (sync_clock S dt) \<or> syn_CANrxNew S then CO_SYNC_RECEIVED else CO_SYNC_NONE)"
proof (rule CO_SYNC_process_spec [OF assms(1,2), of env dt w tn])
  fix ret0 bus3 bus0 tn0
  assume p: "CO_SYNC_process env st S bus dt w tn = Some (ret0, sync_after S dt w, bus0, tn0)"
    and b3: "if sync_due (sync_clock S dt) then \<exists>r. CO_SYNCsend env (sync_clock S dt) bus = Some (r, sync_sent (sync_clock S dt), bus3)
     else bus3 = bus"
    and b0: "bus0 = bus3\<lparr>bus_em := sync_errors ((sync_after S dt w)\<lparr>syn_receiveError := syn_receiveError S\<rparr>) (bus_em bus3)\<rparr>"
    and ret0: "ret0 = (if sync_outside (sync_after S dt w) w \<and> syn_insideWindow S then CO_SYNC_OUTSIDE_WINDOW
            else if sync_due (sync_clock S dt) \<or> syn_CANrxNew S then CO_SYNC_RECEIVED else CO_SYNC_NONE)"
    and inv: "sync_inv (sync_after S dt w) bus0"
  have eq: "ret = ret0" "S' = sync_after S dt w" "bus' = bus0" using p assms(3) by simp_all
  have "bus_dev_inv bus3"
  proof (cases "sync_due (sync_clock S dt)")
    case True
    then obtain r where "CO_SYNCsend env (sync_clock S dt) bus = Some (r, sync_sent (sync_clock S dt), bus3)" using b3 by auto
    then show ?thesis using CO_SYNCsend_spec [OF sync_inv_clock [OF assms(1)], of env dt] sync_inv_bus by fastforce
  next
    case False
    then show ?thesis using b3 sync_inv_bus [OF assms(1)] by simp
  qed
  then show thesis using eq b3 b0 ret0 inv by (intro that [of bus3]) simp_all
qed

lemma sync_next_counter_value:
  assumes "ov \<le> 240"
  shows "sync_next_counter ov c =
    word_of_nat (if unat c < unat ov then unat c + 1 else if unat c = 255 then 0 else 1)"
proof -
  have ov: "unat ov \<le> 240" using assms by (simp add: word_le_nat_alt)
  show ?thesis
  proof (cases "unat c = 255")
    case True
    then have "c = 255" by (simp add: word_unat_eq_iff)
    then show ?thesis using ov by (simp add: sync_next_counter_def word_less_nat_alt)
  next
    case False
    then have "unat c + 1 < 256" using unat_u8_less [of c] by linarith
    then have "unat (c + 1) = unat c + 1" by (simp add: unat_word_ariths)
    then show ?thesis using False by (auto simp: sync_next_counter_def word_less_nat_alt)
  qed
qed

lemma sync_tick_value:
  "unat (syn_timer (sync_tick S dt)) =
    (if unat (syn_timer S) + unat dt < 2 ^ 32 then unat (syn_timer S) + unat dt else unat (syn_timer S))"
proof (cases "unat (syn_timer S) + unat dt < 2 ^ 32")
  case True
  then have "unat (syn_timer S + dt) = unat (syn_timer S) + unat dt" by (simp add: unat_word_ariths)
  then show ?thesis using True by (auto simp: sync_tick_def word_less_nat_alt)
next
  case False
  have lt: "unat dt < 4294967296" "unat (syn_timer S) < 4294967296" using unat_u32_less by simp_all
  have f: "4294967296 \<le> unat (syn_timer S) + unat dt" using False by simp
  have "unat (syn_timer S + dt) = (unat (syn_timer S) + unat dt) mod 4294967296" by (simp add: unat_word_ariths)
  also have "\<dots> = (unat (syn_timer S) + unat dt - 4294967296) mod 4294967296" using False by (intro le_mod_geq) simp
  also have "\<dots> \<le> unat (syn_timer S) + unat dt - 4294967296" by (rule mod_less_eq_dividend)
  finally have "unat (syn_timer S + dt) < unat (syn_timer S)" using lt f by linarith
  then show ?thesis using False by (simp add: sync_tick_def word_less_nat_alt)
qed

text \<open>
  C29: a SYNC producer sends exactly when the time since the last SYNC reaches the period, where a time step that would
  overflow the 32-bit timer is ignored. It sends one frame, after which the timer starts again at 0; otherwise nothing is
  sent and the timer runs on. Without a configured counter the frame has no data byte. With one it has one byte: the last
  value plus one as long as that is below the overflow value, and otherwise 1. (If another producer sent the
  value 255 last, the byte is 0: the increment wraps around before it is compared.)
\<close>

theorem CO_SYNC_process_produces:
  assumes "sync_inv S bus" "nmt_pre_or_operational st" "syn_isProducer S" "syn_periodTime S \<noteq> 0" "\<not> syn_CANrxNew S"
    and "\<not> tx_bufferFull (bus_buf bus (unat (syn_CANdevTxIdx S)))"
    and "CO_SYNC_process env st S bus dt w tn = Some (ret, S', bus', tn')"
  defines "t \<equiv> (if unat (syn_timer S) + unat dt < 2 ^ 32 then unat (syn_timer S) + unat dt else unat (syn_timer S))"
    and "c \<equiv> (if unat (syn_counter S) < unat (syn_counterOverflowValue S) then unat (syn_counter S) + 1
             else if unat (syn_counter S) = 255 then 0 else 1)"
    and "b \<equiv> bus_buf bus (unat (syn_CANdevTxIdx S))"
  shows "if unat (syn_periodTime S) \<le> t
    then syn_timer S' = 0 \<and> unat (syn_counter S') = c \<and> ret = CO_SYNC_RECEIVED \<and>
      (let f = (tx_ident b, if syn_counterOverflowValue S = 0 then 0 else 1, (tx_data b)[0 := word_of_nat c])
       in can_sent (bus_can bus') = can_sent (bus_can bus) @ [(f, env_write env (can_sent (bus_can bus)) f)])
    else unat (syn_timer S') = t \<and> syn_counter S' = syn_counter S \<and> can_sent (bus_can bus') = can_sent (bus_can bus)"
proof -
  obtain bus3 where S': "S' = sync_after S dt w"
    and b3: "if sync_due (sync_clock S dt) then \<exists>r. CO_SYNCsend env (sync_clock S dt) bus = Some (r, sync_sent (sync_clock S dt), bus3)
     else bus3 = bus"
    and can: "bus_can bus' = bus_can bus3"
    and ret: "ret = (if sync_outside S' w \<and> syn_insideWindow S then CO_SYNC_OUTSIDE_WINDOW
            else if sync_due (sync_clock S dt) \<or> syn_CANrxNew S then CO_SYNC_RECEIVED else CO_SYNC_NONE)"
    by (rule CO_SYNC_process_result [OF assms(1,2,7)])
  have clock: "sync_clock S dt = sync_tick S dt" using assms(5) by (simp add: sync_clock_def)
  have t: "unat (syn_timer (sync_tick S dt)) = t" unfolding t_def by (rule sync_tick_value)
  then have due: "sync_due (sync_clock S dt) \<longleftrightarrow> unat (syn_periodTime S) \<le> t"
    using assms(3,4) by (simp add: sync_due_def word_le_nat_alt clock) (simp add: sync_tick_def)
  have dlc: "tx_DLC (bus_buf bus (unat (syn_CANdevTxIdx S))) = (if syn_counterOverflowValue S = 0 then 0 else 1)"
    using assms(1) by (simp add: sync_inv_def sync_tx_ok_def)
  have "unat (syn_counterOverflowValue S) < 256" by (rule unat_u8_less)
  then have "unat (syn_counter S) + 1 < 256" if "unat (syn_counter S) < unat (syn_counterOverflowValue S)" using that by linarith
  then have "c < 256" by (simp add: c_def)
  moreover have cnt: "syn_counter (sync_sent (sync_clock S dt)) = word_of_nat c"
    using assms(1) sync_next_counter_value [of "syn_counterOverflowValue S" "syn_counter S"]
    by (simp add: sync_sent_def c_def sync_inv_def)
  ultimately have ucnt: "unat (syn_counter (sync_sent (sync_clock S dt))) = c" by (simp add: unsigned_of_nat take_bit_eq_mod)
  show ?thesis
  proof (cases "sync_due (sync_clock S dt)")
    case True
    then have "\<not> sync_outside S' w" "syn_timer S' = 0" "syn_counter S' = syn_counter (sync_sent (sync_clock S dt))"
      by (simp_all add: S' sync_after_def Let_def sync_outside_def)
    moreover obtain r where s: "CO_SYNCsend env (sync_clock S dt) bus = Some (r, sync_sent (sync_clock S dt), bus3)"
      using b3 True by auto
    moreover note sent = CO_SYNCsend_spec [OF sync_inv_clock [OF assms(1)], of env dt]
    have "let f = (tx_ident (bus_buf bus (unat (syn_CANdevTxIdx S))), tx_DLC (bus_buf bus (unat (syn_CANdevTxIdx S))),
         (tx_data (bus_buf bus (unat (syn_CANdevTxIdx S))))[0 := syn_counter (sync_sent (sync_clock S dt))])
       in can_sent (bus_can bus3) = can_sent (bus_can bus) @ [(f, env_write env (can_sent (bus_can bus)) f)]"
      using sent s assms(6) by (auto simp: Let_def)
    ultimately show ?thesis using True due cnt ucnt dlc can ret by (simp add: Let_def b_def)
  next
    case False
    then have "syn_timer S' = syn_timer (sync_tick S dt)" "syn_counter S' = syn_counter S"
      by (simp_all add: S' sync_after_def Let_def flip: clock)
    then show ?thesis using False b3 due can t by (simp add: Let_def)
  qed
qed

definition example_sync :: CO_SYNC_t where
  "example_sync = \<lparr>syn_isProducer = True, syn_COB_ID = 0x80, syn_periodTime = 1000, syn_periodTimeoutTime = 1500,
     syn_counterOverflowValue = 4, syn_insideWindow = True, syn_CANrxNew = False, syn_CANrxToggle = False, syn_counter = 4,
     syn_timer = 600, syn_receiveError = 0, syn_pFunctSignalPre = False, syn_CANdevRxIdx = 0, syn_CANtxBuff = Some 1,
     syn_CANdevTxIdx = 1, syn_signals = 0\<rparr>"

lemma example_sync_buffer:
  "bus_buf example_bus (Suc 0) = example_tx 0x700 1 [0,0,0,0,0,0,0,0]" "\<not> tx_bufferFull (bus_buf example_bus (Suc 0))"
  by (simp_all add: bus_buf_def example_bus_def example_tx_def)

lemma example_sync_inv: "sync_inv example_sync example_bus" "sync_inv (example_sync\<lparr>syn_isProducer := False\<rparr>) example_bus"
  using example_bus_inv example_sync_buffer
  by (simp_all add: sync_inv_def sync_tx_ok_def example_sync_def sync_timeout_def example_bus_def example_tx_def)

theorem CO_SYNC_process_produces_witness:
  "\<exists>ret S' bus' tn'. CO_SYNC_process (example_env 0) CO_NMT_OPERATIONAL example_sync example_bus 500 0 None = Some (ret, S', bus', tn') \<and>
     can_sent (bus_can bus') = [((0x700, 1, [1,0,0,0,0,0,0,0]), 0)] \<and> syn_counter S' = 1"
proof -
  have st: "nmt_pre_or_operational CO_NMT_OPERATIONAL" by (simp add: nmt_pre_or_operational_def)
  obtain ret S' bus' tn' where p: "CO_SYNC_process (example_env 0) CO_NMT_OPERATIONAL example_sync example_bus 500 0 None = Some (ret, S', bus', tn')"
    using CO_SYNC_process_spec [OF example_sync_inv(1) st] by metis
  have "can_sent (bus_can example_bus) = []" by (simp add: example_bus_def)
  then show ?thesis
    using CO_SYNC_process_produces [OF example_sync_inv(1) st _ _ _ _ p] p example_sync_buffer
    by (auto simp: example_sync_def Let_def example_tx_def word_unat_eq_iff)
qed

lemma CO_SYNC_process_errors_timeout:
  assumes "sync_inv S bus" "nmt_pre_or_operational st" "syn_periodTime S \<noteq> 0"
    and "CO_SYNC_process env st S bus dt w tn = Some (ret, S', bus', tn')"
  shows "em_isError (bus_em bus') CO_EM_SYNC_TIME_OUT \<longleftrightarrow> sync_timeout (syn_periodTime S) < syn_timer S'"
    and "syn_receiveError S \<noteq> 0 \<longrightarrow> em_isError (bus_em bus') CO_EM_SYNC_LENGTH"
proof -
  obtain bus3 where S': "S' = sync_after S dt w" and b3: "bus_dev_inv bus3"
    and em: "bus_em bus' = sync_errors (S'\<lparr>syn_receiveError := syn_receiveError S\<rparr>) (bus_em bus3)"
    by (rule CO_SYNC_process_result [OF assms(1,2,4)])
  note e = sync_errors_spec(2) [OF bus_dev_inv_em_inv [OF b3], of "S'\<lparr>syn_receiveError := syn_receiveError S\<rparr>", folded em]
  have "syn_periodTime S' = syn_periodTime S" "syn_periodTimeoutTime S' = sync_timeout (syn_periodTime S)"
    using assms(1) by (simp_all add: S' sync_after_def Let_def sync_inv_def)
  then show "em_isError (bus_em bus') CO_EM_SYNC_TIME_OUT \<longleftrightarrow> sync_timeout (syn_periodTime S) < syn_timer S'"
    "syn_receiveError S \<noteq> 0 \<longrightarrow> em_isError (bus_em bus') CO_EM_SYNC_LENGTH"
    using assms(3) e [of CO_EM_SYNC_TIME_OUT] e [of CO_EM_SYNC_LENGTH] by simp_all
qed

text \<open>
  After a processing call in the pre-operational or operational state with a configured period, the
  SYNC timeout error is active exactly when the timer is beyond one and a half periods; a SYNC of wrong
  length that was noted on reception is reported once, and synchronous PDOs are allowed exactly while the
  timer is within the window.
\<close>

theorem CO_SYNC_process_errors:
  assumes "sync_inv S bus" "nmt_pre_or_operational st" "syn_periodTime S \<noteq> 0"
    and "CO_SYNC_process env st S bus dt w tn = Some (ret, S', bus', tn')"
  shows "sync_inv S' bus' \<and>
    (em_isError (bus_em bus') CO_EM_SYNC_TIME_OUT \<longleftrightarrow> sync_timeout (syn_periodTime S) < syn_timer S') \<and>
    (syn_receiveError S \<noteq> 0 \<longrightarrow> em_isError (bus_em bus') CO_EM_SYNC_LENGTH) \<and> syn_receiveError S' = 0 \<and>
    (syn_insideWindow S' \<longleftrightarrow> w = 0 \<or> syn_timer S' \<le> w) \<and>
    (ret = CO_SYNC_OUTSIDE_WINDOW \<longleftrightarrow> syn_insideWindow S \<and> \<not> syn_insideWindow S')"
proof -
  have S': "S' = sync_after S dt w" and inv: "sync_inv S' bus'"
    and ret: "ret = (if sync_outside S' w \<and> syn_insideWindow S then CO_SYNC_OUTSIDE_WINDOW
            else if sync_due (sync_clock S dt) \<or> syn_CANrxNew S then CO_SYNC_RECEIVED else CO_SYNC_NONE)"
    by (rule CO_SYNC_process_result [OF assms(1,2,4)]; assumption)+
  have "syn_insideWindow S' \<longleftrightarrow> \<not> sync_outside S' w" "syn_receiveError S' = 0"
    by (simp_all add: S' sync_after_def Let_def sync_outside_def)
  then show ?thesis using inv ret CO_SYNC_process_errors_timeout [OF assms] by (auto simp: sync_outside_def)
qed

theorem CO_SYNC_process_errors_witness:
  "\<exists>ret S' bus' tn'. CO_SYNC_process (example_env 0) CO_NMT_OPERATIONAL (example_sync\<lparr>syn_isProducer := False\<rparr>) example_bus 1000 0 None
     = Some (ret, S', bus', tn') \<and> sync_inv S' bus' \<and> syn_receiveError S' = 0"
proof -
  have st: "nmt_pre_or_operational CO_NMT_OPERATIONAL" by (simp add: nmt_pre_or_operational_def)
  obtain ret S' bus' tn' where p: "CO_SYNC_process (example_env 0) CO_NMT_OPERATIONAL (example_sync\<lparr>syn_isProducer := False\<rparr>) example_bus 1000 0 None
      = Some (ret, S', bus', tn')"
    using CO_SYNC_process_spec [OF example_sync_inv(2) st] by metis
  then show ?thesis using CO_SYNC_process_errors [OF example_sync_inv(2) st _ p] by (simp add: example_sync_def)
qed

subsection \<open>Runs\<close>

text \<open>Processing calls of a consumer that receives nothing in between.\<close>

fun sync_run ::
    "can_env \<Rightarrow> CO_NMT_internalState_t \<Rightarrow> u32 \<Rightarrow> u32 list \<Rightarrow> CO_SYNC_t \<Rightarrow> co_bus \<Rightarrow> (CO_SYNC_t \<times> co_bus) option" where
  "sync_run env st w [] S bus = Some (S, bus)"
| "sync_run env st w (dt # dts) S bus =
     (case CO_SYNC_process env st S bus dt w None of None \<Rightarrow> None | Some (ret, S1, bus1, tn) \<Rightarrow> sync_run env st w dts S1 bus1)"

lemma sync_silent_step:
  assumes "sync_inv S bus" "nmt_pre_or_operational st" "\<not> syn_isProducer S" "\<not> syn_CANrxNew S"
    and "unat (syn_timer S) + unat dt < 2 ^ 32" "CO_SYNC_process env st S bus dt w tn = Some (ret, S', bus', tn')"
  shows "sync_inv S' bus' \<and> \<not> syn_isProducer S' \<and> \<not> syn_CANrxNew S' \<and> syn_periodTime S' = syn_periodTime S \<and>
    unat (syn_timer S') = unat (syn_timer S) + unat dt"
proof -
  have S': "S' = sync_after S dt w" "sync_inv S' bus'"
    by (rule CO_SYNC_process_result [OF assms(1,2,6)]; assumption)+
  have "unat (syn_timer S + dt) = unat (syn_timer S) + unat dt" using assms(5) by (simp add: unat_word_ariths)
  then have "unat (syn_timer (sync_tick S dt)) = unat (syn_timer S) + unat dt"
    by (auto simp: sync_tick_def word_less_nat_alt)
  then show ?thesis using S' assms(3,4) by (simp add: sync_after_def Let_def sync_due_def sync_clock_def)
      (simp add: sync_tick_def)
qed

definition sync_limit :: "nat \<Rightarrow> nat" where
  \<comment> \<open>what the code takes for one and a half periods\<close>
  "sync_limit period = (if period = 1 then 2 ^ 32 - 1 else min (period div 2 * 3) (2 ^ 32 - 1))"

lemma sync_timeout_limit: "unat (sync_timeout v) = sync_limit (unat v)"
proof (cases "v = 1")
  case True
  then show ?thesis by (simp add: sync_timeout_def sync_limit_def)
next
  case False
  then have "unat v \<noteq> 1" by (simp add: word_unat_eq_iff)
  then show ?thesis using sync_timeout_exact [OF False] by (simp add: sync_limit_def)
qed

text \<open>
  C28: a SYNC consumer that receives nothing has the timeout error active exactly when the time steps since
  the last SYNC add up to more than half the period, rounded down, times three, so a missing SYNC is neither missed nor
  reported early. Where this does not fit 32 bits, the limit is the largest value of the timer; for a period of one
  microsecond it is that value too.
\<close>

theorem sync_timeout_detected:
  assumes "sync_inv S bus" "nmt_pre_or_operational st" "\<not> syn_isProducer S" "\<not> syn_CANrxNew S" "syn_periodTime S \<noteq> 0"
    and "dts \<noteq> []" "unat (syn_timer S) + sum_list (map unat dts) < 2 ^ 32" "sync_run env st w dts S bus = Some (S', bus')"
  shows "em_isError (bus_em bus') CO_EM_SYNC_TIME_OUT \<longleftrightarrow>
    (if unat (syn_periodTime S) = 1 then 2 ^ 32 - 1 else min (unat (syn_periodTime S) div 2 * 3) (2 ^ 32 - 1))
      < unat (syn_timer S) + sum_list (map unat dts)"
  unfolding sync_limit_def [symmetric] sync_timeout_limit [symmetric]
  using assms(1,3-8)
proof (induction dts arbitrary: S bus)
  case Nil
  then show ?case by simp
next
  case (Cons dt dts)
  obtain ret S1 bus1 tn where p: "CO_SYNC_process env st S bus dt w None = Some (ret, S1, bus1, tn)"
    and rest: "sync_run env st w dts S1 bus1 = Some (S', bus')"
    using Cons.prems(7) by (auto split: option.splits)
  have "unat (syn_timer S) + unat dt < 2 ^ 32" using Cons.prems(6) by simp
  note s = sync_silent_step [OF Cons.prems(1) assms(2) Cons.prems(2,3) this p]
  show ?case
  proof (cases "dts = []")
    case True
    then show ?thesis
      using rest s CO_SYNC_process_errors_timeout [OF Cons.prems(1) assms(2) Cons.prems(4) p] by (simp add: word_less_nat_alt)
  next
    case False
    then show ?thesis using Cons.IH [OF _ _ _ _ False _ rest] s Cons.prems by (simp add: add.assoc)
  qed
qed

theorem sync_timeout_detected_witness:
  "\<exists>S' bus'. sync_run (example_env 0) CO_NMT_OPERATIONAL 0 [500, 500] (example_sync\<lparr>syn_isProducer := False\<rparr>) example_bus = Some (S', bus') \<and>
     em_isError (bus_em bus') CO_EM_SYNC_TIME_OUT"
proof -
  let ?S = "example_sync\<lparr>syn_isProducer := False\<rparr>"
  have st: "nmt_pre_or_operational CO_NMT_OPERATIONAL" by (simp add: nmt_pre_or_operational_def)
  obtain ret S1 bus1 tn where p: "CO_SYNC_process (example_env 0) CO_NMT_OPERATIONAL ?S example_bus 500 0 None = Some (ret, S1, bus1, tn)"
    "sync_inv S1 bus1"
    using CO_SYNC_process_spec [OF example_sync_inv(2) st] by metis
  obtain ret2 S2 bus2 tn2 where "CO_SYNC_process (example_env 0) CO_NMT_OPERATIONAL S1 bus1 500 0 None = Some (ret2, S2, bus2, tn2)"
    using CO_SYNC_process_spec [OF p(2) st] by metis
  with p(1) have r: "sync_run (example_env 0) CO_NMT_OPERATIONAL 0 [500, 500] ?S example_bus = Some (S2, bus2)" by simp
  then show ?thesis
    using sync_timeout_detected [OF example_sync_inv(2) st _ _ _ _ _ r]
    by (simp add: example_sync_def)
qed

text \<open>Consecutive SYNC messages.\<close>

fun sync_sends :: "can_env \<Rightarrow> nat \<Rightarrow> CO_SYNC_t \<Rightarrow> co_bus \<Rightarrow> (CO_SYNC_t \<times> co_bus) option" where
  "sync_sends env 0 S bus = Some (S, bus)"
| "sync_sends env (Suc k) S bus =
     (case CO_SYNCsend env S bus of None \<Rightarrow> None | Some (r, S1, bus1) \<Rightarrow> sync_sends env k S1 bus1)"

definition frame_byte :: "can_frame \<times> int \<Rightarrow> u8 \<times> u8" where
  \<comment> \<open>length and first data byte of a logged frame\<close>
  "frame_byte = (\<lambda>((ident, dlc, data), r). (dlc, data ! 0))"

lemma sync_next_counter_mod:
  assumes "c \<le> ov" "2 \<le> unat ov" "ov \<le> 240"
  shows "unat (sync_next_counter ov c) = unat c mod unat ov + 1" "sync_next_counter ov c \<le> ov"
proof -
  have c: "unat c \<le> unat ov" "unat ov \<le> 240" using assms by (simp_all add: word_le_nat_alt)
  then have "unat (c + 1) = unat c + 1" by (simp add: unat_word_ariths)
  then have "ov < c + 1 \<longleftrightarrow> c = ov" using c by (auto simp: word_less_nat_alt word_unat_eq_iff)
  moreover have "unat c < unat ov" if "c \<noteq> ov" using that c(1) by (simp add: word_unat_eq_iff)
  ultimately show "unat (sync_next_counter ov c) = unat c mod unat ov + 1" "sync_next_counter ov c \<le> ov"
    using \<open>unat (c + 1) = unat c + 1\<close> assms(2) by (cases "c = ov"; simp add: sync_next_counter_def word_le_nat_alt)+
qed

text \<open>
  With a counter configured, consecutive SYNC messages carry the values 1, 2, up to the overflow value and
  then 1 again, one byte each, whatever value was sent before.
\<close>

theorem sync_counter_cycles:
  assumes "sync_inv S bus" "syn_counterOverflowValue S \<noteq> 0" "syn_counter S \<le> syn_counterOverflowValue S"
    and "\<not> tx_bufferFull (bus_buf bus (unat (syn_CANdevTxIdx S)))" "tx_data (bus_buf bus (unat (syn_CANdevTxIdx S))) \<noteq> []"
    and "\<forall>l f. env_write env l f \<noteq> - EBUSY"
  shows "\<exists>S' bus'. sync_sends env k S bus = Some (S', bus') \<and>
    map frame_byte (can_sent (bus_can bus')) = map frame_byte (can_sent (bus_can bus)) @
      map (\<lambda>j. (1, word_of_nat ((unat (syn_counter S) + j) mod unat (syn_counterOverflowValue S) + 1))) [0..<k]"
  using assms(1-5)
proof (induction k arbitrary: S bus)
  case 0
  then show ?case by simp
next
  case (Suc k)
  let ?b = "bus_buf bus (unat (syn_CANdevTxIdx S))" and ?ov = "syn_counterOverflowValue S"
  have ov: "2 \<le> unat ?ov" "?ov \<le> 240"
    using Suc.prems(1,2) by (auto simp: sync_inv_def word_unat_eq_iff)
  obtain r bus1 where s: "CO_SYNCsend env S bus = Some (r, sync_sent S, bus1)" "sync_inv (sync_sent S) bus1"
    and f: "let f = (tx_ident ?b, tx_DLC ?b, (tx_data ?b)[0 := syn_counter (sync_sent S)])
       in can_sent (bus_can bus1) = can_sent (bus_can bus) @ [(f, env_write env (can_sent (bus_can bus)) f)] \<and>
          tx_frame (bus_buf bus1 (unat (syn_CANdevTxIdx S))) = f \<and>
          (tx_bufferFull (bus_buf bus1 (unat (syn_CANdevTxIdx S))) \<longleftrightarrow> env_write env (can_sent (bus_can bus)) f = - EBUSY)"
    using CO_SYNCsend_spec [OF Suc.prems(1), of env] Suc.prems(4) by (auto simp: Let_def)
  have cnt: "syn_counter (sync_sent S) = sync_next_counter ?ov (syn_counter S)" by (simp add: sync_sent_def)
  note nc = sync_next_counter_mod [OF Suc.prems(3) ov]
  obtain S' bus' where r: "sync_sends env k (sync_sent S) bus1 = Some (S', bus')"
    "map frame_byte (can_sent (bus_can bus')) = map frame_byte (can_sent (bus_can bus1)) @
      map (\<lambda>j. (1, word_of_nat ((unat (syn_counter (sync_sent S)) + j) mod unat ?ov + 1))) [0..<k]"
    using Suc.IH [OF s(2)] Suc.prems(2,5) f nc(2) assms(6) by (auto simp: Let_def cnt tx_frame_def)
  have "tx_DLC ?b = 1" using Suc.prems(1,2) by (simp add: sync_inv_def sync_tx_ok_def)
  then have "map frame_byte (can_sent (bus_can bus1)) = map frame_byte (can_sent (bus_can bus)) @
      [(1, sync_next_counter ?ov (syn_counter S))]"
    using f Suc.prems(5) by (simp add: Let_def frame_byte_def cnt)
  moreover have "sync_next_counter ?ov (syn_counter S) = word_of_nat (unat (syn_counter S) mod unat ?ov + 1)"
    unfolding nc(1) [symmetric] by simp
  moreover have "(unat (sync_next_counter ?ov (syn_counter S)) + j) mod unat ?ov = (unat (syn_counter S) + Suc j) mod unat ?ov" for j
    unfolding nc(1) by (metis add.commute add_Suc_right mod_add_right_eq Suc_eq_plus1)
  ultimately show ?case
    using s(1) r by (simp add: cnt upt_conv_Cons map_Suc_upt [symmetric] del: upt_Suc)
qed

theorem sync_counter_cycles_witness:
  "\<exists>S' bus'. sync_sends (example_env 0) 6 example_sync example_bus = Some (S', bus') \<and>
     map (snd \<circ> frame_byte) (can_sent (bus_can bus')) = [1, 2, 3, 4, 1, 2]"
proof -
  have "can_sent (bus_can example_bus) = []" "[0..<6] = [0, 1, 2, 3, 4, 5 :: nat]" by (simp_all add: example_bus_def upt_rec)
  moreover have "\<exists>S' bus'. sync_sends (example_env 0) 6 example_sync example_bus = Some (S', bus') \<and>
    map frame_byte (can_sent (bus_can bus')) = map frame_byte (can_sent (bus_can example_bus)) @
      map (\<lambda>j. (1, word_of_nat ((unat (syn_counter example_sync) + j) mod unat (syn_counterOverflowValue example_sync) + 1))) [0..<6]"
    using example_sync_buffer
    by (intro sync_counter_cycles example_sync_inv(1)) (simp_all add: example_sync_def EBUSY_def example_tx_def)
  ultimately show ?thesis by (auto simp: example_sync_def simp flip: map_map)
qed

lemma sync_receive_error_inv:
  assumes "sync_inv S bus" "sync_receive_error S bus = (S', bus')"
  shows "sync_inv S' bus'"
proof -
  have "em_inv (bus_em bus)" using sync_inv_bus [OF assms(1)] by (rule bus_dev_inv_em_inv)
  then have "bus_dev_inv bus'"
    using sync_inv_bus [OF assms(1)] assms(2)
    by (auto simp: sync_receive_error_def bus_dev_inv_set_em em_inv_errorReport split: if_splits)
  then show ?thesis
    using assms(2) by (intro sync_inv_cong [OF assms(1)]) (auto simp: sync_receive_error_def split: if_splits)
qed

lemma CO_SYNC_process_inv:
  assumes "sync_inv S bus" "CO_SYNC_process env st S bus dt w tn = Some (ret, S', bus', tn')"
  shows "sync_inv S' bus'"
proof (cases "nmt_pre_or_operational st")
  case True
  show ?thesis by (rule CO_SYNC_process_result [OF assms(1) True assms(2)])
next
  case False
  have "sync_inv (S\<lparr>syn_CANrxNew := False\<rparr>) bus" by (rule sync_inv_cong [OF assms(1) sync_inv_bus [OF assms(1)]]) simp_all
  then show ?thesis using False assms(2) sync_receive_error_inv
    by (auto simp: CO_SYNC_process_def Let_def split: prod.splits)
qed

lemma sync_tx_init:
  assumes "sync_inv S bus" "CO_CANtxBufferInit env bus (syn_CANdevTxIdx S) ident False len False = (tx, bus')"
    and "len = (if ov = 0 then 0 else 1)" "ov \<noteq> 1" "ov \<le> 240"
    and "S' = T\<lparr>syn_counterOverflowValue := ov, syn_CANtxBuff := tx\<rparr>" "syn_CANdevTxIdx T = syn_CANdevTxIdx S"
    and "syn_periodTimeoutTime T = sync_timeout (syn_periodTime T)"
  shows "sync_inv S' bus' \<and> tx \<noteq> None"
proof -
  have "bus_inv bus" "can_dev (bus_can bus) \<noteq> None" "syn_CANdevTxIdx S < can_txSize (bus_can bus)"
    using assms(1) by (simp_all add: sync_inv_def sync_tx_ok_def bus_dev_inv_def)
  then show ?thesis
    using CO_CANtxBufferInit_ok [of bus "syn_CANdevTxIdx S" env ident False len False] assms(2-8)
    by (auto simp: sync_inv_def sync_tx_ok_def bus_dev_inv_def)
qed

lemma CO_ODF_1019_inv:
  assumes "sync_inv S bus" "CO_ODF_1019 env S bus arg = (code, S', bus')"
  shows "sync_inv S' bus'"
proof (cases "arg_reading arg \<or> syn_periodTime S \<noteq> 0 \<or> arg_data arg ! 0 = 1 \<or> 240 < arg_data arg ! 0")
  case True
  then show ?thesis using assms by (auto simp: CO_ODF_1019_def Let_def split: if_splits)
next
  case False
  obtain tx b where tx: "CO_CANtxBufferInit env bus (syn_CANdevTxIdx S) (syn_COB_ID S) False (if arg_data arg ! 0 \<noteq> 0 then 1 else 0) False = (tx, b)"
    by fastforce
  then have "S' = S\<lparr>syn_counterOverflowValue := arg_data arg ! 0, syn_CANtxBuff := tx\<rparr>" "bus' = b"
    using False assms(2) by (simp_all add: CO_ODF_1019_def Let_def)
  then show ?thesis using sync_tx_init [OF assms(1) tx, of "arg_data arg ! 0" S' S] False assms(1)
    by (simp add: sync_inv_def not_less)
qed

lemma CO_ODF_1006_inv:
  assumes "sync_inv S bus" "CO_ODF_1006 S arg = (code, S')"
  shows "sync_inv S' bus"
  using assms by (auto simp: CO_ODF_1006_def Let_def sync_inv_def sync_tx_ok_def split: if_splits)

lemma sync_configure_rx_inv:
  assumes "sync_inv S bus" "sync_configure_rx env T bus = (r, bus')"
  shows "sync_inv S bus'"
proof -
  have "bus_inv bus" using sync_inv_bus [OF assms(1)] by (simp add: bus_dev_inv_def)
  from CO_CANrxBufferInit_keeps [OF this assms(2) [unfolded sync_configure_rx_def]] show ?thesis
    using assms(1) by (simp add: sync_inv_def sync_tx_ok_def bus_dev_inv_def bus_buf_def)
qed

lemma sync_configure_producer_inv:
  assumes "sync_inv S bus" "sync_configure_producer env S bus = (code, S', bus')"
  shows "sync_inv S' bus'"
proof -
  define T where "T = (if syn_counterOverflowValue S \<noteq> 0 then S\<lparr>syn_counter := 0, syn_timer := 0\<rparr> else S)"
  have T: "syn_CANdevTxIdx T = syn_CANdevTxIdx S" "syn_COB_ID T = syn_COB_ID S" "syn_periodTimeoutTime T = sync_timeout (syn_periodTime T)"
    "syn_counterOverflowValue T = syn_counterOverflowValue S" "syn_counterOverflowValue S \<noteq> 1" "syn_counterOverflowValue S \<le> 240"
    using assms(1) by (simp_all add: T_def sync_inv_def)
  obtain tx b where tx: "CO_CANtxBufferInit env bus (syn_CANdevTxIdx S) (syn_COB_ID S) False
      (if syn_counterOverflowValue S = 0 then 0 else 1) False = (tx, b)"
    by fastforce
  have "S' = T\<lparr>syn_CANtxBuff := tx, syn_isProducer := tx \<noteq> None\<rparr>" "bus' = b"
    using assms(2) tx T by (auto simp: sync_configure_producer_def Let_def simp flip: T_def split: if_splits)
  moreover have "sync_inv (T\<lparr>syn_counterOverflowValue := syn_counterOverflowValue S, syn_CANtxBuff := tx\<rparr>) b"
    using sync_tx_init [OF assms(1) tx refl T(5,6) refl T(1,3)] by blast
  ultimately show ?thesis using T(4) by (simp add: sync_inv_def sync_tx_ok_def)
qed

lemma CO_ODF_1005_inv:
  assumes "sync_inv S bus" "CO_ODF_1005 env S bus arg = (code, S', bus')"
  shows "sync_inv S' bus'"
proof -
  define val where "val = CO_getUint32 (arg_data arg)"
  define S1 where "S1 = S\<lparr>syn_COB_ID := ucast (val AND 0x7FF)\<rparr>"
  have S1: "sync_inv S1 bus" "sync_inv (S1\<lparr>syn_isProducer := False\<rparr>) bus"
    using assms(1) by (simp_all add: S1_def sync_inv_def sync_tx_ok_def)
  obtain r S2 b2 where c: "(if val AND 0x40000000 \<noteq> 0 then sync_configure_producer env S1 bus
      else (CO_SDO_AB_NONE, S1\<lparr>syn_isProducer := False\<rparr>, bus)) = (r, S2, b2)"
    by (metis prod_cases3)
  have inv2: "sync_inv S2 b2" using c S1 sync_configure_producer_inv [OF S1(1)] by (auto split: if_splits)
  obtain CANret b3 where rx: "sync_configure_rx env S2 b2 = (CANret, b3)" by fastforce
  have inv3: "sync_inv S2 b3" using sync_configure_rx_inv [OF inv2 rx] .
  have "(S', bus') \<in> {(S, bus), (S2, b2), (S2, b3)}"
    using assms(2) c rx unfolding CO_ODF_1005_def val_def [symmetric] S1_def [symmetric] Let_def
    by (auto split: if_splits)
  then show ?thesis using assms(1) inv2 inv3 by auto
qed

inductive sync_step :: "can_env \<Rightarrow> CO_SYNC_t \<times> co_bus \<Rightarrow> CO_SYNC_t \<times> co_bus \<Rightarrow> bool" for env where
  receive: "sync_step env (S, bus) (CO_SYNC_receive st S msg, bus)"
| process: "CO_SYNC_process env st S bus dt w tn = Some (ret, S', bus', tn') \<Longrightarrow> sync_step env (S, bus) (S', bus')"
| send: "CO_SYNCsend env S bus = Some (ret, S', bus') \<Longrightarrow> sync_step env (S, bus) (S', bus')"
| odf_1005: "CO_ODF_1005 env S bus arg = (code, S', bus') \<Longrightarrow> sync_step env (S, bus) (S', bus')"
| odf_1006: "CO_ODF_1006 S arg = (code, S') \<Longrightarrow> sync_step env (S, bus) (S', bus)"
| odf_1019: "CO_ODF_1019 env S bus arg = (code, S', bus') \<Longrightarrow> sync_step env (S, bus) (S', bus')"

lemma sync_step_inv:
  assumes "sync_step env s s'" "sync_inv (fst s) (snd s)"
  shows "sync_inv (fst s') (snd s')"
  using assms
proof (cases rule: sync_step.cases)
  case (send S bus ret S' bus')
  then show ?thesis using assms(2) CO_SYNCsend_spec [of S bus env] by auto
qed (auto dest: CO_SYNC_receive_inv CO_SYNC_process_inv CO_ODF_1005_inv CO_ODF_1006_inv CO_ODF_1019_inv)

text \<open>
  C30: in every run of received messages, processing calls, sent SYNC messages and writes to objects 0x1005,
  0x1006 and 0x1019 the SYNC component stays consistent: the transmit buffer exists and carries a data byte
  exactly when a counter is configured, the overflow value is 0 or between 2 and 240, and the timeout
  belongs to the period.
\<close>

theorem sync_runs_consistent:
  assumes "(sync_step env)\<^sup>*\<^sup>* (S, bus) (S', bus')" "sync_inv S bus"
  shows "sync_inv S' bus'"
proof -
  have "(sync_step env)\<^sup>*\<^sup>* s s' \<Longrightarrow> sync_inv (fst s) (snd s) \<Longrightarrow> sync_inv (fst s') (snd s')" for s s'
    by (induction rule: rtranclp_induct) (auto intro: sync_step_inv)
  then show ?thesis using assms by fastforce
qed

theorem sync_runs_consistent_witness:
  "sync_inv (snd (CO_ODF_1006 example_sync (example_arg [0, 0, 0, 0]))) example_bus"
proof -
  let ?a = "example_arg [0, 0, 0, 0]"
  obtain code S' where "CO_ODF_1006 example_sync ?a = (code, S')" by fastforce
  then show ?thesis
    using sync_runs_consistent [OF r_into_rtranclp [of "sync_step (example_env 0)", OF sync_step.odf_1006] example_sync_inv(1)] by auto
qed

subsection \<open>Initialisation\<close>

text \<open>
  \<^verbatim>\<open>CO_SYNC_init\<close> establishes the invariant when the transmit buffer exists and the overflow value is one the
  access function would accept; it does not check that value itself.
\<close>

lemma CO_SYNC_init_inv:
  assumes "bus_dev_inv bus" "od_inv SDO" "txIdx < can_txSize (bus_can bus)" "ov \<noteq> 1" "ov \<le> 240"
  shows "\<exists>ret S bus' SDO'. CO_SYNC_init env bus SDO cob period ov rxIdx txIdx = Some (ret, S, bus', SDO') \<and> sync_inv S bus' \<and>
    od_inv SDO' \<and> syn_timer S = 0 \<and> syn_counter S = 0 \<and> (syn_isProducer S \<longleftrightarrow> bit cob 30)"
proof -
  obtain S1 S2 S3 where od: "CO_OD_configure SDO 0x1005 (Some ODF_1005) (Some obj_sync) None 0 = Some S1"
    "CO_OD_configure S1 0x1006 (Some ODF_1006) (Some obj_sync) None 0 = Some S2"
    "CO_OD_configure S2 0x1019 (Some ODF_1019) (Some obj_sync) None 0 = Some S3" "od_inv S3"
    using od_configure_func assms(2) by metis
  define S0 where "S0 = \<lparr>syn_isProducer = cob AND 0x40000000 \<noteq> 0, syn_COB_ID = ucast (cob AND 0x7FF),
               syn_periodTime = period, syn_periodTimeoutTime = sync_timeout period,
               syn_counterOverflowValue = ov, syn_insideWindow = True, syn_CANrxNew = False,
               syn_CANrxToggle = False, syn_counter = 0, syn_timer = 0, syn_receiveError = 0, syn_pFunctSignalPre = False,
               syn_CANdevRxIdx = rxIdx, syn_CANtxBuff = None, syn_CANdevTxIdx = txIdx, syn_signals = 0\<rparr>"
  obtain ret b1 where rx: "sync_configure_rx env S0 bus = (ret, b1)" by fastforce
  have b1: "bus_inv b1" "can_dev (bus_can b1) \<noteq> None" "txIdx < can_txSize (bus_can b1)"
    using CO_CANrxBufferInit_keeps [OF _ rx [unfolded sync_configure_rx_def]] assms(1,3) by (simp_all add: bus_dev_inv_def)
  obtain b2 where b2: "CO_CANtxBufferInit env b1 txIdx (syn_COB_ID S0) False (if ov \<noteq> 0 then 1 else 0) False = (Some (unat txIdx), b2)"
    "bus_inv b2" "can_dev (bus_can b2) \<noteq> None" "txIdx < can_txSize (bus_can b2)"
    "tx_DLC (bus_buf b2 (unat txIdx)) = (if ov \<noteq> 0 then 1 else 0)"
    using CO_CANtxBufferInit_ok [OF b1(1,3), of env "syn_COB_ID S0" False "if ov \<noteq> 0 then 1 else 0" False] b1(2,3) by auto
  have run: "CO_SYNC_init env bus SDO cob period ov rxIdx txIdx = Some (ret, S0\<lparr>syn_CANtxBuff := Some (unat txIdx)\<rparr>, b2, S3)"
    using od rx b2(1) by (simp add: CO_SYNC_init_def Let_def flip: S0_def)
  have "(0x40000000 :: u32) = 2 ^ 30" by simp
  then have prod: "cob AND 0x40000000 \<noteq> 0 \<longleftrightarrow> bit cob 30" by (metis and_exp_eq_0_iff_not_bit)
  have "sync_inv (S0\<lparr>syn_CANtxBuff := Some (unat txIdx)\<rparr>) b2" using b2 assms(4,5)
    by (simp add: sync_inv_def sync_tx_ok_def bus_dev_inv_def S0_def)
  then show ?thesis using od(4) run prod by (auto simp: S0_def)
qed

end
