(* ===== verification/Time_Stamp.thy ===== *)
theory Time_Stamp
  imports Sync
begin

section \<open>TIME producer and consumer (\<^verbatim>\<open>301/CO_TIME.c\<close>)\<close>

text \<open>
  Reception and cyclic production of the TIME message. \<^verbatim>\<open>TIME->Time.ullValue\<close> is kept as its eight bytes.
  \<^verbatim>\<open>*TIME->operatingState\<close> is an argument, \<^verbatim>\<open>TIME->em\<close> is \<^verbatim>\<open>bus_em\<close>, and \<^verbatim>\<open>tim_signals\<close> counts the calls of
  \<^verbatim>\<open>pFunctSignalPre\<close>. The result \<^verbatim>\<open>None\<close> is an access through \<^verbatim>\<open>NULL\<close> or outside \<^verbatim>\<open>ullValue\<close>.
\<close>

record CO_TIME_t =
  tim_isConsumer :: bool
  tim_isProducer :: bool
  tim_COB_ID :: u16
  tim_periodTime :: u32
  tim_periodTimeoutTime :: u32
  tim_CANrxNew :: bool
  tim_timer :: u32
  tim_receiveError :: u16
  tim_pFunctSignalPre :: bool
  tim_TXbuff :: "nat option"
  tim_Time :: "u8 list"
  tim_signals :: nat

abbreviation (input) "TIME_MSG_LENGTH \<equiv> (6 :: nat)"
abbreviation (input) "CO_EM_TIME_TIMEOUT \<equiv> (0x09 :: u8)"
abbreviation (input) "CO_EM_TIME_LENGTH \<equiv> (0x0A :: u8)"
abbreviation (input) "CO_EMC_TIME_DATA_LENGTH \<equiv> (0x8260 :: u16)"

definition CO_TIME_receive :: "CO_NMT_internalState_t \<Rightarrow> CO_TIME_t \<Rightarrow> CO_CANrxMsg_t \<Rightarrow> CO_TIME_t option" where
  "CO_TIME_receive operState TIME msg =
     (let DLC = unat (rxm_DLC msg)
      in if nmt_pre_or_operational operState then
           (if length (tim_Time TIME) < DLC \<or> length (rxm_data msg) < DLC then None
            else
              let T1 = TIME\<lparr>tim_Time := take DLC (rxm_data msg) @ drop DLC (tim_Time TIME), tim_CANrxNew := True\<rparr>
              in Some (if tim_pFunctSignalPre T1 then T1\<lparr>tim_signals := tim_signals T1 + 1\<rparr> else T1))
         else Some (TIME\<lparr>tim_receiveError := ucast (rxm_DLC msg)\<rparr>))"

definition obj_time :: nat where "obj_time = 7"

text \<open>
  The objects passed by pointer are arguments of the model, so the tests for \<^verbatim>\<open>NULL\<close> of \<^verbatim>\<open>CO_TIME_init\<close> have no
  counterpart. Fields that the function does not assign keep their values.
\<close>

definition CO_TIME_init ::
    "can_env \<Rightarrow> CO_TIME_t \<Rightarrow> co_bus \<Rightarrow> u32 \<Rightarrow> u32 \<Rightarrow> u16 \<Rightarrow> u16 \<Rightarrow> CO_ReturnError_t \<times> CO_TIME_t \<times> co_bus" where
  "CO_TIME_init env TIME bus COB_ID_TIMEMessage TIMECyclePeriod CANdevRxIdx CANdevTxIdx =
     (let T0 = TIME\<lparr>tim_isConsumer := COB_ID_TIMEMessage AND 0x80000000 \<noteq> 0,
                    tim_isProducer := COB_ID_TIMEMessage AND 0x40000000 \<noteq> 0,
                    tim_COB_ID := ucast (COB_ID_TIMEMessage AND 0x7FF), tim_periodTime := TIMECyclePeriod,
                    tim_periodTimeoutTime := sync_timeout TIMECyclePeriod, tim_CANrxNew := False, tim_timer := 0,
                    tim_receiveError := 0, tim_pFunctSignalPre := False\<rparr>;
          (ret, bus1) = (if tim_isConsumer T0
                         then CO_CANrxBufferInit env bus CANdevRxIdx (tim_COB_ID T0) 0x7FF False (Some obj_time) (Some CB_TIME_receive)
                         else (CO_ERROR_NO, bus))
      in if tim_isProducer T0 then
           let (tx, bus2) = CO_CANtxBufferInit env bus1 CANdevTxIdx (tim_COB_ID T0) False 6 False
           in (if tx = None then CO_ERROR_ILLEGAL_ARGUMENT else ret, T0\<lparr>tim_TXbuff := tx\<rparr>, bus2)
         else (ret, T0, bus1))"

definition CO_TIME_initCallbackPre :: "CO_TIME_t option \<Rightarrow> bool \<Rightarrow> CO_TIME_t option" where
  "CO_TIME_initCallbackPre TIME pFunctSignalPre = map_option (\<lambda>t. t\<lparr>tim_pFunctSignalPre := pFunctSignalPre\<rparr>) TIME"

definition div_round_up_1000 :: "u32 \<Rightarrow> u32" where
  \<comment> \<open>\<^verbatim>\<open>DIV_ROUND_UP(n, 1000)\<close>\<close>
  "div_round_up_1000 n = (n + 1000 - 1) div 1000"

definition time_produce :: "can_env \<Rightarrow> CO_TIME_t \<Rightarrow> co_bus \<Rightarrow> bool \<Rightarrow> (bool \<times> CO_TIME_t \<times> co_bus) option" where
  \<comment> \<open>the block under \<^verbatim>\<open>/* TIME producer */\<close>\<close>
  "time_produce env TIME bus ret =
     (if tim_isProducer TIME \<and> tim_periodTime TIME \<noteq> 0 \<and> tim_periodTime TIME \<le> tim_timer TIME then
        (case tim_TXbuff TIME of
           None \<Rightarrow> None
         | Some b \<Rightarrow>
             let bus1 = bus_upd_buf bus b (\<lambda>t. t\<lparr>tx_data := take TIME_MSG_LENGTH (tim_Time TIME) @ drop TIME_MSG_LENGTH (tx_data t)\<rparr>)
             in Some (True, TIME\<lparr>tim_timer := 0\<rparr>, snd (CO_CANsend env bus1 (Some b))))
      else Some (ret, TIME, bus))"

definition CO_TIME_process ::
    "can_env \<Rightarrow> CO_NMT_internalState_t \<Rightarrow> CO_TIME_t \<Rightarrow> co_bus \<Rightarrow> u32 \<Rightarrow> (bool \<times> CO_TIME_t \<times> co_bus) option" where
  "CO_TIME_process env operatingState TIME bus timeDifference_us = do {
     (ret, T3, bus3) \<leftarrow>
       (if nmt_pre_or_operational operatingState then do {
          let timerNew = tim_timer TIME + div_round_up_1000 timeDifference_us;
          let T1 = (if tim_timer TIME < timerNew then TIME\<lparr>tim_timer := timerNew\<rparr> else TIME);
          let T2 = (if tim_CANrxNew T1 then T1\<lparr>tim_timer := 0, tim_CANrxNew := False\<rparr> else T1);
          (ret, T3, bus3) \<leftarrow> time_produce env T2 bus (tim_CANrxNew T1);
          Some (ret, T3,
            if tim_isConsumer T3 \<and> tim_periodTime T3 \<noteq> 0 \<and> tim_periodTimeoutTime T3 < tim_timer T3 \<and>
               operatingState = CO_NMT_OPERATIONAL
            then bus3\<lparr>bus_em := em_errorReport (bus_em bus3) CO_EM_TIME_TIMEOUT CO_EMC_COMMUNICATION (tim_timer T3)\<rparr>
            else bus3)
        }
        else Some (False, TIME\<lparr>tim_CANrxNew := False\<rparr>, bus));
     Some (if tim_receiveError T3 \<noteq> 0
           then (ret, T3\<lparr>tim_receiveError := 0\<rparr>,
                 bus3\<lparr>bus_em := em_errorReport (bus_em bus3) CO_EM_TIME_LENGTH CO_EMC_TIME_DATA_LENGTH (ucast (tim_receiveError T3))\<rparr>)
           else (ret, T3, bus3))
   }"

subsection \<open>From producer to consumer\<close>

definition time_due :: "CO_TIME_t \<Rightarrow> u32 \<Rightarrow> bool" where
  \<comment> \<open>the timer of a producer reaches its period in this call\<close>
  "time_due T dt \<longleftrightarrow> tim_isProducer T \<and> tim_periodTime T \<noteq> 0 \<and> \<not> tim_CANrxNew T \<and>
     tim_timer T < tim_timer T + div_round_up_1000 dt \<and> tim_periodTime T \<le> tim_timer T + div_round_up_1000 dt"

definition time_tx_ok :: "CO_TIME_t \<Rightarrow> co_bus \<Rightarrow> nat \<Rightarrow> bool" where
  "time_tx_ok T bus b \<longleftrightarrow> tim_TXbuff T = Some b \<and> b < unat (can_txSize (bus_can bus)) \<and> tx_DLC (bus_buf bus b) = 6 \<and>
     length (tx_data (bus_buf bus b)) = 8 \<and> \<not> tx_bufferFull (bus_buf bus b)"

text \<open>
  C38: when the period of a TIME producer elapses, one frame with the first six bytes of its time goes to the
  device, and a consumer in the pre-operational or operational state that receives this frame holds the same
  six bytes afterwards and signals the new time.
\<close>

theorem time_reaches_consumer:
  assumes "bus_dev_inv bus" "time_tx_ok T bus b" "length (tim_Time T) = 8" "time_due T dt" "nmt_pre_or_operational st"
    and "CO_TIME_process env st T bus dt = Some (ret, T', bus')"
    and "nmt_pre_or_operational st2" "length (tim_Time C) = 8"
  shows "\<exists>ident dlc data w C'. can_sent (bus_can bus') = can_sent (bus_can bus) @ [((ident, dlc, data), w)] \<and>
    ident = tx_ident (bus_buf bus b) \<and> ret \<and> tim_timer T' = 0 \<and>
    CO_TIME_receive st2 C \<lparr>rxm_ident = ident, rxm_DLC = dlc, rxm_data = data\<rparr> = Some C' \<and>
    take 6 (tim_Time C') = take 6 (tim_Time T) \<and> drop 6 (tim_Time C') = drop 6 (tim_Time C) \<and> tim_CANrxNew C'"
proof -
  let ?b = "bus_buf bus b"
  define T2 where "T2 = T\<lparr>tim_timer := tim_timer T + div_round_up_1000 dt\<rparr>"
  define bus1 where "bus1 = bus_upd_buf bus b (\<lambda>t. t\<lparr>tx_data := take 6 (tim_Time T) @ drop 6 (tx_data t)\<rparr>)"
  have inv: "bus_inv bus" "can_dev (bus_can bus) \<noteq> None" using assms(1) by (simp_all add: bus_dev_inv_def)
  have b: "b < length (can_txArray (bus_can bus))" using assms(2) inv(1) by (simp add: time_tx_ok_def bus_inv_def)
  have b1: "bus_buf bus1 b = ?b\<lparr>tx_data := take 6 (tim_Time T) @ drop 6 (tx_data ?b)\<rparr>"
    using b by (simp add: bus1_def bus_buf_upd)
  have "bus_ready bus1 b" using inv(2) b1 assms(2) by (simp add: bus_ready_def bus1_def time_tx_ok_def)
  note sent = CO_CANsend_ready [OF this, of env]
  have prod: "time_produce env T2 bus False = Some (True, T2\<lparr>tim_timer := 0\<rparr>, snd (CO_CANsend env bus1 (Some b)))"
    using assms(2,4) by (simp add: time_produce_def T2_def time_due_def time_tx_ok_def bus1_def)
  have "ret \<and> tim_timer T' = 0 \<and> bus_can bus' = bus_can (snd (CO_CANsend env bus1 (Some b)))"
    using assms(4-6) prod
    by (auto simp: CO_TIME_process_def Let_def time_due_def T2_def [symmetric] split: if_splits)
      (auto simp: T2_def)
  moreover have "tx_frame (bus_buf bus1 b) = (tx_ident ?b, 6, take 6 (tim_Time T) @ drop 6 (tx_data ?b))"
    using b1 assms(2) by (simp add: tx_frame_def time_tx_ok_def)
  moreover have "can_sent (bus_can bus1) = can_sent (bus_can bus)" by (simp add: bus1_def)
  moreover have "length (tx_data ?b) = 8" using assms(2) by (simp add: time_tx_ok_def)
  ultimately show ?thesis using sent assms(3,7,8) by (auto simp: CO_TIME_receive_def Let_def)
qed

definition example_time :: "bool \<Rightarrow> CO_TIME_t" where
  "example_time p = \<lparr>tim_isConsumer = \<not> p, tim_isProducer = p, tim_COB_ID = 0x100, tim_periodTime = 1000,
     tim_periodTimeoutTime = 1500, tim_CANrxNew = False, tim_timer = 0, tim_receiveError = 0, tim_pFunctSignalPre = False,
     tim_TXbuff = Some 0, tim_Time = (if p then [1, 2, 3, 4, 5, 6, 7, 8] else replicate 8 0), tim_signals = 0\<rparr>"

definition example_time_bus :: co_bus where
  "example_time_bus = bus_upd_buf example_bus 0 (\<lambda>t. t\<lparr>tx_DLC := 6\<rparr>)"

lemma CO_TIME_process_total:
  assumes "tim_TXbuff T = Some b"
  shows "\<exists>ret T' bus'. CO_TIME_process env st T bus dt = Some (ret, T', bus')"
proof (cases "nmt_pre_or_operational st")
  case True
  define T1 where "T1 = (if tim_timer T < tim_timer T + div_round_up_1000 dt
      then T\<lparr>tim_timer := tim_timer T + div_round_up_1000 dt\<rparr> else T)"
  define T2 where "T2 = (if tim_CANrxNew T1 then T1\<lparr>tim_timer := 0, tim_CANrxNew := False\<rparr> else T1)"
  have "tim_TXbuff T2 = Some b" using assms by (simp add: T1_def T2_def)
  then obtain r T3 b3 where "time_produce env T2 bus (tim_CANrxNew T1) = Some (r, T3, b3)"
    by (cases "tim_isProducer T2 \<and> tim_periodTime T2 \<noteq> 0 \<and> tim_periodTime T2 \<le> tim_timer T2")
      (simp_all add: time_produce_def Let_def)
  then show ?thesis
    using True unfolding CO_TIME_process_def Let_def T1_def [symmetric] T2_def [symmetric] by simp
next
  case False
  then show ?thesis by (auto simp: CO_TIME_process_def)
qed

theorem time_reaches_consumer_witness:
  "\<exists>ret T' bus' f w C'. CO_TIME_process (example_env 0) CO_NMT_OPERATIONAL (example_time True) example_time_bus 1000000 = Some (ret, T', bus') \<and>
     can_sent (bus_can bus') = [(f, w)] \<and>
     CO_TIME_receive CO_NMT_OPERATIONAL (example_time False) \<lparr>rxm_ident = fst f, rxm_DLC = fst (snd f), rxm_data = snd (snd f)\<rparr> = Some C' \<and>
     take 6 (tim_Time C') = [1, 2, 3, 4, 5, 6]"
proof -
  have st: "nmt_pre_or_operational CO_NMT_OPERATIONAL" by (simp add: nmt_pre_or_operational_def)
  have inv: "bus_dev_inv example_time_bus" using example_bus_inv by (simp add: example_time_bus_def bus_dev_inv_def)
  have tx: "time_tx_ok (example_time True) example_time_bus 0"
    by (simp add: time_tx_ok_def example_time_def example_time_bus_def bus_buf_upd)
      (simp add: example_bus_def bus_buf_def example_tx_def bus_upd_buf_def)
  have due: "time_due (example_time True) 1000000"
    by (simp add: time_due_def example_time_def div_round_up_1000_def)
  have len: "length (tim_Time (example_time True)) = 8" "length (tim_Time (example_time False)) = 8" by (simp_all add: example_time_def)
  obtain ret T' bus' where p: "CO_TIME_process (example_env 0) CO_NMT_OPERATIONAL (example_time True) example_time_bus 1000000 = Some (ret, T', bus')"
    using CO_TIME_process_total [of "example_time True" 0 "example_env 0" CO_NMT_OPERATIONAL example_time_bus 1000000]
    by (auto simp: example_time_def)
  have "can_sent (bus_can example_time_bus) = []" by (simp add: example_time_bus_def example_bus_def)
  moreover have "take 6 (tim_Time (example_time True)) = [1, 2, 3, 4, 5, 6]" by (simp add: example_time_def)
  ultimately show ?thesis using time_reaches_consumer [OF inv tx len(1) due st p st len(2)] p by fastforce
qed

subsection \<open>The timer\<close>

fun time_run :: "can_env \<Rightarrow> CO_NMT_internalState_t \<Rightarrow> nat \<Rightarrow> u32 \<Rightarrow> CO_TIME_t \<Rightarrow> co_bus \<Rightarrow> (CO_TIME_t \<times> co_bus) option" where
  "time_run env st 0 dt T bus = Some (T, bus)"
| "time_run env st (Suc k) dt T bus =
     (case CO_TIME_process env st T bus dt of None \<Rightarrow> None | Some (ret, T1, bus1) \<Rightarrow> time_run env st k dt T1 bus1)"

lemma CO_TIME_process_quiet:
  assumes "nmt_pre_or_operational st" "\<not> tim_isProducer T" "\<not> tim_CANrxNew T"
  shows "\<exists>ret T' bus'. CO_TIME_process env st T bus dt = Some (ret, T', bus') \<and> \<not> tim_isProducer T' \<and> \<not> tim_CANrxNew T' \<and>
    tim_timer T' = (if tim_timer T < tim_timer T + div_round_up_1000 dt then tim_timer T + div_round_up_1000 dt else tim_timer T)"
  using assms by (auto simp: CO_TIME_process_def time_produce_def Let_def)

text \<open>
  \<^verbatim>\<open>CO_TIME_process\<close> rounds every time step up to a full millisecond, so the timer of a consumer that is
  processed often runs fast: after \<^verbatim>\<open>k\<close> calls of one microsecond each it has advanced by \<^verbatim>\<open>k\<close> milliseconds.
\<close>

theorem CO_TIME_timer_runs_fast:
  assumes "nmt_pre_or_operational st" "\<not> tim_isProducer T" "\<not> tim_CANrxNew T" "unat (tim_timer T) + k < 2 ^ 32"
  shows "\<exists>T' bus'. time_run env st k 1 T bus = Some (T', bus') \<and> unat (tim_timer T') = unat (tim_timer T) + k"
  using assms(2-4)
proof (induction k arbitrary: T bus)
  case 0
  then show ?case by simp
next
  case (Suc k)
  obtain ret T1 bus1 where p: "CO_TIME_process env st T bus 1 = Some (ret, T1, bus1)" "\<not> tim_isProducer T1" "\<not> tim_CANrxNew T1"
    "tim_timer T1 = (if tim_timer T < tim_timer T + 1 then tim_timer T + 1 else tim_timer T)"
    using CO_TIME_process_quiet [OF assms(1) Suc.prems(1,2), of env bus 1] by (auto simp: div_round_up_1000_def)
  have "unat (tim_timer T + 1) = unat (tim_timer T) + 1" using Suc.prems(3) by (simp add: unat_word_ariths)
  then have t: "unat (tim_timer T1) = unat (tim_timer T) + 1" using p(4) by (simp add: word_less_nat_alt)
  obtain T' bus' where "time_run env st k 1 T1 bus1 = Some (T', bus')" "unat (tim_timer T') = unat (tim_timer T1) + k"
    using Suc.IH [OF p(2,3), of bus1] t Suc.prems(3) by auto
  then show ?case using p(1) t by auto
qed

theorem CO_TIME_timer_runs_fast_witness:
  "\<exists>T' bus'. time_run (example_env 0) CO_NMT_OPERATIONAL 2000 1 (example_time False) example_bus = Some (T', bus') \<and>
     unat (tim_timer T') = 2000"
  using CO_TIME_timer_runs_fast [of CO_NMT_OPERATIONAL "example_time False" 2000 "example_env 0" example_bus]
  by (simp add: nmt_pre_or_operational_def example_time_def)

end
