(* ===== verification/Leds.thy ===== *)
theory Leds
  imports NMT_Heartbeat
begin

section \<open>LED indicators (\<^verbatim>\<open>303/CO_LEDs.c\<close>)\<close>

text \<open>
  The two indicator LEDs of CiA 303-3: \<^verbatim>\<open>CO_LEDs_process\<close> derives from a 50 ms tick the states of a
  flickering, a blinking and four flashing LEDs and selects from them what the red and the green CANopen
  LED show. The \<^verbatim>\<open>while\<close> loop over the elapsed ticks is the recursive function \<^verbatim>\<open>led_loop\<close>, with its
  termination proved; its local variables \<^verbatim>\<open>rd\<close>, \<^verbatim>\<open>gr\<close> and \<^verbatim>\<open>tick\<close> are arguments.
\<close>

subsection \<open>State and operations\<close>

record CO_LEDs_t =
  led_LEDtmr50ms :: u32
  led_LEDtmr200ms :: u8
  led_LEDtmrflash_1 :: u8
  led_LEDtmrflash_2 :: u8
  led_LEDtmrflash_3 :: u8
  led_LEDtmrflash_4 :: u8
  led_LEDred :: u8
  led_LEDgreen :: u8

abbreviation (input) "CO_LED_flicker \<equiv> (0x01 :: u8)"
abbreviation (input) "CO_LED_blink \<equiv> (0x02 :: u8)"
abbreviation (input) "CO_LED_flash_1 \<equiv> (0x04 :: u8)"
abbreviation (input) "CO_LED_flash_2 \<equiv> (0x08 :: u8)"
abbreviation (input) "CO_LED_flash_3 \<equiv> (0x10 :: u8)"
abbreviation (input) "CO_LED_flash_4 \<equiv> (0x20 :: u8)"
abbreviation (input) "CO_LED_CANopen \<equiv> (0x80 :: u8)"

definition CO_LED_RED :: "CO_LEDs_t \<Rightarrow> u8 \<Rightarrow> bool" where "CO_LED_RED LEDs b \<longleftrightarrow> led_LEDred LEDs AND b \<noteq> 0"

definition CO_LED_GREEN :: "CO_LEDs_t \<Rightarrow> u8 \<Rightarrow> bool" where "CO_LED_GREEN LEDs b \<longleftrightarrow> led_LEDgreen LEDs AND b \<noteq> 0"

definition led_zero :: CO_LEDs_t where
  \<comment> \<open>the object after \<^verbatim>\<open>memset(LEDs, 0, sizeof(CO_LEDs_t))\<close>\<close>
  "led_zero = \<lparr>led_LEDtmr50ms = 0, led_LEDtmr200ms = 0, led_LEDtmrflash_1 = 0, led_LEDtmrflash_2 = 0,
     led_LEDtmrflash_3 = 0, led_LEDtmrflash_4 = 0, led_LEDred = 0, led_LEDgreen = 0\<rparr>"

definition CO_LEDs_init :: "CO_LEDs_t option \<Rightarrow> CO_ReturnError_t \<times> CO_LEDs_t option" where
  "CO_LEDs_init LEDs =
     (case LEDs of None \<Rightarrow> (CO_ERROR_ILLEGAL_ARGUMENT, None) | Some L \<Rightarrow> (CO_ERROR_NO, Some led_zero))"

definition led_switch :: "u8 list \<Rightarrow> u8 list \<Rightarrow> u8 \<Rightarrow> u8 \<Rightarrow> u8 \<Rightarrow> u8 \<Rightarrow> u8 \<Rightarrow> u8 \<times> u8 \<times> u8" where
  \<comment> \<open>one of the four \<^verbatim>\<open>switch (++timer)\<close>: the labels that set the red and the green bit, and the label that resets the timer\<close>
  "led_switch red green wrap b timer rd gr =
     (let t = timer + 1
      in if t \<in> set red then (t, rd OR b, gr)
         else if t \<in> set green then (t, rd, gr OR b)
         else if t = wrap then (0, rd, gr)
         else (t, rd, gr))"

definition led_200ms :: "CO_LEDs_t \<Rightarrow> u8 \<times> u8 \<times> CO_LEDs_t" where
  \<comment> \<open>the block under \<^verbatim>\<open>/* calculate 2,5Hz blinking and flashing */\<close>\<close>
  "led_200ms L =
     (let blink = (led_LEDred L AND CO_LED_blink = 0);
          rd = (if blink then CO_LED_blink else 0);
          gr = (if blink then 0 else CO_LED_blink);
          (t1, rd1, gr1) = led_switch [1] [2] 6 CO_LED_flash_1 (led_LEDtmrflash_1 L) rd gr;
          (t2, rd2, gr2) = led_switch [1, 3] [2, 4] 8 CO_LED_flash_2 (led_LEDtmrflash_2 L) rd1 gr1;
          (t3, rd3, gr3) = led_switch [1, 3, 5] [2, 4, 6] 10 CO_LED_flash_3 (led_LEDtmrflash_3 L) rd2 gr2;
          (t4, rd4, gr4) = led_switch [1, 3, 5, 7] [2, 4, 6, 8] 12 CO_LED_flash_4 (led_LEDtmrflash_4 L) rd3 gr3
      in (rd4, gr4, L\<lparr>led_LEDtmr200ms := 0, led_LEDtmrflash_1 := t1, led_LEDtmrflash_2 := t2,
                      led_LEDtmrflash_3 := t3, led_LEDtmrflash_4 := t4\<rparr>))"

definition led_tick :: "CO_LEDs_t \<Rightarrow> u8 \<times> u8 \<times> CO_LEDs_t" where
  \<comment> \<open>the body of the loop over the 50 ms ticks\<close>
  "led_tick L =
     (let rdFlickerNext = (led_LEDred L AND CO_LED_flicker = 0);
          L1 = L\<lparr>led_LEDtmr50ms := led_LEDtmr50ms L - 50000, led_LEDtmr200ms := led_LEDtmr200ms L + 1\<rparr>;
          (rd, gr, L2) =
            (if 3 < led_LEDtmr200ms L1 then led_200ms L1
             else (led_LEDred L1 AND (0xFF XOR (CO_LED_flicker OR CO_LED_CANopen)),
                   led_LEDgreen L1 AND (0xFF XOR (CO_LED_flicker OR CO_LED_CANopen)), L1))
      in (if rdFlickerNext then rd OR CO_LED_flicker else rd, if rdFlickerNext then gr else gr OR CO_LED_flicker, L2))"

lemma led_tick_timer: "led_LEDtmr50ms (snd (snd (led_tick L))) = led_LEDtmr50ms L - 50000"
  by (simp add: led_tick_def led_200ms_def Let_def split: prod.split)

lemma led_timer_decreases: "50000 \<le> (t :: u32) \<Longrightarrow> unat (t - 50000) < unat t"
  by (simp add: word_le_nat_alt unat_sub)

function led_loop :: "CO_LEDs_t \<Rightarrow> u8 \<Rightarrow> u8 \<Rightarrow> bool \<Rightarrow> u8 \<times> u8 \<times> bool \<times> CO_LEDs_t" where
  "led_loop L rd gr tick =
     (if 50000 \<le> led_LEDtmr50ms L then
        (case led_tick L of (rd1, gr1, L1) \<Rightarrow> led_loop L1 rd1 gr1 True)
      else (rd, gr, tick, L))"
  by pat_completeness auto

lemma led_tick_decreases:
  assumes "50000 \<le> led_LEDtmr50ms L" "(rd, gr, L1) = led_tick L"
  shows "unat (led_LEDtmr50ms L1) < unat (led_LEDtmr50ms L)"
  using led_timer_decreases [OF assms(1)] led_tick_timer [of L] by (simp flip: assms(2))

termination led_loop
  by (relation "measure (\<lambda>(L, rd, gr, tick). unat (led_LEDtmr50ms L))") (auto intro: led_tick_decreases)

declare led_loop.simps [simp del]

record led_input =
  in_NMTstate :: CO_NMT_internalState_t
  in_LSSconfig :: bool
  in_ErrCANbusOff :: bool
  in_ErrCANbusWarn :: bool
  in_ErrRpdo :: bool
  in_ErrSync :: bool
  in_ErrHbCons :: bool
  in_ErrOther :: bool
  in_firmwareDownload :: bool

definition led_red_co :: "led_input \<Rightarrow> u8 \<Rightarrow> u8" where
  "led_red_co i rd =
     (if in_ErrCANbusOff i then 1
      else if in_NMTstate i = CO_NMT_INITIALIZING then rd AND CO_LED_flicker
      else if in_ErrRpdo i then rd AND CO_LED_flash_4
      else if in_ErrSync i then rd AND CO_LED_flash_3
      else if in_ErrHbCons i then rd AND CO_LED_flash_2
      else if in_ErrCANbusWarn i then rd AND CO_LED_flash_1
      else if in_ErrOther i then rd AND CO_LED_blink
      else 0)"

definition led_green_co :: "led_input \<Rightarrow> u8 \<Rightarrow> u8" where
  "led_green_co i gr =
     (if in_LSSconfig i then gr AND CO_LED_flicker
      else if in_firmwareDownload i then gr AND CO_LED_flash_3
      else if in_NMTstate i = CO_NMT_STOPPED then gr AND CO_LED_flash_1
      else if in_NMTstate i = CO_NMT_PRE_OPERATIONAL then gr AND CO_LED_blink
      else if in_NMTstate i = CO_NMT_OPERATIONAL then 1
      else 0)"

definition CO_LEDs_process :: "CO_LEDs_t \<Rightarrow> u32 \<Rightarrow> led_input \<Rightarrow> u32 option \<Rightarrow> CO_LEDs_t \<times> u32 option" where
  "CO_LEDs_process LEDs timeDifference_us i timerNext_us =
     (case led_loop (LEDs\<lparr>led_LEDtmr50ms := led_LEDtmr50ms LEDs + timeDifference_us\<rparr>) 0 0 False of
        (rd, gr, tick, L1) \<Rightarrow>
          let L2 = (if tick then
                      L1\<lparr>led_LEDred := (if led_red_co i rd \<noteq> 0 then rd OR CO_LED_CANopen else rd),
                         led_LEDgreen := (if led_green_co i gr \<noteq> 0 then gr OR CO_LED_CANopen else gr)\<rparr>
                    else L1)
          in (L2, lower_timer timerNext_us (50000 - led_LEDtmr50ms L2)))"

subsection \<open>The pattern as a function of the number of ticks\<close>

definition led_bits :: "bool \<Rightarrow> bool \<Rightarrow> bool \<Rightarrow> bool \<Rightarrow> bool \<Rightarrow> bool \<Rightarrow> u8" where
  "led_bits fl bl f1 f2 f3 f4 =
     (if fl then 0x01 else 0) OR (if bl then 0x02 else 0) OR (if f1 then 0x04 else 0) OR
     (if f2 then 0x08 else 0) OR (if f3 then 0x10 else 0) OR (if f4 then 0x20 else 0)"

text \<open>
  Reference: in the 200 ms step \<^verbatim>\<open>m\<close> a LED that flashes \<^verbatim>\<open>k\<close> times is red in the odd and green in the even ones of
  the first \<^verbatim>\<open>2 k\<close> steps of a cycle of \<^verbatim>\<open>2 k + 4\<close> steps.
\<close>

definition flash_red :: "nat \<Rightarrow> nat \<Rightarrow> bool" where
  "flash_red k m \<longleftrightarrow> odd (m mod (2 * k + 4)) \<and> m mod (2 * k + 4) < 2 * k"

definition flash_green :: "nat \<Rightarrow> nat \<Rightarrow> bool" where
  "flash_green k m \<longleftrightarrow> even (m mod (2 * k + 4)) \<and> 0 < m mod (2 * k + 4) \<and> m mod (2 * k + 4) \<le> 2 * k"

definition ref_red :: "nat \<Rightarrow> u8" where
  "ref_red n = (let m = n div 4 in led_bits (odd n) (odd m) (flash_red 1 m) (flash_red 2 m) (flash_red 3 m) (flash_red 4 m))"

definition ref_green :: "nat \<Rightarrow> u8" where
  "ref_green n = (let m = n div 4
     in led_bits (even n \<and> 0 < n) (even m \<and> 0 < m) (flash_green 1 m) (flash_green 2 m) (flash_green 3 m) (flash_green 4 m))"

definition led_timers :: "nat \<Rightarrow> CO_LEDs_t \<Rightarrow> bool" where
  "led_timers n L \<longleftrightarrow> led_LEDtmr200ms L = word_of_nat (n mod 4) \<and>
     led_LEDtmrflash_1 L = word_of_nat (n div 4 mod 6) \<and> led_LEDtmrflash_2 L = word_of_nat (n div 4 mod 8) \<and>
     led_LEDtmrflash_3 L = word_of_nat (n div 4 mod 10) \<and> led_LEDtmrflash_4 L = word_of_nat (n div 4 mod 12)"

definition led_shows :: "nat \<Rightarrow> CO_LEDs_t \<Rightarrow> bool" where
  \<comment> \<open>all bits but the CANopen bit\<close>
  "led_shows n L \<longleftrightarrow> led_timers n L \<and> led_LEDred L AND 0x7F = ref_red n \<and> led_LEDgreen L AND 0x7F = ref_green n"

lemma nat_less_6: "(n::nat) < 6 \<Longrightarrow> n = 0 \<or> n = 1 \<or> n = 2 \<or> n = 3 \<or> n = 4 \<or> n = 5" by linarith
lemma nat_less_8: "(n::nat) < 8 \<Longrightarrow> n < 6 \<or> n = 6 \<or> n = 7" by linarith
lemma nat_less_10: "(n::nat) < 10 \<Longrightarrow> n < 8 \<or> n = 8 \<or> n = 9" by linarith
lemma nat_less_12: "(n::nat) < 12 \<Longrightarrow> n < 10 \<or> n = 10 \<or> n = 11" by linarith

lemmas nat_small = nat_less_6 nat_less_8 nat_less_10 nat_less_12

lemma led_switch_1:
  "led_switch [1] [2] 6 b (word_of_nat (m mod 6)) rd gr =
     (word_of_nat (Suc m mod 6), if flash_red 1 (Suc m) then rd OR b else rd, if flash_green 1 (Suc m) then gr OR b else gr)"
proof -
  have "m mod 6 < 6" by simp
  then show ?thesis
    by (elim nat_small [elim_format] disjE) (simp_all add: led_switch_def flash_red_def flash_green_def mod_Suc)
qed

lemma led_switch_2:
  "led_switch [1, 3] [2, 4] 8 b (word_of_nat (m mod 8)) rd gr =
     (word_of_nat (Suc m mod 8), if flash_red 2 (Suc m) then rd OR b else rd, if flash_green 2 (Suc m) then gr OR b else gr)"
proof -
  have "m mod 8 < 8" by simp
  then show ?thesis
    by (elim nat_small [elim_format] disjE) (simp_all add: led_switch_def flash_red_def flash_green_def mod_Suc)
qed

lemma led_switch_3:
  "led_switch [1, 3, 5] [2, 4, 6] 10 b (word_of_nat (m mod 10)) rd gr =
     (word_of_nat (Suc m mod 10), if flash_red 3 (Suc m) then rd OR b else rd, if flash_green 3 (Suc m) then gr OR b else gr)"
proof -
  have "m mod 10 < 10" by simp
  then show ?thesis
    by (elim nat_small [elim_format] disjE) (simp_all add: led_switch_def flash_red_def flash_green_def mod_Suc)
qed

lemma led_switch_4:
  "led_switch [1, 3, 5, 7] [2, 4, 6, 8] 12 b (word_of_nat (m mod 12)) rd gr =
     (word_of_nat (Suc m mod 12), if flash_red 4 (Suc m) then rd OR b else rd, if flash_green 4 (Suc m) then gr OR b else gr)"
proof -
  have "m mod 12 < 12" by simp
  then show ?thesis
    by (elim nat_small [elim_format] disjE) (simp_all add: led_switch_def flash_red_def flash_green_def mod_Suc)
qed

lemma led_bits_flicker: "led_bits fl bl f1 f2 f3 f4 AND 1 = 0 \<longleftrightarrow> \<not> fl"
  by (cases fl; cases bl; cases f1; cases f2; cases f3; cases f4) (simp_all add: led_bits_def)

lemma led_bits_blink: "led_bits fl bl f1 f2 f3 f4 AND 2 = 0 \<longleftrightarrow> \<not> bl"
  by (cases fl; cases bl; cases f1; cases f2; cases f3; cases f4) (simp_all add: led_bits_def)

lemma led_bits_keep: "led_bits fl bl f1 f2 f3 f4 AND 0x7E = led_bits False bl f1 f2 f3 f4"
  by (cases fl; cases bl; cases f1; cases f2; cases f3; cases f4) (simp_all add: led_bits_def)

lemma led_bits_canopen: "led_bits fl bl f1 f2 f3 f4 AND 0x7F = led_bits fl bl f1 f2 f3 f4"
  "(led_bits fl bl f1 f2 f3 f4 OR 0x80) AND 0x7F = led_bits fl bl f1 f2 f3 f4"
  by (cases fl; cases bl; cases f1; cases f2; cases f3; cases f4; simp add: led_bits_def)+

lemma led_bits_or_flicker: "led_bits False bl f1 f2 f3 f4 OR 1 = led_bits True bl f1 f2 f3 f4"
  by (cases bl; cases f1; cases f2; cases f3; cases f4) (simp_all add: led_bits_def)

lemma led_200ms_shows:
  assumes "led_shows n L" "led_LEDred L1 = led_LEDred L" "m = n div 4"
    "led_LEDtmrflash_1 L1 = led_LEDtmrflash_1 L" "led_LEDtmrflash_2 L1 = led_LEDtmrflash_2 L"
    "led_LEDtmrflash_3 L1 = led_LEDtmrflash_3 L" "led_LEDtmrflash_4 L1 = led_LEDtmrflash_4 L"
  shows "led_200ms L1 =
    (led_bits False (odd (Suc m)) (flash_red 1 (Suc m)) (flash_red 2 (Suc m)) (flash_red 3 (Suc m)) (flash_red 4 (Suc m)),
     led_bits False (even (Suc m)) (flash_green 1 (Suc m)) (flash_green 2 (Suc m)) (flash_green 3 (Suc m)) (flash_green 4 (Suc m)),
     L1\<lparr>led_LEDtmr200ms := 0, led_LEDtmrflash_1 := word_of_nat (Suc m mod 6), led_LEDtmrflash_2 := word_of_nat (Suc m mod 8),
       led_LEDtmrflash_3 := word_of_nat (Suc m mod 10), led_LEDtmrflash_4 := word_of_nat (Suc m mod 12)\<rparr>)"
proof -
  have "led_LEDred L AND 2 = (led_LEDred L AND 0x7F) AND 2" by (simp add: and.assoc)
  also have "\<dots> = ref_red n AND 2" using assms(1) by (simp add: led_shows_def)
  finally have "led_LEDred L1 AND 2 = 0 \<longleftrightarrow> even m" by (simp add: assms(2,3) ref_red_def Let_def led_bits_blink)
  moreover have "led_LEDtmrflash_1 L1 = word_of_nat (m mod 6)" "led_LEDtmrflash_2 L1 = word_of_nat (m mod 8)"
    "led_LEDtmrflash_3 L1 = word_of_nat (m mod 10)" "led_LEDtmrflash_4 L1 = word_of_nat (m mod 12)"
    using assms(1,3-7) by (simp_all add: led_shows_def led_timers_def)
  ultimately show ?thesis
    by (simp only: led_200ms_def Let_def led_switch_1 led_switch_2 led_switch_3 led_switch_4 prod.case)
      (simp add: led_bits_def or.assoc)
qed

lemma led_tick_shows:
  assumes "led_shows n L"
  shows "\<exists>L1. led_tick L = (ref_red (Suc n), ref_green (Suc n), L1) \<and> led_timers (Suc n) L1"
proof -
  define m where "m = n div 4"
  have "led_LEDred L AND 1 = (led_LEDred L AND 0x7F) AND 1" by (simp add: and.assoc)
  also have "\<dots> = ref_red n AND 1" using assms by (simp add: led_shows_def)
  finally have fl: "led_LEDred L AND 1 = 0 \<longleftrightarrow> even n" by (simp add: ref_red_def Let_def led_bits_flicker)
  define L1 where "L1 = L\<lparr>led_LEDtmr50ms := led_LEDtmr50ms L - 50000, led_LEDtmr200ms := led_LEDtmr200ms L + 1\<rparr>"
  have t200: "led_LEDtmr200ms L1 = word_of_nat (Suc (n mod 4))" using assms by (simp add: L1_def led_shows_def led_timers_def add.commute)
  have "n mod 4 < 4" by simp
  then consider "n mod 4 = 0" | "n mod 4 = 1" | "n mod 4 = 2" | "n mod 4 = 3" by linarith
  then have big: "3 < led_LEDtmr200ms L1 \<longleftrightarrow> n mod 4 = 3" unfolding t200 by cases simp_all
  have tick: "led_tick L = (if even n then rd OR 1 else rd, if even n then gr else gr OR 1, L2)"
    if "(if n mod 4 = 3 then led_200ms L1 else (led_LEDred L1 AND 0x7E, led_LEDgreen L1 AND 0x7E, L1)) = (rd, gr, L2)" for rd gr L2
    using that fl unfolding led_tick_def Let_def L1_def [symmetric] big by (cases "n mod 4 = 3") auto
  show ?thesis
  proof (cases "n mod 4 = 3")
    case True
    then have Suc: "Suc n div 4 = Suc m" "Suc n mod 4 = 0" by (simp_all add: m_def div_Suc mod_Suc)
    define L2 where "L2 = L1\<lparr>led_LEDtmr200ms := 0, led_LEDtmrflash_1 := word_of_nat (Suc m mod 6), led_LEDtmrflash_2 := word_of_nat (Suc m mod 8),
       led_LEDtmrflash_3 := word_of_nat (Suc m mod 10), led_LEDtmrflash_4 := word_of_nat (Suc m mod 12)\<rparr>"
    have "led_200ms L1 =
      (led_bits False (odd (Suc m)) (flash_red 1 (Suc m)) (flash_red 2 (Suc m)) (flash_red 3 (Suc m)) (flash_red 4 (Suc m)),
       led_bits False (even (Suc m)) (flash_green 1 (Suc m)) (flash_green 2 (Suc m)) (flash_green 3 (Suc m)) (flash_green 4 (Suc m)), L2)"
      unfolding L2_def by (rule led_200ms_shows [OF assms _ m_def]) (simp_all add: L1_def)
    moreover have "led_timers (Suc n) L2" by (simp add: led_timers_def L2_def Suc del: of_nat_Suc)
    ultimately show ?thesis using True tick [of _ _ L2]
      by (cases "even n") (simp_all add: ref_red_def ref_green_def Let_def Suc led_bits_or_flicker)
  next
    case False
    then have Suc: "Suc n div 4 = m" "Suc n mod 4 = Suc (n mod 4)" by (simp_all add: m_def div_Suc mod_Suc)
    have "led_LEDred L AND 0x7E = (led_LEDred L AND 0x7F) AND 0x7E" "led_LEDgreen L AND 0x7E = (led_LEDgreen L AND 0x7F) AND 0x7E"
      by (simp_all add: and.assoc)
    then have "led_LEDred L1 AND 0x7E = ref_red n AND 0x7E" "led_LEDgreen L1 AND 0x7E = ref_green n AND 0x7E"
      using assms by (simp_all add: led_shows_def L1_def)
    moreover have "led_timers (Suc n) L1" using assms t200 Suc by (simp add: led_timers_def led_shows_def L1_def m_def)
    ultimately show ?thesis using False tick [of _ _ L1]
      by (cases "even n") (simp_all add: ref_red_def ref_green_def Let_def Suc led_bits_keep led_bits_or_flicker m_def)
  qed
qed

lemma led_loop_none: "led_LEDtmr50ms L < 50000 \<Longrightarrow> led_loop L rd gr tick = (rd, gr, tick, L)"
  by (simp add: led_loop.simps [of L] not_le [symmetric])

lemma led_loop_one:
  assumes "50000 \<le> led_LEDtmr50ms L" "led_LEDtmr50ms L < 100000" "led_tick L = (rd1, gr1, L1)"
  shows "led_loop L rd gr tick = (rd1, gr1, True, L1)"
proof -
  have "led_LEDtmr50ms L1 = led_LEDtmr50ms L - 50000" using led_tick_timer [of L] assms(3) by simp
  then have "led_LEDtmr50ms L1 < 50000" using assms(1,2) by (simp add: word_nat unat_sub)
  then show ?thesis using assms(1,3) by (simp add: led_loop.simps [of L] led_loop_none)
qed

lemma led_shows_timer [simp]: "led_shows n (L\<lparr>led_LEDtmr50ms := t\<rparr>) = led_shows n L"
  by (simp add: led_shows_def led_timers_def)

lemma led_canopen_mask: "(if P then ref_red n OR 0x80 else ref_red n) AND 0x7F = ref_red n"
  "(if P then ref_green n OR 0x80 else ref_green n) AND 0x7F = ref_green n"
  by (simp_all add: ref_red_def ref_green_def Let_def led_bits_canopen)

definition led_canopen :: "led_input \<Rightarrow> CO_LEDs_t \<Rightarrow> nat \<Rightarrow> bool" where
  \<comment> \<open>the CANopen bits fit the other bits of the same tick\<close>
  "led_canopen i L n \<longleftrightarrow> (CO_LED_RED L CO_LED_CANopen \<longleftrightarrow> led_red_co i (ref_red n) \<noteq> 0) \<and>
     (CO_LED_GREEN L CO_LED_CANopen \<longleftrightarrow> led_green_co i (ref_green n) \<noteq> 0)"

lemma led_bits_canopen_bit: "led_bits fl bl f1 f2 f3 f4 AND 0x80 = 0" "(led_bits fl bl f1 f2 f3 f4 OR 0x80) AND 0x80 = 0x80"
  by (cases fl; cases bl; cases f1; cases f2; cases f3; cases f4; simp add: led_bits_def)+

lemma ref_canopen_bit: "ref_red n AND 0x80 = 0" "(ref_red n OR 0x80) AND 0x80 = 0x80"
  "ref_green n AND 0x80 = 0" "(ref_green n OR 0x80) AND 0x80 = 0x80"
  by (simp_all only: ref_red_def ref_green_def Let_def led_bits_canopen_bit)

lemma CO_LEDs_process_step:
  assumes "led_shows n L" "unat (led_LEDtmr50ms L) < 50000" "unat dt \<le> 50000"
    and "CO_LEDs_process L dt i tn = (L', tn')"
  shows "let T = unat (led_LEDtmr50ms L) + unat dt; n' = n + T div 50000
    in led_shows n' L' \<and> unat (led_LEDtmr50ms L') = T mod 50000 \<and> (n' \<noteq> n \<longrightarrow> led_canopen i L' n')"
proof -
  define T where "T = unat (led_LEDtmr50ms L) + unat dt"
  define L0 where "L0 = L\<lparr>led_LEDtmr50ms := led_LEDtmr50ms L + dt\<rparr>"
  have T: "T < 100000" "unat (led_LEDtmr50ms L0) = T"
    using assms(2,3) by (simp_all add: T_def L0_def unat_word_ariths)
  have s0: "led_shows n L0" using assms(1) by (simp add: L0_def)
  show ?thesis
  proof (cases "T < 50000")
    case True
    then have "L' = L0" using assms(4) T led_loop_none [of L0 0 0 False]
      by (simp add: CO_LEDs_process_def L0_def [symmetric] word_less_nat_alt Let_def)
    then show ?thesis using True s0 T by (simp add: Let_def flip: T_def)
  next
    case False
    obtain L1 where L1: "led_tick L0 = (ref_red (Suc n), ref_green (Suc n), L1)" "led_timers (Suc n) L1"
      using led_tick_shows [OF s0] by blast
    have "led_loop L0 0 0 False = (ref_red (Suc n), ref_green (Suc n), True, L1)"
      using False T by (intro led_loop_one L1(1)) (simp_all add: word_nat)
    then have L': "L' = L1\<lparr>led_LEDred := (if led_red_co i (ref_red (Suc n)) \<noteq> 0 then ref_red (Suc n) OR 0x80 else ref_red (Suc n)),
         led_LEDgreen := (if led_green_co i (ref_green (Suc n)) \<noteq> 0 then ref_green (Suc n) OR 0x80 else ref_green (Suc n))\<rparr>"
      using assms(4) by (simp add: CO_LEDs_process_def L0_def [symmetric] Let_def)
    have "led_shows (Suc n) L'" using L1(2) by (simp add: L' led_shows_def led_timers_def led_canopen_mask del: of_nat_Suc)
    moreover have "unat (led_LEDtmr50ms L') = T - 50000"
      using led_tick_timer [of L0] L1(1) False T by (simp add: L' unat_sub word_le_nat_alt)
    moreover have "T div 50000 = 1" "T mod 50000 = T - 50000" using False T(1) by (simp_all add: div_if mod_if)
    moreover have "led_canopen i L' (Suc n)"
      by (simp add: led_canopen_def CO_LED_RED_def CO_LED_GREEN_def L' ref_canopen_bit)
    ultimately show ?thesis by (simp add: Let_def flip: T_def)
  qed
qed

fun led_run :: "(u32 \<times> led_input) list \<Rightarrow> CO_LEDs_t \<Rightarrow> CO_LEDs_t" where
  "led_run [] L = L"
| "led_run ((dt, i) # cs) L = led_run cs (fst (CO_LEDs_process L dt i None))"

text \<open>
  The CANopen bits are computed in the calls that complete a tick, from the inputs of that call: the
  reference is the indicator of highest priority at that tick.
\<close>

definition ref_red_canopen :: "led_input \<Rightarrow> nat \<Rightarrow> bool" where
  "ref_red_canopen i n =
     (if in_ErrCANbusOff i then True
      else if in_NMTstate i = CO_NMT_INITIALIZING then odd n
      else if in_ErrRpdo i then flash_red 4 (n div 4)
      else if in_ErrSync i then flash_red 3 (n div 4)
      else if in_ErrHbCons i then flash_red 2 (n div 4)
      else if in_ErrCANbusWarn i then flash_red 1 (n div 4)
      else in_ErrOther i \<and> odd (n div 4))"

definition ref_green_canopen :: "led_input \<Rightarrow> nat \<Rightarrow> bool" where
  "ref_green_canopen i n =
     (if in_LSSconfig i then even n \<and> 0 < n
      else if in_firmwareDownload i then flash_green 3 (n div 4)
      else if in_NMTstate i = CO_NMT_STOPPED then flash_green 1 (n div 4)
      else if in_NMTstate i = CO_NMT_PRE_OPERATIONAL then even (n div 4) \<and> 0 < n div 4
      else in_NMTstate i = CO_NMT_OPERATIONAL)"

fun tick_input :: "nat \<Rightarrow> (u32 \<times> led_input) list \<Rightarrow> led_input option \<Rightarrow> led_input option" where
  \<comment> \<open>the inputs of the last call that completed a tick, the first argument is the time before the calls\<close>
  "tick_input t [] j = j"
| "tick_input t ((dt, i) # cs) j =
     tick_input (t + unat dt) cs (if (t + unat dt) div 50000 = t div 50000 then j else Some i)"

definition canopen_bit :: "(led_input \<Rightarrow> nat \<Rightarrow> bool) \<Rightarrow> led_input option \<Rightarrow> nat \<Rightarrow> u8" where
  "canopen_bit f j n = (case j of None \<Rightarrow> 0 | Some i \<Rightarrow> if f i n then 0x80 else 0)"

definition led_exact :: "nat \<Rightarrow> led_input option \<Rightarrow> CO_LEDs_t \<Rightarrow> bool" where
  "led_exact n j L \<longleftrightarrow> led_timers n L \<and> led_LEDred L = ref_red n OR canopen_bit ref_red_canopen j n \<and>
     led_LEDgreen L = ref_green n OR canopen_bit ref_green_canopen j n"

lemma led_bits_flash:
  "led_bits fl bl f1 f2 f3 f4 AND 4 = 0 \<longleftrightarrow> \<not> f1" "led_bits fl bl f1 f2 f3 f4 AND 8 = 0 \<longleftrightarrow> \<not> f2"
  "led_bits fl bl f1 f2 f3 f4 AND 16 = 0 \<longleftrightarrow> \<not> f3" "led_bits fl bl f1 f2 f3 f4 AND 32 = 0 \<longleftrightarrow> \<not> f4"
  by (cases fl; cases bl; cases f1; cases f2; cases f3; cases f4; simp add: led_bits_def)+

lemma led_co_reference:
  "led_red_co i (ref_red n) \<noteq> 0 \<longleftrightarrow> ref_red_canopen i n"
  "led_green_co i (ref_green n) \<noteq> 0 \<longleftrightarrow> ref_green_canopen i n"
  by (simp_all add: led_red_co_def led_green_co_def ref_red_canopen_def ref_green_canopen_def ref_red_def ref_green_def
      Let_def led_bits_flicker led_bits_blink led_bits_flash)

lemma led_exact_shows: "led_exact n j L \<Longrightarrow> led_shows n L"
  by (auto simp: led_exact_def led_shows_def canopen_bit_def ref_red_def ref_green_def Let_def led_bits_canopen
      split: option.split)

lemma CO_LEDs_process_exact:
  assumes "led_exact n j L" "unat (led_LEDtmr50ms L) < 50000" "unat dt \<le> 50000"
    and "CO_LEDs_process L dt i tn = (L', tn')"
  shows "let T = unat (led_LEDtmr50ms L) + unat dt; n' = n + T div 50000
    in led_exact n' (if n' = n then j else Some i) L' \<and> unat (led_LEDtmr50ms L') = T mod 50000"
proof -
  define T where "T = unat (led_LEDtmr50ms L) + unat dt"
  define n' where "n' = n + T div 50000"
  have step: "led_shows n' L'" "unat (led_LEDtmr50ms L') = T mod 50000" "n' \<noteq> n \<Longrightarrow> led_canopen i L' n'"
    using CO_LEDs_process_step [OF led_exact_shows [OF assms(1)] assms(2-4)] by (simp_all add: Let_def T_def n'_def)
  have split: "x = (x AND 0x7F) OR (if x AND 0x80 \<noteq> 0 then 0x80 else 0)" for x :: u8
  proof -
    have "(0xFF :: u8) = - 1" by simp
    then have "x AND 0xFF = x" by (simp only: and.right_neutral)
    then have "x = (x AND 0x7F) OR (x AND 0x80)" by (simp flip: bit.conj_disj_distrib)
    moreover have "x AND 2 ^ 7 = (if bit x 7 then 2 ^ 7 else 0)"
      by (rule bit_eqI) (auto simp: bit_simps simp del: power_numeral)
    ultimately show ?thesis by auto
  qed
  show ?thesis
  proof (cases "n' = n")
    case True
    then have less: "T < 50000" by (simp add: n'_def)
    have T: "unat (led_LEDtmr50ms L + dt) = T" using less by (simp add: T_def unat_word_ariths)
    then have "L' = L\<lparr>led_LEDtmr50ms := led_LEDtmr50ms L + dt\<rparr>"
      using assms(4) less led_loop_none [of "L\<lparr>led_LEDtmr50ms := led_LEDtmr50ms L + dt\<rparr>" 0 0 False]
      by (simp add: CO_LEDs_process_def word_less_nat_alt Let_def)
    then have "led_exact n j L'" using assms(1) by (simp add: led_exact_def led_timers_def)
    then show ?thesis using True step(2) by (simp add: Let_def n'_def flip: T_def)
  next
    case False
    then have "led_exact n' (Some i) L'"
      using step(1,3) split [of "led_LEDred L'"] split [of "led_LEDgreen L'"]
      by (simp add: led_exact_def led_shows_def led_canopen_def led_co_reference canopen_bit_def CO_LED_RED_def CO_LED_GREEN_def)
    then show ?thesis using False step(2) by (simp add: Let_def n'_def flip: T_def)
  qed
qed

lemma led_run_exact:
  assumes "led_exact (t div 50000) j L" "unat (led_LEDtmr50ms L) = t mod 50000" "\<forall>c \<in> set cs. unat (fst c) \<le> 50000"
  shows "let T = t + sum_list (map (\<lambda>c. unat (fst c)) cs)
    in led_exact (T div 50000) (tick_input t cs j) (led_run cs L) \<and> unat (led_LEDtmr50ms (led_run cs L)) = T mod 50000"
  using assms
proof (induction cs arbitrary: t j L)
  case Nil
  then show ?case by simp
next
  case (Cons c cs)
  obtain dt i where c: "c = (dt, i)" by fastforce
  obtain L1 tn where p: "CO_LEDs_process L dt i None = (L1, tn)" by fastforce
  have less: "unat (led_LEDtmr50ms L) < 50000" using Cons.prems(2) by simp
  have "t div 50000 + (t mod 50000 + unat dt) div 50000 = (t + unat dt) div 50000"
    using div_mult_self4 [of 50000 "t div 50000" "t mod 50000 + unat dt"] by (simp flip: add.assoc)
  moreover have "(t mod 50000 + unat dt) mod 50000 = (t + unat dt) mod 50000" by (simp add: mod_add_left_eq)
  moreover from calculation(1)
  have "(t mod 50000 + unat dt) div 50000 = 0 \<longleftrightarrow> (t + unat dt) div 50000 = t div 50000" by linarith
  ultimately have "led_exact ((t + unat dt) div 50000) (if (t + unat dt) div 50000 = t div 50000 then j else Some i) L1"
    "unat (led_LEDtmr50ms L1) = (t + unat dt) mod 50000"
    using CO_LEDs_process_exact [OF Cons.prems(1) less _ p] Cons.prems(2,3) by (simp_all only: Let_def c) (simp_all split: if_splits)
  from Cons.IH [OF this] Cons.prems(3) p show ?case by (simp add: Let_def c add.assoc)
qed

text \<open>
  C33: with processing calls at most 50 ms apart the LEDs follow the CiA 303-3 pattern: after any sequence of
  calls from initialisation on, the flicker, blink and flash bits of both LEDs are the reference pattern at
  the number of complete 50 ms periods that have elapsed in total, the CANopen bits are those of the state of
  highest priority in the inputs of the last call that completed such a period (off before the first one),
  and the rest of the time is kept. A call that spans more than 50 ms loses ticks
  (\<^verbatim>\<open>CO_LEDs_process_loses_ticks\<close> below).
\<close>

theorem led_pattern_follows_time:
  assumes "\<forall>c \<in> set cs. unat (fst c) \<le> 50000" "CO_LEDs_init (Some L0) = (CO_ERROR_NO, Some L)"
  shows "let T = sum_list (map (\<lambda>c. unat (fst c)) cs); n = T div 50000; L' = led_run cs L; j = tick_input 0 cs None
    in led_LEDred L' = ref_red n OR canopen_bit ref_red_canopen j n \<and>
       led_LEDgreen L' = ref_green n OR canopen_bit ref_green_canopen j n \<and>
       unat (led_LEDtmr50ms L') = T mod 50000"
proof -
  have L: "L = led_zero" using assms(2) by (simp add: CO_LEDs_init_def)
  have "led_exact 0 None led_zero"
    by (simp add: led_exact_def canopen_bit_def led_timers_def led_zero_def ref_red_def ref_green_def flash_red_def
        flash_green_def led_bits_def)
  moreover have "unat (led_LEDtmr50ms led_zero) = 0" by (simp add: led_zero_def)
  ultimately show ?thesis using led_run_exact [of 0 None led_zero cs] assms(1) by (simp add: L Let_def led_exact_def)
qed

definition example_led_input :: led_input where
  "example_led_input = \<lparr>in_NMTstate = CO_NMT_OPERATIONAL, in_LSSconfig = False, in_ErrCANbusOff = False, in_ErrCANbusWarn = False,
     in_ErrRpdo = False, in_ErrSync = True, in_ErrHbCons = False, in_ErrOther = False, in_firmwareDownload = False\<rparr>"

theorem led_pattern_follows_time_witness:
  "led_LEDgreen (led_run [(50000, example_led_input), (30000, example_led_input), (30000, example_led_input)] led_zero) = 0x81"
  using led_pattern_follows_time [of "[(50000, example_led_input), (30000, example_led_input), (30000, example_led_input)]" led_zero led_zero]
  by (simp add: CO_LEDs_init_def Let_def canopen_bit_def ref_green_canopen_def ref_green_def flash_green_def led_bits_def example_led_input_def)

text \<open>
  At every tick the CANopen LEDs show the state with the highest priority: red is on for bus off, else it
  flickers while initialising and flashes four times for a late RPDO, three times for a missing SYNC, twice
  for a heartbeat error, once for the bus warning, or blinks for another error; green is on exactly in the
  operational state unless LSS configuration or a download has priority.
\<close>

theorem CO_LEDs_process_priorities:
  assumes "led_shows n L" "unat (led_LEDtmr50ms L) < 50000" "unat dt \<le> 50000" "50000 \<le> unat (led_LEDtmr50ms L) + unat dt"
    and "CO_LEDs_process L dt i tn = (L', tn')"
  shows "(CO_LED_RED L' CO_LED_CANopen \<longleftrightarrow>
      (if in_ErrCANbusOff i then True
       else if in_NMTstate i = CO_NMT_INITIALIZING then CO_LED_RED L' CO_LED_flicker
       else if in_ErrRpdo i then CO_LED_RED L' CO_LED_flash_4
       else if in_ErrSync i then CO_LED_RED L' CO_LED_flash_3
       else if in_ErrHbCons i then CO_LED_RED L' CO_LED_flash_2
       else if in_ErrCANbusWarn i then CO_LED_RED L' CO_LED_flash_1
       else in_ErrOther i \<and> CO_LED_RED L' CO_LED_blink)) \<and>
    (CO_LED_GREEN L' CO_LED_CANopen \<longleftrightarrow>
      (if in_LSSconfig i then CO_LED_GREEN L' CO_LED_flicker
       else if in_firmwareDownload i then CO_LED_GREEN L' CO_LED_flash_3
       else if in_NMTstate i = CO_NMT_STOPPED then CO_LED_GREEN L' CO_LED_flash_1
       else if in_NMTstate i = CO_NMT_PRE_OPERATIONAL then CO_LED_GREEN L' CO_LED_blink
       else in_NMTstate i = CO_NMT_OPERATIONAL))"
proof -
  define n' where "n' = n + (unat (led_LEDtmr50ms L) + unat dt) div 50000"
  have "1 \<le> (unat (led_LEDtmr50ms L) + unat dt) div 50000" using assms(4) by (simp add: div_greater_zero_iff Suc_le_eq)
  then have s: "led_shows n' L'" "led_canopen i L' n'"
    using CO_LEDs_process_step [OF assms(1-3,5)] by (simp_all add: Let_def n'_def)
  have sub: "x AND m = (x AND 0x7F) AND m" if "0x7F AND m = m" for x m :: u8 using that by (simp add: and.assoc)
  have "CO_LED_RED L' m \<longleftrightarrow> ref_red n' AND m \<noteq> 0" "CO_LED_GREEN L' m \<longleftrightarrow> ref_green n' AND m \<noteq> 0" if "0x7F AND m = m" for m
    using sub [OF that, of "led_LEDred L'"] sub [OF that, of "led_LEDgreen L'"] s(1)
    by (simp_all add: CO_LED_RED_def CO_LED_GREEN_def led_shows_def)
  then show ?thesis using s(2) by (simp add: led_canopen_def led_red_co_def led_green_co_def)
qed

theorem CO_LEDs_process_priorities_witness:
  "CO_LED_GREEN (fst (CO_LEDs_process led_zero 50000 example_led_input None)) CO_LED_CANopen"
proof -
  have s: "led_shows 0 led_zero"
    by (simp add: led_shows_def led_timers_def led_zero_def ref_red_def ref_green_def flash_red_def flash_green_def led_bits_def)
  have t: "unat (led_LEDtmr50ms led_zero) = 0" by (simp add: led_zero_def)
  obtain L' tn' where p: "CO_LEDs_process led_zero 50000 example_led_input None = (L', tn')" by fastforce
  show ?thesis using CO_LEDs_process_priorities [OF s _ _ _ p] t p by (simp add: example_led_input_def)
qed

text \<open>
  A call that covers two ticks is not two calls: every iteration of the loop starts from the colours that
  were stored before the call, so the flicker bit changes once instead of twice, and blink and flash bits
  computed in one iteration are dropped by the next.
\<close>

lemma CO_LEDs_process_loses_ticks:
  "led_LEDred (fst (CO_LEDs_process led_zero 100000 example_led_input None)) = 1"
  "led_LEDred (led_run [(50000, example_led_input), (50000, example_led_input)] led_zero) = 0"
  by (simp_all add: CO_LEDs_process_def led_loop.simps led_tick_def led_zero_def Let_def led_red_co_def led_green_co_def
      example_led_input_def)

end
