(* ===== verification/Gfc.thy ===== *)
theory Gfc
  imports NMT_Heartbeat
begin

section \<open>Global fail-safe command (\<^verbatim>\<open>304/CO_GFC.c\<close>)\<close>

text \<open>
  The global fail-safe command: an empty message that puts the nodes into the safe state. The flag
  \<^verbatim>\<open>*GFC->valid\<close> of object 0x1300 is an argument of the handlers that read it; \<^verbatim>\<open>gfc_safe\<close> counts the calls of
  \<^verbatim>\<open>pFunctSignalSafe\<close>.
\<close>

record CO_GFC_t =
  gfc_CANtxBuff :: "nat option"
  gfc_pFunctSignalSafe :: bool
  gfc_safe :: nat

definition CO_GFC_receive :: "u8 \<Rightarrow> CO_GFC_t \<Rightarrow> CO_CANrxMsg_t \<Rightarrow> CO_GFC_t" where
  "CO_GFC_receive valid GFC msg =
     (if valid = 1 \<and> rxm_DLC msg = 0 \<and> gfc_pFunctSignalSafe GFC then GFC\<lparr>gfc_safe := gfc_safe GFC + 1\<rparr> else GFC)"

definition CO_GFC_initCallbackEnterSafeState :: "CO_GFC_t option \<Rightarrow> bool \<Rightarrow> CO_GFC_t option" where
  "CO_GFC_initCallbackEnterSafeState GFC pFunctSignalSafe = map_option (\<lambda>g. g\<lparr>gfc_pFunctSignalSafe := pFunctSignalSafe\<rparr>) GFC"

definition obj_gfc :: nat where "obj_gfc = 8"

text \<open>The tests for \<^verbatim>\<open>NULL\<close> of the objects passed by pointer have no counterpart.\<close>

definition CO_GFC_init :: "can_env \<Rightarrow> co_bus \<Rightarrow> u16 \<Rightarrow> u16 \<Rightarrow> u16 \<Rightarrow> u16 \<Rightarrow> CO_ReturnError_t \<times> CO_GFC_t \<times> co_bus" where
  "CO_GFC_init env bus GFC_rxIdx CANidRxGFC GFC_txIdx CANidTxGFC =
     (let (tx, bus1) = CO_CANtxBufferInit env bus GFC_txIdx CANidTxGFC False 0 False;
          GFC = \<lparr>gfc_CANtxBuff = tx, gfc_pFunctSignalSafe = False, gfc_safe = 0\<rparr>
      in if tx = None then (CO_ERROR_TX_UNCONFIGURED, GFC, bus1)
         else
           let (r, bus2) = CO_CANrxBufferInit env bus1 GFC_rxIdx CANidRxGFC 0x7FF False (Some obj_gfc) (Some CB_GFC_receive)
           in (r, GFC, bus2))"

definition CO_GFCsend :: "can_env \<Rightarrow> u8 \<Rightarrow> CO_GFC_t \<Rightarrow> co_bus \<Rightarrow> CO_ReturnError_t \<times> co_bus" where
  "CO_GFCsend env valid GFC bus = (if valid = 1 then CO_CANsend env bus (gfc_CANtxBuff GFC) else (CO_ERROR_NO, bus))"

text \<open>
  After a successful \<^verbatim>\<open>CO_GFC_init\<close> a sent command reaches the device as an empty frame with the configured
  identifier when object 0x1300 enables it and nothing is sent when it does not, and the receiver calls the
  registered function exactly once for an empty message and never for a message with data.
\<close>

theorem CO_GFC_correct:
  assumes "bus_dev_inv bus" "CO_GFC_init env bus rxIdx idRx txIdx idTx = (CO_ERROR_NO, GFC, bus1)"
    and "CO_GFCsend env valid GFC bus1 = (err, bus2)" "CO_GFC_initCallbackEnterSafeState (Some GFC) True = Some GFC'"
  shows "bus_dev_inv bus2 \<and>
    map fst (can_sent (bus_can bus2)) = map fst (can_sent (bus_can bus)) @
      (if valid = 1 then [(can_id env idTx False, 0, tx_data (bus_buf bus (unat txIdx)))] else []) \<and>
    gfc_safe (CO_GFC_receive valid GFC' msg) = (if valid = 1 \<and> rxm_DLC msg = 0 then 1 else 0)"
proof -
  have inv: "bus_inv bus" "can_dev (bus_can bus) \<noteq> None" using assms(1) by (simp_all add: bus_dev_inv_def)
  have idx: "txIdx < can_txSize (bus_can bus)"
    using assms(2) by (auto simp: CO_GFC_init_def CO_CANtxBufferInit_def Let_def not_le split: if_splits)
  obtain b1 where b1: "CO_CANtxBufferInit env bus txIdx idTx False 0 False = (Some (unat txIdx), b1)" "bus_inv b1"
    "can_dev (bus_can b1) \<noteq> None" "can_sent (bus_can b1) = can_sent (bus_can bus)"
    "tx_ident (bus_buf b1 (unat txIdx)) = can_id env idTx False" "tx_DLC (bus_buf b1 (unat txIdx)) = 0"
    "\<not> tx_bufferFull (bus_buf b1 (unat txIdx))" "tx_data (bus_buf b1 (unat txIdx)) = tx_data (bus_buf bus (unat txIdx))"
    using CO_CANtxBufferInit_ok [OF inv(1) idx, of env idTx False 0 False] inv(2) by auto
  obtain r b2 where rx: "CO_CANrxBufferInit env b1 rxIdx idRx 0x7FF False (Some obj_gfc) (Some CB_GFC_receive) = (r, b2)"
    by fastforce
  have init: "bus1 = b2" "GFC = \<lparr>gfc_CANtxBuff = Some (unat txIdx), gfc_pFunctSignalSafe = False, gfc_safe = 0\<rparr>"
    using assms(2) b1(1) rx by (simp_all add: CO_GFC_init_def Let_def)
  note k = CO_CANrxBufferInit_keeps [OF b1(2) rx]
  have buf: "bus_buf b2 (unat txIdx) = bus_buf b1 (unat txIdx)" using k by (simp add: bus_buf_def)
  have "bus_ready b2 (unat txIdx)" using k b1(3,7) buf by (simp add: bus_ready_def)
  note sent = CO_CANsend_ready [OF this, of env]
  have "bus_dev_inv bus2"
    using assms(3) k b1(3) CO_CANsend_keeps [of b2 env "Some (unat txIdx)" bus2] init
    by (auto simp: CO_GFCsend_def bus_dev_inv_def split: if_splits)
  moreover have "map fst (can_sent (bus_can bus2)) = map fst (can_sent (bus_can bus)) @
      (if valid = 1 then [(can_id env idTx False, 0, tx_data (bus_buf bus (unat txIdx)))] else [])"
    using assms(3) sent init k b1 buf by (auto simp: CO_GFCsend_def tx_frame_def split: if_splits)
  moreover have "GFC' = GFC\<lparr>gfc_pFunctSignalSafe := True\<rparr>" using assms(4) by (simp add: CO_GFC_initCallbackEnterSafeState_def)
  ultimately show ?thesis using init(2) by (simp add: CO_GFC_receive_def)
qed

theorem CO_GFC_correct_witness:
  "\<exists>GFC bus1. CO_GFC_init (example_env 0) example_bus 0 1 2 1 = (CO_ERROR_NO, GFC, bus1) \<and>
     map fst (can_sent (bus_can (snd (CO_GFCsend (example_env 0) 1 GFC bus1)))) = [(1, 0, [0,0,0,0,0,0,0,0])]"
proof -
  obtain ret GFC bus1 where i: "CO_GFC_init (example_env 0) example_bus 0 1 2 1 = (ret, GFC, bus1)" by (metis prod_cases3)
  have ret: "ret = CO_ERROR_NO"
    using i by (auto simp: CO_GFC_init_def CO_CANtxBufferInit_def CO_CANrxBufferInit_def can_ioctl_def example_bus_def example_env_def Let_def)
  obtain err bus2 where s: "CO_GFCsend (example_env 0) 1 GFC bus1 = (err, bus2)" by fastforce
  have "CO_GFC_initCallbackEnterSafeState (Some GFC) True = Some (GFC\<lparr>gfc_pFunctSignalSafe := True\<rparr>)"
    by (simp add: CO_GFC_initCallbackEnterSafeState_def)
  from CO_GFC_correct [OF example_bus_inv i [unfolded ret] s this] show ?thesis
    using i ret s by (simp add: example_bus_def bus_buf_def example_tx_def can_id_def example_env_def)
qed

end
