(* ===== verification/SDO_Server.thy ===== *)
theory SDO_Server
  imports Crc16 Emergency
begin

section \<open>The SDO server (\<^verbatim>\<open>301/CO_SDOserver.c\<close>)\<close>

text \<open>
  The service that lets other nodes read and write the Object Dictionary: \<^verbatim>\<open>CO_SDO_receive\<close> stores requests in a
  queue of two messages (and the segments of a block download directly in the buffer), \<^verbatim>\<open>CO_SDO_process\<close> runs the
  transfer state machine: expedited, segmented and block transfers in both directions, aborts and timeouts.

  State. \<^verbatim>\<open>CO_SDO_t\<close> has the fields of the structure; \<^verbatim>\<open>sdo_dict\<close> joins the three that \<^verbatim>\<open>OD_Access\<close> works on. The array
  \<^verbatim>\<open>databuffer\<close> is kept in two parts: \<^verbatim>\<open>arg_data\<close> of \<^verbatim>\<open>ODF_arg\<close> is the part from the pointer \<^verbatim>\<open>ODF_arg.data\<close> on,
  \<^verbatim>\<open>sdo_head\<close> the part before it (empty except while a domain object refills the buffer). The record \<^verbatim>\<open>od_world\<close> is
  what the server shares with the rest of the node: the variables of the dictionary as an array of bytes, the bus, and
  the objects of the registered functions. A call of a registered function is the parameter \<^verbatim>\<open>odf\<close>: functions of
  the stack and of the application are registered with \<^verbatim>\<open>CO_OD_configure\<close> and can be any.

  A result \<^verbatim>\<open>None\<close> is an access outside \<^verbatim>\<open>databuffer\<close>, outside the variables of the dictionary or through \<^verbatim>\<open>NULL\<close>.
\<close>

subsection \<open>State\<close>

datatype CO_SDO_state_t =
    CO_SDO_ST_IDLE | CO_SDO_ST_ABORT | CO_SDO_ST_DOWNLOAD_LOCAL_TRANSFER | CO_SDO_ST_DOWNLOAD_INITIATE_REQ
  | CO_SDO_ST_DOWNLOAD_INITIATE_RSP | CO_SDO_ST_DOWNLOAD_SEGMENT_REQ | CO_SDO_ST_DOWNLOAD_SEGMENT_RSP
  | CO_SDO_ST_UPLOAD_LOCAL_TRANSFER | CO_SDO_ST_UPLOAD_INITIATE_REQ | CO_SDO_ST_UPLOAD_INITIATE_RSP
  | CO_SDO_ST_UPLOAD_SEGMENT_REQ | CO_SDO_ST_UPLOAD_SEGMENT_RSP | CO_SDO_ST_DOWNLOAD_BLK_INITIATE_REQ
  | CO_SDO_ST_DOWNLOAD_BLK_INITIATE_RSP | CO_SDO_ST_DOWNLOAD_BLK_SUBBLOCK_REQ
  | CO_SDO_ST_DOWNLOAD_BLK_SUBBLOCK_RSP | CO_SDO_ST_DOWNLOAD_BLK_END_REQ | CO_SDO_ST_DOWNLOAD_BLK_END_RSP
  | CO_SDO_ST_UPLOAD_BLK_INITIATE_REQ | CO_SDO_ST_UPLOAD_BLK_INITIATE_RSP | CO_SDO_ST_UPLOAD_BLK_INITIATE_REQ2
  | CO_SDO_ST_UPLOAD_BLK_SUBBLOCK_SREQ | CO_SDO_ST_UPLOAD_BLK_SUBBLOCK_CRSP | CO_SDO_ST_UPLOAD_BLK_END_SREQ
  | CO_SDO_ST_UPLOAD_BLK_END_CRSP | CO_SDO_ST_DOWNLOAD_INITIATE | CO_SDO_ST_DOWNLOAD_SEGMENTED
  | CO_SDO_ST_DOWNLOAD_BL_INITIATE | CO_SDO_ST_DOWNLOAD_BL_SUBBLOCK | CO_SDO_ST_DOWNLOAD_BL_SUB_RESP
  | CO_SDO_ST_DOWNLOAD_BL_SUB_RESP_2 | CO_SDO_ST_DOWNLOAD_BL_END | CO_SDO_ST_UPLOAD_INITIATE
  | CO_SDO_ST_UPLOAD_SEGMENTED | CO_SDO_ST_UPLOAD_BL_INITIATE | CO_SDO_ST_UPLOAD_BL_INITIATE_2
  | CO_SDO_ST_UPLOAD_BL_SUBBLOCK | CO_SDO_ST_UPLOAD_BL_END

record CO_SDO_t =
  sdo_CANrxData :: "u8 list list"
  sdo_head :: "u8 list"
  sdo_ownOD :: bool
  sdo_dict :: CO_SDO_OD
  sdo_bufferOffset :: u16
  sdo_entryNo :: nat
  sdo_ODF_arg :: CO_ODF_arg_t
  sdo_nodeId :: u8
  sdo_state :: CO_SDO_state_t
  sdo_sequence :: u8
  sdo_SDOtimeoutTime_us :: u32
  sdo_timeoutTimer :: u32
  sdo_blksize :: u8
  sdo_crcEnabled :: bool
  sdo_crc :: u16
  sdo_lastLen :: u8
  sdo_timeoutSubblockDownolad :: bool
  sdo_endOfTransfer :: bool
  sdo_CANrxNew :: "bool list"
  sdo_CANrxRcv :: u8
  sdo_CANrxProc :: u8
  sdo_pFunctSignalPre :: bool
  sdo_signals :: nat
  sdo_CANtxBuff :: "nat option"

record 'w od_world =
  wd_mem :: "u8 list"
  wd_bus :: co_bus
  wd_app :: 'w

type_synonym 'w odf_call =
  "od_func \<Rightarrow> CO_ODF_arg_t \<Rightarrow> 'w od_world \<Rightarrow> (CO_SDO_abortCode_t \<times> CO_ODF_arg_t \<times> 'w od_world) option"

definition CO_SDO_RX_DATA_SIZE :: u8 where "CO_SDO_RX_DATA_SIZE = 2"

fun abort_code :: "CO_SDO_abortCode_t \<Rightarrow> u32" where
  "abort_code CO_SDO_AB_NONE = 0x00000000"
| "abort_code CO_SDO_AB_TOGGLE_BIT = 0x05030000"
| "abort_code CO_SDO_AB_TIMEOUT = 0x05040000"
| "abort_code CO_SDO_AB_CMD = 0x05040001"
| "abort_code CO_SDO_AB_BLOCK_SIZE = 0x05040002"
| "abort_code CO_SDO_AB_SEQ_NUM = 0x05040003"
| "abort_code CO_SDO_AB_CRC = 0x05040004"
| "abort_code CO_SDO_AB_OUT_OF_MEM = 0x05040005"
| "abort_code CO_SDO_AB_UNSUPPORTED_ACCESS = 0x06010000"
| "abort_code CO_SDO_AB_WRITEONLY = 0x06010001"
| "abort_code CO_SDO_AB_READONLY = 0x06010002"
| "abort_code CO_SDO_AB_NOT_EXIST = 0x06020000"
| "abort_code CO_SDO_AB_NO_MAP = 0x06040041"
| "abort_code CO_SDO_AB_MAP_LEN = 0x06040042"
| "abort_code CO_SDO_AB_PRAM_INCOMPAT = 0x06040043"
| "abort_code CO_SDO_AB_DEVICE_INCOMPAT = 0x06040047"
| "abort_code CO_SDO_AB_HW = 0x06060000"
| "abort_code CO_SDO_AB_TYPE_MISMATCH = 0x06070010"
| "abort_code CO_SDO_AB_DATA_LONG = 0x06070012"
| "abort_code CO_SDO_AB_DATA_SHORT = 0x06070013"
| "abort_code CO_SDO_AB_SUB_UNKNOWN = 0x06090011"
| "abort_code CO_SDO_AB_INVALID_VALUE = 0x06090030"
| "abort_code CO_SDO_AB_VALUE_HIGH = 0x06090031"
| "abort_code CO_SDO_AB_VALUE_LOW = 0x06090032"
| "abort_code CO_SDO_AB_MAX_LESS_MIN = 0x06090036"
| "abort_code CO_SDO_AB_NO_RESOURCE = 0x060A0023"
| "abort_code CO_SDO_AB_GENERAL = 0x08000000"
| "abort_code CO_SDO_AB_DATA_TRANSF = 0x08000020"
| "abort_code CO_SDO_AB_DATA_LOC_CTRL = 0x08000021"
| "abort_code CO_SDO_AB_DATA_DEV_STATE = 0x08000022"
| "abort_code CO_SDO_AB_DATA_OD = 0x08000023"
| "abort_code CO_SDO_AB_NO_DATA = 0x08000024"

definition sdo_upd_arg :: "(CO_ODF_arg_t \<Rightarrow> CO_ODF_arg_t) \<Rightarrow> CO_SDO_t \<Rightarrow> CO_SDO_t" where
  \<comment> \<open>an assignment to a field of \<^verbatim>\<open>SDO->ODF_arg\<close>\<close>
  "sdo_upd_arg f S = S\<lparr>sdo_ODF_arg := f (sdo_ODF_arg S)\<rparr>"

abbreviation sdo_data :: "CO_SDO_t \<Rightarrow> u8 list" where "sdo_data S \<equiv> arg_data (sdo_ODF_arg S)"
abbreviation sdo_dataLength :: "CO_SDO_t \<Rightarrow> u16" where "sdo_dataLength S \<equiv> arg_dataLength (sdo_ODF_arg S)"
abbreviation sdo_storage :: "CO_SDO_t \<Rightarrow> od_ptr" where "sdo_storage S \<equiv> arg_ODdataStorage (sdo_ODF_arg S)"

definition sdo_put_data :: "nat \<Rightarrow> u8 list \<Rightarrow> CO_SDO_t \<Rightarrow> CO_SDO_t option" where
  \<comment> \<open>\<^verbatim>\<open>SDO->ODF_arg.data[k + i] = bs[i]\<close>\<close>
  "sdo_put_data k bs S =
     (if k + length bs \<le> length (sdo_data S) then Some (sdo_upd_arg (\<lambda>a. a\<lparr>arg_data := memcpy_at (arg_data a) k bs\<rparr>) S) else None)"

definition sdo_append :: "u8 list \<Rightarrow> CO_SDO_t \<Rightarrow> CO_SDO_t option" where
  \<comment> \<open>\<^verbatim>\<open>SDO->ODF_arg.data[SDO->bufferOffset++] = bs[i]\<close>\<close>
  "sdo_append bs S =
     map_option (\<lambda>S1. S1\<lparr>sdo_bufferOffset := sdo_bufferOffset S + word_of_nat (length bs)\<rparr>)
       (sdo_put_data (unat (sdo_bufferOffset S)) bs S)"

definition sdo_get_data :: "nat \<Rightarrow> nat \<Rightarrow> CO_SDO_t \<Rightarrow> u8 list option" where
  \<comment> \<open>\<^verbatim>\<open>SDO->ODF_arg.data[k + i]\<close> for \<^verbatim>\<open>i < n\<close>\<close>
  "sdo_get_data k n S = (if k + n \<le> length (sdo_data S) then Some (take n (drop k (sdo_data S))) else None)"

subsection \<open>Reception\<close>

definition CO_SDO_receive_done :: "CO_SDO_t \<Rightarrow> CO_SDO_t" where
  "CO_SDO_receive_done S =
     (let rcv = sdo_CANrxRcv S
      in S\<lparr>sdo_CANrxRcv := (if CO_SDO_RX_DATA_SIZE \<le> rcv + 1 then 0 else rcv + 1),
           sdo_CANrxNew := (sdo_CANrxNew S)[unat rcv := True]\<rparr>)"

definition sdo_receive_segment :: "u8 list \<Rightarrow> CO_SDO_t \<Rightarrow> CO_SDO_t option" where
  \<comment> \<open>the branch \<^verbatim>\<open>block download, copy data directly\<close> of \<^verbatim>\<open>CO_SDO_receive\<close>\<close>
  "sdo_receive_segment data S =
     (let rcv = unat (sdo_CANrxRcv S);
          seqno = data ! 0 AND 0x7F;
          S1 = S\<lparr>sdo_CANrxData := (sdo_CANrxData S)[rcv := (sdo_CANrxData S ! rcv)[0 := data ! 0]],
                 sdo_timeoutTimer := 0, sdo_timeoutSubblockDownolad := False\<rparr>
      in if unat seqno = unat (sdo_sequence S) + 1 then
           (if unat (sdo_bufferOffset S) + 7 \<le> unat CO_CONFIG_SDO_BUFFER_SIZE then do {
              S2 \<leftarrow> sdo_append (take 7 (drop 1 data)) (S1\<lparr>sdo_sequence := sdo_sequence S + 1\<rparr>);
              Some (if data ! 0 AND 0x80 = 0x80 \<or> sdo_blksize S2 \<le> sdo_sequence S2
                    then CO_SDO_receive_done (S2\<lparr>sdo_state := CO_SDO_ST_DOWNLOAD_BL_SUB_RESP\<rparr>)
                    else S2)
            }
            else Some (CO_SDO_receive_done (S1\<lparr>sdo_state := CO_SDO_ST_DOWNLOAD_BL_SUB_RESP_2\<rparr>)))
         else if seqno = sdo_sequence S \<or> sdo_sequence S = 0 then Some S1
         else Some (CO_SDO_receive_done (S1\<lparr>sdo_state := CO_SDO_ST_DOWNLOAD_BL_SUB_RESP_2\<rparr>)))"

definition CO_SDO_receive :: "CO_SDO_t \<Rightarrow> CO_CANrxMsg_t \<Rightarrow> CO_SDO_t option" where
  "CO_SDO_receive S msg =
     (let rcv = unat (sdo_CANrxRcv S); data = rxm_data msg
      in if rxm_DLC msg = 8 \<and> \<not> sdo_CANrxNew S ! rcv then do {
           S1 \<leftarrow> (if sdo_state S \<noteq> CO_SDO_ST_DOWNLOAD_BL_SUBBLOCK
                    then Some (CO_SDO_receive_done (S\<lparr>sdo_CANrxData := (sdo_CANrxData S)[rcv := take 8 data]\<rparr>))
                    else sdo_receive_segment data S);
           Some (if sdo_CANrxNew S1 ! rcv \<and> sdo_pFunctSignalPre S1 then S1\<lparr>sdo_signals := sdo_signals S1 + 1\<rparr> else S1)
         }
         else Some S)"

definition CO_ODF_1200 :: "u8 \<Rightarrow> CO_ODF_arg_t \<Rightarrow> CO_SDO_abortCode_t \<times> CO_ODF_arg_t" where
  "CO_ODF_1200 nodeId arg =
     (let value = CO_getUint32 (arg_data arg)
      in (CO_SDO_AB_NONE,
          if arg_reading arg \<and> 0 < arg_subIndex arg
          then arg\<lparr>arg_data := CO_setUint32 (arg_data arg) (value + ucast nodeId)\<rparr> else arg))"

subsection \<open>Initialisation\<close>

definition obj_sdo :: nat where "obj_sdo = 30"
definition obj_sdo_nodeId :: nat where "obj_sdo_nodeId = 31"

text \<open>
  The fields \<^verbatim>\<open>CO_SDO_init\<close> does not assign keep their values. A server with a parent uses the parent's dictionary.
\<close>

definition clear_exts :: "nat \<Rightarrow> CO_OD_extension_t list \<Rightarrow> CO_OD_extension_t list" where
  \<comment> \<open>\<^verbatim>\<open>/* clear pointers in ODExtensions */\<close>\<close>
  "clear_exts n exts = map_first n (\<lambda>_. \<lparr>ext_pODFunc = None, ext_object = None, ext_flags = None\<rparr>) exts"

definition CO_SDO_init ::
    "can_env \<Rightarrow> CO_SDO_t option \<Rightarrow> co_bus \<Rightarrow> u32 \<Rightarrow> u32 \<Rightarrow> u16 \<Rightarrow> CO_SDO_OD option \<Rightarrow> CO_OD_entry_t list \<Rightarrow> u16 \<Rightarrow>
     CO_OD_extension_t list \<Rightarrow> u8 \<Rightarrow> u16 \<Rightarrow> u16 \<Rightarrow> u16 \<Rightarrow> (CO_ReturnError_t \<times> CO_SDO_t option \<times> co_bus) option" where
  "CO_SDO_init env SDO bus COB_IDClientToServer COB_IDServerToClient ObjDictIndex_SDOServerParameter parentOD OD ODSize
     ODExtensions nodeId SDOtimeoutTime_ms CANdevRxIdx CANdevTxIdx =
     (case SDO of
        None \<Rightarrow> Some (CO_ERROR_ILLEGAL_ARGUMENT, None, bus)
      | Some S \<Rightarrow> do {
          dict \<leftarrow> (case parentOD of
                       None \<Rightarrow> if unat ODSize \<le> length ODExtensions
                               then Some \<lparr>sdo_OD = OD, sdo_ODSize = ODSize, sdo_ODExtensions = clear_exts (unat ODSize) ODExtensions\<rparr>
                               else None
                     | Some d \<Rightarrow> Some d);
          let S1 = S\<lparr>sdo_ownOD := (parentOD = None), sdo_nodeId := nodeId,
                     sdo_SDOtimeoutTime_us := ucast SDOtimeoutTime_ms * 1000, sdo_state := CO_SDO_ST_IDLE,
                     sdo_CANrxNew := replicate (unat CO_SDO_RX_DATA_SIZE) False, sdo_CANrxRcv := 0, sdo_CANrxProc := 0,
                     sdo_pFunctSignalPre := False\<rparr>;
          dict1 \<leftarrow> (if ObjDictIndex_SDOServerParameter = 0x1200
                      then CO_OD_configure dict 0x1200 (Some ODF_1200) (Some obj_sdo_nodeId) None 0 else Some dict);
          let invalid = (COB_IDClientToServer AND 0x80000000 \<noteq> 0 \<or> COB_IDServerToClient AND 0x80000000 \<noteq> 0);
          let (ret, bus1) = CO_CANrxBufferInit env bus CANdevRxIdx (if invalid then 0 else ucast COB_IDClientToServer)
                              0x7FF False (Some obj_sdo) (Some CB_SDO_receive);
          let (tx, bus2) = CO_CANtxBufferInit env bus1 CANdevTxIdx (if invalid then 0 else ucast COB_IDServerToClient)
                              False 8 False;
          Some (if tx = None then CO_ERROR_ILLEGAL_ARGUMENT else ret, Some (S1\<lparr>sdo_dict := dict1, sdo_CANtxBuff := tx\<rparr>), bus2)
        })"

definition CO_SDO_initCallbackPre :: "CO_SDO_t option \<Rightarrow> bool \<Rightarrow> CO_SDO_t option" where
  "CO_SDO_initCallbackPre SDO pFunctSignalPre = map_option (\<lambda>S. S\<lparr>sdo_pFunctSignalPre := pFunctSignalPre\<rparr>) SDO"

subsection \<open>Access to the dictionary\<close>

definition CO_SDO_initTransfer :: "CO_SDO_t \<Rightarrow> u16 \<Rightarrow> u8 \<Rightarrow> (CO_SDO_abortCode_t \<times> CO_SDO_t) option" where
  "CO_SDO_initTransfer S index subIndex =
     (let entryNo = CO_OD_find (sdo_dict S) index;
          S1 = (sdo_upd_arg (\<lambda>a. a\<lparr>arg_index := index, arg_subIndex := subIndex\<rparr>) S)\<lparr>sdo_entryNo := entryNo\<rparr>
      in if entryNo = 0xFFFF then Some (CO_SDO_AB_NOT_EXIST, S1)
         else do {
           e \<leftarrow> nth_opt (sdo_OD (sdo_dict S)) entryNo;
           if od_maxSubIndex e < subIndex \<and> od_pData e \<noteq> PNull then Some (CO_SDO_AB_SUB_UNKNOWN, S1)
           else do {
             storage \<leftarrow> CO_OD_getDataPointer (sdo_dict S) entryNo subIndex;
             object \<leftarrow> (if sdo_ODExtensions (sdo_dict S) = [] then Some None
                          else map_option ext_object (nth_opt (sdo_ODExtensions (sdo_dict S)) entryNo));
             len \<leftarrow> CO_OD_getLength (sdo_dict S) entryNo subIndex;
             attr \<leftarrow> CO_OD_getAttribute (sdo_dict S) entryNo subIndex;
             let S2 = (sdo_upd_arg (\<lambda>a. a\<lparr>arg_ODdataStorage := storage, arg_object := object,
                         arg_data := sdo_head S @ arg_data a, arg_dataLength := len, arg_attribute := attr,
                         arg_pFlags := CO_OD_getFlagsPointer (sdo_dict S) entryNo subIndex,
                         arg_firstSegment := True, arg_lastSegment := True,
                         arg_dataLengthTotal := (if storage \<noteq> ONull then ucast len else 0), arg_offset := 0\<rparr>) S1)
                       \<lparr>sdo_head := []\<rparr>;
             Some (if CO_CONFIG_SDO_BUFFER_SIZE < len then CO_SDO_AB_DEVICE_INCOMPAT else CO_SDO_AB_NONE, S2)
           }
         })"

definition mem_read :: "CO_SDO_OD \<Rightarrow> u8 list \<Rightarrow> od_ptr \<Rightarrow> nat \<Rightarrow> u8 list option" where
  \<comment> \<open>\<^verbatim>\<open>n\<close> bytes from a data pointer\<close>
  "mem_read dict mem ptr n =
     (case ptr of
        OAddr a \<Rightarrow> if a + n \<le> length mem then Some (take n (drop a mem)) else None
      | OMaxSubIndex k \<Rightarrow> if n \<le> 1 then Some (take n [od_maxSubIndex (sdo_OD dict ! k)]) else None
      | _ \<Rightarrow> None)"

definition mem_write :: "u8 list \<Rightarrow> od_ptr \<Rightarrow> u8 list \<Rightarrow> u8 list option" where
  \<comment> \<open>the table of entries is constant: only variables can be written\<close>
  "mem_write mem ptr bs =
     (case ptr of
        OAddr a \<Rightarrow> if a + length bs \<le> length mem then Some (memcpy_at mem a bs) else None
      | _ \<Rightarrow> None)"

definition sdo_func :: "CO_SDO_t \<Rightarrow> od_func option option" where
  \<comment> \<open>\<^verbatim>\<open>SDO->ODExtensions[SDO->entryNo].pODFunc\<close>; the outer \<^verbatim>\<open>None\<close> when \<^verbatim>\<open>ODExtensions\<close> is \<^verbatim>\<open>NULL\<close>\<close>
  "sdo_func S =
     (if sdo_ODExtensions (sdo_dict S) = [] then None
      else Some (ext_pODFunc (sdo_ODExtensions (sdo_dict S) ! sdo_entryNo S)))"

definition sdo_advance :: "CO_SDO_t \<Rightarrow> CO_SDO_t" where
  "sdo_advance S = sdo_upd_arg (\<lambda>a. a\<lparr>arg_offset := arg_offset a + ucast (arg_dataLength a), arg_firstSegment := False\<rparr>) S"

definition CO_SDO_readOD ::
    "'w odf_call \<Rightarrow> CO_SDO_t \<Rightarrow> 'w od_world \<Rightarrow> u16 \<Rightarrow> (CO_SDO_abortCode_t \<times> CO_SDO_t \<times> 'w od_world) option" where
  "CO_SDO_readOD odf S W SDOBufferSize =
     (if arg_attribute (sdo_ODF_arg S) AND CO_ODA_READABLE = 0 then Some (CO_SDO_AB_WRITEONLY, S, W)
      else if sdo_storage S = ONull \<and> sdo_func S = Some None then Some (CO_SDO_AB_DEVICE_INCOMPAT, S, W)
      else do {
        S1 \<leftarrow> (if sdo_storage S \<noteq> ONull
                 then do {
                   bs \<leftarrow> mem_read (sdo_dict S) (wd_mem W) (sdo_storage S) (unat (sdo_dataLength S));
                   sdo_put_data 0 bs S
                 }
                 else Some S);
        let S2 = sdo_upd_arg (\<lambda>a. a\<lparr>arg_reading := True\<rparr>) S1;
        (case sdo_func S of
           Some (Some f) \<Rightarrow> do {
             (abortCode, arg, W1) \<leftarrow> odf f (sdo_ODF_arg S2) W;
             let S3 = S2\<lparr>sdo_ODF_arg := arg\<rparr>;
             if abortCode \<noteq> CO_SDO_AB_NONE then Some (abortCode, S3, W1)
             else if arg_dataLength arg = 0 \<or> SDOBufferSize < arg_dataLength arg then Some (CO_SDO_AB_DEVICE_INCOMPAT, S3, W1)
             else Some (CO_SDO_AB_NONE, sdo_advance S3, W1)
           }
         | _ \<Rightarrow> Some (CO_SDO_AB_NONE, sdo_advance S2, W))
      })"

definition sdo_call :: "'w odf_call \<Rightarrow> CO_SDO_t \<Rightarrow> 'w od_world \<Rightarrow> (CO_SDO_abortCode_t \<times> CO_SDO_t \<times> 'w od_world) option" where
  \<comment> \<open>\<^verbatim>\<open>call Object dictionary function if registered\<close> of \<^verbatim>\<open>CO_SDO_writeOD\<close>\<close>
  "sdo_call odf S W =
     (case sdo_func S of
        Some (Some f) \<Rightarrow> map_option (\<lambda>(code, arg, W1). (code, S\<lparr>sdo_ODF_arg := arg\<rparr>, W1)) (odf f (sdo_ODF_arg S) W)
      | _ \<Rightarrow> Some (CO_SDO_AB_NONE, S, W))"

definition CO_SDO_writeOD ::
    "'w odf_call \<Rightarrow> CO_SDO_t \<Rightarrow> 'w od_world \<Rightarrow> u16 \<Rightarrow> (CO_SDO_abortCode_t \<times> CO_SDO_t \<times> 'w od_world) option" where
  "CO_SDO_writeOD odf S W len =
     (if arg_attribute (sdo_ODF_arg S) AND CO_ODA_WRITEABLE = 0 then Some (CO_SDO_AB_READONLY, S, W)
      else if sdo_storage S \<noteq> ONull \<and> sdo_dataLength S \<noteq> len then Some (CO_SDO_AB_TYPE_MISMATCH, S, W)
      else do {
        let S1 = sdo_upd_arg (\<lambda>a. a\<lparr>arg_dataLength := len, arg_reading := False\<rparr>) S;
        (abortCode, S2, W1) \<leftarrow> sdo_call odf S1 W;
        if abortCode \<noteq> CO_SDO_AB_NONE then Some (abortCode, S2, W1)
        else do {
          let S3 = sdo_advance S2;
          let exception_1003 = (arg_index (sdo_ODF_arg S3) = 0x1003 \<and> arg_subIndex (sdo_ODF_arg S3) = 0);
          if sdo_storage S \<noteq> ONull \<and> \<not> exception_1003 then do {
            bs \<leftarrow> sdo_get_data 0 (unat len) S3;
            mem \<leftarrow> mem_write (wd_mem W1) (sdo_storage S) bs;
            Some (CO_SDO_AB_NONE, S3, W1\<lparr>wd_mem := mem\<rparr>)
          }
          else Some (CO_SDO_AB_NONE, S3, W1)
        }
      })"

subsection \<open>The transfer state machine\<close>

text \<open>
  The \<^verbatim>\<open>switch\<close> of \<^verbatim>\<open>CO_SDO_process\<close> has one definition per case. Its result says how the case ends: with an abort
  (\<^verbatim>\<open>CO_SDO_abort\<close> and \<^verbatim>\<open>return -1\<close>), or with \<^verbatim>\<open>break\<close>, with the value of \<^verbatim>\<open>sendResponse\<close> and whether
  \<^verbatim>\<open>*timerNext_us\<close> is set to 0. The part before the \<^verbatim>\<open>switch\<close> ends with an abort, after an abort from the client, or
  with the state to continue with and the time to add to the timer.
\<close>

datatype sdo_outcome = SdoAbort CO_SDO_abortCode_t | SdoClientAbort | SdoGo CO_SDO_state_t u32 | SdoBreak bool bool

type_synonym 'w sdo_result = "(CO_SDO_t \<times> 'w od_world \<times> sdo_outcome) option"

definition CO_SDO_process_done :: "CO_SDO_t \<Rightarrow> CO_SDO_t" where
  "CO_SDO_process_done S =
     (let proc = sdo_CANrxProc S
      in if \<not> sdo_CANrxNew S ! unat proc then S
         else S\<lparr>sdo_CANrxProc := (if CO_SDO_RX_DATA_SIZE \<le> proc + 1 then 0 else proc + 1),
                sdo_CANrxNew := (sdo_CANrxNew S)[unat proc := False]\<rparr>)"

text \<open>
  \<^verbatim>\<open>while (CO_FLAG_READ(SDO->CANrxNew[SDO->CANrxProc])) CO_SDO_process_done(SDO, NULL)\<close>: each pass clears a flag.
\<close>

function sdo_skip :: "CO_SDO_t \<Rightarrow> CO_SDO_t" where
  "sdo_skip S =
     (if unat (sdo_CANrxProc S) < length (sdo_CANrxNew S) \<and> sdo_CANrxNew S ! unat (sdo_CANrxProc S)
      then sdo_skip (CO_SDO_process_done S) else S)"
  by pat_completeness auto

lemma length_filter_clear:
  "i < length bs \<Longrightarrow> bs ! i \<Longrightarrow> length (filter id (bs[i := False])) < length (filter id bs)"
proof (induction bs arbitrary: i)
  case (Cons b bs)
  then show ?case by (cases i) auto
qed simp

termination sdo_skip
  by (relation "measure (\<lambda>S. length (filter id (sdo_CANrxNew S)))")
    (auto simp: CO_SDO_process_done_def Let_def length_filter_clear)

declare sdo_skip.simps [simp del]

definition sdo_tx :: "nat \<Rightarrow> nat \<Rightarrow> u8 list \<Rightarrow> 'w od_world \<Rightarrow> 'w od_world" where
  \<comment> \<open>\<^verbatim>\<open>SDO->CANtxBuff->data[k + i] = bs[i]\<close>\<close>
  "sdo_tx txb k bs W = W\<lparr>wd_bus := bus_upd_buf (wd_bus W) txb (\<lambda>b. b\<lparr>tx_data := memcpy_at (tx_data b) k bs\<rparr>)\<rparr>"

definition sdo_send :: "can_env \<Rightarrow> nat \<Rightarrow> 'w od_world \<Rightarrow> 'w od_world" where
  "sdo_send env txb W = W\<lparr>wd_bus := snd (CO_CANsend env (wd_bus W) (Some txb))\<rparr>"

definition sdo_abort_frame :: "CO_ODF_arg_t \<Rightarrow> CO_SDO_abortCode_t \<Rightarrow> u8 list" where
  "sdo_abort_frame arg code =
     [0x80, ucast (arg_index arg AND 0xFF), ucast (drop_bit 8 (arg_index arg) AND 0xFF), arg_subIndex arg]
       @ le_bytes 4 (unat (abort_code code))"

definition CO_SDO_abort :: "can_env \<Rightarrow> nat \<Rightarrow> CO_SDO_t \<Rightarrow> 'w od_world \<Rightarrow> CO_SDO_abortCode_t \<Rightarrow> CO_SDO_t \<times> 'w od_world" where
  "CO_SDO_abort env txb S W code =
     (sdo_skip (S\<lparr>sdo_state := CO_SDO_ST_IDLE\<rparr>), sdo_send env txb (sdo_tx txb 0 (sdo_abort_frame (sdo_ODF_arg S) code) W))"

definition sdo_check ::
    "(CO_SDO_abortCode_t \<times> CO_SDO_t \<times> 'w od_world) option \<Rightarrow> (CO_SDO_t \<Rightarrow> 'w od_world \<Rightarrow> 'w sdo_result) \<Rightarrow> 'w sdo_result" where
  \<comment> \<open>\<^verbatim>\<open>if(abortCode != 0U){ CO_SDO_abort(SDO, abortCode); return -1; }\<close>\<close>
  "sdo_check r k =
     (case r of
        None \<Rightarrow> None
      | Some (code, S, W) \<Rightarrow> if code \<noteq> CO_SDO_AB_NONE then Some (S, W, SdoAbort code) else k S W)"

definition sdo_download_initiate :: "'w odf_call \<Rightarrow> nat \<Rightarrow> u8 list \<Rightarrow> CO_SDO_t \<Rightarrow> 'w od_world \<Rightarrow> 'w sdo_result" where
  "sdo_download_initiate odf txb rx S W =
     (let W1 = sdo_tx txb 0 [0x60, rx ! 1, rx ! 2, rx ! 3] W
      in if rx ! 0 AND 0x02 \<noteq> 0 then do {
           let len = (if rx ! 0 AND 0x01 \<noteq> 0 then 4 - (ucast (drop_bit 2 (rx ! 0)) AND 0x03) else sdo_dataLength S);
           S1 \<leftarrow> sdo_put_data 0 (take 4 (drop 4 rx)) S;
           sdo_check (CO_SDO_writeOD odf S1 W1 len)
             (\<lambda>S2 W2. Some (S2\<lparr>sdo_state := CO_SDO_ST_IDLE\<rparr>, W2, SdoBreak True True))
         }
         else
           let lenRx = CO_getUint32 (drop 4 rx); indicated = (rx ! 0 AND 0x01 \<noteq> 0);
               S1 = (if indicated then sdo_upd_arg (\<lambda>a. a\<lparr>arg_dataLengthTotal := lenRx\<rparr>) S else S)
           in if indicated \<and> lenRx \<noteq> ucast (sdo_dataLength S) \<and> sdo_storage S \<noteq> ONull
              then Some (S1, W1, SdoAbort CO_SDO_AB_TYPE_MISMATCH)
              else Some (S1\<lparr>sdo_bufferOffset := 0, sdo_sequence := 0, sdo_state := CO_SDO_ST_DOWNLOAD_SEGMENTED\<rparr>,
                         W1, SdoBreak True False))"

definition sdo_toggle_bit :: "CO_SDO_t \<Rightarrow> u8" where
  "sdo_toggle_bit S = (if sdo_sequence S \<noteq> 0 then 0x10 else 0x00)"

definition sdo_toggle :: "CO_SDO_t \<Rightarrow> CO_SDO_t" where
  "sdo_toggle S = S\<lparr>sdo_sequence := (if sdo_sequence S \<noteq> 0 then 0 else 1)\<rparr>"

definition sdo_segment_store :: "'w odf_call \<Rightarrow> nat \<Rightarrow> u8 list \<Rightarrow> nat \<Rightarrow> CO_SDO_t \<Rightarrow> 'w od_world \<Rightarrow> 'w sdo_result" where
  \<comment> \<open>from \<^verbatim>\<open>/* copy data to buffer */\<close> to the end of the case\<close>
  "sdo_segment_store odf txb rx len S W = do {
     S1 \<leftarrow> sdo_append (take len (drop 1 rx)) S;
     if rx ! 0 AND 0x01 \<noteq> 0 then
       sdo_check (CO_SDO_writeOD odf (sdo_upd_arg (\<lambda>a. a\<lparr>arg_lastSegment := True\<rparr>) S1) W (sdo_bufferOffset S1))
         (\<lambda>S2 W2. Some (sdo_toggle (S2\<lparr>sdo_state := CO_SDO_ST_IDLE\<rparr>), sdo_tx txb 0 [0x20 OR sdo_toggle_bit S2] W2,
                        SdoBreak True True))
     else Some (sdo_toggle S1, sdo_tx txb 0 [0x20 OR sdo_toggle_bit S1] W, SdoBreak True False)
   }"

definition sdo_download_segmented :: "'w odf_call \<Rightarrow> nat \<Rightarrow> u8 list \<Rightarrow> CO_SDO_t \<Rightarrow> 'w od_world \<Rightarrow> 'w sdo_result" where
  "sdo_download_segmented odf txb rx S W =
     (if rx ! 0 AND 0xE0 \<noteq> 0 then Some (S, W, SdoAbort CO_SDO_AB_CMD)
      else if (if rx ! 0 AND 0x10 \<noteq> 0 then 1 else 0) \<noteq> sdo_sequence S then Some (S, W, SdoAbort CO_SDO_AB_TOGGLE_BIT)
      else
        let len = unat (7 - (drop_bit 1 (rx ! 0) AND 0x07))
        in if unat (sdo_dataLength S) < unat (sdo_bufferOffset S) + len then
             (if sdo_storage S \<noteq> ONull then Some (S, W, SdoAbort CO_SDO_AB_DATA_LONG)
              else sdo_check (CO_SDO_writeOD odf (sdo_upd_arg (\<lambda>a. a\<lparr>arg_lastSegment := False\<rparr>) S) W (sdo_bufferOffset S))
                (\<lambda>S1. sdo_segment_store odf txb rx len
                   ((sdo_upd_arg (\<lambda>a. a\<lparr>arg_dataLength := CO_CONFIG_SDO_BUFFER_SIZE\<rparr>) S1)\<lparr>sdo_bufferOffset := 0\<rparr>)))
           else sdo_segment_store odf txb rx len S W)"

definition sdo_blocks :: "u16 \<Rightarrow> u8" where
  \<comment> \<open>\<^verbatim>\<open>(len > (7*127)) ? 127 : (len / 7)\<close>\<close>
  "sdo_blocks len = (if 7 * 127 < len then 127 else ucast (len div 7))"

definition sdo_download_bl_initiate :: "nat \<Rightarrow> u8 list \<Rightarrow> CO_SDO_t \<Rightarrow> 'w od_world \<Rightarrow> 'w sdo_result" where
  "sdo_download_bl_initiate txb rx S W =
     (if rx ! 0 AND 0xE1 \<noteq> 0xC0 then Some (S, W, SdoAbort CO_SDO_AB_CMD)
      else
        let blksize = sdo_blocks CO_CONFIG_SDO_BUFFER_SIZE;
            W1 = sdo_tx txb 0 [0xA4, rx ! 1, rx ! 2, rx ! 3, blksize] W;
            S1 = S\<lparr>sdo_blksize := blksize, sdo_crcEnabled := (rx ! 0 AND 0x04 \<noteq> 0), sdo_crc := 0\<rparr>;
            lenRx = CO_getUint32 (drop 4 rx); indicated = (rx ! 0 AND 0x02 \<noteq> 0);
            S2 = (if indicated then sdo_upd_arg (\<lambda>a. a\<lparr>arg_dataLengthTotal := lenRx\<rparr>) S1 else S1)
        in if indicated \<and> lenRx \<noteq> ucast (sdo_dataLength S) \<and> sdo_storage S \<noteq> ONull
           then Some (S2, W1, SdoAbort CO_SDO_AB_TYPE_MISMATCH)
           else Some (S2\<lparr>sdo_bufferOffset := 0, sdo_sequence := 0, sdo_timeoutSubblockDownolad := False,
                         sdo_state := CO_SDO_ST_DOWNLOAD_BL_SUBBLOCK\<rparr>, W1, SdoBreak True False))"

definition sdo_sub_resp_end :: "nat \<Rightarrow> bool \<Rightarrow> CO_SDO_t \<Rightarrow> 'w od_world \<Rightarrow> 'w sdo_result" where
  \<comment> \<open>from \<^verbatim>\<open>/* blksize */\<close> to the end of the case\<close>
  "sdo_sub_resp_end txb lastSegmentInSubblock S W =
     (let blksize = sdo_blocks (CO_CONFIG_SDO_BUFFER_SIZE - sdo_bufferOffset S);
          S1 = S\<lparr>sdo_blksize := blksize\<rparr>;
          W1 = sdo_tx txb 2 [blksize] W
      in if lastSegmentInSubblock then Some (S1\<lparr>sdo_state := CO_SDO_ST_DOWNLOAD_BL_END\<rparr>, W1, SdoBreak True False)
         else if CO_CONFIG_SDO_BUFFER_SIZE \<le> sdo_bufferOffset S then Some (S1, W1, SdoAbort CO_SDO_AB_DEVICE_INCOMPAT)
         else Some (S1\<lparr>sdo_state := CO_SDO_ST_DOWNLOAD_BL_SUBBLOCK\<rparr>, W1, SdoBreak True False))"

definition sdo_download_bl_sub_resp ::
    "'w odf_call \<Rightarrow> nat \<Rightarrow> u8 list \<Rightarrow> CO_SDO_state_t \<Rightarrow> CO_SDO_t \<Rightarrow> 'w od_world \<Rightarrow> 'w sdo_result" where
  "sdo_download_bl_sub_resp odf txb rx state S W =
     (let lastSegmentInSubblock = (\<not> sdo_timeoutSubblockDownolad S \<and> rx ! 0 AND 0x80 = 0x80);
          W1 = sdo_tx txb 0 [0xA2, sdo_sequence S] W;
          S1 = (if state = CO_SDO_ST_DOWNLOAD_BL_SUB_RESP then S\<lparr>sdo_sequence := 0\<rparr> else S)
      in if sdo_storage S = ONull \<and> sdo_bufferOffset S \<noteq> 0 \<and> \<not> lastSegmentInSubblock then do {
           bs \<leftarrow> (if sdo_crcEnabled S then sdo_get_data 0 (unat (sdo_bufferOffset S)) S else Some []);
           let S2 = (if sdo_crcEnabled S then S1\<lparr>sdo_crc := crc16_ccitt bs (length bs) (sdo_crc S)\<rparr> else S1);
           sdo_check (CO_SDO_writeOD odf (sdo_upd_arg (\<lambda>a. a\<lparr>arg_lastSegment := False\<rparr>) S2) W1 (sdo_bufferOffset S))
             (\<lambda>S3. sdo_sub_resp_end txb lastSegmentInSubblock
                ((sdo_upd_arg (\<lambda>a. a\<lparr>arg_dataLength := CO_CONFIG_SDO_BUFFER_SIZE\<rparr>) S3)\<lparr>sdo_bufferOffset := 0\<rparr>))
         }
         else sdo_sub_resp_end txb lastSegmentInSubblock S1 W1)"

definition sdo_download_bl_end :: "'w odf_call \<Rightarrow> nat \<Rightarrow> u8 list \<Rightarrow> CO_SDO_t \<Rightarrow> 'w od_world \<Rightarrow> 'w sdo_result" where
  "sdo_download_bl_end odf txb rx S W =
     (if rx ! 0 AND 0xE1 \<noteq> 0xC1 then Some (S, W, SdoAbort CO_SDO_AB_CMD)
      else do {
        let len = ucast (drop_bit 2 (rx ! 0) AND 0x07);
        let S1 = S\<lparr>sdo_bufferOffset := sdo_bufferOffset S - len\<rparr>;
        bs \<leftarrow> (if sdo_crcEnabled S then sdo_get_data 0 (unat (sdo_bufferOffset S1)) S1 else Some []);
        let S2 = (if sdo_crcEnabled S then S1\<lparr>sdo_crc := crc16_ccitt bs (length bs) (sdo_crc S)\<rparr> else S1);
        if sdo_crcEnabled S \<and> sdo_crc S2 \<noteq> word_of_nat (le_value (take 2 (drop 1 rx)))
        then Some (S2, W, SdoAbort CO_SDO_AB_CRC)
        else sdo_check (CO_SDO_writeOD odf (sdo_upd_arg (\<lambda>a. a\<lparr>arg_lastSegment := True\<rparr>) S2) W (sdo_bufferOffset S2))
          (\<lambda>S3 W3. Some (S3\<lparr>sdo_state := CO_SDO_ST_IDLE\<rparr>, sdo_tx txb 0 [0xA1] W3, SdoBreak True True))
      })"

definition sdo_upload_initiate :: "nat \<Rightarrow> u8 list \<Rightarrow> CO_SDO_t \<Rightarrow> 'w od_world \<Rightarrow> 'w sdo_result" where
  "sdo_upload_initiate txb rx S W =
     (let W1 = sdo_tx txb 1 [rx ! 1, rx ! 2, rx ! 3] W
      in if sdo_dataLength S \<le> 4 then do {
           bs \<leftarrow> sdo_get_data 0 (unat (sdo_dataLength S)) S;
           Some (S\<lparr>sdo_state := CO_SDO_ST_IDLE\<rparr>,
                 sdo_tx txb 0 [0x43 OR push_bit 2 (4 - ucast (sdo_dataLength S))] (sdo_tx txb 4 bs W1), SdoBreak True True)
         }
         else
           let total = arg_dataLengthTotal (sdo_ODF_arg S);
               W2 = (if total \<noteq> 0 then sdo_tx txb 0 [0x41] (sdo_tx txb 4 (le_bytes 4 (unat total)) W1) else sdo_tx txb 0 [0x40] W1)
           in Some (S\<lparr>sdo_bufferOffset := 0, sdo_sequence := 0, sdo_state := CO_SDO_ST_UPLOAD_SEGMENTED\<rparr>, W2,
                    SdoBreak True False))"

definition sdo_data_forward :: "nat \<Rightarrow> CO_SDO_t \<Rightarrow> CO_SDO_t" where
  \<comment> \<open>\<^verbatim>\<open>SDO->ODF_arg.data += len\<close>\<close>
  "sdo_data_forward len S =
     (sdo_upd_arg (\<lambda>a. a\<lparr>arg_data := drop len (arg_data a)\<rparr>) S)\<lparr>sdo_head := sdo_head S @ take len (sdo_data S)\<rparr>"

definition sdo_data_back :: "nat \<Rightarrow> CO_SDO_t \<Rightarrow> CO_SDO_t" where
  \<comment> \<open>\<^verbatim>\<open>SDO->ODF_arg.data -= len\<close>\<close>
  "sdo_data_back len S =
     (let k = length (sdo_head S) - len
      in (sdo_upd_arg (\<lambda>a. a\<lparr>arg_data := drop k (sdo_head S) @ arg_data a\<rparr>) S)\<lparr>sdo_head := take k (sdo_head S)\<rparr>)"

definition sdo_refill ::
    "'w odf_call \<Rightarrow> u16 \<Rightarrow> CO_SDO_t \<Rightarrow> 'w od_world \<Rightarrow> (CO_SDO_t \<Rightarrow> CO_SDO_t option) \<Rightarrow>
     (CO_SDO_t \<Rightarrow> 'w od_world \<Rightarrow> 'w sdo_result) \<Rightarrow> 'w sdo_result" where
  \<comment> \<open>the block that re-fills the buffer of a domain object behind \<^verbatim>\<open>len\<close> valid bytes; \<^verbatim>\<open>upd\<close> stands between
      reading the data and returning to the original data pointer\<close>
  "sdo_refill odf len S W upd k = do {
     n \<leftarrow> CO_OD_getLength (sdo_dict S) (sdo_entryNo S) (arg_subIndex (sdo_ODF_arg S));
     sdo_check (CO_SDO_readOD odf (sdo_upd_arg (\<lambda>a. a\<lparr>arg_dataLength := n - len\<rparr>) (sdo_data_forward (unat len) S)) W
                  CO_CONFIG_SDO_BUFFER_SIZE)
       (\<lambda>S1 W1. do {
          S2 \<leftarrow> upd S1;
          k (sdo_upd_arg (\<lambda>a. a\<lparr>arg_dataLength := arg_dataLength a + len\<rparr>) (sdo_data_back (unat len) S2)) W1
        })
   }"

definition sdo_upload_segment_send :: "nat \<Rightarrow> CO_SDO_t \<Rightarrow> 'w od_world \<Rightarrow> 'w sdo_result" where
  \<comment> \<open>from \<^verbatim>\<open>/* fill response data bytes */\<close> to the end of the case, with the length calculated before\<close>
  "sdo_upload_segment_send txb S W =
     (let len = min (unat (sdo_dataLength S - sdo_bufferOffset S)) 7
      in do {
        bs \<leftarrow> sdo_get_data (unat (sdo_bufferOffset S)) len S;
        let S1 = sdo_toggle (S\<lparr>sdo_bufferOffset := sdo_bufferOffset S + word_of_nat len\<rparr>);
        let first = sdo_toggle_bit S OR push_bit 1 (word_of_nat (7 - len));
        let W1 = sdo_tx txb 1 bs W;
        Some (if sdo_bufferOffset S1 = sdo_dataLength S \<and> arg_lastSegment (sdo_ODF_arg S)
              then (S1\<lparr>sdo_state := CO_SDO_ST_IDLE\<rparr>, sdo_tx txb 0 [first OR 0x01] W1, SdoBreak True True)
              else (S1, sdo_tx txb 0 [first] W1, SdoBreak True False))
      })"

definition sdo_upload_segmented :: "'w odf_call \<Rightarrow> nat \<Rightarrow> u8 list \<Rightarrow> CO_SDO_t \<Rightarrow> 'w od_world \<Rightarrow> 'w sdo_result" where
  "sdo_upload_segmented odf txb rx S W =
     (if rx ! 0 AND 0xE0 \<noteq> 0x60 then Some (S, W, SdoAbort CO_SDO_AB_CMD)
      else if (if rx ! 0 AND 0x10 \<noteq> 0 then 1 else 0) \<noteq> sdo_sequence S then Some (S, W, SdoAbort CO_SDO_AB_TOGGLE_BIT)
      else
        let len = min (sdo_dataLength S - sdo_bufferOffset S) 7
        in if sdo_storage S = ONull \<and> len < 7 \<and> \<not> arg_lastSegment (sdo_ODF_arg S) then do {
             bs \<leftarrow> sdo_get_data (unat (sdo_bufferOffset S)) (unat len) S;
             S1 \<leftarrow> sdo_put_data 0 bs S;
             sdo_refill odf len S1 W Some (\<lambda>S2. sdo_upload_segment_send txb (S2\<lparr>sdo_bufferOffset := 0\<rparr>))
           }
           else sdo_upload_segment_send txb S W)"

definition sdo_upload_bl_initiate :: "nat \<Rightarrow> u8 list \<Rightarrow> CO_SDO_t \<Rightarrow> 'w od_world \<Rightarrow> 'w sdo_result" where
  "sdo_upload_bl_initiate txb rx S W = do {
     let W1 = sdo_tx txb 1 [rx ! 1, rx ! 2, rx ! 3] W;
     let crcEnabled = (rx ! 0 AND 0x04 \<noteq> 0);
     bs \<leftarrow> (if crcEnabled then sdo_get_data 0 (unat (sdo_dataLength S)) S else Some []);
     let S1 = S\<lparr>sdo_crcEnabled := crcEnabled, sdo_crc := (if crcEnabled then crc16_ccitt bs (length bs) 0 else 0),
                sdo_blksize := rx ! 4\<rparr>;
     if rx ! 0 AND 0x03 \<noteq> 0 then Some (S1, W1, SdoAbort CO_SDO_AB_CMD)
     else if sdo_blksize S1 < 1 \<or> 127 < sdo_blksize S1 \<or>
             unat (sdo_dataLength S) < unat (sdo_blksize S1) * 7 \<and> \<not> arg_lastSegment (sdo_ODF_arg S)
     then Some (S1, W1, SdoAbort CO_SDO_AB_BLOCK_SIZE)
     else
       let total = arg_dataLengthTotal (sdo_ODF_arg S);
           W2 = (if total \<noteq> 0 then sdo_tx txb 0 [0xC6] (sdo_tx txb 4 (le_bytes 4 (unat total)) W1) else sdo_tx txb 0 [0xC4] W1)
       in Some (S1\<lparr>sdo_state := CO_SDO_ST_UPLOAD_BL_INITIATE_2\<rparr>, W2, SdoBreak True False)
   }"

definition sdo_upload_bl_send :: "nat \<Rightarrow> CO_SDO_t \<Rightarrow> 'w od_world \<Rightarrow> 'w sdo_result" where
  \<comment> \<open>from \<^verbatim>\<open>/* return, if all segments was already transfered */\<close> to the end of the case\<close>
  "sdo_upload_bl_send txb S W =
     (if sdo_sequence S = sdo_blksize S \<or> sdo_endOfTransfer S then Some (S, W, SdoBreak False False)
      else
        let len = min (unat (sdo_dataLength S - sdo_bufferOffset S)) 7
        in do {
          bs \<leftarrow> sdo_get_data (unat (sdo_bufferOffset S)) len S;
          let S1 = S\<lparr>sdo_timeoutTimer := 0, sdo_bufferOffset := sdo_bufferOffset S + word_of_nat len,
                     sdo_sequence := sdo_sequence S + 1\<rparr>;
          let W1 = sdo_tx txb 1 bs W;
          Some (if sdo_bufferOffset S1 = sdo_dataLength S \<and> arg_lastSegment (sdo_ODF_arg S)
                then (S1\<lparr>sdo_lastLen := word_of_nat len, sdo_blksize := sdo_sequence S1, sdo_endOfTransfer := True\<rparr>,
                      sdo_tx txb 0 [sdo_sequence S1 OR 0x80] W1, SdoBreak True True)
                else (S1, sdo_tx txb 0 [sdo_sequence S1] W1, SdoBreak True True))
        })"

definition sdo_upload_bl_next :: "nat \<Rightarrow> CO_SDO_t \<Rightarrow> 'w od_world \<Rightarrow> 'w sdo_result" where
  \<comment> \<open>from \<^verbatim>\<open>/* verify if SDO data buffer is large enough */\<close> on\<close>
  "sdo_upload_bl_next txb S W =
     (if unat (sdo_dataLength S) < unat (sdo_blksize S) * 7 \<and> \<not> arg_lastSegment (sdo_ODF_arg S)
      then Some (S, W, SdoAbort CO_SDO_AB_BLOCK_SIZE)
      else sdo_upload_bl_send txb (S\<lparr>sdo_bufferOffset := 0, sdo_sequence := 0, sdo_endOfTransfer := False\<rparr>) W)"

definition sdo_upload_bl_confirm :: "'w odf_call \<Rightarrow> nat \<Rightarrow> u8 list \<Rightarrow> CO_SDO_t \<Rightarrow> 'w od_world \<Rightarrow> 'w sdo_result" where
  \<comment> \<open>the block under \<^verbatim>\<open>/* is block confirmation received */\<close>\<close>
  "sdo_upload_bl_confirm odf txb rx S W =
     (let ackseq = rx ! 1; done = unat ackseq * 7; len = unat (sdo_dataLength S)
      in if rx ! 0 AND 0xE3 \<noteq> 0xA2 then Some (S, W, SdoAbort CO_SDO_AB_CMD)
         else if sdo_sequence S < ackseq then Some (S, W, SdoAbort CO_SDO_AB_SEQ_NUM)
         else if sdo_endOfTransfer S \<and> ackseq = sdo_blksize S then
           Some (S\<lparr>sdo_state := CO_SDO_ST_UPLOAD_BL_END\<rparr>,
                 (let W1 = sdo_tx txb 0 [0xC1 OR push_bit 2 (7 - sdo_lastLen S)] W
                  in if sdo_crcEnabled S then sdo_tx txb 1 (le_bytes 2 (unat (sdo_crc S))) W1 else W1),
                 SdoBreak True False)
         else do {
           bs \<leftarrow> (if done < len then sdo_get_data done (len - done) S else Some []);
           S1 \<leftarrow> sdo_put_data 0 bs S;
           let S2 = (sdo_upd_arg (\<lambda>a. a\<lparr>arg_dataLength := arg_dataLength a - ucast ackseq * 7\<rparr>) S1)\<lparr>sdo_blksize := rx ! 2\<rparr>;
           if sdo_storage S = ONull \<and> unat (sdo_dataLength S2) < unat (sdo_blksize S2) * 7 \<and> \<not> arg_lastSegment (sdo_ODF_arg S2)
           then sdo_refill odf (sdo_dataLength S2) S2 W
                  (\<lambda>S3. if sdo_crcEnabled S3
                        then map_option (\<lambda>bs. S3\<lparr>sdo_crc := crc16_ccitt bs (length bs) (sdo_crc S3)\<rparr>)
                               (sdo_get_data 0 (unat (sdo_dataLength S3)) S3)
                        else Some S3)
                  (sdo_upload_bl_next txb)
           else sdo_upload_bl_next txb S2 W
         })"

definition sdo_upload_bl_initiate_2 :: "nat \<Rightarrow> u8 list \<Rightarrow> CO_SDO_t \<Rightarrow> 'w od_world \<Rightarrow> 'w sdo_result" where
  "sdo_upload_bl_initiate_2 txb rx S W =
     (if rx ! 0 AND 0xE3 \<noteq> 0xA3 then Some (S, W, SdoAbort CO_SDO_AB_CMD)
      else sdo_upload_bl_send txb
        ((CO_SDO_process_done (S\<lparr>sdo_bufferOffset := 0, sdo_sequence := 0, sdo_endOfTransfer := False\<rparr>))
         \<lparr>sdo_state := CO_SDO_ST_UPLOAD_BL_SUBBLOCK\<rparr>) W)"

definition sdo_upload_bl_end :: "u8 list \<Rightarrow> CO_SDO_t \<Rightarrow> 'w od_world \<Rightarrow> 'w sdo_result" where
  "sdo_upload_bl_end rx S W =
     (if rx ! 0 AND 0xE1 \<noteq> 0xA1 then Some (S, W, SdoAbort CO_SDO_AB_CMD)
      else Some (S\<lparr>sdo_state := CO_SDO_ST_IDLE\<rparr>, W, SdoBreak False True))"

definition sdo_switch ::
    "'w odf_call \<Rightarrow> nat \<Rightarrow> u8 list \<Rightarrow> bool \<Rightarrow> CO_SDO_state_t \<Rightarrow> CO_SDO_t \<Rightarrow> 'w od_world \<Rightarrow> 'w sdo_result" where
  "sdo_switch odf txb rx isNew state S W =
     (case state of
        CO_SDO_ST_DOWNLOAD_INITIATE \<Rightarrow> sdo_download_initiate odf txb rx S W
      | CO_SDO_ST_DOWNLOAD_SEGMENTED \<Rightarrow> sdo_download_segmented odf txb rx S W
      | CO_SDO_ST_DOWNLOAD_BL_INITIATE \<Rightarrow> sdo_download_bl_initiate txb rx S W
      | CO_SDO_ST_DOWNLOAD_BL_SUBBLOCK \<Rightarrow> Some (S, W, SdoBreak False False)
      | CO_SDO_ST_DOWNLOAD_BL_SUB_RESP \<Rightarrow> sdo_download_bl_sub_resp odf txb rx state S W
      | CO_SDO_ST_DOWNLOAD_BL_SUB_RESP_2 \<Rightarrow> sdo_download_bl_sub_resp odf txb rx state S W
      | CO_SDO_ST_DOWNLOAD_BL_END \<Rightarrow> sdo_download_bl_end odf txb rx S W
      | CO_SDO_ST_UPLOAD_INITIATE \<Rightarrow> sdo_upload_initiate txb rx S W
      | CO_SDO_ST_UPLOAD_SEGMENTED \<Rightarrow> sdo_upload_segmented odf txb rx S W
      | CO_SDO_ST_UPLOAD_BL_INITIATE \<Rightarrow> sdo_upload_bl_initiate txb rx S W
      | CO_SDO_ST_UPLOAD_BL_INITIATE_2 \<Rightarrow> sdo_upload_bl_initiate_2 txb rx S W
      | CO_SDO_ST_UPLOAD_BL_SUBBLOCK \<Rightarrow> if isNew then sdo_upload_bl_confirm odf txb rx S W else sdo_upload_bl_send txb S W
      | CO_SDO_ST_UPLOAD_BL_END \<Rightarrow> sdo_upload_bl_end rx S W
      | CO_SDO_ST_IDLE \<Rightarrow> Some (S, W, SdoBreak False False)
      | _ \<Rightarrow> Some (S, W, SdoAbort CO_SDO_AB_DEVICE_INCOMPAT))"

definition sdo_request :: "'w odf_call \<Rightarrow> u8 list \<Rightarrow> u32 \<Rightarrow> CO_SDO_t \<Rightarrow> 'w od_world \<Rightarrow> 'w sdo_result" where
  \<comment> \<open>a new request in the idle state\<close>
  "sdo_request odf rx dt S W =
     (let CCS = drop_bit 5 (rx ! 0)
      in if CCS \<noteq> 1 \<and> CCS \<noteq> 2 \<and> CCS \<noteq> 6 \<and> CCS \<noteq> 5 then Some (S, W, SdoAbort CO_SDO_AB_CMD)
         else sdo_check (map_option (\<lambda>(code, S1). (code, S1, W)) (CO_SDO_initTransfer S (push_bit 8 (ucast (rx ! 2)) OR ucast (rx ! 1)) (rx ! 3)))
           (\<lambda>S1 W1.
              if CCS = 1 \<or> CCS = 6 then
                (if arg_attribute (sdo_ODF_arg S1) AND CO_ODA_WRITEABLE = 0 then Some (S1, W1, SdoAbort CO_SDO_AB_READONLY)
                 else Some (S1, W1, SdoGo (if CCS = 1 then CO_SDO_ST_DOWNLOAD_INITIATE else CO_SDO_ST_DOWNLOAD_BL_INITIATE) dt))
              else sdo_check (CO_SDO_readOD odf S1 W1 CO_CONFIG_SDO_BUFFER_SIZE)
                (\<lambda>S2 W2. Some (S2, W2, SdoGo (if CCS = 5 \<and> ucast (rx ! 5) < sdo_dataLength S2
                            then CO_SDO_ST_UPLOAD_BL_INITIATE else CO_SDO_ST_UPLOAD_INITIATE) dt))))"

definition sdo_select :: "'w odf_call \<Rightarrow> nat \<Rightarrow> u8 list \<Rightarrow> bool \<Rightarrow> u32 \<Rightarrow> CO_SDO_t \<Rightarrow> 'w od_world \<Rightarrow> 'w sdo_result" where
  \<comment> \<open>the block under \<^verbatim>\<open>/* Is something new to process? */\<close>\<close>
  "sdo_select odf txb rx isNew dt S W =
     (if \<not> tx_bufferFull (bus_buf (wd_bus W) txb) \<and> (isNew \<or> sdo_state S = CO_SDO_ST_UPLOAD_BL_SUBBLOCK) then
        let S1 = (if sdo_state S \<noteq> CO_SDO_ST_UPLOAD_BL_SUBBLOCK then S\<lparr>sdo_timeoutTimer := 0\<rparr> else S);
            dt1 = (if sdo_state S \<noteq> CO_SDO_ST_UPLOAD_BL_SUBBLOCK then 0 else dt);
            W1 = sdo_tx txb 0 (replicate 8 0) W
        in if isNew \<and> rx ! 0 = 0x80
           then Some (CO_SDO_process_done (S1\<lparr>sdo_state := CO_SDO_ST_IDLE\<rparr>), W1, SdoClientAbort)
           else if sdo_state S \<noteq> CO_SDO_ST_IDLE then Some (S1, W1, SdoGo (sdo_state S) dt1)
           else sdo_request odf rx dt1 S1 W1
      else Some (S, W, SdoGo CO_SDO_ST_IDLE dt))"

definition sdo_timeout :: "nat \<Rightarrow> CO_SDO_state_t \<Rightarrow> u32 \<Rightarrow> CO_SDO_t \<Rightarrow> 'w od_world \<Rightarrow> u32 option \<Rightarrow> CO_SDO_t \<times> sdo_outcome \<times> u32 option" where
  \<comment> \<open>the block under \<^verbatim>\<open>/* verify SDO timeout */\<close>\<close>
  "sdo_timeout txb state dt S W timerNext_us =
     (let S1 = (if sdo_timeoutTimer S < sdo_SDOtimeoutTime_us S then S\<lparr>sdo_timeoutTimer := sdo_timeoutTimer S + dt\<rparr> else S)
      in if sdo_SDOtimeoutTime_us S1 \<le> sdo_timeoutTimer S1 then
           (if sdo_state S1 = CO_SDO_ST_DOWNLOAD_BL_SUBBLOCK \<and> \<not> sdo_timeoutSubblockDownolad S1 \<and>
               \<not> tx_bufferFull (bus_buf (wd_bus W) txb)
            then (S1\<lparr>sdo_timeoutSubblockDownolad := True, sdo_timeoutTimer := 0\<rparr>, SdoGo CO_SDO_ST_DOWNLOAD_BL_SUB_RESP_2 0,
                  timerNext_us)
            else (S1, SdoAbort CO_SDO_AB_TIMEOUT, timerNext_us))
         else (S1, SdoGo state 0, lower_timer timerNext_us (sdo_SDOtimeoutTime_us S1 - sdo_timeoutTimer S1)))"

definition sdo_finish ::
    "can_env \<Rightarrow> nat \<Rightarrow> u32 option \<Rightarrow> CO_SDO_t \<times> 'w od_world \<times> sdo_outcome \<Rightarrow> int \<times> CO_SDO_t \<times> 'w od_world \<times> u32 option" where
  \<comment> \<open>the abort and return of a case, or the code behind the \<^verbatim>\<open>switch\<close>\<close>
  "sdo_finish env txb timerNext_us r =
     (case r of
        (S, W, SdoAbort code) \<Rightarrow> (case CO_SDO_abort env txb S W code of (S1, W1) \<Rightarrow> (-1, S1, W1, timerNext_us))
      | (S, W, SdoBreak sendResponse now) \<Rightarrow>
          let S1 = CO_SDO_process_done S; W1 = (if sendResponse then sdo_send env txb W else W)
          in (if sdo_state S1 \<noteq> CO_SDO_ST_IDLE then 1 else 0, S1, W1, if now then map_option (\<lambda>_. 0) timerNext_us else timerNext_us)
      | (S, W, _) \<Rightarrow> (-1, S, W, timerNext_us))"

definition CO_SDO_process ::
    "'w odf_call \<Rightarrow> can_env \<Rightarrow> CO_SDO_t \<Rightarrow> 'w od_world \<Rightarrow> bool \<Rightarrow> u32 \<Rightarrow> u32 option \<Rightarrow>
     (int \<times> CO_SDO_t \<times> 'w od_world \<times> u32 option) option" where
  "CO_SDO_process odf env S W NMTisPreOrOperational timeDifference_us timerNext_us =
     (let proc = unat (sdo_CANrxProc S); isNew = sdo_CANrxNew S ! proc; rx = sdo_CANrxData S ! proc
      in if sdo_state S = CO_SDO_ST_IDLE \<and> \<not> isNew then Some (0, S, W, timerNext_us)
         else if \<not> NMTisPreOrOperational
         then Some (0, CO_SDO_process_done (S\<lparr>sdo_state := CO_SDO_ST_IDLE\<rparr>), W, timerNext_us)
         else do {
           txb \<leftarrow> sdo_CANtxBuff S;
           (S1, W1, sel) \<leftarrow> sdo_select odf txb rx isNew timeDifference_us S W;
           (case sel of
              SdoGo state dt \<Rightarrow>
                (case sdo_timeout txb state dt S1 W1 timerNext_us of
                   (S2, SdoGo state2 _, tn) \<Rightarrow>
                     if state2 = CO_SDO_ST_IDLE then Some (0, S2, W1, tn)
                     else map_option (sdo_finish env txb tn) (sdo_switch odf txb rx isNew state2 S2 W1)
                 | (S2, out, tn) \<Rightarrow> Some (sdo_finish env txb tn (S2, W1, out)))
            | _ \<Rightarrow> Some (sdo_finish env txb timerNext_us (S1, W1, sel)))
         })"

end
