(* ===== verification/SDO_Safety.thy ===== *)
theory SDO_Safety
  imports SDO_Server
begin

section \<open>Safety of the SDO server\<close>

text \<open>
  Whatever a client sends and whenever the server runs, the server stays within its buffer and within the variables of
  the dictionary, and changes only the bytes of objects that are writable. The dictionary is one without domain
  objects (\<^verbatim>\<open>SDO_Domain\<close> shows that this is needed); registered functions are known by the contract they are documented
  with, the locale \<^verbatim>\<open>od_functions\<close>.
\<close>

subsection \<open>Well-formed dictionaries\<close>

definition entry_in :: "nat \<Rightarrow> CO_OD_entry_t \<Rightarrow> bool" where
  \<comment> \<open>the data of an entry are within \<^verbatim>\<open>n\<close> bytes of variables, and none is a domain\<close>
  "entry_in n e \<longleftrightarrow>
     (case od_pData e of
        PNull \<Rightarrow> False
      | PData a \<Rightarrow> a + (if od_maxSubIndex e = 0 then 1 else unat (od_maxSubIndex e)) * unat (od_length e) \<le> n
      | PRecord ms \<Rightarrow> list_all (\<lambda>m. case mem_pData m of None \<Rightarrow> False | Some a \<Rightarrow> a + unat (mem_length m) \<le> n) ms)"

definition dict_ok :: "nat \<Rightarrow> CO_SDO_OD \<Rightarrow> bool" where
  "dict_ok n dict \<longleftrightarrow> od_inv dict \<and> list_all (entry_in n) (sdo_OD dict)"

definition sub_writable :: "CO_SDO_OD \<Rightarrow> nat \<Rightarrow> u8 \<Rightarrow> nat \<Rightarrow> bool" where
  \<comment> \<open>byte \<^verbatim>\<open>i\<close> belongs to a sub-object with the attribute \<^verbatim>\<open>CO_ODA_WRITEABLE\<close>\<close>
  "sub_writable dict k sub i \<longleftrightarrow>
     (\<exists>a len attr. CO_OD_getDataPointer dict k sub = Some (OAddr a) \<and> CO_OD_getLength dict k sub = Some len \<and>
        CO_OD_getAttribute dict k sub = Some attr \<and> attr AND CO_ODA_WRITEABLE \<noteq> 0 \<and> a \<le> i \<and> i < a + unat len)"

definition byte_writable :: "CO_SDO_OD \<Rightarrow> nat \<Rightarrow> bool" where
  "byte_writable dict i \<longleftrightarrow> (\<exists>k sub. k < length (sdo_OD dict) \<and> sub_writable dict k sub i)"

definition protected_same :: "CO_SDO_OD \<Rightarrow> u8 list \<Rightarrow> u8 list \<Rightarrow> bool" where
  "protected_same dict m m' \<longleftrightarrow> length m' = length m \<and> (\<forall>i < length m. \<not> byte_writable dict i \<longrightarrow> m' ! i = m ! i)"

lemma protected_refl [simp]: "protected_same dict m m"
  by (simp add: protected_same_def)

lemma protected_trans: "protected_same dict m m' \<Longrightarrow> protected_same dict m' m'' \<Longrightarrow> protected_same dict m m''"
  by (simp add: protected_same_def)

text \<open>The storage of a sub-object of such a dictionary: a range of variables, or the counter of an array.\<close>

definition storage_ok :: "nat \<Rightarrow> CO_SDO_OD \<Rightarrow> CO_ODF_arg_t \<Rightarrow> nat \<Rightarrow> bool" where
  "storage_ok n dict arg k \<longleftrightarrow>
     (case arg_ODdataStorage arg of
        OAddr a \<Rightarrow> a + unat (arg_dataLength arg) \<le> n \<and>
          (arg_attribute arg AND CO_ODA_WRITEABLE \<noteq> 0 \<longrightarrow> (\<forall>i. a \<le> i \<and> i < a + unat (arg_dataLength arg) \<longrightarrow> byte_writable dict i))
      | OMaxSubIndex _ \<Rightarrow> arg_dataLength arg = 1 \<and>
          (arg_attribute arg AND CO_ODA_WRITEABLE \<noteq> 0 \<longrightarrow> arg_index arg = 0x1003 \<and> arg_subIndex arg = 0)
      | _ \<Rightarrow> False)"

lemma attr_mask_writeable:
  "((a AND NOT (CO_ODA_WRITEABLE OR CO_ODA_RPDO_MAPABLE)) OR CO_ODA_READABLE) AND CO_ODA_WRITEABLE = 0"
  "(a AND NOT CO_ODA_WRITEABLE AND NOT CO_ODA_RPDO_MAPABLE OR CO_ODA_READABLE) AND CO_ODA_WRITEABLE = 0"
  by (simp_all add: CO_ODA_WRITEABLE_def CO_ODA_READABLE_def CO_ODA_RPDO_MAPABLE_def bit.conj_disj_distrib2 and.assoc)

lemma sub_pointer:
  assumes "dict_ok n dict" "k < length (sdo_OD dict)" "k \<noteq> 0xFFFF" "sub \<le> od_maxSubIndex (sdo_OD dict ! k)"
  shows "\<exists>ptr len attr. CO_OD_getDataPointer dict k sub = Some ptr \<and> CO_OD_getLength dict k sub = Some len \<and>
    CO_OD_getAttribute dict k sub = Some attr \<and> ptr \<noteq> ONull \<and>
    (case ptr of
       OAddr a \<Rightarrow> a + unat len \<le> n
     | OMaxSubIndex j \<Rightarrow> len = 1 \<and> (attr AND CO_ODA_WRITEABLE \<noteq> 0 \<longrightarrow> od_index (sdo_OD dict ! k) = 0x1003 \<and> sub = 0)
     | _ \<Rightarrow> False)"
proof -
  let ?e = "sdo_OD dict ! k"
  have e: "entry_in n ?e" "od_entry_ok ?e" using assms(1,2) by (auto simp: dict_ok_def od_inv_def list_all_length)
  show ?thesis
  proof (cases "od_pData ?e")
    case PNull
    then show ?thesis using e(1) by (simp add: entry_in_def)
  next
    case (PData a)
    show ?thesis
    proof (cases "od_maxSubIndex ?e = 0")
      case True
      then show ?thesis using assms PData e
        by (simp add: CO_OD_getDataPointer_def CO_OD_getLength_def CO_OD_getAttribute_def nth_opt_def od_pData_ptr_def entry_in_def)
    next
      case False
      then have attr: "od_attribute ?e \<noteq> 0" using e(2) PData by (simp add: od_entry_ok_def)
      have "unat sub \<le> unat (od_maxSubIndex ?e)" using assms(4) by (simp add: word_le_nat_alt)
      then have "sub \<noteq> 0 \<Longrightarrow> (unat sub - 1) * unat (od_length ?e) + unat (od_length ?e) \<le> unat (od_maxSubIndex ?e) * unat (od_length ?e)"
        using unat_gt_0 [of sub] by (metis Suc_pred' add.commute mult_Suc mult_le_mono1)
      then have "sub \<noteq> 0 \<Longrightarrow> a + (unat sub - 1) * unat (od_length ?e) + unat (od_length ?e) \<le> n"
        using e(1) PData False by (simp add: entry_in_def)
      then show ?thesis using assms PData False attr
        by (auto simp: CO_OD_getDataPointer_def CO_OD_getLength_def CO_OD_getAttribute_def nth_opt_def od_pData_ptr_def not_less
            attr_mask_writeable Let_def)
    qed
  next
    case (PRecord ms)
    then have r: "od_maxSubIndex ?e \<noteq> 0" "od_attribute ?e = 0" "length ms = unat (od_maxSubIndex ?e) + 1"
      using e(2) by (auto simp: od_entry_ok_def)
    have sub: "unat sub < length ms" using assms(4) r(3) by (simp add: word_le_nat_alt)
    then have "list_all (\<lambda>m. case mem_pData m of None \<Rightarrow> False | Some a \<Rightarrow> a + unat (mem_length m) \<le> n) ms"
      using e(1) PRecord by (simp add: entry_in_def)
    then obtain a where "mem_pData (ms ! unat sub) = Some a" "a + unat (mem_length (ms ! unat sub)) \<le> n"
      using sub by (auto simp: list_all_length split: option.splits)
    then show ?thesis using assms PRecord r sub
      by (simp add: CO_OD_getDataPointer_def CO_OD_getLength_def CO_OD_getAttribute_def od_member_def nth_opt_def not_less)
  qed
qed

lemma CO_OD_find_bound:
  assumes "od_inv dict" "CO_OD_find dict index \<noteq> 0xFFFF"
  shows "CO_OD_find dict index < length (sdo_OD dict) \<and> od_index (sdo_OD dict ! CO_OD_find dict index) = index"
proof (cases "index \<in> od_index ` set (sdo_OD dict)")
  case True
  then obtain k where "k < length (sdo_OD dict)" "index = od_index (sdo_OD dict ! k)" by (auto simp: in_set_conv_nth)
  then show ?thesis using CO_OD_find_nth [OF assms(1)] by simp
next
  case False
  then show ?thesis using CO_OD_find_missing [OF assms(1)] assms(2) by simp
qed

subsection \<open>The state of the server\<close>

definition world_ok :: "nat \<Rightarrow> nat \<Rightarrow> 'w od_world \<Rightarrow> bool" where
  "world_ok txb n W \<longleftrightarrow> bus_dev_inv (wd_bus W) \<and> txb < unat (can_txSize (bus_can (wd_bus W))) \<and>
     length (tx_data (bus_buf (wd_bus W) txb)) = 8 \<and> length (wd_mem W) = n"

definition located :: "CO_SDO_t \<Rightarrow> bool" where
  \<comment> \<open>\<^verbatim>\<open>entryNo\<close> is the entry of the index\<close>
  "located S \<longleftrightarrow> sdo_entryNo S < length (sdo_OD (sdo_dict S)) \<and>
     arg_index (sdo_ODF_arg S) = od_index (sdo_OD (sdo_dict S) ! sdo_entryNo S)"

definition transfer_ok :: "nat \<Rightarrow> CO_SDO_t \<Rightarrow> bool" where
  "transfer_ok n S \<longleftrightarrow> storage_ok n (sdo_dict S) (sdo_ODF_arg S) (sdo_entryNo S) \<and> located S \<and> sdo_dataLength S \<le> CO_CONFIG_SDO_BUFFER_SIZE \<and>
     arg_lastSegment (sdo_ODF_arg S)"

definition queue_ok :: "CO_SDO_t \<Rightarrow> bool" where
  "queue_ok S \<longleftrightarrow> length (sdo_CANrxData S) = 2 \<and> list_all (\<lambda>m. length m = 8) (sdo_CANrxData S) \<and>
     length (sdo_CANrxNew S) = 2 \<and> sdo_CANrxRcv S < 2 \<and> sdo_CANrxProc S < 2"

definition core_ok :: "nat \<Rightarrow> nat \<Rightarrow> CO_SDO_t \<Rightarrow> bool" where
  \<comment> \<open>what holds in every state of the machine\<close>
  "core_ok txb n S \<longleftrightarrow> dict_ok n (sdo_dict S) \<and> queue_ok S \<and> sdo_head S = [] \<and>
     length (sdo_data S) = unat CO_CONFIG_SDO_BUFFER_SIZE \<and> sdo_CANtxBuff S = Some txb"

fun state_ok :: "CO_SDO_state_t \<Rightarrow> CO_SDO_t \<Rightarrow> bool" where
  \<comment> \<open>the positions in the buffer, state by state\<close>
  "state_ok CO_SDO_ST_IDLE S = True"
| "state_ok CO_SDO_ST_DOWNLOAD_SEGMENTED S = (sdo_bufferOffset S \<le> sdo_dataLength S)"
| "state_ok CO_SDO_ST_DOWNLOAD_BL_SUBBLOCK S =
     (sdo_bufferOffset S \<le> CO_CONFIG_SDO_BUFFER_SIZE \<and> (sdo_sequence S \<noteq> 0 \<longrightarrow> 7 \<le> sdo_bufferOffset S))"
| "state_ok CO_SDO_ST_DOWNLOAD_BL_SUB_RESP S = (sdo_bufferOffset S \<le> CO_CONFIG_SDO_BUFFER_SIZE \<and> 7 \<le> sdo_bufferOffset S)"
| "state_ok CO_SDO_ST_DOWNLOAD_BL_SUB_RESP_2 S = (sdo_bufferOffset S \<le> CO_CONFIG_SDO_BUFFER_SIZE \<and> 7 \<le> sdo_bufferOffset S)"
| "state_ok CO_SDO_ST_DOWNLOAD_BL_END S = (sdo_bufferOffset S \<le> CO_CONFIG_SDO_BUFFER_SIZE \<and> 7 \<le> sdo_bufferOffset S)"
| "state_ok CO_SDO_ST_UPLOAD_SEGMENTED S = (sdo_bufferOffset S \<le> sdo_dataLength S)"
| "state_ok CO_SDO_ST_UPLOAD_BL_INITIATE_2 S = (sdo_dataLength S \<noteq> 0)"
| "state_ok CO_SDO_ST_UPLOAD_BL_SUBBLOCK S =
     (sdo_dataLength S \<noteq> 0 \<and> sdo_sequence S \<le> sdo_blksize S \<and>
      unat (sdo_bufferOffset S) = min (7 * unat (sdo_sequence S)) (unat (sdo_dataLength S)) \<and>
      (sdo_endOfTransfer S \<longleftrightarrow> sdo_bufferOffset S = sdo_dataLength S) \<and>
      (sdo_sequence S \<noteq> 0 \<longrightarrow> 7 * (unat (sdo_sequence S) - 1) < unat (sdo_dataLength S)) \<and>
      (sdo_endOfTransfer S \<longrightarrow> sdo_blksize S = sdo_sequence S))"
| "state_ok CO_SDO_ST_UPLOAD_BL_END S = True"
| "state_ok _ S = False"

definition sdo_inv :: "nat \<Rightarrow> nat \<Rightarrow> CO_SDO_t \<Rightarrow> bool" where
  "sdo_inv txb n S \<longleftrightarrow> core_ok txb n S \<and> state_ok (sdo_state S) S \<and> (sdo_state S \<noteq> CO_SDO_ST_IDLE \<longrightarrow> transfer_ok n S)"

lemma CO_SDO_initTransfer_ok:
  assumes "core_ok txb n S"
  shows "\<exists>code S'. CO_SDO_initTransfer S index sub = Some (code, S') \<and> core_ok txb n S' \<and> sdo_dict S' = sdo_dict S \<and>
    sdo_state S' = sdo_state S \<and> (code = CO_SDO_AB_NONE \<longrightarrow> transfer_ok n S')"
proof -
  let ?d = "sdo_dict S" let ?k = "CO_OD_find (sdo_dict S) index"
  have d: "dict_ok n ?d" "sdo_head S = []" "od_inv ?d" using assms by (auto simp: core_ok_def dict_ok_def)
  show ?thesis
  proof (cases "?k = 0xFFFF")
    case True
    then show ?thesis using assms
      by (simp add: CO_SDO_initTransfer_def Let_def sdo_upd_arg_def core_ok_def queue_ok_def)
  next
    case False
    then have k: "?k < length (sdo_OD ?d)" "od_index (sdo_OD ?d ! ?k) = index" using CO_OD_find_bound [OF d(3)] by auto
    have e: "od_pData (sdo_OD ?d ! ?k) \<noteq> PNull"
      using d(1) k(1) by (auto simp: dict_ok_def list_all_length entry_in_def split: od_pdata.splits)
    have x: "?k < length (sdo_ODExtensions ?d)" using d(3) k(1) by (simp add: od_inv_def)
    show ?thesis
    proof (cases "od_maxSubIndex (sdo_OD ?d ! ?k) < sub")
      case True
      then show ?thesis using assms False k e
        by (simp add: CO_SDO_initTransfer_def Let_def nth_opt_def sdo_upd_arg_def core_ok_def queue_ok_def)
    next
      case sub: False
      obtain ptr len attr where p: "CO_OD_getDataPointer ?d ?k sub = Some ptr" "CO_OD_getLength ?d ?k sub = Some len"
        "CO_OD_getAttribute ?d ?k sub = Some attr" "ptr \<noteq> ONull"
        and q: "case ptr of OAddr a \<Rightarrow> a + unat len \<le> n
           | OMaxSubIndex j \<Rightarrow> len = 1 \<and> (attr AND CO_ODA_WRITEABLE \<noteq> 0 \<longrightarrow> od_index (sdo_OD ?d ! ?k) = 0x1003 \<and> sub = 0)
           | _ \<Rightarrow> False"
        using sub_pointer [OF d(1) k(1) False, of sub] sub by (auto simp: not_less)
      have w: "attr AND CO_ODA_WRITEABLE \<noteq> 0 \<Longrightarrow> ptr = OAddr a \<Longrightarrow> a \<le> i \<Longrightarrow> i < a + unat len \<Longrightarrow> byte_writable ?d i" for a i
        unfolding byte_writable_def sub_writable_def using k(1) p by blast
      show ?thesis using assms False k e x sub p q w
        by (auto simp: CO_SDO_initTransfer_def Let_def nth_opt_def sdo_upd_arg_def core_ok_def queue_ok_def transfer_ok_def
            located_def storage_ok_def not_less split: od_ptr.splits)
    qed
  qed
qed

subsection \<open>The bus\<close>

lemma world_ok_tx:
  assumes "world_ok txb n W" "k + length bs \<le> 8"
  shows "world_ok txb n (sdo_tx txb k bs W)"
proof -
  have "txb < length (can_txArray (bus_can (wd_bus W)))" using assms(1) by (simp add: world_ok_def bus_dev_inv_def bus_inv_def)
  then show ?thesis using assms by (simp add: world_ok_def sdo_tx_def bus_dev_inv_def bus_buf_upd)
qed

lemma world_ok_send:
  assumes "world_ok txb n W"
  shows "world_ok txb n (sdo_send env txb W)"
proof -
  let ?b = "wd_bus W" let ?b' = "snd (CO_CANsend env ?b (Some txb))"
  have l: "txb < length (can_txArray (bus_can ?b))" using assms by (simp add: world_ok_def bus_dev_inv_def bus_inv_def)
  have "tx_data (bus_buf ?b' txb) = tx_data (bus_buf ?b txb)" using CO_CANsend_buf [OF l, of env txb] by (simp add: tx_frame_def)
  then show ?thesis
    using assms CO_CANsend_keeps [of ?b env "Some txb"] by (auto simp: world_ok_def sdo_send_def bus_dev_inv_def)
qed

lemma sdo_world_fields [simp]:
  "can_txSize (bus_can (wd_bus (sdo_tx txb k bs W))) = can_txSize (bus_can (wd_bus W))"
  "wd_mem (sdo_tx txb k bs W) = wd_mem W" "wd_app (sdo_tx txb k bs W) = wd_app W"
  "wd_mem (sdo_send env txb W) = wd_mem W" "wd_app (sdo_send env txb W) = wd_app W"
  by (simp_all add: sdo_tx_def sdo_send_def)

lemma sdo_send_size: "world_ok txb n W \<Longrightarrow> can_txSize (bus_can (wd_bus (sdo_send env txb W))) = can_txSize (bus_can (wd_bus W))"
  using CO_CANsend_keeps [of "wd_bus W" env "Some txb"] by (simp add: world_ok_def bus_dev_inv_def sdo_send_def)

subsection \<open>Reading and writing objects\<close>

definition arg_same :: "CO_ODF_arg_t \<Rightarrow> CO_ODF_arg_t \<Rightarrow> bool" where
  "arg_same a a' \<longleftrightarrow> length (arg_data a') = length (arg_data a) \<and> arg_ODdataStorage a' = arg_ODdataStorage a \<and>
     arg_dataLength a' = arg_dataLength a \<and> arg_attribute a' = arg_attribute a \<and> arg_index a' = arg_index a \<and>
     arg_subIndex a' = arg_subIndex a \<and> arg_lastSegment a' = arg_lastSegment a"

definition frame_ok :: "(u16 \<Rightarrow> 'w \<Rightarrow> bool) \<Rightarrow> nat \<Rightarrow> nat \<Rightarrow> CO_SDO_OD \<Rightarrow> u8 list \<Rightarrow> CO_SDO_t \<Rightarrow> 'w od_world \<Rightarrow> bool" where
  \<comment> \<open>\<^verbatim>\<open>ainv\<close> is what holds of the objects of the registered functions, on a module with that many transmit buffers\<close>
  "frame_ok ainv txb n dict m0 S W \<longleftrightarrow> core_ok txb n S \<and> sdo_dict S = dict \<and> world_ok txb n W \<and>
     ainv (can_txSize (bus_can (wd_bus W))) (wd_app W) \<and>
     protected_same dict m0 (wd_mem W)"

lemma frame_ok_tx: "frame_ok ainv txb n dict m0 S W \<Longrightarrow> k + length bs \<le> 8 \<Longrightarrow> frame_ok ainv txb n dict m0 S (sdo_tx txb k bs W)"
  by (simp add: frame_ok_def world_ok_tx)

lemma frame_ok_arg:
  "frame_ok ainv txb n dict m0 S W \<Longrightarrow> length (arg_data a') = length (sdo_data S) \<Longrightarrow> frame_ok ainv txb n dict m0 (S\<lparr>sdo_ODF_arg := a'\<rparr>) W"
  by (auto simp: frame_ok_def core_ok_def queue_ok_def)

lemma frame_ok_arg_eq [simp]:
  "length (arg_data a') = length (sdo_data S) \<Longrightarrow> frame_ok ainv txb n dict m0 (S\<lparr>sdo_ODF_arg := a'\<rparr>) W = frame_ok ainv txb n dict m0 S W"
  by (auto simp: frame_ok_def core_ok_def queue_ok_def)

lemma transfer_ok_same: "transfer_ok n S \<Longrightarrow> arg_same (sdo_ODF_arg S) a' \<Longrightarrow> transfer_ok n (S\<lparr>sdo_ODF_arg := a'\<rparr>)"
  by (auto simp: transfer_ok_def located_def storage_ok_def arg_same_def split: od_ptr.splits)

lemma sdo_put_data_some:
  assumes "length (sdo_data S) = 889" "k + length bs \<le> 889"
  shows "sdo_put_data k bs S = Some (S\<lparr>sdo_ODF_arg := (sdo_ODF_arg S)\<lparr>arg_data := memcpy_at (sdo_data S) k bs\<rparr>\<rparr>)"
  using assms by (simp add: sdo_put_data_def sdo_upd_arg_def)

lemma buffer_size [simp]: "unat CO_CONFIG_SDO_BUFFER_SIZE = 889"
  by (simp add: CO_CONFIG_SDO_BUFFER_SIZE_def)

lemma arg_data_same [simp]: "length bs = length (arg_data a) \<Longrightarrow> arg_same a (a\<lparr>arg_data := bs\<rparr>)"
  by (simp add: arg_same_def)

lemma protected_write:
  assumes "\<And>i. a \<le> i \<Longrightarrow> i < a + length bs \<Longrightarrow> byte_writable dict i" "a + length bs \<le> length m"
  shows "protected_same dict m (memcpy_at m a bs)"
  unfolding protected_same_def
proof (intro conjI allI impI)
  show "length (memcpy_at m a bs) = length m" using assms(2) by simp
  fix i assume "i < length m" "\<not> byte_writable dict i"
  then have "i < a \<or> a + length bs \<le> i" using assms(1) [of i] by linarith
  then show "memcpy_at m a bs ! i = m ! i" using assms(2) by (auto simp: memcpy_at_def nth_append)
qed

definition access_ok ::
    "(u16 \<Rightarrow> 'w \<Rightarrow> bool) \<Rightarrow> nat \<Rightarrow> nat \<Rightarrow> CO_SDO_OD \<Rightarrow> u8 list \<Rightarrow> CO_SDO_t \<Rightarrow> (CO_SDO_abortCode_t \<times> CO_SDO_t \<times> 'w od_world) option \<Rightarrow> bool" where
  "access_ok ainv txb n dict m0 S r \<longleftrightarrow>
     (\<exists>code a' W'. r = Some (code, S\<lparr>sdo_ODF_arg := a'\<rparr>, W') \<and> arg_same (sdo_ODF_arg S) a' \<and>
        frame_ok ainv txb n dict m0 (S\<lparr>sdo_ODF_arg := a'\<rparr>) W')"

lemma access_okI:
  assumes "frame_ok ainv txb n dict m0 S W'" "arg_same (sdo_ODF_arg S) a'"
  shows "access_ok ainv txb n dict m0 S (Some (code, S\<lparr>sdo_ODF_arg := a'\<rparr>, W'))"
  unfolding access_ok_def using assms frame_ok_arg [OF assms(1), of a'] by (auto simp: arg_same_def)

text \<open>
  The contract of the functions that are registered with objects, for objects that are not domains: called with the index
  of an entry they are registered with, they return, may change the data in the buffer within its length, and leave the
  rest of the argument, the variables and the buffers of the other services alone.
\<close>

locale od_functions =
  fixes odf :: "'w odf_call" and ainv :: "u16 \<Rightarrow> 'w \<Rightarrow> bool" and txb :: nat and dict :: CO_SDO_OD
  assumes odf_returns: "dict_ok n dict \<Longrightarrow> world_ok txb n W \<Longrightarrow> ainv (can_txSize (bus_can (wd_bus W))) (wd_app W) \<Longrightarrow>
    length (arg_data a) = 889 \<Longrightarrow> arg_ODdataStorage a \<noteq> ONull \<Longrightarrow> k < length (sdo_OD dict) \<Longrightarrow>
    arg_index a = od_index (sdo_OD dict ! k) \<Longrightarrow> ext_pODFunc (sdo_ODExtensions dict ! k) = Some f \<Longrightarrow>
    \<exists>code bs W'. odf f a W = Some (code, a\<lparr>arg_data := bs\<rparr>, W') \<and> length bs = length (arg_data a) \<and>
      world_ok txb n W' \<and> wd_mem W' = wd_mem W \<and> ainv (can_txSize (bus_can (wd_bus W'))) (wd_app W')"
begin

lemma odf_frame:
  assumes "frame_ok ainv txb n dict m0 S W" "sdo_storage S \<noteq> ONull" "located S" "sdo_func S = Some (Some f)"
  shows "\<exists>code bs W'. odf f (sdo_ODF_arg S) W = Some (code, (sdo_ODF_arg S)\<lparr>arg_data := bs\<rparr>, W') \<and>
    length bs = length (sdo_data S) \<and> wd_mem W' = wd_mem W \<and> frame_ok ainv txb n dict m0 (S\<lparr>sdo_ODF_arg := (sdo_ODF_arg S)\<lparr>arg_data := bs\<rparr>\<rparr>) W'"
proof -
  have c: "length (sdo_data S) = 889" "dict_ok n dict" "sdo_dict S = dict" using assms(1) by (auto simp: frame_ok_def core_ok_def)
  have f: "ext_pODFunc (sdo_ODExtensions dict ! sdo_entryNo S) = Some f"
    using assms(4) c(3) by (auto simp: sdo_func_def split: if_splits)
  obtain code bs W' where "odf f (sdo_ODF_arg S) W = Some (code, (sdo_ODF_arg S)\<lparr>arg_data := bs\<rparr>, W')"
    "length bs = length (sdo_data S)" "world_ok txb n W'" "wd_mem W' = wd_mem W" "ainv (can_txSize (bus_can (wd_bus W'))) (wd_app W')"
    using odf_returns [of n W "sdo_ODF_arg S" "sdo_entryNo S" f] f assms(1-3) c by (auto simp: frame_ok_def located_def)
  moreover from this have "frame_ok ainv txb n dict m0 (S\<lparr>sdo_ODF_arg := (sdo_ODF_arg S)\<lparr>arg_data := bs\<rparr>\<rparr>) W'"
    using assms(1) by (auto simp: frame_ok_def core_ok_def queue_ok_def)
  ultimately show ?thesis by blast
qed

lemma readOD_ok:
  assumes "frame_ok ainv txb n dict m0 S W" "transfer_ok n S"
  shows "access_ok ainv txb n dict m0 S (CO_SDO_readOD odf S W sz)"
proof (cases "arg_attribute (sdo_ODF_arg S) AND CO_ODA_READABLE = 0")
  case True
  then show ?thesis using access_okI [OF assms(1), of "sdo_ODF_arg S"] by (simp add: CO_SDO_readOD_def arg_same_def)
next
  case False
  let ?len = "unat (sdo_dataLength S)"
  have st: "sdo_storage S \<noteq> ONull" and loc: "located S" using assms(2) by (auto simp: transfer_ok_def storage_ok_def)
  have len: "?len \<le> 889" "length (sdo_data S) = 889" "length (wd_mem W) = n"
    using assms by (auto simp: transfer_ok_def frame_ok_def core_ok_def world_ok_def word_le_nat_alt)
  obtain bs where bs: "mem_read (sdo_dict S) (wd_mem W) (sdo_storage S) ?len = Some bs" "length bs = ?len"
    using assms(2) len by (auto simp: transfer_ok_def storage_ok_def mem_read_def split: od_ptr.splits)
  let ?a = "(sdo_ODF_arg S)\<lparr>arg_data := memcpy_at (sdo_data S) 0 bs, arg_reading := True\<rparr>"
  have fr: "frame_ok ainv txb n dict m0 (S\<lparr>sdo_ODF_arg := ?a\<rparr>) W" using frame_ok_arg [OF assms(1), of ?a] bs(2) len by simp
  show ?thesis
  proof (cases "\<exists>f. sdo_func S = Some (Some f)")
    case True
    then obtain f where f: "sdo_func S = Some (Some f)" by blast
    then have f': "sdo_func (S\<lparr>sdo_ODF_arg := ?a\<rparr>) = Some (Some f)" by (simp add: sdo_func_def split: if_splits)
    obtain code ds W' where o: "odf f ?a W = Some (code, ?a\<lparr>arg_data := ds\<rparr>, W')" "length ds = length (sdo_data S)"
      "frame_ok ainv txb n dict m0 (S\<lparr>sdo_ODF_arg := ?a\<lparr>arg_data := ds\<rparr>\<rparr>) W'"
      using odf_frame [OF fr, of f] st loc f' bs(2) len by (auto simp: located_def)
    have fr': "frame_ok ainv txb n dict m0 S W'" using frame_ok_arg [OF o(3), of "sdo_ODF_arg S"] o(2) by simp
    show ?thesis using False st bs len(1,2) f o(1,2)
      by (auto simp: CO_SDO_readOD_def sdo_put_data_some sdo_upd_arg_def sdo_advance_def arg_same_def Let_def
          intro!: access_okI [OF fr'])
  next
    case nof: False
    then consider "sdo_func S = None" | "sdo_func S = Some None" by (metis option.exhaust)
    then show ?thesis using False st bs len(1,2)
      by cases (auto simp: CO_SDO_readOD_def sdo_put_data_some sdo_upd_arg_def sdo_advance_def arg_same_def Let_def
          intro!: access_okI [OF assms(1)])
  qed
qed

lemma sdo_call_ok:
  assumes "frame_ok ainv txb n dict m0 S W" "sdo_storage S \<noteq> ONull" "located S"
  shows "\<exists>code ds W'. sdo_call odf S W = Some (code, S\<lparr>sdo_ODF_arg := (sdo_ODF_arg S)\<lparr>arg_data := ds\<rparr>\<rparr>, W') \<and>
    length ds = length (sdo_data S) \<and> frame_ok ainv txb n dict m0 (S\<lparr>sdo_ODF_arg := (sdo_ODF_arg S)\<lparr>arg_data := ds\<rparr>\<rparr>) W'"
proof (cases "\<exists>f. sdo_func S = Some (Some f)")
  case True
  then obtain f where f: "sdo_func S = Some (Some f)" by blast
  obtain code ds W' where o: "odf f (sdo_ODF_arg S) W = Some (code, (sdo_ODF_arg S)\<lparr>arg_data := ds\<rparr>, W')" "length ds = length (sdo_data S)"
    "frame_ok ainv txb n dict m0 (S\<lparr>sdo_ODF_arg := (sdo_ODF_arg S)\<lparr>arg_data := ds\<rparr>\<rparr>) W'"
    using odf_frame [OF assms f] by auto
  then show ?thesis using f by (intro exI [of _ code] exI [of _ ds] exI [of _ W']) (simp add: sdo_call_def)
next
  case False
  then have "sdo_call odf S W = Some (CO_SDO_AB_NONE, S, W)" by (auto simp: sdo_call_def split: option.splits)
  then show ?thesis using assms(1) by (intro exI [of _ CO_SDO_AB_NONE] exI [of _ "sdo_data S"] exI [of _ W]) simp
qed

lemma writeOD_ok:
  assumes "frame_ok ainv txb n dict m0 S W" "transfer_ok n S"
  shows "access_ok ainv txb n dict m0 S (CO_SDO_writeOD odf S W len)"
proof (cases "arg_attribute (sdo_ODF_arg S) AND CO_ODA_WRITEABLE = 0 \<or> sdo_dataLength S \<noteq> len")
  case True
  have "sdo_storage S \<noteq> ONull" using assms(2) by (auto simp: transfer_ok_def storage_ok_def)
  then show ?thesis using True access_okI [OF assms(1), of "sdo_ODF_arg S"] by (auto simp: CO_SDO_writeOD_def arg_same_def)
next
  case False
  have st: "sdo_storage S \<noteq> ONull" and loc: "located (S\<lparr>sdo_ODF_arg := (sdo_ODF_arg S)\<lparr>arg_dataLength := len, arg_reading := False\<rparr>\<rparr>)"
    using assms(2) by (auto simp: transfer_ok_def storage_ok_def located_def)
  have len: "unat len \<le> 889" "length (sdo_data S) = 889"
    using assms False by (auto simp: transfer_ok_def frame_ok_def core_ok_def world_ok_def word_le_nat_alt)
  let ?a = "(sdo_ODF_arg S)\<lparr>arg_dataLength := len, arg_reading := False\<rparr>"
  have fr: "frame_ok ainv txb n dict m0 (S\<lparr>sdo_ODF_arg := ?a\<rparr>) W" using frame_ok_arg [OF assms(1), of ?a] by simp
  obtain code ds W' where call: "sdo_call odf (S\<lparr>sdo_ODF_arg := ?a\<rparr>) W = Some (code, S\<lparr>sdo_ODF_arg := ?a\<lparr>arg_data := ds\<rparr>\<rparr>, W')"
    and ds: "length ds = 889" and fr': "frame_ok ainv txb n dict m0 S W'"
    using sdo_call_ok [OF fr _ loc] frame_ok_arg [of ainv txb n dict m0 _ _ "sdo_ODF_arg S"] st len by fastforce
  have m: "length (wd_mem W') = n" "protected_same dict m0 (wd_mem W')" "world_ok txb n W'" "sdo_dict S = dict"
    using fr' by (auto simp: frame_ok_def world_ok_def)
  have wr: "\<exists>mem. mem_write (wd_mem W') (sdo_storage S) (take (unat len) ds) = Some mem \<and> frame_ok ainv txb n dict m0 S (W'\<lparr>wd_mem := mem\<rparr>)"
    if exc: "\<not> (arg_index (sdo_ODF_arg S) = 0x1003 \<and> arg_subIndex (sdo_ODF_arg S) = 0)"
  proof -
    obtain a where a: "sdo_storage S = OAddr a" "a + unat len \<le> n" "\<And>i. a \<le> i \<Longrightarrow> i < a + unat len \<Longrightarrow> byte_writable dict i"
      using assms(2) False exc m(4) by (auto simp: transfer_ok_def storage_ok_def split: od_ptr.splits)
    have "length (take (unat len) ds) = unat len" using ds len by simp
    then have "protected_same dict (wd_mem W') (memcpy_at (wd_mem W') a (take (unat len) ds))"
      using a m(1) by (intro protected_write) auto
    then show ?thesis using a m fr' ds len protected_trans [OF m(2)]
      by (auto simp: mem_write_def frame_ok_def world_ok_def)
  qed
  show ?thesis
  proof (cases "arg_index (sdo_ODF_arg S) = 0x1003 \<and> arg_subIndex (sdo_ODF_arg S) = 0")
    case True
    then show ?thesis using False st call ds len
      by (auto simp: CO_SDO_writeOD_def sdo_upd_arg_def sdo_advance_def arg_same_def Let_def intro!: access_okI [OF fr'])
  next
    case exc: False
    then obtain mem where w: "mem_write (wd_mem W') (sdo_storage S) (take (unat len) ds) = Some mem"
      "frame_ok ainv txb n dict m0 S (W'\<lparr>wd_mem := mem\<rparr>)" using wr by blast
    then show ?thesis using False st call ds len exc
      by (auto simp: CO_SDO_writeOD_def sdo_upd_arg_def sdo_advance_def sdo_get_data_def arg_same_def Let_def
          intro!: access_okI [OF fr'] access_okI [OF w(2)])
  qed
qed

end

subsection \<open>The cases of the state machine\<close>

lemma frame_ok_upd [simp]:
  "frame_ok ainv txb n dict m0 (S\<lparr>sdo_state := st\<rparr>) W = frame_ok ainv txb n dict m0 S W"
  "frame_ok ainv txb n dict m0 (S\<lparr>sdo_bufferOffset := w\<rparr>) W = frame_ok ainv txb n dict m0 S W"
  "frame_ok ainv txb n dict m0 (S\<lparr>sdo_sequence := b\<rparr>) W = frame_ok ainv txb n dict m0 S W"
  "frame_ok ainv txb n dict m0 (S\<lparr>sdo_blksize := b\<rparr>) W = frame_ok ainv txb n dict m0 S W"
  "frame_ok ainv txb n dict m0 (S\<lparr>sdo_crcEnabled := c\<rparr>) W = frame_ok ainv txb n dict m0 S W"
  "frame_ok ainv txb n dict m0 (S\<lparr>sdo_crc := w\<rparr>) W = frame_ok ainv txb n dict m0 S W"
  "frame_ok ainv txb n dict m0 (S\<lparr>sdo_lastLen := b\<rparr>) W = frame_ok ainv txb n dict m0 S W"
  "frame_ok ainv txb n dict m0 (S\<lparr>sdo_timeoutSubblockDownolad := c\<rparr>) W = frame_ok ainv txb n dict m0 S W"
  "frame_ok ainv txb n dict m0 (S\<lparr>sdo_endOfTransfer := c\<rparr>) W = frame_ok ainv txb n dict m0 S W"
  "frame_ok ainv txb n dict m0 (S\<lparr>sdo_timeoutTimer := t\<rparr>) W = frame_ok ainv txb n dict m0 S W"
  "frame_ok ainv txb n dict m0 (S\<lparr>sdo_signals := k\<rparr>) W = frame_ok ainv txb n dict m0 S W"
  by (simp_all add: frame_ok_def core_ok_def queue_ok_def)

lemma transfer_ok_upd [simp]:
  "transfer_ok n (S\<lparr>sdo_state := st\<rparr>) = transfer_ok n S"
  "transfer_ok n (S\<lparr>sdo_bufferOffset := w\<rparr>) = transfer_ok n S"
  "transfer_ok n (S\<lparr>sdo_sequence := b\<rparr>) = transfer_ok n S"
  "transfer_ok n (S\<lparr>sdo_blksize := b\<rparr>) = transfer_ok n S"
  "transfer_ok n (S\<lparr>sdo_crcEnabled := c\<rparr>) = transfer_ok n S"
  "transfer_ok n (S\<lparr>sdo_crc := w\<rparr>) = transfer_ok n S"
  "transfer_ok n (S\<lparr>sdo_lastLen := b\<rparr>) = transfer_ok n S"
  "transfer_ok n (S\<lparr>sdo_timeoutSubblockDownolad := c\<rparr>) = transfer_ok n S"
  "transfer_ok n (S\<lparr>sdo_endOfTransfer := c\<rparr>) = transfer_ok n S"
  "transfer_ok n (S\<lparr>sdo_timeoutTimer := t\<rparr>) = transfer_ok n S"
  "transfer_ok n (S\<lparr>sdo_signals := k\<rparr>) = transfer_ok n S"
  by (simp_all add: transfer_ok_def located_def)

definition go_ok :: "nat \<Rightarrow> CO_SDO_state_t \<Rightarrow> CO_SDO_t \<Rightarrow> bool" where
  \<comment> \<open>the state the \<^verbatim>\<open>switch\<close> is entered with\<close>
  "go_ok n st S \<longleftrightarrow> transfer_ok n S \<and>
     (case st of
        CO_SDO_ST_DOWNLOAD_INITIATE \<Rightarrow> sdo_state S = CO_SDO_ST_IDLE
      | CO_SDO_ST_DOWNLOAD_BL_INITIATE \<Rightarrow> sdo_state S = CO_SDO_ST_IDLE
      | CO_SDO_ST_UPLOAD_INITIATE \<Rightarrow> sdo_state S = CO_SDO_ST_IDLE
      | CO_SDO_ST_UPLOAD_BL_INITIATE \<Rightarrow> sdo_state S = CO_SDO_ST_IDLE \<and> sdo_dataLength S \<noteq> 0
      | CO_SDO_ST_DOWNLOAD_BL_SUB_RESP_2 \<Rightarrow>
          sdo_timeoutSubblockDownolad S \<and> state_ok CO_SDO_ST_DOWNLOAD_BL_SUBBLOCK S \<or>
          sdo_state S = st \<and> state_ok st S
      | _ \<Rightarrow> sdo_state S = st \<and> st \<noteq> CO_SDO_ST_IDLE \<and> state_ok st S)"

definition result_ok ::
    "(u16 \<Rightarrow> 'w \<Rightarrow> bool) \<Rightarrow> nat \<Rightarrow> nat \<Rightarrow> CO_SDO_OD \<Rightarrow> u8 list \<Rightarrow> 'w sdo_result \<Rightarrow> bool" where
  "result_ok ainv txb n dict m0 r \<longleftrightarrow>
     (\<exists>S W out. r = Some (S, W, out) \<and> frame_ok ainv txb n dict m0 S W \<and>
        (case out of
           SdoAbort _ \<Rightarrow> True
         | SdoGo st _ \<Rightarrow> if st = CO_SDO_ST_IDLE then sdo_inv txb n S else go_ok n st S
         | SdoClientAbort \<Rightarrow> sdo_inv txb n S \<and> sdo_state S = CO_SDO_ST_IDLE
         | SdoBreak _ _ \<Rightarrow> sdo_inv txb n S))"

lemma result_abort [intro!]: "frame_ok ainv txb n dict m0 S W \<Longrightarrow> result_ok ainv txb n dict m0 (Some (S, W, SdoAbort code))"
  by (simp add: result_ok_def)

definition case_ok ::
    "(u16 \<Rightarrow> 'w \<Rightarrow> bool) \<Rightarrow> nat \<Rightarrow> nat \<Rightarrow> CO_SDO_OD \<Rightarrow> u8 list \<Rightarrow> 'w sdo_result \<Rightarrow> bool" where
  \<comment> \<open>a case of the \<^verbatim>\<open>switch\<close> ends with an abort or with \<^verbatim>\<open>break\<close>\<close>
  "case_ok ainv txb n dict m0 r \<longleftrightarrow> result_ok ainv txb n dict m0 r \<and> (\<forall>S W st dt. r \<noteq> Some (S, W, SdoGo st dt))"

lemma case_abort [intro!]: "frame_ok ainv txb n dict m0 S W \<Longrightarrow> case_ok ainv txb n dict m0 (Some (S, W, SdoAbort code))"
  by (auto simp: case_ok_def)

lemma case_break [intro!]:
  "frame_ok ainv txb n dict m0 S W \<Longrightarrow> state_ok (sdo_state S) S \<Longrightarrow> (sdo_state S \<noteq> CO_SDO_ST_IDLE \<longrightarrow> transfer_ok n S) \<Longrightarrow>
     case_ok ainv txb n dict m0 (Some (S, W, SdoBreak s z))"
  by (simp add: case_ok_def result_ok_def sdo_inv_def frame_ok_def)

lemma sdo_check_ok:
  assumes "access_ok ainv txb n dict m0 S r" "transfer_ok n S"
    and "\<And>a' W'. arg_same (sdo_ODF_arg S) a' \<Longrightarrow> frame_ok ainv txb n dict m0 (S\<lparr>sdo_ODF_arg := a'\<rparr>) W' \<Longrightarrow>
      transfer_ok n (S\<lparr>sdo_ODF_arg := a'\<rparr>) \<Longrightarrow> case_ok ainv txb n dict m0 (k (S\<lparr>sdo_ODF_arg := a'\<rparr>) W')"
  shows "case_ok ainv txb n dict m0 (sdo_check r k)"
  using assms transfer_ok_same [OF assms(2)] by (auto simp: access_ok_def sdo_check_def)

lemma frame_data: "frame_ok ainv txb n dict m0 S W \<Longrightarrow> length (sdo_data S) = 889"
  by (simp add: frame_ok_def core_ok_def)

lemma transfer_length: "transfer_ok n S \<Longrightarrow> unat (sdo_dataLength S) \<le> 889"
  by (simp add: transfer_ok_def word_le_nat_alt)

lemma transfer_storage: "transfer_ok n S \<Longrightarrow> sdo_storage S \<noteq> ONull"
  by (auto simp: transfer_ok_def storage_ok_def)

lemma transfer_last: "transfer_ok n S \<Longrightarrow> arg_lastSegment (sdo_ODF_arg S)"
  by (simp add: transfer_ok_def)

lemma transfer_total [simp]:
  "transfer_ok n (S\<lparr>sdo_ODF_arg := a\<lparr>arg_dataLengthTotal := t\<rparr>\<rparr>) = transfer_ok n (S\<lparr>sdo_ODF_arg := a\<rparr>)"
  by (simp add: transfer_ok_def located_def storage_ok_def cong: od_ptr.case_cong)

lemma unat_ucast_u16 [simp]: "unat (ucast (b :: u8) :: u16) = unat b"
proof -
  have "unat b < 2 ^ 16" using unat_u8_less [of b] order.strict_trans2 [of "unat b" 256 "2 ^ 16"] by simp
  then show ?thesis by (simp add: unsigned_ucast_eq take_bit_nat_eq_self)
qed

lemma transfer_lastSegment [simp]:
  "transfer_ok n (S\<lparr>sdo_ODF_arg := a\<rparr>) \<Longrightarrow> transfer_ok n (S\<lparr>sdo_ODF_arg := a\<lparr>arg_lastSegment := True\<rparr>\<rparr>)"
  by (auto simp: transfer_ok_def located_def storage_ok_def split: od_ptr.splits)

lemma queue_ok_done: "queue_ok S \<Longrightarrow> queue_ok (CO_SDO_process_done S)"
  by (auto simp: CO_SDO_process_done_def Let_def queue_ok_def CO_SDO_RX_DATA_SIZE_def word_less_nat_alt word_le_nat_alt unat_word_ariths)

lemma done_fields [simp]:
  "sdo_dict (CO_SDO_process_done S) = sdo_dict S" "sdo_head (CO_SDO_process_done S) = sdo_head S"
  "sdo_ODF_arg (CO_SDO_process_done S) = sdo_ODF_arg S" "sdo_CANtxBuff (CO_SDO_process_done S) = sdo_CANtxBuff S"
  "sdo_state (CO_SDO_process_done S) = sdo_state S" "sdo_bufferOffset (CO_SDO_process_done S) = sdo_bufferOffset S"
  "sdo_sequence (CO_SDO_process_done S) = sdo_sequence S" "sdo_blksize (CO_SDO_process_done S) = sdo_blksize S"
  "sdo_endOfTransfer (CO_SDO_process_done S) = sdo_endOfTransfer S" "sdo_entryNo (CO_SDO_process_done S) = sdo_entryNo S"
  "sdo_timeoutTimer (CO_SDO_process_done S) = sdo_timeoutTimer S"
  "sdo_SDOtimeoutTime_us (CO_SDO_process_done S) = sdo_SDOtimeoutTime_us S"
  by (simp_all add: CO_SDO_process_done_def Let_def)

lemma frame_ok_done: "frame_ok ainv txb n dict m0 S W \<Longrightarrow> frame_ok ainv txb n dict m0 (CO_SDO_process_done S) W"
  by (auto simp: frame_ok_def core_ok_def queue_ok_done)

lemma transfer_ok_done: "transfer_ok n (CO_SDO_process_done S) = transfer_ok n S"
  by (simp add: transfer_ok_def located_def)

lemma state_ok_timer [simp]: "state_ok st (S\<lparr>sdo_timeoutTimer := x\<rparr>) = state_ok st S"
  by (cases st) simp_all

lemma go_ok_timer [simp]: "go_ok n st (S\<lparr>sdo_timeoutTimer := x\<rparr>) = go_ok n st S"
  by (cases st) (simp_all add: go_ok_def)

lemma state_ok_done: "state_ok st (CO_SDO_process_done S) = state_ok st S"
  by (cases st) simp_all

lemma sdo_append_ok:
  assumes "frame_ok ainv txb n dict m0 S W" "unat (sdo_bufferOffset S) + length bs \<le> 889"
  obtains S' a where "sdo_append bs S = Some S'" "S' = S\<lparr>sdo_ODF_arg := a, sdo_bufferOffset := sdo_bufferOffset S + word_of_nat (length bs)\<rparr>"
    "arg_same (sdo_ODF_arg S) a" "unat (sdo_bufferOffset S') = unat (sdo_bufferOffset S) + length bs"
    "frame_ok ainv txb n dict m0 S' W"
proof -
  let ?a = "(sdo_ODF_arg S)\<lparr>arg_data := memcpy_at (sdo_data S) (unat (sdo_bufferOffset S)) bs\<rparr>"
  note l = frame_data [OF assms(1)]
  have "unat (sdo_bufferOffset S + word_of_nat (length bs)) = unat (sdo_bufferOffset S) + length bs"
    using assms(2) by (simp add: unat_word_ariths unsigned_of_nat take_bit_eq_mod)
  then show ?thesis using that [of "S\<lparr>sdo_ODF_arg := ?a, sdo_bufferOffset := sdo_bufferOffset S + word_of_nat (length bs)\<rparr>" ?a] l assms
      frame_ok_arg [OF assms(1), of ?a] by (simp add: sdo_append_def sdo_put_data_some)
qed

context od_functions
begin

lemma download_initiate_ok:
  assumes "frame_ok ainv txb n dict m0 S W" "transfer_ok n S" "length rx = 8"
  shows "case_ok ainv txb n dict m0 (sdo_download_initiate odf txb rx S W)"
proof (cases "rx ! 0 AND 0x02 \<noteq> 0")
  case True
  define bs where "bs = take 4 (drop 4 rx)"
  have bs: "length bs = 4" using assms(3) by (simp add: bs_def)
  let ?a = "(sdo_ODF_arg S)\<lparr>arg_data := memcpy_at (sdo_data S) 0 bs\<rparr>"
  note l = frame_data [OF assms(1)]
  have fr: "frame_ok ainv txb n dict m0 (S\<lparr>sdo_ODF_arg := ?a\<rparr>) (sdo_tx txb 0 [0x60, rx ! 1, rx ! 2, rx ! 3] W)"
    using frame_ok_arg [OF assms(1), of ?a] l bs by (intro frame_ok_tx) simp_all
  have tr: "transfer_ok n (S\<lparr>sdo_ODF_arg := ?a\<rparr>)" using transfer_ok_same [OF assms(2), of ?a] l bs by simp
  show ?thesis
    unfolding sdo_download_initiate_def Let_def bs_def [symmetric] using True l bs
    by (auto simp: sdo_put_data_some simp del: One_nat_def intro!: sdo_check_ok [OF writeOD_ok [OF fr tr] tr])
next
  case False
  then show ?thesis
    unfolding sdo_download_initiate_def Let_def sdo_upd_arg_def using assms(1,2) frame_ok_arg [OF assms(1)]
    by (auto intro!: frame_ok_tx)
qed

lemma segment_length: "unat (7 - (drop_bit 1 (b :: u8) AND 0x07)) \<le> 7"
proof -
  have "drop_bit 1 b AND 0x07 \<le> 7" by (rule word_and_le1)
  then show ?thesis by (simp add: unat_sub word_le_nat_alt)
qed

lemma segment_store_ok:
  assumes "frame_ok ainv txb n dict m0 S W" "transfer_ok n S" "length rx = 8" "len \<le> 7"
    and "unat (sdo_bufferOffset S) + len \<le> unat (sdo_dataLength S)" "sdo_state S = CO_SDO_ST_DOWNLOAD_SEGMENTED"
  shows "case_ok ainv txb n dict m0 (sdo_segment_store odf txb rx len S W)"
proof -
  let ?bs = "take len (drop 1 rx)"
  have bs: "length ?bs = len" using assms(3,4) by simp
  have "unat (sdo_bufferOffset S) + length ?bs \<le> 889" using assms(5) transfer_length [OF assms(2)] bs by linarith
  then obtain S1 a where s: "sdo_append ?bs S = Some S1"
    "S1 = S\<lparr>sdo_ODF_arg := a, sdo_bufferOffset := sdo_bufferOffset S + word_of_nat (length ?bs)\<rparr>" "arg_same (sdo_ODF_arg S) a"
    "unat (sdo_bufferOffset S1) = unat (sdo_bufferOffset S) + length ?bs" "frame_ok ainv txb n dict m0 S1 W"
    by (rule sdo_append_ok [OF assms(1)])
  have tr: "transfer_ok n S1" using transfer_ok_same [OF assms(2) s(3)] s(2) by simp
  have off: "sdo_bufferOffset S1 \<le> sdo_dataLength S1" using s(2-4) assms(5) bs by (simp add: word_le_nat_alt arg_same_def)
  let ?S = "S1\<lparr>sdo_ODF_arg := (sdo_ODF_arg S1)\<lparr>arg_lastSegment := True\<rparr>\<rparr>"
  have fr: "frame_ok ainv txb n dict m0 ?S W" using frame_ok_arg [OF s(5), of "(sdo_ODF_arg S1)\<lparr>arg_lastSegment := True\<rparr>"] by simp
  have tr': "transfer_ok n ?S" using tr by simp
  show ?thesis
  proof (cases "rx ! 0 AND 0x01 \<noteq> 0")
    case True
    then show ?thesis unfolding sdo_segment_store_def s(1) sdo_upd_arg_def
      by (auto simp: sdo_toggle_def intro!: sdo_check_ok [OF writeOD_ok [OF fr tr'] tr'] frame_ok_tx)
  next
    case False
    then show ?thesis unfolding sdo_segment_store_def s(1)
      using s(5) tr off s(2) assms(6) by (auto simp: sdo_toggle_def intro!: frame_ok_tx)
  qed
qed

lemma download_segmented_ok:
  assumes "frame_ok ainv txb n dict m0 S W" "transfer_ok n S" "length rx = 8" "sdo_state S = CO_SDO_ST_DOWNLOAD_SEGMENTED"
  shows "case_ok ainv txb n dict m0 (sdo_download_segmented odf txb rx S W)"
  using assms transfer_storage [OF assms(2)]
  by (auto simp: sdo_download_segmented_def Let_def not_less simp del: One_nat_def intro!: segment_store_ok segment_length)

lemma download_bl_initiate_ok:
  assumes "frame_ok ainv txb n dict m0 S W" "transfer_ok n S"
  shows "case_ok ainv txb n dict m0 (sdo_download_bl_initiate txb rx S W)"
  unfolding sdo_download_bl_initiate_def Let_def sdo_upd_arg_def using assms
  by (auto intro!: frame_ok_tx frame_ok_arg)

lemma sub_resp_end_ok:
  assumes "frame_ok ainv txb n dict m0 S W" "transfer_ok n S" "state_ok CO_SDO_ST_DOWNLOAD_BL_SUBBLOCK S"
    and "lst \<Longrightarrow> 7 \<le> sdo_bufferOffset S"
  shows "case_ok ainv txb n dict m0 (sdo_sub_resp_end txb lst S W)"
  unfolding sdo_sub_resp_end_def Let_def using assms by (auto intro!: frame_ok_tx)

lemma download_bl_sub_resp_ok:
  assumes "frame_ok ainv txb n dict m0 S W" "transfer_ok n S" "sdo_bufferOffset S \<le> CO_CONFIG_SDO_BUFFER_SIZE"
    and "sdo_sequence S \<noteq> 0 \<or> \<not> sdo_timeoutSubblockDownolad S \<longrightarrow> 7 \<le> sdo_bufferOffset S"
  shows "case_ok ainv txb n dict m0 (sdo_download_bl_sub_resp odf txb rx st S W)"
  unfolding sdo_download_bl_sub_resp_def Let_def using assms transfer_storage [OF assms(2)]
  by (auto intro!: sub_resp_end_ok frame_ok_tx)

lemma crc_data_ok:
  assumes "frame_ok ainv txb n dict m0 S W" "k \<le> 889"
  shows "\<exists>bs. (if c then sdo_get_data 0 k S else Some []) = Some bs"
  using assms frame_data [OF assms(1)] by (auto simp: sdo_get_data_def)

lemma sdo_get_data_offset [simp]: "sdo_get_data k m (S\<lparr>sdo_bufferOffset := w\<rparr>) = sdo_get_data k m S"
  by (simp add: sdo_get_data_def)

lemma download_bl_end_ok:
  assumes "frame_ok ainv txb n dict m0 S W" "transfer_ok n S" "state_ok CO_SDO_ST_DOWNLOAD_BL_END S"
  shows "case_ok ainv txb n dict m0 (sdo_download_bl_end odf txb rx S W)"
proof -
  let ?len = "ucast (drop_bit 2 (rx ! 0) AND 0x07) :: u16"
  have "drop_bit 2 (rx ! 0) AND 0x07 \<le> 7" by (rule word_and_le1)
  then have "unat ?len \<le> 7" by (simp add: word_le_nat_alt)
  then have off: "unat (sdo_bufferOffset S - ?len) \<le> 889"
    using assms(3) by (auto simp: word_le_nat_alt unat_sub)
  obtain bs where bs: "(if sdo_crcEnabled S then sdo_get_data 0 (unat (sdo_bufferOffset S - ?len)) S else Some []) = Some bs"
    using crc_data_ok [OF assms(1) off] by blast
  define crc where "crc = (if sdo_crcEnabled S then crc16_ccitt bs (length bs) (sdo_crc S) else sdo_crc S)"
  let ?S = "S\<lparr>sdo_bufferOffset := sdo_bufferOffset S - ?len, sdo_crc := crc, sdo_ODF_arg := (sdo_ODF_arg S)\<lparr>arg_lastSegment := True\<rparr>\<rparr>"
  have fr: "frame_ok ainv txb n dict m0 ?S W" and tr: "transfer_ok n ?S"
    using assms(1,2) by simp_all
  show ?thesis
  proof (cases "rx ! 0 AND 0xE1 \<noteq> 0xC1")
    case False
    show ?thesis
    proof (cases "sdo_crcEnabled S \<and> crc \<noteq> word_of_nat (le_value (take 2 (drop 1 rx)))")
      case True
      have "sdo_download_bl_end odf txb rx S W = Some (S\<lparr>sdo_bufferOffset := sdo_bufferOffset S - ?len, sdo_crc := crc\<rparr>, W, SdoAbort CO_SDO_AB_CRC)"
        unfolding sdo_download_bl_end_def using False True bs by (auto simp: crc_def Let_def)
      then show ?thesis using assms(1) by auto
    next
      case crc_ok: False
      have "sdo_download_bl_end odf txb rx S W = sdo_check (CO_SDO_writeOD odf ?S W (sdo_bufferOffset ?S))
          (\<lambda>S3 W3. Some (S3\<lparr>sdo_state := CO_SDO_ST_IDLE\<rparr>, sdo_tx txb 0 [0xA1] W3, SdoBreak True True))"
        unfolding sdo_download_bl_end_def using False crc_ok bs
        by (cases "sdo_crcEnabled S") (simp_all add: crc_def Let_def sdo_upd_arg_def)
      then show ?thesis by (auto intro!: sdo_check_ok [OF writeOD_ok [OF fr tr] tr] frame_ok_tx)
    qed
  qed (use assms(1) in \<open>auto simp: sdo_download_bl_end_def\<close>)
qed

lemma upload_initiate_ok:
  assumes "frame_ok ainv txb n dict m0 S W" "transfer_ok n S"
  shows "case_ok ainv txb n dict m0 (sdo_upload_initiate txb rx S W)"
proof (cases "sdo_dataLength S \<le> 4")
  case True
  then have "unat (sdo_dataLength S) \<le> 4" by (simp add: word_le_nat_alt)
  then show ?thesis unfolding sdo_upload_initiate_def Let_def using True assms frame_data [OF assms(1)]
    by (auto simp: sdo_get_data_def intro!: frame_ok_tx)
next
  case False
  then show ?thesis unfolding sdo_upload_initiate_def Let_def using assms by (auto intro!: frame_ok_tx)
qed

lemma upload_get_ok:
  assumes "frame_ok ainv txb n dict m0 S W" "transfer_ok n S" "sdo_bufferOffset S \<le> sdo_dataLength S"
  defines "len \<equiv> min (unat (sdo_dataLength S - sdo_bufferOffset S)) 7"
  obtains bs where "sdo_get_data (unat (sdo_bufferOffset S)) len S = Some bs" "length bs = len"
    "unat (sdo_bufferOffset S + word_of_nat len) = unat (sdo_bufferOffset S) + len"
    "unat (sdo_bufferOffset S) + len \<le> unat (sdo_dataLength S)"
proof -
  have le: "unat (sdo_bufferOffset S) \<le> unat (sdo_dataLength S)" using assms(3) by (simp add: word_le_nat_alt)
  then have len: "unat (sdo_bufferOffset S) + len \<le> unat (sdo_dataLength S)"
    using assms(3) by (auto simp: len_def unat_sub)
  then have "unat (sdo_bufferOffset S) + len < 65536" using unat_u16_less [of "sdo_dataLength S"] by linarith
  then have "unat (sdo_bufferOffset S + word_of_nat len) = unat (sdo_bufferOffset S) + len"
    by (simp add: unat_word_ariths unsigned_of_nat take_bit_eq_mod)
  then show ?thesis
    using that [of "take len (drop (unat (sdo_bufferOffset S)) (sdo_data S))"] len transfer_length [OF assms(2)] frame_data [OF assms(1)]
    by (simp add: sdo_get_data_def)
qed

lemma upload_segment_send_ok:
  assumes "frame_ok ainv txb n dict m0 S W" "transfer_ok n S" "sdo_bufferOffset S \<le> sdo_dataLength S"
    and "sdo_state S = CO_SDO_ST_UPLOAD_SEGMENTED"
  shows "case_ok ainv txb n dict m0 (sdo_upload_segment_send txb S W)"
proof -
  let ?len = "min (unat (sdo_dataLength S - sdo_bufferOffset S)) 7"
  obtain bs where bs: "sdo_get_data (unat (sdo_bufferOffset S)) ?len S = Some bs" "length bs = ?len"
    "unat (sdo_bufferOffset S + word_of_nat ?len) = unat (sdo_bufferOffset S) + ?len"
    "unat (sdo_bufferOffset S) + ?len \<le> unat (sdo_dataLength S)"
    by (rule upload_get_ok [OF assms(1-3)])
  have le: "sdo_bufferOffset S + word_of_nat ?len \<le> sdo_dataLength S" unfolding word_le_nat_alt bs(3) by (rule bs(4))
  show ?thesis unfolding sdo_upload_segment_send_def Let_def bs(1) using assms bs(2) le
    by (auto simp: sdo_toggle_def intro!: frame_ok_tx)
qed

lemma upload_segmented_ok:
  assumes "frame_ok ainv txb n dict m0 S W" "transfer_ok n S" "sdo_bufferOffset S \<le> sdo_dataLength S"
    and "sdo_state S = CO_SDO_ST_UPLOAD_SEGMENTED"
  shows "case_ok ainv txb n dict m0 (sdo_upload_segmented odf txb rx S W)"
  using upload_segment_send_ok [OF assms] transfer_storage [OF assms(2)] assms(1)
  by (auto simp: sdo_upload_segmented_def Let_def)

lemma upload_bl_initiate_ok:
  assumes "frame_ok ainv txb n dict m0 S W" "transfer_ok n S" "sdo_dataLength S \<noteq> 0"
  shows "case_ok ainv txb n dict m0 (sdo_upload_bl_initiate txb rx S W)"
proof -
  obtain bs where bs: "(if rx ! 0 AND 0x04 \<noteq> 0 then sdo_get_data 0 (unat (sdo_dataLength S)) S else Some []) = Some bs"
    using crc_data_ok [OF assms(1) transfer_length [OF assms(2)]] by blast
  show ?thesis unfolding sdo_upload_bl_initiate_def Let_def bs using assms by (auto intro!: frame_ok_tx)
qed

lemma upload_bl_send_ok:
  assumes "frame_ok ainv txb n dict m0 S W" "transfer_ok n S" "sdo_state S = CO_SDO_ST_UPLOAD_BL_SUBBLOCK"
    and "state_ok CO_SDO_ST_UPLOAD_BL_SUBBLOCK S"
  shows "case_ok ainv txb n dict m0 (sdo_upload_bl_send txb S W)"
proof (cases "sdo_sequence S = sdo_blksize S \<or> sdo_endOfTransfer S")
  case True
  then show ?thesis using assms by (auto simp: sdo_upload_bl_send_def simp del: state_ok.simps)
next
  case False
  let ?off = "unat (sdo_bufferOffset S)" let ?dl = "unat (sdo_dataLength S)" let ?sq = "unat (sdo_sequence S)"
  define len where "len = min (unat (sdo_dataLength S - sdo_bufferOffset S)) 7"
  define off' where "off' = sdo_bufferOffset S + word_of_nat len"
  have "?off = min (7 * ?sq) ?dl" "?off \<noteq> ?dl" using assms(4) False by (auto simp: word_unat_eq_iff)
  then have lt: "7 * ?sq < ?dl" "?off = 7 * ?sq" by auto
  have le: "sdo_bufferOffset S \<le> sdo_dataLength S" using lt by (simp add: word_le_nat_alt)
  obtain bs where bs: "sdo_get_data ?off len S = Some bs" "length bs = len" "unat off' = ?off + len"
    unfolding len_def off'_def by (rule upload_get_ok [OF assms(1,2) le])
  have len: "len = min (?dl - 7 * ?sq) 7" using le lt by (simp add: len_def unat_sub)
  have "sdo_sequence S < sdo_blksize S" using assms(4) False by (simp add: order_less_le)
  then have "?sq < unat (sdo_blksize S)" by (simp add: word_less_nat_alt)
  moreover from this have "?sq + 1 < 256" using unat_u8_less [of "sdo_blksize S"] by linarith
  ultimately have sq: "unat (sdo_sequence S + 1) = ?sq + 1" "sdo_sequence S + 1 \<le> sdo_blksize S"
    by (simp_all add: unat_word_ariths word_le_nat_alt)
  have new: "unat off' = min (7 * (?sq + 1)) ?dl" unfolding bs(3) len lt(2) using lt(1) by simp
  have dl: "sdo_dataLength S \<noteq> 0" using assms(4) by simp
  have fr: "frame_ok ainv txb n dict m0 S (sdo_tx txb 0 [b] (sdo_tx txb 1 bs W))" for b
    using assms(1) bs(2) by (intro frame_ok_tx) (simp_all add: len_def)
  show ?thesis
  proof (cases "off' = sdo_dataLength S")
    case True
    let ?S = "S\<lparr>sdo_timeoutTimer := 0, sdo_bufferOffset := off', sdo_sequence := sdo_sequence S + 1,
       sdo_lastLen := word_of_nat len, sdo_blksize := sdo_sequence S + 1, sdo_endOfTransfer := True\<rparr>"
    have run: "sdo_upload_bl_send txb S W =
        Some (?S, sdo_tx txb 0 [(sdo_sequence S + 1) OR 0x80] (sdo_tx txb 1 bs W), SdoBreak True True)"
      unfolding sdo_upload_bl_send_def Let_def len_def [symmetric] bs(1) off'_def [symmetric]
      using False True transfer_last [OF assms(2)] by simp
    have "state_ok CO_SDO_ST_UPLOAD_BL_SUBBLOCK ?S" using new sq(1) lt(1) True dl by simp
    then show ?thesis unfolding run using fr assms(2,3) by (intro case_break) (simp_all del: state_ok.simps)
  next
    case ne: False
    let ?S = "S\<lparr>sdo_timeoutTimer := 0, sdo_bufferOffset := off', sdo_sequence := sdo_sequence S + 1\<rparr>"
    have run: "sdo_upload_bl_send txb S W = Some (?S, sdo_tx txb 0 [sdo_sequence S + 1] (sdo_tx txb 1 bs W), SdoBreak True True)"
      unfolding sdo_upload_bl_send_def Let_def len_def [symmetric] bs(1) off'_def [symmetric] using False ne by simp
    have "state_ok CO_SDO_ST_UPLOAD_BL_SUBBLOCK ?S" using new sq lt(1) ne dl False by simp
    then show ?thesis unfolding run using fr assms(2,3) by (intro case_break) (simp_all del: state_ok.simps)
  qed
qed

lemma upload_bl_next_ok:
  assumes "frame_ok ainv txb n dict m0 S W" "transfer_ok n S" "sdo_state S = CO_SDO_ST_UPLOAD_BL_SUBBLOCK" "sdo_dataLength S \<noteq> 0"
  shows "case_ok ainv txb n dict m0 (sdo_upload_bl_next txb S W)"
  unfolding sdo_upload_bl_next_def using assms by (auto intro!: upload_bl_send_ok)

lemma transfer_shorter:
  assumes "transfer_ok n S" "arg_same (sdo_ODF_arg S) a" "sdo_storage S = OAddr p" "l \<le> sdo_dataLength S"
  shows "transfer_ok n (S\<lparr>sdo_ODF_arg := a\<lparr>arg_dataLength := l\<rparr>\<rparr>)"
  using assms by (auto simp: transfer_ok_def located_def storage_ok_def arg_same_def word_le_nat_alt)

lemma upload_bl_confirm_ok:
  assumes "frame_ok ainv txb n dict m0 S W" "transfer_ok n S" "sdo_state S = CO_SDO_ST_UPLOAD_BL_SUBBLOCK"
    and "state_ok CO_SDO_ST_UPLOAD_BL_SUBBLOCK S"
  shows "case_ok ainv txb n dict m0 (sdo_upload_bl_confirm odf txb rx S W)"
proof (cases "rx ! 0 AND 0xE3 \<noteq> 0xA2 \<or> sdo_sequence S < rx ! 1 \<or> sdo_endOfTransfer S \<and> rx ! 1 = sdo_blksize S")
  case True
  then show ?thesis using assms by (auto simp: sdo_upload_bl_confirm_def Let_def intro!: frame_ok_tx)
next
  case False
  let ?ack = "rx ! 1" let ?len = "unat (sdo_dataLength S)" let ?done = "unat (rx ! 1) * 7"
  have ack: "unat ?ack \<le> unat (sdo_sequence S)" using False by (simp add: word_le_nat_alt not_less)
  have lt: "?done < ?len"
  proof (cases "?ack = sdo_sequence S")
    case True
    then have "\<not> sdo_endOfTransfer S" using False assms(4) by auto
    then show ?thesis using True assms(4) by (auto simp: word_unat_eq_iff)
  next
    case ne: False
    then have "unat ?ack < unat (sdo_sequence S)" using ack by (simp add: word_unat_eq_iff)
    moreover from this have "7 * (unat (sdo_sequence S) - 1) < ?len" using assms(4) by (auto simp: word_unat_eq_iff)
    ultimately show ?thesis by linarith
  qed
  have l: "?len \<le> 889" "length (sdo_data S) = 889" using transfer_length [OF assms(2)] frame_data [OF assms(1)] by auto
  have d: "unat (ucast ?ack * 7 :: u16) = ?done" using lt l by (simp add: unat_word_ariths)
  then have sub: "unat (sdo_dataLength S - ucast ?ack * 7) = ?len - ?done" using lt by (simp add: unat_sub word_le_nat_alt)
  let ?bs = "take (?len - ?done) (drop ?done (sdo_data S))"
  have bs: "length ?bs = ?len - ?done" using l by simp
  let ?a = "(sdo_ODF_arg S)\<lparr>arg_data := memcpy_at (sdo_data S) 0 ?bs\<rparr>"
  define S2 where "S2 = S\<lparr>sdo_ODF_arg := ?a\<lparr>arg_dataLength := sdo_dataLength S - ucast ?ack * 7\<rparr>, sdo_blksize := rx ! 2\<rparr>"
  have run: "sdo_upload_bl_confirm odf txb rx S W = sdo_upload_bl_next txb S2 W"
    unfolding sdo_upload_bl_confirm_def Let_def using False lt l bs transfer_storage [OF assms(2)]
    by (auto simp: sdo_get_data_def sdo_put_data_some sdo_upd_arg_def S2_def)
  have fr: "frame_ok ainv txb n dict m0 S2 W" using assms(1) bs l by (simp add: S2_def)
  have "sdo_dataLength S - ucast ?ack * 7 \<noteq> 0" using sub lt by (metis unat_0 zero_less_diff less_irrefl)
  moreover have "transfer_ok n S2"
  proof (cases "\<exists>p. sdo_storage S = OAddr p")
    case True
    have "arg_same (sdo_ODF_arg S) ?a" using l bs by simp
    then show ?thesis using transfer_shorter [OF assms(2), of ?a] True sub by (auto simp: S2_def word_le_nat_alt)
  next
    case no: False
    then have "sdo_dataLength S = 1" using assms(2) by (auto simp: transfer_ok_def storage_ok_def split: od_ptr.splits)
    then have "?ack = 0" using lt by (simp add: unat_eq_zero)
    then show ?thesis using transfer_ok_same [OF assms(2), of ?a] l bs by (simp add: S2_def)
  qed
  ultimately show ?thesis unfolding run using fr assms(3) by (intro upload_bl_next_ok) (simp_all add: S2_def)
qed

lemma upload_bl_initiate_2_ok:
  assumes "frame_ok ainv txb n dict m0 S W" "transfer_ok n S" "sdo_dataLength S \<noteq> 0"
  shows "case_ok ainv txb n dict m0 (sdo_upload_bl_initiate_2 txb rx S W)"
  unfolding sdo_upload_bl_initiate_2_def using assms
  by (auto intro!: upload_bl_send_ok simp: frame_ok_done transfer_ok_done)

lemma switch_ok:
  assumes "frame_ok ainv txb n dict m0 S W" "go_ok n st S" "length rx = 8"
  shows "case_ok ainv txb n dict m0 (sdo_switch odf txb rx isNew st S W)"
proof (cases "st = CO_SDO_ST_DOWNLOAD_BL_SUB_RESP_2 \<or> st = CO_SDO_ST_DOWNLOAD_BL_SUB_RESP")
  case True
  then have "transfer_ok n S" "sdo_bufferOffset S \<le> CO_CONFIG_SDO_BUFFER_SIZE"
    "sdo_sequence S \<noteq> 0 \<or> \<not> sdo_timeoutSubblockDownolad S \<longrightarrow> 7 \<le> sdo_bufferOffset S"
    using assms(2) by (auto simp: go_ok_def split: if_splits)
  then show ?thesis using True download_bl_sub_resp_ok [OF assms(1)] by (auto simp: sdo_switch_def)
next
  case False
  have tr: "transfer_ok n S" using assms(2) by (simp add: go_ok_def)
  show ?thesis
    using assms(2) False download_initiate_ok [OF assms(1) tr assms(3)] download_segmented_ok [OF assms(1) tr assms(3)]
      download_bl_initiate_ok [OF assms(1) tr] download_bl_end_ok [OF assms(1) tr] upload_initiate_ok [OF assms(1) tr]
      upload_segmented_ok [OF assms(1) tr] upload_bl_initiate_ok [OF assms(1) tr] upload_bl_initiate_2_ok [OF assms(1) tr]
      upload_bl_send_ok [OF assms(1) tr] upload_bl_confirm_ok [OF assms(1) tr] assms(1) tr
    by (cases st) (auto simp: sdo_switch_def go_ok_def sdo_upload_bl_end_def simp del: state_ok.simps(9))
qed

lemma request_ok:
  assumes "frame_ok ainv txb n dict m0 S W" "sdo_state S = CO_SDO_ST_IDLE"
  shows "result_ok ainv txb n dict m0 (sdo_request odf rx dt S W)"
proof -
  let ?index = "push_bit 8 (ucast (rx ! 2)) OR ucast (rx ! 1) :: u16"
  obtain code S1 where i: "CO_SDO_initTransfer S ?index (rx ! 3) = Some (code, S1)" "core_ok txb n S1" "sdo_dict S1 = sdo_dict S"
    "code = CO_SDO_AB_NONE \<longrightarrow> transfer_ok n S1" "sdo_state S1 = CO_SDO_ST_IDLE"
    using assms(2) CO_SDO_initTransfer_ok [of txb n S ?index "rx ! 3"] assms(1) by (auto simp: frame_ok_def simp del: One_nat_def)
  have fr: "frame_ok ainv txb n dict m0 S1 W" using assms(1) i(2,3) by (simp add: frame_ok_def)
  show ?thesis
  proof (cases "code = CO_SDO_AB_NONE")
    case True
    then have tr: "transfer_ok n S1" using i(4) by simp
    obtain code' a' W' where rd: "CO_SDO_readOD odf S1 W CO_CONFIG_SDO_BUFFER_SIZE = Some (code', S1\<lparr>sdo_ODF_arg := a'\<rparr>, W')"
      "arg_same (sdo_ODF_arg S1) a'" "frame_ok ainv txb n dict m0 (S1\<lparr>sdo_ODF_arg := a'\<rparr>) W'"
      using readOD_ok [OF fr tr, of CO_CONFIG_SDO_BUFFER_SIZE] by (auto simp: access_ok_def)
    have tr': "transfer_ok n (S1\<lparr>sdo_ODF_arg := a'\<rparr>)" by (rule transfer_ok_same [OF tr rd(2)])
    then show ?thesis using True i(1,5) fr tr rd assms(1)
      by (auto simp: sdo_request_def sdo_check_def Let_def result_ok_def go_ok_def)
  next
    case False
    then show ?thesis using i(1) fr assms(1) by (auto simp: sdo_request_def sdo_check_def Let_def)
  qed
qed

lemma select_ok:
  assumes "frame_ok ainv txb n dict m0 S W" "sdo_inv txb n S"
  shows "result_ok ainv txb n dict m0 (sdo_select odf txb rx isNew dt S W)"
proof (cases "\<not> tx_bufferFull (bus_buf (wd_bus W) txb) \<and> (isNew \<or> sdo_state S = CO_SDO_ST_UPLOAD_BL_SUBBLOCK)")
  case True
  define S1 where "S1 = (if sdo_state S \<noteq> CO_SDO_ST_UPLOAD_BL_SUBBLOCK then S\<lparr>sdo_timeoutTimer := 0\<rparr> else S)"
  let ?W = "sdo_tx txb 0 (replicate 8 0) W"
  have S1: "sdo_state S1 = sdo_state S" "frame_ok ainv txb n dict m0 S1 ?W"
    "sdo_state S \<noteq> CO_SDO_ST_IDLE \<longrightarrow> transfer_ok n S1" "state_ok (sdo_state S) S1"
    using assms by (auto simp: S1_def sdo_inv_def intro!: frame_ok_tx simp del: state_ok.simps)
  consider "isNew \<and> rx ! 0 = 0x80" | "\<not> (isNew \<and> rx ! 0 = 0x80)" "sdo_state S \<noteq> CO_SDO_ST_IDLE"
    | "\<not> (isNew \<and> rx ! 0 = 0x80)" "sdo_state S = CO_SDO_ST_IDLE" by blast
  then show ?thesis
  proof cases
    case 1
    have "frame_ok ainv txb n dict m0 (CO_SDO_process_done (S1\<lparr>sdo_state := CO_SDO_ST_IDLE\<rparr>)) ?W"
      using S1(2) by (intro frame_ok_done) simp
    then show ?thesis using True 1 unfolding sdo_select_def Let_def S1_def [symmetric]
      by (simp add: result_ok_def sdo_inv_def frame_ok_def)
  next
    case 2
    have "go_ok n (sdo_state S) S1" using 2(2) S1(1,3,4) assms(2)
      by (cases "sdo_state S") (auto simp: go_ok_def)
    then show ?thesis using True 2 S1(2) unfolding sdo_select_def Let_def S1_def [symmetric] by (auto simp: result_ok_def)
  next
    case 3
    then show ?thesis using True request_ok [OF S1(2)] S1(1) unfolding sdo_select_def Let_def S1_def [symmetric] by simp
  qed
next
  case False
  then show ?thesis using assms by (auto simp: sdo_select_def result_ok_def)
qed

end

lemma sdo_skip_queue: "queue_ok S \<Longrightarrow> queue_ok (sdo_skip S)"
proof (induction S rule: sdo_skip.induct)
  case (1 S)
  then show ?case using queue_ok_done [of S] by (subst sdo_skip.simps) simp
qed

lemma sdo_skip_fields [simp]:
  "sdo_dict (sdo_skip S) = sdo_dict S" "sdo_head (sdo_skip S) = sdo_head S" "sdo_ODF_arg (sdo_skip S) = sdo_ODF_arg S"
  "sdo_CANtxBuff (sdo_skip S) = sdo_CANtxBuff S" "sdo_state (sdo_skip S) = sdo_state S"
proof -
  have "sdo_dict (sdo_skip S) = sdo_dict S \<and> sdo_head (sdo_skip S) = sdo_head S \<and> sdo_ODF_arg (sdo_skip S) = sdo_ODF_arg S \<and>
    sdo_CANtxBuff (sdo_skip S) = sdo_CANtxBuff S \<and> sdo_state (sdo_skip S) = sdo_state S"
  proof (induction S rule: sdo_skip.induct)
    case (1 S)
    then show ?case by (subst (1 2 3 4 5) sdo_skip.simps) auto
  qed
  then show "sdo_dict (sdo_skip S) = sdo_dict S" "sdo_head (sdo_skip S) = sdo_head S" "sdo_ODF_arg (sdo_skip S) = sdo_ODF_arg S"
    "sdo_CANtxBuff (sdo_skip S) = sdo_CANtxBuff S" "sdo_state (sdo_skip S) = sdo_state S" by auto
qed

lemma abort_frame_length [simp]: "length (sdo_abort_frame arg code) = 8"
  by (simp add: sdo_abort_frame_def)

lemma abort_ok:
  assumes "frame_ok ainv txb n dict m0 S W" "CO_SDO_abort env txb S W code = (S', W')"
  shows "frame_ok ainv txb n dict m0 S' W' \<and> sdo_inv txb n S' \<and> sdo_state S' = CO_SDO_ST_IDLE"
proof -
  have S': "S' = sdo_skip (S\<lparr>sdo_state := CO_SDO_ST_IDLE\<rparr>)"
    and W': "W' = sdo_send env txb (sdo_tx txb 0 (sdo_abort_frame (sdo_ODF_arg S) code) W)"
    using assms(2) by (auto simp: CO_SDO_abort_def)
  have "queue_ok (S\<lparr>sdo_state := CO_SDO_ST_IDLE\<rparr>)" using assms(1) by (simp add: frame_ok_def core_ok_def queue_ok_def)
  then show ?thesis using assms(1) world_ok_send world_ok_tx [of txb n W 0 "sdo_abort_frame (sdo_ODF_arg S) code"]
    by (auto simp: S' W' frame_ok_def core_ok_def sdo_skip_queue sdo_inv_def sdo_send_size [of txb n])
qed

lemma finish_ok:
  assumes "result_ok ainv txb n dict m0 (Some r)" "\<And>st dt. snd (snd r) \<noteq> SdoGo st dt"
    and "sdo_finish env txb tn r = (ret, S', W', tn')"
  shows "frame_ok ainv txb n dict m0 S' W' \<and> sdo_inv txb n S' \<and> ret \<in> {-1, 0, 1} \<and> (ret = 1 \<longleftrightarrow> sdo_state S' \<noteq> CO_SDO_ST_IDLE)"
proof -
  obtain S W out where r: "r = (S, W, out)" by (cases r) auto
  show ?thesis
  proof (cases out)
    case (SdoAbort code)
    then show ?thesis using assms(1,3) abort_ok [of ainv txb n dict m0 S W env code]
      by (auto simp: r sdo_finish_def result_ok_def split: prod.splits)
  next
    case (SdoBreak s z)
    then have "frame_ok ainv txb n dict m0 S W" "sdo_inv txb n S" using assms(1) by (auto simp: r result_ok_def)
    then show ?thesis using SdoBreak assms(3) frame_ok_done [of ainv txb n dict m0 S] world_ok_send [of txb n W env]
        sdo_send_size [of txb n W env]
      by (auto simp: r sdo_finish_def Let_def sdo_inv_def frame_ok_def core_ok_def queue_ok_done transfer_ok_done state_ok_done
          simp del: state_ok.simps split: if_splits)
  qed (use assms in \<open>auto simp: r sdo_finish_def result_ok_def sdo_inv_def\<close>)
qed

lemma go_ok_subblock:
  "go_ok n st S \<Longrightarrow> sdo_state S = CO_SDO_ST_DOWNLOAD_BL_SUBBLOCK \<Longrightarrow> state_ok CO_SDO_ST_DOWNLOAD_BL_SUBBLOCK S \<and> transfer_ok n S"
  by (cases st) (auto simp: go_ok_def)

lemma sdo_inv_timer: "sdo_inv txb n (S\<lparr>sdo_timeoutTimer := x\<rparr>) = sdo_inv txb n S"
  by (simp add: sdo_inv_def core_ok_def queue_ok_def del: state_ok.simps)

lemma timeout_ok:
  assumes "frame_ok ainv txb n dict m0 S W" "if st = CO_SDO_ST_IDLE then sdo_inv txb n S else go_ok n st S"
    and "sdo_timeout txb st dt S W tn = (S', out, tn')"
  shows "result_ok ainv txb n dict m0 (Some (S', W, out)) \<and> (\<exists>st' dt' code. out = SdoGo st' dt' \<or> out = SdoAbort code)"
proof -
  define S1 where "S1 = (if sdo_timeoutTimer S < sdo_SDOtimeoutTime_us S then S\<lparr>sdo_timeoutTimer := sdo_timeoutTimer S + dt\<rparr> else S)"
  have S1: "frame_ok ainv txb n dict m0 S1 W" "sdo_state S1 = sdo_state S" "transfer_ok n S1 = transfer_ok n S"
    "\<And>s. state_ok s S1 = state_ok s S" "go_ok n st S1 = go_ok n st S" "sdo_inv txb n S1 = sdo_inv txb n S"
    using assms(1) by (simp_all add: S1_def sdo_inv_timer del: state_ok.simps)
  show ?thesis
  proof (cases "sdo_SDOtimeoutTime_us S1 \<le> sdo_timeoutTimer S1")
    case True
    show ?thesis
    proof (cases "sdo_state S1 = CO_SDO_ST_DOWNLOAD_BL_SUBBLOCK \<and> \<not> sdo_timeoutSubblockDownolad S1 \<and> \<not> tx_bufferFull (bus_buf (wd_bus W) txb)")
      case sub: True
      have "go_ok n CO_SDO_ST_DOWNLOAD_BL_SUB_RESP_2 (S1\<lparr>sdo_timeoutSubblockDownolad := True, sdo_timeoutTimer := 0\<rparr>)"
      proof -
        have st: "sdo_state S = CO_SDO_ST_DOWNLOAD_BL_SUBBLOCK" using sub S1(2) by simp
        then have "state_ok CO_SDO_ST_DOWNLOAD_BL_SUBBLOCK S \<and> transfer_ok n S"
          using assms(2) go_ok_subblock [OF _ st] by (auto simp: sdo_inv_def simp del: state_ok.simps split: if_splits)
        then have "state_ok CO_SDO_ST_DOWNLOAD_BL_SUBBLOCK S1 \<and> transfer_ok n S1" using S1(3,4) by simp
        then show ?thesis by (simp add: go_ok_def)
      qed
      then show ?thesis using True sub assms(3) S1(1) unfolding sdo_timeout_def Let_def S1_def [symmetric]
        by (simp add: result_ok_def) auto
    next
      case False
      then show ?thesis using True assms(3) S1(1) unfolding sdo_timeout_def Let_def S1_def [symmetric] by auto
    qed
  next
    case False
    then have "S' = S1" "out = SdoGo st 0" using assms(3) unfolding sdo_timeout_def Let_def S1_def [symmetric] by simp_all
    then show ?thesis using assms(2) S1(1,5,6) by (auto simp: result_ok_def split: if_splits)
  qed
qed

subsection \<open>One call of the server\<close>

definition step_ok :: "(u16 \<Rightarrow> 'w \<Rightarrow> bool) \<Rightarrow> nat \<Rightarrow> nat \<Rightarrow> CO_SDO_OD \<Rightarrow> u8 list \<Rightarrow> CO_SDO_t \<Rightarrow> 'w od_world \<Rightarrow> bool" where
  "step_ok ainv txb n dict m0 S W \<longleftrightarrow> frame_ok ainv txb n dict m0 S W \<and> sdo_inv txb n S"

lemma queue_ok_rx:
  assumes "queue_ok S"
  shows "length (sdo_CANrxData S ! unat (sdo_CANrxProc S)) = 8"
  using assms by (auto simp: queue_ok_def list_all_length word_less_nat_alt)

context od_functions
begin

lemma process_ok:
  assumes "step_ok ainv txb n dict m0 S W"
  shows "\<exists>ret S' W' tn'. CO_SDO_process odf env S W nmt dt tn = Some (ret, S', W', tn') \<and> step_ok ainv txb n dict m0 S' W' \<and>
    ret \<in> {-1, 0, 1} \<and> (ret = 1 \<longrightarrow> sdo_state S' \<noteq> CO_SDO_ST_IDLE) \<and> (ret = -1 \<longrightarrow> sdo_state S' = CO_SDO_ST_IDLE)"
proof -
  let ?new = "sdo_CANrxNew S ! unat (sdo_CANrxProc S)" let ?rx = "sdo_CANrxData S ! unat (sdo_CANrxProc S)"
  have fr: "frame_ok ainv txb n dict m0 S W" and inv: "sdo_inv txb n S" using assms by (auto simp: step_ok_def)
  have core: "sdo_CANtxBuff S = Some txb" "queue_ok S" using inv by (auto simp: sdo_inv_def core_ok_def)
  have rx: "length ?rx = 8" by (rule queue_ok_rx [OF core(2)])
  consider "sdo_state S = CO_SDO_ST_IDLE \<and> \<not> ?new" | "\<not> (sdo_state S = CO_SDO_ST_IDLE \<and> \<not> ?new)" "\<not> nmt"
    | "\<not> (sdo_state S = CO_SDO_ST_IDLE \<and> \<not> ?new)" nmt by blast
  then show ?thesis
  proof cases
    case 1
    then show ?thesis using assms by (simp add: CO_SDO_process_def Let_def)
  next
    case 2
    have "frame_ok ainv txb n dict m0 (CO_SDO_process_done (S\<lparr>sdo_state := CO_SDO_ST_IDLE\<rparr>)) W"
      using fr by (intro frame_ok_done) simp
    then show ?thesis using 2 by (auto simp: CO_SDO_process_def Let_def step_ok_def sdo_inv_def frame_ok_def)
  next
    case 3
    obtain S1 W1 sel where sel: "sdo_select odf txb ?rx ?new dt S W = Some (S1, W1, sel)"
      using select_ok [OF fr inv, of ?rx ?new dt] by (auto simp: result_ok_def)
    have ok: "result_ok ainv txb n dict m0 (Some (S1, W1, sel))" using select_ok [OF fr inv, of ?rx ?new dt] sel by simp
    show ?thesis
    proof (cases "\<exists>st dt1. sel = SdoGo st dt1")
      case False
      obtain ret S' W' tn' where f: "sdo_finish env txb tn (S1, W1, sel) = (ret, S', W', tn')" by (cases "sdo_finish env txb tn (S1, W1, sel)")
      have run: "CO_SDO_process odf env S W nmt dt tn = Some (ret, S', W', tn')"
        using 3 core(1) sel False f by (cases sel) (auto simp: CO_SDO_process_def Let_def)
      then show ?thesis using finish_ok [OF ok _ f] False unfolding step_ok_def by auto
    next
      case True
      then obtain st dt1 where go: "sel = SdoGo st dt1" by blast
      obtain S2 out tn1 where t: "sdo_timeout txb st dt1 S1 W1 tn = (S2, out, tn1)" by (cases "sdo_timeout txb st dt1 S1 W1 tn")
      have ok1: "result_ok ainv txb n dict m0 (Some (S2, W1, out))" "\<exists>st' dt' code. out = SdoGo st' dt' \<or> out = SdoAbort code"
        using timeout_ok [OF _ _ t, of ainv n dict m0] ok by (auto simp: result_ok_def go)
      show ?thesis
      proof (cases "\<exists>st' dt'. out = SdoGo st' dt'")
        case False
        then obtain code where "out = SdoAbort code" using ok1(2) by blast
        moreover obtain ret S' W' tn' where f: "sdo_finish env txb tn1 (S2, W1, out) = (ret, S', W', tn')"
          by (cases "sdo_finish env txb tn1 (S2, W1, out)")
        ultimately have "CO_SDO_process odf env S W nmt dt tn = Some (ret, S', W', tn')"
          using 3 core(1) sel go t by (auto simp: CO_SDO_process_def Let_def)
        then show ?thesis using finish_ok [OF ok1(1) _ f] False unfolding step_ok_def by auto
      next
        case True
        then obtain st' dt' where go': "out = SdoGo st' dt'" by blast
        show ?thesis
        proof (cases "st' = CO_SDO_ST_IDLE")
          case True
          then show ?thesis using 3 core(1) sel go t go' ok1(1)
            by (auto simp: CO_SDO_process_def Let_def step_ok_def result_ok_def)
        next
          case False
          then have "go_ok n st' S2" "frame_ok ainv txb n dict m0 S2 W1" using ok1(1) go' by (auto simp: result_ok_def)
          then have sw: "case_ok ainv txb n dict m0 (sdo_switch odf txb ?rx ?new st' S2 W1)" using switch_ok rx by blast
          then obtain r where r: "sdo_switch odf txb ?rx ?new st' S2 W1 = Some r" by (auto simp: case_ok_def result_ok_def)
          obtain ret S' W' tn' where f: "sdo_finish env txb tn1 r = (ret, S', W', tn')" by (cases "sdo_finish env txb tn1 r")
          have run: "CO_SDO_process odf env S W nmt dt tn = Some (ret, S', W', tn')"
            using 3 core(1) sel go t go' False r f by (auto simp: CO_SDO_process_def Let_def)
          have "snd (snd r) \<noteq> SdoGo st dt" for st dt using sw r by (cases r) (auto simp: case_ok_def)
          moreover have "result_ok ainv txb n dict m0 (Some r)" using sw r by (simp add: case_ok_def)
          ultimately show ?thesis using run finish_ok [OF _ _ f] unfolding step_ok_def by auto
        qed
      qed
    qed
  qed
qed

end

subsection \<open>Reception\<close>

lemma receive_done_ok:
  assumes "queue_ok S"
  shows "queue_ok (CO_SDO_receive_done S)"
  using assms
  by (auto simp: CO_SDO_receive_done_def Let_def queue_ok_def CO_SDO_RX_DATA_SIZE_def word_less_nat_alt word_le_nat_alt unat_word_ariths)

lemma receive_done_fields [simp]:
  "sdo_dict (CO_SDO_receive_done S) = sdo_dict S" "sdo_head (CO_SDO_receive_done S) = sdo_head S"
  "sdo_ODF_arg (CO_SDO_receive_done S) = sdo_ODF_arg S" "sdo_CANtxBuff (CO_SDO_receive_done S) = sdo_CANtxBuff S"
  "sdo_state (CO_SDO_receive_done S) = sdo_state S" "sdo_bufferOffset (CO_SDO_receive_done S) = sdo_bufferOffset S"
  "sdo_sequence (CO_SDO_receive_done S) = sdo_sequence S" "sdo_blksize (CO_SDO_receive_done S) = sdo_blksize S"
  "sdo_endOfTransfer (CO_SDO_receive_done S) = sdo_endOfTransfer S" "sdo_entryNo (CO_SDO_receive_done S) = sdo_entryNo S"
  by (simp_all add: CO_SDO_receive_done_def Let_def)

lemma frame_ok_received: "frame_ok ainv txb n dict m0 S W \<Longrightarrow> frame_ok ainv txb n dict m0 (CO_SDO_receive_done S) W"
  by (auto simp: frame_ok_def core_ok_def receive_done_ok)

lemma transfer_ok_received [simp]: "transfer_ok n (CO_SDO_receive_done S) = transfer_ok n S"
  by (simp add: transfer_ok_def located_def)

lemma state_ok_received: "state_ok st (CO_SDO_receive_done S) = state_ok st S"
  by (cases st) simp_all

lemma step_ok_received:
  assumes "frame_ok ainv txb n dict m0 S W" "state_ok (sdo_state S) S" "sdo_state S \<noteq> CO_SDO_ST_IDLE \<longrightarrow> transfer_ok n S"
  shows "step_ok ainv txb n dict m0 (CO_SDO_receive_done S) W"
  using assms frame_ok_received [OF assms(1)]
  by (simp add: step_ok_def sdo_inv_def state_ok_received frame_ok_def del: state_ok.simps)

lemma frame_ok_rxdata:
  assumes "frame_ok ainv txb n dict m0 S W" "length bs = 8"
  shows "frame_ok ainv txb n dict m0 (S\<lparr>sdo_CANrxData := (sdo_CANrxData S)[i := bs]\<rparr>) W"
proof -
  have "list_all (\<lambda>m. length m = 8) xs \<Longrightarrow> list_all (\<lambda>m. length m = 8) (xs[i := bs])" for xs :: "u8 list list"
    using assms(2) by (auto simp: list_all_iff dest!: set_update_subset_insert [THEN subsetD])
  then show ?thesis using assms(1) by (auto simp: frame_ok_def core_ok_def queue_ok_def)
qed

lemma state_ok_rxdata [simp]: "state_ok st (S\<lparr>sdo_CANrxData := x\<rparr>) = state_ok st S"
  by (cases st) simp_all

lemma transfer_ok_rxdata [simp]: "transfer_ok n (S\<lparr>sdo_CANrxData := x\<rparr>) = transfer_ok n S"
  by (simp add: transfer_ok_def located_def)

lemma receive_segment_ok:
  assumes "step_ok ainv txb n dict m0 S W" "sdo_state S = CO_SDO_ST_DOWNLOAD_BL_SUBBLOCK" "8 \<le> length data"
  shows "\<exists>S'. sdo_receive_segment data S = Some S' \<and> step_ok ainv txb n dict m0 S' W"
proof -
  let ?rcv = "unat (sdo_CANrxRcv S)" let ?off = "unat (sdo_bufferOffset S)"
  define S1 where "S1 = S\<lparr>sdo_CANrxData := (sdo_CANrxData S)[?rcv := (sdo_CANrxData S ! ?rcv)[0 := data ! 0]],
                 sdo_timeoutTimer := 0, sdo_timeoutSubblockDownolad := False\<rparr>"
  have fr: "frame_ok ainv txb n dict m0 S W" and inv: "state_ok CO_SDO_ST_DOWNLOAD_BL_SUBBLOCK S" and tr: "transfer_ok n S"
    and q: "queue_ok S" using assms(1,2) by (auto simp: step_ok_def sdo_inv_def core_ok_def)
  have "length (sdo_CANrxData S ! ?rcv) = 8" using q by (auto simp: queue_ok_def list_all_length word_less_nat_alt)
  then have fr1: "frame_ok ainv txb n dict m0 S1 W" unfolding S1_def using fr by (simp add: frame_ok_rxdata)
  have tr1: "transfer_ok n S1" using tr by (simp add: S1_def)
  have S1: "sdo_state S1 = sdo_state S" "sdo_sequence S1 = sdo_sequence S" "sdo_bufferOffset S1 = sdo_bufferOffset S" by (simp_all add: S1_def)
  consider (next_seg) "unat (data ! 0 AND 0x7F) = unat (sdo_sequence S) + 1" "?off + 7 \<le> 889"
    | (full) "unat (data ! 0 AND 0x7F) = unat (sdo_sequence S) + 1" "\<not> ?off + 7 \<le> 889"
    | (ignored) "unat (data ! 0 AND 0x7F) \<noteq> unat (sdo_sequence S) + 1" "data ! 0 AND 0x7F = sdo_sequence S \<or> sdo_sequence S = 0"
    | (wrong) "unat (data ! 0 AND 0x7F) \<noteq> unat (sdo_sequence S) + 1" "\<not> (data ! 0 AND 0x7F = sdo_sequence S \<or> sdo_sequence S = 0)"
    by blast
  then show ?thesis
  proof cases
    case next_seg
    let ?bs = "take 7 (drop 1 data)"
    have bs: "length ?bs = 7" using assms(3) by simp
    have fr2: "frame_ok ainv txb n dict m0 (S1\<lparr>sdo_sequence := sdo_sequence S + 1\<rparr>) W" using fr1 by simp
    have "unat (sdo_bufferOffset (S1\<lparr>sdo_sequence := sdo_sequence S + 1\<rparr>)) + length ?bs \<le> 889" using next_seg(2) bs S1 by simp
    then obtain S2 a where s: "sdo_append ?bs (S1\<lparr>sdo_sequence := sdo_sequence S + 1\<rparr>) = Some S2"
      "S2 = S1\<lparr>sdo_sequence := sdo_sequence S + 1, sdo_ODF_arg := a, sdo_bufferOffset := sdo_bufferOffset (S1\<lparr>sdo_sequence := sdo_sequence S + 1\<rparr>) + word_of_nat (length ?bs)\<rparr>"
      "arg_same (sdo_ODF_arg (S1\<lparr>sdo_sequence := sdo_sequence S + 1\<rparr>)) a"
      "unat (sdo_bufferOffset S2) = unat (sdo_bufferOffset (S1\<lparr>sdo_sequence := sdo_sequence S + 1\<rparr>)) + length ?bs" "frame_ok ainv txb n dict m0 S2 W"
      by (rule sdo_append_ok [OF fr2])
    have "transfer_ok n (S1\<lparr>sdo_sequence := sdo_sequence S + 1\<rparr>)" using tr1 by simp
    from transfer_ok_same [OF this s(3)] have tr2: "transfer_ok n S2" by (simp add: s(2))
    have off: "unat (sdo_bufferOffset S2) = ?off + 7" using s(4) bs S1 by simp
    have ok: "state_ok CO_SDO_ST_DOWNLOAD_BL_SUBBLOCK S2" "state_ok CO_SDO_ST_DOWNLOAD_BL_SUB_RESP S2"
      using off next_seg(2) by (simp_all add: word_le_nat_alt)
    have st: "sdo_state S2 = CO_SDO_ST_DOWNLOAD_BL_SUBBLOCK" using S1 assms(2) by (simp add: s(2))
    have "step_ok ainv txb n dict m0 S2 W" using s(5) tr2 ok(1) st by (simp add: step_ok_def sdo_inv_def frame_ok_def)
    moreover have "step_ok ainv txb n dict m0 (CO_SDO_receive_done (S2\<lparr>sdo_state := CO_SDO_ST_DOWNLOAD_BL_SUB_RESP\<rparr>)) W"
      using s(5) tr2 ok(2) by (intro step_ok_received) simp_all
    ultimately show ?thesis using next_seg s(1) unfolding sdo_receive_segment_def Let_def S1_def [symmetric] by auto
  next
    case full
    have "step_ok ainv txb n dict m0 (CO_SDO_receive_done (S1\<lparr>sdo_state := CO_SDO_ST_DOWNLOAD_BL_SUB_RESP_2\<rparr>)) W"
      using fr1 tr1 inv full(2) S1 by (intro step_ok_received) (simp_all add: word_le_nat_alt)
    then show ?thesis using full unfolding sdo_receive_segment_def Let_def S1_def [symmetric] by auto
  next
    case ignored
    have "step_ok ainv txb n dict m0 S1 W" using fr1 tr1 inv S1 assms(2) by (simp add: step_ok_def sdo_inv_def frame_ok_def)
    then show ?thesis using ignored unfolding sdo_receive_segment_def Let_def S1_def [symmetric] by auto
  next
    case wrong
    have "step_ok ainv txb n dict m0 (CO_SDO_receive_done (S1\<lparr>sdo_state := CO_SDO_ST_DOWNLOAD_BL_SUB_RESP_2\<rparr>)) W"
      using fr1 tr1 inv wrong(2) S1 by (intro step_ok_received) simp_all
    then show ?thesis using wrong unfolding sdo_receive_segment_def Let_def S1_def [symmetric] by auto
  qed
qed

lemma step_ok_signals [simp]: "step_ok ainv txb n dict m0 (S\<lparr>sdo_signals := k\<rparr>) W = step_ok ainv txb n dict m0 S W"
proof -
  have "state_ok st (S\<lparr>sdo_signals := k\<rparr>) = state_ok st S" for st by (cases st) simp_all
  then show ?thesis by (simp add: step_ok_def sdo_inv_def core_ok_def queue_ok_def del: state_ok.simps)
qed

lemma receive_ok:
  assumes "step_ok ainv txb n dict m0 S W" "length (rxm_data msg) = 8"
  shows "\<exists>S'. CO_SDO_receive S msg = Some S' \<and> step_ok ainv txb n dict m0 S' W"
proof (cases "rxm_DLC msg = 8 \<and> \<not> sdo_CANrxNew S ! unat (sdo_CANrxRcv S)")
  case True
  have "\<exists>S1. (if sdo_state S \<noteq> CO_SDO_ST_DOWNLOAD_BL_SUBBLOCK
        then Some (CO_SDO_receive_done (S\<lparr>sdo_CANrxData := (sdo_CANrxData S)[unat (sdo_CANrxRcv S) := take 8 (rxm_data msg)]\<rparr>))
        else sdo_receive_segment (rxm_data msg) S) = Some S1 \<and> step_ok ainv txb n dict m0 S1 W"
  proof (cases "sdo_state S = CO_SDO_ST_DOWNLOAD_BL_SUBBLOCK")
    case True
    then show ?thesis using receive_segment_ok [OF assms(1) True] assms(2) by simp
  next
    case False
    have "frame_ok ainv txb n dict m0 (S\<lparr>sdo_CANrxData := (sdo_CANrxData S)[unat (sdo_CANrxRcv S) := take 8 (rxm_data msg)]\<rparr>) W"
      using assms by (intro frame_ok_rxdata) (simp_all add: step_ok_def)
    then have "step_ok ainv txb n dict m0 (CO_SDO_receive_done (S\<lparr>sdo_CANrxData := (sdo_CANrxData S)[unat (sdo_CANrxRcv S) := take 8 (rxm_data msg)]\<rparr>)) W"
      using assms(1) by (intro step_ok_received) (simp_all add: step_ok_def sdo_inv_def del: state_ok.simps)
    then show ?thesis using False by simp
  qed
  then show ?thesis using True by (auto simp: CO_SDO_receive_def Let_def)
next
  case False
  then show ?thesis using assms(1) by (auto simp: CO_SDO_receive_def Let_def)
qed

subsection \<open>Runs\<close>

text \<open>Messages arrive between any two calls of \<^verbatim>\<open>CO_SDO_process\<close>; a message of a CAN bus with length 8 has 8 bytes.\<close>

inductive sdo_step :: "'w odf_call \<Rightarrow> can_env \<Rightarrow> CO_SDO_t \<times> 'w od_world \<Rightarrow> CO_SDO_t \<times> 'w od_world \<Rightarrow> bool"
  for odf :: "'w odf_call" and env :: can_env where
  receive: "CO_SDO_receive S msg = Some S' \<Longrightarrow> length (rxm_data msg) = 8 \<Longrightarrow> sdo_step odf env (S, W) (S', W)"
| process: "CO_SDO_process odf env S W nmt dt tn = Some (ret, S', W', tn') \<Longrightarrow> sdo_step odf env (S, W) (S', W')"

context od_functions
begin

lemma step_keeps:
  assumes "sdo_step odf env s s'" "step_ok ainv txb n dict m0 (fst s) (snd s)"
  shows "step_ok ainv txb n dict m0 (fst s') (snd s')"
  using assms(1)
proof cases
  case (receive S msg S' W)
  then show ?thesis using receive_ok [of ainv txb n dict m0 S W msg] assms(2) by simp
next
  case (process S W nmt dt tn ret S' W' tn')
  then show ?thesis using process_ok [of n m0 S W env nmt dt tn] assms(2) by simp
qed

lemma run_keeps:
  assumes "(sdo_step odf env)\<^sup>*\<^sup>* s s'" "step_ok ainv txb n dict m0 (fst s) (snd s)"
  shows "step_ok ainv txb n dict m0 (fst s') (snd s')"
  using assms by (induction rule: rtranclp_induct) (auto intro: step_keeps)

lemma run_safe:
  assumes "(sdo_step odf env)\<^sup>*\<^sup>* (S, W) (S', W')" "sdo_inv txb n S" "world_ok txb n W" "sdo_dict S = dict"
    and "ainv (can_txSize (bus_can (wd_bus W))) (wd_app W)"
  shows "sdo_inv txb n S' \<and> sdo_dict S' = dict \<and> world_ok txb n W' \<and> ainv (can_txSize (bus_can (wd_bus W'))) (wd_app W') \<and>
    (\<forall>i < n. \<not> byte_writable dict i \<longrightarrow> wd_mem W' ! i = wd_mem W ! i) \<and>
    (\<forall>msg. length (rxm_data msg) = 8 \<longrightarrow> CO_SDO_receive S' msg \<noteq> None) \<and>
    (\<forall>nmt dt tn. CO_SDO_process odf env S' W' nmt dt tn \<noteq> None)"
proof -
  have ok: "step_ok ainv txb n dict (wd_mem W) S' W'"
    using run_keeps [OF assms(1), of n "wd_mem W"] assms(2-5) by (simp add: step_ok_def frame_ok_def sdo_inv_def)
  have len: "length (wd_mem W) = n" using assms(3) by (simp add: world_ok_def)
  have "CO_SDO_receive S' msg \<noteq> None" if "length (rxm_data msg) = 8" for msg using receive_ok [OF ok that] by auto
  moreover have "CO_SDO_process odf env S' W' nmt dt tn \<noteq> None" for nmt dt tn using process_ok [OF ok, of env nmt dt tn] by auto
  ultimately show ?thesis using ok len by (simp add: step_ok_def frame_ok_def protected_same_def)
qed

end

end
