(* ===== verification/SDO_Transfer.thy ===== *)
theory SDO_Transfer
  imports SDO_Safety
begin

section \<open>Complete transfers\<close>

text \<open>
  What a client achieves with the SDO server: the requests of a client for a download and an upload of an object, as the
  specification of the protocol defines them, and the effect of a whole session on the dictionary and the replies.
  Between two requests the client waits for the reply; the device accepts every frame.
\<close>

subsection \<open>The client\<close>

definition client_msg :: "u8 list \<Rightarrow> CO_CANrxMsg_t" where
  "client_msg m = \<lparr>rxm_ident = 0x600, rxm_DLC = 8, rxm_data = m\<rparr>"

definition sdo_exchange ::
    "'w odf_call \<Rightarrow> can_env \<Rightarrow> u32 \<Rightarrow> u8 list \<Rightarrow> CO_SDO_t \<times> 'w od_world \<Rightarrow> (CO_SDO_t \<times> 'w od_world) option" where
  \<comment> \<open>a request arrives and is processed\<close>
  "sdo_exchange odf env dt m s = do {
     S1 \<leftarrow> CO_SDO_receive (fst s) (client_msg m);
     (ret, S2, W2, tn) \<leftarrow> CO_SDO_process odf env S1 (snd s) True dt None;
     Some (S2, W2)
   }"

fun sdo_session ::
    "'w odf_call \<Rightarrow> can_env \<Rightarrow> u32 \<Rightarrow> u8 list list \<Rightarrow> CO_SDO_t \<times> 'w od_world \<Rightarrow> (CO_SDO_t \<times> 'w od_world) option" where
  "sdo_session odf env dt [] s = Some s"
| "sdo_session odf env dt (m # ms) s = Option.bind (sdo_exchange odf env dt m s) (sdo_session odf env dt ms)"

lemma sdo_session_append:
  "sdo_session odf env dt (ms @ ns) s = Option.bind (sdo_session odf env dt ms s) (sdo_session odf env dt ns)"
  by (induction ms arbitrary: s) (simp_all split: bind_splits)

definition mux :: "u16 \<Rightarrow> u8 \<Rightarrow> u8 list" where
  "mux index sub = [ucast index, ucast (drop_bit 8 index), sub]"

definition segment_cmd :: "bool \<Rightarrow> nat \<Rightarrow> bool \<Rightarrow> u8" where
  \<comment> \<open>toggle bit, number of unused bytes, last segment\<close>
  "segment_cmd t n c = (if t then 0x10 else 0) OR push_bit 1 (word_of_nat (7 - n)) OR (if c then 1 else 0)"

definition segment :: "bool \<Rightarrow> bool \<Rightarrow> u8 list \<Rightarrow> u8 list" where
  "segment t c bs = segment_cmd t (length bs) c # bs @ replicate (7 - length bs) 0"

function segments :: "bool \<Rightarrow> u8 list \<Rightarrow> u8 list list" where
  "segments t bs = (if length bs \<le> 7 then [segment t True bs] else segment t False (take 7 bs) # segments (\<not> t) (drop 7 bs))"
  by pat_completeness auto
termination by (relation "measure (length \<circ> snd)") auto

declare segments.simps [simp del]

definition download_requests :: "u16 \<Rightarrow> u8 \<Rightarrow> u8 list \<Rightarrow> u8 list list" where
  "download_requests index sub bs =
     (if length bs \<le> 4
      then [(0x23 OR push_bit 2 (word_of_nat (4 - length bs))) # mux index sub @ bs @ replicate (4 - length bs) 0]
      else (0x21 # mux index sub @ le_bytes 4 (length bs)) # segments False bs)"

fun acks :: "bool \<Rightarrow> nat \<Rightarrow> u8 list list" where
  "acks t 0 = []"
| "acks t (Suc k) = ((0x20 OR (if t then 0x10 else 0)) # replicate 7 0) # acks (\<not> t) k"

definition download_replies :: "u16 \<Rightarrow> u8 \<Rightarrow> u8 list \<Rightarrow> u8 list list" where
  "download_replies index sub bs =
     (0x60 # mux index sub @ replicate 4 0) # (if length bs \<le> 4 then [] else acks False (length (segments False bs)))"

fun polls :: "bool \<Rightarrow> nat \<Rightarrow> u8 list list" where
  "polls t 0 = []"
| "polls t (Suc k) = ((0x60 OR (if t then 0x10 else 0)) # replicate 7 0) # polls (\<not> t) k"

definition upload_requests :: "u16 \<Rightarrow> u8 \<Rightarrow> nat \<Rightarrow> u8 list list" where
  "upload_requests index sub n =
     (0x40 # mux index sub @ replicate 4 0) # (if n \<le> 4 then [] else polls False ((n + 6) div 7))"

definition segment_data :: "u8 list \<Rightarrow> u8 list" where
  "segment_data r = take (7 - unat (drop_bit 1 (r ! 0) AND 7)) (drop 1 r)"

fun upload_data :: "u8 list list \<Rightarrow> u8 list" where
  \<comment> \<open>what the client reads from the replies\<close>
  "upload_data [] = []"
| "upload_data (r # rs) =
     (if r ! 0 AND 0x02 \<noteq> 0 then take (4 - unat (drop_bit 2 (r ! 0) AND 3)) (drop 4 r) else concat (map segment_data rs))"

lemma length_mux [simp]: "length (mux index sub) = 3"
  by (simp add: mux_def)

lemma mux_index: "push_bit 8 (ucast (mux index sub ! Suc 0)) OR ucast (mux index sub ! 0) = index" "mux index sub ! 2 = sub"
proof -
  show "push_bit 8 (ucast (mux index sub ! Suc 0)) OR ucast (mux index sub ! 0) = index"
    by (rule bit_word_eqI) (auto simp: mux_def bit_simps)
  show "mux index sub ! 2 = sub" by (simp add: mux_def)
qed

lemma length_segment [simp]: "length bs \<le> 7 \<Longrightarrow> length (segment t c bs) = 8"
  by (simp add: segment_def)

lemma less_8_cases: "n \<le> 7 \<Longrightarrow> n = 0 \<or> n = 1 \<or> n = 2 \<or> n = 3 \<or> n = 4 \<or> n = 5 \<or> n = 6 \<or> n = (7::nat)"
  by auto

lemma segment_cmd_bits:
  assumes "n \<le> 7"
  shows "segment_cmd t n c AND 0xE0 = 0" "segment_cmd t n c AND 0x10 \<noteq> 0 \<longleftrightarrow> t"
    "unat (7 - (drop_bit 1 (segment_cmd t n c) AND 7)) = n" "segment_cmd t n c AND 1 \<noteq> 0 \<longleftrightarrow> c" "segment_cmd t n c \<noteq> 0x80"
    "7 - unat (drop_bit 1 (segment_cmd t n c) AND 7) = n"
  using less_8_cases [OF assms] by (auto simp: segment_cmd_def)

subsection \<open>The server between two requests\<close>

definition quiet_queue :: "CO_SDO_t \<Rightarrow> bool" where
  "quiet_queue S \<longleftrightarrow> queue_ok S \<and> sdo_CANrxNew S = [False, False] \<and> sdo_CANrxRcv S = sdo_CANrxProc S"

definition flagged :: "u8 list \<Rightarrow> CO_SDO_t \<Rightarrow> bool" where
  \<comment> \<open>one message waits\<close>
  "flagged m S \<longleftrightarrow> queue_ok S \<and> sdo_CANrxNew S = [False, False][unat (sdo_CANrxProc S) := True] \<and>
     sdo_CANrxRcv S = (if sdo_CANrxProc S = 0 then 1 else 0) \<and> sdo_CANrxData S ! unat (sdo_CANrxProc S) = m"

definition same_transfer :: "CO_SDO_t \<Rightarrow> CO_SDO_t \<Rightarrow> bool" where
  \<comment> \<open>the states differ in the queue, the timer and the signals only\<close>
  "same_transfer S S' \<longleftrightarrow> sdo_head S' = sdo_head S \<and> sdo_dict S' = sdo_dict S \<and> sdo_bufferOffset S' = sdo_bufferOffset S \<and>
     sdo_entryNo S' = sdo_entryNo S \<and> sdo_ODF_arg S' = sdo_ODF_arg S \<and> sdo_state S' = sdo_state S \<and> sdo_sequence S' = sdo_sequence S \<and>
     sdo_SDOtimeoutTime_us S' = sdo_SDOtimeoutTime_us S \<and> sdo_blksize S' = sdo_blksize S \<and> sdo_crcEnabled S' = sdo_crcEnabled S \<and>
     sdo_crc S' = sdo_crc S \<and> sdo_lastLen S' = sdo_lastLen S \<and>
     sdo_timeoutSubblockDownolad S' = sdo_timeoutSubblockDownolad S \<and> sdo_endOfTransfer S' = sdo_endOfTransfer S \<and>
     sdo_CANtxBuff S' = sdo_CANtxBuff S"

lemma u8_less_2: "(p :: u8) < 2 \<Longrightarrow> p = 0 \<or> p = 1"
proof -
  assume "p < 2"
  then have "unat p < 2" by (simp add: word_less_nat_alt)
  then have "unat p = 0 \<or> unat p = 1" by linarith
  then show ?thesis by (metis unat_1 unat_eq_zero unsigned_word_eqI)
qed

lemma flagged_done: "flagged m S \<Longrightarrow> quiet_queue (CO_SDO_process_done S)"
  using u8_less_2 [of "sdo_CANrxProc S"]
  by (auto simp: flagged_def quiet_queue_def queue_ok_def CO_SDO_process_done_def Let_def CO_SDO_RX_DATA_SIZE_def
      word_le_nat_alt)

lemma receive_quiet:
  assumes "quiet_queue S" "sdo_state S \<noteq> CO_SDO_ST_DOWNLOAD_BL_SUBBLOCK" "length m = 8"
  obtains S1 where "CO_SDO_receive S (client_msg m) = Some S1" "flagged m S1" "same_transfer S S1"
proof -
  have q: "queue_ok S" "sdo_CANrxNew S = [False, False]" "sdo_CANrxRcv S = sdo_CANrxProc S" using assms(1) by (auto simp: quiet_queue_def)
  then have "length (sdo_CANrxData S) = 2" "list_all (\<lambda>m. length m = 8) (sdo_CANrxData S)"
    by (auto simp: queue_ok_def)
  then have "\<exists>a b. sdo_CANrxData S = [a, b] \<and> length a = 8 \<and> length b = 8"
    by (auto simp: numeral_2_eq_2 length_Suc_conv)
  then obtain a b where ab: "sdo_CANrxData S = [a, b]" "length a = 8" "length b = 8" by blast
  have p: "sdo_CANrxProc S = 0 \<or> sdo_CANrxProc S = 1" using q(1) u8_less_2 by (auto simp: queue_ok_def)
  then show ?thesis using assms q ab
    by (intro that [of "the (CO_SDO_receive S (client_msg m))"])
      (auto simp: CO_SDO_receive_def client_msg_def flagged_def same_transfer_def CO_SDO_receive_done_def CO_SDO_RX_DATA_SIZE_def
        queue_ok_def Let_def word_le_nat_alt)
qed


subsection \<open>Replies\<close>

definition tx_bytes :: "nat \<Rightarrow> 'w od_world \<Rightarrow> u8 list" where
  "tx_bytes txb W = tx_data (bus_buf (wd_bus W) txb)"

definition link_ok :: "nat \<Rightarrow> nat \<Rightarrow> 'w od_world \<Rightarrow> bool" where
  "link_ok txb n W \<longleftrightarrow> world_ok txb n W \<and> bus_ready (wd_bus W) txb"

definition replied :: "nat \<Rightarrow> 'w od_world \<Rightarrow> u8 list list \<Rightarrow> 'w od_world \<Rightarrow> bool" where
  \<comment> \<open>the frames with these data are sent from the buffer of the server, and nothing else\<close>
  "replied txb W ds W' \<longleftrightarrow>
     tx_ident (bus_buf (wd_bus W') txb) = tx_ident (bus_buf (wd_bus W) txb) \<and>
     tx_DLC (bus_buf (wd_bus W') txb) = tx_DLC (bus_buf (wd_bus W) txb) \<and>
     map fst (can_sent (bus_can (wd_bus W'))) = map fst (can_sent (bus_can (wd_bus W))) @
       map (\<lambda>d. (tx_ident (bus_buf (wd_bus W) txb), tx_DLC (bus_buf (wd_bus W) txb), d)) ds"

definition accepting :: "can_env \<Rightarrow> bool" where
  "accepting env \<longleftrightarrow> (\<forall>sent f. 0 \<le> env_write env sent f)"

lemma replied_refl [simp]: "replied txb W [] W"
  by (simp add: replied_def)

lemma replied_trans: "replied txb W ds W' \<Longrightarrow> replied txb W' es W'' \<Longrightarrow> replied txb W (ds @ es) W''"
  by (simp add: replied_def)

lemma link_buffer: "link_ok txb n W \<Longrightarrow> txb < length (can_txArray (bus_can (wd_bus W)))"
  by (simp add: link_ok_def world_ok_def bus_dev_inv_def bus_inv_def)

lemma link_ok_tx:
  assumes "link_ok txb n W" "k + length bs \<le> 8"
  shows "link_ok txb n (sdo_tx txb k bs W) \<and> replied txb W [] (sdo_tx txb k bs W) \<and>
    tx_bytes txb (sdo_tx txb k bs W) = memcpy_at (tx_bytes txb W) k bs"
  using assms link_buffer [OF assms(1)] world_ok_tx [of txb n W k bs]
  by (simp add: link_ok_def replied_def tx_bytes_def sdo_tx_def bus_ready_def bus_buf_upd)

lemma link_bytes: "link_ok txb n W \<Longrightarrow> length (tx_bytes txb W) = 8"
  by (simp add: link_ok_def world_ok_def tx_bytes_def)

lemma link_ok_send:
  assumes "link_ok txb n W" "accepting env"
  shows "link_ok txb n (sdo_send env txb W) \<and> replied txb W [tx_bytes txb W] (sdo_send env txb W)"
proof -
  let ?W = "sdo_send env txb W"
  have l: "txb < length (can_txArray (bus_can (wd_bus W)))" by (rule link_buffer [OF assms(1)])
  have w: "world_ok txb n ?W" using assms(1) world_ok_send by (auto simp: link_ok_def)
  have r: "\<not> env_write env (can_sent (bus_can (wd_bus W))) (tx_frame (bus_buf (wd_bus W) txb)) < 0"
    using assms(2) unfolding accepting_def by (meson not_less)
  have b: "bus_buf (wd_bus ?W) txb = bus_buf (wd_bus W) txb" and d: "can_dev (bus_can (wd_bus ?W)) = can_dev (bus_can (wd_bus W))"
    using assms(1) r by (auto simp: sdo_send_def CO_CANsend_def link_ok_def bus_ready_def Let_def EBUSY_def bus_buf_def)
  show ?thesis using assms(1) w b d CO_CANsend_ready [of "wd_bus W" txb env]
    by (simp add: link_ok_def bus_ready_def replied_def tx_bytes_def tx_frame_def sdo_send_def)
qed

lemma link_ok_mem: "link_ok txb n W \<Longrightarrow> length mem = n \<Longrightarrow> link_ok txb n (W\<lparr>wd_mem := mem\<rparr>)"
  by (simp add: link_ok_def world_ok_def)

lemma replied_mem [simp]: "replied txb W ds (W'\<lparr>wd_mem := mem\<rparr>) = replied txb W ds W'"
  by (simp add: replied_def)

lemma tx_bytes_mem [simp]: "tx_bytes txb (W\<lparr>wd_mem := mem\<rparr>) = tx_bytes txb W"
  by (simp add: tx_bytes_def)

text \<open>The world after a handler filled the buffer: a frame is prepared and nothing is sent.\<close>

definition prepared :: "nat \<Rightarrow> nat \<Rightarrow> 'w od_world \<Rightarrow> u8 list \<Rightarrow> 'w od_world \<Rightarrow> bool" where
  "prepared txb n W d W' \<longleftrightarrow> link_ok txb n W' \<and> replied txb W [] W' \<and> tx_bytes txb W' = d"

lemma prepared_zero: "link_ok txb n W \<Longrightarrow> prepared txb n W (replicate 8 0) (sdo_tx txb 0 (replicate 8 0) W)"
  using link_ok_tx [of txb n W 0 "replicate 8 0"] link_bytes [of txb n W] by (simp add: prepared_def memcpy_at_def)

lemma prepared_tx:
  assumes "prepared txb n W d W'" "k + length bs \<le> 8"
  shows "prepared txb n W (memcpy_at d k bs) (sdo_tx txb k bs W')"
  using assms link_ok_tx [of txb n W' k bs] replied_trans [of txb W "[]" W' "[]"] by (simp add: prepared_def)

lemma prepared_mem [simp]: "prepared txb n W d W' \<Longrightarrow> length mem = n \<Longrightarrow> prepared txb n W d (W'\<lparr>wd_mem := mem\<rparr>)"
  by (simp add: prepared_def link_ok_mem)

lemma prepared_send:
  assumes "prepared txb n W d W'" "accepting env"
  shows "link_ok txb n (sdo_send env txb W') \<and> replied txb W [d] (sdo_send env txb W')"
  using assms link_ok_send [of txb n W' env] replied_trans [of txb W "[]" W' "[d]"] by (simp add: prepared_def)

subsection \<open>One exchange\<close>

definition idle_ok :: "nat \<Rightarrow> nat \<Rightarrow> CO_SDO_t \<Rightarrow> bool" where
  \<comment> \<open>what holds between two requests\<close>
  "idle_ok txb n S \<longleftrightarrow> core_ok txb n S \<and> quiet_queue S \<and> sdo_SDOtimeoutTime_us S \<noteq> 0"

lemma exchange_process:
  assumes "sdo_CANtxBuff S = Some txb" "flagged m S1" "same_transfer S S1" "bus_ready (wd_bus W) txb" "m ! 0 \<noteq> 0x80"
    "sdo_SDOtimeoutTime_us S \<noteq> 0" "sdo_state S \<noteq> CO_SDO_ST_IDLE" "sdo_state S \<noteq> CO_SDO_ST_UPLOAD_BL_SUBBLOCK"
  shows "CO_SDO_process odf env S1 W True dt None =
    map_option (sdo_finish env txb None)
      (sdo_switch odf txb m True (sdo_state S) (S1\<lparr>sdo_timeoutTimer := 0\<rparr>) (sdo_tx txb 0 (replicate 8 0) W))"
proof -
  have new: "sdo_CANrxNew S1 ! unat (sdo_CANrxProc S1)" "sdo_CANrxData S1 ! unat (sdo_CANrxProc S1) = m"
    using assms(2) u8_less_2 [of "sdo_CANrxProc S1"] by (auto simp: flagged_def queue_ok_def)
  have t: "\<not> sdo_SDOtimeoutTime_us S \<le> 0" "0 < sdo_SDOtimeoutTime_us S" using assms(6) by (auto simp: word_neq_0_conv)
  show ?thesis using assms new t
    by (simp add: CO_SDO_process_def sdo_select_def sdo_timeout_def same_transfer_def bus_ready_def Let_def lower_timer_def)
qed


lemma exchange_request:
  assumes "sdo_CANtxBuff S = Some txb" "flagged m S1" "same_transfer S S1" "bus_ready (wd_bus W) txb" "m ! 0 \<noteq> 0x80"
    "sdo_state S = CO_SDO_ST_IDLE"
    and r: "sdo_request odf m 0 (S1\<lparr>sdo_timeoutTimer := 0\<rparr>) (sdo_tx txb 0 (replicate 8 0) W) = Some (S2, W2, SdoGo st 0)"
    and "st \<noteq> CO_SDO_ST_IDLE" "sdo_timeoutTimer S2 = 0" "sdo_SDOtimeoutTime_us S2 \<noteq> 0"
  shows "CO_SDO_process odf env S1 W True dt None = map_option (sdo_finish env txb None) (sdo_switch odf txb m True st S2 W2)"
proof -
  have new: "sdo_CANrxNew S1 ! unat (sdo_CANrxProc S1)" "sdo_CANrxData S1 ! unat (sdo_CANrxProc S1) = m"
    using assms(2) u8_less_2 [of "sdo_CANrxProc S1"] by (auto simp: flagged_def queue_ok_def)
  have t: "\<not> sdo_SDOtimeoutTime_us S2 \<le> 0" "0 < sdo_SDOtimeoutTime_us S2" using assms(10) by (auto simp: word_neq_0_conv)
  have [simp]: "S2\<lparr>sdo_timeoutTimer := 0\<rparr> = S2" using assms(9) by (metis CO_SDO_t.surjective CO_SDO_t.update_convs(12))
  show ?thesis using assms new t
    by (simp add: CO_SDO_process_def sdo_select_def sdo_timeout_def same_transfer_def bus_ready_def Let_def lower_timer_def)
qed

subsection \<open>Plain objects\<close>

text \<open>An object of the dictionary in a variable at address \<^verbatim>\<open>a\<close>, without a registered function.\<close>

definition plain_object :: "CO_SDO_OD \<Rightarrow> u16 \<Rightarrow> u8 \<Rightarrow> nat \<Rightarrow> u16 \<Rightarrow> u16 \<Rightarrow> bool" where
  "plain_object dict index sub a len attr \<longleftrightarrow>
     (let k = CO_OD_find dict index
      in k \<noteq> 0xFFFF \<and> k < length (sdo_OD dict) \<and> k < length (sdo_ODExtensions dict) \<and> sub \<le> od_maxSubIndex (sdo_OD dict ! k) \<and>
         CO_OD_getDataPointer dict k sub = Some (OAddr a) \<and> CO_OD_getLength dict k sub = Some len \<and>
         CO_OD_getAttribute dict k sub = Some attr \<and> ext_pODFunc (sdo_ODExtensions dict ! k) = None \<and>
         \<not> (index = 0x1003 \<and> sub = 0) \<and> len \<noteq> 0 \<and> unat len \<le> 889)"

definition opened :: "u16 \<Rightarrow> u8 \<Rightarrow> nat \<Rightarrow> u16 \<Rightarrow> u16 \<Rightarrow> CO_SDO_t \<Rightarrow> bool" where
  \<comment> \<open>a transfer of the object is under way\<close>
  "opened index sub a len attr S \<longleftrightarrow> sdo_storage S = OAddr a \<and> sdo_dataLength S = len \<and> arg_attribute (sdo_ODF_arg S) = attr \<and>
     arg_index (sdo_ODF_arg S) = index \<and> arg_subIndex (sdo_ODF_arg S) = sub \<and> arg_lastSegment (sdo_ODF_arg S) \<and> sdo_func S = Some None \<and>
     \<not> (index = 0x1003 \<and> sub = 0) \<and> len \<noteq> 0 \<and> unat len \<le> 889 \<and> length (sdo_data S) = 889"

lemma initTransfer_plain:
  assumes "plain_object (sdo_dict S) index sub a len attr" "core_ok txb n S"
  obtains A where "CO_SDO_initTransfer S index sub = Some (CO_SDO_AB_NONE, S\<lparr>sdo_ODF_arg := A, sdo_entryNo := CO_OD_find (sdo_dict S) index\<rparr>)"
    "opened index sub a len attr (S\<lparr>sdo_ODF_arg := A, sdo_entryNo := CO_OD_find (sdo_dict S) index\<rparr>)"
    "arg_dataLengthTotal A = ucast len"
proof -
  have h: "sdo_head S = []" "length (sdo_data S) = 889" using assms(2) by (auto simp: core_ok_def)
  have [simp]: "S\<lparr>sdo_ODF_arg := A, sdo_entryNo := k, sdo_head := []\<rparr> = S\<lparr>sdo_ODF_arg := A, sdo_entryNo := k\<rparr>" for A k
    using h(1) by (metis CO_SDO_t.surjective CO_SDO_t.update_convs(2) CO_SDO_t.update_convs(6) CO_SDO_t.update_convs(7))
  have c: "\<not> od_maxSubIndex (sdo_OD (sdo_dict S) ! CO_OD_find (sdo_dict S) index) < sub" "\<not> CO_CONFIG_SDO_BUFFER_SIZE < len"
    using assms(1) by (auto simp: plain_object_def Let_def not_less word_le_nat_alt)
  show ?thesis using assms(1) h c
    by (intro that [of "sdo_ODF_arg (snd (the (CO_SDO_initTransfer S index sub)))"])
      (auto simp: CO_SDO_initTransfer_def plain_object_def opened_def sdo_func_def sdo_upd_arg_def nth_opt_def Let_def)
qed

lemma writeOD_plain:
  assumes "opened index sub a len attr S" "attr AND CO_ODA_WRITEABLE \<noteq> 0" "a + unat len \<le> length (wd_mem W)"
  obtains A where "CO_SDO_writeOD odf S W len =
      Some (CO_SDO_AB_NONE, S\<lparr>sdo_ODF_arg := A\<rparr>, W\<lparr>wd_mem := memcpy_at (wd_mem W) a (take (unat len) (sdo_data S))\<rparr>)"
    "length (arg_data A) = 889"
proof -
  have "length (take (unat len) (sdo_data S)) = unat len" using assms(1) by (simp add: opened_def)
  then show ?thesis using assms
    by (intro that [of "sdo_ODF_arg (fst (snd (the (CO_SDO_writeOD odf S W len))))"])
      (auto simp: CO_SDO_writeOD_def opened_def sdo_call_def sdo_upd_arg_def sdo_advance_def sdo_get_data_def mem_write_def sdo_func_def Let_def)
qed

lemma readOD_plain:
  assumes "opened index sub a len attr S" "attr AND CO_ODA_READABLE \<noteq> 0" "a + unat len \<le> length (wd_mem W)"
  obtains A where "CO_SDO_readOD odf S W sz = Some (CO_SDO_AB_NONE, S\<lparr>sdo_ODF_arg := A\<rparr>, W)"
    "opened index sub a len attr (S\<lparr>sdo_ODF_arg := A\<rparr>)" "take (unat len) (arg_data A) = take (unat len) (drop a (wd_mem W))"
    "arg_dataLengthTotal A = arg_dataLengthTotal (sdo_ODF_arg S)"
proof -
  define ys where "ys = take (unat len) (drop a (wd_mem W))"
  have "length ys = unat len" using assms(3) by (simp add: ys_def)
  then show ?thesis unfolding ys_def [symmetric] using assms
    by (intro that [of "sdo_ODF_arg (fst (snd (the (CO_SDO_readOD odf S W sz))))"])
      (auto simp: CO_SDO_readOD_def opened_def sdo_upd_arg_def sdo_advance_def sdo_put_data_def mem_read_def sdo_func_def memcpy_at_def
        Let_def ys_def [symmetric])
qed


lemma flagged_upd [simp]:
  "flagged m (S\<lparr>sdo_state := st\<rparr>) = flagged m S" "flagged m (S\<lparr>sdo_bufferOffset := w\<rparr>) = flagged m S"
  "flagged m (S\<lparr>sdo_sequence := b\<rparr>) = flagged m S" "flagged m (S\<lparr>sdo_blksize := b\<rparr>) = flagged m S"
  "flagged m (S\<lparr>sdo_crcEnabled := c\<rparr>) = flagged m S" "flagged m (S\<lparr>sdo_crc := v\<rparr>) = flagged m S"
  "flagged m (S\<lparr>sdo_ODF_arg := A\<rparr>) = flagged m S" "flagged m (S\<lparr>sdo_entryNo := k\<rparr>) = flagged m S"
  "flagged m (S\<lparr>sdo_timeoutTimer := x\<rparr>) = flagged m S" "flagged m (S\<lparr>sdo_timeoutSubblockDownolad := c\<rparr>) = flagged m S"
  "flagged m (S\<lparr>sdo_lastLen := b\<rparr>) = flagged m S" "flagged m (S\<lparr>sdo_endOfTransfer := c\<rparr>) = flagged m S"
  by (simp_all add: flagged_def queue_ok_def)

lemma idle_ok_done:
  assumes "idle_ok txb n S" "flagged m S'" "sdo_dict S' = sdo_dict S" "sdo_head S' = sdo_head S" "length (sdo_data S') = length (sdo_data S)"
    "sdo_CANtxBuff S' = sdo_CANtxBuff S" "sdo_SDOtimeoutTime_us S' = sdo_SDOtimeoutTime_us S"
  shows "idle_ok txb n (CO_SDO_process_done S')"
  using assms flagged_done [OF assms(2)] by (simp add: idle_ok_def core_ok_def quiet_queue_def)

lemma opened_upd [simp]:
  "opened index sub a len attr (S\<lparr>sdo_state := st\<rparr>) = opened index sub a len attr S"
  "opened index sub a len attr (S\<lparr>sdo_bufferOffset := w\<rparr>) = opened index sub a len attr S"
  "opened index sub a len attr (S\<lparr>sdo_sequence := b\<rparr>) = opened index sub a len attr S"
  "opened index sub a len attr (S\<lparr>sdo_timeoutTimer := x\<rparr>) = opened index sub a len attr S"
  "opened index sub a len attr (S\<lparr>sdo_blksize := b\<rparr>) = opened index sub a len attr S"
  "opened index sub a len attr (S\<lparr>sdo_crcEnabled := c\<rparr>) = opened index sub a len attr S"
  "opened index sub a len attr (S\<lparr>sdo_crc := v\<rparr>) = opened index sub a len attr S"
  "opened index sub a len attr (S\<lparr>sdo_timeoutSubblockDownolad := c\<rparr>) = opened index sub a len attr S"
  "opened index sub a len attr (CO_SDO_process_done S) = opened index sub a len attr S"
  by (simp_all add: opened_def sdo_func_def)

lemma opened_same: "same_transfer S S' \<Longrightarrow> opened index sub a len attr S' = opened index sub a len attr S"
  by (simp add: opened_def same_transfer_def sdo_func_def)

lemma append_opened:
  assumes "opened index sub a len attr S" "unat (sdo_bufferOffset S) = length acc" "take (length acc) (sdo_data S) = acc"
    "length acc + length bs \<le> 889"
  obtains A where "sdo_append bs S = Some (S\<lparr>sdo_bufferOffset := word_of_nat (length acc + length bs), sdo_ODF_arg := A\<rparr>)"
    "opened index sub a len attr (S\<lparr>sdo_ODF_arg := A\<rparr>)" "take (length acc + length bs) (arg_data A) = acc @ bs"
    "arg_dataLengthTotal A = arg_dataLengthTotal (sdo_ODF_arg S)"
proof -
  have "sdo_bufferOffset S = word_of_nat (length acc)" using assms(2) by (metis of_nat_unat ucast_id)
  then show ?thesis using assms
    by (intro that [of "sdo_ODF_arg (the (sdo_append bs S))"])
      (auto simp: sdo_append_def sdo_put_data_def sdo_upd_arg_def opened_def sdo_func_def memcpy_at_def)
qed

lemma unat_u16_of_nat: "k \<le> 889 \<Longrightarrow> unat (word_of_nat k :: u16) = k"
  by (simp add: unat_of_nat)

subsection \<open>Segmented download\<close>

definition down_ok :: "u16 \<Rightarrow> u8 \<Rightarrow> nat \<Rightarrow> u16 \<Rightarrow> u16 \<Rightarrow> nat \<Rightarrow> nat \<Rightarrow> CO_SDO_OD \<Rightarrow> bool \<Rightarrow> u8 list \<Rightarrow> CO_SDO_t \<Rightarrow> bool" where
  \<comment> \<open>the bytes \<^verbatim>\<open>acc\<close> have arrived, the next toggle bit is \<^verbatim>\<open>t\<close>\<close>
  "down_ok index sub a len attr txb n dict t acc S \<longleftrightarrow> idle_ok txb n S \<and> sdo_dict S = dict \<and> opened index sub a len attr S \<and>
     sdo_state S = CO_SDO_ST_DOWNLOAD_SEGMENTED \<and> unat (sdo_bufferOffset S) = length acc \<and> take (length acc) (sdo_data S) = acc \<and>
     sdo_sequence S = (if t then 1 else 0)"

definition ack :: "bool \<Rightarrow> u8 list" where
  "ack t = (0x20 OR (if t then 0x10 else 0)) # replicate 7 0"

lemma segment_arrives:
  assumes "down_ok index sub a len attr txb n dict t acc S" "link_ok txb n W" "length bs \<le> 7" "length acc + length bs \<le> unat len"
  obtains S1 A where "CO_SDO_receive S (client_msg (segment t c bs)) = Some S1" "flagged (segment t c bs) S1" "same_transfer S S1"
    "opened index sub a len attr (S1\<lparr>sdo_ODF_arg := A\<rparr>)" "take (length acc + length bs) (arg_data A) = acc @ bs"
    "CO_SDO_process odf env S1 W True dt None = map_option (sdo_finish env txb None)
       (if c then sdo_check (CO_SDO_writeOD odf (S1\<lparr>sdo_timeoutTimer := 0, sdo_bufferOffset := word_of_nat (length acc + length bs), sdo_ODF_arg := A\<rparr>)
              (sdo_tx txb 0 (replicate 8 0) W) (word_of_nat (length acc + length bs)))
              (\<lambda>S2 W2. Some (sdo_toggle (S2\<lparr>sdo_state := CO_SDO_ST_IDLE\<rparr>), sdo_tx txb 0 [0x20 OR sdo_toggle_bit S2] W2, SdoBreak True True))
        else Some (S1\<lparr>sdo_timeoutTimer := 0, sdo_bufferOffset := word_of_nat (length acc + length bs), sdo_ODF_arg := A, sdo_sequence := (if t then 0 else 1)\<rparr>,
                   sdo_tx txb 0 [0x20 OR (if t then 0x10 else 0)] (sdo_tx txb 0 (replicate 8 0) W), SdoBreak True False))"
proof -
  let ?m = "segment t c bs"
  have d: "idle_ok txb n S" "opened index sub a len attr S" "sdo_state S = CO_SDO_ST_DOWNLOAD_SEGMENTED"
    "unat (sdo_bufferOffset S) = length acc" "take (length acc) (sdo_data S) = acc" "sdo_sequence S = (if t then 1 else 0)"
    using assms(1) by (auto simp: down_ok_def)
  have q: "quiet_queue S" "sdo_SDOtimeoutTime_us S \<noteq> 0" "sdo_CANtxBuff S = Some txb" using d(1) by (auto simp: idle_ok_def core_ok_def)
  obtain S1 where S1: "CO_SDO_receive S (client_msg ?m) = Some S1" "flagged ?m S1" "same_transfer S S1"
    using receive_quiet [OF q(1), of ?m] d(3) assms(3) by auto
  let ?S = "S1\<lparr>sdo_timeoutTimer := 0\<rparr>"
  have o: "opened index sub a len attr ?S" using d(2) opened_same [OF S1(3)] by simp
  have e: "sdo_bufferOffset S1 = sdo_bufferOffset S" "sdo_ODF_arg S1 = sdo_ODF_arg S" "sdo_sequence S1 = sdo_sequence S"
    using S1(3) by (auto simp: same_transfer_def)
  have le: "length acc + length bs \<le> 889" using assms(4) d(2) by (simp add: opened_def)
  obtain A where A: "sdo_append bs ?S = Some (?S\<lparr>sdo_bufferOffset := word_of_nat (length acc + length bs), sdo_ODF_arg := A\<rparr>)"
    "opened index sub a len attr (?S\<lparr>sdo_ODF_arg := A\<rparr>)" "take (length acc + length bs) (arg_data A) = acc @ bs"
    using append_opened [OF o, of acc bs] d(4,5) le e by auto
  have cmd: "?m ! 0 = segment_cmd t (length bs) c" "take (length bs) (drop 1 ?m) = bs" by (simp_all add: segment_def)
  have bits: "segment_cmd t (length bs) c AND 0xE0 = 0" "segment_cmd t (length bs) c AND 0x10 \<noteq> 0 \<longleftrightarrow> t"
    "unat (7 - (drop_bit 1 (segment_cmd t (length bs) c) AND 7)) = length bs" "segment_cmd t (length bs) c AND 1 \<noteq> 0 \<longleftrightarrow> c"
    "segment_cmd t (length bs) c \<noteq> 0x80"
    using segment_cmd_bits [OF assms(3)] by auto
  have last: "arg_lastSegment A" using A(2) by (simp add: opened_def)
  then have [simp]: "A\<lparr>arg_lastSegment := True\<rparr> = A" by simp
  have rdy: "bus_ready (wd_bus W) txb" using assms(2) by (simp add: link_ok_def)
  have off: "\<not> unat (sdo_dataLength S) < unat (sdo_bufferOffset S) + length bs" using assms(4) d(2,4) by (simp add: opened_def)
  have sw: "sdo_switch odf txb ?m True CO_SDO_ST_DOWNLOAD_SEGMENTED ?S (sdo_tx txb 0 (replicate 8 0) W) =
    sdo_segment_store odf txb ?m (length bs) ?S (sdo_tx txb 0 (replicate 8 0) W)"
    using bits off e d(6) cmd by (simp add: sdo_switch_def sdo_download_segmented_def Let_def)
  show ?thesis
  proof (rule that [OF S1])
    show "opened index sub a len attr (S1\<lparr>sdo_ODF_arg := A\<rparr>)" using A(2) by (auto simp: opened_def sdo_func_def split: if_splits)
    show "take (length acc + length bs) (arg_data A) = acc @ bs" by (rule A(3))
    show "CO_SDO_process odf env S1 W True dt None = map_option (sdo_finish env txb None)
       (if c then sdo_check (CO_SDO_writeOD odf (S1\<lparr>sdo_timeoutTimer := 0, sdo_bufferOffset := word_of_nat (length acc + length bs), sdo_ODF_arg := A\<rparr>)
              (sdo_tx txb 0 (replicate 8 0) W) (word_of_nat (length acc + length bs)))
              (\<lambda>S2 W2. Some (sdo_toggle (S2\<lparr>sdo_state := CO_SDO_ST_IDLE\<rparr>), sdo_tx txb 0 [0x20 OR sdo_toggle_bit S2] W2, SdoBreak True True))
        else Some (S1\<lparr>sdo_timeoutTimer := 0, sdo_bufferOffset := word_of_nat (length acc + length bs), sdo_ODF_arg := A, sdo_sequence := (if t then 0 else 1)\<rparr>,
                   sdo_tx txb 0 [0x20 OR (if t then 0x10 else 0)] (sdo_tx txb 0 (replicate 8 0) W), SdoBreak True False))"
      using exchange_process [OF q(3) S1(2,3) rdy _ q(2)] d(3,6) cmd bits(4,5) e A(1) sw
      by (simp add: sdo_segment_store_def sdo_upd_arg_def sdo_toggle_def sdo_toggle_bit_def)
  qed
qed


lemma same_transfer_idle:
  assumes "idle_ok txb n S" "same_transfer S S1" "flagged m S'" "sdo_dict S' = sdo_dict S1" "sdo_head S' = sdo_head S1"
    "length (sdo_data S') = 889" "sdo_CANtxBuff S' = sdo_CANtxBuff S1" "sdo_SDOtimeoutTime_us S' = sdo_SDOtimeoutTime_us S1"
  shows "idle_ok txb n (CO_SDO_process_done S')"
proof (rule idle_ok_done [OF assms(1,3)])
  show "length (sdo_data S') = length (sdo_data S)" using assms(1,6) by (simp add: idle_ok_def core_ok_def)
qed (use assms in \<open>simp_all add: same_transfer_def\<close>)

lemma segment_continues:
  assumes d: "down_ok index sub a len attr txb n dict t acc S" and W: "link_ok txb n W" "accepting env"
    and bs: "length bs \<le> 7" "length acc + length bs \<le> unat len"
  obtains S' W' where "sdo_exchange odf env dt (segment t False bs) (S, W) = Some (S', W')"
    "down_ok index sub a len attr txb n dict (\<not> t) (acc @ bs) S'" "link_ok txb n W'" "replied txb W [ack t] W'" "wd_mem W' = wd_mem W"
proof -
  obtain S1 A where S1: "CO_SDO_receive S (client_msg (segment t False bs)) = Some S1" "flagged (segment t False bs) S1" "same_transfer S S1"
    "opened index sub a len attr (S1\<lparr>sdo_ODF_arg := A\<rparr>)" "take (length acc + length bs) (arg_data A) = acc @ bs"
    and p: "CO_SDO_process odf env S1 W True dt None = map_option (sdo_finish env txb None)
        (Some (S1\<lparr>sdo_timeoutTimer := 0, sdo_bufferOffset := word_of_nat (length acc + length bs), sdo_ODF_arg := A, sdo_sequence := (if t then 0 else 1)\<rparr>,
               sdo_tx txb 0 [0x20 OR (if t then 0x10 else 0)] (sdo_tx txb 0 (replicate 8 0) W), SdoBreak True False))"
    using segment_arrives [OF d W(1) bs, of False odf env dt] by (auto simp del: map_option_eq_Some option.map)
  let ?S = "S1\<lparr>sdo_timeoutTimer := 0, sdo_bufferOffset := word_of_nat (length acc + length bs), sdo_ODF_arg := A, sdo_sequence := (if t then 0 else 1)\<rparr>"
  let ?W = "sdo_send env txb (sdo_tx txb 0 [0x20 OR (if t then 0x10 else 0)] (sdo_tx txb 0 (replicate 8 0) W))"
  have idle: "idle_ok txb n (CO_SDO_process_done ?S)"
    by (rule same_transfer_idle [OF _ S1(3), of _ _ "segment t False bs"]) (use S1(2,4) d in \<open>simp_all add: opened_def down_ok_def\<close>)
  have le: "length acc + length bs \<le> 889" using bs(2) S1(4) by (simp add: opened_def)
  have off: "unat (word_of_nat (length acc + length bs) :: u16) = length acc + length bs" using le by (intro unat_u16_of_nat) simp
  have w: "link_ok txb n ?W" "replied txb W [ack t] ?W"
    using prepared_send [OF prepared_tx [OF prepared_zero [OF W(1)], of 0 "[0x20 OR (if t then 0x10 else 0)]"] W(2)]
    by (simp_all add: ack_def memcpy_at_def)
  show ?thesis
  proof (rule that [of "CO_SDO_process_done ?S" ?W])
    show "sdo_exchange odf env dt (segment t False bs) (S, W) = Some (CO_SDO_process_done ?S, ?W)"
      using S1(1) p by (simp add: sdo_exchange_def sdo_finish_def Let_def)
    show "down_ok index sub a len attr txb n dict (\<not> t) (acc @ bs) (CO_SDO_process_done ?S)"
      using idle d S1(3-5) off by (auto simp: down_ok_def same_transfer_def opened_def sdo_func_def)
  qed (use w in simp_all)
qed

definition finished :: "nat \<Rightarrow> nat \<Rightarrow> CO_SDO_OD \<Rightarrow> CO_SDO_t \<Rightarrow> bool" where
  "finished txb n dict S \<longleftrightarrow> idle_ok txb n S \<and> sdo_dict S = dict \<and> sdo_state S = CO_SDO_ST_IDLE"

lemma segment_finishes:
  assumes d: "down_ok index sub a len attr txb n dict t acc S" and W: "link_ok txb n W" "accepting env"
    and bs: "length bs \<le> 7" "length acc + length bs = unat len" and o: "attr AND CO_ODA_WRITEABLE \<noteq> 0" "a + unat len \<le> n"
  obtains S' W' where "sdo_exchange odf env dt (segment t True bs) (S, W) = Some (S', W')" "finished txb n dict S'" "link_ok txb n W'"
    "replied txb W [ack t] W'" "wd_mem W' = memcpy_at (wd_mem W) a (acc @ bs)"
proof -
  have le: "length acc + length bs \<le> unat len" using bs(2) by simp
  obtain S1 A where S1: "CO_SDO_receive S (client_msg (segment t True bs)) = Some S1" "flagged (segment t True bs) S1" "same_transfer S S1"
    "opened index sub a len attr (S1\<lparr>sdo_ODF_arg := A\<rparr>)" "take (length acc + length bs) (arg_data A) = acc @ bs"
    and p: "CO_SDO_process odf env S1 W True dt None = map_option (sdo_finish env txb None)
       (sdo_check (CO_SDO_writeOD odf (S1\<lparr>sdo_timeoutTimer := 0, sdo_bufferOffset := word_of_nat (length acc + length bs), sdo_ODF_arg := A\<rparr>)
              (sdo_tx txb 0 (replicate 8 0) W) (word_of_nat (length acc + length bs)))
              (\<lambda>S2 W2. Some (sdo_toggle (S2\<lparr>sdo_state := CO_SDO_ST_IDLE\<rparr>), sdo_tx txb 0 [0x20 OR sdo_toggle_bit S2] W2, SdoBreak True True)))"
    using segment_arrives [OF d W(1) bs(1) le, of True odf env dt] by (auto simp del: map_option_eq_Some option.map)
  have n: "(word_of_nat (length acc + length bs) :: u16) = len" using bs(2) by simp
  let ?S = "S1\<lparr>sdo_timeoutTimer := 0, sdo_bufferOffset := len, sdo_ODF_arg := A\<rparr>" let ?W = "sdo_tx txb 0 (replicate 8 0) W"
  have mem: "wd_mem ?W = wd_mem W" "length (wd_mem W) = n" using W(1) by (simp_all add: link_ok_def world_ok_def)
  have op: "opened index sub a len attr ?S" using S1(4) by (auto simp: opened_def sdo_func_def split: if_splits)
  obtain B where B: "CO_SDO_writeOD odf ?S ?W len = Some (CO_SDO_AB_NONE, ?S\<lparr>sdo_ODF_arg := B\<rparr>, ?W\<lparr>wd_mem := memcpy_at (wd_mem W) a (acc @ bs)\<rparr>)"
    "length (arg_data B) = 889"
    using writeOD_plain [OF op o(1), of ?W odf] o(2) mem S1(5) bs(2) by auto
  let ?S2 = "sdo_toggle (?S\<lparr>sdo_ODF_arg := B, sdo_state := CO_SDO_ST_IDLE\<rparr>)"
  let ?W2 = "sdo_tx txb 0 [0x20 OR (if t then 0x10 else 0)] (?W\<lparr>wd_mem := memcpy_at (wd_mem W) a (acc @ bs)\<rparr>)"
  have seq: "sdo_sequence S1 = (if t then 1 else 0)" using d S1(3) by (simp add: down_ok_def same_transfer_def)
  have idle: "idle_ok txb n (CO_SDO_process_done ?S2)"
    by (rule same_transfer_idle [OF _ S1(3), of _ _ "segment t True bs"]) (use S1(2) B(2) d in \<open>simp_all add: down_ok_def sdo_toggle_def\<close>)
  have "prepared txb n W (ack t) ?W2"
    using prepared_tx [OF prepared_mem [OF prepared_zero [OF W(1)], of "memcpy_at (wd_mem W) a (acc @ bs)"], of 0 "[0x20 OR (if t then 0x10 else 0)]"]
      mem o(2) bs(2) by (simp add: ack_def memcpy_at_def)
  then have w: "link_ok txb n (sdo_send env txb ?W2)" "replied txb W [ack t] (sdo_send env txb ?W2)" using prepared_send W(2) by blast+
  show ?thesis
  proof (rule that [of "CO_SDO_process_done ?S2" "sdo_send env txb ?W2"])
    show "sdo_exchange odf env dt (segment t True bs) (S, W) = Some (CO_SDO_process_done ?S2, sdo_send env txb ?W2)"
      using S1(1) p B(1) seq unfolding n by (auto simp: sdo_exchange_def sdo_check_def sdo_finish_def Let_def sdo_toggle_bit_def)
    show "finished txb n dict (CO_SDO_process_done ?S2)" using idle d S1(3) by (simp add: finished_def down_ok_def same_transfer_def sdo_toggle_def)
  qed (use w in simp_all)
qed

lemma segments_write:
  assumes "down_ok index sub a len attr txb n dict t acc S" "link_ok txb n W" "accepting env" "length acc + length bs = unat len"
    and "attr AND CO_ODA_WRITEABLE \<noteq> 0" "a + unat len \<le> n"
  shows "\<exists>S' W'. sdo_session odf env dt (segments t bs) (S, W) = Some (S', W') \<and> finished txb n dict S' \<and> link_ok txb n W' \<and>
    replied txb W (acks t (length (segments t bs))) W' \<and> wd_mem W' = memcpy_at (wd_mem W) a (acc @ bs)"
  using assms
proof (induction t bs arbitrary: acc S W rule: segments.induct)
  case (1 t bs)
  show ?case
  proof (cases "length bs \<le> 7")
    case True
    obtain S' W' where "sdo_exchange odf env dt (segment t True bs) (S, W) = Some (S', W')" "finished txb n dict S'" "link_ok txb n W'"
      "replied txb W [ack t] W'" "wd_mem W' = memcpy_at (wd_mem W) a (acc @ bs)"
      by (rule segment_finishes [OF 1(2,3,4) True 1(5-7)])
    then show ?thesis using True by (simp add: segments.simps ack_def)
  next
    case False
    then have b: "length (take 7 bs) \<le> 7" "length acc + length (take 7 bs) \<le> unat len" using 1(5) by auto
    obtain S1 W1 where e: "sdo_exchange odf env dt (segment t False (take 7 bs)) (S, W) = Some (S1, W1)"
      "down_ok index sub a len attr txb n dict (\<not> t) (acc @ take 7 bs) S1" "link_ok txb n W1" "replied txb W [ack t] W1" "wd_mem W1 = wd_mem W"
      by (rule segment_continues [OF 1(2,3,4) b])
    have "length (acc @ take 7 bs) + length (drop 7 bs) = unat len" using 1(5) by simp
    from 1(1) [OF False e(2,3) 1(4) this 1(6,7)] obtain S' W' where
      r: "sdo_session odf env dt (segments (\<not> t) (drop 7 bs)) (S1, W1) = Some (S', W')" "finished txb n dict S'" "link_ok txb n W'"
        "replied txb W1 (acks (\<not> t) (length (segments (\<not> t) (drop 7 bs)))) W'" "wd_mem W' = memcpy_at (wd_mem W1) a ((acc @ take 7 bs) @ drop 7 bs)"
      by blast
    have "segments t bs = segment t False (take 7 bs) # segments (\<not> t) (drop 7 bs)" using False by (subst segments.simps) simp
    then show ?thesis using r e replied_trans [OF e(4) r(4)] by (simp add: ack_def)
  qed
qed


subsection \<open>Downloads\<close>

lemma request_index:
  "push_bit 8 (ucast ((cmd # mux index sub @ ds) ! 2)) OR ucast ((cmd # mux index sub @ ds) ! 1) = index" "(cmd # mux index sub @ ds) ! 3 = sub"
  "(cmd # mux index sub @ ds) ! 2 = mux index sub ! 1" "(cmd # mux index sub @ ds) ! 1 = mux index sub ! 0"
  using mux_index [of index sub] by (simp_all add: nth_append numeral_2_eq_2 numeral_3_eq_3)

lemma core_ok_same:
  assumes "core_ok txb n S" "same_transfer S S1" "flagged m S1"
  shows "core_ok txb n (S1\<lparr>sdo_timeoutTimer := x\<rparr>)"
proof -
  have "queue_ok (S1\<lparr>sdo_timeoutTimer := x\<rparr>)" using assms(3) by (auto simp: flagged_def queue_ok_def)
  then show ?thesis using assms(1,2) by (simp add: core_ok_def same_transfer_def)
qed

lemma request_opens:
  assumes S: "finished txb n dict S" "plain_object dict index sub a len attr" "flagged m S1" "same_transfer S S1"
    and m: "m = cmd # mux index sub @ ds"
  obtains A where "CO_SDO_initTransfer (S1\<lparr>sdo_timeoutTimer := 0\<rparr>) (push_bit 8 (ucast (m ! 2)) OR ucast (m ! 1)) (m ! 3) =
      Some (CO_SDO_AB_NONE, S1\<lparr>sdo_timeoutTimer := 0, sdo_ODF_arg := A, sdo_entryNo := CO_OD_find dict index\<rparr>)"
    "opened index sub a len attr (S1\<lparr>sdo_timeoutTimer := 0, sdo_ODF_arg := A, sdo_entryNo := CO_OD_find dict index\<rparr>)"
    "arg_dataLengthTotal A = ucast len"
proof -
  have c: "core_ok txb n (S1\<lparr>sdo_timeoutTimer := 0\<rparr>)" using S core_ok_same by (auto simp: finished_def idle_ok_def)
  have d: "sdo_dict (S1\<lparr>sdo_timeoutTimer := 0\<rparr>) = dict" using S(1,4) by (simp add: finished_def same_transfer_def)
  have i: "push_bit 8 (ucast (m ! 2)) OR ucast (m ! 1) = index" "m ! 3 = sub" unfolding m by (rule request_index)+
  have o: "plain_object (sdo_dict (S1\<lparr>sdo_timeoutTimer := 0\<rparr>)) index sub a len attr" unfolding d by (rule S(2))
  show ?thesis unfolding i
    by (rule initTransfer_plain [OF o c, unfolded d], rule that [unfolded i])
qed

lemma request_download:
  assumes S: "finished txb n dict S" "plain_object dict index sub a len attr" "flagged m S1" "same_transfer S S1"
    and m: "m = cmd # mux index sub @ ds" "drop_bit 5 cmd = 1 \<and> st = CO_SDO_ST_DOWNLOAD_INITIATE \<or> drop_bit 5 cmd = 6 \<and> st = CO_SDO_ST_DOWNLOAD_BL_INITIATE"
    and o: "attr AND CO_ODA_WRITEABLE \<noteq> 0"
    and W: "link_ok txb n W"
  obtains A S2 where "S2 = S1\<lparr>sdo_timeoutTimer := 0, sdo_ODF_arg := A, sdo_entryNo := CO_OD_find dict index\<rparr>"
    "opened index sub a len attr S2"
    "CO_SDO_process odf env S1 W True dt None =
       map_option (sdo_finish env txb None) (sdo_switch odf txb m True st S2 (sdo_tx txb 0 (replicate 8 0) W))"
proof -
  obtain A where A: "CO_SDO_initTransfer (S1\<lparr>sdo_timeoutTimer := 0\<rparr>) (push_bit 8 (ucast (m ! 2)) OR ucast (m ! 1)) (m ! 3) =
      Some (CO_SDO_AB_NONE, S1\<lparr>sdo_timeoutTimer := 0, sdo_ODF_arg := A, sdo_entryNo := CO_OD_find dict index\<rparr>)"
    "opened index sub a len attr (S1\<lparr>sdo_timeoutTimer := 0, sdo_ODF_arg := A, sdo_entryNo := CO_OD_find dict index\<rparr>)"
    "arg_dataLengthTotal A = ucast len"
    by (rule request_opens [OF S m(1)])
  let ?S = "S1\<lparr>sdo_timeoutTimer := 0, sdo_ODF_arg := A, sdo_entryNo := CO_OD_find dict index\<rparr>"
  have q: "sdo_CANtxBuff S = Some txb" "sdo_SDOtimeoutTime_us S1 \<noteq> 0" "sdo_state S = CO_SDO_ST_IDLE"
    using S by (auto simp: finished_def idle_ok_def core_ok_def same_transfer_def)
  have cmd: "m ! 0 = cmd" "cmd \<noteq> 0x80" using m by auto
  have at: "arg_attribute A = attr" using A(2) by (simp add: opened_def)
  have "sdo_request odf m 0 (S1\<lparr>sdo_timeoutTimer := 0\<rparr>) (sdo_tx txb 0 (replicate 8 0) W) = Some (?S, sdo_tx txb 0 (replicate 8 0) W, SdoGo st 0)"
    using A(1) m(2) cmd o at by (auto simp: sdo_request_def sdo_check_def Let_def)
  from exchange_request [OF q(1) S(3,4) _ _ q(3) this] show ?thesis
    using W cmd q(2) m(2) that [OF refl A(2)] by (auto simp: link_ok_def)
qed

definition opening_reply :: "u16 \<Rightarrow> u8 \<Rightarrow> u8 list" where
  "opening_reply index sub = 0x60 # mux index sub @ replicate 4 0"

lemma mux_list: "[mux index sub ! 0, mux index sub ! Suc 0, sub] = mux index sub"
  by (simp add: mux_def)

lemma getUint32_le_bytes: "CO_getUint32 (le_bytes 4 (unat (w :: u16))) = ucast w"
proof -
  have "unat w < 256 ^ 4" by (rule less_trans [OF unat_u16_less]) simp
  then show ?thesis using le_value_le_bytes [of "unat w" 4] by (simp add: CO_getUint32_def del: le_bytes.simps)
qed

lemma download_opens:
  assumes S: "finished txb n dict S" "plain_object dict index sub a len attr" "attr AND CO_ODA_WRITEABLE \<noteq> 0"
    and W: "link_ok txb n W" "accepting env"
  obtains S' W' where "sdo_exchange odf env dt (0x21 # mux index sub @ le_bytes 4 (unat len)) (S, W) = Some (S', W')"
    "down_ok index sub a len attr txb n dict False [] S'" "link_ok txb n W'" "replied txb W [opening_reply index sub] W'" "wd_mem W' = wd_mem W"
proof -
  let ?m = "0x21 # mux index sub @ le_bytes 4 (unat len)" let ?W = "sdo_tx txb 0 (replicate 8 0) W"
  have f: "idle_ok txb n S" "sdo_dict S = dict" "sdo_state S = CO_SDO_ST_IDLE" using S(1) by (auto simp: finished_def)
  obtain S1 where S1: "CO_SDO_receive S (client_msg ?m) = Some S1" "flagged ?m S1" "same_transfer S S1"
    using receive_quiet [of S ?m] f by (auto simp: idle_ok_def)
  obtain A S2 where S2: "S2 = S1\<lparr>sdo_timeoutTimer := 0, sdo_ODF_arg := A, sdo_entryNo := CO_OD_find dict index\<rparr>" "opened index sub a len attr S2"
    and p: "CO_SDO_process odf env S1 W True dt None = map_option (sdo_finish env txb None) (sdo_switch odf txb ?m True CO_SDO_ST_DOWNLOAD_INITIATE S2 ?W)"
    by (rule request_download [OF S(1,2) S1(2,3) refl, of CO_SDO_ST_DOWNLOAD_INITIATE, OF _ S(3) W(1)]) auto
  have rx: "CO_getUint32 (drop 4 ?m) = ucast len" by (simp add: getUint32_le_bytes mux_def del: le_bytes.simps)
  let ?S = "S2\<lparr>sdo_ODF_arg := (sdo_ODF_arg S2)\<lparr>arg_dataLengthTotal := ucast len\<rparr>, sdo_bufferOffset := 0, sdo_sequence := 0,
    sdo_state := CO_SDO_ST_DOWNLOAD_SEGMENTED\<rparr>"
  let ?W1 = "sdo_tx txb 0 (0x60 # mux index sub) ?W"
  have "sdo_switch odf txb ?m True CO_SDO_ST_DOWNLOAD_INITIATE S2 ?W = Some (?S, ?W1, SdoBreak True False)"
    using S2(2) rx request_index [of "0x21" index sub "le_bytes 4 (unat len)"]
    by (simp add: sdo_switch_def sdo_download_initiate_def opened_def Let_def sdo_upd_arg_def mux_list del: le_bytes.simps)
  then have e: "sdo_exchange odf env dt ?m (S, W) = Some (CO_SDO_process_done ?S, sdo_send env txb ?W1)"
    using S1(1) p by (simp add: sdo_exchange_def sdo_finish_def Let_def del: le_bytes.simps)
  have d: "sdo_dict S2 = sdo_dict S1" "sdo_head S2 = sdo_head S1" "sdo_CANtxBuff S2 = sdo_CANtxBuff S1" "sdo_SDOtimeoutTime_us S2 = sdo_SDOtimeoutTime_us S1"
    "flagged ?m S2" using S1(2) by (simp_all add: S2(1))
  have idle: "idle_ok txb n (CO_SDO_process_done ?S)"
    by (rule same_transfer_idle [OF f(1) S1(3), of ?m]) (use d S2(2) in \<open>simp_all add: opened_def del: le_bytes.simps\<close>)
  have "prepared txb n W (opening_reply index sub) ?W1"
    using prepared_tx [OF prepared_zero [OF W(1)], of 0 "0x60 # mux index sub"] by (simp add: memcpy_front opening_reply_def)
  then have w: "link_ok txb n (sdo_send env txb ?W1)" "replied txb W [opening_reply index sub] (sdo_send env txb ?W1)"
    using prepared_send W(2) by blast+
  have "opened index sub a len attr ?S" using S2(2) by (auto simp: opened_def sdo_func_def split: if_splits)
  then have "down_ok index sub a len attr txb n dict False [] (CO_SDO_process_done ?S)"
    using idle d(1) f(2) S1(3) by (simp add: down_ok_def same_transfer_def)
  then show ?thesis using that e w by simp
qed


lemma expedited_cmd:
  assumes "n \<le> 4" "n \<noteq> 0"
  shows "drop_bit 5 (0x23 OR push_bit 2 (word_of_nat (4 - n)) :: u8) = 1" "(0x23 OR push_bit 2 (word_of_nat (4 - n)) :: u8) AND 2 \<noteq> 0"
    "(0x23 OR push_bit 2 (word_of_nat (4 - n)) :: u8) AND 1 \<noteq> 0"
    "4 - (ucast (drop_bit 2 (0x23 OR push_bit 2 (word_of_nat (4 - n)) :: u8)) AND 3) = (word_of_nat n :: u16)"
proof -
  have "n = 1 \<or> n = 2 \<or> n = 3 \<or> n = 4" using assms by auto
  then show "drop_bit 5 (0x23 OR push_bit 2 (word_of_nat (4 - n)) :: u8) = 1" "(0x23 OR push_bit 2 (word_of_nat (4 - n)) :: u8) AND 2 \<noteq> 0"
    "(0x23 OR push_bit 2 (word_of_nat (4 - n)) :: u8) AND 1 \<noteq> 0"
    "4 - (ucast (drop_bit 2 (0x23 OR push_bit 2 (word_of_nat (4 - n)) :: u8)) AND 3) = (word_of_nat n :: u16)"
    by auto
qed

lemma download_expedited:
  assumes S: "finished txb n dict S" "plain_object dict index sub a len attr" "attr AND CO_ODA_WRITEABLE \<noteq> 0" "a + unat len \<le> n"
    and W: "link_ok txb n W" "accepting env" and bs: "length bs = unat len" "length bs \<le> 4"
  obtains S' W' where "sdo_exchange odf env dt
      ((0x23 OR push_bit 2 (word_of_nat (4 - length bs))) # mux index sub @ bs @ replicate (4 - length bs) 0) (S, W) = Some (S', W')"
    "finished txb n dict S'" "link_ok txb n W'" "replied txb W [opening_reply index sub] W'" "wd_mem W' = memcpy_at (wd_mem W) a bs"
proof -
  define c where "c = (0x23 OR push_bit 2 (word_of_nat (4 - length bs)) :: u8)"
  define ds where "ds = bs @ replicate (4 - length bs) 0"
  let ?m = "c # mux index sub @ ds" let ?W = "sdo_tx txb 0 (replicate 8 0) W"
  have ds: "length ds = 4" "take (length bs) ds = bs" using bs(2) by (simp_all add: ds_def)
  have "length bs \<noteq> 0" using bs(1) S(2) by (simp add: plain_object_def Let_def unat_eq_zero)
  from expedited_cmd [OF bs(2) this] have c: "drop_bit 5 c = 1" "c AND 2 \<noteq> 0" "c AND 1 \<noteq> 0" "4 - (ucast (drop_bit 2 c) AND 3) = len"
    unfolding c_def [symmetric] using bs(1) by auto
  have f: "idle_ok txb n S" "sdo_dict S = dict" "sdo_state S = CO_SDO_ST_IDLE" using S(1) by (auto simp: finished_def)
  obtain S1 where S1: "CO_SDO_receive S (client_msg ?m) = Some S1" "flagged ?m S1" "same_transfer S S1"
    using receive_quiet [of S ?m] f ds(1) by (auto simp: idle_ok_def)
  obtain A S2 where S2: "S2 = S1\<lparr>sdo_timeoutTimer := 0, sdo_ODF_arg := A, sdo_entryNo := CO_OD_find dict index\<rparr>" "opened index sub a len attr S2"
    and p: "CO_SDO_process odf env S1 W True dt None = map_option (sdo_finish env txb None) (sdo_switch odf txb ?m True CO_SDO_ST_DOWNLOAD_INITIATE S2 ?W)"
    by (rule request_download [OF S(1,2) S1(2,3) refl, of CO_SDO_ST_DOWNLOAD_INITIATE, OF _ S(3) W(1)]) (use c(1) in auto)
  let ?W1 = "sdo_tx txb 0 (0x60 # mux index sub) ?W"
  let ?S = "S2\<lparr>sdo_ODF_arg := (sdo_ODF_arg S2)\<lparr>arg_data := memcpy_at (sdo_data S2) 0 ds\<rparr>\<rparr>"
  have len: "length (sdo_data S2) = 889" using S2(2) by (simp add: opened_def)
  have put: "sdo_put_data 0 ds S2 = Some ?S" using ds(1) len by (intro sdo_put_data_some) auto
  have op: "opened index sub a len attr ?S" using S2(2) ds(1) by (auto simp: opened_def sdo_func_def split: if_splits)
  have mem: "wd_mem ?W1 = wd_mem W" "length (wd_mem W) = n" using W(1) by (simp_all add: link_ok_def world_ok_def)
  have tk: "take (unat len) (sdo_data ?S) = bs" using ds bs len by (simp add: memcpy_front)
  obtain B where B: "CO_SDO_writeOD odf ?S ?W1 len = Some (CO_SDO_AB_NONE, ?S\<lparr>sdo_ODF_arg := B\<rparr>, ?W1\<lparr>wd_mem := memcpy_at (wd_mem W) a bs\<rparr>)"
    "length (arg_data B) = 889"
    using writeOD_plain [OF op S(3), of ?W1 odf] S(4) mem tk by auto
  let ?S2 = "S2\<lparr>sdo_ODF_arg := B, sdo_state := CO_SDO_ST_IDLE\<rparr>" let ?W2 = "?W1\<lparr>wd_mem := memcpy_at (wd_mem W) a bs\<rparr>"
  have "sdo_switch odf txb ?m True CO_SDO_ST_DOWNLOAD_INITIATE S2 ?W = Some (?S2, ?W2, SdoBreak True True)"
    using c put B(1) ds(1) request_index [of c index sub ds]
    by (simp add: sdo_switch_def sdo_download_initiate_def sdo_check_def Let_def mux_list)
  then have e: "sdo_exchange odf env dt ?m (S, W) = Some (CO_SDO_process_done ?S2, sdo_send env txb ?W2)"
    using S1(1) p by (simp add: sdo_exchange_def sdo_finish_def Let_def)
  have d: "sdo_dict S2 = sdo_dict S1" "sdo_head S2 = sdo_head S1" "sdo_CANtxBuff S2 = sdo_CANtxBuff S1" "sdo_SDOtimeoutTime_us S2 = sdo_SDOtimeoutTime_us S1"
    "flagged ?m S2" using S1(2) by (simp_all add: S2(1))
  have idle: "idle_ok txb n (CO_SDO_process_done ?S2)"
    by (rule same_transfer_idle [OF f(1) S1(3), of ?m]) (use d B(2) in simp_all)
  have "prepared txb n W (opening_reply index sub) ?W2"
    using prepared_tx [OF prepared_zero [OF W(1)], of 0 "0x60 # mux index sub"] mem S(4) bs(1) by (simp add: memcpy_front opening_reply_def)
  then have w: "link_ok txb n (sdo_send env txb ?W2)" "replied txb W [opening_reply index sub] (sdo_send env txb ?W2)"
    using prepared_send W(2) by blast+
  show ?thesis using that [of "CO_SDO_process_done ?S2" "sdo_send env txb ?W2"] e w idle d(1) f(2) S1(3)
    by (simp add: c_def ds_def finished_def same_transfer_def)
qed

lemma download_writes:
  assumes "finished txb n dict S" "plain_object dict index sub a len attr" "attr AND CO_ODA_WRITEABLE \<noteq> 0" "a + unat len \<le> n"
    and "link_ok txb n W" "accepting env" "length bs = unat len"
  obtains S' W' where "sdo_session odf env dt (download_requests index sub bs) (S, W) = Some (S', W')" "finished txb n dict S'" "link_ok txb n W'"
    "replied txb W (download_replies index sub bs) W'" "wd_mem W' = memcpy_at (wd_mem W) a bs"
proof (cases "length bs \<le> 4")
  case True
  obtain S' W' where "sdo_exchange odf env dt
      ((0x23 OR push_bit 2 (word_of_nat (4 - length bs))) # mux index sub @ bs @ replicate (4 - length bs) 0) (S, W) = Some (S', W')"
    "finished txb n dict S'" "link_ok txb n W'" "replied txb W [opening_reply index sub] W'" "wd_mem W' = memcpy_at (wd_mem W) a bs"
    by (rule download_expedited [OF assms True])
  then show ?thesis using True that [of S' W'] by (simp add: download_requests_def download_replies_def opening_reply_def)
next
  case False
  obtain S1 W1 where e: "sdo_exchange odf env dt (0x21 # mux index sub @ le_bytes 4 (unat len)) (S, W) = Some (S1, W1)"
    "down_ok index sub a len attr txb n dict False [] S1" "link_ok txb n W1" "replied txb W [opening_reply index sub] W1" "wd_mem W1 = wd_mem W"
    by (rule download_opens [OF assms(1-3,5,6)])
  have "length [] + length bs = unat len" using assms(7) by simp
  from segments_write [OF e(2,3) assms(6) this assms(3,4)] obtain S' W' where
    r: "sdo_session odf env dt (segments False bs) (S1, W1) = Some (S', W')" "finished txb n dict S'" "link_ok txb n W'"
      "replied txb W1 (acks False (length (segments False bs))) W'" "wd_mem W' = memcpy_at (wd_mem W1) a ([] @ bs)" by blast
  show ?thesis using False that [of S' W'] e r assms(7) replied_trans [OF e(4) r(4)]
    by (simp add: download_requests_def download_replies_def opening_reply_def del: le_bytes.simps)
qed


subsection \<open>Uploads\<close>

definition up_ok :: "u16 \<Rightarrow> u8 \<Rightarrow> nat \<Rightarrow> u16 \<Rightarrow> u16 \<Rightarrow> nat \<Rightarrow> nat \<Rightarrow> CO_SDO_OD \<Rightarrow> bool \<Rightarrow> u8 list \<Rightarrow> nat \<Rightarrow> CO_SDO_t \<Rightarrow> bool" where
  \<comment> \<open>the value \<^verbatim>\<open>v\<close> is in the buffer and \<^verbatim>\<open>k\<close> bytes of it have been sent\<close>
  "up_ok index sub a len attr txb n dict t v k S \<longleftrightarrow> idle_ok txb n S \<and> sdo_dict S = dict \<and> opened index sub a len attr S \<and>
     sdo_state S = CO_SDO_ST_UPLOAD_SEGMENTED \<and> unat (sdo_bufferOffset S) = k \<and> take (unat len) (sdo_data S) = v \<and>
     sdo_sequence S = (if t then 1 else 0)"

definition poll :: "bool \<Rightarrow> u8 list" where
  "poll t = (0x60 OR (if t then 0x10 else 0)) # replicate 7 0"

lemma poll_bits: "poll t ! 0 AND 0xE0 = 0x60" "poll t ! 0 AND 0x10 \<noteq> 0 \<longleftrightarrow> t" "poll t ! 0 \<noteq> 0x80" "length (poll t) = 8"
  by (simp_all add: poll_def)

lemma segment_bytes:
  "length bs \<le> 7 \<Longrightarrow> memcpy_at (memcpy_at (replicate 8 0) 1 bs) 0 [segment_cmd t (length bs) c] = segment t c bs"
proof -
  assume "length bs \<le> 7"
  moreover have "replicate 8 (0 :: u8) = 0 # replicate 7 0" by (simp add: numeral_eq_Suc)
  ultimately show ?thesis by (simp add: memcpy_at_def segment_def)
qed

lemma poll_answered:
  assumes d: "up_ok index sub a len attr txb n dict t v k S" and W: "link_ok txb n W" "accepting env"
    and k: "k < unat len" and bs: "bs = take 7 (drop k v)" and c: "c \<longleftrightarrow> unat len \<le> k + 7"
  obtains S' W' where "sdo_exchange odf env dt (poll t) (S, W) = Some (S', W')"
    "if c then finished txb n dict S' else up_ok index sub a len attr txb n dict (\<not> t) v (k + 7) S'"
    "link_ok txb n W'" "replied txb W [segment t c bs] W'" "wd_mem W' = wd_mem W"
proof -
  let ?W = "sdo_tx txb 0 (replicate 8 0) W"
  have f: "idle_ok txb n S" "sdo_dict S = dict" "opened index sub a len attr S" "sdo_state S = CO_SDO_ST_UPLOAD_SEGMENTED"
    "unat (sdo_bufferOffset S) = k" "take (unat len) (sdo_data S) = v" "sdo_sequence S = (if t then 1 else 0)"
    using d by (auto simp: up_ok_def)
  have q: "quiet_queue S" "sdo_SDOtimeoutTime_us S \<noteq> 0" "sdo_CANtxBuff S = Some txb" using f(1) by (auto simp: idle_ok_def core_ok_def)
  obtain S1 where S1: "CO_SDO_receive S (client_msg (poll t)) = Some S1" "flagged (poll t) S1" "same_transfer S S1"
    using receive_quiet [OF q(1), of "poll t"] f(4) poll_bits(4) by auto
  have rdy: "bus_ready (wd_bus W) txb" using W(1) by (simp add: link_ok_def)
  let ?S = "S1\<lparr>sdo_timeoutTimer := 0\<rparr>"
  have e: "sdo_bufferOffset S1 = sdo_bufferOffset S" "sdo_ODF_arg S1 = sdo_ODF_arg S" "sdo_sequence S1 = sdo_sequence S" "sdo_dict S1 = sdo_dict S"
    using S1(3) by (auto simp: same_transfer_def)
  have o: "sdo_storage S \<noteq> ONull" "sdo_dataLength S = len" "arg_lastSegment (sdo_ODF_arg S)" "unat len \<le> 889" "length (sdo_data S) = 889"
    using f(3) by (auto simp: opened_def)
  have v: "length v = unat len" using f(6) o(4,5) by auto
  define l where "l = min (unat len - k) 7"
  have "unat (len - sdo_bufferOffset S) = unat len - k" using f(5) k by (simp add: unat_sub word_le_nat_alt)
  then have l: "min (unat (len - sdo_bufferOffset S)) 7 = l" "l \<le> 7" "k + l \<le> unat len" "length bs = l" "c \<longleftrightarrow> k + l = unat len"
    using k v bs c by (auto simp: l_def)
  have off: "sdo_bufferOffset S + word_of_nat l = word_of_nat (k + l)" using f(5) by (metis of_nat_add of_nat_unat ucast_id)
  have off_n: "unat (word_of_nat (k + l) :: u16) = k + l" using l(3) o(4) by (intro unat_u16_of_nat) simp
  have off_c: "(word_of_nat (k + l) = len) = c" using l(5) off_n by (metis of_nat_unat ucast_id)
  have g: "sdo_get_data k l ?S = Some bs"
  proof -
    have "take l (drop k (sdo_data S)) = take l (drop k v)" using l(3) f(6) [symmetric] by (simp add: drop_take)
    also have "\<dots> = bs" using bs l(4) v by (simp add: l_def min_def)
    finally show ?thesis using l(3) o(4,5) e(2) by (simp add: sdo_get_data_def)
  qed
  let ?S' = "S1\<lparr>sdo_timeoutTimer := 0, sdo_bufferOffset := word_of_nat (k + l), sdo_sequence := (if t then 0 else 1)\<rparr>"
  let ?W' = "sdo_tx txb 0 [segment_cmd t l c] (sdo_tx txb 1 bs ?W)"
  have sw: "sdo_switch odf txb (poll t) True CO_SDO_ST_UPLOAD_SEGMENTED ?S ?W =
    Some (if c then ?S'\<lparr>sdo_state := CO_SDO_ST_IDLE\<rparr> else ?S', ?W', SdoBreak True c)"
    using poll_bits f(5,7) e o g l(1) off off_c
    by (simp add: sdo_switch_def sdo_upload_segmented_def sdo_upload_segment_send_def sdo_toggle_def sdo_toggle_bit_def segment_cmd_def Let_def
        or.assoc)
  then have x: "sdo_exchange odf env dt (poll t) (S, W) =
      Some (CO_SDO_process_done (if c then ?S'\<lparr>sdo_state := CO_SDO_ST_IDLE\<rparr> else ?S'), sdo_send env txb ?W')"
    using exchange_process [OF q(3) S1(2,3) rdy _ q(2)] f(4) poll_bits(3) S1(1) by (auto simp: sdo_exchange_def sdo_finish_def Let_def)
  have idle: "idle_ok txb n (CO_SDO_process_done (if c then ?S'\<lparr>sdo_state := CO_SDO_ST_IDLE\<rparr> else ?S'))"
    by (rule same_transfer_idle [OF f(1) S1(3), of "poll t"]) (use S1(2) e o in simp_all)
  have "prepared txb n W (segment t c bs) ?W'"
    using prepared_tx [OF prepared_tx [OF prepared_zero [OF W(1)], of 1 bs], of 0 "[segment_cmd t l c]"] segment_bytes [of bs t c] l(2,4) by simp
  then have w: "link_ok txb n (sdo_send env txb ?W')" "replied txb W [segment t c bs] (sdo_send env txb ?W')" using prepared_send W(2) by blast+
  have "\<not> c \<Longrightarrow> l = 7" using c k by (simp add: l_def)
  then have "if c then finished txb n dict (CO_SDO_process_done (?S'\<lparr>sdo_state := CO_SDO_ST_IDLE\<rparr>))
    else up_ok index sub a len attr txb n dict (\<not> t) v (k + 7) (CO_SDO_process_done ?S')"
    using idle e f off_n opened_same [OF S1(3)] S1(3) by (auto simp: finished_def up_ok_def same_transfer_def)
  then show ?thesis using that x w by (auto split: if_splits)
qed

lemma polls_answered:
  assumes "up_ok index sub a len attr txb n dict t v k S" "link_ok txb n W" "accepting env" "k < unat len" "bs = drop k v" "length v = unat len"
  shows "\<exists>S' W'. sdo_session odf env dt (polls t ((length bs + 6) div 7)) (S, W) = Some (S', W') \<and> finished txb n dict S' \<and> link_ok txb n W' \<and>
    replied txb W (segments t bs) W' \<and> wd_mem W' = wd_mem W"
  using assms
proof (induction t bs arbitrary: k S W rule: segments.induct)
  case (1 t bs)
  have len: "length bs = unat len - k" "bs \<noteq> []" using 1(5-7) by auto
  obtain S1 W1 where e: "sdo_exchange odf env dt (poll t) (S, W) = Some (S1, W1)"
    "if length bs \<le> 7 then finished txb n dict S1 else up_ok index sub a len attr txb n dict (\<not> t) v (k + 7) S1"
    "link_ok txb n W1" "replied txb W [segment t (length bs \<le> 7) (take 7 bs)] W1" "wd_mem W1 = wd_mem W"
    using poll_answered [OF 1(2-5) refl, of "length bs \<le> 7"] 1(6) len(1) by (metis le_diff_conv add.commute)
  show ?case
  proof (cases "length bs \<le> 7")
    case True
    then have "(length bs + 6) div 7 = Suc 0" using len(2) by (cases bs) auto
    then show ?thesis using e True by (simp add: segments.simps poll_def [symmetric])
  next
    case False
    then have k: "k + 7 < unat len" "drop 7 bs = drop (k + 7) v" using len 1(6) by (auto simp: add.commute)
    have "up_ok index sub a len attr txb n dict (\<not> t) v (k + 7) S1" using e(2) False by simp
    from 1(1) [OF False this e(3) 1(4) k 1(7)] obtain S' W' where
      r: "sdo_session odf env dt (polls (\<not> t) ((length (drop 7 bs) + 6) div 7)) (S1, W1) = Some (S', W')" "finished txb n dict S'" "link_ok txb n W'"
        "replied txb W1 (segments (\<not> t) (drop 7 bs)) W'" "wd_mem W' = wd_mem W1" by blast
    have s: "segments t bs = segment t False (take 7 bs) # segments (\<not> t) (drop 7 bs)" using False by (subst segments.simps) simp
    have "(length bs + 6) div 7 = Suc ((length (drop 7 bs) + 6) div 7)" using False by simp
    then show ?thesis unfolding s using r e replied_trans [OF e(4) r(4)] False by (simp add: poll_def [symmetric])
  qed
qed

lemma segment_data_segment: "length bs \<le> 7 \<Longrightarrow> segment_data (segment t c bs) = bs"
  using segment_cmd_bits(6) [of "length bs" t c] by (simp add: segment_data_def segment_def)

lemma segments_data: "concat (map segment_data (segments t bs)) = bs"
proof (induction t bs rule: segments.induct)
  case (1 t bs)
  then show ?case by (subst segments.simps) (simp add: segment_data_segment)
qed


lemma request_upload:
  assumes S: "finished txb n dict S" "plain_object dict index sub a len attr" "flagged m S1" "same_transfer S S1"
    and m: "m = 0x40 # mux index sub @ ds"
    and o: "attr AND CO_ODA_READABLE \<noteq> 0" "a + unat len \<le> n"
    and W: "link_ok txb n W"
  obtains A S2 where "S2 = S1\<lparr>sdo_timeoutTimer := 0, sdo_entryNo := CO_OD_find dict index, sdo_ODF_arg := A\<rparr>"
    "opened index sub a len attr S2" "take (unat len) (arg_data A) = take (unat len) (drop a (wd_mem W))" "arg_dataLengthTotal A = ucast len"
    "CO_SDO_process odf env S1 W True dt None =
       map_option (sdo_finish env txb None) (sdo_switch odf txb m True CO_SDO_ST_UPLOAD_INITIATE S2 (sdo_tx txb 0 (replicate 8 0) W))"
proof -
  obtain A where A: "CO_SDO_initTransfer (S1\<lparr>sdo_timeoutTimer := 0\<rparr>) (push_bit 8 (ucast (m ! 2)) OR ucast (m ! 1)) (m ! 3) =
      Some (CO_SDO_AB_NONE, S1\<lparr>sdo_timeoutTimer := 0, sdo_ODF_arg := A, sdo_entryNo := CO_OD_find dict index\<rparr>)"
    "opened index sub a len attr (S1\<lparr>sdo_timeoutTimer := 0, sdo_ODF_arg := A, sdo_entryNo := CO_OD_find dict index\<rparr>)"
    "arg_dataLengthTotal A = ucast len"
    by (rule request_opens [OF S m(1)])
  let ?S = "S1\<lparr>sdo_timeoutTimer := 0, sdo_ODF_arg := A, sdo_entryNo := CO_OD_find dict index\<rparr>" let ?W = "sdo_tx txb 0 (replicate 8 0) W"
  have mem: "a + unat len \<le> length (wd_mem ?W)" using W o(2) by (simp add: link_ok_def world_ok_def)
  obtain B where B: "CO_SDO_readOD odf ?S ?W CO_CONFIG_SDO_BUFFER_SIZE = Some (CO_SDO_AB_NONE, ?S\<lparr>sdo_ODF_arg := B\<rparr>, ?W)"
    "opened index sub a len attr (?S\<lparr>sdo_ODF_arg := B\<rparr>)" "take (unat len) (arg_data B) = take (unat len) (drop a (wd_mem ?W))"
    "arg_dataLengthTotal B = arg_dataLengthTotal (sdo_ODF_arg ?S)"
    by (rule readOD_plain [OF A(2) o(1) mem])
  let ?S2 = "S1\<lparr>sdo_timeoutTimer := 0, sdo_entryNo := CO_OD_find dict index, sdo_ODF_arg := B\<rparr>"
  have q: "sdo_CANtxBuff S = Some txb" "sdo_SDOtimeoutTime_us S1 \<noteq> 0" "sdo_state S = CO_SDO_ST_IDLE"
    using S by (auto simp: finished_def idle_ok_def core_ok_def same_transfer_def)
  have "sdo_request odf m 0 (S1\<lparr>sdo_timeoutTimer := 0\<rparr>) ?W = Some (?S2, ?W, SdoGo CO_SDO_ST_UPLOAD_INITIATE 0)"
    using A(1) B(1) by (simp add: sdo_request_def sdo_check_def Let_def m)
  from exchange_request [OF q(1) S(3,4) _ _ q(3) this] have
    p: "CO_SDO_process odf env S1 W True dt None = map_option (sdo_finish env txb None) (sdo_switch odf txb m True CO_SDO_ST_UPLOAD_INITIATE ?S2 ?W)" for env dt
    using W q(2) m by (simp add: link_ok_def)
  show ?thesis
  proof (rule that [OF refl _ _ _ p])
    show "opened index sub a len attr ?S2" using B(2) by (auto simp: opened_def sdo_func_def split: if_splits)
  qed (use B(3,4) A(3) in simp_all)
qed

lemma unat_ucast_u32: "unat (ucast (w :: u16) :: u32) = unat w"
proof -
  have "unat w < 2 ^ 32" by (rule less_trans [OF unat_u16_less]) simp
  then show ?thesis by (simp add: unsigned_ucast_eq take_bit_nat_eq_self)
qed

lemma ucast_u16_u32_zero: "(ucast (w :: u16) :: u32) = 0 \<longleftrightarrow> w = 0"
  by (metis unat_eq_zero unat_ucast_u32)

definition upload_replies :: "u16 \<Rightarrow> u8 \<Rightarrow> u8 list \<Rightarrow> u8 list list" where
  "upload_replies index sub v =
     (if length v \<le> 4
      then [(0x43 OR push_bit 2 (word_of_nat (4 - length v))) # mux index sub @ v @ replicate (4 - length v) 0]
      else (0x41 # mux index sub @ le_bytes 4 (length v)) # segments False v)"

lemma upload_data_replies: "v \<noteq> [] \<Longrightarrow> upload_data (upload_replies index sub v) = v"
proof (cases "length v \<le> 4")
  case True
  assume "v \<noteq> []"
  then have "length v = 1 \<or> length v = 2 \<or> length v = 3 \<or> length v = 4" using True length_0_conv [of v] by linarith
  then show ?thesis by (auto simp: upload_replies_def mux_def)
next
  case False
  then show ?thesis using segments_data by (simp add: upload_replies_def)
qed

lemma upload_opens:
  assumes S: "finished txb n dict S" "plain_object dict index sub a len attr" "attr AND CO_ODA_READABLE \<noteq> 0" "a + unat len \<le> n"
    and W: "link_ok txb n W" "accepting env" and v: "v = take (unat len) (drop a (wd_mem W))"
  obtains S' W' where "sdo_exchange odf env dt (0x40 # mux index sub @ replicate 4 0) (S, W) = Some (S', W')"
    "if unat len \<le> 4 then finished txb n dict S' else up_ok index sub a len attr txb n dict False v 0 S'"
    "link_ok txb n W'" "replied txb W [hd (upload_replies index sub v)] W'" "wd_mem W' = wd_mem W"
proof -
  let ?m = "0x40 # mux index sub @ replicate 4 0" let ?W = "sdo_tx txb 0 (replicate 8 0) W"
  have f: "idle_ok txb n S" "sdo_dict S = dict" "sdo_state S = CO_SDO_ST_IDLE" using S(1) by (auto simp: finished_def)
  obtain S1 where S1: "CO_SDO_receive S (client_msg ?m) = Some S1" "flagged ?m S1" "same_transfer S S1"
    using receive_quiet [of S ?m] f by (auto simp: idle_ok_def)
  obtain A S2 where S2: "S2 = S1\<lparr>sdo_timeoutTimer := 0, sdo_entryNo := CO_OD_find dict index, sdo_ODF_arg := A\<rparr>" "opened index sub a len attr S2"
    and A: "take (unat len) (arg_data A) = v" "arg_dataLengthTotal A = ucast len"
    and p: "CO_SDO_process odf env S1 W True dt None = map_option (sdo_finish env txb None) (sdo_switch odf txb ?m True CO_SDO_ST_UPLOAD_INITIATE S2 ?W)"
    by (rule request_upload [OF S(1,2) S1(2,3) refl S(3,4) W(1)]) (use v in auto)
  have "length (wd_mem W) = n" using W(1) by (simp add: link_ok_def world_ok_def)
  then have lv: "length v = unat len" using v S(4) by simp
  have o: "sdo_dataLength S2 = len" "length (sdo_data S2) = 889" "unat len \<le> 889" "len \<noteq> 0" "sdo_data S2 = arg_data A"
    "arg_dataLengthTotal (sdo_ODF_arg S2) = ucast len" "ucast len \<noteq> (0 :: u32)"
    using S2 A(2) by (auto simp: opened_def ucast_u16_u32_zero)
  have g: "sdo_get_data 0 (unat len) S2 = Some v" using o A(1) by (simp add: sdo_get_data_def)
  have c: "len \<le> 4 \<longleftrightarrow> unat len \<le> 4" by (simp add: word_le_nat_alt)
  have first: "4 - ucast len = (word_of_nat (4 - length v) :: u8)" if "unat len \<le> 4"
    using that lv by simp
  define r where "r = hd (upload_replies index sub v)"
  define ds where "ds = (if unat len \<le> 4 then v else le_bytes 4 (unat len))"
  let ?W1 = "sdo_tx txb 0 [r ! 0] (sdo_tx txb 4 ds (sdo_tx txb 1 (mux index sub) ?W))"
  let ?S = "if unat len \<le> 4 then S2\<lparr>sdo_state := CO_SDO_ST_IDLE\<rparr>
    else S2\<lparr>sdo_bufferOffset := 0, sdo_sequence := 0, sdo_state := CO_SDO_ST_UPLOAD_SEGMENTED\<rparr>"
  have sw: "sdo_switch odf txb ?m True CO_SDO_ST_UPLOAD_INITIATE S2 ?W = Some (?S, ?W1, SdoBreak True (unat len \<le> 4))"
    using o g c first request_index [of "0x40" index sub "replicate 4 0"] lv
    by (auto simp: sdo_switch_def sdo_upload_initiate_def Let_def mux_list r_def ds_def upload_replies_def unat_ucast_u32
        simp del: le_bytes.simps)
  then have x: "sdo_exchange odf env dt ?m (S, W) = Some (CO_SDO_process_done ?S, sdo_send env txb ?W1)"
    using S1(1) p by (auto simp: sdo_exchange_def sdo_finish_def Let_def)
  have d: "sdo_dict S2 = sdo_dict S1" "sdo_head S2 = sdo_head S1" "sdo_CANtxBuff S2 = sdo_CANtxBuff S1" "sdo_SDOtimeoutTime_us S2 = sdo_SDOtimeoutTime_us S1"
    "flagged ?m S2" using S1(2) by (simp_all add: S2(1))
  have idle: "idle_ok txb n (CO_SDO_process_done ?S)"
    by (rule same_transfer_idle [OF f(1) S1(3), of ?m]) (use d o in simp_all)
  have lds: "length ds \<le> 4" by (simp add: ds_def lv)
  have "memcpy_at (memcpy_at (memcpy_at (replicate 8 0) 1 (mux index sub)) 4 ds) 0 [r ! 0] = r ! 0 # mux index sub @ ds @ replicate (4 - length ds) 0"
  proof -
    have "replicate 8 (0 :: u8) = 0 # replicate 3 0 @ replicate 4 0" by (simp add: numeral_eq_Suc)
    moreover have "drop (4 + length ds) xs = drop (length ds) (drop 4 xs)" for xs :: "u8 list" by (simp add: add.commute)
    ultimately show ?thesis using lds by (simp add: memcpy_at_def mux_def del: drop_drop)
  qed
  also have "\<dots> = r" using lv by (simp add: r_def ds_def upload_replies_def del: le_bytes.simps)
  finally have "prepared txb n W r ?W1"
    using prepared_tx [OF prepared_tx [OF prepared_tx [OF prepared_zero [OF W(1)], of 1 "mux index sub"], of 4 ds], of 0 "[r ! 0]"] lds by simp
  then have w: "link_ok txb n (sdo_send env txb ?W1)" "replied txb W [r] (sdo_send env txb ?W1)" using prepared_send W(2) by blast+
  have "if unat len \<le> 4 then finished txb n dict (CO_SDO_process_done ?S) else up_ok index sub a len attr txb n dict False v 0 (CO_SDO_process_done ?S)"
    using idle d(1) f(2) S1(3) S2(2) o A(1) by (auto simp: finished_def up_ok_def same_transfer_def)
  then show ?thesis using that x w by (simp add: r_def)
qed

lemma upload_reads:
  assumes "finished txb n dict S" "plain_object dict index sub a len attr" "attr AND CO_ODA_READABLE \<noteq> 0" "a + unat len \<le> n"
    and "link_ok txb n W" "accepting env" and v: "v = take (unat len) (drop a (wd_mem W))"
  obtains S' W' where "sdo_session odf env dt (upload_requests index sub (unat len)) (S, W) = Some (S', W')" "finished txb n dict S'" "link_ok txb n W'"
    "replied txb W (upload_replies index sub v) W'" "wd_mem W' = wd_mem W"
proof -
  have "length (wd_mem W) = n" using assms(5) by (simp add: link_ok_def world_ok_def)
  then have lv: "length v = unat len" using v assms(4) by simp
  obtain S1 W1 where e: "sdo_exchange odf env dt (0x40 # mux index sub @ replicate 4 0) (S, W) = Some (S1, W1)"
    "if unat len \<le> 4 then finished txb n dict S1 else up_ok index sub a len attr txb n dict False v 0 S1"
    "link_ok txb n W1" "replied txb W [hd (upload_replies index sub v)] W1" "wd_mem W1 = wd_mem W"
    by (rule upload_opens [OF assms])
  show ?thesis
  proof (cases "unat len \<le> 4")
    case True
    then show ?thesis using e that [of S1 W1] lv by (simp add: upload_requests_def upload_replies_def)
  next
    case False
    have "\<exists>S' W'. sdo_session odf env dt (polls False ((length v + 6) div 7)) (S1, W1) = Some (S', W') \<and> finished txb n dict S' \<and>
      link_ok txb n W' \<and> replied txb W1 (segments False v) W' \<and> wd_mem W' = wd_mem W1"
      by (rule polls_answered [of _ _ _ len attr _ _ _ _ v 0]) (use e False assms(6) lv in auto)
    then obtain S' W' where r: "sdo_session odf env dt (polls False ((length v + 6) div 7)) (S1, W1) = Some (S', W')" "finished txb n dict S'"
      "link_ok txb n W'" "replied txb W1 (segments False v) W'" "wd_mem W' = wd_mem W1" by blast
    show ?thesis using r e that [of S' W'] False lv replied_trans [OF e(4) r(4)]
      by (simp add: upload_requests_def upload_replies_def del: le_bytes.simps)
  qed
qed


lemma plain_in_memory:
  assumes "finished txb n dict S" "plain_object dict index sub a len attr"
  shows "a + unat len \<le> n"
proof -
  have "dict_ok n dict" using assms(1) by (auto simp: finished_def idle_ok_def core_ok_def)
  then show ?thesis using sub_pointer [of n dict "CO_OD_find dict index" sub] assms(2) by (auto simp: plain_object_def Let_def)
qed

subsection \<open>Sessions\<close>

definition example_var :: "u16 \<Rightarrow> u16 \<Rightarrow> u16 \<Rightarrow> nat \<Rightarrow> CO_OD_entry_t" where
  "example_var index attr len a = \<lparr>od_index = index, od_maxSubIndex = 0, od_attribute = attr, od_length = len, od_pData = PData a\<rparr>"

definition example_dict :: CO_SDO_OD where
  \<comment> \<open>a constant, the communication cycle period, and a variable of ten bytes\<close>
  "example_dict =
     \<lparr>sdo_OD = [example_var 0x1000 5 4 0, example_var 0x1006 14 4 4, example_var 0x2000 14 10 8], sdo_ODSize = 3,
      sdo_ODExtensions = [no_ext, no_ext\<lparr>ext_pODFunc := Some ODF_1006\<rparr>, no_ext]\<rparr>"

definition example_sdo :: CO_SDO_t where
  "example_sdo =
     \<lparr>sdo_CANrxData = [replicate 8 0, replicate 8 0], sdo_head = [], sdo_ownOD = True, sdo_dict = example_dict,
      sdo_bufferOffset = 0, sdo_entryNo = 0, sdo_ODF_arg = example_arg (replicate 889 0), sdo_nodeId = 5, sdo_state = CO_SDO_ST_IDLE,
      sdo_sequence = 0, sdo_SDOtimeoutTime_us = 1000000, sdo_timeoutTimer = 0, sdo_blksize = 0, sdo_crcEnabled = False,
      sdo_crc = 0, sdo_lastLen = 0, sdo_timeoutSubblockDownolad = False, sdo_endOfTransfer = False,
      sdo_CANrxNew = [False, False], sdo_CANrxRcv = 0, sdo_CANrxProc = 0, sdo_pFunctSignalPre = False, sdo_signals = 0,
      sdo_CANtxBuff = Some 0\<rparr>"

definition example_plain_world :: "unit od_world" where
  "example_plain_world = \<lparr>wd_mem = replicate 18 7, wd_bus = example_bus, wd_app = ()\<rparr>"

lemma example_dict_ok: "dict_ok 18 example_dict"
  by (simp add: dict_ok_def od_inv_def example_dict_def example_var_def od_entry_ok_def entry_in_def)

lemma example_sdo_inv: "sdo_inv 0 18 example_sdo"
  using example_dict_ok by (simp add: sdo_inv_def core_ok_def queue_ok_def example_sdo_def example_arg_def)

lemma example_finished: "finished 0 18 example_dict example_sdo"
  using example_sdo_inv by (simp add: finished_def idle_ok_def sdo_inv_def quiet_queue_def core_ok_def) (simp add: example_sdo_def)

lemma example_plain: "plain_object example_dict 0x2000 0 8 10 14"
proof -
  have "od_inv example_dict" using example_dict_ok by (simp add: dict_ok_def)
  from CO_OD_find_nth [OF this, of 2] have "CO_OD_find example_dict 0x2000 = 2"
    by (simp add: example_dict_def example_var_def numeral_2_eq_2)
  then show ?thesis by (simp add: plain_object_def example_dict_def example_var_def CO_OD_getDataPointer_def CO_OD_getLength_def
        CO_OD_getAttribute_def od_pData_ptr_def nth_opt_def no_ext_def)
qed

lemma example_link: "link_ok 0 18 example_plain_world" "accepting (example_env 0)"
proof -
  show "link_ok 0 18 example_plain_world" using example_bus_inv
    by (simp add: link_ok_def world_ok_def bus_ready_def example_plain_world_def bus_buf_def example_bus_def example_tx_def)
  show "accepting (example_env 0)" unfolding accepting_def by (simp del: split_paired_All)
qed

text \<open>
  Download: an idle server stores the bytes of a complete download session, expedited or segmented, in the variable
  of a writeable object, changes no other byte, confirms every request and is ready for the next one.
\<close>

theorem sdo_download_writes:
  assumes "finished txb n dict S" "plain_object dict index sub a len attr" "attr AND CO_ODA_WRITEABLE \<noteq> 0"
    and "link_ok txb n W" "accepting env" "length bs = unat len"
  shows "\<exists>S' W'. sdo_session odf env dt (download_requests index sub bs) (S, W) = Some (S', W') \<and> finished txb n dict S' \<and>
    replied txb W (download_replies index sub bs) W' \<and> wd_mem W' = memcpy_at (wd_mem W) a bs"
proof -
  obtain S' W' where "sdo_session odf env dt (download_requests index sub bs) (S, W) = Some (S', W')" "finished txb n dict S'" "link_ok txb n W'"
    "replied txb W (download_replies index sub bs) W'" "wd_mem W' = memcpy_at (wd_mem W) a bs"
    by (rule download_writes [OF assms(1-3) plain_in_memory [OF assms(1,2)] assms(4-6)])
  then show ?thesis by blast
qed

theorem sdo_download_writes_witness:
  "\<exists>S' W'. sdo_session (\<lambda>f arg W. None) (example_env 0) 1000 (download_requests 0x2000 0 [1, 2, 3, 4, 5, 6, 7, 8, 9, 10])
     (example_sdo, example_plain_world) = Some (S', W') \<and>
     wd_mem W' = [7, 7, 7, 7, 7, 7, 7, 7, 1, 2, 3, 4, 5, 6, 7, 8, 9, 10]"
proof -
  have "memcpy_at (wd_mem example_plain_world) 8 [1, 2, 3, 4, 5, 6, 7, 8, 9, 10] = [7, 7, 7, 7, 7, 7, 7, 7, 1, 2, 3, 4, 5, 6, 7, 8, 9, 10]"
    by (simp add: example_plain_world_def memcpy_at_def numeral_eq_Suc)
  then show ?thesis
    using sdo_download_writes [OF example_finished example_plain _ example_link, of "[1, 2, 3, 4, 5, 6, 7, 8, 9, 10]" "\<lambda>f arg W. None" 1000]
    by (auto simp: CO_ODA_WRITEABLE_def)
qed

text \<open>
  C7: round trip: what a client downloads into an object that is readable and writeable, it gets back when it uploads
  the object, expedited or in segments; the upload changes no variable.
\<close>

theorem sdo_roundtrip:
  assumes "finished txb n dict S" "plain_object dict index sub a len attr" "attr AND CO_ODA_WRITEABLE \<noteq> 0" "attr AND CO_ODA_READABLE \<noteq> 0"
    and "link_ok txb n W" "accepting env" "length bs = unat len"
  shows "\<exists>S1 W1 S2 W2 replies. sdo_session odf env dt (download_requests index sub bs) (S, W) = Some (S1, W1) \<and>
    sdo_session odf env dt (upload_requests index sub (length bs)) (S1, W1) = Some (S2, W2) \<and> finished txb n dict S2 \<and>
    replied txb W1 replies W2 \<and> upload_data replies = bs \<and> wd_mem W2 = wd_mem W1"
proof -
  have mem: "a + unat len \<le> n" by (rule plain_in_memory [OF assms(1,2)])
  have n: "length (wd_mem W) = n" using assms(5) by (simp add: link_ok_def world_ok_def)
  obtain S1 W1 where d: "sdo_session odf env dt (download_requests index sub bs) (S, W) = Some (S1, W1)" "finished txb n dict S1" "link_ok txb n W1"
    "replied txb W (download_replies index sub bs) W1" "wd_mem W1 = memcpy_at (wd_mem W) a bs"
    by (rule download_writes [OF assms(1-3) mem assms(5-7)])
  have v: "bs = take (unat len) (drop a (wd_mem W1))" using d(5) assms(7) mem n by (simp add: memcpy_at_def)
  obtain S2 W2 where u: "sdo_session odf env dt (upload_requests index sub (unat len)) (S1, W1) = Some (S2, W2)" "finished txb n dict S2"
    "link_ok txb n W2" "replied txb W1 (upload_replies index sub bs) W2" "wd_mem W2 = wd_mem W1"
    by (rule upload_reads [OF d(2) assms(2,4) mem d(3) assms(6) v])
  have "bs \<noteq> []" using assms(2,7) by (auto simp: plain_object_def Let_def unat_eq_zero)
  then show ?thesis using d(1) u assms(7) upload_data_replies [of bs index sub] by auto
qed

theorem sdo_roundtrip_witness:
  "\<exists>S1 W1 S2 W2 replies.
     sdo_session (\<lambda>f arg W. None) (example_env 0) 1000 (download_requests 0x2000 0 [1, 2, 3, 4, 5, 6, 7, 8, 9, 10])
       (example_sdo, example_plain_world) = Some (S1, W1) \<and>
     sdo_session (\<lambda>f arg W. None) (example_env 0) 1000 (upload_requests 0x2000 0 10) (S1, W1) = Some (S2, W2) \<and>
     replied 0 W1 replies W2 \<and> upload_data replies = [1, 2, 3, 4, 5, 6, 7, 8, 9, 10]"
proof -
  have "length [1, 2, 3, 4, 5, 6, 7, 8, 9, 10 :: u8] = 10" by simp
  then show ?thesis
    using sdo_roundtrip [OF example_finished example_plain _ _ example_link, of "[1, 2, 3, 4, 5, 6, 7, 8, 9, 10]" "\<lambda>f arg W. None" 1000]
    by (simp only: CO_ODA_WRITEABLE_def CO_ODA_READABLE_def) (simp, blast)
qed

end
