(* ===== verification/Tx_Frames.thy ===== *)
theory Tx_Frames
  imports Can_Driver
begin

section \<open>Frames in transmit buffers and on the bus\<close>

text \<open>
  Writing into a transmit buffer, sending it with \<^verbatim>\<open>CO_CANsend\<close>, and the frames the device accepted, as the components
  that send and the networks of several nodes use them.
\<close>

definition bus_put :: "nat \<Rightarrow> nat \<Rightarrow> u8 list \<Rightarrow> co_bus \<Rightarrow> co_bus" where
  \<comment> \<open>\<^verbatim>\<open>TXbuff->data[k + i] = bs[i]\<close>\<close>
  "bus_put txb k bs bus = bus_upd_buf bus txb (\<lambda>b. b\<lparr>tx_data := memcpy_at (tx_data b) k bs\<rparr>)"

definition bus_send :: "can_env \<Rightarrow> nat \<Rightarrow> co_bus \<Rightarrow> co_bus" where
  "bus_send env txb bus = snd (CO_CANsend env bus (Some txb))"

definition frame_msg :: "can_frame \<Rightarrow> CO_CANrxMsg_t" where
  "frame_msg f = \<lparr>rxm_ident = fst f, rxm_DLC = fst (snd f), rxm_data = snd (snd f)\<rparr>"

definition new_frames :: "co_bus \<Rightarrow> co_bus \<Rightarrow> can_frame list" where
  \<comment> \<open>the frames the device accepted between two states of a module\<close>
  "new_frames bus bus' =
     map fst (filter (\<lambda>x. 0 \<le> snd x) (drop (length (can_sent (bus_can bus))) (can_sent (bus_can bus'))))"

definition writes_ok :: "can_env \<Rightarrow> bool" where
  "writes_ok env \<longleftrightarrow> (\<forall>l f. 0 \<le> env_write env l f)"

definition buf_ok :: "nat \<Rightarrow> co_bus \<Rightarrow> bool" where
  "buf_ok txb bus \<longleftrightarrow> txb < length (can_txArray (bus_can bus)) \<and> bus_ready bus txb \<and> tx_DLC (bus_buf bus txb) = 8 \<and>
     length (tx_data (bus_buf bus txb)) = 8"

definition extends :: "co_bus \<Rightarrow> can_frame list \<Rightarrow> co_bus \<Rightarrow> bool" where
  \<comment> \<open>frames that the device accepted were appended to the log\<close>
  "extends bus fs bus' \<longleftrightarrow> (\<exists>l. can_sent (bus_can bus') = can_sent (bus_can bus) @ l \<and> map fst l = fs \<and> (\<forall>x \<in> set l. 0 \<le> snd x))"

lemma extends_refl [simp]: "extends bus [] bus"
  by (simp add: extends_def)

lemma extends_trans: "extends bus fs bus1 \<Longrightarrow> extends bus1 gs bus2 \<Longrightarrow> extends bus (fs @ gs) bus2"
proof -
  assume "extends bus fs bus1" "extends bus1 gs bus2"
  then obtain l l' where "can_sent (bus_can bus1) = can_sent (bus_can bus) @ l" "map fst l = fs" "\<forall>x \<in> set l. 0 \<le> snd x"
    "can_sent (bus_can bus2) = can_sent (bus_can bus1) @ l'" "map fst l' = gs" "\<forall>x \<in> set l'. 0 \<le> snd x"
    unfolding extends_def by blast
  then show ?thesis unfolding extends_def by (intro exI [of _ "l @ l'"]) auto
qed

lemma new_frames_extends: "extends bus fs bus' \<Longrightarrow> new_frames bus bus' = fs"
  by (auto simp: extends_def new_frames_def filter_id_conv)

lemma buf_ok_put [simp]:
  assumes "buf_ok txb bus" "k + length bs \<le> 8"
  shows "buf_ok txb (bus_put txb k bs bus)"
  using assms by (simp add: buf_ok_def bus_put_def bus_buf_upd bus_ready_def)

lemma extends_put [simp]: "extends bus fs (bus_put txb k bs bus1) \<longleftrightarrow> extends bus fs bus1"
  by (simp add: extends_def bus_put_def)

lemma put_extends [simp]: "extends (bus_put txb k bs bus) fs bus1 \<longleftrightarrow> extends bus fs bus1"
  by (simp add: extends_def bus_put_def)

lemma put_frame:
  assumes "buf_ok txb bus" "k + length bs \<le> 8"
  shows "tx_data (bus_buf (bus_put txb k bs bus) txb) = memcpy_at (tx_data (bus_buf bus txb)) k bs"
    "tx_ident (bus_buf (bus_put txb k bs bus) txb) = tx_ident (bus_buf bus txb)"
  using assms by (simp_all add: bus_put_def bus_buf_upd buf_ok_def)

lemma bus_send_ready:
  assumes "bus_ready bus txb" "writes_ok env"
  shows "bus_ready (bus_send env txb bus) txb" "bus_buf (bus_send env txb bus) j = bus_buf bus j"
    "extends bus [tx_frame (bus_buf bus txb)] (bus_send env txb bus)" "fst (CO_CANsend env bus (Some txb)) = CO_ERROR_NO"
    "length (can_txArray (bus_can (bus_send env txb bus))) = length (can_txArray (bus_can bus))"
    "bus_em (bus_send env txb bus) = bus_em bus"
proof -
  have w: "0 \<le> env_write env l f" for l f using assms(2) unfolding writes_ok_def by blast
  have n: "\<not> env_write env l f < 0" "env_write env l f \<noteq> - EBUSY" for l f
    using w [of l f] by (simp_all add: EBUSY_def)
  show b: "bus_buf (bus_send env txb bus) j = bus_buf bus j" for j
    using assms(1) by (simp add: bus_send_def CO_CANsend_def Let_def n bus_ready_def bus_buf_def)
  then show "bus_ready (bus_send env txb bus) txb"
    using assms(1) by (auto simp: bus_send_def CO_CANsend_def Let_def n bus_ready_def)
  show "extends bus [tx_frame (bus_buf bus txb)] (bus_send env txb bus)"
    using assms(1) by (simp add: bus_send_def CO_CANsend_ready extends_def w)
  show "fst (CO_CANsend env bus (Some txb)) = CO_ERROR_NO" "bus_em (bus_send env txb bus) = bus_em bus"
    "length (can_txArray (bus_can (bus_send env txb bus))) = length (can_txArray (bus_can bus))"
    using assms(1) by (simp_all add: bus_send_def CO_CANsend_def Let_def n bus_ready_def)
qed

lemma bus_send_ok:
  assumes "buf_ok txb bus" "writes_ok env"
  shows "buf_ok txb (bus_send env txb bus)" "bus_buf (bus_send env txb bus) txb = bus_buf bus txb"
    "extends bus [(tx_ident (bus_buf bus txb), 8, tx_data (bus_buf bus txb))] (bus_send env txb bus)"
proof -
  have r: "bus_ready bus txb" using assms(1) by (simp add: buf_ok_def)
  note s = bus_send_ready [OF r assms(2)]
  show "bus_buf (bus_send env txb bus) txb = bus_buf bus txb" by (rule s(2))
  show "buf_ok txb (bus_send env txb bus)" using assms(1) s(1,2,5) by (simp add: buf_ok_def)
  show "extends bus [(tx_ident (bus_buf bus txb), 8, tx_data (bus_buf bus txb))] (bus_send env txb bus)"
    using s(3) assms(1) by (simp add: tx_frame_def buf_ok_def)
qed

lemma send_whole_frame:
  assumes "buf_ok txb bus" "writes_ok env" "length bs = 8"
  shows "buf_ok txb (bus_send env txb (bus_put txb 0 bs bus))"
    "extends bus [(tx_ident (bus_buf bus txb), 8, bs)] (bus_send env txb (bus_put txb 0 bs bus))"
    "tx_ident (bus_buf (bus_send env txb (bus_put txb 0 bs bus)) txb) = tx_ident (bus_buf bus txb)"
proof -
  let ?b = "bus_put txb 0 bs bus"
  have ok: "buf_ok txb ?b" using assms by simp
  have d: "tx_data (bus_buf ?b txb) = bs" "tx_ident (bus_buf ?b txb) = tx_ident (bus_buf bus txb)"
    using assms put_frame [OF assms(1), of 0 bs] by (simp_all add: memcpy_front buf_ok_def)
  show "buf_ok txb (bus_send env txb ?b)" by (rule bus_send_ok(1) [OF ok assms(2)])
  show "extends bus [(tx_ident (bus_buf bus txb), 8, bs)] (bus_send env txb ?b)"
    using bus_send_ok(3) [OF ok assms(2)] d by simp
  show "tx_ident (bus_buf (bus_send env txb ?b) txb) = tx_ident (bus_buf bus txb)"
    using bus_send_ok(2) [OF ok assms(2)] d by simp
qed

lemma example_writes_ok: "writes_ok (example_env 0)"
  by (simp add: writes_ok_def)

end
