(* ===== verification/PDO.thy ===== *)
theory PDO
  imports SDO_Server Sync Tx_Frames
begin

section \<open>Process data objects (\<^verbatim>\<open>301/CO_PDO.c\<close>)\<close>

text \<open>
  A process data object carries up to eight bytes of variables of the dictionary. A receive PDO writes the bytes of a message
  into the mapped variables, a transmit PDO sends them on request, after its event timer or after SYNC messages.

  State. \<^verbatim>\<open>CO_RPDO_t\<close> and \<^verbatim>\<open>CO_TPDO_t\<close> have the fields of the structures. \<^verbatim>\<open>mapPointer\<close> holds pointers to single bytes: a
  data pointer of the dictionary, or one of the two dummy variables, and an offset. The pointers to the NMT state, to the
  SYNC object, to the communication and the mapping parameters (constant variables of the dictionary) and to the dictionary
  are arguments of the functions, \<^verbatim>\<open>None\<close> for a SYNC object that is \<^verbatim>\<open>NULL\<close>. The dummy variable for reception is written and
  never read, the one for transmission is always zero. A registered function that is called for a mapped object gets the
  bytes of the variable as its data (none for \<^verbatim>\<open>NULL\<close>), and what it leaves there is written back to the variable.
  \<^verbatim>\<open>rp_signals\<close> counts the calls of \<^verbatim>\<open>pFunctSignalPre\<close>.

  A result \<^verbatim>\<open>None\<close> is an access outside the dictionary, the variables or the eight mapping parameters, or through \<^verbatim>\<open>NULL\<close>.
\<close>

subsection \<open>State\<close>

definition CO_ODA_TPDO_MAPABLE :: u16 where "CO_ODA_TPDO_MAPABLE = 0x0020"
definition CO_ODA_TPDO_DETECT_COS :: u16 where "CO_ODA_TPDO_DETECT_COS = 0x0040"

abbreviation (input) "CO_EM_PDO_WRONG_MAPPING \<equiv> (0x1A :: u8)"
abbreviation (input) "CO_EMC_PROTOCOL_ERROR \<equiv> (0x8200 :: u16)"

datatype pdo_base = PB_od od_ptr | PB_dummyRX | PB_dummyTX

type_synonym pdo_ptr = "pdo_base \<times> nat"

record CO_RPDOCommPar_t =
  rc_COB_IDUsedByRPDO :: u32
  rc_transmissionType :: u8

record CO_PDOMapPar_t =
  mp_numberOfMappedObjects :: u8
  mp_mappedObjects :: "u32 list"

record CO_TPDOCommPar_t =
  tc_COB_IDUsedByTPDO :: u32
  tc_transmissionType :: u8
  tc_inhibitTime :: u16
  tc_eventTimer :: u16
  tc_SYNCStartValue :: u8

record CO_RPDO_t =
  rp_nodeId :: u8
  rp_defaultCOB_ID :: u16
  rp_restrictionFlags :: u8
  rp_valid :: bool
  rp_dataLength :: u8
  rp_mapPointer :: "pdo_ptr list"
  rp_synchronous :: bool
  rp_CANrxNew :: "bool list"
  rp_CANrxData :: "u8 list list"
  rp_pFunctSignalPre :: bool
  rp_signals :: nat
  rp_CANdevRxIdx :: u16

record CO_TPDO_t =
  tp_nodeId :: u8
  tp_defaultCOB_ID :: u16
  tp_restrictionFlags :: u8
  tp_valid :: bool
  tp_dataLength :: u8
  tp_sendRequest :: bool
  tp_mapPointer :: "pdo_ptr list"
  tp_inhibitTimer :: u32
  tp_eventTimer :: u32
  tp_sendIfCOSFlags :: u8
  tp_syncCounter :: u8
  tp_CANtxBuff :: "nat option"
  tp_CANdevTxIdx :: u16

definition pdo_read :: "CO_SDO_OD \<Rightarrow> u8 list \<Rightarrow> pdo_ptr \<Rightarrow> u8 option" where
  \<comment> \<open>\<^verbatim>\<open>**(ppODdataByte++)\<close>\<close>
  "pdo_read dict mem p =
     (case p of
        (PB_od (OAddr a), k) \<Rightarrow> nth_opt mem (a + k)
      | (PB_od (OMaxSubIndex e), k) \<Rightarrow> if k = 0 then map_option od_maxSubIndex (nth_opt (sdo_OD dict) e) else None
      | (PB_dummyTX, k) \<Rightarrow> if k < 4 then Some 0 else None
      | _ \<Rightarrow> None)"

definition pdo_write :: "u8 list \<Rightarrow> pdo_ptr \<Rightarrow> u8 \<Rightarrow> u8 list option" where
  \<comment> \<open>\<^verbatim>\<open>**(ppODdataByte++) = b\<close>\<close>
  "pdo_write mem p b =
     (case p of
        (PB_od (OAddr a), k) \<Rightarrow> if a + k < length mem then Some (mem[a + k := b]) else None
      | (PB_dummyRX, k) \<Rightarrow> if k < 4 then Some mem else None
      | _ \<Rightarrow> None)"

fun pdo_gather :: "CO_SDO_OD \<Rightarrow> u8 list \<Rightarrow> pdo_ptr list \<Rightarrow> u8 list option" where
  \<comment> \<open>the copy loop of \<^verbatim>\<open>CO_TPDOsend\<close>\<close>
  "pdo_gather dict mem [] = Some []"
| "pdo_gather dict mem (p # ps) = do { b \<leftarrow> pdo_read dict mem p; bs \<leftarrow> pdo_gather dict mem ps; Some (b # bs) }"

fun pdo_scatter :: "u8 list \<Rightarrow> (pdo_ptr \<times> u8) list \<Rightarrow> u8 list option" where
  \<comment> \<open>the copy loop of \<^verbatim>\<open>CO_RPDO_process\<close>\<close>
  "pdo_scatter mem [] = Some mem"
| "pdo_scatter mem ((p, b) # xs) = Option.bind (pdo_write mem p b) (\<lambda>mem1. pdo_scatter mem1 xs)"

subsection \<open>Reception\<close>

definition rpdo_rx_index :: "CO_SYNC_t option \<Rightarrow> CO_RPDO_t \<Rightarrow> nat" where
  \<comment> \<open>\<^verbatim>\<open>RPDO->SYNC && RPDO->synchronous && RPDO->SYNC->CANrxToggle\<close>\<close>
  "rpdo_rx_index SYNC R = (case SYNC of None \<Rightarrow> 0 | Some S \<Rightarrow> if rp_synchronous R \<and> syn_CANrxToggle S then 1 else 0)"

definition CO_PDO_receive :: "CO_NMT_internalState_t \<Rightarrow> CO_SYNC_t option \<Rightarrow> CO_RPDO_t \<Rightarrow> CO_CANrxMsg_t \<Rightarrow> CO_RPDO_t" where
  "CO_PDO_receive operatingState SYNC R msg =
     (if rp_valid R \<and> operatingState = CO_NMT_OPERATIONAL \<and> rp_dataLength R \<le> rxm_DLC msg then
        let index = rpdo_rx_index SYNC R
        in R\<lparr>rp_CANrxData := (rp_CANrxData R)[index := take 8 (rxm_data msg)], rp_CANrxNew := (rp_CANrxNew R)[index := True],
             rp_signals := (if rp_pFunctSignalPre R then rp_signals R + 1 else rp_signals R)\<rparr>
      else R)"

subsection \<open>Communication parameters\<close>

definition obj_rpdo :: nat where "obj_rpdo = 50"
definition obj_tpdo :: nat where "obj_tpdo = 60"

definition pdo_used :: "u32 \<Rightarrow> u8 \<Rightarrow> bool" where
  \<comment> \<open>\<^verbatim>\<open>/* is RPDO used? */\<close>\<close>
  "pdo_used COB_ID dataLength \<longleftrightarrow> COB_ID AND 0xBFFFF800 = 0 \<and> dataLength \<noteq> 0 \<and> (ucast COB_ID :: u16) \<noteq> 0"

definition pdo_ident :: "u32 \<Rightarrow> u16 \<Rightarrow> u8 \<Rightarrow> u16" where
  "pdo_ident COB_ID defaultCOB_ID nodeId =
     (let ID = ucast COB_ID in if ID = defaultCOB_ID then ID + ucast nodeId else ID)"

definition CO_RPDOconfigCom :: "can_env \<Rightarrow> CO_RPDO_t \<Rightarrow> CO_RPDOCommPar_t \<Rightarrow> co_bus \<Rightarrow> u32 \<Rightarrow> CO_RPDO_t \<times> co_bus" where
  "CO_RPDOconfigCom env R comm bus COB_ID =
     (let used = pdo_used COB_ID (rp_dataLength R);
          ID = (if used then pdo_ident COB_ID (rp_defaultCOB_ID R) (rp_nodeId R) else 0);
          R1 = (if used then R\<lparr>rp_valid := True, rp_synchronous := rc_transmissionType comm \<le> 240\<rparr>
                else R\<lparr>rp_valid := False, rp_CANrxNew := [False, False]\<rparr>);
          (r, bus1) = CO_CANrxBufferInit env bus (rp_CANdevRxIdx R) ID 0x7FF False (Some obj_rpdo) (Some CB_PDO_receive)
      in (if r \<noteq> CO_ERROR_NO then R1\<lparr>rp_valid := False, rp_CANrxNew := [False, False]\<rparr> else R1, bus1))"

definition CO_TPDOconfigCom :: "can_env \<Rightarrow> CO_TPDO_t \<Rightarrow> co_bus \<Rightarrow> u32 \<Rightarrow> bool \<Rightarrow> CO_TPDO_t \<times> co_bus" where
  "CO_TPDOconfigCom env T bus COB_ID syncFlag =
     (let used = pdo_used COB_ID (tp_dataLength T);
          ID = (if used then pdo_ident COB_ID (tp_defaultCOB_ID T) (tp_nodeId T) else 0);
          (tx, bus1) = CO_CANtxBufferInit env bus (tp_CANdevTxIdx T) ID False (tp_dataLength T) syncFlag
      in (T\<lparr>tp_valid := used \<and> tx \<noteq> None, tp_CANtxBuff := tx\<rparr>, bus1))"

subsection \<open>Mapping parameters\<close>

definition dummy_size :: "u16 \<Rightarrow> u8" where
  "dummy_size index = (if index < 2 then 0 else if index = 2 \<or> index = 5 then 1 else if index = 3 \<or> index = 6 then 2 else 4)"

definition cos_flags :: "u8 \<Rightarrow> u8 \<Rightarrow> u8 \<Rightarrow> u8" where
  \<comment> \<open>\<^verbatim>\<open>for(i=*pLength-dataLen; i<*pLength; i++) *pSendIfCOSFlags |= 1<<i\<close>\<close>
  "cos_flags len dataLen flags = fold (\<lambda>i f. f OR push_bit i 1) [unat len - unat dataLen..<unat len] flags"

text \<open>
  The results of \<^verbatim>\<open>CO_PDOfindMap\<close> are the abort code, the data pointer, the new length and the new change-of-state flags; with an
  error the pointer has no meaning. The second argument tells a transmit PDO. \<^verbatim>\<open>attr\<close> and \<^verbatim>\<open>objectLen\<close> have eight bits.
\<close>

definition find_mapped ::
    "CO_SDO_OD \<Rightarrow> bool \<Rightarrow> u16 \<Rightarrow> u8 \<Rightarrow> u8 \<Rightarrow> u8 \<Rightarrow> u8 \<Rightarrow> (CO_SDO_abortCode_t \<times> pdo_base \<times> u8 \<times> u8) option" where
  \<comment> \<open>\<^verbatim>\<open>/* find object in Object Dictionary */\<close> and what follows\<close>
  "find_mapped dict tx index subIndex dataLen len flags =
     (let entryNo = CO_OD_find dict index;
          fail = (\<lambda>code. Some (code, PB_od ONull, len, flags))
      in if entryNo = 0xFFFF then fail CO_SDO_AB_NOT_EXIST
         else do {
           e \<leftarrow> nth_opt (sdo_OD dict) entryNo;
           if od_maxSubIndex e < subIndex then fail CO_SDO_AB_NOT_EXIST
           else do {
             attr \<leftarrow> map_option (\<lambda>a. a AND 0xFF) (CO_OD_getAttribute dict entryNo subIndex);
             if \<not> tx \<and> \<not> (attr AND CO_ODA_RPDO_MAPABLE \<noteq> 0 \<and> attr AND CO_ODA_WRITEABLE \<noteq> 0) then fail CO_SDO_AB_NO_MAP
             else if tx \<and> \<not> (attr AND CO_ODA_TPDO_MAPABLE \<noteq> 0 \<and> attr AND CO_ODA_READABLE \<noteq> 0) then fail CO_SDO_AB_NO_MAP
             else do {
               objectLen \<leftarrow> map_option ucast (CO_OD_getLength dict entryNo subIndex);
               if objectLen < dataLen then fail CO_SDO_AB_NO_MAP
               else do {
                 ptr \<leftarrow> CO_OD_getDataPointer dict entryNo subIndex;
                 Some (CO_SDO_AB_NONE, PB_od ptr, len, if attr AND CO_ODA_TPDO_DETECT_COS \<noteq> 0 then cos_flags len dataLen flags else flags)
               }
             }
           }
         })"

definition CO_PDOfindMap ::
    "CO_SDO_OD \<Rightarrow> u32 \<Rightarrow> bool \<Rightarrow> u8 \<Rightarrow> u8 \<Rightarrow> (CO_SDO_abortCode_t \<times> pdo_base \<times> u8 \<times> u8) option" where
  "CO_PDOfindMap dict mo tx len0 flags =
     (let index = ucast (drop_bit 16 mo); subIndex = ucast (drop_bit 8 mo); bits = ucast mo :: u8
      in if bits AND 0x07 \<noteq> 0 then Some (CO_SDO_AB_NO_MAP, PB_od ONull, len0, flags)
         else
           let dataLen = drop_bit 3 bits; len = len0 + dataLen
           in if 8 < len then Some (CO_SDO_AB_MAP_LEN, PB_od ONull, len, flags)
              else if index \<le> 7 \<and> subIndex = 0 then
                Some (if dummy_size index < dataLen then (CO_SDO_AB_NO_MAP, PB_od ONull, len, flags)
                      else (CO_SDO_AB_NONE, if tx then PB_dummyTX else PB_dummyRX, len, flags))
              else find_mapped dict tx index subIndex dataLen len flags)"

definition set_pointers :: "pdo_base \<Rightarrow> nat \<Rightarrow> nat \<Rightarrow> pdo_ptr list \<Rightarrow> pdo_ptr list" where
  \<comment> \<open>\<^verbatim>\<open>for(j=prevLength; j<length; j++) RPDO->mapPointer[j] = pData++\<close>\<close>
  "set_pointers base prev len ptrs = take prev ptrs @ map (\<lambda>j. (base, j - prev)) [prev..<len] @ drop (max prev len) ptrs"

fun pdo_map_loop ::
    "CO_SDO_OD \<Rightarrow> bool \<Rightarrow> nat \<Rightarrow> u32 list \<Rightarrow> u8 \<Rightarrow> u8 \<Rightarrow> pdo_ptr list \<Rightarrow> co_bus \<Rightarrow>
     (CO_SDO_abortCode_t \<times> u8 \<times> u8 \<times> pdo_ptr list \<times> co_bus) option" where
  \<comment> \<open>the loop of \<^verbatim>\<open>CO_RPDOconfigMap\<close> and \<^verbatim>\<open>CO_TPDOconfigMap\<close>\<close>
  "pdo_map_loop dict tx 0 maps len flags ptrs bus = Some (CO_SDO_AB_NONE, len, flags, ptrs, bus)"
| "pdo_map_loop dict tx (Suc n) [] len flags ptrs bus = None"
| "pdo_map_loop dict tx (Suc n) (mo # maps) len flags ptrs bus = do {
     (ret, base, len1, flags1) \<leftarrow> CO_PDOfindMap dict mo tx len flags;
     if ret \<noteq> CO_SDO_AB_NONE
     then Some (ret, 0, flags1, ptrs,
                bus\<lparr>bus_em := em_errorReport (bus_em bus) CO_EM_PDO_WRONG_MAPPING CO_EMC_PROTOCOL_ERROR mo\<rparr>)
     else pdo_map_loop dict tx n maps len1 flags1 (set_pointers base (unat len) (unat len1) ptrs) bus
   }"

definition CO_RPDOconfigMap ::
    "CO_SDO_OD \<Rightarrow> CO_RPDO_t \<Rightarrow> CO_PDOMapPar_t \<Rightarrow> co_bus \<Rightarrow> u8 \<Rightarrow> (CO_SDO_abortCode_t \<times> CO_RPDO_t \<times> co_bus) option" where
  "CO_RPDOconfigMap dict R mp bus noOfMappedObjects = do {
     (ret, len, flags, ptrs, bus1) \<leftarrow> pdo_map_loop dict False (unat noOfMappedObjects) (mp_mappedObjects mp) 0 0 (rp_mapPointer R) bus;
     Some (ret, R\<lparr>rp_mapPointer := ptrs, rp_dataLength := len\<rparr>, bus1)
   }"

definition CO_TPDOconfigMap ::
    "CO_SDO_OD \<Rightarrow> CO_TPDO_t \<Rightarrow> CO_PDOMapPar_t \<Rightarrow> co_bus \<Rightarrow> u8 \<Rightarrow> (CO_SDO_abortCode_t \<times> CO_TPDO_t \<times> co_bus) option" where
  "CO_TPDOconfigMap dict T mp bus noOfMappedObjects = do {
     (ret, len, flags, ptrs, bus1) \<leftarrow> pdo_map_loop dict True (unat noOfMappedObjects) (mp_mappedObjects mp) 0 0 (tp_mapPointer T) bus;
     Some (ret, T\<lparr>tp_mapPointer := ptrs, tp_sendIfCOSFlags := flags, tp_dataLength := len\<rparr>, bus1)
   }"


subsection \<open>Access from the SDO server\<close>

text \<open>
  The functions registered on the parameters. Their results are the abort code, the argument with the data they changed, and
  the state. The comparison with \<^verbatim>\<open>defaultCOB_ID + nodeId\<close> is done at 32 bits.
\<close>

definition pdo_com_read :: "u16 \<Rightarrow> u8 \<Rightarrow> bool \<Rightarrow> CO_ODF_arg_t \<Rightarrow> CO_ODF_arg_t" where
  \<comment> \<open>the branch \<^verbatim>\<open>if(ODF_arg->reading)\<close> of \<^verbatim>\<open>CO_ODF_RPDOcom\<close> and \<^verbatim>\<open>CO_ODF_TPDOcom\<close>\<close>
  "pdo_com_read defaultCOB_ID nodeId valid arg =
     (if arg_subIndex arg = 1 then
        let value = CO_getUint32 (arg_data arg);
            value1 = (if value AND 0xFFFF = ucast defaultCOB_ID \<and> defaultCOB_ID \<noteq> 0 then value + ucast nodeId else value);
            value2 = (if \<not> valid then value1 OR 0x80000000 else value1)
        in arg\<lparr>arg_data := CO_setUint32 (arg_data arg) value2\<rparr>
      else arg)"

definition pdo_cob_write :: "u16 \<Rightarrow> u8 \<Rightarrow> bool \<Rightarrow> u32 \<Rightarrow> CO_ODF_arg_t \<Rightarrow> CO_SDO_abortCode_t \<times> CO_ODF_arg_t \<times> u32" where
  \<comment> \<open>the checks of a new COB-ID in \<^verbatim>\<open>CO_ODF_RPDOcom\<close> and \<^verbatim>\<open>CO_ODF_TPDOcom\<close>, and the value to configure\<close>
  "pdo_cob_write defaultCOB_ID nodeId valid current arg =
     (let value = CO_getUint32 (arg_data arg)
      in if value AND 0x3FFF8000 \<noteq> 0 then (CO_SDO_AB_INVALID_VALUE, arg, value)
         else
           let dflt = (value AND 0xFFFF = ucast defaultCOB_ID + ucast nodeId);
               value1 = (if dflt then (value AND 0xC0000000) + ucast defaultCOB_ID else value);
               arg1 = (if dflt then arg\<lparr>arg_data := CO_setUint32 (arg_data arg) value1\<rparr> else arg)
           in (if valid \<and> (value1 XOR current) AND 0x3FFFFFFF \<noteq> 0 then CO_SDO_AB_INVALID_VALUE else CO_SDO_AB_NONE, arg1, value1))"

definition pdo_write_refused :: "CO_NMT_internalState_t \<Rightarrow> u8 \<Rightarrow> u8 \<Rightarrow> u8 \<Rightarrow> CO_SDO_abortCode_t" where
  \<comment> \<open>the tests of \<^verbatim>\<open>restrictionFlags\<close>\<close>
  "pdo_write_refused operatingState restrictionFlags readonly preop =
     (if restrictionFlags AND readonly \<noteq> 0 then CO_SDO_AB_READONLY
      else if operatingState = CO_NMT_OPERATIONAL \<and> restrictionFlags AND preop \<noteq> 0 then CO_SDO_AB_DATA_DEV_STATE
      else CO_SDO_AB_NONE)"

definition CO_ODF_RPDOcom ::
    "can_env \<Rightarrow> CO_NMT_internalState_t \<Rightarrow> CO_RPDOCommPar_t \<Rightarrow> CO_RPDO_t \<Rightarrow> co_bus \<Rightarrow> CO_ODF_arg_t \<Rightarrow>
     CO_SDO_abortCode_t \<times> CO_ODF_arg_t \<times> CO_RPDO_t \<times> co_bus" where
  "CO_ODF_RPDOcom env operatingState comm R bus arg =
     (let refused = pdo_write_refused operatingState (rp_restrictionFlags R) 0x04 0x01
      in if arg_reading arg then
           (CO_SDO_AB_NONE, pdo_com_read (rp_defaultCOB_ID R) (rp_nodeId R) (rp_valid R) arg, R, bus)
         else if refused \<noteq> CO_SDO_AB_NONE then (refused, arg, R, bus)
         else if arg_subIndex arg = 1 then
           let (code, arg1, value) =
                 pdo_cob_write (rp_defaultCOB_ID R) (rp_nodeId R) (rp_valid R) (rc_COB_IDUsedByRPDO comm) arg
           in if code \<noteq> CO_SDO_AB_NONE then (code, arg1, R, bus)
              else let (R1, bus1) = CO_RPDOconfigCom env R comm bus value in (CO_SDO_AB_NONE, arg1, R1, bus1)
         else if arg_subIndex arg = 2 then
           let value = arg_data arg ! 0; synchronousPrev = rp_synchronous R
           in if 241 \<le> value \<and> value \<le> 253 then (CO_SDO_AB_INVALID_VALUE, arg, R, bus)
              else
                let R1 = R\<lparr>rp_synchronous := value \<le> 240\<rparr>
                in (CO_SDO_AB_NONE, arg,
                    if rp_synchronous R1 \<noteq> synchronousPrev then R1\<lparr>rp_CANrxNew := (rp_CANrxNew R1)[1 := False]\<rparr> else R1, bus)
         else (CO_SDO_AB_NONE, arg, R, bus))"

definition CO_ODF_TPDOcom ::
    "can_env \<Rightarrow> CO_NMT_internalState_t \<Rightarrow> CO_TPDOCommPar_t \<Rightarrow> CO_TPDO_t \<Rightarrow> co_bus \<Rightarrow> CO_ODF_arg_t \<Rightarrow>
     (CO_SDO_abortCode_t \<times> CO_ODF_arg_t \<times> CO_TPDO_t \<times> co_bus) option" where
  "CO_ODF_TPDOcom env operatingState comm T bus arg =
     (let refused = pdo_write_refused operatingState (tp_restrictionFlags T) 0x04 0x01;
          value8 = arg_data arg ! 0
      in if arg_subIndex arg = 4 then Some (CO_SDO_AB_SUB_UNKNOWN, arg, T, bus)
         else if arg_reading arg then
           Some (CO_SDO_AB_NONE, pdo_com_read (tp_defaultCOB_ID T) (tp_nodeId T) (tp_valid T) arg, T, bus)
         else if refused \<noteq> CO_SDO_AB_NONE then Some (refused, arg, T, bus)
         else if arg_subIndex arg = 1 then
           let (code, arg1, value) =
                 pdo_cob_write (tp_defaultCOB_ID T) (tp_nodeId T) (tp_valid T) (tc_COB_IDUsedByTPDO comm) arg
           in if code \<noteq> CO_SDO_AB_NONE then Some (code, arg1, T, bus)
              else do {
                txb \<leftarrow> tp_CANtxBuff T;
                let (T1, bus1) = CO_TPDOconfigCom env T bus value (tx_syncFlag (bus_buf bus txb));
                Some (CO_SDO_AB_NONE, arg1, T1\<lparr>tp_syncCounter := 255\<rparr>, bus1)
              }
         else if arg_subIndex arg = 2 then
           (if 241 \<le> value8 \<and> value8 \<le> 253 then Some (CO_SDO_AB_INVALID_VALUE, arg, T, bus)
            else do {
              txb \<leftarrow> tp_CANtxBuff T;
              Some (CO_SDO_AB_NONE, arg, T\<lparr>tp_syncCounter := 255\<rparr>,
                    bus_upd_buf bus txb (\<lambda>b. b\<lparr>tx_syncFlag := value8 \<le> 240\<rparr>))
            })
         else if arg_subIndex arg = 3 then
           Some (if tp_valid T then (CO_SDO_AB_INVALID_VALUE, arg, T, bus)
                 else (CO_SDO_AB_NONE, arg, T\<lparr>tp_inhibitTimer := 0\<rparr>, bus))
         else if arg_subIndex arg = 5 then
           Some (CO_SDO_AB_NONE, arg, T\<lparr>tp_eventTimer := word_of_nat (le_value (take 2 (arg_data arg))) * 1000\<rparr>, bus)
         else if arg_subIndex arg = 6 then
           Some (if tp_valid T \<or> 240 < value8 then (CO_SDO_AB_INVALID_VALUE, arg, T, bus) else (CO_SDO_AB_NONE, arg, T, bus))
         else Some (CO_SDO_AB_NONE, arg, T, bus))"

definition pdo_map_access ::
    "CO_NMT_internalState_t \<Rightarrow> CO_SDO_OD \<Rightarrow> bool \<Rightarrow> u8 \<Rightarrow> bool \<Rightarrow> u8 \<Rightarrow> CO_ODF_arg_t \<Rightarrow>
     (CO_SDO_abortCode_t \<times> CO_ODF_arg_t \<times> u8 option) option" where
  \<comment> \<open>\<^verbatim>\<open>CO_ODF_RPDOmap\<close> and \<^verbatim>\<open>CO_ODF_TPDOmap\<close> up to the call of the configuration, whose argument is the last result\<close>
  "pdo_map_access operatingState dict tx restrictionFlags valid dataLength arg =
     (let refused = pdo_write_refused operatingState restrictionFlags 0x08 0x02; value8 = arg_data arg ! 0
      in if arg_reading arg then
           Some (CO_SDO_AB_NONE,
                 if arg_subIndex arg = 0 \<and> dataLength = 0 then arg\<lparr>arg_data := (arg_data arg)[0 := 0]\<rparr> else arg, None)
         else if refused \<noteq> CO_SDO_AB_NONE then Some (refused, arg, None)
         else if valid then Some (CO_SDO_AB_UNSUPPORTED_ACCESS, arg, None)
         else if arg_subIndex arg = 0 then
           Some (if 8 < value8 then (CO_SDO_AB_MAP_LEN, arg, None) else (CO_SDO_AB_NONE, arg, Some value8))
         else if dataLength \<noteq> 0 then Some (CO_SDO_AB_UNSUPPORTED_ACCESS, arg, None)
         else do {
           (ret, _) \<leftarrow> CO_PDOfindMap dict (CO_getUint32 (arg_data arg)) tx 0 0;
           Some (ret, arg, None)
         })"

definition CO_ODF_RPDOmap ::
    "CO_NMT_internalState_t \<Rightarrow> CO_SDO_OD \<Rightarrow> CO_PDOMapPar_t \<Rightarrow> CO_RPDO_t \<Rightarrow> co_bus \<Rightarrow> CO_ODF_arg_t \<Rightarrow>
     (CO_SDO_abortCode_t \<times> CO_ODF_arg_t \<times> CO_RPDO_t \<times> co_bus) option" where
  "CO_ODF_RPDOmap operatingState dict mp R bus arg = do {
     (code, arg1, conf) \<leftarrow> pdo_map_access operatingState dict False (rp_restrictionFlags R) (rp_valid R) (rp_dataLength R) arg;
     (case conf of
        None \<Rightarrow> Some (code, arg1, R, bus)
      | Some n \<Rightarrow> map_option (\<lambda>(ret, R1, bus1). (ret, arg1, R1, bus1)) (CO_RPDOconfigMap dict R mp bus n))
   }"

definition CO_ODF_TPDOmap ::
    "CO_NMT_internalState_t \<Rightarrow> CO_SDO_OD \<Rightarrow> CO_PDOMapPar_t \<Rightarrow> CO_TPDO_t \<Rightarrow> co_bus \<Rightarrow> CO_ODF_arg_t \<Rightarrow>
     (CO_SDO_abortCode_t \<times> CO_ODF_arg_t \<times> CO_TPDO_t \<times> co_bus) option" where
  "CO_ODF_TPDOmap operatingState dict mp T bus arg = do {
     (code, arg1, conf) \<leftarrow> pdo_map_access operatingState dict True (tp_restrictionFlags T) (tp_valid T) (tp_dataLength T) arg;
     (case conf of
        None \<Rightarrow> Some (code, arg1, T, bus)
      | Some n \<Rightarrow> map_option (\<lambda>(ret, T1, bus1). (ret, arg1, T1, bus1)) (CO_TPDOconfigMap dict T mp bus n))
   }"

subsection \<open>Initialisation\<close>

text \<open>
  The tests of the pointers other than the object's own are not modelled: they point to objects of the model. The fields the
  code does not assign keep their values.
\<close>

definition CO_RPDO_init ::
    "can_env \<Rightarrow> CO_RPDO_t option \<Rightarrow> CO_SDO_OD \<Rightarrow> u8 \<Rightarrow> u16 \<Rightarrow> u8 \<Rightarrow> CO_RPDOCommPar_t \<Rightarrow> CO_PDOMapPar_t \<Rightarrow> u16 \<Rightarrow> u16 \<Rightarrow> co_bus \<Rightarrow>
     u16 \<Rightarrow> (CO_ReturnError_t \<times> CO_RPDO_t option \<times> CO_SDO_OD \<times> co_bus) option" where
  "CO_RPDO_init env RPDO dict nodeId defaultCOB_ID restrictionFlags comm mp idx_RPDOCommPar idx_RPDOMapPar bus CANdevRxIdx =
     (case RPDO of
        None \<Rightarrow> Some (CO_ERROR_ILLEGAL_ARGUMENT, None, dict, bus)
      | Some R \<Rightarrow> do {
          dict1 \<leftarrow> CO_OD_configure dict idx_RPDOCommPar (Some ODF_RPDOcom) (Some obj_rpdo) None 0;
          dict2 \<leftarrow> CO_OD_configure dict1 idx_RPDOMapPar (Some ODF_RPDOmap) (Some obj_rpdo) None 0;
          let R1 = R\<lparr>rp_nodeId := nodeId, rp_defaultCOB_ID := defaultCOB_ID, rp_restrictionFlags := restrictionFlags,
                     rp_pFunctSignalPre := False, rp_CANrxNew := [False, False], rp_CANdevRxIdx := CANdevRxIdx\<rparr>;
          (_, R2, bus1) \<leftarrow> CO_RPDOconfigMap dict2 R1 mp bus (mp_numberOfMappedObjects mp);
          let (R3, bus2) = CO_RPDOconfigCom env R2 comm bus1 (rc_COB_IDUsedByRPDO comm);
          Some (CO_ERROR_NO, Some R3, dict2, bus2)
        })"

definition CO_RPDO_initCallbackPre :: "CO_RPDO_t option \<Rightarrow> bool \<Rightarrow> CO_RPDO_t option" where
  \<comment> \<open>the second argument tells whether the function is not \<^verbatim>\<open>NULL\<close>\<close>
  "CO_RPDO_initCallbackPre RPDO pFunctSignalPre = map_option (\<lambda>R. R\<lparr>rp_pFunctSignalPre := pFunctSignalPre\<rparr>) RPDO"

definition CO_TPDO_init ::
    "can_env \<Rightarrow> CO_TPDO_t option \<Rightarrow> CO_SDO_OD \<Rightarrow> u8 \<Rightarrow> u16 \<Rightarrow> u8 \<Rightarrow> CO_TPDOCommPar_t \<Rightarrow> CO_PDOMapPar_t \<Rightarrow> u16 \<Rightarrow> u16 \<Rightarrow> co_bus \<Rightarrow>
     u16 \<Rightarrow> (CO_ReturnError_t \<times> CO_TPDO_t option \<times> CO_SDO_OD \<times> co_bus) option" where
  "CO_TPDO_init env TPDO dict nodeId defaultCOB_ID restrictionFlags comm mp idx_TPDOCommPar idx_TPDOMapPar bus CANdevTxIdx =
     (case TPDO of
        None \<Rightarrow> Some (CO_ERROR_ILLEGAL_ARGUMENT, None, dict, bus)
      | Some T \<Rightarrow> do {
          dict1 \<leftarrow> CO_OD_configure dict idx_TPDOCommPar (Some ODF_TPDOcom) (Some obj_tpdo) None 0;
          dict2 \<leftarrow> CO_OD_configure dict1 idx_TPDOMapPar (Some ODF_TPDOmap) (Some obj_tpdo) None 0;
          let T1 = T\<lparr>tp_nodeId := nodeId, tp_defaultCOB_ID := defaultCOB_ID, tp_restrictionFlags := restrictionFlags,
                     tp_CANdevTxIdx := CANdevTxIdx, tp_inhibitTimer := 0, tp_eventTimer := ucast (tc_eventTimer comm) * 1000,
                     tp_sendRequest := (if 254 \<le> tc_transmissionType comm then True else tp_sendRequest T)\<rparr>;
          (_, T2, bus1) \<leftarrow> CO_TPDOconfigMap dict2 T1 mp bus (mp_numberOfMappedObjects mp);
          let (T3, bus2) = CO_TPDOconfigCom env (T2\<lparr>tp_syncCounter := 255\<rparr>) bus1 (tc_COB_IDUsedByTPDO comm)
                             (tc_transmissionType comm \<le> 240);
          let bad = (240 < tc_transmissionType comm \<and> tc_transmissionType comm < 254 \<or> 240 < tc_SYNCStartValue comm);
          Some (CO_ERROR_NO, Some (if bad then T3\<lparr>tp_valid := False\<rparr> else T3), dict2, bus2)
        })"

subsection \<open>Transmission\<close>

fun cos_loop :: "CO_SDO_OD \<Rightarrow> u8 list \<Rightarrow> nat \<Rightarrow> u8 \<Rightarrow> u8 list \<Rightarrow> pdo_ptr list \<Rightarrow> bool option" where
  \<comment> \<open>the \<^verbatim>\<open>switch\<close> of \<^verbatim>\<open>CO_TPDOisCOS\<close>, entered at \<^verbatim>\<open>case n\<close>: from the last byte down to the first difference\<close>
  "cos_loop dict mem 0 flags data ptrs = Some False"
| "cos_loop dict mem (Suc n) flags data ptrs = do {
     d \<leftarrow> nth_opt data n;
     p \<leftarrow> nth_opt ptrs n;
     cur \<leftarrow> pdo_read dict mem p;
     if d \<noteq> cur \<and> bit flags n then Some True else cos_loop dict mem n flags data ptrs
   }"

definition CO_TPDOisCOS :: "CO_SDO_OD \<Rightarrow> u8 list \<Rightarrow> co_bus \<Rightarrow> CO_TPDO_t \<Rightarrow> bool option" where
  "CO_TPDOisCOS dict mem bus T =
     (let n = unat (tp_dataLength T)
      in if n = 0 \<or> 8 < n then Some False
         else do {
           txb \<leftarrow> tp_CANtxBuff T;
           cos_loop dict mem n (tp_sendIfCOSFlags T) (tx_data (bus_buf bus txb)) (tp_mapPointer T)
         })"

definition pdo_ext_arg :: "CO_SDO_OD \<Rightarrow> u8 list \<Rightarrow> bool \<Rightarrow> u16 \<Rightarrow> u8 \<Rightarrow> nat \<Rightarrow> (CO_ODF_arg_t \<times> od_ptr) option" where
  \<comment> \<open>the argument of the call: everything is zero but what is assigned\<close>
  "pdo_ext_arg dict mem reading index subIndex entryNo = do {
     ext \<leftarrow> nth_opt (sdo_ODExtensions dict) entryNo;
     attr \<leftarrow> CO_OD_getAttribute dict entryNo subIndex;
     ptr \<leftarrow> CO_OD_getDataPointer dict entryNo subIndex;
     len \<leftarrow> CO_OD_getLength dict entryNo subIndex;
     data \<leftarrow> (if ptr = ONull then Some [] else mem_read dict mem ptr (unat len));
     Some (\<lparr>arg_object = ext_object ext, arg_data = data, arg_ODdataStorage = ONull, arg_dataLength = len, arg_attribute = attr,
            arg_pFlags = CO_OD_getFlagsPointer dict entryNo subIndex, arg_index = index, arg_subIndex = subIndex,
            arg_reading = reading, arg_firstSegment = False, arg_lastSegment = False, arg_dataLengthTotal = 0, arg_offset = 0\<rparr>, ptr)
   }"

definition pdo_ext_call :: "'w odf_call \<Rightarrow> CO_SDO_OD \<Rightarrow> bool \<Rightarrow> u32 \<Rightarrow> 'w od_world \<Rightarrow> 'w od_world option" where
  \<comment> \<open>the body of the loop over the mapping parameters in \<^verbatim>\<open>CO_TPDOsend\<close> and \<^verbatim>\<open>CO_RPDO_process\<close>\<close>
  "pdo_ext_call odf dict reading mo W =
     (let index = ucast (drop_bit 16 mo); subIndex = ucast (drop_bit 8 mo); entryNo = CO_OD_find dict index
      in if entryNo = 0xFFFF then Some W
         else do {
           ext \<leftarrow> nth_opt (sdo_ODExtensions dict) entryNo;
           (case ext_pODFunc ext of
              None \<Rightarrow> Some W
            | Some f \<Rightarrow> do {
                (arg, ptr) \<leftarrow> pdo_ext_arg dict (wd_mem W) reading index subIndex entryNo;
                (_, arg1, W1) \<leftarrow> odf f arg W;
                if arg_data arg1 = arg_data arg then Some W1
                else map_option (\<lambda>mem. W1\<lparr>wd_mem := mem\<rparr>) (mem_write (wd_mem W1) ptr (arg_data arg1))
              })
         })"

fun pdo_ext_calls :: "'w odf_call \<Rightarrow> CO_SDO_OD \<Rightarrow> bool \<Rightarrow> nat \<Rightarrow> u32 list \<Rightarrow> 'w od_world \<Rightarrow> 'w od_world option" where
  \<comment> \<open>\<^verbatim>\<open>for each mapped OD, check mapping to see if an OD extension is available, and call it if it is\<close>\<close>
  "pdo_ext_calls odf dict reading 0 maps W = Some W"
| "pdo_ext_calls odf dict reading (Suc n) [] W = None"
| "pdo_ext_calls odf dict reading (Suc n) (mo # maps) W =
     Option.bind (pdo_ext_call odf dict reading mo W) (\<lambda>W1. pdo_ext_calls odf dict reading n maps W1)"

definition pdo_extensions :: "'w odf_call \<Rightarrow> CO_SDO_OD \<Rightarrow> bool \<Rightarrow> CO_PDOMapPar_t \<Rightarrow> 'w od_world \<Rightarrow> 'w od_world option" where
  "pdo_extensions odf dict reading mp W =
     (if sdo_ODExtensions dict = [] then Some W
      else pdo_ext_calls odf dict reading (unat (mp_numberOfMappedObjects mp)) (mp_mappedObjects mp) W)"

definition CO_TPDOsend ::
    "can_env \<Rightarrow> 'w odf_call \<Rightarrow> CO_SDO_OD \<Rightarrow> CO_PDOMapPar_t \<Rightarrow> CO_TPDO_t \<Rightarrow> 'w od_world \<Rightarrow>
     (CO_ReturnError_t \<times> CO_TPDO_t \<times> 'w od_world) option" where
  "CO_TPDOsend env odf dict mp T W = do {
     W1 \<leftarrow> pdo_extensions odf dict True mp W;
     txb \<leftarrow> tp_CANtxBuff T;
     let n = unat (tp_dataLength T);
     if length (tp_mapPointer T) < n \<or> length (tx_data (bus_buf (wd_bus W1) txb)) < n then None
     else do {
       bs \<leftarrow> pdo_gather dict (wd_mem W1) (take n (tp_mapPointer T));
       let bus1 = bus_put txb 0 bs (wd_bus W1);
       let (r, bus2) = CO_CANsend env bus1 (Some txb);
       Some (r, T\<lparr>tp_sendRequest := False\<rparr>, W1\<lparr>wd_bus := bus2\<rparr>)
     }
   }"

definition tpdo_event ::
    "can_env \<Rightarrow> 'w odf_call \<Rightarrow> CO_SDO_OD \<Rightarrow> CO_TPDOCommPar_t \<Rightarrow> CO_PDOMapPar_t \<Rightarrow> CO_TPDO_t \<Rightarrow> 'w od_world \<Rightarrow>
     (CO_TPDO_t \<times> 'w od_world) option" where
  \<comment> \<open>\<^verbatim>\<open>Send PDO by application request or by Event timer\<close>\<close>
  "tpdo_event env odf dict comm mp T W =
     (if tp_inhibitTimer T = 0 \<and> (tp_sendRequest T \<or> tc_eventTimer comm \<noteq> 0 \<and> tp_eventTimer T = 0) then do {
        (r, T1, W1) \<leftarrow> CO_TPDOsend env odf dict mp T W;
        Some (if r = CO_ERROR_NO
              then T1\<lparr>tp_inhibitTimer := ucast (tc_inhibitTime comm) * 100, tp_eventTimer := ucast (tc_eventTimer comm) * 1000\<rparr>
              else T1, W1)
      }
      else Some (T, W))"

definition tpdo_timerNext :: "CO_TPDOCommPar_t \<Rightarrow> CO_TPDO_t \<Rightarrow> u32 \<Rightarrow> u32" where
  "tpdo_timerNext comm T timerNext =
     (if tp_sendRequest T \<and> tp_inhibitTimer T < timerNext then tp_inhibitTimer T
      else if tc_eventTimer comm \<noteq> 0 \<and> tp_eventTimer T < timerNext then tp_eventTimer T
      else timerNext)"

definition tpdo_sync ::
    "can_env \<Rightarrow> 'w odf_call \<Rightarrow> CO_SDO_OD \<Rightarrow> CO_SYNC_t \<Rightarrow> CO_TPDOCommPar_t \<Rightarrow> CO_PDOMapPar_t \<Rightarrow> CO_TPDO_t \<Rightarrow> 'w od_world \<Rightarrow>
     (CO_TPDO_t \<times> 'w od_world) option" where
  \<comment> \<open>\<^verbatim>\<open>Synchronous PDOs\<close>\<close>
  "tpdo_sync env odf dict S comm mp T W =
     (let send = (\<lambda>T. map_option snd (CO_TPDOsend env odf dict mp T W))
      in if tc_transmissionType comm = 0 then (if tp_sendRequest T then send T else Some (T, W))
         else
           let T1 = (if tp_syncCounter T = 255
                     then T\<lparr>tp_syncCounter := (if syn_counterOverflowValue S \<noteq> 0 \<and> tc_SYNCStartValue comm \<noteq> 0 then 254
                                                else tc_transmissionType comm)\<rparr>
                     else T)
           in if tp_syncCounter T1 = 254 then
                (if syn_counter S = tc_SYNCStartValue comm then send (T1\<lparr>tp_syncCounter := tc_transmissionType comm\<rparr>)
                 else Some (T1, W))
              else
                let T2 = T1\<lparr>tp_syncCounter := tp_syncCounter T1 - 1\<rparr>
                in if tp_syncCounter T2 = 0 then send (T2\<lparr>tp_syncCounter := tc_transmissionType comm\<rparr>) else Some (T2, W))"

definition count_down :: "u32 \<Rightarrow> u32 \<Rightarrow> u32" where
  "count_down timer dt = (if dt < timer then timer - dt else 0)"

definition CO_TPDO_process ::
    "can_env \<Rightarrow> 'w odf_call \<Rightarrow> CO_SDO_OD \<Rightarrow> CO_NMT_internalState_t \<Rightarrow> CO_SYNC_t option \<Rightarrow> CO_TPDOCommPar_t \<Rightarrow> CO_PDOMapPar_t \<Rightarrow>
     CO_TPDO_t \<Rightarrow> 'w od_world \<Rightarrow> bool \<Rightarrow> u32 \<Rightarrow> u32 option \<Rightarrow> (CO_TPDO_t \<times> 'w od_world \<times> u32 option) option" where
  "CO_TPDO_process env odf dict operatingState SYNC comm mp TPDO W syncWas timeDifference_us timerNext_us =
     (let T = TPDO\<lparr>tp_inhibitTimer := count_down (tp_inhibitTimer TPDO) timeDifference_us,
                   tp_eventTimer := count_down (tp_eventTimer TPDO) timeDifference_us\<rparr>
      in if tp_valid T \<and> operatingState = CO_NMT_OPERATIONAL then
           (if 253 \<le> tc_transmissionType comm then do {
              (T1, W1) \<leftarrow> tpdo_event env odf dict comm mp T W;
              Some (T1, W1, map_option (tpdo_timerNext comm T1) timerNext_us)
            }
            else
              (case SYNC of
                 Some S \<Rightarrow>
                   if syncWas then map_option (\<lambda>(T1, W1). (T1, W1, timerNext_us)) (tpdo_sync env odf dict S comm mp T W)
                   else Some (T, W, timerNext_us)
               | None \<Rightarrow> Some (T, W, timerNext_us)))
         else Some (T\<lparr>tp_sendRequest := 254 \<le> tc_transmissionType comm\<rparr>, W, timerNext_us))"

subsection \<open>Processing of received data\<close>

text \<open>
  \<^verbatim>\<open>CO_PDO_receive\<close> can interrupt the copy loop. The last argument of \<^verbatim>\<open>rpdo_copy\<close> lists the messages that do: the \<^verbatim>\<open>i\<close>-th pair
  is for the \<^verbatim>\<open>i\<close>-th round of the \<^verbatim>\<open>while\<close> loop and has the number of bytes that are copied before the message arrives; the
  bytes after them come from the buffer as it is then. No message arrives in the rounds after the end of the list. So at most
  one message arrives in each round, none between the test and the clearing of the flag, and no SYNC (which would change
  \<^verbatim>\<open>CANrxToggle\<close>) during the loop.
\<close>

definition rpdo_round :: "nat \<Rightarrow> CO_RPDO_t \<Rightarrow> nat \<Rightarrow> nat \<Rightarrow> u8 list \<Rightarrow> u8 list option" where
  \<comment> \<open>the copy of the bytes from \<^verbatim>\<open>i\<close> to before \<^verbatim>\<open>j\<close>\<close>
  "rpdo_round bufNo R i j mem =
     (if length (rp_mapPointer R) < j \<or> length (rp_CANrxData R ! bufNo) < j then None
      else pdo_scatter mem (zip (drop i (take j (rp_mapPointer R))) (drop i (take j (rp_CANrxData R ! bufNo)))))"

fun rpdo_copy ::
    "CO_SYNC_t option \<Rightarrow> nat \<Rightarrow> CO_RPDO_t \<Rightarrow> u8 list \<Rightarrow> bool \<Rightarrow> (nat \<times> CO_CANrxMsg_t) list \<Rightarrow> (CO_RPDO_t \<times> u8 list \<times> bool) option"
where
  "rpdo_copy SYNC bufNo R mem update arrivals =
     (if rp_CANrxNew R ! bufNo then
        let R1 = R\<lparr>rp_CANrxNew := (rp_CANrxNew R)[bufNo := False]\<rparr>; n = unat (rp_dataLength R)
        in case arrivals of
             [] \<Rightarrow> map_option (\<lambda>mem1. (R1, mem1, True)) (rpdo_round bufNo R1 0 n mem)
           | (k, msg) # rest \<Rightarrow> do {
               mem1 \<leftarrow> rpdo_round bufNo R1 0 (min k n) mem;
               let R2 = CO_PDO_receive CO_NMT_OPERATIONAL SYNC R1 msg;
               mem2 \<leftarrow> rpdo_round bufNo R2 (min k n) n mem1;
               rpdo_copy SYNC bufNo R2 mem2 True rest
             }
      else Some (R, mem, update))"

declare rpdo_copy.simps [simp del]

definition rpdo_bufNo :: "CO_SYNC_t option \<Rightarrow> CO_RPDO_t \<Rightarrow> nat" where
  \<comment> \<open>\<^verbatim>\<open>Determine, which of the two rx buffers, contains relevant message.\<close>\<close>
  "rpdo_bufNo SYNC R = (case SYNC of None \<Rightarrow> 0 | Some S \<Rightarrow> if rp_synchronous R \<and> \<not> syn_CANrxToggle S then 1 else 0)"

definition CO_RPDO_process ::
    "'w odf_call \<Rightarrow> CO_SDO_OD \<Rightarrow> CO_NMT_internalState_t \<Rightarrow> CO_SYNC_t option \<Rightarrow> CO_PDOMapPar_t \<Rightarrow> CO_RPDO_t \<Rightarrow> 'w od_world \<Rightarrow> bool \<Rightarrow>
     (nat \<times> CO_CANrxMsg_t) list \<Rightarrow> (CO_RPDO_t \<times> 'w od_world) option" where
  "CO_RPDO_process odf dict operatingState SYNC mp R W syncWas arrivals =
     (if \<not> rp_valid R \<or> operatingState \<noteq> CO_NMT_OPERATIONAL then Some (R\<lparr>rp_CANrxNew := [False, False]\<rparr>, W)
      else if rp_synchronous R \<and> \<not> syncWas then Some (R, W)
      else do {
        (R1, mem1, update) \<leftarrow> rpdo_copy SYNC (rpdo_bufNo SYNC R) R (wd_mem W) False arrivals;
        let W1 = W\<lparr>wd_mem := mem1\<rparr>;
        if update then map_option (\<lambda>W2. (R1, W2)) (pdo_extensions odf dict False mp W1) else Some (R1, W1)
      })"

end
