(* ===== verification/PDO_Map.thy ===== *)
theory PDO_Map
  imports PDO
begin

section \<open>PDO mapping\<close>

text \<open>
  What a list of mapping parameters means, defined without the loops of the code: \<^verbatim>\<open>pdo_object\<close> is the variable one
  parameter denotes, \<^verbatim>\<open>pdo_layout\<close> the bytes of all of them in order, with their change-of-state flags. The configuration
  functions and the two initialisation functions are shown to compute exactly that.
\<close>

subsection \<open>Reference definitions\<close>

definition entry_of :: "CO_SDO_OD \<Rightarrow> u16 \<Rightarrow> nat option" where
  "entry_of dict index = List.find (\<lambda>i. od_index (sdo_OD dict ! i) = index) [0..<length (sdo_OD dict)]"

definition pdo_need :: "bool \<Rightarrow> u16" where
  "pdo_need tx = (if tx then CO_ODA_TPDO_MAPABLE OR CO_ODA_READABLE else CO_ODA_RPDO_MAPABLE OR CO_ODA_WRITEABLE)"

definition dict_object :: "CO_SDO_OD \<Rightarrow> bool \<Rightarrow> u16 \<Rightarrow> u8 \<Rightarrow> nat \<Rightarrow> (pdo_base \<times> nat \<times> bool) option" where
  "dict_object dict tx index sub n = do {
     i \<leftarrow> entry_of dict index;
     attr \<leftarrow> CO_OD_getAttribute dict i sub;
     objectLen \<leftarrow> CO_OD_getLength dict i sub;
     ptr \<leftarrow> CO_OD_getDataPointer dict i sub;
     if sub \<le> od_maxSubIndex (sdo_OD dict ! i) \<and> attr AND pdo_need tx = pdo_need tx \<and> n \<le> unat objectLen mod 256
     then Some (PB_od ptr, n, attr AND CO_ODA_TPDO_DETECT_COS \<noteq> 0) else None
   }"

definition pdo_object :: "CO_SDO_OD \<Rightarrow> bool \<Rightarrow> u32 \<Rightarrow> (pdo_base \<times> nat \<times> bool) option" where
  \<comment> \<open>start, number of bytes and change detection of the variable that a mapping parameter denotes\<close>
  "pdo_object dict tx mo =
     (let index = ucast (drop_bit 16 mo); sub = ucast (drop_bit 8 mo); bits = unat (ucast mo :: u8); n = bits div 8
      in if bits mod 8 \<noteq> 0 then None
         else if index \<le> 7 \<and> sub = 0 then
           (if n \<le> unat (dummy_size index) then Some (if tx then PB_dummyTX else PB_dummyRX, n, False) else None)
         else dict_object dict tx index sub n)"

definition object_bytes :: "pdo_base \<times> nat \<times> bool \<Rightarrow> (pdo_ptr \<times> bool) list" where
  "object_bytes ob = (case ob of (base, n, cos) \<Rightarrow> map (\<lambda>k. ((base, k), cos)) [0..<n])"

fun pdo_bytes :: "CO_SDO_OD \<Rightarrow> bool \<Rightarrow> u32 list \<Rightarrow> (pdo_ptr \<times> bool) list option" where
  "pdo_bytes dict tx [] = Some []"
| "pdo_bytes dict tx (mo # mos) = do {
     ob \<leftarrow> pdo_object dict tx mo;
     bs \<leftarrow> pdo_bytes dict tx mos;
     Some (object_bytes ob @ bs)
   }"

definition pdo_layout :: "CO_SDO_OD \<Rightarrow> bool \<Rightarrow> u32 list \<Rightarrow> (pdo_ptr \<times> bool) list option" where
  "pdo_layout dict tx mos = (case pdo_bytes dict tx mos of Some bs \<Rightarrow> if length bs \<le> 8 then Some bs else None | None \<Rightarrow> None)"

subsection \<open>One mapping parameter\<close>

lemma entry_of_Some:
  assumes "entry_of dict index = Some i"
  shows "i < length (sdo_OD dict)" "od_index (sdo_OD dict ! i) = index"
  using assms by (auto simp: entry_of_def find_Some_iff)

lemma CO_OD_find_entry_of:
  assumes "od_inv dict"
  shows "CO_OD_find dict index = (case entry_of dict index of None \<Rightarrow> 0xFFFF | Some i \<Rightarrow> i)"
proof (cases "entry_of dict index")
  case None
  then have "index \<notin> od_index ` set (sdo_OD dict)" by (auto simp: entry_of_def find_None_iff in_set_conv_nth)
  then show ?thesis using CO_OD_find_missing [OF assms] None by simp
next
  case (Some i)
  show ?thesis using CO_OD_find_nth [OF assms entry_of_Some(1) [OF Some]] entry_of_Some(2) [OF Some] Some by simp
qed

lemma bits_div_8: "unat (drop_bit 3 (b :: u8)) = unat b div 8"
  using drop_bit_eq_div [of 3 "unat b"] by (simp add: unat_drop_bit_eq del: drop_bit_numeral_bit0 drop_bit_numeral_bit1)

lemma bits_mod_8: "(b :: u8) AND 0x07 = 0 \<longleftrightarrow> unat b mod 8 = 0"
proof -
  have "b AND 0x07 = take_bit 3 b" by (simp add: take_bit_eq_mask mask_eq_exp_minus_1)
  also have "unat (take_bit 3 b) = unat b mod 8" using unsigned_take_bit_eq [of 3 b] by (simp only: take_bit_eq_mod) simp
  ultimately show ?thesis by (metis unat_eq_zero)
qed

lemma and_or_eq: "(a :: u16) AND (x OR y) = x OR y \<longleftrightarrow> a AND x = x \<and> a AND y = y"
  by (auto simp: bit_eq_iff bit_simps)

lemma and_exp_eq: "(a :: u16) AND 2 ^ k = 2 ^ k \<longleftrightarrow> 2 ^ k = (0 :: u16) \<or> a AND 2 ^ k \<noteq> 0"
proof (cases "bit a k")
  case True
  have "a AND 2 ^ k = 2 ^ k" by (rule bit_word_eqI) (use True in \<open>auto simp: bit_and_iff bit_exp_iff\<close>)
  then show ?thesis by auto
next
  case False
  then have "a AND 2 ^ k = 0" by (simp add: and_exp_eq_0_iff_not_bit)
  then show ?thesis by auto
qed

lemma need_two_bits:
  "(attr AND 0xFF) AND CO_ODA_RPDO_MAPABLE \<noteq> 0 \<and> (attr AND 0xFF) AND CO_ODA_WRITEABLE \<noteq> 0 \<longleftrightarrow> attr AND pdo_need False = pdo_need False"
  "(attr AND 0xFF) AND CO_ODA_TPDO_MAPABLE \<noteq> 0 \<and> (attr AND 0xFF) AND CO_ODA_READABLE \<noteq> 0 \<longleftrightarrow> attr AND pdo_need True = pdo_need True"
  "(attr AND 0xFF) AND CO_ODA_TPDO_DETECT_COS \<noteq> 0 \<longleftrightarrow> attr AND CO_ODA_TPDO_DETECT_COS \<noteq> 0"
  unfolding pdo_need_def if_True if_False and_or_eq CO_ODA_RPDO_MAPABLE_def CO_ODA_WRITEABLE_def CO_ODA_TPDO_MAPABLE_def
    CO_ODA_READABLE_def CO_ODA_TPDO_DETECT_COS_def
  using and_exp_eq [of attr 2] and_exp_eq [of attr 3] and_exp_eq [of attr 4] and_exp_eq [of attr 5]
  by (simp_all add: and.assoc)

lemma dict_object_len: "dict_object dict tx index sub n = Some (b, k, c) \<Longrightarrow> k = n"
  by (auto simp: dict_object_def bind_eq_Some_conv split: if_splits)

lemma find_mapped_spec:
  assumes "od_inv dict"
  shows "\<exists>r. find_mapped dict tx index sub dataLen len flags = Some r \<and>
    (case dict_object dict tx index sub (unat dataLen) of
       Some (b, n, c) \<Rightarrow> n = unat dataLen \<and> r = (CO_SDO_AB_NONE, b, len, if c then cos_flags len dataLen flags else flags)
     | None \<Rightarrow> fst r \<noteq> CO_SDO_AB_NONE)"
proof (cases "entry_of dict index")
  case None
  then show ?thesis by (simp add: find_mapped_def dict_object_def Let_def CO_OD_find_entry_of [OF assms(1)])
next
  case (Some i)
  have i: "i < length (sdo_OD dict)" "i \<noteq> 0xFFFF" using entry_of_Some(1) [OF Some] od_inv_length [OF assms(1)] by auto
  show ?thesis
  proof (cases "sub \<le> od_maxSubIndex (sdo_OD dict ! i)")
    case False
    then show ?thesis using i
      by (auto simp: find_mapped_def dict_object_def Let_def CO_OD_find_entry_of [OF assms(1)] Some nth_opt_def bind_eq_Some_conv not_le
          split: option.splits)
  next
    case True
    obtain attr objectLen ptr where a: "CO_OD_getAttribute dict i sub = Some attr" "CO_OD_getLength dict i sub = Some objectLen"
      "CO_OD_getDataPointer dict i sub = Some ptr"
      using CO_OD_access_total [OF assms(1) i True] by blast
    have l: "(ucast objectLen :: u8) < dataLen \<longleftrightarrow> \<not> unat dataLen \<le> unat objectLen mod 256"
      by (simp add: word_less_nat_alt unsigned_ucast_eq take_bit_eq_mod not_le)
    have e: "nth_opt (sdo_OD dict) i = Some (sdo_OD dict ! i)" "\<not> od_maxSubIndex (sdo_OD dict ! i) < sub"
      using i True by (simp_all add: nth_opt_def)
    have "find_mapped dict tx index sub dataLen len flags =
      Some (if attr AND pdo_need tx \<noteq> pdo_need tx then (CO_SDO_AB_NO_MAP, PB_od ONull, len, flags)
        else if (ucast objectLen :: u8) < dataLen then (CO_SDO_AB_NO_MAP, PB_od ONull, len, flags)
        else (CO_SDO_AB_NONE, PB_od ptr, len, if attr AND CO_ODA_TPDO_DETECT_COS \<noteq> 0 then cos_flags len dataLen flags else flags))"
      using need_two_bits(1,2) [of attr] unfolding find_mapped_def Let_def CO_OD_find_entry_of [OF assms(1)] Some option.case
      by (cases tx; cases "attr AND pdo_need tx = pdo_need tx") (simp_all add: i e a need_two_bits(3))
    then show ?thesis using True by (simp add: dict_object_def Some a l)
  qed
qed

lemma CO_PDOfindMap_spec:
  assumes "od_inv dict" "unat len0 \<le> 8"
  shows "\<exists>r. CO_PDOfindMap dict mo tx len0 flags = Some r \<and>
    (case pdo_object dict tx mo of
       Some (b, n, c) \<Rightarrow>
         if unat len0 + n \<le> 8
         then r = (CO_SDO_AB_NONE, b, word_of_nat (unat len0 + n),
                   if c then cos_flags (word_of_nat (unat len0 + n)) (word_of_nat n) flags else flags)
         else fst r \<noteq> CO_SDO_AB_NONE
     | None \<Rightarrow> fst r \<noteq> CO_SDO_AB_NONE)"
proof (cases "unat (ucast mo :: u8) mod 8 = 0")
  case False
  then show ?thesis by (simp add: CO_PDOfindMap_def pdo_object_def Let_def bits_mod_8)
next
  case True
  define dataLen where "dataLen = drop_bit 3 (ucast mo :: u8)"
  define n where "n = unat (ucast mo :: u8) div 8"
  have "n \<le> 31" using unat_u8_less [of "ucast mo :: u8"] unfolding n_def by linarith
  then have n: "unat dataLen = n" "n \<le> 31" "dataLen = word_of_nat n" by (simp_all add: dataLen_def n_def bits_div_8 [symmetric])
  have len: "len0 + dataLen = word_of_nat (unat len0 + n)" by (simp add: n(3))
  have ulen: "unat (len0 + dataLen) = unat len0 + n" using assms(2) n by (simp add: unat_word_ariths)
  let ?index = "ucast (drop_bit 16 mo) :: u16" and ?sub = "ucast (drop_bit 8 mo) :: u8"
  have code: "CO_PDOfindMap dict mo tx len0 flags =
    (if 8 < unat len0 + n then Some (CO_SDO_AB_MAP_LEN, PB_od ONull, len0 + dataLen, flags)
     else if ?index \<le> 7 \<and> ?sub = 0 then
       Some (if unat (dummy_size ?index) < n then (CO_SDO_AB_NO_MAP, PB_od ONull, len0 + dataLen, flags)
             else (CO_SDO_AB_NONE, if tx then PB_dummyTX else PB_dummyRX, len0 + dataLen, flags))
     else find_mapped dict tx ?index ?sub dataLen (len0 + dataLen) flags)"
    using True by (simp add: CO_PDOfindMap_def Let_def bits_mod_8 dataLen_def [symmetric] word_less_nat_alt ulen n(1))
  show ?thesis
  proof (cases "8 < unat len0 + n")
    case True
    then show ?thesis by (auto simp: code pdo_object_def Let_def n_def [symmetric] dest: dict_object_len split: option.splits if_splits)
  next
    case False
    show ?thesis
    proof (cases "?index \<le> 7 \<and> ?sub = 0")
      case True
      then show ?thesis using \<open>unat (ucast mo :: u8) mod 8 = 0\<close> False
        by (simp add: code pdo_object_def Let_def n_def [symmetric] len)
    next
      case dict: False
      have ob: "pdo_object dict tx mo = dict_object dict tx ?index ?sub n"
        using dict \<open>unat (ucast mo :: u8) mod 8 = 0\<close> by (auto simp: pdo_object_def Let_def n_def)
      obtain r where r: "find_mapped dict tx ?index ?sub dataLen (len0 + dataLen) flags = Some r" and
        rs: "case dict_object dict tx ?index ?sub n of
          Some (b, k, c) \<Rightarrow> k = n \<and> r = (CO_SDO_AB_NONE, b, len0 + dataLen, if c then cos_flags (len0 + dataLen) dataLen flags else flags)
        | None \<Rightarrow> fst r \<noteq> CO_SDO_AB_NONE"
        using find_mapped_spec [OF assms(1), of tx ?index ?sub dataLen "len0 + dataLen" flags] unfolding n(1) by blast
      show ?thesis
      proof (intro exI [of _ r] conjI)
        show "CO_PDOfindMap dict mo tx len0 flags = Some r" using dict False r by (simp only: code if_False)
        show "case pdo_object dict tx mo of
            Some (b, n, c) \<Rightarrow>
              if unat len0 + n \<le> 8
              then r = (CO_SDO_AB_NONE, b, word_of_nat (unat len0 + n),
                        if c then cos_flags (word_of_nat (unat len0 + n)) (word_of_nat n) flags else flags)
              else fst r \<noteq> CO_SDO_AB_NONE
          | None \<Rightarrow> fst r \<noteq> CO_SDO_AB_NONE"
          using rs False unfolding ob n(3) len [unfolded n(3)] by (auto split: option.splits)
      qed
    qed
  qed
qed

subsection \<open>All mapping parameters\<close>

definition layout_state :: "(pdo_ptr \<times> bool) list \<Rightarrow> u8 \<Rightarrow> u8 \<Rightarrow> pdo_ptr list \<Rightarrow> bool" where
  \<comment> \<open>length, change-of-state flags and pointers represent a list of bytes\<close>
  "layout_state bs len flags ptrs \<longleftrightarrow> length ptrs = 8 \<and> length bs \<le> 8 \<and> len = word_of_nat (length bs) \<and>
     take (length bs) ptrs = map fst bs \<and> (\<forall>i < 8. bit flags i \<longleftrightarrow> i < length bs \<and> snd (bs ! i))"

lemma unat_small: "k < 256 \<Longrightarrow> unat (word_of_nat k :: u8) = k"
  by (simp add: unsigned_of_nat take_bit_eq_mod)

lemma bit_fold_or:
  assumes "j < 8"
  shows "bit (fold (\<lambda>i f. f OR 2 ^ i) xs (flags :: u8)) j \<longleftrightarrow> bit flags j \<or> j \<in> set xs"
proof (induction xs arbitrary: flags)
  case (Cons x xs)
  have "bit (flags OR 2 ^ x) j \<longleftrightarrow> bit flags j \<or> j = x" using assms by (auto simp: bit_or_iff bit_exp_iff)
  then show ?case using Cons [of "flags OR 2 ^ x"] by auto
qed simp

lemma layout_state_step:
  assumes "layout_state bs len flags ptrs" "length bs + n \<le> 8"
  shows "layout_state (bs @ object_bytes (b, n, c)) (word_of_nat (length bs + n))
    (if c then cos_flags (word_of_nat (length bs + n)) (word_of_nat n) flags else flags)
    (set_pointers b (unat len) (length bs + n) ptrs)"
proof -
  have len: "unat len = length bs" using assms by (simp add: layout_state_def unsigned_of_nat take_bit_eq_mod)
  have u: "unat (word_of_nat (length bs + n) :: u8) = length bs + n" "unat (word_of_nat n :: u8) = n"
    by (rule unat_small; use assms(2) in simp)+
  have shift: "map (\<lambda>j. (b, j - length bs)) [length bs..<length bs + n] = map (\<lambda>k. (b, k)) [0..<n]"
    by (rule nth_equalityI) simp_all
  have "take (length bs + n) (set_pointers b (length bs) (length bs + n) ptrs) = map fst bs @ map (\<lambda>k. (b, k)) [0..<n]"
    using assms shift by (simp add: layout_state_def set_pointers_def)
  moreover have "bit (if c then cos_flags (word_of_nat (length bs + n)) (word_of_nat n) flags else flags) i \<longleftrightarrow>
      i < length bs + n \<and> snd ((bs @ object_bytes (b, n, c)) ! i)" if "i < 8" for i
    using assms that by (auto simp: layout_state_def cos_flags_def u bit_fold_or [OF that] nth_append object_bytes_def simp del: of_nat_add)
  ultimately show ?thesis using assms unfolding len by (simp add: layout_state_def object_bytes_def set_pointers_def)
qed

definition mapping_refused :: "u32 list \<Rightarrow> co_bus \<Rightarrow> co_bus \<Rightarrow> bool" where
  \<comment> \<open>an emergency with one of the mapping parameters was reported\<close>
  "mapping_refused mos bus bus' \<longleftrightarrow>
     (\<exists>mo \<in> set mos. bus' = bus\<lparr>bus_em := em_errorReport (bus_em bus) CO_EM_PDO_WRONG_MAPPING CO_EMC_PROTOCOL_ERROR mo\<rparr>)"

lemma pdo_map_loop_spec:
  assumes "od_inv dict" "layout_state bs0 len flags ptrs" "n \<le> length mos"
  shows "\<exists>ret len' flags' ptrs' bus'. pdo_map_loop dict tx n mos len flags ptrs bus = Some (ret, len', flags', ptrs', bus') \<and>
    length ptrs' = 8 \<and>
    (case pdo_bytes dict tx (take n mos) of
       Some bs \<Rightarrow> if length bs0 + length bs \<le> 8 then ret = CO_SDO_AB_NONE \<and> layout_state (bs0 @ bs) len' flags' ptrs' \<and> bus' = bus
                   else ret \<noteq> CO_SDO_AB_NONE \<and> len' = 0 \<and> mapping_refused (take n mos) bus bus'
     | None \<Rightarrow> ret \<noteq> CO_SDO_AB_NONE \<and> len' = 0 \<and> mapping_refused (take n mos) bus bus')"
  using assms(2,3)
proof (induction n arbitrary: bs0 len flags ptrs mos)
  case 0
  then show ?case by (simp add: layout_state_def)
next
  case (Suc n)
  obtain mo mos' where mos: "mos = mo # mos'" "n \<le> length mos'" using Suc.prems(2) by (cases mos) auto
  have len: "unat len = length bs0" "unat len \<le> 8" "length ptrs = 8"
    using Suc.prems(1) by (simp_all add: layout_state_def unsigned_of_nat take_bit_eq_mod)
  obtain r where r0: "CO_PDOfindMap dict mo tx len flags = Some r" and
    rs0: "case pdo_object dict tx mo of
       Some (b, k, c) \<Rightarrow>
         if length bs0 + k \<le> 8
         then r = (CO_SDO_AB_NONE, b, word_of_nat (length bs0 + k),
                   if c then cos_flags (word_of_nat (length bs0 + k)) (word_of_nat k) flags else flags)
         else fst r \<noteq> CO_SDO_AB_NONE
     | None \<Rightarrow> fst r \<noteq> CO_SDO_AB_NONE"
    using CO_PDOfindMap_spec [OF assms(1) len(2), of mo tx flags] unfolding len(1) by blast
  obtain ret base len1 flags1 where req: "r = (ret, base, len1, flags1)" by (cases r)
  note r = r0 [unfolded req] and rs = rs0 [unfolded req fst_conv]
  show ?case
  proof (cases "ret = CO_SDO_AB_NONE")
    case False
    have "case pdo_bytes dict tx (take (Suc n) mos) of Some bs \<Rightarrow> \<not> length bs0 + length bs \<le> 8 | None \<Rightarrow> True"
      using rs False by (auto simp: mos(1) object_bytes_def split: option.splits if_splits bind_splits)
    moreover have "mapping_refused (take (Suc n) mos) bus
        (bus\<lparr>bus_em := em_errorReport (bus_em bus) CO_EM_PDO_WRONG_MAPPING CO_EMC_PROTOCOL_ERROR mo\<rparr>)"
      by (auto simp: mapping_refused_def mos(1))
    ultimately show ?thesis using False len(3) by (auto simp: mos(1) r split: option.splits)
  next
    case True
    then obtain b k c where ob: "pdo_object dict tx mo = Some (b, k, c)" "length bs0 + k \<le> 8"
      and st: "base = b" "len1 = word_of_nat (length bs0 + k)"
        "flags1 = (if c then cos_flags (word_of_nat (length bs0 + k)) (word_of_nat k) flags else flags)"
      using rs by (auto split: option.splits if_splits)
    have u: "unat len1 = length bs0 + k" unfolding st(2) by (rule unat_small) (use ob(2) in simp)
    have ls: "layout_state (bs0 @ object_bytes (b, k, c)) len1 flags1 (set_pointers base (unat len) (unat len1) ptrs)"
      using layout_state_step [OF Suc.prems(1) ob(2), of b c] unfolding u unfolding st .
    have loop: "pdo_map_loop dict tx (Suc n) mos len flags ptrs bus =
        pdo_map_loop dict tx n mos' len1 flags1 (set_pointers base (unat len) (unat len1) ptrs) bus"
      by (simp add: mos(1) r True)
    have bytes: "pdo_bytes dict tx (take (Suc n) mos) = map_option (\<lambda>bs. object_bytes (b, k, c) @ bs) (pdo_bytes dict tx (take n mos'))"
      by (cases "pdo_bytes dict tx (take n mos')") (simp_all add: mos(1) ob(1))
    have ref: "mapping_refused (take n mos') bus bus' \<Longrightarrow> mapping_refused (take (Suc n) mos) bus bus'" for bus'
      by (auto simp: mapping_refused_def mos(1))
    show ?thesis
    proof (cases "pdo_bytes dict tx (take n mos')")
      case None
      then show ?thesis using Suc.IH [OF ls mos(2)] unfolding loop bytes by (auto intro: ref)
    next
      case (Some y)
      have "length (object_bytes (b, k, c)) = k" by (simp add: object_bytes_def)
      then show ?thesis using Suc.IH [OF ls mos(2)] Some unfolding loop bytes
        by (cases "length bs0 + (k + length y) \<le> 8") (auto simp: add.assoc intro: ref)
    qed
  qed
qed

definition mapped_as :: "(pdo_ptr \<times> bool) list option \<Rightarrow> CO_SDO_abortCode_t \<Rightarrow> u8 \<Rightarrow> pdo_ptr list \<Rightarrow> bool" where
  \<comment> \<open>the outcome a layout promises: its bytes, or an error and no bytes\<close>
  "mapped_as layout ret len ptrs \<longleftrightarrow>
     (case layout of
        Some bs \<Rightarrow> ret = CO_SDO_AB_NONE \<and> unat len = length bs \<and> take (length bs) ptrs = map fst bs
      | None \<Rightarrow> ret \<noteq> CO_SDO_AB_NONE \<and> len = 0)"

lemma pdo_map_loop_layout:
  assumes "od_inv dict" "length ptrs = 8" "n \<le> length mos"
  shows "\<exists>ret len flags ptrs' bus'. pdo_map_loop dict tx n mos 0 0 ptrs bus = Some (ret, len, flags, ptrs', bus') \<and>
    length ptrs' = 8 \<and> mapped_as (pdo_layout dict tx (take n mos)) ret len ptrs' \<and>
    (case pdo_layout dict tx (take n mos) of
       Some bs \<Rightarrow> bus' = bus \<and> (\<forall>i < 8. bit flags i \<longleftrightarrow> i < length bs \<and> snd (bs ! i))
     | None \<Rightarrow> mapping_refused (take n mos) bus bus')"
proof -
  have "layout_state [] 0 0 ptrs" using assms(2) by (simp add: layout_state_def)
  note spec = pdo_map_loop_spec [OF assms(1) this assms(3), of tx bus, unfolded append_Nil list.size add_0]
  obtain ret len flags ptrs' bus' where l: "pdo_map_loop dict tx n mos 0 0 ptrs bus = Some (ret, len, flags, ptrs', bus')"
    "length ptrs' = 8" and c: "case pdo_bytes dict tx (take n mos) of
       Some bs \<Rightarrow> if length bs \<le> 8 then ret = CO_SDO_AB_NONE \<and> layout_state bs len flags ptrs' \<and> bus' = bus
                   else ret \<noteq> CO_SDO_AB_NONE \<and> len = 0 \<and> mapping_refused (take n mos) bus bus'
     | None \<Rightarrow> ret \<noteq> CO_SDO_AB_NONE \<and> len = 0 \<and> mapping_refused (take n mos) bus bus'"
    using spec by blast
  show ?thesis
    by (intro exI [of _ ret] exI [of _ len] exI [of _ flags] exI [of _ ptrs'] exI [of _ bus'])
      (use l c in \<open>auto simp: mapped_as_def pdo_layout_def layout_state_def unat_small split: option.splits if_splits\<close>)
qed

lemma rpdo_configMap:
  assumes "od_inv dict" "length (rp_mapPointer R) = 8" "unat n \<le> length (mp_mappedObjects mp)"
  shows "\<exists>ret len ptrs bus'.
    CO_RPDOconfigMap dict R mp bus n = Some (ret, R\<lparr>rp_mapPointer := ptrs, rp_dataLength := len\<rparr>, bus') \<and> length ptrs = 8 \<and>
    mapped_as (pdo_layout dict False (take (unat n) (mp_mappedObjects mp))) ret len ptrs \<and>
    (if pdo_layout dict False (take (unat n) (mp_mappedObjects mp)) = None
     then mapping_refused (take (unat n) (mp_mappedObjects mp)) bus bus' else bus' = bus)"
proof -
  obtain ret len flags ptrs' bus' where
    "pdo_map_loop dict False (unat n) (mp_mappedObjects mp) 0 0 (rp_mapPointer R) bus = Some (ret, len, flags, ptrs', bus')"
    "length ptrs' = 8" "mapped_as (pdo_layout dict False (take (unat n) (mp_mappedObjects mp))) ret len ptrs'"
    "case pdo_layout dict False (take (unat n) (mp_mappedObjects mp)) of
       Some bs \<Rightarrow> bus' = bus \<and> (\<forall>i < 8. bit flags i \<longleftrightarrow> i < length bs \<and> snd (bs ! i))
     | None \<Rightarrow> mapping_refused (take (unat n) (mp_mappedObjects mp)) bus bus'"
    using pdo_map_loop_layout [OF assms, of False bus] by blast
  then show ?thesis
    by (intro exI [of _ ret] exI [of _ len] exI [of _ ptrs'] exI [of _ bus']) (auto simp: CO_RPDOconfigMap_def split: option.splits)
qed

lemma tpdo_configMap:
  assumes "od_inv dict" "length (tp_mapPointer T) = 8" "unat n \<le> length (mp_mappedObjects mp)"
  shows "\<exists>ret len flags ptrs bus'.
    CO_TPDOconfigMap dict T mp bus n = Some (ret, T\<lparr>tp_mapPointer := ptrs, tp_sendIfCOSFlags := flags, tp_dataLength := len\<rparr>, bus') \<and>
    length ptrs = 8 \<and> mapped_as (pdo_layout dict True (take (unat n) (mp_mappedObjects mp))) ret len ptrs \<and>
    (case pdo_layout dict True (take (unat n) (mp_mappedObjects mp)) of
       Some bs \<Rightarrow> bus' = bus \<and> (\<forall>i < 8. bit flags i \<longleftrightarrow> i < length bs \<and> snd (bs ! i))
     | None \<Rightarrow> mapping_refused (take (unat n) (mp_mappedObjects mp)) bus bus')"
proof -
  obtain ret len flags ptrs' bus' where
    "pdo_map_loop dict True (unat n) (mp_mappedObjects mp) 0 0 (tp_mapPointer T) bus = Some (ret, len, flags, ptrs', bus')"
    "length ptrs' = 8" "mapped_as (pdo_layout dict True (take (unat n) (mp_mappedObjects mp))) ret len ptrs'"
    "case pdo_layout dict True (take (unat n) (mp_mappedObjects mp)) of
       Some bs \<Rightarrow> bus' = bus \<and> (\<forall>i < 8. bit flags i \<longleftrightarrow> i < length bs \<and> snd (bs ! i))
     | None \<Rightarrow> mapping_refused (take (unat n) (mp_mappedObjects mp)) bus bus'"
    using pdo_map_loop_layout [OF assms, of True bus] by blast
  then show ?thesis
    by (intro exI [of _ ret] exI [of _ len] exI [of _ flags] exI [of _ ptrs'] exI [of _ bus']) (auto simp: CO_TPDOconfigMap_def split: option.splits)
qed

subsection \<open>The mapping is exact\<close>

text \<open>
  C4: \<^verbatim>\<open>CO_RPDOconfigMap\<close> and \<^verbatim>\<open>CO_TPDOconfigMap\<close> accept a list of mapping parameters exactly when it has a layout: every
  parameter is byte aligned and denotes a dummy entry that is large enough or an existing sub-object that may be mapped in
  that direction and is large enough, and all together have at most eight bytes. Then the length is the number of bytes, the
  pointers are those of the bytes of the objects in the order of the parameters, and the change-of-state flags of a transmit
  PDO are those of the objects' attributes. Otherwise the functions return an abort code, set the length to 0 and
  report an emergency with one of the parameters. No access is out of range.
\<close>

theorem pdo_mapping_exact:
  assumes "od_inv dict" "unat n \<le> length (mp_mappedObjects mp)" "length (rp_mapPointer R) = 8" "length (tp_mapPointer T) = 8"
  defines "mos \<equiv> take (unat n) (mp_mappedObjects mp)"
  shows "(\<exists>ret R' bus'. CO_RPDOconfigMap dict R mp bus n = Some (ret, R', bus') \<and>
      (case pdo_layout dict False mos of
         Some bs \<Rightarrow> ret = CO_SDO_AB_NONE \<and> unat (rp_dataLength R') = length bs \<and>
                    take (length bs) (rp_mapPointer R') = map fst bs \<and> bus' = bus
       | None \<Rightarrow> ret \<noteq> CO_SDO_AB_NONE \<and> rp_dataLength R' = 0 \<and> mapping_refused mos bus bus')) \<and>
    (\<exists>ret T' bus'. CO_TPDOconfigMap dict T mp bus n = Some (ret, T', bus') \<and>
      (case pdo_layout dict True mos of
         Some bs \<Rightarrow> ret = CO_SDO_AB_NONE \<and> unat (tp_dataLength T') = length bs \<and>
                    take (length bs) (tp_mapPointer T') = map fst bs \<and> bus' = bus \<and>
                    (\<forall>i < 8. bit (tp_sendIfCOSFlags T') i \<longleftrightarrow> i < length bs \<and> snd (bs ! i))
       | None \<Rightarrow> ret \<noteq> CO_SDO_AB_NONE \<and> tp_dataLength T' = 0 \<and> mapping_refused mos bus bus'))"
proof
  obtain ret len ptrs bus' where r:
    "CO_RPDOconfigMap dict R mp bus n = Some (ret, R\<lparr>rp_mapPointer := ptrs, rp_dataLength := len\<rparr>, bus')"
    "mapped_as (pdo_layout dict False mos) ret len ptrs"
    "if pdo_layout dict False mos = None then mapping_refused mos bus bus' else bus' = bus"
    using rpdo_configMap [OF assms(1,3,2), of bus] unfolding mos_def by blast
  then show "\<exists>ret R' bus'. CO_RPDOconfigMap dict R mp bus n = Some (ret, R', bus') \<and>
      (case pdo_layout dict False mos of
         Some bs \<Rightarrow> ret = CO_SDO_AB_NONE \<and> unat (rp_dataLength R') = length bs \<and>
                    take (length bs) (rp_mapPointer R') = map fst bs \<and> bus' = bus
       | None \<Rightarrow> ret \<noteq> CO_SDO_AB_NONE \<and> rp_dataLength R' = 0 \<and> mapping_refused mos bus bus')"
    by (auto simp: mapped_as_def split: option.splits)
  obtain ret len flags ptrs bus' where t:
    "CO_TPDOconfigMap dict T mp bus n = Some (ret, T\<lparr>tp_mapPointer := ptrs, tp_sendIfCOSFlags := flags, tp_dataLength := len\<rparr>, bus')"
    "mapped_as (pdo_layout dict True mos) ret len ptrs"
    "case pdo_layout dict True mos of Some bs \<Rightarrow> bus' = bus \<and> (\<forall>i < 8. bit flags i \<longleftrightarrow> i < length bs \<and> snd (bs ! i))
     | None \<Rightarrow> mapping_refused mos bus bus'"
    using tpdo_configMap [OF assms(1,4,2), of bus] unfolding mos_def by blast
  then show "\<exists>ret T' bus'. CO_TPDOconfigMap dict T mp bus n = Some (ret, T', bus') \<and>
      (case pdo_layout dict True mos of
         Some bs \<Rightarrow> ret = CO_SDO_AB_NONE \<and> unat (tp_dataLength T') = length bs \<and>
                    take (length bs) (tp_mapPointer T') = map fst bs \<and> bus' = bus \<and>
                    (\<forall>i < 8. bit (tp_sendIfCOSFlags T') i \<longleftrightarrow> i < length bs \<and> snd (bs ! i))
       | None \<Rightarrow> ret \<noteq> CO_SDO_AB_NONE \<and> tp_dataLength T' = 0 \<and> mapping_refused mos bus bus')"
    by (auto simp: mapped_as_def split: option.splits)
qed

definition example_pdo_dict :: CO_SDO_OD where
  "example_pdo_dict =
     \<lparr>sdo_OD = [\<lparr>od_index = 0x2000, od_maxSubIndex = 0, od_attribute = 0x3C, od_length = 4, od_pData = PData 0\<rparr>,
               \<lparr>od_index = 0x2100, od_maxSubIndex = 0, od_attribute = 0x7C, od_length = 2, od_pData = PData 4\<rparr>],
      sdo_ODSize = 2, sdo_ODExtensions = [no_ext, no_ext]\<rparr>"

definition example_pdo_map :: CO_PDOMapPar_t where
  "example_pdo_map = \<lparr>mp_numberOfMappedObjects = 2, mp_mappedObjects = [0x21000010, 0x20000020, 0, 0, 0, 0, 0, 0]\<rparr>"

definition example_rpdo :: CO_RPDO_t where
  "example_rpdo =
     \<lparr>rp_nodeId = 0, rp_defaultCOB_ID = 0, rp_restrictionFlags = 0, rp_valid = False, rp_dataLength = 0,
      rp_mapPointer = replicate 8 (PB_dummyRX, 0), rp_synchronous = False, rp_CANrxNew = [False, False],
      rp_CANrxData = [replicate 8 0, replicate 8 0], rp_pFunctSignalPre = False, rp_signals = 0, rp_CANdevRxIdx = 0\<rparr>"

definition example_tpdo :: CO_TPDO_t where
  "example_tpdo =
     \<lparr>tp_nodeId = 0, tp_defaultCOB_ID = 0, tp_restrictionFlags = 0, tp_valid = False, tp_dataLength = 0, tp_sendRequest = False,
      tp_mapPointer = replicate 8 (PB_dummyTX, 0), tp_inhibitTimer = 0, tp_eventTimer = 0, tp_sendIfCOSFlags = 0,
      tp_syncCounter = 0, tp_CANtxBuff = None, tp_CANdevTxIdx = 0\<rparr>"

lemma example_pdo_dict_inv: "od_inv example_pdo_dict"
  by (simp add: od_inv_def example_pdo_dict_def od_entry_ok_def)

definition example_pdo_bytes :: "(pdo_ptr \<times> bool) list" where
  "example_pdo_bytes = object_bytes (PB_od (OAddr 4), 2, True) @ object_bytes (PB_od (OAddr 0), 4, False)"

lemma example_pdo_bytes_length [simp]: "length example_pdo_bytes = 6"
  by (simp add: example_pdo_bytes_def object_bytes_def)

lemma example_entry_of: "entry_of example_pdo_dict 0x2000 = Some 0" "entry_of example_pdo_dict 0x2100 = Some 1"
  by (simp_all add: entry_of_def example_pdo_dict_def upt_rec)

lemma example_pdo_layout: "pdo_layout example_pdo_dict tx [0x21000010, 0x20000020] = Some example_pdo_bytes"
proof -
  have w: "ucast (drop_bit 16 (0x21000010 :: u32)) = (0x2100 :: u16)" "ucast (drop_bit 8 (0x21000010 :: u32)) = (0 :: u8)"
    "ucast (0x21000010 :: u32) = (0x10 :: u8)" "ucast (drop_bit 16 (0x20000020 :: u32)) = (0x2000 :: u16)"
    "ucast (drop_bit 8 (0x20000020 :: u32)) = (0 :: u8)" "ucast (0x20000020 :: u32) = (0x20 :: u8)" by simp_all
  have n: "0x7C AND pdo_need tx = pdo_need tx" "0x3C AND pdo_need tx = pdo_need tx" "0x7C AND CO_ODA_TPDO_DETECT_COS \<noteq> 0"
    "0x3C AND CO_ODA_TPDO_DETECT_COS = 0"
    by (simp_all add: pdo_need_def CO_ODA_TPDO_DETECT_COS_def CO_ODA_TPDO_MAPABLE_def CO_ODA_READABLE_def CO_ODA_RPDO_MAPABLE_def
        CO_ODA_WRITEABLE_def)
  have "pdo_object example_pdo_dict tx 0x21000010 = Some (PB_od (OAddr 4), 2, True)"
    unfolding pdo_object_def Let_def w
    by (simp add: dict_object_def example_entry_of n CO_OD_getAttribute_def CO_OD_getLength_def CO_OD_getDataPointer_def
        od_pData_ptr_def nth_opt_def) (simp add: example_pdo_dict_def n)
  moreover have "pdo_object example_pdo_dict tx 0x20000020 = Some (PB_od (OAddr 0), 4, False)"
    unfolding pdo_object_def Let_def w
    by (simp add: dict_object_def example_entry_of n CO_OD_getAttribute_def CO_OD_getLength_def CO_OD_getDataPointer_def
        od_pData_ptr_def nth_opt_def) (simp add: example_pdo_dict_def n)
  ultimately show ?thesis by (simp add: pdo_layout_def example_pdo_bytes_def object_bytes_def)
qed

theorem pdo_mapping_exact_witness:
  "\<exists>ret T' bus'. CO_TPDOconfigMap example_pdo_dict example_tpdo example_pdo_map example_bus 2 = Some (ret, T', bus') \<and>
     ret = CO_SDO_AB_NONE \<and> unat (tp_dataLength T') = 6 \<and> bit (tp_sendIfCOSFlags T') 1 \<and> \<not> bit (tp_sendIfCOSFlags T') 2"
proof -
  have t: "take (unat (2 :: u8)) (mp_mappedObjects example_pdo_map) = [0x21000010, 0x20000020]" by (simp add: example_pdo_map_def)
  have "unat (2 :: u8) \<le> length (mp_mappedObjects example_pdo_map)" "length (rp_mapPointer example_rpdo) = 8"
    "length (tp_mapPointer example_tpdo) = 8"
    by (simp_all add: example_pdo_map_def example_rpdo_def example_tpdo_def)
  note spec = conjunct2 [OF pdo_mapping_exact [OF example_pdo_dict_inv this, of example_bus], unfolded t example_pdo_layout option.case]
  obtain ret T' bus' where r: "CO_TPDOconfigMap example_pdo_dict example_tpdo example_pdo_map example_bus 2 = Some (ret, T', bus')"
    "ret = CO_SDO_AB_NONE" "unat (tp_dataLength T') = 6" and
    f: "\<forall>i < 8. bit (tp_sendIfCOSFlags T') i \<longleftrightarrow> i < 6 \<and> snd (example_pdo_bytes ! i)"
    using spec unfolding example_pdo_bytes_length by blast
  have "snd (example_pdo_bytes ! 1)" "\<not> snd (example_pdo_bytes ! 2)"
    by (simp_all add: example_pdo_bytes_def object_bytes_def nth_append)
  moreover have "bit (tp_sendIfCOSFlags T') 1 \<longleftrightarrow> snd (example_pdo_bytes ! 1)" "bit (tp_sendIfCOSFlags T') 2 \<longleftrightarrow> snd (example_pdo_bytes ! 2)"
    using f [rule_format, of 1] f [rule_format, of 2] by simp_all
  ultimately show ?thesis using r by blast
qed

end
