(* ===== verification/SDO_Node.thy ===== *)
theory SDO_Node
  imports SDO_Transfer HB_Consumer PDO_Map
begin

section \<open>The SDO server of the node\<close>

text \<open>
  The functions that the services of the stack register with objects of the dictionary, as one call interface for the
  SDO server. \<^verbatim>\<open>node_objs\<close> holds the objects they are registered with. The access functions of the PDOs work on the PDO with
  the number of the entry, since \<^verbatim>\<open>CANopen.c\<close> registers PDO number \<^verbatim>\<open>i\<close> with the indexes \<^verbatim>\<open>0x1400 + i\<close> and \<^verbatim>\<open>0x1600 + i\<close>, or
  \<^verbatim>\<open>0x1800 + i\<close> and \<^verbatim>\<open>0x1A00 + i\<close>. Their communication and mapping parameters are variables of the dictionary: \<^verbatim>\<open>no_RPDOpar\<close>
  and \<^verbatim>\<open>no_TPDOpar\<close> give the structures that lie in the variables for a PDO. Functions of the application (and \<^verbatim>\<open>CO_ODF_1010\<close> and
  \<^verbatim>\<open>CO_ODF_1011\<close>, which store files) can be registered too; they are the parameter \<^verbatim>\<open>no_user\<close>, which gives the abort code, the new
  contents of the data buffer and the new state of the application. Their contract is the documented one: they stay within the buffer.
\<close>

record 'u node_objs =
  no_emPr :: CO_EMpr_t
  no_SYNC :: CO_SYNC_t
  no_HBcons :: CO_HBconsumer_t
  no_nodeId :: u8
  no_operatingState :: CO_NMT_internalState_t
  no_RPDO :: "CO_RPDO_t list"
  no_TPDO :: "CO_TPDO_t list"
  no_RPDOpar :: "u8 list \<Rightarrow> nat \<Rightarrow> CO_RPDOCommPar_t \<times> CO_PDOMapPar_t"
  no_TPDOpar :: "u8 list \<Rightarrow> nat \<Rightarrow> CO_TPDOCommPar_t \<times> CO_PDOMapPar_t"
  no_app :: 'u
  no_user :: "od_func \<Rightarrow> CO_ODF_arg_t \<Rightarrow> 'u \<Rightarrow> CO_SDO_abortCode_t \<times> u8 list \<times> 'u"

definition rpdo_odf ::
    "(CO_RPDOCommPar_t \<times> CO_PDOMapPar_t \<Rightarrow> CO_RPDO_t \<Rightarrow> co_bus \<Rightarrow> (CO_SDO_abortCode_t \<times> CO_ODF_arg_t \<times> CO_RPDO_t \<times> co_bus) option) \<Rightarrow>
     nat \<Rightarrow> 'u node_objs od_world \<Rightarrow> (CO_SDO_abortCode_t \<times> CO_ODF_arg_t \<times> 'u node_objs od_world) option" where
  \<comment> \<open>an access function of RPDO number \<^verbatim>\<open>i\<close>, with \<^verbatim>\<open>ODF_arg->object\<close> pointing to it\<close>
  "rpdo_odf func i W = (let app = wd_app W in do {
     R \<leftarrow> nth_opt (no_RPDO app) i;
     (code, a, R', b) \<leftarrow> func (no_RPDOpar app (wd_mem W) i) R (wd_bus W);
     Some (code, a, W\<lparr>wd_app := app\<lparr>no_RPDO := (no_RPDO app)[i := R']\<rparr>, wd_bus := b\<rparr>)
   })"

definition tpdo_odf ::
    "(CO_TPDOCommPar_t \<times> CO_PDOMapPar_t \<Rightarrow> CO_TPDO_t \<Rightarrow> co_bus \<Rightarrow> (CO_SDO_abortCode_t \<times> CO_ODF_arg_t \<times> CO_TPDO_t \<times> co_bus) option) \<Rightarrow>
     nat \<Rightarrow> 'u node_objs od_world \<Rightarrow> (CO_SDO_abortCode_t \<times> CO_ODF_arg_t \<times> 'u node_objs od_world) option" where
  "tpdo_odf func i W = (let app = wd_app W in do {
     T \<leftarrow> nth_opt (no_TPDO app) i;
     (code, a, T', b) \<leftarrow> func (no_TPDOpar app (wd_mem W) i) T (wd_bus W);
     Some (code, a, W\<lparr>wd_app := app\<lparr>no_TPDO := (no_TPDO app)[i := T']\<rparr>, wd_bus := b\<rparr>)
   })"

definition node_odf :: "can_env \<Rightarrow> CO_SDO_OD \<Rightarrow> 'u node_objs odf_call" where
  "node_odf env dict f arg W =
     (let app = wd_app W; bus = wd_bus W; st = no_operatingState app
      in case f of
           ODF_1003 \<Rightarrow> (case CO_ODF_1003 (no_emPr app) arg of (code, p, a) \<Rightarrow> Some (code, a, W\<lparr>wd_app := app\<lparr>no_emPr := p\<rparr>\<rparr>))
         | ODF_1014 \<Rightarrow> (case CO_ODF_1014 (no_nodeId app) arg of (code, a) \<Rightarrow> Some (code, a, W))
         | ODF_1200 \<Rightarrow> (case CO_ODF_1200 (no_nodeId app) arg of (code, a) \<Rightarrow> Some (code, a, W))
         | ODF_1005 \<Rightarrow> (case CO_ODF_1005 env (no_SYNC app) bus arg of
             (code, s, b) \<Rightarrow> Some (code, arg, W\<lparr>wd_app := app\<lparr>no_SYNC := s\<rparr>, wd_bus := b\<rparr>))
         | ODF_1006 \<Rightarrow> (case CO_ODF_1006 (no_SYNC app) arg of (code, s) \<Rightarrow> Some (code, arg, W\<lparr>wd_app := app\<lparr>no_SYNC := s\<rparr>\<rparr>))
         | ODF_1019 \<Rightarrow> (case CO_ODF_1019 env (no_SYNC app) bus arg of
             (code, s, b) \<Rightarrow> Some (code, arg, W\<lparr>wd_app := app\<lparr>no_SYNC := s\<rparr>, wd_bus := b\<rparr>))
         | ODF_1016 \<Rightarrow> (case CO_ODF_1016 env (no_HBcons app) bus arg of
             (code, h, b) \<Rightarrow> Some (code, arg, W\<lparr>wd_app := app\<lparr>no_HBcons := h\<rparr>, wd_bus := b\<rparr>))
         | ODF_RPDOcom \<Rightarrow> rpdo_odf (\<lambda>par R b. Some (CO_ODF_RPDOcom env st (fst par) R b arg)) (unat (arg_index arg - 0x1400)) W
         | ODF_RPDOmap \<Rightarrow> rpdo_odf (\<lambda>par R b. CO_ODF_RPDOmap st dict (snd par) R b arg) (unat (arg_index arg - 0x1600)) W
         | ODF_TPDOcom \<Rightarrow> tpdo_odf (\<lambda>par T b. CO_ODF_TPDOcom env st (fst par) T b arg) (unat (arg_index arg - 0x1800)) W
         | ODF_TPDOmap \<Rightarrow> tpdo_odf (\<lambda>par T b. CO_ODF_TPDOmap st dict (snd par) T b arg) (unat (arg_index arg - 0x1A00)) W
         | _ \<Rightarrow> (case no_user app f arg (no_app app) of
             (code, bs, u) \<Rightarrow> Some (code, arg\<lparr>arg_data := bs\<rparr>, W\<lparr>wd_app := app\<lparr>no_app := u\<rparr>\<rparr>)))"

text \<open>
  What the node sets up: application functions stay within the buffer; a PDO has eight mapping pointers and eight mapping
  parameters; every PDO access function is registered with the entry of an existing PDO; and a transmit PDO has got a transmit
  buffer of the CAN module, whose \<^verbatim>\<open>m\<close> buffers include the one it asks for. \<^verbatim>\<open>CO_ODF_TPDOcom\<close> uses \<^verbatim>\<open>CANtxBuff\<close> without
  testing it, so the last condition is needed.
\<close>

definition user_in_buffer :: "'u node_objs \<Rightarrow> bool" where
  "user_in_buffer app \<longleftrightarrow> (\<forall>f arg u. length (fst (snd (no_user app f arg u))) = length (arg_data arg))"

definition tpdo_ready :: "u16 \<Rightarrow> CO_TPDO_t \<Rightarrow> bool" where
  "tpdo_ready m T \<longleftrightarrow> length (tp_mapPointer T) = 8 \<and> tp_CANtxBuff T \<noteq> None \<and> tp_CANdevTxIdx T < m"

definition func_registered :: "'u node_objs \<Rightarrow> u16 \<Rightarrow> od_func \<Rightarrow> bool" where
  "func_registered app index f =
     (case f of
        ODF_RPDOcom \<Rightarrow> unat (index - 0x1400) < length (no_RPDO app)
      | ODF_RPDOmap \<Rightarrow> unat (index - 0x1600) < length (no_RPDO app)
      | ODF_TPDOcom \<Rightarrow> unat (index - 0x1800) < length (no_TPDO app)
      | ODF_TPDOmap \<Rightarrow> unat (index - 0x1A00) < length (no_TPDO app)
      | _ \<Rightarrow> True)"

definition node_inv :: "CO_SDO_OD \<Rightarrow> u16 \<Rightarrow> 'u node_objs \<Rightarrow> bool" where
  "node_inv dict m app \<longleftrightarrow> user_in_buffer app \<and> list_all (\<lambda>R. length (rp_mapPointer R) = 8) (no_RPDO app) \<and>
     list_all (tpdo_ready m) (no_TPDO app) \<and>
     (\<forall>mem i. length (mp_mappedObjects (snd (no_RPDOpar app mem i))) = 8 \<and> length (mp_mappedObjects (snd (no_TPDOpar app mem i))) = 8) \<and>
     (\<forall>k < length (sdo_OD dict). \<forall>f. ext_pODFunc (sdo_ODExtensions dict ! k) = Some f \<longrightarrow>
        func_registered app (od_index (sdo_OD dict ! k)) f)"

subsection \<open>The functions keep their contract\<close>

definition bus_same_tx :: "co_bus \<Rightarrow> co_bus \<Rightarrow> bool" where
  "bus_same_tx bus bus' \<longleftrightarrow> bus_dev_inv bus' \<and> can_txSize (bus_can bus') = can_txSize (bus_can bus) \<and>
     (\<forall>j. tx_data (bus_buf bus' j) = tx_data (bus_buf bus j))"

lemma bus_same_tx_refl: "bus_dev_inv bus \<Longrightarrow> bus_same_tx bus bus"
  by (simp add: bus_same_tx_def)

lemma bus_same_tx_trans: "bus_same_tx bus bus' \<Longrightarrow> bus_same_tx bus' bus'' \<Longrightarrow> bus_same_tx bus bus''"
  by (simp add: bus_same_tx_def)

lemma world_ok_same: "world_ok txb n W \<Longrightarrow> bus_same_tx (wd_bus W) b \<Longrightarrow> world_ok txb n (W\<lparr>wd_app := a, wd_bus := b\<rparr>)"
  by (auto simp: world_ok_def bus_same_tx_def)

lemma rxBufferInit_same:
  assumes "bus_dev_inv bus" "CO_CANrxBufferInit env bus i ident m rtr ob cb = (ret, bus')"
  shows "bus_same_tx bus bus'"
proof -
  have "bus_inv bus" using assms(1) by (simp add: bus_dev_inv_def)
  from CO_CANrxBufferInit_keeps [OF this assms(2)] show ?thesis
    using assms(1) by (simp add: bus_same_tx_def bus_dev_inv_def bus_buf_def)
qed

lemma txBufferInit_same:
  assumes "bus_dev_inv bus" "CO_CANtxBufferInit env bus i ident rtr len sf = (tx, bus')"
  shows "bus_same_tx bus bus'"
proof (cases "i < can_txSize (bus_can bus)")
  case True
  have "bus_inv bus" using assms(1) by (simp add: bus_dev_inv_def)
  from CO_CANtxBufferInit_ok [OF this True, of env ident rtr len sf] obtain b where
    b: "CO_CANtxBufferInit env bus i ident rtr len sf = (Some (unat i), b)" "bus_inv b" "can_dev (bus_can b) = can_dev (bus_can bus)"
      "can_txSize (bus_can b) = can_txSize (bus_can bus)" "tx_data (bus_buf b (unat i)) = tx_data (bus_buf bus (unat i))"
      "\<forall>j. j \<noteq> unat i \<longrightarrow> bus_buf b j = bus_buf bus j" by blast
  have "tx_data (bus_buf b j) = tx_data (bus_buf bus j)" for j using b(5,6) by (cases "j = unat i") simp_all
  then show ?thesis using assms b by (simp add: bus_same_tx_def bus_dev_inv_def)
next
  case False
  then show ?thesis using assms by (auto simp: CO_CANtxBufferInit_def Let_def not_less bus_same_tx_def bus_dev_inv_def)
qed

lemma configure_producer_same:
  assumes "bus_dev_inv bus" "sync_configure_producer env S bus = (code, S', bus')"
  shows "bus_same_tx bus bus'"
proof -
  obtain tx b where t: "CO_CANtxBufferInit env bus (syn_CANdevTxIdx S) (syn_COB_ID S) False (if syn_counterOverflowValue S \<noteq> 0 then 1 else 0) False = (tx, b)"
    by fastforce
  have "bus' = b" using assms(2) t by (auto simp: sync_configure_producer_def Let_def split: if_splits)
  then show ?thesis using txBufferInit_same [OF assms(1) t] by simp
qed

lemma configure_rx_same: "bus_dev_inv bus \<Longrightarrow> sync_configure_rx env S bus = (ret, bus') \<Longrightarrow> bus_same_tx bus bus'"
  unfolding sync_configure_rx_def by (rule rxBufferInit_same)

lemma odf_1005_same:
  assumes "bus_dev_inv bus" "CO_ODF_1005 env S bus arg = (code, S', bus')"
  shows "bus_same_tx bus bus'"
proof -
  let ?val = "CO_getUint32 (arg_data arg)"
  let ?S = "S\<lparr>syn_COB_ID := ucast (?val AND 0x7FF)\<rparr>"
  obtain c S2 b2 where p: "(if ?val AND 0x40000000 \<noteq> 0 then sync_configure_producer env ?S bus
      else (CO_SDO_AB_NONE, ?S\<lparr>syn_isProducer := False\<rparr>, bus)) = (c, S2, b2)" by (metis prod_cases3)
  have b2: "bus_same_tx bus b2"
    using p configure_producer_same [OF assms(1)] bus_same_tx_refl [OF assms(1)] by (auto split: if_splits)
  obtain r b3 where q: "sync_configure_rx env S2 b2 = (r, b3)" by fastforce
  have b3: "bus_same_tx bus b3" using configure_rx_same [OF _ q] b2 bus_same_tx_trans by (auto simp: bus_same_tx_def)
  show ?thesis using assms b2 b3 q p bus_same_tx_refl [OF assms(1)]
    by (auto simp: CO_ODF_1005_def Let_def split: if_splits)
qed

lemma odf_1019_same:
  assumes "bus_dev_inv bus" "CO_ODF_1019 env S bus arg = (code, S', bus')"
  shows "bus_same_tx bus bus'"
  using assms bus_same_tx_refl [OF assms(1)] txBufferInit_same [OF assms(1)]
  by (auto simp: CO_ODF_1019_def Let_def split: if_splits prod.splits)

lemma odf_1016_same:
  assumes "bus_dev_inv bus" "CO_ODF_1016 env H bus arg = (code, H', bus')"
  shows "bus_same_tx bus bus'"
proof -
  have "bus_same_tx bus b" if "CO_HBconsumer_initEntry env (Some H) bus i nodeId ms = (ret, h, b)" for i nodeId ms ret h b
    using that bus_same_tx_refl [OF assms(1)] rxBufferInit_same [OF assms(1)]
    by (auto simp: CO_HBconsumer_initEntry_def Let_def split: if_splits prod.splits)
  then show ?thesis using assms(2) bus_same_tx_refl [OF assms(1)]
    by (auto simp: CO_ODF_1016_def Let_def split: if_splits prod.splits)
qed

lemma setUint32_length: "4 \<le> length bs \<Longrightarrow> length (CO_setUint32 bs v) = length bs"
  by (simp add: CO_setUint32_def)

lemma errorReport_same:
  "bus_dev_inv bus \<Longrightarrow> bus_same_tx bus (bus\<lparr>bus_em := em_errorReport (bus_em bus) b c i\<rparr>)"
  by (auto simp: bus_same_tx_def bus_dev_inv_def bus_inv_def em_inv_errorReport bus_buf_def)

lemma syncFlag_same:
  assumes "bus_dev_inv bus"
  shows "bus_same_tx bus (bus_upd_buf bus i (\<lambda>b. b\<lparr>tx_syncFlag := v\<rparr>))"
proof (cases "i < length (can_txArray (bus_can bus))")
  case True
  then show ?thesis using assms by (simp add: bus_same_tx_def bus_dev_inv_def bus_buf_upd)
next
  case False
  then have "bus_upd_buf bus i f = bus" for f by (simp add: bus_upd_buf_def list_update_beyond not_less)
  then show ?thesis using assms by (simp add: bus_same_tx_refl)
qed

subsubsection \<open>The access functions of the PDOs\<close>

definition odf_result :: "(CO_SDO_abortCode_t \<times> CO_ODF_arg_t \<times> 'p \<times> co_bus) option \<Rightarrow> CO_ODF_arg_t \<Rightarrow> co_bus \<Rightarrow> ('p \<Rightarrow> bool) \<Rightarrow> bool" where
  \<comment> \<open>the function returned, changed only data in the buffer, no transmit data, and kept \<^verbatim>\<open>P\<close>\<close>
  "odf_result r arg bus P \<longleftrightarrow> (\<exists>code bs p bus'. r = Some (code, arg\<lparr>arg_data := bs\<rparr>, p, bus') \<and> length bs = length (arg_data arg) \<and>
     bus_same_tx bus bus' \<and> P p)"

definition data_same :: "CO_ODF_arg_t \<Rightarrow> CO_ODF_arg_t \<Rightarrow> bool" where
  "data_same arg a \<longleftrightarrow> (\<exists>bs. a = arg\<lparr>arg_data := bs\<rparr> \<and> length bs = length (arg_data arg))"

lemma data_same_refl [simp]: "data_same arg arg"
  unfolding data_same_def by (rule exI [of _ "arg_data arg"]) simp

lemma data_same_upd [simp]: "length bs = length (arg_data arg) \<Longrightarrow> data_same arg (arg\<lparr>arg_data := bs\<rparr>)"
  by (auto simp: data_same_def)

lemma odf_result_Some [simp]: "odf_result (Some (code, a, p, bus')) arg bus P \<longleftrightarrow> data_same arg a \<and> bus_same_tx bus bus' \<and> P p"
  by (auto simp: odf_result_def data_same_def)

lemma com_read_arg: "4 \<le> length (arg_data arg) \<Longrightarrow> data_same arg (pdo_com_read c n v arg)"
  by (auto simp: pdo_com_read_def Let_def setUint32_length)

lemma cob_write_arg:
  "4 \<le> length (arg_data arg) \<Longrightarrow> pdo_cob_write c n v cur arg = (code, a, value) \<Longrightarrow> data_same arg a"
  by (auto simp: pdo_cob_write_def Let_def setUint32_length split: if_splits)

lemma rpdo_configCom_same:
  assumes "bus_dev_inv bus" "CO_RPDOconfigCom env R comm bus v = (R', bus')"
  shows "bus_same_tx bus bus' \<and> rp_mapPointer R' = rp_mapPointer R"
  using assms(2) rxBufferInit_same [OF assms(1)]
  by (auto simp: CO_RPDOconfigCom_def Let_def split: prod.splits if_splits)

lemma tpdo_configCom_same:
  assumes "bus_dev_inv bus" "CO_TPDOconfigCom env T bus v sf = (T', bus')" "tpdo_ready (can_txSize (bus_can bus)) T"
  shows "bus_same_tx bus bus' \<and> tpdo_ready (can_txSize (bus_can bus)) T'"
proof -
  let ?ID = "if pdo_used v (tp_dataLength T) then pdo_ident v (tp_defaultCOB_ID T) (tp_nodeId T) else 0"
  have "bus_inv bus" using assms(1) by (simp add: bus_dev_inv_def)
  from CO_CANtxBufferInit_ok [OF this, of "tp_CANdevTxIdx T" env ?ID False "tp_dataLength T" sf] assms(3) obtain b where
    b: "CO_CANtxBufferInit env bus (tp_CANdevTxIdx T) ?ID False (tp_dataLength T) sf = (Some (unat (tp_CANdevTxIdx T)), b)"
    by (auto simp: tpdo_ready_def)
  show ?thesis using txBufferInit_same [OF assms(1) b] assms(2,3) b
    by (auto simp: CO_TPDOconfigCom_def Let_def tpdo_ready_def)
qed

lemma rpdoCom_returns:
  assumes "bus_dev_inv bus" "4 \<le> length (arg_data arg)" "length (rp_mapPointer R) = 8"
  shows "odf_result (Some (CO_ODF_RPDOcom env st comm R bus arg)) arg bus (\<lambda>R. length (rp_mapPointer R) = 8)"
proof -
  obtain code a val where w: "pdo_cob_write (rp_defaultCOB_ID R) (rp_nodeId R) (rp_valid R) (rc_COB_IDUsedByRPDO comm) arg = (code, a, val)"
    by (metis prod_cases3)
  obtain R1 b1 where c: "CO_RPDOconfigCom env R comm bus val = (R1, b1)" by fastforce
  show ?thesis unfolding CO_ODF_RPDOcom_def Let_def w c prod.case
    using com_read_arg [OF assms(2)] cob_write_arg [OF assms(2) w] rpdo_configCom_same [OF assms(1) c] bus_same_tx_refl [OF assms(1)] assms(3)
    by simp
qed

lemma tpdoCom_returns:
  assumes "bus_dev_inv bus" "4 \<le> length (arg_data arg)" "tpdo_ready (can_txSize (bus_can bus)) T"
  shows "odf_result (CO_ODF_TPDOcom env st comm T bus arg) arg bus (tpdo_ready (can_txSize (bus_can bus)))"
proof -
  obtain code a val where w: "pdo_cob_write (tp_defaultCOB_ID T) (tp_nodeId T) (tp_valid T) (tc_COB_IDUsedByTPDO comm) arg = (code, a, val)"
    by (metis prod_cases3)
  obtain txb where txb: "tp_CANtxBuff T = Some txb" using assms(3) by (auto simp: tpdo_ready_def)
  obtain T1 b1 where c: "CO_TPDOconfigCom env T bus val (tx_syncFlag (bus_buf bus txb)) = (T1, b1)" by fastforce
  have upd: "tpdo_ready m (T\<lparr>tp_syncCounter := x\<rparr>) = tpdo_ready m T" "tpdo_ready m (T\<lparr>tp_inhibitTimer := y\<rparr>) = tpdo_ready m T"
    "tpdo_ready m (T\<lparr>tp_eventTimer := y\<rparr>) = tpdo_ready m T" for m x y T by (simp_all add: tpdo_ready_def)
  show ?thesis unfolding CO_ODF_TPDOcom_def Let_def w prod.case txb bind.bind_lunit c
    using com_read_arg [OF assms(2)] cob_write_arg [OF assms(2) w] tpdo_configCom_same [OF assms(1) c assms(3)]
      bus_same_tx_refl [OF assms(1)] syncFlag_same [OF assms(1)] assms(3)
    by (simp add: upd)
qed

lemma map_access_returns:
  assumes "od_inv dict"
  shows "\<exists>code a conf. pdo_map_access st dict tx fl valid len arg = Some (code, a, conf) \<and>
    data_same arg a \<and> (\<forall>n. conf = Some n \<longrightarrow> n \<le> 8)"
proof -
  obtain r where "CO_PDOfindMap dict (CO_getUint32 (arg_data arg)) tx 0 0 = Some r"
    using CO_PDOfindMap_spec [OF assms, of 0 "CO_getUint32 (arg_data arg)" tx 0] by auto
  then show ?thesis by (cases r) (auto simp: pdo_map_access_def Let_def)
qed

lemma mapping_same: "bus_dev_inv bus \<Longrightarrow> bus' = bus \<or> mapping_refused mos bus bus' \<Longrightarrow> bus_same_tx bus bus'"
  by (auto simp: mapping_refused_def bus_same_tx_refl errorReport_same)

lemma rpdoMap_returns:
  assumes "bus_dev_inv bus" "od_inv dict" "length (rp_mapPointer R) = 8" "length (mp_mappedObjects mp) = 8"
  shows "odf_result (CO_ODF_RPDOmap st dict mp R bus arg) arg bus (\<lambda>R. length (rp_mapPointer R) = 8)"
proof -
  obtain code a conf where acc: "pdo_map_access st dict False (rp_restrictionFlags R) (rp_valid R) (rp_dataLength R) arg = Some (code, a, conf)"
    "data_same arg a" "\<forall>n. conf = Some n \<longrightarrow> n \<le> 8"
    using map_access_returns [OF assms(2)] by blast
  show ?thesis
  proof (cases conf)
    case None
    then show ?thesis using acc assms(3) bus_same_tx_refl [OF assms(1)] by (simp add: CO_ODF_RPDOmap_def)
  next
    case (Some n)
    then have "unat n \<le> length (mp_mappedObjects mp)" using acc(3) assms(4) by (simp add: word_le_nat_alt)
    from rpdo_configMap [OF assms(2,3) this, of bus] obtain ret len ptrs bus' where
      "CO_RPDOconfigMap dict R mp bus n = Some (ret, R\<lparr>rp_mapPointer := ptrs, rp_dataLength := len\<rparr>, bus')" "length ptrs = 8"
      and r: "bus' = bus \<or> mapping_refused (take (unat n) (mp_mappedObjects mp)) bus bus'" by metis
    then show ?thesis using Some acc mapping_same [OF assms(1) r] by (simp add: CO_ODF_RPDOmap_def)
  qed
qed

lemma tpdoMap_returns:
  assumes "bus_dev_inv bus" "od_inv dict" "tpdo_ready m T" "length (mp_mappedObjects mp) = 8"
  shows "odf_result (CO_ODF_TPDOmap st dict mp T bus arg) arg bus (tpdo_ready m)"
proof -
  obtain code a conf where acc: "pdo_map_access st dict True (tp_restrictionFlags T) (tp_valid T) (tp_dataLength T) arg = Some (code, a, conf)"
    "data_same arg a" "\<forall>n. conf = Some n \<longrightarrow> n \<le> 8"
    using map_access_returns [OF assms(2)] by blast
  show ?thesis
  proof (cases conf)
    case None
    then show ?thesis using acc assms(3) bus_same_tx_refl [OF assms(1)] by (simp add: CO_ODF_TPDOmap_def)
  next
    case (Some n)
    then have n: "unat n \<le> length (mp_mappedObjects mp)" using acc(3) assms(4) by (simp add: word_le_nat_alt)
    have "length (tp_mapPointer T) = 8" using assms(3) by (simp add: tpdo_ready_def)
    from tpdo_configMap [OF assms(2) this n, of bus] obtain ret len flags ptrs bus' where
      "CO_TPDOconfigMap dict T mp bus n = Some (ret, T\<lparr>tp_mapPointer := ptrs, tp_sendIfCOSFlags := flags, tp_dataLength := len\<rparr>, bus')"
      "length ptrs = 8" and r: "bus' = bus \<or> mapping_refused (take (unat n) (mp_mappedObjects mp)) bus bus'"
      by (cases "pdo_layout dict True (take (unat n) (mp_mappedObjects mp))") auto
    then show ?thesis using Some acc assms(3) mapping_same [OF assms(1) r] by (simp add: CO_ODF_TPDOmap_def tpdo_ready_def)
  qed
qed

subsubsection \<open>All functions\<close>

definition node_result :: "(CO_SDO_abortCode_t \<times> CO_ODF_arg_t \<times> 'u node_objs od_world) option \<Rightarrow> CO_SDO_OD \<Rightarrow> nat \<Rightarrow> nat \<Rightarrow>
    CO_ODF_arg_t \<Rightarrow> 'u node_objs od_world \<Rightarrow> bool" where
  "node_result r dict txb n a W \<longleftrightarrow> (\<exists>code bs W'. r = Some (code, a\<lparr>arg_data := bs\<rparr>, W') \<and> length bs = length (arg_data a) \<and>
     world_ok txb n W' \<and> wd_mem W' = wd_mem W \<and> node_inv dict (can_txSize (bus_can (wd_bus W'))) (wd_app W'))"

lemma node_resultI:
  assumes "world_ok txb n W" "data_same a a'" "bus_same_tx (wd_bus W) b" "node_inv dict (can_txSize (bus_can (wd_bus W))) app"
  shows "node_result (Some (code, a', W\<lparr>wd_app := app, wd_bus := b\<rparr>)) dict txb n a W"
  using assms world_ok_same [OF assms(1,3), of app] by (auto simp: node_result_def data_same_def bus_same_tx_def)

lemma node_resultI_app:
  "world_ok txb n W \<Longrightarrow> data_same a a' \<Longrightarrow> node_inv dict (can_txSize (bus_can (wd_bus W))) app \<Longrightarrow>
     node_result (Some (code, a', W\<lparr>wd_app := app\<rparr>)) dict txb n a W"
  using node_resultI [of txb n W a a' "wd_bus W" dict app code] by (simp add: world_ok_def bus_same_tx_refl)

lemma node_inv_fields [simp]:
  "node_inv dict m (app\<lparr>no_emPr := p\<rparr>) = node_inv dict m app" "node_inv dict m (app\<lparr>no_SYNC := s\<rparr>) = node_inv dict m app"
  "node_inv dict m (app\<lparr>no_HBcons := h\<rparr>) = node_inv dict m app" "node_inv dict m (app\<lparr>no_app := u\<rparr>) = node_inv dict m app"
  by (auto simp: node_inv_def user_in_buffer_def func_registered_def split: od_func.splits)

lemma list_all_upd: "list_all P xs \<Longrightarrow> P x \<Longrightarrow> list_all P (xs[i := x])"
  using set_update_subset_insert [of xs i x] by (auto simp: list_all_iff)

lemma node_inv_RPDO:
  "node_inv dict m app \<Longrightarrow> length (rp_mapPointer R) = 8 \<Longrightarrow> node_inv dict m (app\<lparr>no_RPDO := (no_RPDO app)[i := R]\<rparr>)"
  by (auto simp: node_inv_def user_in_buffer_def func_registered_def list_all_upd split: od_func.splits)

lemma node_inv_TPDO:
  "node_inv dict m app \<Longrightarrow> tpdo_ready m T \<Longrightarrow> node_inv dict m (app\<lparr>no_TPDO := (no_TPDO app)[i := T]\<rparr>)"
  by (auto simp: node_inv_def user_in_buffer_def func_registered_def list_all_upd split: od_func.splits)

lemma rpdo_odf_returns:
  assumes "world_ok txb n W" "node_inv dict (can_txSize (bus_can (wd_bus W))) (wd_app W)" "i < length (no_RPDO (wd_app W))"
    and "\<And>par R. length (mp_mappedObjects (snd par)) = 8 \<Longrightarrow> length (rp_mapPointer R) = 8 \<Longrightarrow>
      odf_result (func par R (wd_bus W)) a (wd_bus W) (\<lambda>R. length (rp_mapPointer R) = 8)"
  shows "node_result (rpdo_odf func i W) dict txb n a W"
proof -
  let ?app = "wd_app W"
  have "odf_result (func (no_RPDOpar ?app (wd_mem W) i) (no_RPDO ?app ! i) (wd_bus W)) a (wd_bus W) (\<lambda>R. length (rp_mapPointer R) = 8)"
    using assms(2,3) by (intro assms(4)) (auto simp: node_inv_def list_all_length)
  then obtain code bs R' b where "func (no_RPDOpar ?app (wd_mem W) i) (no_RPDO ?app ! i) (wd_bus W) = Some (code, a\<lparr>arg_data := bs\<rparr>, R', b)"
    "length bs = length (arg_data a)" "bus_same_tx (wd_bus W) b" "length (rp_mapPointer R') = 8" by (auto simp: odf_result_def)
  then show ?thesis using assms(1-3) by (auto simp: rpdo_odf_def Let_def nth_opt_def data_same_def intro!: node_resultI node_inv_RPDO)
qed

lemma tpdo_odf_returns:
  assumes "world_ok txb n W" "node_inv dict (can_txSize (bus_can (wd_bus W))) (wd_app W)" "i < length (no_TPDO (wd_app W))"
    and "\<And>par T. length (mp_mappedObjects (snd par)) = 8 \<Longrightarrow> tpdo_ready (can_txSize (bus_can (wd_bus W))) T \<Longrightarrow>
      odf_result (func par T (wd_bus W)) a (wd_bus W) (tpdo_ready (can_txSize (bus_can (wd_bus W))))"
  shows "node_result (tpdo_odf func i W) dict txb n a W"
proof -
  let ?app = "wd_app W" let ?ok = "tpdo_ready (can_txSize (bus_can (wd_bus W)))"
  have "odf_result (func (no_TPDOpar ?app (wd_mem W) i) (no_TPDO ?app ! i) (wd_bus W)) a (wd_bus W) ?ok"
    using assms(2,3) by (intro assms(4)) (auto simp: node_inv_def list_all_length)
  then obtain code bs T' b where "func (no_TPDOpar ?app (wd_mem W) i) (no_TPDO ?app ! i) (wd_bus W) = Some (code, a\<lparr>arg_data := bs\<rparr>, T', b)"
    "length bs = length (arg_data a)" "bus_same_tx (wd_bus W) b" "?ok T'" by (auto simp: odf_result_def)
  then show ?thesis using assms(1-3) by (auto simp: tpdo_odf_def Let_def nth_opt_def data_same_def intro!: node_resultI node_inv_TPDO)
qed

lemma node_odf_pdo:
  assumes "dict_ok n dict" "world_ok txb n W" "node_inv dict (can_txSize (bus_can (wd_bus W))) (wd_app W)" "length (arg_data a) = 889"
    and "func_registered (wd_app W) (arg_index a) f" "f \<in> {ODF_RPDOcom, ODF_RPDOmap, ODF_TPDOcom, ODF_TPDOmap}"
  shows "node_result (node_odf env dict f a W) dict txb n a W"
proof -
  have "bus_dev_inv (wd_bus W)" "od_inv dict" using assms(1,2) by (auto simp: world_ok_def dict_ok_def)
  then show ?thesis using assms(4-6)
    by (auto simp: node_odf_def Let_def func_registered_def intro!: rpdo_odf_returns [OF assms(2,3)] tpdo_odf_returns [OF assms(2,3)]
        rpdoCom_returns rpdoMap_returns tpdoCom_returns tpdoMap_returns)
qed

lemma node_odf_returns:
  assumes "dict_ok n dict" "world_ok txb n W" "node_inv dict (can_txSize (bus_can (wd_bus W))) (wd_app W)" "length (arg_data a) = 889"
    and "func_registered (wd_app W) (arg_index a) f"
  shows "node_result (node_odf env dict f a W) dict txb n a W"
proof -
  note app = node_resultI_app [OF assms(2)] and bus = node_resultI [OF assms(2)]
  have dev: "bus_dev_inv (wd_bus W)" using assms(2) by (simp add: world_ok_def)
  have user: "data_same a (a\<lparr>arg_data := bs\<rparr>)" if "no_user (wd_app W) f a u = (code, bs, u')" for f u code bs u'
    using assms(3) that by (auto simp: node_inv_def user_in_buffer_def data_same_def) (metis fst_conv snd_conv)
  show ?thesis
  proof (cases f)
    case ODF_1003
    have "data_same a a'" if "CO_ODF_1003 (no_emPr (wd_app W)) a = (code, p, a')" for code p a'
      using that by (auto simp: CO_ODF_1003_def Let_def split: if_splits)
    then show ?thesis using ODF_1003 assms(3) by (auto simp: node_odf_def Let_def intro!: app split: prod.splits)
  next
    case ODF_1014
    have "data_same a (snd (CO_ODF_1014 (no_nodeId (wd_app W)) a))" using assms(4)
      by (simp add: CO_ODF_1014_def Let_def setUint32_length)
    then show ?thesis using ODF_1014 assms(3) app [of a _ dict "wd_app W"]
      by (auto simp: node_odf_def Let_def split: prod.splits)
  next
    case ODF_1200
    have "data_same a (snd (CO_ODF_1200 (no_nodeId (wd_app W)) a))" using assms(4)
      by (simp add: CO_ODF_1200_def Let_def setUint32_length)
    then show ?thesis using ODF_1200 assms(3) app [of a _ dict "wd_app W"]
      by (auto simp: node_odf_def Let_def split: prod.splits)
  next
    case ODF_1005
    then show ?thesis using assms(3) odf_1005_same [OF dev] by (auto simp: node_odf_def Let_def intro!: bus split: prod.splits)
  next
    case ODF_1006
    then show ?thesis using assms(3) by (auto simp: node_odf_def Let_def intro!: app split: prod.splits)
  next
    case ODF_1019
    then show ?thesis using assms(3) odf_1019_same [OF dev] by (auto simp: node_odf_def Let_def intro!: bus split: prod.splits)
  next
    case ODF_1016
    then show ?thesis using assms(3) odf_1016_same [OF dev] by (auto simp: node_odf_def Let_def intro!: bus split: prod.splits)
  next
    case ODF_1010
    then show ?thesis using assms(3) user by (auto simp: node_odf_def Let_def intro!: app split: prod.splits)
  next
    case ODF_1011
    then show ?thesis using assms(3) user by (auto simp: node_odf_def Let_def intro!: app split: prod.splits)
  next
    case (ODF_user x)
    then show ?thesis using assms(3) user by (auto simp: node_odf_def Let_def intro!: app split: prod.splits)
  qed (use node_odf_pdo [OF assms] in simp_all)
qed

interpretation node: od_functions "node_odf env dict" "node_inv dict" txb dict for env dict txb
proof unfold_locales
  fix n k f and a :: CO_ODF_arg_t and W :: "'a node_objs od_world"
  assume "dict_ok n dict" "world_ok txb n W" "node_inv dict (can_txSize (bus_can (wd_bus W))) (wd_app W)" "length (arg_data a) = 889"
    and k: "k < length (sdo_OD dict)" "arg_index a = od_index (sdo_OD dict ! k)" "ext_pODFunc (sdo_ODExtensions dict ! k) = Some f"
  from node_odf_returns [OF this(1-4), of f env] k this(3)
  show "\<exists>code bs W'. node_odf env dict f a W = Some (code, a\<lparr>arg_data := bs\<rparr>, W') \<and> length bs = length (arg_data a) \<and>
      world_ok txb n W' \<and> wd_mem W' = wd_mem W \<and> node_inv dict (can_txSize (bus_can (wd_bus W'))) (wd_app W')"
    by (simp add: node_result_def node_inv_def)
qed

definition example_node :: "unit node_objs" where
  "example_node = \<lparr>no_emPr = example_emPr, no_SYNC = example_sync, no_HBcons = example_hbc, no_nodeId = 5,
     no_operatingState = CO_NMT_PRE_OPERATIONAL, no_RPDO = [], no_TPDO = [example_tpdo\<lparr>tp_CANtxBuff := Some 1, tp_CANdevTxIdx := 1\<rparr>],
     no_RPDOpar = (\<lambda>mem i. (\<lparr>rc_COB_IDUsedByRPDO = 0, rc_transmissionType = 0\<rparr>, example_pdo_map)),
     no_TPDOpar = (\<lambda>mem i. (\<lparr>tc_COB_IDUsedByTPDO = word_of_nat (le_value (take 4 mem)), tc_transmissionType = 0, tc_inhibitTime = 0,
       tc_eventTimer = 0, tc_SYNCStartValue = 0\<rparr>, example_pdo_map)),
     no_app = (), no_user = (\<lambda>f arg u. (CO_SDO_AB_NONE, arg_data arg, u))\<rparr>"

definition example_node_dict :: CO_SDO_OD where
  \<comment> \<open>the communication cycle period and the parameters of a transmit PDO (reduced to a COB-ID) with their access functions\<close>
  "example_node_dict =
     \<lparr>sdo_OD = [example_var 0x1006 14 4 4,
                \<lparr>od_index = 0x1800, od_maxSubIndex = 1, od_attribute = 0, od_length = 0,
                 od_pData = PRecord [\<lparr>mem_pData = Some 8, mem_attribute = 4, mem_length = 1\<rparr>, \<lparr>mem_pData = Some 0, mem_attribute = 12, mem_length = 4\<rparr>]\<rparr>],
      sdo_ODSize = 2, sdo_ODExtensions = [no_ext\<lparr>ext_pODFunc := Some ODF_1006\<rparr>, no_ext\<lparr>ext_pODFunc := Some ODF_TPDOcom\<rparr>]\<rparr>"

definition example_world :: "unit node_objs od_world" where
  "example_world = \<lparr>wd_mem = replicate 18 7, wd_bus = example_bus, wd_app = example_node\<rparr>"

definition example_msg :: "u8 list \<Rightarrow> CO_CANrxMsg_t" where
  "example_msg data = \<lparr>rxm_ident = 0x605, rxm_DLC = 8, rxm_data = data\<rparr>"

lemma example_node_ok:
  "world_ok 0 18 example_world" "sdo_inv 0 18 (example_sdo\<lparr>sdo_dict := example_node_dict\<rparr>)"
  "node_inv example_node_dict (can_txSize (bus_can (wd_bus example_world))) (wd_app example_world)"
proof -
  show "world_ok 0 18 example_world" using example_bus_inv
    by (simp add: world_ok_def example_world_def bus_buf_def example_bus_def example_tx_def)
  show "sdo_inv 0 18 (example_sdo\<lparr>sdo_dict := example_node_dict\<rparr>)" using example_sdo_inv
    by (simp add: sdo_inv_def core_ok_def queue_ok_def example_sdo_def dict_ok_def od_inv_def example_node_dict_def example_var_def
        od_entry_ok_def entry_in_def)
  show "node_inv example_node_dict (can_txSize (bus_can (wd_bus example_world))) (wd_app example_world)"
    by (simp add: node_inv_def user_in_buffer_def example_world_def example_node_def example_tpdo_def tpdo_ready_def example_bus_def
        example_pdo_map_def example_node_dict_def func_registered_def example_var_def no_ext_def less_Suc_eq All_less_Suc
        split: od_func.splits)
qed

text \<open>
  C1: the SDO server is type safe and respects access rights: on a dictionary without domain objects (\<^verbatim>\<open>SDO_Domain\<close> shows why), with the
  access functions of the emergency, SYNC, heartbeat and PDO objects registered, from a well-formed state, whatever messages
  arrive and however \<^verbatim>\<open>CO_SDO_process\<close> is called between them, no call reads or writes outside the buffer or the variables or
  through \<^verbatim>\<open>NULL\<close> (both functions are defined in every state that is reached, and so are the access functions they call), the
  state stays well formed, and no byte changes that is not part of an object with the attribute \<^verbatim>\<open>CO_ODA_WRITEABLE\<close>. Functions
  of the application stay within the buffer, and the transmit PDOs have got their transmit buffers (\<^verbatim>\<open>node_inv\<close>).
\<close>

theorem sdo_runs_safe:
  assumes "(sdo_step (node_odf env (sdo_dict S)) env)\<^sup>*\<^sup>* (S, W) (S', W')" "sdo_inv txb n S" "world_ok txb n W"
    and "node_inv (sdo_dict S) (can_txSize (bus_can (wd_bus W))) (wd_app W)"
  shows "sdo_inv txb n S' \<and> (\<forall>i < n. \<not> byte_writable (sdo_dict S) i \<longrightarrow> wd_mem W' ! i = wd_mem W ! i) \<and>
    node_inv (sdo_dict S) (can_txSize (bus_can (wd_bus W'))) (wd_app W') \<and>
    (\<forall>msg. length (rxm_data msg) = 8 \<longrightarrow> CO_SDO_receive S' msg \<noteq> None) \<and>
    (\<forall>nmt dt tn. CO_SDO_process (node_odf env (sdo_dict S)) env S' W' nmt dt tn \<noteq> None)"
  using node.run_safe [OF assms(1-3) refl assms(4)] by blast

theorem sdo_runs_safe_witness:
  "\<exists>S'. CO_SDO_receive (example_sdo\<lparr>sdo_dict := example_node_dict\<rparr>) (example_msg [0x23, 0x00, 0x18, 0x01, 1, 0, 0, 0]) = Some S' \<and>
     (\<forall>nmt dt tn. CO_SDO_process (node_odf (example_env 0) example_node_dict) (example_env 0) S' example_world nmt dt tn \<noteq> None)"
proof -
  let ?S = "example_sdo\<lparr>sdo_dict := example_node_dict\<rparr>"
  let ?m = "example_msg [0x23, 0x00, 0x18, 0x01, 1, 0, 0, 0]"
  obtain S' where r: "CO_SDO_receive ?S ?m = Some S'"
    by (simp add: CO_SDO_receive_def example_sdo_def example_msg_def Let_def)
  have d: "sdo_dict ?S = example_node_dict" by simp
  have "(sdo_step (node_odf (example_env 0) (sdo_dict ?S)) (example_env 0))\<^sup>*\<^sup>* (?S, example_world) (S', example_world)"
    using r by (intro r_into_rtranclp sdo_step.receive [of _ ?m]) (simp_all add: example_msg_def)
  from sdo_runs_safe [OF this example_node_ok(2,1)] example_node_ok(3) r d show ?thesis by simp
qed

end
