(* ===== verification/SDO_Block.thy ===== *)
theory SDO_Block
  imports SDO_Transfer
begin

section \<open>Block download\<close>

text \<open>
  A client downloads an object in block mode: the segments of the block arrive one after the other without a reply, the
  server acknowledges the whole block, and the client ends the transfer with the number of unused bytes and a CRC.
\<close>

subsection \<open>The client\<close>

function block_segments :: "nat \<Rightarrow> u8 list \<Rightarrow> u8 list list" where
  \<comment> \<open>the segments after the first \<^verbatim>\<open>k\<close>\<close>
  "block_segments k bs =
     (if length bs \<le> 7 then [(word_of_nat (Suc k) OR 0x80) # bs @ replicate (7 - length bs) 0]
      else (word_of_nat (Suc k) # take 7 bs) # block_segments (Suc k) (drop 7 bs))"
  by pat_completeness auto
termination by (relation "measure (length \<circ> snd)") auto

declare block_segments.simps [simp del]

fun sdo_receive_all :: "u8 list list \<Rightarrow> CO_SDO_t \<Rightarrow> CO_SDO_t option" where
  "sdo_receive_all [] S = Some S"
| "sdo_receive_all (m # ms) S = Option.bind (CO_SDO_receive S (client_msg m)) (sdo_receive_all ms)"

definition block_open :: "bool \<Rightarrow> u16 \<Rightarrow> u8 \<Rightarrow> nat \<Rightarrow> u8 list" where
  "block_open c index sub len = (0xC2 OR (if c then 0x04 else 0)) # mux index sub @ le_bytes 4 len"

definition block_end :: "nat \<Rightarrow> u16 \<Rightarrow> u8 list" where
  "block_end unused crc = (0xC1 OR push_bit 2 (word_of_nat unused)) # le_bytes 2 (unat crc) @ replicate 5 0"

definition block_unused :: "nat \<Rightarrow> nat" where
  "block_unused len = (7 - len mod 7) mod 7"

definition block_download ::
    "'w odf_call \<Rightarrow> can_env \<Rightarrow> u32 \<Rightarrow> bool \<Rightarrow> u16 \<Rightarrow> u8 \<Rightarrow> u8 list \<Rightarrow> u16 \<Rightarrow> CO_SDO_t \<times> 'w od_world \<Rightarrow> (CO_SDO_t \<times> 'w od_world) option" where
  \<comment> \<open>the whole session: \<^verbatim>\<open>c\<close> says whether the client uses the CRC, \<^verbatim>\<open>crc\<close> is the value it sends\<close>
  "block_download odf env dt c index sub bs crc s = do {
     (S1, W1) \<leftarrow> sdo_exchange odf env dt (block_open c index sub (length bs)) s;
     S2 \<leftarrow> sdo_receive_all (block_segments 0 bs) S1;
     (ret, S3, W3, tn) \<leftarrow> CO_SDO_process odf env S2 W1 True dt None;
     sdo_exchange odf env dt (block_end (block_unused (length bs)) crc) (S3, W3)
   }"

lemma seqno_bits:
  assumes "k < 128"
  shows "unat (word_of_nat k :: u8) = k" "(word_of_nat k :: u8) AND 0x7F = word_of_nat k" "(word_of_nat k :: u8) AND 0x80 = 0"
    "(word_of_nat k OR 0x80 :: u8) AND 0x7F = word_of_nat k" "(word_of_nat k OR 0x80 :: u8) AND 0x80 = 0x80"
proof -
  show "unat (word_of_nat k :: u8) = k" using assms by (simp add: unat_of_nat)
  have "take_bit 7 k = k" using assms by (simp add: take_bit_nat_eq_self)
  then have t: "take_bit 7 (word_of_nat k :: u8) = word_of_nat k" by (metis of_nat_take_bit)
  moreover have "(0x7F :: u8) = mask 7" by (simp add: mask_eq_decr_exp)
  ultimately show a: "(word_of_nat k :: u8) AND 0x7F = word_of_nat k" by (metis take_bit_eq_mask)
  have "(word_of_nat k :: u8) AND 0x80 = (word_of_nat k AND 0x7F) AND 0x80" using a by simp
  also have "\<dots> = 0" by (simp add: and.assoc)
  finally show b: "(word_of_nat k :: u8) AND 0x80 = 0" .
  show "(word_of_nat k OR 0x80 :: u8) AND 0x7F = word_of_nat k" using a by (simp add: bit.conj_disj_distrib2)
  show "(word_of_nat k OR 0x80 :: u8) AND 0x80 = 0x80" using b by (simp add: bit.conj_disj_distrib2)
qed

lemma block_end_bits:
  assumes "u \<le> 6"
  shows "block_end u crc ! 0 AND 0xE1 = 0xC1" "drop_bit 2 (block_end u crc ! 0) AND 0x07 = word_of_nat u" "block_end u crc ! 0 \<noteq> 0x80"
proof -
  have "u = 0 \<or> u = 1 \<or> u = 2 \<or> u = 3 \<or> u = 4 \<or> u = 5 \<or> u = 6" using assms by auto
  then show "block_end u crc ! 0 AND 0xE1 = 0xC1" "drop_bit 2 (block_end u crc ! 0) AND 0x07 = word_of_nat u" "block_end u crc ! 0 \<noteq> 0x80"
    by (auto simp: block_end_def)
qed

lemma block_end_crc: "word_of_nat (le_value (take 2 (drop 1 (block_end u crc)))) = crc" "length (block_end u crc) = 8"
proof -
  have "unat crc < 256 ^ 2" using unat_u16_less [of crc] by simp
  then show "word_of_nat (le_value (take 2 (drop 1 (block_end u crc)))) = crc"
    using le_value_le_bytes [of "unat crc" 2] by (simp add: block_end_def del: le_bytes.simps)
qed (simp add: block_end_def)

subsection \<open>The segments arrive\<close>

definition block_ok ::
    "u16 \<Rightarrow> u8 \<Rightarrow> nat \<Rightarrow> u16 \<Rightarrow> u16 \<Rightarrow> nat \<Rightarrow> nat \<Rightarrow> CO_SDO_OD \<Rightarrow> bool \<Rightarrow> nat \<Rightarrow> u8 list \<Rightarrow> CO_SDO_t \<Rightarrow> bool" where
  \<comment> \<open>\<^verbatim>\<open>k\<close> segments with the bytes \<^verbatim>\<open>acc\<close> have arrived\<close>
  "block_ok index sub a len attr txb n dict c k acc S \<longleftrightarrow> core_ok txb n S \<and> sdo_SDOtimeoutTime_us S \<noteq> 0 \<and> sdo_dict S = dict \<and>
     opened index sub a len attr S \<and> unat (sdo_bufferOffset S) = length acc \<and> take (length acc) (sdo_data S) = acc \<and> length acc = 7 * k \<and>
     unat (sdo_sequence S) = k \<and> sdo_blksize S = 127 \<and> sdo_crcEnabled S = c \<and> sdo_crc S = 0"

lemma queue_two:
  assumes "queue_ok S"
  obtains x y where "sdo_CANrxData S = [x, y]" "length x = 8" "length y = 8" "sdo_CANrxProc S = 0 \<or> sdo_CANrxProc S = 1"
proof -
  have "length (sdo_CANrxData S) = 2" "list_all (\<lambda>m. length m = 8) (sdo_CANrxData S)" "sdo_CANrxProc S < 2"
    using assms by (auto simp: queue_ok_def)
  then have "\<exists>x y. sdo_CANrxData S = [x, y] \<and> length x = 8 \<and> length y = 8" by (auto simp: numeral_2_eq_2 length_Suc_conv)
  then show ?thesis using that u8_less_2 [of "sdo_CANrxProc S"] \<open>sdo_CANrxProc S < 2\<close> by blast
qed

lemma segment_received:
  assumes b: "block_ok index sub a len attr txb n dict c k acc S" "quiet_queue S" "sdo_state S = CO_SDO_ST_DOWNLOAD_BL_SUBBLOCK"
    and m: "m = x # bs" "length bs = 7" "x AND 0x7F = word_of_nat (Suc k)" "Suc k \<le> 127" "x AND 0x80 = (if fin then 0x80 else 0)"
      "fin \<or> Suc k < 127"
  shows "\<exists>S'. CO_SDO_receive S (client_msg m) = Some S' \<and> block_ok index sub a len attr txb n dict c (Suc k) (acc @ bs) S' \<and>
    \<not> sdo_timeoutSubblockDownolad S' \<and>
    (if fin then sdo_state S' = CO_SDO_ST_DOWNLOAD_BL_SUB_RESP \<and> (\<exists>rx. flagged (x # rx) S')
     else sdo_state S' = CO_SDO_ST_DOWNLOAD_BL_SUBBLOCK \<and> quiet_queue S')"
proof -
  have q: "queue_ok S" "sdo_CANrxNew S = [False, False]" "sdo_CANrxRcv S = sdo_CANrxProc S" using b(2) by (auto simp: quiet_queue_def)
  obtain u v where uv: "sdo_CANrxData S = [u, v]" "length u = 8" "length v = 8" "sdo_CANrxProc S = 0 \<or> sdo_CANrxProc S = 1"
    by (rule queue_two [OF q(1)])
  have o: "opened index sub a len attr S" "unat (sdo_bufferOffset S) = length acc" "take (length acc) (sdo_data S) = acc" "length acc = 7 * k"
    "unat (sdo_sequence S) = k" "sdo_blksize S = 127" using b(1) by (auto simp: block_ok_def)
  define S1 where "S1 = S\<lparr>sdo_CANrxData := (sdo_CANrxData S)[unat (sdo_CANrxProc S) := (sdo_CANrxData S ! unat (sdo_CANrxProc S))[0 := x]],
    sdo_timeoutTimer := 0, sdo_timeoutSubblockDownolad := False, sdo_sequence := sdo_sequence S + 1\<rparr>"
  have o1: "opened index sub a len attr S1" using o(1) by (auto simp: S1_def opened_def sdo_func_def split: if_splits)
  have le: "length acc + length bs \<le> 889" using o(4) m(2,4) by simp
  obtain A where A: "sdo_append bs S1 = Some (S1\<lparr>sdo_bufferOffset := word_of_nat (length acc + length bs), sdo_ODF_arg := A\<rparr>)"
    "opened index sub a len attr (S1\<lparr>sdo_ODF_arg := A\<rparr>)" "take (length acc + length bs) (arg_data A) = acc @ bs"
    by (rule append_opened [OF o1 _ _ le]) (use o in \<open>auto simp: S1_def\<close>)
  have seq: "sdo_sequence S = word_of_nat k" using o(5) by (metis of_nat_unat ucast_id)
  have seq1: "sdo_sequence S + 1 = word_of_nat (Suc k)" by (simp add: seq)
  have sq: "unat (word_of_nat (Suc k) :: u8) = Suc k" using m(4) by (intro seqno_bits) simp
  have stop: "127 \<le> (word_of_nat (Suc k) :: u8) \<longleftrightarrow> Suc k = 127" using sq m(4) by (simp add: word_le_nat_alt del: of_nat_Suc)
  define S2 where "S2 = S1\<lparr>sdo_bufferOffset := word_of_nat (length acc + length bs), sdo_ODF_arg := A\<rparr>"
  have app: "sdo_append bs S1 = Some S2" using A(1) by (simp only: S2_def)
  have f2: "sdo_blksize S2 = 127" "sdo_sequence S2 = word_of_nat (Suc k)" using o(6) seq1 by (simp_all add: S2_def S1_def del: of_nat_Suc)
  have cond: "m ! 0 = x" "take 7 (drop 1 m) = bs" "unat (x AND 0x7F) = unat (sdo_sequence S) + 1" "unat (sdo_bufferOffset S) + 7 \<le> 889"
    using m(1-4) o(2,4,5) sq by (simp_all del: of_nat_Suc)
  have rs: "sdo_receive_segment m S =
    Some (if fin then CO_SDO_receive_done (S2\<lparr>sdo_state := CO_SDO_ST_DOWNLOAD_BL_SUB_RESP\<rparr>) else S2)"
    unfolding sdo_receive_segment_def Let_def q(3) cond(1,2) S1_def [symmetric] app
    using cond(3,4) f2 stop m(5,6) by (auto simp del: of_nat_Suc)
  have s2: "sdo_state S2 = CO_SDO_ST_DOWNLOAD_BL_SUBBLOCK" "\<not> sdo_timeoutSubblockDownolad S2" "sdo_CANrxNew S2 = [False, False]"
    "sdo_CANrxRcv S2 = sdo_CANrxProc S" "sdo_CANrxProc S2 = sdo_CANrxProc S"
    "sdo_CANrxData S2 = (sdo_CANrxData S)[unat (sdo_CANrxProc S) := (sdo_CANrxData S ! unat (sdo_CANrxProc S))[0 := x]]"
    using b(3) q by (simp_all add: S2_def S1_def)
  have bk: "block_ok index sub a len attr txb n dict c (Suc k) (acc @ bs) S2"
    using b(1) A(2,3) m(2) o(4) sq seq1 unat_u16_of_nat [OF le] uv
    by (auto simp: block_ok_def S2_def S1_def core_ok_def queue_ok_def opened_def sdo_func_def simp del: of_nat_Suc split: if_splits)
  have qk: "queue_ok S2" using bk by (simp add: block_ok_def core_ok_def)
  show ?thesis
  proof (cases fin)
    case False
    have "CO_SDO_receive S (client_msg m) = Some S2"
      using b(3) q uv(4) rs s2(3) False m(1,2) by (auto simp: CO_SDO_receive_def client_msg_def Let_def)
    moreover have "quiet_queue S2" using qk s2(3-5) by (simp add: quiet_queue_def)
    ultimately show ?thesis using False bk s2(1,2) by simp
  next
    case True
    let ?S3 = "CO_SDO_receive_done (S2\<lparr>sdo_state := CO_SDO_ST_DOWNLOAD_BL_SUB_RESP\<rparr>)"
    let ?c = "sdo_CANrxNew ?S3 ! unat (sdo_CANrxProc S) \<and> sdo_pFunctSignalPre ?S3"
    define g where "g = (if ?c then sdo_signals ?S3 + 1 else sdo_signals ?S3)"
    have "\<not> sdo_CANrxNew S ! unat (sdo_CANrxRcv S)" using q uv(4) by auto
    then have r: "CO_SDO_receive S (client_msg m) = Some (?S3\<lparr>sdo_signals := g\<rparr>)"
      using b(3) rs True m(1,2) q(3) unfolding g_def by (cases ?c) (simp_all add: CO_SDO_receive_def client_msg_def Let_def)
    obtain rx where "(sdo_CANrxData S ! unat (sdo_CANrxProc S))[0 := x] = x # rx"
      using uv by (cases "sdo_CANrxData S ! unat (sdo_CANrxProc S)") auto
    then have "flagged (x # rx) (?S3\<lparr>sdo_signals := g\<rparr>)" using qk s2(3-6) uv
      by (auto simp: flagged_def queue_ok_def CO_SDO_receive_done_def CO_SDO_RX_DATA_SIZE_def Let_def word_le_nat_alt)
    moreover have "block_ok index sub a len attr txb n dict c (Suc k) (acc @ bs) (?S3\<lparr>sdo_signals := g\<rparr>)"
      using bk calculation by (auto simp: block_ok_def core_ok_def flagged_def opened_def sdo_func_def CO_SDO_receive_done_def Let_def)
    ultimately show ?thesis using True r s2(2) by (auto simp: CO_SDO_receive_done_def Let_def)
  qed
qed


lemma block_unused_rest: "1 \<le> r \<Longrightarrow> r \<le> 7 \<Longrightarrow> block_unused (7 * k + r) = 7 - r"
proof -
  assume r: "1 \<le> r" "r \<le> 7"
  have "(7 * k + r) mod 7 = r mod 7" by simp
  then show ?thesis using r by (cases "r = 7") (auto simp: block_unused_def)
qed

lemma segments_received:
  assumes "block_ok index sub a len attr txb n dict c k acc S" "quiet_queue S" "sdo_state S = CO_SDO_ST_DOWNLOAD_BL_SUBBLOCK"
    and "length acc + length bs = unat len" "bs \<noteq> []"
  shows "\<exists>S' K x rx. sdo_receive_all (block_segments k bs) S = Some S' \<and>
    block_ok index sub a len attr txb n dict c K (acc @ bs @ replicate (block_unused (unat len)) 0) S' \<and>
    sdo_state S' = CO_SDO_ST_DOWNLOAD_BL_SUB_RESP \<and> \<not> sdo_timeoutSubblockDownolad S' \<and> flagged (x # rx) S' \<and> x AND 0x80 = 0x80 \<and> x \<noteq> 0x80"
  using assms
proof (induction k bs arbitrary: acc S rule: block_segments.induct)
  case (1 k bs)
  have b: "length acc = 7 * k" "unat len \<le> 889" using 1(2) by (auto simp: block_ok_def opened_def)
  have "0 < length bs" using 1(6) by simp
  then have k: "Suc k \<le> 127" using b 1(5) by linarith
  then have sq: "(word_of_nat (Suc k) :: u8) AND 0x7F = word_of_nat (Suc k)" "(word_of_nat (Suc k) :: u8) AND 0x80 = 0"
    "(word_of_nat (Suc k) OR 0x80 :: u8) AND 0x7F = word_of_nat (Suc k)" "(word_of_nat (Suc k) OR 0x80 :: u8) AND 0x80 = 0x80"
    "unat (word_of_nat (Suc k) :: u8) = Suc k"
    using seqno_bits [of "Suc k"] by auto
  show ?case
  proof (cases "length bs \<le> 7")
    case True
    let ?x = "word_of_nat (Suc k) OR 0x80 :: u8" let ?bs = "bs @ replicate (7 - length bs) 0"
    have seg: "block_segments k bs = [?x # ?bs]" using True by (subst block_segments.simps) simp
    have "length ?bs = 7" using True by simp
    from segment_received [OF 1(2-4) refl this sq(3) k, of True] sq(4) obtain S' rx where
      r: "CO_SDO_receive S (client_msg (?x # ?bs)) = Some S'" "block_ok index sub a len attr txb n dict c (Suc k) (acc @ ?bs) S'"
        "\<not> sdo_timeoutSubblockDownolad S'" "sdo_state S' = CO_SDO_ST_DOWNLOAD_BL_SUB_RESP" "flagged (?x # rx) S'" by auto
    have u: "7 - length bs = block_unused (unat len)" using block_unused_rest [of "length bs" k] True b(1) 1(5) \<open>0 < length bs\<close> by simp
    have "?x \<noteq> 0x80"
    proof
      assume "?x = 0x80"
      then have "(0x80 :: u8) AND 0x7F = word_of_nat (Suc k)" using sq(3) by simp
      then show False using sq(5) by (simp del: of_nat_Suc)
    qed
    then show ?thesis unfolding seg using r sq(4) u by auto
  next
    case False
    then have seg: "block_segments k bs = (word_of_nat (Suc k) # take 7 bs) # block_segments (Suc k) (drop 7 bs)"
      by (subst block_segments.simps) simp
    have len: "length (take 7 bs) = 7" "Suc k < 127" using False b 1(5) by auto
    from segment_received [OF 1(2-4) refl len(1) sq(1) k, of False] sq(2) len(2) obtain S' where
      r: "CO_SDO_receive S (client_msg (word_of_nat (Suc k) # take 7 bs)) = Some S'"
        "block_ok index sub a len attr txb n dict c (Suc k) (acc @ take 7 bs) S'"
        "sdo_state S' = CO_SDO_ST_DOWNLOAD_BL_SUBBLOCK" "quiet_queue S'" by auto
    have "length (acc @ take 7 bs) + length (drop 7 bs) = unat len" "drop 7 bs \<noteq> []" using 1(5) False by auto
    from 1(1) [OF False r(2,4,3) this] show ?thesis unfolding seg
      using r(1) append_take_drop_id [of 7 bs] by (simp del: append_take_drop_id of_nat_Suc) (metis append.assoc)
  qed
qed


subsection \<open>The server answers\<close>

lemma same_transfer_refl [simp]: "same_transfer S S"
  by (simp add: same_transfer_def)

lemma flagged_skip:
  assumes "flagged m S"
  shows "sdo_skip S = CO_SDO_process_done S"
proof -
  have q: "queue_ok S" "sdo_CANrxProc S = 0 \<or> sdo_CANrxProc S = 1" "sdo_CANrxNew S = [False, False][unat (sdo_CANrxProc S) := True]"
    using assms u8_less_2 [of "sdo_CANrxProc S"] by (auto simp: flagged_def queue_ok_def)
  have "quiet_queue (CO_SDO_process_done S)" by (rule flagged_done [OF assms])
  then have "\<not> (unat (sdo_CANrxProc (CO_SDO_process_done S)) < length (sdo_CANrxNew (CO_SDO_process_done S)) \<and>
    sdo_CANrxNew (CO_SDO_process_done S) ! unat (sdo_CANrxProc (CO_SDO_process_done S)))"
    by (auto simp: quiet_queue_def nth_Cons split: nat.splits)
  then have "sdo_skip (CO_SDO_process_done S) = CO_SDO_process_done S" by (subst sdo_skip.simps) auto
  moreover have "unat (sdo_CANrxProc S) < length (sdo_CANrxNew S) \<and> sdo_CANrxNew S ! unat (sdo_CANrxProc S)" using q by auto
  ultimately show ?thesis by (subst sdo_skip.simps) simp
qed

lemma done_fields_block [simp]:
  "sdo_crcEnabled (CO_SDO_process_done S) = sdo_crcEnabled S" "sdo_crc (CO_SDO_process_done S) = sdo_crc S"
  "sdo_timeoutSubblockDownolad (CO_SDO_process_done S) = sdo_timeoutSubblockDownolad S"
  by (simp_all add: CO_SDO_process_done_def Let_def)

lemma block_opens:
  assumes S: "finished txb n dict S" "plain_object dict index sub a len attr" "attr AND CO_ODA_WRITEABLE \<noteq> 0"
    and W: "link_ok txb n W" "accepting env"
  obtains S' W' where "sdo_exchange odf env dt (block_open c index sub (unat len)) (S, W) = Some (S', W')"
    "block_ok index sub a len attr txb n dict c 0 [] S'" "quiet_queue S'" "sdo_state S' = CO_SDO_ST_DOWNLOAD_BL_SUBBLOCK"
    "link_ok txb n W'" "replied txb W [0xA4 # mux index sub @ [127, 0, 0, 0]] W'" "wd_mem W' = wd_mem W"
proof -
  define x where "x = (0xC2 OR (if c then 0x04 else 0) :: u8)"
  have x: "drop_bit 5 x = 6" "x AND 0xE1 = 0xC0" "x AND 0x04 \<noteq> 0 \<longleftrightarrow> c" "x AND 0x02 \<noteq> 0" by (auto simp: x_def)
  let ?m = "x # mux index sub @ le_bytes 4 (unat len)" let ?W = "sdo_tx txb 0 (replicate 8 0) W"
  have f: "idle_ok txb n S" "sdo_dict S = dict" "sdo_state S = CO_SDO_ST_IDLE" using S(1) by (auto simp: finished_def)
  obtain S1 where S1: "CO_SDO_receive S (client_msg ?m) = Some S1" "flagged ?m S1" "same_transfer S S1"
    using receive_quiet [of S ?m] f by (auto simp: idle_ok_def)
  obtain A S2 where S2: "S2 = S1\<lparr>sdo_timeoutTimer := 0, sdo_ODF_arg := A, sdo_entryNo := CO_OD_find dict index\<rparr>" "opened index sub a len attr S2"
    and p: "CO_SDO_process odf env S1 W True dt None = map_option (sdo_finish env txb None) (sdo_switch odf txb ?m True CO_SDO_ST_DOWNLOAD_BL_INITIATE S2 ?W)"
    by (rule request_download [OF S(1,2) S1(2,3) refl, of CO_SDO_ST_DOWNLOAD_BL_INITIATE, OF _ S(3) W(1)]) (use x(1) in auto)
  have rx: "CO_getUint32 (drop 4 ?m) = ucast len" by (simp add: getUint32_le_bytes mux_def del: le_bytes.simps)
  have blk: "sdo_blocks CO_CONFIG_SDO_BUFFER_SIZE = 127" by (simp add: sdo_blocks_def CO_CONFIG_SDO_BUFFER_SIZE_def)
  let ?S = "S2\<lparr>sdo_blksize := 127, sdo_crcEnabled := c, sdo_crc := 0, sdo_ODF_arg := (sdo_ODF_arg S2)\<lparr>arg_dataLengthTotal := ucast len\<rparr>,
    sdo_bufferOffset := 0, sdo_sequence := 0, sdo_timeoutSubblockDownolad := False, sdo_state := CO_SDO_ST_DOWNLOAD_BL_SUBBLOCK\<rparr>"
  let ?W1 = "sdo_tx txb 0 (0xA4 # mux index sub @ [127]) ?W"
  have mx: "[mux index sub ! 0, mux index sub ! Suc 0, sub, 127] = mux index sub @ [127]" by (simp add: mux_def)
  have "sdo_switch odf txb ?m True CO_SDO_ST_DOWNLOAD_BL_INITIATE S2 ?W = Some (?S, ?W1, SdoBreak True False)"
    using S2(2) rx x request_index [of x index sub "le_bytes 4 (unat len)"] blk
    by (simp add: sdo_switch_def sdo_download_bl_initiate_def opened_def Let_def sdo_upd_arg_def mx del: le_bytes.simps)
  then have e: "sdo_exchange odf env dt ?m (S, W) = Some (CO_SDO_process_done ?S, sdo_send env txb ?W1)"
    using S1(1) p by (simp add: sdo_exchange_def sdo_finish_def Let_def del: le_bytes.simps)
  have d: "sdo_dict S2 = sdo_dict S1" "sdo_head S2 = sdo_head S1" "sdo_CANtxBuff S2 = sdo_CANtxBuff S1" "sdo_SDOtimeoutTime_us S2 = sdo_SDOtimeoutTime_us S1"
    "flagged ?m S2" using S1(2) by (simp_all add: S2(1))
  have idle: "idle_ok txb n (CO_SDO_process_done ?S)"
    by (rule same_transfer_idle [OF f(1) S1(3), of ?m]) (use d S2(2) in \<open>simp_all add: opened_def del: le_bytes.simps\<close>)
  have "prepared txb n W (0xA4 # mux index sub @ [127, 0, 0, 0]) ?W1"
    using prepared_tx [OF prepared_zero [OF W(1)], of 0 "0xA4 # mux index sub @ [127]"] by (simp add: memcpy_front numeral_3_eq_3)
  then have w: "link_ok txb n (sdo_send env txb ?W1)" "replied txb W [0xA4 # mux index sub @ [127, 0, 0, 0]] (sdo_send env txb ?W1)"
    using prepared_send W(2) by blast+
  have "opened index sub a len attr ?S" using S2(2) by (auto simp: opened_def sdo_func_def split: if_splits)
  then have "block_ok index sub a len attr txb n dict c 0 [] (CO_SDO_process_done ?S)"
    using idle d(1,4) f(1,2) S1(3) by (simp add: block_ok_def same_transfer_def idle_ok_def)
  then show ?thesis using that e w idle by (simp add: block_open_def x_def idle_ok_def)
qed


definition ending_ok :: "u16 \<Rightarrow> u8 \<Rightarrow> nat \<Rightarrow> u16 \<Rightarrow> u16 \<Rightarrow> nat \<Rightarrow> nat \<Rightarrow> CO_SDO_OD \<Rightarrow> bool \<Rightarrow> u8 list \<Rightarrow> CO_SDO_t \<Rightarrow> bool" where
  \<comment> \<open>the block with the bytes \<^verbatim>\<open>acc\<close> is acknowledged\<close>
  "ending_ok index sub a len attr txb n dict c acc S \<longleftrightarrow> idle_ok txb n S \<and> sdo_dict S = dict \<and> opened index sub a len attr S \<and>
     sdo_state S = CO_SDO_ST_DOWNLOAD_BL_END \<and> unat (sdo_bufferOffset S) = length acc \<and> take (length acc) (sdo_data S) = acc \<and>
     length acc \<le> 889 \<and> sdo_crcEnabled S = c \<and> sdo_crc S = 0"

lemma block_acknowledged:
  assumes b: "block_ok index sub a len attr txb n dict c k acc S" "sdo_state S = CO_SDO_ST_DOWNLOAD_BL_SUB_RESP" "\<not> sdo_timeoutSubblockDownolad S"
    and x: "flagged (x # rx) S" "x AND 0x80 = 0x80" "x \<noteq> 0x80" "length acc \<le> 889"
    and W: "link_ok txb n W" "accepting env"
  obtains ret S' W' b where "CO_SDO_process odf env S W True dt None = Some (ret, S', W', None)" "ending_ok index sub a len attr txb n dict c acc S'"
    "link_ok txb n W'" "replied txb W [[0xA2, word_of_nat k, b, 0, 0, 0, 0, 0]] W'" "wd_mem W' = wd_mem W"
proof -
  have o: "core_ok txb n S" "sdo_SDOtimeoutTime_us S \<noteq> 0" "sdo_dict S = dict" "opened index sub a len attr S"
    "unat (sdo_bufferOffset S) = length acc" "take (length acc) (sdo_data S) = acc" "unat (sdo_sequence S) = k" "sdo_crcEnabled S = c" "sdo_crc S = 0"
    using b(1) by (auto simp: block_ok_def)
  have rdy: "bus_ready (wd_bus W) txb" and txb: "sdo_CANtxBuff S = Some txb" using W(1) o(1) by (auto simp: link_ok_def core_ok_def)
  have seq: "sdo_sequence S = word_of_nat k" using o(7) by (metis of_nat_unat ucast_id)
  define blk where "blk = sdo_blocks (CO_CONFIG_SDO_BUFFER_SIZE - sdo_bufferOffset S)"
  let ?W = "sdo_tx txb 0 (replicate 8 0) W" let ?W1 = "sdo_tx txb 2 [blk] (sdo_tx txb 0 [0xA2, word_of_nat k] ?W)"
  let ?S = "S\<lparr>sdo_timeoutTimer := 0, sdo_sequence := 0, sdo_blksize := blk, sdo_state := CO_SDO_ST_DOWNLOAD_BL_END\<rparr>"
  have "sdo_storage S \<noteq> ONull" using o(4) by (simp add: opened_def)
  then have sw: "sdo_switch odf txb (x # rx) True CO_SDO_ST_DOWNLOAD_BL_SUB_RESP (S\<lparr>sdo_timeoutTimer := 0\<rparr>) ?W = Some (?S, ?W1, SdoBreak True False)"
    using b(3) x(2) seq by (simp add: sdo_switch_def sdo_download_bl_sub_resp_def sdo_sub_resp_end_def Let_def blk_def)
  have p: "CO_SDO_process odf env S W True dt None = Some (1, CO_SDO_process_done ?S, sdo_send env txb ?W1, None)"
    using exchange_process [OF txb x(1) same_transfer_refl rdy _ o(2), of odf env dt] b(2) x(3) sw by (simp add: sdo_finish_def Let_def)
  have "flagged (x # rx) ?S" using x(1) by simp
  from flagged_done [OF this] have "idle_ok txb n (CO_SDO_process_done ?S)" using o(1,2) by (simp add: idle_ok_def core_ok_def quiet_queue_def)
  then have e: "ending_ok index sub a len attr txb n dict c acc (CO_SDO_process_done ?S)" using o x(4) by (simp add: ending_ok_def)
  have "memcpy_at (memcpy_at (replicate 8 0) 0 [0xA2, word_of_nat k]) 2 [blk] = [0xA2, word_of_nat k, blk, 0, 0, 0, 0, 0]"
    by (simp add: memcpy_at_def numeral_eq_Suc)
  then have "prepared txb n W [0xA2, word_of_nat k, blk, 0, 0, 0, 0, 0] ?W1"
    using prepared_tx [OF prepared_tx [OF prepared_zero [OF W(1)], of 0 "[0xA2, word_of_nat k]"], of 2 "[blk]"] by simp
  then have "link_ok txb n (sdo_send env txb ?W1)" "replied txb W [[0xA2, word_of_nat k, blk, 0, 0, 0, 0, 0]] (sdo_send env txb ?W1)"
    using prepared_send W(2) by blast+
  then show ?thesis using that [OF p e] by simp
qed

lemma ucast_low_byte: "(ucast ((w :: u16) AND 0xFF) :: u8) = ucast w"
proof -
  have "(ucast (w AND 0xFF) :: u8) = ucast w AND 0xFF" by (simp add: unsigned_and_eq)
  also have "(0xFF :: u8) = -1" by simp
  finally show ?thesis by simp
qed

lemma abort_frame_mux: "sdo_abort_frame A code = 0x80 # mux (arg_index A) (arg_subIndex A) @ le_bytes 4 (unat (abort_code code))"
  by (simp add: sdo_abort_frame_def mux_def ucast_low_byte del: le_bytes.simps)

lemma ucast_u8_small: "k \<le> 6 \<Longrightarrow> (ucast (word_of_nat k :: u8) :: u16) = word_of_nat k"
proof -
  assume "k \<le> 6"
  then have "k = 0 \<or> k = 1 \<or> k = 2 \<or> k = 3 \<or> k = 4 \<or> k = 5 \<or> k = 6" by auto
  then show ?thesis by auto
qed

lemma bl_end_handler:
  assumes "m ! 0 AND 0xE1 = 0xC1" "sdo_bufferOffset S - ucast (drop_bit 2 (m ! 0) AND 0x07) = len"
    "sdo_get_data 0 (unat len) (S\<lparr>sdo_bufferOffset := len\<rparr>) = Some bs" "word_of_nat (le_value (take 2 (drop 1 m))) = crc"
    "sdo_crcEnabled S = c" "sdo_crc S = 0"
  shows "sdo_download_bl_end odf txb m S W =
    (let S2 = (if c then S\<lparr>sdo_bufferOffset := len, sdo_crc := crc16_ccitt bs (length bs) 0\<rparr> else S\<lparr>sdo_bufferOffset := len\<rparr>)
     in if c \<and> crc \<noteq> crc16_ccitt bs (length bs) 0 then Some (S2, W, SdoAbort CO_SDO_AB_CRC)
        else sdo_check (CO_SDO_writeOD odf (sdo_upd_arg (\<lambda>a. a\<lparr>arg_lastSegment := True\<rparr>) S2) W len)
          (\<lambda>S3 W3. Some (S3\<lparr>sdo_state := CO_SDO_ST_IDLE\<rparr>, sdo_tx txb 0 [0xA1] W3, SdoBreak True True)))"
  unfolding sdo_download_bl_end_def assms(1,2) Let_def assms(4) using assms(3,5,6) by (cases c) auto

lemma block_ends:
  assumes S: "ending_ok index sub a len attr txb n dict c acc S" "acc = bs @ replicate u 0" "length bs = unat len" "u \<le> 6"
    and o: "attr AND CO_ODA_WRITEABLE \<noteq> 0" "a + unat len \<le> n"
    and W: "link_ok txb n W" "accepting env"
  obtains S' W' where "sdo_exchange odf env dt (block_end u crc) (S, W) = Some (S', W')" "finished txb n dict S'" "link_ok txb n W'"
    "if c \<and> crc \<noteq> crc16_ccitt bs (length bs) 0
     then replied txb W [0x80 # mux index sub @ le_bytes 4 0x05040004] W' \<and> wd_mem W' = wd_mem W
     else replied txb W [0xA1 # replicate 7 0] W' \<and> wd_mem W' = memcpy_at (wd_mem W) a bs"
proof -
  let ?m = "block_end u crc" let ?W = "sdo_tx txb 0 (replicate 8 0) W"
  have f: "idle_ok txb n S" "sdo_dict S = dict" "opened index sub a len attr S" "sdo_state S = CO_SDO_ST_DOWNLOAD_BL_END"
    "unat (sdo_bufferOffset S) = length acc" "take (length acc) (sdo_data S) = acc" "length acc \<le> 889" "sdo_crcEnabled S = c" "sdo_crc S = 0"
    using S(1) by (auto simp: ending_ok_def)
  have q: "quiet_queue S" "sdo_SDOtimeoutTime_us S \<noteq> 0" "sdo_CANtxBuff S = Some txb" using f(1) by (auto simp: idle_ok_def core_ok_def)
  obtain S1 where S1: "CO_SDO_receive S (client_msg ?m) = Some S1" "flagged ?m S1" "same_transfer S S1"
    using receive_quiet [OF q(1), of ?m] f(4) block_end_crc(2) by auto
  have rdy: "bus_ready (wd_bus W) txb" using W(1) by (simp add: link_ok_def)
  note bits = block_end_bits [OF S(4), of crc]
  have ex: "CO_SDO_process odf env S1 W True dt None =
      map_option (sdo_finish env txb None) (sdo_download_bl_end odf txb ?m (S1\<lparr>sdo_timeoutTimer := 0\<rparr>) ?W)"
    using exchange_process [OF q(3) S1(2,3) rdy bits(3) q(2), of odf env dt] f(4) by (simp add: sdo_switch_def)
  have e: "sdo_bufferOffset S1 = sdo_bufferOffset S" "sdo_ODF_arg S1 = sdo_ODF_arg S" "sdo_crcEnabled S1 = c" "sdo_crc S1 = 0" "sdo_dict S1 = dict"
    using S1(3) f by (auto simp: same_transfer_def)
  have la: "length acc = unat len + u" using S(2,3) by simp
  have off: "sdo_bufferOffset S - ucast (drop_bit 2 (?m ! 0) AND 0x07) = len"
  proof -
    have "(ucast (word_of_nat u :: u8) :: u16) = word_of_nat u" using S(4) by (metis ucast_u8_small)
    moreover have "sdo_bufferOffset S = len + word_of_nat u" using f(5) la by (metis of_nat_add of_nat_unat ucast_id)
    ultimately show ?thesis by (simp only: bits(2)) simp
  qed
  have tk: "take (unat len) (sdo_data S) = bs"
  proof -
    have "take (unat len) (sdo_data S) = take (unat len) (take (length acc) (sdo_data S))" using la by (simp add: min_def)
    also have "\<dots> = take (unat len) acc" by (simp only: f(6))
    also have "\<dots> = bs" using S(2,3) by simp
    finally show ?thesis .
  qed
  let ?S = "S1\<lparr>sdo_timeoutTimer := 0, sdo_bufferOffset := len\<rparr>"
  define crc1 where "crc1 = crc16_ccitt bs (length bs) 0"
  define S2 where "S2 = (if c then ?S\<lparr>sdo_crc := crc1\<rparr> else ?S)"
  have lens: "unat len \<le> 889" "length (sdo_data S) = 889" using f(3) by (auto simp: opened_def)
  have get: "sdo_get_data 0 (unat len) ?S = Some bs" using lens e(2) tk by (simp add: sdo_get_data_def)
  have off1: "sdo_bufferOffset (S1\<lparr>sdo_timeoutTimer := 0\<rparr>) - ucast (drop_bit 2 (?m ! 0) AND 0x07) = len" using off e(1) by simp
  have op: "opened index sub a len attr S2" using f(3) opened_same [OF S1(3)] by (simp add: S2_def)
  have fl: "flagged ?m S2" using S1(2) by (simp add: S2_def)
  have s2: "sdo_ODF_arg S2 = sdo_ODF_arg S" "sdo_dict S2 = sdo_dict S1" "sdo_head S2 = sdo_head S1" "sdo_CANtxBuff S2 = sdo_CANtxBuff S1"
    "sdo_SDOtimeoutTime_us S2 = sdo_SDOtimeoutTime_us S1" using e(2) by (simp_all add: S2_def)
  have ds: "(if c then S1\<lparr>sdo_timeoutTimer := 0, sdo_bufferOffset := len, sdo_crc := crc1\<rparr> else S1\<lparr>sdo_timeoutTimer := 0, sdo_bufferOffset := len\<rparr>) = S2"
    by (simp add: S2_def)
  have e0: "sdo_crcEnabled (S1\<lparr>sdo_timeoutTimer := 0\<rparr>) = c" "sdo_crc (S1\<lparr>sdo_timeoutTimer := 0\<rparr>) = 0" using e(3,4) by simp_all
  note handler = bl_end_handler [OF bits(1) off1 get block_end_crc(1) [of u crc] e0, unfolded Let_def, folded crc1_def, unfolded ds]
  have mem: "wd_mem ?W = wd_mem W" "length (wd_mem W) = n" using W(1) by (simp_all add: link_ok_def world_ok_def)
  show ?thesis
  proof (cases "c \<and> crc \<noteq> crc1")
    case True
    let ?S3 = "S2\<lparr>sdo_state := CO_SDO_ST_IDLE\<rparr>"
    let ?W1 = "sdo_send env txb (sdo_tx txb 0 (sdo_abort_frame (sdo_ODF_arg S1) CO_SDO_AB_CRC) ?W)"
    have "sdo_download_bl_end odf txb ?m (S1\<lparr>sdo_timeoutTimer := 0\<rparr>) ?W = Some (S2, ?W, SdoAbort CO_SDO_AB_CRC)"
      unfolding handler using True by simp
    then have x: "sdo_exchange odf env dt ?m (S, W) = Some (CO_SDO_process_done ?S3, ?W1)"
      using S1(1) ex fl flagged_skip [of ?m ?S3] s2(1) e(2) by (simp add: sdo_exchange_def sdo_finish_def CO_SDO_abort_def)
    have idle: "idle_ok txb n (CO_SDO_process_done ?S3)"
      by (rule same_transfer_idle [OF f(1) S1(3), of ?m]) (use fl s2 lens in simp_all)
    have fr: "sdo_abort_frame (sdo_ODF_arg S1) CO_SDO_AB_CRC = 0x80 # mux index sub @ le_bytes 4 0x05040004"
      using f(3) e(2) by (simp add: abort_frame_mux opened_def del: le_bytes.simps)
    have "prepared txb n W (sdo_abort_frame (sdo_ODF_arg S1) CO_SDO_AB_CRC) (sdo_tx txb 0 (sdo_abort_frame (sdo_ODF_arg S1) CO_SDO_AB_CRC) ?W)"
      using prepared_tx [OF prepared_zero [OF W(1)], of 0 "sdo_abort_frame (sdo_ODF_arg S1) CO_SDO_AB_CRC"] by (simp add: memcpy_front)
    then have "link_ok txb n ?W1" "replied txb W [0x80 # mux index sub @ le_bytes 4 0x05040004] ?W1"
      using prepared_send W(2) unfolding fr by blast+
    then show ?thesis using that [OF x] idle s2(2) e(5) True by (simp add: finished_def crc1_def del: le_bytes.simps)
  next
    case False
    obtain B where B: "CO_SDO_writeOD odf S2 ?W len = Some (CO_SDO_AB_NONE, S2\<lparr>sdo_ODF_arg := B\<rparr>, ?W\<lparr>wd_mem := memcpy_at (wd_mem W) a bs\<rparr>)"
      "length (arg_data B) = 889"
      using writeOD_plain [OF op o(1), of ?W odf] o(2) mem tk s2(1) by auto
    let ?S3 = "S2\<lparr>sdo_ODF_arg := B, sdo_state := CO_SDO_ST_IDLE\<rparr>"
    let ?W1 = "sdo_tx txb 0 [0xA1] (?W\<lparr>wd_mem := memcpy_at (wd_mem W) a bs\<rparr>)"
    have last: "sdo_upd_arg (\<lambda>a. a\<lparr>arg_lastSegment := True\<rparr>) S2 = S2" using op by (simp add: opened_def sdo_upd_arg_def)
    have "sdo_download_bl_end odf txb ?m (S1\<lparr>sdo_timeoutTimer := 0\<rparr>) ?W = Some (?S3, ?W1, SdoBreak True True)"
      unfolding handler last B(1) using False by (auto simp: sdo_check_def)
    then have x: "sdo_exchange odf env dt ?m (S, W) = Some (CO_SDO_process_done ?S3, sdo_send env txb ?W1)"
      using S1(1) ex by (simp add: sdo_exchange_def sdo_finish_def Let_def)
    have idle: "idle_ok txb n (CO_SDO_process_done ?S3)"
      by (rule same_transfer_idle [OF f(1) S1(3), of ?m]) (use fl s2 B(2) in simp_all)
    have "replicate 8 (0 :: u8) = 0 # replicate 7 0" by (simp add: numeral_eq_Suc)
    then have "prepared txb n W (0xA1 # replicate 7 0) ?W1"
      using prepared_tx [OF prepared_mem [OF prepared_zero [OF W(1)], of "memcpy_at (wd_mem W) a bs"], of 0 "[0xA1]"] mem o(2) S(3)
      by (simp add: memcpy_at_def)
    then have "link_ok txb n (sdo_send env txb ?W1)" "replied txb W [0xA1 # replicate 7 0] (sdo_send env txb ?W1)" using prepared_send W(2) by blast+
    then show ?thesis using that [OF x] idle s2(2) e(5) False by (auto simp: finished_def crc1_def)
  qed
qed


text \<open>
  C16: block download: an idle server stores the bytes of a complete block download in the variable of a writeable object
  when the client sends no CRC or the right one, and replies with the end response. With a wrong CRC it sends an abort
  with the code for a CRC error and leaves all variables as they were. In both cases it is ready for the next request.
\<close>

theorem sdo_block_download_checked:
  assumes "finished txb n dict S" "plain_object dict index sub a len attr" "attr AND CO_ODA_WRITEABLE \<noteq> 0"
    and "link_ok txb n W" "accepting env" "length bs = unat len"
  shows "\<exists>S' W' k b last. block_download odf env dt c index sub bs crc (S, W) = Some (S', W') \<and> finished txb n dict S' \<and>
    replied txb W [0xA4 # mux index sub @ [127, 0, 0, 0], [0xA2, k, b, 0, 0, 0, 0, 0], last] W' \<and>
    (if c \<and> crc \<noteq> crc16_ccitt bs (length bs) 0
     then last = 0x80 # mux index sub @ le_bytes 4 0x05040004 \<and> wd_mem W' = wd_mem W
     else last = 0xA1 # replicate 7 0 \<and> wd_mem W' = memcpy_at (wd_mem W) a bs)"
proof -
  have mem: "a + unat len \<le> n" by (rule plain_in_memory [OF assms(1,2)])
  have len: "bs \<noteq> []" "unat len \<le> 889" using assms(2,6) by (auto simp: plain_object_def Let_def unat_eq_zero)
  obtain S1 W1 where o: "sdo_exchange odf env dt (block_open c index sub (unat len)) (S, W) = Some (S1, W1)"
    "block_ok index sub a len attr txb n dict c 0 [] S1" "quiet_queue S1" "sdo_state S1 = CO_SDO_ST_DOWNLOAD_BL_SUBBLOCK"
    "link_ok txb n W1" "replied txb W [0xA4 # mux index sub @ [127, 0, 0, 0]] W1" "wd_mem W1 = wd_mem W"
    by (rule block_opens [OF assms(1-5)])
  let ?acc = "[] @ bs @ replicate (block_unused (unat len)) 0"
  have "length [] + length bs = unat len" using assms(6) by simp
  from segments_received [OF o(2-4) this len(1)] obtain S2 k x rx where
    r: "sdo_receive_all (block_segments 0 bs) S1 = Some S2" "block_ok index sub a len attr txb n dict c k ?acc S2"
      "sdo_state S2 = CO_SDO_ST_DOWNLOAD_BL_SUB_RESP" "\<not> sdo_timeoutSubblockDownolad S2" "flagged (x # rx) S2" "x AND 0x80 = 0x80" "x \<noteq> 0x80" by blast
  have u: "block_unused (unat len) \<le> 6" using pos_mod_bound [of 7] by (simp add: block_unused_def less_Suc_eq_le [symmetric])
  have "length ?acc = 7 * k" using r(2) by (simp add: block_ok_def)
  then have "length ?acc \<le> 889" using len(2) assms(6) u by simp
  then obtain ret S3 W3 b where p: "CO_SDO_process odf env S2 W1 True dt None = Some (ret, S3, W3, None)"
    "ending_ok index sub a len attr txb n dict c ?acc S3" "link_ok txb n W3" "replied txb W1 [[0xA2, word_of_nat k, b, 0, 0, 0, 0, 0]] W3" "wd_mem W3 = wd_mem W1"
    by (rule block_acknowledged [OF r(2-7) _ o(5) assms(5)])
  obtain S' W' where e: "sdo_exchange odf env dt (block_end (block_unused (unat len)) crc) (S3, W3) = Some (S', W')" "finished txb n dict S'" "link_ok txb n W'"
    "if c \<and> crc \<noteq> crc16_ccitt bs (length bs) 0
     then replied txb W3 [0x80 # mux index sub @ le_bytes 4 0x05040004] W' \<and> wd_mem W' = wd_mem W3
     else replied txb W3 [0xA1 # replicate 7 0] W' \<and> wd_mem W' = memcpy_at (wd_mem W3) a bs"
    by (rule block_ends [OF p(2) _ assms(6) u assms(3) mem p(3) assms(5)]) simp
  have run: "block_download odf env dt c index sub bs crc (S, W) = Some (S', W')"
    using o(1) r(1) p(1) e(1) assms(6) by (simp add: block_download_def)
  note rep = replied_trans [OF replied_trans [OF o(6) p(4)], simplified]
  show ?thesis
  proof (cases "c \<and> crc \<noteq> crc16_ccitt bs (length bs) 0")
    case True
    then show ?thesis using run e rep o(7) p(5) by metis
  next
    case False
    then show ?thesis using run e rep o(7) p(5) by metis
  qed
qed


theorem sdo_block_download_checked_witness:
  "\<exists>S' W' k b last. block_download (\<lambda>f arg W. None) (example_env 0) 1000 True 0x2000 0 [1, 2, 3, 4, 5, 6, 7, 8, 9, 10] 0
       (example_sdo, example_plain_world) = Some (S', W') \<and>
     replied 0 example_plain_world [0xA4 # mux 0x2000 0 @ [127, 0, 0, 0], [0xA2, k, b, 0, 0, 0, 0, 0], last] W' \<and>
     last = 0x80 # mux 0x2000 0 @ le_bytes 4 0x05040004 \<and> wd_mem W' = wd_mem example_plain_world"
proof -
  have "crc16_ccitt [1, 2, 3, 4, 5, 6, 7, 8, 9, 10] (length [1, 2, 3, 4, 5, 6, 7, 8, 9, 10 :: u8]) 0 \<noteq> 0" by code_simp
  then show ?thesis
    using sdo_block_download_checked [OF example_finished example_plain _ example_link, of "[1, 2, 3, 4, 5, 6, 7, 8, 9, 10]" "\<lambda>f arg W. None" 1000 True 0]
    by (auto simp: CO_ODA_WRITEABLE_def simp del: le_bytes.simps)
qed

end
