(* ===== verification/SDO_Errors.thy ===== *)
theory SDO_Errors
  imports SDO_Block
begin

section \<open>Refused requests and timeouts\<close>

text \<open>How the SDO server ends a transfer that cannot be carried out: it sends an abort with the reason and is idle again.\<close>

subsection \<open>Refused downloads\<close>

definition download_refusal :: "nat \<Rightarrow> CO_SDO_OD \<Rightarrow> u16 \<Rightarrow> u8 \<Rightarrow> CO_SDO_abortCode_t" where
  \<comment> \<open>why a download is refused at once, by the contents of the dictionary\<close>
  "download_refusal k dict index sub =
     (if index \<notin> od_index ` set (sdo_OD dict) then CO_SDO_AB_NOT_EXIST
      else if od_maxSubIndex (sdo_OD dict ! k) < sub then CO_SDO_AB_SUB_UNKNOWN
      else if 889 < unat (the (CO_OD_getLength dict k sub)) then CO_SDO_AB_DEVICE_INCOMPAT
      else if the (CO_OD_getAttribute dict k sub) AND CO_ODA_WRITEABLE = 0 then CO_SDO_AB_READONLY
      else CO_SDO_AB_NONE)"

definition abort_reply :: "u16 \<Rightarrow> u8 \<Rightarrow> CO_SDO_abortCode_t \<Rightarrow> u8 list" where
  "abort_reply index sub code = 0x80 # mux index sub @ le_bytes 4 (unat (abort_code code))"

lemma length_abort_reply [simp]: "length (abort_reply index sub code) = 8"
  by (simp add: abort_reply_def)

lemma prepared_abort:
  assumes "link_ok txb n W" "accepting env" "arg_index A = index" "arg_subIndex A = sub"
  shows "link_ok txb n (sdo_send env txb (sdo_tx txb 0 (sdo_abort_frame A code) (sdo_tx txb 0 (replicate 8 0) W))) \<and>
    replied txb W [abort_reply index sub code] (sdo_send env txb (sdo_tx txb 0 (sdo_abort_frame A code) (sdo_tx txb 0 (replicate 8 0) W)))"
proof -
  have f: "sdo_abort_frame A code = abort_reply index sub code" using assms(3,4) by (simp add: abort_frame_mux abort_reply_def)
  have "prepared txb n W (abort_reply index sub code) (sdo_tx txb 0 (abort_reply index sub code) (sdo_tx txb 0 (replicate 8 0) W))"
    using prepared_tx [OF prepared_zero [OF assms(1)], of 0 "abort_reply index sub code"] by (simp add: memcpy_front)
  then show ?thesis unfolding f using prepared_send assms(2) by blast
qed

lemma exchange_refused:
  assumes "sdo_CANtxBuff S = Some txb" "flagged m S1" "same_transfer S S1" "bus_ready (wd_bus W) txb" "m ! 0 \<noteq> 0x80"
    "sdo_state S = CO_SDO_ST_IDLE"
    and r: "sdo_request odf m 0 (S1\<lparr>sdo_timeoutTimer := 0\<rparr>) (sdo_tx txb 0 (replicate 8 0) W) = Some (S2, W2, SdoAbort code)"
  shows "CO_SDO_process odf env S1 W True dt None = Some (sdo_finish env txb None (S2, W2, SdoAbort code))"
proof -
  have new: "sdo_CANrxNew S1 ! unat (sdo_CANrxProc S1)" "sdo_CANrxData S1 ! unat (sdo_CANrxProc S1) = m"
    using assms(2) u8_less_2 [of "sdo_CANrxProc S1"] by (auto simp: flagged_def queue_ok_def)
  show ?thesis using assms new by (simp add: CO_SDO_process_def sdo_select_def same_transfer_def bus_ready_def Let_def)
qed

lemma initTransfer_refused:
  assumes S: "core_ok txb n S" and code: "download_refusal (CO_OD_find (sdo_dict S) index) (sdo_dict S) index sub = code"
  obtains c A k where "CO_SDO_initTransfer S index sub = Some (c, S\<lparr>sdo_ODF_arg := A, sdo_entryNo := k\<rparr>)"
    "arg_index A = index" "arg_subIndex A = sub" "length (arg_data A) = 889"
    "if c = CO_SDO_AB_NONE then code = (if arg_attribute A AND CO_ODA_WRITEABLE = 0 then CO_SDO_AB_READONLY else CO_SDO_AB_NONE) else code = c"
proof -
  let ?d = "sdo_dict S" let ?k = "CO_OD_find (sdo_dict S) index"
  have d: "dict_ok n ?d" "sdo_head S = []" "od_inv ?d" "length (sdo_data S) = 889" using S by (auto simp: core_ok_def dict_ok_def)
  show ?thesis
  proof (cases "index \<in> od_index ` set (sdo_OD ?d)")
    case False
    then have "?k = 0xFFFF" using CO_OD_find_missing [OF d(3)] by simp
    then show ?thesis using that False code d(4)
      by (auto simp: CO_SDO_initTransfer_def Let_def sdo_upd_arg_def download_refusal_def)
  next
    case True
    then obtain j where "j < length (sdo_OD ?d)" "od_index (sdo_OD ?d ! j) = index" by (auto simp: in_set_conv_nth)
    then have k: "?k < length (sdo_OD ?d)" "?k \<noteq> 0xFFFF" using CO_OD_find_nth [OF d(3)] od_inv_length [OF d(3)] by auto
    have e: "od_pData (sdo_OD ?d ! ?k) \<noteq> PNull"
      using d(1) k(1) by (auto simp: dict_ok_def list_all_length entry_in_def split: od_pdata.splits)
    have x: "?k < length (sdo_ODExtensions ?d)" using d(3) k(1) by (simp add: od_inv_def)
    have h: "S\<lparr>sdo_ODF_arg := A, sdo_entryNo := j, sdo_head := []\<rparr> = S\<lparr>sdo_ODF_arg := A, sdo_entryNo := j\<rparr>" for A j
      using d(2) by (metis CO_SDO_t.surjective CO_SDO_t.update_convs(2) CO_SDO_t.update_convs(6) CO_SDO_t.update_convs(7))
    show ?thesis
    proof (cases "od_maxSubIndex (sdo_OD ?d ! ?k) < sub")
      case sub: True
      then show ?thesis using that True code d(4) k e
        by (auto simp: CO_SDO_initTransfer_def Let_def sdo_upd_arg_def download_refusal_def nth_opt_def)
    next
      case sub: False
      obtain ptr len attr where p: "CO_OD_getDataPointer ?d ?k sub = Some ptr" "CO_OD_getLength ?d ?k sub = Some len"
        "CO_OD_getAttribute ?d ?k sub = Some attr" "ptr \<noteq> ONull"
        using sub_pointer [OF d(1) k(1,2), of sub] sub by (auto simp: not_less)
      have b: "CO_CONFIG_SDO_BUFFER_SIZE < len \<longleftrightarrow> 889 < unat len" by (simp add: word_less_nat_alt)
      show ?thesis using True code d(2,4) k e x sub p b
        by (intro that [of "fst (the (CO_SDO_initTransfer S index sub))" ?k "sdo_ODF_arg (snd (the (CO_SDO_initTransfer S index sub)))"])
          (auto simp: CO_SDO_initTransfer_def Let_def sdo_upd_arg_def download_refusal_def nth_opt_def h)
    qed
  qed
qed


text \<open>
  C32: refused downloads: a download request for an object that does not exist, a sub-index that does not exist, an object
  that does not fit into the buffer or an object that is not writeable is answered with an abort that names the object and
  the reason. Nothing is written and the server is idle again.
\<close>

theorem sdo_download_refused:
  assumes "finished txb n dict S" "link_ok txb n W" "accepting env" "drop_bit 5 cmd = 1 \<or> drop_bit 5 cmd = 6" "length ds = 4"
    and "code = download_refusal (CO_OD_find dict index) dict index sub" "code \<noteq> CO_SDO_AB_NONE"
  shows "\<exists>S' W'. sdo_exchange odf env dt (cmd # mux index sub @ ds) (S, W) = Some (S', W') \<and> finished txb n dict S' \<and>
    replied txb W [abort_reply index sub code] W' \<and> wd_mem W' = wd_mem W"
proof -
  let ?m = "cmd # mux index sub @ ds" let ?W = "sdo_tx txb 0 (replicate 8 0) W"
  have f: "idle_ok txb n S" "sdo_dict S = dict" "sdo_state S = CO_SDO_ST_IDLE" using assms(1) by (auto simp: finished_def)
  obtain S1 where S1: "CO_SDO_receive S (client_msg ?m) = Some S1" "flagged ?m S1" "same_transfer S S1"
    using receive_quiet [of S ?m] f assms(5) by (auto simp: idle_ok_def)
  have c: "core_ok txb n (S1\<lparr>sdo_timeoutTimer := 0\<rparr>)" using f(1) core_ok_same [OF _ S1(3,2)] by (auto simp: idle_ok_def)
  have d: "sdo_dict (S1\<lparr>sdo_timeoutTimer := 0\<rparr>) = dict" using S1(3) f(2) by (simp add: same_transfer_def)
  have code: "download_refusal (CO_OD_find (sdo_dict (S1\<lparr>sdo_timeoutTimer := 0\<rparr>)) index) (sdo_dict (S1\<lparr>sdo_timeoutTimer := 0\<rparr>)) index sub = code"
    unfolding d using assms(6) by simp
  obtain ab A k where A: "CO_SDO_initTransfer (S1\<lparr>sdo_timeoutTimer := 0\<rparr>) index sub = Some (ab, S1\<lparr>sdo_timeoutTimer := 0\<rparr>\<lparr>sdo_ODF_arg := A, sdo_entryNo := k\<rparr>)"
    "arg_index A = index" "arg_subIndex A = sub" "length (arg_data A) = 889"
    "if ab = CO_SDO_AB_NONE then code = (if arg_attribute A AND CO_ODA_WRITEABLE = 0 then CO_SDO_AB_READONLY else CO_SDO_AB_NONE) else code = ab"
    by (rule initTransfer_refused [OF c code])
  let ?S = "S1\<lparr>sdo_timeoutTimer := 0, sdo_ODF_arg := A, sdo_entryNo := k\<rparr>"
  have i: "push_bit 8 (ucast (?m ! 2)) OR ucast (?m ! 1) = index" "?m ! 3 = sub" "?m ! 0 = cmd" using request_index(1,2) by (blast, blast) simp
  have "sdo_request odf ?m 0 (S1\<lparr>sdo_timeoutTimer := 0\<rparr>) ?W = Some (?S, ?W, SdoAbort code)"
    unfolding sdo_request_def i A(1) using A(5) assms(4,7) by (auto simp: sdo_check_def Let_def split: if_splits)
  moreover have q: "sdo_CANtxBuff S = Some txb" "bus_ready (wd_bus W) txb" "cmd \<noteq> 0x80"
    using f(1) assms(2,4) by (auto simp: idle_ok_def core_ok_def link_ok_def)
  ultimately have p: "CO_SDO_process odf env S1 W True dt None = Some (sdo_finish env txb None (?S, ?W, SdoAbort code))"
    using exchange_refused [OF q(1) S1(2,3) q(2) _ f(3)] i(3) by simp
  let ?S3 = "?S\<lparr>sdo_state := CO_SDO_ST_IDLE\<rparr>" let ?W1 = "sdo_send env txb (sdo_tx txb 0 (sdo_abort_frame A code) ?W)"
  have x: "sdo_exchange odf env dt ?m (S, W) = Some (CO_SDO_process_done ?S3, ?W1)"
    using S1(1,2) p flagged_skip [of ?m ?S3] by (simp add: sdo_exchange_def sdo_finish_def CO_SDO_abort_def)
  have "idle_ok txb n (CO_SDO_process_done ?S3)"
    by (rule same_transfer_idle [OF f(1) S1(3), of ?m]) (use S1(2) A(4) in simp_all)
  then have "finished txb n dict (CO_SDO_process_done ?S3)" using d by (simp add: finished_def)
  then show ?thesis using x prepared_abort [OF assms(2,3) A(2,3), of code] by auto
qed

theorem sdo_download_refused_witness:
  "\<exists>S' W'. sdo_exchange (\<lambda>f arg W. None) (example_env 0) 1000 (0x23 # mux 0x2001 0 @ [1, 2, 3, 4]) (example_sdo, example_plain_world) = Some (S', W') \<and>
     replied 0 example_plain_world [[0x80, 0x01, 0x20, 0, 0, 0, 0x02, 0x06]] W' \<and> wd_mem W' = wd_mem example_plain_world"
proof -
  have "download_refusal (CO_OD_find example_dict 0x2001) example_dict 0x2001 0 = CO_SDO_AB_NOT_EXIST"
    by (simp add: download_refusal_def example_dict_def example_var_def)
  moreover have "abort_reply 0x2001 0 CO_SDO_AB_NOT_EXIST = [0x80, 0x01, 0x20, 0, 0, 0, 0x02, 0x06]"
    by (simp add: abort_reply_def mux_def le_bytes_numeral)
  ultimately show ?thesis
    using sdo_download_refused [OF example_finished example_link, of "0x23" "[1, 2, 3, 4]" CO_SDO_AB_NOT_EXIST "0x2001" 0 "\<lambda>f arg W. None" 1000] by auto
qed


subsection \<open>Timeout\<close>

fun sdo_idle_calls :: "'w odf_call \<Rightarrow> can_env \<Rightarrow> u32 list \<Rightarrow> CO_SDO_t \<times> 'w od_world \<Rightarrow> (CO_SDO_t \<times> 'w od_world) option" where
  \<comment> \<open>calls of \<^verbatim>\<open>CO_SDO_process\<close> with these time steps and no message in between\<close>
  "sdo_idle_calls odf env [] s = Some s"
| "sdo_idle_calls odf env (dt # dts) s = do {
     (ret, S, W, tn) \<leftarrow> CO_SDO_process odf env (fst s) (snd s) True dt None;
     sdo_idle_calls odf env dts (S, W)
   }"

definition waiting :: "nat \<Rightarrow> nat \<Rightarrow> CO_SDO_OD \<Rightarrow> CO_SDO_t \<Rightarrow> bool" where
  \<comment> \<open>it is the turn of the client: in a block upload all segments of the sub-block are sent, in a block download there is
    room for segments of a variable\<close>
  "waiting txb n dict S \<longleftrightarrow> idle_ok txb n S \<and> sdo_dict S = dict \<and> sdo_timeoutTimer S < sdo_SDOtimeoutTime_us S \<and>
     sdo_state S \<noteq> CO_SDO_ST_IDLE \<and>
     (sdo_state S = CO_SDO_ST_UPLOAD_BL_SUBBLOCK \<longrightarrow> sdo_sequence S = sdo_blksize S \<or> sdo_endOfTransfer S) \<and>
     (sdo_state S = CO_SDO_ST_DOWNLOAD_BL_SUBBLOCK \<longrightarrow>
        sdo_storage S \<noteq> ONull \<and> sdo_bufferOffset S < CO_CONFIG_SDO_BUFFER_SIZE)"

definition second_chance :: "CO_SDO_t \<Rightarrow> bool" where
  \<comment> \<open>the first timeout in a sub-block of a block download is answered with a response\<close>
  "second_chance S \<longleftrightarrow> sdo_state S = CO_SDO_ST_DOWNLOAD_BL_SUBBLOCK \<and> \<not> sdo_timeoutSubblockDownolad S"

fun steps_after :: "nat \<Rightarrow> u32 list \<Rightarrow> u32 list" where
  \<comment> \<open>the time steps behind the one that reaches the given time\<close>
  "steps_after t [] = []"
| "steps_after t (dt # dts) = (if t \<le> unat dt then dts else steps_after (t - unat dt) dts)"

lemma quiet_new: "quiet_queue S \<Longrightarrow> \<not> sdo_CANrxNew S ! unat (sdo_CANrxProc S)"
  using u8_less_2 [of "sdo_CANrxProc S"] by (auto simp: quiet_queue_def queue_ok_def)

lemma quiet_skip: "quiet_queue S \<Longrightarrow> sdo_skip S = S"
  using quiet_new [of S] by (subst sdo_skip.simps) simp

lemma finished_stays:
  assumes "finished txb n dict S"
  shows "sdo_idle_calls odf env dts (S, W) = Some (S, W)"
proof (induction dts)
  case (Cons dt dts)
  have "\<not> sdo_CANrxNew S ! unat (sdo_CANrxProc S)" using assms quiet_new by (auto simp: finished_def idle_ok_def)
  then have "CO_SDO_process odf env S W True dt None = Some (0, S, W, None)" using assms by (simp add: CO_SDO_process_def Let_def finished_def)
  then show ?case using Cons by simp
qed simp

lemma idle_ok_timer: "idle_ok txb n (S\<lparr>sdo_timeoutTimer := x\<rparr>) = idle_ok txb n S" "idle_ok txb n (S\<lparr>sdo_state := st\<rparr>) = idle_ok txb n S"
  by (simp_all add: idle_ok_def core_ok_def quiet_queue_def queue_ok_def)

lemma waiting_facts:
  assumes "waiting txb n dict S"
  shows "\<not> sdo_CANrxNew S ! unat (sdo_CANrxProc S)" "sdo_CANtxBuff S = Some txb" "sdo_state S \<noteq> CO_SDO_ST_IDLE"
    "sdo_timeoutTimer S < sdo_SDOtimeoutTime_us S" "quiet_queue S"
  using assms quiet_new by (auto simp: waiting_def idle_ok_def core_ok_def)

definition polled :: "nat \<Rightarrow> CO_SDO_t \<Rightarrow> 'w od_world \<Rightarrow> 'w od_world" where
  \<comment> \<open>the buffer is cleared in the calls of a block upload\<close>
  "polled txb S W = (if sdo_state S = CO_SDO_ST_UPLOAD_BL_SUBBLOCK then sdo_tx txb 0 (replicate 8 0) W else W)"

lemma polled_prepared: "link_ok txb n W \<Longrightarrow> link_ok txb n (polled txb S W) \<and> replied txb W [] (polled txb S W) \<and> wd_mem (polled txb S W) = wd_mem W"
  using prepared_zero [of txb n W] by (simp add: polled_def prepared_def sdo_tx_def)

lemma waiting_select:
  assumes "waiting txb n dict S" "link_ok txb n W"
  shows "sdo_select odf txb rx False dt S W = Some (S, polled txb S W,
    SdoGo (if sdo_state S = CO_SDO_ST_UPLOAD_BL_SUBBLOCK then CO_SDO_ST_UPLOAD_BL_SUBBLOCK else CO_SDO_ST_IDLE) dt)"
  using assms waiting_facts(3) [OF assms(1)] by (simp add: sdo_select_def polled_def link_ok_def bus_ready_def Let_def)

lemma waiting_early:
  assumes "waiting txb n dict S" "link_ok txb n W" "sdo_timeoutTimer S + dt < sdo_SDOtimeoutTime_us S"
  shows "CO_SDO_process odf env S W True dt None =
    Some (if sdo_state S = CO_SDO_ST_UPLOAD_BL_SUBBLOCK then 1 else 0, S\<lparr>sdo_timeoutTimer := sdo_timeoutTimer S + dt\<rparr>, polled txb S W, None)"
proof -
  let ?S = "S\<lparr>sdo_timeoutTimer := sdo_timeoutTimer S + dt\<rparr>"
  note w = waiting_facts [OF assms(1)]
  have "\<not> sdo_SDOtimeoutTime_us S \<le> sdo_timeoutTimer S + dt" using assms(3) by (simp add: not_le)
  then have t: "sdo_timeout txb state dt S W1 None = (?S, SdoGo state 0, None)" for state and W1 :: "'a od_world"
    using w(4) by (simp add: sdo_timeout_def Let_def lower_timer_def)
  show ?thesis
  proof (cases "sdo_state S = CO_SDO_ST_UPLOAD_BL_SUBBLOCK")
    case True
    then have "sdo_sequence S = sdo_blksize S \<or> sdo_endOfTransfer S" using assms(1) by (simp add: waiting_def)
    then have "sdo_switch odf txb rx False CO_SDO_ST_UPLOAD_BL_SUBBLOCK ?S W1 = Some (?S, W1, SdoBreak False False)" for rx W1
      by (simp add: sdo_switch_def sdo_upload_bl_send_def)
    then show ?thesis using True w
      by (simp add: CO_SDO_process_def waiting_select [OF assms(1,2)] t Let_def sdo_finish_def CO_SDO_process_done_def)
  next
    case False
    then show ?thesis using w by (simp add: CO_SDO_process_def waiting_select [OF assms(1,2)] t Let_def)
  qed
qed

lemma waiting_late:
  assumes "waiting txb n dict S" "link_ok txb n W" "accepting env" "sdo_SDOtimeoutTime_us S \<le> sdo_timeoutTimer S + dt" "\<not> second_chance S"
  obtains S' W' where "CO_SDO_process odf env S W True dt None = Some (-1, S', W', None)"
    "finished txb n dict S'" "wd_mem W' = wd_mem W" "link_ok txb n W'"
    "replied txb W [abort_reply (arg_index (sdo_ODF_arg S)) (arg_subIndex (sdo_ODF_arg S)) CO_SDO_AB_TIMEOUT] W'"
proof -
  let ?A = "sdo_ODF_arg S" let ?f = "abort_reply (arg_index ?A) (arg_subIndex ?A) CO_SDO_AB_TIMEOUT"
  let ?S = "S\<lparr>sdo_timeoutTimer := sdo_timeoutTimer S + dt\<rparr>" let ?Wp = "polled txb S W"
  let ?W = "sdo_send env txb (sdo_tx txb 0 ?f ?Wp)"
  note w = waiting_facts [OF assms(1)] and p = polled_prepared [OF assms(2), of S]
  have f: "sdo_abort_frame ?A CO_SDO_AB_TIMEOUT = ?f" by (simp add: abort_frame_mux abort_reply_def)
  have "quiet_queue (?S\<lparr>sdo_state := CO_SDO_ST_IDLE\<rparr>)" using w(5) by (simp add: quiet_queue_def queue_ok_def)
  then have skip: "sdo_skip (?S\<lparr>sdo_state := CO_SDO_ST_IDLE\<rparr>) = ?S\<lparr>sdo_state := CO_SDO_ST_IDLE\<rparr>" by (rule quiet_skip)
  have "prepared txb n W ?f (sdo_tx txb 0 ?f ?Wp)"
    using link_ok_tx [of txb n ?Wp 0 ?f] link_bytes [of txb n ?Wp] p replied_trans [of txb W "[]" ?Wp "[]"] by (simp add: prepared_def memcpy_front)
  then have r: "link_ok txb n ?W" "replied txb W [?f] ?W" using prepared_send assms(3) by blast+
  have "sdo_timeout txb state dt S W1 None = (?S, SdoAbort CO_SDO_AB_TIMEOUT, None)" for state and W1 :: "'a od_world"
    using w(4) assms(4,5) by (auto simp: sdo_timeout_def Let_def second_chance_def)
  then have "CO_SDO_process odf env S W True dt None = Some (-1, ?S\<lparr>sdo_state := CO_SDO_ST_IDLE\<rparr>, ?W, None)"
    using w skip f by (simp add: CO_SDO_process_def waiting_select [OF assms(1,2)] Let_def sdo_finish_def CO_SDO_abort_def)
  moreover have "finished txb n dict (?S\<lparr>sdo_state := CO_SDO_ST_IDLE\<rparr>)" using assms(1) idle_ok_timer by (simp add: finished_def waiting_def)
  moreover have "wd_mem ?W = wd_mem W" using p by (simp add: sdo_send_def sdo_tx_def)
  ultimately show ?thesis using that r by blast
qed

lemma waiting_responds:
  assumes "waiting txb n dict S" "link_ok txb n W" "accepting env" "sdo_SDOtimeoutTime_us S \<le> sdo_timeoutTimer S + dt" "second_chance S"
  obtains S' W' d where "CO_SDO_process odf env S W True dt None = Some (1, S', W', None)"
    "waiting txb n dict S'" "sdo_timeoutTimer S' = 0" "\<not> second_chance S'" "sdo_SDOtimeoutTime_us S' = sdo_SDOtimeoutTime_us S"
    "sdo_ODF_arg S' = sdo_ODF_arg S" "sdo_state S' = CO_SDO_ST_DOWNLOAD_BL_SUBBLOCK" "wd_mem W' = wd_mem W" "link_ok txb n W'" "replied txb W [d] W'"
    "take 3 d = [0xA2, sdo_sequence S, sdo_blocks (CO_CONFIG_SDO_BUFFER_SIZE - sdo_bufferOffset S)]"
proof -
  let ?blk = "sdo_blocks (CO_CONFIG_SDO_BUFFER_SIZE - sdo_bufferOffset S)"
  let ?S = "S\<lparr>sdo_timeoutTimer := 0, sdo_timeoutSubblockDownolad := True\<rparr>" let ?S1 = "?S\<lparr>sdo_blksize := ?blk\<rparr>"
  let ?W1 = "sdo_tx txb 2 [?blk] (sdo_tx txb 0 [0xA2, sdo_sequence S] W)" let ?W = "sdo_send env txb ?W1"
  note w = waiting_facts [OF assms(1)]
  have st: "sdo_state S = CO_SDO_ST_DOWNLOAD_BL_SUBBLOCK" "\<not> sdo_timeoutSubblockDownolad S" "sdo_storage S \<noteq> ONull"
    "sdo_bufferOffset S < CO_CONFIG_SDO_BUFFER_SIZE"
    using assms(1,5) by (auto simp: waiting_def second_chance_def)
  have "prepared txb n W (tx_bytes txb W) W" using assms(2) by (simp add: prepared_def)
  from prepared_tx [OF prepared_tx [OF this, of 0 "[0xA2, sdo_sequence S]"], of 2 "[?blk]"]
  have "prepared txb n W (memcpy_at (memcpy_at (tx_bytes txb W) 0 [0xA2, sdo_sequence S]) 2 [?blk]) ?W1" by simp
  note r = prepared_send [OF this assms(3)]
  have "sdo_timeout txb CO_SDO_ST_IDLE dt S W None = (?S, SdoGo CO_SDO_ST_DOWNLOAD_BL_SUB_RESP_2 0, None)"
    using w(4) assms(2,4) st by (auto simp: sdo_timeout_def Let_def link_ok_def bus_ready_def)
  moreover have "sdo_switch odf txb rx False CO_SDO_ST_DOWNLOAD_BL_SUB_RESP_2 ?S W = Some (?S1, ?W1, SdoBreak True False)" for rx
    using st(1,3,4) by (simp add: sdo_switch_def sdo_download_bl_sub_resp_def sdo_sub_resp_end_def Let_def not_le)
  ultimately have "CO_SDO_process odf env S W True dt None = Some (1, ?S1, ?W, None)"
    using w st(1) by (simp add: CO_SDO_process_def waiting_select [OF assms(1,2)] polled_def Let_def sdo_finish_def CO_SDO_process_done_def)
  moreover have "waiting txb n dict ?S1"
    using assms(1) st by (auto simp: waiting_def idle_ok_def core_ok_def quiet_queue_def queue_ok_def word_neq_0_conv)
  moreover have "take 3 (memcpy_at (memcpy_at (tx_bytes txb W) 0 [0xA2, sdo_sequence S]) 2 [?blk]) = [0xA2, sdo_sequence S, ?blk]"
    using link_bytes [OF assms(2)] by (simp add: memcpy_at_def)
  moreover have "wd_mem ?W = wd_mem W" by (simp add: sdo_send_def sdo_tx_def)
  ultimately show ?thesis using r st(1) by (intro that [of ?S1 ?W]) (simp_all add: second_chance_def)
qed

lemma timeout_times:
  assumes "waiting txb n dict S" "unat (sdo_SDOtimeoutTime_us S) + unat dt < 2 ^ 32"
  shows "unat (sdo_timeoutTimer S + dt) = unat (sdo_timeoutTimer S) + unat dt"
proof -
  have "unat (sdo_timeoutTimer S) + unat dt < 2 ^ LENGTH(32)"
    using waiting_facts(4) [OF assms(1)] assms(2) by (simp add: word_less_nat_alt)
  then show ?thesis by (rule unat_add_lem [THEN iffD1])
qed

lemma waiting_timer:
  assumes "waiting txb n dict S" "sdo_timeoutTimer S + dt < sdo_SDOtimeoutTime_us S"
  shows "waiting txb n dict (S\<lparr>sdo_timeoutTimer := sdo_timeoutTimer S + dt\<rparr>)"
  using assms idle_ok_timer by (simp add: waiting_def)

text \<open>Silence without a second chance.\<close>

lemma silence_aborts:
  assumes "waiting txb n dict S" "link_ok txb n W" "accepting env" "\<not> second_chance S"
    and "\<forall>dt \<in> set dts. unat (sdo_SDOtimeoutTime_us S) + unat dt < 2 ^ 32"
  shows "if unat (sdo_timeoutTimer S) + sum_list (map unat dts) < unat (sdo_SDOtimeoutTime_us S)
    then \<exists>W'. sdo_idle_calls odf env dts (S, W) = Some (S\<lparr>sdo_timeoutTimer := sdo_timeoutTimer S + sum_list dts\<rparr>, W') \<and>
      wd_mem W' = wd_mem W \<and> replied txb W [] W'
    else \<exists>S' W'. sdo_idle_calls odf env dts (S, W) = Some (S', W') \<and> finished txb n dict S' \<and> wd_mem W' = wd_mem W \<and>
      replied txb W [abort_reply (arg_index (sdo_ODF_arg S)) (arg_subIndex (sdo_ODF_arg S)) CO_SDO_AB_TIMEOUT] W'"
  using assms(1,2,4,5)
proof (induction dts arbitrary: S W)
  case Nil
  then show ?case using waiting_facts(4) by (auto simp: word_less_nat_alt)
next
  case (Cons dt dts)
  let ?S = "S\<lparr>sdo_timeoutTimer := sdo_timeoutTimer S + dt\<rparr>" let ?W = "polled txb S W"
  have u: "unat (sdo_timeoutTimer S + dt) = unat (sdo_timeoutTimer S) + unat dt" using timeout_times [OF Cons(2)] Cons(5) by simp
  show ?case
  proof (cases "sdo_SDOtimeoutTime_us S \<le> sdo_timeoutTimer S + dt")
    case True
    obtain S' W' where f: "CO_SDO_process odf env S W True dt None = Some (-1, S', W', None)"
      "finished txb n dict S'" "wd_mem W' = wd_mem W" "link_ok txb n W'"
      "replied txb W [abort_reply (arg_index (sdo_ODF_arg S)) (arg_subIndex (sdo_ODF_arg S)) CO_SDO_AB_TIMEOUT] W'"
      by (rule waiting_late [OF Cons(2,3) assms(3) True Cons(4)])
    then have "sdo_idle_calls odf env (dt # dts) (S, W) = Some (S', W')" using finished_stays by simp
    moreover have "\<not> unat (sdo_timeoutTimer S) + sum_list (map unat (dt # dts)) < unat (sdo_SDOtimeoutTime_us S)"
      using True u by (simp add: word_le_nat_alt)
    ultimately show ?thesis using f by auto
  next
    case False
    have p: "sdo_idle_calls odf env (dt # dts) (S, W) = sdo_idle_calls odf env dts (?S, ?W)"
      using waiting_early [OF Cons(2,3), of dt odf env] False by simp
    have "waiting txb n dict ?S" "\<not> second_chance ?S" using waiting_timer [OF Cons(2)] False Cons(4) by (simp_all add: not_le second_chance_def)
    moreover have silent: "replied txb W ds W'" if "replied txb ?W ds W'" for ds W'
      using polled_prepared [OF Cons(3), of S] replied_trans [of txb W "[]" ?W ds W'] that by simp
    ultimately show ?thesis using Cons(1) [of ?S ?W] polled_prepared [OF Cons(3), of S] Cons(5) u
      unfolding p by (auto simp: add.assoc dest: silent)
  qed
qed

text \<open>
  C21: timeout: when the client falls silent in the middle of a transfer, the server waits as long as the elapsed time is
  below \<^verbatim>\<open>SDOtimeoutTime_us\<close>, and as soon as it is reached it sends exactly one abort with the code for a timeout and is
  idle. Only in the sub-block of a block download of a variable the first timeout is answered with a sub-block response with
  the number of segments received so far, and the time starts again with the call that sent it: the abort follows as soon as
  the time of the calls after it reaches the timeout time once more. In a block upload it is the turn of the client when all
  segments of the sub-block are sent. No variable changes. The time steps do not overflow the timer, and the device accepts
  the frames.
\<close>

theorem sdo_times_out:
  assumes "waiting txb n dict S" "link_ok txb n W" "accepting env"
    and "\<forall>dt \<in> set dts. unat (sdo_SDOtimeoutTime_us S) + unat dt < 2 ^ 32"
  defines "limit \<equiv> unat (sdo_SDOtimeoutTime_us S)" and "elapsed \<equiv> unat (sdo_timeoutTimer S) + sum_list (map unat dts)"
    and "abort \<equiv> abort_reply (arg_index (sdo_ODF_arg S)) (arg_subIndex (sdo_ODF_arg S)) CO_SDO_AB_TIMEOUT"
    and "again \<equiv> sum_list (map unat (steps_after (unat (sdo_SDOtimeoutTime_us S) - unat (sdo_timeoutTimer S)) dts))"
  shows "if elapsed < limit
    then \<exists>W'. sdo_idle_calls odf env dts (S, W) = Some (S\<lparr>sdo_timeoutTimer := sdo_timeoutTimer S + sum_list dts\<rparr>, W') \<and>
      wd_mem W' = wd_mem W \<and> replied txb W [] W'
    else if \<not> second_chance S
    then \<exists>S' W'. sdo_idle_calls odf env dts (S, W) = Some (S', W') \<and> finished txb n dict S' \<and> wd_mem W' = wd_mem W \<and>
      replied txb W [abort] W'
    else \<exists>S' W' d. sdo_idle_calls odf env dts (S, W) = Some (S', W') \<and> wd_mem W' = wd_mem W \<and>
      take 3 d = [0xA2, sdo_sequence S, sdo_blocks (CO_CONFIG_SDO_BUFFER_SIZE - sdo_bufferOffset S)] \<and>
      (if again < limit then sdo_state S' = CO_SDO_ST_DOWNLOAD_BL_SUBBLOCK \<and> replied txb W [d] W'
       else finished txb n dict S' \<and> replied txb W [d, abort] W')"
proof (cases "second_chance S")
  case False
  then show ?thesis using silence_aborts [OF assms(1-3) _ assms(4), of odf] unfolding limit_def elapsed_def abort_def by simp
next
  case True
  then show ?thesis using assms(1,2,4) unfolding limit_def elapsed_def abort_def again_def
  proof (induction dts arbitrary: S W)
    case Nil
    then show ?case using waiting_facts(4) [of txb n dict S] by (auto simp: word_less_nat_alt)
  next
    case (Cons dt dts)
    let ?S = "S\<lparr>sdo_timeoutTimer := sdo_timeoutTimer S + dt\<rparr>" let ?W = "polled txb S W"
    let ?abort = "abort_reply (arg_index (sdo_ODF_arg S)) (arg_subIndex (sdo_ODF_arg S)) CO_SDO_AB_TIMEOUT"
    have u: "unat (sdo_timeoutTimer S + dt) = unat (sdo_timeoutTimer S) + unat dt" using timeout_times [OF Cons(3)] Cons(5) by simp
    show ?case
    proof (cases "sdo_SDOtimeoutTime_us S \<le> sdo_timeoutTimer S + dt")
      case True
      obtain S1 W1 d where r: "CO_SDO_process odf env S W True dt None = Some (1, S1, W1, None)"
        "waiting txb n dict S1" "sdo_timeoutTimer S1 = 0" "\<not> second_chance S1" "sdo_SDOtimeoutTime_us S1 = sdo_SDOtimeoutTime_us S"
        "sdo_ODF_arg S1 = sdo_ODF_arg S" "sdo_state S1 = CO_SDO_ST_DOWNLOAD_BL_SUBBLOCK" "wd_mem W1 = wd_mem W" "link_ok txb n W1" "replied txb W [d] W1"
        "take 3 d = [0xA2, sdo_sequence S, sdo_blocks (CO_CONFIG_SDO_BUFFER_SIZE - sdo_bufferOffset S)]"
        by (rule waiting_responds [OF Cons(3,4) assms(3) True Cons(2)])
      have late: "\<not> unat (sdo_timeoutTimer S) + sum_list (map unat (dt # dts)) < unat (sdo_SDOtimeoutTime_us S)"
        "steps_after (unat (sdo_SDOtimeoutTime_us S) - unat (sdo_timeoutTimer S)) (dt # dts) = dts"
        using True u by (simp_all add: word_le_nat_alt le_diff_conv add.commute)
      have p: "sdo_idle_calls odf env (dt # dts) (S, W) = sdo_idle_calls odf env dts (S1, W1)" using r(1) by simp
      obtain S' W' where s: "sdo_idle_calls odf env dts (S1, W1) = Some (S', W')" "wd_mem W' = wd_mem W"
        "(if sum_list (map unat dts) < unat (sdo_SDOtimeoutTime_us S) then sdo_state S' = CO_SDO_ST_DOWNLOAD_BL_SUBBLOCK \<and> replied txb W [d] W'
         else finished txb n dict S' \<and> replied txb W [d, ?abort] W')"
        using silence_aborts [OF r(2,9) assms(3) r(4), of dts odf] r(3,5-8) Cons(5) replied_trans [OF r(10)]
        by (fastforce split: if_splits)
      show ?thesis unfolding p using late Cons(2) s r(11)
        by (simp only: if_False simp_thms) (intro exI [of _ S'] exI [of _ W'] exI [of _ d], simp)
    next
      case False
      have p: "sdo_idle_calls odf env (dt # dts) (S, W) = sdo_idle_calls odf env dts (?S, W)"
        using waiting_early [OF Cons(3,4), of dt odf env] False Cons(2) by (simp add: polled_def second_chance_def)
      have "waiting txb n dict ?S" "second_chance ?S" using waiting_timer [OF Cons(3)] False Cons(2) by (simp_all add: not_le second_chance_def)
      moreover have "steps_after (unat (sdo_SDOtimeoutTime_us S) - unat (sdo_timeoutTimer S)) (dt # dts) =
          steps_after (unat (sdo_SDOtimeoutTime_us S) - unat (sdo_timeoutTimer S + dt)) dts"
        using False u by (simp add: word_le_nat_alt le_diff_conv add.commute)
      ultimately show ?thesis using Cons(1) [of ?S W] Cons(2,4,5) u unfolding p
        by (simp add: add.assoc del: steps_after.simps cong: if_cong)
    qed
  qed
qed

theorem sdo_times_out_witness:
  "\<exists>S' W'. sdo_idle_calls (\<lambda>f arg W. None) (example_env 0) [600000, 400000]
     (example_sdo\<lparr>sdo_state := CO_SDO_ST_DOWNLOAD_SEGMENTED\<rparr>, example_plain_world) = Some (S', W') \<and> finished 0 18 example_dict S'"
proof -
  have t: "sdo_timeoutTimer example_sdo = 0" "sdo_SDOtimeoutTime_us example_sdo = 1000000" by (simp_all add: example_sdo_def)
  have "waiting 0 18 example_dict (example_sdo\<lparr>sdo_state := CO_SDO_ST_DOWNLOAD_SEGMENTED\<rparr>)"
    using example_finished t by (simp add: waiting_def finished_def idle_ok_timer)
  from sdo_times_out [OF this example_link, of "[600000, 400000]" "\<lambda>f arg W. None"] show ?thesis using t by (auto simp: second_chance_def)
qed


subsection \<open>Lost segments of a block\<close>

text \<open>
  After a lost segment the server acknowledges the segments before it and keeps \<^verbatim>\<open>sequence\<close>
  (\<^verbatim>\<open>CO_SDO_ST_DOWNLOAD_BL_SUB_RESP_2\<close>). The SDO client of the stack numbers the segments of the next block from 1 again,
  and the server then takes the first segment for a wrong one.
\<close>

lemma block_restart_rejected:
  assumes "2 \<le> unat (sdo_sequence S)" "rx ! 0 = 1" "\<not> sdo_timeoutSubblockDownolad S" "sdo_storage S \<noteq> ONull" "sdo_bufferOffset S < CO_CONFIG_SDO_BUFFER_SIZE"
    "m ! 0 AND 0x80 = 0"
  shows "\<exists>S1 W1 S2. sdo_download_bl_sub_resp odf txb m CO_SDO_ST_DOWNLOAD_BL_SUB_RESP_2 S W = Some (S1, W1, SdoBreak True False) \<and>
    sdo_state S1 = CO_SDO_ST_DOWNLOAD_BL_SUBBLOCK \<and> sdo_receive_segment rx S1 = Some S2 \<and>
    sdo_state S2 = CO_SDO_ST_DOWNLOAD_BL_SUB_RESP_2 \<and> sdo_bufferOffset S2 = sdo_bufferOffset S \<and> sdo_data S2 = sdo_data S"
proof -
  have "sdo_sequence S \<noteq> 0" "sdo_sequence S \<noteq> 1" using assms(1) by auto
  moreover have "\<not> CO_CONFIG_SDO_BUFFER_SIZE \<le> sdo_bufferOffset S" using assms(5) by simp
  ultimately show ?thesis using assms
    by (auto simp: sdo_download_bl_sub_resp_def sdo_sub_resp_end_def sdo_receive_segment_def CO_SDO_receive_done_def Let_def)
qed

text \<open>
  When the segment behind the lost one is the last of the block, the server continues with the end of the transfer, and
  the repeated segments are refused as an unknown command.
\<close>

lemma lost_before_last_aborts:
  assumes "\<not> sdo_timeoutSubblockDownolad S" "m ! 0 AND 0x80 = 0x80" "rx ! 0 = 1"
  shows "\<exists>S1 W1. sdo_download_bl_sub_resp odf txb m CO_SDO_ST_DOWNLOAD_BL_SUB_RESP_2 S W = Some (S1, W1, SdoBreak True False) \<and>
    sdo_state S1 = CO_SDO_ST_DOWNLOAD_BL_END \<and> sdo_download_bl_end odf txb rx S1 W1 = Some (S1, W1, SdoAbort CO_SDO_AB_CMD)"
  using assms by (auto simp: sdo_download_bl_sub_resp_def sdo_sub_resp_end_def sdo_download_bl_end_def Let_def)

text \<open>The block size in the confirmation of a block upload is not verified: with 0 the server never sends again.\<close>

lemma upload_blksize_zero_stalls:
  assumes "rx ! 0 = 0xA2" "rx ! 1 \<le> sdo_sequence S" "rx ! 2 = 0" "\<not> sdo_endOfTransfer S" "sdo_storage S \<noteq> ONull" "length (sdo_data S) = 889"
    "unat (sdo_dataLength S) \<le> 889" "arg_lastSegment (sdo_ODF_arg S)"
  shows "\<exists>S'. sdo_upload_bl_confirm odf txb rx S W = Some (S', W, SdoBreak False False) \<and> sdo_upload_bl_send txb S' W = Some (S', W, SdoBreak False False)"
proof -
  have "\<not> sdo_sequence S < rx ! 1" using assms(2) by simp
  then show ?thesis using assms
    by (auto simp: sdo_upload_bl_confirm_def sdo_get_data_def sdo_put_data_def sdo_upload_bl_next_def sdo_upload_bl_send_def sdo_upd_arg_def Let_def)
qed

end
