(* ===== verification/LSS_Slave.thy ===== *)
theory LSS_Slave
  imports Emergency Tx_Frames
begin

section \<open>LSS slave (\<^verbatim>\<open>305/CO_LSSslave.c\<close>, \<^verbatim>\<open>CO_LSS.h\<close>)\<close>

text \<open>
  The layer setting services give a node its node-ID and bit rate over the bus. The slave is selected by its LSS address
  (four numbers of 32 bits) or found by the fastscan protocol, and is then configured.

  The address is a union of an array with four elements and a structure with four fields: it is modelled as a list, and
  the fields are its elements in order. \<^verbatim>\<open>pendingBitRate\<close> and \<^verbatim>\<open>pendingNodeID\<close> are pointers to two variables of the
  application; the record holds the variables. Of the callbacks, \<^verbatim>\<open>pFunctLSScheckBitRate\<close> and \<^verbatim>\<open>pFunctLSScfgStore\<close> are
  functions of the application with a result, \<^verbatim>\<open>lsv_activated\<close> and \<^verbatim>\<open>lsv_stored\<close> log the calls with an effect outside. The target
  answers fastscan requests directly in the receive function. A result \<^verbatim>\<open>None\<close> is an access through a transmit buffer
  that is \<^verbatim>\<open>NULL\<close>.
\<close>

subsection \<open>Codes of the protocol\<close>

definition CO_LSS_SWITCH_STATE_GLOBAL :: u8 where "CO_LSS_SWITCH_STATE_GLOBAL = 0x04"
definition CO_LSS_SWITCH_STATE_SEL_VENDOR :: u8 where "CO_LSS_SWITCH_STATE_SEL_VENDOR = 0x40"
definition CO_LSS_SWITCH_STATE_SEL_PRODUCT :: u8 where "CO_LSS_SWITCH_STATE_SEL_PRODUCT = 0x41"
definition CO_LSS_SWITCH_STATE_SEL_REV :: u8 where "CO_LSS_SWITCH_STATE_SEL_REV = 0x42"
definition CO_LSS_SWITCH_STATE_SEL_SERIAL :: u8 where "CO_LSS_SWITCH_STATE_SEL_SERIAL = 0x43"
definition CO_LSS_SWITCH_STATE_SEL :: u8 where "CO_LSS_SWITCH_STATE_SEL = 0x44"
definition CO_LSS_CFG_NODE_ID :: u8 where "CO_LSS_CFG_NODE_ID = 0x11"
definition CO_LSS_CFG_BIT_TIMING :: u8 where "CO_LSS_CFG_BIT_TIMING = 0x13"
definition CO_LSS_CFG_ACTIVATE_BIT_TIMING :: u8 where "CO_LSS_CFG_ACTIVATE_BIT_TIMING = 0x15"
definition CO_LSS_CFG_STORE :: u8 where "CO_LSS_CFG_STORE = 0x17"
definition CO_LSS_IDENT_SLAVE :: u8 where "CO_LSS_IDENT_SLAVE = 0x4F"
definition CO_LSS_IDENT_FASTSCAN :: u8 where "CO_LSS_IDENT_FASTSCAN = 0x51"
definition CO_LSS_INQUIRE_VENDOR :: u8 where "CO_LSS_INQUIRE_VENDOR = 0x5A"
definition CO_LSS_INQUIRE_PRODUCT :: u8 where "CO_LSS_INQUIRE_PRODUCT = 0x5B"
definition CO_LSS_INQUIRE_REV :: u8 where "CO_LSS_INQUIRE_REV = 0x5C"
definition CO_LSS_INQUIRE_SERIAL :: u8 where "CO_LSS_INQUIRE_SERIAL = 0x5D"
definition CO_LSS_INQUIRE_NODE_ID :: u8 where "CO_LSS_INQUIRE_NODE_ID = 0x5E"

definition CO_LSS_CFG_NODE_ID_OK :: u8 where "CO_LSS_CFG_NODE_ID_OK = 0x00"
definition CO_LSS_CFG_NODE_ID_OUT_OF_RANGE :: u8 where "CO_LSS_CFG_NODE_ID_OUT_OF_RANGE = 0x01"
definition CO_LSS_CFG_BIT_TIMING_OK :: u8 where "CO_LSS_CFG_BIT_TIMING_OK = 0x00"
definition CO_LSS_CFG_BIT_TIMING_OUT_OF_RANGE :: u8 where "CO_LSS_CFG_BIT_TIMING_OUT_OF_RANGE = 0x01"
definition CO_LSS_CFG_BIT_TIMING_MANUFACTURER :: u8 where "CO_LSS_CFG_BIT_TIMING_MANUFACTURER = 0xFF"
definition CO_LSS_CFG_STORE_OK :: u8 where "CO_LSS_CFG_STORE_OK = 0x00"
definition CO_LSS_CFG_STORE_NOT_SUPPORTED :: u8 where "CO_LSS_CFG_STORE_NOT_SUPPORTED = 0x01"
definition CO_LSS_CFG_STORE_FAILED :: u8 where "CO_LSS_CFG_STORE_FAILED = 0x02"
definition CO_LSS_FASTSCAN_CONFIRM :: u8 where "CO_LSS_FASTSCAN_CONFIRM = 0x80"
definition CO_LSS_FASTSCAN_BIT31 :: u8 where "CO_LSS_FASTSCAN_BIT31 = 0x1F"
definition CO_LSS_FASTSCAN_BIT0 :: u8 where "CO_LSS_FASTSCAN_BIT0 = 0x00"
definition CO_LSS_FASTSCAN_VENDOR_ID :: u8 where "CO_LSS_FASTSCAN_VENDOR_ID = 0"
definition CO_LSS_FASTSCAN_SERIAL :: u8 where "CO_LSS_FASTSCAN_SERIAL = 3"
definition CO_LSS_NODE_ID_ASSIGNMENT :: u8 where "CO_LSS_NODE_ID_ASSIGNMENT = 0xFF"

definition CO_LSS_FASTSCAN_BITCHECK_VALID :: "u8 \<Rightarrow> bool" where
  "CO_LSS_FASTSCAN_BITCHECK_VALID b \<longleftrightarrow> b \<le> CO_LSS_FASTSCAN_BIT31 \<or> b = CO_LSS_FASTSCAN_CONFIRM"

definition CO_LSS_FASTSCAN_LSS_SUB_NEXT_VALID :: "u8 \<Rightarrow> bool" where
  "CO_LSS_FASTSCAN_LSS_SUB_NEXT_VALID i \<longleftrightarrow> i \<le> CO_LSS_FASTSCAN_SERIAL"

definition CO_LSS_BIT_TIMING_VALID :: "u8 \<Rightarrow> bool" where
  "CO_LSS_BIT_TIMING_VALID i \<longleftrightarrow> i \<noteq> 5 \<and> i \<le> 9"

definition CO_LSS_NODE_ID_VALID :: "u8 \<Rightarrow> bool" where
  "CO_LSS_NODE_ID_VALID nid \<longleftrightarrow> 1 \<le> nid \<and> nid \<le> 0x7F \<or> nid = CO_LSS_NODE_ID_ASSIGNMENT"

definition CO_LSS_bitTimingTableLookup :: "u16 list" where
  "CO_LSS_bitTimingTableLookup = [1000, 800, 500, 250, 125, 0, 50, 20, 10, 0]"

type_synonym CO_LSS_address_t = "u32 list"

definition CO_LSS_ADDRESS_EQUAL :: "CO_LSS_address_t \<Rightarrow> CO_LSS_address_t \<Rightarrow> bool" where
  "CO_LSS_ADDRESS_EQUAL a1 a2 \<longleftrightarrow> a1 ! 1 = a2 ! 1 \<and> a1 ! 2 = a2 ! 2 \<and> a1 ! 3 = a2 ! 3 \<and> a1 ! 0 = a2 ! 0"

datatype CO_LSS_state_t = CO_LSS_STATE_WAITING | CO_LSS_STATE_CONFIGURATION

subsection \<open>State\<close>

record CO_LSSslave_t =
  lsv_lssAddress :: CO_LSS_address_t
  lsv_lssState :: CO_LSS_state_t
  lsv_lssSelect :: CO_LSS_address_t
  lsv_lssFastscan :: CO_LSS_address_t
  lsv_fastscanPos :: u8
  lsv_pendingBitRate :: u16
  lsv_pendingNodeID :: u8
  lsv_activeNodeID :: u8
  lsv_sendResponse :: bool
  lsv_service :: u8
  lsv_CANdata :: "u8 list"
  lsv_pFunctSignalPre :: bool
  lsv_signals :: nat
  lsv_pFunctLSScheckBitRate :: "(u16 \<Rightarrow> bool) option"
  lsv_pFunctLSSactivateBitRate :: bool
  lsv_activated :: "u16 list"
  lsv_pFunctLSScfgStore :: "(u8 \<Rightarrow> u16 \<Rightarrow> bool) option"
  lsv_stored :: "(u8 \<times> u16) list"
  lsv_TXbuff :: "nat option"

subsection \<open>Reception\<close>

definition lss_switch_global :: "u8 list \<Rightarrow> CO_LSSslave_t \<Rightarrow> bool \<times> CO_LSSslave_t" where
  \<comment> \<open>the branch \<^verbatim>\<open>cs == CO_LSS_SWITCH_STATE_GLOBAL\<close>; the first result is \<^verbatim>\<open>request_LSSslave_process\<close>\<close>
  "lss_switch_global data S =
     (if data ! 1 = 0 then
        let req = (lsv_lssState S = CO_LSS_STATE_CONFIGURATION \<and> lsv_activeNodeID S = CO_LSS_NODE_ID_ASSIGNMENT \<and>
                   lsv_pendingNodeID S \<noteq> CO_LSS_NODE_ID_ASSIGNMENT);
            S1 = (if req then S\<lparr>lsv_service := CO_LSS_SWITCH_STATE_GLOBAL\<rparr> else S)
        in (req, S1\<lparr>lsv_lssState := CO_LSS_STATE_WAITING, lsv_lssSelect := replicate 4 0\<rparr>)
      else if data ! 1 = 1 then (False, S\<lparr>lsv_lssState := CO_LSS_STATE_CONFIGURATION\<rparr>)
      else (False, S))"

definition lss_select :: "nat \<Rightarrow> u8 list \<Rightarrow> CO_LSSslave_t \<Rightarrow> CO_LSSslave_t" where
  \<comment> \<open>\<^verbatim>\<open>memcpy(&valSw, &data[1], sizeof(valSw)); LSSslave->lssSelect.identity.<field> = CO_SWAP_32(valSw)\<close>\<close>
  "lss_select i data S = S\<lparr>lsv_lssSelect := (lsv_lssSelect S)[i := CO_getUint32 (drop 1 data)]\<rparr>"

definition lss_fastscan_ack :: "u8 list \<Rightarrow> CO_LSSslave_t \<Rightarrow> bool \<times> CO_LSSslave_t" where
  \<comment> \<open>the case \<^verbatim>\<open>CO_LSS_IDENT_FASTSCAN\<close> up to \<^verbatim>\<open>if (ack)\<close>; the first result is \<^verbatim>\<open>ack\<close>\<close>
  "lss_fastscan_ack data S =
     (let bitCheck = data ! 5; lssSub = data ! 6; lssNext = data ! 7; idNumber = CO_getUint32 (drop 1 data)
      in if lsv_pendingNodeID S \<noteq> CO_LSS_NODE_ID_ASSIGNMENT \<or> lsv_activeNodeID S \<noteq> CO_LSS_NODE_ID_ASSIGNMENT then (False, S)
         else if \<not> CO_LSS_FASTSCAN_BITCHECK_VALID bitCheck \<or> \<not> CO_LSS_FASTSCAN_LSS_SUB_NEXT_VALID lssSub \<or>
                 \<not> CO_LSS_FASTSCAN_LSS_SUB_NEXT_VALID lssNext then (False, S)
         else if bitCheck = CO_LSS_FASTSCAN_CONFIRM
         then (True, S\<lparr>lsv_fastscanPos := CO_LSS_FASTSCAN_VENDOR_ID, lsv_lssFastscan := replicate 4 0\<rparr>)
         else if lsv_fastscanPos S = lssSub then
           let mask = push_bit (unat bitCheck) (0xFFFFFFFF :: u32)
           in if (lsv_lssAddress S ! unat lssSub) AND mask = idNumber AND mask then
                (True, (if bitCheck = 0 \<and> lssNext < lssSub then S\<lparr>lsv_lssState := CO_LSS_STATE_CONFIGURATION\<rparr> else S)
                         \<lparr>lsv_fastscanPos := lssNext\<rparr>)
              else (False, S)
         else (False, S))"

definition lss_waiting :: "can_env \<Rightarrow> u8 list \<Rightarrow> CO_LSSslave_t \<Rightarrow> co_bus \<Rightarrow> (bool \<times> CO_LSSslave_t \<times> co_bus) option" where
  \<comment> \<open>the branch \<^verbatim>\<open>LSSslave->lssState == CO_LSS_STATE_WAITING\<close>\<close>
  "lss_waiting env data S bus =
     (let cs = data ! 0
      in if cs = CO_LSS_SWITCH_STATE_SEL_VENDOR then Some (False, lss_select 0 data S, bus)
         else if cs = CO_LSS_SWITCH_STATE_SEL_PRODUCT then Some (False, lss_select 1 data S, bus)
         else if cs = CO_LSS_SWITCH_STATE_SEL_REV then Some (False, lss_select 2 data S, bus)
         else if cs = CO_LSS_SWITCH_STATE_SEL_SERIAL then
           let S1 = lss_select 3 data S
           in if CO_LSS_ADDRESS_EQUAL (lsv_lssAddress S1) (lsv_lssSelect S1)
              then Some (True, S1\<lparr>lsv_lssState := CO_LSS_STATE_CONFIGURATION, lsv_service := cs\<rparr>, bus)
              else Some (False, S1, bus)
         else if cs = CO_LSS_IDENT_FASTSCAN then
           (case lss_fastscan_ack data S of
              (ack, S1) \<Rightarrow>
                if ack then
                  (case lsv_TXbuff S1 of
                     None \<Rightarrow> None
                   | Some txb \<Rightarrow> Some (False, S1, bus_send env txb (bus_put txb 0 (CO_LSS_IDENT_SLAVE # replicate 7 0) bus)))
                else Some (False, S1, bus))
         else Some (False, S, bus))"

definition CO_LSSslave_receive :: "can_env \<Rightarrow> CO_LSSslave_t \<Rightarrow> co_bus \<Rightarrow> CO_CANrxMsg_t \<Rightarrow> (CO_LSSslave_t \<times> co_bus) option" where
  "CO_LSSslave_receive env S bus msg =
     (let data = rxm_data msg; cs = data ! 0
      in if rxm_DLC msg = 8 \<and> \<not> lsv_sendResponse S then do {
           (req, S1, bus1) \<leftarrow>
             (if cs = CO_LSS_SWITCH_STATE_GLOBAL then (case lss_switch_global data S of (req, S1) \<Rightarrow> Some (req, S1, bus))
              else if lsv_lssState S = CO_LSS_STATE_WAITING then lss_waiting env data S bus
              else Some (True, S\<lparr>lsv_CANdata := take 8 data, lsv_service := cs\<rparr>, bus));
           Some (if req then S1\<lparr>lsv_sendResponse := True,
                                lsv_signals := (if lsv_pFunctSignalPre S1 then lsv_signals S1 + 1 else lsv_signals S1)\<rparr>
                 else S1, bus1)
         }
         else Some (S, bus))"

subsection \<open>Initialisation\<close>

definition obj_lss_slave :: nat where "obj_lss_slave = 40"

text \<open>
  The tests for \<^verbatim>\<open>NULL\<close> of the variables and the CAN modules have no counterpart. The old contents of the object are
  cleared; the logs are not part of the object.
\<close>

definition CO_LSSslave_init ::
    "can_env \<Rightarrow> CO_LSS_address_t \<Rightarrow> u16 \<Rightarrow> u8 \<Rightarrow> co_bus \<Rightarrow> u16 \<Rightarrow> u32 \<Rightarrow> u16 \<Rightarrow> u32 \<Rightarrow>
     CO_ReturnError_t \<times> CO_LSSslave_t option \<times> co_bus" where
  "CO_LSSslave_init env lssAddress pendingBitRate pendingNodeID bus CANdevRxIdx CANidLssMaster CANdevTxIdx CANidLssSlave =
     (if \<not> CO_LSS_NODE_ID_VALID pendingNodeID then (CO_ERROR_ILLEGAL_ARGUMENT, None, bus)
      else
        let (ret, bus1) = CO_CANrxBufferInit env bus CANdevRxIdx (ucast CANidLssMaster) 0x7FF False (Some obj_lss_slave) (Some CB_LSSslave_receive);
            (tx, bus2) = CO_CANtxBufferInit env bus1 CANdevTxIdx (ucast CANidLssSlave) False 8 False
        in (if tx = None then CO_ERROR_ILLEGAL_ARGUMENT else ret,
            Some \<lparr>lsv_lssAddress = lssAddress, lsv_lssState = CO_LSS_STATE_WAITING, lsv_lssSelect = replicate 4 0,
                  lsv_lssFastscan = replicate 4 0, lsv_fastscanPos = CO_LSS_FASTSCAN_VENDOR_ID, lsv_pendingBitRate = pendingBitRate,
                  lsv_pendingNodeID = pendingNodeID, lsv_activeNodeID = pendingNodeID, lsv_sendResponse = False, lsv_service = 0,
                  lsv_CANdata = replicate 8 0, lsv_pFunctSignalPre = False, lsv_signals = 0, lsv_pFunctLSScheckBitRate = None,
                  lsv_pFunctLSSactivateBitRate = False, lsv_activated = [], lsv_pFunctLSScfgStore = None, lsv_stored = [],
                  lsv_TXbuff = tx\<rparr>, bus2))"

definition CO_LSSslave_initCallbackPre :: "CO_LSSslave_t option \<Rightarrow> bool \<Rightarrow> CO_LSSslave_t option" where
  "CO_LSSslave_initCallbackPre LSSslave f = map_option (\<lambda>S. S\<lparr>lsv_pFunctSignalPre := f\<rparr>) LSSslave"

definition CO_LSSslave_initCheckBitRateCallback :: "CO_LSSslave_t option \<Rightarrow> (u16 \<Rightarrow> bool) option \<Rightarrow> CO_LSSslave_t option" where
  "CO_LSSslave_initCheckBitRateCallback LSSslave f = map_option (\<lambda>S. S\<lparr>lsv_pFunctLSScheckBitRate := f\<rparr>) LSSslave"

definition CO_LSSslave_initActivateBitRateCallback :: "CO_LSSslave_t option \<Rightarrow> bool \<Rightarrow> CO_LSSslave_t option" where
  "CO_LSSslave_initActivateBitRateCallback LSSslave f = map_option (\<lambda>S. S\<lparr>lsv_pFunctLSSactivateBitRate := f\<rparr>) LSSslave"

definition CO_LSSslave_initCfgStoreCallback :: "CO_LSSslave_t option \<Rightarrow> (u8 \<Rightarrow> u16 \<Rightarrow> bool) option \<Rightarrow> CO_LSSslave_t option" where
  "CO_LSSslave_initCfgStoreCallback LSSslave f = map_option (\<lambda>S. S\<lparr>lsv_pFunctLSScfgStore := f\<rparr>) LSSslave"

definition CO_LSSslave_getState :: "CO_LSSslave_t option \<Rightarrow> CO_LSS_state_t" where
  "CO_LSSslave_getState LSSslave = (case LSSslave of None \<Rightarrow> CO_LSS_STATE_WAITING | Some S \<Rightarrow> lsv_lssState S)"

subsection \<open>Processing\<close>

definition lss_cfg_node_id :: "CO_LSSslave_t \<Rightarrow> u8 list option \<times> CO_LSSslave_t" where
  \<comment> \<open>the case \<^verbatim>\<open>CO_LSS_CFG_NODE_ID\<close>; the first result are the bytes of the answer, if one is sent\<close>
  "lss_cfg_node_id S =
     (let nid = lsv_CANdata S ! 1
      in if CO_LSS_NODE_ID_VALID nid then (Some [lsv_service S, CO_LSS_CFG_NODE_ID_OK], S\<lparr>lsv_pendingNodeID := nid\<rparr>)
         else (Some [lsv_service S, CO_LSS_CFG_NODE_ID_OUT_OF_RANGE], S))"

definition lss_cfg_bit_timing :: "CO_LSSslave_t \<Rightarrow> u8 list option \<times> CO_LSSslave_t" where
  "lss_cfg_bit_timing S =
     (case lsv_pFunctLSScheckBitRate S of
        None \<Rightarrow> (None, S)
      | Some check \<Rightarrow>
          let tableSelector = lsv_CANdata S ! 1; tableIndex = lsv_CANdata S ! 2
          in if tableSelector = 0 \<and> CO_LSS_BIT_TIMING_VALID tableIndex then
               let bitrate = CO_LSS_bitTimingTableLookup ! unat tableIndex
               in if check bitrate
                  then (Some [lsv_service S, CO_LSS_CFG_BIT_TIMING_OK, CO_LSS_CFG_BIT_TIMING_OK], S\<lparr>lsv_pendingBitRate := bitrate\<rparr>)
                  else (Some [lsv_service S, CO_LSS_CFG_BIT_TIMING_MANUFACTURER, CO_LSS_CFG_BIT_TIMING_OUT_OF_RANGE], S)
             else (Some [lsv_service S, CO_LSS_CFG_BIT_TIMING_OUT_OF_RANGE, CO_LSS_CFG_BIT_TIMING_OK], S))"

definition lss_activate :: "CO_LSSslave_t \<Rightarrow> CO_LSSslave_t" where
  "lss_activate S =
     (if lsv_pFunctLSScheckBitRate S = None \<or> \<not> lsv_pFunctLSSactivateBitRate S then S
      else S\<lparr>lsv_activated := lsv_activated S @ [push_bit 8 (ucast (lsv_CANdata S ! 2)) OR ucast (lsv_CANdata S ! 1)]\<rparr>)"

definition lss_cfg_store :: "CO_LSSslave_t \<Rightarrow> u8 list option \<times> CO_LSSslave_t" where
  "lss_cfg_store S =
     (case lsv_pFunctLSScfgStore S of
        None \<Rightarrow> (Some [lsv_service S, CO_LSS_CFG_STORE_NOT_SUPPORTED], S)
      | Some store \<Rightarrow>
          (Some [lsv_service S, if store (lsv_pendingNodeID S) (lsv_pendingBitRate S) then CO_LSS_CFG_STORE_OK else CO_LSS_CFG_STORE_FAILED],
           S\<lparr>lsv_stored := lsv_stored S @ [(lsv_pendingNodeID S, lsv_pendingBitRate S)]\<rparr>))"

definition lss_inquire :: "nat \<Rightarrow> CO_LSSslave_t \<Rightarrow> u8 list option \<times> CO_LSSslave_t" where
  \<comment> \<open>the cases \<^verbatim>\<open>CO_LSS_INQUIRE_VENDOR\<close> to \<^verbatim>\<open>CO_LSS_INQUIRE_SERIAL\<close>\<close>
  "lss_inquire i S = (Some (lsv_service S # le_bytes 4 (unat (lsv_lssAddress S ! i))), S)"

definition lss_service :: "CO_LSSslave_t \<Rightarrow> bool \<times> u8 list option \<times> CO_LSSslave_t" where
  \<comment> \<open>the \<^verbatim>\<open>switch\<close> of \<^verbatim>\<open>CO_LSSslave_process\<close>; the first result is \<^verbatim>\<open>resetCommunication\<close>\<close>
  "lss_service S =
     (let s = lsv_service S
      in if s = CO_LSS_SWITCH_STATE_GLOBAL then (True, None, S)
         else if s = CO_LSS_SWITCH_STATE_SEL_SERIAL then (False, Some [CO_LSS_SWITCH_STATE_SEL], S)
         else if s = CO_LSS_CFG_NODE_ID then (False, lss_cfg_node_id S)
         else if s = CO_LSS_CFG_BIT_TIMING then (False, lss_cfg_bit_timing S)
         else if s = CO_LSS_CFG_ACTIVATE_BIT_TIMING then (False, None, lss_activate S)
         else if s = CO_LSS_CFG_STORE then (False, lss_cfg_store S)
         else if s = CO_LSS_INQUIRE_VENDOR then (False, lss_inquire 0 S)
         else if s = CO_LSS_INQUIRE_PRODUCT then (False, lss_inquire 1 S)
         else if s = CO_LSS_INQUIRE_REV then (False, lss_inquire 2 S)
         else if s = CO_LSS_INQUIRE_SERIAL then (False, lss_inquire 3 S)
         else if s = CO_LSS_INQUIRE_NODE_ID then (False, Some [s, lsv_activeNodeID S], S)
         else if s = CO_LSS_IDENT_FASTSCAN then (False, Some [CO_LSS_IDENT_SLAVE], S)
         else (False, None, S))"

definition CO_LSSslave_process :: "can_env \<Rightarrow> CO_LSSslave_t \<Rightarrow> co_bus \<Rightarrow> (bool \<times> CO_LSSslave_t \<times> co_bus) option" where
  "CO_LSSslave_process env S bus =
     (if lsv_sendResponse S then do {
        txb \<leftarrow> lsv_TXbuff S;
        let bus1 = bus_put txb 0 (replicate 8 0) bus;
        let (reset, answer, S1) = lss_service S;
        let bus2 = (case answer of None \<Rightarrow> bus1 | Some bs \<Rightarrow> bus_send env txb (bus_put txb 0 bs bus1));
        Some (reset, S1\<lparr>lsv_sendResponse := False\<rparr>, bus2)
      }
      else Some (False, S, bus))"

lemmas lss_codes = CO_LSS_SWITCH_STATE_GLOBAL_def CO_LSS_SWITCH_STATE_SEL_VENDOR_def CO_LSS_SWITCH_STATE_SEL_PRODUCT_def
  CO_LSS_SWITCH_STATE_SEL_REV_def CO_LSS_SWITCH_STATE_SEL_SERIAL_def CO_LSS_SWITCH_STATE_SEL_def CO_LSS_CFG_NODE_ID_def
  CO_LSS_CFG_BIT_TIMING_def CO_LSS_CFG_ACTIVATE_BIT_TIMING_def CO_LSS_CFG_STORE_def CO_LSS_IDENT_SLAVE_def
  CO_LSS_IDENT_FASTSCAN_def CO_LSS_INQUIRE_VENDOR_def CO_LSS_INQUIRE_PRODUCT_def CO_LSS_INQUIRE_REV_def
  CO_LSS_INQUIRE_SERIAL_def CO_LSS_INQUIRE_NODE_ID_def

end
