(* ===== verification/LSS_Master.thy ===== *)
theory LSS_Master
  imports LSS_Slave
begin

section \<open>LSS master (\<^verbatim>\<open>305/CO_LSSmaster.c\<close>)\<close>

text \<open>
  The master selects slaves, configures them, reads their LSS address and finds slaves without a node-ID with the fastscan
  protocol. The functions are called again and again until they no longer return \<^verbatim>\<open>CO_LSSmaster_WAIT_SLAVE\<close>; a
  parameter that the C code writes through a pointer (\<^verbatim>\<open>value\<close>, \<^verbatim>\<open>lssAddress\<close>, \<^verbatim>\<open>fastscan\<close>) is an argument and a result.
  A result \<^verbatim>\<open>None\<close> is an access through a transmit buffer that is \<^verbatim>\<open>NULL\<close>. The tests of the pointer arguments
  for \<^verbatim>\<open>NULL\<close> have no counterpart.
\<close>

subsection \<open>State\<close>

datatype CO_LSSmaster_state_t = CO_LSSmaster_STATE_WAITING | CO_LSSmaster_STATE_CFG_SLECTIVE | CO_LSSmaster_STATE_CFG_GLOBAL

datatype CO_LSSmaster_command_t =
    CO_LSSmaster_COMMAND_WAITING | CO_LSSmaster_COMMAND_SWITCH_STATE | CO_LSSmaster_COMMAND_CFG_BIT_TIMING
  | CO_LSSmaster_COMMAND_CFG_NODE_ID | CO_LSSmaster_COMMAND_CFG_STORE | CO_LSSmaster_COMMAND_INQUIRE_VENDOR
  | CO_LSSmaster_COMMAND_INQUIRE_PRODUCT | CO_LSSmaster_COMMAND_INQUIRE_REV | CO_LSSmaster_COMMAND_INQUIRE_SERIAL
  | CO_LSSmaster_COMMAND_INQUIRE | CO_LSSmaster_COMMAND_IDENTIFY_FASTSCAN

datatype CO_LSSmaster_fs_t = CO_LSSmaster_FS_STATE_CHECK | CO_LSSmaster_FS_STATE_SCAN | CO_LSSmaster_FS_STATE_VERIFY

datatype CO_LSSmaster_return_t =
    CO_LSSmaster_SCAN_FINISHED | CO_LSSmaster_WAIT_SLAVE | CO_LSSmaster_OK | CO_LSSmaster_TIMEOUT | CO_LSSmaster_ILLEGAL_ARGUMENT
  | CO_LSSmaster_INVALID_STATE | CO_LSSmaster_SCAN_NOACK | CO_LSSmaster_SCAN_FAILED | CO_LSSmaster_OK_ILLEGAL_ARGUMENT
  | CO_LSSmaster_OK_MANUFACTURER

fun lss_return_code :: "CO_LSSmaster_return_t \<Rightarrow> int" where
  "lss_return_code CO_LSSmaster_SCAN_FINISHED = 2"
| "lss_return_code CO_LSSmaster_WAIT_SLAVE = 1"
| "lss_return_code CO_LSSmaster_OK = 0"
| "lss_return_code CO_LSSmaster_TIMEOUT = -1"
| "lss_return_code CO_LSSmaster_ILLEGAL_ARGUMENT = -2"
| "lss_return_code CO_LSSmaster_INVALID_STATE = -3"
| "lss_return_code CO_LSSmaster_SCAN_NOACK = -4"
| "lss_return_code CO_LSSmaster_SCAN_FAILED = -5"
| "lss_return_code CO_LSSmaster_OK_ILLEGAL_ARGUMENT = -101"
| "lss_return_code CO_LSSmaster_OK_MANUFACTURER = -102"

record CO_LSSmaster_t =
  lsm_timeout_us :: u32
  lsm_state :: CO_LSSmaster_state_t
  lsm_command :: CO_LSSmaster_command_t
  lsm_timeoutTimer :: u32
  lsm_fsState :: CO_LSSmaster_fs_t
  lsm_fsLssSub :: u8
  lsm_fsBitChecked :: u8
  lsm_fsIdNumber :: u32
  lsm_CANrxNew :: bool
  lsm_CANrxData :: "u8 list"
  lsm_pFunctSignal :: bool
  lsm_signals :: nat
  lsm_TXbuff :: "nat option"

datatype CO_LSSmaster_scantype_t = CO_LSSmaster_FS_SCAN | CO_LSSmaster_FS_SKIP | CO_LSSmaster_FS_MATCH

record CO_LSSmaster_fastscan_t =
  fs_scan :: "CO_LSSmaster_scantype_t list"
  fs_match :: CO_LSS_address_t
  fs_found :: CO_LSS_address_t

type_synonym lss_result = "(CO_LSSmaster_return_t \<times> CO_LSSmaster_t \<times> co_bus) option"

definition lss_finished :: "CO_LSSmaster_return_t \<Rightarrow> CO_LSSmaster_t \<Rightarrow> CO_LSSmaster_t" where
  \<comment> \<open>\<^verbatim>\<open>if (ret!=CO_LSSmaster_INVALID_STATE && ret!=CO_LSSmaster_WAIT_SLAVE) ... command = CO_LSSmaster_COMMAND_WAITING\<close>\<close>
  "lss_finished ret M =
     (if ret \<noteq> CO_LSSmaster_INVALID_STATE \<and> ret \<noteq> CO_LSSmaster_WAIT_SLAVE then M\<lparr>lsm_command := CO_LSSmaster_COMMAND_WAITING\<rparr> else M)"

definition lss_request :: "can_env \<Rightarrow> u8 list \<Rightarrow> CO_LSSmaster_t \<Rightarrow> co_bus \<Rightarrow> (CO_LSSmaster_t \<times> co_bus) option" where
  \<comment> \<open>\<^verbatim>\<open>CO_FLAG_CLEAR(LSSmaster->CANrxNew)\<close>, all bytes of \<^verbatim>\<open>TXbuff->data\<close> are assigned, and \<^verbatim>\<open>CO_CANsend\<close>\<close>
  "lss_request env bs M bus =
     (case lsm_TXbuff M of
        None \<Rightarrow> None
      | Some txb \<Rightarrow> Some (M\<lparr>lsm_CANrxNew := False\<rparr>, bus_send env txb (bus_put txb 0 bs bus)))"

subsection \<open>Reception, timeout and initialisation\<close>

definition CO_LSSmaster_receive :: "CO_LSSmaster_t \<Rightarrow> CO_CANrxMsg_t \<Rightarrow> CO_LSSmaster_t" where
  "CO_LSSmaster_receive M msg =
     (if rxm_DLC msg = 8 \<and> \<not> lsm_CANrxNew M \<and> lsm_command M \<noteq> CO_LSSmaster_COMMAND_WAITING
      then M\<lparr>lsm_CANrxData := take 8 (rxm_data msg), lsm_CANrxNew := True,
             lsm_signals := (if lsm_pFunctSignal M then lsm_signals M + 1 else lsm_signals M)\<rparr>
      else M)"

definition CO_LSSmaster_check_timeout :: "CO_LSSmaster_t \<Rightarrow> u32 \<Rightarrow> CO_LSSmaster_return_t \<times> CO_LSSmaster_t" where
  "CO_LSSmaster_check_timeout M dt =
     (let t = lsm_timeoutTimer M + dt
      in if lsm_timeout_us M \<le> t then (CO_LSSmaster_TIMEOUT, M\<lparr>lsm_timeoutTimer := 0\<rparr>)
         else (CO_LSSmaster_WAIT_SLAVE, M\<lparr>lsm_timeoutTimer := t\<rparr>))"

definition obj_lss_master :: nat where "obj_lss_master = 41"

text \<open>The fields of the fastscan keep their values.\<close>

definition CO_LSSmaster_init ::
    "can_env \<Rightarrow> CO_LSSmaster_t option \<Rightarrow> u16 \<Rightarrow> co_bus \<Rightarrow> u16 \<Rightarrow> u32 \<Rightarrow> u16 \<Rightarrow> u32 \<Rightarrow> CO_ReturnError_t \<times> CO_LSSmaster_t option \<times> co_bus" where
  "CO_LSSmaster_init env LSSmaster timeout_ms bus CANdevRxIdx CANidLssSlave CANdevTxIdx CANidLssMaster =
     (case LSSmaster of
        None \<Rightarrow> (CO_ERROR_ILLEGAL_ARGUMENT, None, bus)
      | Some M \<Rightarrow>
          let (ret, bus1) = CO_CANrxBufferInit env bus CANdevRxIdx (ucast CANidLssSlave) 0x7FF False (Some obj_lss_master) (Some CB_LSSmaster_receive);
              (tx, bus2) = CO_CANtxBufferInit env bus1 CANdevTxIdx (ucast CANidLssMaster) False 8 False
          in (if tx = None then CO_ERROR_ILLEGAL_ARGUMENT else ret,
              Some (M\<lparr>lsm_timeout_us := ucast timeout_ms * 1000, lsm_state := CO_LSSmaster_STATE_WAITING,
                      lsm_command := CO_LSSmaster_COMMAND_WAITING, lsm_timeoutTimer := 0, lsm_CANrxNew := False,
                      lsm_CANrxData := replicate 8 0, lsm_pFunctSignal := False, lsm_TXbuff := tx\<rparr>), bus2))"

definition CO_LSSmaster_changeTimeout :: "CO_LSSmaster_t option \<Rightarrow> u16 \<Rightarrow> CO_LSSmaster_t option" where
  "CO_LSSmaster_changeTimeout LSSmaster timeout_ms = map_option (\<lambda>M. M\<lparr>lsm_timeout_us := ucast timeout_ms * 1000\<rparr>) LSSmaster"

definition CO_LSSmaster_initCallbackPre :: "CO_LSSmaster_t option \<Rightarrow> bool \<Rightarrow> CO_LSSmaster_t option" where
  "CO_LSSmaster_initCallbackPre LSSmaster f = map_option (\<lambda>M. M\<lparr>lsm_pFunctSignal := f\<rparr>) LSSmaster"

subsection \<open>Selection\<close>

definition lss_select_frame :: "u8 \<Rightarrow> u32 \<Rightarrow> u8 list" where
  "lss_select_frame cs v = cs # le_bytes 4 (unat v)"

definition CO_LSSmaster_switchStateSelectInitiate ::
    "can_env \<Rightarrow> CO_LSSmaster_t \<Rightarrow> co_bus \<Rightarrow> CO_LSS_address_t option \<Rightarrow> lss_result" where
  "CO_LSSmaster_switchStateSelectInitiate env M bus lssAddress =
     (case lssAddress of
        Some a \<Rightarrow> do {
          txb \<leftarrow> lsm_TXbuff M;
          let send = (\<lambda>cs i b. bus_send env txb (bus_put txb 0 (lss_select_frame cs (a ! i)) b));
          Some (CO_LSSmaster_WAIT_SLAVE,
                M\<lparr>lsm_state := CO_LSSmaster_STATE_CFG_SLECTIVE, lsm_command := CO_LSSmaster_COMMAND_SWITCH_STATE,
                  lsm_timeoutTimer := 0, lsm_CANrxNew := False\<rparr>,
                send CO_LSS_SWITCH_STATE_SEL_SERIAL 3 (send CO_LSS_SWITCH_STATE_SEL_REV 2
                  (send CO_LSS_SWITCH_STATE_SEL_PRODUCT 1 (send CO_LSS_SWITCH_STATE_SEL_VENDOR 0 (bus_put txb 6 [0, 0] bus)))))
        }
      | None \<Rightarrow> do {
          (M1, bus1) \<leftarrow> lss_request env ([CO_LSS_SWITCH_STATE_GLOBAL, 1] @ replicate 6 0) (M\<lparr>lsm_state := CO_LSSmaster_STATE_CFG_GLOBAL\<rparr>) bus;
          Some (CO_LSSmaster_OK, M1, bus1)
        })"

definition CO_LSSmaster_switchStateSelectWait :: "CO_LSSmaster_t \<Rightarrow> u32 \<Rightarrow> CO_LSSmaster_return_t \<times> CO_LSSmaster_t" where
  "CO_LSSmaster_switchStateSelectWait M dt =
     (if lsm_CANrxNew M then
        let M1 = M\<lparr>lsm_CANrxNew := False\<rparr>
        in if lsm_CANrxData M ! 0 = CO_LSS_SWITCH_STATE_SEL then (CO_LSSmaster_OK, M1) else CO_LSSmaster_check_timeout M1 dt
      else CO_LSSmaster_check_timeout M dt)"

definition CO_LSSmaster_switchStateSelect ::
    "can_env \<Rightarrow> CO_LSSmaster_t \<Rightarrow> co_bus \<Rightarrow> u32 \<Rightarrow> CO_LSS_address_t option \<Rightarrow> lss_result" where
  "CO_LSSmaster_switchStateSelect env M bus dt lssAddress = do {
     (ret, M1, bus1) \<leftarrow>
       (if lsm_state M = CO_LSSmaster_STATE_WAITING \<and> lsm_command M = CO_LSSmaster_COMMAND_WAITING
        then CO_LSSmaster_switchStateSelectInitiate env M bus lssAddress
        else if lsm_command M = CO_LSSmaster_COMMAND_SWITCH_STATE
        then (case CO_LSSmaster_switchStateSelectWait M dt of (ret, M1) \<Rightarrow> Some (ret, M1, bus))
        else Some (CO_LSSmaster_INVALID_STATE, M, bus));
     let M2 = lss_finished ret M1;
     Some (ret, if lss_return_code ret < lss_return_code CO_LSSmaster_OK
                then M2\<lparr>lsm_state := CO_LSSmaster_STATE_WAITING, lsm_command := CO_LSSmaster_COMMAND_WAITING\<rparr> else M2, bus1)
   }"

definition CO_LSSmaster_switchStateDeselect :: "can_env \<Rightarrow> CO_LSSmaster_t \<Rightarrow> co_bus \<Rightarrow> lss_result" where
  "CO_LSSmaster_switchStateDeselect env M bus = do {
     (M1, bus1) \<leftarrow> lss_request env ([CO_LSS_SWITCH_STATE_GLOBAL, 0] @ replicate 6 0)
       (M\<lparr>lsm_state := CO_LSSmaster_STATE_WAITING, lsm_command := CO_LSSmaster_COMMAND_WAITING, lsm_timeoutTimer := 0\<rparr>) bus;
     Some (CO_LSSmaster_OK, M1, bus1)
   }"

subsection \<open>Configuration\<close>

definition CO_LSSmaster_configureCheckWait :: "CO_LSSmaster_t \<Rightarrow> u32 \<Rightarrow> u8 \<Rightarrow> CO_LSSmaster_return_t \<times> CO_LSSmaster_t" where
  "CO_LSSmaster_configureCheckWait M dt csWait =
     (let (ret, M1) =
        (if lsm_CANrxNew M then
           let M1 = M\<lparr>lsm_CANrxNew := False\<rparr>; errorCode = lsm_CANrxData M ! 1
           in if lsm_CANrxData M ! 0 = csWait
              then (if errorCode = 0 then CO_LSSmaster_OK else if errorCode = 0xFF then CO_LSSmaster_OK_MANUFACTURER
                    else CO_LSSmaster_OK_ILLEGAL_ARGUMENT, M1)
              else CO_LSSmaster_check_timeout M1 dt
         else CO_LSSmaster_check_timeout M dt)
      in (ret, lss_finished ret M1))"

definition lss_configure ::
    "can_env \<Rightarrow> bool \<Rightarrow> CO_LSSmaster_command_t \<Rightarrow> u8 \<Rightarrow> u8 list \<Rightarrow> CO_LSSmaster_t \<Rightarrow> co_bus \<Rightarrow> u32 \<Rightarrow> lss_result" where
  \<comment> \<open>the common part of the three functions that configure: initiate, wait for the confirmation, finish\<close>
  "lss_configure env start command cs bs M bus dt = do {
     (ret, M1, bus1) \<leftarrow>
       (if start \<and> lsm_command M = CO_LSSmaster_COMMAND_WAITING then do {
          (M1, bus1) \<leftarrow> lss_request env bs (M\<lparr>lsm_command := command, lsm_timeoutTimer := 0\<rparr>) bus;
          Some (CO_LSSmaster_WAIT_SLAVE, M1, bus1)
        }
        else if lsm_command M = command then (case CO_LSSmaster_configureCheckWait M dt cs of (ret, M1) \<Rightarrow> Some (ret, M1, bus))
        else Some (CO_LSSmaster_INVALID_STATE, M, bus));
     Some (ret, lss_finished ret M1, bus1)
   }"

definition lss_bit_timing :: "u16 \<Rightarrow> u8 option" where
  \<comment> \<open>\<^verbatim>\<open>switch (bit)\<close> of \<^verbatim>\<open>CO_LSSmaster_configureBitTiming\<close>\<close>
  "lss_bit_timing b =
     (if b = 1000 then Some 0 else if b = 800 then Some 1 else if b = 500 then Some 2 else if b = 250 then Some 3
      else if b = 125 then Some 4 else if b = 50 then Some 6 else if b = 20 then Some 7 else if b = 10 then Some 8
      else if b = 0 then Some 9 else None)"

definition CO_LSSmaster_configureBitTiming :: "can_env \<Rightarrow> CO_LSSmaster_t \<Rightarrow> co_bus \<Rightarrow> u32 \<Rightarrow> u16 \<Rightarrow> lss_result" where
  "CO_LSSmaster_configureBitTiming env M bus dt b =
     (case lss_bit_timing b of
        None \<Rightarrow> Some (CO_LSSmaster_ILLEGAL_ARGUMENT, M, bus)
      | Some bitTiming \<Rightarrow>
          lss_configure env (lsm_state M = CO_LSSmaster_STATE_CFG_SLECTIVE) CO_LSSmaster_COMMAND_CFG_BIT_TIMING CO_LSS_CFG_BIT_TIMING
            ([CO_LSS_CFG_BIT_TIMING, 0, bitTiming] @ replicate 5 0) M bus dt)"

definition CO_LSSmaster_configureNodeId :: "can_env \<Rightarrow> CO_LSSmaster_t \<Rightarrow> co_bus \<Rightarrow> u32 \<Rightarrow> u8 \<Rightarrow> lss_result" where
  "CO_LSSmaster_configureNodeId env M bus dt nodeId =
     (if \<not> CO_LSS_NODE_ID_VALID nodeId then Some (CO_LSSmaster_ILLEGAL_ARGUMENT, M, bus)
      else lss_configure env
        (lsm_state M = CO_LSSmaster_STATE_CFG_SLECTIVE \<or> lsm_state M = CO_LSSmaster_STATE_CFG_GLOBAL \<and> nodeId = CO_LSS_NODE_ID_ASSIGNMENT)
        CO_LSSmaster_COMMAND_CFG_NODE_ID CO_LSS_CFG_NODE_ID ([CO_LSS_CFG_NODE_ID, nodeId] @ replicate 6 0) M bus dt)"

definition CO_LSSmaster_configureStore :: "can_env \<Rightarrow> CO_LSSmaster_t \<Rightarrow> co_bus \<Rightarrow> u32 \<Rightarrow> lss_result" where
  "CO_LSSmaster_configureStore env M bus dt =
     lss_configure env (lsm_state M = CO_LSSmaster_STATE_CFG_SLECTIVE) CO_LSSmaster_COMMAND_CFG_STORE CO_LSS_CFG_STORE
       ([CO_LSS_CFG_STORE] @ replicate 7 0) M bus dt"

definition CO_LSSmaster_ActivateBit :: "can_env \<Rightarrow> CO_LSSmaster_t \<Rightarrow> co_bus \<Rightarrow> u16 \<Rightarrow> lss_result" where
  "CO_LSSmaster_ActivateBit env M bus switchDelay_ms =
     (if lsm_state M = CO_LSSmaster_STATE_CFG_GLOBAL \<and> lsm_command M = CO_LSSmaster_COMMAND_WAITING then do {
        (M1, bus1) \<leftarrow> lss_request env ([CO_LSS_CFG_ACTIVATE_BIT_TIMING] @ le_bytes 2 (unat switchDelay_ms) @ replicate 5 0) M bus;
        Some (CO_LSSmaster_OK, M1, bus1)
      }
      else Some (CO_LSSmaster_INVALID_STATE, M, bus))"

subsection \<open>Inquiries\<close>

definition CO_LSSmaster_inquireInitiate :: "can_env \<Rightarrow> CO_LSSmaster_t \<Rightarrow> co_bus \<Rightarrow> u8 \<Rightarrow> lss_result" where
  "CO_LSSmaster_inquireInitiate env M bus cs =
     map_option (\<lambda>(M1, bus1). (CO_LSSmaster_WAIT_SLAVE, M1, bus1)) (lss_request env ([cs] @ replicate 7 0) M bus)"

definition CO_LSSmaster_inquireCheckWait :: "CO_LSSmaster_t \<Rightarrow> u32 \<Rightarrow> u8 \<Rightarrow> u32 \<Rightarrow> CO_LSSmaster_return_t \<times> CO_LSSmaster_t \<times> u32" where
  "CO_LSSmaster_inquireCheckWait M dt csWait value =
     (if lsm_CANrxNew M then
        let M1 = M\<lparr>lsm_CANrxNew := False\<rparr>; v = CO_getUint32 (drop 1 (lsm_CANrxData M))
        in if lsm_CANrxData M ! 0 = csWait then (CO_LSSmaster_OK, M1, v)
           else (case CO_LSSmaster_check_timeout M1 dt of (ret, M2) \<Rightarrow> (ret, M2, v))
      else (case CO_LSSmaster_check_timeout M dt of (ret, M1) \<Rightarrow> (ret, M1, value)))"

fun lss_inquiry :: "CO_LSSmaster_command_t \<Rightarrow> (u8 \<times> nat \<times> CO_LSSmaster_command_t) option" where
  \<comment> \<open>request, index of the number in the address, next command (\<^verbatim>\<open>CO_LSSmaster_COMMAND_WAITING\<close> after the last)\<close>
  "lss_inquiry CO_LSSmaster_COMMAND_INQUIRE_VENDOR = Some (CO_LSS_INQUIRE_VENDOR, 0, CO_LSSmaster_COMMAND_INQUIRE_PRODUCT)"
| "lss_inquiry CO_LSSmaster_COMMAND_INQUIRE_PRODUCT = Some (CO_LSS_INQUIRE_PRODUCT, 1, CO_LSSmaster_COMMAND_INQUIRE_REV)"
| "lss_inquiry CO_LSSmaster_COMMAND_INQUIRE_REV = Some (CO_LSS_INQUIRE_REV, 2, CO_LSSmaster_COMMAND_INQUIRE_SERIAL)"
| "lss_inquiry CO_LSSmaster_COMMAND_INQUIRE_SERIAL = Some (CO_LSS_INQUIRE_SERIAL, 3, CO_LSSmaster_COMMAND_WAITING)"
| "lss_inquiry _ = None"

definition lss_inquiry_reply ::
    "CO_LSSmaster_t \<Rightarrow> u32 \<Rightarrow> CO_LSS_address_t \<Rightarrow> CO_LSSmaster_return_t \<times> CO_LSSmaster_command_t \<times> CO_LSSmaster_t \<times> CO_LSS_address_t" where
  \<comment> \<open>\<^verbatim>\<open>/* Check for reply */\<close>; the second result is \<^verbatim>\<open>next\<close>\<close>
  "lss_inquiry_reply M dt lssAddress =
     (case lss_inquiry (lsm_command M) of
        None \<Rightarrow> (CO_LSSmaster_INVALID_STATE, CO_LSSmaster_COMMAND_WAITING, M, lssAddress)
      | Some (cs, i, next) \<Rightarrow>
          (case CO_LSSmaster_inquireCheckWait M dt cs (lssAddress ! i) of
             (ret, M1, v) \<Rightarrow>
               if ret = CO_LSSmaster_OK \<and> next \<noteq> CO_LSSmaster_COMMAND_WAITING
               then (CO_LSSmaster_WAIT_SLAVE, next, M1, lssAddress[i := v])
               else (ret, CO_LSSmaster_COMMAND_WAITING, M1, lssAddress[i := v])))"

definition CO_LSSmaster_InquireLssAddress ::
    "can_env \<Rightarrow> CO_LSSmaster_t \<Rightarrow> co_bus \<Rightarrow> u32 \<Rightarrow> CO_LSS_address_t \<Rightarrow>
     (CO_LSSmaster_return_t \<times> CO_LSSmaster_t \<times> co_bus \<times> CO_LSS_address_t) option" where
  "CO_LSSmaster_InquireLssAddress env M bus dt lssAddress =
     (case lss_inquiry_reply M dt lssAddress of
        (ret, next, M1, a) \<Rightarrow> do {
          (ret1, M2, bus1) \<leftarrow>
            (if lsm_state M1 = CO_LSSmaster_STATE_CFG_SLECTIVE \<or> lsm_state M1 = CO_LSSmaster_STATE_CFG_GLOBAL then
               (if lsm_command M1 = CO_LSSmaster_COMMAND_WAITING
                then CO_LSSmaster_inquireInitiate env (M1\<lparr>lsm_command := CO_LSSmaster_COMMAND_INQUIRE_VENDOR, lsm_timeoutTimer := 0\<rparr>) bus CO_LSS_INQUIRE_VENDOR
                else (case lss_inquiry next of
                        None \<Rightarrow> Some (ret, M1, bus)
                      | Some (cs, i, nn) \<Rightarrow> CO_LSSmaster_inquireInitiate env (M1\<lparr>lsm_command := next, lsm_timeoutTimer := 0\<rparr>) bus cs))
             else Some (ret, M1, bus));
          Some (ret1, lss_finished ret1 M2, bus1, a)
        })"

definition CO_LSSmaster_Inquire ::
    "can_env \<Rightarrow> CO_LSSmaster_t \<Rightarrow> co_bus \<Rightarrow> u32 \<Rightarrow> u8 \<Rightarrow> u32 \<Rightarrow> (CO_LSSmaster_return_t \<times> CO_LSSmaster_t \<times> co_bus \<times> u32) option" where
  "CO_LSSmaster_Inquire env M bus dt lssInquireCs value = do {
     (ret, M1, bus1, v) \<leftarrow>
       (if (lsm_state M = CO_LSSmaster_STATE_CFG_SLECTIVE \<or> lsm_state M = CO_LSSmaster_STATE_CFG_GLOBAL) \<and>
           lsm_command M = CO_LSSmaster_COMMAND_WAITING
        then map_option (\<lambda>(ret, M1, bus1). (ret, M1, bus1, value))
               (CO_LSSmaster_inquireInitiate env (M\<lparr>lsm_command := CO_LSSmaster_COMMAND_INQUIRE, lsm_timeoutTimer := 0\<rparr>) bus lssInquireCs)
        else if lsm_command M = CO_LSSmaster_COMMAND_INQUIRE
        then (case CO_LSSmaster_inquireCheckWait M dt lssInquireCs value of (ret, M1, v) \<Rightarrow> Some (ret, M1, bus, v))
        else Some (CO_LSSmaster_INVALID_STATE, M, bus, value));
     Some (ret, if ret \<noteq> CO_LSSmaster_WAIT_SLAVE then M1\<lparr>lsm_command := CO_LSSmaster_COMMAND_WAITING\<rparr> else M1, bus1, v)
   }"

subsection \<open>Fastscan\<close>

definition fastscan_frame :: "u32 \<Rightarrow> u8 \<Rightarrow> u8 \<Rightarrow> u8 \<Rightarrow> u8 list" where
  "fastscan_frame idNumber bitCheck lssSub lssNext = CO_LSS_IDENT_FASTSCAN # le_bytes 4 (unat idNumber) @ [bitCheck, lssSub, lssNext]"

definition CO_LSSmaster_FsSendMsg ::
    "can_env \<Rightarrow> CO_LSSmaster_t \<Rightarrow> co_bus \<Rightarrow> u32 \<Rightarrow> u8 \<Rightarrow> u8 \<Rightarrow> u8 \<Rightarrow> (CO_LSSmaster_t \<times> co_bus) option" where
  "CO_LSSmaster_FsSendMsg env M bus idNumber bitCheck lssSub lssNext =
     lss_request env (fastscan_frame idNumber bitCheck lssSub lssNext) (M\<lparr>lsm_timeoutTimer := 0\<rparr>) bus"

definition CO_LSSmaster_FsCheckWait :: "CO_LSSmaster_t \<Rightarrow> u32 \<Rightarrow> CO_LSSmaster_return_t \<times> CO_LSSmaster_t" where
  "CO_LSSmaster_FsCheckWait M dt =
     (case CO_LSSmaster_check_timeout M dt of
        (ret, M1) \<Rightarrow>
          if ret = CO_LSSmaster_TIMEOUT then
            (if lsm_CANrxNew M1
             then (if lsm_CANrxData M1 ! 0 = CO_LSS_IDENT_SLAVE then CO_LSSmaster_SCAN_FINISHED else CO_LSSmaster_SCAN_NOACK,
                   M1\<lparr>lsm_CANrxNew := False\<rparr>)
             else (CO_LSSmaster_SCAN_NOACK, M1))
          else (ret, M1))"

definition CO_LSSmaster_FsScanInitiate ::
    "can_env \<Rightarrow> CO_LSSmaster_t \<Rightarrow> co_bus \<Rightarrow> CO_LSSmaster_scantype_t \<Rightarrow> u8 \<Rightarrow> lss_result" where
  "CO_LSSmaster_FsScanInitiate env M bus scan lssSub =
     (let M1 = M\<lparr>lsm_fsLssSub := lssSub, lsm_fsIdNumber := 0\<rparr>
      in case scan of
           CO_LSSmaster_FS_SCAN \<Rightarrow>
             map_option (\<lambda>(M2, bus1). (CO_LSSmaster_WAIT_SLAVE, M2, bus1))
               (CO_LSSmaster_FsSendMsg env (M1\<lparr>lsm_fsBitChecked := CO_LSS_FASTSCAN_BIT31\<rparr>) bus 0 CO_LSS_FASTSCAN_BIT31 lssSub lssSub)
         | CO_LSSmaster_FS_MATCH \<Rightarrow> Some (CO_LSSmaster_SCAN_FINISHED, M1, bus)
         | CO_LSSmaster_FS_SKIP \<Rightarrow> Some (CO_LSSmaster_SCAN_FAILED, M1, bus))"

definition CO_LSSmaster_FsScanWait :: "can_env \<Rightarrow> CO_LSSmaster_t \<Rightarrow> co_bus \<Rightarrow> u32 \<Rightarrow> CO_LSSmaster_scantype_t \<Rightarrow> lss_result" where
  "CO_LSSmaster_FsScanWait env M bus dt scan =
     (case scan of
        CO_LSSmaster_FS_MATCH \<Rightarrow> Some (CO_LSSmaster_SCAN_FINISHED, M, bus)
      | CO_LSSmaster_FS_SKIP \<Rightarrow> Some (CO_LSSmaster_SCAN_FAILED, M, bus)
      | CO_LSSmaster_FS_SCAN \<Rightarrow>
          (case CO_LSSmaster_check_timeout M dt of
             (ret, M1) \<Rightarrow>
               if ret = CO_LSSmaster_TIMEOUT then
                 let M2 = (if lsm_CANrxNew M1 then M1\<lparr>lsm_CANrxNew := False\<rparr>
                           else M1\<lparr>lsm_fsIdNumber := lsm_fsIdNumber M1 OR push_bit (unat (lsm_fsBitChecked M1)) 1\<rparr>)
                 in if lsm_CANrxNew M1 \<and> lsm_CANrxData M1 ! 0 \<noteq> CO_LSS_IDENT_SLAVE then Some (CO_LSSmaster_SCAN_FAILED, M2, bus)
                    else if lsm_fsBitChecked M2 = CO_LSS_FASTSCAN_BIT0 then Some (CO_LSSmaster_SCAN_FINISHED, M2, bus)
                    else
                      let b = lsm_fsBitChecked M2 - 1
                      in map_option (\<lambda>(M3, bus1). (CO_LSSmaster_WAIT_SLAVE, M3, bus1))
                           (CO_LSSmaster_FsSendMsg env (M2\<lparr>lsm_fsBitChecked := b\<rparr>) bus (lsm_fsIdNumber M2) b (lsm_fsLssSub M2) (lsm_fsLssSub M2))
               else Some (ret, M1, bus)))"

definition CO_LSSmaster_FsVerifyInitiate ::
    "can_env \<Rightarrow> CO_LSSmaster_t \<Rightarrow> co_bus \<Rightarrow> CO_LSSmaster_scantype_t \<Rightarrow> u32 \<Rightarrow> u8 \<Rightarrow> lss_result" where
  "CO_LSSmaster_FsVerifyInitiate env M bus scan idNumberCheck lssNext =
     (if scan = CO_LSSmaster_FS_SKIP then Some (CO_LSSmaster_SCAN_FAILED, M, bus)
      else
        let M1 = (if scan = CO_LSSmaster_FS_MATCH then M\<lparr>lsm_fsIdNumber := idNumberCheck\<rparr> else M)\<lparr>lsm_fsBitChecked := CO_LSS_FASTSCAN_BIT0\<rparr>
        in map_option (\<lambda>(M2, bus1). (CO_LSSmaster_WAIT_SLAVE, M2, bus1))
             (CO_LSSmaster_FsSendMsg env M1 bus (lsm_fsIdNumber M1) CO_LSS_FASTSCAN_BIT0 (lsm_fsLssSub M1) lssNext))"

definition CO_LSSmaster_FsVerifyWait ::
    "CO_LSSmaster_t \<Rightarrow> u32 \<Rightarrow> CO_LSSmaster_scantype_t \<Rightarrow> u32 \<Rightarrow> CO_LSSmaster_return_t \<times> CO_LSSmaster_t \<times> u32" where
  "CO_LSSmaster_FsVerifyWait M dt scan idNumberRet =
     (if scan = CO_LSSmaster_FS_SKIP then (CO_LSSmaster_SCAN_FAILED, M, idNumberRet)
      else
        (case CO_LSSmaster_check_timeout M dt of
           (ret, M1) \<Rightarrow>
             if ret = CO_LSSmaster_TIMEOUT then
               (if lsm_CANrxNew M1 then
                  (if lsm_CANrxData M1 ! 0 = CO_LSS_IDENT_SLAVE then (CO_LSSmaster_SCAN_FINISHED, M1\<lparr>lsm_CANrxNew := False\<rparr>, lsm_fsIdNumber M1)
                   else (CO_LSSmaster_SCAN_FAILED, M1\<lparr>lsm_CANrxNew := False\<rparr>, 0))
                else (CO_LSSmaster_SCAN_NOACK, M1, 0))
             else (ret, M1, idNumberRet)))"

definition CO_LSSmaster_FsSearchNext :: "CO_LSSmaster_t \<Rightarrow> CO_LSSmaster_fastscan_t \<Rightarrow> u8" where
  "CO_LSSmaster_FsSearchNext M fastscan =
     (case find (\<lambda>i. fs_scan fastscan ! i \<noteq> CO_LSSmaster_FS_SKIP) [unat (lsm_fsLssSub M) + 1..<4] of
        Some i \<Rightarrow> word_of_nat i | None \<Rightarrow> CO_LSS_FASTSCAN_VENDOR_ID)"

type_synonym fastscan_result = "(CO_LSSmaster_return_t \<times> CO_LSSmaster_t \<times> co_bus \<times> CO_LSSmaster_fastscan_t) option"

definition fastscan_check :: "can_env \<Rightarrow> CO_LSSmaster_t \<Rightarrow> co_bus \<Rightarrow> u32 \<Rightarrow> CO_LSSmaster_fastscan_t \<Rightarrow> fastscan_result" where
  \<comment> \<open>the case \<^verbatim>\<open>CO_LSSmaster_FS_STATE_CHECK\<close>\<close>
  "fastscan_check env M bus dt fastscan =
     (case CO_LSSmaster_FsCheckWait M dt of
        (ret, M1) \<Rightarrow>
          if ret = CO_LSSmaster_SCAN_FINISHED then do {
            (_, M2, bus1) \<leftarrow> CO_LSSmaster_FsScanInitiate env M1 bus (fs_scan fastscan ! 0) CO_LSS_FASTSCAN_VENDOR_ID;
            Some (CO_LSSmaster_WAIT_SLAVE, M2\<lparr>lsm_fsState := CO_LSSmaster_FS_STATE_SCAN\<rparr>, bus1, fastscan\<lparr>fs_found := replicate 4 0\<rparr>)
          }
          else Some (ret, M1, bus, fastscan))"

definition fastscan_scan :: "can_env \<Rightarrow> CO_LSSmaster_t \<Rightarrow> co_bus \<Rightarrow> u32 \<Rightarrow> CO_LSSmaster_fastscan_t \<Rightarrow> fastscan_result" where
  \<comment> \<open>the case \<^verbatim>\<open>CO_LSSmaster_FS_STATE_SCAN\<close>\<close>
  "fastscan_scan env M bus dt fastscan =
     (let i = unat (lsm_fsLssSub M)
      in do {
        (ret, M1, bus1) \<leftarrow> CO_LSSmaster_FsScanWait env M bus dt (fs_scan fastscan ! i);
        if ret = CO_LSSmaster_SCAN_FINISHED then do {
          (ret1, M2, bus2) \<leftarrow> CO_LSSmaster_FsVerifyInitiate env M1 bus1 (fs_scan fastscan ! i) (fs_match fastscan ! i)
            (CO_LSSmaster_FsSearchNext M1 fastscan);
          Some (ret1, M2\<lparr>lsm_fsState := CO_LSSmaster_FS_STATE_VERIFY\<rparr>, bus2, fastscan)
        }
        else Some (ret, M1, bus1, fastscan)
      })"

definition fastscan_verify :: "can_env \<Rightarrow> CO_LSSmaster_t \<Rightarrow> co_bus \<Rightarrow> u32 \<Rightarrow> CO_LSSmaster_fastscan_t \<Rightarrow> fastscan_result" where
  \<comment> \<open>the case \<^verbatim>\<open>CO_LSSmaster_FS_STATE_VERIFY\<close>\<close>
  "fastscan_verify env M bus dt fastscan =
     (let i = unat (lsm_fsLssSub M)
      in case CO_LSSmaster_FsVerifyWait M dt (fs_scan fastscan ! i) (fs_found fastscan ! i) of
           (ret, M1, v) \<Rightarrow>
             let fs1 = fastscan\<lparr>fs_found := (fs_found fastscan)[i := v]\<rparr>
             in if ret = CO_LSSmaster_SCAN_FINISHED then
                  let next = CO_LSSmaster_FsSearchNext M1 fs1
                  in if next = CO_LSS_FASTSCAN_VENDOR_ID then Some (ret, M1\<lparr>lsm_state := CO_LSSmaster_STATE_CFG_SLECTIVE\<rparr>, bus, fs1)
                     else do {
                       (ret1, M2, bus1) \<leftarrow> CO_LSSmaster_FsScanInitiate env M1 bus (fs_scan fs1 ! unat next) next;
                       Some (if ret1 = CO_LSSmaster_SCAN_FINISHED then CO_LSSmaster_WAIT_SLAVE else ret1,
                             M2\<lparr>lsm_fsState := CO_LSSmaster_FS_STATE_SCAN\<rparr>, bus1, fs1)
                     }
                else Some (ret, M1, bus, fs1))"

definition fastscan_valid :: "CO_LSSmaster_fastscan_t \<Rightarrow> bool" where
  \<comment> \<open>\<^verbatim>\<open>/* parameter validation */\<close>\<close>
  "fastscan_valid fastscan \<longleftrightarrow> fs_scan fastscan ! 0 \<noteq> CO_LSSmaster_FS_SKIP \<and>
     length (filter (\<lambda>s. s = CO_LSSmaster_FS_SKIP) (fs_scan fastscan)) \<le> 2"

definition CO_LSSmaster_IdentifyFastscan ::
    "can_env \<Rightarrow> CO_LSSmaster_t \<Rightarrow> co_bus \<Rightarrow> u32 \<Rightarrow> CO_LSSmaster_fastscan_t \<Rightarrow> fastscan_result" where
  "CO_LSSmaster_IdentifyFastscan env M bus dt fastscan =
     (if \<not> fastscan_valid fastscan then Some (CO_LSSmaster_ILLEGAL_ARGUMENT, M, bus, fastscan)
      else if lsm_state M \<noteq> CO_LSSmaster_STATE_WAITING \<or>
              (lsm_command M \<noteq> CO_LSSmaster_COMMAND_WAITING \<and> lsm_command M \<noteq> CO_LSSmaster_COMMAND_IDENTIFY_FASTSCAN)
      then Some (CO_LSSmaster_INVALID_STATE, M, bus, fastscan)
      else if lsm_command M = CO_LSSmaster_COMMAND_WAITING then do {
        (M1, bus1) \<leftarrow> CO_LSSmaster_FsSendMsg env
          (M\<lparr>lsm_command := CO_LSSmaster_COMMAND_IDENTIFY_FASTSCAN, lsm_fsState := CO_LSSmaster_FS_STATE_CHECK\<rparr>) bus 0 CO_LSS_FASTSCAN_CONFIRM 0 0;
        Some (CO_LSSmaster_WAIT_SLAVE, M1, bus1, fastscan)
      }
      else do {
        (ret, M1, bus1, fs1) \<leftarrow>
          (case lsm_fsState M of
             CO_LSSmaster_FS_STATE_CHECK \<Rightarrow> fastscan_check env M bus dt fastscan
           | CO_LSSmaster_FS_STATE_SCAN \<Rightarrow> fastscan_scan env M bus dt fastscan
           | CO_LSSmaster_FS_STATE_VERIFY \<Rightarrow> fastscan_verify env M bus dt fastscan);
        Some (ret, if ret \<noteq> CO_LSSmaster_WAIT_SLAVE then M1\<lparr>lsm_command := CO_LSSmaster_COMMAND_WAITING\<rparr> else M1, bus1, fs1)
      })"

end
