(* ===== verification/LSS_Net.thy ===== *)
theory LSS_Net
  imports LSS_Master
begin

section \<open>A network of one LSS master and several slaves\<close>

text \<open>
  The master and the slaves of the previous theories joined by a bus. A round is one call of a function of the master: the
  frames it sends reach every slave in order, every slave processes its request, and the answers reach the master in the
  order of the slaves. Every frame the device accepts is delivered.
\<close>

subsection \<open>Nodes and rounds\<close>

type_synonym lss_node = "CO_LSSslave_t \<times> co_bus"

fun node_receive :: "can_env \<Rightarrow> can_frame list \<Rightarrow> lss_node \<Rightarrow> lss_node option" where
  "node_receive env [] n = Some n"
| "node_receive env (f # fs) n = Option.bind (CO_LSSslave_receive env (fst n) (snd n) (frame_msg f)) (node_receive env fs)"

definition node_step :: "can_env \<Rightarrow> can_frame list \<Rightarrow> lss_node \<Rightarrow> lss_node option" where
  \<comment> \<open>the frames arrive, then the slave is processed; a requested reset is left to the application\<close>
  "node_step env fs n = do {
     (S, bus) \<leftarrow> node_receive env fs n;
     (reset, n1) \<leftarrow> CO_LSSslave_process env S bus;
     Some n1
   }"

fun nodes_step :: "can_env \<Rightarrow> can_frame list \<Rightarrow> lss_node list \<Rightarrow> (lss_node list \<times> can_frame list) option" where
  "nodes_step env fs [] = Some ([], [])"
| "nodes_step env fs (n # ns) = do {
     n1 \<leftarrow> node_step env fs n;
     (ns1, rs) \<leftarrow> nodes_step env fs ns;
     Some (n1 # ns1, new_frames (snd n) (snd n1) @ rs)
   }"

type_synonym lss_net = "CO_LSSmaster_t \<times> co_bus \<times> lss_node list"

definition master_receive :: "can_frame list \<Rightarrow> CO_LSSmaster_t \<Rightarrow> CO_LSSmaster_t" where
  "master_receive rs M = fold (\<lambda>f M. CO_LSSmaster_receive M (frame_msg f)) rs M"

definition lss_round ::
    "can_env \<Rightarrow> (CO_LSSmaster_t \<Rightarrow> co_bus \<Rightarrow> (CO_LSSmaster_return_t \<times> CO_LSSmaster_t \<times> co_bus \<times> 'a) option) \<Rightarrow> lss_net \<Rightarrow>
     (CO_LSSmaster_return_t \<times> 'a \<times> lss_net) option" where
  "lss_round env call net =
     (case net of
        (M, bus, ns) \<Rightarrow> do {
          (ret, M1, bus1, x) \<leftarrow> call M bus;
          (ns1, rs) \<leftarrow> nodes_step env (new_frames bus bus1) ns;
          Some (ret, x, master_receive rs M1, bus1, ns1)
        })"

fun lss_run ::
    "nat \<Rightarrow> can_env \<Rightarrow> ('a \<Rightarrow> CO_LSSmaster_t \<Rightarrow> co_bus \<Rightarrow> (CO_LSSmaster_return_t \<times> CO_LSSmaster_t \<times> co_bus \<times> 'a) option) \<Rightarrow> 'a \<Rightarrow>
     lss_net \<Rightarrow> (CO_LSSmaster_return_t \<times> 'a \<times> lss_net) option" where
  \<comment> \<open>the function is called until it no longer waits, at most as often as the first argument says\<close>
  "lss_run 0 env call x net = None"
| "lss_run (Suc n) env call x net = do {
     (ret, x1, net1) \<leftarrow> lss_round env (call x) net;
     if ret = CO_LSSmaster_WAIT_SLAVE then lss_run n env call x1 net1 else Some (ret, x1, net1)
   }"

text \<open>A slave that can answer.\<close>

definition node_ok :: "lss_node \<Rightarrow> bool" where
  "node_ok n \<longleftrightarrow> \<not> lsv_sendResponse (fst n) \<and> length (lsv_lssAddress (fst n)) = 4 \<and>
     (case lsv_TXbuff (fst n) of None \<Rightarrow> False | Some txb \<Rightarrow> buf_ok txb (snd n))"

lemma node_step_nothing: "node_ok n \<Longrightarrow> node_step env [] n = Some n"
  by (cases n) (simp add: node_step_def node_ok_def CO_LSSslave_process_def)

lemma nodes_step_nothing:
  "\<forall>n \<in> set ns. node_ok n \<Longrightarrow> nodes_step env [] ns = Some (ns, [])"
  by (induction ns) (simp_all add: node_step_nothing new_frames_def)

text \<open>The master keeps the first answer of a round.\<close>

lemma master_receive_first:
  assumes "\<not> lsm_CANrxNew M" "lsm_command M \<noteq> CO_LSSmaster_COMMAND_WAITING" "\<forall>f \<in> set rs. fst (snd f) = 8"
  obtains k where "master_receive rs M =
    (case rs of [] \<Rightarrow> M | r # _ \<Rightarrow> M\<lparr>lsm_CANrxData := take 8 (snd (snd r)), lsm_CANrxNew := True, lsm_signals := k\<rparr>)"
proof (cases rs)
  case Nil
  then show ?thesis using that by (simp add: master_receive_def)
next
  case (Cons r rs')
  have keep: "fold (\<lambda>f M. CO_LSSmaster_receive M (frame_msg f)) gs N = N" if "lsm_CANrxNew N" for gs N
    using that by (induction gs) (simp_all add: CO_LSSmaster_receive_def)
  from Cons assms have
    "CO_LSSmaster_receive M (frame_msg r) =
       M\<lparr>lsm_CANrxData := take 8 (snd (snd r)), lsm_CANrxNew := True,
         lsm_signals := (if lsm_pFunctSignal M then lsm_signals M + 1 else lsm_signals M)\<rparr>"
    by (simp add: CO_LSSmaster_receive_def frame_msg_def)
  with Cons keep show ?thesis by (intro that) (simp add: master_receive_def)
qed

text \<open>
  A master that can start, and a master that can start and is called at intervals that are not shorter than its
  timeout. The second is an assumption of results on single answers, not of the code.
\<close>

definition master_ready :: "CO_LSSmaster_t \<Rightarrow> co_bus \<Rightarrow> bool" where
  "master_ready M bus \<longleftrightarrow> lsm_state M = CO_LSSmaster_STATE_WAITING \<and> lsm_command M = CO_LSSmaster_COMMAND_WAITING \<and>
     (case lsm_TXbuff M of None \<Rightarrow> False | Some txb \<Rightarrow> buf_ok txb bus)"

definition master_idle :: "u32 \<Rightarrow> CO_LSSmaster_t \<Rightarrow> co_bus \<Rightarrow> bool" where
  "master_idle dt M bus \<longleftrightarrow> lsm_state M = CO_LSSmaster_STATE_WAITING \<and> lsm_command M = CO_LSSmaster_COMMAND_WAITING \<and>
     lsm_timeout_us M \<le> dt \<and> (case lsm_TXbuff M of None \<Rightarrow> False | Some txb \<Rightarrow> buf_ok txb bus)"

text \<open>A master and slaves for the examples.\<close>

definition example_master :: CO_LSSmaster_t where
  "example_master = \<lparr>lsm_timeout_us = 100000, lsm_state = CO_LSSmaster_STATE_WAITING, lsm_command = CO_LSSmaster_COMMAND_WAITING,
     lsm_timeoutTimer = 0, lsm_fsState = CO_LSSmaster_FS_STATE_CHECK, lsm_fsLssSub = 0, lsm_fsBitChecked = 0, lsm_fsIdNumber = 0,
     lsm_CANrxNew = False, lsm_CANrxData = replicate 8 0, lsm_pFunctSignal = False, lsm_signals = 0, lsm_TXbuff = Some 0\<rparr>"

definition example_slave :: "u8 \<Rightarrow> CO_LSS_address_t \<Rightarrow> CO_LSSslave_t" where
  "example_slave nid a = \<lparr>lsv_lssAddress = a, lsv_lssState = CO_LSS_STATE_WAITING, lsv_lssSelect = replicate 4 0,
     lsv_lssFastscan = replicate 4 0, lsv_fastscanPos = 0, lsv_pendingBitRate = 125, lsv_pendingNodeID = nid, lsv_activeNodeID = nid,
     lsv_sendResponse = False, lsv_service = 0, lsv_CANdata = replicate 8 0, lsv_pFunctSignalPre = False, lsv_signals = 0,
     lsv_pFunctLSScheckBitRate = None, lsv_pFunctLSSactivateBitRate = False, lsv_activated = [], lsv_pFunctLSScfgStore = None,
     lsv_stored = [], lsv_TXbuff = Some 0\<rparr>"

lemma example_buf_ok: "buf_ok 0 example_bus"
  by (simp add: buf_ok_def bus_ready_def bus_buf_def example_bus_def example_tx_def)

lemma example_ready: "master_ready example_master example_bus"
  by (simp add: master_ready_def example_master_def example_buf_ok)

lemma example_idle: "master_idle 100000 example_master example_bus"
  by (simp add: master_idle_def example_master_def example_buf_ok)

end
