(* ===== verification/LSS_Fastscan.thy ===== *)
theory LSS_Fastscan
  imports LSS_Net
begin

section \<open>The fastscan protocol finds a slave\<close>

text \<open>
  A whole fastscan over the bus: the master scans the four numbers of the address bit by bit and settles, in each number,
  on the smallest value among the slaves that are still in the scan. At the end exactly the slave with the
  lexicographically smallest address is in the configuration state.
\<close>

subsection \<open>A slave\<close>

definition unconfigured :: "CO_LSSslave_t \<Rightarrow> bool" where
  "unconfigured S \<longleftrightarrow> lsv_pendingNodeID S = CO_LSS_NODE_ID_ASSIGNMENT \<and> lsv_activeNodeID S = CO_LSS_NODE_ID_ASSIGNMENT"

definition scan_node :: "lss_node \<Rightarrow> bool" where
  "scan_node n \<longleftrightarrow> node_ok n \<and> lsv_lssState (fst n) = CO_LSS_STATE_WAITING"

definition is_ack :: "can_frame \<Rightarrow> bool" where
  "is_ack f \<longleftrightarrow> fst (snd f) = 8 \<and> snd (snd f) = CO_LSS_IDENT_SLAVE # replicate 7 0"

lemma fastscan_frame_fields:
  "length (fastscan_frame v b i k) = 8" "fastscan_frame v b i k ! 0 = CO_LSS_IDENT_FASTSCAN"
  "fastscan_frame v b i k ! 5 = b" "fastscan_frame v b i k ! 6 = i" "fastscan_frame v b i k ! 7 = k"
  "CO_getUint32 (drop (Suc 0) (fastscan_frame v b i k)) = v"
  by (simp_all add: fastscan_frame_def nth_append nth_Cons' del: le_bytes.simps)

lemma node_fastscan:
  assumes "scan_node n" "writes_ok env" "lss_fastscan_ack (fastscan_frame v b i k) (fst n) = (ack, S1)"
  obtains bus1 rs where "node_step env [(ident, 8, fastscan_frame v b i k)] n = Some (S1, bus1)"
    "node_ok (S1, bus1)" "new_frames (snd n) bus1 = rs" "\<forall>r \<in> set rs. is_ack r" "rs \<noteq> [] \<longleftrightarrow> ack"
proof -
  obtain S bus where n: "n = (S, bus)" by (cases n)
  from assms(1) n obtain txb where S: "lsv_lssState S = CO_LSS_STATE_WAITING" "\<not> lsv_sendResponse S" "lsv_TXbuff S = Some txb"
    "buf_ok txb bus" "length (lsv_lssAddress S) = 4"
    by (auto simp: scan_node_def node_ok_def split: option.splits)
  from assms(3) n S have S1: "\<not> lsv_sendResponse S1" "lsv_TXbuff S1 = Some txb" "length (lsv_lssAddress S1) = 4"
    by (auto simp: lss_fastscan_ack_def Let_def split: if_splits)
  define bus1 where "bus1 = (if ack then bus_send env txb (bus_put txb 0 (CO_LSS_IDENT_SLAVE # replicate 7 0) bus) else bus)"
  define rs where "rs = (if ack then [(tx_ident (bus_buf bus txb), 8 :: u8, CO_LSS_IDENT_SLAVE # replicate 7 0)] else [])"
  have w: "lss_waiting env (fastscan_frame v b i k) S bus = Some (False, S1, bus1)"
    using assms(3) n S1 by (simp add: lss_waiting_def Let_def fastscan_frame_fields lss_codes bus1_def)
  have "CO_LSSslave_receive env S bus (frame_msg (ident, 8, fastscan_frame v b i k)) = Some (S1, bus1)"
    using S(1,2) w by (simp add: CO_LSSslave_receive_def frame_msg_def fastscan_frame_fields lss_codes)
  then have step: "node_step env [(ident, 8, fastscan_frame v b i k)] n = Some (S1, bus1)"
    using n S1 by (simp add: node_step_def CO_LSSslave_process_def)
  have "buf_ok txb bus1 \<and> extends bus rs bus1"
    using send_whole_frame [OF S(4) assms(2), of "CO_LSS_IDENT_SLAVE # replicate 7 0"] S(4) by (simp add: bus1_def rs_def)
  moreover have "\<forall>r \<in> set rs. is_ack r" "rs \<noteq> [] \<longleftrightarrow> ack" by (simp_all add: rs_def is_ack_def)
  ultimately show ?thesis using S1 n by (intro that [OF step]) (simp_all add: node_ok_def new_frames_extends)
qed

lemma nodes_fastscan:
  assumes "\<forall>n \<in> set ns. scan_node n" "writes_ok env"
  shows "\<exists>ns1 rs. nodes_step env [(ident, 8, fastscan_frame v b i k)] ns = Some (ns1, rs) \<and> (\<forall>n \<in> set ns1. node_ok n) \<and>
    map fst ns1 = map (\<lambda>n. snd (lss_fastscan_ack (fastscan_frame v b i k) (fst n))) ns \<and> (\<forall>r \<in> set rs. is_ack r) \<and>
    (rs \<noteq> [] \<longleftrightarrow> (\<exists>n \<in> set ns. fst (lss_fastscan_ack (fastscan_frame v b i k) (fst n))))"
  using assms(1)
proof (induction ns)
  case Nil
  then show ?case by simp
next
  case (Cons n ns)
  then obtain ns1 rs where IH: "nodes_step env [(ident, 8, fastscan_frame v b i k)] ns = Some (ns1, rs)" "\<forall>n \<in> set ns1. node_ok n"
    "map fst ns1 = map (\<lambda>n. snd (lss_fastscan_ack (fastscan_frame v b i k) (fst n))) ns" "\<forall>r \<in> set rs. is_ack r"
    "rs \<noteq> [] \<longleftrightarrow> (\<exists>n \<in> set ns. fst (lss_fastscan_ack (fastscan_frame v b i k) (fst n)))" by auto
  obtain ack S1 where a: "lss_fastscan_ack (fastscan_frame v b i k) (fst n) = (ack, S1)" by (rule prod.exhaust)
  from Cons.prems have "scan_node n" by simp
  from node_fastscan [OF this assms(2) a, of ident] obtain bus1 rs1 where
    "node_step env [(ident, 8, fastscan_frame v b i k)] n = Some (S1, bus1)"
    "node_ok (S1, bus1)" "new_frames (snd n) bus1 = rs1" "\<forall>r \<in> set rs1. is_ack r" "rs1 \<noteq> [] \<longleftrightarrow> ack" by metis
  with IH a show ?case by auto
qed

subsection \<open>The master between two calls\<close>

definition fs_at ::
    "CO_LSSmaster_fs_t \<Rightarrow> u8 \<Rightarrow> u8 \<Rightarrow> u32 \<Rightarrow> bool \<Rightarrow> u32 \<Rightarrow> CO_LSSmaster_t \<Rightarrow> co_bus \<Rightarrow> bool" where
  \<comment> \<open>step of the scan, number, bit and value that were sent, whether a slave answered, timeout; the timer has just been reset\<close>
  "fs_at st sub b v ack dt M bus \<longleftrightarrow> lsm_state M = CO_LSSmaster_STATE_WAITING \<and>
     lsm_command M = CO_LSSmaster_COMMAND_IDENTIFY_FASTSCAN \<and> lsm_timeoutTimer M = 0 \<and> lsm_timeout_us M = dt \<and>
     lsm_fsState M = st \<and> lsm_fsLssSub M = sub \<and> lsm_fsBitChecked M = b \<and> lsm_fsIdNumber M = v \<and>
     lsm_CANrxNew M = ack \<and> (ack \<longrightarrow> lsm_CANrxData M ! 0 = CO_LSS_IDENT_SLAVE) \<and>
     (case lsm_TXbuff M of None \<Rightarrow> False | Some txb \<Rightarrow> buf_ok txb bus)"

definition scan_all :: "CO_LSSmaster_fastscan_t \<Rightarrow> bool" where
  "scan_all fs \<longleftrightarrow> fs_scan fs = replicate 4 CO_LSSmaster_FS_SCAN"

lemma scan_all_valid [simp]: "scan_all fs \<Longrightarrow> fastscan_valid fs"
  by (simp add: scan_all_def fastscan_valid_def numeral_eq_Suc)

lemma scan_all_nth: "scan_all fs \<Longrightarrow> i < 4 \<Longrightarrow> fs_scan fs ! i = CO_LSSmaster_FS_SCAN"
  by (simp add: scan_all_def)

lemma fs_send:
  assumes "lsm_TXbuff M = Some txb" "buf_ok txb bus" "writes_ok env"
  obtains bus1 ident where
    "CO_LSSmaster_FsSendMsg env M bus v b i k = Some (M\<lparr>lsm_timeoutTimer := 0, lsm_CANrxNew := False\<rparr>, bus1)"
    "buf_ok txb bus1" "extends bus [(ident, 8, fastscan_frame v b i k)] bus1"
  using send_whole_frame [OF assms(2,3) fastscan_frame_fields(1) [of v b i k]] assms(1)
  by (simp add: CO_LSSmaster_FsSendMsg_def lss_request_def)

lemma fs_round:
  assumes "call M bus = Some (ret, M1, bus1, x)" "extends bus [(ident, 8, fastscan_frame v' b' i k)] bus1"
    "fs_at st sub b v False dt M1 bus1" "\<forall>n \<in> set ns. scan_node n" "writes_ok env"
  obtains M2 ns1 where "lss_round env call (M, bus, ns) = Some (ret, x, M2, bus1, ns1)" "\<forall>n \<in> set ns1. node_ok n"
    "map fst ns1 = map (\<lambda>n. snd (lss_fastscan_ack (fastscan_frame v' b' i k) (fst n))) ns"
    "fs_at st sub b v (\<exists>n \<in> set ns. fst (lss_fastscan_ack (fastscan_frame v' b' i k) (fst n))) dt M2 bus1"
proof -
  from nodes_fastscan [OF assms(4,5), of ident v' b' i k] obtain ns1 rs where
    ns1: "nodes_step env [(ident, 8, fastscan_frame v' b' i k)] ns = Some (ns1, rs)" "\<forall>n \<in> set ns1. node_ok n"
    "map fst ns1 = map (\<lambda>n. snd (lss_fastscan_ack (fastscan_frame v' b' i k) (fst n))) ns" "\<forall>r \<in> set rs. is_ack r"
    "rs \<noteq> [] \<longleftrightarrow> (\<exists>n \<in> set ns. fst (lss_fastscan_ack (fastscan_frame v' b' i k) (fst n)))" by blast
  have M1: "\<not> lsm_CANrxNew M1" "lsm_command M1 \<noteq> CO_LSSmaster_COMMAND_WAITING" using assms(3) by (simp_all add: fs_at_def)
  have "\<forall>f \<in> set rs. fst (snd f) = 8" using ns1(4) by (simp add: is_ack_def)
  then obtain k' where rcv: "master_receive rs M1 = (case rs of [] \<Rightarrow> M1
      | r # _ \<Rightarrow> M1\<lparr>lsm_CANrxData := take 8 (snd (snd r)), lsm_CANrxNew := True, lsm_signals := k'\<rparr>)"
    by (rule master_receive_first [OF M1])
  have at: "fs_at st sub b v (rs \<noteq> []) dt (master_receive rs M1) bus1"
  proof (cases rs)
    case Nil
    then show ?thesis using rcv assms(3) by simp
  next
    case (Cons r rs')
    then have "snd (snd r) = CO_LSS_IDENT_SLAVE # replicate 7 0" using ns1(4) by (simp add: is_ack_def)
    then show ?thesis using rcv assms(3) Cons by (simp add: fs_at_def)
  qed
  have "lss_round env call (M, bus, ns) = Some (ret, x, master_receive rs M1, bus1, ns1)"
    using assms(1) ns1(1) by (simp add: lss_round_def new_frames_extends [OF assms(2)])
  from that [OF this ns1(2,3)] at show ?thesis by (simp only: ns1(5))
qed

subsection \<open>The calls of the master\<close>

definition fs_next :: "u8 \<Rightarrow> u8" where
  "fs_next sub = (if sub = 3 then 0 else sub + 1)"

lemma u8_cases_4: "(i :: u8) \<le> 3 \<Longrightarrow> i = 0 \<or> i = 1 \<or> i = 2 \<or> i = 3"
proof -
  assume "i \<le> 3"
  then have "unat i \<le> 3" by (simp add: word_le_nat_alt)
  then have "unat i = unat (0 :: u8) \<or> unat i = unat (1 :: u8) \<or> unat i = unat (2 :: u8) \<or> unat i = unat (3 :: u8)"
    by auto
  then show ?thesis by (blast intro: unsigned_word_eqI)
qed

lemma search_next:
  assumes "scan_all fs" "lsm_fsLssSub M \<le> 3"
  shows "CO_LSSmaster_FsSearchNext M fs = fs_next (lsm_fsLssSub M)"
  using u8_cases_4 [OF assms(2)]
  by (auto simp: CO_LSSmaster_FsSearchNext_def scan_all_nth [OF assms(1)] fs_next_def CO_LSS_FASTSCAN_VENDOR_ID_def upt_rec)

lemma fs_at_buf:
  assumes "fs_at st sub b v ack dt M bus"
  obtains txb where "lsm_TXbuff M = Some txb" "buf_ok txb bus"
  using assms by (auto simp: fs_at_def split: option.splits)

lemma fs_timeout:
  "fs_at st sub b v ack dt M bus \<Longrightarrow> CO_LSSmaster_check_timeout M dt = (CO_LSSmaster_TIMEOUT, M\<lparr>lsm_timeoutTimer := 0\<rparr>)"
  by (simp add: fs_at_def CO_LSSmaster_check_timeout_def)

lemma call_start:
  assumes "master_ready M bus" "lsm_timeout_us M = dt" "fastscan_valid fs" "writes_ok env"
  obtains M1 bus1 ident sub b v where "\<forall>d. CO_LSSmaster_IdentifyFastscan env M bus d fs = Some (CO_LSSmaster_WAIT_SLAVE, M1, bus1, fs)"
    "fs_at CO_LSSmaster_FS_STATE_CHECK sub b v False dt M1 bus1"
    "extends bus [(ident, 8, fastscan_frame 0 CO_LSS_FASTSCAN_CONFIRM 0 0)] bus1"
proof -
  from assms(1) obtain txb where M: "lsm_TXbuff M = Some txb" "buf_ok txb bus"
    by (auto simp: master_ready_def split: option.splits)
  define M0 where "M0 = M\<lparr>lsm_command := CO_LSSmaster_COMMAND_IDENTIFY_FASTSCAN, lsm_fsState := CO_LSSmaster_FS_STATE_CHECK\<rparr>"
  have "lsm_TXbuff M0 = Some txb" using M by (simp add: M0_def)
  from fs_send [OF this M(2) assms(4), of 0 CO_LSS_FASTSCAN_CONFIRM 0 0] obtain bus1 ident where
    s: "CO_LSSmaster_FsSendMsg env M0 bus 0 CO_LSS_FASTSCAN_CONFIRM 0 0 = Some (M0\<lparr>lsm_timeoutTimer := 0, lsm_CANrxNew := False\<rparr>, bus1)"
    "buf_ok txb bus1" "extends bus [(ident, 8, fastscan_frame 0 CO_LSS_FASTSCAN_CONFIRM 0 0)] bus1" by metis
  have "fs_at CO_LSSmaster_FS_STATE_CHECK (lsm_fsLssSub M) (lsm_fsBitChecked M) (lsm_fsIdNumber M) False dt
      (M0\<lparr>lsm_timeoutTimer := 0, lsm_CANrxNew := False\<rparr>) bus1"
    using assms(1,2) M s(2) by (simp add: fs_at_def master_ready_def M0_def)
  then show ?thesis using that s assms(1,3)
    by (simp add: CO_LSSmaster_IdentifyFastscan_def master_ready_def flip: M0_def)
qed

lemma call_check:
  assumes "fs_at CO_LSSmaster_FS_STATE_CHECK sub b v True dt M bus" "scan_all fs" "writes_ok env"
  obtains M1 bus1 ident where "CO_LSSmaster_IdentifyFastscan env M bus dt fs =
      Some (CO_LSSmaster_WAIT_SLAVE, M1, bus1, fs\<lparr>fs_found := replicate 4 0\<rparr>)"
    "fs_at CO_LSSmaster_FS_STATE_SCAN 0 31 0 False dt M1 bus1"
    "extends bus [(ident, 8, fastscan_frame 0 31 0 0)] bus1"
proof -
  from assms(1) obtain txb where M: "lsm_TXbuff M = Some txb" "buf_ok txb bus" by (rule fs_at_buf)
  define M0 where "M0 = M\<lparr>lsm_timeoutTimer := 0, lsm_CANrxNew := False, lsm_fsLssSub := 0, lsm_fsIdNumber := 0, lsm_fsBitChecked := 31\<rparr>"
  have "lsm_TXbuff M0 = Some txb" using M by (simp add: M0_def)
  from fs_send [OF this M(2) assms(3), of 0 31 0 0] obtain bus1 ident where
    s: "CO_LSSmaster_FsSendMsg env M0 bus 0 31 0 0 = Some (M0\<lparr>lsm_timeoutTimer := 0, lsm_CANrxNew := False\<rparr>, bus1)"
    "buf_ok txb bus1" "extends bus [(ident, 8, fastscan_frame 0 31 0 0)] bus1" by metis
  let ?M1 = "M0\<lparr>lsm_timeoutTimer := 0, lsm_CANrxNew := False, lsm_fsState := CO_LSSmaster_FS_STATE_SCAN\<rparr>"
  have w: "CO_LSSmaster_FsCheckWait M dt = (CO_LSSmaster_SCAN_FINISHED, M\<lparr>lsm_timeoutTimer := 0, lsm_CANrxNew := False\<rparr>)"
    using assms(1) fs_timeout [OF assms(1)] by (simp add: CO_LSSmaster_FsCheckWait_def fs_at_def)
  have i: "CO_LSSmaster_FsScanInitiate env (M\<lparr>lsm_timeoutTimer := 0, lsm_CANrxNew := False\<rparr>) bus (fs_scan fs ! 0) CO_LSS_FASTSCAN_VENDOR_ID =
      Some (CO_LSSmaster_WAIT_SLAVE, M0\<lparr>lsm_timeoutTimer := 0, lsm_CANrxNew := False\<rparr>, bus1)"
    using s(1) scan_all_nth [OF assms(2), of 0]
    by (simp add: CO_LSSmaster_FsScanInitiate_def CO_LSS_FASTSCAN_BIT31_def CO_LSS_FASTSCAN_VENDOR_ID_def M0_def)
  have "CO_LSSmaster_IdentifyFastscan env M bus dt fs = Some (CO_LSSmaster_WAIT_SLAVE, ?M1, bus1, fs\<lparr>fs_found := replicate 4 0\<rparr>)"
    using assms(1,2) by (simp add: CO_LSSmaster_IdentifyFastscan_def fs_at_def fastscan_check_def w i)
  moreover have "fs_at CO_LSSmaster_FS_STATE_SCAN 0 31 0 False dt ?M1 bus1"
    using assms(1) M s(2) by (simp add: fs_at_def M0_def)
  ultimately show ?thesis using that s(3) by blast
qed

definition fs_value :: "bool \<Rightarrow> u8 \<Rightarrow> u32 \<Rightarrow> u32" where
  \<comment> \<open>the value after the answer for a bit\<close>
  "fs_value ack b v = (if ack then v else v OR push_bit (unat b) 1)"

lemma call_scan:
  assumes "fs_at CO_LSSmaster_FS_STATE_SCAN sub b v ack dt M bus" "scan_all fs" "writes_ok env" "sub \<le> 3" "b \<noteq> 0"
  obtains M1 bus1 ident where "CO_LSSmaster_IdentifyFastscan env M bus dt fs = Some (CO_LSSmaster_WAIT_SLAVE, M1, bus1, fs)"
    "fs_at CO_LSSmaster_FS_STATE_SCAN sub (b - 1) (fs_value ack b v) False dt M1 bus1"
    "extends bus [(ident, 8, fastscan_frame (fs_value ack b v) (b - 1) sub sub)] bus1"
proof -
  from assms(1) obtain txb where M: "lsm_TXbuff M = Some txb" "buf_ok txb bus" by (rule fs_at_buf)
  define M0 where "M0 = (if lsm_CANrxNew M then M\<lparr>lsm_timeoutTimer := 0, lsm_CANrxNew := False\<rparr>
    else M\<lparr>lsm_timeoutTimer := 0, lsm_fsIdNumber := lsm_fsIdNumber M OR push_bit (unat (lsm_fsBitChecked M)) 1\<rparr>)\<lparr>lsm_fsBitChecked := b - 1\<rparr>"
  have "lsm_TXbuff M0 = Some txb" using M by (simp add: M0_def)
  from fs_send [OF this M(2) assms(3), of "fs_value ack b v" "b - 1" sub sub] obtain bus1 ident where
    s: "CO_LSSmaster_FsSendMsg env M0 bus (fs_value ack b v) (b - 1) sub sub = Some (M0\<lparr>lsm_timeoutTimer := 0, lsm_CANrxNew := False\<rparr>, bus1)"
    "buf_ok txb bus1" "extends bus [(ident, 8, fastscan_frame (fs_value ack b v) (b - 1) sub sub)] bus1" by metis
  have M0: "lsm_fsIdNumber M0 = fs_value ack b v" "lsm_fsLssSub M0 = sub"
    using assms(1) by (simp_all add: M0_def fs_value_def fs_at_def)
  have i: "unat sub < 4" using assms(4) by (simp add: word_le_nat_alt)
  have "CO_LSSmaster_FsScanWait env M bus dt CO_LSSmaster_FS_SCAN =
      Some (CO_LSSmaster_WAIT_SLAVE, M0\<lparr>lsm_timeoutTimer := 0, lsm_CANrxNew := False\<rparr>, bus1)"
    using assms(1,5) s(1) M0 fs_timeout [OF assms(1)]
    by (cases ack) (simp_all add: CO_LSSmaster_FsScanWait_def fs_at_def CO_LSS_FASTSCAN_BIT0_def M0_def fs_value_def)
  then have "CO_LSSmaster_IdentifyFastscan env M bus dt fs =
      Some (CO_LSSmaster_WAIT_SLAVE, M0\<lparr>lsm_timeoutTimer := 0, lsm_CANrxNew := False\<rparr>, bus1, fs)"
    using assms(1,2) scan_all_nth [OF assms(2) i] by (simp add: CO_LSSmaster_IdentifyFastscan_def fs_at_def fastscan_scan_def)
  moreover have "fs_at CO_LSSmaster_FS_STATE_SCAN sub (b - 1) (fs_value ack b v) False dt
      (M0\<lparr>lsm_timeoutTimer := 0, lsm_CANrxNew := False\<rparr>) bus1"
    using assms(1) M s(2) by (cases ack) (simp_all add: fs_at_def M0_def fs_value_def)
  ultimately show ?thesis using that s(3) by blast
qed

lemma call_scan_last:
  assumes "fs_at CO_LSSmaster_FS_STATE_SCAN sub 0 v ack dt M bus" "scan_all fs" "writes_ok env" "sub \<le> 3"
  obtains M1 bus1 ident where "CO_LSSmaster_IdentifyFastscan env M bus dt fs = Some (CO_LSSmaster_WAIT_SLAVE, M1, bus1, fs)"
    "fs_at CO_LSSmaster_FS_STATE_VERIFY sub 0 (fs_value ack 0 v) False dt M1 bus1"
    "extends bus [(ident, 8, fastscan_frame (fs_value ack 0 v) 0 sub (fs_next sub))] bus1"
proof -
  from assms(1) obtain txb where M: "lsm_TXbuff M = Some txb" "buf_ok txb bus" by (rule fs_at_buf)
  define M0 where "M0 = (if lsm_CANrxNew M then M\<lparr>lsm_timeoutTimer := 0, lsm_CANrxNew := False\<rparr>
    else M\<lparr>lsm_timeoutTimer := 0, lsm_fsIdNumber := lsm_fsIdNumber M OR push_bit (unat (lsm_fsBitChecked M)) 1\<rparr>)"
  have M0: "lsm_fsIdNumber M0 = fs_value ack 0 v" "lsm_fsLssSub M0 = sub" "lsm_TXbuff M0 = Some txb" "lsm_fsBitChecked M0 = 0"
    using assms(1) M by (simp_all add: M0_def fs_value_def fs_at_def)
  then have "lsm_TXbuff (M0\<lparr>lsm_fsBitChecked := 0\<rparr>) = Some txb" by simp
  from fs_send [OF this M(2) assms(3), of "fs_value ack 0 v" 0 sub "fs_next sub"] obtain bus1 ident where
    s: "CO_LSSmaster_FsSendMsg env (M0\<lparr>lsm_fsBitChecked := 0\<rparr>) bus (fs_value ack 0 v) 0 sub (fs_next sub) =
        Some (M0\<lparr>lsm_fsBitChecked := 0, lsm_timeoutTimer := 0, lsm_CANrxNew := False\<rparr>, bus1)"
    "buf_ok txb bus1" "extends bus [(ident, 8, fastscan_frame (fs_value ack 0 v) 0 sub (fs_next sub))] bus1" by metis
  let ?M1 = "M0\<lparr>lsm_fsBitChecked := 0, lsm_timeoutTimer := 0, lsm_CANrxNew := False, lsm_fsState := CO_LSSmaster_FS_STATE_VERIFY\<rparr>"
  have i: "unat sub < 4" using assms(4) by (simp add: word_le_nat_alt)
  have w: "CO_LSSmaster_FsScanWait env M bus dt CO_LSSmaster_FS_SCAN = Some (CO_LSSmaster_SCAN_FINISHED, M0, bus)"
    using assms(1) fs_timeout [OF assms(1)]
    by (cases ack) (simp_all add: CO_LSSmaster_FsScanWait_def fs_at_def CO_LSS_FASTSCAN_BIT0_def M0_def)
  have n: "CO_LSSmaster_FsSearchNext M0 fs = fs_next sub" using search_next [OF assms(2)] assms(4) M0(2) by metis
  have y: "CO_LSSmaster_FsVerifyInitiate env M0 bus CO_LSSmaster_FS_SCAN k (fs_next sub) =
      Some (CO_LSSmaster_WAIT_SLAVE, M0\<lparr>lsm_fsBitChecked := 0, lsm_timeoutTimer := 0, lsm_CANrxNew := False\<rparr>, bus1)" for k
    using s(1) M0 by (simp add: CO_LSSmaster_FsVerifyInitiate_def CO_LSS_FASTSCAN_BIT0_def)
  have "CO_LSSmaster_IdentifyFastscan env M bus dt fs = Some (CO_LSSmaster_WAIT_SLAVE, ?M1, bus1, fs)"
    using assms(1,2) scan_all_nth [OF assms(2) i] w n y
    by (simp add: CO_LSSmaster_IdentifyFastscan_def fs_at_def fastscan_scan_def)
  moreover have "fs_at CO_LSSmaster_FS_STATE_VERIFY sub 0 (fs_value ack 0 v) False dt ?M1 bus1"
    using assms(1) M s(2) by (cases ack) (simp_all add: fs_at_def M0_def fs_value_def)
  ultimately show ?thesis using that s(3) by blast
qed

lemma verify_wait:
  assumes "fs_at CO_LSSmaster_FS_STATE_VERIFY sub b v True dt M bus"
  shows "CO_LSSmaster_FsVerifyWait M dt CO_LSSmaster_FS_SCAN k =
    (CO_LSSmaster_SCAN_FINISHED, M\<lparr>lsm_timeoutTimer := 0, lsm_CANrxNew := False\<rparr>, v)"
  using assms fs_timeout [OF assms] by (simp add: CO_LSSmaster_FsVerifyWait_def fs_at_def)

lemma call_verify:
  assumes "fs_at CO_LSSmaster_FS_STATE_VERIFY sub b v True dt M bus" "scan_all fs" "writes_ok env" "sub < 3"
  obtains M1 bus1 ident where "CO_LSSmaster_IdentifyFastscan env M bus dt fs =
      Some (CO_LSSmaster_WAIT_SLAVE, M1, bus1, fs\<lparr>fs_found := (fs_found fs)[unat sub := v]\<rparr>)"
    "fs_at CO_LSSmaster_FS_STATE_SCAN (sub + 1) 31 0 False dt M1 bus1"
    "extends bus [(ident, 8, fastscan_frame 0 31 (sub + 1) (sub + 1))] bus1"
proof -
  from assms(1) obtain txb where M: "lsm_TXbuff M = Some txb" "buf_ok txb bus" by (rule fs_at_buf)
  let ?fs = "fs\<lparr>fs_found := (fs_found fs)[unat sub := v]\<rparr>"
  define Mw where "Mw = M\<lparr>lsm_timeoutTimer := 0, lsm_CANrxNew := False\<rparr>"
  define M0 where "M0 = Mw\<lparr>lsm_fsLssSub := sub + 1, lsm_fsIdNumber := 0, lsm_fsBitChecked := 31\<rparr>"
  have "lsm_TXbuff M0 = Some txb" using M by (simp add: M0_def Mw_def)
  from fs_send [OF this M(2) assms(3), of 0 31 "sub + 1" "sub + 1"] obtain bus1 ident where
    s: "CO_LSSmaster_FsSendMsg env M0 bus 0 31 (sub + 1) (sub + 1) = Some (M0\<lparr>lsm_timeoutTimer := 0, lsm_CANrxNew := False\<rparr>, bus1)"
    "buf_ok txb bus1" "extends bus [(ident, 8, fastscan_frame 0 31 (sub + 1) (sub + 1))] bus1" by metis
  let ?M1 = "M0\<lparr>lsm_timeoutTimer := 0, lsm_CANrxNew := False, lsm_fsState := CO_LSSmaster_FS_STATE_SCAN\<rparr>"
  have sub: "unat sub < 4" "sub \<le> 3" "sub \<noteq> 3" "unat (sub + 1) < 4" "sub + 1 \<noteq> 0"
    using u8_cases_4 [of sub] assms(4) by (auto simp: order.strict_implies_order)
  have sa: "scan_all ?fs" using assms(2) by (simp add: scan_all_def)
  have "lsm_fsLssSub Mw = sub" using assms(1) by (simp add: Mw_def fs_at_def)
  then have n: "CO_LSSmaster_FsSearchNext Mw ?fs = sub + 1"
    using search_next [OF sa, of Mw] sub by (simp add: fs_next_def)
  have i: "CO_LSSmaster_FsScanInitiate env Mw bus CO_LSSmaster_FS_SCAN (sub + 1) =
      Some (CO_LSSmaster_WAIT_SLAVE, M0\<lparr>lsm_timeoutTimer := 0, lsm_CANrxNew := False\<rparr>, bus1)"
    using s(1) by (simp add: CO_LSSmaster_FsScanInitiate_def CO_LSS_FASTSCAN_BIT31_def M0_def)
  have "fastscan_verify env M bus dt fs = Some (CO_LSSmaster_WAIT_SLAVE, ?M1, bus1, ?fs)"
    using assms(1) scan_all_nth [OF assms(2) sub(1)] scan_all_nth [OF sa sub(4)] n i sub(5)
      verify_wait [OF assms(1), of "fs_found fs ! unat sub"]
    by (simp add: fastscan_verify_def fs_at_def CO_LSS_FASTSCAN_VENDOR_ID_def flip: Mw_def)
  then have "CO_LSSmaster_IdentifyFastscan env M bus dt fs = Some (CO_LSSmaster_WAIT_SLAVE, ?M1, bus1, ?fs)"
    using assms(1,2) by (simp add: CO_LSSmaster_IdentifyFastscan_def fs_at_def)
  moreover have "fs_at CO_LSSmaster_FS_STATE_SCAN (sub + 1) 31 0 False dt ?M1 bus1"
    using assms(1) M s(2) by (simp add: fs_at_def M0_def Mw_def)
  ultimately show ?thesis using that s(3) by blast
qed

lemma call_verify_last:
  assumes "fs_at CO_LSSmaster_FS_STATE_VERIFY 3 b v True dt M bus" "scan_all fs"
  obtains M1 where "CO_LSSmaster_IdentifyFastscan env M bus dt fs =
      Some (CO_LSSmaster_SCAN_FINISHED, M1, bus, fs\<lparr>fs_found := (fs_found fs)[3 := v]\<rparr>)"
    "lsm_state M1 = CO_LSSmaster_STATE_CFG_SLECTIVE" "lsm_command M1 = CO_LSSmaster_COMMAND_WAITING"
proof -
  define Mw where "Mw = M\<lparr>lsm_timeoutTimer := 0, lsm_CANrxNew := False\<rparr>"
  let ?fs = "fs\<lparr>fs_found := (fs_found fs)[3 := v]\<rparr>"
  have sa: "scan_all ?fs" using assms(2) by (simp add: scan_all_def)
  have sub: "lsm_fsLssSub M = 3" using assms(1) by (simp add: fs_at_def)
  then have n: "CO_LSSmaster_FsSearchNext Mw ?fs = 0"
    using search_next [OF sa, of Mw] by (simp add: fs_next_def Mw_def)
  have "fastscan_verify env M bus dt fs =
      Some (CO_LSSmaster_SCAN_FINISHED, Mw\<lparr>lsm_state := CO_LSSmaster_STATE_CFG_SLECTIVE\<rparr>, bus, ?fs)"
    using scan_all_nth [OF assms(2), of 3] n sub verify_wait [OF assms(1), of "fs_found fs ! 3"]
    by (simp add: fastscan_verify_def CO_LSS_FASTSCAN_VENDOR_ID_def flip: Mw_def)
  then show ?thesis using assms
    by (intro that [of "Mw\<lparr>lsm_state := CO_LSSmaster_STATE_CFG_SLECTIVE, lsm_command := CO_LSSmaster_COMMAND_WAITING\<rparr>"])
      (simp_all add: CO_LSSmaster_IdentifyFastscan_def fs_at_def)
qed

subsection \<open>Settling one number\<close>

lemma masked_eq_iff:
  "(a :: u32) AND push_bit b 0xFFFFFFFF = v AND push_bit b 0xFFFFFFFF \<longleftrightarrow> unat a div 2 ^ b = unat v div 2 ^ b"
proof -
  have m: "x AND push_bit b 0xFFFFFFFF = push_bit b (drop_bit b x)" for x :: u32
  proof -
    have "(0xFFFFFFFF :: u32) = - 1" by simp
    then show ?thesis by (simp add: bit_eq_iff bit_simps) (auto dest: bit_imp_le_length)
  qed
  have "drop_bit b (push_bit b (drop_bit b x)) = drop_bit b x" for x :: u32
    by (rule bit_word_eqI) (auto simp: bit_simps dest: bit_imp_le_length)
  then have "push_bit b (drop_bit b a) = push_bit b (drop_bit b v) \<longleftrightarrow> drop_bit b a = drop_bit b v" by metis
  also have "\<dots> \<longleftrightarrow> unat a div 2 ^ b = unat v div 2 ^ b"
    by (simp add: word_eq_iff_unsigned [where ?'a = nat] unsigned_drop_bit_eq take_bit_nat_eq_self flip: drop_bit_eq_div)
  finally show ?thesis by (simp only: m)
qed

lemma div_Suc_exp: "(m :: nat) div 2 ^ Suc b = m div 2 ^ b div 2"
  by (simp only: power_Suc2 div_mult2_eq)

lemma next_bit_even:
  assumes "(v :: nat) = m div 2 ^ Suc b * 2 ^ Suc b"
  shows "m div 2 ^ b = v div 2 ^ b \<longleftrightarrow> even (m div 2 ^ b)"
proof -
  have "v div 2 ^ b = 2 * (m div 2 ^ b div 2)" using assms by (simp only: div_Suc_exp) simp
  then show ?thesis by (metis dvd_mult_div_cancel dvd_triv_left)
qed

lemma next_bit_match:
  assumes "(v :: nat) = m div 2 ^ Suc b * 2 ^ Suc b" "m \<le> a" "a div 2 ^ b = v div 2 ^ b"
  shows "even (m div 2 ^ b)"
proof -
  have "v \<le> m" using assms(1) by simp
  then have "v div 2 ^ b \<le> m div 2 ^ b" "m div 2 ^ b \<le> a div 2 ^ b" using assms(2) by (simp_all add: div_le_mono)
  then have "m div 2 ^ b = v div 2 ^ b" using assms(3) by simp
  then show ?thesis using next_bit_even [OF assms(1)] by simp
qed

lemma unat_set_bit:
  assumes "unat (v :: u32) = m div 2 ^ Suc b * 2 ^ Suc b" "b < 32" "m < 2 ^ 32" "odd (m div 2 ^ b)"
  shows "unat (v OR push_bit b 1) = m div 2 ^ b * 2 ^ b"
proof -
  have "unat v div 2 ^ b = 2 * (m div 2 ^ b div 2)" using assms(1) by (simp only: div_Suc_exp) simp
  then have "\<not> bit (unat v) b" by (simp add: bit_iff_odd)
  then have bit: "\<not> bit v b" by (simp add: bit_unsigned_iff)
  obtain q where q: "m div 2 ^ b = 2 * q + 1" using assms(4) by (elim oddE)
  then have "m div 2 ^ Suc b = q" by (simp add: div_Suc_exp del: power_Suc)
  with assms(1) q have m: "m div 2 ^ b * 2 ^ b = unat v + 2 ^ b" by (simp add: algebra_simps)
  then have lt: "unat v + 2 ^ b < 2 ^ 32" using assms(3) by (metis div_times_less_eq_dividend order.strict_trans1)
  have "v OR push_bit b 1 = v + push_bit b 1"
    by (rule disjunctive_add [symmetric]) (use bit in \<open>auto simp: bit_simps\<close>)
  also have "unat \<dots> = unat v + 2 ^ b"
  proof -
    have "unat (word_of_nat (2 ^ b) :: u32) = 2 ^ b"
      using lt assms(2) by (simp only: unsigned_of_nat) (simp add: take_bit_nat_eq_self)
    then show ?thesis using lt assms(2) by (simp add: unat_word_ariths)
  qed
  finally show ?thesis using m by simp
qed

text \<open>The slaves that are still in the scan, and the smallest number among them.\<close>

definition in_scan :: "u8 \<Rightarrow> CO_LSSslave_t \<Rightarrow> bool" where
  "in_scan sub S \<longleftrightarrow> unconfigured S \<and> lsv_fastscanPos S = sub"

definition least_number :: "u8 \<Rightarrow> CO_LSSslave_t list \<Rightarrow> u32 \<Rightarrow> bool" where
  "least_number sub Ss m \<longleftrightarrow> (\<exists>S \<in> set Ss. in_scan sub S \<and> lsv_lssAddress S ! unat sub = m) \<and>
     (\<forall>S \<in> set Ss. in_scan sub S \<longrightarrow> m \<le> lsv_lssAddress S ! unat sub)"

definition advance :: "u8 \<Rightarrow> u32 \<Rightarrow> CO_LSSslave_t \<Rightarrow> CO_LSSslave_t" where
  \<comment> \<open>what the last request for a number does to a slave\<close>
  "advance sub m S =
     (if in_scan sub S \<and> lsv_lssAddress S ! unat sub = m
      then (if sub = 3 then S\<lparr>lsv_lssState := CO_LSS_STATE_CONFIGURATION\<rparr> else S)\<lparr>lsv_fastscanPos := fs_next sub\<rparr> else S)"

lemma least_number_exists:
  assumes "\<exists>S \<in> set Ss. in_scan sub S"
  obtains m where "least_number sub Ss m"
proof -
  let ?A = "(\<lambda>S. lsv_lssAddress S ! unat sub) ` {S \<in> set Ss. in_scan sub S}"
  have "finite ?A" "?A \<noteq> {}" using assms by auto
  then have "Min ?A \<in> ?A" "\<forall>a \<in> ?A. Min ?A \<le> a" by (simp_all only: Min_in Min_le ball_simps) auto
  then have "least_number sub Ss (Min ?A)" by (auto simp: least_number_def)
  then show ?thesis by (rule that)
qed

lemma scan_request:
  assumes "sub \<le> 3" "b \<le> 31"
  shows "lss_fastscan_ack (fastscan_frame v b sub sub) S =
    (in_scan sub S \<and> unat (lsv_lssAddress S ! unat sub) div 2 ^ unat b = unat v div 2 ^ unat b, S)"
proof -
  have v: "CO_LSS_FASTSCAN_BITCHECK_VALID b" "CO_LSS_FASTSCAN_LSS_SUB_NEXT_VALID sub" "b \<noteq> CO_LSS_FASTSCAN_CONFIRM"
    using assms by (auto simp: CO_LSS_FASTSCAN_BITCHECK_VALID_def CO_LSS_FASTSCAN_LSS_SUB_NEXT_VALID_def
        CO_LSS_FASTSCAN_SERIAL_def CO_LSS_FASTSCAN_BIT31_def CO_LSS_FASTSCAN_CONFIRM_def)
  have "lsv_fastscanPos S = sub \<Longrightarrow> S\<lparr>lsv_fastscanPos := sub\<rparr> = S" by simp
  with v show ?thesis
    by (auto simp: lss_fastscan_ack_def fastscan_frame_fields in_scan_def unconfigured_def Let_def masked_eq_iff)
qed

lemma verify_request:
  assumes "sub \<le> 3"
  shows "lss_fastscan_ack (fastscan_frame m 0 sub (fs_next sub)) S =
    (in_scan sub S \<and> lsv_lssAddress S ! unat sub = m, advance sub m S)"
proof -
  have v: "CO_LSS_FASTSCAN_BITCHECK_VALID 0" "CO_LSS_FASTSCAN_LSS_SUB_NEXT_VALID sub" "0 \<noteq> CO_LSS_FASTSCAN_CONFIRM"
    "CO_LSS_FASTSCAN_LSS_SUB_NEXT_VALID (fs_next sub)" "fs_next sub < sub \<longleftrightarrow> sub = 3"
    using u8_cases_4 [OF assms] by (auto simp: CO_LSS_FASTSCAN_BITCHECK_VALID_def CO_LSS_FASTSCAN_LSS_SUB_NEXT_VALID_def
        CO_LSS_FASTSCAN_SERIAL_def CO_LSS_FASTSCAN_BIT31_def CO_LSS_FASTSCAN_CONFIRM_def fs_next_def)
  have "x AND (0xFFFFFFFF :: u32) = x" for x
  proof -
    have "(0xFFFFFFFF :: u32) = - 1" by simp
    then show ?thesis by (metis and.right_neutral)
  qed
  with v show ?thesis
    by (auto simp: lss_fastscan_ack_def fastscan_frame_fields in_scan_def unconfigured_def Let_def advance_def)
qed

lemma confirm_request:
  "lss_fastscan_ack (fastscan_frame v CO_LSS_FASTSCAN_CONFIRM 0 0) S =
    (unconfigured S, if unconfigured S then S\<lparr>lsv_fastscanPos := 0, lsv_lssFastscan := replicate 4 0\<rparr> else S)"
  by (auto simp: lss_fastscan_ack_def fastscan_frame_fields unconfigured_def Let_def CO_LSS_FASTSCAN_BITCHECK_VALID_def
      CO_LSS_FASTSCAN_LSS_SUB_NEXT_VALID_def CO_LSS_FASTSCAN_VENDOR_ID_def)

abbreviation fastscan_call :: "can_env \<Rightarrow> u32 \<Rightarrow> CO_LSSmaster_fastscan_t \<Rightarrow> CO_LSSmaster_t \<Rightarrow> co_bus \<Rightarrow> fastscan_result" where
  "fastscan_call env dt fs M bus \<equiv> CO_LSSmaster_IdentifyFastscan env M bus dt fs"

subsection \<open>Waiting for the timeout\<close>

text \<open>
  The master evaluates the answers to a request when its timer has reached the timeout. Called every \<^verbatim>\<open>d\<close> microseconds it needs
  \<^verbatim>\<open>step_calls\<close> calls for that; all of them but the last only add to the timer.
\<close>

definition paced :: "u32 \<Rightarrow> u32 \<Rightarrow> bool" where
  "paced T d \<longleftrightarrow> 0 < d \<and> unat T + unat d < 2 ^ 32"

definition step_calls :: "u32 \<Rightarrow> u32 \<Rightarrow> nat" where
  "step_calls T d = Suc ((unat T - 1) div unat d)"

lemma call_waits:
  assumes "fs_at st sub b v ack T M bus" "scan_all fs" "st \<noteq> CO_LSSmaster_FS_STATE_CHECK \<longrightarrow> sub \<le> 3" "t + d < T"
  shows "CO_LSSmaster_IdentifyFastscan env (M\<lparr>lsm_timeoutTimer := t\<rparr>) bus d fs =
    Some (CO_LSSmaster_WAIT_SLAVE, M\<lparr>lsm_timeoutTimer := t + d\<rparr>, bus, fs)"
proof -
  have i: "fs_scan fs ! unat sub = CO_LSSmaster_FS_SCAN" if "st \<noteq> CO_LSSmaster_FS_STATE_CHECK"
    using assms(3) that by (intro scan_all_nth assms(2)) (simp add: word_le_nat_alt)
  have "CO_LSSmaster_check_timeout (M\<lparr>lsm_timeoutTimer := t\<rparr>) d = (CO_LSSmaster_WAIT_SLAVE, M\<lparr>lsm_timeoutTimer := t + d\<rparr>)"
    using assms(1,4) by (simp add: CO_LSSmaster_check_timeout_def fs_at_def not_le [symmetric])
  then show ?thesis using assms(1,2) i
    by (cases st) (simp_all add: CO_LSSmaster_IdentifyFastscan_def fs_at_def fastscan_check_def fastscan_scan_def fastscan_verify_def
        CO_LSSmaster_FsCheckWait_def CO_LSSmaster_FsScanWait_def CO_LSSmaster_FsVerifyWait_def)
qed

lemma call_after_wait:
  assumes "fs_at st sub b v ack T M bus" "scan_all fs" "st \<noteq> CO_LSSmaster_FS_STATE_CHECK \<longrightarrow> sub \<le> 3" "T \<le> t + d"
  shows "CO_LSSmaster_IdentifyFastscan env (M\<lparr>lsm_timeoutTimer := t\<rparr>) bus d fs = CO_LSSmaster_IdentifyFastscan env M bus T fs"
proof -
  have i: "fs_scan fs ! unat sub = CO_LSSmaster_FS_SCAN" if "st \<noteq> CO_LSSmaster_FS_STATE_CHECK"
    using assms(3) that by (intro scan_all_nth assms(2)) (simp add: word_le_nat_alt)
  have "CO_LSSmaster_check_timeout (M\<lparr>lsm_timeoutTimer := t\<rparr>) d = (CO_LSSmaster_TIMEOUT, M\<lparr>lsm_timeoutTimer := 0\<rparr>)"
    "CO_LSSmaster_check_timeout M T = (CO_LSSmaster_TIMEOUT, M\<lparr>lsm_timeoutTimer := 0\<rparr>)"
    using assms(1,4) by (simp_all add: CO_LSSmaster_check_timeout_def fs_at_def)
  then show ?thesis using assms(1,2) i
    by (cases st) (simp_all add: CO_LSSmaster_IdentifyFastscan_def fs_at_def fastscan_check_def fastscan_scan_def fastscan_verify_def
        CO_LSSmaster_FsCheckWait_def CO_LSSmaster_FsScanWait_def CO_LSSmaster_FsVerifyWait_def)
qed

lemma run_waits:
  assumes "fs_at st sub b v ack T M bus" "scan_all fs" "st \<noteq> CO_LSSmaster_FS_STATE_CHECK \<longrightarrow> sub \<le> 3" "\<forall>n \<in> set ns. node_ok n" "paced T d"
    and "unat t + j * unat d < unat T"
  shows "lss_run (j + k) env (fastscan_call env d) fs (M\<lparr>lsm_timeoutTimer := t\<rparr>, bus, ns) =
    lss_run k env (fastscan_call env d) fs (M\<lparr>lsm_timeoutTimer := t + of_nat j * d\<rparr>, bus, ns)"
  using assms(6)
proof (induction j arbitrary: t)
  case 0
  then show ?case by simp
next
  case (Suc j)
  have "unat t + unat d < 2 ^ LENGTH(32)" using Suc.prems assms(5) by (simp add: paced_def)
  then have u: "unat (t + d) = unat t + unat d" by (rule unat_add_lem [THEN iffD1])
  then have "t + d < T" using Suc.prems by (simp add: word_less_nat_alt)
  from call_waits [OF assms(1-3) this, of env]
  have "lss_round env (fastscan_call env d fs) (M\<lparr>lsm_timeoutTimer := t\<rparr>, bus, ns) =
      Some (CO_LSSmaster_WAIT_SLAVE, fs, M\<lparr>lsm_timeoutTimer := t + d\<rparr>, bus, ns)"
    using nodes_step_nothing [OF assms(4)] by (simp add: lss_round_def new_frames_extends [OF extends_refl] master_receive_def)
  then show ?case using Suc.IH [of "t + d"] Suc.prems u by (simp add: algebra_simps)
qed

lemma run_step:
  assumes "fs_at st sub b v ack T M bus" "scan_all fs" "st \<noteq> CO_LSSmaster_FS_STATE_CHECK \<longrightarrow> sub \<le> 3" "\<forall>n \<in> set ns. node_ok n" "paced T d"
    and "lss_round env (fastscan_call env T fs) (M, bus, ns) = Some (ret, x, net)"
  shows "lss_run (step_calls T d + k) env (fastscan_call env d) fs (M, bus, ns) =
    (if ret = CO_LSSmaster_WAIT_SLAVE then lss_run k env (fastscan_call env d) x net else Some (ret, x, net))"
proof -
  define j where "j = (unat T - 1) div unat d"
  have d: "0 < unat d" using assms(5) by (simp add: paced_def word_less_nat_alt)
  have jd: "j * unat d \<le> unat T - 1" by (simp add: j_def)
  have "unat T - 1 < (j + 1) * unat d" using d dividend_less_div_times [of "unat d" "unat T - 1"] by (simp add: j_def algebra_simps)
  then have T: "unat T \<le> j * unat d + unat d" by simp
  have M: "M\<lparr>lsm_timeoutTimer := 0\<rparr> = M" using assms(1) by (simp add: fs_at_def)
  have u: "unat (of_nat j * d :: u32) = j * unat d" "unat (of_nat j * d + d :: u32) = j * unat d + unat d"
  proof -
    have "j * unat d + unat d < 2 ^ 32" using jd assms(5) by (auto simp: paced_def)
    moreover have "unat (of_nat m :: u32) = m" if "m < 2 ^ 32" for m using that by (simp add: unat_of_nat)
    from this [of "j * unat d"] this [of "j * unat d + unat d"] calculation
    show "unat (of_nat j * d :: u32) = j * unat d" "unat (of_nat j * d + d :: u32) = j * unat d + unat d" by simp_all
  qed
  have wait: "lss_run (j + Suc k) env (fastscan_call env d) fs (M, bus, ns) =
      lss_run (Suc k) env (fastscan_call env d) fs (M\<lparr>lsm_timeoutTimer := of_nat j * d\<rparr>, bus, ns)"
  proof (cases "j = 0")
    case True
    then show ?thesis using M by simp
  next
    case False
    then have "unat T \<noteq> 0" by (intro notI) (simp add: j_def)
    then have "unat (0 :: u32) + j * unat d < unat T" using jd by simp
    from run_waits [OF assms(1-5) this, of "Suc k" env] M show ?thesis by simp
  qed
  have "T \<le> of_nat j * d + d" using T u(2) by (simp add: word_le_nat_alt)
  from call_after_wait [OF assms(1-3) this, of env]
  have "lss_round env (fastscan_call env d fs) (M\<lparr>lsm_timeoutTimer := of_nat j * d\<rparr>, bus, ns) = Some (ret, x, net)"
    using assms(6) by (simp add: lss_round_def)
  moreover have "step_calls T d + k = j + Suc k" by (simp add: step_calls_def j_def)
  ultimately show ?thesis by (simp only: wait) simp
qed

lemma scan_nodes_ok: "\<forall>n \<in> set ns. scan_node n \<Longrightarrow> \<forall>n \<in> set ns. node_ok n"
  by (simp add: scan_node_def)

subsection \<open>A scan over the bus\<close>

definition scanning :: "u32 \<Rightarrow> u8 \<Rightarrow> u8 \<Rightarrow> u32 \<Rightarrow> CO_LSSslave_t list \<Rightarrow> lss_net \<Rightarrow> bool" where
  \<comment> \<open>a request for the bit \<open>b\<close> of the number \<open>sub\<close> was answered; \<open>m\<close> is the smallest number\<close>
  "scanning dt sub b m Ss net \<longleftrightarrow>
     (case net of (M, bus, ns) \<Rightarrow>
        (\<exists>v. fs_at CO_LSSmaster_FS_STATE_SCAN sub b v (even (unat m div 2 ^ unat b)) dt M bus \<and>
             unat v = unat m div 2 ^ Suc (unat b) * 2 ^ Suc (unat b)) \<and>
        (\<forall>n \<in> set ns. scan_node n) \<and> map fst ns = Ss)"

definition verifying :: "u32 \<Rightarrow> u8 \<Rightarrow> u32 \<Rightarrow> CO_LSSslave_t list \<Rightarrow> lss_net \<Rightarrow> bool" where
  "verifying dt sub m Ss net \<longleftrightarrow>
     (case net of (M, bus, ns) \<Rightarrow>
        fs_at CO_LSSmaster_FS_STATE_VERIFY sub 0 m True dt M bus \<and> (\<forall>n \<in> set ns. node_ok n) \<and> map fst ns = Ss)"

lemma scan_answer:
  assumes "least_number sub Ss m" "unat v = unat m div 2 ^ Suc b * 2 ^ Suc b"
  shows "(\<exists>S \<in> set Ss. in_scan sub S \<and> unat (lsv_lssAddress S ! unat sub) div 2 ^ b = unat v div 2 ^ b) \<longleftrightarrow> even (unat m div 2 ^ b)"
proof
  assume "even (unat m div 2 ^ b)"
  then have "unat m div 2 ^ b = unat v div 2 ^ b" using next_bit_even [OF assms(2)] by simp
  with assms(1) show "\<exists>S \<in> set Ss. in_scan sub S \<and> unat (lsv_lssAddress S ! unat sub) div 2 ^ b = unat v div 2 ^ b"
    unfolding least_number_def by blast
next
  assume "\<exists>S \<in> set Ss. in_scan sub S \<and> unat (lsv_lssAddress S ! unat sub) div 2 ^ b = unat v div 2 ^ b"
  with assms(1) show "even (unat m div 2 ^ b)"
    using next_bit_match [OF assms(2)] by (auto simp: least_number_def word_le_nat_alt)
qed

lemma fs_value_bit:
  fixes m v :: u32 and b :: u8
  assumes "unat v = unat m div 2 ^ Suc (unat b) * 2 ^ Suc (unat b)" "b \<le> 31"
  shows "unat (fs_value (even (unat m div 2 ^ unat b)) b v) = unat m div 2 ^ unat b * 2 ^ unat b"
proof (cases "even (unat m div 2 ^ unat b)")
  case True
  then have "unat m div 2 ^ Suc (unat b) * 2 = unat m div 2 ^ unat b" by (simp add: div_Suc_exp del: power_Suc)
  then have "unat v = unat m div 2 ^ unat b * 2 ^ unat b" using assms(1) by (metis mult.assoc power_Suc)
  with True show ?thesis by (simp add: fs_value_def)
next
  case False
  have "unat b < 32" using assms(2) by (simp add: word_le_nat_alt)
  from unat_set_bit [OF assms(1) this _ False] False show ?thesis by (simp add: fs_value_def)
qed

lemma scanning_round:
  assumes "call M bus = Some (CO_LSSmaster_WAIT_SLAVE, M1, bus1, x)" "extends bus [(ident, 8, fastscan_frame v b sub sub)] bus1"
    "fs_at CO_LSSmaster_FS_STATE_SCAN sub b v False dt M1 bus1" "unat v = unat m div 2 ^ Suc (unat b) * 2 ^ Suc (unat b)"
    "\<forall>n \<in> set ns. scan_node n" "map fst ns = Ss" "least_number sub Ss m" "sub \<le> 3" "b \<le> 31" "writes_ok env"
  obtains net where "lss_round env call (M, bus, ns) = Some (CO_LSSmaster_WAIT_SLAVE, x, net)" "scanning dt sub b m Ss net"
proof -
  obtain M2 ns1 where
    r: "lss_round env call (M, bus, ns) = Some (CO_LSSmaster_WAIT_SLAVE, x, M2, bus1, ns1)" "\<forall>n \<in> set ns1. node_ok n"
      "map fst ns1 = map (\<lambda>n. snd (lss_fastscan_ack (fastscan_frame v b sub sub) (fst n))) ns"
      "fs_at CO_LSSmaster_FS_STATE_SCAN sub b v (\<exists>n \<in> set ns. fst (lss_fastscan_ack (fastscan_frame v b sub sub) (fst n))) dt M2 bus1"
    by (rule fs_round [of call M bus, OF assms(1,2,3,5,10)])
  from r(3) have same: "map fst ns1 = Ss" using assms(6) by (simp add: scan_request [OF assms(8,9)])
  have "(\<exists>n \<in> set ns. fst (lss_fastscan_ack (fastscan_frame v b sub sub) (fst n))) \<longleftrightarrow> even (unat m div 2 ^ unat b)"
    using scan_answer [OF assms(7,4)] assms(6) by (force simp: scan_request [OF assms(8,9)])
  moreover have "\<forall>n \<in> set ns1. scan_node n"
  proof
    fix n assume n: "n \<in> set ns1"
    then have "fst n \<in> fst ` set ns" using same assms(6) by (metis image_eqI list.set_map)
    with assms(5) n r(2) show "scan_node n" by (auto simp: scan_node_def)
  qed
  ultimately show ?thesis using that [OF r(1)] r(4) same assms(4) by (auto simp: scanning_def)
qed

lemma scan_number:
  assumes "scanning dt sub b m Ss net" "least_number sub Ss m" "sub \<le> 3" "b \<le> 31" "scan_all fs" "writes_ok env" "paced dt d"
  shows "\<exists>net'. lss_run (Suc (unat b) * step_calls dt d + k) env (fastscan_call env d) fs net = lss_run k env (fastscan_call env d) fs net' \<and>
    verifying dt sub m (map (advance sub m) Ss) net'"
  using assms(1,4)
proof (induction "unat b" arbitrary: b net)
  case 0
  then have b: "b = 0" by (simp add: unat_eq_0)
  obtain M bus ns where net: "net = (M, bus, ns)" by (cases net)
  from 0(2) b net obtain v where at: "fs_at CO_LSSmaster_FS_STATE_SCAN sub 0 v (even (unat m)) dt M bus"
    "unat v = unat m div 2 ^ Suc (unat (0 :: u8)) * 2 ^ Suc (unat (0 :: u8))" "\<forall>n \<in> set ns. scan_node n" "map fst ns = Ss"
    by (auto simp: scanning_def)
  have v: "fs_value (even (unat m)) 0 v = m"
    using fs_value_bit [OF at(2)] by (simp add: word_eq_iff_unsigned [where ?'a = nat])
  obtain M1 bus1 ident where
    c: "fastscan_call env dt fs M bus = Some (CO_LSSmaster_WAIT_SLAVE, M1, bus1, fs)"
      "fs_at CO_LSSmaster_FS_STATE_VERIFY sub 0 m False dt M1 bus1"
      "extends bus [(ident, 8, fastscan_frame m 0 sub (fs_next sub))] bus1"
    by (rule call_scan_last [OF at(1) assms(5,6,3), unfolded v])
  obtain M2 ns1 where
    r: "lss_round env (fastscan_call env dt fs) (M, bus, ns) = Some (CO_LSSmaster_WAIT_SLAVE, fs, M2, bus1, ns1)"
      "\<forall>n \<in> set ns1. node_ok n" "map fst ns1 = map (\<lambda>n. snd (lss_fastscan_ack (fastscan_frame m 0 sub (fs_next sub)) (fst n))) ns"
      "fs_at CO_LSSmaster_FS_STATE_VERIFY sub 0 m (\<exists>n \<in> set ns. fst (lss_fastscan_ack (fastscan_frame m 0 sub (fs_next sub)) (fst n))) dt M2 bus1"
    by (rule fs_round [of "fastscan_call env dt fs" M bus, OF c(1,3,2) at(3) assms(6)])
  have "\<exists>n \<in> set ns. fst (lss_fastscan_ack (fastscan_frame m 0 sub (fs_next sub)) (fst n))"
    using assms(2) at(4) by (auto simp: verify_request [OF assms(3)] least_number_def)
  moreover have "map fst ns1 = map (advance sub m) Ss" using r(3) at(4) by (auto simp: verify_request [OF assms(3)])
  ultimately have "verifying dt sub m (map (advance sub m) Ss) (M2, bus1, ns1)" using r(2,4) by (simp add: verifying_def)
  then show ?case using run_step [OF at(1) assms(5) impI [OF assms(3)] scan_nodes_ok [OF at(3)] assms(7) r(1), of k] net b
    by (intro exI [of _ "(M2, bus1, ns1)"]) simp
next
  case (Suc j)
  have "b \<noteq> 0" using Suc.hyps(2) by auto
  with Suc.hyps(2) have b: "b \<noteq> 0" "unat (b - 1) = j" "Suc (unat (b - 1)) = unat b"
    using unat_minus_one [of b] by simp_all
  then have le: "b - 1 \<le> 31" using Suc.prems(2) by (simp add: word_le_nat_alt)
  obtain M bus ns where net: "net = (M, bus, ns)" by (cases net)
  from Suc.prems(1) net obtain v where at: "fs_at CO_LSSmaster_FS_STATE_SCAN sub b v (even (unat m div 2 ^ unat b)) dt M bus"
    "unat v = unat m div 2 ^ Suc (unat b) * 2 ^ Suc (unat b)" "\<forall>n \<in> set ns. scan_node n" "map fst ns = Ss"
    by (auto simp: scanning_def)
  define v' where "v' = fs_value (even (unat m div 2 ^ unat b)) b v"
  have v': "unat v' = unat m div 2 ^ Suc (unat (b - 1)) * 2 ^ Suc (unat (b - 1))"
    using fs_value_bit [OF at(2) Suc.prems(2)] b(3) by (simp add: v'_def)
  obtain M1 bus1 ident where
    c: "fastscan_call env dt fs M bus = Some (CO_LSSmaster_WAIT_SLAVE, M1, bus1, fs)"
      "fs_at CO_LSSmaster_FS_STATE_SCAN sub (b - 1) v' False dt M1 bus1"
      "extends bus [(ident, 8, fastscan_frame v' (b - 1) sub sub)] bus1"
    by (rule call_scan [OF at(1) assms(5,6,3) b(1), folded v'_def])
  obtain net1 where
    r: "lss_round env (fastscan_call env dt fs) (M, bus, ns) = Some (CO_LSSmaster_WAIT_SLAVE, fs, net1)"
      "scanning dt sub (b - 1) m Ss net1"
    by (rule scanning_round [of "fastscan_call env dt fs" M bus, OF c(1,3,2) v' at(3,4) assms(2,3) le assms(6)])
  from Suc.hyps(1) [OF b(2) [symmetric] r(2) le] obtain net' where
    "lss_run (Suc (unat (b - 1)) * step_calls dt d + k) env (fastscan_call env d) fs net1 = lss_run k env (fastscan_call env d) fs net'"
    "verifying dt sub m (map (advance sub m) Ss) net'" by blast
  moreover have "Suc (unat b) * step_calls dt d + k = step_calls dt d + (Suc (unat (b - 1)) * step_calls dt d + k)"
    by (simp flip: b(3))
  ultimately show ?case
    using run_step [OF at(1) assms(5) impI [OF assms(3)] scan_nodes_ok [OF at(3)] assms(7) r(1), of "Suc (unat (b - 1)) * step_calls dt d + k"] net
    by (intro exI [of _ net']) (simp only: if_True simp_thms)
qed

lemma no_bits: "unat (0 :: u32) = unat (m :: u32) div 2 ^ Suc (unat (31 :: u8)) * 2 ^ Suc (unat (31 :: u8))"
  using unat_u32_less [of m] by simp

lemma settle_number:
  assumes "scanning dt sub 31 m Ss net" "least_number sub Ss m" "sub < 3" "scan_all fs" "writes_ok env"
    "\<forall>S \<in> set Ss. lsv_lssState S = CO_LSS_STATE_WAITING" "least_number (sub + 1) (map (advance sub m) Ss) m'" "paced dt d"
  obtains net' where
    "lss_run (33 * step_calls dt d + k) env (fastscan_call env d) fs net =
       lss_run k env (fastscan_call env d) (fs\<lparr>fs_found := (fs_found fs)[unat sub := m]\<rparr>) net'"
    "scanning dt (sub + 1) 31 m' (map (advance sub m) Ss) net'"
proof -
  let ?fs = "fs\<lparr>fs_found := (fs_found fs)[unat sub := m]\<rparr>" and ?Ss = "map (advance sub m) Ss"
  have sub: "sub \<le> 3" "sub + 1 \<le> 3" "sub \<noteq> 3" using u8_cases_4 [of sub] assms(3) by (auto simp: order.strict_implies_order)
  from scan_number [OF assms(1,2) sub(1) order_refl assms(4,5,8), of "step_calls dt d + k"] obtain net1 where
    n1: "lss_run (33 * step_calls dt d + k) env (fastscan_call env d) fs net = lss_run (step_calls dt d + k) env (fastscan_call env d) fs net1"
      "verifying dt sub m ?Ss net1" by auto
  obtain M bus ns where net1: "net1 = (M, bus, ns)" by (cases net1)
  with n1(2) have at: "fs_at CO_LSSmaster_FS_STATE_VERIFY sub 0 m True dt M bus" "\<forall>n \<in> set ns. node_ok n" "map fst ns = ?Ss"
    by (auto simp: verifying_def)
  have "\<forall>S \<in> set ?Ss. lsv_lssState S = CO_LSS_STATE_WAITING" using assms(6) sub(3) by (auto simp: advance_def)
  then have scan: "\<forall>n \<in> set ns. scan_node n"
    using at(2) unfolding at(3) [symmetric] by (auto simp: scan_node_def)
  obtain M1 bus1 ident where
    c: "fastscan_call env dt fs M bus = Some (CO_LSSmaster_WAIT_SLAVE, M1, bus1, ?fs)"
      "fs_at CO_LSSmaster_FS_STATE_SCAN (sub + 1) 31 0 False dt M1 bus1"
      "extends bus [(ident, 8, fastscan_frame 0 31 (sub + 1) (sub + 1))] bus1"
    by (rule call_verify [OF at(1) assms(4,5,3)])
  obtain net' where r: "lss_round env (fastscan_call env dt fs) (M, bus, ns) = Some (CO_LSSmaster_WAIT_SLAVE, ?fs, net')"
    "scanning dt (sub + 1) 31 m' ?Ss net'"
    by (rule scanning_round [of "fastscan_call env dt fs" M bus, OF c(1,3,2) no_bits scan at(3) assms(7) sub(2) order_refl assms(5)])
  show ?thesis using that [OF _ r(2)] n1(1) net1 run_step [OF at(1) assms(4) impI [OF sub(1)] at(2) assms(8) r(1), of k] by simp
qed

lemma settle_last:
  assumes "scanning dt 3 31 m Ss net" "least_number 3 Ss m" "scan_all fs" "writes_ok env" "paced dt d"
  obtains M1 bus1 ns1 where
    "lss_run (33 * step_calls dt d + k) env (fastscan_call env d) fs net =
       Some (CO_LSSmaster_SCAN_FINISHED, fs\<lparr>fs_found := (fs_found fs)[3 := m]\<rparr>, M1, bus1, ns1)"
    "map fst ns1 = map (advance 3 m) Ss" "lsm_state M1 = CO_LSSmaster_STATE_CFG_SLECTIVE"
    "lsm_command M1 = CO_LSSmaster_COMMAND_WAITING"
proof -
  from scan_number [OF assms(1,2) _ order_refl assms(3-5), of "step_calls dt d + k"] obtain net1 where
    n1: "lss_run (33 * step_calls dt d + k) env (fastscan_call env d) fs net = lss_run (step_calls dt d + k) env (fastscan_call env d) fs net1"
      "verifying dt 3 m (map (advance 3 m) Ss) net1" by auto
  obtain M bus ns where net1: "net1 = (M, bus, ns)" by (cases net1)
  with n1(2) have at: "fs_at CO_LSSmaster_FS_STATE_VERIFY 3 0 m True dt M bus" "\<forall>n \<in> set ns. node_ok n" "map fst ns = map (advance 3 m) Ss"
    by (auto simp: verifying_def)
  obtain M1 where c: "fastscan_call env dt fs M bus = Some (CO_LSSmaster_SCAN_FINISHED, M1, bus, fs\<lparr>fs_found := (fs_found fs)[3 := m]\<rparr>)"
    "lsm_state M1 = CO_LSSmaster_STATE_CFG_SLECTIVE" "lsm_command M1 = CO_LSSmaster_COMMAND_WAITING"
    by (rule call_verify_last [OF at(1) assms(3)])
  have "lss_round env (fastscan_call env dt fs) (M, bus, ns) =
      Some (CO_LSSmaster_SCAN_FINISHED, fs\<lparr>fs_found := (fs_found fs)[3 := m]\<rparr>, M1, bus, ns)"
    using c(1) nodes_step_nothing [OF at(2)] by (simp add: lss_round_def new_frames_extends [OF extends_refl] master_receive_def)
  from run_step [OF at(1) assms(3) impI [OF order_refl] at(2) assms(5) this, of k]
  show ?thesis using that [of M1 bus ns] n1(1) net1 at(3) c(2,3) by simp
qed

definition join_scan :: "CO_LSSslave_t \<Rightarrow> CO_LSSslave_t" where
  "join_scan S = (if unconfigured S then S\<lparr>lsv_fastscanPos := 0, lsv_lssFastscan := replicate 4 0\<rparr> else S)"

lemma scan_begins:
  assumes "writes_ok env" "master_ready M bus" "scan_all fs" "\<forall>n \<in> set ns. scan_node n"
    "least_number 0 (map (join_scan \<circ> fst) ns) m" "lsm_timeout_us M = dt" "paced dt d"
  obtains net where
    "lss_run (Suc (step_calls dt d + k)) env (fastscan_call env d) fs (M, bus, ns) =
       lss_run k env (fastscan_call env d) (fs\<lparr>fs_found := replicate 4 0\<rparr>) net"
    "scanning dt 0 31 m (map (join_scan \<circ> fst) ns) net"
proof -
  obtain M1 bus1 ident sub b v where
    c: "\<forall>d. fastscan_call env d fs M bus = Some (CO_LSSmaster_WAIT_SLAVE, M1, bus1, fs)"
      "fs_at CO_LSSmaster_FS_STATE_CHECK sub b v False dt M1 bus1"
      "extends bus [(ident, 8, fastscan_frame 0 CO_LSS_FASTSCAN_CONFIRM 0 0)] bus1"
    by (rule call_start [OF assms(2,6) scan_all_valid [OF assms(3)] assms(1)])
  obtain M2 ns1 where r: "lss_round env (fastscan_call env d fs) (M, bus, ns) = Some (CO_LSSmaster_WAIT_SLAVE, fs, M2, bus1, ns1)"
      "\<forall>n \<in> set ns1. node_ok n" "map fst ns1 = map (\<lambda>n. snd (lss_fastscan_ack (fastscan_frame 0 CO_LSS_FASTSCAN_CONFIRM 0 0) (fst n))) ns"
      "fs_at CO_LSSmaster_FS_STATE_CHECK sub b v (\<exists>n \<in> set ns. fst (lss_fastscan_ack (fastscan_frame 0 CO_LSS_FASTSCAN_CONFIRM 0 0) (fst n))) dt M2 bus1"
    by (rule fs_round [of "fastscan_call env d fs" M bus, OF spec [OF c(1)] c(3,2) assms(4,1)])
  have ns1: "map fst ns1 = map (join_scan \<circ> fst) ns" using r(3) by (simp add: confirm_request join_scan_def comp_def)
  have "\<exists>n \<in> set ns. fst (lss_fastscan_ack (fastscan_frame 0 CO_LSS_FASTSCAN_CONFIRM 0 0) (fst n))"
    using assms(5) by (auto simp: confirm_request least_number_def in_scan_def join_scan_def split: if_splits)
  with r(4) have at: "fs_at CO_LSSmaster_FS_STATE_CHECK sub b v True dt M2 bus1" by simp
  have "\<forall>S \<in> set (map (join_scan \<circ> fst) ns). lsv_lssState S = CO_LSS_STATE_WAITING"
    using assms(4) by (auto simp: join_scan_def scan_node_def)
  then have scan: "\<forall>n \<in> set ns1. scan_node n" using r(2) unfolding ns1 [symmetric] by (auto simp: scan_node_def)
  let ?fs = "fs\<lparr>fs_found := replicate 4 0\<rparr>"
  obtain M3 bus3 ident' where c': "fastscan_call env dt fs M2 bus1 = Some (CO_LSSmaster_WAIT_SLAVE, M3, bus3, ?fs)"
    "fs_at CO_LSSmaster_FS_STATE_SCAN 0 31 0 False dt M3 bus3" "extends bus1 [(ident', 8, fastscan_frame 0 31 0 0)] bus3"
    by (rule call_check [OF at assms(3,1)])
  obtain net where r': "lss_round env (fastscan_call env dt fs) (M2, bus1, ns1) = Some (CO_LSSmaster_WAIT_SLAVE, ?fs, net)"
    "scanning dt 0 31 m (map (join_scan \<circ> fst) ns) net"
    by (rule scanning_round [of "fastscan_call env dt fs" M2 bus1, OF c'(1,3,2) no_bits scan ns1 assms(5) _ order_refl assms(1)]) auto
  have "lss_run (Suc (step_calls dt d + k)) env (fastscan_call env d) fs (M, bus, ns) =
      lss_run (step_calls dt d + k) env (fastscan_call env d) fs (M2, bus1, ns1)" using r(1) by simp
  then show ?thesis using that [OF _ r'(2)] run_step [OF at assms(3) _ r(2) assms(7) r'(1), of k] by simp
qed

subsection \<open>The slave that is found\<close>

lemma advance_keeps [simp]:
  "lsv_lssAddress (advance sub m S) = lsv_lssAddress S" "unconfigured (advance sub m S) = unconfigured S"
  "lsv_pendingNodeID (advance sub m S) = lsv_pendingNodeID S" "lsv_activeNodeID (advance sub m S) = lsv_activeNodeID S"
  by (simp_all add: advance_def unconfigured_def)

lemma advance_state [simp]: "sub \<noteq> 3 \<Longrightarrow> lsv_lssState (advance sub m S) = lsv_lssState S"
  by (simp add: advance_def)

lemma join_scan_keeps [simp]:
  "lsv_lssAddress (join_scan S) = lsv_lssAddress S" "unconfigured (join_scan S) = unconfigured S"
  "lsv_pendingNodeID (join_scan S) = lsv_pendingNodeID S" "lsv_activeNodeID (join_scan S) = lsv_activeNodeID S"
  "lsv_lssState (join_scan S) = lsv_lssState S" "in_scan 0 (join_scan S) = unconfigured S"
  by (auto simp: join_scan_def unconfigured_def in_scan_def)

lemma least_number_next:
  assumes "least_number sub Ss m" "sub < 3"
  obtains m' where "least_number (sub + 1) (map (advance sub m) Ss) m'"
proof -
  from assms(1) obtain S where "S \<in> set Ss" "in_scan sub S" "lsv_lssAddress S ! unat sub = m" by (auto simp: least_number_def)
  then have "advance sub m S \<in> set (map (advance sub m) Ss)" "in_scan (sub + 1) (advance sub m S)"
    using assms(2) by (auto simp: advance_def in_scan_def fs_next_def unconfigured_def)
  then show ?thesis using that least_number_exists by blast
qed

definition waits_before :: "u8 \<Rightarrow> CO_LSSslave_t \<Rightarrow> bool" where
  \<comment> \<open>the slave has not gone past a number of the scan\<close>
  "waits_before sub S \<longleftrightarrow> (unconfigured S \<longrightarrow> lsv_fastscanPos S \<le> sub) \<and> lsv_lssState S = CO_LSS_STATE_WAITING"

lemma waits_before_advance:
  assumes "waits_before sub S" "sub < 3"
  shows "waits_before (sub + 1) (advance sub m S)"
    "in_scan (sub + 1) (advance sub m S) \<longleftrightarrow> in_scan sub S \<and> lsv_lssAddress S ! unat sub = m"
proof -
  have sub: "sub \<le> 3" using assms(2) by simp
  from u8_cases_4 [OF this] assms(2) have "sub + 1 \<noteq> 0" "sub < sub + 1" by auto
  then have "\<not> sub + 1 \<le> sub" "x \<le> sub \<Longrightarrow> x \<le> sub + 1" "x \<le> sub \<Longrightarrow> x \<noteq> sub + 1" for x by auto
  then show "waits_before (sub + 1) (advance sub m S)"
    "in_scan (sub + 1) (advance sub m S) \<longleftrightarrow> in_scan sub S \<and> lsv_lssAddress S ! unat sub = m"
    using assms by (auto simp: waits_before_def advance_def in_scan_def fs_next_def unconfigured_def)
qed

fun address_le :: "CO_LSS_address_t \<Rightarrow> CO_LSS_address_t \<Rightarrow> bool" where
  \<comment> \<open>lexicographic order\<close>
  "address_le [] bs = True"
| "address_le (a # as) [] = False"
| "address_le (a # as) (b # bs) = (a < b \<or> a = b \<and> address_le as bs)"

lemma address_cases: "length a = 4 \<Longrightarrow> a = [a ! 0, a ! 1, a ! 2, a ! 3]"
  by (rule nth_equalityI) (auto simp: nth_Cons' less_Suc_eq numeral_eq_Suc)

definition scan_result :: "u32 \<Rightarrow> u32 \<Rightarrow> u32 \<Rightarrow> u32 \<Rightarrow> CO_LSSslave_t \<Rightarrow> CO_LSSslave_t" where
  "scan_result m0 m1 m2 m3 S = advance 3 m3 (advance 2 m2 (advance 1 m1 (advance 0 m0 (join_scan S))))"

lemma scan_positions:
  assumes "lsv_lssState S = CO_LSS_STATE_WAITING"
  shows "in_scan 1 (advance 0 m0 (join_scan S)) \<longleftrightarrow> unconfigured S \<and> lsv_lssAddress S ! 0 = m0"
    "in_scan 2 (advance 1 m1 (advance 0 m0 (join_scan S))) \<longleftrightarrow> unconfigured S \<and> lsv_lssAddress S ! 0 = m0 \<and> lsv_lssAddress S ! 1 = m1"
    "in_scan 3 (advance 2 m2 (advance 1 m1 (advance 0 m0 (join_scan S)))) \<longleftrightarrow>
      unconfigured S \<and> lsv_lssAddress S ! 0 = m0 \<and> lsv_lssAddress S ! 1 = m1 \<and> lsv_lssAddress S ! 2 = m2"
    "waits_before 3 (advance 2 m2 (advance 1 m1 (advance 0 m0 (join_scan S))))"
proof -
  have w0: "waits_before 0 (join_scan S)" using assms by (auto simp: waits_before_def join_scan_def unconfigured_def)
  note 1 = waits_before_advance [OF w0, of m0, simplified]
  note 2 = waits_before_advance [OF 1(1), of m1, simplified]
  note 3 = waits_before_advance [OF 2(1), of m2, simplified]
  show "in_scan 1 (advance 0 m0 (join_scan S)) \<longleftrightarrow> unconfigured S \<and> lsv_lssAddress S ! 0 = m0" using 1(2) by simp
  then show "in_scan 2 (advance 1 m1 (advance 0 m0 (join_scan S))) \<longleftrightarrow> unconfigured S \<and> lsv_lssAddress S ! 0 = m0 \<and> lsv_lssAddress S ! 1 = m1"
    using 2(2) by simp
  then show "in_scan 3 (advance 2 m2 (advance 1 m1 (advance 0 m0 (join_scan S)))) \<longleftrightarrow>
      unconfigured S \<and> lsv_lssAddress S ! 0 = m0 \<and> lsv_lssAddress S ! 1 = m1 \<and> lsv_lssAddress S ! 2 = m2"
    using 3(2) by simp
  show "waits_before 3 (advance 2 m2 (advance 1 m1 (advance 0 m0 (join_scan S))))" by (rule 3(1))
qed

lemma scan_result_state:
  assumes "lsv_lssState S = CO_LSS_STATE_WAITING" "length (lsv_lssAddress S) = 4"
  shows "lsv_lssState (scan_result m0 m1 m2 m3 S) =
    (if unconfigured S \<and> lsv_lssAddress S = [m0, m1, m2, m3] then CO_LSS_STATE_CONFIGURATION else CO_LSS_STATE_WAITING)"
proof -
  have "lsv_lssAddress S = [m0, m1, m2, m3] \<longleftrightarrow>
      lsv_lssAddress S ! 0 = m0 \<and> lsv_lssAddress S ! 1 = m1 \<and> lsv_lssAddress S ! 2 = m2 \<and> lsv_lssAddress S ! 3 = m3"
    by (subst address_cases [OF assms(2)]) simp
  then show ?thesis using scan_positions(3,4) [OF assms(1), of m2 m1 m0]
    by (auto simp: scan_result_def advance_def [of 3] waits_before_def)
qed

lemma scan_result_keeps:
  "lsv_lssAddress (scan_result m0 m1 m2 m3 S) = lsv_lssAddress S"
  "lsv_pendingNodeID (scan_result m0 m1 m2 m3 S) = lsv_pendingNodeID S"
  by (simp_all add: scan_result_def)

lemma scan_result_least:
  assumes "\<forall>S \<in> set Ss. lsv_lssState S = CO_LSS_STATE_WAITING \<and> length (lsv_lssAddress S) = 4"
    "least_number 0 (map join_scan Ss) m0" "least_number 1 (map (advance 0 m0 \<circ> join_scan) Ss) m1"
    "least_number 2 (map (advance 1 m1 \<circ> advance 0 m0 \<circ> join_scan) Ss) m2"
    "least_number 3 (map (advance 2 m2 \<circ> advance 1 m1 \<circ> advance 0 m0 \<circ> join_scan) Ss) m3"
  shows "\<exists>S \<in> set Ss. unconfigured S \<and> lsv_lssAddress S = [m0, m1, m2, m3]"
    "\<forall>S \<in> set Ss. unconfigured S \<longrightarrow> address_le [m0, m1, m2, m3] (lsv_lssAddress S)"
proof -
  note pos = scan_positions [OF conjunct1 [OF bspec [OF assms(1)]]]
  have len: "S \<in> set Ss \<Longrightarrow> lsv_lssAddress S = [lsv_lssAddress S ! 0, lsv_lssAddress S ! 1, lsv_lssAddress S ! 2, lsv_lssAddress S ! 3]" for S
    using assms(1) address_cases by blast
  from assms(5) obtain S where S: "S \<in> set Ss" "in_scan 3 (advance 2 m2 (advance 1 m1 (advance 0 m0 (join_scan S))))"
    "lsv_lssAddress S ! 3 = m3"
    by (auto simp: least_number_def)
  then have "unconfigured S \<and> lsv_lssAddress S = [m0, m1, m2, m3]"
    using len [OF S(1)] by (metis pos(3) [OF S(1)])
  with S(1) show "\<exists>S \<in> set Ss. unconfigured S \<and> lsv_lssAddress S = [m0, m1, m2, m3]" by blast
  have "address_le [m0, m1, m2, m3] (lsv_lssAddress S)" if S: "S \<in> set Ss" "unconfigured S" for S
  proof -
    have "m0 \<le> lsv_lssAddress S ! 0"
      "lsv_lssAddress S ! 0 = m0 \<Longrightarrow> m1 \<le> lsv_lssAddress S ! 1"
      "lsv_lssAddress S ! 0 = m0 \<Longrightarrow> lsv_lssAddress S ! 1 = m1 \<Longrightarrow> m2 \<le> lsv_lssAddress S ! 2"
      "lsv_lssAddress S ! 0 = m0 \<Longrightarrow> lsv_lssAddress S ! 1 = m1 \<Longrightarrow> lsv_lssAddress S ! 2 = m2 \<Longrightarrow> m3 \<le> lsv_lssAddress S ! 3"
      using assms(2-5) S pos [OF S(1)] by (auto simp: least_number_def)
    then show ?thesis by (subst len [OF S(1)]) auto
  qed
  then show "\<forall>S \<in> set Ss. unconfigured S \<longrightarrow> address_le [m0, m1, m2, m3] (lsv_lssAddress S)" by blast
qed

lemma scan_completes:
  assumes "writes_ok env" "master_ready M bus" "scan_all fs" "\<forall>n \<in> set ns. scan_node n"
    "\<exists>n \<in> set ns. unconfigured (fst n)" "paced (lsm_timeout_us M) d" "1 + 133 * step_calls (lsm_timeout_us M) d \<le> k"
  obtains m0 m1 m2 m3 fs1 M1 bus1 ns1 where
    "lss_run k env (fastscan_call env d) fs (M, bus, ns) = Some (CO_LSSmaster_SCAN_FINISHED, fs1, M1, bus1, ns1)"
    "fs_found fs1 = [m0, m1, m2, m3]" "map fst ns1 = map (scan_result m0 m1 m2 m3 \<circ> fst) ns"
    "\<exists>S \<in> set (map fst ns). unconfigured S \<and> lsv_lssAddress S = [m0, m1, m2, m3]"
    "\<forall>S \<in> set (map fst ns). unconfigured S \<longrightarrow> address_le [m0, m1, m2, m3] (lsv_lssAddress S)"
    "lsm_state M1 = CO_LSSmaster_STATE_CFG_SLECTIVE" "lsm_command M1 = CO_LSSmaster_COMMAND_WAITING"
proof -
  define Ss where "Ss = map fst ns"
  define dt where "dt = lsm_timeout_us M"
  define c where "c = 33 * step_calls dt d"
  define j where "j = k - (1 + 133 * step_calls dt d)"
  have k: "k = Suc (step_calls dt d + (c + (c + (c + (c + j)))))" using assms(7) by (simp add: j_def c_def dt_def)
  have pace: "lsm_timeout_us M = dt" "paced dt d" using assms(6) by (simp_all add: dt_def)
  have Ss: "\<forall>S \<in> set Ss. lsv_lssState S = CO_LSS_STATE_WAITING \<and> length (lsv_lssAddress S) = 4"
    using assms(4) by (auto simp: Ss_def scan_node_def node_ok_def)
  let ?S0 = "map join_scan Ss"
  from assms(5) have "\<exists>S \<in> set ?S0. in_scan 0 S" by (auto simp: Ss_def)
  then obtain m0 where m0: "least_number 0 ?S0 m0" by (rule least_number_exists)
  let ?S1 = "map (advance 0 m0) ?S0"
  obtain m1 where m1: "least_number (0 + 1) ?S1 m1" by (rule least_number_next [OF m0]) simp
  let ?S2 = "map (advance (0 + 1) m1) ?S1"
  obtain m2 where m2: "least_number (0 + 1 + 1) ?S2 m2" by (rule least_number_next [OF m1]) simp
  let ?S3 = "map (advance (0 + 1 + 1) m2) ?S2"
  obtain m3 where m3: "least_number (0 + 1 + 1 + 1) ?S3 m3" by (rule least_number_next [OF m2]) simp
  have w: "\<forall>S \<in> set ?S0. lsv_lssState S = CO_LSS_STATE_WAITING" "\<forall>S \<in> set ?S1. lsv_lssState S = CO_LSS_STATE_WAITING"
    "\<forall>S \<in> set ?S2. lsv_lssState S = CO_LSS_STATE_WAITING"
    using Ss by auto
  let ?call = "fastscan_call env d"
  let ?fs = "fs\<lparr>fs_found := replicate 4 0\<rparr>"
  have m0': "least_number 0 (map (join_scan \<circ> fst) ns) m0" using m0 by (simp add: Ss_def)
  obtain n0 where n0: "lss_run k env ?call fs (M, bus, ns) = lss_run (c + (c + (c + (c + j)))) env ?call ?fs n0"
    "scanning dt 0 31 m0 ?S0 n0"
    using scan_begins [OF assms(1-4) m0' pace] k by (metis (no_types, lifting) Ss_def list.map_comp)
  have sa: "scan_all (fs\<lparr>fs_found := x\<rparr>)" for x using assms(3) by (simp add: scan_all_def)
  let ?f1 = "?fs\<lparr>fs_found := (fs_found ?fs)[unat (0 :: u8) := m0]\<rparr>"
  obtain n1 where n1: "lss_run (c + (c + (c + (c + j)))) env ?call ?fs n0 = lss_run (c + (c + (c + j))) env ?call ?f1 n1"
    "scanning dt (0 + 1) 31 m1 ?S1 n1"
    by (rule settle_number [OF n0(2) m0 _ _ assms(1) w(1) m1 pace(2), where fs = ?fs and k = "c + (c + (c + j))"]) (simp_all add: sa c_def)
  let ?f2 = "?f1\<lparr>fs_found := (fs_found ?f1)[unat (0 + 1 :: u8) := m1]\<rparr>"
  obtain n2 where n2: "lss_run (c + (c + (c + j))) env ?call ?f1 n1 = lss_run (c + (c + j)) env ?call ?f2 n2"
    "scanning dt (0 + 1 + 1) 31 m2 ?S2 n2"
    by (rule settle_number [OF n1(2) m1 _ _ assms(1) w(2) m2 pace(2), where fs = ?f1 and k = "c + (c + j)"]) (simp_all add: sa c_def)
  let ?f3 = "?f2\<lparr>fs_found := (fs_found ?f2)[unat (0 + 1 + 1 :: u8) := m2]\<rparr>"
  obtain n3 where n3: "lss_run (c + (c + j)) env ?call ?f2 n2 = lss_run (c + j) env ?call ?f3 n3"
    "scanning dt (0 + 1 + 1 + 1) 31 m3 ?S3 n3"
    by (rule settle_number [OF n2(2) m2 _ _ assms(1) w(3) m3 pace(2), where fs = ?f2 and k = "c + j"]) (simp_all add: sa c_def)
  have three: "(0 + 1 + 1 + 1 :: u8) = 3" by simp
  let ?f4 = "?f3\<lparr>fs_found := (fs_found ?f3)[3 := m3]\<rparr>"
  obtain M1 bus1 ns1 where n4: "lss_run (c + j) env ?call ?f3 n3 = Some (CO_LSSmaster_SCAN_FINISHED, ?f4, M1, bus1, ns1)"
    "map fst ns1 = map (advance 3 m3) ?S3" "lsm_state M1 = CO_LSSmaster_STATE_CFG_SLECTIVE"
    "lsm_command M1 = CO_LSSmaster_COMMAND_WAITING"
    by (rule settle_last [OF n3(2) [unfolded three] m3 [unfolded three] _ assms(1) pace(2), where fs = ?f3 and k = j]) (simp_all add: sa c_def)
  have "replicate 4 (0 :: u32) = [0, 0, 0, 0]" by (simp add: numeral_eq_Suc)
  then have found: "fs_found ?f4 = [m0, m1, m2, m3]" by (simp add: list_update_def)
  have res: "map fst ns1 = map (scan_result m0 m1 m2 m3) Ss" using n4(2) by (simp add: scan_result_def comp_def)
  have "least_number 1 (map (advance 0 m0 \<circ> join_scan) Ss) m1"
    "least_number 2 (map (advance 1 m1 \<circ> advance 0 m0 \<circ> join_scan) Ss) m2"
    "least_number 3 (map (advance 2 m2 \<circ> advance 1 m1 \<circ> advance 0 m0 \<circ> join_scan) Ss) m3"
    using m1 m2 m3 by (simp_all add: comp_assoc)
  note least = scan_result_least [OF Ss m0 this]
  show ?thesis
    by (rule that [OF _ found]) (use n0(1) n1(1) n2(1) n3(1) n4 res least in \<open>simp_all add: Ss_def\<close>)
qed

subsection \<open>Results\<close>

text \<open>C3: A fastscan over all four numbers, with all slaves in the waiting state and at least one of them without node-ID,
  finds a slave: called at any fixed interval it needs 133 timeouts and the first call, that is at most 1 + 133 c calls
  where c calls are needed to reach the timeout. The address reported is the lexicographically smallest address of the
  slaves without node-ID, exactly the slaves with this address are in the configuration state, every other slave still
  waits, no node-ID changes, and the master is ready to configure the slave. The interval is not 0 and does not overflow
  the timer of the master.\<close>

theorem lss_fastscan_finds_first:
  assumes "writes_ok env" "master_ready M bus" "scan_all fs" "\<forall>n \<in> set ns. scan_node n"
    "\<exists>n \<in> set ns. unconfigured (fst n)" "0 < dt" "unat (lsm_timeout_us M) + unat dt < 2 ^ 32"
    and "1 + 133 * Suc ((unat (lsm_timeout_us M) - 1) div unat dt) \<le> k"
  shows "\<exists>fs1 M1 bus1 ns1.
    lss_run k env (\<lambda>fs M bus. CO_LSSmaster_IdentifyFastscan env M bus dt fs) fs (M, bus, ns) =
      Some (CO_LSSmaster_SCAN_FINISHED, fs1, M1, bus1, ns1) \<and>
    (\<exists>n \<in> set ns. unconfigured (fst n) \<and> lsv_lssAddress (fst n) = fs_found fs1) \<and>
    (\<forall>n \<in> set ns. unconfigured (fst n) \<longrightarrow> address_le (fs_found fs1) (lsv_lssAddress (fst n))) \<and>
    map (\<lambda>n. (lsv_lssState (fst n), lsv_lssAddress (fst n), lsv_pendingNodeID (fst n))) ns1 =
    map (\<lambda>n. (if unconfigured (fst n) \<and> lsv_lssAddress (fst n) = fs_found fs1 then CO_LSS_STATE_CONFIGURATION else CO_LSS_STATE_WAITING,
               lsv_lssAddress (fst n), lsv_pendingNodeID (fst n))) ns \<and>
    lsm_state M1 = CO_LSSmaster_STATE_CFG_SLECTIVE \<and> lsm_command M1 = CO_LSSmaster_COMMAND_WAITING"
proof -
  obtain m0 m1 m2 m3 fs1 M1 bus1 ns1 where
    r: "lss_run k env (fastscan_call env dt) fs (M, bus, ns) = Some (CO_LSSmaster_SCAN_FINISHED, fs1, M1, bus1, ns1)"
      "fs_found fs1 = [m0, m1, m2, m3]" "map fst ns1 = map (scan_result m0 m1 m2 m3 \<circ> fst) ns"
      "\<exists>S \<in> set (map fst ns). unconfigured S \<and> lsv_lssAddress S = [m0, m1, m2, m3]"
      "\<forall>S \<in> set (map fst ns). unconfigured S \<longrightarrow> address_le [m0, m1, m2, m3] (lsv_lssAddress S)"
      "lsm_state M1 = CO_LSSmaster_STATE_CFG_SLECTIVE" "lsm_command M1 = CO_LSSmaster_COMMAND_WAITING"
    by (rule scan_completes [OF assms(1-5), of dt k]) (use assms(6-8) in \<open>simp_all add: paced_def step_calls_def\<close>)
  let ?view = "\<lambda>S. (lsv_lssState S, lsv_lssAddress S, lsv_pendingNodeID S)"
  have "map (?view \<circ> fst) ns1 = map (?view \<circ> scan_result m0 m1 m2 m3 \<circ> fst) ns"
    using arg_cong [OF r(3), of "map ?view"] by (simp add: comp_assoc)
  also have "\<dots> = map (\<lambda>n. (if unconfigured (fst n) \<and> lsv_lssAddress (fst n) = [m0, m1, m2, m3]
      then CO_LSS_STATE_CONFIGURATION else CO_LSS_STATE_WAITING, lsv_lssAddress (fst n), lsv_pendingNodeID (fst n))) ns"
    using assms(4) by (auto simp: scan_result_keeps scan_result_state scan_node_def node_ok_def)
  finally show ?thesis using r by (intro exI [of _ fs1] exI [of _ M1] exI [of _ bus1] exI [of _ ns1]) (simp add: comp_def)
qed

definition example_scan :: CO_LSSmaster_fastscan_t where
  "example_scan = \<lparr>fs_scan = replicate 4 CO_LSSmaster_FS_SCAN, fs_match = replicate 4 0, fs_found = replicate 4 0\<rparr>"

definition example_nodes :: "lss_node list" where
  "example_nodes = [(example_slave 0xFF [7, 2, 9, 1], example_bus), (example_slave 5 [1, 1, 1, 1], example_bus),
     (example_slave 0xFF [7, 2, 8, 4], example_bus)]"

lemma example_nodes_ok: "\<forall>n \<in> set example_nodes. scan_node n"
  by (simp add: example_nodes_def scan_node_def node_ok_def example_slave_def example_buf_ok)

theorem lss_fastscan_finds_first_witness:
  "\<exists>fs1 M1 bus1 ns1. lss_run 400 (example_env 0) (\<lambda>fs M bus. CO_LSSmaster_IdentifyFastscan (example_env 0) M bus 40000 fs)
       example_scan (example_master, example_bus, example_nodes) = Some (CO_LSSmaster_SCAN_FINISHED, fs1, M1, bus1, ns1) \<and>
     fs_found fs1 = [7, 2, 8, 4] \<and>
     map (\<lambda>n. lsv_lssState (fst n)) ns1 = [CO_LSS_STATE_WAITING, CO_LSS_STATE_WAITING, CO_LSS_STATE_CONFIGURATION]"
proof -
  have e: "scan_all example_scan" "\<exists>n \<in> set example_nodes. unconfigured (fst n)"
    by (simp_all add: scan_all_def example_scan_def example_nodes_def example_slave_def unconfigured_def CO_LSS_NODE_ID_ASSIGNMENT_def)
  have p: "0 < (40000 :: u32)" "unat (lsm_timeout_us example_master) + unat (40000 :: u32) < 2 ^ 32"
    "1 + 133 * Suc ((unat (lsm_timeout_us example_master) - 1) div unat (40000 :: u32)) \<le> 400"
    by (simp_all add: example_master_def)
  from lss_fastscan_finds_first [OF example_writes_ok example_ready e(1) example_nodes_ok e(2) p]
  obtain fs1 M1 bus1 ns1 where r: "lss_run 400 (example_env 0) (\<lambda>fs M bus. CO_LSSmaster_IdentifyFastscan (example_env 0) M bus 40000 fs)
       example_scan (example_master, example_bus, example_nodes) = Some (CO_LSSmaster_SCAN_FINISHED, fs1, M1, bus1, ns1)"
    "\<exists>n \<in> set example_nodes. unconfigured (fst n) \<and> lsv_lssAddress (fst n) = fs_found fs1"
    "\<forall>n \<in> set example_nodes. unconfigured (fst n) \<longrightarrow> address_le (fs_found fs1) (lsv_lssAddress (fst n))"
    "map (\<lambda>n. (lsv_lssState (fst n), lsv_lssAddress (fst n), lsv_pendingNodeID (fst n))) ns1 =
     map (\<lambda>n. (if unconfigured (fst n) \<and> lsv_lssAddress (fst n) = fs_found fs1 then CO_LSS_STATE_CONFIGURATION else CO_LSS_STATE_WAITING,
                lsv_lssAddress (fst n), lsv_pendingNodeID (fst n))) example_nodes" by blast
  from r(2,3) have "fs_found fs1 = [7, 2, 9, 1] \<or> fs_found fs1 = [7, 2, 8, 4]" "address_le (fs_found fs1) [7, 2, 8, 4]"
    by (auto simp: example_nodes_def example_slave_def unconfigured_def CO_LSS_NODE_ID_ASSIGNMENT_def)
  then have f: "fs_found fs1 = [7, 2, 8, 4]" by (elim disjE) simp_all
  have "map (\<lambda>n. lsv_lssState (fst n)) ns1 = map fst (map (\<lambda>n. (lsv_lssState (fst n), lsv_lssAddress (fst n), lsv_pendingNodeID (fst n))) ns1)"
    by simp
  also have "\<dots> = [CO_LSS_STATE_WAITING, CO_LSS_STATE_WAITING, CO_LSS_STATE_CONFIGURATION]"
    unfolding r(4) f by (simp add: example_nodes_def example_slave_def unconfigured_def CO_LSS_NODE_ID_ASSIGNMENT_def)
  finally show ?thesis using r(1) f by (intro exI [of _ fs1] exI [of _ M1] exI [of _ bus1] exI [of _ ns1]) simp
qed

text \<open>Without a slave that takes part the scan ends at once.\<close>

lemma fastscan_no_slave:
  assumes "writes_ok env" "master_ready M bus" "scan_all fs" "\<forall>n \<in> set ns. scan_node n" "\<forall>n \<in> set ns. \<not> unconfigured (fst n)"
    and "paced (lsm_timeout_us M) dt"
  shows "\<exists>M1 bus1 ns1. lss_run (Suc (step_calls (lsm_timeout_us M) dt)) env (\<lambda>fs M bus. CO_LSSmaster_IdentifyFastscan env M bus dt fs) fs (M, bus, ns) =
      Some (CO_LSSmaster_SCAN_NOACK, fs, M1, bus1, ns1) \<and> map fst ns1 = map fst ns \<and>
    lsm_state M1 = CO_LSSmaster_STATE_WAITING \<and> lsm_command M1 = CO_LSSmaster_COMMAND_WAITING"
proof -
  define T where "T = lsm_timeout_us M"
  obtain M1 bus1 ident sub b v where
    c: "\<forall>dt. fastscan_call env dt fs M bus = Some (CO_LSSmaster_WAIT_SLAVE, M1, bus1, fs)"
      "fs_at CO_LSSmaster_FS_STATE_CHECK sub b v False T M1 bus1"
      "extends bus [(ident, 8, fastscan_frame 0 CO_LSS_FASTSCAN_CONFIRM 0 0)] bus1"
    by (rule call_start [OF assms(2) T_def [symmetric] scan_all_valid [OF assms(3)] assms(1)])
  obtain M2 ns1 where r: "lss_round env (fastscan_call env dt fs) (M, bus, ns) = Some (CO_LSSmaster_WAIT_SLAVE, fs, M2, bus1, ns1)"
      "\<forall>n \<in> set ns1. node_ok n" "map fst ns1 = map (\<lambda>n. snd (lss_fastscan_ack (fastscan_frame 0 CO_LSS_FASTSCAN_CONFIRM 0 0) (fst n))) ns"
      "fs_at CO_LSSmaster_FS_STATE_CHECK sub b v (\<exists>n \<in> set ns. fst (lss_fastscan_ack (fastscan_frame 0 CO_LSS_FASTSCAN_CONFIRM 0 0) (fst n))) T M2 bus1"
    by (rule fs_round [of "fastscan_call env dt fs" M bus, OF spec [OF c(1)] c(3,2) assms(4,1)])
  have at: "fs_at CO_LSSmaster_FS_STATE_CHECK sub b v False T M2 bus1" using r(4) assms(5) by (simp add: confirm_request)
  define Mw where "Mw = M2\<lparr>lsm_timeoutTimer := 0, lsm_command := CO_LSSmaster_COMMAND_WAITING\<rparr>"
  have "fastscan_call env T fs M2 bus1 = Some (CO_LSSmaster_SCAN_NOACK, Mw, bus1, fs)"
    using at fs_timeout [OF at] scan_all_valid [OF assms(3)]
    by (simp add: CO_LSSmaster_IdentifyFastscan_def fs_at_def fastscan_check_def CO_LSSmaster_FsCheckWait_def Mw_def)
  then have "lss_round env (fastscan_call env T fs) (M2, bus1, ns1) = Some (CO_LSSmaster_SCAN_NOACK, fs, Mw, bus1, ns1)"
    using nodes_step_nothing [OF r(2)] by (simp add: lss_round_def new_frames_extends [OF extends_refl] master_receive_def)
  from run_step [OF at assms(3) _ r(2) assms(6) [folded T_def] this, of 0]
  have "lss_run (step_calls T dt) env (fastscan_call env dt) fs (M2, bus1, ns1) = Some (CO_LSSmaster_SCAN_NOACK, fs, Mw, bus1, ns1)" by simp
  moreover have "map fst ns1 = map fst ns" using r(3) assms(5) by (simp add: confirm_request)
  ultimately show ?thesis using r(1) at by (simp add: Mw_def fs_at_def flip: T_def)
qed

end
