(* ===== verification/LSS_Config.thy ===== *)
theory LSS_Config
  imports LSS_Net
begin

section \<open>Selecting, configuring and reading one slave\<close>

text \<open>
  What the other services of the master achieve over the bus: the selective switch puts exactly the slave with the given
  address into the configuration state, a node-ID arrives at the selected slave only, and the address read by the
  inquiries is the address of that slave. A network with a selected slave is written \<open>pre @ n # post\<close>.
\<close>

subsection \<open>A request to the selected slave\<close>

definition waiting_node :: "lss_node \<Rightarrow> bool" where
  "waiting_node n \<longleftrightarrow> node_ok n \<and> lsv_lssState (fst n) = CO_LSS_STATE_WAITING \<and> length (lsv_lssSelect (fst n)) = 4"

definition selected_node :: "lss_node \<Rightarrow> bool" where
  "selected_node n \<longleftrightarrow> node_ok n \<and> lsv_lssState (fst n) = CO_LSS_STATE_CONFIGURATION"

definition configuring :: "u8 \<Rightarrow> bool" where
  \<comment> \<open>services a waiting slave ignores\<close>
  "configuring cs \<longleftrightarrow> cs \<notin> {CO_LSS_SWITCH_STATE_GLOBAL, CO_LSS_SWITCH_STATE_SEL_VENDOR, CO_LSS_SWITCH_STATE_SEL_PRODUCT,
     CO_LSS_SWITCH_STATE_SEL_REV, CO_LSS_SWITCH_STATE_SEL_SERIAL, CO_LSS_IDENT_FASTSCAN}"

definition padded :: "u8 list \<Rightarrow> u8 list" where
  "padded bs = bs @ replicate (8 - length bs) 0"

lemma nodes_step_append:
  "nodes_step env fs (ns @ ms) = do {
     (ns1, rs) \<leftarrow> nodes_step env fs ns;
     (ms1, qs) \<leftarrow> nodes_step env fs ms;
     Some (ns1 @ ms1, rs @ qs)
   }"
  by (induction ns) (auto split: bind_splits)

lemma node_ignores:
  assumes "waiting_node n" "configuring (d ! 0)"
  shows "node_step env [(ident, 8, d)] n = Some n"
  using assms by (cases n) (simp add: node_step_def CO_LSSslave_receive_def frame_msg_def lss_waiting_def Let_def configuring_def
      waiting_node_def node_ok_def CO_LSSslave_process_def)

lemma nodes_ignore:
  assumes "\<forall>n \<in> set ns. waiting_node n" "configuring (d ! 0)"
  shows "nodes_step env [(ident, 8, d)] ns = Some (ns, [])"
  using assms(1) by (induction ns) (simp_all add: node_ignores [OF _ assms(2)] new_frames_extends [OF extends_refl])

lemma send_answer:
  assumes "buf_ok txb bus" "writes_ok env" "length bs \<le> 8"
  shows "buf_ok txb (bus_send env txb (bus_put txb 0 bs (bus_put txb 0 (replicate 8 0) bus))) \<and>
    (\<exists>i. extends bus [(i, 8, padded bs)] (bus_send env txb (bus_put txb 0 bs (bus_put txb 0 (replicate 8 0) bus))))"
proof -
  define bus0 where "bus0 = bus_put txb 0 (replicate 8 0) bus"
  have "length (tx_data (bus_buf bus txb)) = 8" using assms(1) by (simp add: buf_ok_def)
  then have ok0: "buf_ok txb bus0" "tx_data (bus_buf bus0 txb) = replicate 8 0"
    using assms(1) put_frame [OF assms(1), of 0 "replicate 8 0"] by (simp_all add: bus0_def memcpy_front)
  have ok1: "buf_ok txb (bus_put txb 0 bs bus0)" "tx_data (bus_buf (bus_put txb 0 bs bus0) txb) = padded bs"
    using ok0 assms(3) put_frame [OF ok0(1), of 0 bs] by (simp_all add: memcpy_front padded_def)
  note sent = bus_send_ok [OF ok1(1) assms(2)]
  then show ?thesis using ok1(2) by (auto simp: bus0_def)
qed

lemma node_serves:
  assumes "selected_node (S, bus)" "d ! 0 \<noteq> CO_LSS_SWITCH_STATE_GLOBAL" "length d = 8" "writes_ok env"
    "\<And>k. lss_service (S\<lparr>lsv_CANdata := d, lsv_service := d ! 0, lsv_sendResponse := True, lsv_signals := k\<rparr>) = (False, Some bs, f k)"
    "length bs \<le> 8" "\<And>k. node_ok (f k\<lparr>lsv_sendResponse := False\<rparr>, bus)" "\<And>k. lsv_TXbuff (f k) = lsv_TXbuff S"
  obtains k bus1 ident' where "node_step env [(ident, 8, d)] (S, bus) = Some (f k\<lparr>lsv_sendResponse := False\<rparr>, bus1)"
    "node_ok (f k\<lparr>lsv_sendResponse := False\<rparr>, bus1)" "new_frames bus bus1 = [(ident', 8, padded bs)]"
proof -
  from assms(1) obtain txb where S: "lsv_lssState S = CO_LSS_STATE_CONFIGURATION" "\<not> lsv_sendResponse S" "lsv_TXbuff S = Some txb"
    "buf_ok txb bus"
    by (auto simp: selected_node_def node_ok_def split: option.splits)
  define k where "k = (if lsv_pFunctSignalPre S then lsv_signals S + 1 else lsv_signals S)"
  define S1 where "S1 = S\<lparr>lsv_CANdata := d, lsv_service := d ! 0, lsv_sendResponse := True, lsv_signals := k\<rparr>"
  define bus0 where "bus0 = bus_put txb 0 (replicate 8 0) bus"
  define bus1 where "bus1 = bus_send env txb (bus_put txb 0 bs bus0)"
  have "CO_LSSslave_receive env S bus (frame_msg (ident, 8, d)) = Some (S1, bus)"
    using S(1,2) assms(2,3) by (simp add: CO_LSSslave_receive_def frame_msg_def S1_def k_def)
  moreover have "CO_LSSslave_process env S1 bus = Some (False, f k\<lparr>lsv_sendResponse := False\<rparr>, bus1)"
    using S(3) assms(5) [of k] by (simp add: CO_LSSslave_process_def S1_def bus0_def bus1_def)
  ultimately have step: "node_step env [(ident, 8, d)] (S, bus) = Some (f k\<lparr>lsv_sendResponse := False\<rparr>, bus1)"
    by (simp add: node_step_def)
  obtain i where sent: "buf_ok txb bus1" "extends bus [(i, 8, padded bs)] bus1"
    using send_answer [OF S(4) assms(4,6)] by (auto simp: bus1_def bus0_def)
  have "node_ok (f k\<lparr>lsv_sendResponse := False\<rparr>, bus1)"
    using assms(7) [of k] assms(8) [of k] S(3) sent(1) by (simp add: node_ok_def bus1_def)
  with that [OF step] sent(2) show ?thesis by (simp add: new_frames_extends)
qed

definition one_selected :: "lss_node list \<Rightarrow> lss_node \<Rightarrow> lss_node list \<Rightarrow> bool" where
  "one_selected pre n post \<longleftrightarrow> selected_node n \<and> (\<forall>n \<in> set (pre @ post). waiting_node n)"

definition pending_request :: "CO_LSSmaster_t \<Rightarrow> bool" where
  "pending_request M \<longleftrightarrow> \<not> lsm_CANrxNew M \<and> lsm_command M \<noteq> CO_LSSmaster_COMMAND_WAITING"

definition answered :: "u8 list \<Rightarrow> CO_LSSmaster_t \<Rightarrow> nat \<Rightarrow> CO_LSSmaster_t" where
  "answered bs M j = M\<lparr>lsm_CANrxData := padded bs, lsm_CANrxNew := True, lsm_signals := j\<rparr>"

lemma request_round:
  assumes "call M bus = Some (CO_LSSmaster_WAIT_SLAVE, M1, bus1, x)" "extends bus [(ident, 8, d)] bus1" "pending_request M1"
    "one_selected pre (S, b) post" "configuring (d ! 0)" "length d = 8" "writes_ok env"
    "\<And>k. lss_service (S\<lparr>lsv_CANdata := d, lsv_service := d ! 0, lsv_sendResponse := True, lsv_signals := k\<rparr>) = (False, Some bs, f k)"
    "length bs \<le> 8" "\<And>k. selected_node (f k\<lparr>lsv_sendResponse := False\<rparr>, b)" "\<And>k. lsv_TXbuff (f k) = lsv_TXbuff S"
  obtains j k b1 where "lss_round env call (M, bus, pre @ (S, b) # post) =
      Some (CO_LSSmaster_WAIT_SLAVE, x, answered bs M1 j, bus1, pre @ (f k\<lparr>lsv_sendResponse := False\<rparr>, b1) # post)"
    "one_selected pre (f k\<lparr>lsv_sendResponse := False\<rparr>, b1) post"
proof -
  have sel: "selected_node (S, b)" "\<forall>n \<in> set pre. waiting_node n" "\<forall>n \<in> set post. waiting_node n"
    using assms(4) by (auto simp: one_selected_def)
  have g: "d ! 0 \<noteq> CO_LSS_SWITCH_STATE_GLOBAL" using assms(5) by (simp add: configuring_def)
  have nok: "node_ok (f k\<lparr>lsv_sendResponse := False\<rparr>, b)" for k using assms(10) by (simp add: selected_node_def)
  obtain k b1 ident' where step: "node_step env [(ident, 8, d)] (S, b) = Some (f k\<lparr>lsv_sendResponse := False\<rparr>, b1)"
    "node_ok (f k\<lparr>lsv_sendResponse := False\<rparr>, b1)" "new_frames b b1 = [(ident', 8, padded bs)]"
    by (rule node_serves [OF sel(1) g assms(6,7,8,9) nok assms(11)])
  have nodes: "nodes_step env [(ident, 8, d)] (pre @ (S, b) # post) =
      Some (pre @ (f k\<lparr>lsv_sendResponse := False\<rparr>, b1) # post, [(ident', 8, padded bs)])"
    using step by (simp add: nodes_step_append nodes_ignore [OF sel(2) assms(5)] nodes_ignore [OF sel(3) assms(5)])
  obtain j where "master_receive [(ident', 8, padded bs)] M1 = answered bs M1 j"
    by (rule master_receive_first [of M1 "[(ident', 8, padded bs)]"])
      (use assms(3,9) in \<open>simp_all add: pending_request_def answered_def padded_def\<close>)
  then have "lss_round env call (M, bus, pre @ (S, b) # post) =
      Some (CO_LSSmaster_WAIT_SLAVE, x, answered bs M1 j, bus1, pre @ (f k\<lparr>lsv_sendResponse := False\<rparr>, b1) # post)"
    using assms(1) nodes by (simp add: lss_round_def new_frames_extends [OF assms(2)])
  moreover have "one_selected pre (f k\<lparr>lsv_sendResponse := False\<rparr>, b1) post"
    using step(2) assms(10) [of k] sel by (auto simp: one_selected_def selected_node_def)
  ultimately show ?thesis by (rule that)
qed

text \<open>The master has selected a slave and can start a request.\<close>

definition master_selected :: "CO_LSSmaster_t \<Rightarrow> co_bus \<Rightarrow> bool" where
  "master_selected M bus \<longleftrightarrow> lsm_state M = CO_LSSmaster_STATE_CFG_SLECTIVE \<and> lsm_command M = CO_LSSmaster_COMMAND_WAITING \<and>
     (case lsm_TXbuff M of None \<Rightarrow> False | Some txb \<Rightarrow> buf_ok txb bus)"

lemma request_sent:
  assumes "lsm_TXbuff M = Some txb" "buf_ok txb bus" "writes_ok env" "length d = 8"
  obtains bus1 ident where "lss_request env d M bus = Some (M\<lparr>lsm_CANrxNew := False\<rparr>, bus1)" "buf_ok txb bus1"
    "extends bus [(ident, 8, d)] bus1"
  using send_whole_frame [OF assms(2,3,4)] assms(1) by (simp add: lss_request_def)

definition unit_call :: "lss_result \<Rightarrow> (CO_LSSmaster_return_t \<times> CO_LSSmaster_t \<times> co_bus \<times> unit) option" where
  "unit_call r = map_option (\<lambda>(ret, M, bus). (ret, M, bus, ())) r"

subsection \<open>The node-ID\<close>

lemma configure_node_id_call:
  assumes "writes_ok env" "master_selected M bus" "CO_LSS_NODE_ID_VALID nid"
  obtains M1 bus1 ident txb where
    "unit_call (CO_LSSmaster_configureNodeId env M bus dt nid) = Some (CO_LSSmaster_WAIT_SLAVE, M1, bus1, ())"
    "extends bus [(ident, 8, padded [CO_LSS_CFG_NODE_ID, nid])] bus1" "pending_request M1"
    "lsm_command M1 = CO_LSSmaster_COMMAND_CFG_NODE_ID" "lsm_state M1 = CO_LSSmaster_STATE_CFG_SLECTIVE"
    "lsm_TXbuff M1 = Some txb" "buf_ok txb bus1"
proof -
  from assms(2) obtain txb where M: "lsm_TXbuff M = Some txb" "buf_ok txb bus" "lsm_state M = CO_LSSmaster_STATE_CFG_SLECTIVE"
    "lsm_command M = CO_LSSmaster_COMMAND_WAITING"
    by (auto simp: master_selected_def split: option.splits)
  define M0 where "M0 = M\<lparr>lsm_command := CO_LSSmaster_COMMAND_CFG_NODE_ID, lsm_timeoutTimer := 0\<rparr>"
  have "lsm_TXbuff M0 = Some txb" "length ([CO_LSS_CFG_NODE_ID, nid] @ replicate 6 0) = 8" using M by (simp_all add: M0_def)
  then obtain bus1 ident where s: "lss_request env ([CO_LSS_CFG_NODE_ID, nid] @ replicate 6 0) M0 bus = Some (M0\<lparr>lsm_CANrxNew := False\<rparr>, bus1)"
    "buf_ok txb bus1" "extends bus [(ident, 8, [CO_LSS_CFG_NODE_ID, nid] @ replicate 6 0)] bus1"
    by (rule request_sent [OF _ M(2) assms(1)])
  have "unit_call (CO_LSSmaster_configureNodeId env M bus dt nid) =
      Some (CO_LSSmaster_WAIT_SLAVE, M0\<lparr>lsm_CANrxNew := False\<rparr>, bus1, ())"
    using assms(3) M(3,4) s(1)
    by (simp add: CO_LSSmaster_configureNodeId_def lss_configure_def unit_call_def lss_finished_def flip: M0_def)
  then show ?thesis
    by (rule that) (use s M in \<open>simp_all add: padded_def pending_request_def M0_def\<close>)
qed

lemma lss_node_id_run:
  assumes "writes_ok env" "master_selected M bus" "one_selected pre (S, b) post" "CO_LSS_NODE_ID_VALID nid"
  obtains M1 bus1 S1 b1 where
    "lss_run (Suc (Suc j)) env (\<lambda>_ M bus. unit_call (CO_LSSmaster_configureNodeId env M bus dt nid)) () (M, bus, pre @ (S, b) # post) =
      Some (CO_LSSmaster_OK, (), M1, bus1, pre @ (S1, b1) # post)"
    "one_selected pre (S1, b1) post" "master_selected M1 bus1" "lsv_pendingNodeID S1 = nid"
    "lsv_activeNodeID S1 = lsv_activeNodeID S" "lsv_lssAddress S1 = lsv_lssAddress S"
proof -
  let ?call = "\<lambda>M bus. unit_call (CO_LSSmaster_configureNodeId env M bus dt nid)"
  let ?d = "padded [CO_LSS_CFG_NODE_ID, nid]"
  obtain M1 bus1 ident txb where
    c: "?call M bus = Some (CO_LSSmaster_WAIT_SLAVE, M1, bus1, ())" "extends bus [(ident, 8, ?d)] bus1" "pending_request M1"
      "lsm_command M1 = CO_LSSmaster_COMMAND_CFG_NODE_ID" "lsm_state M1 = CO_LSSmaster_STATE_CFG_SLECTIVE"
      "lsm_TXbuff M1 = Some txb" "buf_ok txb bus1"
    by (rule configure_node_id_call [OF assms(1,2,4)])
  define f where "f k = S\<lparr>lsv_CANdata := ?d, lsv_service := ?d ! 0, lsv_sendResponse := True, lsv_signals := k, lsv_pendingNodeID := nid\<rparr>" for k
  have d: "?d ! 0 = CO_LSS_CFG_NODE_ID" "?d ! 1 = nid" "length ?d = 8" by (simp_all add: padded_def)
  have cfg: "configuring (?d ! 0)" unfolding d(1) by (simp add: configuring_def lss_codes)
  have srv: "lss_service (S\<lparr>lsv_CANdata := ?d, lsv_service := ?d ! 0, lsv_sendResponse := True, lsv_signals := k\<rparr>) =
      (False, Some [CO_LSS_CFG_NODE_ID, CO_LSS_CFG_NODE_ID_OK], f k)" for k
    using assms(4) d by (simp add: lss_service_def Let_def lss_cfg_node_id_def lss_codes f_def)
  have sel: "selected_node (f k\<lparr>lsv_sendResponse := False\<rparr>, b)" "lsv_TXbuff (f k) = lsv_TXbuff S" for k
    using assms(3) by (auto simp: one_selected_def selected_node_def node_ok_def f_def split: option.splits)
  obtain i k b1 where r: "lss_round env ?call (M, bus, pre @ (S, b) # post) = Some (CO_LSSmaster_WAIT_SLAVE, (),
        answered [CO_LSS_CFG_NODE_ID, CO_LSS_CFG_NODE_ID_OK] M1 i, bus1, pre @ (f k\<lparr>lsv_sendResponse := False\<rparr>, b1) # post)"
      "one_selected pre (f k\<lparr>lsv_sendResponse := False\<rparr>, b1) post"
    by (rule request_round [of ?call M bus, OF c(1,2,3) assms(3) cfg d(3) assms(1) srv _ sel]) simp
  define M2 where "M2 = (answered [CO_LSS_CFG_NODE_ID, CO_LSS_CFG_NODE_ID_OK] M1 i)\<lparr>lsm_CANrxNew := False, lsm_command := CO_LSSmaster_COMMAND_WAITING\<rparr>"
  have "?call (answered [CO_LSS_CFG_NODE_ID, CO_LSS_CFG_NODE_ID_OK] M1 i) bus1 = Some (CO_LSSmaster_OK, M2, bus1, ())"
    using assms(4) c(4,5) by (simp add: CO_LSSmaster_configureNodeId_def lss_configure_def unit_call_def lss_finished_def
        CO_LSSmaster_configureCheckWait_def answered_def padded_def CO_LSS_CFG_NODE_ID_OK_def M2_def)
  moreover have "\<forall>n \<in> set (pre @ (f k\<lparr>lsv_sendResponse := False\<rparr>, b1) # post). node_ok n"
    using r(2) by (auto simp: one_selected_def selected_node_def waiting_node_def)
  ultimately have "lss_round env ?call (answered [CO_LSS_CFG_NODE_ID, CO_LSS_CFG_NODE_ID_OK] M1 i, bus1, pre @ (f k\<lparr>lsv_sendResponse := False\<rparr>, b1) # post) =
      Some (CO_LSSmaster_OK, (), M2, bus1, pre @ (f k\<lparr>lsv_sendResponse := False\<rparr>, b1) # post)"
    by (simp add: lss_round_def new_frames_extends [OF extends_refl] master_receive_def nodes_step_nothing)
  with r(1) have run: "lss_run (Suc (Suc j)) env (\<lambda>_. ?call) () (M, bus, pre @ (S, b) # post) =
      Some (CO_LSSmaster_OK, (), M2, bus1, pre @ (f k\<lparr>lsv_sendResponse := False\<rparr>, b1) # post)" by simp
  show ?thesis
    by (rule that [OF run r(2)]) (use c(5-7) in \<open>simp_all add: master_selected_def M2_def answered_def f_def\<close>)
qed

lemma deselect_resets:
  assumes "lsv_lssState S = CO_LSS_STATE_CONFIGURATION" "\<not> lsv_sendResponse S" "lsv_TXbuff S = Some txb"
    "lsv_activeNodeID S = CO_LSS_NODE_ID_ASSIGNMENT" "lsv_pendingNodeID S \<noteq> CO_LSS_NODE_ID_ASSIGNMENT"
  shows "\<exists>S1 S2 bus2. CO_LSSslave_receive env S bus (frame_msg (ident, 8, padded [CO_LSS_SWITCH_STATE_GLOBAL, 0])) = Some (S1, bus) \<and>
    CO_LSSslave_process env S1 bus = Some (True, S2, bus2) \<and> lsv_lssState S2 = CO_LSS_STATE_WAITING \<and>
    lsv_pendingNodeID S2 = lsv_pendingNodeID S"
  using assms by (simp add: CO_LSSslave_receive_def frame_msg_def padded_def lss_switch_global_def CO_LSSslave_process_def
      lss_service_def Let_def)

text \<open>C22: A valid node-ID that the master configures with one slave selected arrives: the second call returns success, the pending
  node-ID of the selected slave is the new one, no other slave changes, and when the master then deselects, a slave
  that had no node-ID asks the application for a reset of the communication.\<close>

theorem lss_node_id_assigned:
  assumes "writes_ok env" "master_selected M bus" "one_selected pre (S, b) post" "CO_LSS_NODE_ID_VALID nid" "2 \<le> k"
  shows "\<exists>M1 bus1 S1 b1.
    lss_run k env (\<lambda>_ M bus. unit_call (CO_LSSmaster_configureNodeId env M bus dt nid)) () (M, bus, pre @ (S, b) # post) =
      Some (CO_LSSmaster_OK, (), M1, bus1, pre @ (S1, b1) # post) \<and>
    master_selected M1 bus1 \<and> one_selected pre (S1, b1) post \<and> lsv_pendingNodeID S1 = nid \<and> lsv_lssAddress S1 = lsv_lssAddress S \<and>
    (lsv_activeNodeID S = CO_LSS_NODE_ID_ASSIGNMENT \<and> nid \<noteq> CO_LSS_NODE_ID_ASSIGNMENT \<longrightarrow>
      (\<exists>S2 S3 b3. CO_LSSslave_receive env S1 b1 (frame_msg (ident, 8, padded [CO_LSS_SWITCH_STATE_GLOBAL, 0])) = Some (S2, b1) \<and>
         CO_LSSslave_process env S2 b1 = Some (True, S3, b3) \<and> lsv_pendingNodeID S3 = nid))"
proof -
  obtain j where k: "k = Suc (Suc j)" using assms(5) by (metis add_2_eq_Suc le_Suc_ex)
  obtain M1 bus1 S1 b1 where r:
    "lss_run (Suc (Suc j)) env (\<lambda>_ M bus. unit_call (CO_LSSmaster_configureNodeId env M bus dt nid)) () (M, bus, pre @ (S, b) # post) =
      Some (CO_LSSmaster_OK, (), M1, bus1, pre @ (S1, b1) # post)"
    "one_selected pre (S1, b1) post" "master_selected M1 bus1" "lsv_pendingNodeID S1 = nid"
    "lsv_activeNodeID S1 = lsv_activeNodeID S" "lsv_lssAddress S1 = lsv_lssAddress S"
    by (rule lss_node_id_run [OF assms(1-4)])
  have "selected_node (S1, b1)" using r(2) by (simp add: one_selected_def)
  then obtain txb where "lsv_lssState S1 = CO_LSS_STATE_CONFIGURATION" "\<not> lsv_sendResponse S1" "lsv_TXbuff S1 = Some txb"
    by (auto simp: selected_node_def node_ok_def split: option.splits)
  from deselect_resets [OF this, of env b1 ident] r show ?thesis
    unfolding k by (intro exI [of _ M1] exI [of _ bus1] exI [of _ S1] exI [of _ b1]) auto
qed

definition example_waiting :: "lss_node list" where
  "example_waiting = [(example_slave 5 [1, 1, 1, 1], example_bus)]"

definition example_selected :: CO_LSSslave_t where
  "example_selected = (example_slave 0xFF [7, 2, 8, 4])\<lparr>lsv_lssState := CO_LSS_STATE_CONFIGURATION\<rparr>"

definition example_selecting :: CO_LSSmaster_t where
  "example_selecting = example_master\<lparr>lsm_state := CO_LSSmaster_STATE_CFG_SLECTIVE\<rparr>"

lemma example_one_selected: "one_selected example_waiting (example_selected, example_bus) []" "master_selected example_selecting example_bus"
  by (simp_all add: one_selected_def example_waiting_def selected_node_def waiting_node_def node_ok_def example_selected_def
      example_slave_def example_buf_ok master_selected_def example_selecting_def example_master_def)

theorem lss_node_id_assigned_witness:
  "\<exists>M1 bus1 S1 b1.
    lss_run 2 (example_env 0) (\<lambda>_ M bus. unit_call (CO_LSSmaster_configureNodeId (example_env 0) M bus 0 0x22)) ()
      (example_selecting, example_bus, example_waiting @ [(example_selected, example_bus)]) =
      Some (CO_LSSmaster_OK, (), M1, bus1, example_waiting @ [(S1, b1)]) \<and>
    lsv_pendingNodeID S1 = 0x22 \<and>
    (\<exists>S2 S3 b3. CO_LSSslave_receive (example_env 0) S1 b1 (frame_msg (0x7E5, 8, padded [CO_LSS_SWITCH_STATE_GLOBAL, 0])) = Some (S2, b1) \<and>
       CO_LSSslave_process (example_env 0) S2 b1 = Some (True, S3, b3) \<and> lsv_pendingNodeID S3 = 0x22)"
proof -
  have "CO_LSS_NODE_ID_VALID 0x22" "lsv_activeNodeID example_selected = CO_LSS_NODE_ID_ASSIGNMENT" "0x22 \<noteq> CO_LSS_NODE_ID_ASSIGNMENT"
    by (simp_all add: CO_LSS_NODE_ID_VALID_def CO_LSS_NODE_ID_ASSIGNMENT_def example_selected_def example_slave_def)
  with lss_node_id_assigned [OF example_writes_ok example_one_selected(2,1) _ order_refl, of "0x22" 0 "0x7E5"]
  show ?thesis by blast
qed

subsection \<open>The address\<close>

definition inquiring :: "CO_LSSmaster_command_t \<Rightarrow> CO_LSSmaster_t \<Rightarrow> co_bus \<Rightarrow> bool" where
  "inquiring c M bus \<longleftrightarrow> lsm_state M = CO_LSSmaster_STATE_CFG_SLECTIVE \<and> lsm_command M = c \<and>
     (case lsm_TXbuff M of None \<Rightarrow> False | Some txb \<Rightarrow> buf_ok txb bus)"

lemma inquiry_sent:
  assumes "inquiring c0 M bus" "writes_ok env"
  obtains M1 bus1 ident where
    "CO_LSSmaster_inquireInitiate env (M\<lparr>lsm_command := c, lsm_timeoutTimer := 0\<rparr>) bus cs = Some (CO_LSSmaster_WAIT_SLAVE, M1, bus1)"
    "extends bus [(ident, 8, padded [cs])] bus1" "inquiring c M1 bus1" "\<not> lsm_CANrxNew M1"
proof -
  from assms(1) obtain txb where M: "lsm_TXbuff M = Some txb" "buf_ok txb bus" "lsm_state M = CO_LSSmaster_STATE_CFG_SLECTIVE"
    by (auto simp: inquiring_def split: option.splits)
  define M0 where "M0 = M\<lparr>lsm_command := c, lsm_timeoutTimer := 0\<rparr>"
  have "lsm_TXbuff M0 = Some txb" "length ([cs] @ replicate 7 0) = 8" using M by (simp_all add: M0_def)
  then obtain bus1 ident where s: "lss_request env ([cs] @ replicate 7 0) M0 bus = Some (M0\<lparr>lsm_CANrxNew := False\<rparr>, bus1)"
    "buf_ok txb bus1" "extends bus [(ident, 8, [cs] @ replicate 7 0)] bus1"
    by (rule request_sent [OF _ M(2) assms(2)])
  show ?thesis
    by (rule that [of "M0\<lparr>lsm_CANrxNew := False\<rparr>" bus1])
      (use s M in \<open>simp_all add: CO_LSSmaster_inquireInitiate_def inquiring_def padded_def flip: M0_def\<close>,
       simp_all add: M0_def)
qed

abbreviation inquire_call :: "can_env \<Rightarrow> u32 \<Rightarrow> CO_LSS_address_t \<Rightarrow> CO_LSSmaster_t \<Rightarrow> co_bus \<Rightarrow>
    (CO_LSSmaster_return_t \<times> CO_LSSmaster_t \<times> co_bus \<times> CO_LSS_address_t) option" where
  "inquire_call env dt a M bus \<equiv> CO_LSSmaster_InquireLssAddress env M bus dt a"

lemma answer_number: "CO_getUint32 (drop (Suc 0) (padded (cs # le_bytes 4 (unat v)))) = v" "padded (cs # le_bytes 4 (unat v)) ! 0 = cs"
  by (simp_all add: padded_def del: le_bytes.simps)

lemma inquiry_check:
  assumes "lss_inquiry (lsm_command M) = Some (cs, i, next)"
  shows "lss_inquiry_reply (answered (cs # le_bytes 4 (unat v)) M j) dt a =
    (if next = CO_LSSmaster_COMMAND_WAITING then CO_LSSmaster_OK else CO_LSSmaster_WAIT_SLAVE, next,
     (answered (cs # le_bytes 4 (unat v)) M j)\<lparr>lsm_CANrxNew := False\<rparr>, a[i := v])"
  using assms answer_number [of cs v]
  by (simp add: lss_inquiry_reply_def CO_LSSmaster_inquireCheckWait_def answered_def del: le_bytes.simps)

lemma inquiry_starts:
  assumes "inquiring CO_LSSmaster_COMMAND_WAITING M bus" "writes_ok env"
  obtains M1 bus1 ident where "inquire_call env dt a M bus = Some (CO_LSSmaster_WAIT_SLAVE, M1, bus1, a)"
    "extends bus [(ident, 8, padded [CO_LSS_INQUIRE_VENDOR])] bus1" "inquiring CO_LSSmaster_COMMAND_INQUIRE_VENDOR M1 bus1" "\<not> lsm_CANrxNew M1"
proof -
  obtain M1 bus1 ident where s:
    "CO_LSSmaster_inquireInitiate env (M\<lparr>lsm_command := CO_LSSmaster_COMMAND_INQUIRE_VENDOR, lsm_timeoutTimer := 0\<rparr>) bus CO_LSS_INQUIRE_VENDOR =
      Some (CO_LSSmaster_WAIT_SLAVE, M1, bus1)"
    "extends bus [(ident, 8, padded [CO_LSS_INQUIRE_VENDOR])] bus1" "inquiring CO_LSSmaster_COMMAND_INQUIRE_VENDOR M1 bus1" "\<not> lsm_CANrxNew M1"
    by (rule inquiry_sent [OF assms])
  from s(1) assms(1) have "inquire_call env dt a M bus = Some (CO_LSSmaster_WAIT_SLAVE, M1, bus1, a)"
    by (simp add: CO_LSSmaster_InquireLssAddress_def lss_inquiry_reply_def inquiring_def lss_finished_def)
  with s show ?thesis using that by blast
qed

lemma inquiry_goes_on:
  assumes "inquiring c M bus" "writes_ok env" "lss_inquiry c = Some (cs, i, next)" "lss_inquiry next = Some (cs', i', next')"
  obtains M1 bus1 ident where
    "inquire_call env dt a (answered (cs # le_bytes 4 (unat v)) M j) bus = Some (CO_LSSmaster_WAIT_SLAVE, M1, bus1, a[i := v])"
    "extends bus [(ident, 8, padded [cs'])] bus1" "inquiring next M1 bus1" "\<not> lsm_CANrxNew M1"
proof -
  let ?M = "(answered (cs # le_bytes 4 (unat v)) M j)\<lparr>lsm_CANrxNew := False\<rparr>"
  have "inquiring c ?M bus" using assms(1) by (simp add: inquiring_def answered_def)
  then obtain M1 bus1 ident where s:
    "CO_LSSmaster_inquireInitiate env (?M\<lparr>lsm_command := next, lsm_timeoutTimer := 0\<rparr>) bus cs' = Some (CO_LSSmaster_WAIT_SLAVE, M1, bus1)"
    "extends bus [(ident, 8, padded [cs'])] bus1" "inquiring next M1 bus1" "\<not> lsm_CANrxNew M1"
    by (rule inquiry_sent [OF _ assms(2)])
  have c: "lsm_command M = c" "lsm_state ?M = CO_LSSmaster_STATE_CFG_SLECTIVE" "lsm_command ?M = c"
    using assms(1) by (simp_all add: inquiring_def answered_def)
  have n: "c \<noteq> CO_LSSmaster_COMMAND_WAITING" "next \<noteq> CO_LSSmaster_COMMAND_WAITING" using assms(3,4) by auto
  have "inquire_call env dt a (answered (cs # le_bytes 4 (unat v)) M j) bus = Some (CO_LSSmaster_WAIT_SLAVE, M1, bus1, a[i := v])"
    using inquiry_check [of M cs i "next" v j dt a] assms(3,4) c n s(1)
    by (simp add: CO_LSSmaster_InquireLssAddress_def lss_finished_def)
  with s show ?thesis using that by blast
qed

lemma inquiry_ends:
  assumes "inquiring c M bus" "lss_inquiry c = Some (cs, i, CO_LSSmaster_COMMAND_WAITING)"
  obtains M1 where
    "inquire_call env dt a (answered (cs # le_bytes 4 (unat v)) M j) bus = Some (CO_LSSmaster_OK, M1, bus, a[i := v])"
    "master_selected M1 bus"
proof -
  let ?M = "(answered (cs # le_bytes 4 (unat v)) M j)\<lparr>lsm_CANrxNew := False\<rparr>"
  have c: "lsm_command M = c" "lsm_state ?M = CO_LSSmaster_STATE_CFG_SLECTIVE" "lsm_command ?M = c"
    using assms(1) by (simp_all add: inquiring_def answered_def)
  have n: "c \<noteq> CO_LSSmaster_COMMAND_WAITING" using assms(2) by auto
  have "inquire_call env dt a (answered (cs # le_bytes 4 (unat v)) M j) bus =
      Some (CO_LSSmaster_OK, ?M\<lparr>lsm_command := CO_LSSmaster_COMMAND_WAITING\<rparr>, bus, a[i := v])"
    using inquiry_check [of M cs i CO_LSSmaster_COMMAND_WAITING v j dt a] assms(2) c n
    by (simp add: CO_LSSmaster_InquireLssAddress_def lss_finished_def)
  then show ?thesis using assms(1) by (intro that) (auto simp: inquiring_def master_selected_def answered_def split: option.splits)
qed

lemma service_inquire:
  assumes "lss_inquiry c = Some (cs, i, next)" "lsv_service S = cs"
  shows "lss_service S = (False, lss_inquire i S)" "configuring cs" "c \<noteq> CO_LSSmaster_COMMAND_WAITING"
  using assms by (cases c; auto simp: lss_service_def Let_def lss_codes configuring_def)+

lemma inquire_round:
  assumes "call M bus = Some (CO_LSSmaster_WAIT_SLAVE, M1, bus1, x)" "extends bus [(ident, 8, padded [cs])] bus1"
    "inquiring c M1 bus1" "\<not> lsm_CANrxNew M1" "lss_inquiry c = Some (cs, i, next)" "one_selected pre (S, b) post" "writes_ok env"
  obtains j S1 b1 where "lss_round env call (M, bus, pre @ (S, b) # post) = Some (CO_LSSmaster_WAIT_SLAVE, x,
      answered (cs # le_bytes 4 (unat (lsv_lssAddress S ! i))) M1 j, bus1, pre @ (S1, b1) # post)"
    "one_selected pre (S1, b1) post" "lsv_lssAddress S1 = lsv_lssAddress S" "lsv_pendingNodeID S1 = lsv_pendingNodeID S"
proof -
  let ?d = "padded [cs]" and ?bs = "cs # le_bytes 4 (unat (lsv_lssAddress S ! i))"
  define f where "f k = S\<lparr>lsv_CANdata := ?d, lsv_service := ?d ! 0, lsv_sendResponse := True, lsv_signals := k\<rparr>" for k
  have d: "?d ! 0 = cs" "length ?d = 8" by (simp_all add: padded_def)
  have srv: "lss_service (S\<lparr>lsv_CANdata := ?d, lsv_service := ?d ! 0, lsv_sendResponse := True, lsv_signals := k\<rparr>) = (False, Some ?bs, f k)" for k
    using service_inquire(1) [OF assms(5), of "f k"] d by (simp add: f_def lss_inquire_def del: le_bytes.simps)
  have cfg: "configuring (?d ! 0)" unfolding d(1) using service_inquire(2) [OF assms(5), of "f 0"] d by (simp add: f_def)
  have sel: "selected_node (f k\<lparr>lsv_sendResponse := False\<rparr>, b)" "lsv_TXbuff (f k) = lsv_TXbuff S" for k
    using assms(6) by (auto simp: one_selected_def selected_node_def node_ok_def f_def split: option.splits)
  have pend: "pending_request M1" using assms(3,4,5) by (auto simp: pending_request_def inquiring_def)
  obtain j k b1 where "lss_round env call (M, bus, pre @ (S, b) # post) = Some (CO_LSSmaster_WAIT_SLAVE, x,
        answered ?bs M1 j, bus1, pre @ (f k\<lparr>lsv_sendResponse := False\<rparr>, b1) # post)"
      "one_selected pre (f k\<lparr>lsv_sendResponse := False\<rparr>, b1) post"
    by (rule request_round [of call M bus, OF assms(1,2) pend assms(6) cfg d(2) assms(7) srv _ sel]) simp
  then show ?thesis by (rule that) (simp_all add: f_def)
qed

definition at_inquiry ::
    "CO_LSSmaster_command_t \<Rightarrow> CO_LSS_address_t \<Rightarrow> u8 \<Rightarrow> lss_node list \<Rightarrow> lss_node list \<Rightarrow> lss_net \<Rightarrow> bool" where
  \<comment> \<open>the selected slave, with an address and a pending node-ID, has answered an inquiry\<close>
  "at_inquiry c A nid pre post net \<longleftrightarrow> (\<exists>cs i next M j bus S b. lss_inquiry c = Some (cs, i, next) \<and>
     net = (answered (cs # le_bytes 4 (unat (A ! i))) M j, bus, pre @ (S, b) # post) \<and> inquiring c M bus \<and>
     one_selected pre (S, b) post \<and> lsv_lssAddress S = A \<and> lsv_pendingNodeID S = nid)"

lemma inquiry_first:
  assumes "writes_ok env" "master_selected M bus" "one_selected pre (S, b) post"
  obtains net where "lss_run (Suc k) env (inquire_call env dt) a (M, bus, pre @ (S, b) # post) = lss_run k env (inquire_call env dt) a net"
    "at_inquiry CO_LSSmaster_COMMAND_INQUIRE_VENDOR (lsv_lssAddress S) (lsv_pendingNodeID S) pre post net"
proof -
  have "inquiring CO_LSSmaster_COMMAND_WAITING M bus" using assms(2) by (simp add: inquiring_def master_selected_def)
  then obtain M1 bus1 ident where c: "inquire_call env dt a M bus = Some (CO_LSSmaster_WAIT_SLAVE, M1, bus1, a)"
    "extends bus [(ident, 8, padded [CO_LSS_INQUIRE_VENDOR])] bus1" "inquiring CO_LSSmaster_COMMAND_INQUIRE_VENDOR M1 bus1" "\<not> lsm_CANrxNew M1"
    by (rule inquiry_starts [OF _ assms(1)])
  obtain j S1 b1 where r: "lss_round env (inquire_call env dt a) (M, bus, pre @ (S, b) # post) = Some (CO_LSSmaster_WAIT_SLAVE, a,
      answered (CO_LSS_INQUIRE_VENDOR # le_bytes 4 (unat (lsv_lssAddress S ! 0))) M1 j, bus1, pre @ (S1, b1) # post)"
    "one_selected pre (S1, b1) post" "lsv_lssAddress S1 = lsv_lssAddress S" "lsv_pendingNodeID S1 = lsv_pendingNodeID S"
    by (rule inquire_round [of "inquire_call env dt a" M bus, OF c lss_inquiry.simps(1) assms(3,1)])
  show ?thesis
    by (rule that [of "(answered (CO_LSS_INQUIRE_VENDOR # le_bytes 4 (unat (lsv_lssAddress S ! 0))) M1 j, bus1, pre @ (S1, b1) # post)"])
      (use r c(3) in \<open>auto simp: at_inquiry_def simp del: le_bytes.simps\<close>)
qed

lemma inquiry_next:
  assumes "writes_ok env" "at_inquiry c A nid pre post net" "lss_inquiry c = Some (cs, i, next)" "lss_inquiry next = Some (cs', i', next')"
  obtains net' where "lss_run (Suc k) env (inquire_call env dt) a net = lss_run k env (inquire_call env dt) (a[i := A ! i]) net'"
    "at_inquiry next A nid pre post net'"
proof -
  from assms(2,3) obtain M j bus S b where
    net: "net = (answered (cs # le_bytes 4 (unat (A ! i))) M j, bus, pre @ (S, b) # post)" "inquiring c M bus"
      "one_selected pre (S, b) post" "lsv_lssAddress S = A" "lsv_pendingNodeID S = nid"
    by (auto simp: at_inquiry_def simp del: le_bytes.simps)
  obtain M1 bus1 ident where
    c: "inquire_call env dt a (answered (cs # le_bytes 4 (unat (A ! i))) M j) bus = Some (CO_LSSmaster_WAIT_SLAVE, M1, bus1, a[i := A ! i])"
      "extends bus [(ident, 8, padded [cs'])] bus1" "inquiring next M1 bus1" "\<not> lsm_CANrxNew M1"
    by (rule inquiry_goes_on [OF net(2) assms(1,3,4)])
  obtain j' S1 b1 where
    r: "lss_round env (inquire_call env dt a) (answered (cs # le_bytes 4 (unat (A ! i))) M j, bus, pre @ (S, b) # post) =
        Some (CO_LSSmaster_WAIT_SLAVE, a[i := A ! i], answered (cs' # le_bytes 4 (unat (lsv_lssAddress S ! i'))) M1 j', bus1, pre @ (S1, b1) # post)"
      "one_selected pre (S1, b1) post" "lsv_lssAddress S1 = lsv_lssAddress S" "lsv_pendingNodeID S1 = lsv_pendingNodeID S"
    by (rule inquire_round [of "inquire_call env dt a", OF c assms(4) net(3) assms(1)])
  show ?thesis
    by (rule that [of "(answered (cs' # le_bytes 4 (unat (A ! i'))) M1 j', bus1, pre @ (S1, b1) # post)"])
      (use r c(3) net assms(4) in \<open>auto simp: at_inquiry_def simp del: le_bytes.simps\<close>)
qed

lemma inquiry_last:
  assumes "at_inquiry c A nid pre post net" "lss_inquiry c = Some (cs, i, CO_LSSmaster_COMMAND_WAITING)"
  obtains M1 bus1 S1 b1 where
    "lss_run (Suc k) env (inquire_call env dt) a net = Some (CO_LSSmaster_OK, a[i := A ! i], M1, bus1, pre @ (S1, b1) # post)"
    "master_selected M1 bus1" "one_selected pre (S1, b1) post" "lsv_lssAddress S1 = A" "lsv_pendingNodeID S1 = nid"
proof -
  from assms obtain M j bus S b where
    net: "net = (answered (cs # le_bytes 4 (unat (A ! i))) M j, bus, pre @ (S, b) # post)" "inquiring c M bus"
      "one_selected pre (S, b) post" "lsv_lssAddress S = A" "lsv_pendingNodeID S = nid"
    by (auto simp: at_inquiry_def simp del: le_bytes.simps)
  obtain M1 where c: "inquire_call env dt a (answered (cs # le_bytes 4 (unat (A ! i))) M j) bus = Some (CO_LSSmaster_OK, M1, bus, a[i := A ! i])"
    "master_selected M1 bus"
    by (rule inquiry_ends [OF net(2) assms(2)])
  have "\<forall>n \<in> set (pre @ (S, b) # post). node_ok n"
    using net(3) by (auto simp: one_selected_def selected_node_def waiting_node_def)
  with c(1) have "lss_round env (inquire_call env dt a) net = Some (CO_LSSmaster_OK, a[i := A ! i], M1, bus, pre @ (S, b) # post)"
    unfolding net(1) by (simp add: lss_round_def new_frames_extends [OF extends_refl] master_receive_def nodes_step_nothing del: le_bytes.simps)
  then show ?thesis using that [of M1 bus S b] c(2) net by simp
qed

text \<open>The inquiries read the address of the selected slave: with one slave selected the fifth call returns success, the four
  numbers are the address of that slave, and neither this slave's node-ID nor any other slave changes.\<close>

theorem lss_address_read:
  assumes "writes_ok env" "master_selected M bus" "one_selected pre (S, b) post" "length a = 4" "5 \<le> k"
  shows "\<exists>M1 bus1 S1 b1. lss_run k env (\<lambda>a M bus. CO_LSSmaster_InquireLssAddress env M bus dt a) a (M, bus, pre @ (S, b) # post) =
      Some (CO_LSSmaster_OK, lsv_lssAddress S, M1, bus1, pre @ (S1, b1) # post) \<and>
    master_selected M1 bus1 \<and> one_selected pre (S1, b1) post \<and> lsv_lssAddress S1 = lsv_lssAddress S \<and>
    lsv_pendingNodeID S1 = lsv_pendingNodeID S"
proof -
  let ?run = "\<lambda>k. lss_run k env (inquire_call env dt)" and ?A = "lsv_lssAddress S" and ?nid = "lsv_pendingNodeID S"
  obtain j where k: "k = Suc (Suc (Suc (Suc (Suc j))))" using assms(5) by (auto simp: le_iff_add numeral_eq_Suc)
  obtain n1 where n1: "?run k a (M, bus, pre @ (S, b) # post) = ?run (Suc (Suc (Suc (Suc j)))) a n1"
    "at_inquiry CO_LSSmaster_COMMAND_INQUIRE_VENDOR ?A ?nid pre post n1" unfolding k by (rule inquiry_first [OF assms(1-3)])
  obtain n2 where n2: "?run (Suc (Suc (Suc (Suc j)))) a n1 = ?run (Suc (Suc (Suc j))) (a[0 := ?A ! 0]) n2"
    "at_inquiry CO_LSSmaster_COMMAND_INQUIRE_PRODUCT ?A ?nid pre post n2"
    by (rule inquiry_next [OF assms(1) n1(2) lss_inquiry.simps(1,2)])
  obtain n3 where n3: "?run (Suc (Suc (Suc j))) (a[0 := ?A ! 0]) n2 = ?run (Suc (Suc j)) (a[0 := ?A ! 0, 1 := ?A ! 1]) n3"
    "at_inquiry CO_LSSmaster_COMMAND_INQUIRE_REV ?A ?nid pre post n3"
    by (rule inquiry_next [OF assms(1) n2(2) lss_inquiry.simps(2,3)])
  obtain n4 where n4: "?run (Suc (Suc j)) (a[0 := ?A ! 0, 1 := ?A ! 1]) n3 = ?run (Suc j) (a[0 := ?A ! 0, 1 := ?A ! 1, 2 := ?A ! 2]) n4"
    "at_inquiry CO_LSSmaster_COMMAND_INQUIRE_SERIAL ?A ?nid pre post n4"
    by (rule inquiry_next [OF assms(1) n3(2) lss_inquiry.simps(3,4)])
  have "length ?A = 4" using assms(3) by (simp add: one_selected_def selected_node_def node_ok_def)
  then have A: "a[0 := ?A ! 0, 1 := ?A ! 1, 2 := ?A ! 2, 3 := ?A ! 3] = ?A"
    using assms(4) by (intro nth_equalityI) (auto simp: nth_list_update less_Suc_eq numeral_eq_Suc)
  obtain M1 bus1 S1 b1 where
    "?run (Suc j) (a[0 := ?A ! 0, 1 := ?A ! 1, 2 := ?A ! 2]) n4 = Some (CO_LSSmaster_OK, ?A, M1, bus1, pre @ (S1, b1) # post)"
    "master_selected M1 bus1" "one_selected pre (S1, b1) post" "lsv_lssAddress S1 = ?A" "lsv_pendingNodeID S1 = ?nid"
    by (rule inquiry_last [OF n4(2) lss_inquiry.simps(4), where a = "a[0 := ?A ! 0, 1 := ?A ! 1, 2 := ?A ! 2]", unfolded A])
  then show ?thesis using n1(1) n2(1) n3(1) n4(1)
    by (intro exI [of _ M1] exI [of _ bus1] exI [of _ S1] exI [of _ b1]) simp
qed

theorem lss_address_read_witness:
  "\<exists>M1 bus1 S1 b1. lss_run 5 (example_env 0) (\<lambda>a M bus. CO_LSSmaster_InquireLssAddress (example_env 0) M bus 0 a) [0, 0, 0, 0]
      (example_selecting, example_bus, example_waiting @ [(example_selected, example_bus)]) =
      Some (CO_LSSmaster_OK, [7, 2, 8, 4], M1, bus1, example_waiting @ [(S1, b1)]) \<and> lsv_pendingNodeID S1 = 0xFF"
proof -
  have "lsv_lssAddress example_selected = [7, 2, 8, 4]" "lsv_pendingNodeID example_selected = 0xFF"
    by (simp_all add: example_selected_def example_slave_def)
  with lss_address_read [OF example_writes_ok example_one_selected(2,1) _ order_refl, of "[0, 0, 0, 0]" 0]
  show ?thesis by auto
qed

end
