(* ===== verification/LSS_Select.thy ===== *)
theory LSS_Select
  imports LSS_Config
begin

section \<open>Selecting a slave by its address\<close>

text \<open>The four messages of the selective switch, as the slaves see them, and their effect over the bus.\<close>

definition select_frames :: "u32 \<Rightarrow> u8 \<Rightarrow> CO_LSS_address_t \<Rightarrow> can_frame list" where
  \<comment> \<open>byte 5 keeps what the buffer held before\<close>
  "select_frames ident x a = map (\<lambda>(cs, i). (ident, 8, lss_select_frame cs (a ! i) @ [x, 0, 0]))
     [(CO_LSS_SWITCH_STATE_SEL_VENDOR, 0), (CO_LSS_SWITCH_STATE_SEL_PRODUCT, 1), (CO_LSS_SWITCH_STATE_SEL_REV, 2),
      (CO_LSS_SWITCH_STATE_SEL_SERIAL, 3)]"

lemma length_select_frame [simp]: "length (lss_select_frame cs v) = 5"
  by (simp add: lss_select_frame_def del: le_bytes.simps)

lemma send_select_frame:
  fixes cs :: u8 and v :: u32
  assumes "buf_ok txb bus" "writes_ok env" "drop 5 (tx_data (bus_buf bus txb)) = tl3" "tx_ident (bus_buf bus txb) = ident"
  defines "bus1 \<equiv> bus_send env txb (bus_put txb 0 (lss_select_frame cs v) bus)"
  shows "buf_ok txb bus1" "drop 5 (tx_data (bus_buf bus1 txb)) = tl3" "tx_ident (bus_buf bus1 txb) = ident"
    "extends bus [(ident, 8, lss_select_frame cs v @ tl3)] bus1"
proof -
  let ?b = "bus_put txb 0 (lss_select_frame cs v) bus"
  have ok: "buf_ok txb ?b" using assms(1) by simp
  have "length (tx_data (bus_buf bus txb)) = 8" using assms(1) by (simp add: buf_ok_def)
  then have d: "tx_data (bus_buf ?b txb) = lss_select_frame cs v @ tl3" "tx_ident (bus_buf ?b txb) = ident"
    using put_frame [OF assms(1), of 0 "lss_select_frame cs v"] assms(3,4) by (simp_all add: memcpy_front)
  note sent = bus_send_ok [OF ok assms(2), folded bus1_def]
  show "buf_ok txb bus1" by (rule sent(1))
  show "drop 5 (tx_data (bus_buf bus1 txb)) = tl3" "tx_ident (bus_buf bus1 txb) = ident" using sent(2) d by simp_all
  show "extends bus [(ident, 8, lss_select_frame cs v @ tl3)] bus1" using sent(3) d by simp
qed

lemma select_sent:
  assumes "lsm_TXbuff M = Some txb" "buf_ok txb bus" "writes_ok env"
  obtains bus1 ident x where
    "CO_LSSmaster_switchStateSelectInitiate env M bus (Some a) = Some (CO_LSSmaster_WAIT_SLAVE,
       M\<lparr>lsm_state := CO_LSSmaster_STATE_CFG_SLECTIVE, lsm_command := CO_LSSmaster_COMMAND_SWITCH_STATE, lsm_timeoutTimer := 0,
         lsm_CANrxNew := False\<rparr>, bus1)"
    "buf_ok txb bus1" "extends bus (select_frames ident x a) bus1" "x = tx_data (bus_buf bus txb) ! 5"
proof -
  define b0 where "b0 = bus_put txb 6 [0, 0] bus"
  define x ident where "x = tx_data (bus_buf bus txb) ! 5" and "ident = tx_ident (bus_buf bus txb)"
  have len: "length (tx_data (bus_buf bus txb)) = 8" using assms(2) by (simp add: buf_ok_def)
  then have "take 6 (tx_data (bus_buf bus txb)) = take 5 (tx_data (bus_buf bus txb)) @ [x]"
    using take_Suc_conv_app_nth [of 5 "tx_data (bus_buf bus txb)"] by (simp add: x_def)
  with len have "drop 5 (memcpy_at (tx_data (bus_buf bus txb)) 6 [0, 0]) = [x, 0, 0]" by (simp add: memcpy_at_def)
  then have s0: "buf_ok txb b0" "drop 5 (tx_data (bus_buf b0 txb)) = [x, 0, 0]" "tx_ident (bus_buf b0 txb) = ident"
    using put_frame [OF assms(2), of 6 "[0, 0]"] assms(2) by (simp_all add: b0_def ident_def)
  define send where "send cs i b = bus_send env txb (bus_put txb 0 (lss_select_frame cs (a ! i)) b)" for cs i b
  note s1 = send_select_frame [OF s0(1) assms(3) s0(2,3), of CO_LSS_SWITCH_STATE_SEL_VENDOR "a ! 0", folded send_def]
  note s2 = send_select_frame [OF s1(1) assms(3) s1(2,3), of CO_LSS_SWITCH_STATE_SEL_PRODUCT "a ! 1", folded send_def]
  note s3 = send_select_frame [OF s2(1) assms(3) s2(2,3), of CO_LSS_SWITCH_STATE_SEL_REV "a ! 2", folded send_def]
  note s4 = send_select_frame [OF s3(1) assms(3) s3(2,3), of CO_LSS_SWITCH_STATE_SEL_SERIAL "a ! 3", folded send_def]
  have "extends b0 (select_frames ident x a) (send CO_LSS_SWITCH_STATE_SEL_SERIAL 3 (send CO_LSS_SWITCH_STATE_SEL_REV 2
      (send CO_LSS_SWITCH_STATE_SEL_PRODUCT 1 (send CO_LSS_SWITCH_STATE_SEL_VENDOR 0 b0))))"
    using extends_trans [OF extends_trans [OF extends_trans [OF s1(4) s2(4)] s3(4)] s4(4)] by (simp add: select_frames_def)
  then have "extends bus (select_frames ident x a) (send CO_LSS_SWITCH_STATE_SEL_SERIAL 3 (send CO_LSS_SWITCH_STATE_SEL_REV 2
      (send CO_LSS_SWITCH_STATE_SEL_PRODUCT 1 (send CO_LSS_SWITCH_STATE_SEL_VENDOR 0 b0))))"
    by (simp add: b0_def)
  then show ?thesis
    by (rule that [OF _ _ _ x_def, rotated 2])
      (use assms(1) s4(1) in \<open>simp_all add: CO_LSSmaster_switchStateSelectInitiate_def send_def b0_def\<close>)
qed

subsection \<open>A slave\<close>

definition selected_slave :: "CO_LSS_address_t \<Rightarrow> nat \<Rightarrow> CO_LSSslave_t \<Rightarrow> CO_LSSslave_t" where
  "selected_slave a k S = S\<lparr>lsv_lssSelect := a, lsv_lssState := CO_LSS_STATE_CONFIGURATION, lsv_service := CO_LSS_SWITCH_STATE_SEL_SERIAL,
     lsv_sendResponse := True, lsv_signals := k\<rparr>"

lemma select_frame_bytes [simp]:
  "(lss_select_frame cs v @ bs) ! 0 = cs" "CO_getUint32 (drop (Suc 0) (lss_select_frame cs v) @ bs) = v"
  by (simp_all add: lss_select_frame_def del: le_bytes.simps)

lemma receive_select:
  assumes "lsv_lssState S = CO_LSS_STATE_WAITING" "\<not> lsv_sendResponse S" "length bs = 3"
  shows "CO_LSSslave_receive env S bus (frame_msg (ident, 8, lss_select_frame CO_LSS_SWITCH_STATE_SEL_VENDOR v @ bs)) =
      Some (S\<lparr>lsv_lssSelect := (lsv_lssSelect S)[0 := v]\<rparr>, bus)"
    "CO_LSSslave_receive env S bus (frame_msg (ident, 8, lss_select_frame CO_LSS_SWITCH_STATE_SEL_PRODUCT v @ bs)) =
      Some (S\<lparr>lsv_lssSelect := (lsv_lssSelect S)[1 := v]\<rparr>, bus)"
    "CO_LSSslave_receive env S bus (frame_msg (ident, 8, lss_select_frame CO_LSS_SWITCH_STATE_SEL_REV v @ bs)) =
      Some (S\<lparr>lsv_lssSelect := (lsv_lssSelect S)[2 := v]\<rparr>, bus)"
  using assms by (simp_all add: CO_LSSslave_receive_def frame_msg_def lss_waiting_def lss_select_def lss_codes)

lemma receive_select_last:
  assumes "lsv_lssState S = CO_LSS_STATE_WAITING" "\<not> lsv_sendResponse S" "length bs = 3" "(lsv_lssSelect S)[3 := v] = a"
    "length (lsv_lssAddress S) = 4" "length a = 4"
  shows "CO_LSSslave_receive env S bus (frame_msg (ident, 8, lss_select_frame CO_LSS_SWITCH_STATE_SEL_SERIAL v @ bs)) =
    Some (if lsv_lssAddress S = a then selected_slave a (if lsv_pFunctSignalPre S then lsv_signals S + 1 else lsv_signals S) S
          else S\<lparr>lsv_lssSelect := a\<rparr>, bus)"
proof -
  have "CO_LSS_ADDRESS_EQUAL (lsv_lssAddress S) a \<longleftrightarrow> lsv_lssAddress S = a"
    using assms(5,6) by (auto simp: CO_LSS_ADDRESS_EQUAL_def numeral_eq_Suc less_Suc_eq intro!: nth_equalityI)
  then show ?thesis
    using assms(1-4) by (auto simp: CO_LSSslave_receive_def frame_msg_def lss_waiting_def lss_select_def lss_codes selected_slave_def Let_def)
qed

lemma node_select:
  assumes "waiting_node (S, bus)" "length a = 4" "writes_ok env"
  obtains k bus1 rs where "node_step env (select_frames ident x a) (S, bus) =
      Some (if lsv_lssAddress S = a then (selected_slave a k S)\<lparr>lsv_sendResponse := False\<rparr> else S\<lparr>lsv_lssSelect := a\<rparr>, bus1)"
    "new_frames bus bus1 = rs" "\<forall>r \<in> set rs. snd r = (8, padded [CO_LSS_SWITCH_STATE_SEL])" "rs \<noteq> [] \<longleftrightarrow> lsv_lssAddress S = a"
    "case lsv_TXbuff S of None \<Rightarrow> False | Some txb \<Rightarrow> buf_ok txb bus1"
proof -
  from assms(1) obtain txb where S: "lsv_lssState S = CO_LSS_STATE_WAITING" "\<not> lsv_sendResponse S" "lsv_TXbuff S = Some txb"
    "buf_ok txb bus" "length (lsv_lssAddress S) = 4" "length (lsv_lssSelect S) = 4"
    by (auto simp: waiting_node_def node_ok_def split: option.splits)
  have sel: "(lsv_lssSelect S)[0 := a ! 0, 1 := a ! 1, 2 := a ! 2, 3 := a ! 3] = a"
    using S(6) assms(2) by (intro nth_equalityI) (auto simp: nth_list_update less_Suc_eq numeral_eq_Suc)
  define k where "k = (if lsv_pFunctSignalPre S then lsv_signals S + 1 else lsv_signals S)"
  have rcv: "node_receive env (select_frames ident x a) (S, bus) =
      Some (if lsv_lssAddress S = a then selected_slave a k S else S\<lparr>lsv_lssSelect := a\<rparr>, bus)"
    using S sel assms(2) receive_select_last [where a = a]
    by (simp add: select_frames_def receive_select receive_select_last [where a = a] k_def selected_slave_def)
  show ?thesis
  proof (cases "lsv_lssAddress S = a")
    case False
    have "node_step env (select_frames ident x a) (S, bus) = Some (S\<lparr>lsv_lssSelect := a\<rparr>, bus)"
      using rcv False S(2) by (simp add: node_step_def CO_LSSslave_process_def)
    then show ?thesis using False S(3,4) by (intro that [of k bus "[]"]) (simp_all add: new_frames_extends [OF extends_refl])
  next
    case True
    define bus1 where "bus1 = bus_send env txb (bus_put txb 0 [CO_LSS_SWITCH_STATE_SEL] (bus_put txb 0 (replicate 8 0) bus))"
    have "lss_service (selected_slave a k S) = (False, Some [CO_LSS_SWITCH_STATE_SEL], selected_slave a k S)"
      by (simp add: lss_service_def Let_def selected_slave_def lss_codes)
    then have "CO_LSSslave_process env (selected_slave a k S) bus = Some (False, (selected_slave a k S)\<lparr>lsv_sendResponse := False\<rparr>, bus1)"
      using S(3) by (simp add: CO_LSSslave_process_def bus1_def) (simp add: selected_slave_def)
    then have step: "node_step env (select_frames ident x a) (S, bus) = Some ((selected_slave a k S)\<lparr>lsv_sendResponse := False\<rparr>, bus1)"
      using rcv True by (simp add: node_step_def)
    have "buf_ok txb bus1 \<and> (\<exists>i. extends bus [(i, 8, padded [CO_LSS_SWITCH_STATE_SEL])] bus1)"
      unfolding bus1_def by (rule send_answer [OF S(4) assms(3)]) simp
    then show ?thesis using True S(3) step by (auto intro!: that [of k bus1] simp: new_frames_extends)
  qed
qed

subsection \<open>The network\<close>

definition node_view :: "lss_node \<Rightarrow> CO_LSS_state_t \<times> CO_LSS_address_t \<times> u8" where
  "node_view n = (lsv_lssState (fst n), lsv_lssAddress (fst n), lsv_pendingNodeID (fst n))"

definition select_view :: "CO_LSS_address_t \<Rightarrow> lss_node \<Rightarrow> CO_LSS_state_t \<times> CO_LSS_address_t \<times> u8" where
  "select_view a n = (if lsv_lssAddress (fst n) = a then CO_LSS_STATE_CONFIGURATION else CO_LSS_STATE_WAITING,
     lsv_lssAddress (fst n), lsv_pendingNodeID (fst n))"

lemma nodes_select:
  assumes "\<forall>n \<in> set ns. waiting_node n" "length a = 4" "writes_ok env"
  shows "\<exists>ns1 rs. nodes_step env (select_frames ident x a) ns = Some (ns1, rs) \<and> map node_view ns1 = map (select_view a) ns \<and>
    (\<forall>n \<in> set ns1. node_ok n) \<and> (\<forall>r \<in> set rs. snd r = (8, padded [CO_LSS_SWITCH_STATE_SEL])) \<and>
    (rs \<noteq> [] \<longleftrightarrow> (\<exists>n \<in> set ns. lsv_lssAddress (fst n) = a))"
  using assms(1)
proof (induction ns)
  case Nil
  then show ?case by simp
next
  case (Cons n ns)
  then obtain ns1 rs where IH: "nodes_step env (select_frames ident x a) ns = Some (ns1, rs)" "map node_view ns1 = map (select_view a) ns"
    "\<forall>n \<in> set ns1. node_ok n" "\<forall>r \<in> set rs. snd r = (8, padded [CO_LSS_SWITCH_STATE_SEL])"
    "rs \<noteq> [] \<longleftrightarrow> (\<exists>n \<in> set ns. lsv_lssAddress (fst n) = a)" by auto
  obtain S bus where n: "n = (S, bus)" by (cases n)
  with Cons.prems have w: "waiting_node (S, bus)" by simp
  obtain k bus1 qs where step: "node_step env (select_frames ident x a) (S, bus) =
      Some (if lsv_lssAddress S = a then (selected_slave a k S)\<lparr>lsv_sendResponse := False\<rparr> else S\<lparr>lsv_lssSelect := a\<rparr>, bus1)"
    "new_frames bus bus1 = qs" "\<forall>r \<in> set qs. snd r = (8, padded [CO_LSS_SWITCH_STATE_SEL])" "qs \<noteq> [] \<longleftrightarrow> lsv_lssAddress S = a"
    "case lsv_TXbuff S of None \<Rightarrow> False | Some txb \<Rightarrow> buf_ok txb bus1"
    by (rule node_select [OF w assms(2,3)])
  let ?n1 = "(if lsv_lssAddress S = a then (selected_slave a k S)\<lparr>lsv_sendResponse := False\<rparr> else S\<lparr>lsv_lssSelect := a\<rparr>, bus1)"
  have "node_ok ?n1" "node_view ?n1 = select_view a (S, bus)"
    using w step(5) by (auto simp: node_ok_def node_view_def select_view_def selected_slave_def waiting_node_def split: option.splits)
  with IH step n show ?case by (simp add: ball_Un)
qed

lemma select_finishes:
  assumes "lsm_state M = CO_LSSmaster_STATE_CFG_SLECTIVE" "lsm_command M = CO_LSSmaster_COMMAND_SWITCH_STATE" "lsm_timeoutTimer M = 0"
    "lsm_timeout_us M \<le> dt" "lsm_CANrxNew M = ack" "ack \<longrightarrow> lsm_CANrxData M ! 0 = CO_LSS_SWITCH_STATE_SEL"
  obtains M1 where "unit_call (CO_LSSmaster_switchStateSelect env M bus dt a) =
      Some (if ack then CO_LSSmaster_OK else CO_LSSmaster_TIMEOUT, M1, bus, ())"
    "lsm_state M1 = (if ack then CO_LSSmaster_STATE_CFG_SLECTIVE else CO_LSSmaster_STATE_WAITING)"
    "lsm_command M1 = CO_LSSmaster_COMMAND_WAITING" "lsm_TXbuff M1 = lsm_TXbuff M"
  using assms by (cases ack) (simp_all add: CO_LSSmaster_switchStateSelect_def CO_LSSmaster_switchStateSelectWait_def unit_call_def
      lss_finished_def CO_LSSmaster_check_timeout_def)

lemma select_round:
  assumes "writes_ok env" "master_idle dt M bus" "\<forall>n \<in> set ns. waiting_node n" "length a = 4"
  obtains M1 bus1 ns1 ack where "lss_round env (\<lambda>M bus. unit_call (CO_LSSmaster_switchStateSelect env M bus dt (Some a))) (M, bus, ns) =
      Some (CO_LSSmaster_WAIT_SLAVE, (), M1, bus1, ns1)"
    "map node_view ns1 = map (select_view a) ns" "\<forall>n \<in> set ns1. node_ok n" "ack \<longleftrightarrow> (\<exists>n \<in> set ns. lsv_lssAddress (fst n) = a)"
    "lsm_state M1 = CO_LSSmaster_STATE_CFG_SLECTIVE" "lsm_command M1 = CO_LSSmaster_COMMAND_SWITCH_STATE" "lsm_timeoutTimer M1 = 0"
    "lsm_timeout_us M1 \<le> dt" "lsm_CANrxNew M1 = ack" "ack \<longrightarrow> lsm_CANrxData M1 ! 0 = CO_LSS_SWITCH_STATE_SEL"
proof -
  from assms(2) obtain txb where M: "lsm_TXbuff M = Some txb" "buf_ok txb bus" by (auto simp: master_idle_def split: option.splits)
  define M0 where "M0 = M\<lparr>lsm_state := CO_LSSmaster_STATE_CFG_SLECTIVE, lsm_command := CO_LSSmaster_COMMAND_SWITCH_STATE,
    lsm_timeoutTimer := 0, lsm_CANrxNew := False\<rparr>"
  obtain bus1 ident x where i: "CO_LSSmaster_switchStateSelectInitiate env M bus (Some a) = Some (CO_LSSmaster_WAIT_SLAVE, M0, bus1)"
    "buf_ok txb bus1" "extends bus (select_frames ident x a) bus1"
    unfolding M0_def by (rule select_sent [OF M assms(1)])
  have call: "unit_call (CO_LSSmaster_switchStateSelect env M bus dt (Some a)) = Some (CO_LSSmaster_WAIT_SLAVE, M0, bus1, ())"
    using assms(2) i(1) by (simp add: CO_LSSmaster_switchStateSelect_def unit_call_def lss_finished_def master_idle_def)
  from nodes_select [OF assms(3,4,1), of ident x] obtain ns1 rs where
    n: "nodes_step env (select_frames ident x a) ns = Some (ns1, rs)" "map node_view ns1 = map (select_view a) ns"
      "\<forall>n \<in> set ns1. node_ok n" "\<forall>r \<in> set rs. snd r = (8, padded [CO_LSS_SWITCH_STATE_SEL])"
      "rs \<noteq> [] \<longleftrightarrow> (\<exists>n \<in> set ns. lsv_lssAddress (fst n) = a)" by blast
  have "\<not> lsm_CANrxNew M0" "lsm_command M0 \<noteq> CO_LSSmaster_COMMAND_WAITING" "\<forall>f \<in> set rs. fst (snd f) = 8"
    using n(4) by (simp_all add: M0_def)
  then obtain k where rcv: "master_receive rs M0 = (case rs of [] \<Rightarrow> M0
      | r # _ \<Rightarrow> M0\<lparr>lsm_CANrxData := take 8 (snd (snd r)), lsm_CANrxNew := True, lsm_signals := k\<rparr>)"
    by (rule master_receive_first)
  have "lss_round env (\<lambda>M bus. unit_call (CO_LSSmaster_switchStateSelect env M bus dt (Some a))) (M, bus, ns) =
      Some (CO_LSSmaster_WAIT_SLAVE, (), master_receive rs M0, bus1, ns1)"
    using call n(1) by (simp add: lss_round_def new_frames_extends [OF i(3)])
  then show ?thesis
    by (rule that [OF _ n(2,3,5)])
      (use rcv n(4) assms(2) in \<open>auto simp: M0_def master_idle_def padded_def split: list.splits\<close>)
qed

text \<open>C14: The selective switch reaches exactly the slave with the address: after two calls the slaves with the address are in the
  configuration state and all others wait; the master reports success and can configure when there is such a slave, and
  otherwise a timeout and is back in its waiting state.\<close>

theorem lss_select_exact:
  assumes "writes_ok env" "master_idle dt M bus" "\<forall>n \<in> set ns. waiting_node n" "length a = 4" "2 \<le> k"
  shows "\<exists>M1 bus1 ns1. lss_run k env (\<lambda>_ M bus. unit_call (CO_LSSmaster_switchStateSelect env M bus dt (Some a))) () (M, bus, ns) =
      Some (if \<exists>n \<in> set ns. lsv_lssAddress (fst n) = a then CO_LSSmaster_OK else CO_LSSmaster_TIMEOUT, (), M1, bus1, ns1) \<and>
    map node_view ns1 = map (select_view a) ns \<and> lsm_command M1 = CO_LSSmaster_COMMAND_WAITING \<and>
    lsm_state M1 = (if \<exists>n \<in> set ns. lsv_lssAddress (fst n) = a then CO_LSSmaster_STATE_CFG_SLECTIVE else CO_LSSmaster_STATE_WAITING)"
proof -
  let ?call = "\<lambda>M bus. unit_call (CO_LSSmaster_switchStateSelect env M bus dt (Some a))"
  obtain j where k: "k = Suc (Suc j)" using assms(5) by (metis add_2_eq_Suc le_Suc_ex)
  obtain M1 bus1 ns1 ack where r: "lss_round env ?call (M, bus, ns) = Some (CO_LSSmaster_WAIT_SLAVE, (), M1, bus1, ns1)"
    "map node_view ns1 = map (select_view a) ns" "\<forall>n \<in> set ns1. node_ok n" "ack \<longleftrightarrow> (\<exists>n \<in> set ns. lsv_lssAddress (fst n) = a)"
    "lsm_state M1 = CO_LSSmaster_STATE_CFG_SLECTIVE" "lsm_command M1 = CO_LSSmaster_COMMAND_SWITCH_STATE" "lsm_timeoutTimer M1 = 0"
    "lsm_timeout_us M1 \<le> dt" "lsm_CANrxNew M1 = ack" "ack \<longrightarrow> lsm_CANrxData M1 ! 0 = CO_LSS_SWITCH_STATE_SEL"
    by (rule select_round [OF assms(1-4)])
  obtain M2 where f: "?call M1 bus1 = Some (if ack then CO_LSSmaster_OK else CO_LSSmaster_TIMEOUT, M2, bus1, ())"
    "lsm_state M2 = (if ack then CO_LSSmaster_STATE_CFG_SLECTIVE else CO_LSSmaster_STATE_WAITING)"
    "lsm_command M2 = CO_LSSmaster_COMMAND_WAITING"
    by (rule select_finishes [OF r(5-10)])
  have "lss_round env ?call (M1, bus1, ns1) = Some (if ack then CO_LSSmaster_OK else CO_LSSmaster_TIMEOUT, (), M2, bus1, ns1)"
    using f(1) nodes_step_nothing [OF r(3)] by (simp add: lss_round_def new_frames_extends [OF extends_refl] master_receive_def)
  with r(1) have "lss_run k env (\<lambda>_. ?call) () (M, bus, ns) = Some (if ack then CO_LSSmaster_OK else CO_LSSmaster_TIMEOUT, (), M2, bus1, ns1)"
    by (simp add: k)
  then show ?thesis using r(2) f(2,3) unfolding r(4) [symmetric] by blast
qed

theorem lss_select_exact_witness:
  "\<exists>M1 bus1 ns1. lss_run 2 (example_env 0) (\<lambda>_ M bus. unit_call (CO_LSSmaster_switchStateSelect (example_env 0) M bus 100000 (Some [1, 1, 1, 1]))) ()
      (example_master, example_bus, example_waiting @ [(example_slave 0xFF [7, 2, 8, 4], example_bus)]) =
      Some (CO_LSSmaster_OK, (), M1, bus1, ns1) \<and>
    map (\<lambda>n. lsv_lssState (fst n)) ns1 = [CO_LSS_STATE_CONFIGURATION, CO_LSS_STATE_WAITING] \<and>
    lsm_state M1 = CO_LSSmaster_STATE_CFG_SLECTIVE"
proof -
  let ?ns = "example_waiting @ [(example_slave 0xFF [7, 2, 8, 4], example_bus)]"
  have ns: "\<forall>n \<in> set ?ns. waiting_node n" "\<exists>n \<in> set ?ns. lsv_lssAddress (fst n) = [1, 1, 1, 1]"
    by (simp_all add: example_waiting_def waiting_node_def node_ok_def example_slave_def example_buf_ok)
  obtain M1 bus1 ns1 where r:
    "lss_run 2 (example_env 0) (\<lambda>_ M bus. unit_call (CO_LSSmaster_switchStateSelect (example_env 0) M bus 100000 (Some [1, 1, 1, 1]))) ()
      (example_master, example_bus, ?ns) = Some (CO_LSSmaster_OK, (), M1, bus1, ns1)"
    "map node_view ns1 = map (select_view [1, 1, 1, 1]) ?ns" "lsm_state M1 = CO_LSSmaster_STATE_CFG_SLECTIVE"
    using lss_select_exact [OF example_writes_ok example_idle ns(1) _ order_refl, of "[1, 1, 1, 1]"] ns(2) by auto
  have "map (\<lambda>n. lsv_lssState (fst n)) ns1 = map fst (map node_view ns1)" by (simp add: node_view_def)
  also have "\<dots> = [CO_LSS_STATE_CONFIGURATION, CO_LSS_STATE_WAITING]"
    unfolding r(2) by (simp add: select_view_def example_waiting_def example_slave_def)
  finally show ?thesis using r(1,3) by (intro exI [of _ M1] exI [of _ bus1] exI [of _ ns1]) simp
qed

subsection \<open>Behaviour outside the protocol\<close>

text \<open>A slave that is already in the configuration state confirms the selection of another slave.\<close>

lemma configured_slave_confirms_other:
  assumes "lsv_lssState S = CO_LSS_STATE_CONFIGURATION" "\<not> lsv_sendResponse S" "lsv_TXbuff S = Some txb" "buf_ok txb bus" "writes_ok env"
  shows "\<exists>S1 bus1. node_step env (select_frames ident x a) (S, bus) = Some (S1, bus1)"
    "\<exists>S1 S2 bus1 i. CO_LSSslave_receive env S bus (frame_msg (ident, 8, lss_select_frame CO_LSS_SWITCH_STATE_SEL_SERIAL v @ [x, 0, 0])) = Some (S1, bus) \<and>
      CO_LSSslave_process env S1 bus = Some (False, S2, bus1) \<and> extends bus [(i, 8, padded [CO_LSS_SWITCH_STATE_SEL])] bus1"
proof -
  define k where "k = (if lsv_pFunctSignalPre S then lsv_signals S + 1 else lsv_signals S)"
  define S1 where "S1 d = S\<lparr>lsv_CANdata := take 8 d, lsv_service := d ! 0, lsv_sendResponse := True, lsv_signals := k\<rparr>" for d
  have rcv: "CO_LSSslave_receive env S bus (frame_msg (ident, 8, d)) = Some (S1 d, bus)" if "d ! 0 \<noteq> CO_LSS_SWITCH_STATE_GLOBAL" for d
    using assms(1,2) that by (simp add: CO_LSSslave_receive_def frame_msg_def S1_def k_def)
  have skip: "CO_LSSslave_receive env (S1 d) bus m = Some (S1 d, bus)" for d m
    by (simp add: CO_LSSslave_receive_def S1_def Let_def)
  have tx: "lsv_TXbuff (S1 d) = Some txb" for d using assms(3) by (simp add: S1_def)
  have "node_receive env (select_frames ident x a) (S, bus) = Some (S1 (lss_select_frame CO_LSS_SWITCH_STATE_SEL_VENDOR (a ! 0) @ [x, 0, 0]), bus)"
    by (simp add: select_frames_def rcv skip lss_codes)
  then show "\<exists>S1 bus1. node_step env (select_frames ident x a) (S, bus) = Some (S1, bus1)"
    by (simp add: node_step_def CO_LSSslave_process_def tx Let_def split: prod.splits)
  let ?d = "lss_select_frame CO_LSS_SWITCH_STATE_SEL_SERIAL v @ [x, 0, 0]"
  have "lss_service (S1 ?d) = (False, Some [CO_LSS_SWITCH_STATE_SEL], S1 ?d)"
    by (simp add: lss_service_def Let_def S1_def lss_codes)
  then have "\<exists>S2 bus1 i. CO_LSSslave_process env (S1 ?d) bus = Some (False, S2, bus1) \<and> extends bus [(i, 8, padded [CO_LSS_SWITCH_STATE_SEL])] bus1"
    using send_answer [OF assms(4,5), of "[CO_LSS_SWITCH_STATE_SEL]"] tx by (simp add: CO_LSSslave_process_def S1_def)
  moreover have "CO_LSSslave_receive env S bus (frame_msg (ident, 8, ?d)) = Some (S1 ?d, bus)" by (rule rcv) (simp add: lss_codes)
  ultimately show "\<exists>S1 S2 bus1 i. CO_LSSslave_receive env S bus (frame_msg (ident, 8, ?d)) = Some (S1, bus) \<and>
      CO_LSSslave_process env S1 bus = Some (False, S2, bus1) \<and> extends bus [(i, 8, padded [CO_LSS_SWITCH_STATE_SEL])] bus1" by blast
qed

text \<open>A call in the wrong state cancels the request of another function that is under way.\<close>

lemma refused_call_cancels:
  assumes "lsm_command M \<noteq> CO_LSSmaster_COMMAND_WAITING"
  shows "lsm_command M \<noteq> CO_LSSmaster_COMMAND_SWITCH_STATE \<Longrightarrow> CO_LSSmaster_switchStateSelect env M bus dt a =
      Some (CO_LSSmaster_INVALID_STATE, M\<lparr>lsm_state := CO_LSSmaster_STATE_WAITING, lsm_command := CO_LSSmaster_COMMAND_WAITING\<rparr>, bus)"
    "lsm_command M \<noteq> CO_LSSmaster_COMMAND_INQUIRE \<Longrightarrow> CO_LSSmaster_Inquire env M bus dt cs v =
      Some (CO_LSSmaster_INVALID_STATE, M\<lparr>lsm_command := CO_LSSmaster_COMMAND_WAITING\<rparr>, bus, v)"
  using assms by (simp_all add: CO_LSSmaster_switchStateSelect_def CO_LSSmaster_Inquire_def lss_finished_def)

text \<open>Byte 5 of the selection messages is not cleared: it holds what the buffer held before.\<close>

lemma select_sends_stale_byte:
  assumes "lsm_TXbuff M = Some txb" "buf_ok txb bus" "writes_ok env"
  shows "\<exists>M1 bus1 fs. CO_LSSmaster_switchStateSelectInitiate env M bus (Some a) = Some (CO_LSSmaster_WAIT_SLAVE, M1, bus1) \<and>
    new_frames bus bus1 = fs \<and> length fs = 4 \<and> (\<forall>f \<in> set fs. snd (snd f) ! 5 = tx_data (bus_buf bus txb) ! 5)"
proof -
  obtain bus1 ident x where s: "CO_LSSmaster_switchStateSelectInitiate env M bus (Some a) = Some (CO_LSSmaster_WAIT_SLAVE,
       M\<lparr>lsm_state := CO_LSSmaster_STATE_CFG_SLECTIVE, lsm_command := CO_LSSmaster_COMMAND_SWITCH_STATE, lsm_timeoutTimer := 0,
         lsm_CANrxNew := False\<rparr>, bus1)"
    "buf_ok txb bus1" "extends bus (select_frames ident x a) bus1" "x = tx_data (bus_buf bus txb) ! 5"
    by (rule select_sent [OF assms])
  have "(lss_select_frame cs v @ [x, 0, 0]) ! 5 = x" for cs v by (simp add: nth_append)
  then show ?thesis using s by (auto simp: new_frames_extends [OF s(3)] select_frames_def)
qed

end
