(* ===== verification/LSS_Safety.thy ===== *)
theory LSS_Safety
  imports LSS_Net
begin

section \<open>Safety of the LSS slave\<close>

text \<open>
  Whatever messages arrive and in whatever order reception and processing alternate: the slave never writes through a
  null pointer, its fields keep their ranges and the node-ID it would use after a reset is always a valid one.
\<close>

datatype lss_event = Lss_receive CO_CANrxMsg_t | Lss_process

inductive lss_slave_step :: "can_env \<Rightarrow> lss_node \<Rightarrow> lss_event \<Rightarrow> lss_node option \<Rightarrow> bool" for env where
  receive: "8 \<le> length (rxm_data msg) \<Longrightarrow> lss_slave_step env (S, bus) (Lss_receive msg) (CO_LSSslave_receive env S bus msg)"
| process: "lss_slave_step env (S, bus) Lss_process (map_option snd (CO_LSSslave_process env S bus))"

inductive lss_slave_runs :: "can_env \<Rightarrow> lss_node \<Rightarrow> lss_node option \<Rightarrow> bool" for env where
  start: "lss_slave_runs env n (Some n)"
| step: "lss_slave_runs env n (Some m) \<Longrightarrow> lss_slave_step env m ev r \<Longrightarrow> lss_slave_runs env n r"

definition lss_slave_inv :: "CO_LSSslave_t \<Rightarrow> bool" where
  "lss_slave_inv S \<longleftrightarrow> CO_LSS_NODE_ID_VALID (lsv_pendingNodeID S) \<and> CO_LSS_NODE_ID_VALID (lsv_activeNodeID S) \<and>
     lsv_fastscanPos S \<le> 3 \<and> length (lsv_lssSelect S) = 4 \<and> length (lsv_CANdata S) = 8 \<and> lsv_TXbuff S \<noteq> None"

definition same_identity :: "CO_LSSslave_t \<Rightarrow> CO_LSSslave_t \<Rightarrow> bool" where
  "same_identity S S1 \<longleftrightarrow> lsv_lssAddress S1 = lsv_lssAddress S \<and> lsv_activeNodeID S1 = lsv_activeNodeID S"

lemma inv_switch_global:
  assumes "lss_slave_inv S" "lss_switch_global data S = (req, S1)"
  shows "lss_slave_inv S1 \<and> same_identity S S1"
  using assms by (auto simp: lss_slave_inv_def same_identity_def lss_switch_global_def Let_def split: if_splits)

lemma inv_fastscan:
  assumes "lss_slave_inv S" "lss_fastscan_ack data S = (ack, S1)"
  shows "lss_slave_inv S1 \<and> same_identity S S1"
  using assms by (auto simp: lss_slave_inv_def same_identity_def lss_fastscan_ack_def Let_def CO_LSS_FASTSCAN_VENDOR_ID_def
      CO_LSS_FASTSCAN_LSS_SUB_NEXT_VALID_def CO_LSS_FASTSCAN_SERIAL_def split: if_splits)

lemma inv_select: "lss_slave_inv S \<Longrightarrow> lss_slave_inv (lss_select i data S) \<and> same_identity S (lss_select i data S)"
  by (simp add: lss_slave_inv_def same_identity_def lss_select_def)

lemma inv_waiting:
  assumes "lss_slave_inv S"
  obtains req S1 bus1 where "lss_waiting env data S bus = Some (req, S1, bus1)" "lss_slave_inv S1" "same_identity S S1"
proof -
  obtain ack S2 where a: "lss_fastscan_ack data S = (ack, S2)" by (rule prod.exhaust)
  note f = inv_fastscan [OF assms a]
  then obtain txb where "lsv_TXbuff S2 = Some txb" by (auto simp: lss_slave_inv_def)
  then have "\<exists>req S1 bus1. lss_waiting env data S bus = Some (req, S1, bus1) \<and> lss_slave_inv S1 \<and> same_identity S S1"
    using a f inv_select [OF assms] assms
    by (auto simp: lss_waiting_def Let_def lss_slave_inv_def same_identity_def)
  then show ?thesis using that by blast
qed

lemma inv_receive:
  assumes "lss_slave_inv S" "8 \<le> length (rxm_data msg)"
  obtains S1 bus1 where "CO_LSSslave_receive env S bus msg = Some (S1, bus1)" "lss_slave_inv S1" "same_identity S S1"
proof -
  let ?d = "rxm_data msg"
  obtain req S2 where g: "lss_switch_global ?d S = (req, S2)" by (rule prod.exhaust)
  obtain req' S3 bus3 where w: "lss_waiting env ?d S bus = Some (req', S3, bus3)" "lss_slave_inv S3" "same_identity S S3"
    by (rule inv_waiting [OF assms(1)])
  have "\<exists>S1 bus1. CO_LSSslave_receive env S bus msg = Some (S1, bus1) \<and> lss_slave_inv S1 \<and> same_identity S S1"
    using g w inv_switch_global [OF assms(1) g] assms
    by (auto simp: CO_LSSslave_receive_def Let_def lss_slave_inv_def same_identity_def)
  then show ?thesis using that by blast
qed

lemma inv_service:
  assumes "lss_slave_inv S" "lss_service S = (reset, answer, S1)"
  shows "lss_slave_inv S1 \<and> same_identity S S1"
  using assms by (auto simp: lss_service_def Let_def lss_cfg_node_id_def lss_cfg_bit_timing_def lss_cfg_store_def lss_inquire_def
      lss_activate_def lss_slave_inv_def same_identity_def split: if_splits option.splits)

lemma inv_process:
  assumes "lss_slave_inv S"
  obtains reset S1 bus1 where "CO_LSSslave_process env S bus = Some (reset, S1, bus1)" "lss_slave_inv S1" "same_identity S S1"
proof -
  obtain reset answer S2 where s: "lss_service S = (reset, answer, S2)" by (rule prod_cases3)
  obtain txb where "lsv_TXbuff S = Some txb" using assms by (auto simp: lss_slave_inv_def)
  then have "\<exists>reset S1 bus1. CO_LSSslave_process env S bus = Some (reset, S1, bus1) \<and> lss_slave_inv S1 \<and> same_identity S S1"
    using s inv_service [OF assms s] assms by (auto simp: CO_LSSslave_process_def Let_def lss_slave_inv_def same_identity_def)
  then show ?thesis using that by blast
qed

lemma inv_init:
  assumes "CO_LSSslave_init env a br nid bus rxi mid txi sid = (CO_ERROR_NO, Some S, bus1)"
  shows "lss_slave_inv S \<and> lsv_lssAddress S = a \<and> lsv_activeNodeID S = nid"
  using assms by (auto simp: CO_LSSslave_init_def Let_def lss_slave_inv_def CO_LSS_FASTSCAN_VENDOR_ID_def split: prod.splits if_splits)

text \<open>C23: After an initialisation without error, any sequence of received messages and processing steps succeeds without an
  access through a null pointer, and in every state reached the pending and the active node-ID are valid, the position of
  the fastscan is a number of the address, and address and active node-ID are those of the initialisation.\<close>

theorem lss_slave_safe:
  assumes "CO_LSSslave_init env a br nid bus rxi mid txi sid = (CO_ERROR_NO, Some S, bus1)"
    "lss_slave_runs env (S, bus1) r"
  shows "\<exists>S2 bus2. r = Some (S2, bus2) \<and> CO_LSS_NODE_ID_VALID (lsv_pendingNodeID S2) \<and> lsv_fastscanPos S2 \<le> 3 \<and>
    length (lsv_lssSelect S2) = 4 \<and> length (lsv_CANdata S2) = 8 \<and> lsv_lssAddress S2 = a \<and> lsv_activeNodeID S2 = nid \<and>
    CO_LSS_NODE_ID_VALID nid"
proof -
  note S = inv_init [OF assms(1)]
  from assms(2) have "\<exists>S2 bus2. r = Some (S2, bus2) \<and> lss_slave_inv S2 \<and> lsv_lssAddress S2 = a \<and> lsv_activeNodeID S2 = nid"
  proof (induction "(S, bus1)" r rule: lss_slave_runs.induct)
    case start
    then show ?case using S by blast
  next
    case (step m ev r)
    then obtain S2 bus2 where m: "m = (S2, bus2)" "lss_slave_inv S2" "lsv_lssAddress S2 = a" "lsv_activeNodeID S2 = nid" by auto
    from step(3) show ?case
    proof (cases rule: lss_slave_step.cases)
      case (receive msg S' bus')
      obtain S1 b1 where "CO_LSSslave_receive env S2 bus2 msg = Some (S1, b1)" "lss_slave_inv S1" "same_identity S2 S1"
        by (rule inv_receive [OF m(2) receive(4)])
      then show ?thesis using receive m by (auto simp: same_identity_def)
    next
      case (process S' bus')
      obtain reset S1 b1 where "CO_LSSslave_process env S2 bus2 = Some (reset, S1, b1)" "lss_slave_inv S1" "same_identity S2 S1"
        by (rule inv_process [OF m(2)])
      then show ?thesis using process m by (auto simp: same_identity_def)
    qed
  qed
  then show ?thesis by (auto simp: lss_slave_inv_def)
qed

theorem lss_slave_safe_witness:
  "\<exists>S bus1 S2 bus2. CO_LSSslave_init (example_env 0) [7, 2, 8, 4] 125 0xFF example_bus 0 0x7E5 0 0x7E4 = (CO_ERROR_NO, Some S, bus1) \<and>
     map_option snd (CO_LSSslave_process (example_env 0) S bus1) = Some (S2, bus2) \<and> lsv_activeNodeID S2 = 0xFF"
proof -
  obtain S bus1 where i: "CO_LSSslave_init (example_env 0) [7, 2, 8, 4] 125 0xFF example_bus 0 0x7E5 0 0x7E4 = (CO_ERROR_NO, Some S, bus1)"
    by (simp add: CO_LSSslave_init_def CO_LSS_NODE_ID_VALID_def CO_LSS_NODE_ID_ASSIGNMENT_def CO_CANrxBufferInit_def CO_CANtxBufferInit_def
        example_bus_def Let_def can_ioctl_def example_env_def)
  have "lss_slave_runs (example_env 0) (S, bus1) (map_option snd (CO_LSSslave_process (example_env 0) S bus1))"
    by (rule lss_slave_runs.step [OF lss_slave_runs.start lss_slave_step.process])
  with lss_slave_safe [OF i this] i show ?thesis by blast
qed

end
