(* ===== verification/PDO_Receive.thy ===== *)
theory PDO_Receive
  imports PDO_Map
begin

section \<open>Reception of PDOs\<close>

text \<open>
  What \<^verbatim>\<open>CO_RPDO_process\<close> writes: the bytes of one whole message, also when messages arrive while it copies; and how the two
  receive buffers separate the messages before and after a SYNC.
\<close>

subsection \<open>Writing through the pointers\<close>

definition ptr_addr :: "pdo_ptr \<Rightarrow> nat option" where
  "ptr_addr p = (case p of (PB_od (OAddr a), k) \<Rightarrow> Some (a + k) | _ \<Rightarrow> None)"

definition ptr_writable :: "nat \<Rightarrow> pdo_ptr \<Rightarrow> bool" where
  "ptr_writable n p \<longleftrightarrow> (case p of (PB_od (OAddr a), k) \<Rightarrow> a + k < n | (PB_dummyRX, k) \<Rightarrow> k < 4 | _ \<Rightarrow> False)"

lemma pdo_write_ok:
  "ptr_writable (length mem) p \<Longrightarrow> pdo_write mem p b = Some (case ptr_addr p of Some a \<Rightarrow> mem[a := b] | None \<Rightarrow> mem)"
  by (auto simp: ptr_writable_def pdo_write_def ptr_addr_def split: prod.splits pdo_base.splits od_ptr.splits)

lemma pdo_scatter_append: "pdo_scatter mem (xs @ ys) = Option.bind (pdo_scatter mem xs) (\<lambda>m. pdo_scatter m ys)"
  by (induction xs arbitrary: mem) (auto split: bind_splits)

lemma pdo_scatter_total:
  assumes "\<forall>p \<in> fst ` set xs. ptr_writable (length mem) p"
  shows "\<exists>mem'. pdo_scatter mem xs = Some mem' \<and> length mem' = length mem \<and>
    (\<forall>a. Some a \<notin> ptr_addr ` fst ` set xs \<longrightarrow> mem' ! a = mem ! a)"
  using assms
proof (induction xs arbitrary: mem)
  case (Cons x xs)
  obtain p b where x: "x = (p, b)" by fastforce
  define m where "m = (case ptr_addr p of Some a \<Rightarrow> mem[a := b] | None \<Rightarrow> mem)"
  have w: "pdo_write mem p b = Some m" using Cons.prems by (simp add: x pdo_write_ok m_def)
  have m: "length m = length mem" "Some a \<noteq> ptr_addr p \<Longrightarrow> m ! a = mem ! a" for a by (auto simp: m_def split: option.splits)
  have "\<forall>q \<in> fst ` set xs. ptr_writable (length m) q" using Cons.prems m(1) by simp
  from Cons.IH [OF this] show ?case using m by (auto simp: x w)
qed simp

lemma pdo_scatter_absorb:
  assumes "length m = length mem" "\<forall>p \<in> fst ` set ys. ptr_writable (length mem) p"
    and "\<forall>a < length mem. m ! a \<noteq> mem ! a \<longrightarrow> Some a \<in> ptr_addr ` fst ` set ys"
  shows "pdo_scatter m ys = pdo_scatter mem ys"
  using assms
proof (induction ys arbitrary: m mem)
  case Nil
  then show ?case by (auto intro: nth_equalityI)
next
  case (Cons y ys)
  obtain p b where y: "y = (p, b)" by fastforce
  let ?w = "\<lambda>m. case ptr_addr p of Some a \<Rightarrow> m[a := b] | None \<Rightarrow> m"
  have "pdo_scatter (?w m) ys = pdo_scatter (?w mem) ys"
  proof (rule Cons.IH)
    show "length (?w m) = length (?w mem)" using Cons.prems(1) by (simp split: option.splits)
    show "\<forall>q \<in> fst ` set ys. ptr_writable (length (?w mem)) q" using Cons.prems(2) by (simp split: option.splits)
    show "\<forall>a < length (?w mem). ?w m ! a \<noteq> ?w mem ! a \<longrightarrow> Some a \<in> ptr_addr ` fst ` set ys"
    proof (intro allI impI)
      fix a assume a: "a < length (?w mem)" "?w m ! a \<noteq> ?w mem ! a"
      have l: "a < length m" "a < length mem" using a(1) Cons.prems(1) by (simp_all split: option.splits)
      have "ptr_addr p \<noteq> Some a" using a(2) l by auto
      moreover from this have "m ! a \<noteq> mem ! a" using a(2) by (auto split: option.splits)
      ultimately show "Some a \<in> ptr_addr ` fst ` set ys" using Cons.prems(3) l(2) by (auto simp: y)
    qed
  qed
  then show ?case using Cons.prems(1,2) by (simp add: y pdo_write_ok)
qed

lemma pdo_scatter_value:
  assumes "pdo_scatter mem (zip ps bs) = Some mem'" "length bs = length ps" "\<forall>p \<in> set ps. ptr_writable (length mem) p"
    and "distinct (filter (\<lambda>a. a \<noteq> None) (map ptr_addr ps))" "i < length ps" "ptr_addr (ps ! i) = Some a"
  shows "mem' ! a = bs ! i"
  using assms
proof (induction ps arbitrary: mem bs i)
  case (Cons p ps)
  obtain b bs' where bs: "bs = b # bs'" using Cons.prems(2) by (cases bs) auto
  let ?m = "case ptr_addr p of Some a \<Rightarrow> mem[a := b] | None \<Rightarrow> mem"
  have w: "pdo_scatter ?m (zip ps bs') = Some mem'" "length ?m = length mem"
    using Cons.prems(1,3) by (simp_all add: bs pdo_write_ok split: option.splits)
  show ?case
  proof (cases i)
    case 0
    then have pa: "ptr_addr p = Some a" using Cons.prems(6) by simp
    then have "Some a \<notin> ptr_addr ` set ps" using Cons.prems(4) by auto
    moreover have "a < length mem"
      using pa Cons.prems(3) by (auto simp: ptr_addr_def ptr_writable_def split: prod.splits pdo_base.splits od_ptr.splits)
    moreover have f: "fst ` set (zip ps bs') = set ps" using Cons.prems(2) by (simp add: bs flip: set_map)
    moreover have "\<forall>q \<in> fst ` set (zip ps bs'). ptr_writable (length ?m) q" using Cons.prems(3) f w(2) by simp
    ultimately show ?thesis using pdo_scatter_total [of "zip ps bs'" ?m] w(1) by (simp add: 0 bs pa)
  next
    case (Suc j)
    then show ?thesis using Cons.IH [OF w(1), of j] Cons.prems w(2) by (auto simp: bs split: if_splits)
  qed
qed simp

subsection \<open>A message arrives while another is copied\<close>

definition rpdo_wf :: "CO_RPDO_t \<Rightarrow> bool" where
  "rpdo_wf R \<longleftrightarrow> length (rp_CANrxNew R) = 2 \<and> length (rp_CANrxData R) = 2 \<and> (\<forall>d \<in> set (rp_CANrxData R). length d = 8) \<and>
     length (rp_mapPointer R) = 8 \<and> unat (rp_dataLength R) \<le> 8"

definition rpdo_ptrs :: "CO_RPDO_t \<Rightarrow> pdo_ptr list" where
  "rpdo_ptrs R = take (unat (rp_dataLength R)) (rp_mapPointer R)"

definition rpdo_store :: "CO_RPDO_t \<Rightarrow> u8 list \<Rightarrow> u8 list \<Rightarrow> u8 list option" where
  \<comment> \<open>the variables after the bytes of a message were written to them\<close>
  "rpdo_store R mem data = pdo_scatter mem (zip (rpdo_ptrs R) (take (unat (rp_dataLength R)) data))"

definition rpdo_same :: "CO_RPDO_t \<Rightarrow> CO_RPDO_t \<Rightarrow> bool" where
  "rpdo_same R R' \<longleftrightarrow> rp_valid R' = rp_valid R \<and> rp_synchronous R' = rp_synchronous R \<and> rp_dataLength R' = rp_dataLength R \<and>
     rp_mapPointer R' = rp_mapPointer R"

definition rpdo_accepts :: "CO_RPDO_t \<Rightarrow> CO_CANrxMsg_t \<Rightarrow> bool" where
  "rpdo_accepts R msg \<longleftrightarrow> rp_dataLength R \<le> rxm_DLC msg \<and> length (rxm_data msg) = 8"

lemma rpdo_rx_index_less [simp]: "rpdo_rx_index SYNC R < 2"
  by (simp add: rpdo_rx_index_def split: option.splits)

lemma rpdo_same_refl [simp]: "rpdo_same R R" by (simp add: rpdo_same_def)

lemma rpdo_same_trans: "rpdo_same R R1 \<Longrightarrow> rpdo_same R1 R2 \<Longrightarrow> rpdo_same R R2" by (simp add: rpdo_same_def)

lemma rpdo_same_store: "rpdo_same R R' \<Longrightarrow> rpdo_store R' mem data = rpdo_store R mem data" "rpdo_same R R' \<Longrightarrow> rpdo_ptrs R' = rpdo_ptrs R"
  by (simp_all add: rpdo_same_def rpdo_store_def rpdo_ptrs_def)

lemma rpdo_same_index:
  "rpdo_same R R' \<Longrightarrow> rpdo_rx_index SYNC R' = rpdo_rx_index SYNC R" "rpdo_same R R' \<Longrightarrow> rpdo_bufNo SYNC R' = rpdo_bufNo SYNC R"
  by (auto simp: rpdo_same_def rpdo_rx_index_def rpdo_bufNo_def split: option.splits)

lemma CO_PDO_receive_same [simp]: "rpdo_same R (CO_PDO_receive st SYNC R msg)"
  by (simp add: CO_PDO_receive_def rpdo_same_def Let_def)

lemma CO_PDO_receive_wf:
  assumes "rpdo_wf R" "length (rxm_data msg) = 8"
  shows "rpdo_wf (CO_PDO_receive st SYNC R msg)"
  using assms by (auto simp: CO_PDO_receive_def rpdo_wf_def Let_def dest!: set_update_subset_insert [THEN subsetD])

lemma CO_PDO_receive_effect:
  assumes "rpdo_wf R" "length (rxm_data msg) = 8"
  shows "CO_PDO_receive st SYNC R msg =
    (if rp_valid R \<and> st = CO_NMT_OPERATIONAL \<and> rp_dataLength R \<le> rxm_DLC msg
     then R\<lparr>rp_CANrxData := (rp_CANrxData R)[rpdo_rx_index SYNC R := rxm_data msg],
            rp_CANrxNew := (rp_CANrxNew R)[rpdo_rx_index SYNC R := True],
            rp_signals := (if rp_pFunctSignalPre R then rp_signals R + 1 else rp_signals R)\<rparr>
     else R)"
  using assms by (simp add: CO_PDO_receive_def Let_def)

lemma rpdo_round_all:
  assumes "rpdo_wf R" "bufNo < 2"
  shows "rpdo_round bufNo R 0 (unat (rp_dataLength R)) mem = rpdo_store R mem (rp_CANrxData R ! bufNo)"
proof -
  have "length (rp_CANrxData R ! bufNo) = 8" using assms by (simp add: rpdo_wf_def)
  then show ?thesis using assms by (simp add: rpdo_round_def rpdo_store_def rpdo_ptrs_def rpdo_wf_def)
qed

lemma rpdo_round_part:
  assumes "rpdo_wf R" "bufNo < 2" "i \<le> j" "j \<le> unat (rp_dataLength R)" "\<forall>p \<in> set (rpdo_ptrs R). ptr_writable (length mem) p"
  shows "\<exists>mem'. rpdo_round bufNo R i j mem = Some mem' \<and> length mem' = length mem \<and>
    (\<forall>a. Some a \<notin> ptr_addr ` set (rpdo_ptrs R) \<longrightarrow> mem' ! a = mem ! a)"
proof -
  let ?xs = "zip (drop i (take j (rp_mapPointer R))) (drop i (take j (rp_CANrxData R ! bufNo)))"
  have len: "length (rp_CANrxData R ! bufNo) = 8" using assms by (simp add: rpdo_wf_def)
  have "set (drop i (take j (rp_mapPointer R))) \<subseteq> set (rpdo_ptrs R)"
    unfolding rpdo_ptrs_def by (rule subset_trans [OF set_drop_subset set_take_subset_set_take [OF assms(4)]])
  then have sub: "fst ` set ?xs \<subseteq> set (rpdo_ptrs R)" by (auto dest: set_zip_leftD)
  then have "\<forall>p \<in> fst ` set ?xs. ptr_writable (length mem) p" using assms(5) by blast
  from pdo_scatter_total [OF this] obtain mem' where m: "pdo_scatter mem ?xs = Some mem'" "length mem' = length mem"
    "\<forall>a. Some a \<notin> ptr_addr ` fst ` set ?xs \<longrightarrow> mem' ! a = mem ! a" by blast
  have "rpdo_round bufNo R i j mem = Some mem'"
    using m(1) len assms(1,4) by (simp add: rpdo_round_def rpdo_wf_def)
  then show ?thesis using m(2,3) sub by (intro exI [of _ mem']) blast
qed

lemma rpdo_round_join:
  assumes "rpdo_wf R" "bufNo < 2" "i \<le> unat (rp_dataLength R)" "rpdo_round bufNo R 0 i mem = Some mem1"
  shows "rpdo_round bufNo R i (unat (rp_dataLength R)) mem1 = rpdo_store R mem (rp_CANrxData R ! bufNo)"
proof -
  define n where "n = unat (rp_dataLength R)"
  define ps where "ps = take n (rp_mapPointer R)"
  define ds where "ds = take n (rp_CANrxData R ! bufNo)"
  have l: "length ps = n" "length ds = n" "i \<le> n" "length (rp_CANrxData R ! bufNo) = 8" "n \<le> 8" "length (rp_mapPointer R) = 8"
    using assms(1-3) by (simp_all add: ps_def ds_def n_def rpdo_wf_def)
  have "zip ps ds = zip (take i ps) (take i ds) @ zip (drop i ps) (drop i ds)"
    using l(1,2) by (simp add: zip_append [symmetric] take_zip [symmetric] drop_zip [symmetric])
  moreover have "pdo_scatter mem (zip (take i ps) (take i ds)) = Some mem1"
    using assms(4) l by (simp add: rpdo_round_def ps_def ds_def min_absorb1)
  ultimately show ?thesis using l unfolding rpdo_store_def rpdo_ptrs_def n_def [symmetric] ps_def [symmetric] ds_def [symmetric]
    by (simp add: pdo_scatter_append rpdo_round_def ps_def ds_def)
qed

lemma rpdo_copy_whole:
  assumes "rpdo_wf R" "bufNo < 2" "rp_CANrxNew R ! bufNo" "\<forall>p \<in> set (rpdo_ptrs R). ptr_writable (length mem) p"
    and "\<forall>(k, msg) \<in> set arrivals. length (rxm_data msg) = 8"
  shows "\<exists>R' mem'. rpdo_copy SYNC bufNo R mem update arrivals = Some (R', mem', True) \<and> rpdo_wf R' \<and> rpdo_same R R' \<and>
    \<not> rp_CANrxNew R' ! bufNo \<and> rpdo_store R mem (rp_CANrxData R' ! bufNo) = Some mem' \<and>
    rp_CANrxData R' ! bufNo \<in> insert (rp_CANrxData R ! bufNo) ((\<lambda>(k, msg). rxm_data msg) ` set arrivals) \<and>
    (rpdo_rx_index SYNC R \<noteq> bufNo \<longrightarrow> rp_CANrxData R' ! bufNo = rp_CANrxData R ! bufNo) \<and>
    (rpdo_rx_index SYNC R = bufNo \<and> rp_valid R \<and> arrivals \<noteq> [] \<and> (\<forall>(k, msg) \<in> set arrivals. rpdo_accepts R msg) \<longrightarrow>
       rp_CANrxData R' ! bufNo = rxm_data (snd (last arrivals)))"
  using assms
proof (induction arrivals arbitrary: R mem update)
  case Nil
  let ?R = "R\<lparr>rp_CANrxNew := (rp_CANrxNew R)[bufNo := False]\<rparr>"
  have same: "rpdo_wf ?R" "rpdo_same R ?R" "\<not> rp_CANrxNew ?R ! bufNo"
    using Nil.prems(1,2) by (simp_all add: rpdo_wf_def rpdo_same_def)
  have "\<forall>p \<in> fst ` set (zip (rpdo_ptrs R) d). ptr_writable (length mem) p" for d :: "u8 list"
    using Nil.prems(4) by (auto dest: set_zip_leftD)
  then obtain mem' where m: "rpdo_store R mem (rp_CANrxData R ! bufNo) = Some mem'"
    using pdo_scatter_total unfolding rpdo_store_def by blast
  have "rpdo_round bufNo ?R 0 (unat (rp_dataLength R)) mem = Some mem'"
    using rpdo_round_all [OF same(1) Nil.prems(2), of mem] m rpdo_same_store(1) [OF same(2)] by simp
  then have "rpdo_copy SYNC bufNo R mem update [] = Some (?R, mem', True)" using Nil.prems(3) by (simp add: rpdo_copy.simps Let_def)
  then show ?case using same m by (intro exI [of _ ?R] exI [of _ mem']) simp
next
  case (Cons x rest)
  obtain k msg where x: "x = (k, msg)" by fastforce
  have d: "length (rxm_data msg) = 8" "\<forall>(k, msg) \<in> set rest. length (rxm_data msg) = 8" using Cons.prems(5) by (auto simp: x)
  define R1 where "R1 = R\<lparr>rp_CANrxNew := (rp_CANrxNew R)[bufNo := False]\<rparr>"
  define R2 where "R2 = CO_PDO_receive CO_NMT_OPERATIONAL SYNC R1 msg"
  define i where "i = min k (unat (rp_dataLength R))"
  have R1: "rpdo_wf R1" "rpdo_same R R1" "\<not> rp_CANrxNew R1 ! bufNo" "rp_CANrxData R1 = rp_CANrxData R"
    using Cons.prems(1,2) by (simp_all add: R1_def rpdo_wf_def rpdo_same_def)
  have R2: "rpdo_wf R2" "rpdo_same R1 R2" "rpdo_same R R2"
    using CO_PDO_receive_wf [OF R1(1) d(1)] rpdo_same_trans [OF R1(2)] by (simp_all add: R2_def)
  note idx = rpdo_same_index(1) [OF R1(2), of SYNC] and idx2 = rpdo_same_index(1) [OF R2(3), of SYNC]
  have n: "rp_dataLength R1 = rp_dataLength R" "rp_dataLength R2 = rp_dataLength R" using R1(2) R2(3) by (simp_all add: rpdo_same_def)
  have i: "i \<le> unat (rp_dataLength R1)" "i \<le> unat (rp_dataLength R2)" by (simp_all add: i_def n)
  obtain mem1 where m1: "rpdo_round bufNo R1 0 i mem = Some mem1" "length mem1 = length mem"
    "\<forall>a. Some a \<notin> ptr_addr ` set (rpdo_ptrs R) \<longrightarrow> mem1 ! a = mem ! a"
    using rpdo_round_part [OF R1(1) Cons.prems(2) _ i(1), of 0 mem] Cons.prems(4) rpdo_same_store(2) [OF R1(2)] by auto
  obtain mem2 where m2: "rpdo_round bufNo R2 i (unat (rp_dataLength R)) mem1 = Some mem2" "length mem2 = length mem1"
    "\<forall>a. Some a \<notin> ptr_addr ` set (rpdo_ptrs R) \<longrightarrow> mem2 ! a = mem1 ! a"
    using rpdo_round_part [OF R2(1) Cons.prems(2) i(2), of mem1] Cons.prems(4) rpdo_same_store(2) [OF R2(3)] m1(2) n by auto
  have step: "rpdo_copy SYNC bufNo R mem update (x # rest) = rpdo_copy SYNC bufNo R2 mem2 True rest"
    using Cons.prems(3) m1(1) m2(1)
    by (subst rpdo_copy.simps) (simp add: x Let_def R1_def [symmetric] R2_def [symmetric] i_def [symmetric])
  show ?case
  proof (cases "rp_CANrxNew R2 ! bufNo")
    case True
    have "\<forall>p \<in> set (rpdo_ptrs R2). ptr_writable (length mem2) p"
      using Cons.prems(4) rpdo_same_store(2) [OF R2(3)] m1(2) m2(2) by simp
    from Cons.IH [OF R2(1) Cons.prems(2) True this d(2), of True]
    obtain R' mem' where r: "rpdo_copy SYNC bufNo R2 mem2 True rest = Some (R', mem', True)" "rpdo_wf R'" "rpdo_same R2 R'"
      "\<not> rp_CANrxNew R' ! bufNo" "rpdo_store R2 mem2 (rp_CANrxData R' ! bufNo) = Some mem'"
      "rp_CANrxData R' ! bufNo \<in> insert (rp_CANrxData R2 ! bufNo) ((\<lambda>(k, msg). rxm_data msg) ` set rest)"
      "rpdo_rx_index SYNC R = bufNo \<and> rp_valid R2 \<and> rest \<noteq> [] \<and> (\<forall>(k, msg) \<in> set rest. rpdo_accepts R2 msg) \<longrightarrow>
         rp_CANrxData R' ! bufNo = rxm_data (snd (last rest))"
      unfolding idx2 by blast
    have eq: "rpdo_rx_index SYNC R = bufNo"
    proof (rule ccontr)
      assume "rpdo_rx_index SYNC R \<noteq> bufNo"
      then have "rp_CANrxNew R2 ! bufNo = rp_CANrxNew R1 ! bufNo"
        using CO_PDO_receive_effect [OF R1(1) d(1), of CO_NMT_OPERATIONAL SYNC] by (simp add: R2_def idx)
      then show False using True R1(3) by simp
    qed
    let ?ys = "zip (rpdo_ptrs R) (take (unat (rp_dataLength R)) (rp_CANrxData R' ! bufNo))"
    have "length (rp_CANrxData R' ! bufNo) = 8" using r(2) Cons.prems(2) by (simp add: rpdo_wf_def)
    then have f: "fst ` set ?ys = set (rpdo_ptrs R)"
      using Cons.prems(1) by (simp add: rpdo_ptrs_def rpdo_wf_def flip: set_map)
    have "pdo_scatter mem2 ?ys = pdo_scatter mem ?ys"
    proof (rule pdo_scatter_absorb)
      show "length mem2 = length mem" using m1(2) m2(2) by simp
      show "\<forall>p \<in> fst ` set ?ys. ptr_writable (length mem) p" unfolding f by (rule Cons.prems(4))
      show "\<forall>a < length mem. mem2 ! a \<noteq> mem ! a \<longrightarrow> Some a \<in> ptr_addr ` fst ` set ?ys" unfolding f using m1(3) m2(3) by metis
    qed
    then have "rpdo_store R mem (rp_CANrxData R' ! bufNo) = Some mem'"
      using r(5) rpdo_same_store(1) [OF R2(3)] by (simp add: rpdo_store_def)
    moreover have new: "rp_CANrxData R2 ! bufNo = rxm_data msg"
      using True R1(3) CO_PDO_receive_effect [OF R1(1) d(1), of CO_NMT_OPERATIONAL SYNC] R1(1) Cons.prems(2)
      by (auto simp: R2_def R1(4) rpdo_wf_def idx eq split: if_splits)
    moreover have "rp_CANrxData R' ! bufNo = rxm_data (snd (last (x # rest)))"
      if "rp_valid R" "\<forall>(k, msg) \<in> set (x # rest). rpdo_accepts R msg"
    proof (cases "rest = []")
      case True
      then show ?thesis using r(6) new by (simp add: x)
    next
      case False
      have "rp_valid R2" "\<forall>(k, msg) \<in> set rest. rpdo_accepts R2 msg"
        using that R2(3) by (auto simp: rpdo_same_def rpdo_accepts_def)
      then show ?thesis using r(7) eq False by simp
    qed
    ultimately show ?thesis unfolding step using r(1,2,4,6) rpdo_same_trans [OF R2(3) r(3)] eq
      by (intro exI [of _ R'] exI [of _ mem']) (auto simp: x)
  next
    case False
    have data: "rp_CANrxData R2 ! bufNo = rp_CANrxData R ! bufNo"
      using False CO_PDO_receive_effect [OF R1(1) d(1), of CO_NMT_OPERATIONAL SYNC] R1(1) Cons.prems(2)
      by (cases "rpdo_rx_index SYNC R1 = bufNo") (auto simp: R2_def R1(4) rpdo_wf_def split: if_splits)
    have "rpdo_round bufNo R2 0 i mem = Some mem1"
      using m1(1) data R2(2) by (simp add: rpdo_round_def rpdo_same_def R1(4) split: if_splits)
    from rpdo_round_join [OF R2(1) Cons.prems(2) i(2) this] have "rpdo_store R mem (rp_CANrxData R2 ! bufNo) = Some mem2"
      using m2(1) rpdo_same_store(1) [OF R2(3)] by (simp add: n)
    moreover have "rpdo_copy SYNC bufNo R2 mem2 True rest = Some (R2, mem2, True)" using False by (simp add: rpdo_copy.simps)
    moreover have "\<not> rpdo_accepts R msg" if "rpdo_rx_index SYNC R = bufNo" "rp_valid R"
      using False that CO_PDO_receive_effect [OF R1(1) d(1), of CO_NMT_OPERATIONAL SYNC] R1(1,2) Cons.prems(2)
      by (auto simp: R2_def rpdo_wf_def idx rpdo_accepts_def rpdo_same_def split: if_splits)
    ultimately show ?thesis unfolding step using R2 False data by (intro exI [of _ R2] exI [of _ mem2]) (auto simp: x)
  qed
qed

lemma rpdo_index_bufNo: "rpdo_rx_index SYNC R = rpdo_bufNo SYNC R \<longleftrightarrow> \<not> (SYNC \<noteq> None \<and> rp_synchronous R)"
  by (auto simp: rpdo_rx_index_def rpdo_bufNo_def split: option.splits)

lemma rpdo_bufNo_less [simp]: "rpdo_bufNo SYNC R < 2"
  by (simp add: rpdo_bufNo_def split: option.splits)

text \<open>
  C6: \<^verbatim>\<open>CO_RPDO_process\<close> on a valid RPDO with a new message, in the operational state (after a SYNC when the RPDO is synchronous),
  while any number of further messages arrive in the middle of its copy loop: the mapped variables get the bytes of one whole
  message and never a mixture of two. That is the last message that arrived, or for a synchronous RPDO, whose new
  messages go to the other buffer, the one that was there at the start. The buffer has no new message afterwards, and the
  functions registered on the mapped objects are called once, after the copy.
\<close>

theorem rpdo_whole_message:
  assumes "rpdo_wf R" "rp_valid R" "rp_synchronous R \<longrightarrow> syncWas" "rp_CANrxNew R ! rpdo_bufNo SYNC R"
    and "\<forall>p \<in> set (rpdo_ptrs R). ptr_writable (length (wd_mem W)) p" "\<forall>(k, msg) \<in> set arrivals. rpdo_accepts R msg"
  defines "data \<equiv> (if arrivals = [] \<or> SYNC \<noteq> None \<and> rp_synchronous R then rp_CANrxData R ! rpdo_bufNo SYNC R
                    else rxm_data (snd (last arrivals)))"
  shows "\<exists>R' mem'. CO_RPDO_process odf dict CO_NMT_OPERATIONAL SYNC mp R W syncWas arrivals =
      map_option (\<lambda>W2. (R', W2)) (pdo_extensions odf dict False mp (W\<lparr>wd_mem := mem'\<rparr>)) \<and>
    rpdo_store R (wd_mem W) data = Some mem' \<and> \<not> rp_CANrxNew R' ! rpdo_bufNo SYNC R \<and> rpdo_wf R' \<and> rpdo_same R R'"
proof -
  have "\<forall>(k, msg) \<in> set arrivals. length (rxm_data msg) = 8" using assms(6) by (auto simp: rpdo_accepts_def)
  from rpdo_copy_whole [OF assms(1) rpdo_bufNo_less assms(4,5) this, of SYNC False]
  obtain R' mem' where c: "rpdo_copy SYNC (rpdo_bufNo SYNC R) R (wd_mem W) False arrivals = Some (R', mem', True)"
    "rpdo_wf R'" "rpdo_same R R'" "\<not> rp_CANrxNew R' ! rpdo_bufNo SYNC R"
    "rpdo_store R (wd_mem W) (rp_CANrxData R' ! rpdo_bufNo SYNC R) = Some mem'"
    and d: "rp_CANrxData R' ! rpdo_bufNo SYNC R \<in> insert (rp_CANrxData R ! rpdo_bufNo SYNC R) ((\<lambda>(k, msg). rxm_data msg) ` set arrivals)"
      "rpdo_rx_index SYNC R \<noteq> rpdo_bufNo SYNC R \<longrightarrow> rp_CANrxData R' ! rpdo_bufNo SYNC R = rp_CANrxData R ! rpdo_bufNo SYNC R"
      "rpdo_rx_index SYNC R = rpdo_bufNo SYNC R \<and> rp_valid R \<and> arrivals \<noteq> [] \<and> (\<forall>(k, msg) \<in> set arrivals. rpdo_accepts R msg) \<longrightarrow>
         rp_CANrxData R' ! rpdo_bufNo SYNC R = rxm_data (snd (last arrivals))"
    by blast
  have "rp_CANrxData R' ! rpdo_bufNo SYNC R = data"
    using d assms(2,6) by (auto simp: data_def rpdo_index_bufNo)
  then show ?thesis using assms(2,3) c
    by (intro exI [of _ R'] exI [of _ mem']) (auto simp: CO_RPDO_process_def)
qed

subsection \<open>Objects without functions\<close>

definition no_functions :: "CO_SDO_OD \<Rightarrow> CO_PDOMapPar_t \<Rightarrow> bool" where
  \<comment> \<open>no function is registered on a mapped object\<close>
  "no_functions dict mp \<longleftrightarrow> unat (mp_numberOfMappedObjects mp) \<le> length (mp_mappedObjects mp) \<and>
     list_all (\<lambda>mo. case entry_of dict (ucast (drop_bit 16 mo)) of None \<Rightarrow> True | Some i \<Rightarrow> ext_pODFunc (sdo_ODExtensions dict ! i) = None)
       (take (unat (mp_numberOfMappedObjects mp)) (mp_mappedObjects mp))"

lemma pdo_ext_call_none:
  assumes "od_inv dict" "case entry_of dict (ucast (drop_bit 16 mo)) of None \<Rightarrow> True | Some i \<Rightarrow> ext_pODFunc (sdo_ODExtensions dict ! i) = None"
  shows "pdo_ext_call odf dict reading mo W = Some W"
proof (cases "entry_of dict (ucast (drop_bit 16 mo))")
  case None
  then show ?thesis by (simp add: pdo_ext_call_def Let_def CO_OD_find_entry_of [OF assms(1)])
next
  case (Some i)
  have "i < length (sdo_ODExtensions dict)" using entry_of_Some(1) [OF Some] assms(1) by (simp add: od_inv_def)
  then show ?thesis using Some assms(2) by (simp add: pdo_ext_call_def Let_def CO_OD_find_entry_of [OF assms(1)] nth_opt_def)
qed

lemma pdo_ext_calls_none:
  assumes "od_inv dict" "n \<le> length mos"
    and "list_all (\<lambda>mo. case entry_of dict (ucast (drop_bit 16 mo)) of None \<Rightarrow> True | Some i \<Rightarrow> ext_pODFunc (sdo_ODExtensions dict ! i) = None)
      (take n mos)"
  shows "pdo_ext_calls odf dict reading n mos W = Some W"
  using assms(2,3)
proof (induction n arbitrary: mos)
  case (Suc n)
  then show ?case by (cases mos) (simp_all add: pdo_ext_call_none [OF assms(1)])
qed simp

lemma pdo_extensions_none: "od_inv dict \<Longrightarrow> no_functions dict mp \<Longrightarrow> pdo_extensions odf dict reading mp W = Some W"
  by (simp add: pdo_extensions_def no_functions_def pdo_ext_calls_none)

lemma rpdo_store_total:
  assumes "rpdo_wf R" "\<forall>p \<in> set (rpdo_ptrs R). ptr_writable (length mem) p"
  shows "\<exists>mem'. rpdo_store R mem data = Some mem' \<and> length mem' = length mem"
proof -
  have "\<forall>p \<in> fst ` set (zip (rpdo_ptrs R) (take (unat (rp_dataLength R)) data)). ptr_writable (length mem) p"
    using assms(2) by (auto dest: set_zip_leftD)
  from pdo_scatter_total [OF this] show ?thesis unfolding rpdo_store_def by blast
qed

lemma rpdo_process_single:
  assumes "rpdo_wf R" "rp_valid R" "rp_synchronous R \<longrightarrow> syncWas" "rp_CANrxNew R ! rpdo_bufNo SYNC R"
    and "od_inv dict" "no_functions dict mp"
    and "rpdo_store R (wd_mem W) (rp_CANrxData R ! rpdo_bufNo SYNC R) = Some mem'"
  shows "CO_RPDO_process odf dict CO_NMT_OPERATIONAL SYNC mp R W syncWas [] =
    Some (R\<lparr>rp_CANrxNew := (rp_CANrxNew R)[rpdo_bufNo SYNC R := False]\<rparr>, W\<lparr>wd_mem := mem'\<rparr>)"
proof -
  let ?R = "R\<lparr>rp_CANrxNew := (rp_CANrxNew R)[rpdo_bufNo SYNC R := False]\<rparr>"
  have "rpdo_wf ?R" "rpdo_same R ?R" using assms(1) by (simp_all add: rpdo_wf_def rpdo_same_def)
  then have "rpdo_round (rpdo_bufNo SYNC R) ?R 0 (unat (rp_dataLength R)) (wd_mem W) = Some mem'"
    using rpdo_round_all [of ?R "rpdo_bufNo SYNC R" "wd_mem W"] assms(7) rpdo_same_store(1) [of R ?R] by simp
  then have "rpdo_copy SYNC (rpdo_bufNo SYNC R) R (wd_mem W) False [] = Some (?R, mem', True)"
    using assms(4) by (simp add: rpdo_copy.simps Let_def)
  then show ?thesis using assms(2,3) by (auto simp: CO_RPDO_process_def pdo_extensions_none [OF assms(5,6)])
qed

subsection \<open>Messages before and after a SYNC\<close>

definition sync_accepted :: "CO_SYNC_t \<Rightarrow> CO_CANrxMsg_t \<Rightarrow> bool" where
  "sync_accepted S msg \<longleftrightarrow> rxm_DLC msg = (if syn_counterOverflowValue S = 0 then 0 else 1)"

lemma sync_accepted_toggle:
  assumes "sync_accepted S msg"
  shows "syn_CANrxToggle (CO_SYNC_receive CO_NMT_OPERATIONAL S msg) = (\<not> syn_CANrxToggle S)"
    "syn_counterOverflowValue (CO_SYNC_receive CO_NMT_OPERATIONAL S msg) = syn_counterOverflowValue S"
  using assms by (auto simp: sync_accepted_def CO_SYNC_receive_def nmt_pre_or_operational_def Let_def)

lemma rpdo_index_toggle:
  assumes "rp_synchronous R" "syn_CANrxToggle S' = (\<not> syn_CANrxToggle S)"
  shows "rpdo_bufNo (Some S') R = rpdo_rx_index (Some S) R" "rpdo_rx_index (Some S') R \<noteq> rpdo_rx_index (Some S) R"
  using assms by (auto simp: rpdo_bufNo_def rpdo_rx_index_def)

lemma CO_PDO_receive_buffers:
  assumes "rpdo_wf R" "rp_valid R" "rpdo_accepts R msg"
    and R': "R' = CO_PDO_receive CO_NMT_OPERATIONAL SYNC R msg"
  shows "rp_CANrxData R' ! rpdo_rx_index SYNC R = rxm_data msg" "rp_CANrxNew R' ! rpdo_rx_index SYNC R"
    "i \<noteq> rpdo_rx_index SYNC R \<Longrightarrow> rp_CANrxData R' ! i = rp_CANrxData R ! i"
    "i \<noteq> rpdo_rx_index SYNC R \<Longrightarrow> rp_CANrxNew R' ! i = rp_CANrxNew R ! i"
    "rpdo_wf R'" "rpdo_same R R'"
proof -
  have d: "length (rxm_data msg) = 8" "rp_dataLength R \<le> rxm_DLC msg" using assms(3) by (simp_all add: rpdo_accepts_def)
  show "rpdo_wf R'" "rpdo_same R R'" using CO_PDO_receive_wf [OF assms(1) d(1)] by (simp_all add: R')
  show "rp_CANrxData R' ! rpdo_rx_index SYNC R = rxm_data msg" "rp_CANrxNew R' ! rpdo_rx_index SYNC R"
    "i \<noteq> rpdo_rx_index SYNC R \<Longrightarrow> rp_CANrxData R' ! i = rp_CANrxData R ! i"
    "i \<noteq> rpdo_rx_index SYNC R \<Longrightarrow> rp_CANrxNew R' ! i = rp_CANrxNew R ! i"
    using assms(1,2) d CO_PDO_receive_effect [OF assms(1) d(1), of CO_NMT_OPERATIONAL SYNC] by (simp_all add: R' rpdo_wf_def)
qed

text \<open>
  C13: a synchronous RPDO, with the messages \<^verbatim>\<open>m1\<close> before and \<^verbatim>\<open>m2\<close> after a SYNC message: until \<^verbatim>\<open>CO_RPDO_process\<close> is told of
  the SYNC nothing is written; then the variables get the bytes of \<^verbatim>\<open>m1\<close>, although \<^verbatim>\<open>m2\<close> has already arrived; and after the next
  SYNC they get the bytes of \<^verbatim>\<open>m2\<close>. The SYNC messages go through \<^verbatim>\<open>CO_SYNC_receive\<close>, whose toggle selects the buffers.
\<close>

theorem rpdo_sync_window:
  assumes "rpdo_wf R" "rp_valid R" "rp_synchronous R" "\<forall>p \<in> set (rpdo_ptrs R). ptr_writable (length (wd_mem W)) p"
    and "od_inv dict" "no_functions dict mp" "rpdo_accepts R m1" "rpdo_accepts R m2" "sync_accepted S s1" "sync_accepted S s2"
  defines "R1 \<equiv> CO_PDO_receive CO_NMT_OPERATIONAL (Some S) R m1" and "S1 \<equiv> CO_SYNC_receive CO_NMT_OPERATIONAL S s1"
  defines "R2 \<equiv> CO_PDO_receive CO_NMT_OPERATIONAL (Some S1) R1 m2" and "S2 \<equiv> CO_SYNC_receive CO_NMT_OPERATIONAL S1 s2"
  shows "CO_RPDO_process odf dict CO_NMT_OPERATIONAL (Some S1) mp R2 W False [] = Some (R2, W) \<and>
    (\<exists>R3 mem3 R4 mem4.
      CO_RPDO_process odf dict CO_NMT_OPERATIONAL (Some S1) mp R2 W True [] = Some (R3, W\<lparr>wd_mem := mem3\<rparr>) \<and>
      rpdo_store R (wd_mem W) (rxm_data m1) = Some mem3 \<and>
      CO_RPDO_process odf dict CO_NMT_OPERATIONAL (Some S2) mp R3 (W\<lparr>wd_mem := mem3\<rparr>) True [] = Some (R4, W\<lparr>wd_mem := mem4\<rparr>) \<and>
      rpdo_store R mem3 (rxm_data m2) = Some mem4)"
proof -
  let ?i = "rpdo_rx_index (Some S) R" and ?j = "rpdo_rx_index (Some S1) R"
  have t1: "syn_CANrxToggle S1 = (\<not> syn_CANrxToggle S)" and t2: "syn_CANrxToggle S2 = (\<not> syn_CANrxToggle S1)"
    using sync_accepted_toggle [OF assms(9)] sync_accepted_toggle(1) [of S1 s2] assms(10) by (simp_all add: S1_def S2_def sync_accepted_def)
  note b1 = CO_PDO_receive_buffers [OF assms(1,2,7) R1_def [THEN meta_eq_to_obj_eq]]
  have "rp_valid R1" "rpdo_accepts R1 m2" using b1(6) assms(2,8) by (simp_all add: rpdo_same_def rpdo_accepts_def)
  note b2 = CO_PDO_receive_buffers [OF b1(5) this R2_def [THEN meta_eq_to_obj_eq], unfolded rpdo_same_index(1) [OF b1(6)]]
  have same2: "rpdo_same R R2" using rpdo_same_trans [OF b1(6) b2(6)] .
  have ij: "?j \<noteq> ?i" using rpdo_index_toggle(2) [OF assms(3) t1] .
  have d: "rp_CANrxData R2 ! ?i = rxm_data m1" "rp_CANrxNew R2 ! ?i" "rp_CANrxData R2 ! ?j = rxm_data m2" "rp_CANrxNew R2 ! ?j"
    using b1 b2 ij by auto
  have v: "rp_valid R2" "rp_synchronous R2" using same2 assms(2,3) by (simp_all add: rpdo_same_def)
  have buf1: "rpdo_bufNo (Some S1) R2 = ?i"
    using rpdo_index_toggle(1) [OF assms(3) t1] rpdo_same_index(2) [OF same2] by simp
  obtain mem3 where m3: "rpdo_store R (wd_mem W) (rxm_data m1) = Some mem3" "length mem3 = length (wd_mem W)"
    using rpdo_store_total [OF assms(1,4)] by blast
  obtain mem4 where m4: "rpdo_store R mem3 (rxm_data m2) = Some mem4"
    using rpdo_store_total [OF assms(1), of mem3] assms(4) m3(2) by auto
  define R3 where "R3 = R2\<lparr>rp_CANrxNew := (rp_CANrxNew R2)[?i := False]\<rparr>"
  have p1: "CO_RPDO_process odf dict CO_NMT_OPERATIONAL (Some S1) mp R2 W True [] = Some (R3, W\<lparr>wd_mem := mem3\<rparr>)"
    using rpdo_process_single [OF b2(5) v(1) _ _ assms(5,6), of True "Some S1" W mem3 odf] d m3(1) rpdo_same_store(1) [OF same2]
    by (simp add: buf1 R3_def)
  have same3: "rpdo_same R R3" "rpdo_wf R3" using same2 b2(5) by (simp_all add: R3_def rpdo_same_def rpdo_wf_def)
  have v3: "rp_valid R3" "rp_CANrxData R3 ! ?j = rxm_data m2" "rp_CANrxNew R3 ! ?j" using v d ij by (simp_all add: R3_def)
  have buf2: "rpdo_bufNo (Some S2) R3 = ?j"
    using rpdo_index_toggle(1) [OF assms(3) t2] rpdo_same_index(2) [OF same3(1)] by simp
  have "CO_RPDO_process odf dict CO_NMT_OPERATIONAL (Some S2) mp R3 (W\<lparr>wd_mem := mem3\<rparr>) True [] =
      Some (R3\<lparr>rp_CANrxNew := (rp_CANrxNew R3)[?j := False]\<rparr>, W\<lparr>wd_mem := mem4\<rparr>)"
    using rpdo_process_single [OF same3(2) v3(1) _ _ assms(5,6), of True "Some S2" "W\<lparr>wd_mem := mem3\<rparr>" mem4 odf] v3 m4
      rpdo_same_store(1) [OF same3(1)] by (simp add: buf2)
  moreover have "CO_RPDO_process odf dict CO_NMT_OPERATIONAL (Some S1) mp R2 W False [] = Some (R2, W)"
    using v by (simp add: CO_RPDO_process_def)
  ultimately show ?thesis using p1 m3(1) m4 by blast
qed

subsection \<open>Examples\<close>

definition example_active_rpdo :: "bool \<Rightarrow> CO_RPDO_t" where
  "example_active_rpdo sync = example_rpdo\<lparr>rp_valid := True, rp_synchronous := sync, rp_dataLength := 2,
     rp_mapPointer := (PB_od (OAddr 4), 0) # (PB_od (OAddr 4), 1) # replicate 6 (PB_dummyRX, 0)\<rparr>"

definition example_pdo_world :: "unit od_world" where
  "example_pdo_world = \<lparr>wd_mem = [10, 11, 12, 13, 14, 15], wd_bus = example_bus, wd_app = ()\<rparr>"

definition example_pdo_msg :: "u8 \<Rightarrow> CO_CANrxMsg_t" where
  "example_pdo_msg b = \<lparr>rxm_ident = 0x201, rxm_DLC = 2, rxm_data = [b, b + 1, 0, 0, 0, 0, 0, 0]\<rparr>"

definition no_odf :: "unit odf_call" where "no_odf f arg W = None"

lemma example_no_functions: "no_functions example_pdo_dict example_pdo_map"
proof -
  have w: "ucast (drop_bit 16 (0x21000010 :: u32)) = (0x2100 :: u16)" "ucast (drop_bit 16 (0x20000020 :: u32)) = (0x2000 :: u16)"
    by simp_all
  have t: "take (unat (mp_numberOfMappedObjects example_pdo_map)) (mp_mappedObjects example_pdo_map) = [0x21000010, 0x20000020]"
    by (simp add: example_pdo_map_def)
  have "ext_pODFunc (sdo_ODExtensions example_pdo_dict ! 0) = None" "ext_pODFunc (sdo_ODExtensions example_pdo_dict ! 1) = None"
    by (simp_all add: example_pdo_dict_def no_ext_def)
  then show ?thesis unfolding no_functions_def t list.pred_inject w example_entry_of by (simp add: example_pdo_map_def)
qed

lemma example_active_rpdo_wf: "rpdo_wf (example_active_rpdo sync)"
  by (auto simp: rpdo_wf_def example_active_rpdo_def example_rpdo_def)

lemma example_active_ptrs: "rpdo_ptrs (example_active_rpdo sync) = [(PB_od (OAddr 4), 0), (PB_od (OAddr 4), 1)]"
  by (simp add: rpdo_ptrs_def example_active_rpdo_def example_rpdo_def)

text \<open>While the bytes 1, 2 are copied, a message with 7, 8 arrives after the first byte.\<close>

theorem rpdo_whole_message_witness:
  "\<exists>R' W'. CO_RPDO_process no_odf example_pdo_dict CO_NMT_OPERATIONAL None example_pdo_map
      ((example_active_rpdo False)\<lparr>rp_CANrxNew := [True, False], rp_CANrxData := [[1, 2, 0, 0, 0, 0, 0, 0], replicate 8 0]\<rparr>)
      example_pdo_world False [(1, example_pdo_msg 7)] = Some (R', W') \<and> wd_mem W' = [10, 11, 12, 13, 7, 8]"
proof -
  let ?R = "(example_active_rpdo False)\<lparr>rp_CANrxNew := [True, False], rp_CANrxData := [[1, 2, 0, 0, 0, 0, 0, 0], replicate 8 0]\<rparr>"
  have n: "rp_dataLength ?R = 2" "rp_valid ?R" "\<not> rp_synchronous ?R" by (simp_all add: example_active_rpdo_def)
  have p: "rpdo_ptrs ?R = [(PB_od (OAddr 4), 0), (PB_od (OAddr 4), 1)]"
    using example_active_ptrs [of False] by (simp add: rpdo_ptrs_def)
  have "rpdo_wf ?R" using example_active_rpdo_wf [of False] by (simp add: rpdo_wf_def)
  moreover have "rp_CANrxNew ?R ! rpdo_bufNo None ?R" by (simp add: rpdo_bufNo_def)
  moreover have "\<forall>q \<in> set (rpdo_ptrs ?R). ptr_writable (length (wd_mem example_pdo_world)) q"
    unfolding p by (simp add: ptr_writable_def example_pdo_world_def)
  moreover have "\<forall>(k, msg) \<in> set [(1 :: nat, example_pdo_msg 7)]. rpdo_accepts ?R msg"
    by (simp add: rpdo_accepts_def n example_pdo_msg_def)
  ultimately obtain R' mem' where r: "CO_RPDO_process no_odf example_pdo_dict CO_NMT_OPERATIONAL None example_pdo_map ?R
      example_pdo_world False [(1, example_pdo_msg 7)] =
      map_option (\<lambda>W2. (R', W2)) (pdo_extensions no_odf example_pdo_dict False example_pdo_map (example_pdo_world\<lparr>wd_mem := mem'\<rparr>))"
    "rpdo_store ?R (wd_mem example_pdo_world) (rxm_data (example_pdo_msg 7)) = Some mem'"
    using rpdo_whole_message [of ?R False None example_pdo_world "[(1, example_pdo_msg 7)]" no_odf example_pdo_dict example_pdo_map]
      n by auto
  have "mem' = [10, 11, 12, 13, 7, 8]"
    using r(2) unfolding rpdo_store_def p n by (simp add: example_pdo_world_def pdo_write_def example_pdo_msg_def)
  then show ?thesis using r(1) by (simp add: pdo_extensions_none [OF example_pdo_dict_inv example_no_functions])
qed

definition example_sync_msg :: CO_CANrxMsg_t where
  "example_sync_msg = \<lparr>rxm_ident = 0x80, rxm_DLC = 0, rxm_data = replicate 8 0\<rparr>"

theorem rpdo_sync_window_witness:
  "\<exists>S S1 S2 R2 R3 R4.
     R2 = CO_PDO_receive CO_NMT_OPERATIONAL (Some S1)
            (CO_PDO_receive CO_NMT_OPERATIONAL (Some S) (example_active_rpdo True) (example_pdo_msg 1)) (example_pdo_msg 7) \<and>
     CO_RPDO_process no_odf example_pdo_dict CO_NMT_OPERATIONAL (Some S1) example_pdo_map R2 example_pdo_world True [] =
       Some (R3, example_pdo_world\<lparr>wd_mem := [10, 11, 12, 13, 1, 2]\<rparr>) \<and>
     CO_RPDO_process no_odf example_pdo_dict CO_NMT_OPERATIONAL (Some S2) example_pdo_map R3
       (example_pdo_world\<lparr>wd_mem := [10, 11, 12, 13, 1, 2]\<rparr>) True [] =
       Some (R4, example_pdo_world\<lparr>wd_mem := [10, 11, 12, 13, 7, 8]\<rparr>)"
proof -
  let ?R = "example_active_rpdo True" and ?S = "example_sync\<lparr>syn_counterOverflowValue := 0\<rparr>"
  have n: "rp_valid ?R" "rp_synchronous ?R" "rp_dataLength ?R = 2" by (simp_all add: example_active_rpdo_def)
  have w: "\<forall>q \<in> set (rpdo_ptrs ?R). ptr_writable (length (wd_mem example_pdo_world)) q"
    unfolding example_active_ptrs by (simp add: ptr_writable_def example_pdo_world_def)
  have a: "rpdo_accepts ?R (example_pdo_msg b)" for b by (simp add: rpdo_accepts_def n example_pdo_msg_def)
  have s: "sync_accepted ?S example_sync_msg" by (simp add: sync_accepted_def example_sync_msg_def)
  have st: "rpdo_store ?R mem (rxm_data (example_pdo_msg b)) = Some (mem[4 := b, 5 := b + 1])" if "length mem = 6" for mem b
    using that unfolding rpdo_store_def example_active_ptrs n by (simp add: pdo_write_def example_pdo_msg_def)
  have m: "(wd_mem example_pdo_world)[4 := 1, 5 := 1 + 1] = [10, 11, 12, 13, 1, 2]"
    "[10, 11, 12, 13, 1, 2 :: u8][4 := 7, 5 := 7 + 1] = [10, 11, 12, 13, 7, 8]" "length (wd_mem example_pdo_world) = 6"
    by (simp_all add: example_pdo_world_def)
  define S1 where "S1 = CO_SYNC_receive CO_NMT_OPERATIONAL ?S example_sync_msg"
  define R2 where "R2 = CO_PDO_receive CO_NMT_OPERATIONAL (Some S1) (CO_PDO_receive CO_NMT_OPERATIONAL (Some ?S) ?R (example_pdo_msg 1)) (example_pdo_msg 7)"
  obtain R3 mem3 R4 mem4 where
    "CO_RPDO_process no_odf example_pdo_dict CO_NMT_OPERATIONAL (Some S1) example_pdo_map R2 example_pdo_world True [] =
       Some (R3, example_pdo_world\<lparr>wd_mem := mem3\<rparr>)"
    "rpdo_store ?R (wd_mem example_pdo_world) (rxm_data (example_pdo_msg 1)) = Some mem3"
    "CO_RPDO_process no_odf example_pdo_dict CO_NMT_OPERATIONAL (Some (CO_SYNC_receive CO_NMT_OPERATIONAL S1 example_sync_msg))
       example_pdo_map R3 (example_pdo_world\<lparr>wd_mem := mem3\<rparr>) True [] = Some (R4, example_pdo_world\<lparr>wd_mem := mem4\<rparr>)"
    "rpdo_store ?R mem3 (rxm_data (example_pdo_msg 7)) = Some mem4"
    using rpdo_sync_window [OF example_active_rpdo_wf n(1,2) w example_pdo_dict_inv example_no_functions a a s s, of no_odf 1 7]
    unfolding S1_def R2_def by blast
  moreover from this have m3: "mem3 = [10, 11, 12, 13, 1, 2]" "mem4 = [10, 11, 12, 13, 7, 8]"
    using st [of "wd_mem example_pdo_world" 1] st [of mem3 7] m by auto
  ultimately show ?thesis unfolding m3 R2_def by blast
qed

end
