(* ===== verification/PDO_Transmit.thy ===== *)
theory PDO_Transmit
  imports PDO_Receive
begin

section \<open>Transmission of PDOs\<close>

text \<open>
  When \<^verbatim>\<open>CO_TPDO_process\<close> sends, for runs of calls: event-driven PDOs against a specification with absolute times, cyclic
  PDOs against the numbers of the SYNC messages.
\<close>

subsection \<open>Sending\<close>

definition tpdo_ptrs :: "CO_TPDO_t \<Rightarrow> pdo_ptr list" where
  "tpdo_ptrs T = take (unat (tp_dataLength T)) (tp_mapPointer T)"

definition tpdo_ok :: "CO_SDO_OD \<Rightarrow> CO_PDOMapPar_t \<Rightarrow> u8 list \<Rightarrow> CO_TPDO_t \<Rightarrow> 'w od_world \<Rightarrow> bool" where
  \<comment> \<open>a configured PDO whose variables have the values \<^verbatim>\<open>vals\<close> and whose transmit buffer is free\<close>
  "tpdo_ok dict mp vals T W \<longleftrightarrow> od_inv dict \<and> no_functions dict mp \<and> tp_valid T \<and>
     unat (tp_dataLength T) \<le> 8 \<and> length (tp_mapPointer T) = 8 \<and> pdo_gather dict (wd_mem W) (tpdo_ptrs T) = Some vals \<and>
     (\<exists>txb. tp_CANtxBuff T = Some txb \<and> txb < length (can_txArray (bus_can (wd_bus W))) \<and> bus_ready (wd_bus W) txb \<and>
        length (tx_data (bus_buf (wd_bus W) txb)) = 8 \<and> tx_DLC (bus_buf (wd_bus W) txb) = tp_dataLength T)"

definition tpdo_ident :: "CO_TPDO_t \<Rightarrow> co_bus \<Rightarrow> u32" where
  "tpdo_ident T bus = tx_ident (bus_buf bus (the (tp_CANtxBuff T)))"

definition tpdo_frame :: "CO_TPDO_t \<Rightarrow> co_bus \<Rightarrow> u8 list \<Rightarrow> can_frame \<Rightarrow> bool" where
  \<comment> \<open>a frame with the identifier, the length and the values of the PDO\<close>
  "tpdo_frame T bus vals f \<longleftrightarrow> fst f = tpdo_ident T bus \<and> fst (snd f) = tp_dataLength T \<and>
     take (length vals) (snd (snd f)) = vals \<and> length (snd (snd f)) = 8"

definition tpdo_buffer :: "CO_TPDO_t \<Rightarrow> co_bus \<Rightarrow> u8 list" where
  \<comment> \<open>the data bytes of the transmit buffer: those of the last frame\<close>
  "tpdo_buffer T bus = tx_data (bus_buf bus (the (tp_CANtxBuff T)))"

lemma pdo_gather_length: "pdo_gather dict mem ps = Some bs \<Longrightarrow> length bs = length ps"
  by (induction ps arbitrary: bs) (auto simp: bind_eq_Some_conv)

lemma CO_TPDOsend_ok:
  assumes "tpdo_ok dict mp vals T W" "writes_ok env"
  shows "\<exists>bus' f. CO_TPDOsend env odf dict mp T W = Some (CO_ERROR_NO, T\<lparr>tp_sendRequest := False\<rparr>, W\<lparr>wd_bus := bus'\<rparr>) \<and>
    extends (wd_bus W) [f] bus' \<and> tpdo_frame T (wd_bus W) vals f \<and> tpdo_ident T bus' = tpdo_ident T (wd_bus W) \<and>
    tpdo_ok dict mp vals T (W\<lparr>wd_bus := bus'\<rparr>) \<and> take (length vals) (tpdo_buffer T bus') = vals"
proof -
  obtain txb where txb: "tp_CANtxBuff T = Some txb" "txb < length (can_txArray (bus_can (wd_bus W)))" "bus_ready (wd_bus W) txb"
    "length (tx_data (bus_buf (wd_bus W) txb)) = 8" "tx_DLC (bus_buf (wd_bus W) txb) = tp_dataLength T"
    and T: "od_inv dict" "no_functions dict mp" "unat (tp_dataLength T) \<le> 8" "length (tp_mapPointer T) = 8"
      "pdo_gather dict (wd_mem W) (tpdo_ptrs T) = Some vals"
    using assms(1) by (auto simp: tpdo_ok_def)
  have lv: "length vals = unat (tp_dataLength T)" using pdo_gather_length [OF T(5)] T(3,4) by (simp add: tpdo_ptrs_def)
  define bus1 where "bus1 = bus_put txb 0 vals (wd_bus W)"
  define bus2 where "bus2 = bus_send env txb bus1"
  have b1: "bus_buf bus1 txb = (bus_buf (wd_bus W) txb)\<lparr>tx_data := vals @ drop (length vals) (tx_data (bus_buf (wd_bus W) txb))\<rparr>"
    using txb lv T(3) by (simp add: bus1_def bus_put_def bus_buf_upd memcpy_at_def)
  have r1: "bus_ready bus1 txb" using txb(2,3) by (simp add: bus1_def bus_put_def bus_ready_def bus_buf_upd)
  note s = bus_send_ready [OF r1 assms(2), folded bus2_def]
  have send: "CO_CANsend env bus1 (Some txb) = (CO_ERROR_NO, bus2)" using s(4) by (simp add: bus2_def bus_send_def prod_eq_iff)
  have len2: "length (can_txArray (bus_can bus2)) = length (can_txArray (bus_can (wd_bus W)))" using s(5) by (simp add: bus1_def bus_put_def)
  let ?f = "tx_frame (bus_buf bus1 txb)"
  have "CO_TPDOsend env odf dict mp T W = Some (CO_ERROR_NO, T\<lparr>tp_sendRequest := False\<rparr>, W\<lparr>wd_bus := bus2\<rparr>)"
    using txb(1,4) T send by (simp add: CO_TPDOsend_def pdo_extensions_none tpdo_ptrs_def [symmetric] bus1_def [symmetric])
  moreover have "extends (wd_bus W) [?f] bus2" using s(3) by (simp add: bus1_def)
  moreover have "tpdo_frame T (wd_bus W) vals ?f" using txb lv T(3) by (simp add: tpdo_frame_def tx_frame_def b1 tpdo_ident_def)
  moreover have "tpdo_ident T bus2 = tpdo_ident T (wd_bus W)" using s(2) by (simp add: tpdo_ident_def txb(1) b1)
  moreover have "tpdo_ok dict mp vals T (W\<lparr>wd_bus := bus2\<rparr>)"
    using assms(1) txb lv T(3) s(1,2) len2 by (simp add: tpdo_ok_def b1)
  moreover have "take (length vals) (tpdo_buffer T bus2) = vals" using s(2) by (simp add: tpdo_buffer_def txb(1) b1)
  ultimately show ?thesis by blast
qed

lemma tpdo_ok_update [simp]:
  "tpdo_ok dict mp vals (T\<lparr>tp_sendRequest := b\<rparr>) W \<longleftrightarrow> tpdo_ok dict mp vals T W"
  "tpdo_ok dict mp vals (T\<lparr>tp_inhibitTimer := i\<rparr>) W \<longleftrightarrow> tpdo_ok dict mp vals T W"
  "tpdo_ok dict mp vals (T\<lparr>tp_eventTimer := i\<rparr>) W \<longleftrightarrow> tpdo_ok dict mp vals T W"
  "tpdo_ok dict mp vals (T\<lparr>tp_syncCounter := c\<rparr>) W \<longleftrightarrow> tpdo_ok dict mp vals T W"
  by (simp_all add: tpdo_ok_def tpdo_ptrs_def)

lemma tpdo_frame_update [simp]:
  "tpdo_ident (T\<lparr>tp_sendRequest := b\<rparr>) = tpdo_ident T" "tpdo_ident (T\<lparr>tp_inhibitTimer := i\<rparr>) = tpdo_ident T"
  "tpdo_ident (T\<lparr>tp_eventTimer := i\<rparr>) = tpdo_ident T" "tpdo_ident (T\<lparr>tp_syncCounter := c\<rparr>) = tpdo_ident T"
  "tpdo_frame (T\<lparr>tp_sendRequest := b\<rparr>) = tpdo_frame T" "tpdo_frame (T\<lparr>tp_inhibitTimer := i\<rparr>) = tpdo_frame T"
  "tpdo_frame (T\<lparr>tp_eventTimer := i\<rparr>) = tpdo_frame T" "tpdo_frame (T\<lparr>tp_syncCounter := c\<rparr>) = tpdo_frame T"
  "tpdo_buffer (T\<lparr>tp_sendRequest := b\<rparr>) = tpdo_buffer T" "tpdo_buffer (T\<lparr>tp_inhibitTimer := i\<rparr>) = tpdo_buffer T"
  "tpdo_buffer (T\<lparr>tp_eventTimer := i\<rparr>) = tpdo_buffer T" "tpdo_buffer (T\<lparr>tp_syncCounter := c\<rparr>) = tpdo_buffer T"
  by (simp_all add: fun_eq_iff tpdo_frame_def tpdo_ident_def tpdo_buffer_def)

lemma unat_count_down: "unat (count_down t dt) = unat t - unat dt"
  by (simp add: count_down_def word_less_nat_alt unat_sub word_le_nat_alt)

subsection \<open>Event-driven PDOs\<close>

text \<open>
  The specification has absolute times in microseconds: \<^verbatim>\<open>di\<close> is the end of the inhibit time, \<^verbatim>\<open>de\<close> the next event. A step of a
  schedule tells whether the application requests the PDO and the time since the step before. \<^verbatim>\<open>tpdo_run\<close> executes a schedule with
  \<^verbatim>\<open>CO_TPDO_process\<close>, from the time \<^verbatim>\<open>t\<close>, and collects the times of the steps in which the device accepted a frame.
\<close>

fun tpdo_times :: "nat \<Rightarrow> nat \<Rightarrow> nat \<Rightarrow> nat \<Rightarrow> bool \<Rightarrow> nat \<Rightarrow> (bool \<times> u32) list \<Rightarrow> nat list" where
  "tpdo_times inh ev di de pending t [] = []"
| "tpdo_times inh ev di de pending t ((req, dt) # xs) =
     (let t1 = t + unat dt; p = pending \<or> req
      in if di \<le> t1 \<and> (p \<or> ev \<noteq> 0 \<and> de \<le> t1) then t1 # tpdo_times inh ev (t1 + inh) (t1 + ev) False t1 xs
         else tpdo_times inh ev di de p t1 xs)"

fun tpdo_run ::
    "can_env \<Rightarrow> 'w odf_call \<Rightarrow> CO_SDO_OD \<Rightarrow> CO_SYNC_t option \<Rightarrow> CO_TPDOCommPar_t \<Rightarrow> CO_PDOMapPar_t \<Rightarrow> CO_TPDO_t \<Rightarrow> 'w od_world \<Rightarrow> nat \<Rightarrow>
     (bool \<times> u32) list \<Rightarrow> (CO_TPDO_t \<times> 'w od_world \<times> nat list) option" where
  "tpdo_run env odf dict SYNC comm mp T W t [] = Some (T, W, [])"
| "tpdo_run env odf dict SYNC comm mp T W t ((req, dt) # xs) = do {
     (T1, W1, _) \<leftarrow> CO_TPDO_process env odf dict CO_NMT_OPERATIONAL SYNC comm mp
                       (if req then T\<lparr>tp_sendRequest := True\<rparr> else T) W False dt None;
     (T2, W2, ts) \<leftarrow> tpdo_run env odf dict SYNC comm mp T1 W1 (t + unat dt) xs;
     Some (T2, W2, replicate (length (new_frames (wd_bus W) (wd_bus W1))) (t + unat dt) @ ts)
   }"

lemma unat_times: "unat (ucast (x :: u16) * 100 :: u32) = unat x * 100" "unat (ucast (x :: u16) * 1000 :: u32) = unat x * 1000"
  using unat_u16_less [of x] by (simp_all add: unat_word_ariths unsigned_ucast_eq take_bit_eq_mod del: unat_u16_less)

lemma tpdo_event_step:
  assumes "tpdo_ok dict mp vals T W" "writes_ok env" "253 \<le> tc_transmissionType comm"
    and "unat (tp_inhibitTimer T) = di - t" "unat (tp_eventTimer T) = de - t" "t \<le> t1" "t1 = t + unat dt"
  defines "send \<equiv> di \<le> t1 \<and> (tp_sendRequest T \<or> tc_eventTimer comm \<noteq> 0 \<and> de \<le> t1)"
  shows "\<exists>T' W' fs. CO_TPDO_process env odf dict CO_NMT_OPERATIONAL SYNC comm mp T W False dt None = Some (T', W', None) \<and>
    extends (wd_bus W) fs (wd_bus W') \<and> length fs = (if send then 1 else 0) \<and> (\<forall>f \<in> set fs. tpdo_frame T (wd_bus W) vals f) \<and>
    tpdo_ok dict mp vals T' W' \<and> tpdo_ident T' (wd_bus W') = tpdo_ident T (wd_bus W) \<and> tp_dataLength T' = tp_dataLength T \<and>
    unat (tp_inhibitTimer T') = (if send then t1 + unat (tc_inhibitTime comm) * 100 else di) - t1 \<and>
    unat (tp_eventTimer T') = (if send then t1 + unat (tc_eventTimer comm) * 1000 else de) - t1 \<and>
    tp_sendRequest T' = (tp_sendRequest T \<and> \<not> send) \<and> tp_sendIfCOSFlags T' = tp_sendIfCOSFlags T \<and> tp_CANtxBuff T' = tp_CANtxBuff T \<and>
    (send \<longrightarrow> take (length vals) (tpdo_buffer T' (wd_bus W')) = vals) \<and> (\<not> send \<longrightarrow> W' = W)"
proof -
  let ?T = "T\<lparr>tp_inhibitTimer := count_down (tp_inhibitTimer T) dt, tp_eventTimer := count_down (tp_eventTimer T) dt\<rparr>"
  have timers: "unat (count_down (tp_inhibitTimer T) dt) = di - t1" "unat (count_down (tp_eventTimer T) dt) = de - t1"
    using assms(4-7) by (simp_all add: unat_count_down)
  have z: "count_down (tp_inhibitTimer T) dt = 0 \<longleftrightarrow> di \<le> t1" "count_down (tp_eventTimer T) dt = 0 \<longleftrightarrow> de \<le> t1"
    using timers by (simp_all add: word_unat_eq_iff)
  have valid: "tp_valid T" using assms(1) by (simp add: tpdo_ok_def)
  have ok: "tpdo_ok dict mp vals ?T W" using assms(1) by simp
  have proc: "CO_TPDO_process env odf dict CO_NMT_OPERATIONAL SYNC comm mp T W False dt None =
      map_option (\<lambda>(T1, W1). (T1, W1, None)) (tpdo_event env odf dict comm mp ?T W)"
    using assms(3) valid by (auto simp: CO_TPDO_process_def Let_def map_option_case split: bind_splits option.splits)
  show ?thesis
  proof (cases send)
    case False
    then have "tpdo_event env odf dict comm mp ?T W = Some (?T, W)" by (auto simp: tpdo_event_def z send_def)
    then show ?thesis using False assms(1) timers unfolding proc
      by (intro exI [of _ ?T] exI [of _ W] exI [of _ "[]"]) simp
  next
    case True
    from CO_TPDOsend_ok [OF ok assms(2), of odf] obtain bus' f where
      s: "CO_TPDOsend env odf dict mp ?T W = Some (CO_ERROR_NO, ?T\<lparr>tp_sendRequest := False\<rparr>, W\<lparr>wd_bus := bus'\<rparr>)"
        "extends (wd_bus W) [f] bus'" "tpdo_frame ?T (wd_bus W) vals f" "tpdo_ident ?T bus' = tpdo_ident ?T (wd_bus W)"
        "tpdo_ok dict mp vals ?T (W\<lparr>wd_bus := bus'\<rparr>)" "take (length vals) (tpdo_buffer ?T bus') = vals" by blast
    let ?T' = "?T\<lparr>tp_sendRequest := False, tp_inhibitTimer := ucast (tc_inhibitTime comm) * 100,
                  tp_eventTimer := ucast (tc_eventTimer comm) * 1000\<rparr>"
    have "tpdo_event env odf dict comm mp ?T W = Some (?T', W\<lparr>wd_bus := bus'\<rparr>)"
      using True s(1) by (simp add: tpdo_event_def z send_def)
    then show ?thesis using True s(2-6) unat_times unfolding proc
      by (intro exI [of _ ?T'] exI [of _ "W\<lparr>wd_bus := bus'\<rparr>"] exI [of _ "[f]"]) simp
  qed
qed

lemma tpdo_run_times:
  assumes "tpdo_ok dict mp vals T W" "writes_ok env" "253 \<le> tc_transmissionType comm"
    and "unat (tp_inhibitTimer T) = di - t" "unat (tp_eventTimer T) = de - t"
  shows "\<exists>T' W' fs. tpdo_run env odf dict SYNC comm mp T W t xs = Some (T', W',
      tpdo_times (unat (tc_inhibitTime comm) * 100) (unat (tc_eventTimer comm) * 1000) di de (tp_sendRequest T) t xs) \<and>
    extends (wd_bus W) fs (wd_bus W') \<and> (\<forall>f \<in> set fs. tpdo_frame T (wd_bus W) vals f) \<and>
    length fs = length (tpdo_times (unat (tc_inhibitTime comm) * 100) (unat (tc_eventTimer comm) * 1000) di de (tp_sendRequest T) t xs)"
  using assms(1,4,5)
proof (induction xs arbitrary: T W t di de)
  case Nil
  then show ?case by (intro exI [of _ T] exI [of _ W] exI [of _ "[]"]) simp
next
  case (Cons x xs)
  obtain req dt where x: "x = (req, dt)" by fastforce
  let ?inh = "unat (tc_inhibitTime comm) * 100" and ?ev = "unat (tc_eventTimer comm) * 1000"
  define T0 where "T0 = (if req then T\<lparr>tp_sendRequest := True\<rparr> else T)"
  define t1 where "t1 = t + unat dt"
  define send where "send = (di \<le> t1 \<and> (tp_sendRequest T0 \<or> tc_eventTimer comm \<noteq> 0 \<and> de \<le> t1))"
  have T0: "tpdo_ok dict mp vals T0 W" "tpdo_frame T0 = tpdo_frame T" "tpdo_ident T0 = tpdo_ident T"
    "unat (tp_inhibitTimer T0) = di - t" "unat (tp_eventTimer T0) = de - t" "tp_sendRequest T0 = (tp_sendRequest T \<or> req)"
    "tp_dataLength T0 = tp_dataLength T"
    using Cons.prems by (simp_all add: T0_def)
  have tt: "t \<le> t1" "t1 = t + unat dt" by (simp_all add: t1_def)
  obtain T1 W1 fs where p: "CO_TPDO_process env odf dict CO_NMT_OPERATIONAL SYNC comm mp T0 W False dt None = Some (T1, W1, None)"
      "extends (wd_bus W) fs (wd_bus W1)" "length fs = (if send then 1 else 0)" "\<forall>f \<in> set fs. tpdo_frame T (wd_bus W) vals f"
      "tpdo_ok dict mp vals T1 W1" "tpdo_ident T1 (wd_bus W1) = tpdo_ident T (wd_bus W)" "tp_dataLength T1 = tp_dataLength T"
      "unat (tp_inhibitTimer T1) = (if send then t1 + ?inh else di) - t1" "unat (tp_eventTimer T1) = (if send then t1 + ?ev else de) - t1"
      "tp_sendRequest T1 = (tp_sendRequest T0 \<and> \<not> send)"
    using tpdo_event_step [OF T0(1) assms(2,3) T0(4,5) tt, of odf SYNC, folded send_def, unfolded T0(2,3,7)] by blast
  obtain T2 W2 gs where r: "tpdo_run env odf dict SYNC comm mp T1 W1 t1 xs = Some (T2, W2,
        tpdo_times ?inh ?ev (if send then t1 + ?inh else di) (if send then t1 + ?ev else de) (tp_sendRequest T1) t1 xs)"
      "extends (wd_bus W1) gs (wd_bus W2)" "\<forall>f \<in> set gs. tpdo_frame T1 (wd_bus W1) vals f"
      "length gs = length (tpdo_times ?inh ?ev (if send then t1 + ?inh else di) (if send then t1 + ?ev else de) (tp_sendRequest T1) t1 xs)"
    using Cons.IH [OF p(5,8,9)] by blast
  have frames: "tpdo_frame T1 (wd_bus W1) vals f \<longleftrightarrow> tpdo_frame T (wd_bus W) vals f" for f
    using p(6,7) by (simp add: tpdo_frame_def)
  have times: "tpdo_times ?inh ?ev di de (tp_sendRequest T) t (x # xs) = replicate (length fs) t1 @
      tpdo_times ?inh ?ev (if send then t1 + ?inh else di) (if send then t1 + ?ev else de) (tp_sendRequest T1) t1 xs"
  proof -
    have "tpdo_times ?inh ?ev di de (tp_sendRequest T) t (x # xs) =
        (if send then t1 # tpdo_times ?inh ?ev (t1 + ?inh) (t1 + ?ev) False t1 xs else tpdo_times ?inh ?ev di de (tp_sendRequest T0) t1 xs)"
      unfolding x tpdo_times.simps Let_def t1_def [symmetric] send_def T0(6) by (simp add: unat_eq_zero)
    then show ?thesis using p(3,10) by (cases send) simp_all
  qed
  have "tpdo_run env odf dict SYNC comm mp T W t (x # xs) = Some (T2, W2, tpdo_times ?inh ?ev di de (tp_sendRequest T) t (x # xs))"
    using p(1) r(1) unfolding times by (simp add: x T0_def [symmetric] t1_def [symmetric] new_frames_extends [OF p(2)])
  moreover have "\<forall>f \<in> set (fs @ gs). tpdo_frame T (wd_bus W) vals f" using p(4) r(3) frames by auto
  moreover have "length (fs @ gs) = length (tpdo_times ?inh ?ev di de (tp_sendRequest T) t (x # xs))" unfolding times using r(4) by simp
  ultimately show ?case using extends_trans [OF p(2) r(2)] by (intro exI [of _ T2] exI [of _ W2] exI [of _ "fs @ gs"]) blast
qed

lemma tpdo_times_after: "u \<in> set (tpdo_times inh ev di de p t xs) \<Longrightarrow> di \<le> u \<and> t \<le> u"
  by (induction inh ev di de p t xs rule: tpdo_times.induct) (fastforce simp: Let_def split: if_splits)+

lemma tpdo_times_inhibit: "sorted_wrt (\<lambda>u v. u + inh \<le> v) (tpdo_times inh ev di de p t xs)"
  by (induction inh ev di de p t xs rule: tpdo_times.induct) (auto simp: Let_def dest: tpdo_times_after)

fun step_times :: "nat \<Rightarrow> (bool \<times> u32) list \<Rightarrow> nat list" where
  "step_times t [] = []"
| "step_times t ((req, dt) # xs) = (t + unat dt) # step_times (t + unat dt) xs"

lemma tpdo_times_period:
  assumes "ev \<noteq> 0" "s \<in> set (step_times t xs)" "di \<le> s" "de \<le> s"
  shows "\<exists>u \<in> set (tpdo_times inh ev di de p t xs). u \<le> s \<and> s < u + max inh ev"
  using assms
proof (induction inh ev di de p t xs rule: tpdo_times.induct)
  case (2 inh ev di de p t req dt xs)
  let ?t = "t + unat dt"
  have le: "v \<in> set (step_times u ys) \<Longrightarrow> u \<le> v" for u v ys by (induction ys arbitrary: u) force+
  show ?case
  proof (cases "di \<le> ?t \<and> (p \<or> req \<or> ev \<noteq> 0 \<and> de \<le> ?t)")
    case True
    then have times: "tpdo_times inh ev di de p t ((req, dt) # xs) = ?t # tpdo_times inh ev (?t + inh) (?t + ev) False ?t xs"
      by (simp add: Let_def)
    have "?t \<le> s" using "2.prems"(2) le [of s ?t xs] by auto
    show ?thesis
    proof (cases "s < ?t + max inh ev")
      case True
      then show ?thesis unfolding times using \<open>?t \<le> s\<close> by auto
    next
      case False
      then have "s \<in> set (step_times ?t xs)" "?t + inh \<le> s" "?t + ev \<le> s" using "2.prems"(1,2) by auto
      then show ?thesis unfolding times using "2.IH"(1) [OF refl refl] True "2.prems"(1) by auto
    qed
  next
    case False
    then have times: "tpdo_times inh ev di de p t ((req, dt) # xs) = tpdo_times inh ev di de (p \<or> req) ?t xs"
      by (auto simp: Let_def)
    have "s \<noteq> ?t" using False "2.prems"(1,3,4) by auto
    then show ?thesis unfolding times using "2.IH"(2) [OF refl refl] False "2.prems" by auto
  qed
qed simp

text \<open>
  C9: an event-driven transmit PDO, over any schedule of calls of \<^verbatim>\<open>CO_TPDO_process\<close> and of requests by the application: the calls
  that send are exactly those of the specification \<^verbatim>\<open>tpdo_times\<close> with absolute times, where a frame is sent as soon as the
  inhibit time since the last frame is over and the PDO is requested or its event time has passed, and a request is kept
  until then. Each of them sends one frame, with the identifier of the PDO, its length and the values of the
  mapped variables in their order.
\<close>

theorem tpdo_event_refines:
  assumes "tpdo_ok dict mp vals T W" "writes_ok env" "254 \<le> tc_transmissionType comm"
    and "unat (tp_inhibitTimer T) = di - t" "unat (tp_eventTimer T) = de - t"
  shows "\<exists>T' W' ts fs. tpdo_run env odf dict SYNC comm mp T W t xs = Some (T', W', ts) \<and>
    ts = tpdo_times (unat (tc_inhibitTime comm) * 100) (unat (tc_eventTimer comm) * 1000) di de (tp_sendRequest T) t xs \<and>
    new_frames (wd_bus W) (wd_bus W') = fs \<and> length fs = length ts \<and> (\<forall>f \<in> set fs. tpdo_frame T (wd_bus W) vals f)"
proof -
  have "253 \<le> tc_transmissionType comm" using assms(3) by (simp add: word_le_nat_alt)
  from tpdo_run_times [OF assms(1,2) this assms(4,5)] show ?thesis using new_frames_extends by metis
qed

text \<open>
  C19: over any such schedule, two frames of an event-driven transmit PDO are at least its inhibit time apart. With an event
  timer, at every call after both timers have run out once, the last frame is less than the longer of the two times old.
\<close>

theorem tpdo_inhibit_and_period:
  assumes "tpdo_ok dict mp vals T W" "writes_ok env" "254 \<le> tc_transmissionType comm"
    and "unat (tp_inhibitTimer T) = di" "unat (tp_eventTimer T) = de"
  shows "\<exists>T' W' ts. tpdo_run env odf dict SYNC comm mp T W 0 xs = Some (T', W', ts) \<and>
    length (new_frames (wd_bus W) (wd_bus W')) = length ts \<and>
    sorted_wrt (\<lambda>u v. u + unat (tc_inhibitTime comm) * 100 \<le> v) ts \<and>
    (tc_eventTimer comm \<noteq> 0 \<longrightarrow>
      (\<forall>s \<in> set (step_times 0 xs). max di de \<le> s \<longrightarrow>
        (\<exists>u \<in> set ts. u \<le> s \<and> s < u + max (unat (tc_inhibitTime comm) * 100) (unat (tc_eventTimer comm) * 1000))))"
proof -
  let ?inh = "unat (tc_inhibitTime comm) * 100" and ?ev = "unat (tc_eventTimer comm) * 1000"
  let ?ts = "tpdo_times ?inh ?ev di de (tp_sendRequest T) 0 xs"
  have "253 \<le> tc_transmissionType comm" using assms(3) by (simp add: word_le_nat_alt)
  moreover have "unat (tp_inhibitTimer T) = di - 0" "unat (tp_eventTimer T) = de - 0" using assms(4,5) by simp_all
  ultimately obtain T' W' fs where r: "tpdo_run env odf dict SYNC comm mp T W 0 xs = Some (T', W', ?ts)"
    "extends (wd_bus W) fs (wd_bus W')" "length fs = length ?ts"
    using tpdo_run_times [OF assms(1,2)] by blast
  have "\<exists>u \<in> set ?ts. u \<le> s \<and> s < u + max ?inh ?ev"
    if "tc_eventTimer comm \<noteq> 0" "s \<in> set (step_times 0 xs)" "max di de \<le> s" for s
    using tpdo_times_period [of ?ev s 0 xs di de ?inh "tp_sendRequest T"] that by (simp add: unat_eq_zero)
  then show ?thesis using r new_frames_extends [OF r(2)] tpdo_times_inhibit by blast
qed

definition example_active_tpdo :: CO_TPDO_t where
  "example_active_tpdo = example_tpdo\<lparr>tp_valid := True, tp_dataLength := 2, tp_sendRequest := True,
     tp_mapPointer := (PB_od (OAddr 4), 0) # (PB_od (OAddr 4), 1) # replicate 6 (PB_dummyTX, 0), tp_eventTimer := 5000,
     tp_syncCounter := 255, tp_CANtxBuff := Some 0\<rparr>"

definition example_tpdo_world :: "unit od_world" where
  "example_tpdo_world = example_pdo_world\<lparr>wd_bus := bus_upd_buf example_bus 0 (\<lambda>b. b\<lparr>tx_DLC := 2\<rparr>)\<rparr>"

definition example_tpdo_comm :: "u8 \<Rightarrow> CO_TPDOCommPar_t" where
  "example_tpdo_comm ty = \<lparr>tc_COB_IDUsedByTPDO = 0x181, tc_transmissionType = ty, tc_inhibitTime = 20, tc_eventTimer = 5, tc_SYNCStartValue = 0\<rparr>"

lemma example_tpdo_ok: "tpdo_ok example_pdo_dict example_pdo_map [14, 15] example_active_tpdo example_tpdo_world"
  using example_pdo_dict_inv example_no_functions
  by (simp add: tpdo_ok_def tpdo_ptrs_def example_active_tpdo_def example_tpdo_def example_tpdo_world_def example_pdo_world_def
      pdo_read_def nth_opt_def bus_ready_def bus_buf_upd example_bus_def example_tx_def) (simp add: bus_buf_def)

text \<open>Requests at the start and after 1.5 ms, an inhibit time of 2 ms and an event time of 5 ms.\<close>

theorem tpdo_event_refines_witness:
  "\<exists>T' W'. tpdo_run (example_env 0) no_odf example_pdo_dict None (example_tpdo_comm 255) example_pdo_map example_active_tpdo
     example_tpdo_world 0 [(False, 500), (True, 1000), (False, 1000), (False, 2000), (False, 3000)] = Some (T', W', [500, 2500, 7500]) \<and>
     length (new_frames (wd_bus example_tpdo_world) (wd_bus W')) = 3"
proof -
  let ?xs = "[(False, 500), (True, 1000), (False, 1000), (False, 2000), (False, 3000)] :: (bool \<times> u32) list"
  have "254 \<le> tc_transmissionType (example_tpdo_comm 255)" "unat (tp_inhibitTimer example_active_tpdo) = 0 - 0"
    "unat (tp_eventTimer example_active_tpdo) = 5000 - 0"
    by (simp_all add: example_tpdo_comm_def example_active_tpdo_def example_tpdo_def)
  moreover have "tpdo_times (unat (tc_inhibitTime (example_tpdo_comm 255)) * 100) (unat (tc_eventTimer (example_tpdo_comm 255)) * 1000) 0 5000
      (tp_sendRequest example_active_tpdo) 0 ?xs = [500, 2500, 7500]"
    by (simp add: example_tpdo_comm_def example_active_tpdo_def)
  ultimately show ?thesis
    using tpdo_event_refines [OF example_tpdo_ok example_writes_ok, of "example_tpdo_comm 255" 0 0 5000 no_odf None ?xs] by auto
qed

theorem tpdo_inhibit_and_period_witness:
  "\<exists>T' W' ts. tpdo_run (example_env 0) no_odf example_pdo_dict None (example_tpdo_comm 255) example_pdo_map example_active_tpdo
     example_tpdo_world 0 [(False, 500), (True, 6000)] = Some (T', W', ts) \<and>
     sorted_wrt (\<lambda>u v. u + 2000 \<le> v) ts \<and> (\<exists>u \<in> set ts. u \<le> 6500 \<and> 6500 < u + 5000)"
proof -
  let ?xs = "[(False, 500), (True, 6000)] :: (bool \<times> u32) list"
  have "254 \<le> tc_transmissionType (example_tpdo_comm 255)" "unat (tp_inhibitTimer example_active_tpdo) = 0"
    "unat (tp_eventTimer example_active_tpdo) = 5000"
    by (simp_all add: example_tpdo_comm_def example_active_tpdo_def example_tpdo_def)
  then show ?thesis
    using tpdo_inhibit_and_period [OF example_tpdo_ok example_writes_ok, of "example_tpdo_comm 255" 0 5000 no_odf None ?xs]
    by (auto simp: example_tpdo_comm_def)
qed

subsection \<open>Cyclic PDOs\<close>

text \<open>
  \<^verbatim>\<open>tpdo_sync_run\<close> calls \<^verbatim>\<open>CO_TPDO_process\<close> after each of a list of SYNC messages, given by their counter values, with a number of
  calls without SYNC before each, and collects how many frames each SYNC caused.
\<close>

fun tpdo_idle ::
    "can_env \<Rightarrow> 'w odf_call \<Rightarrow> CO_SDO_OD \<Rightarrow> CO_SYNC_t \<Rightarrow> CO_TPDOCommPar_t \<Rightarrow> CO_PDOMapPar_t \<Rightarrow> CO_TPDO_t \<Rightarrow> 'w od_world \<Rightarrow> u32 list \<Rightarrow>
     (CO_TPDO_t \<times> 'w od_world) option" where
  "tpdo_idle env odf dict S comm mp T W [] = Some (T, W)"
| "tpdo_idle env odf dict S comm mp T W (dt # dts) = do {
     (T1, W1, _) \<leftarrow> CO_TPDO_process env odf dict CO_NMT_OPERATIONAL (Some S) comm mp T W False dt None;
     tpdo_idle env odf dict S comm mp T1 W1 dts
   }"

fun tpdo_sync_run ::
    "can_env \<Rightarrow> 'w odf_call \<Rightarrow> CO_SDO_OD \<Rightarrow> CO_SYNC_t \<Rightarrow> CO_TPDOCommPar_t \<Rightarrow> CO_PDOMapPar_t \<Rightarrow> CO_TPDO_t \<Rightarrow> 'w od_world \<Rightarrow>
     (u32 list \<times> u8 \<times> u32) list \<Rightarrow> (CO_TPDO_t \<times> 'w od_world \<times> nat list) option" where
  "tpdo_sync_run env odf dict S comm mp T W [] = Some (T, W, [])"
| "tpdo_sync_run env odf dict S comm mp T W ((idle, c, dt) # xs) = do {
     (T1, W1) \<leftarrow> tpdo_idle env odf dict S comm mp T W idle;
     (T2, W2, _) \<leftarrow> CO_TPDO_process env odf dict CO_NMT_OPERATIONAL (Some (S\<lparr>syn_counter := c\<rparr>)) comm mp T1 W1 True dt None;
     (T3, W3, ns) \<leftarrow> tpdo_sync_run env odf dict S comm mp T2 W2 xs;
     Some (T3, W3, length (new_frames (wd_bus W) (wd_bus W2)) # ns)
   }"

definition cyclic :: "CO_TPDOCommPar_t \<Rightarrow> bool" where
  "cyclic comm \<longleftrightarrow> 1 \<le> unat (tc_transmissionType comm) \<and> unat (tc_transmissionType comm) \<le> 240"

definition tpdo_like :: "CO_TPDO_t \<Rightarrow> CO_TPDO_t \<Rightarrow> bool" where
  \<comment> \<open>equal up to timers and the request\<close>
  "tpdo_like T T' \<longleftrightarrow> (\<exists>i e r. T' = T\<lparr>tp_inhibitTimer := i, tp_eventTimer := e, tp_sendRequest := r\<rparr>)"

lemma tpdo_like_keeps:
  assumes "tpdo_like T T'"
  shows "tpdo_ok dict mp vals T' W \<longleftrightarrow> tpdo_ok dict mp vals T W" "tp_syncCounter T' = tp_syncCounter T"
    "tpdo_frame T' = tpdo_frame T" "tpdo_ident T' = tpdo_ident T"
  using assms by (auto simp: tpdo_like_def)

lemma tpdo_like_timers:
  assumes "tpdo_like (T\<lparr>tp_inhibitTimer := i, tp_eventTimer := e\<rparr>) T'"
  shows "tpdo_like T T'"
proof -
  obtain j d r where "T' = T\<lparr>tp_inhibitTimer := i, tp_eventTimer := e\<rparr>\<lparr>tp_inhibitTimer := j, tp_eventTimer := d, tp_sendRequest := r\<rparr>"
    using assms unfolding tpdo_like_def by blast
  then have "T' = T\<lparr>tp_inhibitTimer := j, tp_eventTimer := d, tp_sendRequest := r\<rparr>" by simp
  then show ?thesis unfolding tpdo_like_def by blast
qed

lemma cyclic_type: "cyclic comm \<Longrightarrow> \<not> 253 \<le> tc_transmissionType comm \<and> tc_transmissionType comm \<noteq> 0 \<and>
    tc_transmissionType comm \<noteq> 254 \<and> tc_transmissionType comm \<noteq> 255"
  by (auto simp: cyclic_def word_le_nat_alt)

lemma tpdo_idle_nothing:
  assumes "cyclic comm" "tp_valid T"
  shows "\<exists>T'. tpdo_idle env odf dict S comm mp T W dts = Some (T', W) \<and> tpdo_like T T' \<and> tp_valid T'"
  using assms(2)
proof (induction dts arbitrary: T)
  case Nil
  have "T = T\<lparr>tp_inhibitTimer := tp_inhibitTimer T, tp_eventTimer := tp_eventTimer T, tp_sendRequest := tp_sendRequest T\<rparr>" by simp
  then have "tpdo_like T T" unfolding tpdo_like_def by blast
  then show ?case using Nil by simp
next
  case (Cons dt dts)
  let ?T = "T\<lparr>tp_inhibitTimer := count_down (tp_inhibitTimer T) dt, tp_eventTimer := count_down (tp_eventTimer T) dt\<rparr>"
  have p: "CO_TPDO_process env odf dict CO_NMT_OPERATIONAL (Some S) comm mp T W False dt None = Some (?T, W, None)"
    using Cons.prems cyclic_type [OF assms(1)] by (simp add: CO_TPDO_process_def Let_def)
  obtain T' where "tpdo_idle env odf dict S comm mp ?T W dts = Some (T', W)" "tpdo_like ?T T'" "tp_valid T'"
    using Cons.IH [of ?T] Cons.prems by auto
  moreover from this(2) have "tpdo_like T T'" by (rule tpdo_like_timers)
  ultimately show ?case by (auto simp: p)
qed

definition sync_next :: "CO_SYNC_t \<Rightarrow> CO_TPDOCommPar_t \<Rightarrow> u8 \<Rightarrow> u8 \<Rightarrow> bool \<times> u8" where
  \<comment> \<open>whether a SYNC with the counter \<^verbatim>\<open>c\<close> sends, and the next value of \<^verbatim>\<open>syncCounter\<close>\<close>
  "sync_next S comm sc c =
     (let sc1 = (if sc = 255 then if syn_counterOverflowValue S \<noteq> 0 \<and> tc_SYNCStartValue comm \<noteq> 0 then 254 else tc_transmissionType comm
                 else sc)
      in if sc1 = 254 then (if c = tc_SYNCStartValue comm then (True, tc_transmissionType comm) else (False, 254))
         else if sc1 - 1 = 0 then (True, tc_transmissionType comm) else (False, sc1 - 1))"

lemma tpdo_sync_step:
  assumes "tpdo_ok dict mp vals T W" "writes_ok env" "cyclic comm"
  shows "\<exists>T' W' fs. CO_TPDO_process env odf dict CO_NMT_OPERATIONAL (Some (S\<lparr>syn_counter := c\<rparr>)) comm mp T W True dt None = Some (T', W', None) \<and>
    extends (wd_bus W) fs (wd_bus W') \<and> length fs = (if fst (sync_next S comm (tp_syncCounter T) c) then 1 else 0) \<and>
    (\<forall>f \<in> set fs. tpdo_frame T (wd_bus W) vals f) \<and> tpdo_ok dict mp vals T' W' \<and>
    tpdo_ident T' (wd_bus W') = tpdo_ident T (wd_bus W) \<and> tp_dataLength T' = tp_dataLength T \<and>
    tp_syncCounter T' = snd (sync_next S comm (tp_syncCounter T) c)"
proof -
  let ?T = "T\<lparr>tp_inhibitTimer := count_down (tp_inhibitTimer T) dt, tp_eventTimer := count_down (tp_eventTimer T) dt\<rparr>"
  let ?n = "sync_next S comm (tp_syncCounter T) c"
  have valid: "tp_valid T" using assms(1) by (simp add: tpdo_ok_def)
  have ok: "tpdo_ok dict mp vals (?T\<lparr>tp_syncCounter := k\<rparr>) W" for k using assms(1) by simp
  have sync: "tpdo_sync env odf dict (S\<lparr>syn_counter := c\<rparr>) comm mp ?T W =
    (if fst ?n then map_option snd (CO_TPDOsend env odf dict mp (?T\<lparr>tp_syncCounter := snd ?n\<rparr>) W)
     else Some (?T\<lparr>tp_syncCounter := snd ?n\<rparr>, W))"
    using cyclic_type [OF assms(3)] by (simp add: tpdo_sync_def sync_next_def Let_def)
  have proc: "CO_TPDO_process env odf dict CO_NMT_OPERATIONAL (Some (S\<lparr>syn_counter := c\<rparr>)) comm mp T W True dt None =
      map_option (\<lambda>(T1, W1). (T1, W1, None)) (tpdo_sync env odf dict (S\<lparr>syn_counter := c\<rparr>) comm mp ?T W)"
    using cyclic_type [OF assms(3)] valid by (simp add: CO_TPDO_process_def Let_def)
  show ?thesis
  proof (cases "fst ?n")
    case False
    let ?T' = "?T\<lparr>tp_syncCounter := snd ?n\<rparr>"
    show ?thesis unfolding proc sync using False assms(1)
      by (intro exI [of _ ?T'] exI [of _ W] exI [of _ "[]"]) simp
  next
    case True
    from CO_TPDOsend_ok [OF ok [of "snd ?n"] assms(2), of odf] obtain bus' f where
      s: "CO_TPDOsend env odf dict mp (?T\<lparr>tp_syncCounter := snd ?n\<rparr>) W =
          Some (CO_ERROR_NO, ?T\<lparr>tp_syncCounter := snd ?n, tp_sendRequest := False\<rparr>, W\<lparr>wd_bus := bus'\<rparr>)"
        "extends (wd_bus W) [f] bus'" "tpdo_frame T (wd_bus W) vals f" "tpdo_ident T bus' = tpdo_ident T (wd_bus W)"
        "tpdo_ok dict mp vals T (W\<lparr>wd_bus := bus'\<rparr>)" by auto
    show ?thesis unfolding proc sync using True s
      by (intro exI [of _ "?T\<lparr>tp_syncCounter := snd ?n, tp_sendRequest := False\<rparr>"] exI [of _ "W\<lparr>wd_bus := bus'\<rparr>"] exI [of _ "[f]"]) simp
  qed
qed

fun sync_flags :: "CO_SYNC_t \<Rightarrow> CO_TPDOCommPar_t \<Rightarrow> u8 \<Rightarrow> u8 list \<Rightarrow> nat list" where
  "sync_flags S comm sc [] = []"
| "sync_flags S comm sc (c # cs) = (case sync_next S comm sc c of (send, sc1) \<Rightarrow> (if send then 1 else 0) # sync_flags S comm sc1 cs)"

lemma tpdo_sync_run_flags:
  assumes "tpdo_ok dict mp vals T W" "writes_ok env" "cyclic comm"
  shows "\<exists>T' W' fs. tpdo_sync_run env odf dict S comm mp T W xs = Some (T', W', sync_flags S comm (tp_syncCounter T) (map (fst \<circ> snd) xs)) \<and>
    extends (wd_bus W) fs (wd_bus W') \<and> length fs = sum_list (sync_flags S comm (tp_syncCounter T) (map (fst \<circ> snd) xs)) \<and>
    (\<forall>f \<in> set fs. tpdo_frame T (wd_bus W) vals f)"
  using assms(1)
proof (induction xs arbitrary: T W)
  case Nil
  then show ?case by (intro exI [of _ T] exI [of _ W] exI [of _ "[]"]) simp
next
  case (Cons x xs)
  obtain idle c dt where x: "x = (idle, c, dt)" by (cases x)
  have "tp_valid T" using Cons.prems by (simp add: tpdo_ok_def)
  then obtain T1 where i: "tpdo_idle env odf dict S comm mp T W idle = Some (T1, W)" "tpdo_like T T1"
    using tpdo_idle_nothing [OF assms(3)] by blast
  note like = tpdo_like_keeps [OF i(2)]
  have ok1: "tpdo_ok dict mp vals T1 W" unfolding like(1) by (rule Cons.prems)
  obtain T2 W2 fs where p: "CO_TPDO_process env odf dict CO_NMT_OPERATIONAL (Some (S\<lparr>syn_counter := c\<rparr>)) comm mp T1 W True dt None = Some (T2, W2, None)"
    "extends (wd_bus W) fs (wd_bus W2)" "length fs = (if fst (sync_next S comm (tp_syncCounter T) c) then 1 else 0)"
    "\<forall>f \<in> set fs. tpdo_frame T (wd_bus W) vals f" "tpdo_ok dict mp vals T2 W2" "tpdo_ident T2 (wd_bus W2) = tpdo_ident T (wd_bus W)"
    "tp_dataLength T2 = tp_dataLength T1" "tp_syncCounter T2 = snd (sync_next S comm (tp_syncCounter T) c)"
    using tpdo_sync_step [OF ok1 assms(2,3), where odf = odf and S = S and c = c and dt = dt, unfolded like] by blast
  obtain T3 W3 gs where r: "tpdo_sync_run env odf dict S comm mp T2 W2 xs = Some (T3, W3, sync_flags S comm (tp_syncCounter T2) (map (fst \<circ> snd) xs))"
    "extends (wd_bus W2) gs (wd_bus W3)" "length gs = sum_list (sync_flags S comm (tp_syncCounter T2) (map (fst \<circ> snd) xs))"
    "\<forall>f \<in> set gs. tpdo_frame T2 (wd_bus W2) vals f"
    using Cons.IH [OF p(5)] by blast
  have flags: "sync_flags S comm (tp_syncCounter T) (map (fst \<circ> snd) (x # xs)) =
      length fs # sync_flags S comm (tp_syncCounter T2) (map (fst \<circ> snd) xs)"
    using p(3,8) by (simp add: x split: prod.splits)
  have "tp_dataLength T1 = tp_dataLength T" using i(2) by (auto simp: tpdo_like_def)
  then have "\<forall>f \<in> set (fs @ gs). tpdo_frame T (wd_bus W) vals f" using p(4,6,7) r(4) by (auto simp: tpdo_frame_def)
  moreover have "tpdo_sync_run env odf dict S comm mp T W (x # xs) = Some (T3, W3, sync_flags S comm (tp_syncCounter T) (map (fst \<circ> snd) (x # xs)))"
    unfolding flags using i(1) p(1) r(1) by (simp add: x new_frames_extends [OF p(2)])
  moreover have "length (fs @ gs) = sum_list (sync_flags S comm (tp_syncCounter T) (map (fst \<circ> snd) (x # xs)))" unfolding flags using r(3) by simp
  ultimately show ?case using extends_trans [OF p(2) r(2)] by (intro exI [of _ T3] exI [of _ W3] exI [of _ "fs @ gs"]) blast
qed

subsubsection \<open>Which SYNC messages send\<close>

lemma sync_flags_count:
  assumes "cyclic comm" "1 \<le> k" "k \<le> unat (tc_transmissionType comm)"
  defines "N \<equiv> unat (tc_transmissionType comm)"
  shows "sync_flags S comm (word_of_nat k) cs = map (\<lambda>i. if (i + 1 + (N - k)) mod N = 0 then 1 else 0) [0..<length cs]"
  using assms(2,3)
proof (induction cs arbitrary: k)
  case (Cons c cs)
  have N: "1 \<le> N" "N \<le> 240" "tc_transmissionType comm = word_of_nat N" using assms(1) by (simp_all add: N_def cyclic_def)
  have k: "unat (word_of_nat k :: u8) = k" "k \<le> N" using unat_small [of k] Cons.prems N(2) by (simp_all add: N_def)
  have nk: "(word_of_nat k :: u8) \<noteq> 255" "(word_of_nat k :: u8) \<noteq> 254" using k N(2) by (auto simp: word_unat_eq_iff)
  have shift: "[0..<length (c # cs)] = 0 # map Suc [0..<length cs]" by (simp add: map_Suc_upt upt_conv_Cons del: upt_Suc)
  show ?case
  proof (cases "k = 1")
    case True
    have "sync_next S comm (word_of_nat k) c = (True, word_of_nat N)" using nk True N(3) by (simp add: sync_next_def)
    moreover have "(Suc i + 1 + (N - k)) mod N = (i + 1 + (N - N)) mod N" for i
    proof -
      have "Suc i + 1 + (N - k) = i + 1 + N" using True N(1) by simp
      then show ?thesis by (simp only: mod_add_self2) simp
    qed
    moreover have "(0 + 1 + (N - k)) mod N = 0" using True N(1) by simp
    moreover have "sync_flags S comm (word_of_nat N) cs = map (\<lambda>i. if (i + 1 + (N - N)) mod N = 0 then 1 else 0) [0..<length cs]"
      by (rule Cons.IH [OF N(1)]) (simp add: N_def)
    ultimately show ?thesis unfolding shift sync_flags.simps list.map map_map comp_def by simp
  next
    case False
    then have k1: "(word_of_nat k :: u8) - 1 = word_of_nat (k - 1)" "k - 1 \<ge> 1" using Cons.prems(1) by simp_all
    have "unat (word_of_nat (k - 1) :: u8) = k - 1" using unat_small [of "k - 1"] k N(2) by simp
    then have "(word_of_nat (k - 1) :: u8) \<noteq> 0" using k1(2) by (auto simp: word_unat_eq_iff)
    then have "sync_next S comm (word_of_nat k) c = (False, word_of_nat (k - 1))" using nk k1(1) by (simp add: sync_next_def Let_def)
    moreover have "Suc i + 1 + (N - k) = i + 1 + (N - (k - 1))" for i using k(2) k1(2) by simp
    moreover have "(0 + 1 + (N - k)) mod N \<noteq> 0" using False Cons.prems(1) k(2) N(1) by simp
    moreover have "sync_flags S comm (word_of_nat (k - 1)) cs = map (\<lambda>i. if (i + 1 + (N - (k - 1))) mod N = 0 then 1 else 0) [0..<length cs]"
      by (rule Cons.IH [OF k1(2)]) (use Cons.prems(2) in simp)
    ultimately show ?thesis unfolding shift sync_flags.simps list.map map_map comp_def by (simp only: prod.case if_False)
  qed
qed simp

lemma sync_flags_start:
  assumes "cyclic comm"
  defines "N \<equiv> unat (tc_transmissionType comm)" and "f \<equiv> \<lambda>cs. length (takeWhile (\<lambda>c. c \<noteq> tc_SYNCStartValue comm) cs)"
  shows "sync_flags S comm 254 cs = map (\<lambda>i. if f cs \<le> i \<and> (i - f cs) mod N = 0 then 1 else 0) [0..<length cs]"
proof (induction cs)
  case (Cons c cs)
  have N: "1 \<le> N" "tc_transmissionType comm = word_of_nat N" using assms(1) by (simp_all add: N_def cyclic_def)
  have shift: "[0..<length (c # cs)] = 0 # map Suc [0..<length cs]" by (simp add: map_Suc_upt upt_conv_Cons del: upt_Suc)
  show ?case
  proof (cases "c = tc_SYNCStartValue comm")
    case True
    then have "sync_next S comm 254 c = (True, word_of_nat N)" "f (c # cs) = 0" using N by (simp_all add: sync_next_def f_def)
    then show ?thesis using sync_flags_count [OF assms(1), of N S cs, folded N_def] N(1)
      unfolding shift sync_flags.simps list.map map_map comp_def by simp
  next
    case False
    then have "sync_next S comm 254 c = (False, 254)" "f (c # cs) = Suc (f cs)" by (simp_all add: sync_next_def f_def)
    then show ?thesis using Cons unfolding shift sync_flags.simps list.map map_map comp_def by simp
  qed
qed simp

text \<open>
  C10: a cyclic transmit PDO with the transmission type \<^verbatim>\<open>N\<close> (1 to 240), from its initial state and with any calls in between:
  without a start value it is sent after every \<^verbatim>\<open>N\<close>-th SYNC message, and after no other; with a start value and SYNC counters it
  is sent after the first SYNC whose counter is the start value and after every \<^verbatim>\<open>N\<close>-th SYNC from there on. The calls without a
  SYNC send nothing. Every frame has the identifier, the length and the values of the PDO.
\<close>

theorem tpdo_cyclic:
  assumes "tpdo_ok dict mp vals T W" "writes_ok env" "cyclic comm" "tp_syncCounter T = 255"
  defines "N \<equiv> unat (tc_transmissionType comm)"
    and "start \<equiv> \<lambda>cs. length (takeWhile (\<lambda>c. c \<noteq> tc_SYNCStartValue comm) cs)"
  shows "\<exists>T' W' ns. tpdo_sync_run env odf dict S comm mp T W xs = Some (T', W', ns) \<and>
    ns = map (\<lambda>i. if (if syn_counterOverflowValue S \<noteq> 0 \<and> tc_SYNCStartValue comm \<noteq> 0
                       then start (map (fst \<circ> snd) xs) \<le> i \<and> (i - start (map (fst \<circ> snd) xs)) mod N = 0
                       else (i + 1) mod N = 0) then 1 else 0) [0..<length xs] \<and>
    length (new_frames (wd_bus W) (wd_bus W')) = sum_list ns \<and>
    (\<forall>f \<in> set (new_frames (wd_bus W) (wd_bus W')). tpdo_frame T (wd_bus W) vals f)"
proof -
  let ?cs = "map (fst \<circ> snd) xs"
  obtain T' W' fs where r: "tpdo_sync_run env odf dict S comm mp T W xs = Some (T', W', sync_flags S comm 255 ?cs)"
    "extends (wd_bus W) fs (wd_bus W')" "length fs = sum_list (sync_flags S comm 255 ?cs)" "\<forall>f \<in> set fs. tpdo_frame T (wd_bus W) vals f"
    using tpdo_sync_run_flags [OF assms(1-3), unfolded assms(4)] by blast
  have init: "sync_flags S comm 255 ?cs = sync_flags S comm (if syn_counterOverflowValue S \<noteq> 0 \<and> tc_SYNCStartValue comm \<noteq> 0 then 254
      else tc_transmissionType comm) ?cs"
    using cyclic_type [OF assms(3)] by (cases ?cs) (simp_all add: sync_next_def)
  have N: "1 \<le> N" "tc_transmissionType comm = word_of_nat N" using assms(3) by (simp_all add: N_def cyclic_def)
  have count: "sync_flags S comm (word_of_nat N) ?cs = map (\<lambda>i. if (i + 1) mod N = 0 then 1 else 0) [0..<length xs]"
    using sync_flags_count [OF assms(3), of N S ?cs, folded N_def] N(1) by simp
  have "sync_flags S comm 255 ?cs = map (\<lambda>i. if (if syn_counterOverflowValue S \<noteq> 0 \<and> tc_SYNCStartValue comm \<noteq> 0
                       then start ?cs \<le> i \<and> (i - start ?cs) mod N = 0 else (i + 1) mod N = 0) then 1 else 0) [0..<length xs]"
    using sync_flags_start [OF assms(3), of S ?cs, folded N_def] count unfolding init N(2) start_def by simp
  then show ?thesis using r new_frames_extends [OF r(2)] by (intro exI [of _ T'] exI [of _ W']) simp
qed

theorem tpdo_cyclic_witness:
  "\<exists>T' W'. tpdo_sync_run (example_env 0) no_odf example_pdo_dict (example_sync\<lparr>syn_counterOverflowValue := 0\<rparr>) (example_tpdo_comm 2)
     example_pdo_map example_active_tpdo example_tpdo_world [([], 0, 10), ([5, 5], 0, 10), ([], 0, 10), ([5], 0, 10), ([], 0, 10)] =
     Some (T', W', [0, 1, 0, 1, 0])"
proof -
  let ?xs = "[([], 0, 10), ([5, 5], 0, 10), ([], 0, 10), ([5], 0, 10), ([], 0, 10)] :: (u32 list \<times> u8 \<times> u32) list"
  have "cyclic (example_tpdo_comm 2)" "tp_syncCounter example_active_tpdo = 255"
    by (simp_all add: cyclic_def example_tpdo_comm_def example_active_tpdo_def)
  from tpdo_cyclic [OF example_tpdo_ok example_writes_ok this, of no_odf "example_sync\<lparr>syn_counterOverflowValue := 0\<rparr>" ?xs]
  show ?thesis by (auto simp: example_tpdo_comm_def upt_rec)
qed

end
