(* ===== verification/PDO_Transfer.thy ===== *)
theory PDO_Transfer
  imports PDO_Transmit
begin

section \<open>A PDO from node to node\<close>

text \<open>
  Initialisation of a transmit PDO on one node and of a receive PDO on another, a call of \<^verbatim>\<open>CO_TPDO_process\<close>, the delivery of
  the frame, and a call of \<^verbatim>\<open>CO_RPDO_process\<close>: the variables mapped on the second node get the values of those mapped on the first.
\<close>

subsection \<open>Registration of the access functions\<close>

definition mapped :: "CO_PDOMapPar_t \<Rightarrow> u32 list" where
  "mapped mp = take (unat (mp_numberOfMappedObjects mp)) (mp_mappedObjects mp)"

lemma entry_of_cong: "sdo_OD d' = sdo_OD d \<Longrightarrow> entry_of d' = entry_of d"
  by (simp add: fun_eq_iff entry_of_def)

lemma od_access_cong:
  assumes "sdo_OD d' = sdo_OD d"
  shows "CO_OD_getAttribute d' = CO_OD_getAttribute d" "CO_OD_getLength d' = CO_OD_getLength d"
    "CO_OD_getDataPointer d' = CO_OD_getDataPointer d" "pdo_read d' = pdo_read d"
  unfolding fun_eq_iff CO_OD_getAttribute_def CO_OD_getLength_def CO_OD_getDataPointer_def pdo_read_def assms by simp_all

lemma pdo_object_cong:
  assumes "sdo_OD d' = sdo_OD d"
  shows "pdo_object d' tx mo = pdo_object d tx mo"
  unfolding pdo_object_def dict_object_def entry_of_cong [OF assms] od_access_cong [OF assms] assms by (rule refl)

lemma pdo_layout_cong:
  assumes "sdo_OD d' = sdo_OD d"
  shows "pdo_layout d' = pdo_layout d"
proof -
  have "pdo_bytes d' tx mos = pdo_bytes d tx mos" for tx mos
    by (induction mos) (simp_all add: pdo_object_cong [OF assms])
  then show ?thesis by (simp add: fun_eq_iff pdo_layout_def)
qed

lemma pdo_gather_cong:
  assumes "sdo_OD d' = sdo_OD d"
  shows "pdo_gather d' mem ps = pdo_gather d mem ps"
  by (induction ps) (simp_all add: od_access_cong(4) [OF assms])

lemma no_functions_od_map:
  assumes "od_inv dict"
  shows "no_functions dict mp \<longleftrightarrow> unat (mp_numberOfMappedObjects mp) \<le> length (mp_mappedObjects mp) \<and>
    (\<forall>mo \<in> set (mapped mp). \<forall>e x. od_map dict (ucast (drop_bit 16 mo)) = Some (e, x) \<longrightarrow> ext_pODFunc x = None)"
proof -
  have "(case entry_of dict i of None \<Rightarrow> True | Some k \<Rightarrow> ext_pODFunc (sdo_ODExtensions dict ! k) = None) \<longleftrightarrow>
      (\<forall>e x. od_map dict i = Some (e, x) \<longrightarrow> ext_pODFunc x = None)" for i
  proof (cases "entry_of dict i")
    case None
    then have "i \<notin> od_index ` set (sdo_OD dict)" by (auto simp: entry_of_def find_None_iff in_set_conv_nth)
    then show ?thesis using None od_map_missing [OF assms] by simp
  next
    case (Some k)
    then show ?thesis using od_map_nth [OF assms entry_of_Some(1) [OF Some]] entry_of_Some(2) [OF Some] by simp
  qed
  then show ?thesis by (simp add: no_functions_def list_all_iff mapped_def)
qed

lemma no_functions_configure:
  assumes "od_inv dict" "no_functions dict mp" "\<forall>mo \<in> set (mapped mp). ucast (drop_bit 16 mo) \<noteq> index"
  shows "\<exists>dict'. CO_OD_configure dict index f object None 0 = Some dict' \<and> od_inv dict' \<and> sdo_OD dict' = sdo_OD dict \<and> no_functions dict' mp"
proof -
  obtain dict' where d: "CO_OD_configure dict index f object None 0 = Some dict'" "od_inv dict'"
    "\<forall>i. i \<noteq> index \<longrightarrow> od_map dict' i = od_map dict i"
    using od_configure_func [OF assms(1)] by blast
  have "no_functions dict' mp" using assms(2,3) d(3) by (simp add: no_functions_od_map d(2) assms(1))
  then show ?thesis using d(1,2) od_inv_configure [OF assms(1) d(1)] by blast
qed

definition registrable :: "CO_SDO_OD \<Rightarrow> CO_PDOMapPar_t \<Rightarrow> u16 \<Rightarrow> u16 \<Rightarrow> bool" where
  \<comment> \<open>the mapped objects have no functions and are not the parameters of the PDO\<close>
  "registrable dict mp idx1 idx2 \<longleftrightarrow> od_inv dict \<and> no_functions dict mp \<and>
     (\<forall>mo \<in> set (mapped mp). ucast (drop_bit 16 mo) \<noteq> idx1 \<and> ucast (drop_bit 16 mo) \<noteq> idx2)"

lemma register_both:
  assumes "registrable dict mp idx1 idx2"
  shows "\<exists>d1 d2. CO_OD_configure dict idx1 f1 ob None 0 = Some d1 \<and> CO_OD_configure d1 idx2 f2 ob None 0 = Some d2 \<and>
    od_inv d2 \<and> sdo_OD d2 = sdo_OD dict \<and> no_functions d2 mp"
proof -
  obtain d1 where 1: "CO_OD_configure dict idx1 f1 ob None 0 = Some d1" "od_inv d1" "sdo_OD d1 = sdo_OD dict" "no_functions d1 mp"
    using no_functions_configure [of dict mp idx1 f1 ob] assms by (auto simp: registrable_def)
  obtain d2 where "CO_OD_configure d1 idx2 f2 ob None 0 = Some d2" "od_inv d2" "sdo_OD d2 = sdo_OD d1" "no_functions d2 mp"
    using no_functions_configure [OF 1(2,4), of idx2 f2 ob] assms by (auto simp: registrable_def)
  then show ?thesis using 1 by auto
qed

subsection \<open>Initialisation\<close>

definition cob_used :: "u32 \<Rightarrow> bool" where
  \<comment> \<open>bit 31 is clear, the identifier has eleven bits and is not 0\<close>
  "cob_used cob \<longleftrightarrow> cob AND 0xBFFFF800 = 0 \<and> (ucast cob :: u16) \<noteq> 0"

lemma tpdo_init_ok:
  assumes "registrable dict mp idx1 idx2" "length (tp_mapPointer T0) = 8" "pdo_layout dict True (mapped mp) = Some bs" "bs \<noteq> []"
    and "cob_used (tc_COB_IDUsedByTPDO comm)" "254 \<le> tc_transmissionType comm" "tc_SYNCStartValue comm \<le> 240"
    and "bus_inv bus" "can_dev (bus_can bus) \<noteq> None" "txIdx < can_txSize (bus_can bus)" "length (tx_data (bus_buf bus (unat txIdx))) = 8"
    and "wd_bus W = bus" "pdo_gather dict (wd_mem W) (map fst bs) = Some vals"
  shows "\<exists>T dict' bus'. CO_TPDO_init env (Some T0) dict nodeId dflt flags comm mp idx1 idx2 bus txIdx =
      Some (CO_ERROR_NO, Some T, dict', bus') \<and> tpdo_ok dict' mp vals T (W\<lparr>wd_bus := bus'\<rparr>) \<and> unat (tp_dataLength T) = length bs \<and>
    tpdo_ident T bus' = can_id env (pdo_ident (tc_COB_IDUsedByTPDO comm) dflt nodeId) False \<and>
    tp_sendRequest T \<and> tp_inhibitTimer T = 0"
proof -
  obtain d1 d2 where d: "CO_OD_configure dict idx1 (Some ODF_TPDOcom) (Some obj_tpdo) None 0 = Some d1"
    "CO_OD_configure d1 idx2 (Some ODF_TPDOmap) (Some obj_tpdo) None 0 = Some d2" "od_inv d2" "sdo_OD d2 = sdo_OD dict" "no_functions d2 mp"
    using register_both [OF assms(1)] by blast
  define T1 where "T1 = T0\<lparr>tp_nodeId := nodeId, tp_defaultCOB_ID := dflt, tp_restrictionFlags := flags,
     tp_CANdevTxIdx := txIdx, tp_inhibitTimer := 0, tp_eventTimer := ucast (tc_eventTimer comm) * 1000, tp_sendRequest := True\<rparr>"
  have lay: "pdo_layout d2 True (mapped mp) = Some bs" using assms(3) pdo_layout_cong [OF d(4)] by simp
  have n: "unat (mp_numberOfMappedObjects mp) \<le> length (mp_mappedObjects mp)" using d(5) by (simp add: no_functions_def)
  have "length (tp_mapPointer T1) = 8" using assms(2) by (simp add: T1_def)
  from tpdo_configMap [OF d(3) this n, of bus, folded mapped_def, unfolded lay option.case] obtain ret len cf ptrs where
    m: "CO_TPDOconfigMap d2 T1 mp bus (mp_numberOfMappedObjects mp) =
        Some (ret, T1\<lparr>tp_mapPointer := ptrs, tp_sendIfCOSFlags := cf, tp_dataLength := len\<rparr>, bus)"
      "length ptrs = 8" "unat len = length bs" "take (length bs) ptrs = map fst bs"
    by (auto simp: mapped_as_def)
  have len: "len \<noteq> 0" "length bs \<le> 8" using m(3) assms(3,4) by (auto simp: pdo_layout_def split: option.splits if_splits)
  define T where "T = T1\<lparr>tp_mapPointer := ptrs, tp_sendIfCOSFlags := cf, tp_dataLength := len, tp_syncCounter := 255, tp_valid := True,
     tp_CANtxBuff := Some (unat txIdx)\<rparr>"
  define buf where "buf = (bus_buf bus (unat txIdx))\<lparr>tx_ident := can_id env (pdo_ident (tc_COB_IDUsedByTPDO comm) dflt nodeId) False,
     tx_DLC := len, tx_bufferFull := False, tx_syncFlag := tc_transmissionType comm \<le> 240\<rparr>"
  define bus' where "bus' = bus_upd_buf bus (unat txIdx) (\<lambda>_. buf)"
  have ty: "\<not> tc_transmissionType comm < 254" "\<not> 240 < tc_SYNCStartValue comm" using assms(6,7) by simp_all
  have "CO_TPDOconfigCom env (T1\<lparr>tp_mapPointer := ptrs, tp_sendIfCOSFlags := cf, tp_dataLength := len, tp_syncCounter := 255\<rparr>) bus
      (tc_COB_IDUsedByTPDO comm) (tc_transmissionType comm \<le> 240) = (T, bus')"
    using assms(5,10) len(1)
    by (simp add: CO_TPDOconfigCom_def pdo_used_def cob_used_def CO_CANtxBufferInit_def Let_def T_def T1_def bus'_def buf_def bus_upd_buf_def
        bus_buf_def not_le)
  then have "CO_TPDO_init env (Some T0) dict nodeId dflt flags comm mp idx1 idx2 bus txIdx = Some (CO_ERROR_NO, Some T, d2, bus')"
    using assms(6) d(1,2) m(1) by (simp add: CO_TPDO_init_def T1_def [symmetric] ty)
  moreover have idx: "unat txIdx < length (can_txArray (bus_can bus))" using assms(8,10) by (simp add: bus_inv_def word_less_nat_alt)
  then have b: "bus_buf bus' (unat txIdx) = buf" by (simp add: bus'_def bus_buf_upd)
  have "tpdo_ptrs T = map fst bs" using m(3,4) by (simp add: tpdo_ptrs_def T_def)
  then have "tpdo_ok d2 mp vals T (W\<lparr>wd_bus := bus'\<rparr>)"
    using d(3,5) assms(9,11,13) m(2,3) len(2) idx pdo_gather_cong [OF d(4)]
    by (simp add: tpdo_ok_def T_def bus_ready_def b buf_def) (simp add: bus'_def)
  moreover have "tpdo_ident T bus' = can_id env (pdo_ident (tc_COB_IDUsedByTPDO comm) dflt nodeId) False"
    by (simp add: tpdo_ident_def T_def b buf_def)
  ultimately show ?thesis using m(3) by (intro exI [of _ T] exI [of _ d2] exI [of _ bus']) (simp add: T_def T1_def)
qed

lemma rpdo_init_ok:
  assumes "registrable dict mp idx1 idx2" "rpdo_wf R0" "pdo_layout dict False (mapped mp) = Some bs" "bs \<noteq> []"
    and "cob_used (rc_COB_IDUsedByRPDO comm)" "\<not> rc_transmissionType comm \<le> 240"
    and "bus_inv bus" "rxIdx < can_rxSize (bus_can bus)" "\<forall>l x. env_ioctl env l x = 0"
  shows "\<exists>R dict' bus'. CO_RPDO_init env (Some R0) dict nodeId dflt flags comm mp idx1 idx2 bus rxIdx =
      Some (CO_ERROR_NO, Some R, dict', bus') \<and> od_inv dict' \<and> no_functions dict' mp \<and> rpdo_wf R \<and> rp_valid R \<and> \<not> rp_synchronous R \<and>
    unat (rp_dataLength R) = length bs \<and> rpdo_ptrs R = map fst bs \<and>
    rx_ident (can_rxArray (bus_can bus') ! unat rxIdx) = can_id env (pdo_ident (rc_COB_IDUsedByRPDO comm) dflt nodeId) False \<and>
    rx_CANrx_callback (can_rxArray (bus_can bus') ! unat rxIdx) = Some CB_PDO_receive"
proof -
  obtain d1 d2 where d: "CO_OD_configure dict idx1 (Some ODF_RPDOcom) (Some obj_rpdo) None 0 = Some d1"
    "CO_OD_configure d1 idx2 (Some ODF_RPDOmap) (Some obj_rpdo) None 0 = Some d2" "od_inv d2" "sdo_OD d2 = sdo_OD dict" "no_functions d2 mp"
    using register_both [OF assms(1)] by blast
  define R1 where "R1 = R0\<lparr>rp_nodeId := nodeId, rp_defaultCOB_ID := dflt, rp_restrictionFlags := flags,
     rp_pFunctSignalPre := False, rp_CANrxNew := [False, False], rp_CANdevRxIdx := rxIdx\<rparr>"
  have lay: "pdo_layout d2 False (mapped mp) = Some bs" using assms(3) pdo_layout_cong [OF d(4)] by simp
  have n: "unat (mp_numberOfMappedObjects mp) \<le> length (mp_mappedObjects mp)" using d(5) by (simp add: no_functions_def)
  have "length (rp_mapPointer R1) = 8" using assms(2) by (simp add: R1_def rpdo_wf_def)
  from rpdo_configMap [OF d(3) this n, of bus, folded mapped_def, unfolded lay] obtain ret len ptrs where
    m: "CO_RPDOconfigMap d2 R1 mp bus (mp_numberOfMappedObjects mp) = Some (ret, R1\<lparr>rp_mapPointer := ptrs, rp_dataLength := len\<rparr>, bus)"
      "length ptrs = 8" "unat len = length bs" "take (length bs) ptrs = map fst bs"
    by (auto simp: mapped_as_def)
  have len: "len \<noteq> 0" "length bs \<le> 8" using m(3) assms(3,4) by (auto simp: pdo_layout_def split: option.splits if_splits)
  define R where "R = R1\<lparr>rp_mapPointer := ptrs, rp_dataLength := len, rp_valid := True, rp_synchronous := False\<rparr>"
  let ?id = "pdo_ident (rc_COB_IDUsedByRPDO comm) dflt nodeId"
  have nl: "\<not> can_rxSize (bus_can bus) \<le> rxIdx" "unat rxIdx < length (can_rxArray (bus_can bus))"
    using assms(7,8) by (simp, simp add: bus_inv_def word_less_nat_alt)
  obtain bus' where rx: "CO_CANrxBufferInit env bus rxIdx ?id 0x7FF False (Some obj_rpdo) (Some CB_PDO_receive) = (CO_ERROR_NO, bus')"
    "rx_ident (can_rxArray (bus_can bus') ! unat rxIdx) = can_id env ?id False"
    "rx_CANrx_callback (can_rxArray (bus_can bus') ! unat rxIdx) = Some CB_PDO_receive"
    using assms(9) nl by (simp add: CO_CANrxBufferInit_def can_ioctl_def Let_def)
  have "CO_RPDOconfigCom env (R1\<lparr>rp_mapPointer := ptrs, rp_dataLength := len\<rparr>) comm bus (rc_COB_IDUsedByRPDO comm) = (R, bus')"
    using assms(5,6) len(1) rx(1) by (simp add: CO_RPDOconfigCom_def pdo_used_def cob_used_def Let_def R_def R1_def)
  then have "CO_RPDO_init env (Some R0) dict nodeId dflt flags comm mp idx1 idx2 bus rxIdx = Some (CO_ERROR_NO, Some R, d2, bus')"
    using d(1,2) m(1) by (simp add: CO_RPDO_init_def R1_def [symmetric])
  moreover have "rpdo_wf R" using assms(2) m(2,3) len(2) by (simp add: rpdo_wf_def R_def R1_def)
  moreover have "rpdo_ptrs R = map fst bs" using m(3,4) by (simp add: rpdo_ptrs_def R_def)
  ultimately show ?thesis using rx(2,3) d(3,5) m(3)
    by (intro exI [of _ R] exI [of _ d2] exI [of _ bus']) (simp add: R_def)
qed

subsection \<open>The values arrive\<close>

lemma rpdo_delivers:
  assumes "rpdo_wf R" "rp_valid R" "\<not> rp_synchronous R" "rpdo_accepts R msg" "od_inv dict" "no_functions dict mp"
    and "\<forall>p \<in> set (rpdo_ptrs R). ptr_writable (length (wd_mem W)) p" "distinct (filter (\<lambda>a. a \<noteq> None) (map ptr_addr (rpdo_ptrs R)))"
  shows "\<exists>R' mem'. CO_RPDO_process odf dict CO_NMT_OPERATIONAL SYNC mp (CO_PDO_receive CO_NMT_OPERATIONAL SYNC R msg) W syncWas [] =
      Some (R', W\<lparr>wd_mem := mem'\<rparr>) \<and>
    (\<forall>i < length (rpdo_ptrs R). \<forall>a. ptr_addr (rpdo_ptrs R ! i) = Some a \<longrightarrow> mem' ! a = rxm_data msg ! i) \<and>
    (\<forall>a. Some a \<notin> ptr_addr ` set (rpdo_ptrs R) \<longrightarrow> mem' ! a = wd_mem W ! a)"
proof -
  define R1 where "R1 = CO_PDO_receive CO_NMT_OPERATIONAL SYNC R msg"
  note b = CO_PDO_receive_buffers [OF assms(1,2,4) R1_def]
  have idx: "rpdo_bufNo SYNC R1 = rpdo_rx_index SYNC R" using assms(3) rpdo_same_index(2) [OF b(6)] by (metis rpdo_index_bufNo)
  have v: "rp_valid R1" "rp_synchronous R1 \<longrightarrow> syncWas" using b(6) assms(2,3) by (simp_all add: rpdo_same_def)
  define n where "n = unat (rp_dataLength R)"
  define ds where "ds = take n (rxm_data msg)"
  have l: "length (rpdo_ptrs R) = n" "length ds = n" using assms(1,4) by (simp_all add: rpdo_ptrs_def rpdo_wf_def ds_def n_def rpdo_accepts_def)
  have f: "fst ` set (zip (rpdo_ptrs R) ds) = set (rpdo_ptrs R)" using l by (simp flip: set_map)
  obtain mem' where m: "pdo_scatter (wd_mem W) (zip (rpdo_ptrs R) ds) = Some mem'"
    "\<forall>a. Some a \<notin> ptr_addr ` set (rpdo_ptrs R) \<longrightarrow> mem' ! a = wd_mem W ! a"
    using pdo_scatter_total [of "zip (rpdo_ptrs R) ds" "wd_mem W"] assms(7) unfolding f by blast
  have "rpdo_store R1 (wd_mem W) (rp_CANrxData R1 ! rpdo_bufNo SYNC R1) = Some mem'"
    using m(1) b(1) rpdo_same_store(1) [OF b(6)] by (simp add: idx rpdo_store_def ds_def n_def)
  from rpdo_process_single [OF b(5) v _ assms(5,6) this, of odf] b(2)
  have "CO_RPDO_process odf dict CO_NMT_OPERATIONAL SYNC mp R1 W syncWas [] =
      Some (R1\<lparr>rp_CANrxNew := (rp_CANrxNew R1)[rpdo_bufNo SYNC R1 := False]\<rparr>, W\<lparr>wd_mem := mem'\<rparr>)" by (simp add: idx)
  moreover have "mem' ! a = rxm_data msg ! i" if "i < n" "ptr_addr (rpdo_ptrs R ! i) = Some a" for i a
    using pdo_scatter_value [OF m(1) _ assms(7,8), of i a] that l by (simp add: ds_def)
  ultimately show ?thesis using m(2) l(1) unfolding R1_def by blast
qed

text \<open>
  C2: a PDO from one node to another, from the initialisation of both. The mapping parameters of the two nodes denote lists of
  bytes, the receiver's not longer than the sender's; both configured identifiers give the same identifier on the
  bus; the sender's transmission type is event driven and the receiver's asynchronous; the device accepts frames and filters; no
  functions are registered on the mapped objects. Then both initialisations succeed, the first call of \<^verbatim>\<open>CO_TPDO_process\<close> in
  the operational state sends one frame, its identifier is the one the receiver's buffer is set up for, and after
  \<^verbatim>\<open>CO_PDO_receive\<close> and \<^verbatim>\<open>CO_RPDO_process\<close> every mapped variable of the receiver holds the values of the sender's variables, byte by
  byte in the order of the mappings, and all its other variables are unchanged.
\<close>

theorem pdo_transfer:
  assumes A: "registrable dictA mpA a1 a2" "length (tp_mapPointer T0) = 8" "pdo_layout dictA True (mapped mpA) = Some bsA"
      "cob_used (tc_COB_IDUsedByTPDO commA)" "254 \<le> tc_transmissionType commA" "tc_SYNCStartValue commA \<le> 240"
      "bus_inv (wd_bus WA)" "can_dev (bus_can (wd_bus WA)) \<noteq> None" "txIdx < can_txSize (bus_can (wd_bus WA))"
      "length (tx_data (bus_buf (wd_bus WA) (unat txIdx))) = 8" "pdo_gather dictA (wd_mem WA) (map fst bsA) = Some vals" "writes_ok envA"
    and B: "registrable dictB mpB b1 b2" "rpdo_wf R0" "pdo_layout dictB False (mapped mpB) = Some bsB" "bsB \<noteq> []"
      "cob_used (rc_COB_IDUsedByRPDO commB)" "\<not> rc_transmissionType commB \<le> 240" "bus_inv busB" "rxIdx < can_rxSize (bus_can busB)"
      "\<forall>l x. env_ioctl envB l x = 0" "\<forall>p \<in> fst ` set bsB. ptr_writable (length (wd_mem WB)) p"
      "distinct (filter (\<lambda>a. a \<noteq> None) (map (ptr_addr \<circ> fst) bsB))"
    and AB: "length bsB \<le> length bsA"
      "can_id envA (pdo_ident (tc_COB_IDUsedByTPDO commA) dfltA nodeA) False = can_id envB (pdo_ident (rc_COB_IDUsedByRPDO commB) dfltB nodeB) False"
  shows "\<exists>T dictA' busA' T' W' f R dictB' busB' R' memB.
    CO_TPDO_init envA (Some T0) dictA nodeA dfltA flagsA commA mpA a1 a2 (wd_bus WA) txIdx = Some (CO_ERROR_NO, Some T, dictA', busA') \<and>
    CO_RPDO_init envB (Some R0) dictB nodeB dfltB flagsB commB mpB b1 b2 busB rxIdx = Some (CO_ERROR_NO, Some R, dictB', busB') \<and>
    CO_TPDO_process envA odfA dictA' CO_NMT_OPERATIONAL SYNCA commA mpA T (WA\<lparr>wd_bus := busA'\<rparr>) False dt None = Some (T', W', None) \<and>
    new_frames busA' (wd_bus W') = [f] \<and>
    fst f = rx_ident (can_rxArray (bus_can busB') ! unat rxIdx) \<and>
    rx_CANrx_callback (can_rxArray (bus_can busB') ! unat rxIdx) = Some CB_PDO_receive \<and>
    CO_RPDO_process odfB dictB' CO_NMT_OPERATIONAL SYNCB mpB (CO_PDO_receive CO_NMT_OPERATIONAL SYNCB R (frame_msg f)) WB syncWas [] =
      Some (R', WB\<lparr>wd_mem := memB\<rparr>) \<and>
    (\<forall>i < length bsB. \<forall>a. ptr_addr (fst (bsB ! i)) = Some a \<longrightarrow> memB ! a = vals ! i) \<and>
    (\<forall>a. Some a \<notin> ptr_addr ` fst ` set bsB \<longrightarrow> memB ! a = wd_mem WB ! a)"
proof -
  have "bsA \<noteq> []" using B(4) AB(1) by auto
  from tpdo_init_ok [OF A(1-3) this A(4-10) refl A(11)] obtain T dictA' busA' where
    T: "CO_TPDO_init envA (Some T0) dictA nodeA dfltA flagsA commA mpA a1 a2 (wd_bus WA) txIdx = Some (CO_ERROR_NO, Some T, dictA', busA')"
      "tpdo_ok dictA' mpA vals T (WA\<lparr>wd_bus := busA'\<rparr>)" "unat (tp_dataLength T) = length bsA"
      "tpdo_ident T busA' = can_id envA (pdo_ident (tc_COB_IDUsedByTPDO commA) dfltA nodeA) False" "tp_sendRequest T" "tp_inhibitTimer T = 0"
    by blast
  obtain R dictB' busB' where
    R: "CO_RPDO_init envB (Some R0) dictB nodeB dfltB flagsB commB mpB b1 b2 busB rxIdx = Some (CO_ERROR_NO, Some R, dictB', busB')"
      "od_inv dictB'" "no_functions dictB' mpB" "rpdo_wf R" "rp_valid R" "\<not> rp_synchronous R"
      "unat (rp_dataLength R) = length bsB" "rpdo_ptrs R = map fst bsB"
      "rx_ident (can_rxArray (bus_can busB') ! unat rxIdx) = can_id envB (pdo_ident (rc_COB_IDUsedByRPDO commB) dfltB nodeB) False"
      "rx_CANrx_callback (can_rxArray (bus_can busB') ! unat rxIdx) = Some CB_PDO_receive"
    using rpdo_init_ok [OF B(1-9)] by blast
  have t: "253 \<le> tc_transmissionType commA" "unat (tp_inhibitTimer T) = 0 - 0" "unat (tp_eventTimer T) = unat (tp_eventTimer T) - 0"
    "0 \<le> unat dt" "unat dt = 0 + unat dt"
    using A(5) T(6) by (simp_all add: word_le_nat_alt)
  have send: "(0 \<le> unat dt \<and> (tp_sendRequest T \<or> tc_eventTimer commA \<noteq> 0 \<and> unat (tp_eventTimer T) \<le> unat dt)) = True"
    using T(5) by simp
  have wb: "wd_bus (WA\<lparr>wd_bus := busA'\<rparr>) = busA'" by simp
  obtain T' W' fs where p: "CO_TPDO_process envA odfA dictA' CO_NMT_OPERATIONAL SYNCA commA mpA T (WA\<lparr>wd_bus := busA'\<rparr>) False dt None = Some (T', W', None)"
      "extends busA' fs (wd_bus W')" "length fs = 1" "\<forall>f \<in> set fs. tpdo_frame T busA' vals f"
    using tpdo_event_step [OF T(2) A(12) t, of odfA SYNCA, unfolded send if_True wb] by blast
  obtain f where fs: "fs = [f]" using p(3) by (cases fs) auto
  have f: "fst f = tpdo_ident T busA'" "fst (snd f) = tp_dataLength T" "take (length vals) (snd (snd f)) = vals" "length (snd (snd f)) = 8"
    using p(4) by (simp_all add: fs tpdo_frame_def)
  have acc: "rpdo_accepts R (frame_msg f)"
    using f(2,4) T(3) R(7) AB(1) by (simp add: rpdo_accepts_def frame_msg_def word_le_nat_alt)
  have w: "\<forall>p \<in> set (rpdo_ptrs R). ptr_writable (length (wd_mem WB)) p" "distinct (filter (\<lambda>a. a \<noteq> None) (map ptr_addr (rpdo_ptrs R)))"
    using B(10,11) by (simp_all add: R(8) comp_def)
  from rpdo_delivers [OF R(4-6) acc R(2,3) w, of odfB SYNCB syncWas] obtain R' memB where
    d: "CO_RPDO_process odfB dictB' CO_NMT_OPERATIONAL SYNCB mpB (CO_PDO_receive CO_NMT_OPERATIONAL SYNCB R (frame_msg f)) WB syncWas [] =
        Some (R', WB\<lparr>wd_mem := memB\<rparr>)"
      "\<forall>i < length (rpdo_ptrs R). \<forall>a. ptr_addr (rpdo_ptrs R ! i) = Some a \<longrightarrow> memB ! a = rxm_data (frame_msg f) ! i"
      "\<forall>a. Some a \<notin> ptr_addr ` set (rpdo_ptrs R) \<longrightarrow> memB ! a = wd_mem WB ! a"
    by blast
  have "length vals = length bsA" using pdo_gather_length [OF A(11)] by simp
  then have "snd (snd f) ! i = vals ! i" if "i < length bsB" for i
    using nth_take [of i "length vals" "snd (snd f)", unfolded f(3)] that AB(1) by simp
  then have "\<forall>i < length bsB. \<forall>a. ptr_addr (fst (bsB ! i)) = Some a \<longrightarrow> memB ! a = vals ! i"
    using d(2) by (simp add: R(8) frame_msg_def)
  moreover have "\<forall>a. Some a \<notin> ptr_addr ` fst ` set bsB \<longrightarrow> memB ! a = wd_mem WB ! a" using d(3) by (simp add: R(8))
  moreover have "new_frames busA' (wd_bus W') = [f]" using new_frames_extends [OF p(2)] fs by simp
  moreover have "fst f = rx_ident (can_rxArray (bus_can busB') ! unat rxIdx)" using f(1) T(4) R(9) AB(2) by simp
  ultimately show ?thesis using T(1) R(1,10) p(1) d(1)
    by (intro exI [of _ T] exI [of _ dictA'] exI [of _ busA'] exI [of _ T'] exI [of _ W'] exI [of _ f] exI [of _ R] exI [of _ dictB']
        exI [of _ busB'] exI [of _ R'] exI [of _ memB] conjI)
qed

text \<open>The two-byte variable and the four-byte variable of one node, mapped in this order, to the same variables of another.\<close>

theorem pdo_transfer_witness:
  "\<exists>T dictA' busA' T' W' f R dictB' busB' R' memB.
    CO_TPDO_init (example_env 0) (Some example_tpdo) example_pdo_dict 5 0x180 0 (example_tpdo_comm 255) example_pdo_map 0x1800 0x1A00
      example_bus 0 = Some (CO_ERROR_NO, Some T, dictA', busA') \<and>
    CO_RPDO_init (example_env 0) (Some example_rpdo) example_pdo_dict 6 0x200 0 \<lparr>rc_COB_IDUsedByRPDO = 0x181, rc_transmissionType = 255\<rparr>
      example_pdo_map 0x1400 0x1600 example_bus 0 = Some (CO_ERROR_NO, Some R, dictB', busB') \<and>
    CO_TPDO_process (example_env 0) no_odf dictA' CO_NMT_OPERATIONAL None (example_tpdo_comm 255) example_pdo_map T
      (example_pdo_world\<lparr>wd_bus := busA'\<rparr>) False 1000 None = Some (T', W', None) \<and>
    new_frames busA' (wd_bus W') = [f] \<and>
    CO_RPDO_process no_odf dictB' CO_NMT_OPERATIONAL None example_pdo_map (CO_PDO_receive CO_NMT_OPERATIONAL None R (frame_msg f))
      (example_pdo_world\<lparr>wd_mem := replicate 7 0\<rparr>) False [] = Some (R', example_pdo_world\<lparr>wd_mem := memB\<rparr>) \<and>
    memB ! 4 = 14 \<and> memB ! 5 = 15 \<and> memB ! 0 = 10 \<and> memB ! 3 = 13 \<and> memB ! 6 = 0"
proof -
  have t: "mapped example_pdo_map = [0x21000010, 0x20000020]" by (simp add: mapped_def example_pdo_map_def)
  have reg: "registrable example_pdo_dict example_pdo_map i j" if "i < 0x2000" "j < 0x2000" for i j
    using that example_pdo_dict_inv example_no_functions by (auto simp: registrable_def t)
  have bytes: "map fst example_pdo_bytes = [(PB_od (OAddr 4), 0), (PB_od (OAddr 4), 1), (PB_od (OAddr 0), 0), (PB_od (OAddr 0), 1),
      (PB_od (OAddr 0), 2), (PB_od (OAddr 0), 3)]"
    by (simp add: example_pdo_bytes_def object_bytes_def upt_rec)
  have bus: "bus_inv example_bus" using example_bus_inv by (simp add: bus_dev_inv_def)
  have vals: "pdo_gather example_pdo_dict (wd_mem example_pdo_world) (map fst example_pdo_bytes) = Some [14, 15, 10, 11, 12, 13]"
    unfolding bytes by (simp add: example_pdo_world_def pdo_read_def nth_opt_def)
  have wr: "\<forall>p \<in> fst ` set example_pdo_bytes. ptr_writable (length (wd_mem (example_pdo_world\<lparr>wd_mem := replicate 7 0\<rparr>))) p"
    unfolding set_map [symmetric] bytes by (simp add: ptr_writable_def)
  have di: "distinct (filter (\<lambda>a. a \<noteq> None) (map (ptr_addr \<circ> fst) example_pdo_bytes))"
    unfolding map_map [symmetric] bytes by (simp add: ptr_addr_def)
  have "length (tp_mapPointer example_tpdo) = 8" "cob_used (tc_COB_IDUsedByTPDO (example_tpdo_comm 255))"
    "254 \<le> tc_transmissionType (example_tpdo_comm 255)" "tc_SYNCStartValue (example_tpdo_comm 255) \<le> 240"
    "bus_inv (wd_bus example_pdo_world)" "can_dev (bus_can (wd_bus example_pdo_world)) \<noteq> None" "0 < can_txSize (bus_can (wd_bus example_pdo_world))"
    "length (tx_data (bus_buf (wd_bus example_pdo_world) (unat (0 :: u16)))) = 8"
    using bus by (simp_all add: example_tpdo_def example_tpdo_comm_def cob_used_def example_pdo_world_def bus_buf_def)
      (simp_all add: example_bus_def example_tx_def)
  note A = this
  let ?comm = "\<lparr>rc_COB_IDUsedByRPDO = 0x181, rc_transmissionType = 255\<rparr>"
  have "rpdo_wf example_rpdo" "example_pdo_bytes \<noteq> []" "cob_used (rc_COB_IDUsedByRPDO ?comm)" "\<not> rc_transmissionType ?comm \<le> 240"
    "0 < can_rxSize (bus_can example_bus)" "\<forall>l x. env_ioctl (example_env 0) l x = 0"
    by (simp_all add: rpdo_wf_def example_rpdo_def cob_used_def example_bus_def example_env_def example_pdo_bytes_def object_bytes_def)
  note B = this
  have id: "can_id (example_env 0) (pdo_ident (tc_COB_IDUsedByTPDO (example_tpdo_comm 255)) 0x180 5) False =
      can_id (example_env 0) (pdo_ident (rc_COB_IDUsedByRPDO ?comm) 0x200 6) False"
    by (simp add: example_tpdo_comm_def pdo_ident_def)
  have lay: "pdo_layout example_pdo_dict tx (mapped example_pdo_map) = Some example_pdo_bytes" for tx unfolding t by (rule example_pdo_layout)
  have regs: "registrable example_pdo_dict example_pdo_map 0x1800 0x1A00" "registrable example_pdo_dict example_pdo_map 0x1400 0x1600"
    by (rule reg; simp)+
  obtain T dictA' busA' T' W' f R dictB' busB' R' memB where r:
    "CO_TPDO_init (example_env 0) (Some example_tpdo) example_pdo_dict 5 0x180 0 (example_tpdo_comm 255) example_pdo_map 0x1800 0x1A00
      (wd_bus example_pdo_world) 0 = Some (CO_ERROR_NO, Some T, dictA', busA')"
    "CO_RPDO_init (example_env 0) (Some example_rpdo) example_pdo_dict 6 0x200 0 ?comm
      example_pdo_map 0x1400 0x1600 example_bus 0 = Some (CO_ERROR_NO, Some R, dictB', busB')"
    "CO_TPDO_process (example_env 0) no_odf dictA' CO_NMT_OPERATIONAL None (example_tpdo_comm 255) example_pdo_map T
      (example_pdo_world\<lparr>wd_bus := busA'\<rparr>) False 1000 None = Some (T', W', None)" "new_frames busA' (wd_bus W') = [f]"
    "CO_RPDO_process no_odf dictB' CO_NMT_OPERATIONAL None example_pdo_map (CO_PDO_receive CO_NMT_OPERATIONAL None R (frame_msg f))
      (example_pdo_world\<lparr>wd_mem := replicate 7 0\<rparr>) False [] = Some (R', example_pdo_world\<lparr>wd_mem := replicate 7 0\<rparr>\<lparr>wd_mem := memB\<rparr>)"
    and m: "\<forall>i < length example_pdo_bytes. \<forall>a. ptr_addr (fst (example_pdo_bytes ! i)) = Some a \<longrightarrow> memB ! a = [14, 15, 10, 11, 12, 13] ! i"
    "\<forall>a. Some a \<notin> ptr_addr ` fst ` set example_pdo_bytes \<longrightarrow> memB ! a = wd_mem (example_pdo_world\<lparr>wd_mem := replicate 7 0\<rparr>) ! a"
    using pdo_transfer [OF regs(1) A(1) lay A(2-8) vals example_writes_ok regs(2) B(1) lay B(2-4) bus B(5,6) wr di order_refl id,
        of 0 0 no_odf None 1000 no_odf None False] by blast
  have v: "memB ! a = [14, 15, 10, 11, 12, 13] ! i" if "i < 6" "ptr_addr (map fst example_pdo_bytes ! i) = Some a" for i a
    using m(1) that by simp
  have "memB ! 4 = 14" "memB ! 5 = 15" "memB ! 0 = 10" "memB ! 3 = 13"
    using v [of 0 4] v [of 1 5] v [of 2 0] v [of 5 3] unfolding bytes by (simp_all add: ptr_addr_def)
  moreover have "memB ! 6 = 0"
    using m(2) [rule_format, of 6] unfolding set_map [symmetric] bytes by (simp add: ptr_addr_def)
  moreover have e: "wd_bus example_pdo_world = example_bus"
    "example_pdo_world\<lparr>wd_mem := replicate 7 0\<rparr>\<lparr>wd_mem := memB\<rparr> = example_pdo_world\<lparr>wd_mem := memB\<rparr>"
    by (simp_all add: example_pdo_world_def)
  ultimately show ?thesis using r [unfolded e]
    by (intro exI [of _ T] exI [of _ dictA'] exI [of _ busA'] exI [of _ T'] exI [of _ W'] exI [of _ f] exI [of _ R] exI [of _ dictB']
        exI [of _ busB'] exI [of _ R'] exI [of _ memB] conjI)
qed

end
