(* ===== verification/PDO_Access.thy ===== *)
theory PDO_Access
  imports PDO_Transfer
begin

section \<open>Reconfiguration of PDOs\<close>

text \<open>
  The access functions of the communication and mapping parameters, as the SDO server calls them: a PDO in use is protected,
  and the procedure of disabling it, writing a new mapping and enabling it again gives the new mapping. Then the findings.
\<close>

definition write_arg :: "CO_ODF_arg_t \<Rightarrow> u8 \<Rightarrow> bool" where
  "write_arg arg sub \<longleftrightarrow> \<not> arg_reading arg \<and> arg_subIndex arg = sub"

definition write_allowed :: "CO_NMT_internalState_t \<Rightarrow> u8 \<Rightarrow> bool" where
  "write_allowed st flags \<longleftrightarrow> pdo_write_refused st flags 0x04 0x01 = CO_SDO_AB_NONE \<and> pdo_write_refused st flags 0x08 0x02 = CO_SDO_AB_NONE"

lemma cob_bits:
  assumes "cob_used cob"
  shows "(cob OR 0x80000000) AND 0x3FFF8000 = 0" "cob AND 0x3FFF8000 = 0" "((cob OR 0x80000000) XOR cob) AND 0x3FFFFFFF = 0"
    "(cob OR 0x80000000) AND 0xBFFFF800 \<noteq> 0"
proof -
  have "cob AND 0x3FFF8000 = (cob AND 0xBFFFF800) AND 0x3FFF8000" by (simp add: and.assoc)
  then show c: "cob AND 0x3FFF8000 = 0" using assms by (simp add: cob_used_def)
  show "(cob OR 0x80000000) AND 0x3FFF8000 = 0" using c by (simp add: bit.conj_disj_distrib2)
  have "(cob OR 0x80000000) XOR cob = 0x80000000 AND NOT cob" by (rule bit_word_eqI) (auto simp: bit_simps)
  moreover have "(0x80000000 AND NOT cob) AND 0x3FFFFFFF = (0x80000000 AND 0x3FFFFFFF) AND NOT cob"
    by (simp only: and.assoc and.commute and.left_commute)
  ultimately show "((cob OR 0x80000000) XOR cob) AND 0x3FFFFFFF = 0" by (simp only:) simp
  have "((cob OR 0x80000000) AND 0xBFFFF800) AND 0x80000000 = 0x80000000" by (simp add: and.assoc bit.conj_disj_distrib2)
  then show "(cob OR 0x80000000) AND 0xBFFFF800 \<noteq> 0" by auto
qed

lemma rpdo_disable:
  assumes "write_arg arg 1" "write_allowed st (rp_restrictionFlags R)" "cob_used (rc_COB_IDUsedByRPDO comm)"
    and "CO_getUint32 (arg_data arg) = rc_COB_IDUsedByRPDO comm OR 0x80000000"
    and "CO_getUint32 (arg_data arg) AND 0xFFFF \<noteq> ucast (rp_defaultCOB_ID R) + ucast (rp_nodeId R)" "bus_inv bus"
  shows "\<exists>bus'. CO_ODF_RPDOcom env st comm R bus arg = (CO_SDO_AB_NONE, arg, R\<lparr>rp_valid := False, rp_CANrxNew := [False, False]\<rparr>, bus') \<and>
    bus_inv bus' \<and> can_rxSize (bus_can bus') = can_rxSize (bus_can bus)"
proof -
  have w: "pdo_cob_write (rp_defaultCOB_ID R) (rp_nodeId R) (rp_valid R) (rc_COB_IDUsedByRPDO comm) arg =
      (CO_SDO_AB_NONE, arg, rc_COB_IDUsedByRPDO comm OR 0x80000000)"
    using assms(4,5) cob_bits [OF assms(3)] by (simp add: pdo_cob_write_def Let_def)
  obtain r bus' where rx: "CO_CANrxBufferInit env bus (rp_CANdevRxIdx R) 0 0x7FF False (Some obj_rpdo) (Some CB_PDO_receive) = (r, bus')"
    by fastforce
  have "CO_RPDOconfigCom env R comm bus (rc_COB_IDUsedByRPDO comm OR 0x80000000) =
      (R\<lparr>rp_valid := False, rp_CANrxNew := [False, False]\<rparr>, bus')"
    using cob_bits(4) [OF assms(3)] rx by (simp add: CO_RPDOconfigCom_def pdo_used_def Let_def)
  then show ?thesis using assms(1,2) w CO_CANrxBufferInit_keeps [OF assms(6) rx]
    by (simp add: CO_ODF_RPDOcom_def write_arg_def write_allowed_def Let_def)
qed

lemma rpdo_enable:
  assumes "write_arg arg 1" "write_allowed st (rp_restrictionFlags R)" "cob_used cob" "CO_getUint32 (arg_data arg) = cob"
    and "CO_getUint32 (arg_data arg) AND 0xFFFF \<noteq> ucast (rp_defaultCOB_ID R) + ucast (rp_nodeId R)" "\<not> rp_valid R" "rp_dataLength R \<noteq> 0"
    and "bus_inv bus" "rp_CANdevRxIdx R < can_rxSize (bus_can bus)" "\<forall>l x. env_ioctl env l x = 0"
  shows "\<exists>bus'. CO_ODF_RPDOcom env st comm R bus arg =
      (CO_SDO_AB_NONE, arg, R\<lparr>rp_valid := True, rp_synchronous := rc_transmissionType comm \<le> 240\<rparr>, bus') \<and>
    rx_ident (can_rxArray (bus_can bus') ! unat (rp_CANdevRxIdx R)) = can_id env (pdo_ident cob (rp_defaultCOB_ID R) (rp_nodeId R)) False"
proof -
  have w: "pdo_cob_write (rp_defaultCOB_ID R) (rp_nodeId R) (rp_valid R) (rc_COB_IDUsedByRPDO comm) arg = (CO_SDO_AB_NONE, arg, cob)"
    using assms(4-6) cob_bits(2) [OF assms(3)] by (simp add: pdo_cob_write_def Let_def)
  have nl: "\<not> can_rxSize (bus_can bus) \<le> rp_CANdevRxIdx R" "unat (rp_CANdevRxIdx R) < length (can_rxArray (bus_can bus))"
    using assms(8,9) by (simp, simp add: bus_inv_def word_less_nat_alt)
  obtain bus' where rx: "CO_CANrxBufferInit env bus (rp_CANdevRxIdx R) (pdo_ident cob (rp_defaultCOB_ID R) (rp_nodeId R)) 0x7FF False
      (Some obj_rpdo) (Some CB_PDO_receive) = (CO_ERROR_NO, bus')"
    "rx_ident (can_rxArray (bus_can bus') ! unat (rp_CANdevRxIdx R)) = can_id env (pdo_ident cob (rp_defaultCOB_ID R) (rp_nodeId R)) False"
    using assms(10) nl by (simp add: CO_CANrxBufferInit_def can_ioctl_def Let_def)
  have "CO_RPDOconfigCom env R comm bus cob = (R\<lparr>rp_valid := True, rp_synchronous := rc_transmissionType comm \<le> 240\<rparr>, bus')"
    using assms(3,7) rx(1) by (simp add: CO_RPDOconfigCom_def pdo_used_def cob_used_def Let_def)
  then show ?thesis using assms(1,2) w rx(2) by (simp add: CO_ODF_RPDOcom_def write_arg_def write_allowed_def Let_def)
qed

lemma rpdo_map_count:
  assumes "write_arg arg 0" "write_allowed st (rp_restrictionFlags R)" "\<not> rp_valid R" "arg_data arg ! 0 = n" "n \<le> 8"
    and "od_inv dict" "length (rp_mapPointer R) = 8" "unat n \<le> length (mp_mappedObjects mp)"
    and "pdo_layout dict False (take (unat n) (mp_mappedObjects mp)) = Some bs"
  shows "\<exists>len ptrs. CO_ODF_RPDOmap st dict mp R bus arg = Some (CO_SDO_AB_NONE, arg, R\<lparr>rp_mapPointer := ptrs, rp_dataLength := len\<rparr>, bus) \<and>
    length ptrs = 8 \<and> unat len = length bs \<and> take (length bs) ptrs = map fst bs"
proof -
  obtain ret len ptrs bus' where c: "CO_RPDOconfigMap dict R mp bus n = Some (ret, R\<lparr>rp_mapPointer := ptrs, rp_dataLength := len\<rparr>, bus')"
    "length ptrs = 8" "mapped_as (Some bs) ret len ptrs" "bus' = bus"
    using rpdo_configMap [OF assms(6-8), of bus, unfolded assms(9)] by auto
  have "pdo_map_access st dict False (rp_restrictionFlags R) (rp_valid R) (rp_dataLength R) arg = Some (CO_SDO_AB_NONE, arg, Some n)"
    using assms(1-5) by (simp add: pdo_map_access_def write_arg_def write_allowed_def Let_def)
  then show ?thesis using c by (intro exI [of _ len] exI [of _ ptrs]) (simp add: CO_ODF_RPDOmap_def mapped_as_def)
qed

lemma rpdo_map_object:
  assumes "write_arg arg sub" "sub \<noteq> 0" "write_allowed st (rp_restrictionFlags R)" "\<not> rp_valid R" "rp_dataLength R = 0" "od_inv dict"
    and "pdo_object dict False (CO_getUint32 (arg_data arg)) = Some (b, k, c)" "k \<le> 8"
  shows "CO_ODF_RPDOmap st dict mp R bus arg = Some (CO_SDO_AB_NONE, arg, R, bus)"
proof -
  obtain r where r: "CO_PDOfindMap dict (CO_getUint32 (arg_data arg)) False 0 0 = Some r" "fst r = CO_SDO_AB_NONE"
    using CO_PDOfindMap_spec [OF assms(6), of 0 "CO_getUint32 (arg_data arg)" False 0] assms(7,8) by auto
  then show ?thesis using assms(1-5)
    by (cases r) (simp add: CO_ODF_RPDOmap_def pdo_map_access_def write_arg_def write_allowed_def Let_def)
qed

text \<open>
  C15: a receive PDO is reconfigured by the usual writes through the SDO server. While it is valid, every write to its mapping is
  refused and changes nothing, and so is a COB-ID that differs in bits 0 to 29. Writing its COB-ID with bit 31 set disables
  it; then writing 0 to the number of mapped objects, the new objects one by one (each that may be mapped is accepted),
  their number and the COB-ID without bit 31 makes it valid with exactly the bytes of the new mapping, received under the configured
  identifier.
\<close>

theorem rpdo_reconfigured:
  assumes "od_inv dict" "rpdo_wf R" "write_allowed st (rp_restrictionFlags R)"
    and cob: "cob_used (rc_COB_IDUsedByRPDO comm)"
      "rc_COB_IDUsedByRPDO comm AND 0xFFFF \<noteq> ucast (rp_defaultCOB_ID R) + ucast (rp_nodeId R)"
    and mos: "unat n \<le> length (mp_mappedObjects mp')" "n \<le> 8" "pdo_layout dict False (take (unat n) (mp_mappedObjects mp')) = Some bs" "bs \<noteq> []"
    and bus: "bus_inv bus" "rp_CANdevRxIdx R < can_rxSize (bus_can bus)" "\<forall>l x. env_ioctl env l x = 0"
    and off: "write_arg off 1" "CO_getUint32 (arg_data off) = rc_COB_IDUsedByRPDO comm OR 0x80000000"
    and on: "write_arg on 1" "CO_getUint32 (arg_data on) = rc_COB_IDUsedByRPDO comm"
    and clr: "write_arg clr 0" "arg_data clr ! 0 = 0" and cnt: "write_arg cnt 0" "arg_data cnt ! 0 = n"
  shows "(rp_valid R \<longrightarrow> (\<forall>arg. \<not> arg_reading arg \<longrightarrow> CO_ODF_RPDOmap st dict mp R bus arg = Some (CO_SDO_AB_UNSUPPORTED_ACCESS, arg, R, bus)) \<and>
      (\<forall>arg. write_arg arg 1 \<and> CO_getUint32 (arg_data arg) AND 0xFFFF \<noteq> ucast (rp_defaultCOB_ID R) + ucast (rp_nodeId R) \<and>
        (CO_getUint32 (arg_data arg) XOR rc_COB_IDUsedByRPDO comm) AND 0x3FFFFFFF \<noteq> 0 \<longrightarrow>
        CO_ODF_RPDOcom env st comm R bus arg = (CO_SDO_AB_INVALID_VALUE, arg, R, bus))) \<and>
    (\<exists>R1 bus1 R2 R3 R4 bus4.
      CO_ODF_RPDOcom env st comm R bus off = (CO_SDO_AB_NONE, off, R1, bus1) \<and> \<not> rp_valid R1 \<and>
      CO_ODF_RPDOmap st dict mp R1 bus1 clr = Some (CO_SDO_AB_NONE, clr, R2, bus1) \<and>
      (\<forall>arg sub b k c. write_arg arg sub \<and> sub \<noteq> 0 \<and> pdo_object dict False (CO_getUint32 (arg_data arg)) = Some (b, k, c) \<and> k \<le> 8 \<longrightarrow>
        CO_ODF_RPDOmap st dict mp R2 bus1 arg = Some (CO_SDO_AB_NONE, arg, R2, bus1)) \<and>
      CO_ODF_RPDOmap st dict mp' R2 bus1 cnt = Some (CO_SDO_AB_NONE, cnt, R3, bus1) \<and>
      CO_ODF_RPDOcom env st comm R3 bus1 on = (CO_SDO_AB_NONE, on, R4, bus4) \<and>
      rp_valid R4 \<and> unat (rp_dataLength R4) = length bs \<and> rpdo_ptrs R4 = map fst bs \<and>
      rx_ident (can_rxArray (bus_can bus4) ! unat (rp_CANdevRxIdx R)) =
        can_id env (pdo_ident (rc_COB_IDUsedByRPDO comm) (rp_defaultCOB_ID R) (rp_nodeId R)) False)"
proof
  show "rp_valid R \<longrightarrow> (\<forall>arg. \<not> arg_reading arg \<longrightarrow> CO_ODF_RPDOmap st dict mp R bus arg = Some (CO_SDO_AB_UNSUPPORTED_ACCESS, arg, R, bus)) \<and>
      (\<forall>arg. write_arg arg 1 \<and> CO_getUint32 (arg_data arg) AND 0xFFFF \<noteq> ucast (rp_defaultCOB_ID R) + ucast (rp_nodeId R) \<and>
        (CO_getUint32 (arg_data arg) XOR rc_COB_IDUsedByRPDO comm) AND 0x3FFFFFFF \<noteq> 0 \<longrightarrow>
        CO_ODF_RPDOcom env st comm R bus arg = (CO_SDO_AB_INVALID_VALUE, arg, R, bus))"
    using assms(3) by (auto simp: CO_ODF_RPDOmap_def pdo_map_access_def CO_ODF_RPDOcom_def pdo_cob_write_def write_arg_def write_allowed_def Let_def)
  define R1 where "R1 = R\<lparr>rp_valid := False, rp_CANrxNew := [False, False]\<rparr>"
  have low: "(rc_COB_IDUsedByRPDO comm OR 0x80000000) AND 0xFFFF = rc_COB_IDUsedByRPDO comm AND 0xFFFF" by (simp add: bit.conj_disj_distrib2)
  have R1: "write_allowed st (rp_restrictionFlags R1)" "\<not> rp_valid R1" "length (rp_mapPointer R1) = 8"
    using assms(2,3) by (simp_all add: R1_def rpdo_wf_def)
  obtain bus1 where 1: "CO_ODF_RPDOcom env st comm R bus off = (CO_SDO_AB_NONE, off, R1, bus1)" "bus_inv bus1"
    "can_rxSize (bus_can bus1) = can_rxSize (bus_can bus)"
    using rpdo_disable [OF off(1) assms(3) cob(1) off(2) _ bus(1), of env] cob(2) off(2) low unfolding R1_def by auto
  have lay0: "pdo_layout dict False (take (unat (0 :: u8)) (mp_mappedObjects mp)) = Some []" by (simp add: pdo_layout_def)
  obtain ptrs2 len2 where 2: "CO_ODF_RPDOmap st dict mp R1 bus1 clr = Some (CO_SDO_AB_NONE, clr, R1\<lparr>rp_mapPointer := ptrs2, rp_dataLength := len2\<rparr>, bus1)"
    "length ptrs2 = 8" "len2 = 0"
    using rpdo_map_count [OF clr(1) R1(1,2) clr(2) _ assms(1) R1(3) _ lay0, of bus1] by (auto simp: unat_eq_zero)
  define R2 where "R2 = R1\<lparr>rp_mapPointer := ptrs2, rp_dataLength := len2\<rparr>"
  have R2: "write_allowed st (rp_restrictionFlags R2)" "\<not> rp_valid R2" "rp_dataLength R2 = 0" "length (rp_mapPointer R2) = 8"
    using R1 2(2,3) by (simp_all add: R2_def)
  obtain ptrs3 len3 where 3: "CO_ODF_RPDOmap st dict mp' R2 bus1 cnt = Some (CO_SDO_AB_NONE, cnt, R2\<lparr>rp_mapPointer := ptrs3, rp_dataLength := len3\<rparr>, bus1)"
    "length ptrs3 = 8" "unat len3 = length bs" "take (length bs) ptrs3 = map fst bs"
    using rpdo_map_count [OF cnt(1) R2(1,2) cnt(2) mos(2) assms(1) R2(4) mos(1,3), of bus1] by blast
  define R3 where "R3 = R2\<lparr>rp_mapPointer := ptrs3, rp_dataLength := len3\<rparr>"
  have R3: "write_allowed st (rp_restrictionFlags R3)" "\<not> rp_valid R3" "rp_dataLength R3 \<noteq> 0" "rp_CANdevRxIdx R3 = rp_CANdevRxIdx R"
    "rp_defaultCOB_ID R3 = rp_defaultCOB_ID R" "rp_nodeId R3 = rp_nodeId R"
    using R2(1,2) 3(3) mos(4) by (auto simp: R3_def R2_def R1_def)
  define R4 where "R4 = R3\<lparr>rp_valid := True, rp_synchronous := rc_transmissionType comm \<le> 240\<rparr>"
  obtain bus4 where 4: "CO_ODF_RPDOcom env st comm R3 bus1 on = (CO_SDO_AB_NONE, on, R4, bus4)"
    "rx_ident (can_rxArray (bus_can bus4) ! unat (rp_CANdevRxIdx R)) =
      can_id env (pdo_ident (rc_COB_IDUsedByRPDO comm) (rp_defaultCOB_ID R) (rp_nodeId R)) False"
    using rpdo_enable [OF on(1) R3(1) cob(1) on(2) _ R3(2,3) 1(2) _ bus(3)] cob(2) on(2) bus(2) 1(3) R3(4-6) unfolding R4_def by auto
  have obj: "\<forall>arg sub b k c. write_arg arg sub \<and> sub \<noteq> 0 \<and> pdo_object dict False (CO_getUint32 (arg_data arg)) = Some (b, k, c) \<and> k \<le> 8 \<longrightarrow>
      CO_ODF_RPDOmap st dict mp R2 bus1 arg = Some (CO_SDO_AB_NONE, arg, R2, bus1)"
    using rpdo_map_object [OF _ _ R2(1-3) assms(1)] by blast
  have final: "rp_valid R4" "unat (rp_dataLength R4) = length bs" "rpdo_ptrs R4 = map fst bs"
    using 3(3,4) by (simp_all add: R4_def R3_def rpdo_ptrs_def)
  show "\<exists>R1 bus1 R2 R3 R4 bus4.
      CO_ODF_RPDOcom env st comm R bus off = (CO_SDO_AB_NONE, off, R1, bus1) \<and> \<not> rp_valid R1 \<and>
      CO_ODF_RPDOmap st dict mp R1 bus1 clr = Some (CO_SDO_AB_NONE, clr, R2, bus1) \<and>
      (\<forall>arg sub b k c. write_arg arg sub \<and> sub \<noteq> 0 \<and> pdo_object dict False (CO_getUint32 (arg_data arg)) = Some (b, k, c) \<and> k \<le> 8 \<longrightarrow>
        CO_ODF_RPDOmap st dict mp R2 bus1 arg = Some (CO_SDO_AB_NONE, arg, R2, bus1)) \<and>
      CO_ODF_RPDOmap st dict mp' R2 bus1 cnt = Some (CO_SDO_AB_NONE, cnt, R3, bus1) \<and>
      CO_ODF_RPDOcom env st comm R3 bus1 on = (CO_SDO_AB_NONE, on, R4, bus4) \<and>
      rp_valid R4 \<and> unat (rp_dataLength R4) = length bs \<and> rpdo_ptrs R4 = map fst bs \<and>
      rx_ident (can_rxArray (bus_can bus4) ! unat (rp_CANdevRxIdx R)) =
        can_id env (pdo_ident (rc_COB_IDUsedByRPDO comm) (rp_defaultCOB_ID R) (rp_nodeId R)) False"
    using 1(1) R1(2) 2(1) [folded R2_def] obj 3(1) [folded R3_def] 4 final
    by (intro exI [of _ R1] exI [of _ bus1] exI [of _ R2] exI [of _ R3] exI [of _ R4] exI [of _ bus4] conjI)
qed

definition example_write :: "u8 \<Rightarrow> u8 list \<Rightarrow> CO_ODF_arg_t" where
  "example_write sub data = (example_arg data)\<lparr>arg_subIndex := sub\<rparr>"

theorem rpdo_reconfigured_witness:
  "\<exists>R1 bus1 R2 R3 R4 bus4.
      CO_ODF_RPDOcom (example_env 0) CO_NMT_OPERATIONAL \<lparr>rc_COB_IDUsedByRPDO = 0x181, rc_transmissionType = 255\<rparr> (example_active_rpdo False)
        example_bus (example_write 1 [0x81, 1, 0, 0x80]) = (CO_SDO_AB_NONE, example_write 1 [0x81, 1, 0, 0x80], R1, bus1) \<and>
      CO_ODF_RPDOmap CO_NMT_OPERATIONAL example_pdo_dict example_pdo_map R1 bus1 (example_write 0 [0]) =
        Some (CO_SDO_AB_NONE, example_write 0 [0], R2, bus1) \<and>
      CO_ODF_RPDOmap CO_NMT_OPERATIONAL example_pdo_dict example_pdo_map R2 bus1 (example_write 0 [2]) =
        Some (CO_SDO_AB_NONE, example_write 0 [2], R3, bus1) \<and>
      CO_ODF_RPDOcom (example_env 0) CO_NMT_OPERATIONAL \<lparr>rc_COB_IDUsedByRPDO = 0x181, rc_transmissionType = 255\<rparr> R3 bus1
        (example_write 1 [0x81, 1, 0, 0]) = (CO_SDO_AB_NONE, example_write 1 [0x81, 1, 0, 0], R4, bus4) \<and>
      rp_valid R4 \<and> unat (rp_dataLength R4) = 6"
proof -
  let ?R = "example_active_rpdo False" and ?comm = "\<lparr>rc_COB_IDUsedByRPDO = 0x181, rc_transmissionType = 255\<rparr>"
  have R: "rp_restrictionFlags ?R = 0" "rp_defaultCOB_ID ?R = 0" "rp_nodeId ?R = 0" "rp_CANdevRxIdx ?R = 0"
    by (simp_all add: example_active_rpdo_def example_rpdo_def)
  have w: "write_arg (example_write sub ds) sub" "arg_data (example_write sub ds) = ds" for sub ds
    by (simp_all add: write_arg_def example_write_def example_arg_def)
  have h: "write_allowed CO_NMT_OPERATIONAL (rp_restrictionFlags ?R)" "cob_used (rc_COB_IDUsedByRPDO ?comm)"
    "rc_COB_IDUsedByRPDO ?comm AND 0xFFFF \<noteq> ucast (rp_defaultCOB_ID ?R) + ucast (rp_nodeId ?R)"
    "unat (2 :: u8) \<le> length (mp_mappedObjects example_pdo_map)" "(2 :: u8) \<le> 8"
    "pdo_layout example_pdo_dict False (take (unat (2 :: u8)) (mp_mappedObjects example_pdo_map)) = Some example_pdo_bytes"
    "example_pdo_bytes \<noteq> []" "bus_inv example_bus" "rp_CANdevRxIdx ?R < can_rxSize (bus_can example_bus)"
    "\<forall>l x. env_ioctl (example_env 0) l x = 0"
    using example_pdo_layout [of False] example_bus_inv
    by (simp_all add: R write_allowed_def pdo_write_refused_def cob_used_def example_pdo_map_def bus_dev_inv_def example_bus_def example_env_def
        example_pdo_bytes_def object_bytes_def)
  have d: "CO_getUint32 (arg_data (example_write 1 [0x81, 1, 0, 0x80])) = rc_COB_IDUsedByRPDO ?comm OR 0x80000000"
    "CO_getUint32 (arg_data (example_write 1 [0x81, 1, 0, 0])) = rc_COB_IDUsedByRPDO ?comm"
    "arg_data (example_write 0 [0]) ! 0 = 0" "arg_data (example_write 0 [2]) ! 0 = 2"
    by (simp_all add: w CO_getUint32_def)
  show ?thesis
    using conjunct2 [OF rpdo_reconfigured [OF example_pdo_dict_inv example_active_rpdo_wf h w(1) d(1) w(1) d(2) w(1) d(3) w(1) d(4), of example_pdo_map]]
    unfolding example_pdo_bytes_length by blast
qed

subsection \<open>Findings\<close>

text \<open>A COB-ID with one of the bits 11 to 14 set is accepted (the mask of the check has only the bits 15 to 29) and the PDO is then not used.\<close>

lemma cob_id_bit_11_accepted:
  assumes "write_arg arg 1" "write_allowed st (rp_restrictionFlags R)" "CO_getUint32 (arg_data arg) = 0x0981" "\<not> rp_valid R"
    and "ucast (rp_defaultCOB_ID R) + ucast (rp_nodeId R) \<noteq> (0x0981 :: u32)"
  shows "fst (CO_ODF_RPDOcom env st comm R bus arg) = CO_SDO_AB_NONE" "\<not> rp_valid (fst (snd (snd (CO_ODF_RPDOcom env st comm R bus arg))))"
proof -
  have "(0x0981 :: u32) \<noteq> ucast (rp_defaultCOB_ID R) + ucast (rp_nodeId R)" using assms(5) by metis
  then have "pdo_cob_write (rp_defaultCOB_ID R) (rp_nodeId R) (rp_valid R) (rc_COB_IDUsedByRPDO comm) arg = (CO_SDO_AB_NONE, arg, 0x0981)"
    using assms(3,4) by (simp add: pdo_cob_write_def Let_def)
  then show "fst (CO_ODF_RPDOcom env st comm R bus arg) = CO_SDO_AB_NONE" "\<not> rp_valid (fst (snd (snd (CO_ODF_RPDOcom env st comm R bus arg))))"
    using assms(1,2) by (simp_all add: CO_ODF_RPDOcom_def write_arg_def write_allowed_def Let_def CO_RPDOconfigCom_def pdo_used_def split: prod.splits)
qed

text \<open>A number of mapped objects above 8 in the dictionary is not checked at initialisation: the ninth parameter is read behind the record.\<close>

lemma nine_objects_read_past:
  "CO_RPDOconfigMap dict R \<lparr>mp_numberOfMappedObjects = 9, mp_mappedObjects = replicate 8 0\<rparr> bus 9 = None"
proof -
  have f: "CO_PDOfindMap dict 0 False len flags = Some (CO_SDO_AB_NONE, PB_dummyRX, len, flags)" if "len \<le> 8" for len flags
    using that by (simp add: CO_PDOfindMap_def Let_def dummy_size_def)
  have "pdo_map_loop dict False (Suc n) (replicate n 0) 0 flags ptrs bus = None" for n flags ptrs
    by (induction n arbitrary: flags ptrs) (simp_all add: f)
  moreover have "unat (9 :: u8) = Suc 8" by simp
  ultimately show ?thesis by (simp only: CO_RPDOconfigMap_def CO_PDOMapPar_t.select_convs) simp
qed

text \<open>
  A request of the application is cleared also when the frame is not accepted by the device: the PDO is not sent, and without an event timer
  it is not sent later.
\<close>

lemma CO_TPDOsend_failed:
  assumes "tpdo_ok dict mp vals T W" "\<forall>l f. env_write env l f = -5"
  shows "\<exists>bus'. CO_TPDOsend env odf dict mp T W = Some (CO_ERROR_TX_UNCONFIGURED, T\<lparr>tp_sendRequest := False\<rparr>, W\<lparr>wd_bus := bus'\<rparr>) \<and>
    new_frames (wd_bus W) bus' = []"
proof -
  obtain txb where txb: "tp_CANtxBuff T = Some txb" "txb < length (can_txArray (bus_can (wd_bus W)))" "bus_ready (wd_bus W) txb"
    "length (tx_data (bus_buf (wd_bus W) txb)) = 8"
    and T: "od_inv dict" "no_functions dict mp" "unat (tp_dataLength T) \<le> 8" "length (tp_mapPointer T) = 8"
      "pdo_gather dict (wd_mem W) (tpdo_ptrs T) = Some vals"
    using assms(1) by (auto simp: tpdo_ok_def)
  define bus1 where "bus1 = bus_put txb 0 vals (wd_bus W)"
  have r1: "bus_ready bus1 txb" using txb(2,3) by (simp add: bus1_def bus_put_def bus_ready_def bus_buf_upd)
  have w: "env_write env l f = -5" for l f using assms(2) by blast
  have "\<exists>bus2. CO_CANsend env bus1 (Some txb) = (CO_ERROR_TX_UNCONFIGURED, bus2)"
    using r1 by (simp add: CO_CANsend_def bus_ready_def Let_def EBUSY_def w)
  then obtain bus2 where s: "CO_CANsend env bus1 (Some txb) = (CO_ERROR_TX_UNCONFIGURED, bus2)" by blast
  have "can_sent (bus_can bus2) = can_sent (bus_can (wd_bus W)) @ [(tx_frame (bus_buf bus1 txb), -5)]"
    using CO_CANsend_ready [OF r1, of env] s by (simp add: w bus1_def bus_put_def)
  then have "new_frames (wd_bus W) bus2 = []" by (simp add: new_frames_def)
  moreover have "CO_TPDOsend env odf dict mp T W = Some (CO_ERROR_TX_UNCONFIGURED, T\<lparr>tp_sendRequest := False\<rparr>, W\<lparr>wd_bus := bus2\<rparr>)"
    using txb(1,4) T s by (simp add: CO_TPDOsend_def pdo_extensions_none tpdo_ptrs_def [symmetric] bus1_def [symmetric])
  ultimately show ?thesis by blast
qed

lemma request_lost:
  assumes "tpdo_ok dict mp vals T W" "\<forall>l f. env_write env l f = -5" "254 \<le> tc_transmissionType comm" "tp_sendRequest T" "tp_inhibitTimer T = 0"
  shows "\<exists>T' W'. CO_TPDO_process env odf dict CO_NMT_OPERATIONAL SYNC comm mp T W False dt None = Some (T', W', None) \<and>
    new_frames (wd_bus W) (wd_bus W') = [] \<and> \<not> tp_sendRequest T'"
proof -
  let ?T = "T\<lparr>tp_inhibitTimer := count_down (tp_inhibitTimer T) dt, tp_eventTimer := count_down (tp_eventTimer T) dt\<rparr>"
  have "tpdo_ok dict mp vals ?T W" using assms(1) by simp
  from CO_TPDOsend_failed [OF this assms(2), of odf] obtain bus' where
    s: "CO_TPDOsend env odf dict mp ?T W = Some (CO_ERROR_TX_UNCONFIGURED, ?T\<lparr>tp_sendRequest := False\<rparr>, W\<lparr>wd_bus := bus'\<rparr>)"
      "new_frames (wd_bus W) bus' = []" by blast
  have "tp_valid T" "253 \<le> tc_transmissionType comm" using assms(1,3) by (simp_all add: tpdo_ok_def word_le_nat_alt)
  then have "CO_TPDO_process env odf dict CO_NMT_OPERATIONAL SYNC comm mp T W False dt None =
      Some (?T\<lparr>tp_sendRequest := False\<rparr>, W\<lparr>wd_bus := bus'\<rparr>, None)"
    using assms(4,5) s(1) by (simp add: CO_TPDO_process_def Let_def tpdo_event_def count_down_def)
  then show ?thesis using s(2) by simp
qed

end
