(* ===== verification/PDO_Node.thy ===== *)
theory PDO_Node
  imports PDO_Access
begin

section \<open>PDO processing of the node (\<^verbatim>\<open>CANopen.c\<close>)\<close>

text \<open>
  \<^verbatim>\<open>CO_process_RPDO\<close> and \<^verbatim>\<open>CO_process_TPDO\<close> run all PDOs of the node. The arrays \<^verbatim>\<open>co->RPDO\<close> and \<^verbatim>\<open>co->TPDO\<close> are lists of the objects, each
  with its parameters, and a receive PDO also with the messages that arrive while it is processed.
\<close>

fun rpdo_all ::
    "'w odf_call \<Rightarrow> CO_SDO_OD \<Rightarrow> CO_NMT_internalState_t \<Rightarrow> CO_SYNC_t option \<Rightarrow> bool \<Rightarrow> 'w od_world \<Rightarrow>
     (CO_RPDO_t \<times> CO_PDOMapPar_t \<times> (nat \<times> CO_CANrxMsg_t) list) list \<Rightarrow> (CO_RPDO_t list \<times> 'w od_world) option" where
  "rpdo_all odf dict st SYNC syncWas W [] = Some ([], W)"
| "rpdo_all odf dict st SYNC syncWas W ((R, mp, arrivals) # Rs) = do {
     (R1, W1) \<leftarrow> CO_RPDO_process odf dict st SYNC mp R W syncWas arrivals;
     (Rs1, W2) \<leftarrow> rpdo_all odf dict st SYNC syncWas W1 Rs;
     Some (R1 # Rs1, W2)
   }"

definition CO_process_RPDO ::
    "bool \<Rightarrow> 'w odf_call \<Rightarrow> CO_SDO_OD \<Rightarrow> CO_NMT_internalState_t \<Rightarrow> CO_SYNC_t option \<Rightarrow> bool \<Rightarrow> 'w od_world \<Rightarrow>
     (CO_RPDO_t \<times> CO_PDOMapPar_t \<times> (nat \<times> CO_CANrxMsg_t) list) list \<Rightarrow> (CO_RPDO_t list \<times> 'w od_world) option" where
  "CO_process_RPDO nodeIdUnconfigured odf dict st SYNC syncWas W Rs =
     (if nodeIdUnconfigured then Some (map fst Rs, W) else rpdo_all odf dict st SYNC syncWas W Rs)"

definition tpdo_node_step ::
    "can_env \<Rightarrow> 'w odf_call \<Rightarrow> CO_SDO_OD \<Rightarrow> CO_NMT_internalState_t \<Rightarrow> CO_SYNC_t option \<Rightarrow> CO_TPDOCommPar_t \<Rightarrow> CO_PDOMapPar_t \<Rightarrow>
     CO_TPDO_t \<Rightarrow> 'w od_world \<Rightarrow> bool \<Rightarrow> u32 \<Rightarrow> u32 option \<Rightarrow> (CO_TPDO_t \<times> 'w od_world \<times> u32 option) option" where
  \<comment> \<open>the body of the loop of \<^verbatim>\<open>CO_process_TPDO\<close>\<close>
  "tpdo_node_step env odf dict st SYNC comm mp T W syncWas dt tn = do {
     T1 \<leftarrow> (if tp_sendRequest T then Some T
             else map_option (\<lambda>c. T\<lparr>tp_sendRequest := c\<rparr>) (CO_TPDOisCOS dict (wd_mem W) (wd_bus W) T));
     CO_TPDO_process env odf dict st SYNC comm mp T1 W syncWas dt tn
   }"

fun tpdo_all ::
    "can_env \<Rightarrow> 'w odf_call \<Rightarrow> CO_SDO_OD \<Rightarrow> CO_NMT_internalState_t \<Rightarrow> CO_SYNC_t option \<Rightarrow> bool \<Rightarrow> u32 \<Rightarrow> 'w od_world \<Rightarrow> u32 option \<Rightarrow>
     (CO_TPDO_t \<times> CO_TPDOCommPar_t \<times> CO_PDOMapPar_t) list \<Rightarrow> (CO_TPDO_t list \<times> 'w od_world \<times> u32 option) option" where
  "tpdo_all env odf dict st SYNC syncWas dt W tn [] = Some ([], W, tn)"
| "tpdo_all env odf dict st SYNC syncWas dt W tn ((T, comm, mp) # Ts) = do {
     (T1, W1, tn1) \<leftarrow> tpdo_node_step env odf dict st SYNC comm mp T W syncWas dt tn;
     (Ts1, W2, tn2) \<leftarrow> tpdo_all env odf dict st SYNC syncWas dt W1 tn1 Ts;
     Some (T1 # Ts1, W2, tn2)
   }"

definition CO_process_TPDO ::
    "bool \<Rightarrow> can_env \<Rightarrow> 'w odf_call \<Rightarrow> CO_SDO_OD \<Rightarrow> CO_NMT_internalState_t \<Rightarrow> CO_SYNC_t option \<Rightarrow> bool \<Rightarrow> u32 \<Rightarrow> 'w od_world \<Rightarrow> u32 option \<Rightarrow>
     (CO_TPDO_t \<times> CO_TPDOCommPar_t \<times> CO_PDOMapPar_t) list \<Rightarrow> (CO_TPDO_t list \<times> 'w od_world \<times> u32 option) option" where
  "CO_process_TPDO nodeIdUnconfigured env odf dict st SYNC syncWas dt W tn Ts =
     (if nodeIdUnconfigured then Some (map fst Ts, W, tn) else tpdo_all env odf dict st SYNC syncWas dt W tn Ts)"

subsection \<open>Change of state\<close>

lemma pdo_gather_append:
  "pdo_gather dict mem (ps @ qs) = do { bs \<leftarrow> pdo_gather dict mem ps; cs \<leftarrow> pdo_gather dict mem qs; Some (bs @ cs) }"
  by (induction ps) (auto split: bind_splits)

lemma cos_loop_spec:
  assumes "pdo_gather dict mem (take n ptrs) = Some vals" "n \<le> length ptrs" "n \<le> length ds"
  shows "cos_loop dict mem n flags ds ptrs = Some (\<exists>i < n. ds ! i \<noteq> vals ! i \<and> bit flags i)"
  using assms
proof (induction n arbitrary: vals)
  case 0
  then show ?case by simp
next
  case (Suc n)
  then have "pdo_gather dict mem (take n ptrs @ [ptrs ! n]) = Some vals" by (simp add: take_Suc_conv_app_nth)
  then obtain vs v where v: "pdo_gather dict mem (take n ptrs) = Some vs" "pdo_read dict mem (ptrs ! n) = Some v" "vals = vs @ [v]"
    by (auto simp: pdo_gather_append bind_eq_Some_conv)
  have len: "length vs = n" using pdo_gather_length [OF v(1)] Suc.prems(2) by simp
  have same: "ds ! i \<noteq> vals ! i \<and> bit flags i \<longleftrightarrow> ds ! i \<noteq> vs ! i \<and> bit flags i" if "i < n" for i
    using that len by (simp add: v(3) nth_append)
  have "vals ! n = v" using len by (simp add: v(3) nth_append)
  then show ?case using Suc.IH [OF v(1)] Suc.prems(2,3) v(2) same
    by (auto simp: nth_opt_def less_Suc_eq)
qed

lemma CO_TPDOisCOS_spec:
  assumes "tpdo_ok dict mp vals T W"
  shows "CO_TPDOisCOS dict (wd_mem W) (wd_bus W) T =
    Some (\<exists>i < length vals. bit (tp_sendIfCOSFlags T) i \<and> tpdo_buffer T (wd_bus W) ! i \<noteq> vals ! i)"
proof -
  obtain txb where txb: "tp_CANtxBuff T = Some txb" "length (tx_data (bus_buf (wd_bus W) txb)) = 8"
    and T: "unat (tp_dataLength T) \<le> 8" "length (tp_mapPointer T) = 8" "pdo_gather dict (wd_mem W) (tpdo_ptrs T) = Some vals"
    using assms by (auto simp: tpdo_ok_def)
  have "length vals = unat (tp_dataLength T)" using pdo_gather_length [OF T(3)] T(1,2) by (simp add: tpdo_ptrs_def)
  then show ?thesis using txb T cos_loop_spec [OF T(3) [unfolded tpdo_ptrs_def]]
    by (auto simp: CO_TPDOisCOS_def Let_def tpdo_buffer_def)
qed

definition cos_pending :: "u8 list \<Rightarrow> CO_TPDO_t \<Rightarrow> co_bus \<Rightarrow> bool" where
  \<comment> \<open>a byte marked for detection differs from the frame sent last\<close>
  "cos_pending vals T bus \<longleftrightarrow> (\<exists>i < length vals. bit (tp_sendIfCOSFlags T) i \<and> tpdo_buffer T bus ! i \<noteq> vals ! i)"

lemma cos_step:
  assumes "tpdo_ok dict mp vals T W" "writes_ok env" "254 \<le> tc_transmissionType comm" "tc_eventTimer comm = 0" "\<not> tp_sendRequest T"
    and "tp_inhibitTimer T \<le> dt \<or> \<not> cos_pending vals T (wd_bus W)"
  shows "\<exists>T' W'. CO_process_TPDO False env odf dict CO_NMT_OPERATIONAL SYNC False dt W None [(T, comm, mp)] = Some ([T'], W', None) \<and>
    length (new_frames (wd_bus W) (wd_bus W')) = (if cos_pending vals T (wd_bus W) then 1 else 0) \<and>
    (\<forall>f \<in> set (new_frames (wd_bus W) (wd_bus W')). tpdo_frame T (wd_bus W) vals f) \<and>
    tpdo_ok dict mp vals T' W' \<and> \<not> tp_sendRequest T' \<and> \<not> cos_pending vals T' (wd_bus W') \<and>
    (\<not> cos_pending vals T (wd_bus W) \<longrightarrow> W' = W)"
proof -
  define changed where "changed = cos_pending vals T (wd_bus W)"
  define T1 where "T1 = T\<lparr>tp_sendRequest := changed\<rparr>"
  have T1: "tpdo_ok dict mp vals T1 W" "tp_sendRequest T1 = changed" "tpdo_frame T1 = tpdo_frame T" "tpdo_buffer T1 = tpdo_buffer T"
    "tp_sendIfCOSFlags T1 = tp_sendIfCOSFlags T" "tp_CANtxBuff T1 = tp_CANtxBuff T"
    using assms(1) by (simp_all add: T1_def)
  have t: "253 \<le> tc_transmissionType comm" "unat (tp_inhibitTimer T1) = unat (tp_inhibitTimer T) - 0"
    "unat (tp_eventTimer T1) = unat (tp_eventTimer T) - 0" "0 \<le> unat dt" "unat dt = 0 + unat dt"
    using assms(3) by (simp_all add: word_le_nat_alt T1_def)
  have send: "(unat (tp_inhibitTimer T) \<le> unat dt \<and> (changed \<or> tc_eventTimer comm \<noteq> 0 \<and> unat (tp_eventTimer T) \<le> unat dt)) = changed"
    using assms(4,6) by (auto simp: word_le_nat_alt changed_def)
  obtain T' W' fs where p: "CO_TPDO_process env odf dict CO_NMT_OPERATIONAL SYNC comm mp T1 W False dt None = Some (T', W', None)"
    "extends (wd_bus W) fs (wd_bus W')" "length fs = (if changed then 1 else 0)" "\<forall>f \<in> set fs. tpdo_frame T (wd_bus W) vals f"
    "tpdo_ok dict mp vals T' W'" "tp_sendRequest T' = (changed \<and> \<not> changed)" "tp_sendIfCOSFlags T' = tp_sendIfCOSFlags T" "tp_CANtxBuff T' = tp_CANtxBuff T"
    "changed \<longrightarrow> take (length vals) (tpdo_buffer T' (wd_bus W')) = vals" "\<not> changed \<longrightarrow> W' = W"
    using tpdo_event_step [OF T1(1) assms(2) t, of odf SYNC, unfolded send T1(2,3,5,6)] by blast
  have "CO_process_TPDO False env odf dict CO_NMT_OPERATIONAL SYNC False dt W None [(T, comm, mp)] = Some ([T'], W', None)"
    using assms(5) p(1) by (simp add: CO_process_TPDO_def tpdo_node_step_def CO_TPDOisCOS_spec [OF assms(1)] changed_def
        cos_pending_def T1_def)
  moreover have "\<not> cos_pending vals T' (wd_bus W')"
  proof (cases changed)
    case True
    then have "tpdo_buffer T' (wd_bus W') ! i = vals ! i" if "i < length vals" for i
      using p(9) nth_take [OF that, of "tpdo_buffer T' (wd_bus W')"] by simp
    then show ?thesis by (auto simp: cos_pending_def)
  next
    case False
    then show ?thesis using p(7,8,10) by (simp add: changed_def cos_pending_def tpdo_buffer_def)
  qed
  ultimately show ?thesis using p(3-6,10) new_frames_extends [OF p(2)]
    by (intro exI [of _ T'] exI [of _ W']) (simp add: changed_def)
qed

text \<open>Calls of \<^verbatim>\<open>CO_process_TPDO\<close> on one transmit PDO, with the times between them.\<close>

fun tpdo_calls ::
    "can_env \<Rightarrow> 'w odf_call \<Rightarrow> CO_SDO_OD \<Rightarrow> CO_SYNC_t option \<Rightarrow> CO_TPDOCommPar_t \<Rightarrow> CO_PDOMapPar_t \<Rightarrow> u32 list \<Rightarrow>
     CO_TPDO_t \<Rightarrow> 'w od_world \<Rightarrow> (CO_TPDO_t \<times> 'w od_world) option" where
  "tpdo_calls env odf dict SYNC comm mp [] T W = Some (T, W)"
| "tpdo_calls env odf dict SYNC comm mp (dt # dts) T W = do {
     (Ts, W1, _) \<leftarrow> CO_process_TPDO False env odf dict CO_NMT_OPERATIONAL SYNC False dt W None [(T, comm, mp)];
     T1 \<leftarrow> nth_opt Ts 0;
     tpdo_calls env odf dict SYNC comm mp dts T1 W1
   }"

lemma tpdo_calls_silent:
  assumes "tpdo_ok dict mp vals T W" "writes_ok env" "254 \<le> tc_transmissionType comm" "tc_eventTimer comm = 0" "\<not> tp_sendRequest T"
    and "\<not> cos_pending vals T (wd_bus W)"
  shows "\<exists>T'. tpdo_calls env odf dict SYNC comm mp dts T W = Some (T', W)"
  using assms(1,5,6)
proof (induction dts arbitrary: T)
  case Nil
  then show ?case by simp
next
  case (Cons dt dts)
  obtain T1 where "CO_process_TPDO False env odf dict CO_NMT_OPERATIONAL SYNC False dt W None [(T, comm, mp)] = Some ([T1], W, None)"
    "tpdo_ok dict mp vals T1 W" "\<not> tp_sendRequest T1" "\<not> cos_pending vals T1 (wd_bus W)"
    using cos_step [OF Cons.prems(1) assms(2-4) Cons.prems(2), of dt odf SYNC] Cons.prems(3) by blast
  then show ?case using Cons.IH [of T1] by (simp add: nth_opt_def)
qed

text \<open>
  C17: change of state. \<^verbatim>\<open>CO_process_TPDO\<close> on an event-driven transmit PDO (transmission type 254 or 255) without event timer
  and without a pending request, whose inhibit time is over, sends its frame exactly when one of the mapped bytes that are
  marked for detection differs from the frame sent last. The frame has the new values, and any number of further calls sends
  nothing more while the variables keep their values, whatever time passes between them.
\<close>

theorem tpdo_change_of_state:
  assumes "tpdo_ok dict mp vals T W" "writes_ok env" "254 \<le> tc_transmissionType comm" "tc_eventTimer comm = 0" "\<not> tp_sendRequest T"
    and "tp_inhibitTimer T \<le> dt"
  defines "changed \<equiv> \<exists>i < length vals. bit (tp_sendIfCOSFlags T) i \<and> tpdo_buffer T (wd_bus W) ! i \<noteq> vals ! i"
  shows "\<exists>T' W'. CO_process_TPDO False env odf dict CO_NMT_OPERATIONAL SYNC False dt W None [(T, comm, mp)] = Some ([T'], W', None) \<and>
    length (new_frames (wd_bus W) (wd_bus W')) = (if changed then 1 else 0) \<and>
    (\<forall>f \<in> set (new_frames (wd_bus W) (wd_bus W')). tpdo_frame T (wd_bus W) vals f) \<and>
    (\<forall>dts. \<exists>T'' W''. tpdo_calls env odf dict SYNC comm mp dts T' W' = Some (T'', W'') \<and>
      new_frames (wd_bus W') (wd_bus W'') = [])"
proof -
  have changed: "cos_pending vals T (wd_bus W) = changed" by (simp add: cos_pending_def changed_def)
  obtain T' W' where p: "CO_process_TPDO False env odf dict CO_NMT_OPERATIONAL SYNC False dt W None [(T, comm, mp)] = Some ([T'], W', None)"
    "length (new_frames (wd_bus W) (wd_bus W')) = (if changed then 1 else 0)"
    "\<forall>f \<in> set (new_frames (wd_bus W) (wd_bus W')). tpdo_frame T (wd_bus W) vals f"
    "tpdo_ok dict mp vals T' W'" "\<not> tp_sendRequest T'" "\<not> cos_pending vals T' (wd_bus W')"
    using cos_step [OF assms(1-5), of dt odf SYNC, unfolded changed] assms(6) by blast
  have "\<exists>T'' W''. tpdo_calls env odf dict SYNC comm mp dts T' W' = Some (T'', W'') \<and> new_frames (wd_bus W') (wd_bus W'') = []" for dts
    using tpdo_calls_silent [OF p(4) assms(2-4) p(5,6), of odf SYNC dts] by (auto simp: new_frames_def)
  then show ?thesis using p(1-3) by blast
qed

theorem tpdo_change_of_state_witness:
  "\<exists>T' W'. CO_process_TPDO False (example_env 0) no_odf example_pdo_dict CO_NMT_OPERATIONAL None False 0 example_tpdo_world None
     [(example_active_tpdo\<lparr>tp_sendRequest := False, tp_sendIfCOSFlags := 2\<rparr>, (example_tpdo_comm 255)\<lparr>tc_eventTimer := 0\<rparr>, example_pdo_map)] =
       Some ([T'], W', None) \<and> length (new_frames (wd_bus example_tpdo_world) (wd_bus W')) = 1"
proof -
  let ?T = "example_active_tpdo\<lparr>tp_sendRequest := False, tp_sendIfCOSFlags := 2\<rparr>" and ?c = "(example_tpdo_comm 255)\<lparr>tc_eventTimer := 0\<rparr>"
  have ok: "tpdo_ok example_pdo_dict example_pdo_map [14, 15] ?T example_tpdo_world"
    using example_tpdo_ok by (simp add: tpdo_ok_def tpdo_ptrs_def)
  have h: "254 \<le> tc_transmissionType ?c" "tc_eventTimer ?c = 0" "\<not> tp_sendRequest ?T" "tp_inhibitTimer ?T \<le> 0"
    by (simp_all add: example_tpdo_comm_def example_active_tpdo_def example_tpdo_def)
  have "tpdo_buffer ?T (wd_bus example_tpdo_world) = replicate 8 0"
    by (simp add: tpdo_buffer_def example_active_tpdo_def example_tpdo_world_def bus_buf_upd example_bus_def example_tx_def)
      (simp add: bus_buf_def numeral_eq_Suc)
  then have ch: "\<exists>i < length [14, 15 :: u8]. bit (tp_sendIfCOSFlags ?T) i \<and> tpdo_buffer ?T (wd_bus example_tpdo_world) ! i \<noteq> [14, 15] ! i"
    by (intro exI [of _ 1]) (simp add: bit_numeral_rec)
  show ?thesis using tpdo_change_of_state [OF ok example_writes_ok h, of no_odf None] ch by auto
qed

end
