(* ===== verification/SDO_Domain.thy ===== *)
theory SDO_Domain
  imports SDO_Transfer
begin

section \<open>Block download to a domain object\<close>

text \<open>
  The safety of the SDO server (\<^verbatim>\<open>SDO_Safety\<close>, \<^verbatim>\<open>SDO_Node\<close>) is shown for dictionaries without domain objects. This theory shows
  that the restriction is needed. The object of the example is the record \<^verbatim>\<open>0x2120\<close> of \<^verbatim>\<open>example/CO_OD.c\<close>, whose sub-index 5 is a
  writable domain.

  In the case \<^verbatim>\<open>CO_SDO_ST_DOWNLOAD_BL_SUB_RESP_2\<close> the server empties the buffer of a domain object, sets \<^verbatim>\<open>bufferOffset\<close> to 0 and
  keeps \<^verbatim>\<open>sequence\<close>. A second segment with a wrong number that carries the bit of the last segment then ends the block with
  \<^verbatim>\<open>bufferOffset\<close> 0, and the case \<^verbatim>\<open>CO_SDO_ST_DOWNLOAD_BL_END\<close> subtracts the number of unused bytes, which the client chooses, from
  it: \<^verbatim>\<open>crc16_ccitt\<close> is called with up to 65535 bytes of the buffer of 889 bytes.
\<close>

definition domain_dict :: CO_SDO_OD where
  "domain_dict = \<lparr>sdo_OD = [\<lparr>od_index = 0x2120, od_maxSubIndex = 5, od_attribute = 0, od_length = 0,
       od_pData = PRecord [\<lparr>mem_pData = Some 0, mem_attribute = 0x06, mem_length = 1\<rparr>, \<lparr>mem_pData = Some 8, mem_attribute = 0xBE, mem_length = 8\<rparr>,
         \<lparr>mem_pData = Some 16, mem_attribute = 0xBE, mem_length = 8\<rparr>, \<lparr>mem_pData = Some 24, mem_attribute = 0xBE, mem_length = 4\<rparr>,
         \<lparr>mem_pData = Some 32, mem_attribute = 0xBE, mem_length = 8\<rparr>, \<lparr>mem_pData = None, mem_attribute = 0x0E, mem_length = 0\<rparr>]\<rparr>],
      sdo_ODSize = 1, sdo_ODExtensions = [no_ext]\<rparr>"

definition domain_start :: "u8 list \<Rightarrow> CO_SDO_t" where
  \<comment> \<open>an idle server with some bytes in the buffer\<close>
  "domain_start D = example_sdo\<lparr>sdo_dict := domain_dict, sdo_ODF_arg := example_arg D\<rparr>"

definition domain_state ::
    "u8 list \<Rightarrow> u8 list list \<Rightarrow> u8 \<Rightarrow> CO_SDO_state_t \<Rightarrow> u16 \<Rightarrow> u8 \<Rightarrow> u32 \<Rightarrow> u16 \<Rightarrow> bool \<Rightarrow> u32 \<Rightarrow> CO_SDO_t" where
  \<comment> \<open>the server in a block download with CRC: contents of the buffer and of the message queue, its position, state,
      \<^verbatim>\<open>bufferOffset\<close>, \<^verbatim>\<open>sequence\<close>, timer, CRC, whether the buffer was not emptied yet, and the offset in the object\<close>
  "domain_state D rx p st off seq tmr crc fs offs = (domain_start D)
     \<lparr>sdo_CANrxData := rx, sdo_bufferOffset := off, sdo_entryNo := 0, sdo_state := st, sdo_sequence := seq, sdo_timeoutTimer := tmr,
      sdo_blksize := 127, sdo_crcEnabled := True, sdo_crc := crc, sdo_CANrxRcv := p, sdo_CANrxProc := p,
      sdo_ODF_arg := (example_arg D)\<lparr>arg_ODdataStorage := ONull, arg_dataLength := 889, arg_index := 0x2120, arg_subIndex := 5,
        arg_firstSegment := fs, arg_lastSegment := fs, arg_dataLengthTotal := 0, arg_offset := offs\<rparr>\<rparr>"

subsection \<open>The exchanges one by one\<close>

lemma domain_found: "CO_OD_find domain_dict 0x2120 = 0"
proof -
  have "od_inv domain_dict" by (simp add: od_inv_def domain_dict_def od_entry_ok_def)
  from CO_OD_find_nth [OF this, of 0] show ?thesis by (simp add: domain_dict_def)
qed

lemma domain_object:
  "CO_OD_getDataPointer domain_dict 0 5 = Some ONull" "CO_OD_getLength domain_dict 0 5 = Some 889"
  "CO_OD_getAttribute domain_dict 0 5 = Some 0x0E" "CO_OD_getFlagsPointer domain_dict 0 5 = None"
  "od_maxSubIndex (sdo_OD domain_dict ! 0) = 5" "length (sdo_OD domain_dict) = 1" "sdo_ODExtensions domain_dict = [no_ext]"
  by (simp_all add: domain_dict_def CO_OD_getDataPointer_def CO_OD_getLength_def CO_OD_getAttribute_def od_member_def nth_opt_def
      CO_CONFIG_SDO_BUFFER_SIZE_def CO_OD_getFlagsPointer_def no_ext_def)

lemma link_steps:
  "link_ok txb n W \<Longrightarrow> k + length bs \<le> 8 \<Longrightarrow> link_ok txb n (sdo_tx txb k bs W)"
  "link_ok txb n W \<Longrightarrow> accepting env \<Longrightarrow> link_ok txb n (sdo_send env txb W)"
  "link_ok txb n W \<Longrightarrow> \<not> tx_bufferFull (bus_buf (wd_bus W) txb)"
  by (simp_all add: link_ok_tx link_ok_send) (simp add: link_ok_def bus_ready_def)

lemma u8_small: "\<not> (2 :: u8) \<le> 1" "\<not> (127 :: u8) \<le> 1"
  by (simp_all add: word_le_nat_alt)

lemmas domain_run = sdo_exchange_def CO_SDO_receive_def client_msg_def CO_SDO_receive_done_def sdo_receive_segment_def
  CO_SDO_process_def sdo_select_def sdo_request_def sdo_check_def sdo_timeout_def sdo_switch_def sdo_finish_def
  CO_SDO_initTransfer_def sdo_download_bl_initiate_def sdo_download_bl_sub_resp_def sdo_sub_resp_end_def sdo_download_bl_end_def
  CO_SDO_writeOD_def sdo_call_def sdo_func_def sdo_advance_def sdo_upd_arg_def sdo_append_def sdo_put_data_def sdo_get_data_def
  CO_SDO_process_done_def sdo_blocks_def CO_CONFIG_SDO_BUFFER_SIZE_def nth_opt_def CO_SDO_RX_DATA_SIZE_def lower_timer_def Let_def
  domain_state_def domain_start_def example_sdo_def example_arg_def no_ext_def CO_ODA_WRITEABLE_def domain_found domain_object u8_small

text \<open>The request opens the block download, and the first segment arrives.\<close>

lemma domain_opened:
  assumes "length D = 889" "link_ok 0 n W" "accepting env"
  shows "\<exists>W'. sdo_exchange odf env 1000 [0xC4, 0x20, 0x21, 5, 0, 0, 0, 0] (domain_start D, W) =
    Some (domain_state D [[0xC4, 0x20, 0x21, 5, 0, 0, 0, 0], replicate 8 0] 1 CO_SDO_ST_DOWNLOAD_BL_SUBBLOCK 0 0 0 0 True 0, W') \<and> link_ok 0 n W'"
  using assms by (simp add: domain_run link_steps [where n = n])

lemma domain_first:
  assumes "length D = 889" "link_ok 0 n W"
  shows "sdo_exchange odf env 1000 [0x01, 1, 2, 3, 4, 5, 6, 7] (domain_state D [r1, r2] 1 CO_SDO_ST_DOWNLOAD_BL_SUBBLOCK 0 0 0 0 True 0, W) =
    Some (domain_state (memcpy_at D 0 [1, 2, 3, 4, 5, 6, 7]) [r1, r2[0 := 1]] 1 CO_SDO_ST_DOWNLOAD_BL_SUBBLOCK 7 1 1000 0 True 0, W)"
  using assms by (simp add: domain_run link_steps [where n = n])

text \<open>A segment with a wrong number empties the buffer; the sequence number stays.\<close>

lemma domain_flushed:
  assumes "length D = 889" "link_ok 0 n W" "accepting env"
  shows "\<exists>c W'. sdo_exchange odf env 1000 [0x05, 0, 0, 0, 0, 0, 0, 0]
      (domain_state D [r1, b # r2] 1 CO_SDO_ST_DOWNLOAD_BL_SUBBLOCK 7 1 1000 0 True 0, W) =
    Some (domain_state D [r1, 5 # r2] 0 CO_SDO_ST_DOWNLOAD_BL_SUBBLOCK 0 1 0 c False 7, W') \<and> link_ok 0 n W'"
  using assms by (simp add: domain_run link_steps [where n = n])

text \<open>Another one with the bit of the last segment ends the block, with an empty buffer.\<close>

lemma domain_ended:
  assumes "length D = 889" "link_ok 0 n W" "accepting env"
  shows "\<exists>W'. sdo_exchange odf env 1000 [0x85, 0, 0, 0, 0, 0, 0, 0]
      (domain_state D [b # r1, r2] 0 CO_SDO_ST_DOWNLOAD_BL_SUBBLOCK 0 1 0 c False 7, W) =
    Some (domain_state D [0x85 # r1, r2] 1 CO_SDO_ST_DOWNLOAD_BL_END 0 1 0 c False 7, W') \<and> link_ok 0 n W'"
  using assms by (simp add: domain_run link_steps [where n = n])

lemma domain_end_request:
  assumes "length D = 889" "link_ok 0 n W"
  shows "\<exists>S. CO_SDO_receive (domain_state D [r1, r2] 1 CO_SDO_ST_DOWNLOAD_BL_END 0 1 0 c False 7) (client_msg [0xDD, 0, 0, 0, 0, 0, 0, 0]) = Some S \<and>
    CO_SDO_process odf env S W True 1000 None = None"
  using assms by (simp add: domain_run link_steps [where n = n])

subsection \<open>The whole session\<close>

definition overrun_requests :: "u8 list list" where
  "overrun_requests = [[0xC4, 0x20, 0x21, 5, 0, 0, 0, 0], [0x01, 1, 2, 3, 4, 5, 6, 7], [0x05, 0, 0, 0, 0, 0, 0, 0],
     [0x85, 0, 0, 0, 0, 0, 0, 0]]"

text \<open>
  A client that sends these five messages makes \<^verbatim>\<open>CO_SDO_process\<close> read behind the end of its buffer, whatever access functions the
  node has.
\<close>

theorem domain_block_overrun:
  assumes "length D = 889" "link_ok 0 n W" "accepting env"
  shows "\<exists>S W' S'. sdo_session odf env 1000 overrun_requests (domain_start D, W) = Some (S, W') \<and>
    CO_SDO_receive S (client_msg [0xDD, 0, 0, 0, 0, 0, 0, 0]) = Some S' \<and> CO_SDO_process odf env S' W' True 1000 None = None"
proof -
  let ?D = "memcpy_at D 0 [1, 2, 3, 4, 5, 6, 7]"
  have D: "length ?D = 889" using assms(1) by simp
  have z: "(replicate 8 0)[0 := 1] = (1 :: u8) # replicate 7 0" by (simp add: numeral_eq_Suc)
  obtain W1 where 1: "sdo_exchange odf env 1000 [0xC4, 0x20, 0x21, 5, 0, 0, 0, 0] (domain_start D, W) =
    Some (domain_state D [[0xC4, 0x20, 0x21, 5, 0, 0, 0, 0], replicate 8 0] 1 CO_SDO_ST_DOWNLOAD_BL_SUBBLOCK 0 0 0 0 True 0, W1)"
    "link_ok 0 n W1" using domain_opened [OF assms] by blast
  obtain c W2 where 2: "sdo_exchange odf env 1000 [0x05, 0, 0, 0, 0, 0, 0, 0]
      (domain_state ?D [[0xC4, 0x20, 0x21, 5, 0, 0, 0, 0], 1 # replicate 7 0] 1 CO_SDO_ST_DOWNLOAD_BL_SUBBLOCK 7 1 1000 0 True 0, W1) =
    Some (domain_state ?D [[0xC4, 0x20, 0x21, 5, 0, 0, 0, 0], 5 # replicate 7 0] 0 CO_SDO_ST_DOWNLOAD_BL_SUBBLOCK 0 1 0 c False 7, W2)"
    "link_ok 0 n W2" using domain_flushed [OF D 1(2) assms(3)] by blast
  obtain W3 where 3: "sdo_exchange odf env 1000 [0x85, 0, 0, 0, 0, 0, 0, 0]
      (domain_state ?D [[0xC4, 0x20, 0x21, 5, 0, 0, 0, 0], 5 # replicate 7 0] 0 CO_SDO_ST_DOWNLOAD_BL_SUBBLOCK 0 1 0 c False 7, W2) =
    Some (domain_state ?D [[0x85, 0x20, 0x21, 5, 0, 0, 0, 0], 5 # replicate 7 0] 1 CO_SDO_ST_DOWNLOAD_BL_END 0 1 0 c False 7, W3)"
    "link_ok 0 n W3" using domain_ended [OF D 2(2) assms(3)] by blast
  have "sdo_session odf env 1000 overrun_requests (domain_start D, W) =
    Some (domain_state ?D [[0x85, 0x20, 0x21, 5, 0, 0, 0, 0], 5 # replicate 7 0] 1 CO_SDO_ST_DOWNLOAD_BL_END 0 1 0 c False 7, W3)"
    using 1(1) domain_first [OF assms(1) 1(2), of odf env "[0xC4, 0x20, 0x21, 5, 0, 0, 0, 0]" "replicate 8 0"] 2(1) 3(1)
    by (simp only: overrun_requests_def sdo_session.simps bind.bind_lunit z)
  then show ?thesis using domain_end_request [OF D 3(2)] by blast
qed

end
