(* ===== verification/Spec2Isabelle.thy ===== *)
theory Spec2Isabelle
  imports Crc16 Fifo_Data HB_Consumer Time_Stamp Leds Gfc SDO_Node SDO_Errors LSS_Fastscan LSS_Select LSS_Safety
    PDO_Node SDO_Domain
begin

text \<open>
  This library verifies the CANopen stack of the repository: \<^verbatim>\<open>src/lib/canopen\<close>, the protocol components under
  \<^verbatim>\<open>src/lib/canopen/src\<close> and the CAN driver for the target in \<^verbatim>\<open>src/lib/canopen/CO_driver.c\<close>. The stack is one
  object per protocol service. Each service has an \<^verbatim>\<open>init\<close> function, a receive function that the driver calls
  for a message with its identifier, a \<^verbatim>\<open>process\<close> function that the application calls in a loop with the time
  since the last call, and sends through \<^verbatim>\<open>CO_CANsend\<close>. Services report errors to the emergency object, which
  computes the error register; the NMT state machine reads the error register; most services run only in the
  pre-operational and operational states of the NMT state machine.

  \<^bold>\<open>Theories and sources.\<close>
  \<^item> \<^verbatim>\<open>CO_Prelude\<close>: names of the C integer types (words of 8 to 64 bits), little endian packing, lemmas on words.
  \<^item> \<^verbatim>\<open>Crc16\<close> (\<^verbatim>\<open>301/crc16-ccitt.c\<close>): the table driven checksum equals polynomial division bit by bit; it
    can be computed in pieces and detects every error burst of up to 16 bits.
  \<^item> \<^verbatim>\<open>Ring_Queue\<close>: index arithmetic of ring buffers and the locale \<^verbatim>\<open>bounded_queue\<close>, the contract of a bounded
    first-in first-out queue. Interpreted by the byte FIFO (\<^verbatim>\<open>Fifo\<close>) and by the ring of emergency messages
    (\<^verbatim>\<open>Em_Report\<close>).
  \<^item> \<^verbatim>\<open>Fifo\<close>, \<^verbatim>\<open>Fifo_Ascii\<close>, \<^verbatim>\<open>Fifo_Data\<close> (\<^verbatim>\<open>301/CO_fifo.c\<close>, \<^verbatim>\<open>CO_fifo.h\<close>): the circular buffer with its
    alternate read pointer; command search, trimming and tokenizer; conversion of data types to and from text.
    The buffer is shown to be a queue of bytes, the tokenizer to return and to deliver the words of a line,
    printing and parsing to be inverse; three defects of the conversions are proved.
  \<^item> \<^verbatim>\<open>OD_Access\<close> (\<^verbatim>\<open>301/CO_SDOserver.c\<close>, the functions \<^verbatim>\<open>CO_OD_*\<close>): the binary search finds exactly the
    entry of an index, the access functions stay within the tables, and configuration changes one entry only.
  \<^item> \<^verbatim>\<open>Em_Report\<close> (\<^verbatim>\<open>301/CO_Emergency.c\<close>, reporting): error flags and the ring of waiting messages, with the locale
    \<^verbatim>\<open>error_flags\<close> for what the clients of \<^verbatim>\<open>CO_errorReport\<close> and \<^verbatim>\<open>CO_errorReset\<close> rely on.
  \<^item> \<^verbatim>\<open>Can_Driver\<close> (\<^verbatim>\<open>CO_driver.c\<close>): opening, buffers and \<^verbatim>\<open>CO_CANsend\<close>, with the locale \<^verbatim>\<open>can_sender\<close> for what the
    senders rely on.
  \<^item> \<^verbatim>\<open>Emergency\<close> (\<^verbatim>\<open>301/CO_Emergency.c\<close>, processing): the emergency producer and consumer, the error register,
    the pre-defined error field.
  \<^item> \<^verbatim>\<open>NMT_Heartbeat\<close> (\<^verbatim>\<open>301/CO_NMT_Heartbeat.c\<close>): the NMT state machine and the heartbeat producer, with the step
    relation \<^verbatim>\<open>nmt_step\<close> for its runs.
  \<^item> \<^verbatim>\<open>HB_Consumer\<close> (\<^verbatim>\<open>301/CO_HBconsumer.c\<close>): monitoring of other nodes; the loop over the nodes refines the
    abstract machine \<^verbatim>\<open>hb_next_state\<close>, and \<^verbatim>\<open>hb_step\<close> gives the runs with writes to object 0x1016.
  \<^item> \<^verbatim>\<open>Sync\<close> (\<^verbatim>\<open>301/CO_SYNC.c\<close>): SYNC producer and consumer with its three configuration objects, with the step
    relation \<^verbatim>\<open>sync_step\<close>.
  \<^item> \<^verbatim>\<open>Time_Stamp\<close> (\<^verbatim>\<open>301/CO_TIME.c\<close>), \<^verbatim>\<open>Leds\<close> (\<^verbatim>\<open>303/CO_LEDs.c\<close>), \<^verbatim>\<open>Gfc\<close> (\<^verbatim>\<open>304/CO_GFC.c\<close>): TIME message,
    indicator LEDs against a closed form pattern, global fail-safe command.
  \<^item> \<^verbatim>\<open>SDO_Server\<close> (\<^verbatim>\<open>301/CO_SDOserver.c\<close>, the protocol): reception, access to objects and the transfer state machine
    of \<^verbatim>\<open>CO_SDO_process\<close>, one definition per case of its \<^verbatim>\<open>switch\<close>.
  \<^item> \<^verbatim>\<open>SDO_Safety\<close>: the invariant of the server, state by state, and the locale \<^verbatim>\<open>od_functions\<close>, the contract of the
    functions that are registered with objects; every call keeps the invariant, stays within the buffer and the
    variables and respects the attributes of the objects. \<^verbatim>\<open>SDO_Node\<close> interprets the locale with the functions the
    services of the stack register (emergency, SYNC, heartbeat consumer, PDO) and gives the theorem for all runs. Both are for
    dictionaries without domain objects; \<^verbatim>\<open>SDO_Domain\<close> shows that a block download to a writable domain object reads behind
    the buffer.
  \<^item> \<^verbatim>\<open>SDO_Transfer\<close>, \<^verbatim>\<open>SDO_Block\<close>, \<^verbatim>\<open>SDO_Errors\<close>: complete sessions of a client: downloads and uploads (expedited and
    segmented) are inverse, a block download is stored only if its CRC is right, refused requests and timeouts end
    with the right abort message.
  \<^item> \<^verbatim>\<open>LSS_Slave\<close>, \<^verbatim>\<open>LSS_Master\<close> (\<^verbatim>\<open>305/CO_LSSslave.c\<close>, \<^verbatim>\<open>305/CO_LSSmaster.c\<close>): both sides of the layer setting services.
    \<^verbatim>\<open>LSS_Net\<close> joins a master and any number of slaves by a bus, in rounds of one call of the master each.
    \<^verbatim>\<open>LSS_Fastscan\<close> shows that the fastscan finds the slave with the smallest address, \<^verbatim>\<open>LSS_Select\<close> and \<^verbatim>\<open>LSS_Config\<close> that
    a slave can be selected by its address, given a node-ID and read back, \<^verbatim>\<open>LSS_Safety\<close> that no sequence of messages
    takes a slave out of its invariant.
  \<^item> \<^verbatim>\<open>PDO\<close> (\<^verbatim>\<open>301/CO_PDO.c\<close>): receive and transmit PDOs with their communication and mapping parameters and the
    functions of the dictionary that change them. \<^verbatim>\<open>PDO_Map\<close> shows that the mapping joins exactly the bytes of the
    mapped objects, \<^verbatim>\<open>PDO_Receive\<close> that a received message is copied as a whole or not at all and that a synchronous
    message waits for its SYNC, \<^verbatim>\<open>PDO_Transmit\<close> when an event driven or cyclic PDO is sent, \<^verbatim>\<open>PDO_Transfer\<close> that the
    objects of one node arrive in the objects of another, \<^verbatim>\<open>PDO_Access\<close> how writes to the parameters act, and \<^verbatim>\<open>PDO_Node\<close>
    holds \<^verbatim>\<open>CO_process_RPDO\<close> and \<^verbatim>\<open>CO_process_TPDO\<close> of \<^verbatim>\<open>CANopen.c\<close>.
  \<^item> \<^verbatim>\<open>Tx_Frames\<close>: what filling and sending a transmit buffer does to the buffers and to the frames on the bus, shared by
    the SDO, LSS and PDO theories.
  \<^item> this theory: \<^verbatim>\<open>CO_process_SYNC\<close> of \<^verbatim>\<open>CANopen.c\<close> and the properties that span components.

  \<^bold>\<open>Modelling.\<close> A C structure is a record with the names of its fields behind a prefix, an enumeration a
  datatype, an integer a word of its width, so that arithmetic wraps as in C. A handler takes the state it
  reads and returns the state it changes; all services share the record \<^verbatim>\<open>co_bus\<close>, which joins the CAN module with
  the emergency object. A pointer to a transmit buffer is an index into the array of buffers, \<^verbatim>\<open>None\<close> for \<^verbatim>\<open>NULL\<close>.
  A result of type \<^verbatim>\<open>option\<close> is \<^verbatim>\<open>None\<close> exactly where the C code would read or write through \<^verbatim>\<open>NULL\<close> or outside an
  array. Callbacks registered by the application are kept as whether they are set, and their calls are
  logged. Feature flags have the values of \<^verbatim>\<open>CO_config.h\<close> and \<^verbatim>\<open>CO_OD.h\<close> of the target.

  \<^bold>\<open>Parameters.\<close> The CAN device of the operating system (\<^verbatim>\<open>open\<close>, \<^verbatim>\<open>ioctl\<close>, \<^verbatim>\<open>write\<close> and the constants of its
  header) is not part of the repository. It is the argument \<^verbatim>\<open>can_env\<close>, functions that give the result of a
  call from the calls made before; a theorem that needs a device that accepts filters or is not busy has this as
  a named hypothesis, and its witness uses \<^verbatim>\<open>example_env\<close>. Functions that the application registers with objects are
  the field \<^verbatim>\<open>no_user\<close> of \<^verbatim>\<open>SDO_Node\<close>, which may abort and keep a state, under the hypothesis that they stay within the
  buffer they are given.

  \<^bold>\<open>Loops.\<close> Every loop is a total function: structural recursion over the array, or a measure (the interval of
  the binary search, the bytes left in a buffer, the time left in the LED timer). A service of the LSS
  master is a function the application calls again and again: \<^verbatim>\<open>lss_run\<close> bounds the number of calls, and the theorems say
  how many calls are enough: for a fastscan one and 133 times the calls that reach the timeout, at any fixed interval of
  the calls; for calls that are a timeout apart five for the inquiries and two for the others. The loop of \<^verbatim>\<open>CO_RPDO_process\<close>
  copies again while a new message has arrived: the messages that arrive during the copies are a list, and the
  recursion is over that list.

  \<^bold>\<open>Not modelled.\<close> The SDO client, SRDO, the ASCII gateway, the trace
  recorder and the other functions of \<^verbatim>\<open>CANopen.c\<close>, which compose them. Domain objects are part of the model of
  the SDO server, but not of its safety theorem. The two floating point conversions of \<^verbatim>\<open>CO_fifo.c\<close>: HOL has no IEEE arithmetic in the libraries
  used here. The drivers under \<^verbatim>\<open>src/drivers\<close> and \<^verbatim>\<open>src/arch\<close> are register accesses or vendor code, \<^verbatim>\<open>src/lib/gui\<close>
  is a vendored toolkit, and the files under \<^verbatim>\<open>socketCAN\<close> and \<^verbatim>\<open>example\<close> are for other targets.
\<close>

section \<open>SYNC processing of the node (\<^verbatim>\<open>CANopen.c\<close>)\<close>

text \<open>
  \<^verbatim>\<open>CO_process_SYNC\<close> of \<^verbatim>\<open>CANopen.c\<close> joins the SYNC component with the driver: when the synchronous window is
  left, the synchronous PDOs that still wait in transmit buffers are deleted. The macro
  \<^verbatim>\<open>OD_synchronousWindowLength\<close> and \<^verbatim>\<open>co->nodeIdUnconfigured\<close> are arguments.
\<close>

definition CO_process_SYNC ::
    "can_env \<Rightarrow> bool \<Rightarrow> CO_NMT_internalState_t \<Rightarrow> CO_SYNC_t \<Rightarrow> co_bus \<Rightarrow> u32 \<Rightarrow> u32 \<Rightarrow> u32 option \<Rightarrow>
     (bool \<times> CO_SYNC_t \<times> co_bus \<times> u32 option) option" where
  "CO_process_SYNC env nodeIdUnconfigured operatingState SYNC bus timeDifference_us windowLength timerNext_us =
     (if nodeIdUnconfigured then Some (False, SYNC, bus, timerNext_us)
      else
        (case CO_SYNC_process env operatingState SYNC bus timeDifference_us windowLength timerNext_us of
           None \<Rightarrow> None
         | Some (status, S1, bus1, tn1) \<Rightarrow>
             (case status of
                CO_SYNC_NONE \<Rightarrow> Some (False, S1, bus1, tn1)
              | CO_SYNC_RECEIVED \<Rightarrow> Some (True, S1, bus1, tn1)
              | CO_SYNC_OUTSIDE_WINDOW \<Rightarrow> Some (False, S1, CO_CANclearPendingSyncPDOs bus1, tn1))))"

lemma clear_sync_pending:
  assumes "bus_dev_inv bus" "j < unat (can_txSize (bus_can bus))"
  shows "\<not> (tx_bufferFull (bus_buf (CO_CANclearPendingSyncPDOs bus) j) \<and> tx_syncFlag (bus_buf (CO_CANclearPendingSyncPDOs bus) j))"
proof -
  have "j < length (can_txArray (bus_can bus))" using assms by (simp add: bus_dev_inv_def bus_inv_def)
  then show ?thesis
    using assms(2) by (simp add: CO_CANclearPendingSyncPDOs_def Let_def bus_buf_def map_first_def nth_append)
qed

text \<open>
  C36: a synchronous PDO never leaves the node late: in the call of \<^verbatim>\<open>CO_process_SYNC\<close> in which the timer passes the
  end of the synchronous window, every transmit buffer that still waits with a synchronous PDO is emptied, and
  the call is not taken for the reception of a SYNC.
\<close>

theorem sync_window_clears_pdos:
  assumes "sync_inv S bus" "nmt_pre_or_operational st" "syn_insideWindow S"
    and "CO_process_SYNC env False st S bus dt w tn = Some (syncWas, S', bus', tn')" "\<not> syn_insideWindow S'"
  shows "\<not> syncWas \<and> bus_dev_inv bus' \<and>
    (\<forall>j < unat (can_txSize (bus_can bus')). \<not> (tx_bufferFull (bus_buf bus' j) \<and> tx_syncFlag (bus_buf bus' j)))"
proof -
  obtain status bus1 tn1 where p: "CO_SYNC_process env st S bus dt w tn = Some (status, sync_after S dt w, bus1, tn1)"
    and st: "status = (if sync_outside (sync_after S dt w) w \<and> syn_insideWindow S then CO_SYNC_OUTSIDE_WINDOW
            else if sync_due (sync_clock S dt) \<or> syn_CANrxNew S then CO_SYNC_RECEIVED else CO_SYNC_NONE)"
    and inv: "sync_inv (sync_after S dt w) bus1"
    by (rule CO_SYNC_process_spec [OF assms(1,2), of env dt w tn])
  have "S' = sync_after S dt w" using assms(4) p
    by (auto simp: CO_process_SYNC_def split: CO_SYNC_status_t.splits)
  then have "sync_outside (sync_after S dt w) w"
    using assms(5) by (auto simp: sync_after_def Let_def sync_outside_def split: if_splits)
  then have "status = CO_SYNC_OUTSIDE_WINDOW" using st assms(3) by simp
  then have "\<not> syncWas" "bus' = CO_CANclearPendingSyncPDOs bus1" using assms(4) p by (simp_all add: CO_process_SYNC_def)
  moreover have "bus_dev_inv (CO_CANclearPendingSyncPDOs bus1)" "can_txSize (bus_can (CO_CANclearPendingSyncPDOs bus1)) = can_txSize (bus_can bus1)"
    using sync_inv_bus [OF inv]
    by (simp_all add: CO_CANclearPendingSyncPDOs_def Let_def bus_dev_inv_def bus_inv_def bus_errorReport_em em_inv_errorReport map_first_def)
  ultimately show ?thesis using clear_sync_pending [OF sync_inv_bus [OF inv]] by simp
qed

theorem sync_window_clears_pdos_witness:
  "\<exists>S' bus' tn'. CO_process_SYNC (example_env 0) False CO_NMT_OPERATIONAL (example_sync\<lparr>syn_isProducer := False\<rparr>) example_bus 500 1000 None
     = Some (False, S', bus', tn') \<and> bus_dev_inv bus'"
proof -
  let ?S = "example_sync\<lparr>syn_isProducer := False\<rparr>"
  have st: "nmt_pre_or_operational CO_NMT_OPERATIONAL" by (simp add: nmt_pre_or_operational_def)
  obtain status bus1 tn1 where p: "CO_SYNC_process (example_env 0) CO_NMT_OPERATIONAL ?S example_bus 500 1000 None
      = Some (status, sync_after ?S 500 1000, bus1, tn1)"
    by (rule CO_SYNC_process_spec [OF example_sync_inv(2) st, of "example_env 0" 500 1000 None])
  obtain w S' bus' tn' where r: "CO_process_SYNC (example_env 0) False CO_NMT_OPERATIONAL ?S example_bus 500 1000 None = Some (w, S', bus', tn')"
    "S' = sync_after ?S 500 1000"
    using p by (cases status) (auto simp: CO_process_SYNC_def)
  have "syn_insideWindow ?S" "\<not> syn_insideWindow S'"
    unfolding r(2) by (simp_all add: sync_after_def sync_clock_def sync_tick_def sync_due_def sync_outside_def example_sync_def Let_def)
  then show ?thesis using sync_window_clears_pdos [OF example_sync_inv(2) st _ r(1)] r(1) by auto
qed

section \<open>A lost node stops the operational state\<close>

text \<open>
  The three components that react to a monitored node that fell silent, in the order in which \<^verbatim>\<open>CO_process\<close> runs
  them: the heartbeat consumer raises the error, \<^verbatim>\<open>CO_EM_process\<close> shows it in the error register and
  \<^verbatim>\<open>CO_NMT_process\<close> reads the register in the same pass.
\<close>

lemma em_collect_other:
  assumes "em_inv (bus_em bus)" "b \<notin> driver_bits" "b \<noteq> 0" "em_isError (bus_em bus) b"
  shows "em_isError (em_collect emPr bus) b"
proof -
  let ?em = "if can_CANerrorStatus (bus_can bus) \<noteq> pr_CANerrorStatusOld emPr
     then em_driver_errors (can_CANerrorStatus (bus_can bus)) (pr_CANerrorStatusOld emPr) (bus_em bus) else bus_em bus"
  have "em_inv ?em" "em_isError ?em b" using assms by (simp_all add: em_inv_driver_errors em_driver_errors_other)
  then show ?thesis by (simp add: em_collect_def em_other_errors_isError)
qed

text \<open>
  C11: if a monitored node falls silent for its configured time, then the next pass of \<^verbatim>\<open>CO_EM_process\<close> and
  \<^verbatim>\<open>CO_NMT_process\<close> takes an operational node with the default error behaviour to the pre-operational state,
  whatever the other monitored nodes, the CAN controller and the emergency queue do meanwhile.
\<close>

theorem lost_node_leaves_operational:
  assumes "bus_dev_inv bus" "hb_ready H (bus_em bus) i" "hbn_HBstate (hbc_monitoredNodes H ! i) = CO_HBconsumer_ACTIVE"
    and "list_all (hb_silent i) cs" "hb_run cs H (bus_em bus) = (H', em')"
    and "unat (hbn_time_us (hbc_monitoredNodes H ! i)) \<le>
           unat (hbn_timeoutTimer (hbc_monitoredNodes H ! i)) + sum_list (map hb_elapsed cs)"
    and "CO_EM_process env emPr (bus\<lparr>bus_em := em'\<rparr>) True dt inh tn = Some (emPr', bus2, tn2)"
    and "nmt_HB_TXbuff N = Some b" "nmt_operatingState N = CO_NMT_OPERATIONAL"
    and "CO_NMT_process env N bus2 dt hb startup (pr_errorRegister emPr') (Some [0, 0, 0, 0, 0, 0]) tn2 = Some (cmd, N', bus3, tn3)"
  shows "nmt_operatingState N' = CO_NMT_PRE_OPERATIONAL"
proof -
  let ?bus = "bus\<lparr>bus_em := em'\<rparr>"
  have "em_isError em' CO_EM_HEARTBEAT_CONSUMER" using hb_run_silent [OF assms(2-5)] assms(6) by simp
  then have "em_isError (em_collect emPr ?bus) CO_EM_HEARTBEAT_CONSUMER"
    using hb_run_em_inv [OF assms(2,5)] by (intro em_collect_other) (simp_all add: driver_bits_def)
  then have "em_errorStatusBits (em_collect emPr ?bus) ! 3 \<noteq> 0" by (auto simp: em_isError_def err_index_def)
  then have "pr_errorRegister emPr' AND CO_ERR_REG_COMM_ERR \<noteq> 0"
    using CO_EM_process_register [OF assms(7)] em_error_register_bits by simp
  then have "pr_errorRegister emPr' AND
      (CO_ERR_REG_GENERIC_ERR OR CO_ERR_REG_COMM_ERR OR CO_ERR_REG_DEV_PROFILE OR CO_ERR_REG_MANUFACTURER) \<noteq> 0"
    by (simp add: bit.conj_disj_distrib word_or_eq_0)
  then show ?thesis using CO_NMT_process_default_reaction [OF assms(8-10) refl refl] by simp
qed

theorem lost_node_leaves_operational_witness:
  "\<exists>H' em' emPr' bus2 tn2 cmd N' bus3 tn3.
     hb_run [HbProc 600000] example_hbc (bus_em example_bus) = (H', em') \<and>
     CO_EM_process (example_env 0) example_emPr (example_bus\<lparr>bus_em := em'\<rparr>) True 0 10 None = Some (emPr', bus2, tn2) \<and>
     CO_NMT_process (example_env 0) (example_nmt\<lparr>nmt_operatingState := CO_NMT_OPERATIONAL\<rparr>) bus2 0 0 0
       (pr_errorRegister emPr') (Some [0, 0, 0, 0, 0, 0]) tn2 = Some (cmd, N', bus3, tn3) \<and>
     nmt_operatingState N' = CO_NMT_PRE_OPERATIONAL"
proof -
  let ?N = "example_nmt\<lparr>nmt_operatingState := CO_NMT_OPERATIONAL\<rparr>"
  have em: "bus_em example_bus = example_em" by (simp add: example_bus_def)
  have node: "hbc_monitoredNodes example_hbc ! 0 = example_hb_node 5 CO_HBconsumer_ACTIVE 400000 1000000"
    by (simp add: example_hbc_def)
  have ready: "hb_ready example_hbc (bus_em example_bus) 0"
    using example_hbc_inv example_em_inv
    by (simp add: em hb_ready_def node hbc_number_def) (simp add: example_hbc_def example_hb_node_def)
  obtain H' em' where r: "hb_run [HbProc 600000] example_hbc (bus_em example_bus) = (H', em')" by fastforce
  have tx: "pr_CANtxBuff example_emPr = Some 0" and late: "\<not> ucast (10 :: u16) * 100 \<le> em_timer example_emPr 0 10"
    by (simp_all add: em_timer_def example_emPr_def)
  have "\<exists>x. CO_EM_process (example_env 0) example_emPr (example_bus\<lparr>bus_em := em'\<rparr>) True 0 10 None = Some x"
    unfolding CO_EM_process_eq [OF tx] if_not_P [OF late] by simp
  then obtain emPr' bus2 tn2 where e:
    "CO_EM_process (example_env 0) example_emPr (example_bus\<lparr>bus_em := em'\<rparr>) True 0 10 None = Some (emPr', bus2, tn2)"
    by (metis prod_cases3)
  have N: "nmt_HB_TXbuff ?N = Some 1" "nmt_operatingState ?N = CO_NMT_OPERATIONAL" by (simp_all add: example_nmt_def)
  obtain cmd N' bus3 tn3 where n: "CO_NMT_process (example_env 0) ?N bus2 0 0 0 (pr_errorRegister emPr') (Some [0, 0, 0, 0, 0, 0]) tn2
      = Some (cmd, N', bus3, tn3)"
    using CO_NMT_process_runs [OF N(1) refl refl] by blast
  have "nmt_operatingState N' = CO_NMT_PRE_OPERATIONAL"
    by (rule lost_node_leaves_operational [OF example_bus_inv ready _ _ r _ e N n]) (simp_all add: node example_hb_node_def)
  then show ?thesis using r e n by blast
qed

section \<open>A busy device silences the emergency producer\<close>

text \<open>Calls of \<^verbatim>\<open>CO_EM_process\<close> with their arguments: the NMT state flag, the time step and the inhibit time.\<close>

fun em_run :: "can_env \<Rightarrow> (bool \<times> u32 \<times> u16) list \<Rightarrow> CO_EMpr_t \<Rightarrow> co_bus \<Rightarrow> (CO_EMpr_t \<times> co_bus) option" where
  "em_run env [] emPr bus = Some (emPr, bus)"
| "em_run env ((nmt, dt, inh) # cs) emPr bus =
     (case CO_EM_process env emPr bus nmt dt inh None of None \<Rightarrow> None | Some (emPr1, bus1, tn) \<Rightarrow> em_run env cs emPr1 bus1)"

text \<open>
  C40: when the device refuses one emergency frame with \<^verbatim>\<open>-EBUSY\<close>, the emergency producer never sends again: the
  driver leaves \<^verbatim>\<open>bufferFull\<close> set, \<^verbatim>\<open>CO_EM_process\<close> sends only while it is clear, and only \<^verbatim>\<open>CO_CANsend\<close> on that
  buffer would clear it. Every later sequence of processing calls ends with the same frames on the bus.
\<close>

theorem busy_emergency_stays_silent:
  assumes "pr_CANtxBuff emPr = Some txb" "txb < length (can_txArray (bus_can bus))" "bus_ready bus txb"
    and "env_write env (can_sent (bus_can bus)) (tx_frame (bus_buf bus txb)) = - EBUSY"
    and "CO_CANsend env bus (Some txb) = (err, bus1)"
  shows "\<exists>emPr' bus'. em_run env cs emPr bus1 = Some (emPr', bus') \<and> can_sent (bus_can bus') = can_sent (bus_can bus1)"
proof -
  have full: "tx_bufferFull (bus_buf bus1 txb)"
    using assms(2-5) by (auto simp: CO_CANsend_def bus_ready_def Let_def bus_buf_upd split: if_splits)
  have "\<exists>emPr' bus'. em_run env cs emPr bus = Some (emPr', bus') \<and> can_sent (bus_can bus') = can_sent (bus_can bus)"
    if "pr_CANtxBuff emPr = Some txb" "tx_bufferFull (bus_buf bus txb)" for emPr bus
    using that
  proof (induction cs arbitrary: emPr bus)
    case Nil
    then show ?case by simp
  next
    case (Cons c cs)
    obtain nmt dt inh where c: "c = (nmt, dt, inh)" by (cases c)
    have p: "CO_EM_process env emPr bus nmt dt inh None = Some (em_refresh emPr bus dt inh, bus\<lparr>bus_em := em_collect emPr bus\<rparr>, None)"
      using Cons.prems by (simp add: CO_EM_process_eq)
    have "pr_CANtxBuff (em_refresh emPr bus dt inh) = Some txb" "tx_bufferFull (bus_buf (bus\<lparr>bus_em := em_collect emPr bus\<rparr>) txb)"
      using Cons.prems by (simp_all add: em_refresh_def)
    from Cons.IH [OF this] show ?case by (simp add: c p)
  qed
  then show ?thesis using assms(1) full by blast
qed

theorem busy_emergency_stays_silent_witness:
  "\<exists>emPr' bus'. em_run (example_env (- 16)) [(True, 1000, 0), (True, 1000, 0)] example_emPr
       (snd (CO_CANsend (example_env (- 16)) example_bus (Some 0))) = Some (emPr', bus') \<and> length (can_sent (bus_can bus')) = 1"
proof -
  obtain err bus1 where s: "CO_CANsend (example_env (- 16)) example_bus (Some 0) = (err, bus1)" by fastforce
  have r: "bus_ready example_bus 0" by (simp add: bus_ready_def example_bus_def bus_buf_def example_tx_def)
  have "length (can_sent (bus_can bus1)) = 1"
    using CO_CANsend_ready [OF r, of "example_env (- 16)"] s by (simp add: example_bus_def)
  moreover have "pr_CANtxBuff example_emPr = Some 0" by (simp add: example_emPr_def)
  ultimately show ?thesis
    using busy_emergency_stays_silent [OF _ _ r _ s, of example_emPr "[(True, 1000, 0), (True, 1000, 0)]"] s
    by (auto simp: EBUSY_def example_bus_def)
qed

end
